(* ===== verification/Prelude.thy ===== *)
theory Prelude
  imports Complex_Main "HOL-Library.Word"
begin

text \<open>
  What every component of the library shares.  The status codes of
  include/astl/astl_errors.h and utils/astl_internal_status.hpp, with their integer values
  and the classification the C boundary uses; the result type that stands for
  std::expected<T, astl_status_code>; signed 64-bit wrap-around; the named collections of
  rewrite rules; and the generic facts on lists, maps and words the component proofs use.
\<close>

section \<open>Collections of rewrite rules\<close>

text \<open>
  status_simps: facts on status codes; float_simps: facts on the binary floating-point
  model; value_simps: evaluation of the tagged value operations; sample_simps: facts on
  samples, markers and sinks.
\<close>

named_theorems status_simps
named_theorems float_simps
named_theorems value_simps
named_theorems sample_simps

section \<open>Status codes\<close>

datatype astl_status =
    ASTL_STATUS_INTERNAL_ONLY_RANGE_MIN
  | ASTL_STATUS_SUCCESS
  | ASTL_STATUS_BAD_ARGUMENT
  | ASTL_STATUS_BAD_CONFIGURATION
  | ASTL_STATUS_INVALID_TARGET_HANDLE
  | ASTL_STATUS_INVALID_COUNTER_HANDLE
  | ASTL_STATUS_INVALID_METRIC_HANDLE
  | ASTL_STATUS_INVALID_METRIC_GROUP_HANDLE
  | ASTL_STATUS_NOT_SUPPORTED
  | ASTL_STATUS_DEPRECATED_API
  | ASTL_STATUS_NO_TARGET_FOUND
  | ASTL_STATUS_OLD_STRUCT_VERSION
  | ASTL_STATUS_NEW_STRUCT_VERSION
  | ASTL_STATUS_NO_COUNTERS_FOUND
  | ASTL_STATUS_NO_METRICS_FOUND
  | ASTL_STATUS_NO_METRIC_GROUPS_FOUND
  | ASTL_STATUS_BUFFER_TOO_SMALL
  | ASTL_STATUS_METRIC_RECEIVED_INVALID_SAMPLE
  | ASTL_STATUS_METRIC_OVERFLOW_DETECTED
  | ASTL_STATUS_INVALID_SAMPLING_INTERVAL
  | ASTL_STATUS_SAMPLING_INTERVAL_IGNORED
  | ASTL_STATUS_INVALID_COLLECTION_MODE
  | ASTL_STATUS_INVALID_FLAG_VALUE
  | ASTL_STATUS_COUNTER_NOT_SUPPORTED_ON_TARGET
  | ASTL_STATUS_METRIC_NOT_SUPPORTED_ON_TARGET
  | ASTL_STATUS_METRIC_GROUP_NOT_SUPPORTED_ON_TARGET
  | ASTL_STATUS_COLLECTION_NOT_CONFIGURED
  | ASTL_STATUS_COLLECTION_NOT_RUNNING
  | ASTL_STATUS_COLLECTION_NOT_STOPPED
  | ASTL_STATUS_COLLECTION_NOT_PAUSED
  | ASTL_STATUS_COLLECTION_ALREADY_RUNNING
  | ASTL_STATUS_COLLECTION_ALREADY_STOPPED
  | ASTL_STATUS_COLLECTION_ALREADY_PAUSED
  | ASTL_STATUS_NO_DATA_COLLECTED
  | ASTL_STATUS_BUFFER_LARGER_THAN_NEEDED
  | ASTL_STATUS_UNSUPPORTED_COLLECTOR_TYPE
  | ASTL_STATUS_FILE_OPEN_FAILED
  | ASTL_STATUS_FILE_ERROR
  | ASTL_STATUS_OUT_OF_MEMORY
  | ASTL_STATUS_INVALID_VALUE_TYPE
  | ASTL_STATUS_INVALID_STATE_TRANSITION
  | ASTL_STATUS_PAUSE_UNSUPPORTED
  | ASTL_STATUS_RESUME_UNSUPPORTED
  | ASTL_STATUS_INTERNAL_ERROR
  | kInternalUnknownError
  | kInternalNotImplemented
  | kInternalDivideByZero
  | kInternalOperationIdExhausted

text \<open>The enumerator values, static_cast<int>(status).\<close>

fun status_code :: "astl_status \<Rightarrow> int" where
  "status_code ASTL_STATUS_INTERNAL_ONLY_RANGE_MIN = - 4096"
| "status_code ASTL_STATUS_SUCCESS = 0"
| "status_code ASTL_STATUS_BAD_ARGUMENT = 1"
| "status_code ASTL_STATUS_BAD_CONFIGURATION = 2"
| "status_code ASTL_STATUS_INVALID_TARGET_HANDLE = 3"
| "status_code ASTL_STATUS_INVALID_COUNTER_HANDLE = 4"
| "status_code ASTL_STATUS_INVALID_METRIC_HANDLE = 5"
| "status_code ASTL_STATUS_INVALID_METRIC_GROUP_HANDLE = 6"
| "status_code ASTL_STATUS_NOT_SUPPORTED = 8"
| "status_code ASTL_STATUS_DEPRECATED_API = 9"
| "status_code ASTL_STATUS_NO_TARGET_FOUND = 10"
| "status_code ASTL_STATUS_OLD_STRUCT_VERSION = 11"
| "status_code ASTL_STATUS_NEW_STRUCT_VERSION = 12"
| "status_code ASTL_STATUS_NO_COUNTERS_FOUND = 13"
| "status_code ASTL_STATUS_NO_METRICS_FOUND = 14"
| "status_code ASTL_STATUS_NO_METRIC_GROUPS_FOUND = 15"
| "status_code ASTL_STATUS_BUFFER_TOO_SMALL = 16"
| "status_code ASTL_STATUS_METRIC_RECEIVED_INVALID_SAMPLE = 17"
| "status_code ASTL_STATUS_METRIC_OVERFLOW_DETECTED = 18"
| "status_code ASTL_STATUS_INVALID_SAMPLING_INTERVAL = 19"
| "status_code ASTL_STATUS_SAMPLING_INTERVAL_IGNORED = 20"
| "status_code ASTL_STATUS_INVALID_COLLECTION_MODE = 21"
| "status_code ASTL_STATUS_INVALID_FLAG_VALUE = 22"
| "status_code ASTL_STATUS_COUNTER_NOT_SUPPORTED_ON_TARGET = 23"
| "status_code ASTL_STATUS_METRIC_NOT_SUPPORTED_ON_TARGET = 24"
| "status_code ASTL_STATUS_METRIC_GROUP_NOT_SUPPORTED_ON_TARGET = 25"
| "status_code ASTL_STATUS_COLLECTION_NOT_CONFIGURED = 26"
| "status_code ASTL_STATUS_COLLECTION_NOT_RUNNING = 27"
| "status_code ASTL_STATUS_COLLECTION_NOT_STOPPED = 28"
| "status_code ASTL_STATUS_COLLECTION_NOT_PAUSED = 29"
| "status_code ASTL_STATUS_COLLECTION_ALREADY_RUNNING = 30"
| "status_code ASTL_STATUS_COLLECTION_ALREADY_STOPPED = 31"
| "status_code ASTL_STATUS_COLLECTION_ALREADY_PAUSED = 32"
| "status_code ASTL_STATUS_NO_DATA_COLLECTED = 33"
| "status_code ASTL_STATUS_BUFFER_LARGER_THAN_NEEDED = 34"
| "status_code ASTL_STATUS_UNSUPPORTED_COLLECTOR_TYPE = 35"
| "status_code ASTL_STATUS_FILE_OPEN_FAILED = 36"
| "status_code ASTL_STATUS_FILE_ERROR = 37"
| "status_code ASTL_STATUS_OUT_OF_MEMORY = 38"
| "status_code ASTL_STATUS_INVALID_VALUE_TYPE = 40"
| "status_code ASTL_STATUS_INVALID_STATE_TRANSITION = 41"
| "status_code ASTL_STATUS_PAUSE_UNSUPPORTED = 42"
| "status_code ASTL_STATUS_RESUME_UNSUPPORTED = 43"
| "status_code ASTL_STATUS_INTERNAL_ERROR = 127"
| "status_code kInternalUnknownError = - 1"
| "status_code kInternalNotImplemented = - 2"
| "status_code kInternalDivideByZero = - 3"
| "status_code kInternalOperationIdExhausted = - 4"

text \<open>IsInternalStatus and IsPublicApiStatus of utils/astl_internal_status.hpp.\<close>

definition IsInternalStatus :: "astl_status \<Rightarrow> bool" where
  "IsInternalStatus s \<longleftrightarrow> status_code s \<in> {- 1, - 2, - 3, - 4}"

definition IsPublicApiStatus :: "astl_status \<Rightarrow> bool" where
  "IsPublicApiStatus s \<longleftrightarrow>
     (status_code s \<ge> 0 \<and> status_code s < status_code ASTL_STATUS_INTERNAL_ERROR \<and> \<not> IsInternalStatus s)
     \<or> status_code s = status_code ASTL_STATUS_INTERNAL_ERROR"

text \<open>NormalizePublicApiStatus of src/astl_telemetry.cpp, less the thread-local detail string.\<close>

definition NormalizePublicApiStatus :: "astl_status \<Rightarrow> astl_status" where
  "NormalizePublicApiStatus s =
     (if s = ASTL_STATUS_SUCCESS then s
      else if IsInternalStatus s then ASTL_STATUS_INTERNAL_ERROR else s)"

text \<open>
  Every status except the reserved range floor leaves the C boundary as a public one; the floor
  is not among the codes IsInternalStatus lists, and would pass unchanged.
\<close>

lemma NormalizePublicApiStatus_public:
  "s \<noteq> ASTL_STATUS_INTERNAL_ONLY_RANGE_MIN \<Longrightarrow> IsPublicApiStatus (NormalizePublicApiStatus s)"
  by (cases s) (simp_all add: NormalizePublicApiStatus_def IsPublicApiStatus_def IsInternalStatus_def)

lemma NormalizePublicApiStatus_success_iff [status_simps]:
  "NormalizePublicApiStatus s = ASTL_STATUS_SUCCESS \<longleftrightarrow> s = ASTL_STATUS_SUCCESS"
  by (simp add: NormalizePublicApiStatus_def)

lemma NormalizePublicApiStatus_public_id [status_simps]:
  "IsPublicApiStatus s \<Longrightarrow> NormalizePublicApiStatus s = s"
  by (auto simp: NormalizePublicApiStatus_def IsPublicApiStatus_def IsInternalStatus_def)

text \<open>
  The values determine the enumerators: the inverse is read off the table, so that the enum
  order of C++ is a linear order on the codes.
\<close>

definition all_statuses :: "astl_status list" where
  "all_statuses =
    [ASTL_STATUS_INTERNAL_ONLY_RANGE_MIN, ASTL_STATUS_SUCCESS, ASTL_STATUS_BAD_ARGUMENT, ASTL_STATUS_BAD_CONFIGURATION,
     ASTL_STATUS_INVALID_TARGET_HANDLE, ASTL_STATUS_INVALID_COUNTER_HANDLE,
     ASTL_STATUS_INVALID_METRIC_HANDLE, ASTL_STATUS_INVALID_METRIC_GROUP_HANDLE,
     ASTL_STATUS_NOT_SUPPORTED, ASTL_STATUS_DEPRECATED_API, ASTL_STATUS_NO_TARGET_FOUND,
     ASTL_STATUS_OLD_STRUCT_VERSION, ASTL_STATUS_NEW_STRUCT_VERSION,
     ASTL_STATUS_NO_COUNTERS_FOUND, ASTL_STATUS_NO_METRICS_FOUND,
     ASTL_STATUS_NO_METRIC_GROUPS_FOUND, ASTL_STATUS_BUFFER_TOO_SMALL,
     ASTL_STATUS_METRIC_RECEIVED_INVALID_SAMPLE, ASTL_STATUS_METRIC_OVERFLOW_DETECTED,
     ASTL_STATUS_INVALID_SAMPLING_INTERVAL, ASTL_STATUS_SAMPLING_INTERVAL_IGNORED,
     ASTL_STATUS_INVALID_COLLECTION_MODE, ASTL_STATUS_INVALID_FLAG_VALUE,
     ASTL_STATUS_COUNTER_NOT_SUPPORTED_ON_TARGET, ASTL_STATUS_METRIC_NOT_SUPPORTED_ON_TARGET,
     ASTL_STATUS_METRIC_GROUP_NOT_SUPPORTED_ON_TARGET, ASTL_STATUS_COLLECTION_NOT_CONFIGURED,
     ASTL_STATUS_COLLECTION_NOT_RUNNING, ASTL_STATUS_COLLECTION_NOT_STOPPED,
     ASTL_STATUS_COLLECTION_NOT_PAUSED, ASTL_STATUS_COLLECTION_ALREADY_RUNNING,
     ASTL_STATUS_COLLECTION_ALREADY_STOPPED, ASTL_STATUS_COLLECTION_ALREADY_PAUSED,
     ASTL_STATUS_NO_DATA_COLLECTED, ASTL_STATUS_BUFFER_LARGER_THAN_NEEDED,
     ASTL_STATUS_UNSUPPORTED_COLLECTOR_TYPE, ASTL_STATUS_FILE_OPEN_FAILED,
     ASTL_STATUS_FILE_ERROR, ASTL_STATUS_OUT_OF_MEMORY, ASTL_STATUS_INVALID_VALUE_TYPE,
     ASTL_STATUS_INVALID_STATE_TRANSITION, ASTL_STATUS_PAUSE_UNSUPPORTED,
     ASTL_STATUS_RESUME_UNSUPPORTED, ASTL_STATUS_INTERNAL_ERROR, kInternalUnknownError,
     kInternalNotImplemented, kInternalDivideByZero, kInternalOperationIdExhausted]"

definition status_of_code :: "int \<Rightarrow> astl_status option" where
  "status_of_code c = List.find (\<lambda>s. status_code s = c) all_statuses"

lemma status_of_code_inverse: "status_of_code (status_code s) = Some s"
  by (cases s) (simp_all add: status_of_code_def all_statuses_def)

lemma status_code_inject [simp]: "status_code s = status_code t \<longleftrightarrow> s = t"
proof
  assume "status_code s = status_code t"
  then have "status_of_code (status_code s) = status_of_code (status_code t)"
    by (rule arg_cong)
  then show "s = t"
    unfolding status_of_code_inverse by (rule option.inject [THEN iffD1])
next
  assume "s = t"
  then show "status_code s = status_code t" by (rule arg_cong)
qed

instantiation astl_status :: linorder
begin

definition less_eq_astl_status :: "astl_status \<Rightarrow> astl_status \<Rightarrow> bool" where
  "less_eq_astl_status s t \<longleftrightarrow> status_code s \<le> status_code t"

definition less_astl_status :: "astl_status \<Rightarrow> astl_status \<Rightarrow> bool" where
  "less_astl_status s t \<longleftrightarrow> status_code s < status_code t"

instance
  by standard (auto simp: less_eq_astl_status_def less_astl_status_def)

end

section \<open>std::expected and sequencing\<close>

type_synonym 'a result = "astl_status + 'a"

fun rbind :: "'a result \<Rightarrow> ('a \<Rightarrow> 'b result) \<Rightarrow> 'b result" where
  "rbind (Inl e) f = Inl e"
| "rbind (Inr x) f = f x"

lemma rbind_eq_Inr_iff [simp]: "rbind r f = Inr y \<longleftrightarrow> (\<exists>x. r = Inr x \<and> f x = Inr y)"
  by (cases r) auto

lemma rbind_eq_Inl_iff: "rbind r f = Inl e \<longleftrightarrow> r = Inl e \<or> (\<exists>x. r = Inr x \<and> f x = Inl e)"
  by (cases r) auto

lemma rbind_assoc: "rbind (rbind r f) g = rbind r (\<lambda>x. rbind (f x) g)"
  by (cases r) auto

text \<open>
  The idiom "if (final == SUCCESS) final = status" that several loops use to report the
  first failure and still visit every element.
\<close>

definition keep_first_error :: "astl_status \<Rightarrow> astl_status \<Rightarrow> astl_status" where
  "keep_first_error acc s = (if acc = ASTL_STATUS_SUCCESS then s else acc)"

lemma keep_first_error_success [status_simps]:
  "keep_first_error acc s = ASTL_STATUS_SUCCESS \<longleftrightarrow> acc = ASTL_STATUS_SUCCESS \<and> s = ASTL_STATUS_SUCCESS"
  by (auto simp: keep_first_error_def)

lemma fold_keep_first_error_success [status_simps]:
  "fold (\<lambda>x acc. keep_first_error acc (f x)) xs acc = ASTL_STATUS_SUCCESS
   \<longleftrightarrow> acc = ASTL_STATUS_SUCCESS \<and> (\<forall>x\<in>set xs. f x = ASTL_STATUS_SUCCESS)"
  by (induction xs arbitrary: acc) (auto simp: status_simps)

section \<open>Signed 64-bit arithmetic\<close>

text \<open>
  The two's complement value of an integer kept in an int64_t.  Signed overflow is undefined
  in C++; the model writes the wrap-around the hardware does, and the theorems carry the
  range hypotheses under which it does not occur.
\<close>

definition wrap64 :: "int \<Rightarrow> int" where
  "wrap64 x = (x + 2 ^ 63) mod 2 ^ 64 - 2 ^ 63"

definition in_int64 :: "int \<Rightarrow> bool" where
  "in_int64 x \<longleftrightarrow> - (2 ^ 63) \<le> x \<and> x < 2 ^ 63"

lemma wrap64_id [simp]: "in_int64 x \<Longrightarrow> wrap64 x = x"
  by (simp add: wrap64_def in_int64_def)

lemma in_int64_wrap64 [simp]: "in_int64 (wrap64 x)"
proof -
  have "0 \<le> (x + 2 ^ 63) mod 2 ^ 64" "(x + 2 ^ 63) mod 2 ^ 64 < 2 ^ 64"
    by (rule pos_mod_sign pos_mod_bound; simp)+
  then show ?thesis by (simp add: wrap64_def in_int64_def)
qed

lemma wrap64_idem [simp]: "wrap64 (wrap64 x) = wrap64 x"
  by simp

lemma in_int64_between: "in_int64 a \<Longrightarrow> in_int64 b \<Longrightarrow> a \<le> x \<Longrightarrow> x \<le> b \<Longrightarrow> in_int64 x"
  by (simp add: in_int64_def)

section \<open>Words\<close>

lemma ucast_ucast_wider:
  "LENGTH('a) \<le> LENGTH('b) \<Longrightarrow> ucast (ucast (x :: 'a::len word) :: 'b::len word) = x"
  by (simp add: is_up_down ucast_up_ucast_id is_up.rep_eq)

lemma unat_less_pow: "unat (x :: 'a::len word) < 2 ^ LENGTH('a)"
  by (rule unsigned_less)

lemma unat_of_nat_less: "n < 2 ^ LENGTH('a) \<Longrightarrow> unat (of_nat n :: 'a::len word) = n"
  by (simp add: unat_of_nat take_bit_nat_eq_self)

lemma unat_add_le:
  fixes x y :: "'a::len word"
  assumes "unat x + unat y < 2 ^ LENGTH('a)"
  shows "unat (x + y) = unat x + unat y"
  using assms by (simp add: unat_word_ariths)

lemma unat_mult_le:
  fixes x y :: "'a::len word"
  assumes "unat x * unat y < 2 ^ LENGTH('a)"
  shows "unat (x * y) = unat x * unat y"
  using assms by (simp add: unat_word_ariths)

lemma unat_diff_le:
  fixes x y :: "'a::len word"
  assumes "y \<le> x"
  shows "unat (x - y) = unat x - unat y"
  using assms by (rule unat_sub)

lemma unat_max_word_minus:
  fixes x :: "'a::len word"
  shows "unat (- 1 - x) = 2 ^ LENGTH('a) - 1 - unat x"
  by (simp add: unat_sub word_order.extremum unsigned_minus_1_eq_mask mask_eq_exp_minus_1)

text \<open>The overflow guard "max - left < right" of an unsigned addition.\<close>

lemma max_minus_less_iff:
  fixes x y :: "'a::len word"
  shows "- 1 - x < y \<longleftrightarrow> \<not> unat x + unat y < 2 ^ LENGTH('a)"
proof -
  have "unat x < 2 ^ LENGTH('a)" by (rule unsigned_less)
  then show ?thesis
    unfolding word_less_nat_alt unat_max_word_minus by linarith
qed

section \<open>Sorted lists and association lists\<close>

lemma map_of_filter_key:
  "map_of (filter (\<lambda>p. P (fst p)) xs) k = (if P k then map_of xs k else None)"
  by (induction xs) auto

lemma distinct_map_fst_filter: "distinct (map fst xs) \<Longrightarrow> distinct (map fst (filter P xs))"
  by (induction xs) auto

lemma fold_append_concat: "fold (\<lambda>x acc. acc @ f x) xs acc = acc @ concat (map f xs)"
  by (induction xs arbitrary: acc) simp_all

end
