(* ===== verification/Ieee_Float.thy ===== *)
theory Ieee_Float
  imports Prelude "HOL-Library.Log_Nat"
begin

text \<open>
  Binary floating point as the C++ types float, double and long double give it: IEEE-754
  formats with round to nearest, ties to even.  A finite nonzero datum is its exact rational
  value; zeros and infinities carry their sign bit (True is negative).  Operations compute the
  exact rational result and round it once.  Conversions to integers saturate, as the AArch64
  conversion instructions do (the C++ conversion is undefined out of range).
\<close>

section \<open>Formats and data\<close>

record fmt =
  prec :: nat
  emax :: int

definition binary32 :: fmt where "binary32 = \<lparr>prec = 24, emax = 127\<rparr>"
definition binary64 :: fmt where "binary64 = \<lparr>prec = 53, emax = 1023\<rparr>"
definition binary128 :: fmt where "binary128 = \<lparr>prec = 113, emax = 16383\<rparr>"

definition emin :: "fmt \<Rightarrow> int" where "emin f = 1 - emax f"

definition wf_fmt :: "fmt \<Rightarrow> bool" where
  "wf_fmt f \<longleftrightarrow> 1 \<le> prec f \<and> 1 \<le> emax f \<and> int (prec f) \<le> emax f + 1"

lemma wf_fmts [simp]: "wf_fmt binary32" "wf_fmt binary64" "wf_fmt binary128"
  by (simp_all add: wf_fmt_def binary32_def binary64_def binary128_def)

lemma fmt_simps [simp]:
  "prec binary32 = 24" "emax binary32 = 127"
  "prec binary64 = 53" "emax binary64 = 1023"
  "prec binary128 = 113" "emax binary128 = 16383"
  by (simp_all add: binary32_def binary64_def binary128_def)

datatype fp = FNaN | FInf bool | FZero bool | FNum rat

fun fp_val :: "fp \<Rightarrow> rat" where
  "fp_val (FNum x) = x"
| "fp_val _ = 0"

fun fp_finite :: "fp \<Rightarrow> bool" where
  "fp_finite (FNum x) = True"
| "fp_finite (FZero s) = True"
| "fp_finite _ = False"

fun fp_neg_bit :: "fp \<Rightarrow> bool" where
  "fp_neg_bit FNaN = False"
| "fp_neg_bit (FInf s) = s"
| "fp_neg_bit (FZero s) = s"
| "fp_neg_bit (FNum x) = (x < 0)"

section \<open>Rounding\<close>

definition pow2 :: "int \<Rightarrow> rat" where "pow2 k = 2 powi k"

definition ilog2 :: "rat \<Rightarrow> int" where
  "ilog2 x =
    (case quotient_of x of (n, d) \<Rightarrow>
       let k = bitlen n - bitlen d in if pow2 k \<le> x then k else k - 1)"

definition rne :: "rat \<Rightarrow> int" where
  "rne x = (let n = \<lfloor>x\<rfloor>; d = x - of_int n in
     if d < 1 / 2 then n else if 1 / 2 < d then n + 1 else if even n then n else n + 1)"

definition ulp :: "fmt \<Rightarrow> rat \<Rightarrow> rat" where
  "ulp f x = pow2 (max (ilog2 x) (emin f) - int (prec f) + 1)"

definition round_mag :: "fmt \<Rightarrow> rat \<Rightarrow> rat" where
  "round_mag f x = of_int (rne (x / ulp f x)) * ulp f x"

definition fp_of_rat :: "fmt \<Rightarrow> bool \<Rightarrow> rat \<Rightarrow> fp" where
  "fp_of_rat f s x =
    (if x = 0 then FZero s
     else let r = round_mag f \<bar>x\<bar> in
       if r = 0 then FZero (x < 0)
       else if pow2 (emax f + 1) \<le> r then FInf (x < 0)
       else FNum (if x < 0 then - r else r))"

section \<open>Operations\<close>

definition fp_of_int :: "fmt \<Rightarrow> int \<Rightarrow> fp" where
  "fp_of_int f n = fp_of_rat f False (of_int n)"

fun fp_conv :: "fmt \<Rightarrow> fp \<Rightarrow> fp" where
  "fp_conv f (FNum x) = fp_of_rat f False x"
| "fp_conv f a = a"

fun fp_neg :: "fp \<Rightarrow> fp" where
  "fp_neg FNaN = FNaN"
| "fp_neg (FInf s) = FInf (\<not> s)"
| "fp_neg (FZero s) = FZero (\<not> s)"
| "fp_neg (FNum x) = FNum (- x)"

fun fp_add :: "fmt \<Rightarrow> fp \<Rightarrow> fp \<Rightarrow> fp" where
  "fp_add f FNaN b = FNaN"
| "fp_add f a FNaN = FNaN"
| "fp_add f (FInf s) (FInf t) = (if s = t then FInf s else FNaN)"
| "fp_add f (FInf s) b = FInf s"
| "fp_add f a (FInf t) = FInf t"
| "fp_add f (FZero s) (FZero t) = FZero (s \<and> t)"
| "fp_add f a b = fp_of_rat f False (fp_val a + fp_val b)"

definition fp_sub :: "fmt \<Rightarrow> fp \<Rightarrow> fp \<Rightarrow> fp" where
  "fp_sub f a b = fp_add f a (fp_neg b)"

definition fp_mul :: "fmt \<Rightarrow> fp \<Rightarrow> fp \<Rightarrow> fp" where
  "fp_mul f a b =
    (let s = (fp_neg_bit a \<noteq> fp_neg_bit b) in
     case (a, b) of
       (FNaN, _) \<Rightarrow> FNaN | (_, FNaN) \<Rightarrow> FNaN
     | (FInf _, FZero _) \<Rightarrow> FNaN | (FZero _, FInf _) \<Rightarrow> FNaN
     | (FInf _, _) \<Rightarrow> FInf s | (_, FInf _) \<Rightarrow> FInf s
     | _ \<Rightarrow> fp_of_rat f s (fp_val a * fp_val b))"

definition fp_div :: "fmt \<Rightarrow> fp \<Rightarrow> fp \<Rightarrow> fp" where
  "fp_div f a b =
    (let s = (fp_neg_bit a \<noteq> fp_neg_bit b) in
     case (a, b) of
       (FNaN, _) \<Rightarrow> FNaN | (_, FNaN) \<Rightarrow> FNaN
     | (FInf _, FInf _) \<Rightarrow> FNaN | (FZero _, FZero _) \<Rightarrow> FNaN
     | (FInf _, _) \<Rightarrow> FInf s | (_, FInf _) \<Rightarrow> FZero s
     | (_, FZero _) \<Rightarrow> FInf s
     | _ \<Rightarrow> fp_of_rat f s (fp_val a / fp_val b))"

text \<open>Comparison: NaN is unordered, the two zeros are equivalent.\<close>

datatype partial_ordering = PO_less | PO_equivalent | PO_greater | PO_unordered

fun fp_rank :: "fp \<Rightarrow> int" where
  "fp_rank (FInf s) = (if s then - 1 else 1)"
| "fp_rank _ = 0"

definition fp_cmp :: "fp \<Rightarrow> fp \<Rightarrow> partial_ordering" where
  "fp_cmp a b =
    (if a = FNaN \<or> b = FNaN then PO_unordered
     else if fp_rank a < fp_rank b \<or> fp_rank a = fp_rank b \<and> fp_val a < fp_val b then PO_less
     else if fp_rank a = fp_rank b \<and> fp_val a = fp_val b then PO_equivalent
     else PO_greater)"

definition fp_lt :: "fp \<Rightarrow> fp \<Rightarrow> bool" where "fp_lt a b \<longleftrightarrow> fp_cmp a b = PO_less"
definition fp_le :: "fp \<Rightarrow> fp \<Rightarrow> bool" where
  "fp_le a b \<longleftrightarrow> fp_cmp a b = PO_less \<or> fp_cmp a b = PO_equivalent"
definition fp_eq :: "fp \<Rightarrow> fp \<Rightarrow> bool" where "fp_eq a b \<longleftrightarrow> fp_cmp a b = PO_equivalent"

text \<open>Truncation towards zero and the two conversions to integers.\<close>

definition rat_trunc :: "rat \<Rightarrow> int" where
  "rat_trunc x = (if 0 \<le> x then \<lfloor>x\<rfloor> else \<lceil>x\<rceil>)"

fun fp_to_uint :: "nat \<Rightarrow> fp \<Rightarrow> int" where
  "fp_to_uint w FNaN = 0"
| "fp_to_uint w (FInf s) = (if s then 0 else 2 ^ w - 1)"
| "fp_to_uint w (FZero s) = 0"
| "fp_to_uint w (FNum x) = min (max (rat_trunc x) 0) (2 ^ w - 1)"

fun fp_to_int64 :: "fp \<Rightarrow> int" where
  "fp_to_int64 FNaN = 0"
| "fp_to_int64 (FInf s) = (if s then - (2 ^ 63) else 2 ^ 63 - 1)"
| "fp_to_int64 (FZero s) = 0"
| "fp_to_int64 (FNum x) = min (max (rat_trunc x) (- (2 ^ 63))) (2 ^ 63 - 1)"

text \<open>std::round: to the nearest integer, halves away from zero.\<close>

definition round_away :: "rat \<Rightarrow> int" where
  "round_away x = (if 0 \<le> x then \<lfloor>x + 1 / 2\<rfloor> else \<lceil>x - 1 / 2\<rceil>)"

definition fp_std_round :: "fmt \<Rightarrow> fp \<Rightarrow> fp" where
  "fp_std_round f a =
    (case a of FNum x \<Rightarrow> fp_of_rat f (x < 0) (of_int (round_away x)) | _ \<Rightarrow> a)"

text \<open>std::min, std::max and std::clamp, which compare with the built-in operator.\<close>

definition fp_min :: "fp \<Rightarrow> fp \<Rightarrow> fp" where "fp_min a b = (if fp_lt b a then b else a)"
definition fp_max :: "fp \<Rightarrow> fp \<Rightarrow> fp" where "fp_max a b = (if fp_lt a b then b else a)"
definition fp_clamp :: "fp \<Rightarrow> fp \<Rightarrow> fp \<Rightarrow> fp" where
  "fp_clamp v lo hi = (if fp_lt v lo then lo else if fp_lt hi v then hi else v)"

section \<open>Powers of two and the binary logarithm\<close>

lemma pow2_pos [simp]: "0 < pow2 k"
  by (simp add: pow2_def)

lemma pow2_nonneg [simp]: "0 \<le> pow2 k"
  by (simp add: less_imp_le)

lemma pow2_neq0 [simp]: "pow2 k \<noteq> 0"
  using pow2_pos [of k] by linarith

lemma pow2_0 [simp]: "pow2 0 = 1"
  by (simp add: pow2_def)

lemma pow2_add: "pow2 (a + b) = pow2 a * pow2 b"
  by (simp add: pow2_def power_int_add)

lemma pow2_diff: "pow2 (a - b) = pow2 a / pow2 b"
  by (simp add: pow2_def power_int_diff)

lemma pow2_Suc: "pow2 (a + 1) = 2 * pow2 a"
  by (simp add: pow2_add) (simp add: pow2_def)

lemma pow2_of_nat [simp]: "pow2 (int n) = 2 ^ n"
  by (simp add: pow2_def)

lemma pow2_nat: "0 \<le> k \<Longrightarrow> pow2 k = 2 ^ nat k"
  using pow2_of_nat [of "nat k"] by simp

lemma pow2_strict_mono: "a < b \<Longrightarrow> pow2 a < pow2 b"
  unfolding pow2_def by (rule power_int_strict_increasing) simp_all

lemma pow2_mono: "a \<le> b \<Longrightarrow> pow2 a \<le> pow2 b"
  unfolding pow2_def by (rule power_int_increasing) simp_all

lemma pow2_less_iff [simp]: "pow2 a < pow2 b \<longleftrightarrow> a < b"
  by (meson leD linorder_not_less pow2_mono pow2_strict_mono)

lemma pow2_le_iff [simp]: "pow2 a \<le> pow2 b \<longleftrightarrow> a \<le> b"
  by (meson leD linorder_not_less pow2_mono pow2_strict_mono)

lemma bitlen_pow2_bounds:
  assumes "0 < n"
  shows "pow2 (bitlen n - 1) \<le> of_int n" "of_int n < pow2 (bitlen n)"
proof -
  have b: "2 ^ nat (bitlen n - 1) \<le> n" "n < 2 ^ nat (bitlen n)"
    using bitlen_bounds [OF assms] by auto
  have pos: "0 < bitlen n"
    using assms bitlen_nonneg [of n] bitlen_eq_zero_iff [of n] by linarith
  have "pow2 (bitlen n - 1) = of_int (2 ^ nat (bitlen n - 1))"
    using pos pow2_of_nat [of "nat (bitlen n - 1)"] by simp
  then show "pow2 (bitlen n - 1) \<le> of_int n" using b(1) by (metis of_int_le_iff)
  have "pow2 (bitlen n) = of_int (2 ^ nat (bitlen n))"
    using pos pow2_of_nat [of "nat (bitlen n)"] by simp
  then show "of_int n < pow2 (bitlen n)" using b(2) by (metis of_int_less_iff)
qed

lemma ilog2_bounds:
  assumes "0 < x"
  shows "pow2 (ilog2 x) \<le> x" "x < pow2 (ilog2 x + 1)"
proof -
  obtain n d where nd: "quotient_of x = (n, d)" by (cases "quotient_of x")
  have d: "0 < d" by (rule quotient_of_denom_pos [OF nd])
  have x: "x = of_int n / of_int d" by (rule quotient_of_div [OF nd])
  have n: "0 < n" using assms d by (simp add: x zero_less_divide_iff)
  define k where "k = bitlen n - bitlen d"
  note bn = bitlen_pow2_bounds [OF n]
  note bd = bitlen_pow2_bounds [OF d]
  have dp: "(0 :: rat) < of_int d" using d by simp
  have "pow2 (k - 1) * of_int d \<le> pow2 (k - 1) * pow2 (bitlen d)"
    using bd(2) by simp
  also have "\<dots> = pow2 (bitlen n - 1)" by (simp add: k_def flip: pow2_add)
  also have "\<dots> \<le> of_int n" by (rule bn(1))
  finally have lo: "pow2 (k - 1) \<le> x" by (simp add: x le_divide_eq dp d)
  have "of_int n < pow2 (bitlen n)" by (rule bn(2))
  also have "\<dots> = pow2 (k + 1) * pow2 (bitlen d - 1)" by (simp add: k_def flip: pow2_add)
  also have "\<dots> \<le> pow2 (k + 1) * of_int d" using bd(1) by simp
  finally have hi: "x < pow2 (k + 1)" by (simp add: x divide_less_eq dp d)
  have e: "ilog2 x = (if pow2 k \<le> x then k else k - 1)"
    by (simp add: ilog2_def nd k_def Let_def)
  show "pow2 (ilog2 x) \<le> x" "x < pow2 (ilog2 x + 1)"
    using lo hi by (simp_all add: e)
qed

lemma ilog2_unique: "pow2 k \<le> x \<Longrightarrow> x < pow2 (k + 1) \<Longrightarrow> ilog2 x = k"
proof -
  assume k: "pow2 k \<le> x" "x < pow2 (k + 1)"
  have x: "0 < x" using k(1) pow2_pos [of k] by linarith
  have "pow2 k < pow2 (ilog2 x + 1)" "pow2 (ilog2 x) < pow2 (k + 1)"
    using ilog2_bounds [OF x] k by linarith+
  then show ?thesis by simp
qed

lemma ilog2_mono: "0 < x \<Longrightarrow> x \<le> y \<Longrightarrow> ilog2 x \<le> ilog2 y"
proof -
  assume x: "0 < x" and xy: "x \<le> y"
  have "0 < y" using x xy by linarith
  then have "pow2 (ilog2 x) < pow2 (ilog2 y + 1)"
    using ilog2_bounds [of x] ilog2_bounds [of y] x xy by linarith
  then show ?thesis by simp
qed

section \<open>Rounding to an integer\<close>

lemma rne_of_int [simp]: "rne (of_int n) = n"
  by (simp add: rne_def Let_def)

lemma rne_cases: "rne x = \<lfloor>x\<rfloor> \<and> x - of_int \<lfloor>x\<rfloor> \<le> 1 / 2
    \<or> rne x = \<lfloor>x\<rfloor> + 1 \<and> 1 / 2 \<le> x - of_int \<lfloor>x\<rfloor>"
  by (auto simp: rne_def Let_def)

lemma rne_error: "\<bar>of_int (rne x) - x\<bar> \<le> 1 / 2"
  using rne_cases [of x]
proof (elim disjE conjE)
  assume "rne x = \<lfloor>x\<rfloor>" "x - of_int \<lfloor>x\<rfloor> \<le> 1 / 2"
  moreover have "of_int \<lfloor>x\<rfloor> \<le> x" by simp
  ultimately show ?thesis by (simp add: abs_le_iff)
next
  assume "rne x = \<lfloor>x\<rfloor> + 1" "1 / 2 \<le> x - of_int \<lfloor>x\<rfloor>"
  moreover have "x < of_int \<lfloor>x\<rfloor> + 1" by linarith
  ultimately show ?thesis by (simp add: abs_le_iff)
qed

lemma rne_mono: assumes "x \<le> y" shows "rne x \<le> rne y"
proof (rule ccontr)
  assume "\<not> rne x \<le> rne y"
  then have lt: "rne y < rne x" by simp
  have fl: "\<lfloor>x\<rfloor> \<le> \<lfloor>y\<rfloor>" using assms by (rule floor_mono)
  have eq: "\<lfloor>x\<rfloor> = \<lfloor>y\<rfloor>" "rne x = \<lfloor>x\<rfloor> + 1" "rne y = \<lfloor>y\<rfloor>"
    using rne_cases [of x] rne_cases [of y] fl lt by linarith+
  have "x - of_int \<lfloor>x\<rfloor> \<ge> 1 / 2" "y - of_int \<lfloor>y\<rfloor> \<le> 1 / 2"
    using rne_cases [of x] rne_cases [of y] eq by auto
  then have "x = y" using assms eq(1) by linarith
  then show False using lt by simp
qed

lemma rne_ge_int: "of_int n \<le> x \<Longrightarrow> n \<le> rne x"
  using rne_mono [of "of_int n" x] by simp

lemma rne_le_int: "x \<le> of_int n \<Longrightarrow> rne x \<le> n"
  using rne_mono [of x "of_int n"] by simp

section \<open>Rounding a magnitude\<close>

definition ulp_exp :: "fmt \<Rightarrow> rat \<Rightarrow> int" where
  "ulp_exp f x = max (ilog2 x) (emin f) - int (prec f) + 1"

lemma ulp_pow2: "ulp f x = pow2 (ulp_exp f x)"
  by (simp add: ulp_def ulp_exp_def)

lemma ulp_pos [simp]: "0 < ulp f x"
  by (simp add: ulp_pow2)

lemma ulp_neq0 [simp]: "ulp f x \<noteq> 0"
  by (simp add: ulp_pow2)

lemma ulp_exp_mono: "0 < x \<Longrightarrow> x \<le> y \<Longrightarrow> ulp_exp f x \<le> ulp_exp f y"
  using ilog2_mono [of x y] by (simp add: ulp_exp_def)

lemma round_mag_nonneg: "0 \<le> x \<Longrightarrow> 0 \<le> round_mag f x"
  using rne_ge_int [of 0 "x / ulp f x"]
  by (simp add: round_mag_def less_imp_le)

lemma round_mag_error: "\<bar>round_mag f x - x\<bar> \<le> ulp f x / 2"
proof -
  have "round_mag f x - x = (of_int (rne (x / ulp f x)) - x / ulp f x) * ulp f x"
    by (simp add: round_mag_def left_diff_distrib)
  then have "\<bar>round_mag f x - x\<bar> = \<bar>of_int (rne (x / ulp f x)) - x / ulp f x\<bar> * ulp f x"
    by (simp add: abs_mult less_imp_le)
  also have "\<dots> \<le> 1 / 2 * ulp f x"
    by (intro mult_right_mono rne_error) (simp add: less_imp_le)
  finally show ?thesis by simp
qed

text \<open>A power of two at or above the grid of x bounds the rounded value from either side.\<close>

lemma round_mag_le_pow2:
  assumes "x \<le> pow2 k" "ulp_exp f x \<le> k"
  shows "round_mag f x \<le> pow2 k"
proof -
  define j where "j = nat (k - ulp_exp f x)"
  have k: "pow2 k = of_int (2 ^ j) * ulp f x"
    using assms(2) pow2_add [of "k - ulp_exp f x" "ulp_exp f x"]
    by (simp add: j_def ulp_pow2 pow2_nat)
  have "x / ulp f x \<le> of_int (2 ^ j)"
    using assms(1) by (simp add: divide_le_eq k)
  then have "rne (x / ulp f x) \<le> 2 ^ j" by (rule rne_le_int)
  then have "(of_int (rne (x / ulp f x)) :: rat) \<le> of_int (2 ^ j)"
    by (simp only: of_int_le_iff)
  then show ?thesis
    unfolding round_mag_def k by (rule mult_right_mono) (simp add: less_imp_le)
qed

lemma round_mag_ge_pow2:
  assumes "pow2 k \<le> x" "ulp_exp f x \<le> k"
  shows "pow2 k \<le> round_mag f x"
proof -
  define j where "j = nat (k - ulp_exp f x)"
  have k: "pow2 k = of_int (2 ^ j) * ulp f x"
    using assms(2) pow2_add [of "k - ulp_exp f x" "ulp_exp f x"]
    by (simp add: j_def ulp_pow2 pow2_nat)
  have "of_int (2 ^ j) \<le> x / ulp f x"
    using assms(1) by (simp add: le_divide_eq k)
  then have "2 ^ j \<le> rne (x / ulp f x)" by (rule rne_ge_int)
  then have "(of_int (2 ^ j) :: rat) \<le> of_int (rne (x / ulp f x))"
    by (simp only: of_int_le_iff)
  then show ?thesis
    unfolding round_mag_def k by (rule mult_right_mono) (simp add: less_imp_le)
qed

lemma round_mag_mono:
  assumes x: "0 < x" and xy: "x \<le> y" and p: "1 \<le> prec f"
  shows "round_mag f x \<le> round_mag f y"
proof (cases "ulp_exp f x = ulp_exp f y")
  case True
  then have "x / ulp f x \<le> y / ulp f y"
    using xy by (simp add: ulp_pow2 divide_right_mono)
  then have "(of_int (rne (x / ulp f x)) :: rat) \<le> of_int (rne (y / ulp f y))"
    using rne_mono by simp
  then show ?thesis
    using True by (simp add: round_mag_def ulp_pow2 mult_right_mono)
next
  case False
  define k where "k = ilog2 y"
  have lt: "ulp_exp f x < ulp_exp f y"
    using False ulp_exp_mono [OF x xy, of f] by linarith
  have k: "emin f \<le> k" "ilog2 x < k"
    using lt by (auto simp: ulp_exp_def k_def)
  have "x < pow2 (ilog2 x + 1)" by (rule ilog2_bounds [OF x])
  also have "\<dots> \<le> pow2 k" using k by simp
  finally have xk: "x \<le> pow2 k" by simp
  have ex: "ulp_exp f x \<le> k" "ulp_exp f y \<le> k"
    using k p lt by (auto simp: ulp_exp_def k_def)
  have yk: "pow2 k \<le> y"
    using ilog2_bounds(1) [of y] x xy by (simp add: k_def)
  show ?thesis
    using round_mag_le_pow2 [OF xk ex(1)] round_mag_ge_pow2 [OF yk ex(2)] by linarith
qed

section \<open>Representable values are kept\<close>

definition fp_rep :: "fmt \<Rightarrow> rat \<Rightarrow> bool" where
  "fp_rep f x \<longleftrightarrow>
     (\<exists>m e. x = of_int m * pow2 e \<and> \<bar>m\<bar> < 2 ^ prec f \<and> emin f - int (prec f) + 1 \<le> e)
     \<and> \<bar>x\<bar> < pow2 (emax f + 1)"

lemma fp_rep_minus_imp: "fp_rep f y \<Longrightarrow> fp_rep f (- y)"
proof -
  assume "fp_rep f y"
  then obtain m e where me: "y = of_int m * pow2 e" "\<bar>m\<bar> < 2 ^ prec f"
      "emin f - int (prec f) + 1 \<le> e" and b: "\<bar>y\<bar> < pow2 (emax f + 1)"
    by (auto simp: fp_rep_def)
  have "- y = of_int (- m) * pow2 e" "\<bar>- m\<bar> < 2 ^ prec f" using me by simp_all
  then have "\<exists>m e. - y = of_int m * pow2 e \<and> \<bar>m\<bar> < 2 ^ prec f \<and> emin f - int (prec f) + 1 \<le> e"
    using me(3) by (intro exI [of _ "- m"] exI [of _ e]) simp
  then show ?thesis unfolding fp_rep_def abs_minus using b by (rule conjI)
qed

lemma fp_rep_minus [simp]: "fp_rep f (- x) \<longleftrightarrow> fp_rep f x"
  using fp_rep_minus_imp [of f x] fp_rep_minus_imp [of f "- x"] by auto

lemma fp_rep_grid:
  assumes "fp_rep f x" "0 < x"
  obtains n where "x / ulp f x = of_int n"
proof -
  obtain m e where m: "x = of_int m * pow2 e" "\<bar>m\<bar> < 2 ^ prec f" "emin f - int (prec f) + 1 \<le> e"
    using assms(1) by (auto simp: fp_rep_def)
  have "x < pow2 (int (prec f) + e)"
  proof -
    have "(of_int m :: rat) < of_int (2 ^ prec f)" using m(2) by (simp only: of_int_less_iff)
    then have "of_int m * pow2 e < 2 ^ prec f * pow2 e" by simp
    then show ?thesis by (simp add: m(1) pow2_add)
  qed
  then have "ilog2 x < int (prec f) + e"
    using ilog2_bounds(1) [OF assms(2)] by (meson le_less_trans pow2_less_iff)
  then have e: "ulp_exp f x \<le> e"
    using m(3) by (simp add: ulp_exp_def)
  have "x / ulp f x = of_int m * pow2 (e - ulp_exp f x)"
    by (simp add: m(1) ulp_pow2 pow2_diff)
  also have "pow2 (e - ulp_exp f x) = of_int (2 ^ nat (e - ulp_exp f x))"
    using e pow2_of_nat [of "nat (e - ulp_exp f x)"] by simp
  finally show thesis
    using that [of "m * 2 ^ nat (e - ulp_exp f x)"] by simp
qed

lemma round_mag_rep: "fp_rep f x \<Longrightarrow> 0 < x \<Longrightarrow> round_mag f x = x"
proof -
  assume rep: "fp_rep f x" and pos: "0 < x"
  obtain n where n: "x / ulp f x = of_int n" by (rule fp_rep_grid [OF rep pos])
  have "round_mag f x = of_int n * ulp f x" by (simp add: round_mag_def n)
  also have "\<dots> = x"
    using n ulp_pos [of f x] by (metis nonzero_eq_divide_eq order_less_irrefl)
  finally show ?thesis .
qed

lemma fp_of_rat_rep:
  assumes "fp_rep f x"
  shows "fp_of_rat f s x = (if x = 0 then FZero s else FNum x)"
proof (cases "x = 0")
  case False
  then have "round_mag f \<bar>x\<bar> = \<bar>x\<bar>"
    using assms by (intro round_mag_rep) (auto simp: abs_if)
  moreover have "\<not> pow2 (emax f + 1) \<le> \<bar>x\<bar>" using assms by (auto simp: fp_rep_def)
  ultimately show ?thesis using False by (simp add: fp_of_rat_def Let_def)
qed (simp add: fp_of_rat_def)

lemma fp_rep_int:
  assumes "wf_fmt f" "\<bar>n\<bar> < 2 ^ prec f"
  shows "fp_rep f (of_int n)"
proof -
  have e: "emin f - int (prec f) + 1 \<le> 0"
    using assms(1) by (simp add: emin_def wf_fmt_def)
  have "\<bar>of_int n :: rat\<bar> < of_int (2 ^ prec f)"
    unfolding of_int_abs [symmetric] of_int_less_iff by (rule assms(2))
  also have "of_int (2 ^ prec f) = pow2 (int (prec f))" by simp
  also have "\<dots> \<le> pow2 (emax f + 1)" using assms(1) by (simp only: pow2_le_iff wf_fmt_def)
  finally have b: "\<bar>of_int n :: rat\<bar> < pow2 (emax f + 1)" .
  have "\<exists>m e. (of_int n :: rat) = of_int m * pow2 e \<and> \<bar>m\<bar> < 2 ^ prec f
      \<and> emin f - int (prec f) + 1 \<le> e"
    using assms(2) e by (intro exI [of _ n] exI [of _ 0]) simp
  then show ?thesis unfolding fp_rep_def using b by (rule conjI)
qed

lemma fp_of_int_exact:
  "wf_fmt f \<Longrightarrow> \<bar>n\<bar> < 2 ^ prec f \<Longrightarrow> fp_of_int f n = (if n = 0 then FZero False else FNum (of_int n))"
  by (simp add: fp_of_int_def fp_of_rat_rep fp_rep_int)

section \<open>Monotonicity and bounds of rounding\<close>

definition rnd :: "fmt \<Rightarrow> rat \<Rightarrow> rat" where
  "rnd f x = (if x = 0 then 0 else if x < 0 then - round_mag f (- x) else round_mag f x)"

lemma rnd_minus: "rnd f (- x) = - rnd f x"
  by (simp add: rnd_def)

lemma rnd_nonneg: "0 \<le> x \<Longrightarrow> 0 \<le> rnd f x"
  using round_mag_nonneg by (simp add: rnd_def)

lemma rnd_rep: "fp_rep f x \<Longrightarrow> rnd f x = x"
  by (simp add: rnd_def round_mag_rep)

lemma rnd_mono:
  assumes "x \<le> y" "1 \<le> prec f"
  shows "rnd f x \<le> rnd f y"
proof -
  consider "0 < x" | "x \<le> 0" "0 \<le> y" | "y < 0" using assms(1) by linarith
  then show ?thesis
  proof cases
    case 1
    then show ?thesis using assms round_mag_mono by (simp add: rnd_def)
  next
    case 2
    then have "0 \<le> rnd f (- x)" "0 \<le> rnd f y" by (simp_all add: rnd_nonneg)
    then show ?thesis by (simp add: rnd_minus)
  next
    case 3
    then show ?thesis using assms round_mag_mono [of "- y" "- x" f] by (simp add: rnd_def)
  qed
qed

lemma fp_of_rat_rnd:
  assumes "\<bar>rnd f x\<bar> < pow2 (emax f + 1)"
  shows "fp_finite (fp_of_rat f s x)" "fp_val (fp_of_rat f s x) = rnd f x"
proof -
  have "round_mag f \<bar>x\<bar> = \<bar>rnd f x\<bar>" if "x \<noteq> 0"
    using that round_mag_nonneg [of "\<bar>x\<bar>" f] by (auto simp: rnd_def abs_if)
  then have "fp_of_rat f s x =
      (if x = 0 then FZero s else if rnd f x = 0 then FZero (x < 0) else FNum (rnd f x))"
    using assms round_mag_nonneg [of "- x" f] round_mag_nonneg [of x f]
    by (cases "x = 0"; cases "x < 0") (simp_all add: fp_of_rat_def Let_def rnd_def)
  then show "fp_finite (fp_of_rat f s x)" "fp_val (fp_of_rat f s x) = rnd f x"
    by (auto simp: rnd_def)
qed

theorem fp_of_rat_bounds:
  assumes "wf_fmt f" "fp_rep f a" "fp_rep f b" "a \<le> x" "x \<le> b"
  shows "fp_finite (fp_of_rat f s x)" "a \<le> fp_val (fp_of_rat f s x)"
    "fp_val (fp_of_rat f s x) \<le> b"
proof -
  have p: "1 \<le> prec f" using assms(1) by (simp add: wf_fmt_def)
  have lo: "a \<le> rnd f x" using rnd_mono [OF assms(4) p] rnd_rep [OF assms(2)] by simp
  have hi: "rnd f x \<le> b" using rnd_mono [OF assms(5) p] rnd_rep [OF assms(3)] by simp
  have "\<bar>a\<bar> < pow2 (emax f + 1)" "\<bar>b\<bar> < pow2 (emax f + 1)"
    using assms by (auto simp: fp_rep_def)
  then have "\<bar>rnd f x\<bar> < pow2 (emax f + 1)" using lo hi by linarith
  note r = fp_of_rat_rnd [OF this, of s]
  show "fp_finite (fp_of_rat f s x)" by (rule r)
  show "a \<le> fp_val (fp_of_rat f s x)" "fp_val (fp_of_rat f s x) \<le> b"
    using r lo hi by simp_all
qed

lemma rnd_error: "\<bar>rnd f x - x\<bar> \<le> ulp f \<bar>x\<bar> / 2"
  using round_mag_error [of f x] round_mag_error [of f "- x"] ulp_pos [of f 0]
  by (auto simp: rnd_def abs_if split: if_splits)

section \<open>Comparison\<close>

lemma fp_cmp_finite [float_simps]:
  "fp_finite a \<Longrightarrow> fp_finite b \<Longrightarrow>
   fp_cmp a b = (if fp_val a < fp_val b then PO_less
                 else if fp_val a = fp_val b then PO_equivalent else PO_greater)"
  by (cases a; cases b) (simp_all add: fp_cmp_def)

lemma fp_lt_finite [float_simps]:
  "fp_finite a \<Longrightarrow> fp_finite b \<Longrightarrow> fp_lt a b \<longleftrightarrow> fp_val a < fp_val b"
  by (simp add: fp_lt_def float_simps)

lemma fp_le_finite [float_simps]:
  "fp_finite a \<Longrightarrow> fp_finite b \<Longrightarrow> fp_le a b \<longleftrightarrow> fp_val a \<le> fp_val b"
  by (auto simp: fp_le_def float_simps)

lemma fp_eq_finite [float_simps]:
  "fp_finite a \<Longrightarrow> fp_finite b \<Longrightarrow> fp_eq a b \<longleftrightarrow> fp_val a = fp_val b"
  by (auto simp: fp_eq_def float_simps)

lemma fp_cmp_NaN [float_simps]: "fp_cmp FNaN b = PO_unordered" "fp_cmp a FNaN = PO_unordered"
  by (simp_all add: fp_cmp_def)

lemma fp_cmp_unordered_iff: "fp_cmp a b = PO_unordered \<longleftrightarrow> a = FNaN \<or> b = FNaN"
  by (simp add: fp_cmp_def)

lemma fp_lt_irrefl [simp]: "\<not> fp_lt a a"
  by (simp add: fp_lt_def fp_cmp_def)

lemma fp_lt_trans: "fp_lt a b \<Longrightarrow> fp_lt b c \<Longrightarrow> fp_lt a c"
  by (auto simp: fp_lt_def fp_cmp_def split: if_splits)

lemma fp_cmp_swap:
  "fp_cmp b a = (case fp_cmp a b of PO_less \<Rightarrow> PO_greater | PO_greater \<Rightarrow> PO_less | c \<Rightarrow> c)"
  by (auto simp: fp_cmp_def)

lemma fp_cmp_equiv_subst:
  "fp_cmp a b = PO_equivalent \<Longrightarrow> fp_cmp c a = fp_cmp c b"
  by (auto simp: fp_cmp_def split: if_splits)

lemma fp_le_trans: "fp_le a b \<Longrightarrow> fp_le b c \<Longrightarrow> fp_le a c"
  by (auto simp: fp_le_def fp_cmp_def split: if_splits)

lemma fp_le_total: "a \<noteq> FNaN \<Longrightarrow> b \<noteq> FNaN \<Longrightarrow> fp_le a b \<or> fp_le b a"
  by (auto simp: fp_le_def fp_cmp_def split: if_splits)

lemma fp_not_lt_iff: "a \<noteq> FNaN \<Longrightarrow> b \<noteq> FNaN \<Longrightarrow> \<not> fp_lt a b \<longleftrightarrow> fp_le b a"
  by (auto simp: fp_le_def fp_lt_def fp_cmp_def split: if_splits)

section \<open>Results of the operations\<close>

lemma fp_add_finite [float_simps]:
  "fp_finite a \<Longrightarrow> fp_finite b \<Longrightarrow> \<not> (\<exists>s t. a = FZero s \<and> b = FZero t) \<Longrightarrow>
   fp_add f a b = fp_of_rat f False (fp_val a + fp_val b)"
  by (cases a; cases b) auto

lemma fp_div_finite [float_simps]:
  "fp_finite a \<Longrightarrow> fp_val b \<noteq> 0 \<Longrightarrow>
   fp_div f a b = fp_of_rat f (fp_neg_bit a \<noteq> fp_neg_bit b) (fp_val a / fp_val b)"
  by (cases a; cases b) (auto simp: fp_div_def)

lemma fp_mul_finite [float_simps]:
  "fp_finite a \<Longrightarrow> fp_finite b \<Longrightarrow>
   fp_mul f a b = fp_of_rat f (fp_neg_bit a \<noteq> fp_neg_bit b) (fp_val a * fp_val b)"
  by (cases a; cases b) (auto simp: fp_mul_def)

section \<open>Small errors and 64-bit integers in binary64\<close>

lemma rnd_error_below:
  assumes "0 \<le> x" "x < pow2 (k + 1)" "emin f \<le> k"
  shows "\<bar>rnd f x - x\<bar> \<le> pow2 (k - int (prec f))"
proof (cases "x = 0")
  case False
  then have "0 < x" using assms(1) by simp
  then have "pow2 (ilog2 x) < pow2 (k + 1)" using le_less_trans [OF ilog2_bounds(1) assms(2)] by simp
  then have "ilog2 x < k + 1" by (simp only: pow2_less_iff)
  then have "ulp_exp f x \<le> (k - int (prec f)) + 1" using assms(3) by (simp add: ulp_exp_def)
  then have "ulp f x \<le> pow2 ((k - int (prec f)) + 1)" by (simp add: ulp_pow2)
  then show ?thesis using rnd_error [of f x] assms(1) pow2_Suc [of "k - int (prec f)"] by simp
qed (simp add: rnd_def)

lemma fp_rep_pow2: "0 \<le> n \<Longrightarrow> n \<le> 1023 \<Longrightarrow> fp_rep binary64 (pow2 n)"
  unfolding fp_rep_def by (intro conjI exI [of _ 1] exI [of _ n]) (simp_all add: emin_def)

lemma fp_of_nat64:
  assumes "n < 2 ^ 64"
  shows "fp_finite (fp_of_int binary64 (int n))" "fp_val (fp_of_int binary64 (int n)) = rnd binary64 (of_nat n)"
    "0 < n \<Longrightarrow> 1 \<le> rnd binary64 (of_nat n)" "n < 2 ^ 53 \<Longrightarrow> rnd binary64 (of_nat n) = of_nat n"
proof -
  have r: "fp_rep binary64 (2 ^ 64)" using fp_rep_pow2 [of 64] by (simp add: pow2_nat)
  have lt: "(of_nat n :: rat) \<le> 2 ^ 64" using assms of_nat_mono [of n "2 ^ 64", where 'a = rat] by simp
  have "rnd binary64 (of_nat n) \<le> 2 ^ 64" using rnd_mono [OF lt, of binary64] rnd_rep [OF r] by simp
  moreover have "0 \<le> rnd binary64 (of_nat n)" by (rule rnd_nonneg) simp
  ultimately have "\<bar>rnd binary64 (of_nat n)\<bar> < pow2 (emax binary64 + 1)" by (simp add: pow2_nat)
  from fp_of_rat_rnd [OF this, of False]
  show "fp_finite (fp_of_int binary64 (int n))" "fp_val (fp_of_int binary64 (int n)) = rnd binary64 (of_nat n)"
    by (simp_all add: fp_of_int_def)
  show "1 \<le> rnd binary64 (of_nat n)" if "0 < n"
  proof -
    have "(1 :: rat) \<le> of_nat n" using that by simp
    then show ?thesis using rnd_mono [of 1 "of_nat n" binary64] rnd_rep [of binary64 1] fp_rep_int [of binary64 1] by simp
  qed
  show "rnd binary64 (of_nat n) = of_nat n" if "n < 2 ^ 53"
    using that fp_rep_int [of binary64 "int n"] by (intro rnd_rep) simp
qed

section \<open>The interchange encoding\<close>

text \<open>
  The bits of a datum as a natural number: a sign bit, ebits exponent bits with bias emax, and
  prec - 1 fraction bits.  NaN is encoded as the default quiet NaN; every NaN decodes to FNaN.
\<close>

definition ebits :: "fmt \<Rightarrow> nat" where "ebits f = nat (bitlen (emax f)) + 1"

definition fp_pack :: "fmt \<Rightarrow> bool \<Rightarrow> nat \<Rightarrow> nat \<Rightarrow> nat" where
  "fp_pack f s e m = m + 2 ^ (prec f - 1) * (e + 2 ^ ebits f * (if s then 1 else 0))"

definition fp_encode :: "fmt \<Rightarrow> fp \<Rightarrow> nat" where
  "fp_encode f a =
    (case a of
       FNaN \<Rightarrow> fp_pack f False (2 ^ ebits f - 1) (2 ^ (prec f - 2))
     | FInf s \<Rightarrow> fp_pack f s (2 ^ ebits f - 1) 0
     | FZero s \<Rightarrow> fp_pack f s 0 0
     | FNum x \<Rightarrow>
         let e = max (ilog2 \<bar>x\<bar>) (emin f); q = nat \<lfloor>\<bar>x\<bar> / ulp f \<bar>x\<bar>\<rfloor> in
         if q < 2 ^ (prec f - 1) then fp_pack f (x < 0) 0 q
         else fp_pack f (x < 0) (nat (e + emax f)) (q - 2 ^ (prec f - 1)))"

definition fp_decode :: "fmt \<Rightarrow> nat \<Rightarrow> fp" where
  "fp_decode f n =
    (let m = n mod 2 ^ (prec f - 1);
         e = n div 2 ^ (prec f - 1) mod 2 ^ ebits f;
         s = odd (n div 2 ^ (prec f - 1) div 2 ^ ebits f);
         signed = (\<lambda>r. FNum (if s then - r else r)) in
     if e = 2 ^ ebits f - 1 then (if m = 0 then FInf s else FNaN)
     else if e = 0 then
       (if m = 0 then FZero s else signed (of_nat m * pow2 (emin f - int (prec f) + 1)))
     else signed (of_nat (2 ^ (prec f - 1) + m) * pow2 (int e - emax f - int (prec f) + 1)))"

definition wf_fp :: "fmt \<Rightarrow> fp \<Rightarrow> bool" where
  "wf_fp f a = (case a of FNum x \<Rightarrow> x \<noteq> 0 \<and> fp_rep f x | _ \<Rightarrow> True)"

definition interchange :: "fmt \<Rightarrow> bool" where
  "interchange f \<longleftrightarrow> 3 \<le> prec f \<and> 1 \<le> emax f \<and> 2 ^ ebits f = 2 * emax f + 2"

lemma ebits_formats [simp]: "ebits binary32 = 8" "ebits binary64 = 11"
  by (simp_all add: ebits_def compute_bitlen)

lemma interchange_formats [simp]: "interchange binary32" "interchange binary64"
  by (simp_all add: interchange_def)

lemma ebits_gt: "(0 :: nat) < 2 ^ ebits f - 1"
proof -
  have "(1 :: nat) < 2 ^ ebits f" by (rule one_less_power) (simp_all add: ebits_def)
  then show ?thesis by simp
qed

lemma fp_unpack:
  assumes "m < 2 ^ (prec f - 1)" "e < 2 ^ ebits f"
  shows "fp_pack f s e m mod 2 ^ (prec f - 1) = m"
    "fp_pack f s e m div 2 ^ (prec f - 1) mod 2 ^ ebits f = e"
    "odd (fp_pack f s e m div 2 ^ (prec f - 1) div 2 ^ ebits f) = s"
proof -
  have d: "fp_pack f s e m div 2 ^ (prec f - 1) = e + 2 ^ ebits f * (if s then 1 else 0)"
    using assms(1) by (simp add: fp_pack_def)
  show "fp_pack f s e m mod 2 ^ (prec f - 1) = m" using assms(1) by (simp add: fp_pack_def)
  show "fp_pack f s e m div 2 ^ (prec f - 1) mod 2 ^ ebits f = e"
    unfolding d using assms(2) by simp
  show "odd (fp_pack f s e m div 2 ^ (prec f - 1) div 2 ^ ebits f) = s"
    unfolding d using assms(2) by simp
qed

lemma fp_decode_pack:
  assumes "m < 2 ^ (prec f - 1)" "e < 2 ^ ebits f"
  shows "fp_decode f (fp_pack f s e m) =
    (if e = 2 ^ ebits f - 1 then (if m = 0 then FInf s else FNaN)
     else if e = 0 \<and> m = 0 then FZero s
     else let r = (if e = 0 then of_nat m * pow2 (emin f - int (prec f) + 1)
                   else of_nat (2 ^ (prec f - 1) + m) * pow2 (int e - emax f - int (prec f) + 1))
          in FNum (if s then - r else r))"
  unfolding fp_decode_def fp_unpack [OF assms] by (simp only: Let_def split: if_split) auto

lemma fp_pack_less:
  assumes "m < 2 ^ (prec f - 1)" "e < 2 ^ ebits f" and that: "1 \<le> prec f"
  shows "fp_pack f s e m < 2 ^ (prec f + ebits f)"
proof -
  have "e + 2 ^ ebits f * (if s then 1 else 0) + 1 \<le> 2 * 2 ^ ebits f" using assms(2) by simp
  then have "2 ^ (prec f - 1) * (e + 2 ^ ebits f * (if s then 1 else 0) + 1)
      \<le> 2 ^ (prec f - 1) * (2 * 2 ^ ebits f)"
    by (rule mult_le_mono2)
  also have "\<dots> = 2 * 2 ^ (prec f - 1) * 2 ^ ebits f" by simp
  also have "2 * 2 ^ (prec f - 1) = (2 :: nat) ^ prec f"
    using that by (cases "prec f") simp_all
  also have "(2 :: nat) ^ prec f * 2 ^ ebits f = 2 ^ (prec f + ebits f)" by (simp add: power_add)
  finally show ?thesis using assms(1) by (simp add: fp_pack_def)
qed

lemma encode_quotient:
  assumes f: "interchange f" and x: "fp_rep f x" "0 < x"
  defines "q \<equiv> nat \<lfloor>x / ulp f x\<rfloor>" and "e \<equiv> max (ilog2 x) (emin f)"
  shows "x = of_nat q * pow2 (e - int (prec f) + 1)" "q < 2 ^ prec f" "0 < q"
    "q < 2 ^ (prec f - 1) \<Longrightarrow> e = emin f" "e \<le> emax f"
proof -
  obtain n where n: "x / ulp f x = of_int n" by (rule fp_rep_grid [OF x])
  have u: "ulp f x = pow2 (e - int (prec f) + 1)" by (simp add: ulp_def e_def)
  have pos: "0 < x / ulp f x" using x(2) by simp
  then have n0: "0 < n" by (simp add: n)
  have q: "(of_nat q :: rat) = x / ulp f x" using n0 by (simp add: q_def n)
  show xq: "x = of_nat q * pow2 (e - int (prec f) + 1)"
    by (simp add: q u)
  show "0 < q" using n0 by (simp add: q_def n)
  have p2: "pow2 (int (prec f)) * pow2 (e - int (prec f) + 1) = pow2 (e + 1)"
    by (simp flip: pow2_add del: pow2_of_nat)
  have "x < pow2 (ilog2 x + 1)" by (rule ilog2_bounds [OF x(2)])
  also have "\<dots> \<le> pow2 (e + 1)" by (simp add: e_def)
  finally have "of_nat q * pow2 (e - int (prec f) + 1)
      < pow2 (int (prec f)) * pow2 (e - int (prec f) + 1)"
    unfolding p2 xq [symmetric] .
  then have "(of_nat q :: rat) < of_nat (2 ^ prec f)" by simp
  then show "q < 2 ^ prec f" by (simp only: of_nat_less_iff)
  show "e = emin f" if "q < 2 ^ (prec f - 1)"
  proof -
    have p3: "pow2 (int (prec f - 1)) * pow2 (e - int (prec f) + 1) = pow2 e"
      using f by (simp add: interchange_def of_nat_diff flip: pow2_add del: pow2_of_nat)
    have "(of_nat q :: rat) < of_nat (2 ^ (prec f - 1))" using that by (simp only: of_nat_less_iff)
    then have "of_nat q * pow2 (e - int (prec f) + 1)
        < pow2 (int (prec f - 1)) * pow2 (e - int (prec f) + 1)" by simp
    then have "x < pow2 e" unfolding p3 xq [symmetric] .
    then have "pow2 (ilog2 x) < pow2 e"
      using ilog2_bounds(1) [OF x(2)] by linarith
    then show ?thesis by (simp add: e_def)
  qed
  have "\<bar>x\<bar> < pow2 (emax f + 1)" using x(1) unfolding fp_rep_def by (rule conjunct2)
  then have "pow2 (ilog2 x) < pow2 (emax f + 1)"
    using ilog2_bounds(1) [OF x(2)] x(2) by linarith
  then show "e \<le> emax f" using f by (simp add: e_def emin_def interchange_def)
qed

lemma decode_encode_num:
  assumes f: "interchange f" and x: "fp_rep f x" "x \<noteq> 0"
  shows "fp_decode f (fp_encode f (FNum x)) = FNum x"
proof -
  let ?a = "\<bar>x\<bar>"
  define q where "q = nat \<lfloor>?a / ulp f ?a\<rfloor>"
  define e where "e = max (ilog2 ?a) (emin f)"
  have "fp_rep f ?a" "0 < ?a" using x by (auto simp: abs_if)
  note eq = encode_quotient [OF f this, folded q_def e_def]
  have sgn: "(if x < 0 then - ?a else ?a) = x" by simp
  have exp: "2 ^ ebits f = nat (2 * emax f + 2)"
    using f by (simp add: interchange_def flip: nat_power_eq)
  have two: "2 ^ (prec f - 1) + (q - 2 ^ (prec f - 1)) = q" if "\<not> q < 2 ^ (prec f - 1)"
    using that by simp
  show ?thesis
  proof (cases "q < 2 ^ (prec f - 1)")
    case True
    have e: "e = emin f" using eq(4) True by simp
    have "fp_encode f (FNum x) = fp_pack f (x < 0) 0 q"
      using True by (simp add: fp_encode_def Let_def q_def)
    moreover have "(0 :: nat) \<noteq> 2 ^ ebits f - 1" using ebits_gt [of f] by linarith
    moreover have "of_nat q * pow2 (emin f - int (prec f) + 1) = ?a" using eq(1) e by simp
    ultimately show ?thesis
      using fp_decode_pack [OF True, of 0 "x < 0"] eq(3) sgn by simp
  next
    case False
    define E M where "E = nat (e + emax f)" and "M = q - 2 ^ (prec f - 1)"
    have "q < 2 * 2 ^ (prec f - 1)" using eq(2) f by (cases "prec f") (simp_all add: interchange_def)
    then have M: "M < 2 ^ (prec f - 1)" "2 ^ (prec f - 1) + M = q"
      using False by (simp_all add: M_def)
    have "1 - emax f \<le> e" by (simp add: e_def emin_def)
    then have b: "1 \<le> e + emax f" "e + emax f \<le> 2 * emax f" using eq(5) by simp_all
    have E: "0 < E" "int E = e + emax f" "E < 2 ^ ebits f - 1"
      using b unfolding exp E_def by linarith+
    have enc: "fp_encode f (FNum x) = fp_pack f (x < 0) E M"
      using False by (simp add: fp_encode_def Let_def q_def e_def E_def M_def)
    have E': "E < 2 ^ ebits f" "E \<noteq> 2 ^ ebits f - 1" "\<not> (E = 0 \<and> M = 0)" "E \<noteq> 0"
      using E by simp_all
    have v: "of_nat q * pow2 (int E - emax f - int (prec f) + 1) = ?a" using eq(1) E(2) by simp
    show ?thesis
      unfolding enc fp_decode_pack [OF M(1) E'(1)] M(2) v Let_def
      using E' sgn by (simp only: if_False)
  qed
qed

theorem fp_decode_encode:
  assumes f: "interchange f" and a: "wf_fp f a"
  shows "fp_decode f (fp_encode f a) = a"
proof (cases a)
  case FNaN
  have "(2 :: nat) ^ (prec f - 2) < 2 ^ (prec f - 1)"
    using f by (intro power_strict_increasing) (auto simp: interchange_def)
  then show ?thesis
    using fp_unpack [of "2 ^ (prec f - 2)" f "2 ^ ebits f - 1" False]
    by (simp add: FNaN fp_encode_def fp_decode_def Let_def)
next
  case (FInf s)
  then show ?thesis
    using fp_unpack [of 0 f "2 ^ ebits f - 1" s] by (simp add: fp_encode_def fp_decode_def Let_def)
next
  case (FZero s)
  then show ?thesis
    using fp_unpack [of 0 f 0 s] ebits_gt [of f] by (simp add: fp_encode_def fp_decode_def Let_def)
next
  case (FNum x)
  then show ?thesis using assms decode_encode_num by (simp add: wf_fp_def)
qed

lemma fp_encode_less:
  assumes f: "interchange f" and a: "wf_fp f a"
  shows "fp_encode f a < 2 ^ (prec f + ebits f)"
proof -
  have p: "1 \<le> prec f" using f by (simp add: interchange_def)
  have e: "2 ^ ebits f - 1 < (2 :: nat) ^ ebits f" "(0 :: nat) < 2 ^ ebits f" by simp_all
  note less = fp_pack_less [OF _ _ p]
  show ?thesis
  proof (cases a)
    case FNaN
    have "(2 :: nat) ^ (prec f - 2) < 2 ^ (prec f - 1)"
      using f by (intro power_strict_increasing) (auto simp: interchange_def)
    then show ?thesis using less e by (simp add: FNaN fp_encode_def)
  next
    case (FNum x)
    then have x: "fp_rep f \<bar>x\<bar>" "0 < \<bar>x\<bar>" using a by (auto simp: wf_fp_def abs_if)
    note eq = encode_quotient [OF f x]
    have "2 ^ prec f = 2 * (2 :: nat) ^ (prec f - 1)" using p by (cases "prec f") simp_all
    moreover have "nat (max (ilog2 \<bar>x\<bar>) (emin f) + emax f) < 2 ^ ebits f"
      using eq(5) f by (simp add: interchange_def nat_less_iff)
    moreover define q E where "q = nat \<lfloor>\<bar>x\<bar> / ulp f \<bar>x\<bar>\<rfloor>"
      and "E = nat (max (ilog2 \<bar>x\<bar>) (emin f) + emax f)"
    moreover have "q - 2 ^ (prec f - 1) < 2 ^ (prec f - 1)"
      using eq(2,3) \<open>2 ^ prec f = _\<close> unfolding q_def by linarith
    ultimately have E: "E < 2 ^ ebits f" "q - 2 ^ (prec f - 1) < 2 ^ (prec f - 1)"
      and enc: "fp_encode f a =
        (if q < 2 ^ (prec f - 1) then fp_pack f (x < 0) 0 q else fp_pack f (x < 0) E (q - 2 ^ (prec f - 1)))"
      by (simp_all only: FNum fp_encode_def fp.case Let_def)
    show ?thesis
      unfolding enc using less [of q 0 "x < 0"] less [OF E(2) E(1)] e(2) by (simp only: split: if_split) simp
  qed (use less e in \<open>simp_all add: fp_encode_def\<close>)
qed

end
