(* ===== verification/Astl_Value.thy ===== *)
theory Astl_Value
  imports Ieee_Float
begin

unbundle bit_operations_syntax

text \<open>
  The tagged value of src/impl/common/astl_value.hpp and astl_value.cpp: a std::variant over
  four unsigned widths, float, double and bool.  The constructors keep the C++ alternative;
  arithmetic follows the template instantiations (promotion, common type, overflow guard).
  The state valueless_by_exception of a variant is unreachable, because no alternative's copy
  or construction throws.
\<close>

section \<open>Data\<close>

datatype astl_value =
    VU8 "8 word" | VU16 "16 word" | VU32 "32 word" | VU64 "64 word"
  | VF32 fp | VF64 fp | VBool bool

datatype astl_value_type =
    ASTL_VALUE_UNKNOWN | ASTL_VALUE_UINT8 | ASTL_VALUE_UINT16 | ASTL_VALUE_UINT32
  | ASTL_VALUE_UINT64 | ASTL_VALUE_FLOAT32 | ASTL_VALUE_FLOAT64 | ASTL_VALUE_BOOL8

fun value_type :: "astl_value \<Rightarrow> astl_value_type" where
  "value_type (VU8 x) = ASTL_VALUE_UINT8"
| "value_type (VU16 x) = ASTL_VALUE_UINT16"
| "value_type (VU32 x) = ASTL_VALUE_UINT32"
| "value_type (VU64 x) = ASTL_VALUE_UINT64"
| "value_type (VF32 x) = ASTL_VALUE_FLOAT32"
| "value_type (VF64 x) = ASTL_VALUE_FLOAT64"
| "value_type (VBool x) = ASTL_VALUE_BOOL8"

fun is_floating :: "astl_value \<Rightarrow> bool" where
  "is_floating (VF32 x) = True"
| "is_floating (VF64 x) = True"
| "is_floating _ = False"

text \<open>sizeof of the alternative; bool has size 1.\<close>

fun value_sizeof :: "astl_value \<Rightarrow> nat" where
  "value_sizeof (VU8 x) = 1"
| "value_sizeof (VU16 x) = 2"
| "value_sizeof (VU32 x) = 4"
| "value_sizeof (VU64 x) = 8"
| "value_sizeof (VF32 x) = 4"
| "value_sizeof (VF64 x) = 8"
| "value_sizeof (VBool x) = 1"

text \<open>The number an integral alternative holds, static_cast<uint64_t>(arg).\<close>

fun int_part :: "astl_value \<Rightarrow> nat" where
  "int_part (VU8 x) = unat x"
| "int_part (VU16 x) = unat x"
| "int_part (VU32 x) = unat x"
| "int_part (VU64 x) = unat x"
| "int_part (VBool b) = (if b then 1 else 0)"
| "int_part _ = 0"

fun fp_part :: "astl_value \<Rightarrow> fp" where
  "fp_part (VF32 x) = x"
| "fp_part (VF64 x) = x"
| "fp_part _ = FZero False"

section \<open>Casts\<close>

text \<open>
  static_cast between the alternatives.  Integral targets take the value modulo their width,
  bool tests against zero (NaN converts to true).
\<close>

definition cast_u8 :: "astl_value \<Rightarrow> 8 word" where
  "cast_u8 v = (if is_floating v then word_of_int (fp_to_uint 8 (fp_part v)) else of_nat (int_part v))"
definition cast_u16 :: "astl_value \<Rightarrow> 16 word" where
  "cast_u16 v = (if is_floating v then word_of_int (fp_to_uint 16 (fp_part v)) else of_nat (int_part v))"
definition cast_u32 :: "astl_value \<Rightarrow> 32 word" where
  "cast_u32 v = (if is_floating v then word_of_int (fp_to_uint 32 (fp_part v)) else of_nat (int_part v))"
definition cast_u64 :: "astl_value \<Rightarrow> 64 word" where
  "cast_u64 v = (if is_floating v then word_of_int (fp_to_uint 64 (fp_part v)) else of_nat (int_part v))"
definition cast_f32 :: "astl_value \<Rightarrow> fp" where
  "cast_f32 v = (if is_floating v then fp_conv binary32 (fp_part v) else fp_of_int binary32 (int (int_part v)))"
definition cast_f64 :: "astl_value \<Rightarrow> fp" where
  "cast_f64 v = (if is_floating v then fp_conv binary64 (fp_part v) else fp_of_int binary64 (int (int_part v)))"
definition cast_bool :: "astl_value \<Rightarrow> bool" where
  "cast_bool v = (if is_floating v then (case fp_part v of FZero _ \<Rightarrow> False | _ \<Rightarrow> True)
     else int_part v \<noteq> 0)"

text \<open>The conversion of a value to the type of another one.\<close>

fun cast_like :: "astl_value \<Rightarrow> astl_value \<Rightarrow> astl_value" where
  "cast_like (VU8 _) v = VU8 (cast_u8 v)"
| "cast_like (VU16 _) v = VU16 (cast_u16 v)"
| "cast_like (VU32 _) v = VU32 (cast_u32 v)"
| "cast_like (VU64 _) v = VU64 (cast_u64 v)"
| "cast_like (VF32 _) v = VF32 (cast_f32 v)"
| "cast_like (VF64 _) v = VF64 (cast_f64 v)"
| "cast_like (VBool _) v = VBool (cast_bool v)"

section \<open>Comparison\<close>

text \<open>
  operator== and operator<=>.  long double holds every float and double exactly, so the
  floating comparison is the comparison of the data.
\<close>

definition AstlValue_eq :: "astl_value \<Rightarrow> astl_value \<Rightarrow> bool" where
  "AstlValue_eq l r =
    (if is_floating l \<noteq> is_floating r then False
     else if is_floating l then fp_eq (fp_part l) (fp_part r)
     else int_part l = int_part r)"

definition AstlValue_cmp :: "astl_value \<Rightarrow> astl_value \<Rightarrow> partial_ordering" where
  "AstlValue_cmp l r =
    (if is_floating l \<noteq> is_floating r then (if is_floating l then PO_greater else PO_less)
     else if is_floating l then fp_cmp (fp_part l) (fp_part r)
     else if int_part l < int_part r then PO_less
     else if int_part l = int_part r then PO_equivalent else PO_greater)"

definition AstlValue_less :: "astl_value \<Rightarrow> astl_value \<Rightarrow> bool" where
  "AstlValue_less l r \<longleftrightarrow> AstlValue_cmp l r = PO_less"
definition AstlValue_greater :: "astl_value \<Rightarrow> astl_value \<Rightarrow> bool" where
  "AstlValue_greater l r \<longleftrightarrow> AstlValue_cmp l r = PO_greater"

section \<open>The C union\<close>

text \<open>
  astl_value_t is a union of at most eight bytes: its storage is a 64-bit word (little
  endian), and the members read and write the low bytes, floats in the interchange encoding.
\<close>

definition enc32 :: "fp \<Rightarrow> 32 word" where "enc32 x = of_nat (fp_encode binary32 x)"
definition dec32 :: "32 word \<Rightarrow> fp" where "dec32 w = fp_decode binary32 (unat w)"
definition enc64 :: "fp \<Rightarrow> 64 word" where "enc64 x = of_nat (fp_encode binary64 x)"
definition dec64 :: "64 word \<Rightarrow> fp" where "dec64 w = fp_decode binary64 (unat w)"

definition FromUnion :: "64 word \<Rightarrow> astl_value_type \<Rightarrow> astl_value result" where
  "FromUnion val ty =
    (case ty of
       ASTL_VALUE_UINT8 \<Rightarrow> Inr (VU8 (ucast val))
     | ASTL_VALUE_UINT16 \<Rightarrow> Inr (VU16 (ucast val))
     | ASTL_VALUE_UINT32 \<Rightarrow> Inr (VU32 (ucast val))
     | ASTL_VALUE_UINT64 \<Rightarrow> Inr (VU64 val)
     | ASTL_VALUE_FLOAT32 \<Rightarrow> Inr (VF32 (dec32 (ucast val)))
     | ASTL_VALUE_FLOAT64 \<Rightarrow> Inr (VF64 (dec64 val))
     | ASTL_VALUE_BOOL8 \<Rightarrow> Inr (VBool ((ucast val :: 8 word) \<noteq> 0))
     | ASTL_VALUE_UNKNOWN \<Rightarrow> Inl ASTL_STATUS_INVALID_VALUE_TYPE)"

fun ToAstlUnionValue :: "astl_value \<Rightarrow> 64 word \<times> astl_value_type" where
  "ToAstlUnionValue (VU8 x) = (ucast x, ASTL_VALUE_UINT8)"
| "ToAstlUnionValue (VU16 x) = (ucast x, ASTL_VALUE_UINT16)"
| "ToAstlUnionValue (VU32 x) = (ucast x, ASTL_VALUE_UINT32)"
| "ToAstlUnionValue (VU64 x) = (x, ASTL_VALUE_UINT64)"
| "ToAstlUnionValue (VF32 x) = (ucast (enc32 x), ASTL_VALUE_FLOAT32)"
| "ToAstlUnionValue (VF64 x) = (enc64 x, ASTL_VALUE_FLOAT64)"
| "ToAstlUnionValue (VBool b) = ((if b then 1 else 0), ASTL_VALUE_BOOL8)"

text \<open>The floating alternatives hold representable data.\<close>

definition wf_value :: "astl_value \<Rightarrow> bool" where
  "wf_value v = (case v of VF32 x \<Rightarrow> wf_fp binary32 x | VF64 x \<Rightarrow> wf_fp binary64 x | _ \<Rightarrow> True)"

section \<open>Constants of a type\<close>

definition fp_largest :: "fmt \<Rightarrow> fp" where
  "fp_largest f = FNum (pow2 (emax f + 1) - pow2 (emax f + 1 - int (prec f)))"
definition fp_lowest :: "fmt \<Rightarrow> fp" where "fp_lowest f = fp_neg (fp_largest f)"

definition FromUnionPromoting :: "astl_value_type \<Rightarrow> astl_value result" where
  "FromUnionPromoting ty =
    (case ty of
       ASTL_VALUE_UINT8 \<Rightarrow> Inr (VU64 0) | ASTL_VALUE_UINT16 \<Rightarrow> Inr (VU64 0)
     | ASTL_VALUE_UINT32 \<Rightarrow> Inr (VU64 0) | ASTL_VALUE_UINT64 \<Rightarrow> Inr (VU64 0)
     | ASTL_VALUE_FLOAT32 \<Rightarrow> Inr (VF64 (FZero False))
     | ASTL_VALUE_FLOAT64 \<Rightarrow> Inr (VF64 (FZero False))
     | ASTL_VALUE_BOOL8 \<Rightarrow> Inr (VU64 0)
     | ASTL_VALUE_UNKNOWN \<Rightarrow> Inl ASTL_STATUS_INVALID_VALUE_TYPE)"

definition FromMinimum :: "astl_value_type \<Rightarrow> astl_value result" where
  "FromMinimum ty =
    (case ty of
       ASTL_VALUE_UINT8 \<Rightarrow> Inr (VU8 0) | ASTL_VALUE_UINT16 \<Rightarrow> Inr (VU16 0)
     | ASTL_VALUE_UINT32 \<Rightarrow> Inr (VU32 0) | ASTL_VALUE_UINT64 \<Rightarrow> Inr (VU64 0)
     | ASTL_VALUE_FLOAT32 \<Rightarrow> Inr (VF32 (fp_lowest binary32))
     | ASTL_VALUE_FLOAT64 \<Rightarrow> Inr (VF64 (fp_lowest binary64))
     | ASTL_VALUE_BOOL8 \<Rightarrow> Inr (VBool False)
     | ASTL_VALUE_UNKNOWN \<Rightarrow> Inl ASTL_STATUS_INVALID_VALUE_TYPE)"

definition FromZero :: "astl_value_type \<Rightarrow> astl_value result" where
  "FromZero ty =
    (case ty of
       ASTL_VALUE_UINT8 \<Rightarrow> Inr (VU8 0) | ASTL_VALUE_UINT16 \<Rightarrow> Inr (VU16 0)
     | ASTL_VALUE_UINT32 \<Rightarrow> Inr (VU32 0) | ASTL_VALUE_UINT64 \<Rightarrow> Inr (VU64 0)
     | ASTL_VALUE_FLOAT32 \<Rightarrow> Inr (VF32 (FZero False))
     | ASTL_VALUE_FLOAT64 \<Rightarrow> Inr (VF64 (FZero False))
     | ASTL_VALUE_BOOL8 \<Rightarrow> Inr (VBool False)
     | ASTL_VALUE_UNKNOWN \<Rightarrow> Inl ASTL_STATUS_INVALID_VALUE_TYPE)"

definition FromMaximum :: "astl_value_type \<Rightarrow> astl_value result" where
  "FromMaximum ty =
    (case ty of
       ASTL_VALUE_UINT8 \<Rightarrow> Inr (VU8 (- 1)) | ASTL_VALUE_UINT16 \<Rightarrow> Inr (VU16 (- 1))
     | ASTL_VALUE_UINT32 \<Rightarrow> Inr (VU32 (- 1)) | ASTL_VALUE_UINT64 \<Rightarrow> Inr (VU64 (- 1))
     | ASTL_VALUE_FLOAT32 \<Rightarrow> Inr (VF32 (fp_largest binary32))
     | ASTL_VALUE_FLOAT64 \<Rightarrow> Inr (VF64 (fp_largest binary64))
     | ASTL_VALUE_BOOL8 \<Rightarrow> Inr (VBool True)
     | ASTL_VALUE_UNKNOWN \<Rightarrow> Inl ASTL_STATUS_INVALID_VALUE_TYPE)"

section \<open>Conversions to numbers\<close>

text \<open>
  ToDouble and ToInt64 refuse bool.  IsArithmetic is true of every alternative and is left out.
\<close>

fun ToDouble :: "astl_value \<Rightarrow> fp result" where
  "ToDouble (VBool b) = Inl ASTL_STATUS_INVALID_VALUE_TYPE"
| "ToDouble (VF64 x) = Inr x"
| "ToDouble v = Inr (cast_f64 v)"

fun ToInt64 :: "astl_value \<Rightarrow> int result" where
  "ToInt64 (VBool b) = Inl ASTL_STATUS_INVALID_VALUE_TYPE"
| "ToInt64 (VF32 x) = Inr (fp_to_int64 x)"
| "ToInt64 (VF64 x) = Inr (fp_to_int64 x)"
| "ToInt64 v = Inr (wrap64 (int (int_part v)))"

section \<open>Arithmetic\<close>

text \<open>bool is promoted to uint8_t before an addition or a division.\<close>

fun promote_if_bool :: "astl_value \<Rightarrow> astl_value" where
  "promote_if_bool (VBool b) = VU8 (if b then 1 else 0)"
| "promote_if_bool v = v"

text \<open>
  The sum of two operands of the same alternative, after the casts: the unsigned overflow
  guard of the code, then the addition.
\<close>

fun add_same :: "astl_value \<Rightarrow> astl_value \<Rightarrow> astl_value result" where
  "add_same (VU8 a) (VU8 b) =
     (if - 1 - a < b then Inl ASTL_STATUS_METRIC_OVERFLOW_DETECTED else Inr (VU8 (a + b)))"
| "add_same (VU16 a) (VU16 b) =
     (if - 1 - a < b then Inl ASTL_STATUS_METRIC_OVERFLOW_DETECTED else Inr (VU16 (a + b)))"
| "add_same (VU32 a) (VU32 b) =
     (if - 1 - a < b then Inl ASTL_STATUS_METRIC_OVERFLOW_DETECTED else Inr (VU32 (a + b)))"
| "add_same (VU64 a) (VU64 b) =
     (if - 1 - a < b then Inl ASTL_STATUS_METRIC_OVERFLOW_DETECTED else Inr (VU64 (a + b)))"
| "add_same (VF32 a) (VF32 b) = Inr (VF32 (fp_add binary32 a b))"
| "add_same (VF64 a) (VF64 b) = Inr (VF64 (fp_add binary64 a b))"
| "add_same _ _ = Inl ASTL_STATUS_INVALID_VALUE_TYPE"

definition Add :: "astl_value \<Rightarrow> astl_value \<Rightarrow> astl_value result" where
  "Add addend augend =
    (let x = promote_if_bool addend; y = promote_if_bool augend in
     if is_floating x \<noteq> is_floating y then Inl ASTL_STATUS_INVALID_VALUE_TYPE
     else let r = (if value_sizeof y \<le> value_sizeof x then x else y) in
       add_same (cast_like r x) (cast_like r y))"

text \<open>
  The difference after the casts.  The result type is not promoted from bool: two bools
  subtract as integers and convert back to bool.
\<close>

fun sub_same :: "astl_value \<Rightarrow> astl_value \<Rightarrow> astl_value result" where
  "sub_same (VU8 a) (VU8 b) =
     (if a < b then Inl ASTL_STATUS_METRIC_OVERFLOW_DETECTED else Inr (VU8 (a - b)))"
| "sub_same (VU16 a) (VU16 b) =
     (if a < b then Inl ASTL_STATUS_METRIC_OVERFLOW_DETECTED else Inr (VU16 (a - b)))"
| "sub_same (VU32 a) (VU32 b) =
     (if a < b then Inl ASTL_STATUS_METRIC_OVERFLOW_DETECTED else Inr (VU32 (a - b)))"
| "sub_same (VU64 a) (VU64 b) =
     (if a < b then Inl ASTL_STATUS_METRIC_OVERFLOW_DETECTED else Inr (VU64 (a - b)))"
| "sub_same (VF32 a) (VF32 b) = Inr (VF32 (fp_sub binary32 a b))"
| "sub_same (VF64 a) (VF64 b) = Inr (VF64 (fp_sub binary64 a b))"
| "sub_same (VBool a) (VBool b) =
     (if \<not> a \<and> b then Inl ASTL_STATUS_METRIC_OVERFLOW_DETECTED else Inr (VBool (a \<noteq> b)))"
| "sub_same _ _ = Inl ASTL_STATUS_INVALID_VALUE_TYPE"

definition Subtract :: "astl_value \<Rightarrow> astl_value \<Rightarrow> astl_value result" where
  "Subtract minuend subtrahend =
    (let r = (if value_sizeof subtrahend \<le> value_sizeof minuend then minuend else subtrahend) in
     sub_same (cast_like r minuend) (cast_like r subtrahend))"

text \<open>
  The two instantiations of the Divide template the library uses: an integral divisor
  (size_t or uint64_t), which is converted to the dividend's type, and a double divisor.  An
  integer division by a divisor that the conversion has made zero is undefined in C++; the
  quotient is then 0, as the AArch64 UDIV instruction gives and as HOL's word division does.
\<close>

definition Divide_u64 :: "astl_value \<Rightarrow> 64 word \<Rightarrow> astl_value result" where
  "Divide_u64 dividend divisor =
    (if divisor = 0 then Inl kInternalDivideByZero
     else case promote_if_bool dividend of
       VU8 a \<Rightarrow> Inr (VU8 (a div ucast divisor))
     | VU16 a \<Rightarrow> Inr (VU16 (a div ucast divisor))
     | VU32 a \<Rightarrow> Inr (VU32 (a div ucast divisor))
     | VU64 a \<Rightarrow> Inr (VU64 (a div divisor))
     | VF32 a \<Rightarrow> Inr (VF32 (fp_div binary32 a (fp_of_int binary32 (uint divisor))))
     | VF64 a \<Rightarrow> Inr (VF64 (fp_div binary64 a (fp_of_int binary64 (uint divisor))))
     | VBool b \<Rightarrow> Inl ASTL_STATUS_INVALID_VALUE_TYPE)"

definition Divide_f64 :: "astl_value \<Rightarrow> fp \<Rightarrow> astl_value result" where
  "Divide_f64 dividend divisor =
    (if fp_eq divisor (FZero False) then Inl kInternalDivideByZero
     else Inr (VF64 (fp_div binary64 (cast_f64 (promote_if_bool dividend)) divisor)))"

section \<open>Integral values by width\<close>

text \<open>An unsigned value of k bytes, for the four widths of the variant.\<close>

definition mk_int :: "nat \<Rightarrow> nat \<Rightarrow> astl_value" where
  "mk_int k n =
    (if k = 1 then VU8 (of_nat n) else if k = 2 then VU16 (of_nat n)
     else if k = 4 then VU32 (of_nat n) else VU64 (of_nat n))"

lemma value_sizeof_widths: "value_sizeof v \<in> {1, 2, 4, 8}"
  by (cases v) simp_all

lemma value_sizeof_pos [simp]: "0 < value_sizeof v"
  by (cases v) simp_all

lemma int_part_less: "int_part v < 2 ^ (8 * value_sizeof v)"
proof (cases v)
  case (VU8 x)
  then show ?thesis using unat_less_pow [of x] by simp
next
  case (VU16 x)
  then show ?thesis using unat_less_pow [of x] by simp
next
  case (VU32 x)
  then show ?thesis using unat_less_pow [of x] by simp
next
  case (VU64 x)
  then show ?thesis using unat_less_pow [of x] by simp
qed simp_all

lemma int_part_less_wider:
  "value_sizeof v \<le> k \<Longrightarrow> int_part v < 2 ^ (8 * k)"
proof -
  assume "value_sizeof v \<le> k"
  then have "(2 :: nat) ^ (8 * value_sizeof v) \<le> 2 ^ (8 * k)"
    by (intro power_increasing) simp_all
  then show ?thesis using int_part_less [of v] by linarith
qed

lemma int_part_mk_int:
  "k \<in> {1, 2, 4, 8} \<Longrightarrow> n < 2 ^ (8 * k) \<Longrightarrow> int_part (mk_int k n) = n"
  by (elim insertE emptyE) (simp_all add: mk_int_def unat_of_nat_less)

lemma mk_int_simps [simp]:
  "\<not> is_floating (mk_int k n)"
  "k \<in> {1, 2, 4, 8} \<Longrightarrow> value_sizeof (mk_int k n) = k"
  "promote_if_bool (mk_int k n) = mk_int k n"
  by (auto simp: mk_int_def)

lemma promote_simps [simp]:
  "is_floating (promote_if_bool v) = is_floating v"
  "value_sizeof (promote_if_bool v) = value_sizeof v"
  "int_part (promote_if_bool v) = int_part v"
  "fp_part (promote_if_bool v) = fp_part v"
  by (cases v; simp)+

lemma cast_like_integral:
  assumes "\<not> is_floating r" "\<not> is_floating v" "value_type r \<noteq> ASTL_VALUE_BOOL8"
  shows "cast_like r v = mk_int (value_sizeof r) (int_part v)"
  using assms
  by (cases r) (simp_all add: mk_int_def cast_u8_def cast_u16_def cast_u32_def cast_u64_def)

lemma promote_not_bool [simp]: "value_type (promote_if_bool v) \<noteq> ASTL_VALUE_BOOL8"
  by (cases v) simp_all

lemma add_same_mk_int:
  assumes "k \<in> {1, 2, 4, 8}" "m < 2 ^ (8 * k)" "n < 2 ^ (8 * k)"
  shows "add_same (mk_int k m) (mk_int k n) =
    (if m + n < 2 ^ (8 * k) then Inr (mk_int k (m + n)) else Inl ASTL_STATUS_METRIC_OVERFLOW_DETECTED)"
  using assms
  by (elim insertE emptyE) (simp_all add: mk_int_def max_minus_less_iff unat_of_nat_less)

lemma of_nat_word_less_iff:
  "m < 2 ^ LENGTH('a) \<Longrightarrow> n < 2 ^ LENGTH('a) \<Longrightarrow> (of_nat m :: 'a::len word) < of_nat n \<longleftrightarrow> m < n"
  by (simp add: word_less_nat_alt unat_of_nat_less)

lemma sub_same_mk_int:
  assumes "k \<in> {1, 2, 4, 8}" "m < 2 ^ (8 * k)" "n < 2 ^ (8 * k)"
  shows "sub_same (mk_int k m) (mk_int k n) =
    (if m < n then Inl ASTL_STATUS_METRIC_OVERFLOW_DETECTED else Inr (mk_int k (m - n)))"
  using assms
  by (elim insertE emptyE) (simp_all add: mk_int_def of_nat_word_less_iff of_nat_diff)

lemma wider_operand:
  "value_sizeof (if value_sizeof y \<le> value_sizeof x then x else y) = max (value_sizeof x) (value_sizeof y)"
  by simp

text \<open>Add on integral operands: the exact sum at the wider width, or the overflow status.\<close>

lemma Add_integral_eq:
  assumes "\<not> is_floating a" "\<not> is_floating b" "k = max (value_sizeof a) (value_sizeof b)"
  shows "Add a b =
    (if int_part a + int_part b < 2 ^ (8 * k) then Inr (mk_int k (int_part a + int_part b))
     else Inl ASTL_STATUS_METRIC_OVERFLOW_DETECTED)"
proof -
  let ?r = "if value_sizeof b \<le> value_sizeof a then promote_if_bool a else promote_if_bool b"
  have r: "\<not> is_floating ?r" "value_type ?r \<noteq> ASTL_VALUE_BOOL8" "value_sizeof ?r = k"
    using assms by simp_all
  have k: "k \<in> {1, 2, 4, 8}"
    using assms(3) value_sizeof_widths [of a] value_sizeof_widths [of b] by (auto simp: max_def)
  have "Add a b = add_same (cast_like ?r (promote_if_bool a)) (cast_like ?r (promote_if_bool b))"
    using assms by (simp add: Add_def Let_def)
  also have "\<dots> = add_same (mk_int k (int_part a)) (mk_int k (int_part b))"
    using assms r by (simp only: cast_like_integral promote_simps not_False_eq_True)
  finally show ?thesis
    using add_same_mk_int [OF k int_part_less_wider int_part_less_wider] assms(3) by simp
qed

lemma Subtract_integral_eq:
  assumes "\<not> is_floating a" "\<not> is_floating b" "k = max (value_sizeof a) (value_sizeof b)"
    and "value_type a \<noteq> ASTL_VALUE_BOOL8" "value_type b \<noteq> ASTL_VALUE_BOOL8"
  shows "Subtract a b =
    (if int_part a < int_part b then Inl ASTL_STATUS_METRIC_OVERFLOW_DETECTED
     else Inr (mk_int k (int_part a - int_part b)))"
proof -
  let ?r = "if value_sizeof b \<le> value_sizeof a then a else b"
  have r: "\<not> is_floating ?r" "value_type ?r \<noteq> ASTL_VALUE_BOOL8" "value_sizeof ?r = k"
    using assms by simp_all
  have k: "k \<in> {1, 2, 4, 8}"
    using assms(3) value_sizeof_widths [of a] value_sizeof_widths [of b] by (auto simp: max_def)
  have "Subtract a b = sub_same (cast_like ?r a) (cast_like ?r b)"
    by (simp add: Subtract_def Let_def)
  also have "\<dots> = sub_same (mk_int k (int_part a)) (mk_int k (int_part b))"
    using assms r by (simp only: cast_like_integral not_False_eq_True)
  finally show ?thesis
    using sub_same_mk_int [OF k int_part_less_wider int_part_less_wider] assms(3) by simp
qed

lemma Add_mixed: "is_floating a \<noteq> is_floating b \<Longrightarrow> Add a b = Inl ASTL_STATUS_INVALID_VALUE_TYPE"
  by (simp add: Add_def Let_def)

section \<open>Addition, subtraction and running sums\<close>

text \<open>
  C36: AstlValue::Add on integral operands (bool counting as uint8_t) returns the exact sum at
  the wider of the two widths, or METRIC_OVERFLOW_DETECTED exactly when that width cannot hold
  it; an integral and a floating operand never add.
\<close>

theorem Add_exact_or_overflow:
  "if is_floating a \<noteq> is_floating b then Add a b = Inl ASTL_STATUS_INVALID_VALUE_TYPE
   else if is_floating a then \<exists>v. Add a b = Inr v \<and> is_floating v
   else if int_part a + int_part b < 2 ^ (8 * max (value_sizeof a) (value_sizeof b))
   then \<exists>v. Add a b = Inr v \<and> \<not> is_floating v \<and> int_part v = int_part a + int_part b
          \<and> value_sizeof v = max (value_sizeof a) (value_sizeof b)
   else Add a b = Inl ASTL_STATUS_METRIC_OVERFLOW_DETECTED"
proof -
  define k where "k = max (value_sizeof a) (value_sizeof b)"
  have k: "k \<in> {1, 2, 4, 8}"
    using value_sizeof_widths [of a] value_sizeof_widths [of b] by (auto simp: k_def max_def)
  consider "is_floating a \<noteq> is_floating b" | "is_floating a" "is_floating b"
    | "\<not> is_floating a" "\<not> is_floating b" by blast
  then show ?thesis
  proof cases
    case 1
    then show ?thesis by (simp add: Add_mixed)
  next
    case 2
    then show ?thesis by (cases a; cases b) (simp_all add: Add_def Let_def)
  next
    case 3
    then show ?thesis
      using Add_integral_eq [of a b k] int_part_mk_int [OF k] mk_int_simps(2) [OF k]
      by (auto simp flip: k_def simp del: mk_int_simps(2))
  qed
qed

text \<open>
  AstlValue::Subtract on unsigned operands returns the exact difference at the wider
  width when the minuend is not smaller, and METRIC_OVERFLOW_DETECTED otherwise: a counter
  that runs backwards is never turned into a huge difference.
\<close>

theorem Subtract_exact_or_underflow:
  assumes "value_type a \<in> {ASTL_VALUE_UINT8, ASTL_VALUE_UINT16, ASTL_VALUE_UINT32, ASTL_VALUE_UINT64}"
    and "value_type b \<in> {ASTL_VALUE_UINT8, ASTL_VALUE_UINT16, ASTL_VALUE_UINT32, ASTL_VALUE_UINT64}"
  shows "if int_part b \<le> int_part a
      then \<exists>v. Subtract a b = Inr v \<and> \<not> is_floating v \<and> int_part v + int_part b = int_part a
             \<and> value_sizeof v = max (value_sizeof a) (value_sizeof b)
      else Subtract a b = Inl ASTL_STATUS_METRIC_OVERFLOW_DETECTED"
proof -
  define k where "k = max (value_sizeof a) (value_sizeof b)"
  have k: "k \<in> {1, 2, 4, 8}"
    using value_sizeof_widths [of a] value_sizeof_widths [of b] by (auto simp: k_def max_def)
  have ty: "\<not> is_floating a" "\<not> is_floating b"
      "value_type a \<noteq> ASTL_VALUE_BOOL8" "value_type b \<noteq> ASTL_VALUE_BOOL8"
    using assms by (cases a; cases b; simp)+
  have "int_part a - int_part b < 2 ^ (8 * k)"
    using int_part_less_wider [of a k] by (simp add: k_def)
  then show ?thesis
    using Subtract_integral_eq [OF ty(1) ty(2) k_def ty(3) ty(4)] int_part_mk_int [OF k]
      mk_int_simps(2) [OF k]
    by (auto simp flip: k_def simp del: mk_int_simps(2))
qed

theorem Subtract_exact_or_underflow_witness:
  "Subtract (VU8 3) (VU8 5) = Inl ASTL_STATUS_METRIC_OVERFLOW_DETECTED
   \<and> Subtract (VU32 70000) (VU8 5) = Inr (VU32 69995)"
proof -
  have "Subtract (VU8 3) (VU8 5) = Inl ASTL_STATUS_METRIC_OVERFLOW_DETECTED"
    using Subtract_exact_or_underflow [of "VU8 3" "VU8 5"] by simp
  moreover have "Subtract (VU32 70000) (VU8 5) = Inr (VU32 69995)"
    by (simp add: Subtract_def cast_u32_def Let_def)
  ultimately show ?thesis by simp
qed

text \<open>
  The running sum of the metrics and of the summary output: from the promoted zero, one Add per
  sample, stopping at the first failure.
\<close>

fun add_all :: "astl_value \<Rightarrow> astl_value list \<Rightarrow> astl_value result" where
  "add_all acc [] = Inr acc"
| "add_all acc (v # vs) = rbind (Add acc v) (\<lambda>acc'. add_all acc' vs)"

lemma int_part_less_u64: "int_part v < 2 ^ 64"
  using int_part_less_wider [of v 8] value_sizeof_widths [of v] by auto

lemma Add_VU64:
  assumes "\<not> is_floating v"
  shows "Add (VU64 s) v =
    (if unat s + int_part v < 2 ^ 64 then Inr (VU64 (of_nat (unat s + int_part v)))
     else Inl ASTL_STATUS_METRIC_OVERFLOW_DETECTED)"
proof -
  have "max (value_sizeof (VU64 s)) (value_sizeof v) = 8"
    using value_sizeof_widths [of v] by auto
  then show ?thesis
    using Add_integral_eq [of "VU64 s" v 8] assms by (simp add: mk_int_def)
qed

lemma add_all_exact:
  assumes "\<forall>v\<in>set vs. \<not> is_floating v" "unat s + sum_list (map int_part vs) < 2 ^ 64"
  shows "add_all (VU64 s) vs = Inr (VU64 (of_nat (unat s + sum_list (map int_part vs))))"
  using assms
proof (induction vs arbitrary: s)
  case (Cons v vs)
  have lt: "unat s + int_part v < 2 ^ 64" using Cons.prems by simp
  have "unat (of_nat (unat s + int_part v) :: 64 word) = unat s + int_part v"
    by (rule unat_of_nat_less) (use lt in simp)
  then show ?case
    using Cons.IH [of "of_nat (unat s + int_part v)"] Cons.prems lt
    by (simp add: Add_VU64 add.assoc)
qed simp

lemma add_all_overflow:
  assumes "\<forall>v\<in>set vs. \<not> is_floating v" "\<not> unat s + sum_list (map int_part vs) < 2 ^ 64"
  shows "add_all (VU64 s) vs = Inl ASTL_STATUS_METRIC_OVERFLOW_DETECTED"
  using assms
proof (induction vs arbitrary: s)
  case Nil
  then show ?case using unat_less_pow [of s] by simp
next
  case (Cons v vs)
  show ?case
  proof (cases "unat s + int_part v < 2 ^ 64")
    case True
    have "unat (of_nat (unat s + int_part v) :: 64 word) = unat s + int_part v"
      by (rule unat_of_nat_less) (use True in simp)
    then show ?thesis
      using Cons.IH [of "of_nat (unat s + int_part v)"] Cons.prems True
      by (simp add: Add_VU64 add.assoc)
  next
    case False
    then show ?thesis using Cons.prems by (simp add: Add_VU64)
  qed
qed

section \<open>The order of values\<close>

lemma AstlValue_cmp_swap:
  "AstlValue_cmp b a = (case AstlValue_cmp a b of
     PO_less \<Rightarrow> PO_greater | PO_greater \<Rightarrow> PO_less | c \<Rightarrow> c)"
  by (auto simp: AstlValue_cmp_def fp_cmp_swap [of "fp_part b" "fp_part a"])

lemma AstlValue_less_trans: "AstlValue_less a b \<Longrightarrow> AstlValue_less b c \<Longrightarrow> AstlValue_less a c"
  using fp_lt_trans [of "fp_part a" "fp_part b" "fp_part c"]
  by (auto simp: AstlValue_less_def AstlValue_cmp_def fp_lt_def split: if_splits)

lemma AstlValue_eq_iff_equivalent: "AstlValue_eq a b \<longleftrightarrow> AstlValue_cmp a b = PO_equivalent"
  by (auto simp: AstlValue_eq_def AstlValue_cmp_def fp_eq_def)

lemma AstlValue_equiv_less:
  "AstlValue_cmp a b = PO_equivalent \<Longrightarrow> AstlValue_cmp c a = AstlValue_cmp c b"
  using fp_cmp_equiv_subst [of "fp_part a" "fp_part b" "fp_part c"]
  by (auto simp: AstlValue_cmp_def split: if_splits)

lemma AstlValue_unordered_iff:
  "AstlValue_cmp a b = PO_unordered \<longleftrightarrow>
     is_floating a \<and> is_floating b \<and> (fp_part a = FNaN \<or> fp_part b = FNaN)"
  by (auto simp: AstlValue_cmp_def fp_cmp_unordered_iff)

text \<open>
  C40: on values that are not NaN the comparison operators are a total preorder, operator==
  is its equivalence, and every integral value is below every floating one; so a std::map
  keyed by AstlValue is well defined on them.
\<close>

theorem AstlValue_total_preorder:
  assumes "fp_part a \<noteq> FNaN" "fp_part b \<noteq> FNaN" "fp_part c \<noteq> FNaN"
  shows "AstlValue_cmp a b \<noteq> PO_unordered
    \<and> (AstlValue_cmp a b = PO_greater \<longleftrightarrow> AstlValue_cmp b a = PO_less)
    \<and> (AstlValue_eq a b \<longleftrightarrow> \<not> AstlValue_less a b \<and> \<not> AstlValue_less b a)
    \<and> (AstlValue_less a b \<longrightarrow> AstlValue_less b c \<longrightarrow> AstlValue_less a c)
    \<and> (AstlValue_eq a b \<longrightarrow> AstlValue_cmp c a = AstlValue_cmp c b)
    \<and> (\<not> is_floating a \<and> is_floating b \<longrightarrow> AstlValue_less a b)"
proof (intro conjI impI)
  show ord: "AstlValue_cmp a b \<noteq> PO_unordered"
    using assms by (simp add: AstlValue_unordered_iff)
  show "AstlValue_cmp a b = PO_greater \<longleftrightarrow> AstlValue_cmp b a = PO_less"
    by (simp add: AstlValue_cmp_swap [of b a] split: partial_ordering.split)
  show "AstlValue_eq a b \<longleftrightarrow> \<not> AstlValue_less a b \<and> \<not> AstlValue_less b a"
    using ord by (auto simp: AstlValue_eq_iff_equivalent AstlValue_less_def
        AstlValue_cmp_swap [of b a] split: partial_ordering.splits)
  show "AstlValue_less a b \<Longrightarrow> AstlValue_less b c \<Longrightarrow> AstlValue_less a c"
    by (rule AstlValue_less_trans)
  show "AstlValue_eq a b \<Longrightarrow> AstlValue_cmp c a = AstlValue_cmp c b"
    by (rule AstlValue_equiv_less) (simp add: AstlValue_eq_iff_equivalent)
  show "\<not> is_floating a \<and> is_floating b \<Longrightarrow> AstlValue_less a b"
    by (simp add: AstlValue_less_def AstlValue_cmp_def)
qed

theorem AstlValue_total_preorder_witness:
  "AstlValue_less (VU64 7) (VF32 (FNum (1 / 2))) \<and> AstlValue_cmp (VU8 3) (VU64 3) \<noteq> PO_unordered"
  using AstlValue_total_preorder [of "VU64 7" "VF32 (FNum (1 / 2))" "VU8 0"]
    AstlValue_total_preorder [of "VU8 3" "VU64 3" "VU8 0"] by simp

section \<open>The union round trip\<close>

lemma dec32_enc32: "wf_fp binary32 x \<Longrightarrow> dec32 (enc32 x) = x"
  using fp_encode_less [of binary32 x]
  by (simp add: dec32_def enc32_def unat_of_nat_less fp_decode_encode)

lemma dec64_enc64: "wf_fp binary64 x \<Longrightarrow> dec64 (enc64 x) = x"
  using fp_encode_less [of binary64 x]
  by (simp add: dec64_def enc64_def unat_of_nat_less fp_decode_encode)

text \<open>
  FromUnion applied to the storage word and the type that ToAstlUnionValue returns gives
  the value back, for every alternative, the floating ones through their IEEE-754 encoding.
\<close>

theorem union_roundtrip:
  assumes "wf_value v"
  shows "case_prod FromUnion (ToAstlUnionValue v) = Inr v"
proof (cases v)
  case (VBool b)
  then show ?thesis by (cases b) (simp_all add: FromUnion_def)
qed (use assms in \<open>simp_all add: FromUnion_def wf_value_def dec32_enc32 dec64_enc64 ucast_ucast_wider\<close>)

theorem union_roundtrip_witness:
  "case_prod FromUnion (ToAstlUnionValue (VF32 (FNum 1))) = Inr (VF32 (FNum 1))"
proof -
  have "fp_rep binary32 1" using fp_rep_int [of binary32 1] by simp
  then show ?thesis
    by (intro union_roundtrip) (simp add: wf_value_def wf_fp_def)
qed

end
