(* ===== verification/Lifecycle.thy ===== *)
theory Lifecycle
  imports Prelude
begin

text \<open>
  The collection state machine: src/impl/common/collection_lifecycle.hpp and .cpp (the status
  table), src/impl/collector/collector_lifecycle_helpers.hpp and collector_mode_helpers.hpp
  (pause, resume and the start and stop modes the collectors share), the state of
  periodic_sampler.hpp, and the collection configuration.  A step relation states what the
  table allows, and the locale collector_lifecycle is the contract every collector keeps:
  the table decides, and a command moves the state only along the relation.
\<close>

section \<open>States, actions and the status table\<close>

datatype CollectionLifecycleState = UNCONFIGURED | CONFIGURED | STARTING | STARTED | PAUSED | STOPPED

datatype CollectionLifecycleAction = START | PAUSE | RESUME | STOP

fun state_index :: "CollectionLifecycleState \<Rightarrow> nat" where
  "state_index UNCONFIGURED = 0"
| "state_index CONFIGURED = 1"
| "state_index STARTING = 2"
| "state_index STARTED = 3"
| "state_index PAUSED = 4"
| "state_index STOPPED = 5"

fun action_index :: "CollectionLifecycleAction \<Rightarrow> nat" where
  "action_index START = 0"
| "action_index PAUSE = 1"
| "action_index RESUME = 2"
| "action_index STOP = 3"

definition kLifecycleStatuses :: "astl_status list list" where
  "kLifecycleStatuses =
   [[ASTL_STATUS_COLLECTION_NOT_CONFIGURED, ASTL_STATUS_SUCCESS,
     ASTL_STATUS_COLLECTION_ALREADY_RUNNING, ASTL_STATUS_COLLECTION_ALREADY_RUNNING,
     ASTL_STATUS_INVALID_STATE_TRANSITION, ASTL_STATUS_INVALID_STATE_TRANSITION],
    [ASTL_STATUS_COLLECTION_NOT_CONFIGURED, ASTL_STATUS_COLLECTION_NOT_RUNNING,
     ASTL_STATUS_COLLECTION_NOT_RUNNING, ASTL_STATUS_SUCCESS,
     ASTL_STATUS_COLLECTION_ALREADY_PAUSED, ASTL_STATUS_COLLECTION_ALREADY_STOPPED],
    [ASTL_STATUS_COLLECTION_NOT_CONFIGURED, ASTL_STATUS_COLLECTION_NOT_PAUSED,
     ASTL_STATUS_COLLECTION_ALREADY_RUNNING, ASTL_STATUS_COLLECTION_ALREADY_RUNNING,
     ASTL_STATUS_SUCCESS, ASTL_STATUS_COLLECTION_ALREADY_STOPPED],
    [ASTL_STATUS_COLLECTION_NOT_CONFIGURED, ASTL_STATUS_COLLECTION_NOT_RUNNING,
     ASTL_STATUS_INVALID_STATE_TRANSITION, ASTL_STATUS_SUCCESS,
     ASTL_STATUS_SUCCESS, ASTL_STATUS_COLLECTION_ALREADY_STOPPED]]"

text \<open>
  The check on the raw enumerator values, which a cast could put out of range: the code's
  bound tests and the precedence of the unconfigured state.
\<close>

definition check_lifecycle_indices :: "nat \<Rightarrow> nat \<Rightarrow> astl_status" where
  "check_lifecycle_indices state action =
    (if state = state_index UNCONFIGURED then ASTL_STATUS_COLLECTION_NOT_CONFIGURED
     else if action < length kLifecycleStatuses \<and> state < length (hd kLifecycleStatuses)
     then kLifecycleStatuses ! action ! state
     else ASTL_STATUS_INTERNAL_ERROR)"

definition CheckCollectionLifecycleAction ::
    "CollectionLifecycleState \<Rightarrow> CollectionLifecycleAction \<Rightarrow> astl_status" where
  "CheckCollectionLifecycleAction s a = check_lifecycle_indices (state_index s) (action_index a)"

section \<open>What the table allows\<close>

text \<open>The specification the table implements: the legal moves of a collection.\<close>

inductive lifecycle_step ::
    "CollectionLifecycleState \<Rightarrow> CollectionLifecycleAction \<Rightarrow> CollectionLifecycleState \<Rightarrow> bool" where
  start: "lifecycle_step CONFIGURED START STARTED"
| pause: "lifecycle_step STARTED PAUSE PAUSED"
| resume: "lifecycle_step PAUSED RESUME STARTED"
| stop_started: "lifecycle_step STARTED STOP STOPPED"
| stop_paused: "lifecycle_step PAUSED STOP STOPPED"

code_pred lifecycle_step .

inductive_simps lifecycle_step_simps [simp]: "lifecycle_step s a t"
inductive_cases lifecycle_stepE: "lifecycle_step s a t"

fun action_target :: "CollectionLifecycleAction \<Rightarrow> CollectionLifecycleState" where
  "action_target START = STARTED"
| "action_target PAUSE = PAUSED"
| "action_target RESUME = STARTED"
| "action_target STOP = STOPPED"

lemmas lifecycle_table =
  CheckCollectionLifecycleAction_def check_lifecycle_indices_def kLifecycleStatuses_def

lemma lifecycle_step_target: "lifecycle_step s a t \<Longrightarrow> t = action_target a"
  by (erule lifecycle_stepE) simp_all

lemma check_success_iff:
  "CheckCollectionLifecycleAction s a = ASTL_STATUS_SUCCESS \<longleftrightarrow> lifecycle_step s a (action_target a)"
  by (cases s; cases a) (simp_all add: lifecycle_table)

text \<open>
  The status table accepts an action exactly when the state machine has a step for it, and
  the only state such a step leads to is the target the callers store; every refusal carries
  the status of the state: not configured, already running, paused or stopped.  An enumerator
  value outside the enums is refused with INTERNAL_ERROR.
\<close>

theorem lifecycle_table_implements_machine:
  "(CheckCollectionLifecycleAction s a = ASTL_STATUS_SUCCESS
      \<longleftrightarrow> (\<exists>t. lifecycle_step s a t))
   \<and> (lifecycle_step s a t \<longrightarrow> t = action_target a)
   \<and> (s = UNCONFIGURED \<longrightarrow> CheckCollectionLifecycleAction s a = ASTL_STATUS_COLLECTION_NOT_CONFIGURED)
   \<and> (s = STOPPED \<longrightarrow> CheckCollectionLifecycleAction s a \<noteq> ASTL_STATUS_SUCCESS)
   \<and> (0 < i \<and> (6 \<le> i \<or> 4 \<le> j) \<longrightarrow> check_lifecycle_indices i j = ASTL_STATUS_INTERNAL_ERROR)"
proof (intro conjI impI)
  show "CheckCollectionLifecycleAction s a = ASTL_STATUS_SUCCESS
      \<longleftrightarrow> (\<exists>t. lifecycle_step s a t)"
    unfolding check_success_iff using lifecycle_step_target by blast
  show "lifecycle_step s a t \<Longrightarrow> t = action_target a" by (rule lifecycle_step_target)
  show "s = UNCONFIGURED \<Longrightarrow> CheckCollectionLifecycleAction s a = ASTL_STATUS_COLLECTION_NOT_CONFIGURED"
    by (simp add: lifecycle_table)
  show "s = STOPPED \<Longrightarrow> CheckCollectionLifecycleAction s a \<noteq> ASTL_STATUS_SUCCESS"
    by (cases a) (simp_all add: lifecycle_table)
  show "0 < i \<and> (6 \<le> i \<or> 4 \<le> j) \<Longrightarrow> check_lifecycle_indices i j = ASTL_STATUS_INTERNAL_ERROR"
    by (auto simp: check_lifecycle_indices_def kLifecycleStatuses_def)
qed

theorem lifecycle_table_implements_machine_witness:
  "CheckCollectionLifecycleAction STOPPED START \<noteq> ASTL_STATUS_SUCCESS
   \<and> check_lifecycle_indices 7 2 = ASTL_STATUS_INTERNAL_ERROR"
  using lifecycle_table_implements_machine [of STOPPED START STOPPED 7 2] by simp

section \<open>The configuration of a collection\<close>

datatype collection_mode = MODE_SAMPLING | MODE_IMMEDIATE | MODE_SNAPSHOT | MODE_INVALID nat

record 'op collection_operations =
  operationsBeforeStart :: "'op list"
  operationsAtStart :: "'op list"
  operationsOnSample :: "'op list"
  operationsAtStop :: "'op list"

record ('t, 'op) collection_configuration =
  cfg_target :: 't
  cfg_operations :: "'op collection_operations"
  cfg_mode :: collection_mode
  cfg_sampling_interval :: nat

section \<open>The sampler and the shared start and stop modes\<close>

text \<open>
  A PeriodicSampler as the collectors see it: the interval it was built with and its paused
  flag.  Its thread calls ReadImmediate while the flag is clear; the calls take the collector's
  mutex, so they are atomic steps of their own.
\<close>

record periodic_sampler =
  ps_interval :: nat
  ps_paused :: bool

definition sampler_step :: "periodic_sampler option \<Rightarrow> ('w \<Rightarrow> astl_status \<times> 'w) \<Rightarrow> 'w \<Rightarrow> 'w" where
  "sampler_step ps read_immediate w =
    (case ps of None \<Rightarrow> w | Some p \<Rightarrow> if ps_paused p then w else snd (read_immediate w))"

definition PauseCollectionLifecycle ::
    "CollectionLifecycleState \<Rightarrow> periodic_sampler option \<Rightarrow> ('w \<Rightarrow> astl_status \<times> 'w) \<Rightarrow> 'w
     \<Rightarrow> astl_status \<times> CollectionLifecycleState \<times> periodic_sampler option \<times> 'w" where
  "PauseCollectionLifecycle state sampler emit_marker w =
    (let status = CheckCollectionLifecycleAction state PAUSE in
     if status \<noteq> ASTL_STATUS_SUCCESS then (status, state, sampler, w)
     else let sampler' = map_option (\<lambda>p. p\<lparr>ps_paused := True\<rparr>) sampler;
              (emit_status, w') = emit_marker w in
       (emit_status, PAUSED, sampler', w'))"

definition ResumeCollectionLifecycle ::
    "CollectionLifecycleState \<Rightarrow> periodic_sampler option \<Rightarrow> ('w \<Rightarrow> astl_status \<times> 'w) \<Rightarrow> 'w
     \<Rightarrow> astl_status \<times> CollectionLifecycleState \<times> periodic_sampler option \<times> 'w" where
  "ResumeCollectionLifecycle state sampler emit_marker w =
    (let status = CheckCollectionLifecycleAction state RESUME in
     if status \<noteq> ASTL_STATUS_SUCCESS then (status, state, sampler, w)
     else let (emit_status, w') = emit_marker w;
              sampler' = map_option (\<lambda>p. p\<lparr>ps_paused := False\<rparr>) sampler in
       (emit_status, STARTED, sampler', w'))"

definition ExecuteStartMode ::
    "('t, 'op) collection_configuration \<Rightarrow> ('op list \<Rightarrow> 'w \<Rightarrow> astl_status \<times> 'w)
     \<Rightarrow> ('w \<Rightarrow> astl_status \<times> 'w) \<Rightarrow> 'w \<Rightarrow> astl_status \<times> 'w" where
  "ExecuteStartMode cfg execute start_sampling w =
    (let (status, w1) = execute (operationsAtStart (cfg_operations cfg)) w in
     if status \<noteq> ASTL_STATUS_SUCCESS then (status, w1)
     else case cfg_mode cfg of
         MODE_IMMEDIATE \<Rightarrow> (ASTL_STATUS_SUCCESS, w1)
       | MODE_SNAPSHOT \<Rightarrow> execute (operationsOnSample (cfg_operations cfg)) w1
       | MODE_SAMPLING \<Rightarrow> start_sampling w1
       | MODE_INVALID n \<Rightarrow> (ASTL_STATUS_BAD_CONFIGURATION, w1))"

definition ExecuteStopMode ::
    "('t, 'op) collection_configuration \<Rightarrow> ('op list \<Rightarrow> 'w \<Rightarrow> astl_status \<times> 'w) \<Rightarrow> 'w
     \<Rightarrow> astl_status \<times> 'w" where
  "ExecuteStopMode cfg execute w =
    (case cfg_mode cfg of
       MODE_SNAPSHOT \<Rightarrow>
         (let (status, w1) = execute (operationsOnSample (cfg_operations cfg)) w in
          if status \<noteq> ASTL_STATUS_SUCCESS then (status, w1)
          else execute (operationsAtStop (cfg_operations cfg)) w1)
     | MODE_INVALID n \<Rightarrow> (ASTL_STATUS_BAD_CONFIGURATION, w)
     | _ \<Rightarrow> execute (operationsAtStop (cfg_operations cfg)) w)"

section \<open>The contract of a collector\<close>

text \<open>
  The commands a collector manager issues.  A configuration may be given only while nothing
  runs, and one that is refused may leave the collector without any; clearing a running collection
  is refused.
\<close>

datatype 'cfg lifecycle_command =
  CmdConfigure 'cfg | CmdClear | CmdStart | CmdPause | CmdResume | CmdStop | CmdRead

text \<open>The moves of a collection over its whole life, configuration and clearing included.\<close>

inductive collection_move :: "CollectionLifecycleState \<Rightarrow> CollectionLifecycleState \<Rightarrow> bool" where
  move_stay: "collection_move s s"
| move_action: "lifecycle_step s a t \<Longrightarrow> collection_move s t"
| move_configure: "s \<in> {UNCONFIGURED, CONFIGURED, STOPPED} \<Longrightarrow> collection_move s CONFIGURED"
| move_clear: "s \<notin> {STARTED, PAUSED} \<Longrightarrow> collection_move s UNCONFIGURED"

inductive_simps collection_move_iff: "collection_move s t"

text \<open>What an action command may do to the state, given the table's verdict.\<close>

definition action_law :: "CollectionLifecycleState \<Rightarrow> CollectionLifecycleAction \<Rightarrow> astl_status
    \<Rightarrow> CollectionLifecycleState \<Rightarrow> bool" where
  "action_law s a status t \<longleftrightarrow>
    (if CheckCollectionLifecycleAction s a \<noteq> ASTL_STATUS_SUCCESS
     then status = CheckCollectionLifecycleAction s a \<and> t = s
     else t \<in> {s, action_target a} \<and> (status = ASTL_STATUS_SUCCESS \<longrightarrow> t = action_target a))"

lemma action_law_move: "action_law s a status t \<Longrightarrow> collection_move s t"
proof -
  assume law: "action_law s a status t"
  show ?thesis
  proof (cases "CheckCollectionLifecycleAction s a = ASTL_STATUS_SUCCESS")
    case True
    then have "lifecycle_step s a (action_target a)" unfolding check_success_iff .
    then show ?thesis
      using law move_action [of s a "action_target a"] move_stay [of s] True
      by (auto simp del: lifecycle_step_simps simp: action_law_def)
  next
    case False
    then show ?thesis using law move_stay by (simp add: action_law_def)
  qed
qed

lemma action_law_stopped: "action_law STOPPED a st t \<Longrightarrow> st \<noteq> ASTL_STATUS_SUCCESS \<and> t = STOPPED"
  by (cases a) (simp_all add: action_law_def lifecycle_table)

lemma action_law_not_running:
  "action_law s a st t \<Longrightarrow> s \<notin> {STARTED, PAUSED} \<Longrightarrow> a \<noteq> START \<Longrightarrow> t = s"
  by (cases s; cases a) (simp_all add: action_law_def lifecycle_table)

locale collector_lifecycle =
  fixes lc :: "'c \<Rightarrow> CollectionLifecycleState"
    and exec :: "'cfg lifecycle_command \<Rightarrow> 'c \<Rightarrow> astl_status \<times> 'c"
  assumes exec_start: "exec CmdStart c = (st, c') \<Longrightarrow> action_law (lc c) START st (lc c')"
    and exec_pause: "exec CmdPause c = (st, c') \<Longrightarrow> action_law (lc c) PAUSE st (lc c')"
    and exec_resume: "exec CmdResume c = (st, c') \<Longrightarrow> action_law (lc c) RESUME st (lc c')"
    and exec_stop: "exec CmdStop c = (st, c') \<Longrightarrow> action_law (lc c) STOP st (lc c')"
    and exec_configure: "exec (CmdConfigure g) c = (st, c') \<Longrightarrow>
          (if lc c \<in> {UNCONFIGURED, CONFIGURED, STOPPED}
           then lc c' \<in> {lc c, CONFIGURED, UNCONFIGURED} \<and> (st = ASTL_STATUS_SUCCESS \<longrightarrow> lc c' = CONFIGURED)
           else st \<noteq> ASTL_STATUS_SUCCESS \<and> lc c' = lc c)"
    and exec_clear: "exec CmdClear c = (st, c') \<Longrightarrow>
          (if lc c \<in> {STARTED, PAUSED} then st \<noteq> ASTL_STATUS_SUCCESS \<and> lc c' = lc c
           else lc c' = UNCONFIGURED)"
    and exec_read: "exec CmdRead c = (st, c') \<Longrightarrow> lc c' = lc c"
begin

fun run :: "'cfg lifecycle_command list \<Rightarrow> 'c \<Rightarrow> 'c" where
  "run [] c = c"
| "run (x # xs) c = run xs (snd (exec x c))"

lemma exec_cases:
  obtains st c' where "exec x c = (st, c')" "snd (exec x c) = c'"
  by (cases "exec x c") simp

lemma exec_move: "collection_move (lc c) (lc (snd (exec x c)))"
proof -
  obtain st c' where e: "exec x c = (st, c')" "snd (exec x c) = c'" by (rule exec_cases)
  show ?thesis
  proof (cases x)
    case (CmdConfigure g)
    then show ?thesis
      using exec_configure [of g c st c'] e
      by (auto simp: intro: collection_move.intros split: if_splits)
  next
    case CmdClear
    then show ?thesis
      using exec_clear [of c st c'] e
      by (auto intro: collection_move.intros split: if_splits)
  next
    case CmdRead
    then show ?thesis using exec_read [of c st c'] e by (simp add: move_stay)
  qed (use e exec_start exec_pause exec_resume exec_stop action_law_move in \<open>simp; metis\<close>)+
qed

lemma run_reachable: "collection_move\<^sup>*\<^sup>* (lc c) (lc (run xs c))"
proof (induction xs arbitrary: c)
  case (Cons x xs)
  then show ?case
    using converse_rtranclp_into_rtranclp [of collection_move, OF exec_move [of c x]] by simp
qed simp

text \<open>A collection runs only after a start command, and a stopped one stays stopped.\<close>

lemma exec_not_running:
  assumes "lc c \<notin> {STARTED, PAUSED}" "x \<noteq> CmdStart"
  shows "lc (snd (exec x c)) \<notin> {STARTED, PAUSED}"
proof -
  obtain st c' where e: "exec x c = (st, c')" "snd (exec x c) = c'" by (rule exec_cases)
  show ?thesis
  proof (cases x)
    case (CmdConfigure g)
    then show ?thesis using exec_configure [of g c st c'] e assms by (auto split: if_splits)
  next
    case CmdClear
    then show ?thesis using exec_clear [of c st c'] e assms by simp
  next
    case CmdPause
    then show ?thesis
      using assms(1) action_law_not_running [OF exec_pause [of c st c'] assms(1)] e by simp
  next
    case CmdResume
    then show ?thesis
      using assms(1) action_law_not_running [OF exec_resume [of c st c'] assms(1)] e by simp
  next
    case CmdStop
    then show ?thesis
      using assms(1) action_law_not_running [OF exec_stop [of c st c'] assms(1)] e by simp
  next
    case CmdRead
    then show ?thesis using exec_read [of c st c'] e assms by simp
  qed (use assms in simp)
qed

lemma run_without_start:
  "lc c \<notin> {STARTED, PAUSED} \<Longrightarrow> CmdStart \<notin> set xs \<Longrightarrow> lc (run xs c) \<notin> {STARTED, PAUSED}"
  using exec_not_running by (induction xs arbitrary: c) auto

lemma exec_stopped:
  assumes "lc c = STOPPED" "x \<in> {CmdStart, CmdPause, CmdResume, CmdStop, CmdRead}"
  shows "lc (snd (exec x c)) = STOPPED" "x \<noteq> CmdRead \<Longrightarrow> fst (exec x c) \<noteq> ASTL_STATUS_SUCCESS"
proof -
  obtain st c' where e: "exec x c = (st, c')" "snd (exec x c) = c'" by (rule exec_cases)
  have "lc c' = STOPPED \<and> (x \<noteq> CmdRead \<longrightarrow> st \<noteq> ASTL_STATUS_SUCCESS)"
    using assms(2)
  proof (elim insertE emptyE)
    assume "x = CmdStart" then show ?thesis
      using action_law_stopped [of START st "lc c'"] exec_start [of c st c'] e assms(1) by simp
  next
    assume "x = CmdPause" then show ?thesis
      using action_law_stopped [of PAUSE st "lc c'"] exec_pause [of c st c'] e assms(1) by simp
  next
    assume "x = CmdResume" then show ?thesis
      using action_law_stopped [of RESUME st "lc c'"] exec_resume [of c st c'] e assms(1) by simp
  next
    assume "x = CmdStop" then show ?thesis
      using action_law_stopped [of STOP st "lc c'"] exec_stop [of c st c'] e assms(1) by simp
  next
    assume "x = CmdRead" then show ?thesis using exec_read [of c st c'] e assms(1) by simp
  qed
  then show "lc (snd (exec x c)) = STOPPED" "x \<noteq> CmdRead \<Longrightarrow> fst (exec x c) \<noteq> ASTL_STATUS_SUCCESS"
    using e by simp_all
qed

lemma run_stopped:
  "lc c = STOPPED \<Longrightarrow> set xs \<subseteq> {CmdStart, CmdPause, CmdResume, CmdStop, CmdRead} \<Longrightarrow>
   lc (run xs c) = STOPPED"
  using exec_stopped(1) by (induction xs arbitrary: c) auto

end

text \<open>
  A collector whose start and stop change the state only when they succeed.  The pause and resume
  helpers above may report the failure of a marker after the state has changed, so they are not
  asked for it.
\<close>

locale strict_collector = collector_lifecycle lc exec
  for lc :: "'c \<Rightarrow> CollectionLifecycleState" and exec :: "'cfg lifecycle_command \<Rightarrow> 'c \<Rightarrow> astl_status \<times> 'c" +
  assumes start_refused: "exec CmdStart c = (st, c') \<Longrightarrow> st \<noteq> ASTL_STATUS_SUCCESS \<Longrightarrow> lc c' = lc c"
    and stop_refused: "exec CmdStop c = (st, c') \<Longrightarrow> st \<noteq> ASTL_STATUS_SUCCESS \<Longrightarrow> lc c' = lc c"
begin

definition running :: "'c \<Rightarrow> bool" where "running c \<longleftrightarrow> lc c \<in> {STARTED, PAUSED}"

lemma running_start: "exec CmdStart c = (st, c') \<Longrightarrow> running c' \<longleftrightarrow> st = ASTL_STATUS_SUCCESS \<or> running c"
  using exec_start [of c st c'] start_refused [of c st c']
  by (cases "st = ASTL_STATUS_SUCCESS"; cases "lc c") (auto simp: running_def action_law_def lifecycle_table split: if_splits)

lemma running_stop: "exec CmdStop c = (st, c') \<Longrightarrow> running c' \<longleftrightarrow> st \<noteq> ASTL_STATUS_SUCCESS \<and> running c"
  using exec_stop [of c st c'] stop_refused [of c st c']
  by (cases "st = ASTL_STATUS_SUCCESS"; cases "lc c") (auto simp: running_def action_law_def lifecycle_table split: if_splits)

lemma running_pause_resume:
  "x \<in> {CmdPause, CmdResume} \<Longrightarrow> exec x c = (st, c') \<Longrightarrow> running c' \<longleftrightarrow> running c"
  using exec_pause [of c st c'] exec_resume [of c st c']
  by (cases "lc c") (auto simp: running_def action_law_def lifecycle_table split: if_splits)

lemma running_read: "exec CmdRead c = (st, c') \<Longrightarrow> running c' \<longleftrightarrow> running c"
  using exec_read [of c st c'] by (simp add: running_def)

lemma running_configure: "exec (CmdConfigure g) c = (st, c') \<Longrightarrow> running c' \<longleftrightarrow> running c"
  using exec_configure [of g c st c'] by (auto simp: running_def split: if_splits)

lemma running_clear: "exec CmdClear c = (st, c') \<Longrightarrow> running c' \<longleftrightarrow> running c"
  using exec_clear [of c st c'] by (auto simp: running_def split: if_splits)

end

end
