(* ===== verification/Text_Utils.thy ===== *)
theory Text_Utils
  imports Prelude
begin

text \<open>
  The text routines: Trim and SplitWhitespace of src/impl/procfs/procfs_utils.cpp, ParseUint64
  of src/impl/common/text_parse_utils.hpp, the key-value parsers of key_value_text_utils.cpp
  and the line readers of text_file_utils.cpp.  A std::string is a char list, a string_view the
  list it shows; a scan that advances a position is the recursion on the rest of the text.
\<close>

section \<open>Characters and lines\<close>

text \<open>std::isspace and std::isdigit in the C locale.\<close>

definition isspace :: "char \<Rightarrow> bool" where
  "isspace c \<longleftrightarrow> of_char c \<in> {9, 10, 11, 12, 13, 32 :: nat}"

definition isdigit :: "char \<Rightarrow> bool" where
  "isdigit c \<longleftrightarrow> 48 \<le> (of_char c :: nat) \<and> of_char c \<le> (57 :: nat)"

definition newline :: char where "newline = CHR 0x0A"

text \<open>
  The segments between separators.  The position loops of the parsers visit exactly these,
  the last one included even when it is empty.
\<close>

fun split_on :: "char \<Rightarrow> string \<Rightarrow> string list" where
  "split_on c [] = [[]]"
| "split_on c (x # xs) =
    (if x = c then [] # split_on c xs
     else case split_on c xs of [] \<Rightarrow> [[x]] | l # ls \<Rightarrow> (x # l) # ls)"

definition view_lines :: "string \<Rightarrow> string list" where
  "view_lines text = split_on newline text"

text \<open>std::getline delivers no empty line after a final newline.\<close>

definition getline_lines :: "string \<Rightarrow> string list" where
  "getline_lines text =
    (let ls = split_on newline text in if last ls = [] then butlast ls else ls)"

text \<open>string_view::find of a character, and the two pieces around it.\<close>

fun find_char :: "char \<Rightarrow> string \<Rightarrow> (string \<times> string) option" where
  "find_char c [] = None"
| "find_char c (x # xs) =
    (if x = c then Some ([], xs)
     else map_option (\<lambda>(a, b). (x # a, b)) (find_char c xs))"

section \<open>Trim and SplitWhitespace\<close>

definition Trim :: "string \<Rightarrow> string" where
  "Trim text = rev (dropWhile isspace (rev (dropWhile isspace text)))"

function SplitWhitespace :: "string \<Rightarrow> string list" where
  "SplitWhitespace line =
    (let rest = dropWhile isspace line in
     if rest = [] then []
     else takeWhile (\<lambda>c. \<not> isspace c) rest # SplitWhitespace (dropWhile (\<lambda>c. \<not> isspace c) rest))"
  by pat_completeness auto

lemma dropWhile_token_shorter:
  "dropWhile isspace line \<noteq> [] \<Longrightarrow>
   length (dropWhile (\<lambda>c. \<not> isspace c) (dropWhile isspace line)) < length line"
proof -
  assume ne: "dropWhile isspace line \<noteq> []"
  obtain x xs where x: "dropWhile isspace line = x # xs" using ne by (cases "dropWhile isspace line") auto
  then have "\<not> isspace x" using hd_dropWhile [OF ne] by simp
  then have "length (dropWhile (\<lambda>c. \<not> isspace c) (dropWhile isspace line)) \<le> length xs"
    using x length_dropWhile_le [of "\<lambda>c. \<not> isspace c" xs] by simp
  also have "\<dots> < length line"
    using x length_dropWhile_le [of isspace line] by simp
  finally show ?thesis .
qed

termination SplitWhitespace
  by (relation "measure length") (simp_all add: Let_def dropWhile_token_shorter)

declare SplitWhitespace.simps [simp del]

section \<open>Numbers\<close>

text \<open>
  std::from_chars for an unsigned type of w bits: the longest prefix of digits, an error when
  it is empty or its value does not fit.  The rest of the text is returned with the value.
\<close>

definition digit_value :: "char \<Rightarrow> nat" where "digit_value c = of_char c - 48"

definition digits_value :: "string \<Rightarrow> nat" where
  "digits_value ds = foldl (\<lambda>n c. 10 * n + digit_value c) 0 ds"

definition from_chars :: "nat \<Rightarrow> string \<Rightarrow> (nat \<times> string) option" where
  "from_chars w s =
    (let ds = takeWhile isdigit s in
     if ds = [] then None
     else if digits_value ds < 2 ^ w then Some (digits_value ds, dropWhile isdigit s)
     else None)"

definition parse_unsigned :: "nat \<Rightarrow> string \<Rightarrow> nat option" where
  "parse_unsigned w s =
    (case from_chars w s of Some (n, rest) \<Rightarrow> if rest = [] then Some n else None | None \<Rightarrow> None)"

definition ParseUint64 :: "string \<Rightarrow> 64 word option" where
  "ParseUint64 text =
    (let trimmed = Trim text in
     if trimmed = [] then None else map_option of_nat (parse_unsigned 64 trimmed))"

text \<open>find_first_of(" \t\n\r") ends the leading token.\<close>

definition ParseLeadingUint64 :: "string \<Rightarrow> 64 word option" where
  "ParseLeadingUint64 text =
    (let trimmed = Trim text in
     if trimmed = [] then None
     else ParseUint64 (takeWhile (\<lambda>c. (of_char c :: nat) \<notin> {32, 9, 10, 13}) trimmed))"

section \<open>Key-value text\<close>

definition ParseKeyValueLine :: "string \<Rightarrow> char \<Rightarrow> (string \<times> string) option" where
  "ParseKeyValueLine line separator =
    (case find_char separator line of
       None \<Rightarrow> None
     | Some (before, after) \<Rightarrow>
         let key = Trim before; v = Trim after in
         if key = [] \<or> v = [] then None else Some (key, v))"

text \<open>A KeyValueMap; try_emplace keeps the value that is there.\<close>

type_synonym key_values = "(string \<times> string) list"

definition try_emplace :: "string \<Rightarrow> string \<Rightarrow> key_values \<Rightarrow> key_values" where
  "try_emplace k v m = (case map_of m k of None \<Rightarrow> m @ [(k, v)] | Some _ \<Rightarrow> m)"

fun parse_lines_into :: "char \<Rightarrow> key_values \<Rightarrow> string list \<Rightarrow> key_values" where
  "parse_lines_into sep m [] = m"
| "parse_lines_into sep m (l # ls) =
    parse_lines_into sep
      (case ParseKeyValueLine l sep of None \<Rightarrow> m | Some (k, v) \<Rightarrow> try_emplace k v m) ls"

definition ParseKeyValueText :: "string \<Rightarrow> char \<Rightarrow> key_values" where
  "ParseKeyValueText text separator = parse_lines_into separator [] (view_lines text)"

text \<open>The two overloads of FindFirstKeyValue: on a parsed map, and on the text itself.\<close>

fun FindFirstKeyValue :: "key_values \<Rightarrow> string list \<Rightarrow> string" where
  "FindFirstKeyValue values [] = []"
| "FindFirstKeyValue values (key # keys) =
    (case map_of values key of Some v \<Rightarrow> v | None \<Rightarrow> FindFirstKeyValue values keys)"

fun find_in_lines :: "string list \<Rightarrow> char \<Rightarrow> string list \<Rightarrow> string" where
  "find_in_lines keys sep [] = []"
| "find_in_lines keys sep (l # ls) =
    (case ParseKeyValueLine l sep of
       Some (k, v) \<Rightarrow> if k \<in> set keys then v else find_in_lines keys sep ls
     | None \<Rightarrow> find_in_lines keys sep ls)"

definition FindFirstKeyValueInText :: "string \<Rightarrow> string list \<Rightarrow> char \<Rightarrow> string" where
  "FindFirstKeyValueInText text keys separator = find_in_lines keys separator (view_lines text)"

section \<open>Text files\<close>

text \<open>
  The file system is an argument: read gives a status and the contents.  The paths are those
  the callers name.
\<close>

type_synonym file_reader = "string \<Rightarrow> string result"

definition ReadTextFile :: "file_reader \<Rightarrow> string \<Rightarrow> string option" where
  "ReadTextFile files path =
    (case files path of Inr contents \<Rightarrow> if contents = [] then None else Some contents | Inl _ \<Rightarrow> None)"

definition ReadFirstTrimmedLine :: "file_reader \<Rightarrow> string \<Rightarrow> string option" where
  "ReadFirstTrimmedLine files path =
    (case ReadTextFile files path of
       None \<Rightarrow> None
     | Some contents \<Rightarrow>
         let trimmed = Trim (takeWhile (\<lambda>c. c \<noteq> newline) contents) in
         if trimmed = [] then None else Some trimmed)"

fun ReadFirstAvailableLine :: "file_reader \<Rightarrow> string list \<Rightarrow> string option" where
  "ReadFirstAvailableLine files [] = None"
| "ReadFirstAvailableLine files (path # paths) =
    (case ReadFirstTrimmedLine files path of
       Some v \<Rightarrow> Some v | None \<Rightarrow> ReadFirstAvailableLine files paths)"

definition ReadFirstMatchingKeyValueFromFile ::
    "file_reader \<Rightarrow> string \<Rightarrow> string list \<Rightarrow> char \<Rightarrow> string option" where
  "ReadFirstMatchingKeyValueFromFile files path keys separator =
    (case ReadTextFile files path of
       None \<Rightarrow> None
     | Some contents \<Rightarrow>
         let v = FindFirstKeyValueInText contents keys separator in if v = [] then None else Some v)"

section \<open>Trim\<close>

definition blank :: "string \<Rightarrow> bool" where "blank s \<longleftrightarrow> list_all isspace s"

lemma blank_simps [simp]:
  "blank []" "blank (c # s) \<longleftrightarrow> isspace c \<and> blank s" "blank (s @ t) \<longleftrightarrow> blank s \<and> blank t"
  "blank (rev s) \<longleftrightarrow> blank s"
  by (auto simp: blank_def list_all_iff)

lemma dropWhile_blank: "blank s \<Longrightarrow> dropWhile isspace (s @ t) = dropWhile isspace t"
  by (induction s) simp_all

lemma dropWhile_blank_Nil: "dropWhile isspace s = [] \<longleftrightarrow> blank s"
  by (simp add: blank_def list_all_iff)

lemma Trim_blank_around:
  assumes "blank pre" "blank post" "t \<noteq> [] \<Longrightarrow> \<not> isspace (hd t) \<and> \<not> isspace (last t)"
  shows "Trim (pre @ t @ post) = t"
proof (cases "t = []")
  case True
  then have dw: "dropWhile isspace (pre @ t @ post) = []"
    using assms(1,2) by (simp only: dropWhile_blank_Nil blank_simps append_Nil)
  show ?thesis unfolding Trim_def dw using True by simp
next
  case False
  have h: "dropWhile isspace (t @ post) = t @ post"
    using assms(3) [OF False] False by (cases t) simp_all
  have l: "dropWhile isspace (rev t) = rev t"
    using assms(3) [OF False] False by (cases t rule: rev_cases) simp_all
  show ?thesis
    using dropWhile_blank [OF assms(1), of "t @ post"] dropWhile_blank [of "rev post" "rev t"] assms(2)
    by (simp add: Trim_def h l)
qed

lemma Trim_Nil_iff: "Trim s = [] \<longleftrightarrow> blank s"
proof
  assume "Trim s = []"
  then have "blank (dropWhile isspace s)"
    by (simp only: Trim_def rev_is_Nil_conv dropWhile_blank_Nil blank_simps)
  moreover have "blank (takeWhile isspace s)" by (induction s) simp_all
  ultimately have "blank (takeWhile isspace s @ dropWhile isspace s)"
    by (simp only: blank_simps)
  then show "blank s" by (simp only: takeWhile_dropWhile_id)
next
  assume "blank s"
  then show "Trim s = []" using Trim_blank_around [of s "[]" "[]"] by simp
qed

lemma Trim_no_space: "list_all (\<lambda>c. \<not> isspace c) t \<Longrightarrow> Trim t = t"
  using Trim_blank_around [of "[]" "[]" t] by (cases t) (auto simp: list_all_iff)

section \<open>SplitWhitespace splits exactly at the blanks\<close>

text \<open>
  A line laid out as tokens, each followed by its blanks; only the last token may have none.
\<close>

fun lay_out :: "(string \<times> string) list \<Rightarrow> string" where
  "lay_out [] = []"
| "lay_out ((t, b) # ps) = t @ b @ lay_out ps"

fun wf_layout :: "(string \<times> string) list \<Rightarrow> bool" where
  "wf_layout [] = True"
| "wf_layout ((t, b) # ps) \<longleftrightarrow>
     t \<noteq> [] \<and> list_all (\<lambda>c. \<not> isspace c) t \<and> blank b \<and> (ps \<noteq> [] \<longrightarrow> b \<noteq> []) \<and> wf_layout ps"

lemma takeWhile_token:
  "list_all (\<lambda>c. \<not> isspace c) t \<Longrightarrow> r = [] \<or> isspace (hd r) \<Longrightarrow>
   takeWhile (\<lambda>c. \<not> isspace c) (t @ r) = t \<and> dropWhile (\<lambda>c. \<not> isspace c) (t @ r) = r"
  by (induction t) (cases r; auto)+

lemma SplitWhitespace_blank: "blank pre \<Longrightarrow> SplitWhitespace (pre @ s) = SplitWhitespace s"
  unfolding SplitWhitespace.simps [of "pre @ s"] SplitWhitespace.simps [of s]
  by (simp add: dropWhile_blank)

lemma SplitWhitespace_Nil [simp]: "SplitWhitespace [] = []"
  by (subst SplitWhitespace.simps) (simp add: Let_def)

lemma SplitWhitespace_token:
  assumes "t \<noteq> []" "list_all (\<lambda>c. \<not> isspace c) t" "r = [] \<or> isspace (hd r)"
  shows "SplitWhitespace (t @ r) = t # SplitWhitespace r"
proof -
  have "dropWhile isspace (t @ r) = t @ r" using assms(1,2) by (cases t) simp_all
  then show ?thesis
    using assms(1) takeWhile_token [OF assms(2,3)]
    by (subst SplitWhitespace.simps) (simp add: Let_def)
qed

lemma SplitWhitespace_layout: "wf_layout ps \<Longrightarrow> SplitWhitespace (lay_out ps) = map fst ps"
proof (induction ps)
  case (Cons p ps)
  obtain t b where p: "p = (t, b)" by (cases p)
  have b: "blank b" "t \<noteq> []" "list_all (\<lambda>c. \<not> isspace c) t" "ps \<noteq> [] \<longrightarrow> b \<noteq> []" "wf_layout ps"
    using Cons.prems by (simp_all add: p)
  have "b @ lay_out ps = [] \<or> isspace (hd (b @ lay_out ps))"
    using b(1,4) by (cases b; cases ps) simp_all
  then have "SplitWhitespace (lay_out (p # ps)) = t # SplitWhitespace (b @ lay_out ps)"
    using SplitWhitespace_token [OF b(2,3)] by (simp add: p)
  also have "\<dots> = t # SplitWhitespace (lay_out ps)" using SplitWhitespace_blank [OF b(1)] by simp
  finally show ?case using Cons.IH [OF b(5)] by (simp add: p)
qed simp

lemma layout_exists: "\<exists>pre ps. blank pre \<and> wf_layout ps \<and> s = pre @ lay_out ps"
proof (induction s rule: SplitWhitespace.induct)
  case (1 s)
  define rest where "rest = dropWhile isspace s"
  define t where "t = takeWhile (\<lambda>c. \<not> isspace c) rest"
  define r where "r = dropWhile (\<lambda>c. \<not> isspace c) rest"
  have pre: "blank (takeWhile isspace s)" by (induction s) simp_all
  have s: "s = takeWhile isspace s @ rest" by (simp add: rest_def)
  show ?case
  proof (cases "rest = []")
    case True
    then show ?thesis
      using pre s by (intro exI [of _ "takeWhile isspace s"] exI [of _ "[]"]) simp
  next
    case False
    obtain b ps where b: "blank b" "wf_layout ps" "r = b @ lay_out ps"
      using 1 [OF rest_def False] unfolding r_def rest_def by blast
    have rs: "r = [] \<or> isspace (hd r)"
      using hd_dropWhile [of "\<lambda>c. \<not> isspace c" rest] by (auto simp: r_def)
    have t: "t \<noteq> []" "list_all (\<lambda>c. \<not> isspace c) t"
      using False hd_dropWhile [of isspace s]
      by (auto simp: t_def rest_def list_all_iff takeWhile_eq_Nil_iff dest: set_takeWhileD)
    have "ps \<noteq> [] \<longrightarrow> b \<noteq> []"
    proof (intro impI notI)
      assume ne: "ps \<noteq> []" and "b = []"
      then obtain t' b' ps' where "ps = (t', b') # ps'" by (cases ps) auto
      then show False using b rs \<open>b = []\<close> by (cases t') auto
    qed
    then have "wf_layout ((t, b) # ps)" using b t by simp
    moreover have "s = takeWhile isspace s @ lay_out ((t, b) # ps)"
      using s b(3) takeWhile_dropWhile_id [of "\<lambda>c. \<not> isspace c" rest]
      by (metis append.assoc lay_out.simps(2) r_def t_def)
    ultimately show ?thesis using pre by blast
  qed
qed

text \<open>
  SplitWhitespace is the inverse of laying tokens out with blanks between them: every line
  is such a layout, and the routine returns its tokens in order, none empty and none holding a
  blank.
\<close>

theorem SplitWhitespace_inverts_layout:
  "(\<exists>pre ps. blank pre \<and> wf_layout ps \<and> line = pre @ lay_out ps)
   \<and> (\<forall>pre ps. blank pre \<and> wf_layout ps \<and> line = pre @ lay_out ps \<longrightarrow>
        SplitWhitespace line = map fst ps)"
  using layout_exists [of line] SplitWhitespace_layout SplitWhitespace_blank by auto

theorem SplitWhitespace_inverts_layout_witness:
  "SplitWhitespace '' cpu0  12 7'' = [''cpu0'', ''12'', ''7'']"
proof -
  have "blank '' '' \<and> wf_layout [(''cpu0'', ''  ''), (''12'', '' ''), (''7'', [])]
      \<and> '' cpu0  12 7'' = '' '' @ lay_out [(''cpu0'', ''  ''), (''12'', '' ''), (''7'', [])]"
    by (simp add: blank_def isspace_def)
  then have "SplitWhitespace '' cpu0  12 7'' = map fst [(''cpu0'', ''  ''), (''12'', '' ''), (''7'', [])]"
    using SplitWhitespace_inverts_layout [of "'' cpu0  12 7''"] by blast
  then show ?thesis by simp
qed

section \<open>Decimal numbers\<close>

definition digit_char :: "nat \<Rightarrow> char" where "digit_char d = char_of (48 + d)"

fun show_nat :: "nat \<Rightarrow> string" where
  "show_nat n = (if n < 10 then [digit_char n] else show_nat (n div 10) @ [digit_char (n mod 10)])"

declare show_nat.simps [simp del]

lemma of_char_digit_char: "d < 10 \<Longrightarrow> (of_char (digit_char d) :: nat) = 48 + d"
  by (simp add: digit_char_def)

lemma isdigit_digit_char [simp]: "d < 10 \<Longrightarrow> isdigit (digit_char d)"
  by (simp add: isdigit_def of_char_digit_char)

lemma digit_value_digit_char [simp]: "d < 10 \<Longrightarrow> digit_value (digit_char d) = d"
  by (simp add: digit_value_def of_char_digit_char)

lemma isdigit_not_isspace: "isdigit c \<Longrightarrow> \<not> isspace c"
  by (auto simp: isdigit_def isspace_def)

lemma digits_value_append: "digits_value (ds @ [c]) = 10 * digits_value ds + digit_value c"
  by (simp add: digits_value_def)

lemma show_nat_digits: "list_all isdigit (show_nat n)"
  by (induction n rule: show_nat.induct) (subst show_nat.simps, simp)

lemma show_nat_not_Nil [simp]: "show_nat n \<noteq> []"
  by (subst show_nat.simps) simp

lemma digits_value_show_nat: "digits_value (show_nat n) = n"
proof (induction n rule: show_nat.induct)
  case (1 n)
  show ?case
  proof (cases "n < 10")
    case True
    then show ?thesis by (subst show_nat.simps) (simp add: digits_value_def)
  next
    case False
    then show ?thesis using 1 by (subst show_nat.simps) (simp add: digits_value_append)
  qed
qed

lemma parse_unsigned_eq:
  "parse_unsigned w s = Some n \<longleftrightarrow>
     s \<noteq> [] \<and> list_all isdigit s \<and> digits_value s = n \<and> n < 2 ^ w"
proof -
  have "dropWhile isdigit s = [] \<longleftrightarrow> list_all isdigit s" by (simp add: list_all_iff)
  moreover have "takeWhile isdigit s = s" if "list_all isdigit s"
    using that by (simp add: list_all_iff takeWhile_eq_all_conv)
  ultimately show ?thesis
    by (cases "list_all isdigit s")
      (auto simp only: parse_unsigned_def from_chars_def Let_def split: if_splits option.splits)
qed

lemma parse_unsigned_None_overflow:
  "\<not> digits_value s < 2 ^ w \<Longrightarrow> parse_unsigned w s = None"
  using parse_unsigned_eq [of w s] by (metis not_None_eq)

lemma digits_no_space: "list_all isdigit s \<Longrightarrow> list_all (\<lambda>c. \<not> isspace c) s"
  by (auto simp: list_all_iff isdigit_not_isspace)

text \<open>
  ParseUint64 inverts decimal printing: with any blanks around it a number below 2^64 is
  read back exactly, and a number of 2^64 or more is refused rather than wrapped.  Nothing else
  than digits is accepted.
\<close>

theorem ParseUint64_inverts_decimal:
  assumes "blank pre" "blank post"
  shows "ParseUint64 (pre @ show_nat n @ post) = (if n < 2 ^ 64 then Some (of_nat n) else None)
    \<and> (ParseUint64 s \<noteq> None \<longrightarrow> list_all isdigit (Trim s) \<and> digits_value (Trim s) < 2 ^ 64)"
proof
  have sp: "list_all (\<lambda>c. \<not> isspace c) (show_nat n)"
    by (rule digits_no_space [OF show_nat_digits])
  have "Trim (pre @ show_nat n @ post) = show_nat n"
    using sp by (intro Trim_blank_around assms) (auto simp: list_all_iff)
  moreover have "parse_unsigned 64 (show_nat n) = (if n < 2 ^ 64 then Some n else None)"
    using parse_unsigned_eq [of 64 "show_nat n" n] parse_unsigned_None_overflow [of "show_nat n" 64]
    by (simp add: show_nat_digits digits_value_show_nat)
  ultimately show "ParseUint64 (pre @ show_nat n @ post) = (if n < 2 ^ 64 then Some (of_nat n) else None)"
    by (simp add: ParseUint64_def Let_def)
  show "ParseUint64 s \<noteq> None \<longrightarrow> list_all isdigit (Trim s) \<and> digits_value (Trim s) < 2 ^ 64"
    using parse_unsigned_eq [of 64 "Trim s"] by (auto simp: ParseUint64_def Let_def)
qed

theorem ParseUint64_inverts_decimal_witness:
  "ParseUint64 ('' '' @ show_nat 4096 @ '' '') = Some 4096"
  using ParseUint64_inverts_decimal [of "'' ''" "'' ''" 4096] by (simp add: isspace_def)

section \<open>Key-value text\<close>

lemma map_of_try_emplace:
  "map_of (try_emplace k v m) k' =
    (if k' = k \<and> map_of m k = None then Some v else map_of m k')"
  by (auto simp: try_emplace_def map_add_def split: option.splits)

lemma distinct_try_emplace: "distinct (map fst m) \<Longrightarrow> distinct (map fst (try_emplace k v m))"
  by (auto simp: try_emplace_def map_of_eq_None_iff split: option.splits)

text \<open>The first line that gives the key, as the specification of both routines.\<close>

fun first_line_value :: "char \<Rightarrow> string \<Rightarrow> string list \<Rightarrow> string option" where
  "first_line_value sep k [] = None"
| "first_line_value sep k (l # ls) =
    (case ParseKeyValueLine l sep of
       Some (k', v) \<Rightarrow> if k' = k then Some v else first_line_value sep k ls
     | None \<Rightarrow> first_line_value sep k ls)"

lemma map_of_parse_lines:
  "map_of (parse_lines_into sep m ls) k =
    (case map_of m k of Some v \<Rightarrow> Some v | None \<Rightarrow> first_line_value sep k ls)"
proof (induction ls arbitrary: m)
  case (Cons l ls)
  show ?case
  proof (cases "ParseKeyValueLine l sep")
    case None
    then show ?thesis by (cases "map_of m k") (simp_all add: Cons.IH)
  next
    case (Some p)
    then show ?thesis
      by (cases p; cases "map_of m k") (auto simp: Cons.IH map_of_try_emplace)
  qed
qed (simp split: option.split)

lemma distinct_parse_lines:
  "distinct (map fst m) \<Longrightarrow> distinct (map fst (parse_lines_into sep m ls))"
  by (induction ls arbitrary: m) (auto simp: distinct_try_emplace split: option.split)

lemma find_in_lines_single:
  "find_in_lines [k] sep ls = (case first_line_value sep k ls of Some v \<Rightarrow> v | None \<Rightarrow> [])"
  by (induction ls) (auto split: option.splits)

text \<open>
  ParseKeyValueText keeps one entry per key, the first line's value for it, and looking a
  key up in the parsed map agrees with scanning the text for it.
\<close>

theorem ParseKeyValueText_first_wins:
  "distinct (map fst (ParseKeyValueText text sep))
   \<and> map_of (ParseKeyValueText text sep) k = first_line_value sep k (view_lines text)
   \<and> FindFirstKeyValue (ParseKeyValueText text sep) [k] = FindFirstKeyValueInText text [k] sep"
  by (simp add: ParseKeyValueText_def FindFirstKeyValueInText_def distinct_parse_lines
      map_of_parse_lines find_in_lines_single split: option.split)

section \<open>Texts made of lines and tokens\<close>

definition is_token :: "string \<Rightarrow> bool" where "is_token k \<longleftrightarrow> k \<noteq> [] \<and> list_all (\<lambda>c. \<not> isspace c) k"

fun unwords :: "string list \<Rightarrow> string" where
  "unwords [] = []"
| "unwords [w] = w"
| "unwords (w # v # ws) = w @ '' '' @ unwords (v # ws)"

definition unlines :: "string list \<Rightarrow> string" where
  "unlines ls = concat (map (\<lambda>l. l @ [newline]) ls)"

lemma parse_unsigned_show: "n < 2 ^ w \<Longrightarrow> parse_unsigned w (show_nat n) = Some n"
  by (simp add: parse_unsigned_eq show_nat_digits digits_value_show_nat)

lemma is_token_show_nat [simp]: "is_token (show_nat n)"
  by (simp add: is_token_def digits_no_space [OF show_nat_digits])

lemma ParseUint64_show: "n < 2 ^ 64 \<Longrightarrow> ParseUint64 (show_nat n) = Some (of_nat n)"
  using is_token_show_nat [of n]
  by (simp add: ParseUint64_def Let_def Trim_no_space is_token_def parse_unsigned_show)

lemma isspace_newline [simp]: "isspace newline"
  by (simp add: isspace_def newline_def)

lemma newline_notin_token: "is_token k \<Longrightarrow> newline \<notin> set k"
  by (auto simp: is_token_def list_all_iff)

lemma SplitWhitespace_unwords: "list_all is_token ws \<Longrightarrow> SplitWhitespace (unwords ws) = ws"
proof (induction ws rule: unwords.induct)
  case (2 w)
  then show ?case using SplitWhitespace_token [of w "[]"] by (simp add: is_token_def)
next
  case (3 w v ws)
  have "SplitWhitespace (w @ '' '' @ unwords (v # ws)) = w # SplitWhitespace ('' '' @ unwords (v # ws))"
    using "3.prems" by (intro SplitWhitespace_token) (simp_all add: is_token_def isspace_def)
  also have "SplitWhitespace ('' '' @ unwords (v # ws)) = v # ws"
    using 3 SplitWhitespace_blank [of "'' ''" "unwords (v # ws)"] by (simp add: isspace_def)
  finally show ?case by simp
qed simp

lemma newline_notin_unwords: "list_all is_token ws \<Longrightarrow> newline \<notin> set (unwords ws)"
proof (induction ws rule: unwords.induct)
  case (3 w v ws)
  have "newline \<noteq> CHR '' ''" by (simp add: newline_def)
  then show ?case using 3 newline_notin_token [of w] by simp
qed (simp_all add: newline_notin_token)

lemma unwords_ends:
  "list_all is_token ws \<Longrightarrow> ws \<noteq> [] \<Longrightarrow>
   unwords ws \<noteq> [] \<and> hd (unwords ws) = hd (hd ws) \<and> last (unwords ws) = last (last ws)"
  by (induction ws rule: unwords.induct) (auto simp: is_token_def)

lemma Trim_unwords: "list_all is_token ws \<Longrightarrow> Trim (unwords ws) = unwords ws"
proof (cases "ws = []")
  case False
  assume ts: "list_all is_token ws"
  then have "is_token (hd ws)" "is_token (last ws)" using False by (simp_all add: list_all_iff)
  then have "\<not> isspace (hd (hd ws))" "\<not> isspace (last (last ws))" by (auto simp: is_token_def list_all_iff)
  then show ?thesis using unwords_ends [OF ts False] Trim_blank_around [of "[]" "[]" "unwords ws"] by simp
qed (simp add: Trim_def)

lemma split_on_line: "c \<notin> set l \<Longrightarrow> split_on c (l @ c # s) = l # split_on c s"
  by (induction l) auto

lemma split_on_unlines: "\<forall>l\<in>set ls. newline \<notin> set l \<Longrightarrow> split_on newline (unlines ls) = ls @ [[]]"
  by (induction ls) (simp_all add: split_on_line unlines_def)

lemma view_lines_unlines: "\<forall>l\<in>set ls. newline \<notin> set l \<Longrightarrow> view_lines (unlines ls) = ls @ [[]]"
  by (simp add: view_lines_def split_on_unlines)

lemma getline_lines_unlines: "\<forall>l\<in>set ls. newline \<notin> set l \<Longrightarrow> getline_lines (unlines ls) = ls"
  by (simp add: getline_lines_def split_on_unlines)

end
