(* ===== verification/Clocks.thy ===== *)
theory Clocks
  imports Prelude "HOL-Library.Signed_Division"
begin

text \<open>
  Time and identifiers: the clock correlation of src/impl/common/clock_correlation.hpp, the
  wall clock of wall_clock_correlation.hpp and utils/astl_wall_clock.hpp, and the operation-id
  allocator of src/impl/operation/operation.hpp.  Signed 64-bit quantities are integers; every
  addition, subtraction and multiplication of the code is followed by wrap64, and the theorems
  say when no wrap occurs.
\<close>

section \<open>Native ticks to CLOCK_MONOTONIC_RAW\<close>

record tick_ratio =
  tick_num :: int
  tick_den :: int

text \<open>MakeTickRatio: std::ratio_divide of a period by std::nano, in lowest terms.\<close>

definition MakeTickRatio :: "int \<Rightarrow> int \<Rightarrow> tick_ratio" where
  "MakeTickRatio period_num period_den =
    (let n = period_num * 10 ^ 9; g = gcd n period_den in
     \<lparr>tick_num = n div g, tick_den = period_den div g\<rparr>)"

record clock_correlation =
  raw_monotonic_at_start :: int
  native_at_start :: "64 word"
  ticks :: tick_ratio

definition NormalizeToCorrelatedRawTimestamp :: "64 word \<Rightarrow> clock_correlation \<Rightarrow> int" where
  "NormalizeToCorrelatedRawTimestamp native_tick c =
    (let native_elapsed_ticks = wrap64 (sint native_tick - sint (native_at_start c));
         raw_elapsed_ns = wrap64 (wrap64 (native_elapsed_ticks * tick_num (ticks c)) sdiv tick_den (ticks c)) in
     wrap64 (raw_monotonic_at_start c + raw_elapsed_ns))"

text \<open>The correlation map of a target, keyed by operation id.\<close>

type_synonym clock_correlation_map = "16 word \<rightharpoonup> clock_correlation"

section \<open>The wall clock\<close>

definition CorrelateWallClockNanoseconds :: "int \<Rightarrow> int \<Rightarrow> int \<Rightarrow> int option" where
  "CorrelateWallClockNanoseconds raw reference_raw reference_realtime =
    (let lo = - (2 ^ 63); hi = 2 ^ 63 - 1 in
     if (reference_raw > 0 \<and> raw < wrap64 (lo + reference_raw))
        \<or> (reference_raw < 0 \<and> raw > wrap64 (hi + reference_raw)) then None
     else let delta = wrap64 (raw - reference_raw) in
       if (delta > 0 \<and> reference_realtime > wrap64 (hi - delta))
          \<or> (delta < 0 \<and> reference_realtime < wrap64 (lo - delta)) then None
       else Some (wrap64 (reference_realtime + delta)))"

record wall_clock_correlation =
  wc_raw_ns :: int
  wc_realtime_ns :: int
  wc_uncertainty_ns :: int

definition MakeWallClockCorrelation :: "int \<Rightarrow> int \<Rightarrow> int \<Rightarrow> wall_clock_correlation option" where
  "MakeWallClockCorrelation before realtime after =
    (if after < before \<or> (before < 0 \<and> after > wrap64 (2 ^ 63 - 1 + before)) then None
     else let elapsed = wrap64 (after - before) in
       Some \<lparr>wc_raw_ns = wrap64 (before + elapsed sdiv 2), wc_realtime_ns = realtime,
             wc_uncertainty_ns = wrap64 (elapsed sdiv 2 + elapsed smod 2)\<rparr>)"

definition TimespecToNanoseconds :: "int \<Rightarrow> int \<Rightarrow> int option" where
  "TimespecToNanoseconds seconds nanos =
    (let factor = 1000000000; lo = - (2 ^ 63); hi = 2 ^ 63 - 1;
         first_second = lo sdiv factor - 1; first_nanosecond = lo smod factor + factor in
     if nanos < 0 \<or> nanos \<ge> factor \<or> seconds < first_second \<or> seconds > hi sdiv factor
        \<or> (seconds = first_second \<and> nanos < first_nanosecond)
        \<or> (seconds = hi sdiv factor \<and> nanos > hi smod factor) then None
     else if seconds = first_second then Some (wrap64 (lo + wrap64 (nanos - first_nanosecond)))
     else Some (wrap64 (wrap64 (seconds * factor) + nanos)))"

text \<open>
  CaptureWallClockCorrelation on Linux: the three clock_gettime readings are arguments, None a
  call that failed, a pair the seconds and nanoseconds it returned.
\<close>

definition CaptureWallClockCorrelation ::
    "(int \<times> int) option \<Rightarrow> (int \<times> int) option \<Rightarrow> (int \<times> int) option \<Rightarrow> wall_clock_correlation option" where
  "CaptureWallClockCorrelation before wall after =
    (case (before, wall, after) of
       (Some b, Some w, Some a) \<Rightarrow>
         (case (case_prod TimespecToNanoseconds b, case_prod TimespecToNanoseconds a,
                case_prod TimespecToNanoseconds w) of
            (Some start, Some finish, Some realtime) \<Rightarrow> MakeWallClockCorrelation start realtime finish
          | _ \<Rightarrow> None)
     | _ \<Rightarrow> None)"

definition CorrelateWallClock :: "int \<Rightarrow> wall_clock_correlation \<Rightarrow> int option" where
  "CorrelateWallClock timestamp reference =
    CorrelateWallClockNanoseconds timestamp (wc_raw_ns reference) (wc_realtime_ns reference)"

section \<open>Operation identifiers\<close>

definition kPauseResumeOperationId :: "16 word" where "kPauseResumeOperationId = 0"
definition kFirstAssignableOperationId :: nat where "kFirstAssignableOperationId = 1"
definition kOperationIdInvalid :: nat where "kOperationIdInvalid = 65535"

text \<open>
  The allocator's counter, a uint32_t that never passes kOperationIdInvalid.  The exception
  OperationIdExhausted is the status its handlers return.
\<close>

definition GetNextOperationId :: "nat \<Rightarrow> 16 word result \<times> nat" where
  "GetNextOperationId next =
    (if next \<ge> kOperationIdInvalid then (Inl kInternalOperationIdExhausted, next)
     else (Inr (of_nat next), next + 1))"

definition ResetOperationIdAllocator :: "nat \<Rightarrow> nat" where
  "ResetOperationIdAllocator next = kFirstAssignableOperationId"

fun allocate_ids :: "nat \<Rightarrow> nat \<Rightarrow> 16 word result list \<times> nat" where
  "allocate_ids next 0 = ([], next)"
| "allocate_ids next (Suc k) =
    (let (r, next') = GetNextOperationId next; (rs, next'') = allocate_ids next' k in (r # rs, next''))"

section \<open>Normalisation is affine and monotone\<close>

text \<open>The range in which no signed operation of the normalisation overflows.\<close>

definition tick_in_range :: "64 word \<Rightarrow> clock_correlation \<Rightarrow> bool" where
  "tick_in_range t c \<longleftrightarrow>
     in_int64 (sint t - sint (native_at_start c))
     \<and> in_int64 ((sint t - sint (native_at_start c)) * tick_num (ticks c))
     \<and> in_int64 (raw_monotonic_at_start c
         + ((sint t - sint (native_at_start c)) * tick_num (ticks c)) sdiv tick_den (ticks c))"

lemma sdiv_pos_nonneg: "(0::int) \<le> a \<Longrightarrow> 0 < d \<Longrightarrow> a sdiv d = a div d"
  by (cases "a = 0") (simp_all add: signed_divide_int_def)

lemma sdiv_pos_neg: "a < (0::int) \<Longrightarrow> 0 < d \<Longrightarrow> a sdiv d = - ((- a) div d)"
  by (simp add: signed_divide_int_def)

lemma sdiv_mono: "(a::int) \<le> b \<Longrightarrow> 0 < d \<Longrightarrow> a sdiv d \<le> b sdiv d"
proof -
  assume ab: "a \<le> b" and d: "0 < d"
  consider "0 \<le> a" | "a < 0" "0 \<le> b" | "b < 0" using ab by linarith
  then show ?thesis
  proof cases
    case 1
    then show ?thesis using ab d by (simp add: sdiv_pos_nonneg zdiv_mono1)
  next
    case 2
    then have "0 \<le> (- a) div d" "0 \<le> b div d" using d by (simp_all add: pos_imp_zdiv_nonneg_iff)
    then show ?thesis using 2 d by (simp add: sdiv_pos_neg sdiv_pos_nonneg)
  next
    case 3
    then have "(- b) div d \<le> (- a) div d" using ab d by (intro zdiv_mono1) simp_all
    then show ?thesis using 3 ab d by (simp add: sdiv_pos_neg)
  qed
qed

lemma sdiv_le_abs: "in_int64 a \<Longrightarrow> 0 < d \<Longrightarrow> in_int64 (a sdiv d)"
proof -
  assume a: "in_int64 a" and d: "0 < d"
  show ?thesis
  proof (cases "0 \<le> a")
    case True
    then have "a div d \<le> a" "0 \<le> a div d"
      using d zdiv_mono2 [of a 1 d] by (simp_all add: pos_imp_zdiv_nonneg_iff)
    then show ?thesis using a True d by (simp add: sdiv_pos_nonneg in_int64_def)
  next
    case False
    then have "(- a) div d \<le> - a" "0 \<le> (- a) div d"
      using d zdiv_mono2 [of "- a" 1 d] by (simp_all add: pos_imp_zdiv_nonneg_iff)
    then show ?thesis using a False d by (simp add: sdiv_pos_neg in_int64_def)
  qed
qed

lemma Normalize_in_range:
  assumes "tick_in_range t c" "0 < tick_den (ticks c)"
  shows "NormalizeToCorrelatedRawTimestamp t c = raw_monotonic_at_start c
    + ((sint t - sint (native_at_start c)) * tick_num (ticks c)) sdiv tick_den (ticks c)"
  using assms sdiv_le_abs [OF _ assms(2)]
  by (simp add: NormalizeToCorrelatedRawTimestamp_def tick_in_range_def Let_def)

text \<open>
  Inside the range where nothing overflows, normalising a native tick sends the anchor to
  the anchor, is monotone in the tick, and for an integral ratio (den = 1) is the exact affine
  map the header states.
\<close>

theorem normalization_affine_monotone:
  assumes "tick_in_range t c" "tick_in_range u c"
    and "0 \<le> tick_num (ticks c)" "0 < tick_den (ticks c)" "sint t \<le> sint u"
  shows "NormalizeToCorrelatedRawTimestamp t c \<le> NormalizeToCorrelatedRawTimestamp u c
    \<and> (t = native_at_start c \<longrightarrow> NormalizeToCorrelatedRawTimestamp t c = raw_monotonic_at_start c)
    \<and> (tick_den (ticks c) = 1 \<longrightarrow> NormalizeToCorrelatedRawTimestamp t c
         = raw_monotonic_at_start c + (sint t - sint (native_at_start c)) * tick_num (ticks c))"
proof -
  have "(sint t - sint (native_at_start c)) * tick_num (ticks c)
      \<le> (sint u - sint (native_at_start c)) * tick_num (ticks c)"
    using assms by (intro mult_right_mono) simp_all
  then have "NormalizeToCorrelatedRawTimestamp t c \<le> NormalizeToCorrelatedRawTimestamp u c"
    using assms sdiv_mono by (simp add: Normalize_in_range)
  moreover have "(0 :: int) sdiv d = 0" "x sdiv 1 = x" for d x :: int
    by (simp_all add: signed_divide_int_def sgn_mult_abs)
  ultimately show ?thesis
    using assms(1,4) Normalize_in_range [of t c] by auto
qed

definition sample_correlation :: clock_correlation where
  "sample_correlation =
    \<lparr>raw_monotonic_at_start = 5000, native_at_start = 10, ticks = MakeTickRatio 1 1000000\<rparr>"

theorem normalization_affine_monotone_witness:
  "NormalizeToCorrelatedRawTimestamp 12 sample_correlation = 7000
   \<and> NormalizeToCorrelatedRawTimestamp 12 sample_correlation
       \<le> NormalizeToCorrelatedRawTimestamp 15 sample_correlation"
proof -
  have t: "ticks sample_correlation = \<lparr>tick_num = 1000, tick_den = 1\<rparr>"
    "raw_monotonic_at_start sample_correlation = 5000" "native_at_start sample_correlation = 10"
    by (simp_all add: sample_correlation_def MakeTickRatio_def Let_def)
  show ?thesis
    using normalization_affine_monotone [of 12 sample_correlation 15]
    by (simp add: t tick_in_range_def in_int64_def signed_divide_int_def)
qed

section \<open>The wall clock never overflows\<close>

text \<open>
  CorrelateWallClockNanoseconds, on any three int64 values an archive may supply, returns
  the exact shifted time when it is representable through an int64 difference and nothing
  otherwise; no intermediate operation wraps.
\<close>

theorem CorrelateWallClock_exact_or_none:
  assumes "in_int64 raw" "in_int64 ref_raw" "in_int64 ref_real"
  shows "CorrelateWallClockNanoseconds raw ref_raw ref_real =
    (if in_int64 (raw - ref_raw) \<and> in_int64 (ref_real + (raw - ref_raw))
     then Some (ref_real + (raw - ref_raw)) else None)"
proof -
  have lo: "ref_raw > 0 \<Longrightarrow> wrap64 (- (2 ^ 63) + ref_raw) = - (2 ^ 63) + ref_raw"
    and hi: "ref_raw < 0 \<Longrightarrow> wrap64 (2 ^ 63 - 1 + ref_raw) = 2 ^ 63 - 1 + ref_raw"
    using assms by (simp_all add: in_int64_def)
  define d where "d = raw - ref_raw"
  have first: "((ref_raw > 0 \<and> raw < wrap64 (- (2 ^ 63) + ref_raw))
      \<or> (ref_raw < 0 \<and> raw > wrap64 (2 ^ 63 - 1 + ref_raw))) \<longleftrightarrow> \<not> in_int64 d"
    using lo hi assms unfolding in_int64_def d_def by auto
  show ?thesis
  proof (cases "in_int64 d")
    case False
    then show ?thesis
      using first by (simp add: CorrelateWallClockNanoseconds_def Let_def flip: d_def)
  next
    case True
    have lo2: "d < 0 \<Longrightarrow> wrap64 (- (2 ^ 63) - d) = - (2 ^ 63) - d"
      and hi2: "d > 0 \<Longrightarrow> wrap64 (2 ^ 63 - 1 - d) = 2 ^ 63 - 1 - d"
      using True by (simp_all add: in_int64_def)
    have second: "((d > 0 \<and> ref_real > wrap64 (2 ^ 63 - 1 - d))
        \<or> (d < 0 \<and> ref_real < wrap64 (- (2 ^ 63) - d))) \<longleftrightarrow> \<not> in_int64 (ref_real + d)"
      using lo2 hi2 assms(3) unfolding in_int64_def by auto
    have w: "wrap64 d = d" using True by simp
    show ?thesis
      unfolding CorrelateWallClockNanoseconds_def Let_def first d_def [symmetric] w second
      using True by simp
  qed
qed

theorem CorrelateWallClock_exact_or_none_witness:
  "CorrelateWallClockNanoseconds 1500 1000 7 = Some 507
   \<and> CorrelateWallClockNanoseconds (2 ^ 63 - 1) (- 1) 0 = None"
  using CorrelateWallClock_exact_or_none [of 1500 1000 7]
    CorrelateWallClock_exact_or_none [of "2 ^ 63 - 1" "- 1" 0]
  by (simp add: in_int64_def)

text \<open>The bracketed capture: the midpoint lies between the readings.\<close>

lemma MakeWallClockCorrelation_eq:
  assumes "in_int64 before" "in_int64 after"
  shows "MakeWallClockCorrelation before realtime after =
    (if before \<le> after \<and> in_int64 (after - before)
     then Some \<lparr>wc_raw_ns = before + (after - before) div 2, wc_realtime_ns = realtime,
                wc_uncertainty_ns = (after - before) div 2 + (after - before) mod 2\<rparr>
     else None)"
proof -
  have g: "before < 0 \<Longrightarrow> wrap64 (2 ^ 63 - 1 + before) = 2 ^ 63 - 1 + before"
    using assms by (simp add: in_int64_def)
  have guard: "(after < before \<or> (before < 0 \<and> after > wrap64 (2 ^ 63 - 1 + before)))
      \<longleftrightarrow> \<not> (before \<le> after \<and> in_int64 (after - before))"
    using g assms unfolding in_int64_def by auto
  show ?thesis
  proof (cases "before \<le> after \<and> in_int64 (after - before)")
    case True
    define e where "e = after - before"
    have e: "0 \<le> e" "in_int64 e" "after = before + e" using True by (simp_all add: e_def)
    have h: "0 \<le> e div 2" "e div 2 \<le> e" "0 \<le> e mod 2" "e div 2 + e mod 2 \<le> e"
      using e(1) mult_div_mod_eq [of 2 e] by linarith+
    have "in_int64 (before + e div 2)"
      by (rule in_int64_between [OF assms]) (use h e(3) in linarith)+
    moreover have "in_int64 (e div 2 + e mod 2)"
      using h e(2) unfolding in_int64_def by linarith
    moreover have "e sdiv 2 = e div 2" "e smod 2 = e mod 2"
      using e(1) sdiv_pos_nonneg [of e 2] by (cases "e = 0"; simp add: smod_int_alt_def)+
    ultimately show ?thesis
      unfolding MakeWallClockCorrelation_def guard Let_def e_def [symmetric]
      using True e by simp
  next
    case False
    then show ?thesis unfolding MakeWallClockCorrelation_def guard by simp
  qed
qed

lemma TimespecToNanoseconds_eq:
  "TimespecToNanoseconds s n =
    (if 0 \<le> n \<and> n < 1000000000 \<and> in_int64 (s * 1000000000 + n) then Some (s * 1000000000 + n) else None)"
proof -
  have c: "(- (2 ^ 63) :: int) sdiv 1000000000 = - 9223372036"
    "(- (2 ^ 63) :: int) smod 1000000000 = - 854775808"
    "(2 ^ 63 - 1 :: int) sdiv 1000000000 = 9223372036"
    "(2 ^ 63 - 1 :: int) smod 1000000000 = 854775807"
    by (simp_all add: signed_divide_int_def signed_modulo_int_def)
  consider "n < 0 \<or> 1000000000 \<le> n" | "0 \<le> n" "n < 1000000000" by linarith
  then show ?thesis
  proof cases
    case 1
    then show ?thesis by (auto simp: TimespecToNanoseconds_def Let_def)
  next
    case 2
    have guard: "(s < - 9223372037 \<or> 9223372036 < s \<or> (s = - 9223372037 \<and> n < 145224192)
        \<or> (s = 9223372036 \<and> 854775807 < n)) \<longleftrightarrow> \<not> in_int64 (s * 1000000000 + n)"
      using 2 unfolding in_int64_def by auto
    show ?thesis
    proof (cases "in_int64 (s * 1000000000 + n)")
      case False
      then show ?thesis
        using guard 2 by (auto simp: TimespecToNanoseconds_def Let_def c)
    next
      case True
      have "in_int64 (n - 145224192)" using 2 by (simp add: in_int64_def)
      moreover have "s \<noteq> - 9223372037 \<Longrightarrow> in_int64 (s * 1000000000)"
        using True guard 2 by (auto simp: in_int64_def)
      moreover have "s = - 9223372037 \<Longrightarrow> - (2 ^ 63) + (n - 145224192) = s * 1000000000 + n" by simp
      ultimately show ?thesis
        using True guard 2 by (auto simp: TimespecToNanoseconds_def Let_def c)
    qed
  qed
qed

text \<open>
  A wall-clock capture, when it succeeds, has converted three readings exactly, and its raw
  reference is a point of the bracket whose distance to either end is at most the recorded
  uncertainty; it fails on a failed read, on an unrepresentable reading and when the second raw
  reading precedes the first.
\<close>

theorem CaptureWallClock_brackets:
  "CaptureWallClockCorrelation (Some (bs, bn)) (Some (ws, wn)) (Some (as, an)) = Some r \<Longrightarrow>
   wc_realtime_ns r = ws * 1000000000 + wn
   \<and> bs * 1000000000 + bn \<le> wc_raw_ns r \<and> wc_raw_ns r \<le> as * 1000000000 + an
   \<and> wc_raw_ns r - (bs * 1000000000 + bn) \<le> wc_uncertainty_ns r
   \<and> (as * 1000000000 + an) - wc_raw_ns r \<le> wc_uncertainty_ns r
   \<and> in_int64 (wc_raw_ns r)"
proof -
  assume cap: "CaptureWallClockCorrelation (Some (bs, bn)) (Some (ws, wn)) (Some (as, an)) = Some r"
  define b a where "b = bs * 1000000000 + bn" and "a = as * 1000000000 + an"
  have b: "in_int64 b" and a: "in_int64 a"
    and mk: "MakeWallClockCorrelation b (ws * 1000000000 + wn) a = Some r"
    using cap unfolding b_def a_def
    by (auto simp: CaptureWallClockCorrelation_def TimespecToNanoseconds_eq split: if_splits)
  have ba: "b \<le> a" and r: "r = \<lparr>wc_raw_ns = b + (a - b) div 2,
      wc_realtime_ns = ws * 1000000000 + wn, wc_uncertainty_ns = (a - b) div 2 + (a - b) mod 2\<rparr>"
    using mk unfolding MakeWallClockCorrelation_eq [OF b a] by (auto split: if_splits)
  have "b \<le> b + (a - b) div 2" "b + (a - b) div 2 \<le> a"
    "a - (b + (a - b) div 2) = (a - b) div 2 + (a - b) mod 2" "0 \<le> (a - b) mod 2"
    using ba mult_div_mod_eq [of 2 "a - b"] by linarith+
  moreover have "in_int64 (b + (a - b) div 2)"
    using calculation(1,2) by (rule in_int64_between [OF b a])
  ultimately show ?thesis unfolding r b_def [symmetric] a_def [symmetric] by simp
qed

theorem CaptureWallClock_brackets_witness:
  "\<exists>r. CaptureWallClockCorrelation (Some (1, 0)) (Some (1700000000, 5)) (Some (1, 101)) = Some r
     \<and> wc_realtime_ns r = 1700000000000000005 \<and> wc_uncertainty_ns r \<ge> 51"
proof -
  have e: "\<exists>r. CaptureWallClockCorrelation (Some (1, 0)) (Some (1700000000, 5)) (Some (1, 101)) = Some r"
    by (simp add: CaptureWallClockCorrelation_def TimespecToNanoseconds_eq in_int64_def
        MakeWallClockCorrelation_eq)
  then obtain r where r: "CaptureWallClockCorrelation (Some (1, 0)) (Some (1700000000, 5)) (Some (1, 101)) = Some r"
    by blast
  show ?thesis using CaptureWallClock_brackets [OF r] r by (intro exI [of _ r]) simp
qed

section \<open>Operation identifiers are unique\<close>

lemma allocate_ids_eq:
  assumes "n + k \<le> 65535"
  shows "allocate_ids n k = (map (\<lambda>i. Inr (of_nat i)) [n ..< n + k], n + k)"
  using assms
proof (induction k arbitrary: n)
  case (Suc k)
  then have "GetNextOperationId n = (Inr (of_nat n), n + 1)"
    by (simp add: GetNextOperationId_def kOperationIdInvalid_def)
  moreover have "[n ..< n + Suc k] = n # [Suc n ..< Suc n + k]"
    by (subst upt_conv_Cons) simp_all
  ultimately show ?case using Suc.IH [of "Suc n"] Suc.prems by simp
qed simp

text \<open>
  After a reset the allocator hands out pairwise distinct operation ids, none of them the
  reserved pause/resume id or the invalid id, for as many as 65534 operations; once they are
  used up every further request fails with OPERATION_ID_EXHAUSTED and the counter stays.
\<close>

theorem operation_ids_unique:
  "(k \<le> 65534 \<longrightarrow>
      (\<exists>ids. allocate_ids (ResetOperationIdAllocator n) k = (map Inr ids, k + 1)
         \<and> distinct ids \<and> length ids = k
         \<and> kPauseResumeOperationId \<notin> set ids \<and> of_nat kOperationIdInvalid \<notin> set ids))
   \<and> (kOperationIdInvalid \<le> next \<longrightarrow>
        GetNextOperationId next = (Inl kInternalOperationIdExhausted, next))"
proof (intro conjI impI)
  assume k: "k \<le> 65534"
  define ids :: "16 word list" where "ids = map of_nat [1 ..< 1 + k]"
  have "inj_on (of_nat :: nat \<Rightarrow> 16 word) {1 ..< 1 + k}"
    by (rule inj_on_inverseI [of _ unat]) (use k in \<open>simp add: unat_of_nat_less\<close>)
  then have "distinct ids" unfolding ids_def distinct_map set_upt by (simp only: distinct_upt)
  moreover have u: "unat w \<in> {1 ..< 1 + k}" if "w \<in> set ids" for w
    using that k by (auto simp: ids_def unat_of_nat_less)
  moreover have "allocate_ids (ResetOperationIdAllocator n) k = (map Inr ids, k + 1)"
    using allocate_ids_eq [of 1 k] k
    by (simp add: ResetOperationIdAllocator_def kFirstAssignableOperationId_def ids_def)
  moreover have "kPauseResumeOperationId \<notin> set ids"
    using u [of 0] by (auto simp: kPauseResumeOperationId_def)
  moreover have "of_nat kOperationIdInvalid \<notin> set ids"
    using u [of 65535] k by (auto simp: kOperationIdInvalid_def)
  ultimately show "\<exists>ids. allocate_ids (ResetOperationIdAllocator n) k = (map Inr ids, k + 1)
      \<and> distinct ids \<and> length ids = k
      \<and> kPauseResumeOperationId \<notin> set ids \<and> of_nat kOperationIdInvalid \<notin> set ids"
    by (intro exI [of _ ids]) (simp add: ids_def)
next
  show "kOperationIdInvalid \<le> next \<Longrightarrow>
      GetNextOperationId next = (Inl kInternalOperationIdExhausted, next)"
    by (simp add: GetNextOperationId_def)
qed

theorem operation_ids_unique_witness:
  "GetNextOperationId 65535 = (Inl kInternalOperationIdExhausted, 65535)"
  using operation_ids_unique [of 0 0 65535] by (simp add: kOperationIdInvalid_def)

end
