(* ===== verification/Formula.thy ===== *)
theory Formula
  imports Astl_Value Text_Utils
begin

text \<open>
  The value formulas of src/impl/metric: scaling_formula.hpp, expression_formula.cpp,
  formula_builder.hpp and formula_builder.cpp.  The TinyExpr++ library is not under src/: it is
  the argument te, which says which expressions compile and what they evaluate to in uint64
  mode.  A JSON formula setting is one of the four shapes the builder tests for.
\<close>

section \<open>Scaling\<close>

record scaling_formula =
  sf_numerator :: "64 word"
  sf_denominator :: "64 word"

text \<open>The constructor: the ratio in lowest terms, 0/1 for a zero numerator.\<close>

definition ScalingFormula :: "64 word \<Rightarrow> 64 word \<Rightarrow> scaling_formula" where
  "ScalingFormula numerator denominator =
    (let divisor = (if denominator \<noteq> 0 \<and> numerator \<noteq> 0
                    then of_nat (gcd (unat numerator) (unat denominator)) else 1);
         n = numerator div divisor; d = denominator div divisor in
     \<lparr>sf_numerator = n, sf_denominator = (if n = 0 then 1 else d)\<rparr>)"

definition ScalingApply :: "scaling_formula \<Rightarrow> astl_value \<Rightarrow> astl_value result" where
  "ScalingApply f v =
    (if value_type v = ASTL_VALUE_BOOL8 then Inl ASTL_STATUS_INVALID_VALUE_TYPE
     else if sf_denominator f = 0 then Inl kInternalDivideByZero
     else let den = fp_of_int binary64 (uint (sf_denominator f)) in
       if \<not> is_floating v then
         let raw_value = (of_nat (int_part v) :: 64 word) in
         if sf_numerator f \<noteq> 0 \<and> raw_value > - 1 div sf_numerator f
         then Inl ASTL_STATUS_METRIC_OVERFLOW_DETECTED
         else Inr (VF64 (fp_div binary64 (fp_of_int binary64 (uint (raw_value * sf_numerator f))) den))
       else
         let scaled = fp_div binary64
               (fp_mul binary64 (cast_f64 v) (fp_of_int binary64 (uint (sf_numerator f)))) den in
         if \<not> fp_finite scaled then Inl ASTL_STATUS_METRIC_OVERFLOW_DETECTED else Inr (VF64 scaled))"

section \<open>Expressions\<close>

record tinyexpr =
  te_compiles :: "string \<Rightarrow> bool"
  te_evaluate :: "string \<Rightarrow> 64 word \<Rightarrow> 64 word"

definition ExpressionCreate :: "tinyexpr \<Rightarrow> string \<Rightarrow> string result" where
  "ExpressionCreate te expression =
    (if expression = [] then Inl ASTL_STATUS_BAD_CONFIGURATION
     else if \<not> te_compiles te expression then Inl ASTL_STATUS_BAD_CONFIGURATION
     else Inr expression)"

text \<open>The value is bound as a uint64_t and the result cast back to the input's type.\<close>

definition ExpressionApply :: "tinyexpr \<Rightarrow> string \<Rightarrow> astl_value \<Rightarrow> astl_value result" where
  "ExpressionApply te expression v =
    (if value_type v = ASTL_VALUE_BOOL8 then Inl ASTL_STATUS_INVALID_VALUE_TYPE
     else Inr (cast_like v (VU64 (te_evaluate te expression (cast_u64 v)))))"

section \<open>Formulas and pipelines\<close>

datatype pipeline_step = StepIdentity | StepScaling scaling_formula | StepExpression string

datatype any_formula =
  Identity | Scaling scaling_formula | Expression string | Pipeline "pipeline_step list"

fun ApplyStep :: "tinyexpr \<Rightarrow> pipeline_step \<Rightarrow> astl_value \<Rightarrow> astl_value result" where
  "ApplyStep te StepIdentity v = Inr v"
| "ApplyStep te (StepScaling f) v = ScalingApply f v"
| "ApplyStep te (StepExpression e) v = ExpressionApply te e v"

fun ApplyPipeline :: "tinyexpr \<Rightarrow> pipeline_step list \<Rightarrow> astl_value \<Rightarrow> astl_value result" where
  "ApplyPipeline te [] v = Inr v"
| "ApplyPipeline te (s # ss) v = rbind (ApplyStep te s v) (ApplyPipeline te ss)"

fun ApplyFormula :: "tinyexpr \<Rightarrow> any_formula \<Rightarrow> astl_value \<Rightarrow> astl_value result" where
  "ApplyFormula te Identity v = Inr v"
| "ApplyFormula te (Scaling f) v = ScalingApply f v"
| "ApplyFormula te (Expression e) v = ExpressionApply te e v"
| "ApplyFormula te (Pipeline ss) v = ApplyPipeline te ss v"

fun AppendPipelineSteps :: "pipeline_step list \<Rightarrow> any_formula \<Rightarrow> pipeline_step list" where
  "AppendPipelineSteps steps Identity = steps"
| "AppendPipelineSteps steps (Scaling f) = steps @ [StepScaling f]"
| "AppendPipelineSteps steps (Expression e) = steps @ [StepExpression e]"
| "AppendPipelineSteps steps (Pipeline ss) = steps @ ss"

fun step_formula :: "pipeline_step \<Rightarrow> any_formula" where
  "step_formula StepIdentity = Identity"
| "step_formula (StepScaling f) = Scaling f"
| "step_formula (StepExpression e) = Expression e"

definition ComposeFormulas :: "any_formula \<Rightarrow> any_formula \<Rightarrow> any_formula" where
  "ComposeFormulas first second =
    (if first = Identity then second
     else if second = Identity then first
     else case AppendPipelineSteps (AppendPipelineSteps [] first) second of
         [] \<Rightarrow> Identity
       | [s] \<Rightarrow> step_formula s
       | ss \<Rightarrow> Pipeline ss)"

section \<open>Building a formula from the configuration\<close>

definition is_identifier_char :: "char \<Rightarrow> bool" where
  "is_identifier_char c \<longleftrightarrow>
     isdigit c \<or> (65 \<le> (of_char c :: nat) \<and> of_char c \<le> (90 :: nat))
     \<or> (97 \<le> (of_char c :: nat) \<and> of_char c \<le> (122 :: nat)) \<or> c = CHR ''_''"

definition literal_end :: "string \<Rightarrow> bool" where
  "literal_end s \<longleftrightarrow> s = [] \<or> \<not> is_identifier_char (hd s)"

text \<open>
  The two literal patterns at a position: digits, a point and digits with at least one digit,
  and a number with an exponent.  The digit runs are maximal, because a shorter run would be
  followed by a digit where the pattern needs a boundary.
\<close>

definition fractional_literal_at :: "string \<Rightarrow> bool" where
  "fractional_literal_at s =
    (let ds = takeWhile isdigit s in
     case dropWhile isdigit s of
       [] \<Rightarrow> False
     | c # rest \<Rightarrow>
         c = CHR ''.'' \<and> (ds \<noteq> [] \<or> takeWhile isdigit rest \<noteq> []) \<and> literal_end (dropWhile isdigit rest))"

definition exponent_at :: "string \<Rightarrow> bool" where
  "exponent_at s =
    (case s of
       [] \<Rightarrow> False
     | e # rest \<Rightarrow>
         (e = CHR ''e'' \<or> e = CHR ''E'') \<and>
         (let digits = (case rest of c # r \<Rightarrow> if c = CHR ''+'' \<or> c = CHR ''-'' then r else rest | [] \<Rightarrow> []) in
          takeWhile isdigit digits \<noteq> [] \<and> literal_end (dropWhile isdigit digits)))"

definition scientific_literal_at :: "string \<Rightarrow> bool" where
  "scientific_literal_at s =
    (takeWhile isdigit s \<noteq> [] \<and>
     (case dropWhile isdigit s of
        [] \<Rightarrow> False
      | c # rest \<Rightarrow> if c = CHR ''.'' then exponent_at (dropWhile isdigit rest) else exponent_at (c # rest)))"

fun literal_search :: "(string \<Rightarrow> bool) \<Rightarrow> bool \<Rightarrow> string \<Rightarrow> bool" where
  "literal_search matches boundary [] = (boundary \<and> matches [])"
| "literal_search matches boundary (c # s) =
    ((boundary \<and> matches (c # s)) \<or> literal_search matches (\<not> is_identifier_char c) s)"

definition ContainsNonIntegerNumericLiteral :: "string \<Rightarrow> bool" where
  "ContainsNonIntegerNumericLiteral expression \<longleftrightarrow>
     literal_search fractional_literal_at True expression
     \<or> literal_search scientific_literal_at True expression"

datatype formula_json = JsonAbsent | JsonNull | JsonString string | JsonOther

definition BuildFormula :: "tinyexpr \<Rightarrow> formula_json \<Rightarrow> any_formula result" where
  "BuildFormula te formula_json =
    (case formula_json of
       JsonAbsent \<Rightarrow> Inr Identity
     | JsonNull \<Rightarrow> Inr Identity
     | JsonString expression \<Rightarrow>
         if expression = [] then Inr Identity
         else if ContainsNonIntegerNumericLiteral expression then Inl ASTL_STATUS_BAD_CONFIGURATION
         else rbind (ExpressionCreate te expression) (\<lambda>e. Inr (Expression e))
     | JsonOther \<Rightarrow> Inl ASTL_STATUS_BAD_CONFIGURATION)"

section \<open>Rendering for the API\<close>

definition to_string_u64 :: "64 word \<Rightarrow> string" where "to_string_u64 w = show_nat (unat w)"

definition FormatScaleAppliedToValueForApi :: "string \<Rightarrow> 64 word \<Rightarrow> 64 word \<Rightarrow> string" where
  "FormatScaleAppliedToValueForApi lhs numerator denominator =
    (if denominator = 0 then ''('' @ lhs @ '') / 0''
     else if numerator = denominator then lhs
     else if denominator = 1 then lhs @ '' * '' @ to_string_u64 numerator
     else if numerator = 1 then lhs @ '' / '' @ to_string_u64 denominator
     else ''(('' @ lhs @ '') * '' @ to_string_u64 numerator @ '') / '' @ to_string_u64 denominator)"

text \<open>
  ReplaceValueVariable: left is true where the character before is absent or ends a token.
\<close>

definition value_here :: "bool \<Rightarrow> string \<Rightarrow> bool" where
  "value_here left s \<longleftrightarrow> left \<and> take 5 s = ''value'' \<and> literal_end (drop 5 s)"

function replace_value :: "string \<Rightarrow> bool \<Rightarrow> string \<Rightarrow> string" where
  "replace_value replacement left [] = []"
| "replace_value replacement left (c # s) =
    (if value_here left (c # s)
     then replacement @ replace_value replacement False (drop 5 (c # s))
     else c # replace_value replacement (\<not> is_identifier_char c) s)"
  by pat_completeness auto
termination by (relation "measure (\<lambda>(r, l, s). length s)") auto

declare replace_value.simps(2) [simp del]

definition ReplaceValueVariable :: "string \<Rightarrow> string \<Rightarrow> string" where
  "ReplaceValueVariable expression replacement = replace_value replacement True expression"

fun ComposePipelineStepIntoExpression :: "string \<Rightarrow> pipeline_step \<Rightarrow> string" where
  "ComposePipelineStepIntoExpression current StepIdentity = current"
| "ComposePipelineStepIntoExpression current (StepScaling f) =
    FormatScaleAppliedToValueForApi (''('' @ current @ '')'') (sf_numerator f) (sf_denominator f)"
| "ComposePipelineStepIntoExpression current (StepExpression e) =
    ReplaceValueVariable e (''('' @ current @ '')'')"

fun FormatFormulaForApi :: "any_formula \<Rightarrow> string" where
  "FormatFormulaForApi Identity = ''value''"
| "FormatFormulaForApi (Scaling f) =
    FormatScaleAppliedToValueForApi ''value'' (sf_numerator f) (sf_denominator f)"
| "FormatFormulaForApi (Expression e) = e"
| "FormatFormulaForApi (Pipeline ss) = foldl ComposePipelineStepIntoExpression ''value'' ss"

section \<open>Composition\<close>

lemma ApplyPipeline_append:
  "ApplyPipeline te (ss @ ts) v = rbind (ApplyPipeline te ss v) (ApplyPipeline te ts)"
proof (induction ss arbitrary: v)
  case (Cons s ss)
  then show ?case by (cases "ApplyStep te s v") simp_all
qed simp

lemma ApplyPipeline_single: "ApplyPipeline te [s] v = ApplyStep te s v"
  by (cases "ApplyStep te s v") simp_all

lemma ApplyPipeline_steps:
  "ApplyPipeline te (AppendPipelineSteps steps f) v = rbind (ApplyPipeline te steps v) (ApplyFormula te f)"
  by (cases f; cases "ApplyPipeline te steps v")
    (simp_all add: ApplyPipeline_append ApplyPipeline_single del: ApplyPipeline.simps(2))

lemma ApplyFormula_step: "ApplyFormula te (step_formula s) v = ApplyPipeline te [s] v"
  unfolding ApplyPipeline_single by (cases s) simp_all

fun formula_steps :: "any_formula \<Rightarrow> pipeline_step list" where
  "formula_steps Identity = []"
| "formula_steps (Scaling f) = [StepScaling f]"
| "formula_steps (Expression e) = [StepExpression e]"
| "formula_steps (Pipeline ss) = ss"

lemma AppendPipelineSteps_steps: "AppendPipelineSteps steps f = steps @ formula_steps f"
  by (cases f) simp_all

lemma formula_steps_step: "formula_steps (step_formula s) = (if s = StepIdentity then [] else [s])"
  by (cases s) simp_all

text \<open>
  C39: composing two formulas and applying the result is applying the first and then the second, the
  first failure ending the computation, whatever the two formulas are. The steps of the composition
  are those of the first formula followed by those of the second, pipelines flattened and nothing
  else dropped, except that two formulas, neither of them the identity, whose only step together is
  an identity step are composed to the identity.
\<close>

theorem ComposeFormulas_correct:
  "ApplyFormula te (ComposeFormulas f g) v = rbind (ApplyFormula te f v) (ApplyFormula te g)
   \<and> formula_steps (ComposeFormulas f g) =
      (if f \<noteq> Identity \<and> g \<noteq> Identity \<and> formula_steps f @ formula_steps g = [StepIdentity] then []
       else formula_steps f @ formula_steps g)"
proof (cases "f = Identity \<or> g = Identity")
  case True
  then show ?thesis by (cases "ApplyFormula te f v") (auto simp: ComposeFormulas_def)
next
  case False
  let ?ss = "formula_steps f @ formula_steps g"
  have composed: "ComposeFormulas f g = (case ?ss of [] \<Rightarrow> Identity | [s] \<Rightarrow> step_formula s | ss \<Rightarrow> Pipeline ss)"
    using False by (auto simp: ComposeFormulas_def AppendPipelineSteps_steps split: list.split)
  have "ApplyPipeline te ?ss v = rbind (ApplyFormula te f v) (ApplyFormula te g)"
    using ApplyPipeline_steps [of te "formula_steps f" g v] ApplyPipeline_steps [of te "[]" f v]
    by (simp add: AppendPipelineSteps_steps)
  moreover have "ApplyFormula te (ComposeFormulas f g) v = ApplyPipeline te ?ss v"
    unfolding composed using ApplyFormula_step by (cases ?ss rule: remdups_adj.cases) simp_all
  moreover have "formula_steps (ComposeFormulas f g) = (if ?ss = [StepIdentity] then [] else ?ss)"
    unfolding composed by (cases ?ss rule: remdups_adj.cases) (simp_all add: formula_steps_step)
  ultimately show ?thesis using False by simp
qed

theorem ComposeFormulas_correct_witness:
  "formula_steps (ComposeFormulas (Expression ''value / 10'') (Scaling (ScalingFormula 3 2)))
    = [StepExpression ''value / 10'', StepScaling (ScalingFormula 3 2)]"
  using ComposeFormulas_correct [of undefined "Expression ''value / 10''" "Scaling (ScalingFormula 3 2)" "VU8 0"]
  by simp

section \<open>Scaling\<close>

lemma word_le_max_div_iff:
  fixes x n :: "'a::len word"
  assumes "n \<noteq> 0"
  shows "x \<le> - 1 div n \<longleftrightarrow> unat x * unat n < 2 ^ LENGTH('a)"
proof -
  have n: "0 < unat n" using assms by (simp add: unat_gt_0)
  have "unat (- 1 div n :: 'a word) = (2 ^ LENGTH('a) - 1) div unat n"
    using unat_max_word_minus [of "0 :: 'a word"] by (simp add: unat_div_distrib)
  then have "x \<le> - 1 div n \<longleftrightarrow> unat x \<le> (2 ^ LENGTH('a) - 1) div unat n"
    by (simp add: word_le_nat_alt)
  also have "\<dots> \<longleftrightarrow> unat x * unat n \<le> 2 ^ LENGTH('a) - 1"
    using n by (simp add: less_eq_div_iff_mult_less_eq)
  finally show ?thesis by (simp add: Suc_le_eq le_diff_conv flip: less_Suc_eq_le)
qed

lemma unat_gcd_word:
  fixes n d :: "'a::len word"
  assumes "n \<noteq> 0"
  shows "unat (of_nat (gcd (unat n) (unat d)) :: 'a word) = gcd (unat n) (unat d)"
proof -
  have "gcd (unat n) (unat d) \<le> unat n" using assms by (intro dvd_imp_le) (simp_all add: unat_gt_0)
  then show ?thesis using unat_less_pow [of n] by (intro unat_of_nat_less) linarith
qed

text \<open>
  The scaling constructor keeps the ratio and brings it to lowest terms, and applying it
  to an integral value multiplies without wrap-around: the overflow status is returned exactly
  when value * numerator does not fit in 64 bits, and otherwise the result is the double
  quotient of the exact product by the denominator.
\<close>

theorem ScalingFormula_exact_ratio:
  fixes n d :: "64 word" and v :: astl_value
  defines "f \<equiv> ScalingFormula n d"
  assumes "d \<noteq> 0" "\<not> is_floating v" "value_type v \<noteq> ASTL_VALUE_BOOL8"
  shows "unat (sf_numerator f) * unat d = unat n * unat (sf_denominator f)
    \<and> coprime (unat (sf_numerator f)) (unat (sf_denominator f)) \<and> sf_denominator f \<noteq> 0
    \<and> ScalingApply f v =
        (if int_part v * unat (sf_numerator f) < 2 ^ 64
         then Inr (VF64 (fp_div binary64
                (fp_of_int binary64 (int (int_part v * unat (sf_numerator f))))
                (fp_of_int binary64 (int (unat (sf_denominator f))))))
         else Inl ASTL_STATUS_METRIC_OVERFLOW_DETECTED)"
proof -
  define g where "g = gcd (unat n) (unat d)"
  have d0: "0 < unat d" using assms(2) by (simp add: unat_gt_0)
  then have g0: "0 < g" by (simp add: g_def)
  have ratio: "unat (sf_numerator f) = unat n div g \<and> unat (sf_denominator f) = unat d div g"
  proof (cases "n = 0")
    case True
    then have "g = unat d" by (simp add: g_def)
    then show ?thesis using True d0 by (simp add: f_def ScalingFormula_def Let_def)
  next
    case False
    have ug: "unat (of_nat g :: 64 word) = g" using False by (simp add: g_def unat_gcd_word)
    have "g \<le> unat n" using False unfolding g_def by (intro dvd_imp_le) (simp_all add: unat_gt_0)
    then have "n div of_nat g \<noteq> 0"
      using ug g0 False by (simp add: word_unat_eq_iff unat_div_distrib div_eq_0_iff)
    then show ?thesis
      using False assms(2) ug by (simp add: f_def ScalingFormula_def Let_def unat_div_distrib g_def)
  qed
  have q: "unat n = g * (unat n div g)" "unat d = g * (unat d div g)"
    by (simp_all add: g_def)
  have 1: "unat (sf_numerator f) * unat d = unat n * unat (sf_denominator f)"
    using ratio q by (metis mult.assoc mult.commute)
  have 2: "coprime (unat (sf_numerator f)) (unat (sf_denominator f))"
    using ratio d0 by (simp add: g_def div_gcd_coprime)
  have 3: "sf_denominator f \<noteq> 0"
  proof
    assume "sf_denominator f = 0"
    then have "unat d div g = 0" using ratio by simp
    then show False using q(2) d0 by simp
  qed
  have u: "unat (of_nat (int_part v) :: 64 word) = int_part v"
    by (rule unat_of_nat_less) (use int_part_less_u64 [of v] in simp)
  have ov: "(sf_numerator f \<noteq> 0 \<and> (of_nat (int_part v) :: 64 word) > - 1 div sf_numerator f)
      \<longleftrightarrow> \<not> int_part v * unat (sf_numerator f) < 2 ^ 64"
  proof (cases "sf_numerator f = 0")
    case False
    have "(of_nat (int_part v) :: 64 word) \<le> - 1 div sf_numerator f
        \<longleftrightarrow> int_part v * unat (sf_numerator f) < 2 ^ 64"
      using word_le_max_div_iff [OF False, of "of_nat (int_part v)"] unfolding u by simp
    then show ?thesis unfolding not_le [symmetric] using False by blast
  qed simp
  have prod: "uint (of_nat (int_part v) * sf_numerator f) = int (int_part v * unat (sf_numerator f))"
    if "int_part v * unat (sf_numerator f) < 2 ^ 64"
  proof -
    have "unat ((of_nat (int_part v) :: 64 word) * sf_numerator f) = int_part v * unat (sf_numerator f)"
      using unat_mult_le [of "of_nat (int_part v)" "sf_numerator f"] that unfolding u by simp
    then show ?thesis by (metis uint_nat)
  qed
  have den: "int (unat (sf_denominator f)) = uint (sf_denominator f)" by simp
  show ?thesis
    unfolding den using 1 2 3 assms(3,4) ov prod by (simp add: ScalingApply_def Let_def del: of_nat_mult)
qed

theorem ScalingFormula_exact_ratio_witness:
  "ScalingApply (ScalingFormula 6 4) (VU64 (2 ^ 63)) = Inl ASTL_STATUS_METRIC_OVERFLOW_DETECTED"
proof -
  have f: "sf_numerator (ScalingFormula 6 4) = 3"
    by (simp add: ScalingFormula_def Let_def gcd_red_nat [of 6 4] gcd_red_nat [of 4 2])
  show ?thesis using ScalingFormula_exact_ratio [of 4 "VU64 (2 ^ 63)" 6] by (simp add: f)
qed

section \<open>Rendering\<close>

lemma replace_value_id: "replace_value ''value'' left s = s"
proof (induction "''value''" left s rule: replace_value.induct)
  case (2 left c s)
  show ?case
  proof (cases "value_here left (c # s)")
    case True
    then have "replace_value ''value'' left (c # s) = ''value'' @ drop 5 (c # s)"
      using 2(1) by (simp only: replace_value.simps if_True)
    also have "\<dots> = c # s"
      using True append_take_drop_id [of 5 "c # s"] by (simp only: value_here_def)
    finally show ?thesis .
  next
    case False
    then show ?thesis using 2(2) by (simp only: replace_value.simps if_False not_False_eq_True)
  qed
qed simp

lemma replace_value_skip:
  "\<not> value_here left (c # s) \<Longrightarrow> replace_value r left (c # s) = c # replace_value r (\<not> is_identifier_char c) s"
  by (simp add: replace_value.simps)

lemma replace_value_identifier:
  "list_all is_identifier_char s \<Longrightarrow> replace_value r False s = s"
  by (induction s) (simp_all add: replace_value_skip value_here_def)

text \<open>
  ReplaceValueVariable substitutes whole "value" tokens only: replacing the variable by
  itself gives the expression back, and an expression in which every character belongs to one
  identifier other than "value" is left alone.
\<close>

theorem ReplaceValueVariable_tokens:
  "ReplaceValueVariable e ''value'' = e
   \<and> (list_all is_identifier_char e \<and> e \<noteq> ''value'' \<longrightarrow> ReplaceValueVariable e r = e)
   \<and> ReplaceValueVariable ''value'' r = r"
proof (intro conjI impI)
  show "ReplaceValueVariable e ''value'' = e"
    by (simp add: ReplaceValueVariable_def replace_value_id)
  show "ReplaceValueVariable ''value'' r = r"
    by (simp add: ReplaceValueVariable_def replace_value.simps(2) value_here_def literal_end_def)
  assume a: "list_all is_identifier_char e \<and> e \<noteq> ''value''"
  show "ReplaceValueVariable e r = e"
  proof (cases e)
    case (Cons c s)
    have "\<not> value_here True e"
    proof
      assume "value_here True e"
      then have v: "take 5 e = ''value'' \<and> literal_end (drop 5 e)" by (simp add: value_here_def)
      then have "drop 5 e \<noteq> []" using a append_take_drop_id [of 5 e] by auto
      then have "is_identifier_char (hd (drop 5 e))"
        using a by (metis hd_in_set in_set_dropD list_all_iff)
      then show False using v \<open>drop 5 e \<noteq> []\<close> by (simp add: literal_end_def)
    qed
    then show ?thesis
      using a Cons replace_value_identifier [of s r]
      by (simp add: ReplaceValueVariable_def replace_value_skip)
  qed (simp add: ReplaceValueVariable_def)
qed

theorem ReplaceValueVariable_tokens_witness:
  "ReplaceValueVariable ''values'' ''(x)'' = ''values''"
  using ReplaceValueVariable_tokens [of "''values''" "''(x)''"]
  by (simp add: is_identifier_char_def isdigit_def)

end
