(* ===== verification/Ordered_Map.thy ===== *)
theory Ordered_Map
  imports Astl_Value
begin

text \<open>
  std::map and std::set keyed by AstlValue: the entries in the order of the comparison operator,
  found and inserted at the lower bound.  The locale ordered_keys states what the operations
  need of the comparison on the keys in use; it is interpreted for operator< on values that are
  not NaN.  The counting maps of the metrics and of the histogram are instances.
\<close>

section \<open>The operations\<close>

fun om_lookup :: "('k \<Rightarrow> 'k \<Rightarrow> bool) \<Rightarrow> ('k \<times> 'v) list \<Rightarrow> 'k \<Rightarrow> 'v option" where
  "om_lookup lt [] k = None"
| "om_lookup lt ((k', v) # m) k =
    (if lt k' k then om_lookup lt m k else if lt k k' then None else Some v)"

text \<open>f applied to the entry operator[] finds, or to the fresh value d it inserts.\<close>

fun om_update :: "('k \<Rightarrow> 'k \<Rightarrow> bool) \<Rightarrow> 'k \<Rightarrow> 'v \<Rightarrow> ('v \<Rightarrow> 'v) \<Rightarrow> ('k \<times> 'v) list \<Rightarrow> ('k \<times> 'v) list" where
  "om_update lt k d f [] = [(k, f d)]"
| "om_update lt k d f ((k', v) # m) =
    (if lt k' k then (k', v) # om_update lt k d f m
     else if lt k k' then (k, f d) # (k', v) # m
     else (k', f v) # m)"

text \<open>The total of a counting map.\<close>

definition om_total :: "('k \<times> nat) list \<Rightarrow> nat" where "om_total m = sum_list (map snd m)"

lemma om_total_simps [simp]: "om_total [] = 0" "om_total ((k, n) # m) = n + om_total m"
  by (simp_all add: om_total_def)

lemma om_total_increment: "om_total (om_update lt k 0 Suc m) = Suc (om_total m)"
  by (induction m) auto

lemma set_om_update_keys:
  "fst ` set (om_update lt k d f m) \<subseteq> insert k (fst ` set m)"
proof (induction m)
  case (Cons p m)
  obtain k' v where "p = (k', v)" by (cases p)
  then show ?case using Cons.IH by (simp split: if_splits) blast
qed simp

lemma length_om_update_le: "length (om_update lt k d f m) \<le> Suc (length m)"
  by (induction m) auto

lemma length_om_update_ge: "length m \<le> length (om_update lt k d f m)"
  by (induction m) auto

section \<open>Lookup after update\<close>

locale ordered_keys =
  fixes lt :: "'k \<Rightarrow> 'k \<Rightarrow> bool" and ok :: "'k \<Rightarrow> bool"
  assumes irrefl: "\<not> lt k k"
    and trans: "lt a b \<Longrightarrow> lt b c \<Longrightarrow> lt a c"
    and equiv_lt: "ok a \<Longrightarrow> ok b \<Longrightarrow> ok c \<Longrightarrow> \<not> lt a b \<Longrightarrow> \<not> lt b a \<Longrightarrow> (lt c a \<longleftrightarrow> lt c b) \<and> (lt a c \<longleftrightarrow> lt b c)"
begin

definition keys_equiv :: "'k \<Rightarrow> 'k \<Rightarrow> bool" where
  "keys_equiv a b \<longleftrightarrow> \<not> lt a b \<and> \<not> lt b a"

definition om_sorted :: "('k \<times> 'v) list \<Rightarrow> bool" where
  "om_sorted m \<longleftrightarrow> sorted_wrt lt (map fst m) \<and> (\<forall>k\<in>fst ` set m. ok k)"

lemma om_sorted_Nil [simp]: "om_sorted []"
  by (simp add: om_sorted_def)

lemma om_sorted_Cons: "om_sorted ((k, v) # m) \<longleftrightarrow> ok k \<and> (\<forall>k'\<in>fst ` set m. lt k k') \<and> om_sorted m"
  by (auto simp: om_sorted_def)

lemma keys_equiv_sym: "keys_equiv a b \<longleftrightarrow> keys_equiv b a"
  by (auto simp: keys_equiv_def)

lemma keys_equiv_refl [simp]: "keys_equiv a a"
  by (simp add: keys_equiv_def irrefl)

lemma om_sorted_update: "om_sorted m \<Longrightarrow> ok k \<Longrightarrow> om_sorted (om_update lt k d f m)"
proof (induction m)
  case (Cons p m)
  obtain k' v where p: "p = (k', v)" by (cases p)
  have k': "ok k'" "\<forall>x\<in>fst ` set m. lt k' x" "om_sorted m"
    using Cons.prems by (simp_all add: p om_sorted_Cons)
  show ?case
  proof (cases "lt k' k")
    case True
    have "\<forall>x\<in>fst ` set (om_update lt k d f m). lt k' x"
      using set_om_update_keys [of lt k d f m] k'(2) True by blast
    then show ?thesis
      using Cons.IH [OF k'(3) Cons.prems(2)] k' True by (simp add: p om_sorted_Cons)
  next
    case False
    then show ?thesis
      using k' Cons.prems(2) trans by (auto simp: p om_sorted_Cons)
  qed
qed (simp add: om_sorted_def)

lemma om_lookup_update:
  "om_sorted m \<Longrightarrow> ok k \<Longrightarrow> ok j \<Longrightarrow>
   om_lookup lt (om_update lt k d f m) j =
    (if keys_equiv j k then Some (f (case om_lookup lt m k of Some v \<Rightarrow> v | None \<Rightarrow> d))
     else om_lookup lt m j)"
proof (induction m)
  case Nil
  then show ?case by (auto simp: keys_equiv_def)
next
  case (Cons p m)
  obtain k' v where p: "p = (k', v)" by (cases p)
  have ih: "om_lookup lt (om_update lt k d f m) j =
      (if keys_equiv j k then Some (f (case om_lookup lt m k of Some v \<Rightarrow> v | None \<Rightarrow> d))
       else om_lookup lt m j)"
    using Cons.IH Cons.prems by (simp add: p om_sorted_Cons)
  have ok: "ok k'" "ok k" "ok j" using Cons.prems by (simp_all add: p om_sorted_Cons)
  have equiv: "lt k' j \<longleftrightarrow> lt k' k" "lt j k' \<longleftrightarrow> lt k k'" if "keys_equiv j k"
    using equiv_lt [of j k k'] ok that by (auto simp: keys_equiv_def)
  consider (above) "lt k' k" | (below) "\<not> lt k' k" "lt k k'" | (same) "\<not> lt k' k" "\<not> lt k k'" by blast
  then show ?case
  proof cases
    case above
    then show ?thesis using ih equiv by (auto simp: p)
  next
    case below
    then show ?thesis
      using equiv trans [of k k' j] trans [of j k k'] irrefl by (auto simp: p keys_equiv_def)
  next
    case same
    have "keys_equiv j k \<longleftrightarrow> \<not> lt k' j \<and> \<not> lt j k'"
      using equiv_lt [of k' k j] same ok by (auto simp: keys_equiv_def)
    then show ?thesis using same by (auto simp: p)
  qed
qed

text \<open>Counting: the entry of a key is the number of equivalent keys counted.\<close>

definition count_keys :: "'k list \<Rightarrow> ('k \<times> nat) list" where
  "count_keys ks = foldl (\<lambda>m k. om_update lt k 0 Suc m) [] ks"

lemma count_keys_snoc: "count_keys (ks @ [k]) = om_update lt k 0 Suc (count_keys ks)"
  by (simp add: count_keys_def)

lemma om_sorted_count: "\<forall>k\<in>set ks. ok k \<Longrightarrow> om_sorted (count_keys ks)"
  by (induction ks rule: rev_induct) (simp_all add: count_keys_snoc om_sorted_update,
      simp add: count_keys_def)

lemma om_total_count: "om_total (count_keys ks) = length ks"
  by (induction ks rule: rev_induct) (simp_all add: count_keys_snoc om_total_increment,
      simp add: count_keys_def)

lemma om_lookup_count:
  "\<forall>k\<in>set ks. ok k \<Longrightarrow> ok j \<Longrightarrow>
   om_lookup lt (count_keys ks) j =
    (let n = length (filter (\<lambda>k. keys_equiv j k) ks) in if n = 0 then None else Some n)"
proof (induction ks rule: rev_induct)
  case (snoc k ks)
  have k: "ok k" "om_sorted (count_keys ks)" using snoc.prems om_sorted_count by simp_all
  have same: "om_lookup lt (count_keys ks) k = om_lookup lt (count_keys ks) j" if "keys_equiv j k"
  proof -
    have "om_lookup lt m k = om_lookup lt m j" if "om_sorted m" for m :: "('k \<times> nat) list"
      using that
    proof (induction m)
      case (Cons p m)
      then show ?case
        using equiv_lt [of j k "fst p"] \<open>keys_equiv j k\<close> k(1) snoc.prems(2)
        by (cases p) (auto simp: keys_equiv_def om_sorted_Cons)
    qed simp
    then show ?thesis using k(2) by blast
  qed
  show ?case
    using snoc om_lookup_update [OF k(2) k(1) snoc.prems(2), of 0 Suc] same
    by (auto simp: count_keys_snoc Let_def)
qed (simp add: count_keys_def)

end

section \<open>Keys of type AstlValue\<close>

definition ordered_value :: "astl_value \<Rightarrow> bool" where
  "ordered_value v \<longleftrightarrow> fp_part v \<noteq> FNaN"

lemma AstlValue_less_equiv:
  assumes "ordered_value a" "ordered_value b" "ordered_value c"
    and "\<not> AstlValue_less a b" "\<not> AstlValue_less b a"
  shows "(AstlValue_less c a \<longleftrightarrow> AstlValue_less c b) \<and> (AstlValue_less a c \<longleftrightarrow> AstlValue_less b c)"
proof -
  have "AstlValue_cmp a b \<noteq> PO_unordered" using assms by (simp add: AstlValue_unordered_iff ordered_value_def)
  then have e: "AstlValue_cmp a b = PO_equivalent"
    using assms(4,5) AstlValue_cmp_swap [of b a]
    by (cases "AstlValue_cmp a b") (simp_all add: AstlValue_less_def)
  have c: "AstlValue_cmp c a = AstlValue_cmp c b" by (rule AstlValue_equiv_less [OF e])
  then have "AstlValue_cmp a c = AstlValue_cmp b c"
    by (simp add: AstlValue_cmp_swap [of a c] AstlValue_cmp_swap [of b c])
  then show ?thesis using c by (simp add: AstlValue_less_def)
qed

interpretation value_keys: ordered_keys AstlValue_less ordered_value
proof
  show "\<not> AstlValue_less k k" for k
    by (simp add: AstlValue_less_def AstlValue_cmp_def fp_cmp_def)
  show "AstlValue_less a b \<Longrightarrow> AstlValue_less b c \<Longrightarrow> AstlValue_less a c" for a b c
    by (rule AstlValue_less_trans)
qed (rule AstlValue_less_equiv)

lemma value_keys_equiv:
  "ordered_value a \<Longrightarrow> ordered_value b \<Longrightarrow> value_keys.keys_equiv a b \<longleftrightarrow> AstlValue_eq a b"
  using AstlValue_cmp_swap [of b a] AstlValue_unordered_iff [of a b]
  by (cases "AstlValue_cmp a b")
    (auto simp: value_keys.keys_equiv_def AstlValue_eq_iff_equivalent AstlValue_less_def ordered_value_def)

end
