(* ===== verification/Samples.thy ===== *)
theory Samples
  imports Astl_Value Clocks
begin

text \<open>
  The samples that flow through the library and the stores they flow into: the records of
  src/impl/common/i_raw_sample_sink.hpp and i_processed_sample_sink.hpp; the processed-sample
  store, its sink and its batch visitors in src/impl/orchestrator/orchestrator.cpp; the sink
  fan-out of src/impl/metric/metric_manager.cpp; the caller's buffer of
  src/impl/output/buffer_output.cpp.  The locale processed_sink is the contract the metrics
  rely on, and it is interpreted on the orchestrator's sink.
\<close>

section \<open>Samples\<close>

record raw_sample =
  rs_operation_id :: "16 word"
  rs_value :: astl_value
  rs_raw_tick :: "64 word"

record normalized_sample =
  ns_operation_id :: "16 word"
  ns_value :: astl_value
  ns_timestamp :: int

record processed_sample =
  ps_value :: astl_value
  ps_timestamp :: int

definition PauseMarker :: "int \<Rightarrow> raw_sample" where
  "PauseMarker t = \<lparr>rs_operation_id = kPauseResumeOperationId, rs_value = VU64 0, rs_raw_tick = word_of_int t\<rparr>"

definition ResumeMarker :: "int \<Rightarrow> raw_sample" where
  "ResumeMarker t = \<lparr>rs_operation_id = kPauseResumeOperationId, rs_value = VU64 1, rs_raw_tick = word_of_int t\<rparr>"

definition IsPauseResumeMarkerOperationId :: "16 word \<Rightarrow> bool" where
  "IsPauseResumeMarkerOperationId i \<longleftrightarrow> i = kPauseResumeOperationId"

lemma markers_simps [sample_simps]:
  "IsPauseResumeMarkerOperationId (rs_operation_id (PauseMarker t))"
  "IsPauseResumeMarkerOperationId (rs_operation_id (ResumeMarker t))"
  "rs_value (PauseMarker t) \<noteq> rs_value (ResumeMarker u)"
  by (simp_all add: PauseMarker_def ResumeMarker_def IsPauseResumeMarkerOperationId_def)

section \<open>Sinks\<close>

text \<open>A sink consumes one processed sample; the state it changes is its argument.\<close>

type_synonym 's sink = "processed_sample \<Rightarrow> 's \<Rightarrow> astl_status \<times> 's"

text \<open>RawMetric::SinkProcessedSample: without a sink the sample is dropped.\<close>

definition SinkProcessedSample :: "'s sink option \<Rightarrow> processed_sample \<Rightarrow> 's \<Rightarrow> astl_status \<times> 's" where
  "SinkProcessedSample sink p s =
    (case sink of None \<Rightarrow> (ASTL_STATUS_BAD_CONFIGURATION, s) | Some f \<Rightarrow> f p s)"

text \<open>
  MetricManager::SinkProcessedSamples: every registered sink is called, the last failure is
  the result.
\<close>

type_synonym ('t, 'm, 's) batch_sink =
  "'t option \<Rightarrow> 'm option \<Rightarrow> processed_sample list \<Rightarrow> 's \<Rightarrow> astl_status \<times> 's"

fun MetricManager_SinkProcessedSamples :: "('t, 'm, 's) batch_sink list \<Rightarrow> ('t, 'm, 's) batch_sink" where
  "MetricManager_SinkProcessedSamples [] t m ps s = (ASTL_STATUS_SUCCESS, s)"
| "MetricManager_SinkProcessedSamples (sink # sinks) t m ps s =
    (let (r1, s1) = sink t m ps s;
         (r2, s2) = MetricManager_SinkProcessedSamples sinks t m ps s1 in
     (if r2 \<noteq> ASTL_STATUS_SUCCESS then r2 else r1, s2))"

text \<open>
  What a metric relies on: while the sink is ready, a sample is accepted, appended to the log
  its state stands for, and the sink stays ready.
\<close>

locale processed_sink =
  fixes sink :: "'s sink" and ready :: "'s \<Rightarrow> bool" and log :: "'s \<Rightarrow> processed_sample list"
  assumes accepts: "ready s \<Longrightarrow> fst (sink p s) = ASTL_STATUS_SUCCESS"
    and appends: "ready s \<Longrightarrow> log (snd (sink p s)) = log s @ [p]"
    and stays_ready: "ready s \<Longrightarrow> ready (snd (sink p s))"
begin

lemma sink_ready:
  assumes "ready s"
  obtains s' where "sink p s = (ASTL_STATUS_SUCCESS, s')" "log s' = log s @ [p]" "ready s'"
  using accepts [OF assms, of p] appends [OF assms, of p] stays_ready [OF assms, of p]
  by (cases "sink p s") simp

fun sink_all :: "processed_sample list \<Rightarrow> 's \<Rightarrow> astl_status \<times> 's" where
  "sink_all [] s = (ASTL_STATUS_SUCCESS, s)"
| "sink_all (p # ps) s =
    (let (r, s') = sink p s in if r \<noteq> ASTL_STATUS_SUCCESS then (r, s') else sink_all ps s')"

lemma sink_all_ready:
  "ready s \<Longrightarrow> fst (sink_all ps s) = ASTL_STATUS_SUCCESS \<and> log (snd (sink_all ps s)) = log s @ ps
    \<and> ready (snd (sink_all ps s))"
proof (induction ps arbitrary: s)
  case (Cons p ps)
  obtain s' where "sink p s = (ASTL_STATUS_SUCCESS, s')" "log s' = log s @ [p]" "ready s'"
    using sink_ready [OF Cons.prems] .
  then show ?case using Cons.IH [of s'] by simp
qed simp

end

section \<open>The processed-sample store\<close>

text \<open>
  _processed_samples of the orchestrator, and the thread-local context of a batch visit: the
  target, the metric and the consumer, whose state is the last component.  The C++ map is
  nested, target then metric; no target is kept with an empty inner map (a sink creates both
  entries, an erase drops an emptied target), so that a map on pairs holds the same data.
\<close>

record ('t, 'm, 'c) store =
  processed_samples :: "'t \<times> 'm \<Rightarrow> processed_sample list option"
  batch_visit :: "('t \<times> 'm \<times> (processed_sample list \<Rightarrow> 'c \<Rightarrow> astl_status \<times> 'c)) option"
  consumer_state :: 'c

definition stored_samples :: "('t, 'm, 'c) store \<Rightarrow> 't \<Rightarrow> 'm \<Rightarrow> processed_sample list" where
  "stored_samples s t m = (case processed_samples s (t, m) of None \<Rightarrow> [] | Some ps \<Rightarrow> ps)"

definition append_samples ::
    "'t \<Rightarrow> 'm \<Rightarrow> processed_sample list \<Rightarrow> ('t, 'm, 'c) store \<Rightarrow> ('t, 'm, 'c) store" where
  "append_samples t m ps s =
    s\<lparr>processed_samples := (processed_samples s)((t, m) := Some (stored_samples s t m @ ps))\<rparr>"

definition Orchestrator_SinkProcessedSamples :: "('t, 'm, ('t, 'm, 'c) store) batch_sink" where
  "Orchestrator_SinkProcessedSamples target metric ps s =
    (case (target, metric) of
       (Some t, Some m) \<Rightarrow>
        (case batch_visit s of
           Some (vt, vm, consumer) \<Rightarrow>
             if t = vt then
               if m = vm then
                 let (r, c) = consumer ps (consumer_state s) in (r, s\<lparr>consumer_state := c\<rparr>)
               else (ASTL_STATUS_SUCCESS, s)
             else (ASTL_STATUS_SUCCESS, append_samples t m ps s)
         | None \<Rightarrow> (ASTL_STATUS_SUCCESS, append_samples t m ps s))
     | _ \<Rightarrow> (ASTL_STATUS_BAD_ARGUMENT, s))"

text \<open>What the store holds for a metric is dropped once an uncached target has delivered it.\<close>

definition ConsumeProcessedMetricSamplesIfUncached ::
    "'t set \<Rightarrow> 'm option \<Rightarrow> 't option \<Rightarrow> ('t, 'm, 'c) store \<Rightarrow> ('t, 'm, 'c) store" where
  "ConsumeProcessedMetricSamplesIfUncached no_cache metric target s =
    (case (metric, target) of
       (Some m, Some t) \<Rightarrow>
         if t \<notin> no_cache then s
         else s\<lparr>processed_samples := (processed_samples s)((t, m) := None)\<rparr>
     | _ \<Rightarrow> s)"

lemma stored_append [sample_simps]:
  "stored_samples (append_samples t m ps s) t' m' =
    (if t = t' \<and> m = m' then stored_samples s t m @ ps else stored_samples s t' m')"
  by (auto simp: stored_samples_def append_samples_def)

lemma batch_visit_append [sample_simps]: "batch_visit (append_samples t m ps s) = batch_visit s"
  by (simp add: append_samples_def)

text \<open>
  The sink a metric of a target is given: the fan-out with the orchestrator as the registered
  sink.
\<close>

definition store_sink :: "'t \<Rightarrow> 'm \<Rightarrow> ('t, 'm, 'c) store sink" where
  "store_sink t m p = MetricManager_SinkProcessedSamples [Orchestrator_SinkProcessedSamples] (Some t) (Some m) [p]"

lemma store_sink_eq [sample_simps]:
  "batch_visit s = None \<Longrightarrow> store_sink t m p s = (ASTL_STATUS_SUCCESS, append_samples t m [p] s)"
  by (simp add: store_sink_def Orchestrator_SinkProcessedSamples_def)

interpretation store_log: processed_sink "store_sink t m" "\<lambda>s. batch_visit s = None"
    "\<lambda>s. stored_samples s t m"
  for t :: 't and m :: 'm
  by unfold_locales (simp_all add: sample_simps)

end
