(* ===== verification/Sample_Batches.thy ===== *)
theory Sample_Batches
  imports Samples Text_Utils
begin

text \<open>
  Batches of samples in src/impl/orchestrator/orchestrator.cpp: the configured batch size, the
  span visitor and its in-memory and recent-sample callers, the bounded snapshot, and the raw
  cache, which collects raw samples up to a batch and serialises it with a rollback.  The
  serialiser (protobuf) is an argument: it maps a batch and the file's bytes to a status and the
  new bytes.  The locale batch_consumer states what makes a consumer indifferent to the batch
  boundaries.
\<close>

section \<open>The batch size\<close>

definition kDefaultSampleBatchSize :: nat where "kDefaultSampleBatchSize = 1024"
definition kMaximumSampleBatchSize :: nat where "kMaximumSampleBatchSize = 1024 * 1024"

text \<open>The argument is the value of ASTL_SAMPLE_BATCH_SIZE, empty when unset.\<close>

definition ResolveSampleBatchSize :: "string \<Rightarrow> nat" where
  "ResolveSampleBatchSize configured_value =
    (if configured_value = [] then kDefaultSampleBatchSize
     else case ParseUint64 configured_value of
       None \<Rightarrow> kDefaultSampleBatchSize
     | Some n \<Rightarrow> if n = 0 \<or> unat n > kMaximumSampleBatchSize then kDefaultSampleBatchSize else unat n)"

lemma ResolveSampleBatchSize_bounds:
  "1 \<le> ResolveSampleBatchSize v \<and> ResolveSampleBatchSize v \<le> kMaximumSampleBatchSize"
  by (auto simp: ResolveSampleBatchSize_def kDefaultSampleBatchSize_def kMaximumSampleBatchSize_def
      unat_gt_0 Suc_le_eq split: option.split)

section \<open>Visiting a span\<close>

type_synonym 'c consumer = "processed_sample list \<Rightarrow> 'c \<Rightarrow> astl_status \<times> 'c"

text \<open>The loop never ends for a zero batch size; None is that case.\<close>

partial_function (option) VisitSampleSpanBatches ::
    "nat \<Rightarrow> 'c consumer \<Rightarrow> processed_sample list \<Rightarrow> 'c \<Rightarrow> (astl_status \<times> 'c) option" where
  "VisitSampleSpanBatches n consumer samples c =
    (if samples = [] then Some (ASTL_STATUS_SUCCESS, c)
     else case consumer (take n samples) c of
       (status, c') \<Rightarrow>
         if status \<noteq> ASTL_STATUS_SUCCESS then Some (status, c')
         else VisitSampleSpanBatches n consumer (drop n samples) c')"

text \<open>
  A consumer whose success does not depend on the batch boundaries; what an exact one leaves
  behind after a failure does not either.
\<close>

locale batch_consumer =
  fixes consume :: "'c consumer"
  assumes consume_Nil: "consume [] c = (ASTL_STATUS_SUCCESS, c)"
    and consume_append: "consume xs c = (ASTL_STATUS_SUCCESS, c') \<Longrightarrow>
      consume (xs @ ys) c = (ASTL_STATUS_SUCCESS, d) \<longleftrightarrow> consume ys c' = (ASTL_STATUS_SUCCESS, d)"
    and consume_fails: "fst (consume xs c) \<noteq> ASTL_STATUS_SUCCESS \<Longrightarrow> fst (consume (xs @ ys) c) \<noteq> ASTL_STATUS_SUCCESS"
begin

lemma visit_success_iff:
  "1 \<le> n \<Longrightarrow> VisitSampleSpanBatches n consume ps c = Some (ASTL_STATUS_SUCCESS, d)
    \<longleftrightarrow> consume ps c = (ASTL_STATUS_SUCCESS, d)"
proof (induction "length ps" arbitrary: ps c rule: less_induct)
  case less
  show ?case
  proof (cases "ps = []")
    case True
    then show ?thesis by (simp add: VisitSampleSpanBatches.simps consume_Nil)
  next
    case False
    obtain r c' where r: "consume (take n ps) c = (r, c')" by (cases "consume (take n ps) c")
    have len: "length (drop n ps) < length ps" using False less.prems by (cases ps) auto
    show ?thesis
    proof (cases "r = ASTL_STATUS_SUCCESS")
      case True
      have "VisitSampleSpanBatches n consume ps c = VisitSampleSpanBatches n consume (drop n ps) c'"
        using False r True by (simp add: VisitSampleSpanBatches.simps [of n consume ps c])
      moreover have "consume ps c = (ASTL_STATUS_SUCCESS, d) \<longleftrightarrow> consume (drop n ps) c' = (ASTL_STATUS_SUCCESS, d)"
        using consume_append [of "take n ps" c c' "drop n ps" d] r True by simp
      ultimately show ?thesis using less.hyps [OF len less.prems] by simp
    next
      case fails: False
      then have "fst (consume ps c) \<noteq> ASTL_STATUS_SUCCESS"
        using consume_fails [of "take n ps" c "drop n ps"] r by simp
      then show ?thesis using False r fails by (auto simp: VisitSampleSpanBatches.simps [of n consume ps c])
    qed
  qed
qed

end

locale exact_batch_consumer = batch_consumer +
  assumes consume_exact: "consume (xs @ ys) c =
      (case consume xs c of (r, c') \<Rightarrow> if r \<noteq> ASTL_STATUS_SUCCESS then (r, c') else consume ys c')"
begin

lemma visit_eq: "1 \<le> n \<Longrightarrow> VisitSampleSpanBatches n consume ps c = Some (consume ps c)"
proof (induction "length ps" arbitrary: ps c rule: less_induct)
  case less
  show ?case
  proof (cases "ps = []")
    case True
    then show ?thesis by (simp add: VisitSampleSpanBatches.simps consume_Nil)
  next
    case False
    obtain r c' where r: "consume (take n ps) c = (r, c')" by (cases "consume (take n ps) c")
    have "consume ps c = (if r \<noteq> ASTL_STATUS_SUCCESS then (r, c') else consume (drop n ps) c')"
      using consume_exact [of "take n ps" "drop n ps"] r by simp
    moreover have "length (drop n ps) < length ps" using False less.prems by (cases ps) auto
    then have "VisitSampleSpanBatches n consume (drop n ps) c' = Some (consume (drop n ps) c')"
      using less by blast
    ultimately show ?thesis
      using False r by (simp add: VisitSampleSpanBatches.simps [of n consume ps c])
  qed
qed

end

text \<open>A visit ends for every consumer.\<close>

lemma visit_total: "1 \<le> n \<Longrightarrow> \<exists>r. VisitSampleSpanBatches n consume ps c = Some r"
proof (induction "length ps" arbitrary: ps c rule: less_induct)
  case less
  show ?case
  proof (cases "ps = []")
    case True
    then show ?thesis by (simp add: VisitSampleSpanBatches.simps)
  next
    case False
    obtain r c' where r: "consume (take n ps) c = (r, c')" by (cases "consume (take n ps) c")
    have "length (drop n ps) < length ps" using False less.prems by (cases ps) auto
    then show ?thesis
      using False r less.hyps [OF _ less.prems, of "drop n ps" c']
      by (auto simp: VisitSampleSpanBatches.simps [of n consume ps c])
  qed
qed

text \<open>A consumer that folds a step over the samples and stops at the first failure.\<close>

fun fold_status :: "('a \<Rightarrow> 'c \<Rightarrow> astl_status \<times> 'c) \<Rightarrow> 'a list \<Rightarrow> 'c \<Rightarrow> astl_status \<times> 'c" where
  "fold_status f [] c = (ASTL_STATUS_SUCCESS, c)"
| "fold_status f (x # xs) c =
    (case f x c of (r, c') \<Rightarrow> if r \<noteq> ASTL_STATUS_SUCCESS then (r, c') else fold_status f xs c')"

lemma fold_status_append:
  "fold_status f (xs @ ys) c =
    (case fold_status f xs c of (r, c') \<Rightarrow> if r \<noteq> ASTL_STATUS_SUCCESS then (r, c') else fold_status f ys c')"
  by (induction xs arbitrary: c) (auto split: prod.split)

interpretation fold_consumer: exact_batch_consumer "fold_status f"
  for f :: "processed_sample \<Rightarrow> 'c \<Rightarrow> astl_status \<times> 'c"
  by unfold_locales (auto simp: fold_status_append split: prod.splits if_splits)

section \<open>The in-memory visitors\<close>

definition VisitInMemoryProcessedMetricSampleBatches ::
    "nat \<Rightarrow> 'm \<Rightarrow> 't \<Rightarrow> 'd consumer \<Rightarrow> ('t, 'm, 'c) store \<Rightarrow> 'd \<Rightarrow> (astl_status \<times> 'd) option" where
  "VisitInMemoryProcessedMetricSampleBatches n m t consumer s d =
    (case processed_samples s (t, m) of
       None \<Rightarrow> Some (ASTL_STATUS_SUCCESS, d)
     | Some samples \<Rightarrow> VisitSampleSpanBatches n consumer samples d)"

record ('t, 'm) recent_samples =
  recent_target :: "'t option"
  recent_metric :: "'m option"
  recent_list :: "processed_sample list"

definition VisitRecentProcessedMetricSamples ::
    "nat \<Rightarrow> 'm option \<Rightarrow> 't option \<Rightarrow> 'd consumer \<Rightarrow> ('t, 'm) recent_samples \<Rightarrow> 'd
      \<Rightarrow> (astl_status \<times> 'd) option option" where
  "VisitRecentProcessedMetricSamples n m t consumer r d =
    (if recent_metric r \<noteq> m \<or> recent_target r \<noteq> t then None
     else Some (VisitSampleSpanBatches n consumer (recent_list r) d))"

definition RememberRecentProcessedMetricSamples ::
    "'m option \<Rightarrow> 't option \<Rightarrow> processed_sample list \<Rightarrow> ('t, 'm) recent_samples \<Rightarrow> ('t, 'm) recent_samples" where
  "RememberRecentProcessedMetricSamples m t samples r =
    \<lparr>recent_target = t, recent_metric = m, recent_list = samples\<rparr>"

definition InvalidateRecentProcessedMetricSamples :: "('t, 'm) recent_samples \<Rightarrow> ('t, 'm) recent_samples" where
  "InvalidateRecentProcessedMetricSamples r = \<lparr>recent_target = None, recent_metric = None, recent_list = []\<rparr>"

section \<open>The bounded snapshot\<close>

record snapshot =
  snap_limit :: nat
  snap_overflowed :: bool
  snap_samples :: "processed_sample list"

definition new_snapshot :: "nat \<Rightarrow> snapshot" where
  "new_snapshot limit = \<lparr>snap_limit = limit, snap_overflowed = False, snap_samples = []\<rparr>"

definition snapshot_Add :: "processed_sample list \<Rightarrow> snapshot \<Rightarrow> snapshot" where
  "snapshot_Add batch s =
    (if snap_overflowed s then s
     else if length batch > snap_limit s - length (snap_samples s)
     then s\<lparr>snap_samples := [], snap_overflowed := True\<rparr>
     else s\<lparr>snap_samples := snap_samples s @ batch\<rparr>)"

definition collecting_consumer :: "'c consumer \<Rightarrow> ('c \<times> snapshot) consumer" where
  "collecting_consumer consumer batch cs =
    (case consumer batch (fst cs) of
       (status, c') \<Rightarrow>
         (status, c', if status = ASTL_STATUS_SUCCESS then snapshot_Add batch (snd cs) else snd cs))"

definition snapshot_ok :: "processed_sample list \<Rightarrow> snapshot \<Rightarrow> bool" where
  "snapshot_ok seen s \<longleftrightarrow>
    length (snap_samples s) \<le> snap_limit s
    \<and> (if snap_overflowed s then snap_samples s = [] \<and> snap_limit s < length seen
       else snap_samples s = seen)"

lemma snapshot_ok_new [simp]: "snapshot_ok [] (new_snapshot limit)"
  by (simp add: snapshot_ok_def new_snapshot_def)

lemma snapshot_ok_Add: "snapshot_ok seen s \<Longrightarrow> snapshot_ok (seen @ batch) (snapshot_Add batch s)"
  by (auto simp: snapshot_ok_def snapshot_Add_def split: if_splits)

lemma snap_limit_Add [simp]: "snap_limit (snapshot_Add batch s) = snap_limit s"
  by (simp add: snapshot_Add_def)

section \<open>The raw sample cache\<close>

text \<open>
  The regular file at the cache path, or None: nothing is there, or something that is not a regular
  file, whose content is not modelled.
\<close>

type_synonym cache_file = "char list option"

type_synonym serializer = "raw_sample list \<Rightarrow> char list \<Rightarrow> astl_status \<times> char list"

text \<open>
  What the file system answers while a batch is appended: exists, is_regular_file or file_size set
  an error; without a regular file the path names something else; resize_file fails; remove fails on
  the file the serialiser created.
\<close>

record cache_io =
  io_status_error :: bool
  io_irregular :: bool
  io_resize_fails :: bool
  io_remove_fails :: bool

type_synonym cache_answers = "raw_sample list \<Rightarrow> cache_file \<Rightarrow> cache_io"

text \<open>
  SerializeBatchWithRollback: the serialiser opens the file for appending and creates it when
  absent; after a failure the file gets its previous length back or is removed, and when that fails
  too, it keeps what the serialiser wrote.
\<close>

definition SerializeBatchWithRollback ::
    "serializer \<Rightarrow> cache_answers \<Rightarrow> raw_sample list \<Rightarrow> cache_file \<Rightarrow> astl_status \<times> cache_file" where
  "SerializeBatchWithRollback serialize answers samples file =
    (let io = answers samples file;
         cache_was_regular = (file \<noteq> None);
         cache_existed = (cache_was_regular \<or> io_irregular io);
         previous_size = (case file of None \<Rightarrow> 0 | Some b \<Rightarrow> length b) in
     if io_status_error io then (ASTL_STATUS_INTERNAL_ERROR, file)
     else let (status, bytes) = serialize samples (case file of None \<Rightarrow> [] | Some b \<Rightarrow> b);
              written = (if cache_existed \<and> \<not> cache_was_regular then None else Some bytes) in
       if status = ASTL_STATUS_SUCCESS then (status, written)
       else if cache_was_regular
         then (status, if io_resize_fails io then written else map_option (take previous_size) written)
       else if \<not> cache_existed
         then (status, if io_remove_fails io then written else None)
       else (status, written))"

lemma SerializeBatchWithRollback_status:
  "fst (SerializeBatchWithRollback serialize answers samples file) =
    (if io_status_error (answers samples file) then ASTL_STATUS_INTERNAL_ERROR
     else fst (serialize samples (case file of None \<Rightarrow> [] | Some b \<Rightarrow> b)))"
  by (simp add: SerializeBatchWithRollback_def Let_def case_prod_beta')

record raw_cache =
  rc_pending :: "raw_sample list"
  rc_file :: cache_file

text \<open>
  The free room of the pending vector is a std::size_t subtraction.  A failure keeps the full
  batch pending, and the next call serialises it again before it takes more samples.
\<close>

definition pending_room :: "nat \<Rightarrow> nat \<Rightarrow> nat" where
  "pending_room n len = (if len \<le> n then n - len else 2 ^ 64 + n - len)"

partial_function (option) AppendCachedRawSamples ::
    "serializer \<Rightarrow> cache_answers \<Rightarrow> nat \<Rightarrow> raw_sample list \<Rightarrow> raw_cache \<Rightarrow> (astl_status \<times> raw_cache) option" where
  "AppendCachedRawSamples serialize answers n raw_samples c =
    (if raw_samples = [] then Some (ASTL_STATUS_SUCCESS, c)
     else
       let count = min (pending_room n (length (rc_pending c))) (length raw_samples);
           pending = rc_pending c @ take count raw_samples;
           rest = drop count raw_samples in
       if length pending \<noteq> n
       then AppendCachedRawSamples serialize answers n rest (c\<lparr>rc_pending := pending\<rparr>)
       else case SerializeBatchWithRollback serialize answers pending (rc_file c) of
         (status, file) \<Rightarrow>
           if status = ASTL_STATUS_SUCCESS
           then AppendCachedRawSamples serialize answers n rest (c\<lparr>rc_pending := [], rc_file := file\<rparr>)
           else Some (status, c\<lparr>rc_pending := pending, rc_file := file\<rparr>))"

section \<open>Batching changes nothing\<close>

text \<open>
  C15: whatever ASTL_SAMPLE_BATCH_SIZE says, a visit of the stored samples of a metric by a
  consumer that folds over samples terminates and gives what one pass over all of them gives.
\<close>

theorem visit_batches_total:
  "VisitInMemoryProcessedMetricSampleBatches (ResolveSampleBatchSize v) m t (fold_status f) s d
   = Some (fold_status f (stored_samples s t m) d)"
  using fold_consumer.visit_eq [of "ResolveSampleBatchSize v" f] ResolveSampleBatchSize_bounds [of v]
  by (simp add: VisitInMemoryProcessedMetricSampleBatches_def stored_samples_def split: option.split)

lemma visit_collecting:
  assumes "1 \<le> n" "snapshot_ok seen s"
    and "VisitSampleSpanBatches n (collecting_consumer consumer) ps (c, s) = Some (ASTL_STATUS_SUCCESS, c', s')"
  shows "snapshot_ok (seen @ ps) s' \<and> snap_limit s' = snap_limit s
    \<and> VisitSampleSpanBatches n consumer ps c = Some (ASTL_STATUS_SUCCESS, c')"
  using assms(2,3)
proof (induction "length ps" arbitrary: ps c s seen rule: less_induct)
  case less
  show ?case
  proof (cases "ps = []")
    case True
    then show ?thesis using less.prems by (simp add: VisitSampleSpanBatches.simps)
  next
    case False
    obtain r d where r: "consumer (take n ps) c = (r, d)" by (cases "consumer (take n ps) c")
    have ok: "r = ASTL_STATUS_SUCCESS"
      using less.prems(2) False r
      by (simp add: VisitSampleSpanBatches.simps [of n "collecting_consumer consumer"] collecting_consumer_def
          split: if_splits)
    have v: "VisitSampleSpanBatches n (collecting_consumer consumer) (drop n ps) (d, snapshot_Add (take n ps) s)
        = Some (ASTL_STATUS_SUCCESS, c', s')"
      using less.prems(2) False r ok
      by (simp add: VisitSampleSpanBatches.simps [of n "collecting_consumer consumer" ps] collecting_consumer_def)
    have len: "length (drop n ps) < length ps" using False assms(1) by (cases ps) auto
    have "snapshot_ok ((seen @ take n ps) @ drop n ps) s' \<and> snap_limit s' = snap_limit (snapshot_Add (take n ps) s)
        \<and> VisitSampleSpanBatches n consumer (drop n ps) d = Some (ASTL_STATUS_SUCCESS, c')"
      by (rule less.hyps [OF len snapshot_ok_Add [OF less.prems(1)] v])
    then show ?thesis
      using False r ok by (simp add: VisitSampleSpanBatches.simps [of n consumer ps])
  qed
qed

text \<open>
  The snapshot kept beside a successful traversal never alters the traversal; it holds
  exactly the samples delivered when they fit its limit and is empty and marked overflowed
  otherwise, never a truncated list.
\<close>

theorem snapshot_complete_or_overflowed:
  assumes "1 \<le> n"
    and "VisitSampleSpanBatches n (collecting_consumer consumer) ps (c, new_snapshot limit)
      = Some (ASTL_STATUS_SUCCESS, c', s')"
  shows "VisitSampleSpanBatches n consumer ps c = Some (ASTL_STATUS_SUCCESS, c')
    \<and> (snap_overflowed s' \<longleftrightarrow> limit < length ps)
    \<and> snap_samples s' = (if limit < length ps then [] else ps)"
proof -
  have "snapshot_ok ps s' \<and> snap_limit s' = limit
      \<and> VisitSampleSpanBatches n consumer ps c = Some (ASTL_STATUS_SUCCESS, c')"
    using visit_collecting [OF assms(1) snapshot_ok_new assms(2)] by (simp add: new_snapshot_def)
  then show ?thesis by (auto simp: snapshot_ok_def split: if_splits)
qed

theorem snapshot_complete_or_overflowed_witness:
  "snap_samples (snd (snd (the (VisitSampleSpanBatches 2
      (collecting_consumer (fold_status (\<lambda>p n. (ASTL_STATUS_SUCCESS, Suc n))))
      [\<lparr>ps_value = VU8 1, ps_timestamp = 5\<rparr>] (0 :: nat, new_snapshot 4)))))
    = [\<lparr>ps_value = VU8 1, ps_timestamp = 5\<rparr>]"
proof -
  let ?f = "fold_status (\<lambda>(p :: processed_sample) n. (ASTL_STATUS_SUCCESS, Suc n))"
  let ?ps = "[\<lparr>ps_value = VU8 1, ps_timestamp = 5\<rparr>]"
  have "VisitSampleSpanBatches 2 (collecting_consumer ?f) ?ps (0, new_snapshot 4)
      = Some (ASTL_STATUS_SUCCESS, 1, snapshot_Add ?ps (new_snapshot 4))"
    by (simp add: VisitSampleSpanBatches.simps collecting_consumer_def)
  then show ?thesis
    using snapshot_complete_or_overflowed [of 2 ?f ?ps 0 4 1 "snapshot_Add ?ps (new_snapshot 4)"] by simp
qed

section \<open>The raw cache loses nothing\<close>

text \<open>The documented behaviour of the serialiser: it only appends, and writes the whole encoding on success.\<close>

definition serializer_appends :: "serializer \<Rightarrow> (raw_sample list \<Rightarrow> char list) \<Rightarrow> bool" where
  "serializer_appends serialize encode \<longleftrightarrow>
    (\<forall>batch bytes. \<exists>tail. snd (serialize batch bytes) = bytes @ tail
      \<and> (fst (serialize batch bytes) = ASTL_STATUS_SUCCESS \<longrightarrow> tail = encode batch))"

definition cache_bytes :: "cache_file \<Rightarrow> char list" where
  "cache_bytes file = (case file of None \<Rightarrow> [] | Some b \<Rightarrow> b)"

text \<open>Nothing but a regular file is ever at the cache path; a rollback succeeds.\<close>

definition path_regular :: "cache_answers \<Rightarrow> bool" where
  "path_regular answers \<longleftrightarrow> (\<forall>batch file. \<not> io_irregular (answers batch file))"

definition rolls_back :: "cache_answers \<Rightarrow> bool" where
  "rolls_back answers \<longleftrightarrow> (\<forall>batch file. \<not> io_resize_fails (answers batch file) \<and> \<not> io_remove_fails (answers batch file))"

lemma SerializeBatchWithRollback_cases:
  assumes "serializer_appends serialize encode" "path_regular answers"
    and "SerializeBatchWithRollback serialize answers samples file = (status, file')"
  shows "if status = ASTL_STATUS_SUCCESS then cache_bytes file' = cache_bytes file @ encode samples
    else (\<exists>partial. cache_bytes file' = cache_bytes file @ partial) \<and> (rolls_back answers \<longrightarrow> file' = file)"
proof -
  obtain tail where "snd (serialize samples (cache_bytes file)) = cache_bytes file @ tail"
      "fst (serialize samples (cache_bytes file)) = ASTL_STATUS_SUCCESS \<longrightarrow> tail = encode samples"
    using assms(1) unfolding serializer_appends_def by blast
  then show ?thesis
    using assms(2,3)
    by (cases "serialize samples (cache_bytes file)")
      (auto simp: SerializeBatchWithRollback_def cache_bytes_def path_regular_def rolls_back_def Let_def
        split: option.splits if_splits)
qed

text \<open>What one call has done with the samples it was given.\<close>

definition cache_accounts ::
    "(raw_sample list \<Rightarrow> char list) \<Rightarrow> cache_answers \<Rightarrow> nat \<Rightarrow> raw_sample list \<Rightarrow> raw_cache \<Rightarrow> astl_status \<Rightarrow> raw_cache \<Rightarrow> bool" where
  "cache_accounts encode answers n raws c status c' \<longleftrightarrow>
    (\<exists>batches partial used lost. raws = used @ lost
      \<and> cache_bytes (rc_file c') = cache_bytes (rc_file c) @ concat (map encode batches) @ partial
      \<and> (\<forall>b\<in>set batches. length b = n)
      \<and> rc_pending c @ used = concat batches @ rc_pending c'
      \<and> length (rc_pending c') \<le> n
      \<and> (if status = ASTL_STATUS_SUCCESS then lost = [] else length (rc_pending c') = n)
      \<and> (status = ASTL_STATUS_SUCCESS \<or> rolls_back answers \<longrightarrow> partial = []))"

lemma cache_accounts_step:
  assumes "cache_accounts encode answers n rest d status c'" "raws = used @ rest"
    and "cache_bytes (rc_file d) = cache_bytes (rc_file c) @ concat (map encode bs)"
    and "\<forall>b\<in>set bs. length b = n" "rc_pending c @ used = concat bs @ rc_pending d"
  shows "cache_accounts encode answers n raws c status c'"
proof -
  obtain batches partial used' lost where a: "rest = used' @ lost"
      "cache_bytes (rc_file c') = cache_bytes (rc_file d) @ concat (map encode batches) @ partial"
      "\<forall>b\<in>set batches. length b = n" "rc_pending d @ used' = concat batches @ rc_pending c'"
      "length (rc_pending c') \<le> n"
      "if status = ASTL_STATUS_SUCCESS then lost = [] else length (rc_pending c') = n"
      "status = ASTL_STATUS_SUCCESS \<or> rolls_back answers \<longrightarrow> partial = []"
    using assms(1) unfolding cache_accounts_def by blast
  have "rc_pending c @ used @ used' = (rc_pending c @ used) @ used'" by simp
  also have "\<dots> = concat bs @ rc_pending d @ used'" by (simp only: assms(5) append_assoc)
  also have "\<dots> = concat (bs @ batches) @ rc_pending c'" by (simp only: a(4) concat_append append_assoc)
  finally have p: "rc_pending c @ used @ used' = concat (bs @ batches) @ rc_pending c'" .
  show ?thesis
    unfolding cache_accounts_def
    by (rule exI [of _ "bs @ batches"], rule exI [of _ partial], rule exI [of _ "used @ used'"], rule exI [of _ lost])
      (use a assms(2-4) p in auto)
qed

lemma AppendCachedRawSamples_accounts:
  assumes "serializer_appends serialize encode" "1 \<le> n" "length (rc_pending c) \<le> n" "path_regular answers"
  shows "\<exists>status c'. AppendCachedRawSamples serialize answers n raws c = Some (status, c')
    \<and> cache_accounts encode answers n raws c status c'"
  using assms(3)
proof (induction "2 * length raws + (if length (rc_pending c) = n then 1 else 0)" arbitrary: raws c
    rule: less_induct)
  case less
  let ?count = "min (pending_room n (length (rc_pending c))) (length raws)"
  let ?pending = "rc_pending c @ take ?count raws"
  let ?rest = "drop ?count raws"
  have len: "length ?pending \<le> n" using less.prems by (simp add: pending_room_def)
  show ?case
  proof (cases "raws = []")
    case True
    have "cache_accounts encode answers n raws c ASTL_STATUS_SUCCESS c"
      unfolding cache_accounts_def
      by (rule exI [of _ "[]"], rule exI [of _ "[]"], rule exI [of _ "[]"], rule exI [of _ "[]"]) (use True less.prems in simp)
    then show ?thesis
      using True by (simp add: AppendCachedRawSamples.simps [of serialize answers n "[]"])
  next
    case False
    show ?thesis
    proof (cases "length ?pending = n")
      case nfull: False
      have m: "2 * length ?rest + (if length ?pending = n then 1 else 0)
          < 2 * length raws + (if length (rc_pending c) = n then 1 else 0 :: nat)"
        using False nfull less.prems by (cases raws) (auto simp: pending_room_def)
      let ?d = "c\<lparr>rc_pending := ?pending\<rparr>"
      have "\<exists>status c'. AppendCachedRawSamples serialize answers n ?rest ?d = Some (status, c')
          \<and> cache_accounts encode answers n ?rest ?d status c'"
        by (rule less.hyps) (use m len in simp_all)
      then obtain status c' where d: "AppendCachedRawSamples serialize answers n ?rest ?d = Some (status, c')"
          "cache_accounts encode answers n ?rest ?d status c'" by blast
      have "AppendCachedRawSamples serialize answers n raws c = AppendCachedRawSamples serialize answers n ?rest ?d"
        using False nfull by (subst AppendCachedRawSamples.simps) (simp add: Let_def)
      moreover have "cache_accounts encode answers n raws c status c'"
        by (rule cache_accounts_step [OF d(2), of raws "take ?count raws" c "[]"]) simp_all
      ultimately show ?thesis using d(1) by simp
    next
      case full: True
      obtain status bytes where sf: "SerializeBatchWithRollback serialize answers ?pending (rc_file c) = (status, bytes)"
        by (cases "SerializeBatchWithRollback serialize answers ?pending (rc_file c)")
      have roll: "if status = ASTL_STATUS_SUCCESS
          then cache_bytes bytes = cache_bytes (rc_file c) @ encode ?pending
          else (\<exists>partial. cache_bytes bytes = cache_bytes (rc_file c) @ partial) \<and> (rolls_back answers \<longrightarrow> bytes = rc_file c)"
        by (rule SerializeBatchWithRollback_cases [OF assms(1,4) sf])
      show ?thesis
      proof (cases "status = ASTL_STATUS_SUCCESS")
        case True
        let ?d = "c\<lparr>rc_pending := [], rc_file := bytes\<rparr>"
        have m: "2 * length ?rest + (if length ([] :: raw_sample list) = n then 1 else 0)
            < 2 * length raws + (if length (rc_pending c) = n then 1 else 0 :: nat)"
          using False full assms(2) by (cases raws) (auto simp: pending_room_def)
        have "\<exists>status c'. AppendCachedRawSamples serialize answers n ?rest ?d = Some (status, c')
            \<and> cache_accounts encode answers n ?rest ?d status c'"
          by (rule less.hyps) (use m in simp_all)
        then obtain st c' where d: "AppendCachedRawSamples serialize answers n ?rest ?d = Some (st, c')"
            "cache_accounts encode answers n ?rest ?d st c'" by blast
        have "AppendCachedRawSamples serialize answers n raws c = AppendCachedRawSamples serialize answers n ?rest ?d"
          using False full sf True by (subst AppendCachedRawSamples.simps) (simp add: Let_def)
        moreover have "cache_accounts encode answers n raws c st c'"
          by (rule cache_accounts_step [OF d(2), of raws "take ?count raws" c "[?pending]"])
            (use roll True full in simp_all)
        ultimately show ?thesis using d(1) by simp
      next
        case failed: False
        obtain partial where partial: "cache_bytes bytes = cache_bytes (rc_file c) @ partial" "rolls_back answers \<longrightarrow> partial = []"
          using roll failed by (metis append_self_conv)
        have "cache_accounts encode answers n raws c status (c\<lparr>rc_pending := ?pending, rc_file := bytes\<rparr>)"
          unfolding cache_accounts_def
          by (rule exI [of _ "[]"], rule exI [of _ partial], rule exI [of _ "take ?count raws"], rule exI [of _ ?rest])
            (use failed partial full in simp)
        moreover have "AppendCachedRawSamples serialize answers n raws c
            = Some (status, c\<lparr>rc_pending := ?pending, rc_file := bytes\<rparr>)"
          using False full sf failed by (subst AppendCachedRawSamples.simps) (simp add: Let_def)
        ultimately show ?thesis by simp
      qed
    qed
  qed
qed

text \<open>
  C14: samples are appended to a cache with at most a batch pending, by a serialiser that only
  appends to the file and has written the batch's encoding when it succeeds, and nothing but a
  regular file is ever at the cache path.  AppendCachedRawSamples returns for every input.  The file
  grows by whole batches of the configured size, their samples followed by the pending ones are the
  samples taken, in order, at most one batch stays pending, and no sample is lost unless appending
  fails.  A failure leaves a full batch pending, and no partial bytes in the file unless its rollback
  fails too.
\<close>

theorem raw_cache_lossless:
  assumes "serializer_appends serialize encode" "path_regular answers"
    and "n = ResolveSampleBatchSize v" "length (rc_pending c) \<le> n"
  shows "\<exists>status c'. AppendCachedRawSamples serialize answers n raws c = Some (status, c')
    \<and> (\<exists>batches partial used lost. raws = used @ lost
      \<and> cache_bytes (rc_file c') = cache_bytes (rc_file c) @ concat (map encode batches) @ partial
      \<and> (\<forall>b\<in>set batches. length b = n)
      \<and> rc_pending c @ used = concat batches @ rc_pending c'
      \<and> length (rc_pending c') \<le> n
      \<and> (if status = ASTL_STATUS_SUCCESS then lost = [] else length (rc_pending c') = n)
      \<and> (status = ASTL_STATUS_SUCCESS \<or> rolls_back answers \<longrightarrow> partial = []))"
proof -
  have "1 \<le> n" using assms(3) ResolveSampleBatchSize_bounds [of v] by simp
  then show ?thesis
    using AppendCachedRawSamples_accounts [OF assms(1) _ assms(4,2)] by (simp add: cache_accounts_def)
qed

theorem raw_cache_lossless_witness:
  "\<exists>status c'. AppendCachedRawSamples (\<lambda>batch bytes. (ASTL_STATUS_SUCCESS, bytes @ replicate (length batch) CHR ''x''))
    (\<lambda>batch file. \<lparr>io_status_error = False, io_irregular = False, io_resize_fails = True, io_remove_fails = True\<rparr>)
    (ResolveSampleBatchSize ''2'') [PauseMarker 1, ResumeMarker 2, PauseMarker 3] \<lparr>rc_pending = [], rc_file = None\<rparr>
    = Some (status, c')"
proof -
  have "serializer_appends (\<lambda>batch bytes. (ASTL_STATUS_SUCCESS, bytes @ replicate (length batch) CHR ''x''))
      (\<lambda>batch. replicate (length batch) CHR ''x'')"
    by (simp add: serializer_appends_def)
  from raw_cache_lossless [OF this _ refl, of "\<lambda>batch file. \<lparr>io_status_error = False, io_irregular = False,
      io_resize_fails = True, io_remove_fails = True\<rparr>" "\<lparr>rc_pending = [], rc_file = None\<rparr>" "''2''"
      "[PauseMarker 1, ResumeMarker 2, PauseMarker 3]"]
  show ?thesis by (auto simp: path_regular_def)
qed

end
