(* ===== verification/Metrics.thy ===== *)
theory Metrics
  imports Samples Formula Ordered_Map
begin

text \<open>
  The metrics of src/impl/metric that process one raw sample at a time: raw_metric.cpp,
  sampled_value_metric.cpp, delta_metric.cpp, rate_metric.cpp, event_metric.cpp and
  finite_set_metric.cpp, with the part of common/metric_config.hpp they read.  An operation
  takes the metric's fields and the state of the sink and returns the status with both; the log
  files and the mutexes are left out.  IsArithmetic holds of every alternative of AstlValue, so
  that its guards are not branches of the model.
\<close>

section \<open>Configuration\<close>

record metric_config =
  mc_id :: string
  mc_name :: string
  mc_value_type :: astl_value_type
  mc_input_value_type :: astl_value_type
  mc_formula :: any_formula

definition MetricConfig ::
    "string \<Rightarrow> astl_value_type \<Rightarrow> any_formula \<Rightarrow> astl_value_type \<Rightarrow> string \<Rightarrow> metric_config" where
  "MetricConfig name vtype formula input_type metric_id =
    \<lparr>mc_id = (if metric_id = [] then name else metric_id), mc_name = name, mc_value_type = vtype,
     mc_input_value_type = (if input_type = ASTL_VALUE_UNKNOWN then vtype else input_type),
     mc_formula = formula\<rparr>"

definition CheckSampleValueType :: "metric_config \<Rightarrow> normalized_sample \<Rightarrow> astl_status" where
  "CheckSampleValueType cfg raw =
    (if snd (ToAstlUnionValue (ns_value raw)) \<noteq> mc_input_value_type cfg
     then ASTL_STATUS_METRIC_RECEIVED_INVALID_SAMPLE else ASTL_STATUS_SUCCESS)"

section \<open>Running minimum and maximum\<close>

definition std_min :: "astl_value \<Rightarrow> astl_value \<Rightarrow> astl_value" where
  "std_min a b = (if AstlValue_less b a then b else a)"

definition std_max :: "astl_value \<Rightarrow> astl_value \<Rightarrow> astl_value" where
  "std_max a b = (if AstlValue_less a b then b else a)"

definition update_min :: "astl_value option \<Rightarrow> astl_value \<Rightarrow> astl_value option" where
  "update_min m v = Some (case m of Some x \<Rightarrow> std_min x v | None \<Rightarrow> v)"

definition update_max :: "astl_value option \<Rightarrow> astl_value \<Rightarrow> astl_value option" where
  "update_max m v = Some (case m of Some x \<Rightarrow> std_max x v | None \<Rightarrow> v)"

section \<open>SampledValueMetric\<close>

record sampled_metric =
  sv_min :: "astl_value option"
  sv_max :: "astl_value option"
  sv_avg :: "astl_value option"
  sv_sum :: astl_value
  sv_count :: "64 word"

definition Sampled_InitializeSamples :: "metric_config \<Rightarrow> sampled_metric \<Rightarrow> sampled_metric" where
  "Sampled_InitializeSamples cfg m =
    \<lparr>sv_min = None, sv_max = None,
     sv_avg = (case FromZero (mc_value_type cfg) of Inr z \<Rightarrow> Some z | Inl _ \<Rightarrow> None),
     sv_sum = (case FromUnionPromoting (mc_value_type cfg) of Inr z \<Rightarrow> z | Inl _ \<Rightarrow> sv_sum m),
     sv_count = 0\<rparr>"

definition SampledValueMetric :: "metric_config \<Rightarrow> sampled_metric" where
  "SampledValueMetric cfg =
    Sampled_InitializeSamples cfg
      \<lparr>sv_min = None, sv_max = None, sv_avg = None, sv_sum = VU64 0, sv_count = 0\<rparr>"

definition Sampled_UpdateStatistics :: "astl_value \<Rightarrow> sampled_metric \<Rightarrow> astl_status \<times> sampled_metric" where
  "Sampled_UpdateStatistics v m =
    (let m' = m\<lparr>sv_min := update_min (sv_min m) v, sv_max := update_max (sv_max m) v\<rparr> in
     case Add v (sv_sum m) of
       Inl e \<Rightarrow> (e, m')
     | Inr s \<Rightarrow> (ASTL_STATUS_SUCCESS, m'\<lparr>sv_sum := s\<rparr>))"

definition Sampled_ReceiveRawSample ::
    "tinyexpr \<Rightarrow> metric_config \<Rightarrow> 's sink option \<Rightarrow> normalized_sample \<Rightarrow> sampled_metric \<times> 's
      \<Rightarrow> astl_status \<times> sampled_metric \<times> 's" where
  "Sampled_ReceiveRawSample te cfg sink raw = (\<lambda>(m, s).
    if CheckSampleValueType cfg raw \<noteq> ASTL_STATUS_SUCCESS then (CheckSampleValueType cfg raw, m, s)
    else case ApplyFormula te (mc_formula cfg) (ns_value raw) of
      Inl e \<Rightarrow> (e, m, s)
    | Inr v \<Rightarrow>
        let m' = snd (Sampled_UpdateStatistics v m) in
        (ASTL_STATUS_SUCCESS, m'\<lparr>sv_count := sv_count m' + 1\<rparr>,
         snd (SinkProcessedSample sink \<lparr>ps_value = v, ps_timestamp = ns_timestamp raw\<rparr> s)))"

definition Sampled_Reset :: "metric_config \<Rightarrow> sampled_metric \<Rightarrow> sampled_metric" where
  "Sampled_Reset cfg m = Sampled_InitializeSamples cfg m"

text \<open>A failing division is only logged.\<close>

definition Sampled_Summarize :: "sampled_metric \<Rightarrow> astl_status \<times> sampled_metric" where
  "Sampled_Summarize m =
    (if sv_count m = 0 then (ASTL_STATUS_SUCCESS, m)
     else case Divide_u64 (sv_sum m) (sv_count m) of
       Inl e \<Rightarrow> (ASTL_STATUS_SUCCESS, m)
     | Inr a \<Rightarrow> (ASTL_STATUS_SUCCESS, m\<lparr>sv_avg := Some a\<rparr>))"

section \<open>DeltaMetric\<close>

record delta_metric =
  dm_previous :: "normalized_sample option"
  dm_min :: "astl_value option"
  dm_max :: "astl_value option"
  dm_avg :: "astl_value option"
  dm_sum :: astl_value
  dm_count :: "64 word"

definition Delta_InitializeSamples :: "metric_config \<Rightarrow> delta_metric \<Rightarrow> delta_metric" where
  "Delta_InitializeSamples cfg m =
    \<lparr>dm_previous = None, dm_min = None, dm_max = None,
     dm_avg = (case FromZero (mc_value_type cfg) of Inr z \<Rightarrow> Some z | Inl _ \<Rightarrow> None),
     dm_sum = (case FromUnionPromoting (mc_value_type cfg) of Inr z \<Rightarrow> z | Inl _ \<Rightarrow> dm_sum m),
     dm_count = 0\<rparr>"

definition DeltaMetric :: "metric_config \<Rightarrow> delta_metric" where
  "DeltaMetric cfg =
    Delta_InitializeSamples cfg
      \<lparr>dm_previous = None, dm_min = None, dm_max = None, dm_avg = None, dm_sum = VU64 0, dm_count = 0\<rparr>"

definition CalculateDelta :: "astl_value \<Rightarrow> astl_value \<Rightarrow> astl_value result" where
  "CalculateDelta current previous = Subtract current previous"

definition UpdateDeltaStatistics :: "astl_value \<Rightarrow> delta_metric \<Rightarrow> astl_status \<times> delta_metric" where
  "UpdateDeltaStatistics d m =
    (let m' = m\<lparr>dm_min := update_min (dm_min m) d, dm_max := update_max (dm_max m) d,
                dm_count := dm_count m + 1\<rparr> in
     case Add d (dm_sum m) of
       Inl e \<Rightarrow> (e, m')
     | Inr s \<Rightarrow> (ASTL_STATUS_SUCCESS, m'\<lparr>dm_sum := s\<rparr>))"

text \<open>The delta is sunk before the statistics; their failure keeps the previous sample.\<close>

definition Delta_ReceiveRawSample ::
    "tinyexpr \<Rightarrow> metric_config \<Rightarrow> 's sink option \<Rightarrow> normalized_sample \<Rightarrow> delta_metric \<times> 's
      \<Rightarrow> astl_status \<times> delta_metric \<times> 's" where
  "Delta_ReceiveRawSample te cfg sink raw = (\<lambda>(m, s).
    if CheckSampleValueType cfg raw \<noteq> ASTL_STATUS_SUCCESS then (CheckSampleValueType cfg raw, m, s)
    else case ApplyFormula te (mc_formula cfg) (ns_value raw) of
      Inl e \<Rightarrow> (e, m, s)
    | Inr v \<Rightarrow>
       (case dm_previous m of
          None \<Rightarrow> (ASTL_STATUS_SUCCESS, m\<lparr>dm_previous := Some (raw\<lparr>ns_value := v\<rparr>)\<rparr>, s)
        | Some prev \<Rightarrow>
           (case CalculateDelta v (ns_value prev) of
              Inl e \<Rightarrow> (e, m, s)
            | Inr d \<Rightarrow>
                let s' = snd (SinkProcessedSample sink \<lparr>ps_value = d, ps_timestamp = ns_timestamp raw\<rparr> s);
                    (status, m') = UpdateDeltaStatistics d m in
                if status \<noteq> ASTL_STATUS_SUCCESS then (status, m', s')
                else (ASTL_STATUS_SUCCESS, m'\<lparr>dm_previous := Some (raw\<lparr>ns_value := v\<rparr>)\<rparr>, s'))))"

definition Delta_ProcessPauseSample :: "int \<Rightarrow> delta_metric \<Rightarrow> astl_status \<times> delta_metric" where
  "Delta_ProcessPauseSample t m = (ASTL_STATUS_SUCCESS, m\<lparr>dm_previous := None\<rparr>)"

definition Delta_Reset :: "metric_config \<Rightarrow> delta_metric \<Rightarrow> delta_metric" where
  "Delta_Reset cfg m = Delta_InitializeSamples cfg m"

definition Delta_Summarize :: "delta_metric \<Rightarrow> astl_status \<times> delta_metric" where
  "Delta_Summarize m =
    (if dm_count m = 0 then (ASTL_STATUS_SUCCESS, m)
     else case Divide_u64 (dm_sum m) (dm_count m) of
       Inl e \<Rightarrow> (ASTL_STATUS_SUCCESS, m)
     | Inr a \<Rightarrow> (ASTL_STATUS_SUCCESS, m\<lparr>dm_avg := Some a\<rparr>))"

section \<open>RateMetric\<close>

text \<open>
  A RateMetric is a DeltaMetric with its own statistics.  It inherits Reset, so that a reset
  keeps the rate statistics.
\<close>

record rate_metric =
  rm_base :: delta_metric
  rm_min :: "fp option"
  rm_max :: "fp option"
  rm_avg :: "fp option"
  rm_sum :: fp
  rm_count :: "64 word"

definition RateMetric :: "metric_config \<Rightarrow> rate_metric" where
  "RateMetric cfg =
    \<lparr>rm_base = DeltaMetric cfg, rm_min = None, rm_max = None, rm_avg = None, rm_sum = FZero False, rm_count = 0\<rparr>"

text \<open>duration_cast to microseconds truncates towards zero; to double seconds it divides by 1e6.\<close>

definition time_interval_us :: "int \<Rightarrow> int \<Rightarrow> int" where
  "time_interval_us now before = (now - before) sdiv 1000"

definition CalculateRate :: "astl_value \<Rightarrow> int \<Rightarrow> astl_value result" where
  "CalculateRate d us =
    Divide_f64 d (fp_div binary64 (fp_of_int binary64 us) (fp_of_int binary64 1000000))"

definition UpdateRateStatistics :: "fp \<Rightarrow> rate_metric \<Rightarrow> astl_status \<times> rate_metric" where
  "UpdateRateStatistics r m =
    (ASTL_STATUS_SUCCESS,
     m\<lparr>rm_min := Some (case rm_min m of Some x \<Rightarrow> fp_min x r | None \<Rightarrow> r),
       rm_max := Some (case rm_max m of Some x \<Rightarrow> fp_max x r | None \<Rightarrow> r),
       rm_sum := fp_add binary64 (rm_sum m) r,
       rm_count := rm_count m + 1\<rparr>)"

definition Rate_ReceiveRawSample ::
    "tinyexpr \<Rightarrow> metric_config \<Rightarrow> 's sink option \<Rightarrow> normalized_sample \<Rightarrow> rate_metric \<times> 's
      \<Rightarrow> astl_status \<times> rate_metric \<times> 's" where
  "Rate_ReceiveRawSample te cfg sink raw = (\<lambda>(m, s).
    if CheckSampleValueType cfg raw \<noteq> ASTL_STATUS_SUCCESS then (CheckSampleValueType cfg raw, m, s)
    else case ApplyFormula te (mc_formula cfg) (ns_value raw) of
      Inl e \<Rightarrow> (e, m, s)
    | Inr v \<Rightarrow>
       let keep = (\<lambda>m. m\<lparr>rm_base := (rm_base m)\<lparr>dm_previous := Some (raw\<lparr>ns_value := v\<rparr>)\<rparr>\<rparr>) in
       (case dm_previous (rm_base m) of
          None \<Rightarrow> (ASTL_STATUS_SUCCESS, keep m, s)
        | Some prev \<Rightarrow>
           (case CalculateDelta v (ns_value prev) of
              Inl e \<Rightarrow> (e, m, s)
            | Inr d \<Rightarrow>
               let us = time_interval_us (ns_timestamp raw) (ns_timestamp prev) in
               if us = 0 then (ASTL_STATUS_METRIC_RECEIVED_INVALID_SAMPLE, m, s)
               else (case CalculateRate d us of
                  Inl e \<Rightarrow> (e, m, s)
                | Inr r \<Rightarrow>
                    let s' = snd (SinkProcessedSample sink \<lparr>ps_value = r, ps_timestamp = ns_timestamp raw\<rparr> s);
                        (status, m') = UpdateRateStatistics (fp_part r) m in
                    if status \<noteq> ASTL_STATUS_SUCCESS then (status, m', s')
                    else (ASTL_STATUS_SUCCESS, keep m', s')))))"

definition Rate_Reset :: "metric_config \<Rightarrow> rate_metric \<Rightarrow> rate_metric" where
  "Rate_Reset cfg m = m\<lparr>rm_base := Delta_Reset cfg (rm_base m)\<rparr>"

definition Rate_ProcessPauseSample :: "int \<Rightarrow> rate_metric \<Rightarrow> astl_status \<times> rate_metric" where
  "Rate_ProcessPauseSample t m =
    (case Delta_ProcessPauseSample t (rm_base m) of (status, b) \<Rightarrow> (status, m\<lparr>rm_base := b\<rparr>))"

definition Rate_Summarize :: "rate_metric \<Rightarrow> astl_status \<times> rate_metric" where
  "Rate_Summarize m =
    (ASTL_STATUS_SUCCESS,
     if rm_count m = 0 then m
     else m\<lparr>rm_avg := Some (fp_div binary64 (rm_sum m) (fp_of_int binary64 (uint (rm_count m))))\<rparr>)"

section \<open>FiniteSetMetric\<close>

text \<open>
  The finite set is a std::set of values, kept as the keys of an ordered map; the counts are
  a std::map.  The raw value is counted, not the value the formula gives.
\<close>

record finite_set_metric =
  fs_base :: sampled_metric
  fs_total :: nat
  fs_unknown :: nat
  fs_counts :: "(astl_value \<times> nat) list"

definition FiniteSetMetric :: "metric_config \<Rightarrow> finite_set_metric" where
  "FiniteSetMetric cfg =
    \<lparr>fs_base = SampledValueMetric cfg, fs_total = 0, fs_unknown = 0, fs_counts = []\<rparr>"

definition IsInFiniteSet :: "(astl_value \<times> 'i) list \<Rightarrow> astl_value \<Rightarrow> bool" where
  "IsInFiniteSet finite_set v \<longleftrightarrow> om_lookup AstlValue_less finite_set v \<noteq> None"

definition UpdateFiniteSetStatistics ::
    "(astl_value \<times> 'i) list \<Rightarrow> normalized_sample \<Rightarrow> finite_set_metric \<Rightarrow> astl_status \<times> finite_set_metric" where
  "UpdateFiniteSetStatistics finite_set raw m =
    (let m' = m\<lparr>fs_total := Suc (fs_total m)\<rparr>;
         count = om_update AstlValue_less (ns_value raw) 0 Suc (fs_counts m) in
     (ASTL_STATUS_SUCCESS,
      if IsInFiniteSet finite_set (ns_value raw) then m'\<lparr>fs_counts := count\<rparr>
      else m'\<lparr>fs_unknown := Suc (fs_unknown m), fs_counts := count\<rparr>))"

definition FiniteSet_ReceiveRawSample ::
    "tinyexpr \<Rightarrow> metric_config \<Rightarrow> (astl_value \<times> 'i) list \<Rightarrow> 's sink option \<Rightarrow> normalized_sample
      \<Rightarrow> finite_set_metric \<times> 's \<Rightarrow> astl_status \<times> finite_set_metric \<times> 's" where
  "FiniteSet_ReceiveRawSample te cfg finite_set sink raw = (\<lambda>(m, s).
    case Sampled_ReceiveRawSample te cfg sink raw (fs_base m, s) of
      (status, b, s') \<Rightarrow>
        if status \<noteq> ASTL_STATUS_SUCCESS then (status, m\<lparr>fs_base := b\<rparr>, s')
        else (case UpdateFiniteSetStatistics finite_set raw (m\<lparr>fs_base := b\<rparr>) of
                (status', m') \<Rightarrow> (status', m', s')))"

definition FiniteSet_Reset :: "metric_config \<Rightarrow> finite_set_metric \<Rightarrow> finite_set_metric" where
  "FiniteSet_Reset cfg m =
    \<lparr>fs_base = Sampled_Reset cfg (fs_base m), fs_total = 0, fs_unknown = 0, fs_counts = []\<rparr>"

definition FiniteSet_Summarize :: "finite_set_metric \<Rightarrow> astl_status \<times> finite_set_metric" where
  "FiniteSet_Summarize m =
    (case Sampled_Summarize (fs_base m) of (status, b) \<Rightarrow> (status, m\<lparr>fs_base := b\<rparr>))"

section \<open>EventMetric\<close>

text \<open>
  ToStringValue: decimal digits for the unsigned alternatives, true and false for bool, and six
  decimals, rounded to nearest even, for the floating ones.
\<close>

definition show_fixed6 :: "fp \<Rightarrow> string" where
  "show_fixed6 x =
    (case x of
       FNaN \<Rightarrow> ''nan''
     | FInf neg \<Rightarrow> (if neg then ''-inf'' else ''inf'')
     | _ \<Rightarrow>
        let n = nat (rne (\<bar>fp_val x\<bar> * 1000000));
            frac = show_nat (n mod 1000000) in
        (if fp_neg_bit x then ''-'' else []) @ show_nat (n div 1000000) @ ''.''
        @ replicate (6 - length frac) CHR ''0'' @ frac)"

fun ToStringValue :: "astl_value \<Rightarrow> string" where
  "ToStringValue (VBool b) = (if b then ''true'' else ''false'')"
| "ToStringValue (VF32 x) = show_fixed6 x"
| "ToStringValue (VF64 x) = show_fixed6 x"
| "ToStringValue v = show_nat (int_part v)"

type_synonym event_metric = "string \<Rightarrow> nat option"

definition Event_Initialize :: "event_metric \<Rightarrow> event_metric" where
  "Event_Initialize counts = (\<lambda>_. None)"

definition CheckAndStoreEvent ::
    "'s sink option \<Rightarrow> normalized_sample \<Rightarrow> event_metric \<times> 's \<Rightarrow> astl_status \<times> event_metric \<times> 's" where
  "CheckAndStoreEvent sink raw = (\<lambda>(counts, s).
    let event_str = ToStringValue (ns_value raw);
        s' = snd (SinkProcessedSample sink \<lparr>ps_value = ns_value raw, ps_timestamp = ns_timestamp raw\<rparr> s) in
    (ASTL_STATUS_SUCCESS,
     counts(event_str := Some (Suc (case counts event_str of None \<Rightarrow> 0 | Some n \<Rightarrow> n))), s'))"

definition Event_ReceiveRawSample ::
    "'s sink option \<Rightarrow> normalized_sample \<Rightarrow> event_metric \<times> 's \<Rightarrow> astl_status \<times> event_metric \<times> 's" where
  "Event_ReceiveRawSample sink raw = CheckAndStoreEvent sink raw"

definition Event_Reset :: "event_metric \<Rightarrow> event_metric" where
  "Event_Reset counts = Event_Initialize counts"

section \<open>Runs of a metric\<close>

fun receive_all :: "('r \<Rightarrow> 'x \<Rightarrow> astl_status \<times> 'x) \<Rightarrow> 'r list \<Rightarrow> 'x \<Rightarrow> astl_status list \<times> 'x" where
  "receive_all f [] x = ([], x)"
| "receive_all f (r # rs) x =
    (case f r x of (status, x') \<Rightarrow> case receive_all f rs x' of (statuses, x'') \<Rightarrow> (status # statuses, x''))"

text \<open>pv gives the processed value of a sample the metric accepts.\<close>

definition accepted ::
    "tinyexpr \<Rightarrow> metric_config \<Rightarrow> (normalized_sample \<Rightarrow> astl_value) \<Rightarrow> normalized_sample \<Rightarrow> bool" where
  "accepted te cfg pv raw \<longleftrightarrow>
    CheckSampleValueType cfg raw = ASTL_STATUS_SUCCESS \<and> ApplyFormula te (mc_formula cfg) (ns_value raw) = Inr (pv raw)"

definition out_sample :: "(normalized_sample \<Rightarrow> astl_value) \<Rightarrow> normalized_sample \<Rightarrow> processed_sample" where
  "out_sample pv raw = \<lparr>ps_value = pv raw, ps_timestamp = ns_timestamp raw\<rparr>"

lemma update_simps [simp]:
  "update_min None v = Some v" "update_min (Some x) v = Some (std_min x v)"
  "update_max None v = Some v" "update_max (Some x) v = Some (std_max x v)"
  by (simp_all add: update_min_def update_max_def)

lemma update_min_fold:
  assumes "vs \<noteq> []" "\<forall>v\<in>set vs. ordered_value v"
  shows "\<exists>m\<in>set vs. foldl update_min None vs = Some m \<and> (\<forall>v\<in>set vs. \<not> AstlValue_less v m)"
  using assms
proof (induction vs rule: rev_nonempty_induct)
  case (single x)
  then show ?case by (simp add: value_keys.irrefl)
next
  case (snoc x xs)
  then obtain m where m: "m \<in> set xs" "foldl update_min None xs = Some m" "\<forall>v\<in>set xs. \<not> AstlValue_less v m"
    by auto
  show ?case
  proof (cases "AstlValue_less x m")
    case True
    then have "\<forall>v\<in>set xs. \<not> AstlValue_less v x" using m(3) AstlValue_less_trans by blast
    then show ?thesis using True m by (simp add: std_min_def value_keys.irrefl)
  next
    case False
    then show ?thesis using m by (simp add: std_min_def)
  qed
qed

lemma update_max_fold:
  assumes "vs \<noteq> []" "\<forall>v\<in>set vs. ordered_value v"
  shows "\<exists>m\<in>set vs. foldl update_max None vs = Some m \<and> (\<forall>v\<in>set vs. \<not> AstlValue_less m v)"
  using assms
proof (induction vs rule: rev_nonempty_induct)
  case (single x)
  then show ?case by (simp add: value_keys.irrefl)
next
  case (snoc x xs)
  then obtain m where m: "m \<in> set xs" "foldl update_max None xs = Some m" "\<forall>v\<in>set xs. \<not> AstlValue_less m v"
    by auto
  show ?case
  proof (cases "AstlValue_less m x")
    case True
    then have "\<forall>v\<in>set xs. \<not> AstlValue_less x v" using m(3) AstlValue_less_trans by blast
    then show ?thesis using True m by (simp add: std_max_def value_keys.irrefl)
  next
    case False
    then show ?thesis using m by (simp add: std_max_def)
  qed
qed

lemma integral_ordered [simp]: "\<not> is_floating v \<Longrightarrow> ordered_value v"
  by (cases v) (simp_all add: ordered_value_def)

lemma AstlValue_less_integral:
  "\<not> is_floating v \<Longrightarrow> \<not> is_floating w \<Longrightarrow> AstlValue_less v w \<longleftrightarrow> int_part v < int_part w"
  by (simp add: AstlValue_less_def AstlValue_cmp_def)

lemma Add_VU64_right:
  assumes "\<not> is_floating v"
  shows "Add v (VU64 s) =
    (if unat s + int_part v < 2 ^ 64 then Inr (VU64 (of_nat (unat s + int_part v)))
     else Inl ASTL_STATUS_METRIC_OVERFLOW_DETECTED)"
proof -
  have "max (value_sizeof v) (value_sizeof (VU64 s)) = 8"
    using value_sizeof_widths [of v] by auto
  then show ?thesis
    using Add_integral_eq [of v "VU64 s" 8] assms by (simp add: mk_int_def add.commute)
qed

lemma Add_of_nat_sum:
  assumes "\<not> is_floating v" "n + int_part v < 2 ^ 64"
  shows "Add v (VU64 (of_nat n)) = Inr (VU64 (of_nat (n + int_part v)))"
proof -
  have "unat (of_nat n :: 64 word) = n" by (rule unat_of_nat_less) (use assms(2) in simp)
  then show ?thesis using assms by (simp add: Add_VU64_right)
qed

section \<open>Sampled values: statistics and forwarding\<close>

definition sampled_step :: "astl_value \<Rightarrow> sampled_metric \<Rightarrow> sampled_metric" where
  "sampled_step v m = (let m' = snd (Sampled_UpdateStatistics v m) in m'\<lparr>sv_count := sv_count m' + 1\<rparr>)"

lemma Sampled_accepted:
  "accepted te cfg pv raw \<Longrightarrow>
   Sampled_ReceiveRawSample te cfg sink raw (m, s) =
    (ASTL_STATUS_SUCCESS, sampled_step (pv raw) m, snd (SinkProcessedSample sink (out_sample pv raw) s))"
  by (simp add: Sampled_ReceiveRawSample_def accepted_def sampled_step_def out_sample_def Let_def)

context processed_sink
begin

lemma sampled_all:
  "\<forall>raw\<in>set raws. accepted te cfg pv raw \<Longrightarrow> ready s \<Longrightarrow>
   \<exists>s'. receive_all (Sampled_ReceiveRawSample te cfg (Some sink)) raws (m, s)
       = (replicate (length raws) ASTL_STATUS_SUCCESS, foldl (\<lambda>m v. sampled_step v m) m (map pv raws), s')
     \<and> log s' = log s @ map (out_sample pv) raws \<and> ready s'"
proof (induction raws arbitrary: m s)
  case (Cons raw raws)
  obtain s1 where s1: "sink (out_sample pv raw) s = (ASTL_STATUS_SUCCESS, s1)"
      "log s1 = log s @ [out_sample pv raw]" "ready s1"
    using sink_ready [OF Cons.prems(2)] .
  show ?case
    using Cons.IH [of s1 "sampled_step (pv raw) m"] Cons.prems s1
    by (auto simp: Sampled_accepted SinkProcessedSample_def)
qed simp

end

lemma sampled_fold_integral:
  assumes "\<forall>v\<in>set vs. \<not> is_floating v" "sum_list (map int_part vs) < 2 ^ 64"
    and "sv_sum m = VU64 0" "sv_min m = None" "sv_max m = None" "sv_count m = 0"
  shows "sv_min (foldl (\<lambda>m v. sampled_step v m) m vs) = foldl update_min None vs
    \<and> sv_max (foldl (\<lambda>m v. sampled_step v m) m vs) = foldl update_max None vs
    \<and> sv_sum (foldl (\<lambda>m v. sampled_step v m) m vs) = VU64 (of_nat (sum_list (map int_part vs)))
    \<and> sv_count (foldl (\<lambda>m v. sampled_step v m) m vs) = of_nat (length vs)"
  using assms(1,2)
proof (induction vs rule: rev_induct)
  case Nil
  then show ?case using assms(3-6) by simp
next
  case (snoc v vs)
  then show ?case
    using Add_of_nat_sum [of v "sum_list (map int_part vs)"]
    by (simp add: sampled_step_def Sampled_UpdateStatistics_def Let_def)
qed

lemma of_nat_64_nonzero:
  assumes "0 < k" "k < 2 ^ 64"
  shows "(of_nat k :: 64 word) \<noteq> 0"
proof
  assume "(of_nat k :: 64 word) = 0"
  then have "unat (of_nat k :: 64 word) = 0" by simp
  then show False using unat_of_nat_less [of k, where 'a = 64] assms by simp
qed

lemma Divide_u64_of_nat:
  assumes "n < 2 ^ 64" "0 < k" "k < 2 ^ 64"
  shows "Divide_u64 (VU64 (of_nat n)) (of_nat k) = Inr (VU64 (of_nat (n div k)))"
proof -
  have u: "unat (of_nat n :: 64 word) = n" "unat (of_nat k :: 64 word) = k"
    using assms unat_of_nat_less [of n, where 'a = 64] unat_of_nat_less [of k, where 'a = 64] by simp_all
  have "(of_nat k :: 64 word) \<noteq> 0" using assms(2,3) by (rule of_nat_64_nonzero)
  moreover have "(of_nat n :: 64 word) div of_nat k = of_nat (n div k)"
    using u by (simp add: word_arith_nat_div)
  ultimately show ?thesis by (simp add: Divide_u64_def)
qed

definition integral_type :: "astl_value_type \<Rightarrow> bool" where
  "integral_type t \<longleftrightarrow> t \<in> {ASTL_VALUE_UINT8, ASTL_VALUE_UINT16, ASTL_VALUE_UINT32, ASTL_VALUE_UINT64}"

lemma integral_sum_start:
  "integral_type t \<Longrightarrow> FromUnionPromoting t = Inr (VU64 0)"
  by (auto simp: integral_type_def FromUnionPromoting_def)

text \<open>
  A sampled-value metric of an unsigned type that is wired to the orchestrator's store and
  receives samples of its input type whose processed values are integral and sum below 2^64
  reports success for each, stores exactly the processed values with their timestamps in order,
  and after Summarize holds a minimum and a maximum among the values and their integer average.
\<close>

theorem sampled_metric_summary:
  fixes st :: "('t, 'm, 'c) store"
  assumes "integral_type (mc_value_type cfg)" "raws \<noteq> []" "length raws < 2 ^ 64" "batch_visit st = None"
    and "\<forall>raw\<in>set raws. accepted te cfg pv raw \<and> \<not> is_floating (pv raw)"
    and "sum_list (map (int_part \<circ> pv) raws) < 2 ^ 64"
  shows "\<exists>m st'. receive_all (Sampled_ReceiveRawSample te cfg (Some (store_sink t k))) raws (SampledValueMetric cfg, st)
       = (replicate (length raws) ASTL_STATUS_SUCCESS, m, st')
     \<and> stored_samples st' t k = stored_samples st t k @ map (out_sample pv) raws
     \<and> (\<exists>v\<in>pv ` set raws. sv_min m = Some v \<and> (\<forall>w\<in>pv ` set raws. int_part v \<le> int_part w))
     \<and> (\<exists>v\<in>pv ` set raws. sv_max m = Some v \<and> (\<forall>w\<in>pv ` set raws. int_part w \<le> int_part v))
     \<and> sv_avg (snd (Sampled_Summarize m))
       = Some (VU64 (of_nat (sum_list (map (int_part \<circ> pv) raws) div length raws)))"
proof -
  let ?vs = "map pv raws" and ?m0 = "SampledValueMetric cfg"
  define m where "m = foldl (\<lambda>m v. sampled_step v m) ?m0 ?vs"
  obtain st' where run: "receive_all (Sampled_ReceiveRawSample te cfg (Some (store_sink t k))) raws (?m0, st)
      = (replicate (length raws) ASTL_STATUS_SUCCESS, m, st')"
      "stored_samples st' t k = stored_samples st t k @ map (out_sample pv) raws"
    using store_log.sampled_all [of raws te cfg pv st t k ?m0] assms(4,5) by (auto simp: m_def)
  have int: "\<forall>v\<in>set ?vs. \<not> is_floating v" using assms(5) by simp
  have f: "sv_min m = foldl update_min None ?vs" "sv_max m = foldl update_max None ?vs"
      "sv_sum m = VU64 (of_nat (sum_list (map int_part ?vs)))" "sv_count m = of_nat (length ?vs)"
    using sampled_fold_integral [OF int, of ?m0] assms(1,6) integral_sum_start [of "mc_value_type cfg"]
    by (simp_all add: m_def SampledValueMetric_def Sampled_InitializeSamples_def)
  have ord: "\<forall>v\<in>set ?vs. ordered_value v" and ne: "?vs \<noteq> []" using int assms(2) by simp_all
  have less: "AstlValue_less v w \<longleftrightarrow> int_part v < int_part w" if "v \<in> set ?vs" "w \<in> set ?vs" for v w
    by (rule AstlValue_less_integral) (use int that in blast)+
  have mn: "\<exists>v\<in>set ?vs. sv_min m = Some v \<and> (\<forall>w\<in>set ?vs. int_part v \<le> int_part w)"
    using update_min_fold [OF ne ord] less by (metis f(1) not_less)
  have mx: "\<exists>v\<in>set ?vs. sv_max m = Some v \<and> (\<forall>w\<in>set ?vs. int_part w \<le> int_part v)"
    using update_max_fold [OF ne ord] less by (metis f(2) not_less)
  have cnt: "sv_count m \<noteq> 0"
    using f(4) assms(2,3) of_nat_64_nonzero [of "length raws"] by simp
  have avg: "sv_avg (snd (Sampled_Summarize m))
      = Some (VU64 (of_nat (sum_list (map int_part ?vs) div length ?vs)))"
    using cnt f(3,4) Divide_u64_of_nat [of "sum_list (map int_part ?vs)" "length ?vs"] assms(2,3,6)
    by (simp add: Sampled_Summarize_def)
  show ?thesis using run mn mx avg by (simp add: comp_def)
qed

definition identity_tinyexpr :: tinyexpr where
  "identity_tinyexpr = \<lparr>te_compiles = (\<lambda>s. True), te_evaluate = (\<lambda>s v. v)\<rparr>"

definition u32_config :: metric_config where
  "u32_config = MetricConfig ''m'' ASTL_VALUE_UINT32 Identity ASTL_VALUE_UNKNOWN []"

definition u32_sample :: "nat \<Rightarrow> int \<Rightarrow> normalized_sample" where
  "u32_sample n t = \<lparr>ns_operation_id = 1, ns_value = VU32 (of_nat n), ns_timestamp = t\<rparr>"

definition empty_store :: "(nat, nat, unit) store" where
  "empty_store = \<lparr>processed_samples = (\<lambda>_. None), batch_visit = None, consumer_state = ()\<rparr>"

lemma u32_accepted [simp]: "accepted te u32_config ns_value (u32_sample n t)"
  by (simp add: accepted_def CheckSampleValueType_def u32_config_def u32_sample_def MetricConfig_def)

lemma u32_simps [simp]:
  "ns_value (u32_sample n t) = VU32 (of_nat n)" "ns_timestamp (u32_sample n t) = t"
  "integral_type (mc_value_type u32_config)" "batch_visit empty_store = None"
  "stored_samples empty_store a b = []"
  by (simp_all add: u32_sample_def u32_config_def MetricConfig_def integral_type_def empty_store_def stored_samples_def)

theorem sampled_metric_summary_witness:
  "\<exists>m st'. receive_all (Sampled_ReceiveRawSample identity_tinyexpr u32_config (Some (store_sink 1 2))) [u32_sample 3 10, u32_sample 8 20]
      (SampledValueMetric u32_config, empty_store) = ([ASTL_STATUS_SUCCESS, ASTL_STATUS_SUCCESS], m, st')
     \<and> length (stored_samples st' 1 2) = 2 \<and> sv_avg (snd (Sampled_Summarize m)) = Some (VU64 5)"
proof -
  let ?raws = "[u32_sample 3 10, u32_sample 8 20]"
  obtain m st' where
      run: "receive_all (Sampled_ReceiveRawSample identity_tinyexpr u32_config (Some (store_sink 1 2))) ?raws
        (SampledValueMetric u32_config, empty_store) = (replicate (length ?raws) ASTL_STATUS_SUCCESS, m, st')"
      and st: "stored_samples st' 1 2 = stored_samples empty_store 1 2 @ map (out_sample ns_value) ?raws"
      and avg: "sv_avg (snd (Sampled_Summarize m))
        = Some (VU64 (of_nat (sum_list (map (int_part \<circ> ns_value) ?raws) div length ?raws)))"
    using sampled_metric_summary [of u32_config ?raws empty_store identity_tinyexpr ns_value 1 2] by auto
  have "sum_list (map (int_part \<circ> ns_value) ?raws) div length ?raws = 5" by (simp flip: numeral_2_eq_2)
  then have "sv_avg (snd (Sampled_Summarize m)) = Some (VU64 5)" using avg by (simp only:) simp
  moreover have "replicate (length ?raws) ASTL_STATUS_SUCCESS = [ASTL_STATUS_SUCCESS, ASTL_STATUS_SUCCESS]" by simp
  moreover have "length (stored_samples st' 1 2) = 2" using st by simp
  ultimately show ?thesis using run by (metis (no_types))
qed

section \<open>Deltas\<close>

text \<open>The history of a metric: the samples it receives and the pauses it is told of.\<close>

datatype metric_event = Sample normalized_sample | Pause int

fun Delta_event ::
    "tinyexpr \<Rightarrow> metric_config \<Rightarrow> 's sink option \<Rightarrow> metric_event \<Rightarrow> delta_metric \<times> 's
      \<Rightarrow> astl_status \<times> delta_metric \<times> 's" where
  "Delta_event te cfg sink (Sample raw) ms = Delta_ReceiveRawSample te cfg sink raw ms"
| "Delta_event te cfg sink (Pause t) ms =
    (case Delta_ProcessPauseSample t (fst ms) of (status, m) \<Rightarrow> (status, m, snd ms))"

text \<open>
  What the metric promises, for values of k bytes: the difference to the last accepted sample
  since the last pause; a value that runs backwards is refused and the last one kept.
\<close>

fun delta_spec ::
    "(normalized_sample \<Rightarrow> astl_value) \<Rightarrow> nat \<Rightarrow> nat option \<Rightarrow> metric_event list \<Rightarrow> processed_sample list" where
  "delta_spec pv k prev [] = []"
| "delta_spec pv k prev (Pause t # es) = delta_spec pv k None es"
| "delta_spec pv k None (Sample r # es) = delta_spec pv k (Some (int_part (pv r))) es"
| "delta_spec pv k (Some p) (Sample r # es) =
    (if int_part (pv r) < p then delta_spec pv k (Some p) es
     else \<lparr>ps_value = mk_int k (int_part (pv r) - p), ps_timestamp = ns_timestamp r\<rparr>
          # delta_spec pv k (Some (int_part (pv r))) es)"

definition unsigned_width :: "nat \<Rightarrow> astl_value \<Rightarrow> bool" where
  "unsigned_width k v \<longleftrightarrow> integral_type (value_type v) \<and> value_sizeof v = k"

lemma unsigned_width_simps:
  assumes "unsigned_width k v"
  shows "\<not> is_floating v" "value_type v \<noteq> ASTL_VALUE_BOOL8" "value_sizeof v = k" "k \<in> {1, 2, 4, 8}"
  using assms value_sizeof_widths [of v]
  by (cases v; simp add: unsigned_width_def integral_type_def)+

lemma unsigned_width_u32 [simp]: "unsigned_width 4 (VU32 x)"
  by (simp add: unsigned_width_def integral_type_def)

lemma CalculateDelta_width:
  assumes "unsigned_width k v" "unsigned_width k w"
  shows "CalculateDelta v w =
    (if int_part v < int_part w then Inl ASTL_STATUS_METRIC_OVERFLOW_DETECTED
     else Inr (mk_int k (int_part v - int_part w)))"
  unfolding CalculateDelta_def
  by (rule Subtract_integral_eq) (use assms unsigned_width_simps in auto)

definition previous_is :: "nat \<Rightarrow> delta_metric \<Rightarrow> nat option \<Rightarrow> bool" where
  "previous_is k m prev \<longleftrightarrow>
    (case dm_previous m of
       None \<Rightarrow> prev = None
     | Some p \<Rightarrow> unsigned_width k (ns_value p) \<and> prev = Some (int_part (ns_value p)))"

definition delta_sum :: "processed_sample list \<Rightarrow> nat" where
  "delta_sum ps = sum_list (map (int_part \<circ> ps_value) ps)"

lemma delta_sum_simps [simp]:
  "delta_sum [] = 0" "delta_sum (p # ps) = int_part (ps_value p) + delta_sum ps"
  by (simp_all add: delta_sum_def)

definition events_ok ::
    "tinyexpr \<Rightarrow> metric_config \<Rightarrow> (normalized_sample \<Rightarrow> astl_value) \<Rightarrow> nat \<Rightarrow> metric_event list \<Rightarrow> bool" where
  "events_ok te cfg pv k es \<longleftrightarrow>
    (\<forall>raw. Sample raw \<in> set es \<longrightarrow> accepted te cfg pv raw \<and> unsigned_width k (pv raw))"

lemma events_ok_Cons:
  "events_ok te cfg pv k (e # es) \<longleftrightarrow>
    (case e of Sample raw \<Rightarrow> accepted te cfg pv raw \<and> unsigned_width k (pv raw) | Pause t \<Rightarrow> True)
    \<and> events_ok te cfg pv k es"
  by (cases e) (auto simp: events_ok_def)

text \<open>One accepted sample, by the cases of the previous one.\<close>

lemma Delta_first:
  "accepted te cfg pv raw \<Longrightarrow> dm_previous m = None \<Longrightarrow>
   Delta_ReceiveRawSample te cfg sink raw (m, s) =
    (ASTL_STATUS_SUCCESS, m\<lparr>dm_previous := Some (raw\<lparr>ns_value := pv raw\<rparr>)\<rparr>, s)"
  by (simp add: Delta_ReceiveRawSample_def accepted_def)

lemma Delta_regression:
  assumes "accepted te cfg pv raw" "dm_previous m = Some p" "unsigned_width k (pv raw)"
    and "unsigned_width k (ns_value p)" "int_part (pv raw) < int_part (ns_value p)"
  shows "Delta_ReceiveRawSample te cfg sink raw (m, s) = (ASTL_STATUS_METRIC_OVERFLOW_DETECTED, m, s)"
  using assms CalculateDelta_width [of k "pv raw" "ns_value p"]
  by (simp add: Delta_ReceiveRawSample_def accepted_def)

lemma Delta_next:
  assumes "accepted te cfg pv raw" "dm_previous m = Some p" "unsigned_width k (pv raw)"
    and "unsigned_width k (ns_value p)" "\<not> int_part (pv raw) < int_part (ns_value p)"
    and "dm_sum m = VU64 (of_nat n)" "n + (int_part (pv raw) - int_part (ns_value p)) < 2 ^ 64"
  defines "d \<equiv> mk_int k (int_part (pv raw) - int_part (ns_value p))"
  shows "\<exists>m'. Delta_ReceiveRawSample te cfg sink raw (m, s) =
      (ASTL_STATUS_SUCCESS, m', snd (SinkProcessedSample sink \<lparr>ps_value = d, ps_timestamp = ns_timestamp raw\<rparr> s))
    \<and> dm_previous m' = Some (raw\<lparr>ns_value := pv raw\<rparr>)
    \<and> dm_sum m' = VU64 (of_nat (n + int_part d)) \<and> dm_count m' = dm_count m + 1
    \<and> dm_min m' = update_min (dm_min m) d \<and> dm_max m' = update_max (dm_max m) d"
proof -
  have k: "k \<in> {1, 2, 4, 8}" using unsigned_width_simps(4) [OF assms(3)] .
  have "int_part (pv raw) - int_part (ns_value p) < 2 ^ (8 * k)"
    using int_part_less_wider [of "pv raw" k] unsigned_width_simps(3) [OF assms(3)] by simp
  then have d: "int_part d = int_part (pv raw) - int_part (ns_value p)" "\<not> is_floating d"
    unfolding d_def using int_part_mk_int [OF k] by simp_all
  have "Add d (dm_sum m) = Inr (VU64 (of_nat (n + int_part d)))"
    using Add_of_nat_sum [OF d(2), of n] assms(6,7) d(1) by simp
  then show ?thesis
    using assms(1-5) CalculateDelta_width [of k "pv raw" "ns_value p"]
    by (simp add: Delta_ReceiveRawSample_def accepted_def UpdateDeltaStatistics_def Let_def flip: d_def)
qed

lemma int_part_delta:
  "unsigned_width k v \<Longrightarrow> int_part (mk_int k (int_part v - n)) = int_part v - n"
  using int_part_mk_int [of k "int_part v - n"] unsigned_width_simps [of k v] int_part_less [of v]
  by (metis diff_le_self order_le_less_trans)

context processed_sink
begin

lemma delta_all:
  assumes "events_ok te cfg pv k es" "ready s" "previous_is k m prev"
    and "dm_sum m = VU64 (of_nat n)" "n + delta_sum (delta_spec pv k prev es) < 2 ^ 64"
  shows "\<exists>m' s' statuses. receive_all (Delta_event te cfg (Some sink)) es (m, s) = (statuses, m', s')
     \<and> log s' = log s @ delta_spec pv k prev es \<and> ready s'
     \<and> dm_sum m' = VU64 (of_nat (n + delta_sum (delta_spec pv k prev es)))
     \<and> dm_count m' = dm_count m + of_nat (length (delta_spec pv k prev es))
     \<and> dm_min m' = foldl update_min (dm_min m) (map ps_value (delta_spec pv k prev es))
     \<and> dm_max m' = foldl update_max (dm_max m) (map ps_value (delta_spec pv k prev es))
     \<and> set statuses \<subseteq> {ASTL_STATUS_SUCCESS, ASTL_STATUS_METRIC_OVERFLOW_DETECTED}"
  using assms
proof (induction es arbitrary: m s prev n)
  case Nil
  then show ?case by simp
next
  case (Cons e es)
  show ?case
  proof (cases e)
    case (Pause t)
    have "previous_is k (m\<lparr>dm_previous := None\<rparr>) None" by (simp add: previous_is_def)
    then show ?thesis
      using Cons.IH [of s "m\<lparr>dm_previous := None\<rparr>" None n] Cons.prems Pause
      by (auto simp: events_ok_Cons Delta_ProcessPauseSample_def)
  next
    case (Sample raw)
    have raw: "accepted te cfg pv raw" "unsigned_width k (pv raw)" "events_ok te cfg pv k es"
      using Cons.prems(1) Sample by (simp_all add: events_ok_Cons)
    have upd: "previous_is k m' (Some (int_part (pv raw)))"
      if "dm_previous m' = Some (raw\<lparr>ns_value := pv raw\<rparr>)" for m'
      using that raw(2) by (simp add: previous_is_def)
    show ?thesis
    proof (cases "dm_previous m")
      case None
      then have prev: "prev = None" using Cons.prems(3) by (simp add: previous_is_def)
      let ?m = "m\<lparr>dm_previous := Some (raw\<lparr>ns_value := pv raw\<rparr>)\<rparr>"
      show ?thesis
        using Cons.IH [OF raw(3) Cons.prems(2) upd [of ?m], of n] Cons.prems(4,5)
        by (auto simp: Sample prev Delta_first [OF raw(1) None])
    next
      case (Some p)
      then have prev: "prev = Some (int_part (ns_value p))" "unsigned_width k (ns_value p)"
        using Cons.prems(3) by (simp_all add: previous_is_def)
      show ?thesis
      proof (cases "int_part (pv raw) < int_part (ns_value p)")
        case True
        show ?thesis
          using Cons.IH [OF raw(3) Cons.prems(2,3,4)] Cons.prems(5) True
          by (auto simp: Sample prev Delta_regression [OF raw(1) Some raw(2) prev(2) True])
      next
        case False
        let ?d = "mk_int k (int_part (pv raw) - int_part (ns_value p))"
        let ?p = "\<lparr>ps_value = ?d, ps_timestamp = ns_timestamp raw\<rparr>"
        have d: "int_part ?d = int_part (pv raw) - int_part (ns_value p)" by (rule int_part_delta [OF raw(2)])
        have tail: "delta_spec pv k prev (e # es) = ?p # delta_spec pv k (Some (int_part (pv raw))) es"
          using False by (simp add: Sample prev)
        have bound: "n + int_part ?d + delta_sum (delta_spec pv k (Some (int_part (pv raw))) es) < 2 ^ 64"
          using Cons.prems(5) by (simp add: tail add.assoc)
        obtain s1 where s1: "sink ?p s = (ASTL_STATUS_SUCCESS, s1)" "log s1 = log s @ [?p]" "ready s1"
          using sink_ready [OF Cons.prems(2)] .
        have nb: "n + (int_part (pv raw) - int_part (ns_value p)) < 2 ^ 64" using bound d by simp
        obtain m1 where m1: "Delta_ReceiveRawSample te cfg (Some sink) raw (m, s) = (ASTL_STATUS_SUCCESS, m1, s1)"
            "dm_previous m1 = Some (raw\<lparr>ns_value := pv raw\<rparr>)" "dm_sum m1 = VU64 (of_nat (n + int_part ?d))"
            "dm_count m1 = dm_count m + 1" "dm_min m1 = update_min (dm_min m) ?d" "dm_max m1 = update_max (dm_max m) ?d"
          using Delta_next [OF raw(1) Some raw(2) prev(2) False Cons.prems(4) nb, of "Some sink" s] s1(1)
          by (auto simp: SinkProcessedSample_def)
        show ?thesis
          using Cons.IH [OF raw(3) s1(3) upd [OF m1(2)] m1(3) bound] m1 s1(2) unfolding tail
          by (auto simp: Sample add.assoc)
      qed
    qed
  qed
qed

end

text \<open>
  C1: a new delta metric of an integral type, wired to the store while no sample visit is under way,
  over any history of pauses and of samples that it accepts with processed values of one unsigned
  width, so long as the deltas of the specification sum to less than 2^64: it stores exactly the
  differences the specification gives: to the last accepted value since the last pause, none across a
  pause, none for a value that runs backwards; its running sum is the sum of what it stored, its
  64-bit count their number, and every status it returns is success or the overflow status.
\<close>

theorem delta_metric_refines_spec:
  fixes st :: "('t, 'm, 'c) store"
  assumes "integral_type (mc_value_type cfg)" "batch_visit st = None" "events_ok te cfg pv w es"
    and "delta_sum (delta_spec pv w None es) < 2 ^ 64"
  shows "\<exists>m st' statuses. receive_all (Delta_event te cfg (Some (store_sink t k))) es (DeltaMetric cfg, st) = (statuses, m, st')
    \<and> stored_samples st' t k = stored_samples st t k @ delta_spec pv w None es
    \<and> dm_sum m = VU64 (of_nat (delta_sum (delta_spec pv w None es)))
    \<and> dm_count m = of_nat (length (delta_spec pv w None es))
    \<and> set statuses \<subseteq> {ASTL_STATUS_SUCCESS, ASTL_STATUS_METRIC_OVERFLOW_DETECTED}"
proof -
  have m: "previous_is w (DeltaMetric cfg) None" "dm_sum (DeltaMetric cfg) = VU64 (of_nat 0)"
      "dm_count (DeltaMetric cfg) = 0"
    using integral_sum_start [OF assms(1)]
    by (simp_all add: DeltaMetric_def Delta_InitializeSamples_def previous_is_def)
  show ?thesis
    using store_log.delta_all [OF assms(3) _ m(1,2), of st t k] assms(2,4) m(3) by auto
qed

theorem delta_metric_refines_spec_witness:
  "\<exists>m st' statuses. receive_all (Delta_event identity_tinyexpr u32_config (Some (store_sink 1 2)))
      [Sample (u32_sample 5 1), Sample (u32_sample 9 2), Pause 3, Sample (u32_sample 20 4), Sample (u32_sample 21 5)]
      (DeltaMetric u32_config, empty_store) = (statuses, m, st')
    \<and> stored_samples st' 1 2 = [\<lparr>ps_value = VU32 4, ps_timestamp = 2\<rparr>, \<lparr>ps_value = VU32 1, ps_timestamp = 5\<rparr>]"
proof -
  let ?es = "[Sample (u32_sample 5 1), Sample (u32_sample 9 2), Pause 3, Sample (u32_sample 20 4), Sample (u32_sample 21 5)]"
  have spec: "delta_spec ns_value 4 None ?es
      = [\<lparr>ps_value = VU32 4, ps_timestamp = 2\<rparr>, \<lparr>ps_value = VU32 1, ps_timestamp = 5\<rparr>]"
    by (simp add: mk_int_def)
  have "events_ok identity_tinyexpr u32_config ns_value 4 ?es"
    by (auto simp: events_ok_def)
  from delta_metric_refines_spec [OF _ _ this, of empty_store 1 2]
  show ?thesis unfolding spec by auto
qed

lemma delta_spec_Samples_sum:
  assumes "\<forall>r\<in>set raws. unsigned_width w (pv r)" "sorted (p # map (int_part \<circ> pv) raws)"
  shows "delta_sum (delta_spec pv w (Some p) (map Sample raws)) + p = last (p # map (int_part \<circ> pv) raws)
    \<and> length (delta_spec pv w (Some p) (map Sample raws)) = length raws"
  using assms
proof (induction raws arbitrary: p)
  case (Cons r raws)
  have "delta_sum (delta_spec pv w (Some (int_part (pv r))) (map Sample raws)) + int_part (pv r)
        = last (int_part (pv r) # map (int_part \<circ> pv) raws)
      \<and> length (delta_spec pv w (Some (int_part (pv r))) (map Sample raws)) = length raws"
    by (rule Cons.IH) (use Cons.prems in simp_all)
  then show ?case using Cons.prems int_part_delta [of w "pv r" p] by (simp add: comp_def)
qed simp

text \<open>
  C38: a new delta metric of an integral type, wired to the store while no sample visit is under way,
  is given the samples of a counter that never runs backwards, without a pause, and accepts them all
  with processed values of one unsigned width.  The stored deltas add up to the last value minus the
  first, there is one per interval, every value ends between the minimum and the maximum, and the
  average after Summarize is that total divided by their number.
\<close>

theorem delta_metric_telescopes:
  fixes st :: "('t, 'm, 'c) store"
  assumes "integral_type (mc_value_type cfg)" "batch_visit st = None"
    and "\<forall>r\<in>set (first # raws). accepted te cfg pv r \<and> unsigned_width w (pv r)"
    and "sorted (map (int_part \<circ> pv) (first # raws))" "raws \<noteq> []" "length raws < 2 ^ 64"
    and "rise = int_part (pv (last raws)) - int_part (pv first)"
  shows "\<exists>m st' statuses ds.
      receive_all (Delta_event te cfg (Some (store_sink t k))) (map Sample (first # raws)) (DeltaMetric cfg, st)
        = (statuses, m, st')
    \<and> stored_samples st' t k = stored_samples st t k @ ds
    \<and> length ds = length raws \<and> sum_list (map (int_part \<circ> ps_value) ds) = rise
    \<and> (\<exists>lo hi. dm_min m = Some lo \<and> dm_max m = Some hi
        \<and> (\<forall>d\<in>set ds. \<not> AstlValue_less (ps_value d) lo \<and> \<not> AstlValue_less hi (ps_value d)))
    \<and> dm_avg (snd (Delta_Summarize m)) = Some (VU64 (of_nat (rise div length raws)))"
proof -
  let ?ds = "delta_spec pv w (Some (int_part (pv first))) (map Sample raws)"
  have ok: "events_ok te cfg pv w (map Sample (first # raws))" using assms(3) by (auto simp: events_ok_def)
  have spec: "delta_spec pv w None (map Sample (first # raws)) = ?ds" by simp
  have sum: "delta_sum ?ds + int_part (pv first) = last (int_part (pv first) # map (int_part \<circ> pv) raws)"
      "length ?ds = length raws"
    using delta_spec_Samples_sum [of raws w pv "int_part (pv first)"] assms(3,4) by auto
  have tot: "delta_sum ?ds = rise" using sum(1) assms(5) by (simp add: assms(7) last_map)
  have lt: "rise < 2 ^ 64" using int_part_less_u64 [of "pv (last raws)"] by (simp add: assms(7))
  have m: "previous_is w (DeltaMetric cfg) None" "dm_sum (DeltaMetric cfg) = VU64 (of_nat 0)"
      "dm_count (DeltaMetric cfg) = 0" "dm_min (DeltaMetric cfg) = None" "dm_max (DeltaMetric cfg) = None"
    using integral_sum_start [OF assms(1)]
    by (simp_all add: DeltaMetric_def Delta_InitializeSamples_def previous_is_def)
  obtain m' st' statuses where
      run: "receive_all (Delta_event te cfg (Some (store_sink t k))) (map Sample (first # raws)) (DeltaMetric cfg, st)
        = (statuses, m', st')" "stored_samples st' t k = stored_samples st t k @ ?ds"
      and m': "dm_sum m' = VU64 (of_nat rise)" "dm_count m' = of_nat (length raws)"
        "dm_min m' = foldl update_min None (map ps_value ?ds)" "dm_max m' = foldl update_max None (map ps_value ?ds)"
    using store_log.delta_all [OF ok _ m(1,2), of st t k] assms(2) m(3-5) lt tot sum(2) unfolding spec by auto
  have ne: "map ps_value ?ds \<noteq> []" using sum(2) assms(5) by auto
  have "\<forall>d\<in>set (delta_spec pv w p es). \<not> is_floating (ps_value d)" for p es
    by (induction pv w p es rule: delta_spec.induct) simp_all
  then have ord: "\<forall>v\<in>set (map ps_value ?ds). ordered_value v" by auto
  have avg: "dm_avg (snd (Delta_Summarize m')) = Some (VU64 (of_nat (rise div length raws)))"
    using m'(1,2) Divide_u64_of_nat [OF lt, of "length raws"] of_nat_64_nonzero [of "length raws"] assms(5,6)
    by (simp add: Delta_Summarize_def)
  have "\<exists>lo hi. dm_min m' = Some lo \<and> dm_max m' = Some hi
      \<and> (\<forall>d\<in>set ?ds. \<not> AstlValue_less (ps_value d) lo \<and> \<not> AstlValue_less hi (ps_value d))"
    using update_min_fold [OF ne ord] update_max_fold [OF ne ord] unfolding m'(3,4) by auto
  then show ?thesis
    using run sum(2) tot avg by (intro exI [of _ m'] exI [of _ st'] exI [of _ statuses] exI [of _ ?ds])
      (simp add: delta_sum_def)
qed

theorem delta_metric_telescopes_witness:
  "\<exists>m st' statuses ds.
      receive_all (Delta_event identity_tinyexpr u32_config (Some (store_sink 1 2)))
        (map Sample [u32_sample 5 1, u32_sample 9 2, u32_sample 25 3]) (DeltaMetric u32_config, empty_store)
        = (statuses, m, st')
    \<and> stored_samples st' 1 2 = ds \<and> sum_list (map (int_part \<circ> ps_value) ds) = 20"
  using delta_metric_telescopes [of u32_config empty_store "u32_sample 5 1" "[u32_sample 9 2, u32_sample 25 3]"
      identity_tinyexpr ns_value 4 20 1 2]
  by (simp del: receive_all.simps One_nat_def) blast

section \<open>Rates\<close>

lemma whole_seconds:
  assumes "0 < sec" "sec * 1000000 < 2 ^ 53"
  shows "fp_div binary64 (fp_of_int binary64 (sec * 1000000)) (fp_of_int binary64 1000000) = FNum (of_int sec)"
proof -
  have r: "fp_rep binary64 (of_int sec)" using fp_rep_int [of binary64 sec] assms by simp
  have "fp_of_int binary64 (sec * 1000000) = FNum (of_int (sec * 1000000))"
    "fp_of_int binary64 1000000 = FNum 1000000"
    using fp_of_int_exact [of binary64 "sec * 1000000"] fp_of_int_exact [of binary64 1000000] assms by simp_all
  then show ?thesis using fp_of_rat_rep [OF r] assms(1) by (simp add: fp_div_def)
qed

lemma CalculateRate_whole_seconds:
  assumes "0 < sec" "sec * 1000000 < 2 ^ 53" "\<not> is_floating d" "int_part d < 2 ^ 53"
  shows "CalculateRate d (sec * 1000000) = Inr (VF64 (fp_of_rat binary64 False (of_nat (int_part d) / of_int sec)))"
proof -
  have "cast_f64 (promote_if_bool d) = fp_of_int binary64 (int (int_part d))"
    using assms(3) by (simp add: cast_f64_def)
  also have "\<dots> = (if int_part d = 0 then FZero False else FNum (of_nat (int_part d)))"
    using fp_of_int_exact [of binary64 "int (int_part d)"] assms(4) by simp
  finally have n: "cast_f64 (promote_if_bool d) = \<dots>" .
  have "\<not> fp_eq (FNum (of_int sec)) (FZero False)" using assms(1) by (simp add: fp_eq_def fp_cmp_def)
  then show ?thesis
    unfolding CalculateRate_def whole_seconds [OF assms(1,2)] Divide_f64_def n
    using assms(1) by (simp add: fp_div_def)
qed

lemma exact_quotient:
  assumes "sec dvd int n" "0 < sec" "0 < n" "n < 2 ^ 53"
  shows "fp_of_rat binary64 False (of_nat n / of_int sec) = FNum (of_int (int n div sec))"
proof -
  obtain j where j: "int n = sec * j" using assms(1) by (auto elim: dvdE)
  have div: "int n div sec = j" using j assms(2) by simp
  have pos: "0 < j" using j assms(2,3) by (metis of_nat_0_less_iff zero_less_mult_pos)
  have "j \<le> int n" using assms(2) pos by (simp add: j)
  then have rep: "fp_rep binary64 (of_int j)"
    using assms(4) pos by (intro fp_rep_int) auto
  have "(of_nat n :: rat) = of_int sec * of_int j" by (metis j of_int_mult of_int_of_nat_eq)
  then have "(of_nat n :: rat) / of_int sec = of_int j" using assms(2) by simp
  then show ?thesis using fp_of_rat_rep [OF rep] pos div by simp
qed

text \<open>
  The next sample of a rate metric.  A counter that runs backwards, or two samples in the
  same microsecond, are refused and change nothing; over whole seconds the stored rate is the
  correctly rounded quotient of the counter difference by the seconds, and exactly the quotient
  when the seconds divide it.
\<close>

theorem rate_metric_step:
  fixes st :: "('t, 'm, 'c) store"
  assumes "accepted te cfg pv raw" "unsigned_width w (pv raw)" "batch_visit st = None"
    and "dm_previous (rm_base m) = Some p" "unsigned_width w (ns_value p)"
    and "elapsed = ns_timestamp raw - ns_timestamp p" "rise = int_part (pv raw) - int_part (ns_value p)"
  shows "(int_part (pv raw) < int_part (ns_value p) \<longrightarrow>
      Rate_ReceiveRawSample te cfg (Some (store_sink t k)) raw (m, st) = (ASTL_STATUS_METRIC_OVERFLOW_DETECTED, m, st))
    \<and> (int_part (ns_value p) \<le> int_part (pv raw) \<and> 0 \<le> elapsed \<and> elapsed < 1000 \<longrightarrow>
      Rate_ReceiveRawSample te cfg (Some (store_sink t k)) raw (m, st) = (ASTL_STATUS_METRIC_RECEIVED_INVALID_SAMPLE, m, st))
    \<and> (int_part (ns_value p) \<le> int_part (pv raw) \<and> rise < 2 ^ 53
        \<and> elapsed = sec * 1000000000 \<and> 0 < sec \<and> sec * 1000000 < 2 ^ 53 \<longrightarrow>
      (\<exists>m' st'. Rate_ReceiveRawSample te cfg (Some (store_sink t k)) raw (m, st) = (ASTL_STATUS_SUCCESS, m', st')
        \<and> dm_previous (rm_base m') = Some (raw\<lparr>ns_value := pv raw\<rparr>)
        \<and> stored_samples st' t k = stored_samples st t k
            @ [\<lparr>ps_value = VF64 (fp_of_rat binary64 False (of_nat rise / of_int sec)), ps_timestamp = ns_timestamp raw\<rparr>]
        \<and> (sec dvd int rise \<and> 0 < rise \<longrightarrow>
             fp_of_rat binary64 False (of_nat rise / of_int sec) = FNum (of_int (int rise div sec)))))"
proof (intro conjI impI)
  have acc: "CheckSampleValueType cfg raw = ASTL_STATUS_SUCCESS" "ApplyFormula te (mc_formula cfg) (ns_value raw) = Inr (pv raw)"
    using assms(1) by (simp_all add: accepted_def)
  note d = CalculateDelta_width [OF assms(2,5)]
  note rcv = Rate_ReceiveRawSample_def acc assms(4) d
  {
    assume "int_part (pv raw) < int_part (ns_value p)"
    then show "Rate_ReceiveRawSample te cfg (Some (store_sink t k)) raw (m, st) = (ASTL_STATUS_METRIC_OVERFLOW_DETECTED, m, st)"
      by (simp add: rcv Let_def)
  next
    assume a: "int_part (ns_value p) \<le> int_part (pv raw) \<and> 0 \<le> elapsed \<and> elapsed < 1000"
    then have "time_interval_us (ns_timestamp raw) (ns_timestamp p) = 0"
      using assms(6) by (simp add: time_interval_us_def sdiv_pos_nonneg)
    then show "Rate_ReceiveRawSample te cfg (Some (store_sink t k)) raw (m, st) = (ASTL_STATUS_METRIC_RECEIVED_INVALID_SAMPLE, m, st)"
      using a by (simp add: rcv Let_def not_less)
  next
    assume a: "int_part (ns_value p) \<le> int_part (pv raw) \<and> rise < 2 ^ 53
        \<and> elapsed = sec * 1000000000 \<and> 0 < sec \<and> sec * 1000000 < 2 ^ 53"
    have us: "time_interval_us (ns_timestamp raw) (ns_timestamp p) = sec * 1000000"
      using assms(6) a by (simp add: time_interval_us_def sdiv_pos_nonneg)
    have di: "int_part (mk_int w rise) = rise" using int_part_delta [OF assms(2)] assms(7) by simp
    have rate: "CalculateRate (mk_int w rise) (sec * 1000000)
        = Inr (VF64 (fp_of_rat binary64 False (of_nat rise / of_int sec)))"
      using CalculateRate_whole_seconds [of sec "mk_int w rise"] a di by simp
    have exact: "fp_of_rat binary64 False (of_nat rise / of_int sec) = FNum (of_int (int rise div sec))"
      if "sec dvd int rise \<and> 0 < rise"
      by (rule exact_quotient) (use that a in auto)
    show "\<exists>m' st'. Rate_ReceiveRawSample te cfg (Some (store_sink t k)) raw (m, st) = (ASTL_STATUS_SUCCESS, m', st')
        \<and> dm_previous (rm_base m') = Some (raw\<lparr>ns_value := pv raw\<rparr>)
        \<and> stored_samples st' t k = stored_samples st t k
            @ [\<lparr>ps_value = VF64 (fp_of_rat binary64 False (of_nat rise / of_int sec)), ps_timestamp = ns_timestamp raw\<rparr>]
        \<and> (sec dvd int rise \<and> 0 < rise \<longrightarrow>
             fp_of_rat binary64 False (of_nat rise / of_int sec) = FNum (of_int (int rise div sec)))"
      using a exact rate us assms(3)
      by (simp add: rcv Let_def not_less flip: assms(7))
        (simp add: UpdateRateStatistics_def SinkProcessedSample_def sample_simps)
  }
qed

lemma Rate_Reset_keeps_statistics:
  "rm_sum (Rate_Reset cfg m) = rm_sum m \<and> rm_count (Rate_Reset cfg m) = rm_count m
   \<and> rm_min (Rate_Reset cfg m) = rm_min m \<and> rm_max (Rate_Reset cfg m) = rm_max m"
  by (simp add: Rate_Reset_def)

theorem rate_metric_step_witness:
  "\<exists>m' st'. Rate_ReceiveRawSample identity_tinyexpr u32_config (Some (store_sink 1 2)) (u32_sample 30 2000000000)
      ((RateMetric u32_config)\<lparr>rm_base := (DeltaMetric u32_config)\<lparr>dm_previous := Some (u32_sample 10 0)\<rparr>\<rparr>, empty_store)
      = (ASTL_STATUS_SUCCESS, m', st')
    \<and> stored_samples st' 1 2 = [\<lparr>ps_value = VF64 (FNum 10), ps_timestamp = 2000000000\<rparr>]"
proof -
  let ?m = "(RateMetric u32_config)\<lparr>rm_base := (DeltaMetric u32_config)\<lparr>dm_previous := Some (u32_sample 10 0)\<rparr>\<rparr>"
  from rate_metric_step [of identity_tinyexpr u32_config ns_value "u32_sample 30 2000000000" 4 empty_store ?m "u32_sample 10 0"
      2000000000 20 1 2 2]
  show ?thesis by (auto simp del: One_nat_def)
qed

section \<open>Finite sets\<close>

definition finite_set_step :: "(astl_value \<times> 'i) list \<Rightarrow> astl_value \<Rightarrow> normalized_sample \<Rightarrow> finite_set_metric \<Rightarrow> finite_set_metric" where
  "finite_set_step finite_set v raw m =
    snd (UpdateFiniteSetStatistics finite_set raw (m\<lparr>fs_base := sampled_step v (fs_base m)\<rparr>))"

lemma FiniteSet_accepted:
  "accepted te cfg pv raw \<Longrightarrow>
   FiniteSet_ReceiveRawSample te cfg finite_set sink raw (m, s) =
    (ASTL_STATUS_SUCCESS, finite_set_step finite_set (pv raw) raw m,
     snd (SinkProcessedSample sink (out_sample pv raw) s))"
  by (simp add: FiniteSet_ReceiveRawSample_def Sampled_accepted finite_set_step_def
      UpdateFiniteSetStatistics_def Let_def)

lemma finite_set_step_simps:
  "fs_total (finite_set_step finite_set v raw m) = Suc (fs_total m)"
  "fs_counts (finite_set_step finite_set v raw m) = om_update AstlValue_less (ns_value raw) 0 Suc (fs_counts m)"
  "fs_unknown (finite_set_step finite_set v raw m)
    = fs_unknown m + (if IsInFiniteSet finite_set (ns_value raw) then 0 else 1)"
  by (simp_all add: finite_set_step_def UpdateFiniteSetStatistics_def Let_def)

context processed_sink
begin

lemma finite_set_all:
  "\<forall>raw\<in>set raws. accepted te cfg pv raw \<Longrightarrow> ready s \<Longrightarrow>
   \<exists>s'. receive_all (FiniteSet_ReceiveRawSample te cfg finite_set (Some sink)) raws (m, s)
       = (replicate (length raws) ASTL_STATUS_SUCCESS, foldl (\<lambda>m r. finite_set_step finite_set (pv r) r m) m raws, s')
     \<and> log s' = log s @ map (out_sample pv) raws \<and> ready s'"
proof (induction raws arbitrary: m s)
  case (Cons raw raws)
  obtain s1 where s1: "sink (out_sample pv raw) s = (ASTL_STATUS_SUCCESS, s1)"
      "log s1 = log s @ [out_sample pv raw]" "ready s1"
    using sink_ready [OF Cons.prems(2)] .
  show ?case
    using Cons.IH [of s1 "finite_set_step finite_set (pv raw) raw m"] Cons.prems s1
    by (auto simp: FiniteSet_accepted SinkProcessedSample_def)
qed simp

end

lemma finite_set_fold:
  "fs_total (foldl (\<lambda>m r. finite_set_step F (pv r) r m) m raws) = fs_total m + length raws
   \<and> fs_unknown (foldl (\<lambda>m r. finite_set_step F (pv r) r m) m raws)
     = fs_unknown m + length (filter (\<lambda>r. \<not> IsInFiniteSet F (ns_value r)) raws)
   \<and> fs_counts (foldl (\<lambda>m r. finite_set_step F (pv r) r m) m raws)
     = foldl (\<lambda>c r. om_update AstlValue_less (ns_value r) 0 Suc c) (fs_counts m) raws"
  by (induction raws arbitrary: m) (auto simp: finite_set_step_simps)

text \<open>
  A finite-set metric counts every accepted sample once.  The entry of a value is the
  number of samples equal to it, the entries add up to the total, the unknown samples are
  those outside the configured set, and the processed values all reach the store.
\<close>

theorem finite_set_metric_counts:
  fixes st :: "('t, 'm, 'c) store"
  assumes "batch_visit st = None"
    and "\<forall>raw\<in>set raws. accepted te cfg pv raw \<and> ordered_value (ns_value raw)" "ordered_value v"
  shows "\<exists>m st'. receive_all (FiniteSet_ReceiveRawSample te cfg finite_set (Some (store_sink t k))) raws
        (FiniteSetMetric cfg, st) = (replicate (length raws) ASTL_STATUS_SUCCESS, m, st')
    \<and> stored_samples st' t k = stored_samples st t k @ map (out_sample pv) raws
    \<and> fs_total m = length raws \<and> om_total (fs_counts m) = length raws
    \<and> om_lookup AstlValue_less (fs_counts m) v
      = (let n = length (filter (\<lambda>r. AstlValue_eq v (ns_value r)) raws) in if n = 0 then None else Some n)
    \<and> fs_unknown m = length (filter (\<lambda>r. \<not> IsInFiniteSet finite_set (ns_value r)) raws)"
proof -
  define m where "m = foldl (\<lambda>m r. finite_set_step finite_set (pv r) r m) (FiniteSetMetric cfg) raws"
  let ?ks = "map ns_value raws"
  obtain st' where run: "receive_all (FiniteSet_ReceiveRawSample te cfg finite_set (Some (store_sink t k))) raws
        (FiniteSetMetric cfg, st) = (replicate (length raws) ASTL_STATUS_SUCCESS, m, st')"
      "stored_samples st' t k = stored_samples st t k @ map (out_sample pv) raws"
    using store_log.finite_set_all [of raws te cfg pv st finite_set t k "FiniteSetMetric cfg"] assms(1,2)
    by (auto simp: m_def)
  have f: "fs_total m = length raws"
      "fs_unknown m = length (filter (\<lambda>r. \<not> IsInFiniteSet finite_set (ns_value r)) raws)"
      "fs_counts m = value_keys.count_keys ?ks"
    using finite_set_fold [of finite_set pv "FiniteSetMetric cfg" raws]
    by (simp_all add: m_def FiniteSetMetric_def value_keys.count_keys_def foldl_map)
  have ok: "\<forall>k\<in>set ?ks. ordered_value k" using assms(2) by simp
  have "filter (\<lambda>k. value_keys.keys_equiv v k) ?ks = filter (\<lambda>k. AstlValue_eq v k) ?ks"
    by (rule filter_cong) (use ok assms(3) value_keys_equiv in auto)
  then have "length (filter (\<lambda>k. value_keys.keys_equiv v k) ?ks) = length (filter (\<lambda>r. AstlValue_eq v (ns_value r)) raws)"
    by (simp add: filter_map comp_def)
  then have "om_lookup AstlValue_less (fs_counts m) v
      = (let n = length (filter (\<lambda>r. AstlValue_eq v (ns_value r)) raws) in if n = 0 then None else Some n)"
    using value_keys.om_lookup_count [OF ok assms(3)] f(3) by simp
  then show ?thesis
    using run f value_keys.om_total_count [of ?ks] by (simp add: Let_def)
qed

theorem finite_set_metric_counts_witness:
  "\<exists>m st'. receive_all (FiniteSet_ReceiveRawSample identity_tinyexpr u32_config [(VU32 3, ())] (Some (store_sink 1 2)))
      [u32_sample 3 1, u32_sample 4 2, u32_sample 3 3] (FiniteSetMetric u32_config, empty_store)
      = (replicate 3 ASTL_STATUS_SUCCESS, m, st')
    \<and> om_lookup AstlValue_less (fs_counts m) (VU64 3) = Some 2 \<and> fs_unknown m = 1"
proof -
  let ?raws = "[u32_sample 3 1, u32_sample 4 2, u32_sample 3 3]"
  have n: "length (filter (\<lambda>r. AstlValue_eq (VU64 3) (ns_value r)) ?raws) = 2"
      "length (filter (\<lambda>r. \<not> IsInFiniteSet [(VU32 3, ())] (ns_value r)) ?raws) = 1"
    by (simp_all add: AstlValue_eq_def IsInFiniteSet_def AstlValue_less_integral)
  have l: "length ?raws = 3" by simp
  show ?thesis
    using finite_set_metric_counts [of empty_store ?raws identity_tinyexpr u32_config ns_value "VU64 3" "[(VU32 3, ())]" 1 2]
    unfolding n l Let_def by (simp del: receive_all.simps One_nat_def) blast
qed

section \<open>Events\<close>

text \<open>
  An event metric that is reset and then receives a list of samples stores every one of
  them unchanged and counts, for each event text, the samples that print as it.
\<close>

theorem event_metric_counts:
  fixes st :: "('t, 'm, 'c) store"
  assumes "batch_visit st = None"
  shows "\<exists>counts st'. receive_all (Event_ReceiveRawSample (Some (store_sink t k))) raws (Event_Reset old, st)
        = (replicate (length raws) ASTL_STATUS_SUCCESS, counts, st')
    \<and> stored_samples st' t k = stored_samples st t k @ map (out_sample ns_value) raws
    \<and> (\<forall>e. (case counts e of None \<Rightarrow> 0 | Some n \<Rightarrow> n) = length (filter (\<lambda>r. ToStringValue (ns_value r) = e) raws))"
proof -
  have "\<exists>counts' st'. receive_all (Event_ReceiveRawSample (Some (store_sink t k))) raws (counts, st)
        = (replicate (length raws) ASTL_STATUS_SUCCESS, counts', st')
    \<and> stored_samples st' t k = stored_samples st t k @ map (out_sample ns_value) raws
    \<and> (\<forall>e. (case counts' e of None \<Rightarrow> 0 | Some n \<Rightarrow> n)
          = (case counts e of None \<Rightarrow> 0 | Some n \<Rightarrow> n) + length (filter (\<lambda>r. ToStringValue (ns_value r) = e) raws))"
    for counts
    using assms
  proof (induction raws arbitrary: counts st)
    case (Cons raw raws)
    let ?e = "ToStringValue (ns_value raw)"
    let ?c = "counts(?e := Some (Suc (case counts ?e of None \<Rightarrow> 0 | Some n \<Rightarrow> n)))"
    let ?s = "append_samples t k [out_sample ns_value raw] st"
    have "batch_visit ?s = None" using Cons.prems by (simp add: sample_simps)
    from Cons.IH [OF this, of ?c] obtain counts' st' where ih:
        "receive_all (Event_ReceiveRawSample (Some (store_sink t k))) raws (?c, ?s)
          = (replicate (length raws) ASTL_STATUS_SUCCESS, counts', st')"
        "stored_samples st' t k = stored_samples ?s t k @ map (out_sample ns_value) raws"
        "\<And>e. (case counts' e of None \<Rightarrow> 0 | Some n \<Rightarrow> n)
          = (case ?c e of None \<Rightarrow> 0 | Some n \<Rightarrow> n) + length (filter (\<lambda>r. ToStringValue (ns_value r) = e) raws)"
      by blast
    have step: "Event_ReceiveRawSample (Some (store_sink t k)) raw (counts, st) = (ASTL_STATUS_SUCCESS, ?c, ?s)"
      using Cons.prems
      by (simp add: Event_ReceiveRawSample_def CheckAndStoreEvent_def SinkProcessedSample_def sample_simps
          out_sample_def Let_def)
    have "(case counts' e of None \<Rightarrow> 0 | Some n \<Rightarrow> n) = (case counts e of None \<Rightarrow> 0 | Some n \<Rightarrow> n)
        + length (filter (\<lambda>r. ToStringValue (ns_value r) = e) (raw # raws))" for e
      using ih(3) [of e] by (cases "e = ?e") simp_all
    then show ?case using ih(1,2) by (simp add: step sample_simps)
  qed simp
  from this [of "Event_Reset old"] show ?thesis by (simp add: Event_Reset_def Event_Initialize_def)
qed

theorem event_metric_counts_witness:
  "\<exists>counts st'. receive_all (Event_ReceiveRawSample (Some (store_sink 1 2))) [u32_sample 3 1, u32_sample 3 9]
        (Event_Reset (\<lambda>_. None), empty_store) = ([ASTL_STATUS_SUCCESS, ASTL_STATUS_SUCCESS], counts, st')
    \<and> (case counts ''3'' of None \<Rightarrow> 0 | Some n \<Rightarrow> n) = 2"
proof -
  let ?raws = "[u32_sample 3 1, u32_sample 3 9]"
  have "show_nat 3 = ''3''" by code_simp
  then have n: "length (filter (\<lambda>r. ToStringValue (ns_value r) = ''3'') ?raws) = 2" by simp
  have l: "replicate (length ?raws) ASTL_STATUS_SUCCESS = [ASTL_STATUS_SUCCESS, ASTL_STATUS_SUCCESS]" by simp
  obtain counts st' where "receive_all (Event_ReceiveRawSample (Some (store_sink 1 2))) ?raws
        (Event_Reset (\<lambda>_. None), empty_store) = (replicate (length ?raws) ASTL_STATUS_SUCCESS, counts, st')"
      "\<forall>e. (case counts e of None \<Rightarrow> 0 | Some n \<Rightarrow> n) = length (filter (\<lambda>r. ToStringValue (ns_value r) = e) ?raws)"
    using event_metric_counts [of empty_store 1 2 ?raws "\<lambda>_. None"] by (auto simp del: receive_all.simps One_nat_def)
  then show ?thesis unfolding l using n by metis
qed

end
