(* ===== verification/Residency.thy ===== *)
theory Residency
  imports Metrics "HOL-Library.AList"
begin

text \<open>
  ResidencyMetric of src/impl/metric/residency_metric.cpp: per-state counters turned into time
  and percentage, the inferred state that fills the rest of an interval, and the ordered
  delivery of a round of samples.  The unordered maps keyed by state name are partial functions;
  the two maps whose size the code reads (the states processed in the round and the pending
  samples) are association lists with distinct keys.  BuildOperations is an argument that gives
  the operation ids it allocates for a state.
\<close>

section \<open>State\<close>

record state_info =
  si_name :: string
  si_tick_frequency :: fp

record residency_config =
  rc_metric :: metric_config
  rc_states :: "state_info list"
  rc_inferred :: "string option"

record residency_metric =
  rs_op_config :: "16 word \<Rightarrow> state_info option"
  rs_first_op :: "16 word option"
  rs_previous :: "string \<Rightarrow> normalized_sample option"
  rs_time_totals :: "string \<Rightarrow> fp option"
  rs_pct_sums :: "string \<Rightarrow> fp option"
  rs_counts :: "string \<Rightarrow> nat option"
  rs_min :: "string \<Rightarrow> fp option"
  rs_max :: "string \<Rightarrow> fp option"
  rs_average :: "string \<Rightarrow> fp option"
  rs_total_seconds :: "string \<Rightarrow> fp option"
  rs_processed :: "(string \<times> int) list"
  rs_pending :: "(16 word \<times> processed_sample) list"
  rs_pending_inferred :: "processed_sample option"

text \<open>operator[] of a map of doubles: the entry, or zero.\<close>

definition at_or_zero :: "(string \<Rightarrow> fp option) \<Rightarrow> string \<Rightarrow> fp" where
  "at_or_zero m k = (case m k of Some x \<Rightarrow> x | None \<Rightarrow> FZero False)"

definition track_state :: "string \<Rightarrow> residency_metric \<Rightarrow> residency_metric" where
  "track_state name m =
    m\<lparr>rs_time_totals := (rs_time_totals m)(name := Some (FZero False)),
      rs_pct_sums := (rs_pct_sums m)(name := Some (FZero False)),
      rs_counts := (rs_counts m)(name := Some 0),
      rs_min := (rs_min m)(name := Some (fp_largest binary64)),
      rs_max := (rs_max m)(name := Some (FZero False))\<rparr>"

text \<open>
  InitializeResidencyState keeps the pending samples, and forgets which operation belongs to
  which state.
\<close>

definition InitializeResidencyState :: "residency_config \<Rightarrow> residency_metric \<Rightarrow> residency_metric" where
  "InitializeResidencyState cfg m =
    (let m0 = m\<lparr>rs_op_config := (\<lambda>_. None), rs_first_op := None, rs_previous := (\<lambda>_. None),
                rs_time_totals := (\<lambda>_. None), rs_pct_sums := (\<lambda>_. None), rs_counts := (\<lambda>_. None),
                rs_min := (\<lambda>_. None), rs_max := (\<lambda>_. None), rs_average := (\<lambda>_. None),
                rs_total_seconds := (\<lambda>_. None), rs_processed := []\<rparr>;
         m1 = foldl (\<lambda>m s. track_state (si_name s) m) m0 (rc_states cfg) in
     case rc_inferred cfg of
       Some name \<Rightarrow> if name \<noteq> [] then track_state name m1 else m1
     | None \<Rightarrow> m1)"

definition ResidencyMetric :: "residency_config \<Rightarrow> residency_metric" where
  "ResidencyMetric cfg = InitializeResidencyState cfg
    \<lparr>rs_op_config = (\<lambda>_. None), rs_first_op = None, rs_previous = (\<lambda>_. None),
     rs_time_totals = (\<lambda>_. None), rs_pct_sums = (\<lambda>_. None), rs_counts = (\<lambda>_. None),
     rs_min = (\<lambda>_. None), rs_max = (\<lambda>_. None), rs_average = (\<lambda>_. None),
     rs_total_seconds = (\<lambda>_. None), rs_processed = [], rs_pending = [], rs_pending_inferred = None\<rparr>"

definition Residency_Reset :: "residency_config \<Rightarrow> residency_metric \<Rightarrow> residency_metric" where
  "Residency_Reset cfg m = InitializeResidencyState cfg m"

definition Residency_ProcessPauseSample :: "int \<Rightarrow> residency_metric \<Rightarrow> astl_status \<times> residency_metric" where
  "Residency_ProcessPauseSample t m =
    (ASTL_STATUS_SUCCESS,
     m\<lparr>rs_previous := (\<lambda>_. None), rs_first_op := None, rs_processed := [], rs_pending := [],
       rs_pending_inferred := None\<rparr>)"

section \<open>Operations\<close>

definition register_operation :: "state_info \<Rightarrow> 16 word \<Rightarrow> residency_metric \<Rightarrow> residency_metric" where
  "register_operation s op_id m =
    m\<lparr>rs_first_op := (case rs_first_op m of None \<Rightarrow> Some op_id | Some b \<Rightarrow> Some b),
      rs_op_config := (rs_op_config m)(op_id := Some s)\<rparr>"

fun Residency_GetOperations ::
    "(state_info \<Rightarrow> 16 word list result) \<Rightarrow> state_info list \<Rightarrow> residency_metric
      \<Rightarrow> 16 word list result \<times> residency_metric" where
  "Residency_GetOperations build [] m = (Inr [], m)"
| "Residency_GetOperations build (s # ss) m =
    (case build s of
       Inl e \<Rightarrow> (Inl e, m)
     | Inr ops \<Rightarrow>
        (case Residency_GetOperations build ss (foldl (\<lambda>m op. register_operation s op m) m ops) of
           (Inl e, m') \<Rightarrow> (Inl e, m')
         | (Inr rest, m') \<Rightarrow> (Inr (ops @ rest), m')))"

section \<open>Times and percentages\<close>

text \<open>
  The microseconds of a tick count: the quotient by the frequency, times 1000000, rounded half
  away from zero and converted to int64_t.
\<close>

definition ConvertTicksToMicroseconds :: "astl_value \<Rightarrow> fp \<Rightarrow> int result" where
  "ConvertTicksToMicroseconds n frequency =
    (if fp_le frequency (FZero False) then Inl ASTL_STATUS_METRIC_RECEIVED_INVALID_SAMPLE
     else Inr (fp_to_int64 (fp_std_round binary64
       (fp_mul binary64 (fp_div binary64 (cast_f64 n) frequency) (fp_of_int binary64 1000000)))))"

definition percentage_of :: "int \<Rightarrow> int \<Rightarrow> fp" where
  "percentage_of part total_us =
    fp_clamp
      (fp_mul binary64 (fp_div binary64 (fp_of_int binary64 part) (fp_of_int binary64 total_us)) (fp_of_int binary64 100))
      (FZero False) (fp_of_int binary64 100)"

definition CalculatePercentage :: "int \<Rightarrow> int \<Rightarrow> fp result" where
  "CalculatePercentage time_in_state total_interval =
    (if total_interval \<le> 0 then Inl ASTL_STATUS_METRIC_RECEIVED_INVALID_SAMPLE
     else if time_in_state < 0 then Inl ASTL_STATUS_METRIC_RECEIVED_INVALID_SAMPLE
     else Inr (percentage_of time_in_state total_interval))"

definition UpdateStateResidencyStatistics :: "string \<Rightarrow> int \<Rightarrow> fp \<Rightarrow> residency_metric \<Rightarrow> residency_metric" where
  "UpdateStateResidencyStatistics name us pct m =
    m\<lparr>rs_time_totals := (rs_time_totals m)(name := Some (fp_add binary64 (at_or_zero (rs_time_totals m) name)
         (fp_div binary64 (fp_of_int binary64 us) (fp_of_int binary64 1000000)))),
      rs_pct_sums := (rs_pct_sums m)(name := Some (fp_add binary64 (at_or_zero (rs_pct_sums m) name) pct)),
      rs_counts := (rs_counts m)(name := Some (Suc (case rs_counts m name of None \<Rightarrow> 0 | Some n \<Rightarrow> n))),
      rs_min := (rs_min m)(name := Some (fp_min (at_or_zero (rs_min m) name) pct)),
      rs_max := (rs_max m)(name := Some (fp_max (at_or_zero (rs_max m) name) pct)),
      rs_processed := AList.update name us (rs_processed m)\<rparr>"

definition accounted_time :: "(string \<times> int) list \<Rightarrow> int" where
  "accounted_time ps = foldl (\<lambda>a p. wrap64 (a + snd p)) 0 ps"

definition CalculateInferredStateResidencyForInterval ::
    "residency_config \<Rightarrow> int \<Rightarrow> int \<Rightarrow> residency_metric \<Rightarrow> astl_status \<times> residency_metric" where
  "CalculateInferredStateResidencyForInterval cfg interval timestamp m =
    (if interval \<le> 0 then (ASTL_STATUS_METRIC_RECEIVED_INVALID_SAMPLE, m)
     else
       let inferred = max (wrap64 (interval - accounted_time (rs_processed m))) 0 in
       (ASTL_STATUS_SUCCESS,
        if inferred > 0 then
          (UpdateStateResidencyStatistics (the (rc_inferred cfg)) inferred (percentage_of inferred interval) m)
            \<lparr>rs_pending_inferred := Some \<lparr>ps_value = VU64 (word_of_int inferred), ps_timestamp = timestamp\<rparr>\<rparr>
        else m))"

section \<open>Ordered delivery\<close>

text \<open>The loop over the ids from base up to base + count, an uint16_t sum.\<close>

fun sink_operations ::
    "'s sink option \<Rightarrow> (16 word \<times> processed_sample) list \<Rightarrow> 16 word list \<Rightarrow> 's \<Rightarrow> astl_status \<times> 's" where
  "sink_operations sink pending [] s = (ASTL_STATUS_SUCCESS, s)"
| "sink_operations sink pending (op # ops) s =
    (case map_of pending op of
       None \<Rightarrow> (ASTL_STATUS_INTERNAL_ERROR, s)
     | Some p \<Rightarrow>
        (case SinkProcessedSample sink p s of
           (status, s') \<Rightarrow>
             if status \<noteq> ASTL_STATUS_SUCCESS then (status, s') else sink_operations sink pending ops s'))"

definition operation_range :: "16 word \<Rightarrow> nat \<Rightarrow> 16 word list" where
  "operation_range base count = map of_nat [unat base ..< unat (base + of_nat count)]"

definition SinkOrderedStateSamples :: "'s sink option \<Rightarrow> residency_metric \<Rightarrow> 's \<Rightarrow> astl_status \<times> 's" where
  "SinkOrderedStateSamples sink m s =
    (case (case rs_first_op m of
             Some base \<Rightarrow>
               if rs_pending m \<noteq> []
               then sink_operations sink (rs_pending m) (operation_range base (length (rs_pending m))) s
               else (ASTL_STATUS_SUCCESS, s)
           | None \<Rightarrow> (ASTL_STATUS_SUCCESS, s)) of
       (status, s') \<Rightarrow>
         if status \<noteq> ASTL_STATUS_SUCCESS then (status, s')
         else (case rs_pending_inferred m of
                 None \<Rightarrow> (ASTL_STATUS_SUCCESS, s')
               | Some p \<Rightarrow> SinkProcessedSample sink p s'))"

section \<open>Receiving a sample\<close>

text \<open>The end of a round: inferred state, delivery, and the round's maps cleared on success only.\<close>

definition complete_round ::
    "residency_config \<Rightarrow> 's sink option \<Rightarrow> int \<Rightarrow> int \<Rightarrow> residency_metric \<times> 's
      \<Rightarrow> astl_status \<times> residency_metric \<times> 's" where
  "complete_round cfg sink interval timestamp = (\<lambda>(m, s).
    if rc_inferred cfg \<noteq> None \<and> length (rc_states cfg) = length (rs_processed m) then
      (case CalculateInferredStateResidencyForInterval cfg interval timestamp m of
         (status, m1) \<Rightarrow>
           if status \<noteq> ASTL_STATUS_SUCCESS then (status, m1, s)
           else (case SinkOrderedStateSamples sink m1 s of
             (status', s') \<Rightarrow>
               if status' \<noteq> ASTL_STATUS_SUCCESS then (status', m1, s')
               else (ASTL_STATUS_SUCCESS,
                     m1\<lparr>rs_processed := [], rs_pending := [], rs_pending_inferred := None\<rparr>, s')))
    else (ASTL_STATUS_SUCCESS, m, s))"

definition Residency_ReceiveRawSample ::
    "residency_config \<Rightarrow> 's sink option \<Rightarrow> normalized_sample \<Rightarrow> residency_metric \<times> 's
      \<Rightarrow> astl_status \<times> residency_metric \<times> 's" where
  "Residency_ReceiveRawSample cfg sink raw = (\<lambda>(m, s).
    case rs_op_config m (ns_operation_id raw) of
      None \<Rightarrow> (ASTL_STATUS_METRIC_RECEIVED_INVALID_SAMPLE, m, s)
    | Some state \<Rightarrow>
        if CheckSampleValueType (rc_metric cfg) raw \<noteq> ASTL_STATUS_SUCCESS
        then (CheckSampleValueType (rc_metric cfg) raw, m, s)
        else
          let name = si_name state;
              keep = (\<lambda>m. m\<lparr>rs_previous := (rs_previous m)(name := Some raw)\<rparr>) in
          (case rs_previous m name of
             None \<Rightarrow> (ASTL_STATUS_SUCCESS, keep m, s)
           | Some prev \<Rightarrow>
              (case CalculateDelta (ns_value raw) (ns_value prev) of
                 Inl e \<Rightarrow> (e, m, s)
               | Inr d \<Rightarrow>
                  (case ConvertTicksToMicroseconds d (si_tick_frequency state) of
                     Inl e \<Rightarrow> (e, m, s)
                   | Inr us \<Rightarrow>
                      let m1 = m\<lparr>rs_pending := AList.update (ns_operation_id raw)
                                  \<lparr>ps_value = VU64 (word_of_int us), ps_timestamp = ns_timestamp raw\<rparr> (rs_pending m)\<rparr>;
                          interval = time_interval_us (ns_timestamp raw) (ns_timestamp prev) in
                      (case CalculatePercentage us interval of
                         Inl e \<Rightarrow> (e, m1, s)
                       | Inr pct \<Rightarrow>
                          (case complete_round cfg sink interval (ns_timestamp raw)
                                  (UpdateStateResidencyStatistics name us pct m1, s) of
                             (status, m2, s2) \<Rightarrow>
                               if status \<noteq> ASTL_STATUS_SUCCESS then (status, m2, s2)
                               else (ASTL_STATUS_SUCCESS, keep m2, s2)))))))"

definition Residency_Summarize :: "residency_metric \<Rightarrow> astl_status \<times> residency_metric" where
  "Residency_Summarize m =
    (ASTL_STATUS_SUCCESS,
     m\<lparr>rs_average := (\<lambda>name. case rs_counts m name of
          Some n \<Rightarrow> if n > 0 then Some (fp_div binary64 (at_or_zero (rs_pct_sums m) name)
                                          (fp_of_int binary64 (int n)))
                    else rs_average m name
        | None \<Rightarrow> rs_average m name),
       rs_total_seconds := (\<lambda>name. case rs_counts m name of
          Some n \<Rightarrow> if n > 0 then rs_time_totals m name else rs_total_seconds m name
        | None \<Rightarrow> rs_total_seconds m name)\<rparr>)"

section \<open>Percentages stay within 0 and 100\<close>

definition pct_range :: "fp \<Rightarrow> bool" where
  "pct_range x \<longleftrightarrow> fp_finite x \<and> 0 \<le> fp_val x \<and> fp_val x \<le> 100"

lemma fp_of_int_int64:
  assumes "a \<le> n" "0 \<le> a" "a \<le> 1" "n < 2 ^ 63"
  shows "fp_finite (fp_of_int binary64 n)" "of_int a \<le> fp_val (fp_of_int binary64 n)"
    "fp_val (fp_of_int binary64 n) \<le> pow2 63"
proof -
  have a: "fp_rep binary64 (of_int a)" by (rule fp_rep_int) (use assms in auto)
  have "(of_int n :: rat) \<le> of_int (2 ^ 63)" using assms(4) by (simp only: of_int_le_iff)
  also have "\<dots> = pow2 63" by (simp add: pow2_nat)
  finally have "(of_int n :: rat) \<le> pow2 63" .
  then show "fp_finite (fp_of_int binary64 n)" "of_int a \<le> fp_val (fp_of_int binary64 n)"
      "fp_val (fp_of_int binary64 n) \<le> pow2 63"
    using fp_of_rat_bounds [OF _ a fp_rep_pow2 [of 63], of "of_int n" False] assms(1)
    by (simp_all add: fp_of_int_def)
qed

lemma clamp_range:
  assumes "fp_finite x"
  shows "pct_range (fp_clamp x (FZero False) (fp_of_int binary64 100))"
proof -
  have h: "fp_finite (fp_of_int binary64 100)" "fp_val (fp_of_int binary64 100) = 100"
    using fp_of_int_exact [of binary64 100] by simp_all
  show ?thesis using assms h by (auto simp: fp_clamp_def pct_range_def fp_lt_finite)
qed

lemma percentage_range:
  assumes "0 < interval" "interval < 2 ^ 63" "0 \<le> part" "part < 2 ^ 63"
  shows "pct_range (percentage_of part interval)"
proof -
  let ?a = "fp_of_int binary64 part" and ?b = "fp_of_int binary64 interval" and ?h = "fp_of_int binary64 100"
  let ?q = "fp_div binary64 ?a ?b"
  have a: "fp_finite ?a" "0 \<le> fp_val ?a" "fp_val ?a \<le> pow2 63"
    using fp_of_int_int64 [of 0 part] assms by simp_all
  have b: "fp_finite ?b" "1 \<le> fp_val ?b" using fp_of_int_int64 [of 1 interval] assms by simp_all
  have h: "fp_finite ?h" "fp_val ?h = 100" using fp_of_int_exact [of binary64 100] by simp_all
  have r0: "fp_rep binary64 0" using fp_rep_int [of binary64 0] by simp
  have q0: "0 \<le> fp_val ?a / fp_val ?b" using a b by simp
  have "fp_val ?a / fp_val ?b \<le> fp_val ?a / 1" using a(2) b(2) by (intro divide_left_mono) simp_all
  then have q1: "fp_val ?a / fp_val ?b \<le> pow2 63" using a(3) by simp
  have "?q = fp_of_rat binary64 (fp_neg_bit ?a \<noteq> fp_neg_bit ?b) (fp_val ?a / fp_val ?b)"
    using a(1) b(2) by (intro fp_div_finite) auto
  then have q: "fp_finite ?q" "0 \<le> fp_val ?q" "fp_val ?q \<le> pow2 63"
    using fp_of_rat_bounds [OF _ r0 fp_rep_pow2 [of 63] q0 q1] by simp_all
  have "fp_val ?q * 100 \<le> pow2 63 * pow2 7" using q(3) by (intro mult_mono) (simp_all add: pow2_nat)
  then have m1: "fp_val ?q * 100 \<le> pow2 70" by (simp add: pow2_nat)
  have m0: "0 \<le> fp_val ?q * 100" using q(2) by simp
  have "fp_mul binary64 ?q ?h = fp_of_rat binary64 (fp_neg_bit ?q \<noteq> fp_neg_bit ?h) (fp_val ?q * 100)"
    using fp_mul_finite [OF q(1) h(1)] h(2) by simp
  then have "fp_finite (fp_mul binary64 ?q ?h)"
    using fp_of_rat_bounds(1) [OF _ r0 fp_rep_pow2 [of 70] m0 m1] by simp
  then show ?thesis unfolding percentage_of_def by (rule clamp_range)
qed

lemma CalculatePercentage_range:
  "CalculatePercentage us interval = Inr pct \<Longrightarrow> us < 2 ^ 63 \<Longrightarrow> interval < 2 ^ 63 \<Longrightarrow> pct_range pct"
  by (auto simp: CalculatePercentage_def percentage_range split: if_splits)

text \<open>The statistics of every state, whatever has been received so far.\<close>

definition stat_ok :: "nat option \<Rightarrow> fp option \<Rightarrow> fp option \<Rightarrow> bool" where
  "stat_ok c lo hi \<longleftrightarrow>
    (case c of
       None \<Rightarrow> lo = None \<and> hi = None
     | Some n \<Rightarrow>
         if n = 0 then lo = Some (fp_largest binary64) \<and> hi = Some (FZero False)
         else \<exists>x y. lo = Some x \<and> hi = Some y \<and> pct_range x \<and> pct_range y)"

definition stats_ok :: "residency_metric \<Rightarrow> bool" where
  "stats_ok m \<longleftrightarrow> (\<forall>name. stat_ok (rs_counts m name) (rs_min m name) (rs_max m name))"

lemma fp_min_max_range:
  assumes "pct_range a" "pct_range b"
  shows "pct_range (fp_min a b)" "pct_range (fp_max a b)"
  using assms by (auto simp: fp_min_def fp_max_def)

lemma fp_min_largest: "pct_range x \<Longrightarrow> fp_min (fp_largest binary64) x = x"
proof -
  assume x: "pct_range x"
  have "(100 :: rat) < pow2 7" by (simp add: pow2_nat)
  also have "pow2 7 \<le> pow2 1024 - pow2 971"
  proof -
    have "pow2 53 = 9007199254740992" by (simp add: pow2_nat)
    then have "pow2 1024 = 9007199254740992 * pow2 971" using pow2_add [of 971 53] by simp
    moreover have "pow2 7 \<le> pow2 971" by simp
    ultimately show ?thesis using pow2_pos [of 971] by linarith
  qed
  finally have "(100 :: rat) < fp_val (fp_largest binary64)" by (simp add: fp_largest_def)
  then have "fp_val x < fp_val (fp_largest binary64)" using x by (simp add: pct_range_def)
  then show ?thesis using x by (simp add: fp_min_def fp_lt_finite pct_range_def fp_largest_def)
qed

lemma pct_range_zero [simp]: "pct_range (FZero False)"
  by (simp add: pct_range_def)

lemma stats_ok_update:
  assumes "stats_ok m" "pct_range pct"
  shows "stats_ok (UpdateStateResidencyStatistics name us pct m)"
proof -
  have m: "stat_ok (rs_counts m name) (rs_min m name) (rs_max m name)"
    using assms(1) unfolding stats_ok_def by blast
  have step: "stat_ok (Some (Suc (case rs_counts m name of None \<Rightarrow> 0 | Some n \<Rightarrow> n)))
      (Some (fp_min (at_or_zero (rs_min m) name) pct)) (Some (fp_max (at_or_zero (rs_max m) name) pct))"
    using m assms(2) fp_min_largest [OF assms(2)]
    by (auto simp: stat_ok_def at_or_zero_def fp_min_max_range split: option.splits if_splits)
  then show ?thesis
    using assms(1) by (simp add: stats_ok_def UpdateStateResidencyStatistics_def)
qed

lemma stats_ok_cong:
  "rs_counts m' = rs_counts m \<Longrightarrow> rs_min m' = rs_min m \<Longrightarrow> rs_max m' = rs_max m \<Longrightarrow> stats_ok m' = stats_ok m"
  by (simp add: stats_ok_def)

lemma stats_ok_track: "stats_ok m \<Longrightarrow> stats_ok (track_state name m)"
  by (simp add: stats_ok_def track_state_def stat_ok_def)

lemma stats_ok_tracks: "stats_ok m \<Longrightarrow> stats_ok (foldl (\<lambda>m s. track_state (si_name s) m) m ss)"
  by (induction ss arbitrary: m) (simp_all add: stats_ok_track)

lemma stats_ok_init: "stats_ok (InitializeResidencyState cfg m)"
proof -
  let ?m0 = "m\<lparr>rs_op_config := (\<lambda>_. None), rs_first_op := None, rs_previous := (\<lambda>_. None),
                rs_time_totals := (\<lambda>_. None), rs_pct_sums := (\<lambda>_. None), rs_counts := (\<lambda>_. None),
                rs_min := (\<lambda>_. None), rs_max := (\<lambda>_. None), rs_average := (\<lambda>_. None),
                rs_total_seconds := (\<lambda>_. None), rs_processed := []\<rparr>"
  have "stats_ok ?m0" by (simp add: stats_ok_def stat_ok_def)
  then have "stats_ok (foldl (\<lambda>m s. track_state (si_name s) m) ?m0 (rc_states cfg))" by (rule stats_ok_tracks)
  then show ?thesis
    by (simp add: InitializeResidencyState_def Let_def stats_ok_track split: option.split)
qed

text \<open>Everything that can happen to a residency metric.\<close>

datatype residency_event =
    ReceiveSample normalized_sample | PauseAt int | ResetMetric | BuildStates "state_info \<Rightarrow> 16 word list result"

fun residency_step ::
    "residency_config \<Rightarrow> 's sink option \<Rightarrow> residency_metric \<times> 's \<Rightarrow> residency_event \<Rightarrow> residency_metric \<times> 's" where
  "residency_step cfg sink ms (ReceiveSample raw) = snd (Residency_ReceiveRawSample cfg sink raw ms)"
| "residency_step cfg sink ms (PauseAt t) = (snd (Residency_ProcessPauseSample t (fst ms)), snd ms)"
| "residency_step cfg sink ms ResetMetric = (Residency_Reset cfg (fst ms), snd ms)"
| "residency_step cfg sink ms (BuildStates build) = (snd (Residency_GetOperations build (rc_states cfg) (fst ms)), snd ms)"

definition previous_int64 :: "residency_metric \<Rightarrow> bool" where
  "previous_int64 m \<longleftrightarrow> (\<forall>name p. rs_previous m name = Some p \<longrightarrow> in_int64 (ns_timestamp p))"

definition residency_inv :: "residency_metric \<Rightarrow> bool" where
  "residency_inv m \<longleftrightarrow> stats_ok m \<and> previous_int64 m"

lemma fp_to_int64_less: "fp_to_int64 x < 2 ^ 63"
  by (cases x) auto

lemma time_interval_less:
  assumes "in_int64 a" "in_int64 b"
  shows "time_interval_us a b < 2 ^ 63"
proof (cases "0 \<le> a - b")
  case True
  then show ?thesis using assms by (simp add: time_interval_us_def sdiv_pos_nonneg in_int64_def)
next
  case False
  then show ?thesis using assms by (simp add: time_interval_us_def sdiv_pos_neg in_int64_def)
qed

lemma residency_inv_pending [simp]:
  "residency_inv (m\<lparr>rs_pending := x\<rparr>) = residency_inv m"
  "residency_inv (m\<lparr>rs_pending_inferred := y\<rparr>) = residency_inv m"
  "residency_inv (m\<lparr>rs_processed := z\<rparr>) = residency_inv m"
  "residency_inv (m\<lparr>rs_first_op := b\<rparr>) = residency_inv m"
  "residency_inv (m\<lparr>rs_op_config := c\<rparr>) = residency_inv m"
  by (simp_all add: residency_inv_def stats_ok_def previous_int64_def)

lemma residency_inv_update:
  "residency_inv m \<Longrightarrow> pct_range pct \<Longrightarrow> residency_inv (UpdateStateResidencyStatistics name us pct m)"
  using stats_ok_update [of m pct name us]
  by (simp add: residency_inv_def) (simp add: previous_int64_def UpdateStateResidencyStatistics_def)

lemma residency_inv_keep:
  "residency_inv m \<Longrightarrow> in_int64 (ns_timestamp raw) \<Longrightarrow>
   residency_inv (m\<lparr>rs_previous := (rs_previous m)(name := Some raw)\<rparr>)"
  by (simp add: residency_inv_def stats_ok_def previous_int64_def)

lemma residency_inv_inferred:
  assumes "residency_inv m" "interval < 2 ^ 63"
  shows "residency_inv (snd (CalculateInferredStateResidencyForInterval cfg interval t m))"
proof (cases "interval \<le> 0")
  case False
  define i where "i = max (wrap64 (interval - accounted_time (rs_processed m))) 0"
  have "wrap64 (interval - accounted_time (rs_processed m)) < 2 ^ 63"
    using in_int64_wrap64 unfolding in_int64_def by blast
  then have "pct_range (percentage_of i interval)"
    using assms(2) False by (intro percentage_range) (auto simp: i_def)
  then have "residency_inv (UpdateStateResidencyStatistics n i (percentage_of i interval) m)" for n
    by (rule residency_inv_update [OF assms(1)])
  then show ?thesis
    using assms(1) False unfolding CalculateInferredStateResidencyForInterval_def Let_def i_def [symmetric] by simp
qed (use assms in \<open>simp add: CalculateInferredStateResidencyForInterval_def\<close>)

lemma residency_inv_complete:
  assumes "residency_inv m" "interval < 2 ^ 63"
  shows "residency_inv (fst (snd (complete_round cfg sink interval t (m, s))))"
  using residency_inv_inferred [OF assms, of cfg t] assms(1)
  by (auto simp: complete_round_def split: prod.split)

text \<open>The four ways a sample is received: nothing or only the cursor or the pending map changes, or the round is checked.\<close>

lemma Residency_receive_cases:
  obtains (same) status where "Residency_ReceiveRawSample cfg sink raw (m, s) = (status, m, s)"
  | (first) name where "Residency_ReceiveRawSample cfg sink raw (m, s)
      = (ASTL_STATUS_SUCCESS, m\<lparr>rs_previous := (rs_previous m)(name := Some raw)\<rparr>, s)"
  | (pending) status x where "Residency_ReceiveRawSample cfg sink raw (m, s) = (status, m\<lparr>rs_pending := x\<rparr>, s)"
  | (counted) name prev d f us pct x status m2 s2 where
      "rs_previous m name = Some prev" "ConvertTicksToMicroseconds d f = Inr us"
      "CalculatePercentage us (time_interval_us (ns_timestamp raw) (ns_timestamp prev)) = Inr pct"
      "complete_round cfg sink (time_interval_us (ns_timestamp raw) (ns_timestamp prev)) (ns_timestamp raw)
        (UpdateStateResidencyStatistics name us pct (m\<lparr>rs_pending := x\<rparr>), s) = (status, m2, s2)"
      "Residency_ReceiveRawSample cfg sink raw (m, s)
        = (status, if status = ASTL_STATUS_SUCCESS then m2\<lparr>rs_previous := (rs_previous m2)(name := Some raw)\<rparr> else m2, s2)"
proof (cases "rs_op_config m (ns_operation_id raw)")
  case None
  then show ?thesis by (intro same) (simp add: Residency_ReceiveRawSample_def)
next
  case st: (Some st)
  show ?thesis
  proof (cases "CheckSampleValueType (rc_metric cfg) raw = ASTL_STATUS_SUCCESS")
    case False
    then show ?thesis by (intro same) (simp add: Residency_ReceiveRawSample_def st)
  next
    case ty: True
    show ?thesis
    proof (cases "rs_previous m (si_name st)")
      case None
      then show ?thesis by (intro first) (simp add: Residency_ReceiveRawSample_def st ty Let_def)
    next
      case prev: (Some prev)
      show ?thesis
      proof (cases "CalculateDelta (ns_value raw) (ns_value prev)")
        case (Inl e)
        then show ?thesis by (intro same) (simp add: Residency_ReceiveRawSample_def st ty prev Let_def)
      next
        case d: (Inr d)
        show ?thesis
        proof (cases "ConvertTicksToMicroseconds d (si_tick_frequency st)")
          case (Inl e)
          then show ?thesis by (intro same) (simp add: Residency_ReceiveRawSample_def st ty prev d Let_def)
        next
          case us: (Inr us)
          let ?i = "time_interval_us (ns_timestamp raw) (ns_timestamp prev)"
          show ?thesis
          proof (cases "CalculatePercentage us ?i")
            case (Inl e)
            then show ?thesis by (intro pending) (simp add: Residency_ReceiveRawSample_def st ty prev d us Let_def)
          next
            case pct: (Inr pct)
            let ?x = "AList.update (ns_operation_id raw)
              \<lparr>ps_value = VU64 (word_of_int us), ps_timestamp = ns_timestamp raw\<rparr> (rs_pending m)"
            obtain status m2 s2 where r: "complete_round cfg sink ?i (ns_timestamp raw)
                (UpdateStateResidencyStatistics (si_name st) us pct (m\<lparr>rs_pending := ?x\<rparr>), s) = (status, m2, s2)"
              by (cases "complete_round cfg sink ?i (ns_timestamp raw)
                (UpdateStateResidencyStatistics (si_name st) us pct (m\<lparr>rs_pending := ?x\<rparr>), s)")
            show ?thesis
              by (rule counted [OF prev us pct r])
                (use r in \<open>simp add: Residency_ReceiveRawSample_def st ty prev d us pct Let_def\<close>)
          qed
        qed
      qed
    qed
  qed
qed

lemma residency_inv_receive:
  assumes "residency_inv m" "in_int64 (ns_timestamp raw)"
  shows "residency_inv (fst (snd (Residency_ReceiveRawSample cfg sink raw (m, s))))"
proof (cases rule: Residency_receive_cases [of cfg sink raw m s])
  case (counted name prev d f us pct x status m2 s2)
  let ?i = "time_interval_us (ns_timestamp raw) (ns_timestamp prev)"
  have i: "?i < 2 ^ 63"
    using assms counted(1) by (intro time_interval_less) (auto simp: residency_inv_def previous_int64_def)
  have "us < 2 ^ 63"
    using counted(2) fp_to_int64_less by (auto simp: ConvertTicksToMicroseconds_def split: if_splits)
  then have "pct_range pct" using CalculatePercentage_range counted(3) i by blast
  then have "residency_inv (UpdateStateResidencyStatistics name us pct (m\<lparr>rs_pending := x\<rparr>))"
    using residency_inv_update [of "m\<lparr>rs_pending := x\<rparr>"] assms(1) by simp
  from residency_inv_complete [OF this i, of cfg sink "ns_timestamp raw" s]
  have "residency_inv m2" by (simp add: counted(4))
  then show ?thesis using residency_inv_keep assms(2) by (simp add: counted(5))
qed (use assms residency_inv_keep in simp_all)

lemma residency_inv_register:
  "residency_inv (foldl (\<lambda>m op. register_operation st op m) m ops) = residency_inv m"
  by (induction ops arbitrary: m)
    (simp_all add: register_operation_def)

lemma snd_GetOperations_Cons:
  "snd (Residency_GetOperations build (st # ss) m) =
    (case build st of
       Inl e \<Rightarrow> m
     | Inr ops \<Rightarrow> snd (Residency_GetOperations build ss (foldl (\<lambda>m op. register_operation st op m) m ops)))"
  by (auto split: sum.split prod.split)

lemma residency_inv_operations:
  "residency_inv m \<Longrightarrow> residency_inv (snd (Residency_GetOperations build ss m))"
proof (induction ss arbitrary: m)
  case (Cons st ss)
  then show ?case unfolding snd_GetOperations_Cons by (simp add: residency_inv_register split: sum.split)
qed simp

lemma residency_inv_init: "residency_inv (InitializeResidencyState cfg m)"
proof -
  have t: "rs_previous (track_state n m0) = rs_previous m0" for n m0 by (simp add: track_state_def)
  have p: "rs_previous (foldl (\<lambda>m s. track_state (si_name s) m) m0 ss) = rs_previous m0" for m0 :: residency_metric and ss
    by (induction ss arbitrary: m0) (simp_all add: t)
  have "previous_int64 (InitializeResidencyState cfg m)"
    by (simp add: InitializeResidencyState_def Let_def previous_int64_def t p split: option.split)
  then show ?thesis by (simp add: residency_inv_def stats_ok_init)
qed

lemma residency_inv_step:
  assumes "residency_inv (fst ms)" "\<forall>raw. e = ReceiveSample raw \<longrightarrow> in_int64 (ns_timestamp raw)"
  shows "residency_inv (fst (residency_step cfg sink ms e))"
proof (cases e)
  case (ReceiveSample raw)
  then show ?thesis using assms residency_inv_receive [of "fst ms" raw cfg sink "snd ms"] by simp
next
  case (PauseAt t)
  then show ?thesis
    using assms(1) by (simp add: Residency_ProcessPauseSample_def residency_inv_def stats_ok_def previous_int64_def)
qed (use assms(1) in \<open>simp_all add: Residency_Reset_def residency_inv_init residency_inv_operations\<close>)

text \<open>
  After any history of samples (with int64 timestamps), pauses, resets and operation
  rebuilds, whatever fails on the way, a state that has been counted has a minimum and a
  maximum percentage, finite and within 0 and 100; one never counted keeps its initial values.
\<close>

theorem residency_percentages_bounded:
  assumes "\<forall>raw. ReceiveSample raw \<in> set es \<longrightarrow> in_int64 (ns_timestamp raw)"
    and "m = fst (foldl (residency_step cfg sink) (ResidencyMetric cfg, s) es)"
    and "rs_counts m name = Some n"
  shows "if n = 0 then rs_min m name = Some (fp_largest binary64) \<and> rs_max m name = Some (FZero False)
    else \<exists>lo hi. rs_min m name = Some lo \<and> rs_max m name = Some hi
      \<and> fp_finite lo \<and> 0 \<le> fp_val lo \<and> fp_val lo \<le> 100 \<and> fp_finite hi \<and> 0 \<le> fp_val hi \<and> fp_val hi \<le> 100"
proof -
  have "residency_inv (fst (foldl (residency_step cfg sink) (ResidencyMetric cfg, s) es))"
    using assms(1)
  proof (induction es rule: rev_induct)
    case Nil
    then show ?case by (simp add: ResidencyMetric_def residency_inv_init)
  next
    case (snoc e es)
    then show ?case by (simp add: residency_inv_step)
  qed
  then have "stat_ok (rs_counts m name) (rs_min m name) (rs_max m name)"
    unfolding assms(2) residency_inv_def stats_ok_def by blast
  then show ?thesis using assms(3) by (auto simp: stat_ok_def pct_range_def)
qed

theorem residency_percentages_bounded_witness:
  "rs_min (ResidencyMetric \<lparr>rc_metric = u32_config, rc_states = [\<lparr>si_name = ''C1'', si_tick_frequency = FNum 1\<rparr>],
      rc_inferred = None\<rparr>) ''C1'' = Some (fp_largest binary64)"
proof -
  let ?cfg = "\<lparr>rc_metric = u32_config, rc_states = [\<lparr>si_name = ''C1'', si_tick_frequency = FNum 1\<rparr>], rc_inferred = None\<rparr>"
  have "rs_counts (ResidencyMetric ?cfg) ''C1'' = Some 0"
    by (simp add: ResidencyMetric_def InitializeResidencyState_def Let_def track_state_def)
  from residency_percentages_bounded [of "[]" "ResidencyMetric ?cfg" ?cfg None "()" "''C1''" 0] this
  show ?thesis by simp
qed

section \<open>A complete round\<close>

lemma accounted_time_sum:
  assumes "\<forall>p\<in>set ps. 0 \<le> snd p" "sum_list (map snd ps) < 2 ^ 63"
  shows "accounted_time ps = sum_list (map snd ps)"
proof -
  have "foldl (\<lambda>a p. wrap64 (a + snd p)) acc ps = acc + sum_list (map snd ps)"
    if "0 \<le> acc" "acc + sum_list (map snd ps) < 2 ^ 63" for acc
    using assms(1) that
  proof (induction ps arbitrary: acc)
    case (Cons p ps)
    have "0 \<le> sum_list (map snd ps)" using Cons.prems(1) by (intro sum_list_nonneg) auto
    then have "wrap64 (acc + snd p) = acc + snd p"
      using Cons.prems by (intro wrap64_id) (simp add: in_int64_def)
    then show ?case using Cons.IH [of "acc + snd p"] Cons.prems by (simp add: add.assoc)
  qed simp
  from this [of 0] show ?thesis using assms(2) by (simp add: accounted_time_def)
qed

context processed_sink
begin

lemma sink_operations_all:
  "\<forall>op\<in>set ops. map_of pending op \<noteq> None \<Longrightarrow> ready s \<Longrightarrow>
   \<exists>s'. sink_operations (Some sink) pending ops s = (ASTL_STATUS_SUCCESS, s')
     \<and> log s' = log s @ map (\<lambda>op. the (map_of pending op)) ops \<and> ready s'"
proof (induction ops arbitrary: s)
  case (Cons op ops)
  obtain p where p: "map_of pending op = Some p" using Cons.prems(1) by auto
  obtain s1 where s1: "sink p s = (ASTL_STATUS_SUCCESS, s1)" "log s1 = log s @ [p]" "ready s1"
    using sink_ready [OF Cons.prems(2)] .
  show ?case using Cons.IH [of s1] Cons.prems(1) p s1 by (auto simp: SinkProcessedSample_def)
qed simp

lemma sink_ordered_all:
  assumes "rs_first_op m = Some base" "\<forall>op\<in>set (operation_range base (length (rs_pending m))). map_of (rs_pending m) op \<noteq> None"
    and "rs_pending m \<noteq> []" "ready s"
  shows "\<exists>s'. SinkOrderedStateSamples (Some sink) m s = (ASTL_STATUS_SUCCESS, s')
     \<and> log s' = log s @ map (\<lambda>op. the (map_of (rs_pending m) op)) (operation_range base (length (rs_pending m)))
          @ (case rs_pending_inferred m of None \<Rightarrow> [] | Some p \<Rightarrow> [p]) \<and> ready s'"
proof -
  obtain s1 where s1: "sink_operations (Some sink) (rs_pending m) (operation_range base (length (rs_pending m))) s
        = (ASTL_STATUS_SUCCESS, s1)"
      "log s1 = log s @ map (\<lambda>op. the (map_of (rs_pending m) op)) (operation_range base (length (rs_pending m)))" "ready s1"
    using sink_operations_all [OF assms(2,4)] by blast
  show ?thesis
  proof (cases "rs_pending_inferred m")
    case None
    then show ?thesis using assms(1,3) s1 by (simp add: SinkOrderedStateSamples_def)
  next
    case (Some p)
    obtain s2 where "sink p s1 = (ASTL_STATUS_SUCCESS, s2)" "log s2 = log s1 @ [p]" "ready s2"
      using sink_ready [OF s1(3)] .
    then show ?thesis using assms(1,3) s1 Some by (simp add: SinkOrderedStateSamples_def SinkProcessedSample_def)
  qed
qed

end

lemma complete_round_delivers:
  fixes st :: "('t, 'm, 'c) store"
  assumes "rc_inferred cfg = Some idle" "length (rc_states cfg) = length (rs_processed m)"
    and "0 < interval" "interval < 2 ^ 63" "\<forall>p\<in>set (rs_processed m). 0 \<le> snd p"
    and "used = sum_list (map snd (rs_processed m))" "used \<le> interval"
    and "rs_first_op m = Some base" "rs_pending m \<noteq> []" "rs_pending_inferred m = None"
    and "\<forall>op\<in>set (operation_range base (length (rs_pending m))). map_of (rs_pending m) op \<noteq> None"
    and "batch_visit st = None"
  shows "\<exists>m' st'. complete_round cfg (Some (store_sink t k)) interval ts (m, st) = (ASTL_STATUS_SUCCESS, m', st')
    \<and> stored_samples st' t k = stored_samples st t k
        @ map (\<lambda>op. the (map_of (rs_pending m) op)) (operation_range base (length (rs_pending m)))
        @ (if used < interval then [\<lparr>ps_value = VU64 (word_of_int (interval - used)), ps_timestamp = ts\<rparr>] else [])
    \<and> int_part (VU64 (word_of_int (interval - used))) = nat (interval - used)
    \<and> rs_processed m' = [] \<and> rs_pending m' = [] \<and> rs_pending_inferred m' = None \<and> batch_visit st' = None"
proof -
  have acc: "accounted_time (rs_processed m) = used"
    using accounted_time_sum [OF assms(5)] assms(4,6,7) by simp
  have used0: "0 \<le> used" using assms(5,6) by (auto intro!: sum_list_nonneg)
  then have w: "wrap64 (interval - used) = interval - used"
    using assms(4,7) by (intro wrap64_id) (simp add: in_int64_def)
  have "uint (word_of_int (interval - used) :: 64 word) = interval - used"
    unfolding uint_word_of_int by (rule mod_pos_pos_trivial) (use assms(4,7) used0 in simp_all)
  then have val: "int_part (VU64 (word_of_int (interval - used))) = nat (interval - used)"
    by (simp add: unat_eq_nat_uint)
  obtain m1 where m1: "CalculateInferredStateResidencyForInterval cfg interval ts m = (ASTL_STATUS_SUCCESS, m1)"
      "rs_first_op m1 = Some base" "rs_pending m1 = rs_pending m"
      "rs_pending_inferred m1 = (if used < interval
          then Some \<lparr>ps_value = VU64 (word_of_int (interval - used)), ps_timestamp = ts\<rparr> else None)"
    using assms(3,7,8,10) acc w
    by (simp add: CalculateInferredStateResidencyForInterval_def Let_def UpdateStateResidencyStatistics_def
        split: if_splits)
  obtain st' where st': "SinkOrderedStateSamples (Some (store_sink t k)) m1 st = (ASTL_STATUS_SUCCESS, st')"
      "stored_samples st' t k = stored_samples st t k
        @ map (\<lambda>op. the (map_of (rs_pending m) op)) (operation_range base (length (rs_pending m)))
        @ (case rs_pending_inferred m1 of None \<Rightarrow> [] | Some p \<Rightarrow> [p])" "batch_visit st' = None"
    using store_log.sink_ordered_all [of m1 base st t k] m1(2,3) assms(9,11,12) by auto
  show ?thesis
    using m1 st' val assms(1,2) by (simp add: complete_round_def)
qed

text \<open>A two-state metric with an inferred state, as the witnesses use it.\<close>

definition two_states :: residency_config where
  "two_states = \<lparr>rc_metric = u32_config,
    rc_states = [\<lparr>si_name = ''C1'', si_tick_frequency = FNum 1000000\<rparr>, \<lparr>si_name = ''C6'', si_tick_frequency = FNum 1000000\<rparr>],
    rc_inferred = Some ''C0''\<rparr>"

definition open_round :: residency_metric where
  "open_round = (ResidencyMetric two_states)
    \<lparr>rs_first_op := Some 1, rs_processed := [(''C1'', 300), (''C6'', 200)],
     rs_pending := [(2, \<lparr>ps_value = VU64 200, ps_timestamp = 7\<rparr>), (1, \<lparr>ps_value = VU64 300, ps_timestamp = 7\<rparr>)]\<rparr>"

lemma open_round_simps [simp]:
  "rs_first_op open_round = Some 1" "rs_processed open_round = [(''C1'', 300), (''C6'', 200)]"
  "rs_pending open_round = [(2, \<lparr>ps_value = VU64 200, ps_timestamp = 7\<rparr>), (1, \<lparr>ps_value = VU64 300, ps_timestamp = 7\<rparr>)]"
  "rs_pending_inferred open_round = None" "rc_inferred two_states = Some ''C0''"
  "length (rc_states two_states) = 2" "operation_range 1 2 = [1, 2]"
  by (simp_all add: open_round_def ResidencyMetric_def InitializeResidencyState_def two_states_def Let_def
      track_state_def operation_range_def upt_rec)

section \<open>What a pause, a reset and a failed delivery leave behind\<close>

lemma rs_first_op_update [simp]:
  "rs_first_op (UpdateStateResidencyStatistics name us pct m) = rs_first_op m"
  "rs_op_config (UpdateStateResidencyStatistics name us pct m) = rs_op_config m"
  "rs_processed (UpdateStateResidencyStatistics name us pct m) = AList.update name us (rs_processed m)"
  "rs_pending (UpdateStateResidencyStatistics name us pct m) = rs_pending m"
  by (simp_all add: UpdateStateResidencyStatistics_def)

lemma rs_first_op_complete: "rs_first_op (fst (snd (complete_round cfg sink i t (m, s)))) = rs_first_op m"
  by (simp add: complete_round_def CalculateInferredStateResidencyForInterval_def Let_def split: prod.split)

lemma rs_first_op_receive: "rs_first_op (fst (snd (Residency_ReceiveRawSample cfg sink raw (m, s)))) = rs_first_op m"
proof (cases rule: Residency_receive_cases [of cfg sink raw m s])
  case (counted name prev d f us pct x status m2 s2)
  have "rs_first_op m2 = rs_first_op m"
    using rs_first_op_complete [of cfg sink "time_interval_us (ns_timestamp raw) (ns_timestamp prev)" "ns_timestamp raw"
        "UpdateStateResidencyStatistics name us pct (m\<lparr>rs_pending := x\<rparr>)" s] by (simp add: counted(4))
  then show ?thesis by (simp add: counted(5))
qed simp_all

text \<open>
  A pause drops the first operation id, which only GetOperations sets again.  After it, no
  sample of a configured state is delivered any more, whatever is received: the delivery step
  sinks the inferred state alone.
\<close>

theorem residency_pause_stops_delivery:
  "let (statuses, m', s') = receive_all (Residency_ReceiveRawSample cfg sink) raws
         (snd (Residency_ProcessPauseSample t m), s) in
   rs_first_op m' = None
   \<and> SinkOrderedStateSamples sink m' s'
     = (case rs_pending_inferred m' of None \<Rightarrow> (ASTL_STATUS_SUCCESS, s') | Some p \<Rightarrow> SinkProcessedSample sink p s')"
proof -
  have "rs_first_op (fst (snd (receive_all (Residency_ReceiveRawSample cfg sink) raws (m0, s0)))) = rs_first_op m0" for m0 s0
  proof (induction raws arbitrary: m0 s0)
    case (Cons raw raws)
    show ?case
      using Cons.IH rs_first_op_receive [of cfg sink raw m0 s0]
      by (auto split: prod.split) (metis fst_conv snd_conv)
  qed simp
  from this [of "snd (Residency_ProcessPauseSample t m)" s]
  show ?thesis
    by (auto simp: Residency_ProcessPauseSample_def SinkOrderedStateSamples_def split: prod.split option.split)
qed

text \<open>A reset forgets the operations too: every sample is refused until they are built again.\<close>

lemma residency_reset_refuses:
  "receive_all (Residency_ReceiveRawSample cfg sink) raws (Residency_Reset cfg m, s)
    = (replicate (length raws) ASTL_STATUS_METRIC_RECEIVED_INVALID_SAMPLE, Residency_Reset cfg m, s)"
proof -
  have t: "rs_op_config (track_state n m0) = rs_op_config m0" for n m0 by (simp add: track_state_def)
  have p: "rs_op_config (foldl (\<lambda>m s. track_state (si_name s) m) m0 ss) = rs_op_config m0" for m0 :: residency_metric and ss
    by (induction ss arbitrary: m0) (simp_all add: t)
  have "rs_op_config (Residency_Reset cfg m) = (\<lambda>_. None)"
    by (simp add: Residency_Reset_def InitializeResidencyState_def Let_def t p split: option.split)
  then show ?thesis
    by (induction raws) (simp_all add: Residency_ReceiveRawSample_def)
qed

lemma length_update_ge: "length xs \<le> length (AList.update k v xs)"
  by (induction xs) auto

text \<open>Once the round holds more entries than there are states, it is never complete again.\<close>

lemma residency_overfull_receive:
  assumes "length (rc_states cfg) < length (rs_processed m)"
  shows "snd (snd (Residency_ReceiveRawSample cfg sink raw (m, s))) = s
    \<and> length (rc_states cfg) < length (rs_processed (fst (snd (Residency_ReceiveRawSample cfg sink raw (m, s)))))"
proof (cases rule: Residency_receive_cases [of cfg sink raw m s])
  case (counted name prev d f us pct x status m2 s2)
  have "length (rc_states cfg) < length (AList.update name us (rs_processed m))"
    using assms length_update_ge [of "rs_processed m" name us] by linarith
  then have "status = ASTL_STATUS_SUCCESS" "m2 = UpdateStateResidencyStatistics name us pct (m\<lparr>rs_pending := x\<rparr>)" "s2 = s"
    using counted(4) by (auto simp: complete_round_def)
  then show ?thesis using assms length_update_ge [of "rs_processed m" name us] by (simp add: counted(5))
qed (use assms in simp_all)

lemma length_update_new: "k \<notin> fst ` set xs \<Longrightarrow> length (AList.update k v xs) = Suc (length xs)"
  by (induction xs) auto

text \<open>
  When the delivery of a round with unaccounted time fails, the inferred state stays among
  the processed states; the round is then never complete again and no later sample reaches the
  sink, however many arrive, until a pause or a reset.
\<close>

theorem residency_failed_delivery_is_final:
  assumes "rc_inferred cfg = Some idle" "length (rc_states cfg) = length (rs_processed m)"
    and "idle \<notin> fst ` set (rs_processed m)" "accounted_time (rs_processed m) < interval"
    and "0 \<le> accounted_time (rs_processed m)" "interval < 2 ^ 63"
    and "complete_round cfg sink interval ts (m, s) = (status, m', s')" "status \<noteq> ASTL_STATUS_SUCCESS"
  shows "snd (snd (receive_all (Residency_ReceiveRawSample cfg sink') raws (m', s'))) = s'"
proof -
  let ?a = "accounted_time (rs_processed m)"
  have w: "wrap64 (interval - ?a) = interval - ?a"
    using assms(4-6) by (intro wrap64_id) (simp add: in_int64_def)
  have "rs_processed m' = AList.update idle (interval - ?a) (rs_processed m)"
    using assms(1,2,4,5,7,8) w
    by (auto simp: complete_round_def CalculateInferredStateResidencyForInterval_def Let_def split: prod.splits if_splits)
  then have "length (rc_states cfg) < length (rs_processed m')"
    using length_update_new [OF assms(3)] assms(2) by simp
  then show ?thesis
  proof (induction raws arbitrary: m' s')
    case (Cons raw raws)
    show ?case
      using Cons.IH residency_overfull_receive [OF Cons.prems, of sink' raw s']
      by (auto split: prod.split) (metis fst_conv snd_conv)
  qed simp
qed

theorem residency_failed_delivery_is_final_witness:
  "\<forall>raws. snd (snd (receive_all (Residency_ReceiveRawSample two_states (Some (store_sink 1 2))) raws
     (fst (snd (complete_round two_states None 1000 7 (open_round, empty_store))), empty_store))) = empty_store"
proof -
  let ?r = "complete_round two_states None 1000 7 (open_round, empty_store)"
  have a: "accounted_time (rs_processed open_round) = 500"
    by (simp add: accounted_time_def in_int64_def)
  have r: "fst ?r = ASTL_STATUS_BAD_CONFIGURATION" "snd (snd ?r) = empty_store"
    by (simp_all add: complete_round_def CalculateInferredStateResidencyForInterval_def SinkOrderedStateSamples_def
        SinkProcessedSample_def Let_def numeral_2_eq_2 [symmetric] del: One_nat_def)
  have "?r = (ASTL_STATUS_BAD_CONFIGURATION, fst (snd ?r), empty_store)"
    using r by (metis prod.collapse)
  from residency_failed_delivery_is_final [OF _ _ _ _ _ _ this, of "''C0''" "Some (store_sink 1 2)"] a
  show ?thesis by simp
qed

end
