(* ===== verification/Residency_Rounds.thy ===== *)
theory Residency_Rounds
  imports Residency "HOL-Library.Multiset"
begin

text \<open>
  Whole rounds of a residency metric, through ReceiveRawSample: one sample of every state at one
  timestamp, in any order, from the state that the round before has left.
\<close>

section \<open>Between two rounds\<close>

text \<open>
  The operations of the states have consecutive ids from the first one on, every state has a last
  sample, and nothing is gathered yet.
\<close>

definition residency_ready :: "residency_config \<Rightarrow> 16 word \<Rightarrow> (nat \<Rightarrow> normalized_sample) \<Rightarrow> residency_metric \<Rightarrow> bool" where
  "residency_ready cfg base prev m \<longleftrightarrow> rs_first_op m = Some base \<and> rs_processed m = [] \<and> rs_pending m = []
    \<and> rs_pending_inferred m = None
    \<and> (\<forall>i<length (rc_states cfg). rs_op_config m (base + of_nat i) = Some (rc_states cfg ! i)
        \<and> rs_previous m (si_name (rc_states cfg ! i)) = Some (prev i))"

text \<open>The sample of a state at time t, whose counter has run for us microseconds since the last one at t0.\<close>

definition residency_measured ::
    "residency_config \<Rightarrow> 16 word \<Rightarrow> int \<Rightarrow> int \<Rightarrow> nat \<Rightarrow> normalized_sample \<Rightarrow> normalized_sample \<Rightarrow> int \<Rightarrow> bool" where
  "residency_measured cfg base t0 t i prev raw us \<longleftrightarrow>
    ns_operation_id raw = base + of_nat i \<and> ns_timestamp prev = t0 \<and> ns_timestamp raw = t
    \<and> CheckSampleValueType (rc_metric cfg) raw = ASTL_STATUS_SUCCESS
    \<and> (\<exists>d. CalculateDelta (ns_value raw) (ns_value prev) = Inr d
        \<and> ConvertTicksToMicroseconds d (si_tick_frequency (rc_states cfg ! i)) = Inr us)
    \<and> 0 \<le> us"

definition state_sample :: "int \<Rightarrow> int \<Rightarrow> processed_sample" where
  "state_sample t us = \<lparr>ps_value = VU64 (word_of_int us), ps_timestamp = t\<rparr>"

section \<open>Gathering a round\<close>

definition residency_gathered :: "residency_config \<Rightarrow> 16 word \<Rightarrow> int \<Rightarrow> (nat \<Rightarrow> normalized_sample) \<Rightarrow> (nat \<Rightarrow> normalized_sample)
    \<Rightarrow> (nat \<Rightarrow> int) \<Rightarrow> nat list \<Rightarrow> residency_metric \<Rightarrow> bool" where
  "residency_gathered cfg base t prev raw us seen m \<longleftrightarrow> rs_first_op m = Some base
    \<and> rs_processed m = map (\<lambda>i. (si_name (rc_states cfg ! i), us i)) seen
    \<and> rs_pending m = map (\<lambda>i. (base + of_nat i, state_sample t (us i))) seen
    \<and> rs_pending_inferred m = None
    \<and> (\<forall>i<length (rc_states cfg). rs_op_config m (base + of_nat i) = Some (rc_states cfg ! i)
        \<and> rs_previous m (si_name (rc_states cfg ! i)) = Some (if i \<in> set seen then raw i else prev i))"

lemma update_new: "k \<notin> fst ` set xs \<Longrightarrow> AList.update k v xs = xs @ [(k, v)]"
  by (induction xs) auto

lemma op_ids_distinct: "i < n \<Longrightarrow> j < n \<Longrightarrow> unat base + n < 2 ^ 16 \<Longrightarrow> (base :: 16 word) + of_nat i = base + of_nat j \<longleftrightarrow> i = j"
proof -
  assume "i < n" "j < n" "unat base + n < 2 ^ 16"
  then have "unat (of_nat i :: 16 word) = i" "unat (of_nat j :: 16 word) = j" by (simp_all add: unat_of_nat_less)
  then show ?thesis by (metis add_left_cancel)
qed

lemma operation_range_ids: "unat base + n < 2 ^ 16 \<Longrightarrow> operation_range base n = map (\<lambda>i. base + of_nat i) [0..<n]"
proof -
  assume n: "unat base + n < 2 ^ 16"
  then have "unat (of_nat n :: 16 word) = n" by (simp add: unat_of_nat_less)
  then have "unat (base + of_nat n) = unat base + n" using unat_add_le [of base "of_nat n"] n by simp
  then have "[unat base ..< unat (base + of_nat n)] = map (\<lambda>i. unat base + i) [0..<n]" by (simp add: map_add_upt add.commute)
  then show ?thesis by (simp add: operation_range_def o_def)
qed

lemma complete_round_frame:
  "rs_first_op (fst (snd (complete_round cfg sink i t (m, s)))) = rs_first_op m"
  "rs_op_config (fst (snd (complete_round cfg sink i t (m, s)))) = rs_op_config m"
  "rs_previous (fst (snd (complete_round cfg sink i t (m, s)))) = rs_previous m"
  by (simp_all add: complete_round_def CalculateInferredStateResidencyForInterval_def UpdateStateResidencyStatistics_def Let_def
      split: prod.split)

text \<open>One sample of the round: it is gathered, and then the round is checked.\<close>

lemma residency_gather:
  assumes "residency_gathered cfg base t prev raw us seen m" "distinct (map si_name (rc_states cfg))"
    and "i < length (rc_states cfg)" "i \<notin> set seen" "set seen \<subseteq> {..<length (rc_states cfg)}"
    and "unat base + length (rc_states cfg) < 2 ^ 16"
    and "residency_measured cfg base t0 t i (prev i) (raw i) (us i)" "0 < time_interval_us t t0"
  obtains m1 where "Residency_ReceiveRawSample cfg sink (raw i) (m, s) =
      (case complete_round cfg sink (time_interval_us t t0) t (m1, s) of (status, m2, s2) \<Rightarrow>
         if status \<noteq> ASTL_STATUS_SUCCESS then (status, m2, s2)
         else (ASTL_STATUS_SUCCESS, m2\<lparr>rs_previous := (rs_previous m2)(si_name (rc_states cfg ! i) := Some (raw i))\<rparr>, s2))"
    "residency_gathered cfg base t prev raw us (seen @ [i]) (m1\<lparr>rs_previous := (rs_previous m1)(si_name (rc_states cfg ! i) := Some (raw i))\<rparr>)"
proof -
  let ?name = "\<lambda>i. si_name (rc_states cfg ! i)"
  let ?x = "rs_pending m @ [(base + of_nat i, state_sample t (us i))]"
  obtain d where d: "CalculateDelta (ns_value (raw i)) (ns_value (prev i)) = Inr d"
      "ConvertTicksToMicroseconds d (si_tick_frequency (rc_states cfg ! i)) = Inr (us i)"
    and raw: "ns_operation_id (raw i) = base + of_nat i" "ns_timestamp (prev i) = t0" "ns_timestamp (raw i) = t"
      "CheckSampleValueType (rc_metric cfg) (raw i) = ASTL_STATUS_SUCCESS" "0 \<le> us i"
    using assms(7) by (auto simp: residency_measured_def)
  have pct: "CalculatePercentage (us i) (time_interval_us t t0) = Inr (percentage_of (us i) (time_interval_us t t0))"
    using assms(8) raw(5) by (simp add: CalculatePercentage_def)
  have op: "rs_op_config m (base + of_nat i) = Some (rc_states cfg ! i)" "rs_previous m (?name i) = Some (prev i)"
    using assms(1,3,4) by (simp_all add: residency_gathered_def)
  have names: "j < length (rc_states cfg) \<Longrightarrow> ?name j = ?name i \<longleftrightarrow> j = i" for j
    using assms(2,3) by (metis distinct_conv_nth length_map nth_map)
  have "base + of_nat i \<notin> fst ` set (rs_pending m)"
    using assms(1,4,5,6) op_ids_distinct [OF assms(3) _ assms(6)] by (auto simp: residency_gathered_def)
  then have x: "AList.update (base + of_nat i) (state_sample t (us i)) (rs_pending m) = ?x" by (rule update_new)
  have other: "\<forall>j\<in>set seen. ?name j \<noteq> ?name i" using names assms(4,5) by blast
  have "?name i \<notin> fst ` set (rs_processed m)"
    using assms(1) other by (auto simp: residency_gathered_def)
  then have y: "AList.update (?name i) (us i) (rs_processed m) = rs_processed m @ [(?name i, us i)]" by (rule update_new)
  let ?m1 = "UpdateStateResidencyStatistics (?name i) (us i) (percentage_of (us i) (time_interval_us t t0)) (m\<lparr>rs_pending := ?x\<rparr>)"
  show ?thesis
  proof (rule that [of ?m1])
    show "Residency_ReceiveRawSample cfg sink (raw i) (m, s) =
      (case complete_round cfg sink (time_interval_us t t0) t (?m1, s) of (status, m2, s2) \<Rightarrow>
         if status \<noteq> ASTL_STATUS_SUCCESS then (status, m2, s2)
         else (ASTL_STATUS_SUCCESS, m2\<lparr>rs_previous := (rs_previous m2)(?name i := Some (raw i))\<rparr>, s2))"
      using x by (simp add: Residency_ReceiveRawSample_def raw op d pct Let_def state_sample_def)
    have "rs_pending_inferred ?m1 = rs_pending_inferred m" "rs_previous ?m1 = rs_previous m"
      by (simp_all add: UpdateStateResidencyStatistics_def)
    then show "residency_gathered cfg base t prev raw us (seen @ [i]) (?m1\<lparr>rs_previous := (rs_previous ?m1)(?name i := Some (raw i))\<rparr>)"
      using assms(1) y names by (auto simp: residency_gathered_def)
  qed
qed

section \<open>A whole round\<close>

lemma sum_list_perm: "mset xs = mset ys \<Longrightarrow> sum_list (map f xs) = (sum_list (map f ys) :: int)"
  by (metis mset_map sum_mset_sum_list)

lemma residency_rest:
  fixes st :: "('t, 'm, 'c) store"
  assumes "rc_inferred cfg = Some idle" "distinct (map si_name (rc_states cfg))" "unat base + length (rc_states cfg) < 2 ^ 16"
    and "0 < time_interval_us t t0" "time_interval_us t t0 < 2 ^ 63"
    and "\<forall>i<length (rc_states cfg). residency_measured cfg base t0 t i (prev i) (raw i) (us i)"
    and "used = sum_list (map us [0..<length (rc_states cfg)])" "used \<le> time_interval_us t t0"
    and "residency_gathered cfg base t prev raw us seen m" "distinct (seen @ rest)" "set (seen @ rest) = {..<length (rc_states cfg)}"
    and "rest \<noteq> []" "batch_visit st = None"
  shows "\<exists>m' st'. receive_all (Residency_ReceiveRawSample cfg (Some (store_sink k l))) (map raw rest) (m, st)
      = (replicate (length rest) ASTL_STATUS_SUCCESS, m', st')
    \<and> stored_samples st' k l = stored_samples st k l @ map (\<lambda>i. state_sample t (us i)) [0..<length (rc_states cfg)]
        @ (if used < time_interval_us t t0 then [state_sample t (time_interval_us t t0 - used)] else [])
    \<and> residency_ready cfg base raw m' \<and> batch_visit st' = None"
  using assms(9-12)
proof (induction rest arbitrary: seen m)
  case (Cons i rest)
  let ?n = "length (rc_states cfg)" and ?name = "\<lambda>i. si_name (rc_states cfg ! i)"
  let ?int = "time_interval_us t t0"
  have i: "i < ?n" "i \<notin> set seen" "set seen \<subseteq> {..<?n}" using Cons.prems(2,3) by auto
  from assms(6) i(1) have meas: "residency_measured cfg base t0 t i (prev i) (raw i) (us i)" by blast
  obtain m1 where rec: "Residency_ReceiveRawSample cfg (Some (store_sink k l)) (raw i) (m, st) =
      (case complete_round cfg (Some (store_sink k l)) ?int t (m1, st) of (status, m2, s2) \<Rightarrow>
         if status \<noteq> ASTL_STATUS_SUCCESS then (status, m2, s2)
         else (ASTL_STATUS_SUCCESS, m2\<lparr>rs_previous := (rs_previous m2)(?name i := Some (raw i))\<rparr>, s2))"
    and g: "residency_gathered cfg base t prev raw us (seen @ [i]) (m1\<lparr>rs_previous := (rs_previous m1)(?name i := Some (raw i))\<rparr>)"
    using residency_gather [OF Cons.prems(1) assms(2) i assms(3) meas assms(4), of "Some (store_sink k l)" st] .
  let ?m2 = "m1\<lparr>rs_previous := (rs_previous m1)(?name i := Some (raw i))\<rparr>"
  from g have m1: "rs_processed m1 = map (\<lambda>i. (?name i, us i)) (seen @ [i])" "rs_first_op m1 = Some base"
      "rs_pending m1 = map (\<lambda>i. (base + of_nat i, state_sample t (us i))) (seen @ [i])" "rs_pending_inferred m1 = None"
    by (simp_all add: residency_gathered_def)
  have len: "length (seen @ i # rest) = ?n"
    using distinct_card [OF Cons.prems(2)] Cons.prems(3) by simp
  show ?case
  proof (cases rest)
    case (Cons j rest')
    then have "complete_round cfg (Some (store_sink k l)) ?int t (m1, st) = (ASTL_STATUS_SUCCESS, m1, st)"
      using len by (simp add: complete_round_def m1(1))
    then have step: "Residency_ReceiveRawSample cfg (Some (store_sink k l)) (raw i) (m, st) = (ASTL_STATUS_SUCCESS, ?m2, st)"
      by (simp add: rec)
    have "distinct ((seen @ [i]) @ rest)" "set ((seen @ [i]) @ rest) = {..<?n}" "rest \<noteq> []"
      using Cons.prems(2,3) Cons by auto
    from Cons.IH [OF g this] show ?thesis by (auto simp: step)
  next
    case Nil
    have perm: "mset (seen @ [i]) = mset [0..<?n]"
      using Cons.prems(2,3) Nil by (intro set_eq_iff_mset_eq_distinct [THEN iffD1]) (auto simp: lessThan_atLeast0)
    have "map snd (rs_processed m1) = map us (seen @ [i])" by (simp add: m1(1))
    then have used: "used = sum_list (map snd (rs_processed m1))"
      using sum_list_perm [OF perm, of us] assms(7) by simp
    have nonneg: "\<forall>p\<in>set (rs_processed m1). 0 \<le> snd p"
      using assms(6) i(1,3) by (auto simp: m1(1) residency_measured_def)
    have inj: "inj_on (\<lambda>i. base + of_nat i :: 16 word) {..<?n}"
      using op_ids_distinct [OF _ _ assms(3)] by (auto simp: inj_on_def)
    have pend: "map_of (rs_pending m1) (base + of_nat j) = Some (state_sample t (us j))" if "j < ?n" for j
    proof -
      have "j \<in> set (seen @ [i])" using that Cons.prems(3) Nil by auto
      moreover have "distinct (map fst (rs_pending m1))"
      proof -
        have "set (seen @ [i]) = {..<?n}" "distinct (seen @ [i])" using Cons.prems(2,3) Nil by simp_all
        then have "distinct (map (\<lambda>i. base + of_nat i :: 16 word) (seen @ [i]))" unfolding distinct_map using inj by simp
        then show ?thesis by (simp add: m1(3) o_def)
      qed
      ultimately show ?thesis by (intro map_of_is_SomeI) (auto simp: m1(3))
    qed
    have plen: "length (rs_pending m1) = ?n" using len Nil by (simp add: m1(3))
    have range: "operation_range base (length (rs_pending m1)) = map (\<lambda>i. base + of_nat i) [0..<?n]"
      unfolding plen by (rule operation_range_ids [OF assms(3)])
    have all: "\<forall>op\<in>set (operation_range base (length (rs_pending m1))). map_of (rs_pending m1) op \<noteq> None"
      unfolding range using pend by auto
    have pl: "length (rc_states cfg) = length (rs_processed m1)" using len Nil by (simp add: m1(1))
    have ne: "rs_pending m1 \<noteq> []" by (simp add: m1(3))
    obtain m3 st' where c: "complete_round cfg (Some (store_sink k l)) ?int t (m1, st) = (ASTL_STATUS_SUCCESS, m3, st')"
        "stored_samples st' k l = stored_samples st k l
          @ map (\<lambda>op. the (map_of (rs_pending m1) op)) (operation_range base (length (rs_pending m1)))
          @ (if used < ?int then [\<lparr>ps_value = VU64 (word_of_int (?int - used)), ps_timestamp = t\<rparr>] else [])"
        "rs_processed m3 = []" "rs_pending m3 = []" "rs_pending_inferred m3 = None" "batch_visit st' = None"
      using complete_round_delivers [OF assms(1) pl assms(4,5) nonneg used assms(8) m1(2) ne m1(4) all assms(13), where t = k and k = l and ts = t] by blast
    have frame: "rs_first_op m3 = rs_first_op m1" "rs_op_config m3 = rs_op_config m1" "rs_previous m3 = rs_previous m1"
      using complete_round_frame [of cfg "Some (store_sink k l)" ?int t m1 st] by (simp_all add: c(1))
    have out: "map (\<lambda>op. the (map_of (rs_pending m1) op)) (operation_range base (length (rs_pending m1)))
        = map (\<lambda>i. state_sample t (us i)) [0..<?n]"
      unfolding range by (simp add: pend)
    have "residency_ready cfg base raw (m3\<lparr>rs_previous := (rs_previous m3)(?name i := Some (raw i))\<rparr>)"
      using g c(3-5) frame Cons.prems(3) Nil by (auto simp: residency_ready_def residency_gathered_def)
    then show ?thesis
      using c(1,2,6) by (simp add: Nil rec out state_sample_def)
  qed
qed simp

lemma sum_list_int_parts: "\<forall>x\<in>set xs. 0 \<le> f x \<Longrightarrow> (\<Sum>x\<leftarrow>xs. int (nat (f x))) = sum_list (map f xs)"
  by (induction xs) simp_all

lemma part_le_sum: "x \<in> set xs \<Longrightarrow> \<forall>y\<in>set xs. 0 \<le> f y \<Longrightarrow> f x \<le> (sum_list (map f xs) :: int)"
proof (induction xs)
  case (Cons y xs)
  have "0 \<le> sum_list (map f xs)" using Cons.prems(2) by (intro sum_list_nonneg) auto
  then show ?case using Cons by auto
qed simp

lemma state_sample_part: "0 \<le> us \<Longrightarrow> us < 2 ^ 64 \<Longrightarrow> int_part (ps_value (state_sample t us)) = nat us"
proof -
  assume "0 \<le> us" "us < 2 ^ 64"
  then have "uint (word_of_int us :: 64 word) = us"
    unfolding uint_word_of_int by (intro mod_pos_pos_trivial) simp_all
  then show ?thesis by (simp add: state_sample_def unat_eq_nat_uint)
qed

text \<open>
  C35: a residency metric with an inferred state and at least one other, of distinct names, whose
  operations have consecutive ids from its first one on, as long as no pause has dropped that first
  id, receives a whole round between two rounds and outside a batch visit: one sample of every state
  with the value type of the metric, in any order, all at one timestamp, a positive number of
  microseconds below 2^63 after the one timestamp of the last samples, whose counters ran for no
  negative time and together for no more than that interval. Then every sample is accepted; the
  round is delivered in the order of the operations whatever the order of arrival, followed by the
  inferred state when time is left; the delivered values are the times the states' counters ran for
  and add up to the interval exactly; and the metric is again between two rounds, with the samples
  of this one as the last ones.
\<close>

theorem residency_round_conserves_time:
  fixes st :: "('t, 'm, 'c) store"
  assumes "rc_inferred cfg = Some idle" "distinct (map si_name (rc_states cfg))" "unat base + length (rc_states cfg) < 2 ^ 16"
    and "residency_ready cfg base prev m" "batch_visit st = None"
    and "distinct order" "set order = {..<length (rc_states cfg)}" "rc_states cfg \<noteq> []"
    and "\<forall>i<length (rc_states cfg). residency_measured cfg base t0 t i (prev i) (raw i) (us i)"
    and "0 < time_interval_us t t0" "time_interval_us t t0 < 2 ^ 63"
    and "sum_list (map us [0..<length (rc_states cfg)]) \<le> time_interval_us t t0"
  shows "\<exists>m' st' delivered. receive_all (Residency_ReceiveRawSample cfg (Some (store_sink k l))) (map raw order) (m, st)
      = (replicate (length (rc_states cfg)) ASTL_STATUS_SUCCESS, m', st')
    \<and> stored_samples st' k l = stored_samples st k l @ delivered
    \<and> take (length (rc_states cfg)) delivered = map (\<lambda>i. state_sample t (us i)) [0..<length (rc_states cfg)]
    \<and> length delivered \<le> length (rc_states cfg) + 1 \<and> (\<forall>p\<in>set delivered. ps_timestamp p = t)
    \<and> (\<Sum>p\<leftarrow>delivered. int (int_part (ps_value p))) = time_interval_us t t0
    \<and> residency_ready cfg base raw m' \<and> batch_visit st' = None"
proof -
  let ?n = "length (rc_states cfg)" and ?int = "time_interval_us t t0"
  let ?used = "sum_list (map us [0..<?n])"
  let ?delivered = "map (\<lambda>i. state_sample t (us i)) [0..<?n] @ (if ?used < ?int then [state_sample t (?int - ?used)] else [])"
  have start: "residency_gathered cfg base t prev raw us [] m"
    using assms(4) by (simp add: residency_ready_def residency_gathered_def)
  have len: "length order = ?n" using distinct_card [OF assms(6)] assms(7) by simp
  then have order: "distinct ([] @ order)" "set ([] @ order) = {..<?n}" "order \<noteq> []" using assms(6-8) by (simp_all, force)
  have us: "0 \<le> us i" if "i < ?n" for i using assms(9) that by (auto simp: residency_measured_def)
  have le: "us i \<le> ?used" if "i < ?n" for i
    using that us by (intro part_le_sum) auto
  have used0: "0 \<le> ?used" using us by (intro sum_list_nonneg) auto
  have parts: "int_part (ps_value (state_sample t (us i))) = nat (us i)" if "i < ?n" for i
    using us [OF that] le [OF that] assms(11,12) by (intro state_sample_part) simp_all
  have "map (\<lambda>p. int (int_part (ps_value p))) (map (\<lambda>i. state_sample t (us i)) [0..<?n]) = map (\<lambda>i. int (nat (us i))) [0..<?n]"
    unfolding map_map by (intro map_cong refl) (simp add: parts)
  then have states: "(\<Sum>p\<leftarrow>map (\<lambda>i. state_sample t (us i)) [0..<?n]. int (int_part (ps_value p))) = ?used"
    using us sum_list_int_parts [of "[0..<?n]" us] by (simp only: set_upt atLeastLessThan_iff) simp
  have "int_part (ps_value (state_sample t (?int - ?used))) = nat (?int - ?used)"
  proof (rule state_sample_part)
    have "?int < 2 ^ 64" using assms(11) by simp
    then show "?int - ?used < 2 ^ 64" using used0 by linarith
  qed (use assms(12) in simp)
  then have "(\<Sum>p\<leftarrow>?delivered. int (int_part (ps_value p))) = ?int"
    unfolding map_append sum_list_append states using assms(12) by (cases "?used < ?int") simp_all
  moreover have "\<forall>p\<in>set ?delivered. ps_timestamp p = t" by (auto simp: state_sample_def)
  moreover obtain m' st' where "receive_all (Residency_ReceiveRawSample cfg (Some (store_sink k l))) (map raw order) (m, st)
        = (replicate ?n ASTL_STATUS_SUCCESS, m', st')"
      "stored_samples st' k l = stored_samples st k l @ ?delivered" "residency_ready cfg base raw m'" "batch_visit st' = None"
    using residency_rest [OF assms(1-3,10,11,9) refl assms(12) start order assms(5), of k l] by (auto simp: len)
  ultimately show ?thesis by (intro exI [of _ m'] exI [of _ st'] exI [of _ ?delivered]) simp
qed

text \<open>Two states with counters of one tick a second, after their operations were built and read once.\<close>

definition counted_states :: residency_config where
  "counted_states = \<lparr>rc_metric = u32_config,
    rc_states = [\<lparr>si_name = ''C1'', si_tick_frequency = FNum 1\<rparr>, \<lparr>si_name = ''C6'', si_tick_frequency = FNum 1\<rparr>],
    rc_inferred = Some ''C0''\<rparr>"

definition counted_reading :: "nat \<Rightarrow> nat \<Rightarrow> int \<Rightarrow> normalized_sample" where
  "counted_reading i n t = \<lparr>ns_operation_id = 1 + of_nat i, ns_value = VU32 (of_nat n), ns_timestamp = t\<rparr>"

definition counted_once :: "residency_metric" where
  "counted_once = fst (snd (receive_all (Residency_ReceiveRawSample counted_states (Some (store_sink (1 :: nat) (2 :: nat))))
     [counted_reading 0 10 0, counted_reading 1 20 0]
     (snd (Residency_GetOperations (\<lambda>s. Inr [if si_name s = ''C1'' then 1 else 2]) (rc_states counted_states)
        (ResidencyMetric counted_states)), empty_store :: (nat, nat, unit) store)))"

lemma counted_once_ready: "residency_ready counted_states 1 (\<lambda>i. counted_reading i (if i = 0 then 10 else 20) 0) counted_once"
  by (simp add: counted_once_def residency_ready_def counted_states_def counted_reading_def Residency_ReceiveRawSample_def
    ResidencyMetric_def InitializeResidencyState_def track_state_def register_operation_def Let_def less_Suc_eq
    CheckSampleValueType_def u32_config_def MetricConfig_def)

lemma counted_ticks:
  assumes "n < 1000" "0 < n"
  shows "ConvertTicksToMicroseconds (VU32 (of_nat n)) (FNum 1) = Inr (int n * 1000000)"
proof -
  have pos: "n \<noteq> 0" using assms(2) by simp
  have n: "fp_of_int binary64 (int n) = FNum (of_nat n)" "fp_of_int binary64 1000000 = FNum 1000000"
    using fp_of_int_exact [of binary64 "int n"] fp_of_int_exact [of binary64 1000000] assms pos by simp_all
  have q: "fp_div binary64 (FNum (of_nat n)) (FNum 1) = FNum (of_nat n)"
    using fp_of_rat_rep [OF fp_rep_int [of binary64 "int n"]] assms pos by (simp add: fp_div_finite)
  have "fp_mul binary64 (FNum (of_nat n)) (FNum 1000000) = fp_of_rat binary64 False (of_int (int n * 1000000))"
    by (simp add: fp_mul_finite)
  also have "\<dots> = FNum (of_int (int n * 1000000))"
    using fp_of_rat_rep [OF fp_rep_int [of binary64 "int n * 1000000"]] assms pos by simp
  finally have p: "fp_mul binary64 (FNum (of_nat n)) (FNum 1000000) = FNum (of_int (int n * 1000000))" .
  have "unat (of_nat n :: 32 word) = n" using assms by (intro unat_of_nat_less) simp
  moreover have k: "round_away (of_int k) = k" for k :: int
    by (simp add: round_away_def floor_eq_iff ceiling_eq_iff)
  have "fp_std_round binary64 (FNum (of_int (int n * 1000000))) = FNum (of_int (int n * 1000000))"
    using fp_of_rat_rep [OF fp_rep_int [of binary64 "int n * 1000000"]] assms pos unfolding fp_std_round_def fp.case k by simp
  moreover have trunc: "fp_to_int64 (FNum (of_int k)) = min (max k (- (2 ^ 63))) (2 ^ 63 - 1)" for k
    by (simp add: rat_trunc_def)
  have "fp_to_int64 (FNum (of_int (int n * 1000000))) = int n * 1000000"
    using assms trunc [of "int n * 1000000"] by simp
  moreover have "\<not> fp_le (FNum 1) (FZero False)" by (simp add: fp_le_def fp_cmp_def)
  ultimately show ?thesis
    by (simp only: ConvertTicksToMicroseconds_def cast_f64_def n q p) (simp add: n q p)
qed

theorem residency_round_conserves_time_witness:
  "\<exists>m' st'. receive_all (Residency_ReceiveRawSample counted_states (Some (store_sink 1 2)))
      [counted_reading 1 220 1000000000000, counted_reading 0 310 1000000000000] (counted_once, empty_store)
      = (replicate 2 ASTL_STATUS_SUCCESS, m', st')
    \<and> take 2 (stored_samples st' 1 2) = [state_sample 1000000000000 300000000, state_sample 1000000000000 200000000]
    \<and> (\<Sum>p\<leftarrow>stored_samples st' 1 2. int (int_part (ps_value p))) = 1000000000"
proof -
  let ?prev = "\<lambda>i. counted_reading i (if i = 0 then 10 else 20) 0"
  let ?raw = "\<lambda>i. counted_reading i (if i = 0 then 310 else 220) 1000000000000"
  let ?us = "\<lambda>i. if i = 0 then 300000000 else 200000000"
  have meas: "residency_measured counted_states 1 0 1000000000000 i (?prev i) (?raw i) (?us i)" if "i < 2" for i
  proof -
    have d: "CalculateDelta (ns_value (?raw i)) (ns_value (?prev i)) = Inr (VU32 (of_nat (if i = 0 then 300 else 200)))"
      using that by (auto simp: counted_reading_def CalculateDelta_def Subtract_def Let_def cast_u32_def less_2_cases_iff)
    have f: "si_tick_frequency (rc_states counted_states ! i) = FNum 1"
      using that by (auto simp: counted_states_def less_2_cases_iff)
    have "ConvertTicksToMicroseconds (VU32 (of_nat (if i = 0 then 300 else 200))) (FNum 1) = Inr (?us i)"
      using counted_ticks [of 300] counted_ticks [of 200] by simp
    then show ?thesis
      using d f by (simp add: residency_measured_def) (simp add: counted_reading_def counted_states_def CheckSampleValueType_def u32_config_def MetricConfig_def)
  qed
  have n: "length (rc_states counted_states) = 2" "rc_states counted_states \<noteq> []" "distinct (map si_name (rc_states counted_states))"
      "rc_inferred counted_states = Some ''C0''"
    by (simp_all add: counted_states_def)
  have time: "time_interval_us 1000000000000 0 = 1000000000" by (simp add: time_interval_us_def sdiv_pos_nonneg)
  have range: "[0..<2] = [0, 1 :: nat]" by (simp add: upt_rec)
  have ord: "distinct [1, 0 :: nat]" "set [1, 0 :: nat] = {..<length (rc_states counted_states)}" by (auto simp: n less_2_cases_iff)
  have ids: "unat (1 :: 16 word) + length (rc_states counted_states) < 2 ^ 16" by (simp add: n)
  have all: "\<forall>i<length (rc_states counted_states). residency_measured counted_states 1 0 1000000000000 i (?prev i) (?raw i) (?us i)"
    using meas by (simp add: n)
  show ?thesis
    using residency_round_conserves_time [OF n(4,3) ids counted_once_ready _ ord n(2) all, of empty_store 1 2]
    by (simp add: n(1) time range del: receive_all.simps One_nat_def) blast
qed

end
