(* ===== verification/Summarizer.thy ===== *)
theory Summarizer
  imports Sample_Batches Metrics
begin

text \<open>
  src/impl/output/summarizer.cpp: the streaming accumulators (minimum, maximum and average; the
  left-hold time-weighted average with pause clipping; the discrete histogram), their results,
  and the ranged histogram.  Each accumulator is an interpretation of batch_consumer, so that
  the batches in which the orchestrator delivers samples do not matter.  IsArithmetic holds of
  every alternative of AstlValue, so that its guards are left out.
\<close>

definition kSizeMax :: nat where "kSizeMax = 2 ^ 64 - 1"

text \<open>std::round(x * 100.0) / 100.0\<close>

definition round_to_cents :: "fp \<Rightarrow> fp" where
  "round_to_cents x =
    fp_div binary64 (fp_std_round binary64 (fp_mul binary64 x (fp_of_int binary64 100))) (fp_of_int binary64 100)"

section \<open>Minimum, maximum and average\<close>

record minmax_acc =
  ma_min :: "astl_value option"
  ma_max :: "astl_value option"
  ma_count :: nat
  ma_sum :: "astl_value option"
  ma_arithmetic_count :: nat

definition new_minmax :: minmax_acc where
  "new_minmax = \<lparr>ma_min = None, ma_max = None, ma_count = 0, ma_sum = None, ma_arithmetic_count = 0\<rparr>"

definition MinMaxAvg_sample :: "processed_sample \<Rightarrow> minmax_acc \<Rightarrow> astl_status \<times> minmax_acc" where
  "MinMaxAvg_sample sample a =
    (let v = ps_value sample;
         a1 = a\<lparr>ma_min := Some (std_min v (case ma_min a of Some x \<Rightarrow> x | None \<Rightarrow> v)),
                ma_max := Some (std_max v (case ma_max a of Some x \<Rightarrow> x | None \<Rightarrow> v))\<rparr> in
     case (case ma_sum a of
             Some s \<Rightarrow> Inr s
           | None \<Rightarrow> FromUnionPromoting (snd (ToAstlUnionValue v))) of
       Inl e \<Rightarrow> (ASTL_STATUS_INTERNAL_ERROR, a1)
     | Inr s \<Rightarrow>
        (case Add s v of
           Inl e \<Rightarrow> (ASTL_STATUS_INTERNAL_ERROR, a1\<lparr>ma_sum := Some s\<rparr>)
         | Inr s' \<Rightarrow>
             (ASTL_STATUS_SUCCESS, a1\<lparr>ma_sum := Some s', ma_arithmetic_count := Suc (ma_arithmetic_count a)\<rparr>)))"

definition MinMaxAvg_Add :: "processed_sample list \<Rightarrow> minmax_acc \<Rightarrow> astl_status \<times> minmax_acc" where
  "MinMaxAvg_Add samples a =
    (if length samples > kSizeMax - ma_count a then (ASTL_STATUS_BUFFER_TOO_SMALL, a)
     else fold_status MinMaxAvg_sample samples (a\<lparr>ma_count := ma_count a + length samples\<rparr>))"

record minmax_summary =
  mm_min :: "astl_value option"
  mm_max :: "astl_value option"
  mm_avg :: "astl_value option"
  mm_count :: nat

definition MinMaxAvg_Result :: "minmax_acc \<Rightarrow> minmax_summary result" where
  "MinMaxAvg_Result a =
    (let s = \<lparr>mm_min = ma_min a, mm_max = ma_max a, mm_avg = None, mm_count = ma_count a\<rparr> in
     if ma_arithmetic_count a = 0 then Inr s
     else case Divide_f64 (the (ma_sum a)) (fp_of_int binary64 (int (ma_arithmetic_count a))) of
       Inl e \<Rightarrow> Inl ASTL_STATUS_INTERNAL_ERROR
     | Inr avg \<Rightarrow> Inr (s\<lparr>mm_avg := Some (VF64 (round_to_cents (fp_part avg)))\<rparr>))"

definition MinMaxAvg_Summarize :: "processed_sample list \<Rightarrow> minmax_summary result" where
  "MinMaxAvg_Summarize samples =
    (case MinMaxAvg_Add samples new_minmax of
       (status, a) \<Rightarrow> if status \<noteq> ASTL_STATUS_SUCCESS then Inl status else MinMaxAvg_Result a)"

section \<open>The time-weighted average\<close>

record twa_acc =
  tw_pauses :: "int list"
  tw_previous :: "(astl_value \<times> int) option"
  tw_weighted_sum :: fp
  tw_total_weight :: fp
  tw_arithmetic_sum :: fp
  tw_arithmetic_count :: nat
  tw_count :: nat

definition TimeWeightedAvgAccumulator :: "int list \<Rightarrow> twa_acc" where
  "TimeWeightedAvgAccumulator pause_markers =
    \<lparr>tw_pauses = sort pause_markers, tw_previous = None, tw_weighted_sum = FZero False,
     tw_total_weight = FZero False, tw_arithmetic_sum = FZero False, tw_arithmetic_count = 0, tw_count = 0\<rparr>"

definition AddArithmeticSample :: "processed_sample \<Rightarrow> twa_acc \<Rightarrow> astl_status \<times> twa_acc" where
  "AddArithmeticSample sample a =
    (case ToDouble (ps_value sample) of
       Inl e \<Rightarrow> (e, a)
     | Inr x \<Rightarrow> (ASTL_STATUS_SUCCESS,
         a\<lparr>tw_arithmetic_sum := fp_add binary64 (tw_arithmetic_sum a) x,
           tw_arithmetic_count := Suc (tw_arithmetic_count a)\<rparr>))"

text \<open>std::upper_bound: the first marker after the previous timestamp.\<close>

definition interval_end :: "int list \<Rightarrow> int \<Rightarrow> int \<Rightarrow> int" where
  "interval_end pauses before now =
    (case dropWhile (\<lambda>p. \<not> before < p) pauses of
       [] \<Rightarrow> now
     | p # _ \<Rightarrow> if p < now then p else now)"

definition AddWeightedInterval :: "processed_sample \<Rightarrow> twa_acc \<Rightarrow> astl_status \<times> twa_acc" where
  "AddWeightedInterval sample a =
    (case tw_previous a of
       None \<Rightarrow> (ASTL_STATUS_SUCCESS, a)
     | Some (v, before) \<Rightarrow>
        let e = interval_end (tw_pauses a) before (ps_timestamp sample) in
        if e \<le> before then (ASTL_STATUS_SUCCESS, a)
        else (case ToDouble v of
           Inl err \<Rightarrow> (err, a)
         | Inr x \<Rightarrow>
             let weight = fp_of_int binary64 (wrap64 (e - before)) in
             (ASTL_STATUS_SUCCESS,
              a\<lparr>tw_weighted_sum := fp_add binary64 (tw_weighted_sum a) (fp_mul binary64 x weight),
                tw_total_weight := fp_add binary64 (tw_total_weight a) weight\<rparr>)))"

definition TimeWeightedAvg_sample :: "processed_sample \<Rightarrow> twa_acc \<Rightarrow> astl_status \<times> twa_acc" where
  "TimeWeightedAvg_sample sample a =
    (case AddArithmeticSample sample a of
       (status, a1) \<Rightarrow>
         if status \<noteq> ASTL_STATUS_SUCCESS then (status, a1)
         else (case AddWeightedInterval sample a1 of
           (status', a2) \<Rightarrow>
             if status' \<noteq> ASTL_STATUS_SUCCESS then (status', a2)
             else (ASTL_STATUS_SUCCESS, a2\<lparr>tw_previous := Some (ps_value sample, ps_timestamp sample)\<rparr>)))"

definition TimeWeightedAvg_Add :: "processed_sample list \<Rightarrow> twa_acc \<Rightarrow> astl_status \<times> twa_acc" where
  "TimeWeightedAvg_Add samples a =
    (if length samples > kSizeMax - tw_count a then (ASTL_STATUS_BUFFER_TOO_SMALL, a)
     else fold_status TimeWeightedAvg_sample samples (a\<lparr>tw_count := tw_count a + length samples\<rparr>))"

definition TimeWeightedAvg_Result :: "twa_acc \<Rightarrow> astl_value option \<times> nat" where
  "TimeWeightedAvg_Result a =
    ((if fp_lt (FZero False) (tw_total_weight a)
      then Some (VF64 (round_to_cents (fp_div binary64 (tw_weighted_sum a) (tw_total_weight a))))
      else if tw_arithmetic_count a > 0
      then Some (VF64 (round_to_cents (fp_div binary64 (tw_arithmetic_sum a)
                  (fp_of_int binary64 (int (tw_arithmetic_count a))))))
      else None), tw_count a)"

definition ComputeTimeWeightedAverage :: "processed_sample list \<Rightarrow> int list \<Rightarrow> astl_value option result" where
  "ComputeTimeWeightedAverage samples pause_markers =
    (case TimeWeightedAvg_Add samples (TimeWeightedAvgAccumulator pause_markers) of
       (status, a) \<Rightarrow> if status \<noteq> ASTL_STATUS_SUCCESS then Inl status else Inr (fst (TimeWeightedAvg_Result a)))"

definition TimeWeightedAvg_Summarize :: "processed_sample list \<Rightarrow> int list \<Rightarrow> (astl_value option \<times> nat) result" where
  "TimeWeightedAvg_Summarize samples pause_markers =
    (if samples = [] then Inr (None, 0)
     else rbind (ComputeTimeWeightedAverage samples pause_markers) (\<lambda>avg. Inr (avg, length samples)))"

section \<open>The discrete histogram\<close>

definition k_max_discrete_bins :: nat where "k_max_discrete_bins = 1000"

record histogram_acc =
  ha_histogram :: "(astl_value \<times> nat) list"
  ha_total :: nat
  ha_too_many :: bool

definition new_histogram :: histogram_acc where
  "new_histogram = \<lparr>ha_histogram = [], ha_total = 0, ha_too_many = False\<rparr>"

definition DiscreteHistogram_sample :: "processed_sample \<Rightarrow> histogram_acc \<Rightarrow> histogram_acc" where
  "DiscreteHistogram_sample sample a =
    (if ha_too_many a then a
     else let h = om_update AstlValue_less (ps_value sample) 0 Suc (ha_histogram a) in
       a\<lparr>ha_histogram := h, ha_too_many := k_max_discrete_bins < length h\<rparr>)"

definition DiscreteHistogram_Add :: "processed_sample list \<Rightarrow> histogram_acc \<Rightarrow> astl_status \<times> histogram_acc" where
  "DiscreteHistogram_Add samples a =
    (if length samples > kSizeMax - ha_total a then (ASTL_STATUS_BUFFER_TOO_SMALL, a)
     else (ASTL_STATUS_SUCCESS,
           foldl (\<lambda>a s. DiscreteHistogram_sample s a) (a\<lparr>ha_total := ha_total a + length samples\<rparr>) samples))"

record discrete_summary =
  hs_bins :: "(astl_value \<times> nat) list"
  hs_total :: nat
  hs_unique :: nat

definition DiscreteHistogram_Result :: "histogram_acc \<Rightarrow> discrete_summary" where
  "DiscreteHistogram_Result a =
    \<lparr>hs_bins = (if ha_too_many a then [] else ha_histogram a), hs_total = ha_total a,
     hs_unique = length (ha_histogram a)\<rparr>"

section \<open>The ranged histogram\<close>

record range_bin =
  rb_lower :: fp
  rb_upper :: fp
  rb_count :: nat

text \<open>1e-10, the double nearest to it.\<close>

definition k_last_bin_epsilon :: fp where
  "k_last_bin_epsilon = fp_of_rat binary64 False (1 / 10000000000)"

definition bin_edge :: "fp \<Rightarrow> fp \<Rightarrow> nat \<Rightarrow> fp" where
  "bin_edge data_min bin_width i =
    fp_add binary64 data_min (fp_mul binary64 (fp_of_int binary64 (int i)) bin_width)"

definition MakeEqualWidthBins :: "fp \<Rightarrow> fp \<Rightarrow> nat \<Rightarrow> range_bin list" where
  "MakeEqualWidthBins data_min data_max num_bins =
    (let bin_width = fp_div binary64 (fp_sub binary64 data_max data_min) (fp_of_int binary64 (int num_bins)) in
     map (\<lambda>i. \<lparr>rb_lower = bin_edge data_min bin_width i,
              rb_upper = (if i = num_bins - 1 then fp_add binary64 data_max k_last_bin_epsilon
                          else bin_edge data_min bin_width (i + 1)),
              rb_count = 0\<rparr>) [0 ..< num_bins])"

text \<open>The first bin that takes the value is incremented; None when no bin takes it.\<close>

fun place_value :: "fp \<Rightarrow> range_bin list \<Rightarrow> range_bin list option" where
  "place_value v [] = None"
| "place_value v (b # bs) =
    (if fp_le (rb_lower b) v \<and> (if bs = [] then fp_le v (rb_upper b) else fp_lt v (rb_upper b))
     then Some (b\<lparr>rb_count := Suc (rb_count b)\<rparr> # bs)
     else map_option (\<lambda>bs'. b # bs') (place_value v bs))"

record ranged_summary =
  rg_bins :: "range_bin list"
  rg_total :: nat
  rg_out_of_range :: nat

definition place_all :: "fp list \<Rightarrow> range_bin list \<Rightarrow> range_bin list \<times> nat" where
  "place_all vs bins =
    foldl (\<lambda>(bs, out) v. case place_value v bs of Some bs' \<Rightarrow> (bs', out) | None \<Rightarrow> (bs, Suc out)) (bins, 0) vs"

fun all_doubles :: "processed_sample list \<Rightarrow> fp list result" where
  "all_doubles [] = Inr []"
| "all_doubles (s # ss) =
    (case ToDouble (ps_value s) of
       Inl e \<Rightarrow> Inl ASTL_STATUS_INVALID_VALUE_TYPE
     | Inr x \<Rightarrow> rbind (all_doubles ss) (\<lambda>xs. Inr (x # xs)))"

definition min_element :: "fp list \<Rightarrow> fp" where
  "min_element vs = foldl (\<lambda>m v. if fp_lt v m then v else m) (hd vs) (tl vs)"

definition max_element :: "fp list \<Rightarrow> fp" where
  "max_element vs = foldl (\<lambda>m v. if fp_lt m v then v else m) (hd vs) (tl vs)"

definition SummarizeRanged :: "nat \<Rightarrow> processed_sample list \<Rightarrow> ranged_summary result" where
  "SummarizeRanged num_bins samples =
    rbind (all_doubles samples) (\<lambda>vs.
      if vs = [] then Inr \<lparr>rg_bins = [], rg_total = length samples, rg_out_of_range = 0\<rparr>
      else
        let data_min = min_element vs; data_max = max_element vs in
        if fp_eq (fp_sub binary64 data_max data_min) (FZero False)
        then Inr \<lparr>rg_bins = [\<lparr>rb_lower = fp_sub binary64 data_min (FNum (1 / 2)),
                             rb_upper = fp_add binary64 data_max (FNum (1 / 2)), rb_count = length vs\<rparr>],
                  rg_total = length samples, rg_out_of_range = 0\<rparr>
        else
          let (bins, out) = place_all vs (MakeEqualWidthBins data_min data_max num_bins) in
          Inr \<lparr>rg_bins = bins, rg_total = length samples, rg_out_of_range = out\<rparr>)"

section \<open>Batches do not matter\<close>

text \<open>An accumulator that counts the batch first and then folds a step over it.\<close>

definition counted_add ::
    "(processed_sample \<Rightarrow> 'a \<Rightarrow> astl_status \<times> 'a) \<Rightarrow> ('a \<Rightarrow> nat) \<Rightarrow> (nat \<Rightarrow> 'a \<Rightarrow> 'a) \<Rightarrow> 'a consumer" where
  "counted_add step get upd samples a =
    (if length samples > kSizeMax - get a then (ASTL_STATUS_BUFFER_TOO_SMALL, a)
     else fold_status step samples (upd (get a + length samples) a))"

locale counted_accumulator =
  fixes step :: "processed_sample \<Rightarrow> 'a \<Rightarrow> astl_status \<times> 'a" and get :: "'a \<Rightarrow> nat" and upd :: "nat \<Rightarrow> 'a \<Rightarrow> 'a"
  assumes step_upd: "step s (upd n a) = (case step s a of (r, b) \<Rightarrow> (r, upd n b))"
    and get_upd: "get (upd n a) = n" and upd_upd: "upd n (upd m a) = upd n a" and upd_get: "upd (get a) a = a"
begin

lemma fold_upd: "fold_status step xs (upd n a) = (case fold_status step xs a of (r, b) \<Rightarrow> (r, upd n b))"
proof (induction xs arbitrary: a)
  case (Cons x xs)
  then show ?case by (auto simp: step_upd split: prod.split)
qed simp

lemma counted_add_Nil: "counted_add step get upd [] a = (ASTL_STATUS_SUCCESS, a)"
  by (simp add: counted_add_def upd_get)

lemma counted_add_eq:
  "counted_add step get upd xs a =
    (if length xs > kSizeMax - get a then (ASTL_STATUS_BUFFER_TOO_SMALL, a)
     else case fold_status step xs a of (r, b) \<Rightarrow> (r, upd (get a + length xs) b))"
  by (simp add: counted_add_def fold_upd)

lemma counted_add_append:
  assumes "counted_add step get upd xs a = (ASTL_STATUS_SUCCESS, a')"
  shows "counted_add step get upd (xs @ ys) a = (ASTL_STATUS_SUCCESS, d)
    \<longleftrightarrow> counted_add step get upd ys a' = (ASTL_STATUS_SUCCESS, d)"
proof -
  obtain b where b: "length xs \<le> kSizeMax - get a" "fold_status step xs a = (ASTL_STATUS_SUCCESS, b)"
      "a' = upd (get a + length xs) b"
    using assms by (auto simp: counted_add_eq not_less split: if_splits prod.splits)
  have g: "length (xs @ ys) > kSizeMax - get a \<longleftrightarrow> length ys > kSizeMax - get a'"
    using b(1) by (auto simp: b(3) get_upd)
  have "fold_status step (xs @ ys) a = fold_status step ys b" by (simp add: fold_status_append b(2))
  then show ?thesis
    unfolding counted_add_eq [of "xs @ ys" a] counted_add_eq [of ys a'] g
    by (auto simp: b(3) fold_upd upd_upd get_upd add.assoc split: prod.split)
qed

lemma counted_add_fails:
  "fst (counted_add step get upd xs a) \<noteq> ASTL_STATUS_SUCCESS \<Longrightarrow>
   fst (counted_add step get upd (xs @ ys) a) \<noteq> ASTL_STATUS_SUCCESS"
  by (auto simp: counted_add_eq fold_status_append split: if_splits prod.splits)

end

sublocale counted_accumulator \<subseteq> batches: batch_consumer "counted_add step get upd"
  by unfold_locales (simp_all add: counted_add_Nil counted_add_append counted_add_fails)

lemma MinMaxAvg_Add_counted: "MinMaxAvg_Add = counted_add MinMaxAvg_sample ma_count (\<lambda>n a. a\<lparr>ma_count := n\<rparr>)"
  by (rule ext)+ (simp add: MinMaxAvg_Add_def counted_add_def)

lemma TimeWeightedAvg_Add_counted:
  "TimeWeightedAvg_Add = counted_add TimeWeightedAvg_sample tw_count (\<lambda>n a. a\<lparr>tw_count := n\<rparr>)"
  by (rule ext)+ (simp add: TimeWeightedAvg_Add_def counted_add_def)

lemma histogram_fold:
  "fold_status (\<lambda>s a. (ASTL_STATUS_SUCCESS, DiscreteHistogram_sample s a)) xs a
    = (ASTL_STATUS_SUCCESS, foldl (\<lambda>a s. DiscreteHistogram_sample s a) a xs)"
  by (induction xs arbitrary: a) simp_all

lemma DiscreteHistogram_Add_counted:
  "DiscreteHistogram_Add = counted_add (\<lambda>s a. (ASTL_STATUS_SUCCESS, DiscreteHistogram_sample s a))
     ha_total (\<lambda>n a. a\<lparr>ha_total := n\<rparr>)"
  by (rule ext)+ (simp add: DiscreteHistogram_Add_def counted_add_def histogram_fold)

interpretation minmax: counted_accumulator MinMaxAvg_sample ma_count "\<lambda>n a. a\<lparr>ma_count := n\<rparr>"
  by unfold_locales (simp_all add: MinMaxAvg_sample_def Let_def split: option.split sum.split)

interpretation twa: counted_accumulator TimeWeightedAvg_sample tw_count "\<lambda>n a. a\<lparr>tw_count := n\<rparr>"
  by unfold_locales
    (auto simp: TimeWeightedAvg_sample_def AddArithmeticSample_def AddWeightedInterval_def Let_def
      split: option.split sum.split prod.split)

interpretation histogram: counted_accumulator "\<lambda>s a. (ASTL_STATUS_SUCCESS, DiscreteHistogram_sample s a)"
    ha_total "\<lambda>n a. a\<lparr>ha_total := n\<rparr>"
  by unfold_locales (simp_all add: DiscreteHistogram_sample_def Let_def)

text \<open>
  C37: the summary a stream of batches builds is the summary of the whole list: whatever the
  configured batch size, a visit by any of the three accumulators succeeds exactly when one
  Add of all samples does, and leaves the same accumulator.
\<close>

theorem summaries_ignore_batches:
  "(VisitSampleSpanBatches (ResolveSampleBatchSize v) MinMaxAvg_Add ps a = Some (ASTL_STATUS_SUCCESS, a')
      \<longleftrightarrow> MinMaxAvg_Add ps a = (ASTL_STATUS_SUCCESS, a'))
   \<and> (VisitSampleSpanBatches (ResolveSampleBatchSize v) TimeWeightedAvg_Add ps w = Some (ASTL_STATUS_SUCCESS, w')
      \<longleftrightarrow> TimeWeightedAvg_Add ps w = (ASTL_STATUS_SUCCESS, w'))
   \<and> (VisitSampleSpanBatches (ResolveSampleBatchSize v) DiscreteHistogram_Add ps h = Some (ASTL_STATUS_SUCCESS, h')
      \<longleftrightarrow> DiscreteHistogram_Add ps h = (ASTL_STATUS_SUCCESS, h'))
   \<and> (\<exists>r. VisitSampleSpanBatches (ResolveSampleBatchSize v) MinMaxAvg_Add ps a = Some r)
   \<and> (\<exists>r. VisitSampleSpanBatches (ResolveSampleBatchSize v) TimeWeightedAvg_Add ps w = Some r)
   \<and> (\<exists>r. VisitSampleSpanBatches (ResolveSampleBatchSize v) DiscreteHistogram_Add ps h = Some r)"
proof -
  have n: "1 \<le> ResolveSampleBatchSize v" using ResolveSampleBatchSize_bounds [of v] by (rule conjunct1)
  show ?thesis
    unfolding MinMaxAvg_Add_counted TimeWeightedAvg_Add_counted DiscreteHistogram_Add_counted
    by (intro conjI minmax.batches.visit_success_iff twa.batches.visit_success_iff
        histogram.batches.visit_success_iff visit_total n)
qed

section \<open>The discrete histogram counts every sample\<close>

definition histogram_after :: "nat \<Rightarrow> processed_sample list \<Rightarrow> histogram_acc" where
  "histogram_after n ps = foldl (\<lambda>a s. DiscreteHistogram_sample s a) (new_histogram\<lparr>ha_total := n\<rparr>) ps"

lemma histogram_after_snoc:
  "histogram_after n (ps @ [p]) = DiscreteHistogram_sample p (histogram_after n ps)"
  by (simp add: histogram_after_def)

lemma histogram_after:
  "ha_total (histogram_after n ps) = n
   \<and> (ha_too_many (histogram_after n ps) = (k_max_discrete_bins < length (value_keys.count_keys (map ps_value ps))))
   \<and> (if ha_too_many (histogram_after n ps) then length (ha_histogram (histogram_after n ps)) = Suc k_max_discrete_bins
      else ha_histogram (histogram_after n ps) = value_keys.count_keys (map ps_value ps))"
proof (induction ps rule: rev_induct)
  case Nil
  then show ?case
    by (simp add: histogram_after_def new_histogram_def value_keys.count_keys_def)
next
  case (snoc p ps)
  let ?a = "histogram_after n ps" and ?ks = "map ps_value ps"
  have step: "value_keys.count_keys (?ks @ [ps_value p])
      = om_update AstlValue_less (ps_value p) 0 Suc (value_keys.count_keys ?ks)"
    by (rule value_keys.count_keys_snoc)
  have ge: "length (value_keys.count_keys ?ks) \<le> length (value_keys.count_keys (?ks @ [ps_value p]))"
    unfolding step by (rule length_om_update_ge)
  have le: "length (value_keys.count_keys (?ks @ [ps_value p])) \<le> Suc (length (value_keys.count_keys ?ks))"
    unfolding step by (rule length_om_update_le)
  show ?case
  proof (cases "ha_too_many ?a")
    case True
    then show ?thesis using snoc.IH ge by (simp add: histogram_after_snoc DiscreteHistogram_sample_def)
  next
    case False
    then have "ha_histogram ?a = value_keys.count_keys ?ks"
        "length (value_keys.count_keys ?ks) \<le> k_max_discrete_bins" using snoc.IH by auto
    then show ?thesis
      using False snoc.IH le by (simp add: histogram_after_snoc DiscreteHistogram_sample_def Let_def step)
  qed
qed

text \<open>
  The discrete histogram of values that are not NaN reports every sample in its total.  With
  at most 1000 distinct values each value's bin is the number of samples equal to it and the bins
  add up to the total; beyond that the bins are omitted, never wrong.
\<close>

theorem discrete_histogram_exact:
  assumes "length ps \<le> kSizeMax" "\<forall>p\<in>set ps. ordered_value (ps_value p)" "ordered_value v"
    and "r = DiscreteHistogram_Result (snd (DiscreteHistogram_Add ps new_histogram))"
  shows "fst (DiscreteHistogram_Add ps new_histogram) = ASTL_STATUS_SUCCESS \<and> hs_total r = length ps
    \<and> length (hs_bins r) \<le> k_max_discrete_bins
    \<and> (if hs_unique r \<le> k_max_discrete_bins
       then om_total (hs_bins r) = length ps
          \<and> om_lookup AstlValue_less (hs_bins r) v
            = (let n = length (filter (\<lambda>p. AstlValue_eq v (ps_value p)) ps) in if n = 0 then None else Some n)
       else hs_bins r = [])"
proof -
  let ?ks = "map ps_value ps" and ?a = "histogram_after (length ps) ps"
  have a: "DiscreteHistogram_Add ps new_histogram = (ASTL_STATUS_SUCCESS, ?a)"
    using assms(1) by (simp add: DiscreteHistogram_Add_def histogram_after_def new_histogram_def)
  have ok: "\<forall>k\<in>set ?ks. ordered_value k" using assms(2) by simp
  have "filter (\<lambda>k. value_keys.keys_equiv v k) ?ks = filter (\<lambda>k. AstlValue_eq v k) ?ks"
    by (rule filter_cong) (use ok assms(3) value_keys_equiv in auto)
  then have "length (filter (\<lambda>k. value_keys.keys_equiv v k) ?ks) = length (filter (\<lambda>p. AstlValue_eq v (ps_value p)) ps)"
    by (simp add: filter_map comp_def)
  then have look: "om_lookup AstlValue_less (value_keys.count_keys ?ks) v
      = (let n = length (filter (\<lambda>p. AstlValue_eq v (ps_value p)) ps) in if n = 0 then None else Some n)"
    using value_keys.om_lookup_count [OF ok assms(3)] by simp
  have r: "r = DiscreteHistogram_Result ?a" using assms(4) a by simp
  have ha: "ha_total ?a = length ps"
      "ha_too_many ?a = (k_max_discrete_bins < length (value_keys.count_keys ?ks))"
      "if ha_too_many ?a then length (ha_histogram ?a) = Suc k_max_discrete_bins
       else ha_histogram ?a = value_keys.count_keys ?ks"
    using histogram_after [of "length ps" ps] by blast+
  show ?thesis
  proof (cases "ha_too_many ?a")
    case True
    then show ?thesis using a ha by (simp add: r DiscreteHistogram_Result_def)
  next
    case False
    then show ?thesis
      using a ha look value_keys.om_total_count [of ?ks] by (simp add: r DiscreteHistogram_Result_def not_less)
  qed
qed

theorem discrete_histogram_exact_witness:
  "om_lookup AstlValue_less (hs_bins (DiscreteHistogram_Result (snd (DiscreteHistogram_Add
      [\<lparr>ps_value = VU8 4, ps_timestamp = 1\<rparr>, \<lparr>ps_value = VU32 4, ps_timestamp = 2\<rparr>] new_histogram)))) (VU64 4) = Some 2"
proof -
  let ?ps = "[\<lparr>ps_value = VU8 4, ps_timestamp = 1\<rparr>, \<lparr>ps_value = VU32 4, ps_timestamp = 2\<rparr>]"
  let ?r = "DiscreteHistogram_Result (snd (DiscreteHistogram_Add ?ps new_histogram))"
  have n: "length (filter (\<lambda>p. AstlValue_eq (VU64 4) (ps_value p)) ?ps) = 2" by (simp add: AstlValue_eq_def)
  have u: "hs_unique ?r \<le> k_max_discrete_bins"
    by (simp add: DiscreteHistogram_Result_def DiscreteHistogram_Add_def DiscreteHistogram_sample_def new_histogram_def
        kSizeMax_def k_max_discrete_bins_def AstlValue_less_integral)
  show ?thesis
    using discrete_histogram_exact [of ?ps "VU64 4" ?r] u unfolding n by (simp add: kSizeMax_def Let_def)
qed

section \<open>The ranged histogram places every value\<close>

lemma fp_of_rat_not_NaN [simp]: "fp_of_rat f s x \<noteq> FNaN"
  by (simp add: fp_of_rat_def Let_def)

lemma fp_add_not_NaN: "fp_finite a \<Longrightarrow> b \<noteq> FNaN \<Longrightarrow> fp_add f a b \<noteq> FNaN"
  by (cases a; cases b) simp_all

lemma fp_mul_not_NaN: "fp_finite a \<Longrightarrow> fp_finite b \<Longrightarrow> fp_mul f a b \<noteq> FNaN"
  by (simp add: fp_mul_finite)

lemma place_value_chain:
  assumes "v \<noteq> FNaN" "bins \<noteq> []" "fp_le (rb_lower (hd bins)) v" "fp_le v (rb_upper (last bins))"
    and "successively (\<lambda>b c. rb_upper b = rb_lower c \<and> rb_upper b \<noteq> FNaN) bins"
  shows "place_value v bins \<noteq> None"
  using assms(2-5)
proof (induction bins)
  case (Cons b bs)
  show ?case
  proof (cases bs)
    case Nil
    then show ?thesis using Cons.prems by simp
  next
    case (Cons c cs)
    note bs = this
    show ?thesis
    proof (cases "fp_lt v (rb_upper b)")
      case True
      then show ?thesis using Cons.prems bs by simp
    next
      case False
      have e: "rb_upper b = rb_lower c \<and> rb_upper b \<noteq> FNaN"
        using Cons.prems(4) unfolding bs successively.simps by blast
      then have "fp_le (rb_upper b) v" using fp_not_lt_iff [OF assms(1)] False by blast
      then have "fp_le (rb_lower c) v" using e by simp
      then have "place_value v bs \<noteq> None" using Cons.IH Cons.prems bs by simp
      then show ?thesis using False by auto
    qed
  qed
qed simp

lemma place_value_keeps:
  "place_value v bins = Some bins' \<Longrightarrow>
    map rb_lower bins' = map rb_lower bins \<and> map rb_upper bins' = map rb_upper bins
    \<and> sum_list (map rb_count bins') = Suc (sum_list (map rb_count bins))"
  by (induction bins arbitrary: bins') (auto split: if_splits)

lemma place_value_bounds_cong:
  "map rb_lower bs = map rb_lower cs \<Longrightarrow> map rb_upper bs = map rb_upper cs \<Longrightarrow>
    (place_value v bs = None) = (place_value v cs = None)"
proof (induction bs arbitrary: cs)
  case (Cons b bs)
  then obtain c cs' where cs: "cs = c # cs'" by (cases cs) auto
  then have "(bs = []) = (cs' = [])" using Cons.prems by auto
  then show ?case using Cons.IH [of cs'] Cons.prems by (auto simp: cs)
qed simp

lemma place_all_placed:
  assumes "\<forall>v\<in>set vs. place_value v bins \<noteq> None"
  shows "snd (place_all vs bins) = 0
    \<and> sum_list (map rb_count (fst (place_all vs bins))) = sum_list (map rb_count bins) + length vs"
proof -
  let ?f = "\<lambda>(bs, out) v. case place_value v bs of Some bs' \<Rightarrow> (bs', out) | None \<Rightarrow> (bs, Suc out)"
  have "snd (foldl ?f (bs, 0) vs) = 0
      \<and> sum_list (map rb_count (fst (foldl ?f (bs, 0) vs))) = sum_list (map rb_count bs) + length vs"
    if "map rb_lower bs = map rb_lower bins" "map rb_upper bs = map rb_upper bins" for bs
    using assms that
  proof (induction vs arbitrary: bs)
    case (Cons v vs)
    have "place_value v bs \<noteq> None"
      using Cons.prems place_value_bounds_cong [OF Cons.prems(2,3)] by simp
    then obtain bs' where bs': "place_value v bs = Some bs'" by auto
    then show ?case using Cons.IH [of bs'] Cons.prems place_value_keeps [OF bs'] by simp
  qed simp
  from this [of bins] show ?thesis by (simp add: place_all_def)
qed

lemma fp_of_rat_ge:
  assumes "fp_rep binary64 a" "a \<le> x" "fp_finite y" "fp_val y \<le> a"
  shows "fp_le y (fp_of_rat binary64 s x)"
proof (cases "\<bar>rnd binary64 x\<bar> < pow2 1024")
  case True
  then have f: "fp_finite (fp_of_rat binary64 s x)" "fp_val (fp_of_rat binary64 s x) = rnd binary64 x"
    using fp_of_rat_rnd [of binary64 x s] by simp_all
  have "a \<le> rnd binary64 x" using rnd_mono [OF assms(2), of binary64] rnd_rep [OF assms(1)] by simp
  then show ?thesis using assms(3,4) f by (simp add: fp_le_finite)
next
  case False
  have ge: "a \<le> rnd binary64 x" using rnd_mono [OF assms(2), of binary64] rnd_rep [OF assms(1)] by simp
  have a: "\<bar>a\<bar> < pow2 1024" using assms(1) by (simp add: fp_rep_def)
  have pos: "0 < x"
  proof (rule ccontr)
    assume "\<not> 0 < x"
    then have "rnd binary64 x \<le> 0"
      using rnd_nonneg [of "- x" binary64] by (simp add: rnd_minus)
    then show False using False ge a by linarith
  qed
  then have "rnd binary64 x = round_mag binary64 \<bar>x\<bar>" by (simp add: rnd_def)
  then have "pow2 1024 \<le> round_mag binary64 \<bar>x\<bar>"
    using False round_mag_nonneg [of "\<bar>x\<bar>" binary64] by simp
  moreover have "round_mag binary64 \<bar>x\<bar> \<noteq> 0" using calculation pow2_pos [of 1024] by linarith
  ultimately have "fp_of_rat binary64 s x = FInf False"
    using pos by (simp add: fp_of_rat_def Let_def)
  then show ?thesis using assms(3) by (cases y) (simp_all add: fp_le_def fp_cmp_def)
qed

lemma fp_add_zero:
  assumes "wf_fp binary64 x" "fp_finite x"
  shows "fp_finite (fp_add binary64 x (FZero s))" "fp_val (fp_add binary64 x (FZero s)) = fp_val x"
  using assms by (cases x; simp add: wf_fp_def fp_of_rat_rep)+

lemma epsilon: "fp_finite k_last_bin_epsilon" "0 \<le> fp_val k_last_bin_epsilon"
  using fp_of_rat_bounds [of binary64 0 1 "1 / 10000000000" False] fp_rep_int [of binary64 0] fp_rep_int [of binary64 1]
  by (simp_all add: k_last_bin_epsilon_def)

lemma fp_add_epsilon:
  assumes "wf_fp binary64 x" "fp_finite x" "fp_finite y" "fp_val y \<le> fp_val x"
  shows "fp_le y (fp_add binary64 x k_last_bin_epsilon)"
proof (cases "\<exists>s t. x = FZero s \<and> k_last_bin_epsilon = FZero t")
  case True
  then obtain t u where x: "x = FZero t" and e: "k_last_bin_epsilon = FZero u" by blast
  show ?thesis using assms unfolding x e by (simp add: fp_le_finite)
next
  case False
  have r: "fp_rep binary64 (fp_val x)"
    using assms(1,2) fp_rep_int [of binary64 0] by (cases x) (simp_all add: wf_fp_def)
  have "fp_add binary64 x k_last_bin_epsilon = fp_of_rat binary64 False (fp_val x + fp_val k_last_bin_epsilon)"
    by (rule fp_add_finite) (use assms(2) epsilon False in auto)
  then show ?thesis using fp_of_rat_ge [OF r _ assms(3,4)] epsilon(2) by simp
qed

lemma min_element_le:
  assumes "\<forall>v\<in>set vs. fp_finite v" "vs \<noteq> []"
  shows "min_element vs \<in> set vs \<and> (\<forall>v\<in>set vs. fp_val (min_element vs) \<le> fp_val v)"
proof -
  have "foldl (\<lambda>m v. if fp_lt v m then v else m) x ws \<in> set (x # ws)
      \<and> (\<forall>v\<in>set (x # ws). fp_val (foldl (\<lambda>m v. if fp_lt v m then v else m) x ws) \<le> fp_val v)"
    if "\<forall>v\<in>set (x # ws). fp_finite v" for x ws
    using that
  proof (induction ws arbitrary: x)
    case (Cons w ws)
    define m where "m = (if fp_lt w x then w else x)"
    have "fp_finite m" "fp_val m \<le> fp_val x" "fp_val m \<le> fp_val w" "m = x \<or> m = w"
      using Cons.prems by (simp_all add: m_def fp_lt_finite)
    then show ?case
      using Cons.IH [of m] Cons.prems unfolding foldl_Cons m_def [symmetric] by (auto intro: order_trans)
  qed simp
  from this [of "hd vs" "tl vs"] show ?thesis using assms by (simp add: min_element_def)
qed

lemma max_element_ge:
  assumes "\<forall>v\<in>set vs. fp_finite v" "vs \<noteq> []"
  shows "max_element vs \<in> set vs \<and> (\<forall>v\<in>set vs. fp_val v \<le> fp_val (max_element vs))"
proof -
  have "foldl (\<lambda>m v. if fp_lt m v then v else m) x ws \<in> set (x # ws)
      \<and> (\<forall>v\<in>set (x # ws). fp_val v \<le> fp_val (foldl (\<lambda>m v. if fp_lt m v then v else m) x ws))"
    if "\<forall>v\<in>set (x # ws). fp_finite v" for x ws
    using that
  proof (induction ws arbitrary: x)
    case (Cons w ws)
    define m where "m = (if fp_lt x w then w else x)"
    have "fp_finite m" "fp_val m \<ge> fp_val x" "fp_val m \<ge> fp_val w" "m = x \<or> m = w"
      using Cons.prems by (simp_all add: m_def fp_lt_finite)
    then show ?case
      using Cons.IH [of m] Cons.prems unfolding foldl_Cons m_def [symmetric] by (auto intro: order_trans)
  qed simp
  from this [of "hd vs" "tl vs"] show ?thesis using assms by (simp add: max_element_def)
qed

lemma fp_finite_neg [simp]: "fp_finite (fp_neg x) = fp_finite x" "fp_val (fp_neg x) = - fp_val x"
  by (cases x; simp)+

lemma bin_width_finite:
  assumes "fp_finite lo" "fp_finite hi" "fp_val lo \<le> fp_val hi" "fp_val hi \<le> pow2 1022" "- pow2 1022 \<le> fp_val lo"
    and "1 \<le> n" "n < 2 ^ 63"
  shows "fp_finite (fp_div binary64 (fp_sub binary64 hi lo) (fp_of_int binary64 (int n)))"
proof -
  let ?r = "fp_sub binary64 hi lo" and ?n = "fp_of_int binary64 (int n)"
  have r0: "fp_rep binary64 0" using fp_rep_int [of binary64 0] by simp
  have r1: "fp_rep binary64 (pow2 1023)"
    unfolding fp_rep_def by (intro conjI exI [of _ 1] exI [of _ 1023]) (simp_all add: emin_def)
  have d: "0 \<le> fp_val hi - fp_val lo" "fp_val hi - fp_val lo \<le> pow2 1023"
    using assms(3-5) pow2_Suc [of 1022] by simp_all
  have r': "fp_finite ?r \<and> 0 \<le> fp_val ?r \<and> fp_val ?r \<le> pow2 1023"
  proof (cases "\<exists>s t. hi = FZero s \<and> fp_neg lo = FZero t")
    case True
    then show ?thesis by (auto simp: fp_sub_def)
  next
    case False
    have "?r = fp_of_rat binary64 False (fp_val hi - fp_val lo)"
      using fp_add_finite [of hi "fp_neg lo" binary64] assms(1,2) False by (simp add: fp_sub_def)
    then show ?thesis
      using fp_of_rat_bounds [OF _ r0 r1 d, of False] by simp
  qed
  then have r: "fp_finite ?r" "0 \<le> fp_val ?r" "fp_val ?r \<le> pow2 1023" by blast+
  have i: "1 \<le> int n" "int n < 2 ^ 63" using assms(6,7) by simp_all
  have n: "fp_finite ?n" "1 \<le> fp_val ?n"
  proof -
    have a: "fp_rep binary64 1" using fp_rep_int [of binary64 1] by simp
    have b: "fp_rep binary64 (pow2 63)"
      unfolding fp_rep_def by (intro conjI exI [of _ 1] exI [of _ 63]) (simp_all add: emin_def)
    have "(of_int (int n) :: rat) \<le> of_int (2 ^ 63)" using i(2) by (simp only: of_int_le_iff)
    also have "\<dots> = pow2 63" by (simp add: pow2_nat)
    finally have "(of_int (int n) :: rat) \<le> pow2 63" .
    then show "fp_finite ?n" "1 \<le> fp_val ?n"
      using fp_of_rat_bounds [OF _ a b, of "of_int (int n)" False] i(1) by (simp_all add: fp_of_int_def)
  qed
  have q: "0 \<le> fp_val ?r / fp_val ?n" using r(2) n(2) by simp
  have "fp_val ?r / fp_val ?n \<le> fp_val ?r / 1" using r(2) n(2) by (intro divide_left_mono) simp_all
  then have q1: "fp_val ?r / fp_val ?n \<le> pow2 1023" using r(3) by simp
  have "fp_div binary64 ?r ?n = fp_of_rat binary64 (fp_neg_bit ?r \<noteq> fp_neg_bit ?n) (fp_val ?r / fp_val ?n)"
    by (rule fp_div_finite) (use r(1) n(2) in auto)
  then show ?thesis using fp_of_rat_bounds(1) [OF _ r0 r1 q q1] by simp
qed

lemma fp_of_int_nat_finite: "n < 2 ^ 63 \<Longrightarrow> fp_finite (fp_of_int binary64 (int n))"
proof -
  assume n: "n < 2 ^ 63"
  have a: "fp_rep binary64 0" using fp_rep_int [of binary64 0] by simp
  have b: "fp_rep binary64 (pow2 63)"
    unfolding fp_rep_def by (intro conjI exI [of _ 1] exI [of _ 63]) (simp_all add: emin_def)
  have "(of_int (int n) :: rat) \<le> of_int (2 ^ 63)" using n by (simp only: of_int_le_iff) simp
  also have "\<dots> = pow2 63" by (simp add: pow2_nat)
  finally have "(of_int (int n) :: rat) \<le> pow2 63" .
  then show ?thesis
    using fp_of_rat_bounds(1) [OF _ a b, of "of_int (int n)" False] by (simp add: fp_of_int_def)
qed

lemma MakeEqualWidthBins_chain:
  assumes "fp_finite lo" "1 \<le> n" "n < 2 ^ 63"
    and "fp_finite (fp_div binary64 (fp_sub binary64 hi lo) (fp_of_int binary64 (int n)))"
  shows "successively (\<lambda>b c. rb_upper b = rb_lower c \<and> rb_upper b \<noteq> FNaN) (MakeEqualWidthBins lo hi n)"
proof -
  have "bin_edge lo w i \<noteq> FNaN" if "fp_finite w" "i < 2 ^ 63" for w i
    unfolding bin_edge_def
    by (rule fp_add_not_NaN [OF assms(1)], rule fp_mul_not_NaN [OF fp_of_int_nat_finite [OF that(2)] that(1)])
  then show ?thesis
    using assms(2,3,4) by (auto simp: successively_conv_nth MakeEqualWidthBins_def Let_def)
qed

text \<open>
  The ranged histogram of finite samples (at most 2^1022 in magnitude) with at least one
  bin places every sample: the out-of-range count is zero and the bin counts add up to the total.
\<close>

theorem ranged_histogram_places_all:
  assumes "all_doubles samples = Inr vs" "1 \<le> n" "n < 2 ^ 63"
    and "\<forall>v\<in>set vs. wf_fp binary64 v \<and> fp_finite v \<and> \<bar>fp_val v\<bar> \<le> pow2 1022"
  shows "\<exists>r. SummarizeRanged n samples = Inr r \<and> rg_total r = length samples \<and> rg_out_of_range r = 0
    \<and> sum_list (map rb_count (rg_bins r)) = length samples"
proof -
  have len: "length vs = length samples"
    using assms(1) by (induction samples arbitrary: vs) (auto split: sum.splits)
  show ?thesis
  proof (cases "vs = [] \<or> fp_eq (fp_sub binary64 (max_element vs) (min_element vs)) (FZero False)")
    case True
    then show ?thesis using assms(1) len by (auto simp: SummarizeRanged_def Let_def)
  next
    case False
    let ?lo = "min_element vs" and ?hi = "max_element vs"
    let ?w = "fp_div binary64 (fp_sub binary64 ?hi ?lo) (fp_of_int binary64 (int n))"
    let ?bins = "MakeEqualWidthBins ?lo ?hi n"
    have fin: "\<forall>v\<in>set vs. fp_finite v" using assms(4) by simp
    have lo: "?lo \<in> set vs" "\<forall>v\<in>set vs. fp_val ?lo \<le> fp_val v" using min_element_le [OF fin] False by auto
    have hi: "?hi \<in> set vs" "\<forall>v\<in>set vs. fp_val v \<le> fp_val ?hi" using max_element_ge [OF fin] False by auto
    have w: "fp_finite ?w"
      by (rule bin_width_finite) (use assms(2-4) lo hi in \<open>auto simp: abs_le_iff dest: bspec\<close>)
    have chain: "successively (\<lambda>b c. rb_upper b = rb_lower c \<and> rb_upper b \<noteq> FNaN) ?bins"
      using MakeEqualWidthBins_chain assms(2,3,4) lo(1) w by blast
    have ne: "?bins \<noteq> []" using assms(2) by (simp add: MakeEqualWidthBins_def Let_def)
    obtain s where z: "fp_mul binary64 (fp_of_int binary64 0) ?w = FZero s"
      using fp_mul_finite [of "FZero False" ?w binary64] w by (auto simp: fp_of_int_def fp_of_rat_def)
    have first: "rb_lower (hd ?bins) = fp_add binary64 ?lo (FZero s)"
      using assms(2) z by (simp add: MakeEqualWidthBins_def Let_def hd_map bin_edge_def)
    have last: "rb_upper (last ?bins) = fp_add binary64 ?hi k_last_bin_epsilon"
      using assms(2) by (simp add: MakeEqualWidthBins_def Let_def last_map)
    have "place_value v ?bins \<noteq> None" if v: "v \<in> set vs" for v
    proof (rule place_value_chain [OF _ ne _ _ chain])
      show "v \<noteq> FNaN" using assms(4) v by auto
      show "fp_le (rb_lower (hd ?bins)) v"
        using fp_add_zero [of ?lo s] assms(4) lo v unfolding first by (simp add: fp_le_finite)
      show "fp_le v (rb_upper (last ?bins))"
        unfolding last by (rule fp_add_epsilon) (use assms(4) hi v in auto)
    qed
    then have placed: "snd (place_all vs ?bins) = 0"
        "sum_list (map rb_count (fst (place_all vs ?bins))) = sum_list (map rb_count ?bins) + length vs"
      using place_all_placed [of vs ?bins] by blast+
    have zero: "sum_list (map rb_count ?bins) = 0" by (simp add: MakeEqualWidthBins_def Let_def comp_def)
    obtain bs out where pa: "place_all vs ?bins = (bs, out)" by fastforce
    show ?thesis
      using assms(1) False len placed unfolding zero pa by (simp add: SummarizeRanged_def Let_def pa)
  qed
qed

theorem ranged_histogram_places_all_witness:
  "\<exists>r. SummarizeRanged 4 [\<lparr>ps_value = VF64 (FNum 1), ps_timestamp = 0\<rparr>, \<lparr>ps_value = VF64 (FNum 9), ps_timestamp = 1\<rparr>]
     = Inr r \<and> rg_out_of_range r = 0"
proof -
  have b: "(9 :: rat) \<le> pow2 1022"
  proof -
    have "(9 :: rat) \<le> pow2 4" by (simp add: pow2_nat)
    also have "pow2 4 \<le> pow2 1022" by simp
    finally show ?thesis .
  qed
  have "fp_rep binary64 1" "fp_rep binary64 9" using fp_rep_int [of binary64 1] fp_rep_int [of binary64 9] by simp_all
  then have w: "wf_fp binary64 (FNum 1)" "wf_fp binary64 (FNum 9)" by (simp_all add: wf_fp_def)
  show ?thesis
    using ranged_histogram_places_all [of "[\<lparr>ps_value = VF64 (FNum 1), ps_timestamp = 0\<rparr>,
        \<lparr>ps_value = VF64 (FNum 9), ps_timestamp = 1\<rparr>]" "[FNum 1, FNum 9]" 4] b w by auto
qed

end
