(* ===== verification/Sampling_Collector.thy ===== *)
theory Sampling_Collector
  imports Lifecycle
begin

text \<open>
  The contract of the collectors that hold one configuration and one periodic sampler: the NUMA
  and the procfs collector.  The locale extends the lifecycle contract by what each command does
  to the configuration and the sampler, and shows what holds between commands.
\<close>

text \<open>
  A configuration exactly outside UNCONFIGURED; a sampler only for a collection in sampling mode
  that runs, paused exactly while the collection is.
\<close>

definition sampler_ok :: "CollectionLifecycleState \<Rightarrow> ('t, 'op) collection_configuration option
    \<Rightarrow> periodic_sampler option \<Rightarrow> bool" where
  "sampler_ok s configuration sampler \<longleftrightarrow> s \<noteq> STARTING
    \<and> (case configuration of
        None \<Rightarrow> s = UNCONFIGURED \<and> sampler = None
      | Some cfg \<Rightarrow> s \<noteq> UNCONFIGURED
          \<and> (case sampler of
              None \<Rightarrow> True
            | Some p \<Rightarrow> cfg_mode cfg = MODE_SAMPLING \<and> ps_interval p = cfg_sampling_interval cfg
                \<and> s \<in> {STARTED, PAUSED} \<and> (ps_paused p \<longleftrightarrow> s = PAUSED)))"

lemma sampler_ok_not_running: "sampler_ok s cfg p \<Longrightarrow> s \<notin> {STARTED, PAUSED} \<Longrightarrow> p = None"
  by (auto simp: sampler_ok_def split: option.splits)

locale sampling_collector = collector_lifecycle lc exec
  for lc :: "'c \<Rightarrow> CollectionLifecycleState"
    and exec :: "('t, 'op) collection_configuration lifecycle_command \<Rightarrow> 'c \<Rightarrow> astl_status \<times> 'c" +
  fixes configuration :: "'c \<Rightarrow> ('t, 'op) collection_configuration option"
    and sampler :: "'c \<Rightarrow> periodic_sampler option"
  assumes refused: "x \<in> {CmdStart, CmdPause, CmdResume} \<Longrightarrow> exec x c = (st, c') \<Longrightarrow> st \<noteq> ASTL_STATUS_SUCCESS \<Longrightarrow>
        lc c' = lc c \<and> configuration c' = configuration c \<and> sampler c' = sampler c"
    and start_ok: "exec CmdStart c = (ASTL_STATUS_SUCCESS, c') \<Longrightarrow>
        configuration c' = configuration c \<and> (\<exists>cfg. configuration c = Some cfg \<and> sampler c' =
          (if cfg_mode cfg = MODE_SAMPLING then Some \<lparr>ps_interval = cfg_sampling_interval cfg, ps_paused = False\<rparr>
           else sampler c))"
    and pause_ok: "exec CmdPause c = (ASTL_STATUS_SUCCESS, c') \<Longrightarrow>
        configuration c' = configuration c \<and> sampler c' = map_option (\<lambda>p. p\<lparr>ps_paused := True\<rparr>) (sampler c)"
    and resume_ok: "exec CmdResume c = (ASTL_STATUS_SUCCESS, c') \<Longrightarrow>
        configuration c' = configuration c \<and> sampler c' = map_option (\<lambda>p. p\<lparr>ps_paused := False\<rparr>) (sampler c)"
    and stop_ok: "exec CmdStop c = (st, c') \<Longrightarrow> sampler c' = None \<and> configuration c' = configuration c"
    and configure_ok: "exec (CmdConfigure g) c = (st, c') \<Longrightarrow> sampler c' = sampler c
        \<and> (configuration c' = configuration c \<and> lc c' = lc c \<or> configuration c' = Some g \<and> lc c' = CONFIGURED)"
    and clear_ok: "exec CmdClear c = (st, c') \<Longrightarrow>
        lc c' = lc c \<and> configuration c' = configuration c \<and> sampler c' = sampler c
        \<or> lc c' = UNCONFIGURED \<and> configuration c' = None \<and> (sampler c' = sampler c \<or> sampler c' = None)"
    and read_ok: "exec CmdRead c = (st, c') \<Longrightarrow> configuration c' = configuration c \<and> sampler c' = sampler c"
begin

abbreviation inv :: "'c \<Rightarrow> bool" where "inv c \<equiv> sampler_ok (lc c) (configuration c) (sampler c)"

lemma inv_exec:
  assumes "inv c" shows "inv (snd (exec x c))"
proof -
  obtain st c' where e: "exec x c = (st, c')" "snd (exec x c) = c'" by (rule exec_cases)
  have none: "lc c \<notin> {STARTED, PAUSED} \<Longrightarrow> sampler c = None" using sampler_ok_not_running [OF assms] .
  have "inv c'"
  proof (cases x)
    case (CmdConfigure g)
    then show ?thesis
      using configure_ok [of g c st c'] exec_configure [of g c st c'] e(1) none assms
      by (cases "lc c") (auto simp: sampler_ok_def split: option.splits)
  next
    case CmdClear
    then show ?thesis
      using clear_ok [of c st c'] exec_clear [of c st c'] e(1) none assms
      by (cases "lc c") (auto simp: sampler_ok_def split: option.splits)
  next
    case CmdStart
    show ?thesis
    proof (cases "st = ASTL_STATUS_SUCCESS")
      case True
      then show ?thesis
        using CmdStart start_ok [of c c'] exec_start [of c st c'] e(1) none assms
        by (cases "lc c") (auto simp: sampler_ok_def action_law_def lifecycle_table split: option.splits if_splits)
    next
      case False
      then show ?thesis using CmdStart refused [of x c st c'] e(1) assms by simp
    qed
  next
    case CmdPause
    show ?thesis
    proof (cases "st = ASTL_STATUS_SUCCESS")
      case True
      then show ?thesis
        using CmdPause pause_ok [of c c'] exec_pause [of c st c'] e(1) assms
        by (cases "lc c") (auto simp: sampler_ok_def action_law_def lifecycle_table split: option.splits if_splits)
    next
      case False
      then show ?thesis using CmdPause refused [of x c st c'] e(1) assms by simp
    qed
  next
    case CmdResume
    show ?thesis
    proof (cases "st = ASTL_STATUS_SUCCESS")
      case True
      then show ?thesis
        using CmdResume resume_ok [of c c'] exec_resume [of c st c'] e(1) assms
        by (cases "lc c") (auto simp: sampler_ok_def action_law_def lifecycle_table split: option.splits if_splits)
    next
      case False
      then show ?thesis using CmdResume refused [of x c st c'] e(1) assms by simp
    qed
  next
    case CmdStop
    then show ?thesis
      using stop_ok [of c st c'] exec_stop [of c st c'] e(1) assms
      by (cases "st = ASTL_STATUS_SUCCESS"; cases "lc c")
        (auto simp: sampler_ok_def action_law_def lifecycle_table split: option.splits if_splits)
  next
    case CmdRead
    then show ?thesis using read_ok [of c st c'] exec_read [of c st c'] e(1) assms by simp
  qed
  then show ?thesis by (simp only: e(2))
qed

lemma inv_run: "inv c \<Longrightarrow> inv (run xs c)"
  by (induction xs arbitrary: c) (simp_all add: inv_exec)

text \<open>What a collector promises from its creation on.\<close>

lemma collector_safe:
  assumes "inv c" "lc c = UNCONFIGURED"
  shows "inv (run xs c)" "collection_move\<^sup>*\<^sup>* UNCONFIGURED (lc (run xs c))"
    "CmdStart \<notin> set xs \<Longrightarrow> sampler (run xs c) = None"
  using assms inv_run [OF assms(1), of xs] run_reachable [of c xs] run_without_start [of c xs]
    sampler_ok_not_running [OF inv_run [OF assms(1), of xs]]
  by auto

end

end
