(* ===== verification/Numa.thy ===== *)
theory Numa
  imports Sampling_Collector Text_Utils Samples "HOL-Library.List_Lexorder" "HOL-Library.Char_ord"
begin

text \<open>
  src/impl/numa: the numastat reader (numa_source.cpp), the values derived from two snapshots
  (numa_sampling.cpp) and the collector (numa_collector.cpp), which satisfies the contract of a
  collector in Lifecycle.  long double is the binary128 format of the AArch64 ABI.  The file
  system, the clock and the sink are parameters of the model, indexed by the reading they serve.
\<close>

section \<open>The numastat file\<close>

definition kFields :: "string list" where
  "kFields = [''numa_hit'', ''numa_miss'', ''interleave_hit'', ''local_node'', ''other_node'']"

definition kBasisPointsPerWhole :: nat where "kBasisPointsPerWhole = 10000"

type_synonym counts = "64 word list"
type_synonym numa_snapshot = "(string \<times> counts) list"

text \<open>std::find in kFields: the index of the key.\<close>

fun find_field :: "string \<Rightarrow> string list \<Rightarrow> nat option" where
  "find_field k [] = None"
| "find_field k (f # fs) = (if k = f then Some 0 else map_option Suc (find_field k fs))"

text \<open>One line: the values and the seen flags so far, one entry per field.\<close>

definition parse_line :: "string \<Rightarrow> 64 word list \<times> bool list \<Rightarrow> (64 word list \<times> bool list) result" where
  "parse_line line st =
    (case SplitWhitespace line of
       [] \<Rightarrow> Inr st
     | key # tokens \<Rightarrow>
        (case find_field key kFields of
           None \<Rightarrow> Inr st
         | Some index \<Rightarrow>
             if snd st ! index \<or> length tokens \<noteq> 1 then Inl ASTL_STATUS_BAD_CONFIGURATION
             else (case parse_unsigned 64 (hd tokens) of
                 None \<Rightarrow> Inl ASTL_STATUS_BAD_CONFIGURATION
               | Some n \<Rightarrow> Inr ((fst st)[index := of_nat n], (snd st)[index := True]))))"

fun parse_all :: "string list \<Rightarrow> 64 word list \<times> bool list \<Rightarrow> (64 word list \<times> bool list) result" where
  "parse_all [] st = Inr st"
| "parse_all (l # ls) st = rbind (parse_line l st) (parse_all ls)"

definition Numa_Parse :: "string \<Rightarrow> counts result" where
  "Numa_Parse text =
    rbind (parse_all (getline_lines text) (replicate (length kFields) 0, replicate (length kFields) False))
      (\<lambda>(values, seen). if list_all id seen then Inr values else Inl ASTL_STATUS_BAD_CONFIGURATION)"

text \<open>Snapshot::emplace keeps the entry that is there; a std::map is kept in the order of its keys.\<close>

definition emplace :: "string \<Rightarrow> counts \<Rightarrow> numa_snapshot \<Rightarrow> numa_snapshot" where
  "emplace k v m = (if map_of m k = None then insort_key fst (k, v) m else m)"

fun read_nodes :: "file_reader \<Rightarrow> string list \<Rightarrow> numa_snapshot \<Rightarrow> numa_snapshot result" where
  "read_nodes files [] m = Inr m"
| "read_nodes files (node # nodes) m =
    rbind (files (node @ ''/numastat'')) (\<lambda>text.
      rbind (Numa_Parse text) (\<lambda>c. read_nodes files nodes (emplace node c m)))"

definition Numa_Read :: "file_reader \<Rightarrow> string list \<Rightarrow> numa_snapshot result" where
  "Numa_Read files nodes = read_nodes files nodes []"

definition is_node_name :: "string \<Rightarrow> bool" where
  "is_node_name name \<longleftrightarrow>
    take 4 name = ''node'' \<and> length name \<noteq> 4 \<and> list_all isdigit (drop 4 name)"

definition Numa_Discover :: "bool result \<Rightarrow> string list result \<Rightarrow> file_reader \<Rightarrow> string list result" where
  "Numa_Discover base_is_valid subdirectories files =
    rbind base_is_valid (\<lambda>exists.
      if \<not> exists then Inr []
      else rbind subdirectories (\<lambda>dirs.
        let nodes = filter is_node_name dirs in
        rbind (Numa_Read files nodes) (\<lambda>snapshot. Inr (sort nodes))))"

section \<open>The increments between two snapshots\<close>

fun add_increments :: "counts \<Rightarrow> counts \<Rightarrow> counts \<Rightarrow> counts option" where
  "add_increments (c # cs) (p # ps) (d # ds) =
    (if c < p then None
     else if c - p > - 1 - d then None
     else map_option (\<lambda>r. (d + (c - p)) # r) (add_increments cs ps ds))"
| "add_increments cs ps ds = Some ds"

fun delta_nodes :: "numa_snapshot \<Rightarrow> string \<Rightarrow> numa_snapshot \<Rightarrow> bool \<times> counts \<Rightarrow> (bool \<times> counts) option" where
  "delta_nodes previous node [] st = Some st"
| "delta_nodes previous node ((name, c) # rest) (found, delta) =
    (if node \<noteq> [] \<and> node \<noteq> name then delta_nodes previous node rest (found, delta)
     else case map_of previous name of
         None \<Rightarrow> None
       | Some old \<Rightarrow>
          (case add_increments c old delta of
             None \<Rightarrow> None
           | Some delta' \<Rightarrow> delta_nodes previous node rest (True, delta')))"

definition Numa_Delta :: "numa_snapshot \<Rightarrow> numa_snapshot \<Rightarrow> string \<Rightarrow> counts option" where
  "Numa_Delta previous current node =
    (if previous = [] \<or> length previous \<noteq> length current then None
     else case delta_nodes previous node current (False, replicate (length kFields) 0) of
         None \<Rightarrow> None
       | Some (found, delta) \<Rightarrow> if found then Some delta else None)"

section \<open>The value of an operation\<close>

datatype NumaField = HIT | MISS | INTERLEAVE_HIT | LOCAL_NODE | OTHER_NODE | LOCAL_PERCENT | REMOTE_PERCENT | ALLOCATIONS

fun field_index :: "NumaField \<Rightarrow> nat" where
  "field_index HIT = 0" | "field_index MISS = 1" | "field_index INTERLEAVE_HIT = 2" | "field_index LOCAL_NODE = 3"
| "field_index OTHER_NODE = 4" | "field_index LOCAL_PERCENT = 5" | "field_index REMOTE_PERCENT = 6" | "field_index ALLOCATIONS = 7"

record numa_read_operation =
  nr_id :: "16 word"
  nr_field :: NumaField
  nr_node :: string

text \<open>static_cast<uint64_t>(static_cast<long double>(kBasisPointsPerWhole) * part / total)\<close>

definition basis_points :: "64 word \<Rightarrow> 64 word \<Rightarrow> 64 word" where
  "basis_points part whole =
    word_of_int (fp_to_uint 64 (fp_div binary128
      (fp_mul binary128 (fp_of_int binary128 (int kBasisPointsPerWhole)) (fp_of_int binary128 (uint part)))
      (fp_of_int binary128 (uint whole))))"

definition NumaValue :: "numa_read_operation \<Rightarrow> counts \<Rightarrow> astl_value option" where
  "NumaValue read delta =
    (let index = field_index (nr_field read) in
     if index < length kFields then Some (VU64 (delta ! index))
     else if delta ! 4 > - 1 - delta ! 3 then None
     else let whole = delta ! 3 + delta ! 4 in
       if nr_field read = ALLOCATIONS then Some (VU64 whole)
       else if nr_field read \<noteq> LOCAL_PERCENT \<and> nr_field read \<noteq> REMOTE_PERCENT then None
       else let part = (if nr_field read = LOCAL_PERCENT then delta ! 3 else delta ! 4) in
         Some (VU64 (if whole = 0 then 0 else basis_points part whole)))"

section \<open>The collector\<close>

text \<open>
  A collection's operations are of every collector's kind; the dynamic_cast of the collector
  accepts a NumaReadOperation.
\<close>

datatype operation = NumaRead numa_read_operation | OtherOperation "16 word"

fun operation_id :: "operation \<Rightarrow> 16 word" where
  "operation_id (NumaRead read) = nr_id read"
| "operation_id (OtherOperation i) = i"

definition NumaBuildOperations :: "bool \<Rightarrow> NumaField \<Rightarrow> string \<Rightarrow> nat \<Rightarrow> operation list result \<times> nat" where
  "NumaBuildOperations is_numa_target field node next =
    (if \<not> is_numa_target then (Inl ASTL_STATUS_BAD_ARGUMENT, next)
     else case GetNextOperationId next of
         (Inl e, next') \<Rightarrow> (Inl e, next')
       | (Inr i, next') \<Rightarrow> (Inr [NumaRead \<lparr>nr_id = i, nr_field = field, nr_node = node\<rparr>], next'))"

text \<open>
  What is outside the collector: the files and the native clock at the n-th execution of
  operations, and the status the sink answers with, given what it has received.
\<close>

record 't numa_env =
  ne_files :: "nat \<Rightarrow> file_reader"
  ne_tick :: "nat \<Rightarrow> 64 word"
  ne_accept :: "('t \<times> raw_sample list) list \<Rightarrow> astl_status"

record 't numa_collector =
  nc_nodes :: "string list"
  nc_previous :: "16 word \<Rightarrow> numa_snapshot"
  nc_sink :: bool
  nc_state :: CollectionLifecycleState
  nc_configuration :: "('t, operation) collection_configuration option"
  nc_sampler :: "periodic_sampler option"
  nc_reads :: nat
  nc_sunk :: "('t \<times> raw_sample list) list"

definition NumaCollector :: "string list \<Rightarrow> 't numa_collector" where
  "NumaCollector nodes =
    \<lparr>nc_nodes = nodes, nc_previous = (\<lambda>i. []), nc_sink = False, nc_state = UNCONFIGURED,
     nc_configuration = None, nc_sampler = None, nc_reads = 0, nc_sunk = []\<rparr>"

definition Numa_SetRawSampleSink :: "bool \<Rightarrow> 't numa_collector \<Rightarrow> 't numa_collector" where
  "Numa_SetRawSampleSink sink c = c\<lparr>nc_sink := sink\<rparr>"

definition clear_previous :: "'t numa_collector \<Rightarrow> 't numa_collector" where
  "clear_previous c = c\<lparr>nc_previous := (\<lambda>i. [])\<rparr>"

text \<open>
  The loop over the operations of one reading.  _previous[id] of an id that is not there is the
  empty snapshot.
\<close>

fun sample_operations :: "numa_snapshot \<Rightarrow> 64 word \<Rightarrow> operation list \<Rightarrow> (16 word \<Rightarrow> numa_snapshot)
    \<Rightarrow> raw_sample list \<Rightarrow> raw_sample list result \<times> (16 word \<Rightarrow> numa_snapshot)" where
  "sample_operations snapshot tick [] previous samples = (Inr samples, previous)"
| "sample_operations snapshot tick (OtherOperation i # ops) previous samples = (Inl ASTL_STATUS_BAD_ARGUMENT, previous)"
| "sample_operations snapshot tick (NumaRead read # ops) previous samples =
    sample_operations snapshot tick ops (previous(nr_id read := snapshot))
      (case Numa_Delta (previous (nr_id read)) snapshot (nr_node read) of
         None \<Rightarrow> samples
       | Some delta \<Rightarrow>
          (case NumaValue read delta of
             None \<Rightarrow> samples
           | Some v \<Rightarrow> samples @ [\<lparr>rs_operation_id = nr_id read, rs_value = v, rs_raw_tick = tick\<rparr>]))"

definition Numa_ExecuteCollectionOperations ::
    "'t numa_env \<Rightarrow> operation list \<Rightarrow> 't numa_collector \<Rightarrow> astl_status \<times> 't numa_collector" where
  "Numa_ExecuteCollectionOperations env operations c =
    (if operations = [] then (ASTL_STATUS_SUCCESS, c)
     else let n = nc_reads c; c1 = c\<lparr>nc_reads := Suc n\<rparr> in
       case Numa_Read (ne_files env n) (nc_nodes c) of
         Inl e \<Rightarrow> (e, clear_previous c1)
       | Inr snapshot \<Rightarrow>
          (case sample_operations snapshot (ne_tick env n) operations (nc_previous c) [] of
             (Inl e, previous) \<Rightarrow> (e, c1\<lparr>nc_previous := previous\<rparr>)
           | (Inr samples, previous) \<Rightarrow>
               if samples \<noteq> [] \<and> nc_sink c
               then let sunk = nc_sunk c @ [(cfg_target (the (nc_configuration c)), samples)] in
                 (ne_accept env sunk, c1\<lparr>nc_previous := previous, nc_sunk := sunk\<rparr>)
               else (ASTL_STATUS_SUCCESS, c1\<lparr>nc_previous := previous\<rparr>)))"

definition acceptable :: "string list \<Rightarrow> operation \<Rightarrow> bool" where
  "acceptable nodes x =
    (case x of NumaRead read \<Rightarrow> nr_node read = [] \<or> nr_node read \<in> set nodes | OtherOperation i \<Rightarrow> False)"

definition Numa_ConfigureCollection :: "'t numa_env \<Rightarrow> ('t, operation) collection_configuration
    \<Rightarrow> 't numa_collector \<Rightarrow> astl_status \<times> 't numa_collector" where
  "Numa_ConfigureCollection env cfg c =
    (if nc_state c \<noteq> UNCONFIGURED \<and> nc_state c \<noteq> CONFIGURED \<and> nc_state c \<noteq> STOPPED
     then (ASTL_STATUS_BAD_CONFIGURATION, c)
     else let ops = cfg_operations cfg in
       if \<not> list_all (list_all (acceptable (nc_nodes c)))
              [operationsBeforeStart ops, operationsAtStart ops, operationsOnSample ops, operationsAtStop ops]
       then (ASTL_STATUS_BAD_ARGUMENT, c)
       else Numa_ExecuteCollectionOperations env (operationsBeforeStart ops)
              ((clear_previous c)\<lparr>nc_configuration := Some cfg, nc_state := CONFIGURED\<rparr>))"

definition Numa_ClearCollectionState :: "'t numa_collector \<Rightarrow> astl_status \<times> 't numa_collector" where
  "Numa_ClearCollectionState c =
    (if nc_state c = STARTED \<or> nc_state c = PAUSED then (ASTL_STATUS_COLLECTION_ALREADY_RUNNING, c)
     else (ASTL_STATUS_SUCCESS, (clear_previous c)\<lparr>nc_configuration := None, nc_state := UNCONFIGURED\<rparr>))"

definition Numa_StartIntervalSampling :: "'t numa_collector \<Rightarrow> astl_status \<times> 't numa_collector" where
  "Numa_StartIntervalSampling c =
    (if nc_state c \<noteq> CONFIGURED \<and> nc_state c \<noteq> STOPPED \<and> nc_state c \<noteq> PAUSED
     then (ASTL_STATUS_INTERNAL_ERROR, c)
     else case nc_configuration c of
         None \<Rightarrow> (ASTL_STATUS_INTERNAL_ERROR, c)
       | Some cfg \<Rightarrow>
           if nc_sampler c \<noteq> None then (ASTL_STATUS_INTERNAL_ERROR, c)
           else (ASTL_STATUS_SUCCESS,
             c\<lparr>nc_sampler := Some \<lparr>ps_interval = cfg_sampling_interval cfg, ps_paused = False\<rparr>\<rparr>))"

definition Numa_StopIntervalSampling :: "'t numa_collector \<Rightarrow> 't numa_collector" where
  "Numa_StopIntervalSampling c = c\<lparr>nc_sampler := None\<rparr>"

definition Numa_ExecuteStartModeOperations ::
    "'t numa_env \<Rightarrow> ('t, operation) collection_configuration \<Rightarrow> 't numa_collector \<Rightarrow> astl_status \<times> 't numa_collector" where
  "Numa_ExecuteStartModeOperations env cfg c =
    (let (status, c1) = Numa_ExecuteCollectionOperations env (operationsAtStart (cfg_operations cfg)) c in
     if status \<noteq> ASTL_STATUS_SUCCESS then (status, c1)
     else case cfg_mode cfg of
         MODE_IMMEDIATE \<Rightarrow> (status, c1)
       | MODE_SNAPSHOT \<Rightarrow> Numa_ExecuteCollectionOperations env (operationsOnSample (cfg_operations cfg)) c1
       | MODE_SAMPLING \<Rightarrow> Numa_StartIntervalSampling c1
       | MODE_INVALID n \<Rightarrow> (ASTL_STATUS_BAD_CONFIGURATION, c1))"

definition Numa_ExecuteStopModeOperations ::
    "'t numa_env \<Rightarrow> ('t, operation) collection_configuration \<Rightarrow> 't numa_collector \<Rightarrow> astl_status \<times> 't numa_collector" where
  "Numa_ExecuteStopModeOperations env cfg c =
    (let (status, c1) =
       (case cfg_mode cfg of
          MODE_IMMEDIATE \<Rightarrow> (ASTL_STATUS_SUCCESS, c)
        | MODE_SNAPSHOT \<Rightarrow> Numa_ExecuteCollectionOperations env (operationsOnSample (cfg_operations cfg)) c
        | MODE_SAMPLING \<Rightarrow> (ASTL_STATUS_SUCCESS, c)
        | MODE_INVALID n \<Rightarrow> (ASTL_STATUS_BAD_CONFIGURATION, c)) in
     if status = ASTL_STATUS_SUCCESS
     then Numa_ExecuteCollectionOperations env (operationsAtStop (cfg_operations cfg)) c1
     else (status, c1))"

definition Numa_StartCollection :: "'t numa_env \<Rightarrow> 't numa_collector \<Rightarrow> astl_status \<times> 't numa_collector" where
  "Numa_StartCollection env c =
    (let status = CheckCollectionLifecycleAction (nc_state c) START in
     if status \<noteq> ASTL_STATUS_SUCCESS then (status, c)
     else case nc_configuration c of
         None \<Rightarrow> (ASTL_STATUS_BAD_CONFIGURATION, c)
       | Some cfg \<Rightarrow>
          (let (r, c1) = Numa_ExecuteStartModeOperations env cfg (clear_previous c) in
           (r, if r = ASTL_STATUS_SUCCESS then c1\<lparr>nc_state := STARTED\<rparr> else c1)))"

definition Numa_PauseCollection :: "'t numa_collector \<Rightarrow> astl_status \<times> 't numa_collector" where
  "Numa_PauseCollection c =
    (let status = CheckCollectionLifecycleAction (nc_state c) PAUSE in
     if status \<noteq> ASTL_STATUS_SUCCESS then (status, c)
     else (ASTL_STATUS_SUCCESS,
       c\<lparr>nc_sampler := map_option (\<lambda>p. p\<lparr>ps_paused := True\<rparr>) (nc_sampler c), nc_state := PAUSED\<rparr>))"

definition Numa_ResumeCollection :: "'t numa_collector \<Rightarrow> astl_status \<times> 't numa_collector" where
  "Numa_ResumeCollection c =
    (let status = CheckCollectionLifecycleAction (nc_state c) RESUME in
     if status \<noteq> ASTL_STATUS_SUCCESS then (status, c)
     else (ASTL_STATUS_SUCCESS, (clear_previous c)
       \<lparr>nc_sampler := map_option (\<lambda>p. p\<lparr>ps_paused := False\<rparr>) (nc_sampler c), nc_state := STARTED\<rparr>))"

definition Numa_StopCollection :: "'t numa_env \<Rightarrow> 't numa_collector \<Rightarrow> astl_status \<times> 't numa_collector" where
  "Numa_StopCollection env c0 =
    (let c = Numa_StopIntervalSampling c0;
         status = CheckCollectionLifecycleAction (nc_state c) STOP in
     if status \<noteq> ASTL_STATUS_SUCCESS then (status, c)
     else case nc_configuration c of
         None \<Rightarrow> (ASTL_STATUS_BAD_CONFIGURATION, c)
       | Some cfg \<Rightarrow>
          (let (r, c1) = Numa_ExecuteStopModeOperations env cfg c in
           (r, if r = ASTL_STATUS_SUCCESS then clear_previous (c1\<lparr>nc_state := STOPPED\<rparr>) else c1)))"

definition Numa_ReadImmediate :: "'t numa_env \<Rightarrow> 't numa_collector \<Rightarrow> astl_status \<times> 't numa_collector" where
  "Numa_ReadImmediate env c =
    (if nc_state c \<noteq> STARTED \<and> nc_state c \<noteq> CONFIGURED \<and> nc_state c \<noteq> PAUSED
     then (ASTL_STATUS_BAD_CONFIGURATION, c)
     else case nc_configuration c of
         None \<Rightarrow> (ASTL_STATUS_BAD_CONFIGURATION, c)
       | Some cfg \<Rightarrow> Numa_ExecuteCollectionOperations env (operationsOnSample (cfg_operations cfg)) c)"

definition Numa_GetNativeClockSnapshot :: "int \<Rightarrow> 64 word \<Rightarrow> 't numa_collector \<Rightarrow> clock_correlation_map" where
  "Numa_GetNativeClockSnapshot now tick c =
    (case nc_configuration c of
       None \<Rightarrow> Map.empty
     | Some cfg \<Rightarrow>
         map_of (map (\<lambda>x. (operation_id x,
             \<lparr>raw_monotonic_at_start = now, native_at_start = tick, ticks = MakeTickRatio 1 1000000\<rparr>))
           (operationsOnSample (cfg_operations cfg))))"

text \<open>The commands of a collector manager, and the periodic sampler's own calls, are CmdRead.\<close>

fun numa_exec :: "'t numa_env \<Rightarrow> ('t, operation) collection_configuration lifecycle_command \<Rightarrow> 't numa_collector
    \<Rightarrow> astl_status \<times> 't numa_collector" where
  "numa_exec env (CmdConfigure cfg) c = Numa_ConfigureCollection env cfg c"
| "numa_exec env CmdClear c = Numa_ClearCollectionState c"
| "numa_exec env CmdStart c = Numa_StartCollection env c"
| "numa_exec env CmdPause c = Numa_PauseCollection c"
| "numa_exec env CmdResume c = Numa_ResumeCollection c"
| "numa_exec env CmdStop c = Numa_StopCollection env c"
| "numa_exec env CmdRead c = Numa_ReadImmediate env c"

section \<open>The collector keeps the contract of a collector\<close>

lemma Numa_ExecuteCollectionOperations_frame [simp]:
  "nc_state (snd (Numa_ExecuteCollectionOperations env ops c)) = nc_state c"
  "nc_configuration (snd (Numa_ExecuteCollectionOperations env ops c)) = nc_configuration c"
  "nc_sampler (snd (Numa_ExecuteCollectionOperations env ops c)) = nc_sampler c"
  "nc_nodes (snd (Numa_ExecuteCollectionOperations env ops c)) = nc_nodes c"
  "nc_sink (snd (Numa_ExecuteCollectionOperations env ops c)) = nc_sink c"
  by (simp_all add: Numa_ExecuteCollectionOperations_def clear_previous_def Let_def split: sum.split prod.split)

lemma clear_previous_simps [simp]:
  "nc_state (clear_previous c) = nc_state c" "nc_configuration (clear_previous c) = nc_configuration c"
  "nc_sampler (clear_previous c) = nc_sampler c" "nc_nodes (clear_previous c) = nc_nodes c"
  "nc_sink (clear_previous c) = nc_sink c" "nc_previous (clear_previous c) = (\<lambda>i. [])"
  "nc_sunk (clear_previous c) = nc_sunk c" "nc_reads (clear_previous c) = nc_reads c"
  by (simp_all add: clear_previous_def)

lemma Numa_StartIntervalSampling_frame [simp]:
  "nc_state (snd (Numa_StartIntervalSampling c)) = nc_state c"
  "nc_configuration (snd (Numa_StartIntervalSampling c)) = nc_configuration c"
  "nc_nodes (snd (Numa_StartIntervalSampling c)) = nc_nodes c"
  by (simp_all add: Numa_StartIntervalSampling_def split: option.split)

lemma Numa_ExecuteStartModeOperations_frame [simp]:
  "nc_state (snd (Numa_ExecuteStartModeOperations env cfg c)) = nc_state c"
  "nc_configuration (snd (Numa_ExecuteStartModeOperations env cfg c)) = nc_configuration c"
  "nc_nodes (snd (Numa_ExecuteStartModeOperations env cfg c)) = nc_nodes c"
  by (simp_all add: Numa_ExecuteStartModeOperations_def case_prod_beta' Let_def split: collection_mode.split)

lemma Numa_ExecuteStartModeOperations_sampler:
  "nc_sampler (snd (Numa_ExecuteStartModeOperations env cfg c)) \<noteq> nc_sampler c \<Longrightarrow>
    fst (Numa_ExecuteStartModeOperations env cfg c) = ASTL_STATUS_SUCCESS \<and> cfg_mode cfg = MODE_SAMPLING
    \<and> nc_configuration c \<noteq> None \<and> nc_sampler (snd (Numa_ExecuteStartModeOperations env cfg c)) =
      Some \<lparr>ps_interval = cfg_sampling_interval (the (nc_configuration c)), ps_paused = False\<rparr>"
  by (auto simp: Numa_ExecuteStartModeOperations_def Numa_StartIntervalSampling_def case_prod_beta' Let_def
      split: collection_mode.splits if_splits option.splits)

lemma Numa_ExecuteStopModeOperations_frame [simp]:
  "nc_state (snd (Numa_ExecuteStopModeOperations env cfg c)) = nc_state c"
  "nc_configuration (snd (Numa_ExecuteStopModeOperations env cfg c)) = nc_configuration c"
  "nc_nodes (snd (Numa_ExecuteStopModeOperations env cfg c)) = nc_nodes c"
  "nc_sampler (snd (Numa_ExecuteStopModeOperations env cfg c)) = nc_sampler c"
  by (simp_all add: Numa_ExecuteStopModeOperations_def case_prod_beta' Let_def split: collection_mode.split)

lemmas numa_commands = Numa_ConfigureCollection_def Numa_ClearCollectionState_def Numa_StartCollection_def
  Numa_PauseCollection_def Numa_ResumeCollection_def Numa_StopCollection_def Numa_StopIntervalSampling_def
  Numa_ReadImmediate_def

interpretation numa_lc: collector_lifecycle nc_state "numa_exec env" for env :: "'t numa_env"
proof unfold_locales
  fix c c' :: "'t numa_collector" and st g
  show "numa_exec env CmdStart c = (st, c') \<Longrightarrow> action_law (nc_state c) START st (nc_state c')"
    by (auto simp: numa_commands action_law_def Let_def case_prod_beta' split: if_splits option.splits)
  show "numa_exec env CmdPause c = (st, c') \<Longrightarrow> action_law (nc_state c) PAUSE st (nc_state c')"
    by (auto simp: numa_commands action_law_def Let_def split: if_splits)
  show "numa_exec env CmdResume c = (st, c') \<Longrightarrow> action_law (nc_state c) RESUME st (nc_state c')"
    by (auto simp: numa_commands action_law_def Let_def split: if_splits)
  show "numa_exec env CmdStop c = (st, c') \<Longrightarrow> action_law (nc_state c) STOP st (nc_state c')"
    by (auto simp: numa_commands action_law_def Let_def case_prod_beta' split: if_splits option.splits)
  show "numa_exec env (CmdConfigure g) c = (st, c') \<Longrightarrow>
      (if nc_state c \<in> {UNCONFIGURED, CONFIGURED, STOPPED}
       then nc_state c' \<in> {nc_state c, CONFIGURED, UNCONFIGURED} \<and> (st = ASTL_STATUS_SUCCESS \<longrightarrow> nc_state c' = CONFIGURED)
       else st \<noteq> ASTL_STATUS_SUCCESS \<and> nc_state c' = nc_state c)"
    by (auto simp: numa_commands Let_def prod_eq_iff split: if_splits)
  show "numa_exec env CmdClear c = (st, c') \<Longrightarrow>
      (if nc_state c \<in> {STARTED, PAUSED} then st \<noteq> ASTL_STATUS_SUCCESS \<and> nc_state c' = nc_state c
       else nc_state c' = UNCONFIGURED)"
    by (auto simp: numa_commands split: if_splits)
  show "numa_exec env CmdRead c = (st, c') \<Longrightarrow> nc_state c' = nc_state c"
    by (auto simp: numa_commands prod_eq_iff split: if_splits option.splits)
qed

interpretation numa_sc: strict_collector nc_state "numa_exec env" for env :: "'t numa_env"
proof unfold_locales
  fix c c' :: "'t numa_collector" and st
  show "numa_exec env CmdStart c = (st, c') \<Longrightarrow> st \<noteq> ASTL_STATUS_SUCCESS \<Longrightarrow> nc_state c' = nc_state c"
    by (auto simp: Numa_StartCollection_def Let_def case_prod_beta' split: if_splits option.splits)
  show "numa_exec env CmdStop c = (st, c') \<Longrightarrow> st \<noteq> ASTL_STATUS_SUCCESS \<Longrightarrow> nc_state c' = nc_state c"
    by (auto simp: Numa_StopCollection_def Numa_StopIntervalSampling_def Let_def case_prod_beta' split: if_splits option.splits)
qed

lemma Numa_ExecuteStartModeOperations_refused:
  "fst (Numa_ExecuteStartModeOperations env cfg c) \<noteq> ASTL_STATUS_SUCCESS \<Longrightarrow>
    nc_sampler (snd (Numa_ExecuteStartModeOperations env cfg c)) = nc_sampler c"
  using Numa_ExecuteStartModeOperations_sampler by blast

lemma Numa_ExecuteStartModeOperations_started:
  "fst (Numa_ExecuteStartModeOperations env cfg c) = ASTL_STATUS_SUCCESS \<Longrightarrow> nc_configuration c = Some cfg \<Longrightarrow>
    nc_sampler (snd (Numa_ExecuteStartModeOperations env cfg c)) =
      (if cfg_mode cfg = MODE_SAMPLING then Some \<lparr>ps_interval = cfg_sampling_interval cfg, ps_paused = False\<rparr>
       else nc_sampler c)"
  by (auto simp: Numa_ExecuteStartModeOperations_def Numa_StartIntervalSampling_def case_prod_beta' Let_def
      split: collection_mode.splits if_splits option.splits)

interpretation numa_sm: sampling_collector nc_state "numa_exec env" nc_configuration nc_sampler for env :: "'t numa_env"
proof unfold_locales
  fix c c' :: "'t numa_collector" and st g and x :: "('t, operation) collection_configuration lifecycle_command"
  show "x \<in> {CmdStart, CmdPause, CmdResume} \<Longrightarrow> numa_exec env x c = (st, c') \<Longrightarrow> st \<noteq> ASTL_STATUS_SUCCESS \<Longrightarrow>
      nc_state c' = nc_state c \<and> nc_configuration c' = nc_configuration c \<and> nc_sampler c' = nc_sampler c"
    by (auto simp: numa_commands Let_def case_prod_beta' Numa_ExecuteStartModeOperations_refused
        split: if_splits option.splits)
  show "numa_exec env CmdStart c = (ASTL_STATUS_SUCCESS, c') \<Longrightarrow>
      nc_configuration c' = nc_configuration c \<and> (\<exists>cfg. nc_configuration c = Some cfg \<and> nc_sampler c' =
        (if cfg_mode cfg = MODE_SAMPLING then Some \<lparr>ps_interval = cfg_sampling_interval cfg, ps_paused = False\<rparr>
         else nc_sampler c))"
    by (auto simp: numa_commands Let_def case_prod_beta' Numa_ExecuteStartModeOperations_started
        split: if_splits option.splits)
  show "numa_exec env CmdPause c = (ASTL_STATUS_SUCCESS, c') \<Longrightarrow> nc_configuration c' = nc_configuration c
      \<and> nc_sampler c' = map_option (\<lambda>p. p\<lparr>ps_paused := True\<rparr>) (nc_sampler c)"
    by (auto simp: numa_commands Let_def split: if_splits)
  show "numa_exec env CmdResume c = (ASTL_STATUS_SUCCESS, c') \<Longrightarrow> nc_configuration c' = nc_configuration c
      \<and> nc_sampler c' = map_option (\<lambda>p. p\<lparr>ps_paused := False\<rparr>) (nc_sampler c)"
    by (auto simp: numa_commands Let_def split: if_splits)
  show "numa_exec env CmdStop c = (st, c') \<Longrightarrow> nc_sampler c' = None \<and> nc_configuration c' = nc_configuration c"
    by (auto simp: numa_commands Let_def case_prod_beta' split: if_splits option.splits)
  show "numa_exec env (CmdConfigure g) c = (st, c') \<Longrightarrow> nc_sampler c' = nc_sampler c
      \<and> (nc_configuration c' = nc_configuration c \<and> nc_state c' = nc_state c
         \<or> nc_configuration c' = Some g \<and> nc_state c' = CONFIGURED)"
    by (auto simp: numa_commands Let_def prod_eq_iff split: if_splits)
  show "numa_exec env CmdClear c = (st, c') \<Longrightarrow>
      nc_state c' = nc_state c \<and> nc_configuration c' = nc_configuration c \<and> nc_sampler c' = nc_sampler c
      \<or> nc_state c' = UNCONFIGURED \<and> nc_configuration c' = None \<and> (nc_sampler c' = nc_sampler c \<or> nc_sampler c' = None)"
    by (auto simp: numa_commands split: if_splits)
  show "numa_exec env CmdRead c = (st, c') \<Longrightarrow> nc_configuration c' = nc_configuration c \<and> nc_sampler c' = nc_sampler c"
    by (auto simp: numa_commands prod_eq_iff split: if_splits option.splits)
qed

text \<open>
  What holds between commands: the configuration and the sampler are consistent with the state,
  and a configuration is made of operations the collector can execute.
\<close>

definition all_operations :: "operation collection_operations \<Rightarrow> operation list" where
  "all_operations ops = operationsBeforeStart ops @ operationsAtStart ops @ operationsOnSample ops @ operationsAtStop ops"

definition numa_inv :: "'t numa_collector \<Rightarrow> bool" where
  "numa_inv c \<longleftrightarrow> sampler_ok (nc_state c) (nc_configuration c) (nc_sampler c)
    \<and> (case nc_configuration c of
        None \<Rightarrow> True
      | Some cfg \<Rightarrow> list_all (acceptable (nc_nodes c)) (all_operations (cfg_operations cfg)))"

lemma numa_inv_new [simp]: "numa_inv (NumaCollector nodes)"
  by (simp add: numa_inv_def NumaCollector_def sampler_ok_def)

lemma numa_new_state [simp]: "nc_state (NumaCollector nodes) = UNCONFIGURED"
  by (simp add: NumaCollector_def)

lemma numa_inv_not_running:
  "numa_inv c \<Longrightarrow> nc_state c \<notin> {STARTED, PAUSED} \<Longrightarrow> nc_sampler c = None"
  unfolding numa_inv_def using sampler_ok_not_running by blast

lemma numa_nodes_exec [simp]: "nc_nodes (snd (numa_exec env x c)) = nc_nodes c"
  by (cases x) (auto simp: numa_commands Let_def case_prod_beta' split: option.split)

lemma numa_inv_exec: "numa_inv c \<Longrightarrow> numa_inv (snd (numa_exec env x c))"
proof -
  assume inv: "numa_inv c"
  have "case nc_configuration (snd (numa_exec env x c)) of
        None \<Rightarrow> True | Some cfg \<Rightarrow> list_all (acceptable (nc_nodes c)) (all_operations (cfg_operations cfg))"
    using inv by (cases x) (auto simp: numa_inv_def numa_commands all_operations_def Let_def case_prod_beta'
        split: option.splits)
  then show ?thesis using inv numa_sm.inv_exec [of c env x] unfolding numa_inv_def numa_nodes_exec by blast
qed

fun numa_run :: "'t numa_env \<Rightarrow> ('t, operation) collection_configuration lifecycle_command list
    \<Rightarrow> 't numa_collector \<Rightarrow> 't numa_collector" where
  "numa_run env [] c = c"
| "numa_run env (x # xs) c = numa_run env xs (snd (numa_exec env x c))"

lemma numa_run_eq: "numa_run env xs c = numa_lc.run env xs c"
  by (induction xs arbitrary: c) simp_all

lemma numa_inv_run: "numa_inv c \<Longrightarrow> numa_inv (numa_run env xs c)"
  by (induction xs arbitrary: c) (simp_all add: numa_inv_exec)

text \<open>
  Whatever commands a new NUMA collector receives, and whatever its files, clock and sink
  do, it moves as a collection may, runs only after a start, stays stopped until it is
  configured anew, and keeps its invariant: a sampler only for a running collection in sampling
  mode, paused exactly while the collection is.
\<close>

theorem numa_collector_lifecycle:
  "numa_inv (numa_run env xs (NumaCollector nodes))
    \<and> collection_move\<^sup>*\<^sup>* UNCONFIGURED (nc_state (numa_run env xs (NumaCollector nodes)))
    \<and> (CmdStart \<notin> set xs \<longrightarrow> nc_sampler (numa_run env xs (NumaCollector nodes)) = None)
    \<and> (nc_state c = STOPPED \<longrightarrow> set xs \<subseteq> {CmdStart, CmdPause, CmdResume, CmdStop, CmdRead}
        \<longrightarrow> nc_state (numa_run env xs c) = STOPPED)"
proof (intro conjI impI)
  show inv: "numa_inv (numa_run env xs (NumaCollector nodes))" by (simp add: numa_inv_run)
  show "collection_move\<^sup>*\<^sup>* UNCONFIGURED (nc_state (numa_run env xs (NumaCollector nodes)))"
    using numa_lc.run_reachable [of "NumaCollector nodes" env xs] by (simp add: numa_run_eq)
  show "nc_sampler (numa_run env xs (NumaCollector nodes)) = None" if "CmdStart \<notin> set xs"
    using numa_lc.run_without_start [of "NumaCollector nodes" xs env] that numa_inv_not_running [OF inv] by (simp add: numa_run_eq)
  show "nc_state (numa_run env xs c) = STOPPED"
    if "nc_state c = STOPPED" "set xs \<subseteq> {CmdStart, CmdPause, CmdResume, CmdStop, CmdRead}"
    using numa_lc.run_stopped [of c xs env] that by (simp add: numa_run_eq)
qed

theorem numa_collector_lifecycle_witness:
  "nc_state (numa_run \<lparr>ne_files = (\<lambda>n f. Inl ASTL_STATUS_INTERNAL_ERROR), ne_tick = (\<lambda>n. 0), ne_accept = (\<lambda>s. ASTL_STATUS_SUCCESS)\<rparr>
      [CmdStart, CmdResume] ((NumaCollector [] :: unit numa_collector) \<lparr>nc_state := STOPPED\<rparr>)) = STOPPED"
  using numa_collector_lifecycle [of "\<lparr>ne_files = (\<lambda>n f. Inl ASTL_STATUS_INTERNAL_ERROR), ne_tick = (\<lambda>n. 0),
      ne_accept = (\<lambda>s. ASTL_STATUS_SUCCESS)\<rparr>" "[CmdStart, CmdResume]" "[]" "(NumaCollector [] :: unit numa_collector) \<lparr>nc_state := STOPPED\<rparr>"]
  by simp

text \<open>Conversion to an unsigned integer truncates a finite value inside the range.\<close>

lemma fp_to_uint_floor:
  "fp_finite x \<Longrightarrow> 0 \<le> fp_val x \<Longrightarrow> \<lfloor>fp_val x\<rfloor> < 2 ^ w \<Longrightarrow> fp_to_uint w x = \<lfloor>fp_val x\<rfloor>"
  by (cases x) (simp_all add: rat_trunc_def)

lemma basis_points_exact:
  assumes "part \<le> whole" "whole \<noteq> 0"
  shows "uint (basis_points part whole) = 10000 * uint part div uint whole"
proof -
  define p w where "p = uint part" and "w = uint whole"
  let ?q = "10000 * p div w"
  have pw: "0 \<le> p" "p \<le> w" "0 < w" "w < 2 ^ 64"
    using assms uint_lt2p [of whole] by (simp_all add: p_def w_def word_le_def order_less_le unsigned_eq_0_iff)
  have q: "0 \<le> ?q" "?q \<le> 10000"
  proof -
    show "0 \<le> ?q" using pw by (simp add: pos_imp_zdiv_nonneg_iff)
    have "10000 * p \<le> 10000 * w" using pw by simp
    then have "?q \<le> 10000 * w div w" using pw by (intro zdiv_mono1) simp_all
    then show "?q \<le> 10000" using pw by simp
  qed
  have rq: "0 \<le> (of_int ?q :: rat)" "(of_int ?q :: rat) \<le> 10000"
    using q of_int_le_iff [of ?q 10000, where ?'a = rat] by simp_all
  have ex: "fp_of_int binary128 n = (if n = 0 then FZero False else FNum (of_int n))"
    if "0 \<le> n" "n < 2 ^ 64" for n
    using that by (intro fp_of_int_exact) simp_all
  have fin: "fp_finite (fp_of_int binary128 n)" "fp_val (fp_of_int binary128 n) = of_int n"
    if "0 \<le> n" "n < 2 ^ 64" for n
    using ex [OF that] by simp_all
  let ?m = "fp_mul binary128 (fp_of_int binary128 10000) (fp_of_int binary128 p)"
  have "fp_rep binary128 (of_int (10000 * p))" using pw by (intro fp_rep_int) simp_all
  then have m: "fp_finite ?m" "fp_val ?m = of_int (10000 * p)"
    using fp_mul_finite [of "fp_of_int binary128 10000" "fp_of_int binary128 p" binary128] fin [of 10000] fin [of p] pw
      fp_of_rat_rep by simp_all
  let ?d = "fp_div binary128 ?m (fp_of_int binary128 w)"
  have d: "?d = fp_of_rat binary128 (fp_neg_bit ?m \<noteq> fp_neg_bit (fp_of_int binary128 w)) (of_int (10000 * p) / of_int w)"
    using fp_div_finite [OF m(1), of "fp_of_int binary128 w" binary128] fin [of w] pw m(2) by simp
  have a: "fp_rep binary128 (of_int ?q)" using q by (intro fp_rep_int) simp_all
  let ?b = "of_int ((?q + 1) * 2 ^ 64 - 1) * pow2 (- 64)"
  have b1: "?b = of_int ?q + 1 - pow2 (- 64)"
    using pow2_add [of 64 "- 64"] by (simp add: algebra_simps pow2_nat)
  have b: "fp_rep binary128 ?b"
    unfolding fp_rep_def
  proof (rule conjI)
    have "\<bar>(?q + 1) * 2 ^ 64 - 1\<bar> < 2 ^ prec binary128" using q by simp
    moreover have "emin binary128 - int (prec binary128) + 1 \<le> - 64" by (simp add: emin_def)
    ultimately show "\<exists>m e. ?b = of_int m * pow2 e \<and> \<bar>m\<bar> < 2 ^ prec binary128
        \<and> emin binary128 - int (prec binary128) + 1 \<le> e"
      by blast
    have "pow2 (- 64) \<le> 1" using pow2_le_iff [of "- 64" 0] by simp
    then have "0 \<le> ?b" "?b \<le> 10001" using rq pow2_pos [of "- 64"] unfolding b1 by linarith+
    then have "\<bar>?b\<bar> \<le> 10001" by (simp only: abs_of_nonneg)
    also have "(10001 :: rat) < pow2 14" by (simp add: pow2_nat)
    also have "pow2 14 < pow2 (emax binary128 + 1)" by (simp only: pow2_less_iff) simp
    finally show "\<bar>?b\<bar> < pow2 (emax binary128 + 1)" .
  qed
  have lo: "of_int ?q \<le> (of_int (10000 * p) / of_int w :: rat)"
  proof -
    have "?q * w \<le> 10000 * p"
      using pw(3) div_mult_mod_eq [of "10000 * p" w] pos_mod_sign [of w "10000 * p"] by linarith
    then have "(of_int (?q * w) :: rat) \<le> of_int (10000 * p)" by (simp only: of_int_le_iff)
    then show ?thesis using pw(3) by (simp add: pos_le_divide_eq)
  qed
  have hi: "(of_int (10000 * p) / of_int w :: rat) \<le> ?b"
  proof -
    have r: "10000 * p + 1 \<le> (?q + 1) * w"
      using pw(3) div_mult_mod_eq [of "10000 * p" w] pos_mod_bound [of w "10000 * p"]
      unfolding distrib_right by linarith
    have "(of_int (10000 * p) + 1 :: rat) \<le> (of_int ?q + 1) * of_int w"
    proof -
      have "(of_int (10000 * p + 1) :: rat) \<le> of_int ((?q + 1) * w)" using r by (simp only: of_int_le_iff)
      then show ?thesis unfolding of_int_add of_int_mult of_int_1 .
    qed
    then have "(of_int (10000 * p) / of_int w :: rat) \<le> of_int ?q + 1 - 1 / of_int w"
      using pw(3) by (simp add: field_simps)
    moreover have "pow2 (- 64) \<le> (1 / of_int w :: rat)"
    proof -
      have "(of_int w :: rat) \<le> of_int (2 ^ 64)" using pw(4) by (simp only: of_int_le_iff)
      then have "of_int w * pow2 (- 64) \<le> of_int (2 ^ 64) * pow2 (- 64)" by (rule mult_right_mono) simp
      also have "\<dots> = 1" using pow2_add [of 64 "- 64"] by (simp add: pow2_nat)
      finally show ?thesis using pw(3) by (simp add: pos_le_divide_eq mult.commute)
    qed
    ultimately show ?thesis using b1 by linarith
  qed
  have f: "fp_finite ?d" "of_int ?q \<le> fp_val ?d" "fp_val ?d \<le> ?b"
    unfolding d using fp_of_rat_bounds [OF _ a b lo hi] by simp_all
  have "\<lfloor>fp_val ?d\<rfloor> = ?q"
  proof (rule floor_unique)
    show "of_int ?q \<le> fp_val ?d" by (rule f(2))
    show "fp_val ?d < of_int ?q + 1" using f(3) pow2_pos [of "- 64"] unfolding b1 by linarith
  qed
  then have "fp_to_uint 64 ?d = ?q"
    using fp_to_uint_floor [OF f(1), of 64] f(2) q by simp
  then show ?thesis
    using q by (simp add: basis_points_def kBasisPointsPerWhole_def uint_word_of_int_eq take_bit_int_eq_self flip: p_def w_def)
qed

lemma div_split_sum:
  fixes x y k :: int
  assumes "0 < x + y" "0 \<le> x" "0 \<le> y" "0 < k"
  shows "k * x div (x + y) + k * y div (x + y) \<in> {k - 1, k}"
proof -
  let ?w = "x + y"
  have e: "k * x + k * y = k * ?w" by (simp add: distrib_left)
  have "k * x = k * x div ?w * ?w + k * x mod ?w" "k * y = k * y div ?w * ?w + k * y mod ?w"
    by (rule div_mult_mod_eq [symmetric])+
  then have s: "(k * x div ?w + k * y div ?w) * ?w + (k * x mod ?w + k * y mod ?w) = k * ?w"
    using e unfolding distrib_right by linarith
  have m: "0 \<le> k * x mod ?w + k * y mod ?w"
    by (intro add_nonneg_nonneg pos_mod_sign assms(1))
  have m2: "k * x mod ?w + k * y mod ?w < ?w + ?w"
    by (intro add_strict_mono pos_mod_bound assms(1))
  let ?q = "k * x div ?w + k * y div ?w"
  have "?q * ?w \<le> k * ?w" "(k - 2) * ?w < ?q * ?w"
    using s m m2 unfolding left_diff_distrib mult_2 by linarith+
  then have "?q \<le> k" "k - 2 < ?q" using assms(1) by (simp_all only: mult_le_cancel_right_pos mult_less_cancel_right_pos)
  then show ?thesis by auto
qed

text \<open>
  From the page counts of an interval the collector derives the total of local and other
  allocations, refusing a sum above 2^64 - 1, and their shares in basis points: the shares are
  the exact quotients rounded down, so that local and remote add up to 10000 or 9999, and an
  interval without allocations has both shares zero.
\<close>

theorem numa_locality_shares:
  assumes "length delta = 5" "nr_field rl = LOCAL_PERCENT" "nr_field rr = REMOTE_PERCENT" "nr_field ra = ALLOCATIONS"
  shows "if unat (delta ! 3) + unat (delta ! 4) < 2 ^ 64 then
      (\<exists>l r a. NumaValue rl delta = Some (VU64 l) \<and> NumaValue rr delta = Some (VU64 r) \<and> NumaValue ra delta = Some (VU64 a)
        \<and> unat a = unat (delta ! 3) + unat (delta ! 4)
        \<and> (if a = 0 then l = 0 \<and> r = 0
           else uint l = 10000 * uint (delta ! 3) div uint a \<and> uint r = 10000 * uint (delta ! 4) div uint a
             \<and> uint l + uint r \<in> {9999, 10000}))
    else NumaValue rl delta = None \<and> NumaValue rr delta = None \<and> NumaValue ra delta = None"
proof (cases "unat (delta ! 3) + unat (delta ! 4) < 2 ^ 64")
  case True
  define x y where "x = delta ! 3" and "y = delta ! 4"
  have fits: "unat (x + y) = unat x + unat y" "\<not> y > - 1 - x"
    using True by (simp_all add: x_def y_def unat_plus_if' not_less word_le_nat_alt unat_sub_if' unsigned_minus_1_eq_mask mask_eq_exp_minus_1)
  then have u: "uint (x + y) = uint x + uint y" by (simp only: uint_nat of_nat_add)
  have le: "x \<le> x + y" "y \<le> x + y" using fits(1) by (simp_all add: word_le_nat_alt)
  have shares: "uint (basis_points x (x + y)) = 10000 * uint x div uint (x + y)"
      "uint (basis_points y (x + y)) = 10000 * uint y div uint (x + y)"
      "uint (basis_points x (x + y)) + uint (basis_points y (x + y)) \<in> {9999, 10000}" if "x + y \<noteq> 0"
  proof -
    show l: "uint (basis_points x (x + y)) = 10000 * uint x div uint (x + y)"
      using basis_points_exact [OF le(1) that] .
    show r: "uint (basis_points y (x + y)) = 10000 * uint y div uint (x + y)"
      using basis_points_exact [OF le(2) that] .
    have pos: "0 < uint (x + y)" using that by (simp add: order_less_le unsigned_eq_0_iff)
    show "uint (basis_points x (x + y)) + uint (basis_points y (x + y)) \<in> {9999, 10000}"
      using div_split_sum [of "uint x" "uint y" 10000] pos unfolding l r u by simp
  qed
  show ?thesis
    using True assms fits shares
    by (simp add: NumaValue_def kFields_def Let_def flip: x_def y_def)
next
  case False
  have "unat (delta ! 3) < 2 ^ LENGTH(64)" by (rule unsigned_less)
  then have "delta ! 4 > - 1 - delta ! 3"
    using False by (simp add: word_less_nat_alt unat_sub_if' unsigned_minus_1_eq_mask mask_eq_exp_minus_1)
  then show ?thesis using False assms by (simp add: NumaValue_def kFields_def Let_def)
qed

theorem numa_locality_shares_witness:
  "\<exists>l r. NumaValue \<lparr>nr_id = 1, nr_field = LOCAL_PERCENT, nr_node = []\<rparr> [0, 0, 0, 1, 2] = Some (VU64 l)
    \<and> NumaValue \<lparr>nr_id = 2, nr_field = REMOTE_PERCENT, nr_node = []\<rparr> [0, 0, 0, 1, 2] = Some (VU64 r)
    \<and> uint l = 3333 \<and> uint l + uint r \<in> {9999, 10000}"
proof -
  let ?rl = "\<lparr>nr_id = 1, nr_field = LOCAL_PERCENT, nr_node = []\<rparr>"
  let ?rr = "\<lparr>nr_id = 2, nr_field = REMOTE_PERCENT, nr_node = []\<rparr>"
  let ?ra = "\<lparr>nr_id = 3, nr_field = ALLOCATIONS, nr_node = []\<rparr>"
  have fits: "unat ([0, 0, 0, 1, 2] ! 3 :: 64 word) + unat ([0, 0, 0, 1, 2] ! 4 :: 64 word) = 3" by simp
  have c: "(3 :: nat) < 2 ^ 64" by simp
  have pre: "length [0, 0, 0, 1, 2 :: 64 word] = 5" "nr_field ?rl = LOCAL_PERCENT" "nr_field ?rr = REMOTE_PERCENT"
      "nr_field ?ra = ALLOCATIONS" by simp_all
  obtain l r and a :: "64 word" where v: "NumaValue ?rl [0, 0, 0, 1, 2] = Some (VU64 l)" "NumaValue ?rr [0, 0, 0, 1, 2] = Some (VU64 r)"
    and a: "unat a = 3" and lr: "if a = 0 then l = 0 \<and> r = 0
      else uint l = 10000 * uint ([0, 0, 0, 1, 2] ! 3 :: 64 word) div uint a
        \<and> uint r = 10000 * uint ([0, 0, 0, 1, 2] ! 4 :: 64 word) div uint a \<and> uint l + uint r \<in> {9999, 10000}"
    using numa_locality_shares [OF pre] unfolding fits if_P [OF c] by blast
  have "uint a = 3" "a \<noteq> 0" using a by (auto simp: uint_nat)
  then show ?thesis using v lr by auto
qed

end
