(* ===== verification/Numa_Readings.thy ===== *)
theory Numa_Readings
  imports Numa
begin

text \<open>
  What the NUMA collector measures: the exact increments between two readings of numastat, the
  intervals a collection reports (never one that spans a pause or a failed reading), and the
  parser on every text a kernel may print.
\<close>

section \<open>The increments are exact\<close>

lemma add_increments_eq:
  "length cs = length ps \<Longrightarrow> length ps = length ds \<Longrightarrow>
    add_increments cs ps ds =
      (if \<forall>i<length ds. ps ! i \<le> cs ! i \<and> unat (ds ! i) + (unat (cs ! i) - unat (ps ! i)) < 2 ^ 64
       then Some (map (\<lambda>i. ds ! i + (cs ! i - ps ! i)) [0..<length ds]) else None)"
proof (induction cs ps ds rule: list_induct3)
  case (Cons c cs p ps d ds)
  have fits: "\<not> c - p > - 1 - d \<longleftrightarrow> unat d + (unat c - unat p) < 2 ^ 64" if "p \<le> c"
  proof -
    have "unat d < 2 ^ LENGTH(64)" by (rule unsigned_less)
    then show ?thesis
      using that
      by (auto simp: word_less_nat_alt word_le_nat_alt unat_sub_if' unsigned_minus_1_eq_mask mask_eq_exp_minus_1)
  qed
  have upt: "[0..<length (d # ds)] = 0 # map Suc [0..<length ds]" by (simp add: upt_conv_Cons map_Suc_upt del: upt_Suc)
  show ?case
  proof (cases "p \<le> c")
    case True
    then show ?thesis
      using Cons.IH fits [OF True] unfolding upt by (auto simp: All_less_Suc2 comp_def)
  next
    case False
    then show ?thesis by (auto simp: All_less_Suc2 not_le)
  qed
qed simp

text \<open>The entries of a snapshot that an operation selects, and their increments.\<close>

definition selected :: "string \<Rightarrow> numa_snapshot \<Rightarrow> numa_snapshot" where
  "selected node s = filter (\<lambda>x. node = [] \<or> fst x = node) s"

definition advances :: "numa_snapshot \<Rightarrow> string \<times> counts \<Rightarrow> bool" where
  "advances previous x = (case map_of previous (fst x) of
     None \<Rightarrow> False | Some old \<Rightarrow> \<forall>i<length kFields. old ! i \<le> snd x ! i)"

definition increment :: "numa_snapshot \<Rightarrow> nat \<Rightarrow> numa_snapshot \<Rightarrow> nat" where
  "increment previous i xs = sum_list (map (\<lambda>x. unat (snd x ! i) - unat (the (map_of previous (fst x)) ! i)) xs)"

lemma increment_simps [simp]:
  "increment previous i [] = 0"
  "increment previous i (x # xs) = unat (snd x ! i) - unat (the (map_of previous (fst x)) ! i) + increment previous i xs"
  by (simp_all add: increment_def)

lemma delta_nodes_eq:
  assumes "\<forall>x\<in>set previous. length (snd x) = k" "\<forall>x\<in>set current. length (snd x) = k" "length d = k" "k = length kFields"
  shows "delta_nodes previous node current (found, d) =
    (if (\<forall>x\<in>set (selected node current). advances previous x)
        \<and> (\<forall>i<k. unat (d ! i) + increment previous i (selected node current) < 2 ^ 64)
     then Some (found \<or> selected node current \<noteq> [],
       map (\<lambda>i. d ! i + of_nat (increment previous i (selected node current))) [0..<k])
     else None)"
  using assms(2,3)
proof (induction current arbitrary: found d)
  case Nil
  have "\<forall>i<k. unat (d ! i) < 2 ^ 64"
  proof (intro allI impI)
    fix i have "unat (d ! i) < 2 ^ LENGTH(64)" by (rule unsigned_less)
    then show "unat (d ! i) < 2 ^ 64" by simp
  qed
  moreover have "map (\<lambda>i. d ! i) [0..<k] = d" using Nil map_nth [of d] by simp
  ultimately show ?case by (simp add: selected_def)
next
  case (Cons x xs)
  obtain n c where x: "x = (n, c)" by fastforce
  show ?case
  proof (cases "node = [] \<or> n = node")
    case False
    then show ?thesis using Cons.IH [of d found] Cons.prems by (auto simp: x selected_def)
  next
    case True
    have sel: "selected node (x # xs) = x # selected node xs" using True by (simp add: x selected_def)
    show ?thesis
    proof (cases "map_of previous n")
      case None
      then show ?thesis unfolding sel using True by (auto simp: x advances_def)
    next
      case (Some old)
      have len: "length old = k" using assms(1) map_of_SomeD [OF Some] by force
      let ?ok = "\<forall>i<k. old ! i \<le> c ! i \<and> unat (d ! i) + (unat (c ! i) - unat (old ! i)) < 2 ^ 64"
      let ?d = "map (\<lambda>i. d ! i + (c ! i - old ! i)) [0..<k]"
      have add: "add_increments c old d = (if ?ok then Some ?d else None)"
        using add_increments_eq [of c old d] len Cons.prems by (simp add: x)
      show ?thesis
      proof (cases ?ok)
        case False
        then obtain i where i: "i < k" "\<not> old ! i \<le> c ! i \<or> 2 ^ 64 \<le> unat (d ! i) + (unat (c ! i) - unat (old ! i))"
          by (auto simp: not_less)
        have lhs: "delta_nodes previous node (x # xs) (found, d) = None"
          using True Some add unfolding if_not_P [OF False] by (auto simp: x)
        have "\<not> (advances previous x \<and> unat (d ! i) + increment previous i (x # selected node xs) < 2 ^ 64)"
          using i Some assms(4) by (auto simp: x advances_def not_less)
        then show ?thesis unfolding lhs sel using i(1) by auto
      next
        case ok: True
        have u: "unat (?d ! i) = unat (d ! i) + (unat (c ! i) - unat (old ! i))"
            "?d ! i = d ! i + of_nat (unat (c ! i) - unat (old ! i))" if "i < k" for i
        proof -
          have le: "old ! i \<le> c ! i" and b: "unat (d ! i) + (unat (c ! i) - unat (old ! i)) < 2 ^ 64"
            using ok that by blast+
          have s: "unat (c ! i - old ! i) = unat (c ! i) - unat (old ! i)"
            using le by (simp add: unat_sub_if' word_le_nat_alt)
          show "unat (?d ! i) = unat (d ! i) + (unat (c ! i) - unat (old ! i))"
            using that b s by (simp add: unat_plus_if')
          show "?d ! i = d ! i + of_nat (unat (c ! i) - unat (old ! i))"
            using that by (simp flip: s)
        qed
        have "delta_nodes previous node (x # xs) (found, d) = delta_nodes previous node xs (True, ?d)"
          using True Some add unfolding if_P [OF ok] by (auto simp: x)
        also have "\<dots> = (if (\<forall>y\<in>set (selected node xs). advances previous y)
            \<and> (\<forall>i<k. unat (?d ! i) + increment previous i (selected node xs) < 2 ^ 64)
          then Some (True, map (\<lambda>i. ?d ! i + of_nat (increment previous i (selected node xs))) [0..<k]) else None)"
          using Cons.IH [of ?d True] Cons.prems by simp
        also have "(\<forall>i<k. unat (?d ! i) + increment previous i (selected node xs) < 2 ^ 64)
            = (\<forall>i<k. unat (d ! i) + increment previous i (selected node (x # xs)) < 2 ^ 64)"
          unfolding sel using u(1) by (simp add: x Some add.assoc)
        also have "map (\<lambda>i. ?d ! i + of_nat (increment previous i (selected node xs))) [0..<k]
            = map (\<lambda>i. d ! i + of_nat (increment previous i (selected node (x # xs)))) [0..<k]"
          unfolding sel using u(2) by (simp add: x Some add.assoc)
        also have "(\<forall>y\<in>set (selected node xs). advances previous y)
            = (\<forall>y\<in>set (selected node (x # xs)). advances previous y)"
          unfolding sel using ok assms(4) by (simp add: x Some advances_def)
        finally show ?thesis by (simp add: sel)
      qed
    qed
  qed
qed

text \<open>
  The increments between two snapshots are, for each of the five counters, the exact sum over
  the selected nodes of what the counter advanced by.  Delta refuses the interval, instead of
  wrapping, exactly when there is no earlier snapshot, a node came or went, the operation's node
  is not there, a counter ran backwards or the sum does not fit 64 bits.
\<close>

theorem numa_delta_exact:
  assumes "\<forall>x\<in>set previous \<union> set current. length (snd x) = 5"
  shows "Numa_Delta previous current node =
    (if previous \<noteq> [] \<and> length previous = length current \<and> selected node current \<noteq> []
        \<and> (\<forall>x\<in>set (selected node current). advances previous x)
        \<and> (\<forall>i<5. increment previous i (selected node current) < 2 ^ 64)
     then Some (map (\<lambda>i. of_nat (increment previous i (selected node current))) [0..<5]) else None)"
proof -
  have k: "length kFields = 5" by (simp add: kFields_def)
  have "delta_nodes previous node current (False, replicate 5 0) =
    (if (\<forall>x\<in>set (selected node current). advances previous x)
        \<and> (\<forall>i<5. increment previous i (selected node current) < 2 ^ 64)
     then Some (selected node current \<noteq> [], map (\<lambda>i. of_nat (increment previous i (selected node current))) [0..<5])
     else None)"
  proof -
    have len: "\<forall>x\<in>set previous. length (snd x) = 5" "\<forall>x\<in>set current. length (snd x) = 5"
      using assms by blast+
    have zero: "(\<forall>i<5. unat (replicate 5 (0 :: 64 word) ! i) + f i < 2 ^ 64) = (\<forall>i<5. f i < 2 ^ 64)"
        "map (\<lambda>i. replicate 5 (0 :: 64 word) ! i + g i) [0..<5] = map g [0..<5]" for f g
      by (auto intro!: map_cong simp del: upt_Suc upt_rec_numeral)
    show ?thesis
      using delta_nodes_eq [OF len _ k [symmetric], of "replicate 5 0" node False, OF length_replicate]
      unfolding zero by (simp only: simp_thms)
  qed
  then show ?thesis unfolding Numa_Delta_def k by auto
qed

theorem numa_delta_exact_witness:
  "Numa_Delta [(''node0'', [1, 2, 3, 4, 5]), (''node1'', [9, 9, 9, 9, 9])]
     [(''node0'', [2, 4, 6, 8, 10]), (''node1'', [9, 9, 9, 9, 10])] [] = Some [1, 2, 3, 4, 6]"
proof -
  let ?p = "[(''node0'', [1, 2, 3, 4, 5]), (''node1'', [9, 9, 9, 9, 9])] :: numa_snapshot"
  let ?c = "[(''node0'', [2, 4, 6, 8, 10]), (''node1'', [9, 9, 9, 9, 10])] :: numa_snapshot"
  have sel: "selected [] ?c = ?c" by (simp add: selected_def)
  have lt: "(\<forall>i<5. P i) = (P 0 \<and> P 1 \<and> P 2 \<and> P 3 \<and> P (4 :: nat))" for P
    by (simp add: numeral_eq_Suc All_less_Suc2)
  have k: "length kFields = 5" by (simp add: kFields_def)
  have inc: "increment ?p 0 ?c = 1" "increment ?p 1 ?c = 2" "increment ?p 2 ?c = 3" "increment ?p 3 ?c = 4"
      "increment ?p 4 ?c = 6" by simp_all
  have adv: "\<forall>x\<in>set ?c. advances ?p x" unfolding advances_def k lt by simp
  have upt: "[0..<5] = [0, 1, 2, 3, 4 :: nat]" by (simp add: upt_rec)
  show ?thesis
    using numa_delta_exact [of ?p ?c "[]"] adv unfolding sel lt upt list.map inc by simp
qed

section \<open>A collection sinks the increments of its own intervals\<close>

text \<open>What an interval between two snapshots yields for the operations that read it.\<close>

definition interval_sample :: "numa_snapshot \<Rightarrow> numa_snapshot \<Rightarrow> 64 word \<Rightarrow> numa_read_operation \<Rightarrow> raw_sample list" where
  "interval_sample s0 s1 tick read =
    (case Option.bind (Numa_Delta s0 s1 (nr_node read)) (NumaValue read) of
       None \<Rightarrow> [] | Some v \<Rightarrow> [\<lparr>rs_operation_id = nr_id read, rs_value = v, rs_raw_tick = tick\<rparr>])"

lemma sample_operations_eq:
  assumes "distinct (map nr_id reads)" "\<forall>r\<in>set reads. previous (nr_id r) = s0"
  shows "sample_operations s1 tick (map NumaRead reads) previous acc =
    (Inr (acc @ concat (map (interval_sample s0 s1 tick) reads)),
     (\<lambda>i. if i \<in> nr_id ` set reads then s1 else previous i))"
  using assms
proof (induction reads arbitrary: previous acc)
  case (Cons r reads)
  have "\<forall>x\<in>set reads. (previous(nr_id r := s1)) (nr_id x) = s0"
  proof
    fix x assume "x \<in> set reads"
    moreover have "nr_id r \<notin> nr_id ` set reads" using Cons.prems(1) by simp
    ultimately have "nr_id x \<noteq> nr_id r" by (metis image_eqI)
    then show "(previous(nr_id r := s1)) (nr_id x) = s0" using Cons.prems(2) \<open>x \<in> set reads\<close> by simp
  qed
  note IH = Cons.IH [OF _ this]
  have prev: "(\<lambda>i. if i \<in> nr_id ` set reads then s1 else (previous(nr_id r := s1)) i)
      = (\<lambda>i. if i \<in> nr_id ` set (r # reads) then s1 else previous i)"
    by (simp add: fun_eq_iff)
  have step: "(case Numa_Delta (previous (nr_id r)) s1 (nr_node r) of
         None \<Rightarrow> acc
       | Some delta \<Rightarrow> (case NumaValue r delta of
           None \<Rightarrow> acc | Some v \<Rightarrow> acc @ [\<lparr>rs_operation_id = nr_id r, rs_value = v, rs_raw_tick = tick\<rparr>]))
      = acc @ interval_sample s0 s1 tick r"
    using Cons.prems by (simp add: interval_sample_def split: option.split)
  show ?case
    using IH Cons.prems unfolding list.map sample_operations.simps step prev [symmetric] by (simp del: fun_upd_apply)
qed simp

lemma interval_sample_first [simp]: "interval_sample [] s1 tick read = []"
  by (simp add: interval_sample_def Numa_Delta_def)

text \<open>
  After a resume, the first reading sinks nothing, since no increment may span the pause;
  the second sinks, for every operation whose interval is valid, the value of the increments
  between the two snapshots, in the order of the operations, with the tick of the second.
\<close>

theorem numa_intervals_within_run:
  assumes "Numa_ResumeCollection c = (ASTL_STATUS_SUCCESS, c0)" "nc_configuration c = Some cfg" "nc_sink c"
    and "operationsOnSample (cfg_operations cfg) = map NumaRead reads" "reads \<noteq> []" "distinct (map nr_id reads)"
    and "Numa_Read (ne_files env (nc_reads c)) (nc_nodes c) = Inr s0"
    and "Numa_Read (ne_files env (Suc (nc_reads c))) (nc_nodes c) = Inr s1"
  shows "\<exists>c1 c2. Numa_ReadImmediate env c0 = (ASTL_STATUS_SUCCESS, c1) \<and> nc_sunk c1 = nc_sunk c
    \<and> snd (Numa_ReadImmediate env c1) = c2
    \<and> nc_sunk c2 = nc_sunk c @
        (case concat (map (interval_sample s0 s1 (ne_tick env (Suc (nc_reads c)))) reads) of
           [] \<Rightarrow> [] | samples \<Rightarrow> [(cfg_target cfg, samples)])"
proof -
  have c0: "nc_state c0 = STARTED" "nc_configuration c0 = Some cfg" "nc_previous c0 = (\<lambda>i. [])" "nc_sink c0"
      "nc_reads c0 = nc_reads c" "nc_nodes c0 = nc_nodes c" "nc_sunk c0 = nc_sunk c"
    using assms(1-3) by (auto simp: Numa_ResumeCollection_def Let_def split: if_splits)
  let ?p = "\<lambda>i. if i \<in> nr_id ` set reads then s0 else []"
  let ?c1 = "c0\<lparr>nc_reads := Suc (nc_reads c), nc_previous := ?p\<rparr>"
  have first: "Numa_ReadImmediate env c0 = (ASTL_STATUS_SUCCESS, ?c1)"
    using c0 assms(4,5,7) sample_operations_eq [OF assms(6), of "\<lambda>i. []" "[]" s0 "ne_tick env (nc_reads c)" "[]"]
    by (simp add: Numa_ReadImmediate_def Numa_ExecuteCollectionOperations_def Let_def)
  have "nc_sunk (snd (Numa_ReadImmediate env ?c1)) = nc_sunk c @
      (case concat (map (interval_sample s0 s1 (ne_tick env (Suc (nc_reads c)))) reads) of
         [] \<Rightarrow> [] | samples \<Rightarrow> [(cfg_target cfg, samples)])"
    using c0 assms(4,5,8) sample_operations_eq [OF assms(6), of ?p s0 s1 "ne_tick env (Suc (nc_reads c))" "[]"]
    by (simp add: Numa_ReadImmediate_def Numa_ExecuteCollectionOperations_def Let_def del: concat_eq_Nil_conv split: list.split)
  then show ?thesis using first c0 by (intro exI [of _ ?c1] exI) auto
qed

section \<open>Reading the numastat text back\<close>

text \<open>The text the kernel prints: one line per counter.\<close>

definition numastat_line :: "string \<times> nat \<Rightarrow> string" where
  "numastat_line row = fst row @ '' '' @ show_nat (snd row)"

definition numastat :: "(string \<times> nat) list \<Rightarrow> string" where
  "numastat rows = unlines (map numastat_line rows)"

definition occurrences :: "string \<Rightarrow> (string \<times> nat) list \<Rightarrow> nat" where
  "occurrences k rows = length (filter (\<lambda>row. fst row = k) rows)"

lemma numastat_line_tokens:
  assumes "is_token k"
  shows "SplitWhitespace (numastat_line (k, n)) = [k, show_nat n]" "newline \<notin> set (numastat_line (k, n))"
proof -
  have d: "list_all (\<lambda>c. \<not> isspace c) (show_nat n)" by (rule digits_no_space [OF show_nat_digits])
  have "wf_layout [(k, '' ''), (show_nat n, [])]"
    using assms d by (simp add: is_token_def list_all_iff isspace_def)
  from SplitWhitespace_layout [OF this] show "SplitWhitespace (numastat_line (k, n)) = [k, show_nat n]"
    by (simp add: numastat_line_def)
  have "isspace newline" "newline \<noteq> CHR '' ''" by (simp_all add: isspace_def newline_def)
  then show "newline \<notin> set (numastat_line (k, n))"
    using assms d by (auto simp: numastat_line_def is_token_def list_all_iff)
qed

lemma find_field_iff: "distinct fs \<Longrightarrow> find_field k fs = Some i \<longleftrightarrow> i < length fs \<and> fs ! i = k"
proof (induction fs arbitrary: i)
  case (Cons f fs)
  then show ?case by (cases i) (auto simp: in_set_conv_nth)
qed simp

lemma find_field_None: "find_field k fs = None \<longleftrightarrow> k \<notin> set fs"
  by (induction fs) auto

lemma distinct_kFields: "distinct kFields" by (simp add: kFields_def)

lemma parse_line_row:
  assumes "is_token k" "n < 2 ^ 64"
  shows "parse_line (numastat_line (k, n)) st =
    (case find_field k kFields of
       None \<Rightarrow> Inr st
     | Some i \<Rightarrow> if snd st ! i then Inl ASTL_STATUS_BAD_CONFIGURATION
         else Inr ((fst st)[i := of_nat n], (snd st)[i := True]))"
  using assms
  by (simp add: parse_line_def numastat_line_tokens parse_unsigned_show split: option.split)

lemma parse_all_rows:
  assumes "\<forall>(k, n)\<in>set rows. is_token k \<and> n < 2 ^ 64" "length vs = length kFields" "length seen = length kFields"
  shows "parse_all (map numastat_line rows) (vs, seen) =
    (if \<forall>i<length kFields. occurrences (kFields ! i) rows \<le> (if seen ! i then 0 else 1)
     then Inr (map (\<lambda>i. case map_of rows (kFields ! i) of None \<Rightarrow> vs ! i | Some n \<Rightarrow> of_nat n) [0..<length kFields],
       map (\<lambda>i. seen ! i \<or> occurrences (kFields ! i) rows \<noteq> 0) [0..<length kFields])
     else Inl ASTL_STATUS_BAD_CONFIGURATION)"
  using assms
proof (induction rows arbitrary: vs seen)
  case Nil
  then show ?case using map_nth [of vs] map_nth [of seen] by (simp add: occurrences_def)
next
  case (Cons row rows)
  obtain k n where row: "row = (k, n)" by fastforce
  have kn: "is_token k" "n < 2 ^ 64" using Cons.prems(1) by (simp_all add: row)
  have IH: "length v = length kFields \<Longrightarrow> length u = length kFields \<Longrightarrow>
    parse_all (map numastat_line rows) (v, u) =
    (if \<forall>i<length kFields. occurrences (kFields ! i) rows \<le> (if u ! i then 0 else 1)
     then Inr (map (\<lambda>i. case map_of rows (kFields ! i) of None \<Rightarrow> v ! i | Some n \<Rightarrow> of_nat n) [0..<length kFields],
       map (\<lambda>i. u ! i \<or> occurrences (kFields ! i) rows \<noteq> 0) [0..<length kFields])
     else Inl ASTL_STATUS_BAD_CONFIGURATION)" for v u
    using Cons.IH Cons.prems(1) by auto
  show ?case
  proof (cases "find_field k kFields")
    case None
    then have nk: "k \<noteq> kFields ! i" if "i < length kFields" for i
      using that by (auto simp: find_field_None)
    have occ: "occurrences (kFields ! i) (row # rows) = occurrences (kFields ! i) rows"
        "map_of (row # rows) (kFields ! i) = map_of rows (kFields ! i)" if "i < length kFields" for i
      using nk [OF that] by (simp_all add: occurrences_def row)
    show ?thesis
      using Cons parse_line_row [OF kn, of "(vs, seen)"] None occ by (simp add: row cong: map_cong)
  next
    case (Some j)
    then have j: "j < length kFields" "kFields ! j = k" using find_field_iff [OF distinct_kFields] by blast+
    have eq: "kFields ! i = k \<longleftrightarrow> i = j" if "i < length kFields" for i
      using j that distinct_kFields by (metis nth_eq_iff_index_eq)
    have occ: "occurrences (kFields ! i) (row # rows) = (if i = j then Suc (occurrences k rows) else occurrences (kFields ! i) rows)"
        "map_of (row # rows) (kFields ! i) = (if i = j then Some n else map_of rows (kFields ! i))"
      if "i < length kFields" for i
      using eq [OF that] j by (auto simp: occurrences_def row)
    show ?thesis
    proof (cases "seen ! j")
      case True
      have "\<not> occurrences (kFields ! j) (row # rows) \<le> 0" using occ(1) [OF j(1)] by simp
      then show ?thesis using parse_line_row [OF kn, of "(vs, seen)"] Some True j(1) by (auto simp: row)
    next
      case False
      let ?seen = "seen[j := True]" and ?vs = "vs[j := of_nat n]"
      have step: "parse_all (map numastat_line (row # rows)) (vs, seen) = parse_all (map numastat_line rows) (?vs, ?seen)"
        using parse_line_row [OF kn, of "(vs, seen)"] Some False by (simp add: row)
      have ok: "(\<forall>i<length kFields. occurrences (kFields ! i) rows \<le> (if ?seen ! i then 0 else 1))
          = (\<forall>i<length kFields. occurrences (kFields ! i) (row # rows) \<le> (if seen ! i then 0 else 1))"
        using occ(1) False Cons.prems(3) j by (auto simp: nth_list_update)
      have seen: "map (\<lambda>i. ?seen ! i \<or> occurrences (kFields ! i) rows \<noteq> 0) [0..<length kFields]
          = map (\<lambda>i. seen ! i \<or> occurrences (kFields ! i) (row # rows) \<noteq> 0) [0..<length kFields]"
        using occ(1) Cons.prems(3) by (intro map_cong refl) (auto simp: nth_list_update)
      have vals: "map (\<lambda>i. case map_of rows (kFields ! i) of None \<Rightarrow> ?vs ! i | Some n \<Rightarrow> of_nat n) [0..<length kFields]
          = map (\<lambda>i. case map_of (row # rows) (kFields ! i) of None \<Rightarrow> vs ! i | Some n \<Rightarrow> of_nat n) [0..<length kFields]"
        if "occurrences k rows = 0"
      proof (intro map_cong refl)
        fix i assume i: "i \<in> set [0..<length kFields]"
        have "map_of rows k = None" using that by (auto simp: occurrences_def filter_empty_conv map_of_eq_None_iff)
        then show "(case map_of rows (kFields ! i) of None \<Rightarrow> ?vs ! i | Some n \<Rightarrow> of_nat n)
            = (case map_of (row # rows) (kFields ! i) of None \<Rightarrow> vs ! i | Some n \<Rightarrow> of_nat n)"
          using occ(2) [of i] i j Cons.prems(2) by (auto simp: nth_list_update split: option.split)
      qed
      show ?thesis
      proof (cases "occurrences k rows = 0")
        case True
        show ?thesis
          unfolding step IH [of ?vs ?seen, unfolded length_list_update, OF Cons.prems(2,3)] ok seen vals [OF True] ..
      next
        case False
        have "\<not> occurrences (kFields ! j) (row # rows) \<le> (if seen ! j then 0 else 1)"
          using occ(1) [OF j(1)] False by simp
        then have bad: "\<not> (\<forall>i<length kFields. occurrences (kFields ! i) (row # rows) \<le> (if seen ! i then 0 else 1))"
          using j(1) by blast
        show ?thesis
          unfolding step IH [of ?vs ?seen, unfolded length_list_update, OF Cons.prems(2,3)] ok if_not_P [OF bad] ..
      qed
    qed
  qed
qed

lemma Numa_Parse_rows:
  assumes "\<forall>(k, n)\<in>set rows. is_token k \<and> n < 2 ^ 64"
  shows "Numa_Parse (numastat rows) =
    (if \<forall>f\<in>set kFields. occurrences f rows = 1 then Inr (map (\<lambda>f. of_nat (the (map_of rows f))) kFields)
     else Inl ASTL_STATUS_BAD_CONFIGURATION)"
proof -
  have "getline_lines (numastat rows) = map numastat_line rows"
    using assms numastat_line_tokens(2) getline_lines_unlines [of "map numastat_line rows"]
    by (fastforce simp: numastat_def)
  note lines = this
  have cond: "(\<forall>i<length kFields. occurrences (kFields ! i) rows \<le> (if replicate (length kFields) False ! i then 0 else 1))
      = (\<forall>i<length kFields. occurrences (kFields ! i) rows \<le> 1)" by simp
  note parse = parse_all_rows [OF assms length_replicate length_replicate, of 0 False, unfolded cond]
  have one: "(\<forall>f\<in>set kFields. occurrences f rows = 1)
      = ((\<forall>i<length kFields. occurrences (kFields ! i) rows \<le> 1) \<and> (\<forall>i<length kFields. occurrences (kFields ! i) rows \<noteq> 0))"
    unfolding all_set_conv_all_nth by (metis le_Suc_eq le_zero_eq One_nat_def order_refl zero_neq_one)
  have vals: "map (\<lambda>i. case map_of rows (kFields ! i) of None \<Rightarrow> replicate (length kFields) 0 ! i | Some n \<Rightarrow> of_nat n)
        [0..<length kFields] = map (\<lambda>f. of_nat (the (map_of rows f))) kFields"
    if "\<forall>f\<in>set kFields. occurrences f rows = 1"
  proof (rule nth_equalityI)
    fix i assume i: "i < length (map (\<lambda>i. case map_of rows (kFields ! i) of None \<Rightarrow> replicate (length kFields) 0 ! i
        | Some n \<Rightarrow> of_nat n) [0..<length kFields])"
    then have "occurrences (kFields ! i) rows = 1" using that by simp
    then have "kFields ! i \<in> fst ` set rows" by (auto simp: occurrences_def filter_eq_Cons_iff length_Suc_conv)
    then obtain n where "map_of rows (kFields ! i) = Some n" by (metis map_of_eq_None_iff not_None_eq)
    then show "map (\<lambda>i. case map_of rows (kFields ! i) of None \<Rightarrow> replicate (length kFields) 0 ! i
        | Some n \<Rightarrow> of_nat n) [0..<length kFields] ! i = map (\<lambda>f. of_nat (the (map_of rows f))) kFields ! i"
      using i by simp
  qed simp
  show ?thesis
  proof (cases "\<forall>i<length kFields. occurrences (kFields ! i) rows \<le> 1")
    case False
    then show ?thesis unfolding Numa_Parse_def one lines parse if_not_P [OF False] by simp
  next
    case True
    then have "Numa_Parse (numastat rows) =
      (if \<forall>i<length kFields. occurrences (kFields ! i) rows \<noteq> 0
       then Inr (map (\<lambda>i. case map_of rows (kFields ! i) of None \<Rightarrow> replicate (length kFields) 0 ! i | Some n \<Rightarrow> of_nat n)
        [0..<length kFields]) else Inl ASTL_STATUS_BAD_CONFIGURATION)"
      unfolding Numa_Parse_def lines parse if_P [OF True] by (simp add: list_all_length)
    then show ?thesis using True vals unfolding one by auto
  qed
qed

text \<open>
  Parsing the text of a numastat file gives back each of the five counters exactly when each is
  there once, whatever the order of the lines and whatever other counters the kernel prints; a
  missing or repeated counter is refused.
\<close>

theorem numa_parse_inverts_numastat:
  assumes "\<forall>(k, n)\<in>set rows. is_token k \<and> n < 2 ^ 64"
  shows "Numa_Parse (numastat rows) =
    (if \<forall>f\<in>set kFields. occurrences f rows = 1 then Inr (map (\<lambda>f. of_nat (the (map_of rows f))) kFields)
     else Inl ASTL_STATUS_BAD_CONFIGURATION)"
  using Numa_Parse_rows [OF assms] .

definition example_rows :: "nat \<Rightarrow> (string \<times> nat) list" where
  "example_rows n = [(''numa_hit'', n), (''numa_miss'', 1), (''numa_foreign'', 0), (''interleave_hit'', 2),
     (''local_node'', n), (''other_node'', 4)]"

lemma example_rows_ok: "n < 2 ^ 64 \<Longrightarrow> \<forall>(k, n)\<in>set (example_rows n). is_token k \<and> n < 2 ^ 64"
  by (simp add: example_rows_def is_token_def isspace_def)

lemma example_rows_once: "\<forall>f\<in>set kFields. occurrences f (example_rows n) = 1"
  by (simp add: kFields_def example_rows_def occurrences_def)

lemma example_rows_values:
  "map (\<lambda>f. of_nat (the (map_of (example_rows n) f))) kFields = [of_nat n, 1, 2, of_nat n, 4 :: 64 word]"
  by (simp add: kFields_def example_rows_def)

theorem numa_parse_inverts_numastat_witness:
  "Numa_Parse (numastat (example_rows 3)) = Inr [3, 1, 2, 3, 4]
    \<and> Numa_Parse (numastat [(''numa_hit'', 3)]) = Inl ASTL_STATUS_BAD_CONFIGURATION"
proof -
  have "\<not> (\<forall>f\<in>set kFields. occurrences f [(''numa_hit'', 3)] = 1)" by (simp add: kFields_def occurrences_def)
  then show ?thesis
    using numa_parse_inverts_numastat [OF example_rows_ok [of 3]] example_rows_once example_rows_values [of 3]
      numa_parse_inverts_numastat [of "[(''numa_hit'', 3)]"]
    by (simp add: is_token_def isspace_def)
qed

definition example_env :: "nat numa_env" where
  "example_env = \<lparr>ne_files = (\<lambda>n path. Inr (numastat (example_rows (if n = 0 then 3 else 10)))), ne_tick = (\<lambda>n. of_nat n),
     ne_accept = (\<lambda>sunk. ASTL_STATUS_SUCCESS)\<rparr>"

definition example_paused :: "nat numa_collector" where
  "example_paused = (NumaCollector [''node0''])
     \<lparr>nc_state := PAUSED, nc_sink := True, nc_configuration := Some \<lparr>cfg_target = 7,
        cfg_operations = \<lparr>operationsBeforeStart = [], operationsAtStart = [],
          operationsOnSample = map NumaRead [\<lparr>nr_id = 5, nr_field = HIT, nr_node = ''node0''\<rparr>], operationsAtStop = []\<rparr>,
        cfg_mode = MODE_SAMPLING, cfg_sampling_interval = 100\<rparr>\<rparr>"

lemma example_read:
  "Numa_Read (ne_files example_env n) [''node0''] =
    Inr [(''node0'', [if n = 0 then 3 else 10, 1, 2, if n = 0 then 3 else 10, 4])]"
  using Numa_Parse_rows [OF example_rows_ok [of 3]] Numa_Parse_rows [OF example_rows_ok [of 10]] example_rows_once
    example_rows_values [of 3] example_rows_values [of 10]
  by (simp add: Numa_Read_def example_env_def emplace_def)

theorem numa_intervals_within_run_witness:
  "\<exists>c1. Numa_ReadImmediate example_env (snd (Numa_ResumeCollection example_paused)) = (ASTL_STATUS_SUCCESS, c1)
    \<and> nc_sunk c1 = []
    \<and> nc_sunk (snd (Numa_ReadImmediate example_env c1))
      = [(7, [\<lparr>rs_operation_id = 5, rs_value = VU64 7, rs_raw_tick = 1\<rparr>])]"
proof -
  let ?c0 = "snd (Numa_ResumeCollection example_paused)"
  let ?read = "\<lparr>nr_id = 5, nr_field = HIT, nr_node = ''node0''\<rparr>"
  let ?s0 = "[(''node0'', [3, 1, 2, 3, 4])] :: numa_snapshot" and ?s1 = "[(''node0'', [10, 1, 2, 10, 4])] :: numa_snapshot"
  have r: "Numa_ResumeCollection example_paused = (ASTL_STATUS_SUCCESS, ?c0)"
    by (simp add: Numa_ResumeCollection_def example_paused_def lifecycle_table)
  have iv: "interval_sample ?s0 ?s1 1 ?read = [\<lparr>rs_operation_id = 5, rs_value = VU64 7, rs_raw_tick = 1\<rparr>]"
    by (simp add: interval_sample_def Numa_Delta_def NumaValue_def kFields_def)
  obtain cfg where cfg: "nc_configuration example_paused = Some cfg" "cfg_target cfg = 7"
      "operationsOnSample (cfg_operations cfg) = map NumaRead [?read]"
    by (simp add: example_paused_def)
  have reads: "Numa_Read (ne_files example_env (nc_reads example_paused)) (nc_nodes example_paused) = Inr ?s0"
      "Numa_Read (ne_files example_env (Suc (nc_reads example_paused))) (nc_nodes example_paused) = Inr ?s1"
    using example_read [of 0] example_read [of 1] by (simp_all add: example_paused_def NumaCollector_def)
  have tick: "ne_tick example_env (Suc (nc_reads example_paused)) = 1" "nc_sunk example_paused = []" "nc_sink example_paused"
    by (simp_all add: example_env_def example_paused_def NumaCollector_def)
  show ?thesis
    using numa_intervals_within_run [OF r cfg(1) tick(3) cfg(3) _ _ reads] iv cfg(2) unfolding tick(1,2) by simp
qed

end
