(* ===== verification/Collector_Manager.thy ===== *)
theory Collector_Manager
  imports Numa_Readings Samples
begin

text \<open>
  src/impl/collector/collector_manager.cpp: the collectors of every target, the set of targets
  that are being collected and the fan-out of raw samples.  The manager relies on a collector
  through the locale strict_collector of Lifecycle; the definitions take the collector's commands
  as an argument, and the last section applies the result to NUMA collectors.  A collector reports
  its type and keeps its own raw sample sink, which the constructor sets through set_sink.
\<close>

section \<open>The manager\<close>

text \<open>
  The collectors of a target, each with the collector type of its capabilities; the maps and sets
  are lists in their iteration order, without duplicate keys.
\<close>

record ('t, 'k, 'c, 's) collector_manager =
  cm_collectors :: "('t \<times> ('k \<times> 'c) list) list"
  cm_active :: "'t list"
  cm_sinks :: "'s list"

definition CollectorManager :: "('c \<Rightarrow> 'c) \<Rightarrow> ('t \<times> ('k \<times> 'c) list) list \<Rightarrow> ('t, 'k, 'c, 's) collector_manager" where
  "CollectorManager set_sink collectors =
    \<lparr>cm_collectors = map (\<lambda>(t, cs). (t, map (\<lambda>(k, c). (k, set_sink c)) cs)) collectors, cm_active = [], cm_sinks = []\<rparr>"

definition ReportCollectionCapabilities :: "('t, 'k, 'c, 's) collector_manager \<Rightarrow> ('t \<times> 'k list) list" where
  "ReportCollectionCapabilities m =
    map (\<lambda>(t, cs). (t, map fst cs)) (filter (\<lambda>(t, cs). cs \<noteq> []) (cm_collectors m))"

definition RegisterRawSampleSink :: "'s option \<Rightarrow> ('t, 'k, 'c, 's) collector_manager
    \<Rightarrow> astl_status \<times> ('t, 'k, 'c, 's) collector_manager" where
  "RegisterRawSampleSink sink m =
    (case sink of
       None \<Rightarrow> (ASTL_STATUS_BAD_ARGUMENT, m)
     | Some s \<Rightarrow> (ASTL_STATUS_SUCCESS, m\<lparr>cm_sinks := List.insert s (cm_sinks m)\<rparr>))"

definition UnregisterRawSampleSink :: "'s option \<Rightarrow> ('t, 'k, 'c, 's) collector_manager
    \<Rightarrow> astl_status \<times> ('t, 'k, 'c, 's) collector_manager" where
  "UnregisterRawSampleSink sink m =
    (case sink of
       None \<Rightarrow> (ASTL_STATUS_BAD_ARGUMENT, m)
     | Some s \<Rightarrow>
         if s \<notin> set (cm_sinks m) then (ASTL_STATUS_INTERNAL_ERROR, m)
         else (ASTL_STATUS_SUCCESS, m\<lparr>cm_sinks := remove1 s (cm_sinks m)\<rparr>))"

definition set_collectors :: "'t \<Rightarrow> ('k \<times> 'c) list \<Rightarrow> ('t, 'k, 'c, 's) collector_manager
    \<Rightarrow> ('t, 'k, 'c, 's) collector_manager" where
  "set_collectors t cs m =
    m\<lparr>cm_collectors := map (\<lambda>(t', cs'). (t', if t' = t then cs else cs')) (cm_collectors m)\<rparr>"

text \<open>SelectCollectorLocked: the first collector of the required type, with those before and after it.\<close>

definition SelectCollectorLocked :: "'t \<Rightarrow> 'k \<Rightarrow> ('t, 'k, 'c, 's) collector_manager
    \<Rightarrow> (('k \<times> 'c) list \<times> 'c \<times> ('k \<times> 'c) list) result" where
  "SelectCollectorLocked t required m =
    (case map_of (cm_collectors m) t of
       None \<Rightarrow> Inl ASTL_STATUS_NO_TARGET_FOUND
     | Some cs \<Rightarrow>
        (case dropWhile (\<lambda>(k, c). k \<noteq> required) cs of
           [] \<Rightarrow> Inl ASTL_STATUS_INVALID_COLLECTION_MODE
         | (k, c) # rest \<Rightarrow> Inr (takeWhile (\<lambda>(k, c). k \<noteq> required) cs, c, rest)))"

type_synonym ('cfg, 'c) collector_exec = "'cfg lifecycle_command \<Rightarrow> 'c \<Rightarrow> astl_status \<times> 'c"

definition ConfigureCollectionOnTarget :: "('cfg, 'c) collector_exec \<Rightarrow> 't \<Rightarrow> 'k \<Rightarrow> 'cfg
    \<Rightarrow> ('t, 'k, 'c, 's) collector_manager \<Rightarrow> astl_status \<times> ('t, 'k, 'c, 's) collector_manager" where
  "ConfigureCollectionOnTarget exec t required cfg m =
    (case SelectCollectorLocked t required m of
       Inl e \<Rightarrow> (e, m)
     | Inr (before, c, rest) \<Rightarrow>
         (let (status, c') = exec (CmdConfigure cfg) c in
          (status, set_collectors t (before @ (required, c') # rest) m)))"

text \<open>Clearing a list of collectors: every one is asked, the last failure is reported.\<close>

fun clear_collectors :: "('cfg, 'c) collector_exec \<Rightarrow> astl_status \<Rightarrow> ('k \<times> 'c) list \<Rightarrow> astl_status \<times> ('k \<times> 'c) list" where
  "clear_collectors exec result [] = (result, [])"
| "clear_collectors exec result ((k, c) # cs) =
    (let (status, c') = exec CmdClear c;
         (result', cs') = clear_collectors exec (if status \<noteq> ASTL_STATUS_SUCCESS then status else result) cs in
     (result', (k, c') # cs'))"

fun clear_targets :: "('cfg, 'c) collector_exec \<Rightarrow> astl_status \<Rightarrow> ('t \<times> ('k \<times> 'c) list) list
    \<Rightarrow> astl_status \<times> ('t \<times> ('k \<times> 'c) list) list" where
  "clear_targets exec result [] = (result, [])"
| "clear_targets exec result ((t, cs) # ts) =
    (let (result', cs') = clear_collectors exec result cs; (result'', ts') = clear_targets exec result' ts in
     (result'', (t, cs') # ts'))"

definition ClearConfiguredCollections :: "('cfg, 'c) collector_exec
    \<Rightarrow> ('t, 'k, 'c, 's) collector_manager \<Rightarrow> astl_status \<times> ('t, 'k, 'c, 's) collector_manager" where
  "ClearConfiguredCollections exec m =
    (if cm_active m \<noteq> [] then (ASTL_STATUS_COLLECTION_ALREADY_RUNNING, m)
     else let (result, ts) = clear_targets exec ASTL_STATUS_SUCCESS (cm_collectors m) in
       (result, m\<lparr>cm_collectors := ts\<rparr>))"

definition ClearConfiguredCollectionOnTarget :: "('cfg, 'c) collector_exec \<Rightarrow> 't
    \<Rightarrow> ('t, 'k, 'c, 's) collector_manager \<Rightarrow> astl_status \<times> ('t, 'k, 'c, 's) collector_manager" where
  "ClearConfiguredCollectionOnTarget exec t m =
    (if t \<in> set (cm_active m) then (ASTL_STATUS_COLLECTION_ALREADY_RUNNING, m)
     else case map_of (cm_collectors m) t of
         None \<Rightarrow> (ASTL_STATUS_INVALID_TARGET_HANDLE, m)
       | Some [] \<Rightarrow> (ASTL_STATUS_INVALID_TARGET_HANDLE, m)
       | Some cs \<Rightarrow>
          (let (result, cs') = clear_collectors exec ASTL_STATUS_SUCCESS cs in (result, set_collectors t cs' m)))"

text \<open>A command for the first collector of a target; no lock is held while it runs.\<close>

definition on_front :: "('cfg, 'c) collector_exec \<Rightarrow> 'cfg lifecycle_command \<Rightarrow> 't
    \<Rightarrow> ('t, 'k, 'c, 's) collector_manager \<Rightarrow> astl_status \<times> ('t, 'k, 'c, 's) collector_manager" where
  "on_front exec x t m =
    (case map_of (cm_collectors m) t of
       Some ((k, c) # cs) \<Rightarrow> (let (status, c') = exec x c in (status, set_collectors t ((k, c') # cs) m))
     | _ \<Rightarrow> (ASTL_STATUS_INVALID_TARGET_HANDLE, m))"

definition StartOnTarget :: "('cfg, 'c) collector_exec \<Rightarrow> 't
    \<Rightarrow> ('t, 'k, 'c, 's) collector_manager \<Rightarrow> astl_status \<times> ('t, 'k, 'c, 's) collector_manager" where
  "StartOnTarget exec t m =
    (let (status, m1) = on_front exec CmdStart t m in
     (status, if status = ASTL_STATUS_SUCCESS then m1\<lparr>cm_active := List.insert t (cm_active m1)\<rparr> else m1))"

definition StopOnTarget :: "('cfg, 'c) collector_exec \<Rightarrow> 't
    \<Rightarrow> ('t, 'k, 'c, 's) collector_manager \<Rightarrow> astl_status \<times> ('t, 'k, 'c, 's) collector_manager" where
  "StopOnTarget exec t m =
    (let (status, m1) = on_front exec CmdStop t m in
     (status, if status = ASTL_STATUS_SUCCESS then m1\<lparr>cm_active := remove1 t (cm_active m1)\<rparr> else m1))"

definition PauseOnTarget :: "('cfg, 'c) collector_exec \<Rightarrow> 't
    \<Rightarrow> ('t, 'k, 'c, 's) collector_manager \<Rightarrow> astl_status \<times> ('t, 'k, 'c, 's) collector_manager" where
  "PauseOnTarget exec t m = on_front exec CmdPause t m"

definition ResumeOnTarget :: "('cfg, 'c) collector_exec \<Rightarrow> 't
    \<Rightarrow> ('t, 'k, 'c, 's) collector_manager \<Rightarrow> astl_status \<times> ('t, 'k, 'c, 's) collector_manager" where
  "ResumeOnTarget exec t m = on_front exec CmdResume t m"

definition ReadImmediateOnTarget :: "('cfg, 'c) collector_exec \<Rightarrow> 't
    \<Rightarrow> ('t, 'k, 'c, 's) collector_manager \<Rightarrow> astl_status \<times> ('t, 'k, 'c, 's) collector_manager" where
  "ReadImmediateOnTarget exec t m = on_front exec CmdRead t m"

definition CollectorManager_GetNativeClockSnapshot :: "('c \<Rightarrow> clock_correlation_map result) \<Rightarrow> 't
    \<Rightarrow> ('t, 'k, 'c, 's) collector_manager \<Rightarrow> clock_correlation_map result" where
  "CollectorManager_GetNativeClockSnapshot snapshot t m =
    (case map_of (cm_collectors m) t of
       Some ((k, c) # cs) \<Rightarrow> snapshot c
     | _ \<Rightarrow> Inl ASTL_STATUS_INVALID_TARGET_HANDLE)"

definition IsAnyTargetBeingCollected :: "('t, 'k, 'c, 's) collector_manager \<Rightarrow> bool" where
  "IsAnyTargetBeingCollected m \<longleftrightarrow> cm_active m \<noteq> []"

text \<open>The fan-out of raw samples: every registered sink is called, the last failure is reported.\<close>

fun sink_raw :: "('s \<Rightarrow> 't \<Rightarrow> raw_sample list \<Rightarrow> 'w \<Rightarrow> astl_status \<times> 'w) \<Rightarrow> 't \<Rightarrow> raw_sample list \<Rightarrow> 's list
    \<Rightarrow> astl_status \<Rightarrow> 'w \<Rightarrow> astl_status \<times> 'w" where
  "sink_raw deliver t samples [] result w = (result, w)"
| "sink_raw deliver t samples (s # sinks) result w =
    (let (status, w') = deliver s t samples w in
     sink_raw deliver t samples sinks (if status \<noteq> ASTL_STATUS_SUCCESS then status else result) w')"

definition CollectorManager_SinkRawSamples :: "('s \<Rightarrow> 't \<Rightarrow> raw_sample list \<Rightarrow> 'w \<Rightarrow> astl_status \<times> 'w)
    \<Rightarrow> ('t, 'k, 'c, 's) collector_manager \<Rightarrow> 't \<Rightarrow> raw_sample list \<Rightarrow> 'w \<Rightarrow> astl_status \<times> 'w" where
  "CollectorManager_SinkRawSamples deliver m t samples w =
    sink_raw deliver t samples (cm_sinks m) ASTL_STATUS_SUCCESS w"

section \<open>The commands of the orchestrator\<close>

datatype ('t, 'k, 'cfg) manager_command =
  MConfigure 't 'k 'cfg | MClearAll | MClear 't | MStart 't | MPause 't | MResume 't | MStop 't | MRead 't

fun manager_exec :: "('cfg, 'c) collector_exec \<Rightarrow> ('t, 'k, 'cfg) manager_command
    \<Rightarrow> ('t, 'k, 'c, 's) collector_manager \<Rightarrow> astl_status \<times> ('t, 'k, 'c, 's) collector_manager" where
  "manager_exec exec (MConfigure t k cfg) m = ConfigureCollectionOnTarget exec t k cfg m"
| "manager_exec exec MClearAll m = ClearConfiguredCollections exec m"
| "manager_exec exec (MClear t) m = ClearConfiguredCollectionOnTarget exec t m"
| "manager_exec exec (MStart t) m = StartOnTarget exec t m"
| "manager_exec exec (MPause t) m = PauseOnTarget exec t m"
| "manager_exec exec (MResume t) m = ResumeOnTarget exec t m"
| "manager_exec exec (MStop t) m = StopOnTarget exec t m"
| "manager_exec exec (MRead t) m = ReadImmediateOnTarget exec t m"

fun manager_run :: "('cfg, 'c) collector_exec \<Rightarrow> ('t, 'k, 'cfg) manager_command list
    \<Rightarrow> ('t, 'k, 'c, 's) collector_manager \<Rightarrow> ('t, 'k, 'c, 's) collector_manager" where
  "manager_run exec [] m = m"
| "manager_run exec (x # xs) m = manager_run exec xs (snd (manager_exec exec x m))"

section \<open>The manager over any collector that keeps its contract\<close>

context strict_collector
begin

text \<open>
  Only the first collector of a target ever runs, and it does exactly while the target is in the
  set of targets with an active collection.
\<close>

definition target_ok :: "'t list \<Rightarrow> 't \<times> ('k \<times> 'c) list \<Rightarrow> bool" where
  "target_ok active x \<longleftrightarrow>
    (case snd x of
       [] \<Rightarrow> fst x \<notin> set active
     | (k, c) # rest \<Rightarrow> (running c \<longleftrightarrow> fst x \<in> set active) \<and> (\<forall>(k, c)\<in>set rest. \<not> running c))"

definition manager_inv :: "('t, 'k, 'c, 's) collector_manager \<Rightarrow> bool" where
  "manager_inv m \<longleftrightarrow> distinct (map fst (cm_collectors m)) \<and> distinct (cm_active m)
    \<and> set (cm_active m) \<subseteq> fst ` set (cm_collectors m)
    \<and> (\<forall>x\<in>set (cm_collectors m). target_ok (cm_active m) x)"

lemma manager_inv_new:
  assumes "distinct (map fst collectors)" "\<forall>(t, cs)\<in>set collectors. \<forall>(k, c)\<in>set cs. \<not> running (set_sink c)"
  shows "manager_inv (CollectorManager set_sink collectors)"
proof -
  have "target_ok [] (t, map (\<lambda>(k, c). (k, set_sink c)) cs)" if "(t, cs) \<in> set collectors" for t cs
    using assms(2) that by (cases cs) (fastforce simp: target_ok_def)+
  moreover have "map fst (map (\<lambda>(t, cs). (t, map (\<lambda>(k, c). (k, set_sink c)) cs)) collectors) = map fst collectors"
    by (simp add: comp_def case_prod_beta')
  ultimately show ?thesis
    using assms(1) by (auto simp: manager_inv_def CollectorManager_def simp del: map_map)
qed

lemma manager_inv_target:
  "manager_inv m \<Longrightarrow> map_of (cm_collectors m) t = Some cs \<Longrightarrow> target_ok (cm_active m) (t, cs)"
  by (auto simp: manager_inv_def dest: map_of_SomeD)

lemma manager_inv_set:
  assumes "manager_inv m" "map_of (cm_collectors m) t = Some cs0" "target_ok active (t, cs)" "distinct active"
    and "\<forall>t'. t' \<noteq> t \<longrightarrow> (t' \<in> set active \<longleftrightarrow> t' \<in> set (cm_active m))"
  shows "manager_inv ((set_collectors t cs m)\<lparr>cm_active := active\<rparr>)"
proof -
  let ?cs = "cm_collectors (set_collectors t cs m)"
  have fst: "map fst ?cs = map fst (cm_collectors m)"
    by (simp add: set_collectors_def comp_def case_prod_beta')
  have t: "t \<in> fst ` set (cm_collectors m)" using assms(2) by (force dest: map_of_SomeD)
  have "set active \<subseteq> fst ` set ?cs"
    using assms(1,5) t by (auto simp: manager_inv_def simp flip: set_map simp add: fst) 
  moreover have "target_ok active x" if x: "x \<in> set ?cs" for x
  proof -
    obtain t' cs' where m: "(t', cs') \<in> set (cm_collectors m)" and x': "x = (t', if t' = t then cs else cs')"
      using x by (auto simp: set_collectors_def)
    have "target_ok (cm_active m) (t', cs')" using assms(1) m by (auto simp: manager_inv_def)
    then show ?thesis
      using assms(3,5) by (auto simp: x' target_ok_def split: list.splits)
  qed
  ultimately show ?thesis using assms(1,4) fst by (simp add: manager_inv_def)
qed

lemma on_front_cases:
  assumes "on_front exec x t m = (st, m')"
  obtains "m' = m" "st = ASTL_STATUS_INVALID_TARGET_HANDLE"
  | k c cs c' where "map_of (cm_collectors m) t = Some ((k, c) # cs)" "exec x c = (st, c')"
      "m' = set_collectors t ((k, c') # cs) m"
  using assms
  by (auto simp: on_front_def split: option.splits list.splits prod.splits)

lemma manager_inv_front_active:
  assumes "manager_inv m" "map_of (cm_collectors m) t = Some ((k, c) # cs)"
    and "running c' \<longleftrightarrow> t \<in> set active" "distinct active"
    and "\<forall>t'. t' \<noteq> t \<longrightarrow> (t' \<in> set active \<longleftrightarrow> t' \<in> set (cm_active m))"
  shows "manager_inv ((set_collectors t ((k, c') # cs) m)\<lparr>cm_active := active\<rparr>)"
  using manager_inv_target [OF assms(1,2)] assms(3)
  by (intro manager_inv_set [OF assms(1,2) _ assms(4,5)]) (auto simp: target_ok_def)

lemma manager_inv_front_keep:
  assumes "manager_inv m" "on_front exec x t m = (st, m')"
    and "\<And>c c'. exec x c = (st, c') \<Longrightarrow> running c' \<longleftrightarrow> running c"
  shows "manager_inv m'"
  using assms(2)
proof (cases rule: on_front_cases)
  case (2 k c cs c')
  have "running c \<longleftrightarrow> t \<in> set (cm_active m)"
    using manager_inv_target [OF assms(1) 2(1)] by (simp add: target_ok_def)
  then have "manager_inv ((set_collectors t ((k, c') # cs) m)\<lparr>cm_active := cm_active m\<rparr>)"
    using assms(1) 2 assms(3) [OF 2(2)]
    by (intro manager_inv_front_active [OF assms(1) 2(1)]) (auto simp: manager_inv_def)
  then show ?thesis by (simp add: 2(3) set_collectors_def)
qed (use assms(1) in simp)

lemma manager_inv_start: "manager_inv m \<Longrightarrow> manager_inv (snd (StartOnTarget exec t m))"
proof -
  assume inv: "manager_inv m"
  obtain st m1 where f: "on_front exec CmdStart t m = (st, m1)" by fastforce
  from f show ?thesis
  proof (cases rule: on_front_cases)
    case 1
    then show ?thesis using inv f by (simp add: StartOnTarget_def)
  next
    case (2 k c cs c')
    have "running c \<longleftrightarrow> t \<in> set (cm_active m)"
      using manager_inv_target [OF inv 2(1)] by (simp add: target_ok_def)
    then have "manager_inv ((set_collectors t ((k, c') # cs) m)\<lparr>cm_active :=
        if st = ASTL_STATUS_SUCCESS then List.insert t (cm_active m) else cm_active m\<rparr>)"
      using inv running_start [OF 2(2)]
      by (intro manager_inv_front_active [OF inv 2(1)]) (auto simp: manager_inv_def distinct_insert)
    then show ?thesis using f by (auto simp: StartOnTarget_def 2(3) set_collectors_def split: if_splits)
  qed
qed

lemma manager_inv_stop: "manager_inv m \<Longrightarrow> manager_inv (snd (StopOnTarget exec t m))"
proof -
  assume inv: "manager_inv m"
  then have d: "distinct (cm_active m)" by (simp add: manager_inv_def)
  obtain st m1 where f: "on_front exec CmdStop t m = (st, m1)" by fastforce
  from f show ?thesis
  proof (cases rule: on_front_cases)
    case 1
    then show ?thesis using inv f by (simp add: StopOnTarget_def)
  next
    case (2 k c cs c')
    have "running c \<longleftrightarrow> t \<in> set (cm_active m)"
      using manager_inv_target [OF inv 2(1)] by (simp add: target_ok_def)
    then have "manager_inv ((set_collectors t ((k, c') # cs) m)\<lparr>cm_active :=
        if st = ASTL_STATUS_SUCCESS then remove1 t (cm_active m) else cm_active m\<rparr>)"
      using d running_stop [OF 2(2)]
      by (intro manager_inv_front_active [OF inv 2(1)]) (auto simp: set_remove1_eq)
    then show ?thesis using f by (auto simp: StopOnTarget_def 2(3) set_collectors_def split: if_splits)
  qed
qed

lemma SelectCollectorLocked_Inr:
  assumes "SelectCollectorLocked t k m = Inr (before, c, rest)"
  shows "map_of (cm_collectors m) t = Some (before @ (k, c) # rest)" "\<forall>(k', c')\<in>set before. k' \<noteq> k"
proof -
  obtain cs where cs: "map_of (cm_collectors m) t = Some cs"
    using assms by (cases "map_of (cm_collectors m) t") (simp_all add: SelectCollectorLocked_def)
  let ?P = "\<lambda>(k', c). k' \<noteq> k"
  obtain x where d: "dropWhile ?P cs = x # rest" "c = snd x" "before = takeWhile ?P cs"
    using assms cs by (cases "dropWhile ?P cs") (auto simp: SelectCollectorLocked_def)
  then have "fst x = k" by (auto simp: dropWhile_eq_Cons_conv)
  then have "cs = before @ (k, c) # rest"
    using d takeWhile_dropWhile_id [of ?P cs] by (cases x) simp
  then show "map_of (cm_collectors m) t = Some (before @ (k, c) # rest)" using cs by simp
  show "\<forall>(k', c')\<in>set before. k' \<noteq> k" unfolding d(3) by (auto dest: set_takeWhileD)
qed

lemma target_ok_replace:
  "running c' = running c \<Longrightarrow>
    target_ok active (t, before @ (k, c') # rest) = target_ok active (t, before @ (k, c) # rest)"
  by (cases before) (simp_all add: target_ok_def case_prod_beta')

lemma manager_inv_configure: "manager_inv m \<Longrightarrow> manager_inv (snd (ConfigureCollectionOnTarget exec t k cfg m))"
proof (cases "SelectCollectorLocked t k m")
  case (Inr r)
  assume inv: "manager_inv m"
  obtain before c rest where r: "r = (before, c, rest)" by (cases r) auto
  obtain st c' where e: "exec (CmdConfigure cfg) c = (st, c')" by fastforce
  have cs: "map_of (cm_collectors m) t = Some (before @ (k, c) # rest)"
    by (rule SelectCollectorLocked_Inr(1)) (simp add: Inr r)
  have "target_ok (cm_active m) (t, before @ (k, c') # rest)"
    unfolding target_ok_replace [OF running_configure [OF e]] by (rule manager_inv_target [OF inv cs])
  then have "manager_inv ((set_collectors t (before @ (k, c') # rest) m)\<lparr>cm_active := cm_active m\<rparr>)"
    using inv by (intro manager_inv_set [OF inv cs]) (simp_all add: manager_inv_def)
  then show ?thesis using Inr e by (simp add: ConfigureCollectionOnTarget_def r set_collectors_def)
qed (simp add: ConfigureCollectionOnTarget_def)

lemma clear_collectors_running:
  "clear_collectors exec result cs = (result', cs') \<Longrightarrow>
    list_all2 (\<lambda>x y. fst x = fst y \<and> (running (snd y) \<longleftrightarrow> running (snd x))) cs cs'"
proof (induction cs arbitrary: result result' cs')
  case (Cons x cs)
  obtain k c where x: "x = (k, c)" by fastforce
  obtain st c' where e: "exec CmdClear c = (st, c')" by fastforce
  then show ?case
    using Cons running_clear [OF e] by (auto simp: x split: prod.splits)
qed simp

lemma target_ok_cong:
  "list_all2 (\<lambda>x y. fst x = fst y \<and> (running (snd y) \<longleftrightarrow> running (snd x))) cs cs' \<Longrightarrow>
    target_ok active (t, cs') \<longleftrightarrow> target_ok active (t, cs)"
proof -
  assume l: "list_all2 (\<lambda>x y. fst x = fst y \<and> (running (snd y) \<longleftrightarrow> running (snd x))) cs cs'"
  have all: "(\<forall>(k, c)\<in>set ys. \<not> running c) \<longleftrightarrow> (\<forall>(k, c)\<in>set xs. \<not> running c)"
    if "list_all2 (\<lambda>x y. fst x = fst y \<and> (running (snd y) \<longleftrightarrow> running (snd x))) xs ys" for xs ys
    using that by (induction rule: list_all2_induct) auto
  show ?thesis
  proof (cases cs)
    case (Cons x xs)
    then obtain y ys where "cs' = y # ys" "running (snd y) = running (snd x)"
        "list_all2 (\<lambda>x y. fst x = fst y \<and> (running (snd y) \<longleftrightarrow> running (snd x))) xs ys"
      using l by (auto simp: list_all2_Cons1)
    then show ?thesis using all [of xs ys] Cons by (simp add: target_ok_def case_prod_beta')
  qed (use l in simp)
qed

lemma clear_targets_inv:
  "clear_targets exec result ts = (result', ts') \<Longrightarrow>
    map fst ts' = map fst ts \<and> ((\<forall>x\<in>set ts'. target_ok active x) \<longleftrightarrow> (\<forall>x\<in>set ts. target_ok active x))"
proof (induction ts arbitrary: result result' ts')
  case (Cons x ts)
  obtain t cs where x: "x = (t, cs)" by fastforce
  obtain r1 cs' where c: "clear_collectors exec result cs = (r1, cs')" by fastforce
  obtain r2 ts1 where r: "clear_targets exec r1 ts = (r2, ts1)" by fastforce
  show ?case
    using Cons.prems Cons.IH [OF r] c r target_ok_cong [OF clear_collectors_running [OF c], of active t]
    by (simp add: x) (metis list.simps(9) fst_conv list.set_intros(1) set_ConsD list.set_intros(2))
qed simp

lemma manager_inv_clear_all: "manager_inv m \<Longrightarrow> manager_inv (snd (ClearConfiguredCollections exec m))"
proof -
  assume inv: "manager_inv m"
  obtain r ts where c: "clear_targets exec ASTL_STATUS_SUCCESS (cm_collectors m) = (r, ts)" by fastforce
  have f: "map fst ts = map fst (cm_collectors m)" using clear_targets_inv [OF c] by blast
  then have "fst ` set ts = fst ` set (cm_collectors m)" by (metis list.set_map)
  then show ?thesis
    using inv clear_targets_inv [OF c, of "cm_active m"] c f
    by (cases "cm_active m") (auto simp: ClearConfiguredCollections_def manager_inv_def)
qed

lemma manager_inv_clear: "manager_inv m \<Longrightarrow> manager_inv (snd (ClearConfiguredCollectionOnTarget exec t m))"
proof (cases "t \<in> set (cm_active m)")
  case False
  assume inv: "manager_inv m"
  show ?thesis
  proof (cases "map_of (cm_collectors m) t")
    case (Some cs)
    obtain r cs' where c: "clear_collectors exec ASTL_STATUS_SUCCESS cs = (r, cs')" by fastforce
    have "target_ok (cm_active m) (t, cs')"
      unfolding target_ok_cong [OF clear_collectors_running [OF c]] by (rule manager_inv_target [OF inv Some])
    then have "manager_inv ((set_collectors t cs' m)\<lparr>cm_active := cm_active m\<rparr>)"
      using inv by (intro manager_inv_set [OF inv Some]) (simp_all add: manager_inv_def)
    then have "manager_inv (set_collectors t cs' m)" by (simp add: set_collectors_def)
    then show ?thesis
      using inv c by (cases cs) (simp_all only: ClearConfiguredCollectionOnTarget_def False Some
        if_False option.case list.case prod.case Let_def snd_conv)
  qed (simp add: ClearConfiguredCollectionOnTarget_def False inv)
qed (simp add: ClearConfiguredCollectionOnTarget_def)

lemma manager_inv_exec: "manager_inv m \<Longrightarrow> manager_inv (snd (manager_exec exec x m))"
proof (cases x)
  case (MPause t)
  assume "manager_inv m"
  then show ?thesis
    using manager_inv_front_keep [of m CmdPause t "fst (manager_exec exec x m)" "snd (manager_exec exec x m)"]
      running_pause_resume [of CmdPause] by (simp add: MPause PauseOnTarget_def)
next
  case (MResume t)
  assume "manager_inv m"
  then show ?thesis
    using manager_inv_front_keep [of m CmdResume t "fst (manager_exec exec x m)" "snd (manager_exec exec x m)"]
      running_pause_resume [of CmdResume] by (simp add: MResume ResumeOnTarget_def)
next
  case (MRead t)
  assume "manager_inv m"
  then show ?thesis
    using manager_inv_front_keep [of m CmdRead t "fst (manager_exec exec x m)" "snd (manager_exec exec x m)"]
      running_read by (simp add: MRead ReadImmediateOnTarget_def)
qed (simp_all add: manager_inv_start manager_inv_stop manager_inv_configure manager_inv_clear manager_inv_clear_all)

lemma manager_inv_run: "manager_inv m \<Longrightarrow> manager_inv (manager_run exec xs m)"
  by (induction xs arbitrary: m) (simp_all add: manager_inv_exec)

lemma manager_tracks_running:
  assumes "manager_inv m"
  shows "t \<in> set (cm_active m) \<longleftrightarrow> (\<exists>k c cs. map_of (cm_collectors m) t = Some ((k, c) # cs) \<and> running c)"
    and "map_of (cm_collectors m) t = Some cs \<Longrightarrow> (k, c) \<in> set cs \<Longrightarrow> running c \<Longrightarrow> t \<in> set (cm_active m)"
proof -
  have "map_of (cm_collectors m) t \<noteq> None" if "t \<in> set (cm_active m)"
    using assms that by (auto simp: manager_inv_def map_of_eq_None_iff)
  then show "t \<in> set (cm_active m) \<longleftrightarrow> (\<exists>k c cs. map_of (cm_collectors m) t = Some ((k, c) # cs) \<and> running c)"
    using manager_inv_target [OF assms, of t]
    by (cases "map_of (cm_collectors m) t") (auto simp: target_ok_def split: list.splits)
  show "t \<in> set (cm_active m)" if "map_of (cm_collectors m) t = Some cs" "(k, c) \<in> set cs" "running c"
    using manager_inv_target [OF assms that(1)] that(2,3) by (auto simp: target_ok_def split: list.splits)
qed

end

section \<open>The manager over NUMA collectors\<close>

lemma running_numa: "numa_sc.running c \<longleftrightarrow> nc_state c \<in> {STARTED, PAUSED}"
  by (rule numa_sc.running_def)

text \<open>
  C33: the set of targets the manager takes for active is the set of targets whose first collector
  is STARTED or PAUSED, after any sequence of commands, failing ones included, from a manager over
  new NUMA collectors: no other collector of a target runs, nothing is taken for active twice,
  IsAnyTargetBeingCollected answers whether any collector runs, and a clear of everything while any
  target is collected, as a clear of a target that is active, is refused and changes nothing.
\<close>

theorem collector_manager_tracks_running:
  assumes "distinct (map fst collectors)" "\<forall>(t, cs)\<in>set collectors. \<forall>(k, c)\<in>set cs. \<exists>nodes. c = NumaCollector nodes"
    and "m = manager_run (numa_exec env) commands (CollectorManager (Numa_SetRawSampleSink True) collectors)"
  shows "distinct (cm_active m)
    \<and> (\<forall>t. t \<in> set (cm_active m)
        \<longleftrightarrow> (\<exists>k c cs. map_of (cm_collectors m) t = Some ((k, c) # cs) \<and> nc_state c \<in> {STARTED, PAUSED}))
    \<and> (\<forall>t first others k c. map_of (cm_collectors m) t = Some (first # others) \<longrightarrow> (k, c) \<in> set others
        \<longrightarrow> nc_state c \<notin> {STARTED, PAUSED})
    \<and> (IsAnyTargetBeingCollected m
        \<longleftrightarrow> (\<exists>t cs k c. map_of (cm_collectors m) t = Some cs \<and> (k, c) \<in> set cs \<and> nc_state c \<in> {STARTED, PAUSED}))
    \<and> (IsAnyTargetBeingCollected m \<longrightarrow>
        manager_exec (numa_exec env) MClearAll m = (ASTL_STATUS_COLLECTION_ALREADY_RUNNING, m))
    \<and> (\<forall>t\<in>set (cm_active m).
        manager_exec (numa_exec env) (MClear t) m = (ASTL_STATUS_COLLECTION_ALREADY_RUNNING, m))"
proof -
  have inv: "numa_sc.manager_inv m"
    unfolding assms(3)
    by (intro numa_sc.manager_inv_run numa_sc.manager_inv_new)
      (use assms(1,2) in \<open>auto 0 4 simp: running_numa NumaCollector_def Numa_SetRawSampleSink_def\<close>)
  have iff: "t \<in> set (cm_active m)
      \<longleftrightarrow> (\<exists>k c cs. map_of (cm_collectors m) t = Some ((k, c) # cs) \<and> nc_state c \<in> {STARTED, PAUSED})" for t
    unfolding numa_sc.manager_tracks_running(1) [OF inv] running_numa ..
  have others: "nc_state c \<notin> {STARTED, PAUSED}"
    if "map_of (cm_collectors m) t = Some (first # others)" "(k, c) \<in> set others" for t first others k c
    using numa_sc.manager_inv_target [OF inv that(1)] that(2)
    by (cases first) (auto simp: numa_sc.target_ok_def running_numa)
  have any: "IsAnyTargetBeingCollected m
      \<longleftrightarrow> (\<exists>t cs k c. map_of (cm_collectors m) t = Some cs \<and> (k, c) \<in> set cs \<and> nc_state c \<in> {STARTED, PAUSED})"
    using numa_sc.manager_tracks_running(2) [OF inv] iff
    unfolding IsAnyTargetBeingCollected_def running_numa
    by (metis list.set_intros(1) empty_iff list.set(1) neq_Nil_conv)
  have "manager_exec (numa_exec env) MClearAll m = (ASTL_STATUS_COLLECTION_ALREADY_RUNNING, m)"
    if "IsAnyTargetBeingCollected m"
    using that by (simp add: IsAnyTargetBeingCollected_def ClearConfiguredCollections_def)
  moreover have "\<forall>t\<in>set (cm_active m).
      manager_exec (numa_exec env) (MClear t) m = (ASTL_STATUS_COLLECTION_ALREADY_RUNNING, m)"
    by (simp add: ClearConfiguredCollectionOnTarget_def)
  ultimately show ?thesis using inv iff others any by (auto simp: numa_sc.manager_inv_def)
qed

definition example_manager :: "(nat, nat, nat numa_collector, nat) collector_manager" where
  "example_manager = manager_run (numa_exec example_env)
     [MConfigure 1 0 \<lparr>cfg_target = 1, cfg_operations = \<lparr>operationsBeforeStart = [], operationsAtStart = [],
        operationsOnSample = [], operationsAtStop = []\<rparr>, cfg_mode = MODE_IMMEDIATE, cfg_sampling_interval = 0\<rparr>,
      MStart 1, MStart 2, MPause 1]
     (CollectorManager (Numa_SetRawSampleSink True) [(1, [(0, NumaCollector [''node0''])]), (2, [])])"

theorem collector_manager_tracks_running_witness:
  "IsAnyTargetBeingCollected example_manager
    \<and> manager_exec (numa_exec example_env) MClearAll example_manager = (ASTL_STATUS_COLLECTION_ALREADY_RUNNING, example_manager)"
proof -
  have "IsAnyTargetBeingCollected example_manager"
    by (simp add: example_manager_def PauseOnTarget_def StartOnTarget_def ConfigureCollectionOnTarget_def
      CollectorManager_def SelectCollectorLocked_def on_front_def set_collectors_def numa_commands NumaCollector_def
      Numa_SetRawSampleSink_def Numa_ExecuteStartModeOperations_def Numa_ExecuteCollectionOperations_def
      lifecycle_table IsAnyTargetBeingCollected_def acceptable_def)
  moreover have "\<forall>(t, cs)\<in>set [(1 :: nat, [(0 :: nat, NumaCollector [''node0''] :: nat numa_collector)]), (2, [])].
      \<forall>(k, c)\<in>set cs. \<exists>nodes. c = NumaCollector nodes" by auto
  then have "IsAnyTargetBeingCollected example_manager \<longrightarrow>
      manager_exec (numa_exec example_env) MClearAll example_manager = (ASTL_STATUS_COLLECTION_ALREADY_RUNNING, example_manager)"
    using collector_manager_tracks_running [OF _ _ example_manager_def] by simp
  ultimately show ?thesis by blast
qed

end
