(* ===== verification/Composite_Metric.thy ===== *)
theory Composite_Metric
  imports Metrics "HOL-Library.AList" "HOL-Library.Multiset"
begin

text \<open>
  src/impl/procfs/procfs_composite_metric.cpp and procfs_composite_metricconfig.hpp: a metric over
  several procfs fields.  It gathers the fields read at one timestamp, and once it has them all it
  evaluates a formula over the current, the previous and the increased values.  The expression
  evaluator is the vendored tinyexpr++ in its uint64_t mode, an argument.
\<close>

section \<open>Configuration and state\<close>

record composite_config =
  cc_config :: metric_config
  cc_inputs :: "string list"
  cc_requires_previous :: bool
  cc_formula :: string

text \<open>The values a round has gathered so far, in the order of their arrival.\<close>

type_synonym input_values = "(string \<times> astl_value) list"

record pending_batch =
  pb_timestamp :: "int option"
  pb_values :: input_values
  pb_emitted :: bool

definition empty_batch :: pending_batch where
  "empty_batch = \<lparr>pb_timestamp = None, pb_values = [], pb_emitted = False\<rparr>"

record composite_metric =
  cm_operations :: "(16 word \<times> string) list"
  cm_previous :: input_values
  cm_pending :: pending_batch
  cm_parser :: bool

record expression_parser =
  ep_compiles :: "string list \<Rightarrow> string \<Rightarrow> bool"
  ep_evaluate :: "string \<Rightarrow> (string \<Rightarrow> 64 word) \<Rightarrow> 64 word"

section \<open>The formula\<close>

definition composite_variables :: "composite_config \<Rightarrow> string list" where
  "composite_variables cfg =
    remdups (concat (map (\<lambda>n. n # (if cc_requires_previous cfg then [''prev_'' @ n, ''delta_'' @ n] else []))
      (cc_inputs cfg)))"

definition InitializeExpressionFormulaParser :: "expression_parser \<Rightarrow> composite_config \<Rightarrow> astl_status" where
  "InitializeExpressionFormulaParser ep cfg =
    (if cc_formula cfg = [] then ASTL_STATUS_BAD_CONFIGURATION
     else if \<not> ep_compiles ep (composite_variables cfg) (cc_formula cfg) then ASTL_STATUS_BAD_CONFIGURATION
     else ASTL_STATUS_SUCCESS)"

definition ProcfsCompositeMetric :: "expression_parser \<Rightarrow> composite_config \<Rightarrow> composite_metric" where
  "ProcfsCompositeMetric ep cfg =
    \<lparr>cm_operations = [], cm_previous = [], cm_pending = empty_batch,
     cm_parser = (InitializeExpressionFormulaParser ep cfg = ASTL_STATUS_SUCCESS)\<rparr>"

definition input_double :: "input_values \<Rightarrow> string \<Rightarrow> fp result" where
  "input_double inputs name =
    (case map_of inputs name of None \<Rightarrow> Inl ASTL_STATUS_METRIC_RECEIVED_INVALID_SAMPLE | Some v \<Rightarrow> ToDouble v)"

definition ResolvePreviousVariableValue :: "string \<Rightarrow> input_values \<Rightarrow> fp result" where
  "ResolvePreviousVariableValue name previous = input_double previous (drop 5 name)"

definition ResolveDeltaVariableValue :: "string \<Rightarrow> input_values \<Rightarrow> input_values \<Rightarrow> fp result" where
  "ResolveDeltaVariableValue name current previous =
    (let base = drop 6 name in
     case (map_of current base, map_of previous base) of
       (Some c, Some p) \<Rightarrow>
         rbind (ToDouble c) (\<lambda>x. rbind (ToDouble p) (\<lambda>y. Inr (fp_max (fp_sub binary64 x y) (FZero False))))
     | _ \<Rightarrow> Inl ASTL_STATUS_METRIC_RECEIVED_INVALID_SAMPLE)"

definition ResolveCurrentVariableValue :: "string \<Rightarrow> input_values \<Rightarrow> fp result" where
  "ResolveCurrentVariableValue name current = input_double current name"

definition StartsWith :: "string \<Rightarrow> string \<Rightarrow> bool" where
  "StartsWith s p \<longleftrightarrow> take (length p) s = p"

definition ResolveVariable :: "string \<Rightarrow> input_values \<Rightarrow> input_values \<Rightarrow> fp result" where
  "ResolveVariable name current previous =
    (if StartsWith name ''prev_'' then ResolvePreviousVariableValue name previous
     else if StartsWith name ''delta_'' then ResolveDeltaVariableValue name current previous
     else ResolveCurrentVariableValue name current)"

text \<open>The bound variables, or the first error in the order of their iteration.\<close>

fun bind_variables :: "string list \<Rightarrow> input_values \<Rightarrow> input_values \<Rightarrow> (string \<Rightarrow> 64 word) \<Rightarrow> (string \<Rightarrow> 64 word) result" where
  "bind_variables [] current previous bound = Inr bound"
| "bind_variables (n # ns) current previous bound =
    rbind (ResolveVariable n current previous)
      (\<lambda>x. bind_variables ns current previous (bound(n := word_of_int (fp_to_uint 64 x))))"

text \<open>tinyexpr's NaN of the uint64_t mode is the greatest value.\<close>

definition EvaluateExpressionFormula :: "expression_parser \<Rightarrow> composite_config \<Rightarrow> composite_metric \<Rightarrow> input_values
    \<Rightarrow> input_values \<Rightarrow> fp result" where
  "EvaluateExpressionFormula ep cfg m current previous =
    (if \<not> cm_parser m then Inl ASTL_STATUS_BAD_CONFIGURATION
     else rbind (bind_variables (composite_variables cfg) current previous (\<lambda>n. 0)) (\<lambda>bound.
       let r = ep_evaluate ep (cc_formula cfg) bound in
       if r = - 1 then Inl ASTL_STATUS_METRIC_RECEIVED_INVALID_SAMPLE
       else Inr (fp_of_int binary64 (uint r))))"

text \<open>std::llround rounds halves away from zero.\<close>

definition ConvertUnsignedOutputValue :: "nat \<Rightarrow> fp \<Rightarrow> int result" where
  "ConvertUnsignedOutputValue w x =
    (if \<not> fp_finite x \<or> fp_lt x (FZero False) \<or> fp_lt (fp_of_int binary64 (2 ^ w - 1)) x
     then Inl ASTL_STATUS_METRIC_RECEIVED_INVALID_SAMPLE
     else Inr (fp_to_int64 (fp_std_round binary64 x)))"

definition ConvertOutputValue :: "astl_value_type \<Rightarrow> fp \<Rightarrow> astl_value result" where
  "ConvertOutputValue t x =
    (if t = ASTL_VALUE_FLOAT64 then Inr (VF64 x)
     else if t = ASTL_VALUE_FLOAT32 then Inr (VF32 (fp_conv binary32 x))
     else if t = ASTL_VALUE_UINT64 then rbind (ConvertUnsignedOutputValue 64 x) (\<lambda>n. Inr (VU64 (word_of_int n)))
     else if t = ASTL_VALUE_UINT32 then rbind (ConvertUnsignedOutputValue 32 x) (\<lambda>n. Inr (VU32 (word_of_int n)))
     else Inl ASTL_STATUS_INVALID_VALUE_TYPE)"

section \<open>Receiving samples\<close>

definition EmitPendingBatch :: "expression_parser \<Rightarrow> composite_config \<Rightarrow> 's sink option \<Rightarrow> composite_metric \<times> 's
    \<Rightarrow> astl_status \<times> composite_metric \<times> 's" where
  "EmitPendingBatch ep cfg sink ms =
    (let (m, s) = ms; values = pb_values (cm_pending m) in
     case pb_timestamp (cm_pending m) of
       None \<Rightarrow> (ASTL_STATUS_BAD_CONFIGURATION, m, s)
     | Some t \<Rightarrow>
        if cc_requires_previous cfg \<and> cm_previous m = []
        then (ASTL_STATUS_SUCCESS, m\<lparr>cm_previous := values\<rparr>, s)
        else case rbind (EvaluateExpressionFormula ep cfg m values (cm_previous m))
                    (ConvertOutputValue (mc_value_type (cc_config cfg))) of
            Inl e \<Rightarrow> (e, m, s)
          | Inr v \<Rightarrow>
             (let (status, s') = SinkProcessedSample sink \<lparr>ps_value = v, ps_timestamp = t\<rparr> s in
              (status, m\<lparr>cm_previous := values\<rparr>, s')))"

text \<open>The batch a sample of the given timestamp joins, or the refusal of the sample.\<close>

definition join_batch :: "composite_config \<Rightarrow> int \<Rightarrow> pending_batch \<Rightarrow> pending_batch result" where
  "join_batch cfg t b =
    (case pb_timestamp b of
       None \<Rightarrow> Inr (b\<lparr>pb_timestamp := Some t\<rparr>)
     | Some t0 \<Rightarrow>
        if t \<noteq> t0 then
          if \<not> pb_emitted b \<or> length (pb_values b) \<noteq> length (cc_inputs cfg)
          then Inl ASTL_STATUS_METRIC_RECEIVED_INVALID_SAMPLE
          else Inr (empty_batch\<lparr>pb_timestamp := Some t\<rparr>)
        else if pb_emitted b then Inl ASTL_STATUS_METRIC_RECEIVED_INVALID_SAMPLE
        else Inr b)"

definition Composite_ReceiveRawSample :: "expression_parser \<Rightarrow> composite_config \<Rightarrow> 's sink option \<Rightarrow> normalized_sample
    \<Rightarrow> composite_metric \<times> 's \<Rightarrow> astl_status \<times> composite_metric \<times> 's" where
  "Composite_ReceiveRawSample ep cfg sink raw ms =
    (let (m, s) = ms in
     case map_of (cm_operations m) (ns_operation_id raw) of
       None \<Rightarrow> (ASTL_STATUS_METRIC_RECEIVED_INVALID_SAMPLE, m, s)
     | Some name \<Rightarrow>
        (case join_batch cfg (ns_timestamp raw) (cm_pending m) of
           Inl e \<Rightarrow> (e, m, s)
         | Inr b \<Rightarrow>
            if map_of (pb_values b) name \<noteq> None
            then (ASTL_STATUS_METRIC_RECEIVED_INVALID_SAMPLE, m\<lparr>cm_pending := b\<rparr>, s)
            else let m1 = m\<lparr>cm_pending := b\<lparr>pb_values := pb_values b @ [(name, ns_value raw)]\<rparr>\<rparr> in
              if length (pb_values (cm_pending m1)) \<noteq> length (cc_inputs cfg) then (ASTL_STATUS_SUCCESS, m1, s)
              else let (status, m2, s2) = EmitPendingBatch ep cfg sink (m1, s) in
                (status,
                 if status = ASTL_STATUS_SUCCESS then m2\<lparr>cm_pending := (cm_pending m2)\<lparr>pb_emitted := True\<rparr>\<rparr> else m2, s2)))"

definition Composite_Reset :: "composite_metric \<Rightarrow> composite_metric" where
  "Composite_Reset m = m\<lparr>cm_previous := [], cm_pending := empty_batch\<rparr>"

text \<open>The operation ids come from the allocator, one for each input, unless it is exhausted.\<close>

definition Composite_GetOperations :: "16 word list result \<Rightarrow> composite_config \<Rightarrow> composite_metric
    \<Rightarrow> 16 word list result \<times> composite_metric" where
  "Composite_GetOperations ids cfg m =
    (case ids of
       Inl e \<Rightarrow> (Inl e, m\<lparr>cm_operations := []\<rparr>)
     | Inr is \<Rightarrow> (Inr is, m\<lparr>cm_operations := zip is (cc_inputs cfg)\<rparr>))"

fun restore_bindings :: "(16 word \<times> string) list \<Rightarrow> (16 word \<times> string) list \<Rightarrow> astl_status \<times> (16 word \<times> string) list" where
  "restore_bindings [] ops = (ASTL_STATUS_SUCCESS, ops)"
| "restore_bindings ((i, name) # bs) ops =
    (if map_of ops i \<noteq> None then (ASTL_STATUS_BAD_CONFIGURATION, ops) else restore_bindings bs (ops @ [(i, name)]))"

definition RestoreOperationInputBindings :: "16 word list \<Rightarrow> composite_config \<Rightarrow> composite_metric
    \<Rightarrow> astl_status \<times> composite_metric" where
  "RestoreOperationInputBindings ids cfg m =
    (if length ids \<noteq> length (cc_inputs cfg) then (ASTL_STATUS_BAD_CONFIGURATION, m)
     else let (status, ops) = restore_bindings (zip ids (cc_inputs cfg)) [] in (status, m\<lparr>cm_operations := ops\<rparr>))"

section \<open>A round of samples\<close>

text \<open>
  The samples of a round, in the order they arrive: the value V of every input at one timestamp.  The
  operations are those GetOperations bound.
\<close>

definition bound_operations :: "composite_config \<Rightarrow> composite_metric \<Rightarrow> bool" where
  "bound_operations cfg m \<longleftrightarrow>
    distinct (map fst (cm_operations m)) \<and> map snd (cm_operations m) = cc_inputs cfg
    \<and> distinct (cc_inputs cfg) \<and> cc_inputs cfg \<noteq> []"

definition round_samples :: "(16 word \<times> string) list \<Rightarrow> int \<Rightarrow> (string \<Rightarrow> astl_value) \<Rightarrow> normalized_sample list" where
  "round_samples order t V =
    map (\<lambda>(i, n). \<lparr>ns_operation_id = i, ns_value = V n, ns_timestamp = t\<rparr>) order"

definition values_of :: "(string \<Rightarrow> astl_value) \<Rightarrow> string list \<Rightarrow> input_values" where
  "values_of V ns = map (\<lambda>n. (n, V n)) ns"

definition round_open :: "composite_config \<Rightarrow> int \<Rightarrow> composite_metric \<Rightarrow> bool" where
  "round_open cfg t m \<longleftrightarrow> join_batch cfg t (cm_pending m) = Inr (empty_batch\<lparr>pb_timestamp := Some t\<rparr>)"

lemma map_of_values_of: "map_of (values_of V ns) n = (if n \<in> set ns then Some (V n) else None)"
  by (induction ns) (auto simp: values_of_def)

lemma values_of_simps [simp]:
  "values_of V [] = []" "values_of V (n # ns) = (n, V n) # values_of V ns" "values_of V (ns @ [n]) = values_of V ns @ [(n, V n)]" "length (values_of V ns) = length ns"
  "values_of V ns = [] \<longleftrightarrow> ns = []"
  by (simp_all add: values_of_def)

lemma receive_all_append:
  "receive_all f (xs @ ys) x =
    (let (rs, y) = receive_all f xs x; (rs', z) = receive_all f ys y in (rs @ rs', z))"
  by (induction xs arbitrary: x) (simp_all add: case_prod_beta' Let_def)

lemma pending_update_same: "cm_pending m = b \<Longrightarrow> m\<lparr>cm_pending := b\<rparr> = m"
  by auto

text \<open>While inputs are missing a sample is only gathered.\<close>

lemma composite_gather:
  assumes "bound_operations cfg m" "round_open cfg t m" "set order \<subseteq> set (cm_operations m)" "distinct (map snd order)"
    and "length order < length (cc_inputs cfg)"
  shows "receive_all (Composite_ReceiveRawSample ep cfg sink) (round_samples order t V) (m, s)
    = (replicate (length order) ASTL_STATUS_SUCCESS,
       m\<lparr>cm_pending := if order = [] then cm_pending m
           else \<lparr>pb_timestamp = Some t, pb_values = values_of V (map snd order), pb_emitted = False\<rparr>\<rparr>, s)"
  using assms(3-5)
proof (induction order rule: rev_induct)
  case (snoc x order)
  obtain i n where x: "x = (i, n)" by fastforce
  have op: "map_of (cm_operations m) i = Some n"
    using assms(1) snoc.prems(1) by (simp add: x bound_operations_def map_of_eq_Some_iff)
  have fresh: "map_of (values_of V (map snd order)) n = None"
    using snoc.prems(2) by (simp add: x map_of_values_of)
  show ?case
    using snoc.IH snoc.prems op fresh assms(2)
    by (cases "order = []")
      (auto simp: round_samples_def receive_all_append x Composite_ReceiveRawSample_def round_open_def join_batch_def
        empty_batch_def replicate_append_same)
qed (simp add: round_samples_def)

text \<open>What a complete round means: the value of the formula, whatever the order of arrival.\<close>

definition composite_value :: "expression_parser \<Rightarrow> composite_config \<Rightarrow> composite_metric \<Rightarrow> (string \<Rightarrow> astl_value)
    \<Rightarrow> input_values \<Rightarrow> astl_value result" where
  "composite_value ep cfg m V previous =
    rbind (EvaluateExpressionFormula ep cfg m (values_of V (cc_inputs cfg)) previous)
      (ConvertOutputValue (mc_value_type (cc_config cfg)))"

lemma bind_variables_cong:
  "map_of c = map_of c' \<Longrightarrow> map_of p = map_of p' \<Longrightarrow> bind_variables ns c p b = bind_variables ns c' p' b"
proof (induction ns arbitrary: b)
  case (Cons n ns)
  have "ResolveVariable n c p = ResolveVariable n c' p'"
    using Cons.prems by (simp add: ResolveVariable_def ResolvePreviousVariableValue_def ResolveDeltaVariableValue_def
      ResolveCurrentVariableValue_def input_double_def)
  then show ?case using Cons by (simp cong: if_cong)
qed simp

lemma composite_value_cong:
  assumes "map_of c = map_of (values_of V (cc_inputs cfg))" "map_of p = map_of p'"
  shows "rbind (EvaluateExpressionFormula ep cfg m c p) (ConvertOutputValue (mc_value_type (cc_config cfg)))
    = composite_value ep cfg m V p'"
  by (simp add: composite_value_def EvaluateExpressionFormula_def bind_variables_cong [OF assms])

text \<open>An error of the formula is never ASTL_STATUS_SUCCESS.\<close>

lemma rbind_error: "rbind a f = Inl e \<Longrightarrow> a = Inl e \<or> (\<exists>x. a = Inr x \<and> f x = Inl e)"
  by (cases a) simp_all

lemma bind_variables_error: "bind_variables ns c p b = Inl e \<Longrightarrow> e \<noteq> ASTL_STATUS_SUCCESS"
proof (induction ns arbitrary: b)
  case (Cons n ns)
  have d: "ToDouble v = Inl e' \<Longrightarrow> e' \<noteq> ASTL_STATUS_SUCCESS" for v e' by (cases v) auto
  have "ResolveVariable n c p = Inl e' \<Longrightarrow> e' \<noteq> ASTL_STATUS_SUCCESS" for e'
    by (auto simp: ResolveVariable_def ResolvePreviousVariableValue_def ResolveDeltaVariableValue_def
      ResolveCurrentVariableValue_def input_double_def Let_def split: if_splits option.splits dest!: rbind_error d)
  then show ?case using Cons by (auto dest!: rbind_error)
qed simp

lemma composite_value_error: "composite_value ep cfg m V p = Inl e \<Longrightarrow> e \<noteq> ASTL_STATUS_SUCCESS"
  by (auto simp: composite_value_def EvaluateExpressionFormula_def ConvertOutputValue_def ConvertUnsignedOutputValue_def
    Let_def split: if_splits dest!: rbind_error bind_variables_error)

lemma join_gathered:
  assumes "round_open cfg t m" "m1 = m\<lparr>cm_pending := if order = [] then cm_pending m
      else \<lparr>pb_timestamp = Some t, pb_values = values_of V (map snd order), pb_emitted = False\<rparr>\<rparr>"
  shows "join_batch cfg t (cm_pending m1)
    = Inr \<lparr>pb_timestamp = Some t, pb_values = values_of V (map snd order), pb_emitted = False\<rparr>"
  using assms by (cases "order = []") (simp_all add: round_open_def join_batch_def empty_batch_def)

text \<open>The last sample of a round evaluates the formula and sinks its value.\<close>

definition emitted_round :: "int \<Rightarrow> input_values \<Rightarrow> bool \<Rightarrow> composite_metric \<Rightarrow> composite_metric" where
  "emitted_round t current emitted m =
    m\<lparr>cm_previous := current, cm_pending := \<lparr>pb_timestamp = Some t, pb_values = current, pb_emitted = emitted\<rparr>\<rparr>"

lemma composite_round:
  fixes V :: "string \<Rightarrow> astl_value"
  assumes "bound_operations cfg m" "round_open cfg t m" "mset order = mset (cm_operations m)"
  defines "current \<equiv> values_of V (map snd order)"
  shows "\<exists>init. receive_all (Composite_ReceiveRawSample ep cfg sink) (round_samples order t V) (m, s) =
    (if cc_requires_previous cfg \<and> cm_previous m = []
     then (init @ [ASTL_STATUS_SUCCESS], emitted_round t current True m, s)
     else case composite_value ep cfg m V (cm_previous m) of
         Inl e \<Rightarrow> (init @ [e], m\<lparr>cm_pending := \<lparr>pb_timestamp = Some t, pb_values = current, pb_emitted = False\<rparr>\<rparr>, s)
       | Inr v \<Rightarrow>
          (let (status, s') = SinkProcessedSample sink \<lparr>ps_value = v, ps_timestamp = t\<rparr> s in
           (init @ [status], emitted_round t current (status = ASTL_STATUS_SUCCESS) m, s')))
    \<and> init = replicate (length (cc_inputs cfg) - 1) ASTL_STATUS_SUCCESS"
proof -
  have b: "distinct (map fst (cm_operations m))" "map snd (cm_operations m) = cc_inputs cfg"
      "distinct (cc_inputs cfg)" "cc_inputs cfg \<noteq> []"
    using assms(1) by (simp_all add: bound_operations_def)
  have mo: "mset (map snd order) = mset (cc_inputs cfg)"
    using assms(3) b(2) by (metis mset_map)
  then have len: "length order = length (cc_inputs cfg)" by (metis length_map size_mset)
  have d: "distinct (map snd order)" using mo b(3) by (metis mset_eq_imp_distinct_iff)
  have set: "set order = set (cm_operations m)" using assms(3) by (rule mset_eq_setD)
  obtain front x where f: "order = front @ [x]" using len b(4) by (cases order rule: rev_cases) auto
  obtain i n where x: "x = (i, n)" by fastforce
  define m1 where "m1 = m\<lparr>cm_pending := if front = [] then cm_pending m
      else \<lparr>pb_timestamp = Some t, pb_values = values_of V (map snd front), pb_emitted = False\<rparr>\<rparr>"
  have front: "receive_all (Composite_ReceiveRawSample ep cfg sink) (round_samples front t V) (m, s)
      = (replicate (length front) ASTL_STATUS_SUCCESS, m1, s)"
    unfolding m1_def using d set len by (intro composite_gather [OF assms(1,2)]) (auto simp: f)
  have j: "join_batch cfg t (cm_pending m1)
      = Inr \<lparr>pb_timestamp = Some t, pb_values = values_of V (map snd front), pb_emitted = False\<rparr>"
    by (rule join_gathered [OF assms(2) m1_def])
  have op: "map_of (cm_operations m1) i = Some n"
    using b(1) set by (auto simp: m1_def f x map_of_eq_Some_iff)
  have fresh: "map_of (values_of V (map snd front)) n = None"
    using d by (simp add: f x map_of_values_of)
  have cur: "values_of V (map snd front) @ [(n, V n)] = current" by (simp add: current_def f x)
  have full: "length current = length (cc_inputs cfg)" using len by (simp add: current_def)
  have "map_of current = map_of (values_of V (cc_inputs cfg))"
    using mset_eq_setD [OF mo] by (simp add: fun_eq_iff current_def map_of_values_of)
  then have val: "rbind (EvaluateExpressionFormula ep cfg m current (cm_previous m)) (ConvertOutputValue (mc_value_type (cc_config cfg)))
      = composite_value ep cfg m V (cm_previous m)"
    by (rule composite_value_cong [OF _ refl])
  have parser: "EvaluateExpressionFormula ep cfg (m\<lparr>cm_pending := p\<rparr>) = EvaluateExpressionFormula ep cfg m" for p
    by (simp add: EvaluateExpressionFormula_def fun_eq_iff)
  have m1: "m1\<lparr>cm_pending := p\<rparr> = m\<lparr>cm_pending := p\<rparr>" for p by (simp add: m1_def)
  define gathered where "gathered = m\<lparr>cm_pending := \<lparr>pb_timestamp = Some t, pb_values = current, pb_emitted = False\<rparr>\<rparr>"
  have g: "cm_pending gathered = \<lparr>pb_timestamp = Some t, pb_values = current, pb_emitted = False\<rparr>"
      "cm_previous gathered = cm_previous m" "EvaluateExpressionFormula ep cfg gathered = EvaluateExpressionFormula ep cfg m"
    by (simp_all add: gathered_def parser)
  have last: "Composite_ReceiveRawSample ep cfg sink \<lparr>ns_operation_id = i, ns_value = V n, ns_timestamp = t\<rparr> (m1, s)
      = (let (status, m2, s2) = EmitPendingBatch ep cfg sink (gathered, s) in
         (status, if status = ASTL_STATUS_SUCCESS then m2\<lparr>cm_pending := (cm_pending m2)\<lparr>pb_emitted := True\<rparr>\<rparr> else m2, s2))"
    using full by (simp add: Composite_ReceiveRawSample_def op j fresh cur m1 gathered_def)
  have emit: "EmitPendingBatch ep cfg sink (gathered, s) =
      (if cc_requires_previous cfg \<and> cm_previous m = [] then (ASTL_STATUS_SUCCESS, gathered\<lparr>cm_previous := current\<rparr>, s)
       else case composite_value ep cfg m V (cm_previous m) of
           Inl e \<Rightarrow> (e, gathered, s)
         | Inr v \<Rightarrow> (let (status, s') = SinkProcessedSample sink \<lparr>ps_value = v, ps_timestamp = t\<rparr> s in
              (status, gathered\<lparr>cm_previous := current\<rparr>, s')))"
    by (simp add: EmitPendingBatch_def g val)
  have "Composite_ReceiveRawSample ep cfg sink \<lparr>ns_operation_id = i, ns_value = V n, ns_timestamp = t\<rparr> (m1, s) =
      (if cc_requires_previous cfg \<and> cm_previous m = [] then (ASTL_STATUS_SUCCESS, emitted_round t current True m, s)
       else case composite_value ep cfg m V (cm_previous m) of
           Inl e \<Rightarrow> (e, if e = ASTL_STATUS_SUCCESS then gathered\<lparr>cm_pending := (cm_pending gathered)\<lparr>pb_emitted := True\<rparr>\<rparr> else gathered, s)
         | Inr v \<Rightarrow> (let (status, s') = SinkProcessedSample sink \<lparr>ps_value = v, ps_timestamp = t\<rparr> s in
              (status, emitted_round t current (status = ASTL_STATUS_SUCCESS) m, s')))"
    unfolding last emit by (simp add: gathered_def emitted_round_def split: sum.split prod.split)
  moreover have "length front = length (cc_inputs cfg) - 1" using len f by simp
  moreover have "e \<noteq> ASTL_STATUS_SUCCESS" if "composite_value ep cfg m V (cm_previous m) = Inl e" for e
    by (rule composite_value_error [OF that])
  ultimately show ?thesis
    by (simp add: f x round_samples_def receive_all_append front [unfolded round_samples_def] flip: gathered_def
      split: sum.split prod.split)
qed

section \<open>Rounds refine their specification\<close>

text \<open>
  The specification: one sample for each round, the formula over the values of the round and of the
  round before; the first round only provides those where the formula needs them.
\<close>

type_synonym composite_rounds = "(int \<times> (16 word \<times> string) list \<times> (string \<Rightarrow> astl_value)) list"

definition previous_values :: "composite_config \<Rightarrow> (string \<Rightarrow> astl_value) option \<Rightarrow> input_values" where
  "previous_values cfg prev = (case prev of None \<Rightarrow> [] | Some P \<Rightarrow> values_of P (cc_inputs cfg))"

definition round_output :: "expression_parser \<Rightarrow> composite_config \<Rightarrow> composite_metric \<Rightarrow> (string \<Rightarrow> astl_value) option \<Rightarrow> int
    \<Rightarrow> (string \<Rightarrow> astl_value) \<Rightarrow> processed_sample list" where
  "round_output ep cfg m prev t V =
    (if cc_requires_previous cfg \<and> prev = None then []
     else case composite_value ep cfg m V (previous_values cfg prev) of
         Inl e \<Rightarrow> [] | Inr v \<Rightarrow> [\<lparr>ps_value = v, ps_timestamp = t\<rparr>])"

fun composite_spec :: "expression_parser \<Rightarrow> composite_config \<Rightarrow> composite_metric \<Rightarrow> (string \<Rightarrow> astl_value) option
    \<Rightarrow> composite_rounds \<Rightarrow> processed_sample list" where
  "composite_spec ep cfg m prev [] = []"
| "composite_spec ep cfg m prev ((t, order, V) # rounds) =
    round_output ep cfg m prev t V @ composite_spec ep cfg m (Some V) rounds"

text \<open>Complete rounds in any order of arrival, at changing timestamps, whose formula has a value.\<close>

fun rounds_ok :: "expression_parser \<Rightarrow> composite_config \<Rightarrow> composite_metric \<Rightarrow> (string \<Rightarrow> astl_value) option \<Rightarrow> int option
    \<Rightarrow> composite_rounds \<Rightarrow> bool" where
  "rounds_ok ep cfg m prev t0 [] \<longleftrightarrow> True"
| "rounds_ok ep cfg m prev t0 ((t, order, V) # rounds) \<longleftrightarrow>
    t0 \<noteq> Some t \<and> mset order = mset (cm_operations m)
    \<and> (cc_requires_previous cfg \<and> prev = None \<or> (\<exists>v. composite_value ep cfg m V (previous_values cfg prev) = Inr v))
    \<and> rounds_ok ep cfg m (Some V) (Some t) rounds"

lemma composite_value_same:
  assumes "cm_parser m = cm_parser m'" "map_of p = map_of p'"
  shows "composite_value ep cfg m V p = composite_value ep cfg m' V p'"
  by (simp add: composite_value_def EvaluateExpressionFormula_def assms(1) bind_variables_cong [OF refl assms(2)])

text \<open>What the metric holds between two rounds.\<close>

definition between_rounds :: "composite_config \<Rightarrow> composite_metric \<Rightarrow> (string \<Rightarrow> astl_value) option \<Rightarrow> int option
    \<Rightarrow> composite_metric \<Rightarrow> bool" where
  "between_rounds cfg m0 prev t0 m \<longleftrightarrow>
    cm_operations m = cm_operations m0 \<and> cm_parser m = cm_parser m0
    \<and> (cm_previous m = [] \<longleftrightarrow> prev = None) \<and> map_of (cm_previous m) = map_of (previous_values cfg prev)
    \<and> (\<forall>t. t0 \<noteq> Some t \<longrightarrow> round_open cfg t m)"

lemma between_emitted:
  assumes "between_rounds cfg m0 prev t0 m" "bound_operations cfg m0" "mset order = mset (cm_operations m0)"
  shows "between_rounds cfg m0 (Some V) (Some t) (emitted_round t (values_of V (map snd order)) True m)"
proof -
  have mo: "mset (map snd order) = mset (cc_inputs cfg)" and ne: "cc_inputs cfg \<noteq> []"
    using assms(2,3) by (metis bound_operations_def mset_map) (use assms(2) in \<open>simp add: bound_operations_def\<close>)
  have len: "length order = length (cc_inputs cfg)" using mo by (metis length_map size_mset)
  then have "order \<noteq> []" using ne by auto
  moreover have "map_of (values_of V (map snd order)) = map_of (previous_values cfg (Some V))"
    using mset_eq_setD [OF mo] by (simp add: fun_eq_iff previous_values_def map_of_values_of)
  ultimately show ?thesis
    using assms(1) len
    by (simp add: between_rounds_def emitted_round_def round_open_def join_batch_def)
qed

lemma composite_rounds_run:
  assumes "bound_operations cfg m0" "between_rounds cfg m0 prev t0 m" "rounds_ok ep cfg m0 prev t0 rounds"
    and "batch_visit s = None"
  shows "\<exists>m' s' statuses. receive_all (Composite_ReceiveRawSample ep cfg (Some (store_sink tgt met)))
      (concat (map (\<lambda>(t, order, V). round_samples order t V) rounds)) (m, s) = (statuses, m', s')
    \<and> set statuses \<subseteq> {ASTL_STATUS_SUCCESS} \<and> batch_visit s' = None
    \<and> stored_samples s' tgt met = stored_samples s tgt met @ composite_spec ep cfg m0 prev rounds"
  using assms(2-4)
proof (induction rounds arbitrary: prev t0 m s)
  case (Cons x rounds)
  obtain t order V where x: "x = (t, order, V)" by (cases x)
  have ok: "t0 \<noteq> Some t" "mset order = mset (cm_operations m0)"
      "cc_requires_previous cfg \<and> prev = None \<or> (\<exists>v. composite_value ep cfg m0 V (previous_values cfg prev) = Inr v)"
      "rounds_ok ep cfg m0 (Some V) (Some t) rounds"
    using Cons.prems(2) by (simp_all add: x)
  have m: "bound_operations cfg m" "round_open cfg t m" "mset order = mset (cm_operations m)"
      "cm_previous m = [] \<longleftrightarrow> prev = None"
      "composite_value ep cfg m V (cm_previous m) = composite_value ep cfg m0 V (previous_values cfg prev)"
    using Cons.prems(1) assms(1) ok(1,2) composite_value_same [of m m0 "cm_previous m" "previous_values cfg prev"]
    by (simp_all add: between_rounds_def bound_operations_def)
  let ?m = "emitted_round t (values_of V (map snd order)) True m"
  define s1 where "s1 = (case round_output ep cfg m0 prev t V of [] \<Rightarrow> s | p # ps \<Rightarrow> append_samples tgt met [p] s)"
  obtain front where f: "receive_all (Composite_ReceiveRawSample ep cfg (Some (store_sink tgt met))) (round_samples order t V) (m, s)
      = (front @ [ASTL_STATUS_SUCCESS], ?m, s1)" "set front \<subseteq> {ASTL_STATUS_SUCCESS}"
    using composite_round [OF m(1-3), of ep "Some (store_sink tgt met)" V s] ok(3) Cons.prems(3)
    by (auto simp: m(4,5) s1_def round_output_def SinkProcessedSample_def store_sink_eq set_replicate_conv_if split: if_splits)
  have s1: "batch_visit s1 = None" "stored_samples s1 tgt met = stored_samples s tgt met @ round_output ep cfg m0 prev t V"
    using Cons.prems(3)
    by (auto simp: s1_def round_output_def sample_simps split: list.split sum.split)
  show ?case
    using Cons.IH [OF between_emitted [OF Cons.prems(1) assms(1) ok(2), of V t] ok(4) s1(1)] f s1(2)
    by (auto simp: x receive_all_append)
qed (use assms in auto)

text \<open>
  C32: a composite metric with new operations, one with an id of its own for each of its fields, all
  distinct, receives complete rounds outside a batch visit: every field once at the timestamp of the
  round, in any order, consecutive rounds at different timestamps, and each round such that the
  formula and the conversion of its result yield a value (a round without one is refused, and is
  not covered). Then it turns the rounds into the samples of its specification, one for each round
  at the round's timestamp, except the first where the formula needs previous values: every sample
  is accepted, the order of arrival within a round does not matter, and the processed samples are
  in the store in the order of the rounds.
\<close>

theorem composite_rounds_refine_spec:
  assumes "distinct ids" "length ids = length (cc_inputs cfg)" "distinct (cc_inputs cfg)" "cc_inputs cfg \<noteq> []"
    and "m = snd (Composite_GetOperations (Inr ids) cfg (ProcfsCompositeMetric ep cfg))"
    and "rounds_ok ep cfg m None None rounds" "batch_visit s = None"
  shows "\<exists>m' s' statuses. receive_all (Composite_ReceiveRawSample ep cfg (Some (store_sink tgt met)))
      (concat (map (\<lambda>(t, order, V). round_samples order t V) rounds)) (m, s) = (statuses, m', s')
    \<and> set statuses \<subseteq> {ASTL_STATUS_SUCCESS}
    \<and> stored_samples s' tgt met = stored_samples s tgt met @ composite_spec ep cfg m None rounds"
proof -
  have ops: "cm_operations m = zip ids (cc_inputs cfg)" "cm_previous m = []" "cm_pending m = empty_batch"
    using assms(5) by (simp_all add: Composite_GetOperations_def ProcfsCompositeMetric_def)
  have "bound_operations cfg m"
    using assms(1-4) by (simp add: bound_operations_def ops)
  moreover have "between_rounds cfg m None None m"
    by (simp add: between_rounds_def ops previous_values_def round_open_def join_batch_def empty_batch_def)
  ultimately show ?thesis using composite_rounds_run [of cfg m None None m ep rounds s tgt met] assms(6,7) by blast
qed

definition seven_parser :: expression_parser where
  "seven_parser = \<lparr>ep_compiles = (\<lambda>vs f. True), ep_evaluate = (\<lambda>f vs. 7)\<rparr>"

definition two_fields :: composite_config where
  "two_fields = \<lparr>cc_config = MetricConfig ''c'' ASTL_VALUE_FLOAT64 Identity ASTL_VALUE_UNKNOWN [],
     cc_inputs = [''a'', ''b''], cc_requires_previous = False, cc_formula = ''a + b''\<rparr>"

definition two_rounds :: composite_rounds where
  "two_rounds = [(10, [(1, ''a''), (2, ''b'')], \<lambda>n. VU64 1), (20, [(2, ''b''), (1, ''a'')], \<lambda>n. VU64 2)]"

lemma ToDouble_u64: "ToDouble (VU64 x) = Inr (fp_of_int binary64 (uint x))"
  by (simp add: cast_f64_def)

lemma two_fields_value:
  "cm_parser m \<Longrightarrow> composite_value seven_parser two_fields m (\<lambda>n. VU64 x) p = Inr (VF64 (fp_of_int binary64 7))"
  by (simp add: composite_value_def EvaluateExpressionFormula_def two_fields_def composite_variables_def ResolveVariable_def
    StartsWith_def ResolveCurrentVariableValue_def input_double_def ToDouble_u64 seven_parser_def ConvertOutputValue_def MetricConfig_def)

theorem composite_rounds_refine_spec_witness:
  "\<exists>m' s' statuses. receive_all (Composite_ReceiveRawSample seven_parser two_fields (Some (store_sink 1 2)))
      (concat (map (\<lambda>(t, order, V). round_samples order t V) two_rounds))
      (snd (Composite_GetOperations (Inr [1, 2]) two_fields (ProcfsCompositeMetric seven_parser two_fields)), empty_store) = (statuses, m', s')
    \<and> set statuses \<subseteq> {ASTL_STATUS_SUCCESS}
    \<and> stored_samples s' 1 2 = [\<lparr>ps_value = VF64 (fp_of_int binary64 7), ps_timestamp = 10\<rparr>,
        \<lparr>ps_value = VF64 (fp_of_int binary64 7), ps_timestamp = 20\<rparr>]"
proof -
  let ?m = "snd (Composite_GetOperations (Inr [1, 2]) two_fields (ProcfsCompositeMetric seven_parser two_fields))"
  have p: "cm_parser ?m" "cm_operations ?m = [(1, ''a''), (2, ''b'')]"
    by (simp_all add: Composite_GetOperations_def ProcfsCompositeMetric_def InitializeExpressionFormulaParser_def two_fields_def seven_parser_def)
  have ok: "rounds_ok seven_parser two_fields ?m None None two_rounds"
    using p by (simp add: two_rounds_def two_fields_value)
  have spec: "composite_spec seven_parser two_fields ?m None two_rounds = [\<lparr>ps_value = VF64 (fp_of_int binary64 7), ps_timestamp = 10\<rparr>,
        \<lparr>ps_value = VF64 (fp_of_int binary64 7), ps_timestamp = 20\<rparr>]"
    using p(1) by (simp add: two_rounds_def two_fields_value round_output_def) (simp add: two_fields_def)
  have ins: "cc_inputs two_fields = [''a'', ''b'']" by (simp add: two_fields_def)
  show ?thesis
    using composite_rounds_refine_spec [of "[1, 2]" two_fields ?m seven_parser two_rounds empty_store 1 2, OF _ _ _ _ refl ok] spec
    by (simp add: ins)
qed

section \<open>A round that is not completed\<close>

text \<open>
  When a round stays incomplete, or its formula or its delivery fails, no sample of another
  timestamp is ever accepted again: every later call is refused, nothing is delivered, and the metric
  does not change, until it is reset.
\<close>

theorem composite_incomplete_round_is_final:
  assumes "pb_timestamp (cm_pending m) = Some t" "\<not> pb_emitted (cm_pending m)" "\<forall>raw\<in>set later. ns_timestamp raw \<noteq> t"
  shows "receive_all (Composite_ReceiveRawSample ep cfg sink) later (m, s)
      = (replicate (length later) ASTL_STATUS_METRIC_RECEIVED_INVALID_SAMPLE, m, s)
    \<and> cm_pending (Composite_Reset m) = empty_batch"
  using assms(3)
proof (induction later)
  case (Cons raw later)
  have "join_batch cfg (ns_timestamp raw) (cm_pending m) = Inl ASTL_STATUS_METRIC_RECEIVED_INVALID_SAMPLE"
    using assms(1,2) Cons.prems by (simp add: join_batch_def)
  then have "Composite_ReceiveRawSample ep cfg sink raw (m, s) = (ASTL_STATUS_METRIC_RECEIVED_INVALID_SAMPLE, m, s)"
    by (simp add: Composite_ReceiveRawSample_def split: option.split)
  then show ?case using Cons by simp
qed (simp add: Composite_Reset_def)

theorem composite_incomplete_round_is_final_witness:
  "receive_all (Composite_ReceiveRawSample seven_parser two_fields (Some (store_sink 1 2)))
      [\<lparr>ns_operation_id = 1, ns_value = VU64 4, ns_timestamp = 20\<rparr>]
      ((ProcfsCompositeMetric seven_parser two_fields)\<lparr>cm_pending := \<lparr>pb_timestamp = Some 10, pb_values = [], pb_emitted = False\<rparr>\<rparr>, empty_store)
    = ([ASTL_STATUS_METRIC_RECEIVED_INVALID_SAMPLE],
       (ProcfsCompositeMetric seven_parser two_fields)\<lparr>cm_pending := \<lparr>pb_timestamp = Some 10, pb_values = [], pb_emitted = False\<rparr>\<rparr>, empty_store)"
  using composite_incomplete_round_is_final [of "(ProcfsCompositeMetric seven_parser two_fields)
      \<lparr>cm_pending := \<lparr>pb_timestamp = Some 10, pb_values = [], pb_emitted = False\<rparr>\<rparr>" 10
      "[\<lparr>ns_operation_id = 1, ns_value = VU64 4, ns_timestamp = 20\<rparr>]" seven_parser two_fields "Some (store_sink 1 2)" empty_store]
  by simp

end
