(* ===== verification/Metric_Dispatch.thy ===== *)
theory Metric_Dispatch
  imports Samples "HOL-Library.Multiset"
begin

text \<open>
  How raw samples reach the metrics: the anonymous functions of
  src/impl/metric/metric_manager.cpp that route, normalise, sort and dispatch them.  A metric is
  named by its address, linearly ordered as std::less orders pointers, and called through the
  IMetric interface of src/impl/metric/i_metric.hpp, a record of operations on the state 'w that
  holds the metrics and what lies behind their sinks.  std::sort need not be stable, so it is an
  argument, with what the C++ standard promises of it in std_sort.
\<close>

section \<open>The interface of a metric and the processing queue\<close>

record ('m, 'w) imetric =
  im_receive :: "'m \<Rightarrow> normalized_sample \<Rightarrow> 'w \<Rightarrow> astl_status \<times> 'w"
  im_pause :: "'m \<Rightarrow> int \<Rightarrow> 'w \<Rightarrow> astl_status \<times> 'w"
  im_reset :: "'m \<Rightarrow> 'w \<Rightarrow> 'w"
  im_summarize :: "'m \<Rightarrow> 'w \<Rightarrow> astl_status \<times> 'w"
  im_operations :: "'m \<Rightarrow> 'w \<Rightarrow> 16 word list result \<times> 'w"

type_synonym 'm queue = "('m \<times> normalized_sample) list"

text \<open>
  The routes of a target, from operation ids to metrics, as an association list in the map's
  iteration order.  A null metric is treated by every reader as a missing entry and has none here.
\<close>

type_synonym 'm routes = "(16 word \<times> 'm) list"

definition std_sort :: "('a \<Rightarrow> 'a \<Rightarrow> bool) \<Rightarrow> ('a list \<Rightarrow> 'a list) \<Rightarrow> bool" where
  "std_sort before sorter \<longleftrightarrow>
    (\<forall>xs. mset (sorter xs) = mset xs \<and> sorted_wrt (\<lambda>x y. \<not> before y x) (sorter xs))"

definition queue_less :: "'m::linorder \<times> normalized_sample \<Rightarrow> 'm \<times> normalized_sample \<Rightarrow> bool" where
  "queue_less l r =
    (if fst l \<noteq> fst r then fst l < fst r else ns_timestamp (snd l) < ns_timestamp (snd r))"

section \<open>Filling the queue\<close>

abbreviation first_operation_id :: "16 word" where
  "first_operation_id \<equiv> of_nat kFirstAssignableOperationId"

definition marker_timestamp :: "raw_sample \<Rightarrow> int" where
  "marker_timestamp sample = sint (rs_raw_tick sample)"

definition lifecycle_entry :: "'m option \<Rightarrow> 64 word \<Rightarrow> raw_sample \<Rightarrow> 'm queue" where
  "lifecycle_entry event v sample =
    (case event of
       None \<Rightarrow> []
     | Some m \<Rightarrow> [(m, \<lparr>ns_operation_id = first_operation_id, ns_value = VU64 v,
                     ns_timestamp = marker_timestamp sample\<rparr>)])"

fun broadcast_marker :: "raw_sample \<Rightarrow> 'm set \<Rightarrow> 'm routes \<Rightarrow> 'm queue" where
  "broadcast_marker sample seen [] = []"
| "broadcast_marker sample seen ((i, m) # routes) =
    (if m \<in> seen then broadcast_marker sample seen routes
     else (m, \<lparr>ns_operation_id = rs_operation_id sample, ns_value = rs_value sample,
              ns_timestamp = marker_timestamp sample\<rparr>) # broadcast_marker sample (insert m seen) routes)"

definition EnqueuePauseMarkerSamples :: "'m option \<Rightarrow> 'm routes \<Rightarrow> raw_sample \<Rightarrow> 'm queue \<Rightarrow> 'm queue" where
  "EnqueuePauseMarkerSamples event routes sample queue =
    queue @ lifecycle_entry event 0 sample @ broadcast_marker sample (set_option event) routes"

definition EnqueueResumeMarkerSamples :: "'m option \<Rightarrow> 'm routes \<Rightarrow> raw_sample \<Rightarrow> 'm queue \<Rightarrow> 'm queue" where
  "EnqueueResumeMarkerSamples event routes sample queue = queue @ lifecycle_entry event 1 sample"

definition EnqueueNormalizedSample :: "'m routes \<Rightarrow> clock_correlation_map \<Rightarrow> raw_sample \<Rightarrow> 'm queue
    \<Rightarrow> astl_status \<times> 'm queue" where
  "EnqueueNormalizedSample routes correlations sample queue =
    (case (map_of routes (rs_operation_id sample), correlations (rs_operation_id sample)) of
       (Some m, Some c) \<Rightarrow>
         (ASTL_STATUS_SUCCESS, queue @ [(m, \<lparr>ns_operation_id = rs_operation_id sample, ns_value = rs_value sample,
            ns_timestamp = NormalizeToCorrelatedRawTimestamp (rs_raw_tick sample) c\<rparr>)])
     | _ \<Rightarrow> (ASTL_STATUS_METRIC_RECEIVED_INVALID_SAMPLE, queue))"

text \<open>
  The samples of a target.  None is the exception of std::get when a marker does not hold a
  uint64_t, which no producer under src/ sends.
\<close>

fun enqueue_samples :: "'m option \<Rightarrow> 'm routes \<Rightarrow> clock_correlation_map \<Rightarrow> raw_sample list \<Rightarrow> 'm queue
    \<Rightarrow> (astl_status \<times> 'm queue) option" where
  "enqueue_samples event routes correlations [] queue = Some (ASTL_STATUS_SUCCESS, queue)"
| "enqueue_samples event routes correlations (sample # samples) queue =
    (if IsPauseResumeMarkerOperationId (rs_operation_id sample) then
       (case rs_value sample of
          VU64 v \<Rightarrow> enqueue_samples event routes correlations samples
            ((if v = 0 then EnqueuePauseMarkerSamples else EnqueueResumeMarkerSamples) event routes sample queue)
        | _ \<Rightarrow> None)
     else
       (let (status, queue') = EnqueueNormalizedSample routes correlations sample queue in
        if status \<noteq> ASTL_STATUS_SUCCESS then Some (status, queue')
        else enqueue_samples event routes correlations samples queue'))"

definition EnqueueTargetSamples :: "('t \<rightharpoonup> 'm routes) \<Rightarrow> ('t \<rightharpoonup> 'm) \<Rightarrow> clock_correlation_map \<Rightarrow> 't option
    \<Rightarrow> raw_sample list \<Rightarrow> 'm queue \<Rightarrow> (astl_status \<times> 'm queue) option" where
  "EnqueueTargetSamples target_routes lifecycle correlations target samples queue =
    (case target of
       None \<Rightarrow> Some (ASTL_STATUS_BAD_ARGUMENT, queue)
     | Some t \<Rightarrow>
        (case target_routes t of
           None \<Rightarrow> Some (ASTL_STATUS_METRIC_RECEIVED_INVALID_SAMPLE, queue)
         | Some routes \<Rightarrow> enqueue_samples (lifecycle t) routes correlations samples queue))"

section \<open>Dispatching the queue\<close>

definition IsTimestampRegression :: "('m \<rightharpoonup> int) \<Rightarrow> 'm \<Rightarrow> normalized_sample \<Rightarrow> bool" where
  "IsTimestampRegression latest m sample \<longleftrightarrow> (case latest m of None \<Rightarrow> False | Some t \<Rightarrow> ns_timestamp sample < t)"

definition DispatchNormalizedSample :: "('m, 'w) imetric \<Rightarrow> 'm \<Rightarrow> normalized_sample \<Rightarrow> 'w \<Rightarrow> astl_status \<times> 'w" where
  "DispatchNormalizedSample im m sample w =
    (if IsPauseResumeMarkerOperationId (ns_operation_id sample) then im_pause im m (ns_timestamp sample) w
     else im_receive im m sample w)"

definition RememberMetricTimestamp :: "('m \<rightharpoonup> int) \<Rightarrow> 'm \<Rightarrow> int \<Rightarrow> ('m \<rightharpoonup> int)" where
  "RememberMetricTimestamp latest m t = latest(m \<mapsto> t)"

fun dispatch_all :: "('m, 'w) imetric \<Rightarrow> 'm queue \<Rightarrow> ('m \<rightharpoonup> int) \<Rightarrow> 'w \<Rightarrow> astl_status \<times> ('m \<rightharpoonup> int) \<times> 'w" where
  "dispatch_all im [] latest w = (ASTL_STATUS_SUCCESS, latest, w)"
| "dispatch_all im ((m, sample) # queue) latest w =
    (if IsTimestampRegression latest m sample then dispatch_all im queue latest w
     else let (status, w') = DispatchNormalizedSample im m sample w in
       if status \<noteq> ASTL_STATUS_SUCCESS then (status, latest, w')
       else dispatch_all im queue (RememberMetricTimestamp latest m (ns_timestamp sample)) w')"

definition DispatchProcessingQueue :: "('m queue \<Rightarrow> 'm queue) \<Rightarrow> ('m, 'w) imetric \<Rightarrow> 'm queue \<Rightarrow> ('m \<rightharpoonup> int) \<Rightarrow> 'w
    \<Rightarrow> astl_status \<times> ('m \<rightharpoonup> int) \<times> 'w" where
  "DispatchProcessingQueue sorter im queue latest w = dispatch_all im (sorter queue) latest w"

section \<open>What a metric is given\<close>

text \<open>The calls one after the other, to the first that fails.\<close>

fun run_calls :: "('m, 'w) imetric \<Rightarrow> 'm queue \<Rightarrow> 'w \<Rightarrow> astl_status \<times> 'w" where
  "run_calls im [] w = (ASTL_STATUS_SUCCESS, w)"
| "run_calls im ((m, sample) # calls) w =
    (let (status, w') = DispatchNormalizedSample im m sample w in
     if status \<noteq> ASTL_STATUS_SUCCESS then (status, w') else run_calls im calls w')"

text \<open>The calls that are made, the failing one included, and the calls that are never made.\<close>

fun made :: "('m, 'w) imetric \<Rightarrow> 'm queue \<Rightarrow> 'w \<Rightarrow> 'm queue" where
  "made im [] w = []"
| "made im ((m, sample) # calls) w =
    (m, sample) # (let (status, w') = DispatchNormalizedSample im m sample w in
       if status \<noteq> ASTL_STATUS_SUCCESS then [] else made im calls w')"

definition samples_of :: "'m \<Rightarrow> 'm queue \<Rightarrow> normalized_sample list" where
  "samples_of m queue = map snd (filter (\<lambda>x. fst x = m) queue)"

abbreviation timely :: "('m \<rightharpoonup> int) \<Rightarrow> 'm queue \<Rightarrow> 'm queue" where
  "timely latest queue \<equiv> filter (\<lambda>(m, sample). \<not> IsTimestampRegression latest m sample) queue"

definition remember_all :: "('m \<rightharpoonup> int) \<Rightarrow> 'm queue \<Rightarrow> ('m \<rightharpoonup> int)" where
  "remember_all latest calls = foldl (\<lambda>l (m, sample). RememberMetricTimestamp l m (ns_timestamp sample)) latest calls"

lemma made_prefix: "\<exists>rest. calls = made im calls w @ rest"
  by (induction im calls w rule: made.induct) (auto split: prod.split)

lemma run_made: "run_calls im (made im calls w) w = run_calls im calls w"
  by (induction im calls w rule: made.induct) (auto split: prod.split)

lemma made_all: "fst (run_calls im calls w) = ASTL_STATUS_SUCCESS \<Longrightarrow> made im calls w = calls"
  by (induction im calls w rule: made.induct) (auto split: prod.splits if_splits)

lemma timely_remember:
  assumes "sorted_wrt (\<lambda>x y. \<not> queue_less y x) ((m, sample) # queue)" "\<not> IsTimestampRegression latest m sample"
  shows "timely (RememberMetricTimestamp latest m (ns_timestamp sample)) queue = timely latest queue"
proof (rule filter_cong [OF refl])
  fix x assume "x \<in> set queue"
  then have "\<not> queue_less x (m, sample)" using assms(1) by simp
  then show "(case x of (m', s) \<Rightarrow> \<not> IsTimestampRegression (RememberMetricTimestamp latest m (ns_timestamp sample)) m' s)
      = (case x of (m', s) \<Rightarrow> \<not> IsTimestampRegression latest m' s)"
    using assms(2)
    by (cases x) (auto simp: queue_less_def IsTimestampRegression_def RememberMetricTimestamp_def split: option.splits)
qed

lemma remember_all_Cons:
  "remember_all latest ((m, sample) # calls)
    = remember_all (RememberMetricTimestamp latest m (ns_timestamp sample)) calls"
  by (simp add: remember_all_def)

lemma made_Nil_iff [simp]: "made im calls w = [] \<longleftrightarrow> calls = []"
  by (cases "(im, calls, w)" rule: made.cases) simp_all

text \<open>
  On a sorted queue the check against the running timestamps is the check against the timestamps
  the dispatch began with.
\<close>

lemma dispatch_all_sorted:
  assumes "sorted_wrt (\<lambda>x y. \<not> queue_less y x) queue"
  shows "dispatch_all im queue latest w =
    (let (status, w') = run_calls im (timely latest queue) w; calls = made im (timely latest queue) w in
     (status, remember_all latest (if status = ASTL_STATUS_SUCCESS then calls else butlast calls), w'))"
  using assms
proof (induction im queue latest w rule: dispatch_all.induct)
  case (1 im latest w)
  then show ?case by (simp add: remember_all_def)
next
  case (2 im m sample queue latest w)
  show ?case
  proof (cases "IsTimestampRegression latest m sample")
    case True
    then show ?thesis using 2 by simp
  next
    case False
    obtain status w' where d: "DispatchNormalizedSample im m sample w = (status, w')" by fastforce
    note keep = timely_remember [OF "2.prems" False]
    show ?thesis
    proof (cases "status = ASTL_STATUS_SUCCESS")
      case True
      have s: "sorted_wrt (\<lambda>x y. \<not> queue_less y x) queue" using "2.prems" by simp
      show ?thesis
        using "2.IH"(2) [OF False d [symmetric] refl _ s] True False d
        by (cases "timely latest queue = []") (auto simp: keep remember_all_Cons Let_def split: prod.splits)
    next
      case False
      then show ?thesis using \<open>\<not> IsTimestampRegression latest m sample\<close> d by (simp add: remember_all_def)
    qed
  qed
qed

lemma sorted_samples_of:
  assumes "sorted_wrt (\<lambda>x y. \<not> queue_less y x) queue"
  shows "sorted (map ns_timestamp (samples_of m queue))"
  using assms
proof (induction queue)
  case (Cons x queue)
  have "ns_timestamp (snd x) \<le> ns_timestamp s" if "fst x = m" "s \<in> set (samples_of m queue)" for s
    using Cons.prems that by (auto simp: samples_of_def queue_less_def)
  then show ?case using Cons by (cases x) (simp add: samples_of_def)
qed (simp add: samples_of_def)

lemma remember_all_samples:
  "remember_all latest calls m =
    (case samples_of m calls of [] \<Rightarrow> latest m | ss \<Rightarrow> Some (ns_timestamp (List.last ss)))"
proof (induction calls rule: rev_induct)
  case (snoc x calls)
  then show ?case
    by (cases x) (auto simp: remember_all_def samples_of_def RememberMetricTimestamp_def split: list.splits)
qed (simp add: remember_all_def samples_of_def)

text \<open>
  Whatever order std::sort leaves equal timestamps in, a dispatch calls each metric with samples
  of nondecreasing timestamps, none before the last one of an earlier dispatch; it drops exactly the
  samples that are.  It stops at the first call that fails, whose status it returns, and then the
  samples it never hands out are those of that metric and of metrics behind it.  The timestamp it
  remembers for a metric is that of its last successful call.
\<close>

lemma dispatch_calls:
  assumes "std_sort queue_less sorter"
    and "DispatchProcessingQueue sorter im queue latest w = (status, latest', w')"
  shows "\<exists>calls rest. mset (calls @ rest) = mset (timely latest queue)
    \<and> run_calls im calls w = (status, w')
    \<and> (status = ASTL_STATUS_SUCCESS \<longrightarrow> rest = [])
    \<and> (\<forall>m. sorted (map ns_timestamp (samples_of m (calls @ rest)))
        \<and> (\<forall>t. latest m = Some t \<longrightarrow> (\<forall>s\<in>set (samples_of m calls). t \<le> ns_timestamp s)))
    \<and> (\<forall>x\<in>set rest. calls \<noteq> [] \<and> fst (List.last calls) \<le> fst x)
    \<and> (let succeeded = (if status = ASTL_STATUS_SUCCESS then calls else butlast calls) in
       \<forall>m. latest' m =
        (case samples_of m succeeded of [] \<Rightarrow> latest m | ss \<Rightarrow> Some (ns_timestamp (List.last ss))))"
proof -
  define kept where "kept = timely latest (sorter queue)"
  define calls where "calls = made im kept w"
  have s: "mset (sorter queue) = mset queue" "sorted_wrt (\<lambda>x y. \<not> queue_less y x) (sorter queue)"
    using assms(1) by (simp_all add: std_sort_def)
  obtain rest where q: "kept = calls @ rest" unfolding calls_def using made_prefix [of kept im w] by (elim exE)
  have sq: "sorted_wrt (\<lambda>x y. \<not> queue_less y x) (calls @ rest)"
    unfolding q [symmetric] kept_def by (rule sorted_wrt_filter [OF s(2)])
  obtain st w1 where run: "run_calls im kept w = (st, w1)" by fastforce
  have eq: "status = st" "w' = w1"
      "latest' = remember_all latest (if status = ASTL_STATUS_SUCCESS then calls else butlast calls)"
    using assms(2) dispatch_all_sorted [OF s(2), of im latest w] run
    by (auto simp: DispatchProcessingQueue_def kept_def calls_def Let_def)
  have rest: "status = ASTL_STATUS_SUCCESS \<Longrightarrow> rest = []"
    using made_all [of im kept w] run q eq(1) unfolding calls_def [symmetric] by (metis append_self_conv fst_conv)
  have a: "mset (calls @ rest) = mset (timely latest queue)"
    unfolding q [symmetric] kept_def by (simp add: s(1))
  have b: "run_calls im calls w = (status, w')" using run_made [of im kept w] run eq by (simp add: calls_def)
  have c: "sorted (map ns_timestamp (samples_of m (calls @ rest)))" for m by (rule sorted_samples_of [OF sq])
  have d: "t \<le> ns_timestamp x" if "latest m = Some t" "x \<in> set (samples_of m calls)" for m t x
  proof -
    have "(m, x) \<in> set calls" using that(2) by (auto simp: samples_of_def)
    then have "(m, x) \<in> set kept" by (simp add: q)
    then show ?thesis using that(1) by (simp add: kept_def IsTimestampRegression_def)
  qed
  have e: "calls \<noteq> [] \<and> fst (List.last calls) \<le> fst x" if "x \<in> set rest" for x
  proof -
    have "kept \<noteq> []" using q that by auto
    then have ne: "calls \<noteq> []" by (simp add: calls_def)
    then have "\<not> queue_less x (List.last calls)"
      using sq that by (simp add: sorted_wrt_append)
    then show ?thesis using ne by (auto simp: queue_less_def split: if_splits)
  qed
  have f: "latest' m = (case samples_of m (if status = ASTL_STATUS_SUCCESS then calls else butlast calls)
      of [] \<Rightarrow> latest m | ss \<Rightarrow> Some (ns_timestamp (List.last ss)))" for m
    unfolding eq(3) remember_all_samples ..
  show ?thesis
    unfolding Let_def
    by (intro exI [of _ calls] exI [of _ rest] conjI allI ballI impI) (use a b c d e f rest in blast)+
qed

section \<open>What the samples of a target put into the queue\<close>

text \<open>What a sample means for a metric of the target, whether a sample can be routed at all.\<close>

definition marker_of :: "raw_sample \<Rightarrow> normalized_sample" where
  "marker_of sample = \<lparr>ns_operation_id = rs_operation_id sample, ns_value = rs_value sample,
     ns_timestamp = marker_timestamp sample\<rparr>"

definition event_of :: "64 word \<Rightarrow> raw_sample \<Rightarrow> normalized_sample" where
  "event_of v sample = \<lparr>ns_operation_id = first_operation_id, ns_value = VU64 v, ns_timestamp = marker_timestamp sample\<rparr>"

definition normalized :: "clock_correlation \<Rightarrow> raw_sample \<Rightarrow> normalized_sample" where
  "normalized c sample = \<lparr>ns_operation_id = rs_operation_id sample, ns_value = rs_value sample,
     ns_timestamp = NormalizeToCorrelatedRawTimestamp (rs_raw_tick sample) c\<rparr>"

definition inputs :: "'m option \<Rightarrow> 'm routes \<Rightarrow> clock_correlation_map \<Rightarrow> 'm \<Rightarrow> raw_sample \<Rightarrow> normalized_sample list" where
  "inputs event routes correlations m sample =
    (if IsPauseResumeMarkerOperationId (rs_operation_id sample) then
       if event = Some m then [event_of (if rs_value sample = VU64 0 then 0 else 1) sample]
       else if rs_value sample = VU64 0 \<and> m \<in> snd ` set routes then [marker_of sample] else []
     else if map_of routes (rs_operation_id sample) = Some m
     then [normalized (the (correlations (rs_operation_id sample))) sample] else [])"

definition routable :: "'m routes \<Rightarrow> clock_correlation_map \<Rightarrow> raw_sample \<Rightarrow> bool" where
  "routable routes correlations sample \<longleftrightarrow>
    IsPauseResumeMarkerOperationId (rs_operation_id sample)
    \<or> map_of routes (rs_operation_id sample) \<noteq> None \<and> correlations (rs_operation_id sample) \<noteq> None"

definition well_typed_marker :: "raw_sample \<Rightarrow> bool" where
  "well_typed_marker sample \<longleftrightarrow>
    (IsPauseResumeMarkerOperationId (rs_operation_id sample) \<longrightarrow> (\<exists>v. rs_value sample = VU64 v))"

lemma samples_of_simps [simp]:
  "samples_of m [] = []" "samples_of m (q @ r) = samples_of m q @ samples_of m r"
  "samples_of m ((m', sample) # q) = (if m' = m then sample # samples_of m q else samples_of m q)"
  by (simp_all add: samples_of_def)

lemma first_operation_is_no_marker: "\<not> IsPauseResumeMarkerOperationId first_operation_id"
  by (simp add: IsPauseResumeMarkerOperationId_def kPauseResumeOperationId_def kFirstAssignableOperationId_def)

lemma broadcast_marker_samples:
  "samples_of m (broadcast_marker sample seen routes)
    = (if m \<in> snd ` set routes - seen then [marker_of sample] else [])"
  by (induction sample seen routes rule: broadcast_marker.induct) (auto simp: marker_of_def)

lemma lifecycle_entry_samples:
  "samples_of m (lifecycle_entry event v sample) = (if event = Some m then [event_of v sample] else [])"
  by (auto simp: lifecycle_entry_def event_of_def split: option.split)

lemma pause_samples:
  "samples_of m (EnqueuePauseMarkerSamples event routes sample queue) =
    samples_of m queue @ (if event = Some m then [event_of 0 sample]
      else if m \<in> snd ` set routes then [marker_of sample] else [])"
  by (auto simp: EnqueuePauseMarkerSamples_def lifecycle_entry_samples broadcast_marker_samples)

lemma resume_samples:
  "samples_of m (EnqueueResumeMarkerSamples event routes sample queue) =
    samples_of m queue @ (if event = Some m then [event_of 1 sample] else [])"
  by (simp add: EnqueueResumeMarkerSamples_def lifecycle_entry_samples)

lemma enqueue_normalized:
  "EnqueueNormalizedSample routes correlations sample queue =
    (case (map_of routes (rs_operation_id sample), correlations (rs_operation_id sample)) of
       (Some m, Some c) \<Rightarrow> (ASTL_STATUS_SUCCESS, queue @ [(m, normalized c sample)])
     | _ \<Rightarrow> (ASTL_STATUS_METRIC_RECEIVED_INVALID_SAMPLE, queue))"
  by (simp add: EnqueueNormalizedSample_def normalized_def split: option.split)

text \<open>The samples of a target are routed up to the first that cannot be.\<close>

lemma enqueue_samples_routed:
  assumes "\<forall>sample\<in>set samples. well_typed_marker sample"
  shows "\<exists>queue'. enqueue_samples event routes correlations samples queue =
      Some (if list_all (routable routes correlations) samples then ASTL_STATUS_SUCCESS
            else ASTL_STATUS_METRIC_RECEIVED_INVALID_SAMPLE, queue')
    \<and> (\<forall>m. samples_of m queue' = samples_of m queue
        @ concat (map (inputs event routes correlations m) (takeWhile (routable routes correlations) samples)))"
  using assms
proof (induction samples arbitrary: queue)
  case (Cons sample samples)
  show ?case
  proof (cases "IsPauseResumeMarkerOperationId (rs_operation_id sample)")
    case True
    then obtain v where v: "rs_value sample = VU64 v" using Cons.prems by (auto simp: well_typed_marker_def)
    let ?queue = "(if v = 0 then EnqueuePauseMarkerSamples else EnqueueResumeMarkerSamples) event routes sample queue"
    have "samples_of m ?queue = samples_of m queue @ inputs event routes correlations m sample" for m
      using True v by (simp add: pause_samples resume_samples inputs_def)
    moreover have "routable routes correlations sample" using True by (simp add: routable_def)
    ultimately show ?thesis
      using Cons.IH [of ?queue] Cons.prems True v by auto
  next
    case False
    show ?thesis
    proof (cases "routable routes correlations sample")
      case True
      then obtain m c where mc: "map_of routes (rs_operation_id sample) = Some m"
          "correlations (rs_operation_id sample) = Some c"
        using False by (auto simp: routable_def)
      then have "EnqueueNormalizedSample routes correlations sample queue
          = (ASTL_STATUS_SUCCESS, queue @ [(m, normalized c sample)])"
        by (simp add: enqueue_normalized)
      moreover have "inputs event routes correlations m' sample = (if m' = m then [normalized c sample] else [])" for m'
        using False mc by (simp add: inputs_def)
      ultimately show ?thesis
        using Cons.IH [of "queue @ [(m, normalized c sample)]"] Cons.prems False True by auto
    next
      case unroutable: False
      then have "EnqueueNormalizedSample routes correlations sample queue = (ASTL_STATUS_METRIC_RECEIVED_INVALID_SAMPLE, queue)"
        using False by (auto simp: routable_def enqueue_normalized split: option.split)
      then show ?thesis using False unroutable by simp
    qed
  qed
qed simp

text \<open>Only the markers and samples of the routed metrics, and of the lifecycle metric, enter the queue.\<close>

lemma inputs_routed:
  "inputs event routes correlations m sample \<noteq> [] \<Longrightarrow> event = Some m \<or> m \<in> snd ` set routes"
  by (auto simp: inputs_def split: if_splits dest!: map_of_SomeD) (metis image_eqI snd_conv)

section \<open>A sort\<close>

fun insert_queue :: "'m::linorder \<times> normalized_sample \<Rightarrow> 'm queue \<Rightarrow> 'm queue" where
  "insert_queue x [] = [x]"
| "insert_queue x (y # ys) = (if queue_less y x then y # insert_queue x ys else x # y # ys)"

definition sort_queue :: "'m::linorder queue \<Rightarrow> 'm queue" where
  "sort_queue xs = foldr insert_queue xs []"

lemma mset_insert_queue: "mset (insert_queue x ys) = add_mset x (mset ys)"
  by (induction ys) auto

lemma queue_less_trans: "\<not> queue_less y x \<Longrightarrow> \<not> queue_less z y \<Longrightarrow> \<not> queue_less z x"
  by (auto simp: queue_less_def split: if_splits)

lemma queue_less_asym: "queue_less y x \<Longrightarrow> \<not> queue_less x y"
  by (auto simp: queue_less_def split: if_splits)

lemma sorted_insert_queue:
  "sorted_wrt (\<lambda>x y. \<not> queue_less y x) ys \<Longrightarrow> sorted_wrt (\<lambda>x y. \<not> queue_less y x) (insert_queue x ys)"
proof (induction ys)
  case (Cons y ys)
  have set: "set (insert_queue x ys) = insert x (set ys)"
    using mset_insert_queue [of x ys] by (metis set_mset_add_mset_insert set_mset_mset)
  show ?case
  proof (cases "queue_less y x")
    case True
    then show ?thesis using Cons queue_less_asym [OF True] by (simp add: set)
  next
    case False
    have "\<forall>z\<in>set ys. \<not> queue_less z x" using Cons.prems queue_less_trans [OF False] by simp
    then show ?thesis using Cons.prems False by simp
  qed
qed simp

text \<open>An insertion sort has the properties asked of std::sort, so that they can be had.\<close>

lemma std_sort_queue: "std_sort queue_less sort_queue"
proof -
  have "mset (sort_queue xs) = mset xs \<and> sorted_wrt (\<lambda>x y. \<not> queue_less y x) (sort_queue xs)" for xs :: "'a queue"
    unfolding sort_queue_def by (induction xs) (simp_all add: mset_insert_queue sorted_insert_queue)
  then show ?thesis unfolding std_sort_def by blast
qed

end
