(* ===== verification/Metric_Manager.thy ===== *)
theory Metric_Manager
  imports Metrics Metric_Dispatch "HOL-Library.AList"
begin

text \<open>
  src/impl/metric/metric_manager.cpp: the registered metrics and counters, the routes from operation
  ids to metrics, and the operations the orchestrator calls on them.  Handles are numbers in the
  order of their allocation; the addresses of new metrics are arguments.  Registration creates a
  metric through the argument create, CreateMetricFromConfig in Metric_Instances.
\<close>

section \<open>Configurations and the state of the manager\<close>

datatype CollectorType =
  COLLECTOR_UNKNOWN | ASTL_NATIVE | SCMI | LIBSENSORS | PROCFS | WINDOWS_PDH | NUMA

text \<open>What the manager reads of a MetricConfig; an EventMetricConfig has the last component.\<close>

record event_config =
  ec_values :: "(astl_value \<times> string) list"
  ec_lifecycle :: bool

record registered_config =
  gc_config :: metric_config
  gc_collector :: CollectorType
  gc_groups :: "string list"
  gc_event :: "event_config option"

record ('t, 'm) metric_handle =
  mh_id :: nat
  mh_config :: registered_config
  mh_metrics :: "('t \<times> 'm) list"

record metric_group =
  mg_id :: nat
  mg_name :: string
  mg_description :: string
  mg_metrics :: "nat list"

text \<open>A target without an entry in one of the maps to vectors has the empty list.\<close>

record ('t, 'm, 's) metric_manager =
  mm_capabilities :: "CollectorType list"
  mm_descriptions :: "string \<rightharpoonup> string"
  mm_sinks :: "'s list"
  mm_counter_handles :: "('t, 'm) metric_handle list"
  mm_target_counters :: "'t \<Rightarrow> nat list"
  mm_metric_handles :: "('t, 'm) metric_handle list"
  mm_target_metrics :: "'t \<Rightarrow> nat list"
  mm_target_groups :: "'t \<Rightarrow> nat list"
  mm_routes :: "'t \<rightharpoonup> 'm routes"
  mm_replay_routes :: "'t \<rightharpoonup> 'm routes"
  mm_lifecycle :: "'t \<rightharpoonup> 'm"
  mm_groups :: "metric_group list"
  mm_group_handles :: "nat list"
  mm_correlations :: clock_correlation_map
  mm_latest :: "'m \<rightharpoonup> int"
  mm_next :: nat

definition MetricManager :: "CollectorType list \<Rightarrow> (string \<rightharpoonup> string) \<Rightarrow> ('t, 'm, 's) metric_manager" where
  "MetricManager capabilities descriptions =
    \<lparr>mm_capabilities = capabilities, mm_descriptions = descriptions, mm_sinks = [], mm_counter_handles = [],
     mm_target_counters = (\<lambda>t. []), mm_metric_handles = [], mm_target_metrics = (\<lambda>t. []), mm_target_groups = (\<lambda>t. []),
     mm_routes = Map.empty, mm_replay_routes = Map.empty, mm_lifecycle = Map.empty, mm_groups = [],
     mm_group_handles = [], mm_correlations = Map.empty, mm_latest = Map.empty, mm_next = 0\<rparr>"

definition find_handle :: "nat \<Rightarrow> ('t, 'm) metric_handle list \<Rightarrow> ('t, 'm) metric_handle option" where
  "find_handle h handles = find (\<lambda>x. mh_id x = h) handles"

section \<open>Lookups\<close>

definition GetCounterOnTarget :: "nat \<Rightarrow> 't \<Rightarrow> ('t, 'm, 's) metric_manager \<Rightarrow> 'm result" where
  "GetCounterOnTarget h t mm =
    (case find_handle h (mm_counter_handles mm) of
       None \<Rightarrow> Inl ASTL_STATUS_BAD_ARGUMENT
     | Some c \<Rightarrow>
        (case map_of (mh_metrics c) t of
           None \<Rightarrow> Inl ASTL_STATUS_COUNTER_NOT_SUPPORTED_ON_TARGET
         | Some m \<Rightarrow> Inr m))"

definition GetMetricOnTarget :: "nat option \<Rightarrow> 't \<Rightarrow> ('t, 'm, 's) metric_manager \<Rightarrow> 'm result" where
  "GetMetricOnTarget handle t mm =
    (case handle of
       None \<Rightarrow> Inl ASTL_STATUS_BAD_ARGUMENT
     | Some h \<Rightarrow>
        (case find_handle h (mm_metric_handles mm) of
           None \<Rightarrow> Inl ASTL_STATUS_INVALID_METRIC_HANDLE
         | Some x \<Rightarrow>
            (case map_of (mh_metrics x) t of
               None \<Rightarrow> Inl ASTL_STATUS_METRIC_NOT_SUPPORTED_ON_TARGET
             | Some m \<Rightarrow> Inr m)))"

definition GetNumAvailableCounters :: "'t \<Rightarrow> ('t, 'm, 's) metric_manager \<Rightarrow> nat" where
  "GetNumAvailableCounters t mm = length (mm_target_counters mm t)"

definition GetAvailableCounters :: "'t \<Rightarrow> ('t, 'm, 's) metric_manager \<Rightarrow> nat list result" where
  "GetAvailableCounters t mm = Inr (mm_target_counters mm t)"

definition GetNumAvailableMetrics :: "'t \<Rightarrow> ('t, 'm, 's) metric_manager \<Rightarrow> nat" where
  "GetNumAvailableMetrics t mm = length (mm_target_metrics mm t)"

definition GetAvailableMetrics :: "'t \<Rightarrow> ('t, 'm, 's) metric_manager \<Rightarrow> nat list result" where
  "GetAvailableMetrics t mm = Inr (mm_target_metrics mm t)"

definition GetMetricGroups :: "('t, 'm, 's) metric_manager \<Rightarrow> nat list" where
  "GetMetricGroups mm = mm_group_handles mm"

definition GetMetricGroupsOnTarget :: "'t option \<Rightarrow> ('t, 'm, 's) metric_manager \<Rightarrow> nat list result" where
  "GetMetricGroupsOnTarget target mm =
    (case target of None \<Rightarrow> Inl ASTL_STATUS_BAD_ARGUMENT | Some t \<Rightarrow> Inr (mm_target_groups mm t))"

definition GetMetricsInGroup :: "nat option \<Rightarrow> ('t, 'm, 's) metric_manager \<Rightarrow> nat list result" where
  "GetMetricsInGroup handle mm =
    (case handle of
       None \<Rightarrow> Inl ASTL_STATUS_BAD_ARGUMENT
     | Some g \<Rightarrow>
        if g \<notin> set (mm_group_handles mm) then Inl ASTL_STATUS_INVALID_METRIC_GROUP_HANDLE
        else case find (\<lambda>x. mg_id x = g) (mm_groups mm) of
            None \<Rightarrow> Inl ASTL_STATUS_INVALID_METRIC_GROUP_HANDLE
          | Some x \<Rightarrow> Inr (mg_metrics x))"

definition GetLifecycleEventMetricOnTarget :: "'t \<Rightarrow> ('t, 'm, 's) metric_manager \<Rightarrow> 'm option" where
  "GetLifecycleEventMetricOnTarget t mm = mm_lifecycle mm t"

definition GetTargetForMetric :: "'m \<Rightarrow> ('t, 'm, 's) metric_manager \<Rightarrow> 't result" where
  "GetTargetForMetric m mm =
    (case find (\<lambda>x. snd x = m) (concat (map mh_metrics (mm_metric_handles mm))) of
       None \<Rightarrow> Inl ASTL_STATUS_BAD_ARGUMENT
     | Some x \<Rightarrow> Inr (fst x))"

section \<open>Registration\<close>

definition RegisterProcessedSampleSink :: "'s option \<Rightarrow> ('t, 'm, 's) metric_manager
    \<Rightarrow> astl_status \<times> ('t, 'm, 's) metric_manager" where
  "RegisterProcessedSampleSink sink mm =
    (case sink of
       None \<Rightarrow> (ASTL_STATUS_BAD_ARGUMENT, mm)
     | Some s \<Rightarrow> (ASTL_STATUS_SUCCESS, mm\<lparr>mm_sinks := List.insert s (mm_sinks mm)\<rparr>))"

definition UnregisterProcessedSampleSink :: "'s option \<Rightarrow> ('t, 'm, 's) metric_manager
    \<Rightarrow> astl_status \<times> ('t, 'm, 's) metric_manager" where
  "UnregisterProcessedSampleSink sink mm =
    (case sink of
       None \<Rightarrow> (ASTL_STATUS_BAD_ARGUMENT, mm)
     | Some s \<Rightarrow> (ASTL_STATUS_SUCCESS, mm\<lparr>mm_sinks := removeAll s (mm_sinks mm)\<rparr>))"

definition IsCollectorTypeSupported :: "('t, 'm, 's) metric_manager \<Rightarrow> CollectorType \<Rightarrow> bool" where
  "IsCollectorTypeSupported mm c \<longleftrightarrow> c = ASTL_NATIVE \<or> c \<in> set (mm_capabilities mm)"

definition IsMetricIdRegistered :: "('t, 'm, 's) metric_manager \<Rightarrow> string \<Rightarrow> bool" where
  "IsMetricIdRegistered mm i \<longleftrightarrow> list_ex (\<lambda>h. mc_id (gc_config (mh_config h)) = i) (mm_metric_handles mm)"

definition IsReservedLifecycleEventName :: "string \<Rightarrow> bool" where
  "IsReservedLifecycleEventName name \<longleftrightarrow>
    name \<in> {''ASTL_LIFECYCLE_PAUSE'', ''ASTL_LIFECYCLE_RESUME'', ''ASTL_LIFECYCLE_CROP_BEGIN'', ''ASTL_LIFECYCLE_CROP_END''}"

definition IsSupportedValueType :: "astl_value_type \<Rightarrow> bool" where
  "IsSupportedValueType t \<longleftrightarrow>
    t = ASTL_VALUE_UINT8 \<or> t = ASTL_VALUE_UINT16 \<or> t = ASTL_VALUE_UINT32 \<or> t = ASTL_VALUE_UINT64"

definition ValidateEventMetricConfig :: "registered_config \<Rightarrow> astl_status" where
  "ValidateEventMetricConfig cfg =
    (case gc_event cfg of
       None \<Rightarrow> ASTL_STATUS_SUCCESS
     | Some e \<Rightarrow>
        if \<not> IsSupportedValueType (mc_value_type (gc_config cfg)) then ASTL_STATUS_BAD_CONFIGURATION
        else if list_ex (\<lambda>(v, name). value_type v \<noteq> mc_value_type (gc_config cfg)) (ec_values e)
        then ASTL_STATUS_BAD_CONFIGURATION
        else if \<not> ec_lifecycle e \<and> list_ex (\<lambda>(v, name). IsReservedLifecycleEventName name) (ec_values e)
        then ASTL_STATUS_BAD_CONFIGURATION
        else ASTL_STATUS_SUCCESS)"

text \<open>
  The instances of a metric, one for each target, and the map that owns them: an instance of a
  target named twice replaces the earlier one.  create makes the metric at an address.
\<close>

fun create_instances :: "('t \<Rightarrow> 'm \<Rightarrow> 'w \<Rightarrow> astl_status \<times> 'w) \<Rightarrow> ('t \<times> 'm) list \<Rightarrow> ('t \<times> 'm) list \<Rightarrow> 'w
    \<Rightarrow> ('t \<times> 'm) list result \<times> 'w" where
  "create_instances create [] owned w = (Inr owned, w)"
| "create_instances create ((t, m) # targets) owned w =
    (let (status, w') = create t m w in
     if status \<noteq> ASTL_STATUS_SUCCESS then (Inl status, w')
     else create_instances create targets (AList.update t m owned) w')"

definition push_target :: "nat \<Rightarrow> 't list \<Rightarrow> ('t \<Rightarrow> nat list) \<Rightarrow> 't \<Rightarrow> nat list" where
  "push_target h targets handles = fold (\<lambda>t f. f(t := f t @ [h])) targets handles"

text \<open>
  The targets are given with the addresses of their new instances.  A counter's creation cannot
  fail; when a metric's does, the instances already made are destroyed with the local map.
\<close>

definition RegisterCounter :: "('t \<Rightarrow> 'm \<Rightarrow> 'w \<Rightarrow> astl_status \<times> 'w) \<Rightarrow> registered_config option \<Rightarrow> ('t \<times> 'm) list
    \<Rightarrow> ('t, 'm, 's) metric_manager \<times> 'w \<Rightarrow> astl_status \<times> ('t, 'm, 's) metric_manager \<times> 'w" where
  "RegisterCounter create config targets mw =
    (case (config, mw) of
       (None, _) \<Rightarrow> (ASTL_STATUS_BAD_ARGUMENT, mw)
     | (Some cfg, mm, w) \<Rightarrow>
        if \<not> IsCollectorTypeSupported mm (gc_collector cfg) then (ASTL_STATUS_UNSUPPORTED_COLLECTOR_TYPE, mm, w)
        else case create_instances create targets [] w of
            (Inl e, w') \<Rightarrow> (e, mm, w)
          | (Inr instances, w') \<Rightarrow>
             (let h = mm_next mm in
              (ASTL_STATUS_SUCCESS,
               mm\<lparr>mm_counter_handles := mm_counter_handles mm @ [\<lparr>mh_id = h, mh_config = cfg, mh_metrics = instances\<rparr>],
                  mm_target_counters := push_target h (map fst targets) (mm_target_counters mm),
                  mm_next := Suc h\<rparr>, w')))"

fun push_group :: "nat \<Rightarrow> 't list \<Rightarrow> ('t \<Rightarrow> nat list) \<Rightarrow> 't \<Rightarrow> nat list" where
  "push_group g [] f = f"
| "push_group g (t # targets) f = push_group g targets (if g \<in> set (f t) then f else f(t := f t @ [g]))"

definition AddMetricGroupToTargets :: "nat \<Rightarrow> 't list \<Rightarrow> ('t, 'm, 's) metric_manager \<Rightarrow> ('t, 'm, 's) metric_manager" where
  "AddMetricGroupToTargets g targets mm =
    mm\<lparr>mm_target_groups := push_group g targets (mm_target_groups mm)\<rparr>"

definition add_to_group :: "nat \<Rightarrow> string \<Rightarrow> 't list \<Rightarrow> ('t, 'm, 's) metric_manager
    \<Rightarrow> ('t, 'm, 's) metric_manager option" where
  "add_to_group h name targets mm =
    (case find (\<lambda>g. mg_name g = name) (mm_groups mm) of
       None \<Rightarrow>
        (case mm_descriptions mm name of
           None \<Rightarrow> None
         | Some description \<Rightarrow>
            (let g = mm_next mm in
             Some (AddMetricGroupToTargets g targets
               (mm\<lparr>mm_groups := mm_groups mm @ [\<lparr>mg_id = g, mg_name = name, mg_description = description, mg_metrics = [h]\<rparr>],
                   mm_group_handles := mm_group_handles mm @ [g], mm_next := Suc g\<rparr>))))
     | Some grp \<Rightarrow>
        Some (AddMetricGroupToTargets (mg_id grp) targets
          (mm\<lparr>mm_groups := map (\<lambda>x. if mg_id x = mg_id grp then x\<lparr>mg_metrics := mg_metrics x @ [h]\<rparr> else x)
                (mm_groups mm)\<rparr>)))"

fun AddMetricToGroups :: "nat \<Rightarrow> string list \<Rightarrow> 't list \<Rightarrow> ('t, 'm, 's) metric_manager
    \<Rightarrow> astl_status \<times> ('t, 'm, 's) metric_manager" where
  "AddMetricToGroups h [] targets mm = (ASTL_STATUS_SUCCESS, mm)"
| "AddMetricToGroups h (name # names) targets mm =
    (case add_to_group h name targets mm of
       None \<Rightarrow> (ASTL_STATUS_BAD_CONFIGURATION, mm)
     | Some mm' \<Rightarrow> AddMetricToGroups h names targets mm')"

definition RegisterMetric :: "(registered_config \<Rightarrow> 't \<Rightarrow> 'm \<Rightarrow> 'w \<Rightarrow> astl_status \<times> 'w) \<Rightarrow> registered_config option
    \<Rightarrow> ('t \<times> 'm) list \<Rightarrow> ('t, 'm, 's) metric_manager \<times> 'w \<Rightarrow> astl_status \<times> ('t, 'm, 's) metric_manager \<times> 'w" where
  "RegisterMetric create config targets mw =
    (case (config, mw) of
       (None, _) \<Rightarrow> (ASTL_STATUS_BAD_ARGUMENT, mw)
     | (Some cfg, mm, w) \<Rightarrow>
        if ValidateEventMetricConfig cfg \<noteq> ASTL_STATUS_SUCCESS then (ValidateEventMetricConfig cfg, mm, w)
        else if IsMetricIdRegistered mm (mc_id (gc_config cfg)) then (ASTL_STATUS_BAD_CONFIGURATION, mm, w)
        else if \<not> IsCollectorTypeSupported mm (gc_collector cfg) then (ASTL_STATUS_UNSUPPORTED_COLLECTOR_TYPE, mm, w)
        else case create_instances (create cfg) targets [] w of
            (Inl e, w') \<Rightarrow> (e, mm, w)
          | (Inr instances, w') \<Rightarrow>
             (let h = mm_next mm;
                  is_lifecycle = (case gc_event cfg of None \<Rightarrow> False | Some e \<Rightarrow> ec_lifecycle e);
                  mm1 = mm\<lparr>mm_metric_handles := mm_metric_handles mm @ [\<lparr>mh_id = h, mh_config = cfg, mh_metrics = instances\<rparr>],
                    mm_target_metrics := push_target h (map fst targets) (mm_target_metrics mm),
                    mm_lifecycle := (if is_lifecycle then mm_lifecycle mm ++ map_of instances else mm_lifecycle mm),
                    mm_next := Suc h\<rparr>;
                  (status, mm2) = AddMetricToGroups h (gc_groups cfg) (map fst targets) mm1 in
              (status, mm2, w')))"

definition RemoveAllMetrics :: "('t, 'm, 's) metric_manager \<Rightarrow> ('t, 'm, 's) metric_manager" where
  "RemoveAllMetrics mm =
    mm\<lparr>mm_metric_handles := [], mm_groups := [], mm_group_handles := [], mm_target_metrics := (\<lambda>t. []),
       mm_target_groups := (\<lambda>t. []), mm_routes := Map.empty, mm_replay_routes := Map.empty,
       mm_correlations := Map.empty, mm_latest := Map.empty, mm_lifecycle := Map.empty\<rparr>"

section \<open>Routes\<close>

definition add_route :: "'t \<Rightarrow> 16 word \<Rightarrow> 'm \<Rightarrow> ('t \<rightharpoonup> 'm routes) \<Rightarrow> ('t \<rightharpoonup> 'm routes)" where
  "add_route t i m routes =
    routes(t \<mapsto> AList.update i m (case routes t of None \<Rightarrow> [] | Some r \<Rightarrow> r))"

definition add_routes :: "'t \<Rightarrow> 'm \<Rightarrow> 16 word list \<Rightarrow> ('t, 'm, 's) metric_manager \<Rightarrow> ('t, 'm, 's) metric_manager" where
  "add_routes t m ids mm =
    mm\<lparr>mm_routes := fold (\<lambda>i. add_route t i m) ids (mm_routes mm),
       mm_replay_routes := fold (\<lambda>i. add_route t i m) ids (mm_replay_routes mm)\<rparr>"

text \<open>
  The loop that GetRequiredOperations and GetCounterRequiredOperations share, over their handles and
  with their own errors.  The routes of the handles before a failing one stay.
\<close>

fun require_operations :: "('m, 'w) imetric \<Rightarrow> astl_status \<Rightarrow> astl_status \<Rightarrow> ('t, 'm) metric_handle list \<Rightarrow> 't \<Rightarrow> nat list
    \<Rightarrow> CollectorType option \<Rightarrow> 16 word list \<Rightarrow> ('t, 'm, 's) metric_manager \<times> 'w
    \<Rightarrow> (CollectorType option \<times> 16 word list) result \<times> ('t, 'm, 's) metric_manager \<times> 'w" where
  "require_operations im unknown unsupported handles t [] collector ids mw = (Inr (collector, ids), mw)"
| "require_operations im unknown unsupported handles t (h # hs) collector ids (mm, w) =
    (case find_handle h handles of
       None \<Rightarrow> (Inl unknown, mm, w)
     | Some x \<Rightarrow>
        (let c = gc_collector (mh_config x) in
         if collector \<noteq> None \<and> collector \<noteq> Some c then (Inl ASTL_STATUS_UNSUPPORTED_COLLECTOR_TYPE, mm, w)
         else if \<not> IsCollectorTypeSupported mm c then (Inl ASTL_STATUS_UNSUPPORTED_COLLECTOR_TYPE, mm, w)
         else case map_of (mh_metrics x) t of
             None \<Rightarrow> (Inl unsupported, mm, w)
           | Some m \<Rightarrow>
              (case im_operations im m w of
                 (Inl e, w') \<Rightarrow> (Inl e, mm, w')
               | (Inr new, w') \<Rightarrow>
                   require_operations im unknown unsupported handles t hs (Some c) (ids @ new) (add_routes t m new mm, w'))))"

definition GetRequiredOperations :: "('m, 'w) imetric \<Rightarrow> nat list \<Rightarrow> 't option \<Rightarrow> ('t, 'm, 's) metric_manager \<times> 'w
    \<Rightarrow> (CollectorType option \<times> 16 word list) result \<times> ('t, 'm, 's) metric_manager \<times> 'w" where
  "GetRequiredOperations im metrics target mw =
    (case target of
       None \<Rightarrow> (Inl ASTL_STATUS_BAD_ARGUMENT, mw)
     | Some t \<Rightarrow>
        if metrics = [] then (Inl ASTL_STATUS_BAD_ARGUMENT, mw)
        else require_operations im ASTL_STATUS_INVALID_METRIC_HANDLE ASTL_STATUS_METRIC_NOT_SUPPORTED_ON_TARGET
          (mm_metric_handles (fst mw)) t metrics None [] mw)"

definition GetCounterRequiredOperations :: "('m, 'w) imetric \<Rightarrow> nat list \<Rightarrow> 't option \<Rightarrow> ('t, 'm, 's) metric_manager \<times> 'w
    \<Rightarrow> (CollectorType option \<times> 16 word list) result \<times> ('t, 'm, 's) metric_manager \<times> 'w" where
  "GetCounterRequiredOperations im counters target mw =
    (case target of
       None \<Rightarrow> (Inl ASTL_STATUS_BAD_ARGUMENT, mw)
     | Some t \<Rightarrow>
        if counters = [] then (Inl ASTL_STATUS_BAD_ARGUMENT, mw)
        else require_operations im ASTL_STATUS_BAD_ARGUMENT ASTL_STATUS_COUNTER_NOT_SUPPORTED_ON_TARGET
          (mm_counter_handles (fst mw)) t counters None [] mw)"

definition SetClockCorrelations :: "clock_correlation_map \<Rightarrow> ('t, 'm, 's) metric_manager \<Rightarrow> ('t, 'm, 's) metric_manager" where
  "SetClockCorrelations correlations mm = mm\<lparr>mm_correlations := mm_correlations mm ++ correlations\<rparr>"

definition GetClockCorrelations :: "('t, 'm, 's) metric_manager \<Rightarrow> clock_correlation_map" where
  "GetClockCorrelations mm = mm_correlations mm"

section \<open>Clearing and resetting\<close>

definition reset_on :: "('m, 'w) imetric \<Rightarrow> 't \<Rightarrow> ('t, 'm) metric_handle \<Rightarrow> ('m \<rightharpoonup> int) \<times> 'w \<Rightarrow> ('m \<rightharpoonup> int) \<times> 'w" where
  "reset_on im t handle lw =
    (case map_of (mh_metrics handle) t of
       None \<Rightarrow> lw
     | Some m \<Rightarrow> ((fst lw)(m := None), im_reset im m (snd lw)))"

definition reset_target :: "('m, 'w) imetric \<Rightarrow> 't \<Rightarrow> ('t, 'm, 's) metric_manager \<times> 'w \<Rightarrow> ('t, 'm, 's) metric_manager \<times> 'w" where
  "reset_target im t mw =
    (let (latest, w) = fold (reset_on im t) (mm_counter_handles (fst mw) @ mm_metric_handles (fst mw))
           (mm_latest (fst mw), snd mw) in
     ((fst mw)\<lparr>mm_latest := latest\<rparr>, w))"

definition ClearStaleOperationStateForTarget :: "('m, 'w) imetric \<Rightarrow> 't option \<Rightarrow> 16 word list
    \<Rightarrow> ('t, 'm, 's) metric_manager \<times> 'w \<Rightarrow> astl_status \<times> ('t, 'm, 's) metric_manager \<times> 'w" where
  "ClearStaleOperationStateForTarget im target active mw =
    (case target of
       None \<Rightarrow> (ASTL_STATUS_BAD_ARGUMENT, mw)
     | Some t \<Rightarrow>
        (let mm = fst mw;
             routes = (case mm_routes mm t of None \<Rightarrow> [] | Some r \<Rightarrow> r);
             kept = filter (\<lambda>(i, m). i \<in> set active) routes;
             removed = map fst (filter (\<lambda>(i, m). i \<notin> set active) routes);
             entry = (if kept = [] then None else Some kept);
             mm1 = mm\<lparr>mm_routes := (mm_routes mm)(t := entry), mm_replay_routes := (mm_replay_routes mm)(t := entry),
                      mm_correlations := mm_correlations mm |` (- set removed)\<rparr> in
         (ASTL_STATUS_SUCCESS, reset_target im t (mm1, snd mw))))"

definition ClearCollectionOperationState :: "('m, 'w) imetric \<Rightarrow> ('t, 'm, 's) metric_manager \<times> 'w
    \<Rightarrow> ('t, 'm, 's) metric_manager \<times> 'w" where
  "ClearCollectionOperationState im mw =
    (let mm = fst mw in
     (mm\<lparr>mm_routes := Map.empty, mm_correlations := Map.empty, mm_latest := Map.empty\<rparr>,
      fold (\<lambda>handle. fold (\<lambda>(t, m). im_reset im m) (mh_metrics handle)) (mm_counter_handles mm @ mm_metric_handles mm) (snd mw)))"

definition ResetMetricsOnTarget :: "('m, 'w) imetric \<Rightarrow> 't option \<Rightarrow> ('t, 'm, 's) metric_manager \<times> 'w
    \<Rightarrow> astl_status \<times> ('t, 'm, 's) metric_manager \<times> 'w" where
  "ResetMetricsOnTarget im target mw =
    (case target of
       None \<Rightarrow> (ASTL_STATUS_BAD_ARGUMENT, mw)
     | Some t \<Rightarrow> (ASTL_STATUS_SUCCESS, reset_target im t mw))"

definition registered_on :: "'t \<Rightarrow> 'm \<Rightarrow> ('t, 'm) metric_handle list \<Rightarrow> bool" where
  "registered_on t m handles \<longleftrightarrow> list_ex (\<lambda>h. map_of (mh_metrics h) t = Some m) handles"

definition ResetMetricOnTarget :: "('m, 'w) imetric \<Rightarrow> 't option \<Rightarrow> 'm option \<Rightarrow> ('t, 'm, 's) metric_manager \<times> 'w
    \<Rightarrow> astl_status \<times> ('t, 'm, 's) metric_manager \<times> 'w" where
  "ResetMetricOnTarget im target metric mw =
    (case (target, metric, mw) of
       (Some t, Some m, mm, w) \<Rightarrow>
         if \<not> registered_on t m (mm_metric_handles mm) \<and> \<not> registered_on t m (mm_counter_handles mm)
            \<and> mm_lifecycle mm t \<noteq> Some m
         then (ASTL_STATUS_METRIC_NOT_SUPPORTED_ON_TARGET, mm, w)
         else (ASTL_STATUS_SUCCESS, mm\<lparr>mm_latest := (mm_latest mm)(m := None)\<rparr>, im_reset im m w)
     | _ \<Rightarrow> (ASTL_STATUS_BAD_ARGUMENT, mw))"

fun summarize_all :: "('m, 'w) imetric \<Rightarrow> 'm list \<Rightarrow> 'w \<Rightarrow> astl_status \<times> 'w" where
  "summarize_all im [] w = (ASTL_STATUS_SUCCESS, w)"
| "summarize_all im (m # ms) w =
    (let (status, w') = im_summarize im m w in
     if status \<noteq> ASTL_STATUS_SUCCESS then (status, w') else summarize_all im ms w')"

definition SummarizeMetrics :: "('m, 'w) imetric \<Rightarrow> ('t, 'm, 's) metric_manager \<Rightarrow> 'w \<Rightarrow> astl_status \<times> 'w" where
  "SummarizeMetrics im mm w = summarize_all im (map snd (concat (map mh_metrics (mm_metric_handles mm)))) w"

section \<open>Processing raw samples\<close>

text \<open>The samples of every target, in the map's iteration order, up to the first failing target.\<close>

fun enqueue_targets :: "('t \<rightharpoonup> 'm routes) \<Rightarrow> ('t \<rightharpoonup> 'm) \<Rightarrow> clock_correlation_map \<Rightarrow> ('t option \<times> raw_sample list) list
    \<Rightarrow> 'm queue \<Rightarrow> (astl_status \<times> 'm queue) option" where
  "enqueue_targets routes lifecycle correlations [] queue = Some (ASTL_STATUS_SUCCESS, queue)"
| "enqueue_targets routes lifecycle correlations ((t, samples) # rest) queue =
    (case EnqueueTargetSamples routes lifecycle correlations t samples queue of
       None \<Rightarrow> None
     | Some (status, queue') \<Rightarrow>
        if status \<noteq> ASTL_STATUS_SUCCESS then Some (status, queue')
        else enqueue_targets routes lifecycle correlations rest queue')"

definition ProcessRawSamples :: "('m queue \<Rightarrow> 'm queue) \<Rightarrow> ('m, 'w) imetric \<Rightarrow> ('t option \<times> raw_sample list) list
    \<Rightarrow> ('t, 'm, 's) metric_manager \<times> 'w \<Rightarrow> (astl_status \<times> ('t, 'm, 's) metric_manager \<times> 'w) option" where
  "ProcessRawSamples sorter im raw mw =
    (case enqueue_targets (mm_routes (fst mw)) (mm_lifecycle (fst mw)) (mm_correlations (fst mw)) raw [] of
       None \<Rightarrow> None
     | Some (enqueue_status, queue) \<Rightarrow>
        (let (dispatch_status, latest, w) = DispatchProcessingQueue sorter im queue (mm_latest (fst mw)) (snd mw) in
         Some (if dispatch_status = ASTL_STATUS_SUCCESS then enqueue_status else dispatch_status,
           (fst mw)\<lparr>mm_latest := latest\<rparr>, w)))"

definition FindSoleMetricOnTarget :: "('t, 'm) metric_handle list \<Rightarrow> 't option \<Rightarrow> 'm option \<times> nat" where
  "FindSoleMetricOnTarget handles target =
    (case target of
       None \<Rightarrow> (None, 0)
     | Some t \<Rightarrow>
        foldl (\<lambda>(found, n) h. case map_of (mh_metrics h) t of None \<Rightarrow> (found, n) | Some m \<Rightarrow> (Some m, Suc n)) (None, 0) handles)"

text \<open>
  The input of a replay: the routes and the lifecycle metric of the one target it is for, and the
  samples to route.
\<close>

definition emplace_route :: "16 word \<Rightarrow> 'm \<Rightarrow> 'm routes \<Rightarrow> 'm routes" where
  "emplace_route i m routes = (if map_of routes i = None then routes @ [(i, m)] else routes)"

definition is_marker :: "raw_sample \<Rightarrow> bool" where
  "is_marker sample = IsPauseResumeMarkerOperationId (rs_operation_id sample)"

definition BuildTargetedReplayInput :: "('t \<rightharpoonup> 'm routes) \<Rightarrow> ('t \<rightharpoonup> 'm) \<Rightarrow> ('t, 'm) metric_handle list \<Rightarrow> 't option \<Rightarrow> 'm
    \<Rightarrow> raw_sample list \<Rightarrow> ('m routes \<times> 'm option \<times> raw_sample list) result" where
  "BuildTargetedReplayInput routes lifecycle handles target m samples =
    (let event = (case Option.bind target lifecycle of Some l \<Rightarrow> if l = m then Some l else None | None \<Rightarrow> None) in
     case Option.bind target routes of
       Some r \<Rightarrow>
         (let target_routes = filter (\<lambda>(i, m'). m' = m) r in
          Inr (emplace_route first_operation_id m target_routes, event,
            filter (\<lambda>s. is_marker s \<or> map_of target_routes (rs_operation_id s) \<noteq> None) samples))
     | None \<Rightarrow>
         if FindSoleMetricOnTarget handles target \<noteq> (Some m, 1) then Inl ASTL_STATUS_BAD_CONFIGURATION
         else Inr (emplace_route first_operation_id m
             (fold (\<lambda>s r. if is_marker s then r else emplace_route (rs_operation_id s) m r) samples []), event, samples))"

definition replay_routes_for :: "('t, 'm, 's) metric_manager \<Rightarrow> 't option \<Rightarrow> 't \<rightharpoonup> 'm routes" where
  "replay_routes_for mm target =
    (if Option.bind target (mm_routes mm) \<noteq> None then mm_routes mm else mm_replay_routes mm)"

fun enqueue_replay :: "('t, 'm, 's) metric_manager \<Rightarrow> 'm \<Rightarrow> ('t option \<times> raw_sample list) list \<Rightarrow> 'm queue
    \<Rightarrow> (astl_status \<times> 'm queue) option" where
  "enqueue_replay mm m [] queue = Some (ASTL_STATUS_SUCCESS, queue)"
| "enqueue_replay mm m ((target, samples) # rest) queue =
    (case BuildTargetedReplayInput (replay_routes_for mm target) (mm_lifecycle mm) (mm_metric_handles mm) target m samples of
       Inl e \<Rightarrow> Some (e, queue)
     | Inr (target_routes, event, samples') \<Rightarrow>
        (case EnqueueTargetSamples (\<lambda>t. Some target_routes) (\<lambda>t. event) (mm_correlations mm) target samples' queue of
           None \<Rightarrow> None
         | Some (status, queue') \<Rightarrow>
            if status \<noteq> ASTL_STATUS_SUCCESS then Some (status, queue') else enqueue_replay mm m rest queue'))"

definition ProcessRawSamplesForMetric :: "('m queue \<Rightarrow> 'm queue) \<Rightarrow> ('m, 'w) imetric
    \<Rightarrow> ('t option \<times> raw_sample list) list \<Rightarrow> 'm option
    \<Rightarrow> ('t, 'm, 's) metric_manager \<times> 'w \<Rightarrow> (astl_status \<times> ('t, 'm, 's) metric_manager \<times> 'w) option" where
  "ProcessRawSamplesForMetric sorter im raw metric mw =
    (case metric of
       None \<Rightarrow> Some (ASTL_STATUS_BAD_ARGUMENT, mw)
     | Some m \<Rightarrow>
        (case enqueue_replay (fst mw) m raw [] of
           None \<Rightarrow> None
         | Some (status, queue) \<Rightarrow>
            if status \<noteq> ASTL_STATUS_SUCCESS then Some (status, mw)
            else let (status, latest, w) = DispatchProcessingQueue sorter im queue (mm_latest (fst mw)) (snd mw) in
              Some (status, (fst mw)\<lparr>mm_latest := latest\<rparr>, w)))"

definition InjectLifecycleEvent :: "('m, 'w) imetric \<Rightarrow> 't option \<Rightarrow> 64 word \<Rightarrow> int \<Rightarrow> ('t, 'm, 's) metric_manager \<Rightarrow> 'w
    \<Rightarrow> astl_status \<times> 'w" where
  "InjectLifecycleEvent im target v timestamp mm w =
    (case target of
       None \<Rightarrow> (ASTL_STATUS_BAD_ARGUMENT, w)
     | Some t \<Rightarrow>
        (case mm_lifecycle mm t of
           None \<Rightarrow> (ASTL_STATUS_SUCCESS, w)
         | Some m \<Rightarrow> im_receive im m
             \<lparr>ns_operation_id = first_operation_id, ns_value = VU64 v, ns_timestamp = timestamp\<rparr> w))"

section \<open>Every routed sample reaches its metric, in order\<close>

text \<open>What the raw samples hold for a metric, up to the first that cannot be routed, and their status.\<close>

fun target_inputs :: "('t, 'm, 's) metric_manager \<Rightarrow> 'm \<Rightarrow> ('t option \<times> raw_sample list) list \<Rightarrow> normalized_sample list" where
  "target_inputs mm m [] = []"
| "target_inputs mm m ((target, samples) # raw) =
    (case Option.bind target (\<lambda>t. map_option (Pair t) (mm_routes mm t)) of
       None \<Rightarrow> []
     | Some (t, r) \<Rightarrow>
        concat (map (inputs (mm_lifecycle mm t) r (mm_correlations mm) m) (takeWhile (routable r (mm_correlations mm)) samples))
          @ (if list_all (routable r (mm_correlations mm)) samples then target_inputs mm m raw else []))"

fun routing_status :: "('t, 'm, 's) metric_manager \<Rightarrow> ('t option \<times> raw_sample list) list \<Rightarrow> astl_status" where
  "routing_status mm [] = ASTL_STATUS_SUCCESS"
| "routing_status mm ((None, samples) # raw) = ASTL_STATUS_BAD_ARGUMENT"
| "routing_status mm ((Some t, samples) # raw) =
    (case mm_routes mm t of
       None \<Rightarrow> ASTL_STATUS_METRIC_RECEIVED_INVALID_SAMPLE
     | Some r \<Rightarrow> if list_all (routable r (mm_correlations mm)) samples then routing_status mm raw
                else ASTL_STATUS_METRIC_RECEIVED_INVALID_SAMPLE)"

lemma enqueue_targets_routed:
  assumes "\<forall>(t, samples)\<in>set raw. \<forall>sample\<in>set samples. well_typed_marker sample"
  shows "\<exists>queue'. enqueue_targets (mm_routes mm) (mm_lifecycle mm) (mm_correlations mm) raw queue
      = Some (routing_status mm raw, queue')
    \<and> (\<forall>m. samples_of m queue' = samples_of m queue @ target_inputs mm m raw)"
  using assms
proof (induction mm raw arbitrary: queue rule: routing_status.induct)
  case (3 mm t samples raw)
  show ?case
  proof (cases "mm_routes mm t")
    case None
    then show ?thesis by (simp add: EnqueueTargetSamples_def)
  next
    case (Some r)
    let ?routable = "routable r (mm_correlations mm)"
    obtain queue' where q: "enqueue_samples (mm_lifecycle mm t) r (mm_correlations mm) samples queue =
          Some (if list_all ?routable samples then ASTL_STATUS_SUCCESS
                else ASTL_STATUS_METRIC_RECEIVED_INVALID_SAMPLE, queue')"
        "\<forall>m. samples_of m queue' = samples_of m queue
          @ concat (map (inputs (mm_lifecycle mm t) r (mm_correlations mm) m) (takeWhile ?routable samples))"
      using enqueue_samples_routed [of samples "mm_lifecycle mm t" r "mm_correlations mm" queue] "3.prems" by auto
    then show ?thesis
      using "3.IH" [OF Some, of queue'] "3.prems" Some
      by (cases "list_all ?routable samples") (auto simp: EnqueueTargetSamples_def)
  qed
qed (auto simp: EnqueueTargetSamples_def)

lemma mset_samples_of: "mset q = mset r \<Longrightarrow> mset (samples_of m q) = mset (samples_of m r)"
  by (simp add: samples_of_def mset_filter flip: mset_map) (metis mset_filter mset_map)

lemma samples_of_timely:
  "samples_of m (timely latest queue) = filter (\<lambda>s. \<not> IsTimestampRegression latest m s) (samples_of m queue)"
  by (induction queue) (auto split: if_splits)

lemma process_raw_samples_calls:
  assumes "std_sort queue_less sorter" "\<forall>(t, samples)\<in>set raw. \<forall>sample\<in>set samples. well_typed_marker sample"
  shows "\<exists>status latest w' calls rest.
      ProcessRawSamples sorter im raw (mm, w)
        = Some (if status = ASTL_STATUS_SUCCESS then routing_status mm raw else status, mm\<lparr>mm_latest := latest\<rparr>, w')
    \<and> run_calls im calls w = (status, w')
    \<and> (\<forall>m. mset (samples_of m (calls @ rest))
          = mset (filter (\<lambda>s. \<not> IsTimestampRegression (mm_latest mm) m s) (target_inputs mm m raw))
        \<and> sorted (map ns_timestamp (samples_of m (calls @ rest))))
    \<and> (if status = ASTL_STATUS_SUCCESS then rest = []
       else calls \<noteq> [] \<and> (\<forall>x\<in>set rest. fst (List.last calls) \<le> fst x))
    \<and> (\<forall>m. latest m = (case samples_of m (if status = ASTL_STATUS_SUCCESS then calls else butlast calls) of
            [] \<Rightarrow> mm_latest mm m | ss \<Rightarrow> Some (ns_timestamp (List.last ss))))"
proof -
  obtain queue where q: "enqueue_targets (mm_routes mm) (mm_lifecycle mm) (mm_correlations mm) raw []
        = Some (routing_status mm raw, queue)"
      "\<forall>m. samples_of m queue = target_inputs mm m raw"
    using enqueue_targets_routed [OF assms(2), of mm "[]"] by auto
  obtain status latest w' where d: "DispatchProcessingQueue sorter im queue (mm_latest mm) w = (status, latest, w')"
    using prod_cases3 by blast
  obtain calls rest where c: "mset (calls @ rest) = mset (timely (mm_latest mm) queue)"
      "run_calls im calls w = (status, w')" "status = ASTL_STATUS_SUCCESS \<longrightarrow> rest = []"
      "\<forall>m. sorted (map ns_timestamp (samples_of m (calls @ rest)))"
      "\<forall>x\<in>set rest. calls \<noteq> [] \<and> fst (List.last calls) \<le> fst x"
      "\<forall>m. latest m = (case samples_of m (if status = ASTL_STATUS_SUCCESS then calls else butlast calls) of
            [] \<Rightarrow> mm_latest mm m | ss \<Rightarrow> Some (ns_timestamp (List.last ss)))"
    using dispatch_calls [OF assms(1) d] unfolding Let_def by blast
  have m: "mset (samples_of m (calls @ rest))
      = mset (filter (\<lambda>s. \<not> IsTimestampRegression (mm_latest mm) m s) (target_inputs mm m raw))" for m
    using mset_samples_of [OF c(1), of m] q(2) by (simp only: samples_of_timely)
  have ne: "calls \<noteq> []" if "status \<noteq> ASTL_STATUS_SUCCESS" using c(2) that by auto
  show ?thesis
  proof (intro exI conjI)
    show "ProcessRawSamples sorter im raw (mm, w)
        = Some (if status = ASTL_STATUS_SUCCESS then routing_status mm raw else status, mm\<lparr>mm_latest := latest\<rparr>, w')"
      using q(1) d by (simp add: ProcessRawSamples_def)
    show "run_calls im calls w = (status, w')" by (rule c(2))
    show "\<forall>m. mset (samples_of m (calls @ rest))
          = mset (filter (\<lambda>s. \<not> IsTimestampRegression (mm_latest mm) m s) (target_inputs mm m raw))
        \<and> sorted (map ns_timestamp (samples_of m (calls @ rest)))"
      using m c(4) by blast
    show "if status = ASTL_STATUS_SUCCESS then rest = []
       else calls \<noteq> [] \<and> (\<forall>x\<in>set rest. fst (List.last calls) \<le> fst x)"
      using c(3,5) ne by simp
  qed (rule c(6))
qed

text \<open>
  C3: whatever order std::sort leaves equal timestamps in, ProcessRawSamples calls every metric with
  exactly its samples of the batch, normalised, with the markers of a pause at their own time, in
  the order of the timestamps, and without the samples that lie before the last timestamp of an
  earlier batch.  A sample without route or correlation ends the routing with an error, and what was
  routed before it is still delivered.  The first metric that fails ends the delivery; the
  samples not handed out then are those of that metric and of metrics behind it in address order.
  The routes and registrations are left as they were.
\<close>

theorem process_raw_samples_delivers:
  assumes "std_sort queue_less sorter" "\<forall>(t, samples)\<in>set raw. \<forall>sample\<in>set samples. well_typed_marker sample"
  shows "\<exists>status latest w' calls rest.
      ProcessRawSamples sorter im raw (mm, w)
        = Some (if status = ASTL_STATUS_SUCCESS then routing_status mm raw else status, mm\<lparr>mm_latest := latest\<rparr>, w')
    \<and> run_calls im calls w = (status, w')
    \<and> (\<forall>m. mset (samples_of m (calls @ rest))
          = mset (filter (\<lambda>s. \<not> IsTimestampRegression (mm_latest mm) m s) (target_inputs mm m raw))
        \<and> sorted (map ns_timestamp (samples_of m (calls @ rest))))
    \<and> (if status = ASTL_STATUS_SUCCESS then rest = []
       else calls \<noteq> [] \<and> (\<forall>x\<in>set rest. fst (List.last calls) \<le> fst x))
    \<and> (\<forall>m. latest m = (case samples_of m (if status = ASTL_STATUS_SUCCESS then calls else butlast calls) of
            [] \<Rightarrow> mm_latest mm m | ss \<Rightarrow> Some (ns_timestamp (List.last ss))))"
  by (rule process_raw_samples_calls [OF assms])

definition silent_metrics :: "(nat, unit) imetric" where
  "silent_metrics = \<lparr>im_receive = (\<lambda>m s w. (ASTL_STATUS_SUCCESS, w)), im_pause = (\<lambda>m t w. (ASTL_STATUS_SUCCESS, w)),
     im_reset = (\<lambda>m w. w), im_summarize = (\<lambda>m w. (ASTL_STATUS_SUCCESS, w)), im_operations = (\<lambda>m w. (Inr [9], w))\<rparr>"

definition routed_manager :: "(nat, nat, nat) metric_manager" where
  "routed_manager = (MetricManager [] Map.empty)\<lparr>mm_routes := [0 \<mapsto> [(9, 5), (7, 3)]]\<rparr>"

theorem process_raw_samples_delivers_witness:
  "\<exists>status latest calls rest.
      ProcessRawSamples sort_queue silent_metrics [(Some 0, [PauseMarker 3])] (routed_manager, ())
        = Some (if status = ASTL_STATUS_SUCCESS then ASTL_STATUS_SUCCESS else status, routed_manager\<lparr>mm_latest := latest\<rparr>, ())
    \<and> mset (samples_of (5::nat) (calls @ rest)) = {#marker_of (PauseMarker 3)#}
    \<and> mset (samples_of 3 (calls @ rest)) = {#marker_of (PauseMarker 3)#}"
proof -
  have m: "is_marker (PauseMarker 3)" by (simp add: is_marker_def sample_simps)
  have w: "\<forall>(t, samples)\<in>set [(Some (0::nat), [PauseMarker 3])]. \<forall>sample\<in>set samples. well_typed_marker sample"
    by (simp add: well_typed_marker_def PauseMarker_def)
  have s: "routing_status routed_manager [(Some 0, [PauseMarker 3])] = ASTL_STATUS_SUCCESS"
    using m by (simp add: routed_manager_def MetricManager_def routable_def is_marker_def)
  have i: "target_inputs routed_manager k [(Some 0, [PauseMarker 3])] = [marker_of (PauseMarker 3)]" if "k \<in> {3, 5}" for k
    using m that by (auto simp: routed_manager_def MetricManager_def routable_def is_marker_def inputs_def PauseMarker_def)
  have l: "mm_latest routed_manager k = None" for k by (simp add: routed_manager_def MetricManager_def)
  obtain status latest calls rest w' where r:
      "ProcessRawSamples sort_queue silent_metrics [(Some 0, [PauseMarker 3])] (routed_manager, ())
        = Some (if status = ASTL_STATUS_SUCCESS then ASTL_STATUS_SUCCESS else status, routed_manager\<lparr>mm_latest := latest\<rparr>, w')"
      "\<forall>m. mset (samples_of m (calls @ rest)) = mset (filter (\<lambda>s. \<not> IsTimestampRegression (mm_latest routed_manager) m s)
         (target_inputs routed_manager m [(Some 0, [PauseMarker 3])]))"
    using process_raw_samples_delivers [OF std_sort_queue w, of silent_metrics routed_manager "()"] unfolding s
    by (elim exE conjE) (rule that, assumption, blast)
  have f: "filter (\<lambda>s. \<not> IsTimestampRegression (mm_latest routed_manager) k s)
      (target_inputs routed_manager k [(Some 0, [PauseMarker 3])]) = [marker_of (PauseMarker 3)]" if "k \<in> {3, 5}" for k
    unfolding i [OF that] by (simp add: IsTimestampRegression_def l)
  have five: "mset (samples_of 5 (calls @ rest)) = {#marker_of (PauseMarker 3)#}"
    using r(2) [rule_format, of 5] f [of 5] by (simp only: insert_iff simp_thms mset.simps)
  have three: "mset (samples_of 3 (calls @ rest)) = {#marker_of (PauseMarker 3)#}"
    using r(2) [rule_format, of 3] f [of 3] by (simp only: insert_iff simp_thms mset.simps)
  have "w' = ()" by simp
  then show ?thesis using r(1) five three by blast
qed

section \<open>Which metrics a call can reach\<close>

lemma dispatch_all_dom:
  "dispatch_all im queue latest w = (status, latest', w') \<Longrightarrow> dom latest' \<subseteq> dom latest \<union> fst ` set queue"
proof (induction im queue latest w rule: dispatch_all.induct)
  case (2 im m sample queue latest w)
  obtain st w1 where d: "DispatchNormalizedSample im m sample w = (st, w1)" by fastforce
  show ?case
    using 2 d
    by (cases "IsTimestampRegression latest m sample"; cases "st = ASTL_STATUS_SUCCESS")
      (force simp: RememberMetricTimestamp_def)+
qed simp

lemma samples_of_metrics: "fst ` set queue = {m. samples_of m queue \<noteq> []}"
  by (force simp: samples_of_def filter_empty_conv)

lemma map_of_range: "map_of r i = Some m \<Longrightarrow> m \<in> snd ` set r"
  by (force dest: map_of_SomeD)

lemma enqueue_normalized_metrics:
  assumes "EnqueueNormalizedSample routes correlations sample queue = (st, q)"
  shows "fst ` set q \<subseteq> fst ` set queue \<union> snd ` set routes"
proof (cases "map_of routes (rs_operation_id sample)")
  case (Some m)
  have "q = queue \<or> (\<exists>x. q = queue @ [(m, x)])"
    using assms Some by (auto simp: enqueue_normalized split: option.splits)
  then have "fst ` set q \<subseteq> insert m (fst ` set queue)" by auto
  then show ?thesis using map_of_range [OF Some] by blast
qed (use assms in \<open>simp add: enqueue_normalized\<close>)

lemma enqueue_metrics:
  "enqueue_samples event routes correlations samples queue = Some (status, queue') \<Longrightarrow>
    fst ` set queue' \<subseteq> fst ` set queue \<union> set_option event \<union> snd ` set routes"
proof (induction samples arbitrary: queue)
  case (Cons sample samples)
  have a: "fst ` set ((if v = 0 then EnqueuePauseMarkerSamples else EnqueueResumeMarkerSamples) event routes sample queue)
      \<subseteq> fst ` set queue \<union> set_option event \<union> snd ` set routes" for v :: "64 word"
    unfolding samples_of_metrics by (auto simp: pause_samples resume_samples split: if_splits)
  show ?case
  proof (cases "IsPauseResumeMarkerOperationId (rs_operation_id sample)")
    case True
    then obtain v where v: "rs_value sample = VU64 v" using Cons.prems by (auto split: astl_value.splits)
    show ?thesis using Cons.IH [of "(if v = 0 then EnqueuePauseMarkerSamples else EnqueueResumeMarkerSamples) event routes sample queue"]
      Cons.prems True v a [of v] by (simp only: enqueue_samples.simps if_True astl_value.case) blast
  next
    case False
    obtain st q where n: "EnqueueNormalizedSample routes correlations sample queue = (st, q)" by fastforce
    show ?thesis
      using Cons.IH [of q] Cons.prems False n enqueue_normalized_metrics [OF n]
      by (cases "st = ASTL_STATUS_SUCCESS") auto
  qed
qed auto

lemma emplace_route_metrics: "snd ` set (emplace_route i m r) \<subseteq> insert m (snd ` set r)"
  by (auto simp: emplace_route_def)

text \<open>A targeted replay routes samples to the requested metric only.\<close>

lemma BuildTargetedReplayInput_metrics:
  assumes "BuildTargetedReplayInput routes lifecycle handles target m samples = Inr (r, event, samples')"
  shows "snd ` set r \<subseteq> {m}" "set_option event \<subseteq> {m}"
proof -
  have "snd ` set (fold (\<lambda>s r. if is_marker s then r else emplace_route (rs_operation_id s) m r) ss r) \<subseteq> insert m (snd ` set r)" for ss r
  proof (induction ss arbitrary: r)
    case (Cons s ss)
    then show ?case using emplace_route_metrics [of "rs_operation_id s" m r] by (cases "is_marker s") (simp_all, blast)
  qed auto
  from this [of samples "[]"]
  have "\<exists>r'. r = emplace_route first_operation_id m r' \<and> snd ` set r' \<subseteq> {m}"
    using assms by (auto simp: BuildTargetedReplayInput_def Let_def split: option.splits if_splits)
  then show "snd ` set r \<subseteq> {m}" using emplace_route_metrics [of first_operation_id m] by blast
  show "set_option event \<subseteq> {m}"
    using assms by (auto simp: BuildTargetedReplayInput_def Let_def split: option.splits if_splits)
qed

lemma enqueue_replay_metrics:
  "enqueue_replay mm m raw queue = Some (status, queue') \<Longrightarrow> fst ` set queue' \<subseteq> insert m (fst ` set queue)"
proof (induction raw arbitrary: queue)
  case (Cons x raw)
  obtain target samples where x: "x = (target, samples)" by fastforce
  show ?case
  proof (cases "BuildTargetedReplayInput (replay_routes_for mm target) (mm_lifecycle mm) (mm_metric_handles mm) target m samples")
    case (Inl e)
    then show ?thesis using Cons.prems by (auto simp: x)
  next
    case (Inr i)
    obtain r event samples' where i: "i = (r, event, samples')" by (cases i)
    note b = BuildTargetedReplayInput_metrics [OF Inr [unfolded i]]
    obtain st q where e: "EnqueueTargetSamples (\<lambda>t. Some r) (\<lambda>t. event) (mm_correlations mm) target samples' queue = Some (st, q)"
      using Cons.prems Inr by (auto simp: x i split: option.splits)
    have q: "fst ` set q \<subseteq> insert m (fst ` set queue)"
    proof (cases target)
      case (Some t)
      then have "fst ` set q \<subseteq> fst ` set queue \<union> set_option event \<union> snd ` set r"
        using e by (intro enqueue_metrics) (simp add: EnqueueTargetSamples_def)
      then show ?thesis using b by blast
    qed (use e in \<open>auto simp: EnqueueTargetSamples_def\<close>)
    show ?thesis
    proof (cases "st = ASTL_STATUS_SUCCESS")
      case True
      then show ?thesis using Cons.IH [of q] Cons.prems Inr e q by (auto simp: x i)
    next
      case False
      then show ?thesis using Cons.prems Inr e q by (auto simp: x i)
    qed
  qed
qed auto

section \<open>The objects behind the interface\<close>

text \<open>
  Metrics are separate objects: a call on one depends on nothing but what can be seen of it, and
  leaves what can be seen of another alone.  view is what can be seen of a metric, ok a condition the
  calls keep, such as that no visit of the store is under way.
\<close>

lemma remember_other: "m' \<noteq> m \<Longrightarrow> RememberMetricTimestamp latest m t m' = latest m'"
  by (simp add: RememberMetricTimestamp_def)

text \<open>Two outcomes of a call that agree for the metric.\<close>

definition same_for :: "('m \<Rightarrow> 'w \<Rightarrow> 'v) \<Rightarrow> 'm \<Rightarrow> astl_status \<times> 'w \<Rightarrow> astl_status \<times> 'w \<Rightarrow> bool" where
  "same_for view m x y \<longleftrightarrow> fst x = fst y \<and> view m (snd x) = view m (snd y)"

locale metric_objects =
  fixes im :: "('m::linorder, 'w) imetric" and view :: "'m \<Rightarrow> 'w \<Rightarrow> 'v" and ok :: "'w \<Rightarrow> bool"
  assumes ok_calls: "ok w \<Longrightarrow> ok (snd (im_receive im m s w))" "ok w \<Longrightarrow> ok (snd (im_pause im m t w))" "ok w \<Longrightarrow> ok (im_reset im m w)"
    and frame_calls: "ok w \<Longrightarrow> m' \<noteq> m \<Longrightarrow> view m' (snd (im_receive im m s w)) = view m' w"
      "ok w \<Longrightarrow> m' \<noteq> m \<Longrightarrow> view m' (snd (im_pause im m t w)) = view m' w"
      "ok w \<Longrightarrow> m' \<noteq> m \<Longrightarrow> view m' (im_reset im m w) = view m' w"
    and local_calls: "ok w \<Longrightarrow> ok v \<Longrightarrow> view m w = view m v \<Longrightarrow> same_for view m (im_receive im m s w) (im_receive im m s v)"
      "ok w \<Longrightarrow> ok v \<Longrightarrow> view m w = view m v \<Longrightarrow> same_for view m (im_pause im m t w) (im_pause im m t v)"
begin

lemma dispatch_normalized_laws:
  "ok w \<Longrightarrow> ok (snd (DispatchNormalizedSample im m s w))"
  "ok w \<Longrightarrow> m' \<noteq> m \<Longrightarrow> view m' (snd (DispatchNormalizedSample im m s w)) = view m' w"
  "ok w \<Longrightarrow> ok v \<Longrightarrow> view m w = view m v \<Longrightarrow>
    same_for view m (DispatchNormalizedSample im m s w) (DispatchNormalizedSample im m s v)"
  by (simp_all add: DispatchNormalizedSample_def ok_calls frame_calls local_calls)

lemma dispatch_all_frame:
  "dispatch_all im queue latest w = (status, latest', w') \<Longrightarrow> ok w \<Longrightarrow> m' \<notin> fst ` set queue \<Longrightarrow>
    view m' w' = view m' w \<and> latest' m' = latest m'"
proof (induction queue arbitrary: latest w)
  case (Cons x queue)
  obtain m sample where x: "x = (m, sample)" by fastforce
  obtain st w1 where d: "DispatchNormalizedSample im m sample w = (st, w1)" by fastforce
  have v: "view m' w1 = view m' w" "ok w1"
    using dispatch_normalized_laws(1) [of w m sample] dispatch_normalized_laws(2) [of w m' m sample] Cons.prems(2,3) d
    by (auto simp: x)
  show ?case
    using Cons.IH [of latest w] Cons.IH [of "RememberMetricTimestamp latest m (ns_timestamp sample)" w1] Cons.prems d v
    by (auto simp: x remember_other split: if_splits)
qed simp

lemma dispatch_frame:
  assumes "DispatchProcessingQueue sorter im queue latest w = (status, latest', w')" "std_sort queue_less sorter"
    and "ok w" "m' \<notin> fst ` set queue"
  shows "view m' w' = view m' w \<and> latest' m' = latest m'"
proof (rule dispatch_all_frame)
  show "dispatch_all im (sorter queue) latest w = (status, latest', w')"
    using assms(1) by (simp add: DispatchProcessingQueue_def)
  have "set (sorter queue) = set queue" using assms(2) by (metis std_sort_def mset_eq_setD)
  then show "m' \<notin> fst ` set (sorter queue)" using assms(4) by simp
qed (rule assms(3))

lemma ResetMetricOnTarget_frame:
  assumes "ResetMetricOnTarget im target (Some m) (mm, w) = (status, mm', w')" "ok w" "m' \<noteq> m"
  shows "view m' w' = view m' w \<and> mm_latest mm' m' = mm_latest mm m'"
  using assms frame_calls(3) [OF assms(2,3)]
  by (auto simp: ResetMetricOnTarget_def split: option.splits if_splits)

text \<open>Of a run that succeeds, a metric sees its own calls only.\<close>

lemma run_calls_local:
  assumes "run_calls im calls w = (ASTL_STATUS_SUCCESS, w')" "ok w" "ok v" "view m w = view m v"
  shows "\<exists>v'. run_calls im (map (Pair m) (samples_of m calls)) v = (ASTL_STATUS_SUCCESS, v') \<and> view m w' = view m v'"
  using assms
proof (induction calls arbitrary: w v)
  case (Cons x calls)
  obtain m1 sample where x: "x = (m1, sample)" by fastforce
  obtain w1 where w1: "DispatchNormalizedSample im m1 sample w = (ASTL_STATUS_SUCCESS, w1)" "run_calls im calls w1 = (ASTL_STATUS_SUCCESS, w')"
    using Cons.prems(1) by (auto simp: x split: prod.splits if_splits)
  have ok1: "ok w1" using dispatch_normalized_laws(1) [OF Cons.prems(2), of m1 sample] w1(1) by simp
  show ?case
  proof (cases "m1 = m")
    case True
    obtain st v1 where v1: "DispatchNormalizedSample im m sample v = (st, v1)" by fastforce
    have "st = ASTL_STATUS_SUCCESS" "view m w1 = view m v1" "ok v1"
      using dispatch_normalized_laws(3) [OF Cons.prems(2-4), of sample] dispatch_normalized_laws(1) [OF Cons.prems(3), of m sample]
        w1(1) v1 True by (simp_all add: same_for_def)
    then show ?thesis using Cons.IH [OF w1(2) ok1, of v1] v1 True by (simp add: x)
  next
    case False
    then have "view m w1 = view m v"
      using dispatch_normalized_laws(2) [OF Cons.prems(2), of m m1 sample] w1(1) Cons.prems(4) by simp
    then show ?thesis using Cons.IH [OF w1(2) ok1 Cons.prems(3)] False by (simp add: x)
  qed
qed simp

end

section \<open>A targeted replay\<close>

lemma map_of_filter_value:
  "distinct (map fst r) \<Longrightarrow> map_of (filter (\<lambda>(i, m'). m' = m) r) i = (if map_of r i = Some m then Some m else None)"
proof (induction r)
  case (Cons x r)
  have "i \<notin> fst ` set r \<Longrightarrow> map_of (filter (\<lambda>(i, m'). m' = m) r) i = None"
    by (force simp: map_of_eq_None_iff)
  then show ?case using Cons by (cases x) (auto simp: map_of_eq_None_iff)
qed simp

lemma map_of_emplace: "map_of (emplace_route i m r) j = (if map_of r j = None \<and> j = i then Some m else map_of r j)"
  by (auto simp: emplace_route_def map_add_def split: option.split)

lemma emplaced: "m \<in> snd ` set r \<Longrightarrow> m \<in> snd ` set (emplace_route i m r)"
  by (auto simp: emplace_route_def)

text \<open>For a routed metric the replay's input holds the inputs the whole batch has for it, and can be routed.\<close>

lemma replay_inputs:
  assumes "mm_routes mm t = Some r" "distinct (map fst r)" "m \<in> snd ` set r"
    and "list_all (routable r correlations) samples"
    and "BuildTargetedReplayInput (replay_routes_for mm (Some t)) lifecycle handles (Some t) m samples = Inr (r', event, samples')"
  shows "list_all (routable r' correlations) samples'"
    and "concat (map (inputs event r' correlations m) samples') = concat (map (inputs (lifecycle t) r correlations m) samples)"
    and "set samples' \<subseteq> set samples"
proof -
  let ?r = "filter (\<lambda>(i, m'). m' = m) r"
  let ?keep = "\<lambda>s. is_marker s \<or> map_of ?r (rs_operation_id s) \<noteq> None"
  have eq: "r' = emplace_route first_operation_id m ?r" "event = (if lifecycle t = Some m then Some m else None)"
      "samples' = filter ?keep samples"
    using assms(1,5) by (auto simp: BuildTargetedReplayInput_def replay_routes_for_def Let_def split: option.splits if_splits)
  have m: "m \<in> snd ` set r'"
  proof -
    have "m \<in> snd ` set ?r" using assms(3) by force
    then show ?thesis unfolding eq(1) by (rule emplaced)
  qed
  have s: "(?keep s \<longrightarrow> routable r' correlations s \<and> inputs event r' correlations m s = inputs (lifecycle t) r correlations m s)
      \<and> (\<not> ?keep s \<longrightarrow> inputs (lifecycle t) r correlations m s = [])"
    if "routable r correlations s" for s
  proof (cases "is_marker s")
    case True
    then show ?thesis using m assms(3) by (simp add: is_marker_def routable_def inputs_def eq(2))
  next
    case False
    then show ?thesis
      using that by (auto simp: is_marker_def routable_def inputs_def eq(1) map_of_emplace map_of_filter_value [OF assms(2)])
  qed
  show "list_all (routable r' correlations) samples'" "set samples' \<subseteq> set samples"
    using s assms(4) by (auto simp: eq(3) list_all_iff)
  show "concat (map (inputs event r' correlations m) samples') = concat (map (inputs (lifecycle t) r correlations m) samples)"
    using assms(4) unfolding eq(3)
  proof (induction samples)
    case (Cons x samples)
    then show ?case using s [of x] by (cases "?keep x") auto
  qed simp
qed

lemma replay_delivers:
  assumes "mm_routes mm t = Some r" "distinct (map fst r)" "m \<in> snd ` set r"
    and "list_all (routable r (mm_correlations mm)) samples" "\<forall>sample\<in>set samples. well_typed_marker sample"
    and "std_sort queue_less sorter"
  shows "\<exists>queue status latest w' calls rest.
      fst ` set queue \<subseteq> {m}
    \<and> DispatchProcessingQueue sorter im queue (mm_latest mm) w = (status, latest, w')
    \<and> ProcessRawSamplesForMetric sorter im [(Some t, samples)] (Some m) (mm, w) = Some (status, mm\<lparr>mm_latest := latest\<rparr>, w')
    \<and> run_calls im calls w = (status, w') \<and> (status = ASTL_STATUS_SUCCESS \<longrightarrow> rest = [])
    \<and> mset (samples_of m (calls @ rest))
        = mset (filter (\<lambda>s. \<not> IsTimestampRegression (mm_latest mm) m s) (target_inputs mm m [(Some t, samples)]))
    \<and> sorted (map ns_timestamp (samples_of m (calls @ rest))) \<and> fst ` set calls \<subseteq> {m}
    \<and> (status = ASTL_STATUS_SUCCESS \<longrightarrow> latest m =
        (case samples_of m calls of [] \<Rightarrow> mm_latest mm m | ss \<Rightarrow> Some (ns_timestamp (List.last ss))))"
proof -
  obtain r' event samples' where b: "BuildTargetedReplayInput (replay_routes_for mm (Some t)) (mm_lifecycle mm)
      (mm_metric_handles mm) (Some t) m samples = Inr (r', event, samples')"
    using assms(1) by (auto simp: BuildTargetedReplayInput_def replay_routes_for_def Let_def)
  note i = replay_inputs [OF assms(1-4) b]
  obtain queue where q: "enqueue_samples event r' (mm_correlations mm) samples' [] = Some (ASTL_STATUS_SUCCESS, queue)"
      "samples_of m queue = concat (map (inputs event r' (mm_correlations mm) m) samples')"
  proof -
    have tw: "takeWhile (routable r' (mm_correlations mm)) samples' = samples'"
      using i(1) by (simp add: takeWhile_eq_all_conv list_all_iff)
    have "\<forall>sample\<in>set samples'. well_typed_marker sample" using i(3) assms(5) by blast
    from enqueue_samples_routed [OF this, of event r' "mm_correlations mm" "[]", unfolded tw]
    show thesis using that i(1) by auto
  qed
  have e: "enqueue_replay mm m [(Some t, samples)] [] = Some (ASTL_STATUS_SUCCESS, queue)"
    using b q(1) by (simp add: EnqueueTargetSamples_def)
  have only: "fst ` set queue \<subseteq> {m}" using enqueue_replay_metrics [OF e] by simp
  have inputs: "samples_of m queue = target_inputs mm m [(Some t, samples)]"
    using assms(1,4) q(2) i(2) by (simp add: list_all_iff takeWhile_eq_all_conv [THEN iffD2])
  obtain status latest w' where d: "DispatchProcessingQueue sorter im queue (mm_latest mm) w = (status, latest, w')"
    using prod_cases3 by blast
  obtain calls rest where c: "mset (calls @ rest) = mset (timely (mm_latest mm) queue)"
      "run_calls im calls w = (status, w')" "status = ASTL_STATUS_SUCCESS \<longrightarrow> rest = []"
      "\<forall>m. sorted (map ns_timestamp (samples_of m (calls @ rest)))"
      "\<forall>m. latest m = (case samples_of m (if status = ASTL_STATUS_SUCCESS then calls else butlast calls) of
            [] \<Rightarrow> mm_latest mm m | ss \<Rightarrow> Some (ns_timestamp (List.last ss)))"
    using dispatch_calls [OF assms(6) d] unfolding Let_def by blast
  have "fst ` set calls \<subseteq> {m}" using mset_eq_setD [OF c(1)] only by auto
  moreover have "status = ASTL_STATUS_SUCCESS \<Longrightarrow> latest m =
      (case samples_of m calls of [] \<Rightarrow> mm_latest mm m | ss \<Rightarrow> Some (ns_timestamp (List.last ss)))"
    using c(5) by simp
  moreover have "mset (samples_of m (calls @ rest))
        = mset (filter (\<lambda>s. \<not> IsTimestampRegression (mm_latest mm) m s) (target_inputs mm m [(Some t, samples)]))"
    using mset_samples_of [OF c(1), of m] by (simp only: samples_of_timely inputs)
  moreover have "ProcessRawSamplesForMetric sorter im [(Some t, samples)] (Some m) (mm, w)
      = Some (status, mm\<lparr>mm_latest := latest\<rparr>, w')"
    using e d by (simp add: ProcessRawSamplesForMetric_def del: enqueue_replay.simps)
  ultimately show ?thesis using only d c(2-4) by blast
qed

end
