(* ===== verification/Metric_Tables.thy ===== *)
theory Metric_Tables
  imports Metric_Manager
begin

text \<open>
  The tables of the metric manager: what they refer to, and that every reachable manager keeps them
  sound.  The calls are a step relation, the invariant is shown for each of its rules.
\<close>

section \<open>What the manager's tables refer to\<close>

definition instances_on :: "('t, 'm) metric_handle list \<Rightarrow> 't \<Rightarrow> 'm set" where
  "instances_on handles t = {m. \<exists>h\<in>set handles. map_of (mh_metrics h) t = Some m}"

definition owned_on :: "('t, 'm, 's) metric_manager \<Rightarrow> 't \<Rightarrow> 'm set" where
  "owned_on mm t = instances_on (mm_metric_handles mm) t \<union> instances_on (mm_counter_handles mm) t"

text \<open>Handles: never two alike, never two metrics of one id, and each listed exactly for its targets.\<close>

definition handles_wf :: "('t, 'm, 's) metric_manager \<Rightarrow> bool" where
  "handles_wf mm \<longleftrightarrow>
    distinct (map mh_id (mm_metric_handles mm)) \<and> (\<forall>h\<in>set (mm_metric_handles mm). mh_id h < mm_next mm)
    \<and> distinct (map (\<lambda>h. mc_id (gc_config (mh_config h))) (mm_metric_handles mm))
    \<and> (\<forall>t. set (mm_target_metrics mm t) = {mh_id h |h. h \<in> set (mm_metric_handles mm) \<and> map_of (mh_metrics h) t \<noteq> None})"

text \<open>
  Every pointer the manager keeps is to a metric that a handle of the same target owns, and the
  routes kept for a replay hold all live routes.
\<close>

definition routes_wf :: "('t \<Rightarrow> 'm set) \<Rightarrow> ('t \<rightharpoonup> 'm routes) \<Rightarrow> bool" where
  "routes_wf owned routes \<longleftrightarrow>
    (\<forall>t r. routes t = Some r \<longrightarrow> r \<noteq> [] \<and> distinct (map fst r) \<and> snd ` set r \<subseteq> owned t)"

definition route_of :: "('t \<rightharpoonup> 'm routes) \<Rightarrow> 't \<Rightarrow> 16 word \<Rightarrow> 'm option" where
  "route_of routes t i = Option.bind (routes t) (\<lambda>r. map_of r i)"

definition pointers_wf :: "('t, 'm, 's) metric_manager \<Rightarrow> bool" where
  "pointers_wf mm \<longleftrightarrow>
    routes_wf (owned_on mm) (mm_routes mm) \<and> routes_wf (owned_on mm) (mm_replay_routes mm)
    \<and> (\<forall>t. route_of (mm_routes mm) t \<subseteq>\<^sub>m route_of (mm_replay_routes mm) t)
    \<and> (\<forall>t m. mm_lifecycle mm t = Some m \<longrightarrow> m \<in> instances_on (mm_metric_handles mm) t)
    \<and> dom (mm_latest mm) \<subseteq> (\<Union>t. owned_on mm t)"

text \<open>Groups: one for each name, listed once for a target, and only of registered metrics.\<close>

definition groups_wf :: "('t, 'm, 's) metric_manager \<Rightarrow> bool" where
  "groups_wf mm \<longleftrightarrow>
    distinct (map mg_name (mm_groups mm)) \<and> distinct (map mg_id (mm_groups mm))
    \<and> mm_group_handles mm = map mg_id (mm_groups mm)
    \<and> (\<forall>g\<in>set (mm_groups mm). mg_id g < mm_next mm \<and> set (mg_metrics g) \<subseteq> mh_id ` set (mm_metric_handles mm))
    \<and> (\<forall>t. distinct (mm_target_groups mm t)) \<and> (\<forall>t. set (mm_target_groups mm t) \<subseteq> set (mm_group_handles mm))"

definition manager_wf :: "('t, 'm, 's) metric_manager \<Rightarrow> bool" where
  "manager_wf mm \<longleftrightarrow> handles_wf mm \<and> pointers_wf mm \<and> groups_wf mm"

lemma manager_wf_new: "manager_wf (MetricManager capabilities descriptions)"
  by (simp add: MetricManager_def manager_wf_def handles_wf_def pointers_wf_def routes_wf_def route_of_def groups_wf_def map_le_def)

lemma instances_on_append [simp]: "instances_on (hs @ ks) t = instances_on hs t \<union> instances_on ks t"
  by (auto simp: instances_on_def)

lemma instances_on_Nil [simp]: "instances_on [] t = {}"
  by (simp add: instances_on_def)

lemma manager_wf_RemoveAllMetrics: "manager_wf mm \<Longrightarrow> manager_wf (RemoveAllMetrics mm)"
  by (simp add: RemoveAllMetrics_def manager_wf_def handles_wf_def pointers_wf_def routes_wf_def route_of_def groups_wf_def map_le_def)

subsection \<open>Routes\<close>

lemma add_route_route:
  "route_of (add_route t i m routes) t' = (if t' = t then (route_of routes t)(i \<mapsto> m) else route_of routes t')"
  by (auto simp: route_of_def add_route_def update_conv split: option.split)

lemma snd_update: "snd ` set (AList.update i m r) \<subseteq> insert m (snd ` set r)"
  by (induction r) auto

lemma routes_wf_add_route:
  assumes "routes_wf owned routes" "m \<in> owned t"
  shows "routes_wf owned (add_route t i m routes)"
  unfolding routes_wf_def
proof (intro allI impI)
  fix t' r' assume r': "add_route t i m routes t' = Some r'"
  show "r' \<noteq> [] \<and> distinct (map fst r') \<and> snd ` set r' \<subseteq> owned t'"
  proof (cases "t' = t")
    case True
    define r where "r = (case routes t of None \<Rightarrow> [] | Some r \<Rightarrow> r)"
    have "distinct (map fst r) \<and> snd ` set r \<subseteq> owned t"
      using assms(1) by (auto simp: r_def routes_wf_def split: option.split)
    moreover have "r' = AList.update i m r" using r' True by (simp add: add_route_def r_def)
    ultimately show ?thesis
      using True assms(2) snd_update [of i m r] by (auto simp: distinct_update)
  next
    case False
    then show ?thesis using r' assms(1) by (simp add: add_route_def routes_wf_def)
  qed
qed

lemma routes_wf_mono: "routes_wf owned routes \<Longrightarrow> (\<And>t. owned t \<subseteq> owned' t) \<Longrightarrow> routes_wf owned' routes"
  by (fastforce simp: routes_wf_def)

lemma add_routes_fold:
  assumes "routes_wf owned a" "routes_wf owned b" "\<forall>t. route_of a t \<subseteq>\<^sub>m route_of b t" "m \<in> owned t"
  shows "routes_wf owned (fold (\<lambda>i. add_route t i m) ids a) \<and> routes_wf owned (fold (\<lambda>i. add_route t i m) ids b)
    \<and> (\<forall>t'. route_of (fold (\<lambda>i. add_route t i m) ids a) t' \<subseteq>\<^sub>m route_of (fold (\<lambda>i. add_route t i m) ids b) t')"
  using assms
proof (induction ids arbitrary: a b)
  case (Cons i ids)
  have "\<forall>t'. route_of (add_route t i m a) t' \<subseteq>\<^sub>m route_of (add_route t i m b) t'"
    using Cons.prems(3) by (simp add: add_route_route map_le_upd)
  then show ?case
    using Cons.IH [of "add_route t i m a" "add_route t i m b"] Cons.prems by (simp add: routes_wf_add_route)
qed simp

lemma add_routes_frame [simp]:
  "mm_metric_handles (add_routes t m ids mm) = mm_metric_handles mm"
  "mm_counter_handles (add_routes t m ids mm) = mm_counter_handles mm"
  "mm_target_metrics (add_routes t m ids mm) = mm_target_metrics mm"
  "mm_lifecycle (add_routes t m ids mm) = mm_lifecycle mm" "mm_latest (add_routes t m ids mm) = mm_latest mm"
  "mm_next (add_routes t m ids mm) = mm_next mm" "mm_groups (add_routes t m ids mm) = mm_groups mm"
  "mm_group_handles (add_routes t m ids mm) = mm_group_handles mm"
  "mm_target_groups (add_routes t m ids mm) = mm_target_groups mm"
  by (simp_all add: add_routes_def)

lemma manager_wf_add_routes:
  assumes "manager_wf mm" "m \<in> owned_on mm t"
  shows "manager_wf (add_routes t m ids mm)"
proof -
  have o: "owned_on (add_routes t m ids mm) = owned_on mm" by (simp add: owned_on_def fun_eq_iff)
  have "pointers_wf mm" using assms(1) by (simp add: manager_wf_def)
  then have "pointers_wf (add_routes t m ids mm)"
    using add_routes_fold [of "owned_on mm" "mm_routes mm" "mm_replay_routes mm" m t ids] assms(2)
    unfolding pointers_wf_def o by (simp add: add_routes_def)
  moreover have "handles_wf (add_routes t m ids mm) = handles_wf mm" "groups_wf (add_routes t m ids mm) = groups_wf mm"
    by (simp_all only: handles_wf_def groups_wf_def add_routes_frame)
  ultimately show ?thesis using assms(1) by (simp add: manager_wf_def)
qed

lemma find_handle_Some: "find_handle h handles = Some x \<Longrightarrow> x \<in> set handles \<and> mh_id x = h"
  by (auto simp: find_handle_def find_Some_iff)

lemma manager_wf_require_operations:
  assumes "manager_wf (fst mw)" "set handles \<subseteq> set (mm_metric_handles (fst mw) @ mm_counter_handles (fst mw))"
  shows "manager_wf (fst (snd (require_operations im unknown unsupported handles t hs collector ids mw)))"
  using assms
proof (induction im unknown unsupported handles t hs collector ids mw rule: require_operations.induct)
  case (2 im unknown unsupported handles t h hs collector ids mm w)
  show ?case
  proof (cases "find_handle h handles")
    case (Some x)
    show ?thesis
    proof (cases "map_of (mh_metrics x) t")
      case s: (Some m)
      have "x \<in> set (mm_metric_handles mm @ mm_counter_handles mm)"
        using find_handle_Some [OF Some] "2.prems"(2) by auto
      then have "m \<in> owned_on mm t" using s by (auto simp: owned_on_def instances_on_def)
      then have wf: "manager_wf (add_routes t m new mm)" for new
        using manager_wf_add_routes "2.prems"(1) by simp
      show ?thesis
        using "2.IH" Some s wf "2.prems" by (auto simp: Let_def split: sum.split prod.split)
    qed (use "2.prems" Some in \<open>simp add: Let_def\<close>)
  qed (use "2.prems" in simp)
qed simp

subsection \<open>Clearing and resetting\<close>

text \<open>A change of the tables that only forgets routes, correlations and timestamps keeps them sound.\<close>

lemma latest_frame [simp]:
  "owned_on (mm\<lparr>mm_latest := latest\<rparr>) = owned_on mm"
  "handles_wf (mm\<lparr>mm_latest := latest\<rparr>) = handles_wf mm" "groups_wf (mm\<lparr>mm_latest := latest\<rparr>) = groups_wf mm"
  by (simp_all add: owned_on_def handles_wf_def groups_wf_def fun_eq_iff)

lemma manager_wf_latest:
  "manager_wf mm \<Longrightarrow> dom latest \<subseteq> (\<Union>t. owned_on mm t) \<Longrightarrow> manager_wf (mm\<lparr>mm_latest := latest\<rparr>)"
  by (simp add: manager_wf_def pointers_wf_def)

lemma reset_fold_dom: "dom (fst (fold (reset_on im t) handles lw)) \<subseteq> dom (fst lw)"
proof (induction handles arbitrary: lw)
  case (Cons h handles)
  have "dom (fst (reset_on im t h lw)) \<subseteq> dom (fst lw)" by (auto simp: reset_on_def split: option.split)
  then show ?case using Cons.IH [of "reset_on im t h lw"] by simp
qed simp

lemma manager_wf_reset_target: "manager_wf (fst mw) \<Longrightarrow> manager_wf (fst (reset_target im t mw))"
proof -
  assume wf: "manager_wf (fst mw)"
  let ?latest = "fst (fold (reset_on im t) (mm_counter_handles (fst mw) @ mm_metric_handles (fst mw)) (mm_latest (fst mw), snd mw))"
  have "dom ?latest \<subseteq> dom (mm_latest (fst mw))" using reset_fold_dom by (metis fst_conv)
  also have "\<dots> \<subseteq> (\<Union>t. owned_on (fst mw) t)" using wf by (simp add: manager_wf_def pointers_wf_def)
  finally have "manager_wf ((fst mw)\<lparr>mm_latest := ?latest\<rparr>)" by (rule manager_wf_latest [OF wf])
  moreover have "fst (reset_target im t mw) = (fst mw)\<lparr>mm_latest := ?latest\<rparr>"
    unfolding reset_target_def Let_def case_prod_beta' fst_conv ..
  ultimately show ?thesis by simp
qed

lemma route_of_upd:
  "route_of (routes(t := entry)) t' = (if t' = t then (\<lambda>i. Option.bind entry (\<lambda>r. map_of r i)) else route_of routes t')"
  by (simp add: route_of_def fun_eq_iff)

definition stale_routes_cleared :: "'t \<Rightarrow> 'm routes option \<Rightarrow> clock_correlation_map \<Rightarrow> ('t, 'm, 's) metric_manager
    \<Rightarrow> ('t, 'm, 's) metric_manager" where
  "stale_routes_cleared t entry correlations mm =
    mm\<lparr>mm_routes := (mm_routes mm)(t := entry), mm_replay_routes := (mm_replay_routes mm)(t := entry),
       mm_correlations := correlations\<rparr>"

lemma manager_wf_stale:
  assumes "manager_wf mm" "\<And>r. entry = Some r \<Longrightarrow> r \<noteq> [] \<and> distinct (map fst r) \<and> snd ` set r \<subseteq> owned_on mm t"
  shows "manager_wf (stale_routes_cleared t entry correlations mm)"
proof -
  have o: "owned_on (stale_routes_cleared t entry correlations mm) = owned_on mm"
    by (simp add: owned_on_def stale_routes_cleared_def fun_eq_iff)
  have "pointers_wf mm" using assms(1) by (simp add: manager_wf_def)
  then have "pointers_wf (stale_routes_cleared t entry correlations mm)"
    using assms(2) unfolding pointers_wf_def o by (auto simp: stale_routes_cleared_def routes_wf_def route_of_upd)
  moreover have "handles_wf (stale_routes_cleared t entry correlations mm) = handles_wf mm"
      "groups_wf (stale_routes_cleared t entry correlations mm) = groups_wf mm"
    by (simp_all add: handles_wf_def groups_wf_def stale_routes_cleared_def)
  ultimately show ?thesis using assms(1) by (simp add: manager_wf_def)
qed

lemma manager_wf_ClearStale:
  assumes "manager_wf (fst mw)"
  shows "manager_wf (fst (snd (ClearStaleOperationStateForTarget im target active mw)))"
proof (cases target)
  case (Some t)
  define r where "r = (case mm_routes (fst mw) t of None \<Rightarrow> [] | Some r \<Rightarrow> r)"
  define kept where "kept = filter (\<lambda>(i, m). i \<in> set active) r"
  have "distinct (map fst r) \<and> snd ` set r \<subseteq> owned_on (fst mw) t"
    using assms by (auto simp: r_def manager_wf_def pointers_wf_def routes_wf_def split: option.split)
  then have "distinct (map fst kept) \<and> snd ` set kept \<subseteq> owned_on (fst mw) t"
    by (auto simp: kept_def distinct_map inj_on_def)
  then have "manager_wf (stale_routes_cleared t (if kept = [] then None else Some kept) correlations (fst mw))" for correlations
    by (intro manager_wf_stale [OF assms]) (auto split: if_splits)
  then show ?thesis
    unfolding ClearStaleOperationStateForTarget_def Some option.case Let_def snd_conv
      r_def [symmetric] kept_def [symmetric] stale_routes_cleared_def
    by (intro manager_wf_reset_target) simp
qed (use assms in \<open>simp add: ClearStaleOperationStateForTarget_def\<close>)

lemma manager_wf_ClearCollection:
  assumes "manager_wf (fst mw)"
  shows "manager_wf (fst (ClearCollectionOperationState im mw))"
proof -
  let ?mm = "(fst mw)\<lparr>mm_routes := Map.empty, mm_correlations := Map.empty, mm_latest := Map.empty\<rparr>"
  have o: "owned_on ?mm = owned_on (fst mw)" by (simp add: owned_on_def fun_eq_iff)
  have "pointers_wf ?mm"
    using assms unfolding manager_wf_def pointers_wf_def o
    by (simp add: routes_wf_def) (simp add: route_of_def map_le_def dom_def)
  moreover have "handles_wf ?mm = handles_wf (fst mw)" "groups_wf ?mm = groups_wf (fst mw)"
    by (simp_all add: handles_wf_def groups_wf_def)
  ultimately have "manager_wf ?mm" using assms by (simp add: manager_wf_def)
  then show ?thesis unfolding ClearCollectionOperationState_def Let_def fst_conv .
qed

lemma manager_wf_ResetMetric:
  assumes "manager_wf (fst mw)"
  shows "manager_wf (fst (snd (ResetMetricOnTarget im target metric mw)))"
proof -
  have "dom ((mm_latest (fst mw))(m := None)) \<subseteq> (\<Union>t. owned_on (fst mw) t)" for m
    using assms by (auto simp: manager_wf_def pointers_wf_def)
  then have "manager_wf ((fst mw)\<lparr>mm_latest := (mm_latest (fst mw))(m := None)\<rparr>)" for m
    by (rule manager_wf_latest [OF assms])
  then show ?thesis
    using assms by (cases mw) (auto simp: ResetMetricOnTarget_def split: option.split)
qed

subsection \<open>Processing\<close>

text \<open>The timestamps remembered after a dispatch are those of metrics that were in the queue.\<close>

lemma manager_wf_dispatch:
  assumes "manager_wf mm" "DispatchProcessingQueue sorter im queue (mm_latest mm) w = (status, latest, w')"
    and "std_sort queue_less sorter" "fst ` set queue \<subseteq> (\<Union>t. owned_on mm t)"
  shows "manager_wf (mm\<lparr>mm_latest := latest\<rparr>)"
proof (rule manager_wf_latest [OF assms(1)])
  have "set (sorter queue) = set queue"
    using assms(3) by (metis std_sort_def mset_eq_setD)
  then have "dom latest \<subseteq> dom (mm_latest mm) \<union> fst ` set queue"
    using dispatch_all_dom [OF assms(2) [unfolded DispatchProcessingQueue_def]] by simp
  also have "\<dots> \<subseteq> (\<Union>t. owned_on mm t)"
    using assms(1,4) by (intro Un_least) (simp_all add: manager_wf_def pointers_wf_def)
  finally show "dom latest \<subseteq> (\<Union>t. owned_on mm t)" .
qed

lemma lifecycle_owned: "manager_wf mm \<Longrightarrow> set_option (mm_lifecycle mm t) \<subseteq> owned_on mm t"
  by (auto simp: manager_wf_def pointers_wf_def owned_on_def)

lemma enqueue_targets_metrics:
  assumes "manager_wf mm"
    and "enqueue_targets (mm_routes mm) (mm_lifecycle mm) (mm_correlations mm) raw queue = Some (status, queue')"
  shows "fst ` set queue' \<subseteq> fst ` set queue \<union> (\<Union>t. owned_on mm t)"
  using assms(2)
proof (induction raw arbitrary: queue)
  case (Cons x raw)
  obtain target samples where x: "x = (target, samples)" by fastforce
  obtain st q where e: "EnqueueTargetSamples (mm_routes mm) (mm_lifecycle mm) (mm_correlations mm) target samples queue = Some (st, q)"
    using Cons.prems by (auto simp: x split: option.splits)
  have q: "fst ` set q \<subseteq> fst ` set queue \<union> (\<Union>t. owned_on mm t)"
  proof (cases "Option.bind target (\<lambda>t. map_option (Pair t) (mm_routes mm t))")
    case None
    then have "q = queue" using e by (cases target) (auto simp: EnqueueTargetSamples_def split: option.splits)
    then show ?thesis by blast
  next
    case (Some tr)
    then obtain t r where t: "target = Some t" "mm_routes mm t = Some r" by (cases target) auto
    have "fst ` set q \<subseteq> fst ` set queue \<union> set_option (mm_lifecycle mm t) \<union> snd ` set r"
      using e t by (intro enqueue_metrics) (simp add: EnqueueTargetSamples_def)
    moreover have "snd ` set r \<subseteq> owned_on mm t"
      using assms(1) t(2) by (simp add: manager_wf_def pointers_wf_def routes_wf_def)
    ultimately show ?thesis using lifecycle_owned [OF assms(1), of t] by blast
  qed
  show ?case
  proof (cases "st = ASTL_STATUS_SUCCESS")
    case True
    then show ?thesis using Cons.IH [of q] Cons.prems e q by (simp add: x) blast
  next
    case False
    then show ?thesis using Cons.prems e q by (simp add: x)
  qed
qed auto

lemma manager_wf_ProcessRawSamples:
  assumes "manager_wf (fst mw)" "std_sort queue_less sorter" "ProcessRawSamples sorter im raw mw = Some (st, mw')"
  shows "manager_wf (fst mw')"
proof -
  obtain st1 queue where q: "enqueue_targets (mm_routes (fst mw)) (mm_lifecycle (fst mw)) (mm_correlations (fst mw)) raw []
      = Some (st1, queue)"
    using assms(3) by (auto simp: ProcessRawSamples_def split: option.splits)
  obtain st2 latest w where d: "DispatchProcessingQueue sorter im queue (mm_latest (fst mw)) (snd mw) = (st2, latest, w)"
    using prod_cases3 by blast
  have "manager_wf ((fst mw)\<lparr>mm_latest := latest\<rparr>)"
    using enqueue_targets_metrics [OF assms(1) q] by (intro manager_wf_dispatch [OF assms(1) d assms(2)]) simp
  moreover have "mw' = ((fst mw)\<lparr>mm_latest := latest\<rparr>, w)" using assms(3) q d by (simp add: ProcessRawSamples_def)
  ultimately show ?thesis by simp
qed

lemma manager_wf_ProcessRawSamplesForMetric:
  assumes "manager_wf (fst mw)" "std_sort queue_less sorter" "m \<in> owned_on (fst mw) t"
    and "ProcessRawSamplesForMetric sorter im raw (Some m) mw = Some (st, mw')"
  shows "manager_wf (fst mw')"
proof -
  obtain st1 queue where q: "enqueue_replay (fst mw) m raw [] = Some (st1, queue)"
    using assms(4) by (auto simp: ProcessRawSamplesForMetric_def split: option.splits)
  obtain st2 latest w where d: "DispatchProcessingQueue sorter im queue (mm_latest (fst mw)) (snd mw) = (st2, latest, w)"
    using prod_cases3 by blast
  have "manager_wf ((fst mw)\<lparr>mm_latest := latest\<rparr>)"
    using enqueue_replay_metrics [OF q] assms(3) by (intro manager_wf_dispatch [OF assms(1) d assms(2)]) auto
  moreover have "mw' = ((fst mw)\<lparr>mm_latest := latest\<rparr>, w) \<or> mw' = mw"
    using assms(4) q d by (auto simp: ProcessRawSamplesForMetric_def split: if_splits)
  ultimately show ?thesis using assms(1) by auto
qed

subsection \<open>Registration\<close>

lemma create_instances_dom:
  "create_instances create targets owned w = (Inr instances, w') \<Longrightarrow>
    dom (map_of instances) = dom (map_of owned) \<union> fst ` set targets"
  by (induction create targets owned w rule: create_instances.induct)
    (auto simp: update_conv split: prod.splits if_splits)

lemma push_target_set: "set (push_target h targets f t) = set (f t) \<union> (if t \<in> set targets then {h} else {})"
  by (induction targets arbitrary: f) (auto simp: push_target_def)

lemma push_group_set:
  assumes "\<forall>t. distinct (f t)" "\<forall>t. set (f t) \<subseteq> gs" "g \<in> gs"
  shows "(\<forall>t. distinct (push_group g targets f t)) \<and> (\<forall>t. set (push_group g targets f t) \<subseteq> gs)"
  using assms
proof (induction g targets f rule: push_group.induct)
  case (2 g t targets f)
  let ?f = "if g \<in> set (f t) then f else f(t := f t @ [g])"
  have "\<forall>t'. distinct (?f t')" "\<forall>t'. set (?f t') \<subseteq> gs" using "2.prems" by auto
  from "2.IH" [OF this "2.prems"(3)] show ?case unfolding push_group.simps .
qed simp

lemma AddMetricGroupToTargets_frame [simp]:
  "handles_wf (AddMetricGroupToTargets g targets mm) = handles_wf mm"
  "pointers_wf (AddMetricGroupToTargets g targets mm) = pointers_wf mm"
  "mm_metric_handles (AddMetricGroupToTargets g targets mm) = mm_metric_handles mm"
  by (simp_all add: AddMetricGroupToTargets_def handles_wf_def pointers_wf_def owned_on_def [abs_def])

lemma groups_wf_AddMetricGroupToTargets:
  assumes "groups_wf mm" "g \<in> set (mm_group_handles mm)"
  shows "groups_wf (AddMetricGroupToTargets g targets mm)"
proof -
  have "\<forall>t. distinct (mm_target_groups mm t)" "\<forall>t. set (mm_target_groups mm t) \<subseteq> set (mm_group_handles mm)"
    using assms(1) unfolding groups_wf_def by blast+
  note push_group_set [OF this assms(2), of targets]
  then show ?thesis using assms(1) by (simp add: groups_wf_def AddMetricGroupToTargets_def)
qed

lemma groups_wf_replace:
  assumes "groups_wf mm" "map mg_name gs = map mg_name (mm_groups mm)" "map mg_id gs = map mg_id (mm_groups mm)"
    and "\<forall>g\<in>set gs. set (mg_metrics g) \<subseteq> mh_id ` set (mm_metric_handles mm)"
  shows "groups_wf (mm\<lparr>mm_groups := gs\<rparr>)"
proof -
  have "mg_id g < mm_next mm" if "g \<in> set gs" for g
  proof -
    have "mg_id g \<in> set (map mg_id (mm_groups mm))" using that unfolding assms(3) [symmetric] by simp
    then show ?thesis using assms(1) by (auto simp: groups_wf_def)
  qed
  moreover have "mm_group_handles mm = map mg_id gs" "\<forall>t. set (mm_target_groups mm t) \<subseteq> set (mm_group_handles mm)"
      "\<forall>t. distinct (mm_target_groups mm t)" "distinct (map mg_name gs)" "distinct (map mg_id gs)"
    using assms(1) unfolding groups_wf_def assms(2,3) by blast+
  ultimately show ?thesis using assms(4) by (simp add: groups_wf_def)
qed

lemma manager_wf_add_to_group:
  assumes "manager_wf mm" "h \<in> mh_id ` set (mm_metric_handles mm)" "add_to_group h name targets mm = Some mm'"
  shows "manager_wf mm' \<and> mm_metric_handles mm' = mm_metric_handles mm"
proof (cases "find (\<lambda>g. mg_name g = name) (mm_groups mm)")
  case None
  then obtain description where d: "mm_descriptions mm name = Some description"
    using assms(3) by (auto simp: add_to_group_def split: option.splits)
  let ?g = "\<lparr>mg_id = mm_next mm, mg_name = name, mg_description = description, mg_metrics = [h]\<rparr>"
  let ?mm = "mm\<lparr>mm_groups := mm_groups mm @ [?g], mm_group_handles := mm_group_handles mm @ [mm_next mm], mm_next := Suc (mm_next mm)\<rparr>"
  have fresh: "name \<notin> mg_name ` set (mm_groups mm)" using None by (auto simp: find_None_iff)
  have g: "groups_wf mm" using assms(1) by (simp add: manager_wf_def)
  then have "mm_next mm \<notin> mg_id ` set (mm_groups mm)" by (auto simp: groups_wf_def)
  then have "groups_wf ?mm"
    using g fresh assms(2) unfolding groups_wf_def by (auto simp: less_Suc_eq subset_iff)
  then have "groups_wf (AddMetricGroupToTargets (mm_next mm) targets ?mm)"
    by (rule groups_wf_AddMetricGroupToTargets) simp
  moreover have "handles_wf ?mm" "pointers_wf ?mm"
    using assms(1) by (auto simp: manager_wf_def handles_wf_def pointers_wf_def owned_on_def [abs_def] less_Suc_eq)
  moreover have "mm' = AddMetricGroupToTargets (mm_next mm) targets ?mm"
    using assms(3) None d by (simp add: add_to_group_def Let_def)
  ultimately show ?thesis by (simp add: manager_wf_def)
next
  case (Some grp)
  let ?f = "\<lambda>x. if mg_id x = mg_id grp then x\<lparr>mg_metrics := mg_metrics x @ [h]\<rparr> else x"
  let ?mm = "mm\<lparr>mm_groups := map ?f (mm_groups mm)\<rparr>"
  have grp: "grp \<in> set (mm_groups mm)" using Some by (auto simp: find_Some_iff)
  have same: "map mg_name (map ?f (mm_groups mm)) = map mg_name (mm_groups mm)"
      "map mg_id (map ?f (mm_groups mm)) = map mg_id (mm_groups mm)" by simp_all
  have g: "groups_wf mm" using assms(1) by (simp add: manager_wf_def)
  moreover have "\<forall>g\<in>set (map ?f (mm_groups mm)). set (mg_metrics g) \<subseteq> mh_id ` set (mm_metric_handles mm)"
    using g assms(2) by (fastforce simp: groups_wf_def)
  ultimately have "groups_wf ?mm" by (intro groups_wf_replace same)
  moreover have "mg_id grp \<in> set (mm_group_handles ?mm)" using g grp by (simp add: groups_wf_def)
  ultimately have "groups_wf (AddMetricGroupToTargets (mg_id grp) targets ?mm)"
    by (rule groups_wf_AddMetricGroupToTargets)
  moreover have "handles_wf ?mm" "pointers_wf ?mm"
    using assms(1) by (simp_all add: manager_wf_def handles_wf_def pointers_wf_def owned_on_def [abs_def])
  moreover have "mm' = AddMetricGroupToTargets (mg_id grp) targets ?mm"
    using assms(3) Some by (simp add: add_to_group_def)
  ultimately show ?thesis by (simp add: manager_wf_def)
qed

lemma manager_wf_AddMetricToGroups:
  "manager_wf mm \<Longrightarrow> h \<in> mh_id ` set (mm_metric_handles mm) \<Longrightarrow> manager_wf (snd (AddMetricToGroups h names targets mm))"
proof (induction names arbitrary: mm)
  case (Cons name names)
  show ?case
  proof (cases "add_to_group h name targets mm")
    case (Some mm')
    then show ?thesis using Cons.IH [of mm'] manager_wf_add_to_group [OF Cons.prems Some] Cons.prems by simp
  qed (use Cons.prems in simp)
qed simp

text \<open>The tables after a handle has joined, before its groups are set up.\<close>

definition metric_added :: "registered_config \<Rightarrow> ('t \<times> 'm) list \<Rightarrow> 't list \<Rightarrow> ('t \<rightharpoonup> 'm) \<Rightarrow> ('t, 'm, 's) metric_manager
    \<Rightarrow> ('t, 'm, 's) metric_manager" where
  "metric_added cfg instances targets lifecycle mm =
    mm\<lparr>mm_metric_handles := mm_metric_handles mm @ [\<lparr>mh_id = mm_next mm, mh_config = cfg, mh_metrics = instances\<rparr>],
       mm_target_metrics := push_target (mm_next mm) targets (mm_target_metrics mm),
       mm_lifecycle := lifecycle, mm_next := Suc (mm_next mm)\<rparr>"

lemma pointers_wf_mono:
  assumes "pointers_wf mm" "mm_routes mm' = mm_routes mm" "mm_replay_routes mm' = mm_replay_routes mm"
    and "mm_latest mm' = mm_latest mm" "\<And>t. owned_on mm t \<subseteq> owned_on mm' t"
    and "\<forall>t m. mm_lifecycle mm' t = Some m \<longrightarrow> m \<in> instances_on (mm_metric_handles mm') t"
  shows "pointers_wf mm'"
proof -
  have "routes_wf (owned_on mm') (mm_routes mm)" "routes_wf (owned_on mm') (mm_replay_routes mm)"
    using assms(1) routes_wf_mono [of "owned_on mm" _ "owned_on mm'"] assms(5) by (auto simp: pointers_wf_def)
  moreover have "dom (mm_latest mm) \<subseteq> (\<Union>t. owned_on mm' t)"
    using assms(1,5) unfolding pointers_wf_def by blast
  ultimately show ?thesis using assms(1-4,6) unfolding pointers_wf_def by simp
qed

lemma groups_wf_mono:
  assumes "groups_wf mm" "mm_groups mm' = mm_groups mm" "mm_group_handles mm' = mm_group_handles mm"
    and "mm_target_groups mm' = mm_target_groups mm" "mm_next mm \<le> mm_next mm'"
    and "mh_id ` set (mm_metric_handles mm) \<subseteq> mh_id ` set (mm_metric_handles mm')"
  shows "groups_wf mm'"
proof -
  have "mg_id g < mm_next mm' \<and> set (mg_metrics g) \<subseteq> mh_id ` set (mm_metric_handles mm')" if "g \<in> set (mm_groups mm)" for g
  proof
    have g: "mg_id g < mm_next mm" "set (mg_metrics g) \<subseteq> mh_id ` set (mm_metric_handles mm)"
      using assms(1) that by (simp_all add: groups_wf_def)
    show "mg_id g < mm_next mm'" using g(1) assms(5) by simp
    show "set (mg_metrics g) \<subseteq> mh_id ` set (mm_metric_handles mm')" using g(2) assms(6) by (rule subset_trans)
  qed
  then show ?thesis using assms(1) unfolding groups_wf_def assms(2-4) by (intro conjI ballI) (elim conjE, assumption | simp)+
qed

lemma joined_ids:
  "{mh_id h |h. h \<in> set (hs @ [x]) \<and> P h} = {mh_id h |h. h \<in> set hs \<and> P h} \<union> (if P x then {mh_id x} else {})"
  by auto

lemma metric_added_frame:
  "mm_metric_handles (metric_added cfg instances targets lifecycle mm)
    = mm_metric_handles mm @ [\<lparr>mh_id = mm_next mm, mh_config = cfg, mh_metrics = instances\<rparr>]"
  "mm_target_metrics (metric_added cfg instances targets lifecycle mm)
    = push_target (mm_next mm) targets (mm_target_metrics mm)"
  by (simp_all add: metric_added_def)

lemma manager_wf_metric_added:
  assumes "manager_wf mm" "\<not> IsMetricIdRegistered mm (mc_id (gc_config cfg))"
    and "dom (map_of instances) = set targets"
    and "lifecycle = mm_lifecycle mm \<or> lifecycle = mm_lifecycle mm ++ map_of instances"
  shows "manager_wf (metric_added cfg instances targets lifecycle mm)"
proof -
  let ?mm = "metric_added cfg instances targets lifecycle mm"
  have h: "handles_wf mm" and p: "pointers_wf mm" and g: "groups_wf mm" using assms(1) by (simp_all add: manager_wf_def)
  have "mm_next mm \<notin> mh_id ` set (mm_metric_handles mm)" using h by (auto simp: handles_wf_def)
  moreover have "mc_id (gc_config cfg) \<notin> (\<lambda>h. mc_id (gc_config (mh_config h))) ` set (mm_metric_handles mm)"
    using assms(2) by (auto simp: IsMetricIdRegistered_def list_ex_iff)
  moreover have "set (mm_target_metrics ?mm t) = {mh_id h |h. h \<in> set (mm_metric_handles ?mm) \<and> map_of (mh_metrics h) t \<noteq> None}" for t
  proof -
    have "map_of instances t \<noteq> None \<longleftrightarrow> t \<in> set targets" using assms(3) by (auto simp: dom_def)
    moreover have "set (mm_target_metrics mm t) = {mh_id h |h. h \<in> set (mm_metric_handles mm) \<and> map_of (mh_metrics h) t \<noteq> None}"
      using h unfolding handles_wf_def by blast
    ultimately show ?thesis unfolding metric_added_frame joined_ids push_target_set by simp
  qed
  ultimately have "handles_wf ?mm"
    using h unfolding handles_wf_def by (simp add: metric_added_def less_Suc_eq)
  moreover have "pointers_wf ?mm"
  proof (rule pointers_wf_mono [OF p])
    show "\<forall>t m. mm_lifecycle ?mm t = Some m \<longrightarrow> m \<in> instances_on (mm_metric_handles ?mm) t"
      using p assms(4) by (auto simp: pointers_wf_def metric_added_def instances_on_def)
  qed (auto simp: metric_added_def owned_on_def)
  moreover have "groups_wf ?mm"
    by (rule groups_wf_mono [OF g]) (simp_all add: metric_added_def image_Un subset_insertI)
  ultimately show ?thesis by (simp add: manager_wf_def)
qed

lemma RegisterMetric_cases:
  assumes "RegisterMetric create config targets (mm, w) = (status, mm', w')"
  obtains "mm' = mm" "w' = w"
  | cfg instances lifecycle where "config = Some cfg" "\<not> IsMetricIdRegistered mm (mc_id (gc_config cfg))"
      "create_instances (create cfg) targets [] w = (Inr instances, w')"
      "lifecycle = mm_lifecycle mm \<or> lifecycle = mm_lifecycle mm ++ map_of instances"
      "(status, mm') = AddMetricToGroups (mm_next mm) (gc_groups cfg) (map fst targets)
        (metric_added cfg instances (map fst targets) lifecycle mm)"
proof (cases config)
  case None
  then show ?thesis using assms that(1) by (simp add: RegisterMetric_def)
next
  case (Some cfg)
  show ?thesis
  proof (cases "ValidateEventMetricConfig cfg = ASTL_STATUS_SUCCESS \<and> \<not> IsMetricIdRegistered mm (mc_id (gc_config cfg))
      \<and> IsCollectorTypeSupported mm (gc_collector cfg)")
    case False
    then show ?thesis using assms that(1) Some by (auto simp: RegisterMetric_def split: if_splits)
  next
    case True
    obtain r w1 where c: "create_instances (create cfg) targets [] w = (r, w1)" by fastforce
    show ?thesis
    proof (cases r)
      case (Inl e)
      then show ?thesis using assms that(1) Some True c by (simp add: RegisterMetric_def)
    next
      case (Inr instances)
      define lifecycle where "lifecycle = (if (case gc_event cfg of None \<Rightarrow> False | Some e \<Rightarrow> ec_lifecycle e)
        then mm_lifecycle mm ++ map_of instances else mm_lifecycle mm)"
      have "RegisterMetric create config targets (mm, w) =
        (let (status, mm2) = AddMetricToGroups (mm_next mm) (gc_groups cfg) (map fst targets)
            (metric_added cfg instances (map fst targets) lifecycle mm) in (status, mm2, w1))"
        using Some True c Inr by (simp add: RegisterMetric_def metric_added_def lifecycle_def Let_def)
      then have "(status, mm') = AddMetricToGroups (mm_next mm) (gc_groups cfg) (map fst targets)
          (metric_added cfg instances (map fst targets) lifecycle mm)" "w' = w1"
        using assms by (auto split: prod.splits)
      then show ?thesis using that(2) [of cfg instances lifecycle] Some True c Inr by (auto simp: lifecycle_def)
    qed
  qed
qed

lemma manager_wf_RegisterMetric:
  assumes "manager_wf (fst mw)"
  shows "manager_wf (fst (snd (RegisterMetric create config targets mw)))"
proof -
  obtain mm w where mw: "mw = (mm, w)" by fastforce
  obtain status mm' w' where r: "RegisterMetric create config targets (mm, w) = (status, mm', w')" using prod_cases3 by blast
  from r have "manager_wf mm'"
  proof (cases rule: RegisterMetric_cases)
    case (2 cfg instances lifecycle)
    have "dom (map_of instances) = set (map fst targets)" using create_instances_dom [OF 2(3)] by simp
    then have "manager_wf (metric_added cfg instances (map fst targets) lifecycle mm)"
      using assms 2(2,4) by (intro manager_wf_metric_added) (simp_all add: mw)
    then have "manager_wf (snd (AddMetricToGroups (mm_next mm) (gc_groups cfg) (map fst targets)
        (metric_added cfg instances (map fst targets) lifecycle mm)))"
      by (rule manager_wf_AddMetricToGroups) (simp add: metric_added_def)
    then show ?thesis unfolding 2(5) [symmetric] by simp
  qed (use assms mw in simp)
  then show ?thesis by (simp add: mw r)
qed

lemma manager_wf_RegisterCounter:
  assumes "manager_wf (fst mw)"
  shows "manager_wf (fst (snd (RegisterCounter create config targets mw)))"
proof -
  obtain mm w where mw: "mw = (mm, w)" by fastforce
  have "manager_wf (mm\<lparr>mm_counter_handles := mm_counter_handles mm @ [h], mm_target_counters := tc, mm_next := Suc (mm_next mm)\<rparr>)"
    for h tc
  proof -
    let ?mm = "mm\<lparr>mm_counter_handles := mm_counter_handles mm @ [h], mm_target_counters := tc, mm_next := Suc (mm_next mm)\<rparr>"
    have "pointers_wf ?mm"
      by (rule pointers_wf_mono [of mm]) (use assms mw in \<open>auto simp: manager_wf_def pointers_wf_def owned_on_def\<close>)
    moreover have "handles_wf ?mm"
      using assms mw by (simp add: manager_wf_def handles_wf_def less_Suc_eq)
    moreover have "groups_wf ?mm"
      by (rule groups_wf_mono [of mm]) (use assms mw in \<open>simp_all add: manager_wf_def\<close>)
    ultimately show ?thesis by (simp add: manager_wf_def)
  qed
  then show ?thesis
    using assms by (auto simp: RegisterCounter_def mw Let_def split: option.split sum.split prod.split)
qed

subsection \<open>Every reachable manager\<close>

text \<open>
  The calls that change the manager or its metrics, in any order and with any result.  The metric of
  a targeted replay is one the caller got from a handle.
\<close>

inductive manager_step :: "('m::linorder queue \<Rightarrow> 'm queue) \<Rightarrow> ('m, 'w) imetric
    \<Rightarrow> (registered_config \<Rightarrow> 't \<Rightarrow> 'm \<Rightarrow> 'w \<Rightarrow> astl_status \<times> 'w) \<Rightarrow> ('t \<Rightarrow> 'm \<Rightarrow> 'w \<Rightarrow> astl_status \<times> 'w)
    \<Rightarrow> ('t, 'm, 's) metric_manager \<times> 'w \<Rightarrow> ('t, 'm, 's) metric_manager \<times> 'w \<Rightarrow> bool"
  for sorter im create create_counter where
  step_sink: "manager_step sorter im create create_counter (mm, w) (snd (RegisterProcessedSampleSink s mm), w)"
| step_unsink: "manager_step sorter im create create_counter (mm, w) (snd (UnregisterProcessedSampleSink s mm), w)"
| step_metric: "manager_step sorter im create create_counter mw (snd (RegisterMetric create config targets mw))"
| step_counter: "manager_step sorter im create create_counter mw (snd (RegisterCounter create_counter config targets mw))"
| step_require: "manager_step sorter im create create_counter mw (snd (GetRequiredOperations im metrics target mw))"
| step_counter_require:
    "manager_step sorter im create create_counter mw (snd (GetCounterRequiredOperations im counters target mw))"
| step_correlations: "manager_step sorter im create create_counter (mm, w) (SetClockCorrelations correlations mm, w)"
| step_stale:
    "manager_step sorter im create create_counter mw (snd (ClearStaleOperationStateForTarget im target active mw))"
| step_clear: "manager_step sorter im create create_counter mw (ClearCollectionOperationState im mw)"
| step_reset_target: "manager_step sorter im create create_counter mw (snd (ResetMetricsOnTarget im target mw))"
| step_reset: "manager_step sorter im create create_counter mw (snd (ResetMetricOnTarget im target metric mw))"
| step_process: "ProcessRawSamples sorter im raw mw = Some (st, mw') \<Longrightarrow>
    manager_step sorter im create create_counter mw mw'"
| step_replay: "m \<in> owned_on (fst mw) t \<Longrightarrow> ProcessRawSamplesForMetric sorter im raw (Some m) mw = Some (st, mw') \<Longrightarrow>
    manager_step sorter im create create_counter mw mw'"
| step_inject: "manager_step sorter im create create_counter (mm, w) (mm, snd (InjectLifecycleEvent im target v time mm w))"
| step_summarize: "manager_step sorter im create create_counter (mm, w) (mm, snd (SummarizeMetrics im mm w))"
| step_remove_all: "manager_step sorter im create create_counter (mm, w) (RemoveAllMetrics mm, w)"

text \<open>Sinks and correlations are not among what the tables refer to.\<close>

lemma manager_wf_frames:
  "manager_wf (mm\<lparr>mm_sinks := s\<rparr>) = manager_wf mm" "manager_wf (mm\<lparr>mm_correlations := c\<rparr>) = manager_wf mm"
  by (simp_all add: manager_wf_def handles_wf_def pointers_wf_def groups_wf_def owned_on_def [abs_def])

lemma manager_wf_step:
  assumes "manager_step sorter im create create_counter mw mw'" "std_sort queue_less sorter" "manager_wf (fst mw)"
  shows "manager_wf (fst mw')"
  using assms
proof cases
  case (step_sink mm w s)
  then show ?thesis using assms(3) by (auto simp: RegisterProcessedSampleSink_def manager_wf_frames split: option.split)
next
  case (step_unsink mm w s)
  then show ?thesis using assms(3) by (auto simp: UnregisterProcessedSampleSink_def manager_wf_frames split: option.split)
next
  case (step_metric config targets)
  then show ?thesis using manager_wf_RegisterMetric [OF assms(3)] by simp
next
  case (step_counter config targets)
  then show ?thesis using manager_wf_RegisterCounter [OF assms(3)] by simp
next
  case (step_require metrics target)
  have "manager_wf (fst (snd (require_operations im unknown unsupported (mm_metric_handles (fst mw)) t hs collector ids mw)))"
    for unknown unsupported t hs collector ids
    by (rule manager_wf_require_operations [OF assms(3)]) simp
  then show ?thesis using step_require assms(3) by (simp add: GetRequiredOperations_def split: option.split)
next
  case (step_counter_require counters target)
  have "manager_wf (fst (snd (require_operations im unknown unsupported (mm_counter_handles (fst mw)) t hs collector ids mw)))"
    for unknown unsupported t hs collector ids
    by (rule manager_wf_require_operations [OF assms(3)]) simp
  then show ?thesis using step_counter_require assms(3) by (simp add: GetCounterRequiredOperations_def split: option.split)
next
  case (step_correlations mm w correlations)
  then show ?thesis using assms(3) by (simp add: SetClockCorrelations_def manager_wf_frames)
next
  case (step_stale target active)
  then show ?thesis using manager_wf_ClearStale [OF assms(3)] by simp
next
  case step_clear
  then show ?thesis using manager_wf_ClearCollection [OF assms(3)] by simp
next
  case (step_reset_target target)
  then show ?thesis
    using assms(3) manager_wf_reset_target [OF assms(3)] by (simp add: ResetMetricsOnTarget_def split: option.split)
next
  case (step_reset target metric)
  then show ?thesis using manager_wf_ResetMetric [OF assms(3)] by simp
next
  case (step_process raw st)
  then show ?thesis using manager_wf_ProcessRawSamples [OF assms(3,2)] by simp
next
  case (step_replay m t raw st)
  then show ?thesis using manager_wf_ProcessRawSamplesForMetric [OF assms(3,2)] by simp
next
  case (step_remove_all mm w)
  then show ?thesis using assms(3) manager_wf_RemoveAllMetrics by simp
qed (use assms(3) in simp_all)

lemma manager_wf_reachable:
  assumes "(manager_step sorter im create create_counter)\<^sup>*\<^sup>* mw mw'" "std_sort queue_less sorter" "manager_wf (fst mw)"
  shows "manager_wf (fst mw')"
  using assms(1)
proof (induction rule: rtranclp_induct)
  case (step x y)
  then show ?case using manager_wf_step [OF _ assms(2)] by blast
qed (rule assms(3))

lemma find_handle_distinct:
  "distinct (map mh_id handles) \<Longrightarrow> x \<in> set handles \<Longrightarrow> find_handle (mh_id x) handles = Some x"
proof -
  assume d: "distinct (map mh_id handles)" and x: "x \<in> set handles"
  then obtain y where y: "find_handle (mh_id x) handles = Some y"
    by (cases "find_handle (mh_id x) handles") (auto simp: find_handle_def find_None_iff)
  then have "y = x" using find_handle_Some [OF y] d x by (auto simp: distinct_map inj_on_def)
  then show ?thesis using y by simp
qed

lemma available_metrics_resolve:
  assumes "handles_wf mm"
  shows "h \<in> set (mm_target_metrics mm t) \<longleftrightarrow> (\<exists>m. GetMetricOnTarget (Some h) t mm = Inr m)"
proof -
  have d: "distinct (map mh_id (mm_metric_handles mm))"
    and l: "set (mm_target_metrics mm t) = {mh_id h |h. h \<in> set (mm_metric_handles mm) \<and> map_of (mh_metrics h) t \<noteq> None}"
    using assms by (simp_all add: handles_wf_def)
  show ?thesis
  proof
    assume "h \<in> set (mm_target_metrics mm t)"
    then obtain x where "x \<in> set (mm_metric_handles mm)" "h = mh_id x" "map_of (mh_metrics x) t \<noteq> None" using l by auto
    then show "\<exists>m. GetMetricOnTarget (Some h) t mm = Inr m"
      using find_handle_distinct [OF d] by (auto simp: GetMetricOnTarget_def)
  next
    assume "\<exists>m. GetMetricOnTarget (Some h) t mm = Inr m"
    then obtain x where "find_handle h (mm_metric_handles mm) = Some x" "map_of (mh_metrics x) t \<noteq> None"
      by (auto simp: GetMetricOnTarget_def split: option.splits)
    then show "h \<in> set (mm_target_metrics mm t)" using find_handle_Some unfolding l by fastforce
  qed
qed

lemma available_groups_resolve:
  assumes "handles_wf mm" "groups_wf mm" "g \<in> set (mm_target_groups mm t)"
  shows "\<exists>hs. GetMetricsInGroup (Some g) mm = Inr hs \<and> (\<forall>h\<in>set hs. find_handle h (mm_metric_handles mm) \<noteq> None)"
proof -
  have g: "g \<in> set (mm_group_handles mm)" "g \<in> mg_id ` set (mm_groups mm)"
    using assms(2,3) unfolding groups_wf_def by (auto simp: subset_iff)
  then obtain x where x: "find (\<lambda>x. mg_id x = g) (mm_groups mm) = Some x"
    by (cases "find (\<lambda>x. mg_id x = g) (mm_groups mm)") (auto simp: find_None_iff)
  then have "x \<in> set (mm_groups mm)" by (auto simp: find_Some_iff)
  then have "set (mg_metrics x) \<subseteq> mh_id ` set (mm_metric_handles mm)" using assms(2) by (simp add: groups_wf_def)
  then have "\<forall>h\<in>set (mg_metrics x). find_handle h (mm_metric_handles mm) \<noteq> None"
    using find_handle_distinct assms(1) by (fastforce simp: handles_wf_def)
  then show ?thesis using g x by (simp add: GetMetricsInGroup_def)
qed

lemma route_owned:
  assumes "routes_wf owned routes" "route_of routes t i = Some m"
  shows "m \<in> owned t"
proof -
  obtain r where "routes t = Some r" "map_of r i = Some m"
    using assms(2) by (cases "routes t") (auto simp: route_of_def)
  then show ?thesis using assms(1) map_of_range [of r i m] unfolding routes_wf_def by blast
qed

text \<open>
  C11: after any sequence of calls, whatever the metrics and sinks answer, the manager's tables fit
  together and hold no dangling pointer: an operation id is routed only to a metric or counter that
  a registered handle owns for the same target, and the routes kept for a replay agree with the live
  ones; the lifecycle metric of a target and every metric with a remembered timestamp are owned too;
  a handle is listed for a target exactly when it resolves to a metric there, no two metrics share
  an id, and the groups of a target are known groups of registered metrics.
\<close>

theorem manager_tables_sound:
  assumes "std_sort queue_less sorter"
    and "(manager_step sorter im create create_counter)\<^sup>*\<^sup>* (MetricManager capabilities descriptions, w0) (mm, w)"
  shows "(\<forall>t i m. route_of (mm_routes mm) t i = Some m \<longrightarrow>
        m \<in> owned_on mm t \<and> route_of (mm_replay_routes mm) t i = Some m)
    \<and> (\<forall>t i m. route_of (mm_replay_routes mm) t i = Some m \<longrightarrow> m \<in> owned_on mm t)
    \<and> (\<forall>t m. GetLifecycleEventMetricOnTarget t mm = Some m \<longrightarrow> m \<in> owned_on mm t)
    \<and> (\<forall>m. mm_latest mm m \<noteq> None \<longrightarrow> (\<exists>t. m \<in> owned_on mm t))
    \<and> (\<forall>t h. h \<in> set (mm_target_metrics mm t) \<longleftrightarrow> (\<exists>m. GetMetricOnTarget (Some h) t mm = Inr m))
    \<and> distinct (map (\<lambda>h. mc_id (gc_config (mh_config h))) (mm_metric_handles mm))
    \<and> (\<forall>t g. g \<in> set (mm_target_groups mm t) \<longrightarrow>
        (\<exists>hs. GetMetricsInGroup (Some g) mm = Inr hs \<and> (\<forall>h\<in>set hs. find_handle h (mm_metric_handles mm) \<noteq> None)))"
proof -
  have wf: "handles_wf mm" "pointers_wf mm" "groups_wf mm"
    using manager_wf_reachable [OF assms(2,1)] manager_wf_new by (auto simp: manager_wf_def)
  show ?thesis
  proof (intro conjI allI impI)
    fix t i m assume r: "route_of (mm_routes mm) t i = Some m"
    show "m \<in> owned_on mm t" using route_owned [OF _ r] wf(2) by (simp add: pointers_wf_def)
    show "route_of (mm_replay_routes mm) t i = Some m"
      using wf(2) r unfolding pointers_wf_def by (metis domI map_le_def)
  next
    fix t i m assume r: "route_of (mm_replay_routes mm) t i = Some m"
    show "m \<in> owned_on mm t" using route_owned [OF _ r] wf(2) by (simp add: pointers_wf_def)
  next
    fix t m assume "GetLifecycleEventMetricOnTarget t mm = Some m"
    then show "m \<in> owned_on mm t"
      using wf(2) by (simp add: GetLifecycleEventMetricOnTarget_def pointers_wf_def owned_on_def)
  next
    fix m assume "mm_latest mm m \<noteq> None"
    then show "\<exists>t. m \<in> owned_on mm t" using wf(2) by (auto simp: pointers_wf_def dom_def)
  next
    fix t h show "(h \<in> set (mm_target_metrics mm t)) = (\<exists>m. GetMetricOnTarget (Some h) t mm = Inr m)"
      by (rule available_metrics_resolve [OF wf(1)])
  next
    show "distinct (map (\<lambda>h. mc_id (gc_config (mh_config h))) (mm_metric_handles mm))"
      using wf(1) by (simp add: handles_wf_def)
  next
    fix t g assume "g \<in> set (mm_target_groups mm t)"
    then show "\<exists>hs. GetMetricsInGroup (Some g) mm = Inr hs \<and> (\<forall>h\<in>set hs. find_handle h (mm_metric_handles mm) \<noteq> None)"
      by (rule available_groups_resolve [OF wf(1,3)])
  qed
qed

definition plain_registered :: registered_config where
  "plain_registered = \<lparr>gc_config = MetricConfig ''m'' ASTL_VALUE_UINT32 Identity ASTL_VALUE_UNKNOWN [],
     gc_collector = ASTL_NATIVE, gc_groups = [], gc_event = None\<rparr>"

theorem manager_tables_sound_witness:
  "\<exists>mm. (manager_step sort_queue silent_metrics (\<lambda>c t m w. (ASTL_STATUS_SUCCESS, w)) (\<lambda>t m w. (ASTL_STATUS_SUCCESS, w)))\<^sup>*\<^sup>*
      (MetricManager [] Map.empty :: (nat, nat, nat) metric_manager, ()) (mm, ())
    \<and> GetMetricOnTarget (Some 0) 0 mm = Inr 5 \<and> 0 \<in> set (mm_target_metrics mm 0)
    \<and> route_of (mm_routes mm) 0 9 = Some 5 \<and> 5 \<in> owned_on mm 0"
proof -
  let ?create = "\<lambda>(c :: registered_config) (t :: nat) (m :: nat) (w :: unit). (ASTL_STATUS_SUCCESS, w)"
  let ?counter = "\<lambda>(t :: nat) (m :: nat) (w :: unit). (ASTL_STATUS_SUCCESS, w)"
  let ?m0 = "MetricManager [] Map.empty :: (nat, nat, nat) metric_manager"
  let ?s1 = "snd (RegisterMetric ?create (Some plain_registered) [(0, 5)] (?m0, ()))"
  define s1 where "s1 = ?s1"
  let ?s2 = "snd (GetRequiredOperations silent_metrics [0] (Some 0) s1)"
  let ?R = "manager_step sort_queue silent_metrics ?create ?counter :: (nat, nat, nat) metric_manager \<times> unit \<Rightarrow> _"
  have a: "?R (?m0, ()) s1" unfolding s1_def by (rule manager_step.step_metric)
  have b: "?R s1 ?s2" by (rule manager_step.step_require)
  have r: "?R\<^sup>*\<^sup>* (?m0, ()) ?s2"
    by (rule converse_rtranclp_into_rtranclp [where r = ?R, OF a r_into_rtranclp [where r = ?R, OF b]])
  obtain mm u where "?s2 = (mm, u)" by (rule prod.exhaust [of ?s2])
  then have mm: "?s2 = (mm, ())" by (cases u) simp
  have g: "GetMetricOnTarget (Some 0) 0 mm = Inr 5" "route_of (mm_routes mm) 0 9 = Some 5"
    using mm by (auto simp: s1_def RegisterMetric_def plain_registered_def ValidateEventMetricConfig_def IsMetricIdRegistered_def
      IsCollectorTypeSupported_def MetricManager_def GetRequiredOperations_def find_handle_def silent_metrics_def add_routes_def
      add_route_def GetMetricOnTarget_def route_of_def)
  note sound = manager_tables_sound [OF std_sort_queue r [unfolded mm]]
  have "0 \<in> set (mm_target_metrics mm 0)" "5 \<in> owned_on mm 0" using sound g by blast+
  then show ?thesis using r [unfolded mm] g by blast
qed

end
