(* ===== verification/Metric_Objects.thy ===== *)
theory Metric_Objects
  imports Metric_Manager Residency Composite_Metric
begin

text \<open>
  The metrics behind the interface: src/impl/metric/counter.cpp, and the objects that
  CreateMetricFromConfig of metric_manager.cpp makes, on a heap from addresses to objects, with the
  orchestrator's store as the registered sink.  The heap is the interpretation of the locale
  metric_objects.
\<close>

section \<open>Counters\<close>

definition Counter_ReceiveRawSample :: "metric_config \<Rightarrow> 's sink option \<Rightarrow> normalized_sample \<Rightarrow> 's \<Rightarrow> astl_status \<times> 's" where
  "Counter_ReceiveRawSample cfg sink raw s =
    (if mc_input_value_type cfg \<noteq> ASTL_VALUE_UNKNOWN \<and> CheckSampleValueType cfg raw \<noteq> ASTL_STATUS_SUCCESS
     then (CheckSampleValueType cfg raw, s)
     else (ASTL_STATUS_SUCCESS,
       snd (SinkProcessedSample sink \<lparr>ps_value = ns_value raw, ps_timestamp = ns_timestamp raw\<rparr> s)))"

section \<open>The objects and their creation\<close>

datatype metric_object =
    SampledValueObject metric_config sampled_metric
  | DeltaObject metric_config delta_metric
  | RateObject metric_config rate_metric
  | FiniteSetObject metric_config "(astl_value \<times> string) list" finite_set_metric
  | EventObject event_metric
  | ResidencyObject residency_config residency_metric
  | CompositeObject composite_config composite_metric
  | CounterObject metric_config

datatype astl_metric_type =
  ASTL_METRIC_UNKNOWN | ASTL_METRIC_VALUE | ASTL_METRIC_FINITE_SET_VALUE | ASTL_METRIC_EVENT
  | ASTL_METRIC_DELTA | ASTL_METRIC_RESIDENCY | ASTL_METRIC_RATE

text \<open>The class of a configuration, which the code asks for by dynamic_cast, with its own members.\<close>

datatype config_class =
    PlainClass
  | ResidencyClass "state_info list" "string option"
  | FiniteSetClass "(astl_value \<times> string) list"
  | EventClass event_config
  | CompositeClass "string list" bool string

record typed_config =
  tc_config :: metric_config
  tc_type :: astl_metric_type
  tc_collector :: CollectorType
  tc_groups :: "string list"
  tc_class :: config_class

definition registered :: "typed_config \<Rightarrow> registered_config" where
  "registered cfg =
    \<lparr>gc_config = tc_config cfg, gc_collector = tc_collector cfg, gc_groups = tc_groups cfg,
     gc_event = (case tc_class cfg of EventClass e \<Rightarrow> Some e | _ \<Rightarrow> None)\<rparr>"

record environment =
  env_tinyexpr :: tinyexpr
  env_parser :: expression_parser

definition CreateResidencyMetricFromConfig :: "typed_config \<Rightarrow> metric_object result" where
  "CreateResidencyMetricFromConfig cfg =
    (case tc_class cfg of
       ResidencyClass states inferred \<Rightarrow>
         if states = [] then Inl ASTL_STATUS_BAD_CONFIGURATION
         else let rc = \<lparr>rc_metric = tc_config cfg, rc_states = states, rc_inferred = inferred\<rparr> in
           Inr (ResidencyObject rc (ResidencyMetric rc))
     | _ \<Rightarrow> Inl ASTL_STATUS_BAD_CONFIGURATION)"

definition CreateFiniteSetMetricFromConfig :: "typed_config \<Rightarrow> metric_object result" where
  "CreateFiniteSetMetricFromConfig cfg =
    (case tc_class cfg of
       FiniteSetClass finite_set \<Rightarrow> Inr (FiniteSetObject (tc_config cfg) finite_set (FiniteSetMetric (tc_config cfg)))
     | _ \<Rightarrow> Inl ASTL_STATUS_BAD_CONFIGURATION)"

definition CreateMetricFromConfig :: "environment \<Rightarrow> typed_config option \<Rightarrow> 't option \<Rightarrow> metric_object result" where
  "CreateMetricFromConfig env config target =
    (case (target, config) of
       (Some t, Some cfg) \<Rightarrow>
         (case tc_class cfg of
            CompositeClass names requires_previous formula \<Rightarrow>
              (let cc = \<lparr>cc_config = tc_config cfg, cc_inputs = names, cc_requires_previous = requires_previous,
                         cc_formula = formula\<rparr> in
               Inr (CompositeObject cc (ProcfsCompositeMetric (env_parser env) cc)))
          | _ \<Rightarrow>
             (case tc_type cfg of
                ASTL_METRIC_VALUE \<Rightarrow> Inr (SampledValueObject (tc_config cfg) (SampledValueMetric (tc_config cfg)))
              | ASTL_METRIC_DELTA \<Rightarrow> Inr (DeltaObject (tc_config cfg) (DeltaMetric (tc_config cfg)))
              | ASTL_METRIC_RATE \<Rightarrow> Inr (RateObject (tc_config cfg) (RateMetric (tc_config cfg)))
              | ASTL_METRIC_RESIDENCY \<Rightarrow> CreateResidencyMetricFromConfig cfg
              | ASTL_METRIC_FINITE_SET_VALUE \<Rightarrow> CreateFiniteSetMetricFromConfig cfg
              | ASTL_METRIC_EVENT \<Rightarrow>
                  (case tc_class cfg of
                     EventClass e \<Rightarrow> Inr (EventObject (Event_Initialize (\<lambda>_. None)))
                   | _ \<Rightarrow> Inl ASTL_STATUS_BAD_CONFIGURATION)
              | ASTL_METRIC_UNKNOWN \<Rightarrow> Inl kInternalNotImplemented))
     | _ \<Rightarrow> Inl ASTL_STATUS_BAD_ARGUMENT)"

section \<open>The virtual methods\<close>

definition on_object :: "('a \<Rightarrow> metric_object) \<Rightarrow> astl_status \<times> 'a \<times> 's \<Rightarrow> astl_status \<times> metric_object \<times> 's" where
  "on_object c x = (fst x, c (fst (snd x)), snd (snd x))"

fun object_receive :: "environment \<Rightarrow> 's sink option \<Rightarrow> normalized_sample \<Rightarrow> metric_object \<times> 's
    \<Rightarrow> astl_status \<times> metric_object \<times> 's" where
  "object_receive env sink raw (SampledValueObject cfg m, s) =
    on_object (SampledValueObject cfg) (Sampled_ReceiveRawSample (env_tinyexpr env) cfg sink raw (m, s))"
| "object_receive env sink raw (DeltaObject cfg m, s) =
    on_object (DeltaObject cfg) (Delta_ReceiveRawSample (env_tinyexpr env) cfg sink raw (m, s))"
| "object_receive env sink raw (RateObject cfg m, s) =
    on_object (RateObject cfg) (Rate_ReceiveRawSample (env_tinyexpr env) cfg sink raw (m, s))"
| "object_receive env sink raw (FiniteSetObject cfg finite_set m, s) =
    on_object (FiniteSetObject cfg finite_set) (FiniteSet_ReceiveRawSample (env_tinyexpr env) cfg finite_set sink raw (m, s))"
| "object_receive env sink raw (EventObject m, s) = on_object EventObject (Event_ReceiveRawSample sink raw (m, s))"
| "object_receive env sink raw (ResidencyObject cfg m, s) =
    on_object (ResidencyObject cfg) (Residency_ReceiveRawSample cfg sink raw (m, s))"
| "object_receive env sink raw (CompositeObject cfg m, s) =
    on_object (CompositeObject cfg) (Composite_ReceiveRawSample (env_parser env) cfg sink raw (m, s))"
| "object_receive env sink raw (CounterObject cfg, s) =
    (let (status, s') = Counter_ReceiveRawSample cfg sink raw s in (status, CounterObject cfg, s'))"

text \<open>Where a class does not override it, ProcessPauseSample only logs.\<close>

fun object_pause :: "int \<Rightarrow> metric_object \<Rightarrow> astl_status \<times> metric_object" where
  "object_pause t (DeltaObject cfg m) = map_prod id (DeltaObject cfg) (Delta_ProcessPauseSample t m)"
| "object_pause t (RateObject cfg m) = map_prod id (RateObject cfg) (Rate_ProcessPauseSample t m)"
| "object_pause t (ResidencyObject cfg m) = map_prod id (ResidencyObject cfg) (Residency_ProcessPauseSample t m)"
| "object_pause t obj = (ASTL_STATUS_SUCCESS, obj)"

fun object_reset :: "metric_object \<Rightarrow> metric_object" where
  "object_reset (SampledValueObject cfg m) = SampledValueObject cfg (Sampled_Reset cfg m)"
| "object_reset (DeltaObject cfg m) = DeltaObject cfg (Delta_Reset cfg m)"
| "object_reset (RateObject cfg m) = RateObject cfg (Rate_Reset cfg m)"
| "object_reset (FiniteSetObject cfg finite_set m) = FiniteSetObject cfg finite_set (FiniteSet_Reset cfg m)"
| "object_reset (EventObject m) = EventObject (Event_Reset m)"
| "object_reset (ResidencyObject cfg m) = ResidencyObject cfg (Residency_Reset cfg m)"
| "object_reset (CompositeObject cfg m) = CompositeObject cfg (Composite_Reset m)"
| "object_reset (CounterObject cfg) = CounterObject cfg"

fun object_summarize :: "metric_object \<Rightarrow> astl_status \<times> metric_object" where
  "object_summarize (SampledValueObject cfg m) = map_prod id (SampledValueObject cfg) (Sampled_Summarize m)"
| "object_summarize (DeltaObject cfg m) = map_prod id (DeltaObject cfg) (Delta_Summarize m)"
| "object_summarize (RateObject cfg m) = map_prod id (RateObject cfg) (Rate_Summarize m)"
| "object_summarize (FiniteSetObject cfg finite_set m) = map_prod id (FiniteSetObject cfg finite_set) (FiniteSet_Summarize m)"
| "object_summarize (ResidencyObject cfg m) = map_prod id (ResidencyObject cfg) (Residency_Summarize m)"
| "object_summarize obj = (ASTL_STATUS_SUCCESS, obj)"

text \<open>The ids a metric's builder allocates are an argument: for a residency metric those of each state.\<close>

fun object_operations :: "(state_info option \<Rightarrow> 16 word list result) \<Rightarrow> metric_object \<Rightarrow> 16 word list result \<times> metric_object" where
  "object_operations build (ResidencyObject cfg m) =
    map_prod id (ResidencyObject cfg) (Residency_GetOperations (\<lambda>s. build (Some s)) (rc_states cfg) m)"
| "object_operations build (CompositeObject cfg m) =
    map_prod id (CompositeObject cfg) (Composite_GetOperations (build None) cfg m)"
| "object_operations build obj = (build None, obj)"

section \<open>The heap\<close>

text \<open>Each object with its target.  That no dangling address is called is manager_tables_sound.\<close>

record ('t, 'm, 'c) world =
  wd_objects :: "'m \<rightharpoonup> 't \<times> metric_object"
  wd_store :: "('t, 'm, 'c) store"

definition call_object :: "'m \<Rightarrow> ('t \<Rightarrow> metric_object \<times> ('t, 'm, 'c) store \<Rightarrow> astl_status \<times> metric_object \<times> ('t, 'm, 'c) store)
    \<Rightarrow> ('t, 'm, 'c) world \<Rightarrow> astl_status \<times> ('t, 'm, 'c) world" where
  "call_object m f w =
    (case wd_objects w m of
       None \<Rightarrow> (ASTL_STATUS_INTERNAL_ERROR, w)
     | Some (t, obj) \<Rightarrow>
        (case f t (obj, wd_store w) of
           (status, obj', s) \<Rightarrow> (status, w\<lparr>wd_objects := (wd_objects w)(m \<mapsto> (t, obj')), wd_store := s\<rparr>)))"

definition heap_metrics :: "environment \<Rightarrow> ('m \<Rightarrow> state_info option \<Rightarrow> 16 word list result)
    \<Rightarrow> ('m, ('t, 'm, 'c) world) imetric" where
  "heap_metrics env build =
    \<lparr>im_receive = (\<lambda>m raw. call_object m (\<lambda>t. object_receive env (Some (store_sink t m)) raw)),
     im_pause = (\<lambda>m time. call_object m (\<lambda>t (obj, s). let (status, obj') = object_pause time obj in (status, obj', s))),
     im_reset = (\<lambda>m w. snd (call_object m (\<lambda>t (obj, s). (ASTL_STATUS_SUCCESS, object_reset obj, s)) w)),
     im_summarize = (\<lambda>m. call_object m (\<lambda>t (obj, s). let (status, obj') = object_summarize obj in (status, obj', s))),
     im_operations = (\<lambda>m w. case wd_objects w m of
         None \<Rightarrow> (Inl ASTL_STATUS_INTERNAL_ERROR, w)
       | Some (t, obj) \<Rightarrow>
          (let (ids, obj') = object_operations (build m) obj in (ids, w\<lparr>wd_objects := (wd_objects w)(m \<mapsto> (t, obj'))\<rparr>)))\<rparr>"

text \<open>What RegisterMetric and RegisterCounter do at the address of a new instance.\<close>

definition create_object :: "environment \<Rightarrow> typed_config \<Rightarrow> 't \<Rightarrow> 'm \<Rightarrow> ('t, 'm, 'c) world \<Rightarrow> astl_status \<times> ('t, 'm, 'c) world" where
  "create_object env cfg t m w =
    (case CreateMetricFromConfig env (Some cfg) (Some t) of
       Inl e \<Rightarrow> (e, w)
     | Inr obj \<Rightarrow> (ASTL_STATUS_SUCCESS, w\<lparr>wd_objects := (wd_objects w)(m \<mapsto> (t, obj))\<rparr>))"

definition create_counter :: "metric_config \<Rightarrow> 't \<Rightarrow> 'm \<Rightarrow> ('t, 'm, 'c) world \<Rightarrow> astl_status \<times> ('t, 'm, 'c) world" where
  "create_counter cfg t m w = (ASTL_STATUS_SUCCESS, w\<lparr>wd_objects := (wd_objects w)(m \<mapsto> (t, CounterObject cfg))\<rparr>)"

section \<open>A metric acts on its sink only through the samples it delivers\<close>

text \<open>
  Two sinks whose states are related and stay so keep every metric in step: it returns the same
  status and the same fields on both.
\<close>

locale sink_relation =
  fixes sink :: "'s sink" and sink' :: "'r sink" and rel :: "'s \<Rightarrow> 'r \<Rightarrow> bool"
  assumes same_status: "rel s r \<Longrightarrow> fst (sink p s) = fst (sink' p r)"
    and same_state: "rel s r \<Longrightarrow> rel (snd (sink p s)) (snd (sink' p r))"
begin

definition related :: "astl_status \<times> 'a \<times> 's \<Rightarrow> astl_status \<times> 'a \<times> 'r \<Rightarrow> bool" where
  "related x y \<longleftrightarrow> fst x = fst y \<and> fst (snd x) = fst (snd y) \<and> rel (snd (snd x)) (snd (snd y))"

lemma sink_step: "rel s r \<Longrightarrow> \<exists>st s' r'. sink p s = (st, s') \<and> sink' p r = (st, r') \<and> rel s' r'"
  using same_status [of s r p] same_state [of s r p] by (metis prod.collapse)

lemma sink_some [simp]: "SinkProcessedSample (Some f) p s = f p s"
  by (simp add: SinkProcessedSample_def)

lemma sampled_related:
  "rel s r \<Longrightarrow> related (Sampled_ReceiveRawSample te cfg (Some sink) raw (m, s)) (Sampled_ReceiveRawSample te cfg (Some sink') raw (m, r))"
  by (simp add: Sampled_ReceiveRawSample_def related_def Let_def same_state split: sum.split)

lemma delta_related:
  "rel s r \<Longrightarrow> related (Delta_ReceiveRawSample te cfg (Some sink) raw (m, s)) (Delta_ReceiveRawSample te cfg (Some sink') raw (m, r))"
  by (simp add: Delta_ReceiveRawSample_def related_def Let_def same_state split: sum.split option.split prod.split)

lemma rate_related:
  "rel s r \<Longrightarrow> related (Rate_ReceiveRawSample te cfg (Some sink) raw (m, s)) (Rate_ReceiveRawSample te cfg (Some sink') raw (m, r))"
  by (simp add: Rate_ReceiveRawSample_def related_def Let_def same_state split: sum.split option.split prod.split)

lemma finite_set_related:
  "rel s r \<Longrightarrow> related (FiniteSet_ReceiveRawSample te cfg finite_set (Some sink) raw (m, s))
    (FiniteSet_ReceiveRawSample te cfg finite_set (Some sink') raw (m, r))"
  using sampled_related [of s r te cfg raw "fs_base m"]
  by (auto simp: FiniteSet_ReceiveRawSample_def related_def split: prod.split)

lemma event_related:
  "rel s r \<Longrightarrow> related (Event_ReceiveRawSample (Some sink) raw (m, s)) (Event_ReceiveRawSample (Some sink') raw (m, r))"
  by (simp add: Event_ReceiveRawSample_def CheckAndStoreEvent_def related_def Let_def same_state)

lemma counter_related:
  "rel s r \<Longrightarrow> fst (Counter_ReceiveRawSample cfg (Some sink) raw s) = fst (Counter_ReceiveRawSample cfg (Some sink') raw r)
    \<and> rel (snd (Counter_ReceiveRawSample cfg (Some sink) raw s)) (snd (Counter_ReceiveRawSample cfg (Some sink') raw r))"
  by (simp add: Counter_ReceiveRawSample_def same_state)

lemma sink_operations_related:
  "rel s r \<Longrightarrow> \<exists>st s' r'. sink_operations (Some sink) pending ops s = (st, s')
    \<and> sink_operations (Some sink') pending ops r = (st, r') \<and> rel s' r'"
proof (induction ops arbitrary: s r)
  case (Cons op ops)
  show ?case
  proof (cases "map_of pending op")
    case (Some p)
    obtain st s' r' where "sink p s = (st, s')" "sink' p r = (st, r')" "rel s' r'" using sink_step [OF Cons.prems] by blast
    then show ?thesis using Cons.IH [of s' r'] Some by simp
  qed (use Cons.prems in simp)
qed simp

lemma ordered_related:
  assumes "rel s r"
  shows "\<exists>st s' r'. SinkOrderedStateSamples (Some sink) m s = (st, s')
    \<and> SinkOrderedStateSamples (Some sink') m r = (st, r') \<and> rel s' r'"
proof -
  define ops where "ops = (case rs_first_op m of Some base \<Rightarrow>
      if rs_pending m \<noteq> [] then operation_range base (length (rs_pending m)) else [] | None \<Rightarrow> [])"
  have eq: "SinkOrderedStateSamples f m s = (case sink_operations f (rs_pending m) ops s of
       (status, s') \<Rightarrow>
         if status \<noteq> ASTL_STATUS_SUCCESS then (status, s')
         else (case rs_pending_inferred m of
                 None \<Rightarrow> (ASTL_STATUS_SUCCESS, s')
               | Some p \<Rightarrow> SinkProcessedSample f p s'))" for f :: "'z sink option" and s
    by (simp add: SinkOrderedStateSamples_def ops_def split: option.split)
  obtain st s' r' where "sink_operations (Some sink) (rs_pending m) ops s = (st, s')"
      "sink_operations (Some sink') (rs_pending m) ops r = (st, r')" "rel s' r'"
    using sink_operations_related [OF assms, of "rs_pending m" ops] by blast
  then show ?thesis using sink_step [of s' r'] by (auto simp: eq split: option.split)
qed

lemma complete_round_related:
  assumes "rel s r"
  shows "related (complete_round cfg (Some sink) interval t (m, s)) (complete_round cfg (Some sink') interval t (m, r))"
proof -
  obtain st m1 where c: "CalculateInferredStateResidencyForInterval cfg interval t m = (st, m1)" by fastforce
  obtain st' s' r' where "SinkOrderedStateSamples (Some sink) m1 s = (st', s')"
      "SinkOrderedStateSamples (Some sink') m1 r = (st', r')" "rel s' r'"
    using ordered_related [OF assms] by blast
  then show ?thesis using assms c by (simp add: complete_round_def related_def)
qed

lemma residency_related:
  assumes "rel s r"
  shows "related (Residency_ReceiveRawSample cfg (Some sink) raw (m, s)) (Residency_ReceiveRawSample cfg (Some sink') raw (m, r))"
proof -
  note round = complete_round_related [OF assms, of cfg]
  show ?thesis
    using assms
    by (auto simp: Residency_ReceiveRawSample_def related_def Let_def case_prod_beta
      round [unfolded related_def] split: sum.split option.split)
qed

lemma emit_related:
  assumes "rel s r"
  shows "related (EmitPendingBatch ep cfg (Some sink) (m, s)) (EmitPendingBatch ep cfg (Some sink') (m, r))"
proof (cases "pb_timestamp (cm_pending m)")
  case (Some t)
  show ?thesis
  proof (cases "rbind (EvaluateExpressionFormula ep cfg m (pb_values (cm_pending m)) (cm_previous m))
      (ConvertOutputValue (mc_value_type (cc_config cfg)))")
    case (Inr v)
    then show ?thesis
      using assms same_status [OF assms, of "\<lparr>ps_value = v, ps_timestamp = t\<rparr>"]
        same_state [OF assms, of "\<lparr>ps_value = v, ps_timestamp = t\<rparr>"]
      by (simp add: EmitPendingBatch_def related_def Let_def case_prod_beta Some del: rbind_eq_Inr_iff)
  qed (use assms in \<open>simp add: EmitPendingBatch_def related_def Let_def Some\<close>)
qed (use assms in \<open>simp add: EmitPendingBatch_def related_def Let_def\<close>)

lemma composite_related:
  assumes "rel s r"
  shows "related (Composite_ReceiveRawSample ep cfg (Some sink) raw (m, s)) (Composite_ReceiveRawSample ep cfg (Some sink') raw (m, r))"
  using assms emit_related [OF assms, unfolded related_def, of ep cfg]
  by (simp add: Composite_ReceiveRawSample_def related_def Let_def case_prod_beta split: sum.split option.split)

lemma object_related:
  assumes "rel s r"
  shows "related (object_receive env (Some sink) raw (obj, s)) (object_receive env (Some sink') raw (obj, r))"
proof -
  have lift: "related (on_object c x) (on_object c y)" if "related x y" for c and x :: "astl_status \<times> 'a \<times> 's" and y
    using that by (simp add: on_object_def related_def)
  show ?thesis
    using assms counter_related [OF assms]
    by (cases obj)
      (simp_all add: lift sampled_related delta_related rate_related finite_set_related event_related residency_related
        composite_related, simp add: related_def case_prod_beta)
qed

end

section \<open>The heap is a set of separate objects\<close>

text \<open>What can be seen of a metric: its fields and its samples in the store.\<close>

definition metric_view :: "'m \<Rightarrow> ('t, 'm, 'c) world \<Rightarrow> ('t \<times> metric_object) option \<times> ('t \<Rightarrow> processed_sample list)" where
  "metric_view m w = (wd_objects w m, \<lambda>t. stored_samples (wd_store w) t m)"

definition no_visit :: "('t, 'm, 'c) world \<Rightarrow> bool" where
  "no_visit w \<longleftrightarrow> batch_visit (wd_store w) = None"

text \<open>Beside a sink without effect the store's changes are seen alone; beside another store, what they depend on.\<close>

interpretation alone: sink_relation "store_sink t m" "\<lambda>p r. (ASTL_STATUS_SUCCESS, r)"
    "\<lambda>s (r::unit). batch_visit s = None \<and> (\<forall>t' m'. m' \<noteq> m \<longrightarrow> stored_samples s t' m' = stored_samples s0 t' m')"
  for t :: 't and m :: 'm and s0 :: "('t, 'm, 'c) store"
  by unfold_locales (auto simp: sample_simps)

interpretation beside: sink_relation "store_sink t m" "store_sink t m"
    "\<lambda>s r. batch_visit s = None \<and> batch_visit r = None \<and> (\<forall>t'. stored_samples s t' m = stored_samples r t' m)"
  for t :: 't and m :: 'm
  by unfold_locales (auto simp: sample_simps)

lemma object_alone:
  assumes "batch_visit s = None"
  shows "batch_visit (snd (snd (object_receive env (Some (store_sink t m)) raw (obj, s)))) = None"
    and "m' \<noteq> m \<Longrightarrow> stored_samples (snd (snd (object_receive env (Some (store_sink t m)) raw (obj, s)))) t' m' = stored_samples s t' m'"
proof -
  note r = alone.object_related [of s m s env t raw obj, unfolded alone.related_def]
  show "batch_visit (snd (snd (object_receive env (Some (store_sink t m)) raw (obj, s)))) = None"
    using r assms by simp
  show "m' \<noteq> m \<Longrightarrow> stored_samples (snd (snd (object_receive env (Some (store_sink t m)) raw (obj, s)))) t' m' = stored_samples s t' m'"
    using r assms by simp
qed

lemma object_beside:
  assumes "batch_visit s = None" "batch_visit r = None" "\<And>t'. stored_samples s t' m = stored_samples r t' m"
  shows "fst (object_receive env (Some (store_sink t m)) raw (obj, s)) = fst (object_receive env (Some (store_sink t m)) raw (obj, r))"
    and "fst (snd (object_receive env (Some (store_sink t m)) raw (obj, s))) = fst (snd (object_receive env (Some (store_sink t m)) raw (obj, r)))"
    and "stored_samples (snd (snd (object_receive env (Some (store_sink t m)) raw (obj, s)))) t' m
      = stored_samples (snd (snd (object_receive env (Some (store_sink t m)) raw (obj, r)))) t' m"
  using beside.object_related [of s r m env t raw obj, unfolded beside.related_def] assms by auto

lemma call_object_eq:
  "call_object m f w = (case wd_objects w m of None \<Rightarrow> (ASTL_STATUS_INTERNAL_ERROR, w)
     | Some (t, obj) \<Rightarrow> (fst (f t (obj, wd_store w)),
         w\<lparr>wd_objects := (wd_objects w)(m \<mapsto> (t, fst (snd (f t (obj, wd_store w))))), wd_store := snd (snd (f t (obj, wd_store w)))\<rparr>))"
  by (simp add: call_object_def split: option.split prod.split)

interpretation heap: metric_objects "heap_metrics env build :: ('m::linorder, ('t, 'm, 'c) world) imetric" metric_view no_visit
  for env :: environment and build :: "'m::linorder \<Rightarrow> state_info option \<Rightarrow> 16 word list result"
proof unfold_locales
  fix w v :: "('t, 'm, 'c) world" and m m' :: 'm and s :: normalized_sample and t :: int
  let ?im = "heap_metrics env build :: ('m, ('t, 'm, 'c) world) imetric"
  assume ok: "no_visit w"
  then have b: "batch_visit (wd_store w) = None" by (simp add: no_visit_def)
  show "no_visit (snd (im_receive ?im m s w))"
    using b by (auto simp: heap_metrics_def call_object_eq no_visit_def object_alone(1) split: option.split)
  show "no_visit (snd (im_pause ?im m t w))" "no_visit (im_reset ?im m w)"
    using b by (auto simp: heap_metrics_def call_object_eq no_visit_def case_prod_beta split: option.split)
  {
    assume n: "m' \<noteq> m"
    show "metric_view m' (snd (im_receive ?im m s w)) = metric_view m' w"
      using b n by (auto simp: heap_metrics_def call_object_eq metric_view_def object_alone(2) fun_eq_iff split: option.split)
    show "metric_view m' (snd (im_pause ?im m t w)) = metric_view m' w" "metric_view m' (im_reset ?im m w) = metric_view m' w"
      using n by (auto simp: heap_metrics_def call_object_eq metric_view_def case_prod_beta split: option.split)
  }
  assume ok': "no_visit v" and same: "metric_view m w = metric_view m v"
  then have b': "batch_visit (wd_store v) = None" "wd_objects w m = wd_objects v m"
      "\<And>t'. stored_samples (wd_store w) t' m = stored_samples (wd_store v) t' m"
    by (simp_all add: no_visit_def metric_view_def fun_eq_iff)
  note beside = object_beside [OF b b'(1) b'(3)]
  show "same_for metric_view m (im_receive ?im m s w) (im_receive ?im m s v)"
    using b' beside by (auto simp: heap_metrics_def call_object_eq same_for_def metric_view_def fun_eq_iff split: option.split)
  show "same_for metric_view m (im_pause ?im m t w) (im_pause ?im m t v)"
    using b' by (auto simp: heap_metrics_def call_object_eq same_for_def metric_view_def fun_eq_iff case_prod_beta split: option.split)
qed

end
