(* ===== verification/Metric_Replay.thy ===== *)
theory Metric_Replay
  imports Metric_Objects Metric_Tables
begin

text \<open>
  What live processing and a targeted replay (ProcessRawSamplesForMetric, which the orchestrator
  uses to recompute a metric from cached raw samples) mean for one metric.
\<close>

section \<open>Replaying equals processing\<close>

lemma sorted_samples_unique:
  assumes "mset xs = mset ys" "sorted (map ns_timestamp xs)" "sorted (map ns_timestamp ys)" "distinct (map ns_timestamp xs)"
  shows "xs = ys"
proof -
  have d: "distinct (map ns_timestamp ys)" using assms(1,4) by (metis mset_eq_imp_distinct_iff mset_map)
  have s: "set xs = set ys" using assms(1) by (rule mset_eq_setD)
  moreover have "inj_on ns_timestamp (set xs \<union> set ys)" using assms(4) s by (simp add: distinct_map)
  ultimately show ?thesis using map_sorted_distinct_set_unique [of ns_timestamp xs ys] assms(2-4) d by blast
qed

lemma run_calls_append:
  "run_calls im (xs @ ys) w = (ASTL_STATUS_SUCCESS, w') \<Longrightarrow> \<exists>w1. run_calls im xs w = (ASTL_STATUS_SUCCESS, w1)"
  by (induction im xs w rule: run_calls.induct) (auto split: prod.splits if_splits)

lemma calls_of_one: "fst ` set calls \<subseteq> {m} \<Longrightarrow> map (Pair m) (samples_of m calls) = calls"
  by (induction calls) auto

context metric_objects
begin

lemma run_calls_ok: "ok w \<Longrightarrow> ok (snd (run_calls im calls w))"
proof (induction calls arbitrary: w)
  case (Cons x calls)
  obtain m sample where x: "x = (m, sample)" by fastforce
  obtain st w1 where d: "DispatchNormalizedSample im m sample w = (st, w1)" by fastforce
  have "ok w1" using dispatch_normalized_laws(1) [OF Cons.prems, of m sample] d by simp
  then show ?case using Cons.IH [of w1] d by (simp add: x)
qed simp

text \<open>
  A batch is processed with success.  Replayed for one of its metrics from the same state of that
  metric, in whatever state the others are and with any std::sort, it leads the metric where the
  processing led it, and touches no other metric.  What the metric's own calls keep holds behind it.
\<close>

lemma replay_equals_live:
  assumes routes: "mm_routes mm t = Some r" "distinct (map fst r)" "m \<in> snd ` set r"
    and samples: "\<forall>sample\<in>set samples. well_typed_marker sample"
      "distinct (map ns_timestamp (target_inputs mm m [(Some t, samples)]))"
    and sorters: "std_sort queue_less sorter" "std_sort queue_less sorter'"
    and live: "ProcessRawSamples sorter im [(Some t, samples)] (mm, w) = Some (ASTL_STATUS_SUCCESS, mm1, w1)"
    and ok: "ok w" "ok v" "view m w = view m v" and mm2: "l m = mm_latest mm m"
    and kept: "Q v" "\<And>v s. Q v \<Longrightarrow> Q (snd (DispatchNormalizedSample im m s v))"
  shows "\<exists>l' v1. ProcessRawSamplesForMetric sorter' im [(Some t, samples)] (Some m) (mm\<lparr>mm_latest := l\<rparr>, v)
      = Some (ASTL_STATUS_SUCCESS, mm\<lparr>mm_latest := l'\<rparr>, v1)
    \<and> mm1 = mm\<lparr>mm_latest := mm_latest mm1\<rparr> \<and> ok w1 \<and> ok v1 \<and> view m v1 = view m w1 \<and> l' m = mm_latest mm1 m
    \<and> Q v1 \<and> (\<forall>m'. m' \<noteq> m \<longrightarrow> view m' v1 = view m' v \<and> l' m' = l m')"
proof -
  let ?mm2 = "mm\<lparr>mm_latest := l\<rparr>"
  let ?ins = "filter (\<lambda>s. \<not> IsTimestampRegression (mm_latest mm) m s) (target_inputs mm m [(Some t, samples)])"
  let ?last = "\<lambda>calls. case samples_of m calls of [] \<Rightarrow> mm_latest mm m | ss \<Rightarrow> Some (ns_timestamp (List.last ss))"
  obtain status latest calls rest where q:
      "ProcessRawSamples sorter im [(Some t, samples)] (mm, w)
        = Some (if status = ASTL_STATUS_SUCCESS then routing_status mm [(Some t, samples)] else status, mm\<lparr>mm_latest := latest\<rparr>, w1)"
      "run_calls im calls w = (status, w1)"
      "\<forall>m. mset (samples_of m (calls @ rest))
          = mset (filter (\<lambda>s. \<not> IsTimestampRegression (mm_latest mm) m s) (target_inputs mm m [(Some t, samples)]))
        \<and> sorted (map ns_timestamp (samples_of m (calls @ rest)))"
      "if status = ASTL_STATUS_SUCCESS then rest = []
       else calls \<noteq> [] \<and> (\<forall>x\<in>set rest. fst (List.last calls) \<le> fst x)"
      "\<forall>m. latest m = (case samples_of m (if status = ASTL_STATUS_SUCCESS then calls else butlast calls) of
            [] \<Rightarrow> mm_latest mm m | ss \<Rightarrow> Some (ns_timestamp (List.last ss)))"
    using process_raw_samples_calls [OF sorters(1), of "[(Some t, samples)]" im mm w] samples(1) live by force
  have st: "status = ASTL_STATUS_SUCCESS" "routing_status mm [(Some t, samples)] = ASTL_STATUS_SUCCESS"
      "mm1 = mm\<lparr>mm_latest := latest\<rparr>"
    using q(1) live by (auto split: if_splits)
  have routable: "list_all (routable r (mm_correlations mm)) samples"
    using st(2) routes(1) by (simp split: if_splits)
  have lc: "run_calls im calls w = (ASTL_STATUS_SUCCESS, w1)" "mset (samples_of m calls) = mset ?ins"
      "sorted (map ns_timestamp (samples_of m calls))" "mm_latest mm1 m = ?last calls"
    using q(2-5) st by simp_all
  obtain v' where v': "run_calls im (map (Pair m) (samples_of m calls)) v = (ASTL_STATUS_SUCCESS, v')" "view m w1 = view m v'"
    using run_calls_local [OF lc(1) ok] by blast
  have same_inputs: "target_inputs ?mm2 m [(Some t, samples)] = target_inputs mm m [(Some t, samples)]"
      "IsTimestampRegression (mm_latest ?mm2) m = IsTimestampRegression (mm_latest mm) m"
      "mm_latest ?mm2 m = mm_latest mm m"
    using mm2 routes(1) by (simp_all add: IsTimestampRegression_def fun_eq_iff)
  have routes2: "mm_routes ?mm2 t = Some r" "list_all (routable r (mm_correlations ?mm2)) samples"
    using routes(1) routable by simp_all
  obtain queue status latest' v1 calls' rest where p: "fst ` set queue \<subseteq> {m}"
      "DispatchProcessingQueue sorter' im queue (mm_latest ?mm2) v = (status, latest', v1)"
      "ProcessRawSamplesForMetric sorter' im [(Some t, samples)] (Some m) (?mm2, v) = Some (status, ?mm2\<lparr>mm_latest := latest'\<rparr>, v1)"
      "run_calls im calls' v = (status, v1)" "status = ASTL_STATUS_SUCCESS \<longrightarrow> rest = []"
      "mset (samples_of m (calls' @ rest)) = mset ?ins" "sorted (map ns_timestamp (samples_of m (calls' @ rest)))"
      "fst ` set calls' \<subseteq> {m}" "status = ASTL_STATUS_SUCCESS \<longrightarrow> latest' m = ?last calls'"
    using replay_delivers [OF routes2(1) routes(2,3) routes2(2) samples(1) sorters(2), of im v] unfolding same_inputs
    by (elim exE conjE) (rule that, assumption+)
  have d: "distinct (map ns_timestamp (samples_of m calls))"
  proof -
    have "distinct (map ns_timestamp ?ins)" using samples(2) by (rule distinct_map_filter)
    then show ?thesis using lc(2) by (metis mset_eq_imp_distinct_iff mset_map)
  qed
  have same: "samples_of m calls = samples_of m (calls' @ rest)"
    using sorted_samples_unique [OF _ lc(3) p(7) d] lc(2) p(6) by simp
  have run: "run_calls im (calls' @ map (Pair m) (samples_of m rest)) v = (ASTL_STATUS_SUCCESS, v')"
    using v'(1) by (simp only: same samples_of_simps map_append calls_of_one [OF p(8)])
  have st: "status = ASTL_STATUS_SUCCESS" using run_calls_append [OF run] p(4) by auto
  then have rest: "rest = []" using p(5) by simp
  have vv: "v1 = v'" using run p(4) st by (simp add: rest)
  moreover have "latest' m = mm_latest mm1 m" using p(9) st lc(4) same by (simp add: rest)
  moreover have "view m' v1 = view m' v \<and> latest' m' = l m'" if "m' \<noteq> m" for m'
  proof -
    have "m' \<notin> fst ` set queue" using p(1) that by blast
    then show ?thesis using dispatch_frame [OF p(2) sorters(2) ok(2)] by simp
  qed
  moreover have "Q (snd (run_calls im (map (Pair m) ss) v))" if "Q v" for ss v
    using that
  proof (induction ss arbitrary: v)
    case (Cons s ss)
    obtain st v2 where d: "DispatchNormalizedSample im m s v = (st, v2)" by fastforce
    have "Q v2" using kept(2) [OF Cons.prems, of s] d by simp
    then show ?case using Cons.IH [of v2] Cons.prems d by simp
  qed simp
  from this [OF kept(1), of "samples_of m calls"] have "Q v1" using v'(1) vv by simp
  moreover have "ok w1" "ok v1"
    using run_calls_ok [OF ok(1), of calls] run_calls_ok [OF ok(2), of calls'] lc(1) p(4) by simp_all
  ultimately show ?thesis
    using p(3) st v'(2) \<open>mm1 = mm\<lparr>mm_latest := latest\<rparr>\<close> by (intro exI [of _ latest'] exI [of _ v1]) simp
qed

end

section \<open>From raw ticks to stored deltas\<close>

definition as_event :: "normalized_sample \<Rightarrow> metric_event" where
  "as_event s = (if IsPauseResumeMarkerOperationId (ns_operation_id s) then Pause (ns_timestamp s) else Sample s)"

lemma run_calls_delta:
  assumes "wd_objects w m = Some (t, DeltaObject cfg d)"
    and "run_calls (heap_metrics env build) (map (Pair m) ss) w = (ASTL_STATUS_SUCCESS, w')"
    and "receive_all (Delta_event (env_tinyexpr env) cfg (Some (store_sink t m))) (map as_event ss) (d, wd_store w) = (sts, d', s')"
  shows "wd_objects w' m = Some (t, DeltaObject cfg d') \<and> wd_store w' = s' \<and> set sts \<subseteq> {ASTL_STATUS_SUCCESS}"
  using assms
proof (induction ss arbitrary: w d sts)
  case (Cons s ss)
  obtain st d1 s1 where e: "Delta_event (env_tinyexpr env) cfg (Some (store_sink t m)) (as_event s) (d, wd_store w) = (st, d1, s1)"
    using prod_cases3 by blast
  let ?w = "w\<lparr>wd_objects := (wd_objects w)(m \<mapsto> (t, DeltaObject cfg d1)), wd_store := s1\<rparr>"
  have d: "DispatchNormalizedSample (heap_metrics env build) m s w = (st, ?w)"
    using e Cons.prems(1)
    by (auto simp: DispatchNormalizedSample_def heap_metrics_def call_object_eq as_event_def on_object_def map_prod_def
      split: if_splits prod.splits)
  then have st: "st = ASTL_STATUS_SUCCESS" "run_calls (heap_metrics env build) (map (Pair m) ss) ?w = (ASTL_STATUS_SUCCESS, w')"
    using Cons.prems(2) by (auto split: if_splits)
  obtain sts' where "receive_all (Delta_event (env_tinyexpr env) cfg (Some (store_sink t m))) (map as_event ss) (d1, s1) = (sts', d', s')"
      "sts = st # sts'"
    using Cons.prems(3) e by (auto split: prod.splits)
  then show ?case using Cons.IH [of ?w d1 sts'] st by simp
qed simp

text \<open>
  C2: from the ticks of a collector to the samples a client reads.  A target's batch of raw samples,
  for any number of metrics, is processed with success, while no sample visit is under way.  One of
  the metrics is a new delta metric of an integral type that has received nothing yet, and accepts
  every sample of the batch that is for it with processed values of one unsigned width.  Then it has
  received exactly the samples of its operations, at their normalised time and in the order of time,
  and the pause markers among them; and unless the deltas of that sequence by the delta metric's
  specification sum to 2^64 or more, the store holds these deltas behind what it held, and the
  metric's sum is theirs.
\<close>

theorem delta_pipeline_refines_spec:
  fixes w :: "('t, 'm::linorder, 'c) world"
  assumes "std_sort queue_less sorter" "\<forall>sample\<in>set samples. well_typed_marker sample"
    and "wd_objects w m = Some (t, DeltaObject cfg (DeltaMetric cfg))" "integral_type (mc_value_type cfg)"
    and "batch_visit (wd_store w) = None" "mm_latest mm m = None"
    and "ProcessRawSamples sorter (heap_metrics env build) [(Some t, samples)] (mm, w) = Some (ASTL_STATUS_SUCCESS, mm1, w1)"
    and "\<forall>s\<in>set (target_inputs mm m [(Some t, samples)]). \<not> IsPauseResumeMarkerOperationId (ns_operation_id s) \<longrightarrow>
      accepted (env_tinyexpr env) cfg pv s \<and> unsigned_width k (pv s)"
  shows "\<exists>received d. mset received = mset (target_inputs mm m [(Some t, samples)]) \<and> sorted (map ns_timestamp received)
    \<and> (let deltas = delta_spec pv k None (map as_event received) in
       delta_sum deltas < 2 ^ 64 \<longrightarrow>
         stored_samples (wd_store w1) t m = stored_samples (wd_store w) t m @ deltas
         \<and> wd_objects w1 m = Some (t, DeltaObject cfg d) \<and> dm_sum d = VU64 (of_nat (delta_sum deltas)))"
proof -
  let ?ins = "target_inputs mm m [(Some t, samples)]"
  obtain status calls rest where q: "run_calls (heap_metrics env build) calls w = (status, w1)" "status = ASTL_STATUS_SUCCESS"
      "\<forall>m. mset (samples_of m (calls @ rest))
          = mset (filter (\<lambda>s. \<not> IsTimestampRegression (mm_latest mm) m s) (target_inputs mm m [(Some t, samples)]))
        \<and> sorted (map ns_timestamp (samples_of m (calls @ rest)))"
      "rest = []"
    using process_raw_samples_calls [OF assms(1), of "[(Some t, samples)]" "heap_metrics env build" mm w] assms(2,7)
    by (force split: if_splits)
  let ?ss = "samples_of m calls"
  have ss: "mset ?ss = mset ?ins" "sorted (map ns_timestamp ?ss)"
    using q(3,4) assms(6) by (simp_all add: IsTimestampRegression_def)
  have ok: "no_visit w" using assms(5) by (simp add: no_visit_def)
  obtain w' where w': "run_calls (heap_metrics env build) (map (Pair m) ?ss) w = (ASTL_STATUS_SUCCESS, w')"
      "metric_view m w1 = metric_view m w'"
    using heap.run_calls_local [OF q(1) [unfolded q(2)] ok ok refl] by blast
  have ok_events: "events_ok (env_tinyexpr env) cfg pv k (map as_event ?ss)"
    using assms(8) mset_eq_setD [OF ss(1)] by (auto simp: events_ok_def as_event_def split: if_splits)
  obtain sts d s' where run: "receive_all (Delta_event (env_tinyexpr env) cfg (Some (store_sink t m))) (map as_event ?ss)
      (DeltaMetric cfg, wd_store w) = (sts, d, s')"
    using prod_cases3 by blast
  note end_state = run_calls_delta [OF assms(3) w'(1) run]
  have fresh: "previous_is k (DeltaMetric cfg) None" "dm_sum (DeltaMetric cfg) = VU64 (of_nat 0)"
    using integral_sum_start [OF assms(4)] by (simp_all add: DeltaMetric_def Delta_InitializeSamples_def previous_is_def)
  have "stored_samples s' t m = stored_samples (wd_store w) t m @ delta_spec pv k None (map as_event ?ss)
      \<and> dm_sum d = VU64 (of_nat (delta_sum (delta_spec pv k None (map as_event ?ss))))"
    if "delta_sum (delta_spec pv k None (map as_event ?ss)) < 2 ^ 64"
    using store_log.delta_all [OF ok_events assms(5) fresh, of t m] that run by auto
  then have "delta_sum (delta_spec pv k None (map as_event ?ss)) < 2 ^ 64 \<longrightarrow>
      stored_samples (wd_store w1) t m = stored_samples (wd_store w) t m @ delta_spec pv k None (map as_event ?ss)
      \<and> wd_objects w1 m = Some (t, DeltaObject cfg d)
      \<and> dm_sum d = VU64 (of_nat (delta_sum (delta_spec pv k None (map as_event ?ss))))"
    using end_state w'(2) by (auto simp: metric_view_def fun_eq_iff)
  then show ?thesis unfolding Let_def using ss by blast
qed

section \<open>An example\<close>

text \<open>A delta metric at address 5 on target 0 and a value metric at address 3, one operation each.\<close>

definition small_environment :: environment where
  "small_environment = \<lparr>env_tinyexpr = identity_tinyexpr,
    env_parser = \<lparr>ep_compiles = (\<lambda>vs f. True), ep_evaluate = (\<lambda>f vs. 7)\<rparr>\<rparr>"

definition small_build :: "nat \<Rightarrow> state_info option \<Rightarrow> 16 word list result" where
  "small_build m s = Inr [of_nat (m + 4)]"

definition small_correlation :: clock_correlation where
  "small_correlation = \<lparr>raw_monotonic_at_start = 100, native_at_start = 0, ticks = \<lparr>tick_num = 1, tick_den = 1\<rparr>\<rparr>"

definition small_manager :: "(nat, nat, nat) metric_manager" where
  "small_manager = (MetricManager [] Map.empty)
    \<lparr>mm_routes := [0 \<mapsto> [(9, 5), (7, 3)]], mm_correlations := [9 \<mapsto> small_correlation, 7 \<mapsto> small_correlation]\<rparr>"

definition small_world :: "(nat, nat, unit) world" where
  "small_world = \<lparr>wd_objects = [5 \<mapsto> (0, DeltaObject u32_config (DeltaMetric u32_config)),
      3 \<mapsto> (0, SampledValueObject u32_config (SampledValueMetric u32_config))], wd_store = empty_store\<rparr>"

definition small_samples :: "raw_sample list" where
  "small_samples =
    [\<lparr>rs_operation_id = 9, rs_value = VU32 9, rs_raw_tick = 20\<rparr>, \<lparr>rs_operation_id = 7, rs_value = VU32 4, rs_raw_tick = 15\<rparr>,
     \<lparr>rs_operation_id = 9, rs_value = VU32 5, rs_raw_tick = 10\<rparr>]"

lemma small_normalized:
  "NormalizeToCorrelatedRawTimestamp 20 small_correlation = 120" "NormalizeToCorrelatedRawTimestamp 15 small_correlation = 115"
  "NormalizeToCorrelatedRawTimestamp 10 small_correlation = 110"
  by (simp_all add: NormalizeToCorrelatedRawTimestamp_def small_correlation_def Let_def wrap64_def)

lemma small_ids [simp]: "\<not> IsPauseResumeMarkerOperationId 9" "\<not> IsPauseResumeMarkerOperationId 7"
  by (simp_all add: IsPauseResumeMarkerOperationId_def kPauseResumeOperationId_def)

definition small_queue :: "nat queue" where
  "small_queue = [(5, \<lparr>ns_operation_id = 9, ns_value = VU32 9, ns_timestamp = 120\<rparr>),
     (3, \<lparr>ns_operation_id = 7, ns_value = VU32 4, ns_timestamp = 115\<rparr>),
     (5, \<lparr>ns_operation_id = 9, ns_value = VU32 5, ns_timestamp = 110\<rparr>)]"

lemma small_enqueued:
  "enqueue_targets (mm_routes small_manager) (mm_lifecycle small_manager) (mm_correlations small_manager) [(Some 0, small_samples)] []
    = Some (ASTL_STATUS_SUCCESS, small_queue)"
  by (simp add: EnqueueTargetSamples_def small_manager_def MetricManager_def small_samples_def small_queue_def
    EnqueueNormalizedSample_def small_normalized)

lemma small_inputs: "target_inputs small_manager 5 [(Some 0, small_samples)] = [snd (small_queue ! 0), snd (small_queue ! 2)]"
  by (simp add: small_manager_def MetricManager_def small_samples_def small_queue_def inputs_def routable_def
    normalized_def small_normalized)

lemma small_sorted: "sort_queue small_queue = [small_queue ! 1, small_queue ! 2, small_queue ! 0]"
  by (simp add: sort_queue_def small_queue_def queue_less_def)

lemma small_accepted: "ns_value s = VU32 x \<Longrightarrow> accepted identity_tinyexpr u32_config ns_value s"
  by (simp add: accepted_def CheckSampleValueType_def u32_config_def MetricConfig_def)

lemma small_delta:
  "Delta_ReceiveRawSample identity_tinyexpr u32_config sink \<lparr>ns_operation_id = i, ns_value = VU32 5, ns_timestamp = t\<rparr> (DeltaMetric u32_config, s)
    = (ASTL_STATUS_SUCCESS, (DeltaMetric u32_config)\<lparr>dm_previous := Some \<lparr>ns_operation_id = i, ns_value = VU32 5, ns_timestamp = t\<rparr>\<rparr>, s)"
  using Delta_first [OF small_accepted [of _ 5], of "\<lparr>ns_operation_id = i, ns_value = VU32 5, ns_timestamp = t\<rparr>" "DeltaMetric u32_config"]
  by (simp add: DeltaMetric_def Delta_InitializeSamples_def)

lemma small_delta_next:
  "fst (Delta_ReceiveRawSample identity_tinyexpr u32_config sink \<lparr>ns_operation_id = i, ns_value = VU32 9, ns_timestamp = t'\<rparr>
    ((DeltaMetric u32_config)\<lparr>dm_previous := Some \<lparr>ns_operation_id = i, ns_value = VU32 5, ns_timestamp = t\<rparr>\<rparr>, s)) = ASTL_STATUS_SUCCESS"
proof -
  let ?m = "(DeltaMetric u32_config)\<lparr>dm_previous := Some \<lparr>ns_operation_id = i, ns_value = VU32 5, ns_timestamp = t\<rparr>\<rparr>"
  let ?raw = "\<lparr>ns_operation_id = i, ns_value = VU32 9, ns_timestamp = t'\<rparr>"
  have "dm_sum ?m = VU64 (of_nat 0)"
    using integral_sum_start [OF u32_simps(3)] by (simp add: DeltaMetric_def Delta_InitializeSamples_def)
  then show ?thesis
    using Delta_next [of identity_tinyexpr u32_config ns_value ?raw ?m _ 4 0 sink s] small_accepted [of ?raw 9] by auto
qed

lemma small_value:
  "ns_value raw = VU32 x \<Longrightarrow> \<exists>m' s'. Sampled_ReceiveRawSample identity_tinyexpr u32_config sink raw (m, s) = (ASTL_STATUS_SUCCESS, m', s')"
  using small_accepted [of raw x] by (simp add: Sampled_ReceiveRawSample_def accepted_def Let_def)

lemma small_live:
  "\<exists>mm1 w1. ProcessRawSamples sort_queue (heap_metrics small_environment small_build) [(Some 0, small_samples)]
      (small_manager, small_world) = Some (ASTL_STATUS_SUCCESS, mm1, w1)"
proof -
  have "fst (dispatch_all (heap_metrics small_environment small_build) (sort_queue small_queue) Map.empty small_world) = ASTL_STATUS_SUCCESS"
  proof -
    obtain m' s' where v: "Sampled_ReceiveRawSample identity_tinyexpr u32_config (Some (store_sink 0 3))
        (snd (small_queue ! 1)) (SampledValueMetric u32_config, empty_store) = (ASTL_STATUS_SUCCESS, m', s')"
      using small_value [of "snd (small_queue ! 1)" 4 "Some (store_sink 0 3)" "SampledValueMetric u32_config" empty_store]
      by (auto simp: small_queue_def)
    have n: "fst (Delta_ReceiveRawSample identity_tinyexpr u32_config (Some (store_sink 0 5)) (snd (small_queue ! 0))
        ((DeltaMetric u32_config)\<lparr>dm_previous := Some (snd (small_queue ! 2))\<rparr>, s')) = ASTL_STATUS_SUCCESS"
      using small_delta_next [of "Some (store_sink 0 5)" 9 120 110 s'] by (simp add: small_queue_def)
    show ?thesis
      unfolding small_sorted
      using v n
      by (simp add: small_queue_def small_world_def IsTimestampRegression_def RememberMetricTimestamp_def DispatchNormalizedSample_def
        heap_metrics_def call_object_eq on_object_def small_environment_def small_delta case_prod_beta)
  qed
  moreover have "mm_latest small_manager = Map.empty" by (simp add: small_manager_def MetricManager_def)
  ultimately show ?thesis
    by (simp only: ProcessRawSamples_def fst_conv small_enqueued option.case prod.case DispatchProcessingQueue_def)
      (auto split: prod.split)
qed

lemma small_state:
  "mm_routes small_manager 0 = Some [(9, 5), (7, 3)]" "mm_latest small_manager = Map.empty"
  "batch_visit (wd_store small_world) = None" "wd_objects small_world 5 = Some (0, DeltaObject u32_config (DeltaMetric u32_config))"
  "\<forall>sample\<in>set small_samples. well_typed_marker sample"
  by (simp_all add: small_manager_def MetricManager_def small_world_def small_samples_def well_typed_marker_def)

theorem delta_pipeline_refines_spec_witness:
  "\<exists>mm1 w1. ProcessRawSamples sort_queue (heap_metrics small_environment small_build) [(Some 0, small_samples)]
      (small_manager, small_world) = Some (ASTL_STATUS_SUCCESS, mm1, w1)
    \<and> stored_samples (wd_store w1) 0 5 = [\<lparr>ps_value = VU32 4, ps_timestamp = 120\<rparr>]"
proof -
  obtain mm1 w1 where live: "ProcessRawSamples sort_queue (heap_metrics small_environment small_build) [(Some 0, small_samples)]
      (small_manager, small_world) = Some (ASTL_STATUS_SUCCESS, mm1, w1)"
    using small_live by blast
  have env: "env_tinyexpr small_environment = identity_tinyexpr" by (simp add: small_environment_def)
  have acc: "\<forall>s\<in>set (target_inputs small_manager 5 [(Some 0, small_samples)]). \<not> IsPauseResumeMarkerOperationId (ns_operation_id s) \<longrightarrow>
      accepted (env_tinyexpr small_environment) u32_config ns_value s \<and> unsigned_width 4 (ns_value s)"
    unfolding small_inputs env by (simp add: small_queue_def small_accepted)
  obtain received where r: "mset received = mset (target_inputs small_manager 5 [(Some 0, small_samples)])"
      "sorted (map ns_timestamp received)"
      "let deltas = delta_spec ns_value 4 None (map as_event received) in
       delta_sum deltas < 2 ^ 64 \<longrightarrow> stored_samples (wd_store w1) 0 5 = stored_samples (wd_store small_world) 0 5 @ deltas"
    using delta_pipeline_refines_spec [OF std_sort_queue small_state(5) small_state(4) u32_simps(3) small_state(3) _ live acc]
    unfolding Let_def by (auto simp: small_state(2))
  let ?sorted = "[\<lparr>ns_operation_id = 9, ns_value = VU32 5, ns_timestamp = 110\<rparr>, \<lparr>ns_operation_id = 9, ns_value = VU32 9, ns_timestamp = 120\<rparr>]"
  have "?sorted = received"
    by (rule sorted_samples_unique) (use r(1) [unfolded small_inputs] r(2) in \<open>simp_all add: small_queue_def\<close>)
  then show ?thesis using live r(3) by (auto simp: as_event_def mk_int_def small_world_def Let_def)
qed

end
