(* ===== verification/Procfs_Readers.thy ===== *)
theory Procfs_Readers
  imports Text_Utils Astl_Value
begin

text \<open>
  The field readers of src/impl/procfs: the descriptors of procfs_utils.hpp, the parsers of
  procfs_utils_readers_primitives.cpp and the readers of procfs_utils_readers.cpp.  A path is
  the string the descriptor holds.  std::stod and std::stof are those of the C locale.
\<close>

section \<open>Descriptors\<close>

record KeyValueField =
  kv_relative_path :: string
  kv_field_name :: string
  kv_raw_value_type :: astl_value_type

text \<open>An empty line prefix means the first line that is not empty.\<close>

record TokenField =
  tf_relative_path :: string
  tf_line_prefix :: string
  tf_token_index :: nat
  tf_raw_value_type :: astl_value_type

datatype SplitTokenPart = BEFORE_DELIMITER | AFTER_DELIMITER

record SplitTokenField =
  sf_relative_path :: string
  sf_line_prefix :: string
  sf_token_index :: nat
  sf_delimiter :: char
  sf_part :: SplitTokenPart
  sf_raw_value_type :: astl_value_type

record TokenSumField =
  ts_relative_path :: string
  ts_line_prefix :: string
  ts_token_start_index :: nat
  ts_token_end_index :: nat

record SystemField =
  sys_relative_path :: string
  sys_label :: string
  sys_kind :: string
  sys_rate :: bool

record CpuUtilizationField =
  cu_relative_path :: string
  cu_line_prefix :: string
  cu_iowait :: bool

text \<open>MemUsedField and MemUsedPercentField hold the path only.\<close>

datatype FieldDescriptor =
    KeyValueFieldOf KeyValueField
  | TokenFieldOf TokenField
  | SplitTokenFieldOf SplitTokenField
  | TokenSumFieldOf TokenSumField
  | CpuUtilizationFieldOf CpuUtilizationField
  | MemUsedField string
  | MemUsedPercentField string
  | SystemFieldOf SystemField

fun descriptor_path :: "FieldDescriptor \<Rightarrow> string" where
  "descriptor_path (KeyValueFieldOf f) = kv_relative_path f"
| "descriptor_path (TokenFieldOf f) = tf_relative_path f"
| "descriptor_path (SplitTokenFieldOf f) = sf_relative_path f"
| "descriptor_path (TokenSumFieldOf f) = ts_relative_path f"
| "descriptor_path (CpuUtilizationFieldOf f) = cu_relative_path f"
| "descriptor_path (MemUsedField p) = p"
| "descriptor_path (MemUsedPercentField p) = p"
| "descriptor_path (SystemFieldOf f) = sys_relative_path f"

section \<open>std::stod and std::stof\<close>

text \<open>
  The number at the start of the text, as strtod reads it: an optional sign, then inf, infinity,
  nan with an optional parenthesised sequence, a hexadecimal number with an optional binary
  exponent, or a decimal number with an optional exponent.  The number is exact here and rounded
  by the caller; the rest of the text is returned.
\<close>

datatype scanned = SInf | SNaN | SNumber rat

definition lower_char :: "char \<Rightarrow> char" where
  "lower_char c =
    (if 65 \<le> (of_char c :: nat) \<and> of_char c \<le> (90 :: nat) then char_of (of_char c + 32 :: nat) else c)"

definition starts_nocase :: "string \<Rightarrow> string \<Rightarrow> bool" where
  "starts_nocase w s \<longleftrightarrow> map lower_char (take (length w) s) = w"

definition isxdigit :: "char \<Rightarrow> bool" where
  "isxdigit c \<longleftrightarrow> isdigit c \<or> (97 \<le> (of_char (lower_char c) :: nat) \<and> of_char (lower_char c) \<le> (102 :: nat))"

definition xdigit_value :: "char \<Rightarrow> nat" where
  "xdigit_value c = (if isdigit c then digit_value c else of_char (lower_char c) - 87)"

definition base_value :: "nat \<Rightarrow> string \<Rightarrow> nat" where
  "base_value b ds = foldl (\<lambda>n c. b * n + xdigit_value c) 0 ds"

text \<open>The digits of a mantissa: those before and after the point, and the rest.\<close>

definition scan_mantissa :: "(char \<Rightarrow> bool) \<Rightarrow> string \<Rightarrow> (string \<times> string \<times> string) option" where
  "scan_mantissa digit s =
    (let whole = takeWhile digit s; r = dropWhile digit s;
         (part, rest) = (if r \<noteq> [] \<and> hd r = CHR ''.'' then (takeWhile digit (tl r), dropWhile digit (tl r)) else ([], r))
     in if whole = [] \<and> part = [] then None else Some (whole, part, rest))"

text \<open>The exponent behind the letter e; without digits it is not part of the number.\<close>

definition scan_exponent :: "char \<Rightarrow> string \<Rightarrow> int \<times> string" where
  "scan_exponent e s =
    (if s = [] \<or> lower_char (hd s) \<noteq> e then (0, s)
     else let neg = (tl s \<noteq> [] \<and> hd (tl s) = CHR ''-'');
              signed = (tl s \<noteq> [] \<and> (hd (tl s) = CHR ''-'' \<or> hd (tl s) = CHR ''+''));
              r = (if signed then tl (tl s) else tl s);
              ds = takeWhile isdigit r in
       if ds = [] then (0, s)
       else (if neg then - int (digits_value ds) else int (digits_value ds), dropWhile isdigit r))"

definition scan_number :: "nat \<Rightarrow> nat \<Rightarrow> nat \<Rightarrow> (char \<Rightarrow> bool) \<Rightarrow> char \<Rightarrow> string \<Rightarrow> (scanned \<times> string) option" where
  "scan_number b eb width digit e s =
    map_option (\<lambda>(whole, part, rest).
      let (x, rest') = scan_exponent e rest in
      (SNumber (of_nat (base_value b (whole @ part)) * of_nat eb powi (x - int (width * length part))), rest'))
    (scan_mantissa digit s)"

definition nan_rest :: "string \<Rightarrow> string" where
  "nan_rest s =
    (if s \<noteq> [] \<and> hd s = CHR ''('' then
       let r = dropWhile (\<lambda>c. isdigit c \<or> c = CHR ''_''
             \<or> (97 \<le> (of_char (lower_char c) :: nat) \<and> of_char (lower_char c) \<le> (122 :: nat))) (tl s) in
       if r \<noteq> [] \<and> hd r = CHR '')'' then tl r else s
     else s)"

definition scan_unsigned :: "string \<Rightarrow> (scanned \<times> string) option" where
  "scan_unsigned s =
    (if starts_nocase ''infinity'' s then Some (SInf, drop 8 s)
     else if starts_nocase ''inf'' s then Some (SInf, drop 3 s)
     else if starts_nocase ''nan'' s then Some (SNaN, nan_rest (drop 3 s))
     else if starts_nocase ''0x'' s \<and> scan_mantissa isxdigit (drop 2 s) \<noteq> None
     then scan_number 16 2 4 isxdigit (CHR ''p'') (drop 2 s)
     else scan_number 10 10 1 isdigit (CHR ''e'') s)"

text \<open>
  std::stod and std::stof throw when no number is read, when the rounded number is infinite, and
  when a number below the smallest normal one is not represented exactly.  None is the exception;
  the value comes with the number of characters read.
\<close>

definition std_stof :: "fmt \<Rightarrow> string \<Rightarrow> (fp \<times> nat) option" where
  "std_stof fmt text =
    (let s = dropWhile isspace text;
         neg = (s \<noteq> [] \<and> hd s = CHR ''-'');
         u = (if s \<noteq> [] \<and> (hd s = CHR ''-'' \<or> hd s = CHR ''+'') then tl s else s) in
     case scan_unsigned u of
       None \<Rightarrow> None
     | Some (SInf, rest) \<Rightarrow> Some (FInf neg, length text - length rest)
     | Some (SNaN, rest) \<Rightarrow> Some (FNaN, length text - length rest)
     | Some (SNumber q, rest) \<Rightarrow>
         let q' = (if neg then - q else q); x = fp_of_rat fmt neg q' in
         if \<not> fp_finite x \<or> (0 < q \<and> q < pow2 (emin fmt) \<and> fp_val x \<noteq> q') then None
         else Some (x, length text - length rest))"

section \<open>Values\<close>

definition ParseUnsignedAstlValue :: "nat \<Rightarrow> (nat \<Rightarrow> astl_value) \<Rightarrow> string \<Rightarrow> astl_value result" where
  "ParseUnsignedAstlValue w mk trimmed =
    (case parse_unsigned w trimmed of
       None \<Rightarrow> Inl ASTL_STATUS_BAD_CONFIGURATION
     | Some n \<Rightarrow> Inr (mk n))"

definition ParseFloatingAstlValue :: "fmt \<Rightarrow> (fp \<Rightarrow> astl_value) \<Rightarrow> string \<Rightarrow> astl_value result" where
  "ParseFloatingAstlValue fmt mk trimmed =
    (case std_stof fmt trimmed of
       None \<Rightarrow> Inl ASTL_STATUS_BAD_CONFIGURATION
     | Some (x, parsed_chars) \<Rightarrow>
         if parsed_chars \<noteq> length trimmed then Inl ASTL_STATUS_BAD_CONFIGURATION else Inr (mk x))"

definition ParseAstlValue :: "string \<Rightarrow> astl_value_type \<Rightarrow> astl_value result" where
  "ParseAstlValue token raw_value_type =
    (let trimmed = Trim token in
     if trimmed = [] then Inl ASTL_STATUS_BAD_CONFIGURATION
     else case raw_value_type of
         ASTL_VALUE_UINT64 \<Rightarrow> ParseUnsignedAstlValue 64 (\<lambda>n. VU64 (of_nat n)) trimmed
       | ASTL_VALUE_UINT32 \<Rightarrow> ParseUnsignedAstlValue 32 (\<lambda>n. VU32 (of_nat n)) trimmed
       | ASTL_VALUE_FLOAT64 \<Rightarrow> ParseFloatingAstlValue binary64 VF64 trimmed
       | ASTL_VALUE_FLOAT32 \<Rightarrow> ParseFloatingAstlValue binary32 VF32 trimmed
       | _ \<Rightarrow> Inl ASTL_STATUS_NOT_SUPPORTED)"

definition ParseUint64Token :: "string \<Rightarrow> 64 word result" where
  "ParseUint64Token token =
    (case ParseUint64 token of None \<Rightarrow> Inl ASTL_STATUS_BAD_CONFIGURATION | Some v \<Rightarrow> Inr v)"

section \<open>Lines\<close>

fun find_prefixed_line :: "string \<Rightarrow> string list \<Rightarrow> string option" where
  "find_prefixed_line line_prefix [] = None"
| "find_prefixed_line line_prefix (line # ls) =
    (let trimmed = Trim line in
     if trimmed = [] then find_prefixed_line line_prefix ls
     else if line_prefix = [] then Some trimmed
     else case SplitWhitespace trimmed of
         [] \<Rightarrow> find_prefixed_line line_prefix ls
       | token # _ \<Rightarrow> if token = line_prefix then Some trimmed else find_prefixed_line line_prefix ls)"

definition FindLineByPrefix :: "string \<Rightarrow> string \<Rightarrow> string option" where
  "FindLineByPrefix contents line_prefix = find_prefixed_line line_prefix (view_lines contents)"

definition ReadPrefixedLineTokens :: "string \<Rightarrow> string \<Rightarrow> string list result" where
  "ReadPrefixedLineTokens contents line_prefix =
    (case FindLineByPrefix contents line_prefix of
       None \<Rightarrow> Inl ASTL_STATUS_BAD_CONFIGURATION
     | Some line \<Rightarrow> Inr (SplitWhitespace line))"

section \<open>Readers\<close>

fun read_key_value :: "KeyValueField \<Rightarrow> string list \<Rightarrow> astl_value result" where
  "read_key_value field [] = Inl ASTL_STATUS_BAD_CONFIGURATION"
| "read_key_value field (line # ls) =
    (case ParseKeyValueLine line (CHR '':'') of
       None \<Rightarrow> read_key_value field ls
     | Some (key, v) \<Rightarrow>
         if key = kv_field_name field then
           (case SplitWhitespace v of
              [] \<Rightarrow> Inl ASTL_STATUS_BAD_CONFIGURATION
            | token # _ \<Rightarrow> ParseAstlValue token (kv_raw_value_type field))
         else read_key_value field ls)"

definition ReadKeyValueField :: "string \<Rightarrow> KeyValueField \<Rightarrow> astl_value result" where
  "ReadKeyValueField contents field = read_key_value field (view_lines contents)"

definition ReadTokenField :: "string \<Rightarrow> TokenField \<Rightarrow> astl_value result" where
  "ReadTokenField contents field =
    rbind (ReadPrefixedLineTokens contents (tf_line_prefix field)) (\<lambda>tokens.
      if length tokens \<le> tf_token_index field then Inl ASTL_STATUS_BAD_CONFIGURATION
      else ParseAstlValue (tokens ! tf_token_index field) (tf_raw_value_type field))"

definition ReadSplitTokenField :: "string \<Rightarrow> SplitTokenField \<Rightarrow> astl_value result" where
  "ReadSplitTokenField contents field =
    rbind (ReadPrefixedLineTokens contents (sf_line_prefix field)) (\<lambda>tokens.
      if length tokens \<le> sf_token_index field then Inl ASTL_STATUS_BAD_CONFIGURATION
      else case find_char (sf_delimiter field) (tokens ! sf_token_index field) of
          None \<Rightarrow> Inl ASTL_STATUS_BAD_CONFIGURATION
        | Some (front, back) \<Rightarrow>
            ParseAstlValue (if sf_part field = BEFORE_DELIMITER then front else back) (sf_raw_value_type field))"

text \<open>The sum of the tokens, modulo 2^64 as the code adds them.\<close>

fun sum_tokens :: "string list \<Rightarrow> 64 word \<Rightarrow> 64 word result" where
  "sum_tokens [] acc = Inr acc"
| "sum_tokens (token # tokens) acc = rbind (ParseUint64Token token) (\<lambda>v. sum_tokens tokens (acc + v))"

definition ReadTokenSumField :: "string \<Rightarrow> TokenSumField \<Rightarrow> astl_value result" where
  "ReadTokenSumField contents field =
    rbind (ReadPrefixedLineTokens contents (ts_line_prefix field)) (\<lambda>tokens.
      if ts_token_end_index field < ts_token_start_index field \<or> length tokens \<le> ts_token_end_index field
      then Inl ASTL_STATUS_BAD_CONFIGURATION
      else rbind (sum_tokens (drop (ts_token_start_index field) (take (Suc (ts_token_end_index field)) tokens)) 0)
        (\<lambda>v. Inr (VU64 v)))"

section \<open>Memory\<close>

record MemUsageInKilobytes =
  total_kb :: "64 word"
  used_kb :: "64 word"

definition uint64_field :: "string \<Rightarrow> string \<Rightarrow> KeyValueField" where
  "uint64_field path name = \<lparr>kv_relative_path = path, kv_field_name = name, kv_raw_value_type = ASTL_VALUE_UINT64\<rparr>"

definition ReadRequiredMeminfoValueInKilobytes :: "string \<Rightarrow> string \<Rightarrow> 64 word result" where
  "ReadRequiredMeminfoValueInKilobytes contents name =
    rbind (ReadKeyValueField contents (uint64_field ''meminfo'' name)) (\<lambda>v.
      rbind (ToInt64 v) (\<lambda>n.
        if n < 0 then Inl ASTL_STATUS_BAD_CONFIGURATION else Inr (word_of_int n)))"

definition ReadMemUsageInKilobytes :: "string \<Rightarrow> MemUsageInKilobytes result" where
  "ReadMemUsageInKilobytes contents =
    rbind (ReadRequiredMeminfoValueInKilobytes contents ''MemTotal'') (\<lambda>all_kb.
      rbind (ReadRequiredMeminfoValueInKilobytes contents ''MemAvailable'') (\<lambda>available_kb.
        Inr \<lparr>total_kb = all_kb, used_kb = (if all_kb \<le> available_kb then 0 else all_kb - available_kb)\<rparr>))"

definition ReadMemUsedField :: "string \<Rightarrow> astl_value result" where
  "ReadMemUsedField contents = rbind (ReadMemUsageInKilobytes contents) (\<lambda>usage. Inr (VU64 (used_kb usage)))"

text \<open>static_cast<double>(part) / static_cast<double>(whole)\<close>

definition double_ratio :: "64 word \<Rightarrow> 64 word \<Rightarrow> fp" where
  "double_ratio part whole = fp_div binary64 (fp_of_int binary64 (uint part)) (fp_of_int binary64 (uint whole))"

definition ReadMemUsedPercentField :: "string \<Rightarrow> astl_value result" where
  "ReadMemUsedPercentField contents =
    rbind (ReadMemUsageInKilobytes contents) (\<lambda>usage.
      if total_kb usage = 0 then Inr (VF64 (FZero False))
      else Inr (VF64 (fp_mul binary64 (double_ratio (used_kb usage) (total_kb usage)) (fp_of_int binary64 100))))"

section \<open>Printed numbers\<close>

text \<open>The tokens that a line spells with any blanks before, between and after them.\<close>

definition spells :: "string \<Rightarrow> string list \<Rightarrow> bool" where
  "spells line ts \<longleftrightarrow> (\<exists>pre ps. blank pre \<and> wf_layout ps \<and> line = pre @ lay_out ps \<and> map fst ps = ts)"

lemma spells_split: "spells line ts \<longleftrightarrow> SplitWhitespace line = ts"
proof
  show "spells line ts \<Longrightarrow> SplitWhitespace line = ts" by (auto simp: spells_def SplitWhitespace_blank SplitWhitespace_layout)
  obtain pre ps where l: "blank pre" "wf_layout ps" "line = pre @ lay_out ps" using layout_exists [of line] by blast
  then have "SplitWhitespace line = map fst ps" by (simp add: SplitWhitespace_blank SplitWhitespace_layout)
  then show "SplitWhitespace line = ts \<Longrightarrow> spells line ts" using l unfolding spells_def by metis
qed

lemma spells_lines: "list_all2 spells ls toks \<longleftrightarrow> toks = map SplitWhitespace ls"
  by (auto simp: spells_split list_all2_conv_all_nth intro!: nth_equalityI)

lemma layout_tokens: "wf_layout ps \<Longrightarrow> list_all is_token (map fst ps)"
  by (induction ps rule: wf_layout.induct) (simp_all add: is_token_def)

lemma spells_tokens: "spells line ts \<Longrightarrow> list_all is_token ts"
  using layout_tokens by (auto simp: spells_def)

lemma SplitWhitespace_tokens: "list_all is_token (SplitWhitespace line)"
  using spells_split spells_tokens by blast

lemma layout_more_blanks:
  "wf_layout ps \<Longrightarrow> blank post \<Longrightarrow> ps \<noteq> [] \<Longrightarrow>
    \<exists>ps'. ps' \<noteq> [] \<and> wf_layout ps' \<and> lay_out ps' = lay_out ps @ post \<and> map fst ps' = map fst ps"
proof (induction ps rule: wf_layout.induct)
  case (2 t b ps)
  show ?case
  proof (cases "ps = []")
    case True
    then show ?thesis using 2 by (intro exI [of _ "[(t, b @ post)]"]) simp
  next
    case False
    then obtain ps' where ps': "ps' \<noteq> []" "wf_layout ps'" "lay_out ps' = lay_out ps @ post" "map fst ps' = map fst ps"
      using 2 by auto
    then show ?thesis using 2(2) False by (intro exI [of _ "(t, b) # ps'"]) simp
  qed
qed simp

lemma SplitWhitespace_more_blanks: "blank post \<Longrightarrow> SplitWhitespace (s @ post) = SplitWhitespace s"
proof -
  assume post: "blank post"
  obtain pre ps where s: "blank pre" "wf_layout ps" "s = pre @ lay_out ps" using layout_exists [of s] by blast
  show ?thesis
  proof (cases "ps = []")
    case True
    then show ?thesis
      using s post SplitWhitespace_blank [of "pre @ post" "[]"] SplitWhitespace_blank [of pre "[]"] by simp
  next
    case False
    then obtain ps' where "wf_layout ps'" "lay_out ps' = lay_out ps @ post" "map fst ps' = map fst ps"
      using layout_more_blanks [OF s(2) post] by blast
    then show ?thesis
      using s SplitWhitespace_layout [of ps'] SplitWhitespace_layout [of ps] SplitWhitespace_blank [of pre] by simp
  qed
qed

lemma SplitWhitespace_Trim: "SplitWhitespace (Trim line) = SplitWhitespace line"
proof -
  have blank: "blank (takeWhile isspace s)" for s by (induction s) simp_all
  let ?rest = "dropWhile isspace line"
  have "?rest = rev (takeWhile isspace (rev ?rest) @ dropWhile isspace (rev ?rest))" by (simp only: takeWhile_dropWhile_id rev_rev_ident)
  then have "?rest = Trim line @ rev (takeWhile isspace (rev ?rest))" by (simp only: Trim_def rev_append)
  then have "SplitWhitespace ?rest = SplitWhitespace (Trim line)"
    using SplitWhitespace_more_blanks [of "rev (takeWhile isspace (rev ?rest))" "Trim line"] blank [of "rev ?rest"] by simp
  moreover have "SplitWhitespace line = SplitWhitespace ?rest"
    using SplitWhitespace_blank [OF blank [of line], of ?rest] by simp
  ultimately show ?thesis by simp
qed

definition is_number :: "string \<Rightarrow> bool" where "is_number t \<longleftrightarrow> t \<noteq> [] \<and> list_all isdigit t"

lemma ParseUint64Token_number:
  assumes "is_token t"
  shows "ParseUint64Token t =
    (if is_number t \<and> digits_value t < 2 ^ 64 then Inr (of_nat (digits_value t)) else Inl ASTL_STATUS_BAD_CONFIGURATION)"
proof -
  have parse: "parse_unsigned 64 t = (if is_number t \<and> digits_value t < 2 ^ 64 then Some (digits_value t) else None)"
  proof (cases "parse_unsigned 64 t")
    case None
    then show ?thesis using parse_unsigned_eq [of 64 t "digits_value t"] unfolding is_number_def by simp
  next
    case (Some n)
    then show ?thesis using parse_unsigned_eq [of 64 t n] unfolding is_number_def by simp
  qed
  have "Trim t = t" "t \<noteq> []" using assms by (simp_all add: is_token_def Trim_no_space)
  then show ?thesis unfolding ParseUint64Token_def ParseUint64_def Let_def by (simp add: parse)
qed

lemma ParseUint64Token_show:
  "ParseUint64Token (show_nat n) = (if n < 2 ^ 64 then Inr (of_nat n) else Inl ASTL_STATUS_BAD_CONFIGURATION)"
  using ParseUint64_show [of n] parse_unsigned_None_overflow [of "show_nat n" 64] is_token_show_nat [of n]
  by (auto simp: ParseUint64Token_def ParseUint64_def Let_def Trim_no_space is_token_def digits_value_show_nat)

end
