(* ===== verification/Procfs_Cpu.thy ===== *)
theory Procfs_Cpu
  imports Procfs_Readers
begin

text \<open>
  The CPU lines of /proc/stat: src/impl/procfs/procfs_cpu_utils.cpp, and CalculateCpuUtilization,
  ReadCpuSnapshot and ReadCpuSnapshots of procfs_utils.cpp.
\<close>

section \<open>Snapshots\<close>

record CpuSnapshot =
  cs_total :: "64 word"
  cs_idle :: "64 word"
  cs_iowait :: "64 word"
  cs_has_iowait :: bool

text \<open>The unordered map from CPU names to snapshots, in the order of insertion.\<close>

type_synonym CpuSnapshotMap = "(string \<times> CpuSnapshot) list"

definition kCpuSnapshotRequiredTokenCount :: nat where "kCpuSnapshotRequiredTokenCount = 5"
definition kCpuIdleTokenIndex :: nat where "kCpuIdleTokenIndex = 4"
definition kCpuIoWaitTokenIndex :: nat where "kCpuIoWaitTokenIndex = 5"
definition kCpuLastTotalTokenIndex :: nat where "kCpuLastTotalTokenIndex = 8"

lemmas cpu_constants = kCpuSnapshotRequiredTokenCount_def kCpuIdleTokenIndex_def kCpuIoWaitTokenIndex_def
  kCpuLastTotalTokenIndex_def

definition IsCpuLinePrefix :: "string \<Rightarrow> bool" where
  "IsCpuLinePrefix token \<longleftrightarrow>
    token = ''cpu'' \<or> (take 3 token = ''cpu'' \<and> drop 3 token \<noteq> [] \<and> list_all isdigit (drop 3 token))"

text \<open>The loop over the tokens: the index of the next one, and the total, idle and iowait ticks.\<close>

fun add_ticks :: "nat \<Rightarrow> string list \<Rightarrow> 64 word \<times> 64 word \<times> 64 word \<Rightarrow> (64 word \<times> 64 word \<times> 64 word) result" where
  "add_ticks token_index [] st = Inr st"
| "add_ticks token_index (t # ts) (total_ticks, idle_ticks, iowait_ticks) =
    rbind (ParseUint64Token t) (\<lambda>v.
      if - 1 - total_ticks < v then Inl ASTL_STATUS_BAD_CONFIGURATION
      else add_ticks (Suc token_index) ts
        (total_ticks + v,
         (if token_index = kCpuIdleTokenIndex \<or> token_index = kCpuIoWaitTokenIndex then idle_ticks + v else idle_ticks),
         (if token_index = kCpuIoWaitTokenIndex then v else iowait_ticks)))"

definition ParseCpuSnapshotTokens :: "string list \<Rightarrow> CpuSnapshot result" where
  "ParseCpuSnapshotTokens tokens =
    (if length tokens < kCpuSnapshotRequiredTokenCount then Inl ASTL_STATUS_BAD_CONFIGURATION
     else let last_token_index = min (length tokens - 1) kCpuLastTotalTokenIndex in
       rbind (add_ticks 1 (take last_token_index (tl tokens)) (0, 0, 0)) (\<lambda>(total_ticks, idle_ticks, iowait_ticks).
         Inr \<lparr>cs_total = total_ticks, cs_idle = idle_ticks, cs_iowait = iowait_ticks,
              cs_has_iowait = (kCpuIoWaitTokenIndex < length tokens)\<rparr>))"

definition ParseCpuSnapshotFromContents :: "string \<Rightarrow> string \<Rightarrow> CpuSnapshot result" where
  "ParseCpuSnapshotFromContents contents line_prefix =
    rbind (ReadPrefixedLineTokens contents line_prefix) ParseCpuSnapshotTokens"

text \<open>The loop over the lines; find_first_of(" \t") ends the prefix.\<close>

fun parse_cpu_lines :: "string list \<Rightarrow> CpuSnapshotMap \<Rightarrow> CpuSnapshotMap result" where
  "parse_cpu_lines [] snapshots = Inr snapshots"
| "parse_cpu_lines (l # ls) snapshots =
    (let line = Trim l; line_prefix = takeWhile (\<lambda>c. (of_char c :: nat) \<notin> {32, 9}) line in
     if IsCpuLinePrefix line_prefix then
       rbind (ParseCpuSnapshotTokens (SplitWhitespace line)) (\<lambda>snapshot.
         if map_of snapshots line_prefix \<noteq> None then Inl ASTL_STATUS_BAD_CONFIGURATION
         else parse_cpu_lines ls (snapshots @ [(line_prefix, snapshot)]))
     else parse_cpu_lines ls snapshots)"

definition ParseCpuSnapshotsFromContents :: "string \<Rightarrow> CpuSnapshotMap result" where
  "ParseCpuSnapshotsFromContents contents =
    rbind (parse_cpu_lines (view_lines contents) []) (\<lambda>snapshots.
      if snapshots = [] then Inl ASTL_STATUS_BAD_CONFIGURATION else Inr snapshots)"

definition ReadCpuSnapshot :: "file_reader \<Rightarrow> CpuUtilizationField \<Rightarrow> CpuSnapshot result" where
  "ReadCpuSnapshot files field =
    rbind (files (cu_relative_path field)) (\<lambda>contents. ParseCpuSnapshotFromContents contents (cu_line_prefix field))"

definition ReadCpuSnapshots :: "file_reader \<Rightarrow> string \<Rightarrow> CpuSnapshotMap result" where
  "ReadCpuSnapshots files relative_path = rbind (files relative_path) ParseCpuSnapshotsFromContents"

section \<open>Utilisation\<close>

definition CalculateCpuUtilization :: "CpuSnapshot \<Rightarrow> CpuSnapshot \<Rightarrow> fp" where
  "CalculateCpuUtilization previous current =
    (if cs_total current \<le> cs_total previous then FZero False
     else let total_delta = cs_total current - cs_total previous;
              idle_delta = (if cs_idle previous \<le> cs_idle current then cs_idle current - cs_idle previous else 0);
              busy_delta = (if total_delta \<le> idle_delta then 0 else total_delta - idle_delta);
              percent = fp_mul binary64 (double_ratio busy_delta total_delta) (fp_of_int binary64 100) in
       fp_clamp percent (FZero False) (fp_of_int binary64 100))"

section \<open>What an accepted line holds\<close>

text \<open>The ticks of a line as numbers, the first eight counted.\<close>

definition ticks_total :: "nat list \<Rightarrow> nat" where "ticks_total vs = sum_list (take 8 vs)"

definition ticks_idle :: "nat list \<Rightarrow> nat" where
  "ticks_idle vs = vs ! 3 + (if 4 < length vs then vs ! 4 else 0)"

lemma add_ticks_sums:
  assumes "list_all2 (\<lambda>t n. ParseUint64Token t =
      (if is_number t \<and> n < 2 ^ 64 then Inr (of_nat n) else Inl ASTL_STATUS_BAD_CONFIGURATION)) ts vs"
  shows "add_ticks k ts (t0, i0, w0) =
    (if list_all is_number ts \<and> unat t0 + sum_list vs < 2 ^ 64
     then Inr (t0 + of_nat (sum_list vs),
        i0 + (\<Sum>j<length vs. if k + j = 4 \<or> k + j = 5 then of_nat (vs ! j) else 0),
        (if k \<le> 5 \<and> 5 < k + length vs then of_nat (vs ! (5 - k)) else w0))
     else Inl ASTL_STATUS_BAD_CONFIGURATION)"
  using assms
proof (induction ts vs arbitrary: k t0 i0 w0 rule: list_all2_induct)
  case Nil
  then show ?case using unat_less_pow [of t0] by auto
next
  case (Cons t ts n vs)
  show ?case
  proof (cases "is_number t \<and> n < 2 ^ 64")
    case False
    then show ?thesis using Cons.hyps(1) by auto
  next
    case less: True
    have n: "is_number t" "n < 2 ^ 64" "ParseUint64Token t = Inr (of_nat n)" using Cons.hyps(1) less by simp_all
    from n(2) have u: "unat (of_nat n :: 64 word) = n" by (intro unat_of_nat_less) simp
    have over: "- 1 - t0 < (of_nat n :: 64 word) \<longleftrightarrow> \<not> unat t0 + n < 2 ^ 64"
      using max_minus_less_iff [of t0 "of_nat n :: 64 word"] u by simp
    show ?thesis
  proof (cases "unat t0 + n < 2 ^ 64")
    case False
    then have "\<not> unat t0 + sum_list (n # vs) < 2 ^ 64" by simp
    then show ?thesis using False by (simp add: n over)
  next
    case True
    have ut: "unat (t0 + of_nat n) = unat t0 + n"
      using True u unat_add_le [of t0 "of_nat n :: 64 word"] by simp
    have idle: "(\<Sum>j<length (n # vs). if k + j = 4 \<or> k + j = 5 then of_nat ((n # vs) ! j) else 0) =
        (if k = 4 \<or> k = 5 then of_nat n else 0 :: 64 word)
        + (\<Sum>j<length vs. if Suc k + j = 4 \<or> Suc k + j = 5 then of_nat (vs ! j) else 0)"
      by (simp add: sum.lessThan_Suc_shift del: sum.lessThan_Suc cong: if_cong)
    have wait: "(if Suc k \<le> 5 \<and> 5 < Suc k + length vs then of_nat (vs ! (5 - Suc k))
          else if k = 5 then of_nat n else w0) =
        (if k \<le> 5 \<and> 5 < k + length (n # vs) then of_nat ((n # vs) ! (5 - k)) else w0)"
      by (auto simp: nth_Cons' not_le)
    show ?thesis
      using True Cons.IH [of "Suc k" "t0 + of_nat n" "if k = 4 \<or> k = 5 then i0 + of_nat n else i0"
          "if k = 5 then of_nat n else w0"]
      unfolding idle wait [symmetric]
      by (simp add: n over ut cpu_constants add.assoc)
  qed
  qed
qed


definition cpu_snapshot :: "nat list \<Rightarrow> CpuSnapshot" where
  "cpu_snapshot vs =
    \<lparr>cs_total = of_nat (ticks_total vs), cs_idle = of_nat (ticks_idle vs),
     cs_iowait = (if 4 < length vs then of_nat (vs ! 4) else 0), cs_has_iowait = (4 < length vs)\<rparr>"

lemma sum_two_of_eight:
  "3 < n \<Longrightarrow> n \<le> 8 \<Longrightarrow> (\<Sum>j<n. if Suc j = 4 \<or> Suc j = 5 then f j else (0 :: 64 word)) = f 3 + (if 4 < n then f 4 else 0)"
proof -
  assume n: "3 < n" "n \<le> 8"
  have "(\<Sum>j<n. if Suc j = 4 \<or> Suc j = 5 then f j else (0 :: 64 word)) = sum f {j \<in> {..<n}. Suc j = 4 \<or> Suc j = 5}"
    by (rule sum.inter_filter [symmetric]) simp
  also have "{j \<in> {..<n}. Suc j = 4 \<or> Suc j = 5} = (if 4 < n then {3, 4} else {3})" using n by auto
  finally show ?thesis by simp
qed

text \<open>The first eight columns of a CPU line, behind its label, as numbers.\<close>

definition cpu_ticks :: "string list \<Rightarrow> nat list" where
  "cpu_ticks ts = map digits_value (take 8 ts)"

definition wf_cpu_ticks :: "string list \<Rightarrow> bool" where
  "wf_cpu_ticks ts \<longleftrightarrow> 4 \<le> length ts \<and> list_all is_number (take 8 ts) \<and> ticks_total (cpu_ticks ts) < 2 ^ 64"

lemma ParseCpuSnapshotTokens_ticks:
  assumes "list_all is_token ts"
  shows "ParseCpuSnapshotTokens (l # ts) =
    (if wf_cpu_ticks ts then Inr (cpu_snapshot (cpu_ticks ts)) else Inl ASTL_STATUS_BAD_CONFIGURATION)"
proof (cases "4 \<le> length ts")
  case False
  then show ?thesis by (simp add: ParseCpuSnapshotTokens_def cpu_constants wf_cpu_ticks_def)
next
  case True
  let ?vs = "cpu_ticks ts"
  have "list_all is_token (take 8 ts)" using assms by (auto simp: list_all_iff dest: in_set_takeD)
  then have l2: "list_all2 (\<lambda>t n. ParseUint64Token t =
      (if is_number t \<and> n < 2 ^ 64 then Inr (of_nat n) else Inl ASTL_STATUS_BAD_CONFIGURATION)) (take 8 ts) ?vs"
    unfolding cpu_ticks_def by (induction "take 8 ts" arbitrary: ts) (simp_all add: list_all2_conv_all_nth ParseUint64Token_number list_all_length)
  have len: "length ?vs = min (length ts) 8" by (simp add: cpu_ticks_def)
  have take: "take (min (length ts) 8) ts = take 8 ts" by (cases "length ts \<le> 8") simp_all
  have idle: "(\<Sum>j<length ?vs. if 1 + j = 4 \<or> 1 + j = 5 then of_nat (?vs ! j) else 0 :: 64 word) = of_nat (ticks_idle ?vs)"
    using True sum_two_of_eight [of "length ?vs" "\<lambda>j. of_nat (?vs ! j)"] by (simp add: ticks_idle_def len)
  have total: "sum_list ?vs = ticks_total ?vs" by (simp add: ticks_total_def len)
  show ?thesis
    using True add_ticks_sums [OF l2, of 1 0 0 0] take idle total
    by (auto simp: ParseCpuSnapshotTokens_def Let_def cpu_constants wf_cpu_ticks_def cpu_snapshot_def len)
qed


section \<open>The whole file\<close>

text \<open>
  The name that starts a line: what stands before the first space or tab behind the leading blanks.
  The CPU lines are those whose name is cpu or cpu with a number; each comes with the tokens behind
  its label.
\<close>

definition cpu_prefix :: "string \<Rightarrow> string" where
  "cpu_prefix s = takeWhile (\<lambda>c. (of_char c :: nat) \<notin> {32, 9}) (Trim s)"

definition cpu_rows :: "string list \<Rightarrow> string list list \<Rightarrow> (string \<times> string list) list" where
  "cpu_rows ls toks = map (\<lambda>(l, ts). (cpu_prefix l, tl ts)) (filter (\<lambda>(l, ts). IsCpuLinePrefix (cpu_prefix l)) (zip ls toks))"

definition row_snapshots :: "(string \<times> string list) list \<Rightarrow> CpuSnapshotMap" where
  "row_snapshots rows = map (\<lambda>(l, ts). (l, cpu_snapshot (cpu_ticks ts))) rows"

lemma parse_cpu_lines_rows:
  assumes "list_all2 spells ls toks"
  shows "parse_cpu_lines ls m =
    (if distinct (map fst (cpu_rows ls toks)) \<and> list_all (\<lambda>row. wf_cpu_ticks (snd row)) (cpu_rows ls toks)
        \<and> (\<forall>l\<in>fst ` set (cpu_rows ls toks). map_of m l = None)
     then Inr (m @ row_snapshots (cpu_rows ls toks)) else Inl ASTL_STATUS_BAD_CONFIGURATION)"
  using assms
proof (induction ls toks arbitrary: m rule: list_all2_induct)
  case Nil
  then show ?case by (simp add: cpu_rows_def row_snapshots_def)
next
  case (Cons line ls ts toks)
  show ?case
  proof (cases "IsCpuLinePrefix (cpu_prefix line)")
    case False
    then have "cpu_rows (line # ls) (ts # toks) = cpu_rows ls toks" by (simp add: cpu_rows_def)
    then show ?thesis using Cons.IH [of m] False by (simp add: Let_def cpu_prefix_def)
  next
    case True
    let ?l = "cpu_prefix line"
    have row: "cpu_rows (line # ls) (ts # toks) = (?l, tl ts) # cpu_rows ls toks" using True by (simp add: cpu_rows_def)
    have split: "SplitWhitespace (Trim line) = ts" using Cons.hyps(1) by (simp add: spells_split SplitWhitespace_Trim)
    have "ParseCpuSnapshotTokens ts =
        (if wf_cpu_ticks (tl ts) then Inr (cpu_snapshot (cpu_ticks (tl ts))) else Inl ASTL_STATUS_BAD_CONFIGURATION)"
    proof (cases ts)
      case Nil
      then show ?thesis by (simp add: ParseCpuSnapshotTokens_def cpu_constants wf_cpu_ticks_def)
    next
      case (Cons t ts')
      then show ?thesis using ParseCpuSnapshotTokens_ticks [of ts' t] spells_tokens [OF \<open>spells line ts\<close>] by simp
    qed
    then have "parse_cpu_lines (line # ls) m =
        (if wf_cpu_ticks (tl ts) \<and> map_of m ?l = None
         then parse_cpu_lines ls (m @ [(?l, cpu_snapshot (cpu_ticks (tl ts)))]) else Inl ASTL_STATUS_BAD_CONFIGURATION)"
      using True split by (simp add: Let_def cpu_prefix_def)
    note step = this
    show ?thesis
    proof (cases "wf_cpu_ticks (tl ts) \<and> map_of m ?l = None")
      case False
      then show ?thesis unfolding step if_not_P [OF False] row by auto
    next
      case True
      have "(\<forall>l\<in>N. map_of (m @ [(?l, x)]) l = None) \<longleftrightarrow> (\<forall>l\<in>N. map_of m l = None) \<and> ?l \<notin> N" for N x
        using True by (auto simp: map_add_def split: option.splits if_splits)
      then show ?thesis
        unfolding step if_P [OF True] row Cons.IH using True by (simp add: row_snapshots_def conj_ac)
    qed
  qed
qed

text \<open>
  C31: whatever the text of /proc/stat is, with any blanks before, between and after the tokens of
  its lines and any other lines between them: it is read exactly when it has CPU lines (whose text up
  to the first space or tab, leading blanks aside, is cpu or cpu with a number), names no CPU twice,
  and every CPU line has at least four columns of which the first eight are decimal numbers that add
  up to less than 2^64. Then each CPU gets its total (the first eight columns, no guest
  time), idle (with iowait) and iowait ticks, in the order of the lines; any other text is refused.
\<close>

theorem cpu_parse_inverts_stat:
  assumes "list_all2 spells (view_lines contents) toks" "rows = cpu_rows (view_lines contents) toks"
  shows "ParseCpuSnapshotsFromContents contents =
    (if rows \<noteq> [] \<and> distinct (map fst rows) \<and> list_all (\<lambda>row. wf_cpu_ticks (snd row)) rows then Inr (row_snapshots rows)
     else Inl ASTL_STATUS_BAD_CONFIGURATION)"
  using parse_cpu_lines_rows [OF assms(1), of "[]"]
  by (auto simp: ParseCpuSnapshotsFromContents_def row_snapshots_def assms(2))

text \<open>The first lines of /proc/stat as the kernel prints them, with two blanks behind the label cpu.\<close>

definition example_stat :: "string list" where
  "example_stat = [''cpu  10 0 5 80 3 1 1 0 7 0'', ''cpu0 4 0 2 40'', ''intr 12 0 4'', ''cpufreq 7'']"

theorem cpu_parse_inverts_stat_witness:
  "ParseCpuSnapshotsFromContents (unlines example_stat) =
    Inr [(''cpu'', \<lparr>cs_total = 100, cs_idle = 83, cs_iowait = 3, cs_has_iowait = True\<rparr>),
         (''cpu0'', \<lparr>cs_total = 46, cs_idle = 40, cs_iowait = 0, cs_has_iowait = False\<rparr>)]"
proof -
  let ?toks = "[[''cpu'', ''10'', ''0'', ''5'', ''80'', ''3'', ''1'', ''1'', ''0'', ''7'', ''0''], [''cpu0'', ''4'', ''0'', ''2'', ''40''],
    [''intr'', ''12'', ''0'', ''4''], [''cpufreq'', ''7''], []]"
  have ls: "view_lines (unlines example_stat) = example_stat @ [[]]"
    by (intro view_lines_unlines) (simp add: example_stat_def newline_def)
  have toks: "list_all2 spells (view_lines (unlines example_stat)) ?toks"
    unfolding ls by (simp add: spells_split example_stat_def) (simp add: SplitWhitespace.simps isspace_def Let_def)
  have rows: "[(''cpu'', [''10'', ''0'', ''5'', ''80'', ''3'', ''1'', ''1'', ''0'', ''7'', ''0'']), (''cpu0'', [''4'', ''0'', ''2'', ''40''])]
      = cpu_rows (view_lines (unlines example_stat)) ?toks"
    unfolding ls by (simp add: cpu_rows_def example_stat_def cpu_prefix_def Trim_def isspace_def IsCpuLinePrefix_def isdigit_def)
  show ?thesis
    using cpu_parse_inverts_stat [OF toks rows]
    by (simp add: wf_cpu_ticks_def cpu_ticks_def is_number_def isdigit_def ticks_total_def ticks_idle_def digits_value_def
        digit_value_def row_snapshots_def cpu_snapshot_def)
qed


section \<open>Percentages in double arithmetic\<close>

lemma double_ratio_bounds:
  assumes "b \<le> t" "t \<noteq> 0"
  shows "fp_finite (double_ratio b t)" "0 \<le> fp_val (double_ratio b t)" "fp_val (double_ratio b t) \<le> 1"
    "unat t < 2 ^ 53 \<Longrightarrow> \<bar>fp_val (double_ratio b t) - of_nat (unat b) / of_nat (unat t)\<bar> \<le> pow2 (- 53)"
proof -
  obtain m n where mn: "unat b = m" "unat t = n" by blast
  have lt: "m < 2 ^ 64" "n < 2 ^ 64" using mn unat_less_pow [of b] unat_less_pow [of t] by simp_all
  have m_n: "m \<le> n" "0 < n" using assms mn by (auto simp: word_le_nat_alt unat_gt_0)
  let ?b = "rnd binary64 (of_nat m)" and ?t = "rnd binary64 (of_nat n)"
  note bm = fp_of_nat64 [OF lt(1)] and tn = fp_of_nat64 [OF lt(2)]
  have le: "?b \<le> ?t" using m_n by (intro rnd_mono) simp_all
  have b0: "0 \<le> ?b" by (rule rnd_nonneg) simp
  have t1: "1 \<le> ?t" by (rule tn(3) [OF m_n(2)])
  have q: "0 \<le> ?b / ?t" "?b / ?t \<le> 1" using b0 t1 le by simp_all
  have ne: "fp_val (fp_of_int binary64 (int n)) \<noteq> 0" using t1 unfolding tn(2) by simp
  have "double_ratio b t = fp_div binary64 (fp_of_int binary64 (int m)) (fp_of_int binary64 (int n))"
    by (simp add: double_ratio_def uint_nat mn)
  also note fp_div_finite [OF bm(1) ne, of binary64, unfolded bm(2) tn(2)]
  finally obtain s where r: "double_ratio b t = fp_of_rat binary64 s (?b / ?t)" by (rule that)
  have r0: "fp_rep binary64 0" and r1: "fp_rep binary64 1"
    using fp_rep_int [of binary64 0] fp_rep_int [of binary64 1] by simp_all
  show "fp_finite (double_ratio b t)" "0 \<le> fp_val (double_ratio b t)" "fp_val (double_ratio b t) \<le> 1"
    unfolding r using fp_of_rat_bounds [OF _ r0 r1 q, of s] by simp_all
  assume small: "unat t < 2 ^ 53"
  have "n < 2 ^ 53" "m < 2 ^ 53" using small mn m_n(1) by simp_all
  then have "?b / ?t = of_nat (unat b) / of_nat (unat t)" by (simp only: bm(4) tn(4) mn)
  moreover have "\<bar>rnd binary64 (?b / ?t)\<bar> < pow2 (emax binary64 + 1)"
    using rnd_mono [OF q(1), of binary64] rnd_mono [OF q(2), of binary64] rnd_rep [OF r0] rnd_rep [OF r1]
    by (simp add: pow2_nat)
  note v = fp_of_rat_rnd(2) [OF this, of s]
  have "\<bar>rnd binary64 (?b / ?t) - ?b / ?t\<bar> \<le> pow2 (- 53)"
  proof (cases "?b / ?t = 1")
    case True
    then show ?thesis using rnd_rep [OF r1] by simp
  next
    case False
    then have "?b / ?t < 1" using q(2) by linarith
    then have "?b / ?t < pow2 (- 1 + 1)" by simp
    from rnd_error_below [OF q(1) this, of binary64]
    have "\<bar>rnd binary64 (?b / ?t) - ?b / ?t\<bar> \<le> pow2 (- 54)" by (simp add: emin_def)
    also have "\<dots> \<le> pow2 (- 53)" by (simp only: pow2_le_iff)
    finally show ?thesis .
  qed
  ultimately show "\<bar>fp_val (double_ratio b t) - of_nat (unat b) / of_nat (unat t)\<bar> \<le> pow2 (- 53)"
    unfolding r v by (simp only:)
qed

lemma percent_of_ratio:
  assumes "fp_finite r" "0 \<le> fp_val r" "fp_val r \<le> 1"
  shows "fp_finite (fp_mul binary64 r (fp_of_int binary64 100))"
    "0 \<le> fp_val (fp_mul binary64 r (fp_of_int binary64 100))"
    "fp_val (fp_mul binary64 r (fp_of_int binary64 100)) \<le> 100"
    "\<bar>fp_val (fp_mul binary64 r (fp_of_int binary64 100)) - 100 * fp_val r\<bar> \<le> pow2 (- 47)"
proof -
  have h: "fp_finite (fp_of_int binary64 100)" "fp_val (fp_of_int binary64 100) = 100"
    using fp_of_int_exact [of binary64 100] by simp_all
  obtain s where m: "fp_mul binary64 r (fp_of_int binary64 100) = fp_of_rat binary64 s (fp_val r * 100)"
    using fp_mul_finite [OF assms(1) h(1)] h(2) by auto
  have q: "0 \<le> fp_val r * 100" "fp_val r * 100 \<le> 100" using assms by simp_all
  have r0: "fp_rep binary64 0" and r1: "fp_rep binary64 100"
    using fp_rep_int [of binary64 0] fp_rep_int [of binary64 100] by simp_all
  show "fp_finite (fp_mul binary64 r (fp_of_int binary64 100))"
    "0 \<le> fp_val (fp_mul binary64 r (fp_of_int binary64 100))"
    "fp_val (fp_mul binary64 r (fp_of_int binary64 100)) \<le> 100"
    unfolding m using fp_of_rat_bounds [OF _ r0 r1 q, of s] by simp_all
  have "\<bar>rnd binary64 (fp_val r * 100)\<bar> < pow2 (emax binary64 + 1)"
    using rnd_mono [OF q(1), of binary64] rnd_mono [OF q(2), of binary64] rnd_rep [OF r0] rnd_rep [OF r1]
    by (simp add: pow2_nat)
  note v = fp_of_rat_rnd(2) [OF this, of s]
  have "fp_val r * 100 < pow2 (6 + 1)" using q(2) by (simp add: pow2_nat)
  from rnd_error_below [OF q(1) this, of binary64]
  show "\<bar>fp_val (fp_mul binary64 r (fp_of_int binary64 100)) - 100 * fp_val r\<bar> \<le> pow2 (- 47)"
    unfolding m v by (simp add: emin_def mult.commute)
qed

text \<open>
  C34: a CPU utilisation is a finite number from 0 to 100 whatever the two snapshots hold, 0 when
  no time has passed, and for fewer than 2^53 ticks it is within 2^-45 of the exact percentage of
  busy ticks: rounding never pushes it out of range.
\<close>

theorem cpu_utilization_accurate:
  assumes "u = CalculateCpuUtilization previous current"
    and "all_ticks = unat (cs_total current) - unat (cs_total previous)"
    and "busy = all_ticks - (unat (cs_idle current) - unat (cs_idle previous))"
  shows "fp_finite u \<and> 0 \<le> fp_val u \<and> fp_val u \<le> 100
    \<and> (all_ticks = 0 \<longrightarrow> fp_val u = 0)
    \<and> (0 < all_ticks \<and> all_ticks < 2 ^ 53 \<longrightarrow> \<bar>fp_val u - 100 * of_nat busy / of_nat all_ticks\<bar> \<le> 1 / 2 ^ 45)"
proof (cases "cs_total current \<le> cs_total previous")
  case True
  then show ?thesis using assms by (simp add: CalculateCpuUtilization_def word_le_nat_alt)
next
  case False
  define t where "t = cs_total current - cs_total previous"
  define i where "i = (if cs_idle previous \<le> cs_idle current then cs_idle current - cs_idle previous else 0)"
  define b where "b = (if t \<le> i then 0 else t - i)"
  have t: "unat t = all_ticks" unfolding t_def assms(2) using False by (intro unat_diff_le) simp
  have i: "unat i = unat (cs_idle current) - unat (cs_idle previous)"
    using unat_diff_le [of "cs_idle previous" "cs_idle current"] by (auto simp: i_def word_le_nat_alt not_le)
  have b: "unat b = busy"
    unfolding assms(3) using unat_diff_le [of i t] t i by (auto simp: b_def word_le_nat_alt not_le)
  have bt: "b \<le> t" using b t assms(3) by (simp add: word_le_nat_alt)
  have t0: "t \<noteq> 0" using False by (auto simp: t_def)
  let ?p = "fp_mul binary64 (double_ratio b t) (fp_of_int binary64 100)"
  note ratio = double_ratio_bounds [OF bt t0]
  note p = percent_of_ratio [OF ratio(1-3)]
  have h: "fp_finite (fp_of_int binary64 100)" "fp_val (fp_of_int binary64 100) = 100"
    using fp_of_int_exact [of binary64 100] by simp_all
  have u: "u = ?p"
    unfolding assms(1) CalculateCpuUtilization_def if_not_P [OF False] Let_def t_def [symmetric] i_def [symmetric]
      b_def [symmetric] fp_clamp_def
    using p h by (simp add: fp_lt_finite)
  have "\<bar>fp_val u - 100 * of_nat busy / of_nat all_ticks\<bar> \<le> 1 / 2 ^ 45" if small: "all_ticks < 2 ^ 53"
  proof -
    have "\<bar>fp_val (double_ratio b t) - of_nat busy / of_nat all_ticks\<bar> \<le> pow2 (- 53)"
      using ratio(4) small unfolding b t by simp
    moreover have "\<bar>100 * fp_val (double_ratio b t) - 100 * of_nat busy / of_nat all_ticks\<bar>
        = 100 * \<bar>fp_val (double_ratio b t) - of_nat busy / of_nat all_ticks\<bar>"
      using abs_mult [of 100 "fp_val (double_ratio b t) - of_nat busy / of_nat all_ticks"]
      by (simp add: right_diff_distrib)
    ultimately have "\<bar>100 * fp_val (double_ratio b t) - 100 * of_nat busy / of_nat all_ticks\<bar> \<le> 100 * pow2 (- 53)"
      by linarith
    moreover have "\<bar>fp_val u - 100 * fp_val (double_ratio b t)\<bar> \<le> pow2 (- 47)" unfolding u by (rule p(4))
    ultimately have "\<bar>fp_val u - 100 * of_nat busy / of_nat all_ticks\<bar> \<le> 100 * pow2 (- 53) + pow2 (- 47)" by linarith
    also have "\<dots> \<le> 1 / 2 ^ 45" by (simp add: pow2_def power_int_def power_divide)
    finally show ?thesis .
  qed
  moreover have "all_ticks \<noteq> 0" using t t0 by (metis unat_eq_zero)
  ultimately show ?thesis using p u by blast
qed

theorem cpu_utilization_accurate_witness:
  "\<exists>u. u = CalculateCpuUtilization \<lparr>cs_total = 100, cs_idle = 80, cs_iowait = 0, cs_has_iowait = False\<rparr>
        \<lparr>cs_total = 400, cs_idle = 180, cs_iowait = 0, cs_has_iowait = False\<rparr>
      \<and> fp_val u \<le> 100 \<and> \<bar>fp_val u - 200 / 3\<bar> \<le> 1 / 2 ^ 45"
proof -
  let ?p = "\<lparr>cs_total = 100, cs_idle = 80, cs_iowait = 0, cs_has_iowait = False\<rparr>"
  let ?c = "\<lparr>cs_total = 400, cs_idle = 180, cs_iowait = 0, cs_has_iowait = False\<rparr>"
  have "(300 :: nat) = unat (cs_total ?c) - unat (cs_total ?p)"
    "(200 :: nat) = 300 - (unat (cs_idle ?c) - unat (cs_idle ?p))" by simp_all
  from cpu_utilization_accurate [OF refl this] show ?thesis by (intro exI [of _ "CalculateCpuUtilization ?p ?c"]) simp
qed

end
