(* ===== verification/Procfs_Interrupts.thy ===== *)
theory Procfs_Interrupts
  imports Procfs_Readers
begin

text \<open>
  The tables /proc/interrupts and /proc/softirqs: src/impl/procfs/procfs_interrupt_utils.cpp.
\<close>

section \<open>The table\<close>

definition IsCpuLabel :: "string \<Rightarrow> bool" where
  "IsCpuLabel cpu \<longleftrightarrow> take 3 cpu = ''CPU'' \<and> 3 < length cpu \<and> list_all isdigit (drop 3 cpu)"

text \<open>The unordered map of counters is a function of the CPU's name.\<close>

type_synonym InterruptCounterMap = "string \<Rightarrow> 64 word option"

record InterruptTable =
  it_header :: "string list"
  it_counters :: InterruptCounterMap
  it_identity :: string
  it_rows :: "string list"
  it_components :: "64 word list"
  it_hardware :: bool
  it_software :: bool

definition empty_table :: "bool \<Rightarrow> bool \<Rightarrow> InterruptTable" where
  "empty_table is_hardware is_software =
    \<lparr>it_header = [], it_counters = Map.empty, it_identity = [], it_rows = [], it_components = [],
     it_hardware = is_hardware, it_software = is_software\<rparr>"

text \<open>The loop of ReadHeader: None when a label is bad or there twice.\<close>

fun add_cpus :: "string list \<Rightarrow> InterruptTable \<Rightarrow> InterruptTable option" where
  "add_cpus [] t = Some t"
| "add_cpus (cpu # cpus) t =
    (if \<not> IsCpuLabel cpu \<or> it_counters t cpu \<noteq> None then None
     else add_cpus cpus (t\<lparr>it_counters := (it_counters t)(cpu \<mapsto> 0), it_identity := it_identity t @ cpu @ [newline]\<rparr>))"

definition ReadHeader :: "string \<Rightarrow> InterruptTable \<Rightarrow> InterruptTable option" where
  "ReadHeader line t =
    (let header = SplitWhitespace line in
     if header = [] then None else add_cpus header (t\<lparr>it_header := header\<rparr>))"

definition IsGlobalSummary :: "InterruptTable \<Rightarrow> string \<Rightarrow> bool" where
  "IsGlobalSummary t label \<longleftrightarrow> it_hardware t \<and> (label = ''ERR:'' \<or> label = ''Err:'' \<or> label = ''MIS:'')"

definition ValidateRow :: "string list \<Rightarrow> InterruptTable \<Rightarrow> InterruptTable option" where
  "ValidateRow tokens t =
    (if length tokens \<le> length (it_header t) then None
     else if it_software t \<and> length tokens \<noteq> length (it_header t) + 1 then None
     else let label = hd tokens in
       if 2 \<le> length label \<and> last label = CHR '':'' \<and> label \<notin> set (it_rows t)
       then Some (t\<lparr>it_rows := it_rows t @ [label]\<rparr>) else None)"

text \<open>The loop of AddColumns, over the columns of the header and the tokens behind the label.\<close>

fun add_columns :: "string list \<Rightarrow> string list \<Rightarrow> InterruptCounterMap \<times> 64 word list
    \<Rightarrow> (InterruptCounterMap \<times> 64 word list) option" where
  "add_columns (cpu # cpus) (t # ts) (counters, components) =
    (case ParseUint64Token t of
       Inl e \<Rightarrow> None
     | Inr v \<Rightarrow>
         let sum = the (counters cpu) in
         if - 1 - sum < v then None
         else add_columns cpus ts (counters(cpu \<mapsto> sum + v), components @ [v]))"
| "add_columns cpus ts st = Some st"

definition AddColumns :: "string list \<Rightarrow> InterruptTable \<Rightarrow> InterruptTable option" where
  "AddColumns tokens t =
    map_option (\<lambda>(counters, components). t\<lparr>it_counters := counters, it_components := components\<rparr>)
      (add_columns (it_header t) (tl tokens) (it_counters t, it_components t))"

definition AddRow :: "string \<Rightarrow> InterruptTable \<Rightarrow> InterruptTable option" where
  "AddRow line t =
    (let tokens = SplitWhitespace line in
     if tokens = [] \<or> IsGlobalSummary t (hd tokens) then Some t
     else Option.bind (ValidateRow tokens t) (\<lambda>t1.
       map_option (\<lambda>t2. t2\<lparr>it_identity := it_identity t2 @ hd tokens @ [newline]
           @ unlines (drop (length (it_header t2) + 1) tokens)\<rparr>)
         (AddColumns tokens t1)))"

fun add_rows :: "string list \<Rightarrow> InterruptTable \<Rightarrow> InterruptTable option" where
  "add_rows [] t = Some t"
| "add_rows (l # ls) t = Option.bind (AddRow l t) (add_rows ls)"

text \<open>
  The counters, and what the optional pointers receive: the identity of the source and the
  counts of the single cells.
\<close>

definition ReadInterruptCounters ::
    "file_reader \<Rightarrow> string \<Rightarrow> (InterruptCounterMap \<times> string \<times> 64 word list) result" where
  "ReadInterruptCounters files path =
    rbind (files path) (\<lambda>contents.
      case getline_lines contents of
        [] \<Rightarrow> Inl ASTL_STATUS_BAD_CONFIGURATION
      | line # ls \<Rightarrow>
         (case Option.bind (ReadHeader line (empty_table (path = ''interrupts'') (path = ''softirqs''))) (add_rows ls) of
            None \<Rightarrow> Inl ASTL_STATUS_BAD_CONFIGURATION
          | Some t \<Rightarrow>
              if it_rows t = [] then Inl ASTL_STATUS_BAD_CONFIGURATION
              else Inr (it_counters t, it_identity t, it_components t)))"

section \<open>The table that a text spells\<close>

text \<open>
  The specification works on the tokens of the lines. A row of a controller is a line that is
  neither blank nor a global summary; its label ends with a colon, a count follows for each CPU,
  and in the table of the hardware interrupts a description may follow the counts.
\<close>

definition controller_rows :: "string \<Rightarrow> string list list \<Rightarrow> string list list" where
  "controller_rows path rows =
    filter (\<lambda>ts. ts \<noteq> [] \<and> \<not> (path = ''interrupts'' \<and> hd ts \<in> {''ERR:'', ''Err:'', ''MIS:''})) rows"

definition wf_irq_row :: "string \<Rightarrow> nat \<Rightarrow> string list \<Rightarrow> bool" where
  "wf_irq_row path n ts \<longleftrightarrow> n < length ts \<and> (path = ''softirqs'' \<longrightarrow> length ts = n + 1)
    \<and> 2 \<le> length (hd ts) \<and> last (hd ts) = CHR '':'' \<and> list_all is_number (take n (tl ts))"

definition row_cells :: "nat \<Rightarrow> string list \<Rightarrow> nat list" where
  "row_cells n ts = map digits_value (take n (tl ts))"

text \<open>The exact sum of a CPU's column.\<close>

definition cell :: "string list \<Rightarrow> nat list \<Rightarrow> string \<Rightarrow> nat" where
  "cell header vs cpu = (case map_of (zip header vs) cpu of Some n \<Rightarrow> n | None \<Rightarrow> 0)"

definition column_sum :: "string list \<Rightarrow> string list list \<Rightarrow> string \<Rightarrow> nat" where
  "column_sum header rows cpu = sum_list (map (\<lambda>ts. cell header (row_cells (length header) ts) cpu) rows)"

definition columns :: "string list \<Rightarrow> (string \<Rightarrow> nat) \<Rightarrow> InterruptCounterMap" where
  "columns header s cpu = (if cpu \<in> set header then Some (of_nat (s cpu)) else None)"

definition table_cells :: "string list \<Rightarrow> string list list \<Rightarrow> nat list" where
  "table_cells header rows = concat (map (row_cells (length header)) rows)"

definition rows_identity :: "string list \<Rightarrow> string list list \<Rightarrow> string list" where
  "rows_identity header rows = concat (map (\<lambda>ts. hd ts # drop (length header + 1) ts) rows)"

definition table_ok :: "string \<Rightarrow> string list \<Rightarrow> string list list \<Rightarrow> bool" where
  "table_ok path header rows \<longleftrightarrow> header \<noteq> [] \<and> distinct header \<and> list_all IsCpuLabel header
    \<and> rows \<noteq> [] \<and> distinct (map hd rows) \<and> list_all (wf_irq_row path (length header)) rows
    \<and> (\<forall>cpu\<in>set header. column_sum header rows cpu < 2 ^ 64)"

lemma IsCpuLabel_token: "IsCpuLabel l \<Longrightarrow> is_token l"
proof -
  assume l: "IsCpuLabel l"
  have "list_all (\<lambda>c. \<not> isspace c) (take 3 l) \<and> list_all (\<lambda>c. \<not> isspace c) (drop 3 l)"
    using l digits_no_space [of "drop 3 l"] by (auto simp: IsCpuLabel_def isspace_def)
  then have "list_all (\<lambda>c. \<not> isspace c) (take 3 l @ drop 3 l)" by (simp only: list_all_append)
  then show ?thesis using l by (auto simp: is_token_def IsCpuLabel_def)
qed

lemma add_cpus_labels:
  "add_cpus cpus t =
    (if distinct cpus \<and> list_all IsCpuLabel cpus \<and> (\<forall>cpu\<in>set cpus. it_counters t cpu = None)
     then Some (t\<lparr>it_counters := it_counters t ++ columns cpus (\<lambda>cpu. 0), it_identity := it_identity t @ unlines cpus\<rparr>)
     else None)"
proof (induction cpus arbitrary: t)
  case Nil
  then show ?case by (simp add: columns_def unlines_def map_add_def)
next
  case (Cons cpu cpus)
  let ?t = "t\<lparr>it_counters := (it_counters t)(cpu \<mapsto> 0), it_identity := it_identity t @ cpu @ [newline]\<rparr>"
  have "cpu \<notin> set cpus \<Longrightarrow> (it_counters t)(cpu \<mapsto> 0) ++ columns cpus (\<lambda>cpu. 0) = it_counters t ++ columns (cpu # cpus) (\<lambda>cpu. 0)"
    by (auto simp: columns_def map_add_def fun_eq_iff)
  then show ?case using Cons.IH [of ?t] by (auto simp: unlines_def)
qed

lemma add_columns_sums:
  assumes "distinct cpus" "length cpus \<le> length ts" "list_all is_token ts" "set cpus \<subseteq> set header" "\<forall>cpu\<in>set cpus. s cpu < 2 ^ 64"
  shows "add_columns cpus ts (columns header s, comps) =
    (let vs = map digits_value (take (length cpus) ts) in
     if list_all is_number (take (length cpus) ts) \<and> (\<forall>cpu\<in>set cpus. s cpu + cell cpus vs cpu < 2 ^ 64)
     then Some (columns header (\<lambda>cpu. s cpu + cell cpus vs cpu), comps @ map of_nat vs) else None)"
  using assms
proof (induction cpus arbitrary: ts s comps)
  case Nil
  then show ?case by (cases ts) (simp_all add: cell_def)
next
  case (Cons cpu cpus)
  obtain t ts' where ts: "ts = t # ts'" "length cpus \<le> length ts'" using Cons.prems(2) by (cases ts) auto
  define v where "v = digits_value t"
  let ?vs = "map digits_value (take (length cpus) ts')"
  have tok: "is_token t" "list_all is_token ts'" using Cons.prems(3) ts by simp_all
  have c: "columns header s cpu = Some (of_nat (s cpu))" "s cpu < 2 ^ 64" "cpu \<notin> set cpus"
    using Cons.prems by (auto simp: columns_def)
  have cells: "cell (cpu # cpus) (v # ?vs) x = (if x = cpu then v else cell cpus ?vs x)" for x
    by (simp add: cell_def)
  have out: "cell cpus ?vs cpu = 0" using c(3) ts(2) by (simp add: cell_def map_of_zip_is_None [THEN iffD2] min_def)
  have all: "(\<forall>x\<in>set (cpu # cpus). s x + cell (cpu # cpus) (v # ?vs) x < 2 ^ 64) \<longleftrightarrow>
      s cpu + v < 2 ^ 64 \<and> (\<forall>x\<in>set cpus. s x + cell cpus ?vs x < 2 ^ 64)"
    using c(3) by (auto simp: cells)
  show ?case
  proof (cases "is_number t \<and> s cpu + v < 2 ^ 64")
    case False
    have "ParseUint64Token t = Inl ASTL_STATUS_BAD_CONFIGURATION \<or>
        (ParseUint64Token t = Inr (of_nat v) \<and> - 1 - of_nat (s cpu) < (of_nat v :: 64 word))"
      using False c(2) unfolding max_minus_less_iff by (auto simp: ParseUint64Token_number [OF tok(1)] v_def unat_of_nat_less)
    then have "add_columns (cpu # cpus) ts (columns header s, comps) = None" using c(1) by (auto simp: ts(1) Let_def)
    moreover have "\<not> (list_all is_number (take (length (cpu # cpus)) ts)
        \<and> (\<forall>x\<in>set (cpu # cpus). s x + cell (cpu # cpus) (v # ?vs) x < 2 ^ 64))"
      unfolding all using False by (auto simp: ts(1))
    moreover have "map digits_value (take (length (cpu # cpus)) ts) = v # ?vs" by (simp add: ts(1) v_def)
    ultimately show ?thesis unfolding Let_def by metis
  next
    case True
    then have v: "v < 2 ^ 64" "ParseUint64Token t = Inr (of_nat v)" by (simp_all add: ParseUint64Token_number [OF tok(1)] v_def)
    have fits: "\<not> - 1 - of_nat (s cpu) < (of_nat v :: 64 word)"
      using True c(2) v(1) unfolding max_minus_less_iff by (simp add: unat_of_nat_less)
    have upd: "(columns header s)(cpu \<mapsto> of_nat (s cpu) + of_nat v) = columns header (s(cpu := s cpu + v))"
      using Cons.prems(4) by (auto simp: columns_def fun_eq_iff)
    have step: "add_columns (cpu # cpus) ts (columns header s, comps) =
        add_columns cpus ts' (columns header (s(cpu := s cpu + v)), comps @ [of_nat v])"
      using fits v c(1) upd by (simp add: ts(1) Let_def)
    have bnd: "\<forall>x\<in>set cpus. (s(cpu := s cpu + v)) x < 2 ^ 64" using Cons.prems(5) c(3) by auto
    have sub: "set cpus \<subseteq> set header" "distinct cpus" using Cons.prems by simp_all
    have fin: "columns header (\<lambda>x. (s(cpu := s cpu + v)) x + cell cpus ?vs x) =
        columns header (\<lambda>x. s x + cell (cpu # cpus) (v # ?vs) x)"
      using out by (auto simp: columns_def fun_eq_iff cells)
    have cond: "(\<forall>x\<in>set cpus. (s(cpu := s cpu + v)) x + cell cpus ?vs x < 2 ^ 64)
        = (\<forall>x\<in>set cpus. s x + cell cpus ?vs x < 2 ^ 64)" using c(3) by auto
    have num: "list_all is_number (take (length (cpu # cpus)) ts) = list_all is_number (take (length cpus) ts')"
      "map digits_value (take (length (cpu # cpus)) ts) = v # ?vs"
      using True by (simp_all add: ts(1) v_def)
    show ?thesis
      unfolding num Let_def step Cons.IH [OF sub(2) ts(2) tok(2) sub(1) bnd, unfolded Let_def] fin cond all using True by simp
  qed
qed

lemma AddRow_row:
  assumes "spells line ts" "distinct (it_header t)" "it_hardware t = (path = ''interrupts'')" "it_software t = (path = ''softirqs'')"
    and "it_counters t = columns (it_header t) s" "\<forall>cpu\<in>set (it_header t). s cpu < 2 ^ 64"
    and "ts \<noteq> []" "\<not> (path = ''interrupts'' \<and> hd ts \<in> {''ERR:'', ''Err:'', ''MIS:''})"
  shows "AddRow line t =
    (let vs = row_cells (length (it_header t)) ts in
     if wf_irq_row path (length (it_header t)) ts \<and> hd ts \<notin> set (it_rows t)
        \<and> (\<forall>cpu\<in>set (it_header t). s cpu + cell (it_header t) vs cpu < 2 ^ 64)
     then Some (t\<lparr>it_counters := columns (it_header t) (\<lambda>cpu. s cpu + cell (it_header t) vs cpu),
       it_identity := it_identity t @ unlines (hd ts # drop (length (it_header t) + 1) ts), it_rows := it_rows t @ [hd ts],
       it_components := it_components t @ map of_nat vs\<rparr>)
     else None)"
proof -
  let ?n = "length (it_header t)"
  have tok: "SplitWhitespace line = ts" "list_all is_token (tl ts)"
    using assms(1) spells_split spells_tokens [OF assms(1)] assms(7) by (auto simp: list_all_iff dest: list.set_sel(2))
  have no: "\<not> IsGlobalSummary t (hd ts)" using assms(3,8) by (auto simp: IsGlobalSummary_def)
  let ?valid = "?n < length ts \<and> (path = ''softirqs'' \<longrightarrow> length ts = ?n + 1) \<and> 2 \<le> length (hd ts) \<and> last (hd ts) = CHR '':''
      \<and> hd ts \<notin> set (it_rows t)"
  have val: "ValidateRow ts t = (if ?valid then Some (t\<lparr>it_rows := it_rows t @ [hd ts]\<rparr>) else None)"
    using assms(4) by (auto simp: ValidateRow_def Let_def)
  show ?thesis
  proof (cases ?valid)
    case False
    then show ?thesis using no assms(7) by (auto simp: AddRow_def tok(1) val Let_def wf_irq_row_def)
  next
    case True
    have len: "?n \<le> length (tl ts)" using True [THEN conjunct1] by simp
    have val': "ValidateRow ts t = Some (t\<lparr>it_rows := it_rows t @ [hd ts]\<rparr>)" unfolding val using True by (rule if_P)
    have wf: "wf_irq_row path ?n ts \<longleftrightarrow> list_all is_number (take ?n (tl ts))" using True by (auto simp: wf_irq_row_def)
    have row: "AddRow line t = map_option (\<lambda>t2. t2\<lparr>it_identity := it_identity t2 @ hd ts @ [newline]
           @ unlines (drop (length (it_header t2) + 1) ts)\<rparr>) (AddColumns ts (t\<lparr>it_rows := it_rows t @ [hd ts]\<rparr>))"
      using no assms(7) by (simp add: AddRow_def tok(1) val')
    let ?vs = "row_cells ?n ts"
    have add: "AddColumns ts (t\<lparr>it_rows := it_rows t @ [hd ts]\<rparr>) =
      (if list_all is_number (take ?n (tl ts)) \<and> (\<forall>cpu\<in>set (it_header t). s cpu + cell (it_header t) ?vs cpu < 2 ^ 64)
       then Some (t\<lparr>it_rows := it_rows t @ [hd ts], it_counters := columns (it_header t) (\<lambda>cpu. s cpu + cell (it_header t) ?vs cpu),
         it_components := it_components t @ map of_nat ?vs\<rparr>) else None)"
      using add_columns_sums [OF assms(2) len tok(2) subset_refl assms(6), of "it_components t"]
      by (simp add: AddColumns_def assms(5) row_cells_def Let_def)
    show ?thesis
      unfolding row add wf Let_def using True by (simp add: unlines_def)
  qed
qed

lemma column_sum_Cons: "column_sum header (ts # rows) cpu = cell header (row_cells (length header) ts) cpu + column_sum header rows cpu"
  by (simp add: column_sum_def)

lemma add_rows_sums:
  assumes "list_all2 spells ls toks" "rows = controller_rows path toks"
    and "it_header t = header" "distinct header" "it_hardware t = (path = ''interrupts'')" "it_software t = (path = ''softirqs'')"
    and "it_counters t = columns header s" "\<forall>cpu\<in>set header. s cpu < 2 ^ 64"
  shows "add_rows ls t =
    (if list_all (wf_irq_row path (length header)) rows \<and> distinct (map hd rows) \<and> set (map hd rows) \<inter> set (it_rows t) = {}
        \<and> (\<forall>cpu\<in>set header. s cpu + column_sum header rows cpu < 2 ^ 64)
     then Some (t\<lparr>it_counters := columns header (\<lambda>cpu. s cpu + column_sum header rows cpu),
       it_identity := it_identity t @ unlines (rows_identity header rows), it_rows := it_rows t @ map hd rows,
       it_components := it_components t @ map of_nat (table_cells header rows)\<rparr>)
     else None)"
  using assms
proof (induction ls toks arbitrary: t s rows rule: list_all2_induct)
  case Nil
  then show ?case by (simp add: controller_rows_def column_sum_def rows_identity_def table_cells_def unlines_def)
next
  case (Cons line ls ts toks)
  let ?counted = "ts \<noteq> [] \<and> \<not> (path = ''interrupts'' \<and> hd ts \<in> {''ERR:'', ''Err:'', ''MIS:''})"
  show ?case
  proof (cases ?counted)
    case False
    have "AddRow line t = Some t"
      using False Cons.hyps(1) Cons.prems(4) by (auto simp: AddRow_def spells_split Let_def IsGlobalSummary_def)
    moreover have "rows = controller_rows path toks" using False Cons.prems(1) by (auto simp: controller_rows_def)
    ultimately show ?thesis using Cons.IH [OF _ Cons.prems(2-7), of rows] by simp
  next
    case True
    define rest where "rest = controller_rows path toks"
    let ?vs = "row_cells (length header) ts"
    have rows: "rows = ts # rest" using True Cons.prems(1) by (simp add: controller_rows_def rest_def)
    note row = AddRow_row [OF Cons.hyps(1), of t path s, unfolded Cons.prems(2),
        OF Cons.prems(3-7) True [THEN conjunct1] True [THEN conjunct2], unfolded Let_def]
    show ?thesis
    proof (cases "wf_irq_row path (length header) ts \<and> hd ts \<notin> set (it_rows t)
        \<and> (\<forall>cpu\<in>set header. s cpu + cell header ?vs cpu < 2 ^ 64)")
      case False
      then have "\<not> (list_all (wf_irq_row path (length header)) rows \<and> distinct (map hd rows)
          \<and> set (map hd rows) \<inter> set (it_rows t) = {} \<and> (\<forall>cpu\<in>set header. s cpu + column_sum header rows cpu < 2 ^ 64))"
        by (auto simp: rows column_sum_Cons simp flip: add.assoc dest: add_lessD1)
      then show ?thesis unfolding add_rows.simps row if_not_P [OF False] by simp
    next
      case True
      let ?t = "t\<lparr>it_counters := columns header (\<lambda>cpu. s cpu + cell header ?vs cpu),
         it_identity := it_identity t @ unlines (hd ts # drop (length header + 1) ts), it_rows := it_rows t @ [hd ts],
         it_components := it_components t @ map of_nat ?vs\<rparr>"
      have "add_rows (line # ls) t = add_rows ls ?t" unfolding add_rows.simps row if_P [OF True] by simp
      also have "\<dots> =
        (if list_all (wf_irq_row path (length header)) rest \<and> distinct (map hd rest) \<and> set (map hd rest) \<inter> set (it_rows ?t) = {}
            \<and> (\<forall>cpu\<in>set header. s cpu + cell header ?vs cpu + column_sum header rest cpu < 2 ^ 64)
         then Some (?t\<lparr>it_counters := columns header (\<lambda>cpu. s cpu + cell header ?vs cpu + column_sum header rest cpu),
           it_identity := it_identity ?t @ unlines (rows_identity header rest), it_rows := it_rows ?t @ map hd rest,
           it_components := it_components ?t @ map of_nat (table_cells header rest)\<rparr>)
         else None)"
        using Cons.prems True by (intro Cons.IH) (simp_all add: rest_def)
      finally show ?thesis
        using True by (auto simp: rows column_sum_Cons add.assoc unlines_def rows_identity_def table_cells_def)
    qed
  qed
qed

lemma ReadInterruptCounters_tokens:
  assumes "files path = Inr text" "list_all2 spells (getline_lines text) toks"
  shows "ReadInterruptCounters files path =
    (case toks of [] \<Rightarrow> Inl ASTL_STATUS_BAD_CONFIGURATION
     | header # rest \<Rightarrow>
        let rows = controller_rows path rest in
        if table_ok path header rows
        then Inr (columns header (column_sum header rows), unlines (header @ rows_identity header rows),
          map of_nat (table_cells header rows))
        else Inl ASTL_STATUS_BAD_CONFIGURATION)"
proof (cases toks)
  case Nil
  then show ?thesis using assms by (simp add: ReadInterruptCounters_def)
next
  case (Cons header rest)
  obtain line ls where ls: "getline_lines text = line # ls" "spells line header" "list_all2 spells ls rest"
    using assms(2) Cons by (auto simp: list_all2_Cons2)
  let ?start = "empty_table (path = ''interrupts'') (path = ''softirqs'')"
  let ?ready = "?start\<lparr>it_header := header, it_counters := columns header (\<lambda>cpu. 0), it_identity := unlines header\<rparr>"
  have head: "ReadHeader line ?start = (if header \<noteq> [] \<and> distinct header \<and> list_all IsCpuLabel header then Some ?ready else None)"
    using ls(2) add_cpus_labels [of header "?start\<lparr>it_header := header\<rparr>"]
    by (simp add: ReadHeader_def spells_split Let_def empty_table_def)
  show ?thesis
  proof (cases "header \<noteq> [] \<and> distinct header \<and> list_all IsCpuLabel header")
    case False
    then have "\<not> table_ok path header rows" for rows by (auto simp: table_ok_def)
    then show ?thesis
      unfolding ReadInterruptCounters_def assms(1) rbind.simps ls(1) list.case head if_not_P [OF False] Cons by (simp add: Let_def)
  next
    case True
    define rows where "rows = controller_rows path rest"
    have "add_rows ls ?ready =
      (if list_all (wf_irq_row path (length header)) rows \<and> distinct (map hd rows) \<and> set (map hd rows) \<inter> set (it_rows ?ready) = {}
          \<and> (\<forall>cpu\<in>set header. 0 + column_sum header rows cpu < 2 ^ 64)
       then Some (?ready\<lparr>it_counters := columns header (\<lambda>cpu. 0 + column_sum header rows cpu),
         it_identity := it_identity ?ready @ unlines (rows_identity header rows), it_rows := it_rows ?ready @ map hd rows,
         it_components := it_components ?ready @ map of_nat (table_cells header rows)\<rparr>)
       else None)"
      using True by (intro add_rows_sums [OF ls(3) rows_def]) (simp_all add: empty_table_def)
    then have run: "Option.bind (ReadHeader line ?start) (add_rows ls) = \<dots>" unfolding head if_P [OF True] by simp
    show ?thesis
      unfolding ReadInterruptCounters_def assms(1) rbind.simps ls(1) list.case run Cons
      using True by (simp add: empty_table_def unlines_def table_ok_def Let_def flip: rows_def)
  qed
qed

text \<open>
  C29: whatever the text of an interrupt table is, with any blanks before, between and after the
  tokens of its lines: the table is read exactly when its first line names distinct CPUs, some row of
  a controller follows, every such row has a label of its own that ends with a colon and a decimal
  count for each CPU, with nothing behind the counts of a software interrupt, and no column adds up
  to 2^64 or more. Then each CPU gets the exact sum of its column, and the identity and the cells
  are those of the rows; blank lines and global summaries of hardware interrupts are skipped. Any
  other text is refused, and no sum wraps.
\<close>

theorem interrupt_columns_exact:
  assumes "files path = Inr text" "list_all2 spells (getline_lines text) toks"
  shows "ReadInterruptCounters files path =
    (case toks of [] \<Rightarrow> Inl ASTL_STATUS_BAD_CONFIGURATION
     | header # rest \<Rightarrow>
        let rows = controller_rows path rest in
        if table_ok path header rows
        then Inr (columns header (column_sum header rows), unlines (header @ rows_identity header rows),
          map of_nat (table_cells header rows))
        else Inl ASTL_STATUS_BAD_CONFIGURATION)"
  using assms by (rule ReadInterruptCounters_tokens)

text \<open>A table as the kernel prints it, with leading blanks, padded columns and a summary.\<close>

definition padded_table :: string where
  "padded_table = unlines [''     CPU0   CPU2'', '' 7:    10     20   GICv3  timer'', ''IPI0:   3   4'', ''Err:   0'']"

lemma padded_tokens:
  "list_all2 spells (getline_lines padded_table)
    [[''CPU0'', ''CPU2''], [''7:'', ''10'', ''20'', ''GICv3'', ''timer''], [''IPI0:'', ''3'', ''4''], [''Err:'', ''0'']]"
proof -
  have "getline_lines padded_table = [''     CPU0   CPU2'', '' 7:    10     20   GICv3  timer'', ''IPI0:   3   4'', ''Err:   0'']"
    unfolding padded_table_def by (rule getline_lines_unlines) (simp add: newline_def)
  then show ?thesis by (simp add: spells_split) (simp add: SplitWhitespace.simps isspace_def Let_def)
qed

theorem interrupt_columns_exact_witness:
  "ReadInterruptCounters (\<lambda>path. Inr padded_table) ''interrupts'' =
    Inr ([''CPU0'' \<mapsto> 13, ''CPU2'' \<mapsto> 24], unlines [''CPU0'', ''CPU2'', ''7:'', ''GICv3'', ''timer'', ''IPI0:''], [10, 20, 3, 4])"
proof -
  have rows: "controller_rows ''interrupts'' [[''7:'', ''10'', ''20'', ''GICv3'', ''timer''], [''IPI0:'', ''3'', ''4''], [''Err:'', ''0'']]
      = [[''7:'', ''10'', ''20'', ''GICv3'', ''timer''], [''IPI0:'', ''3'', ''4'']]"
    by (simp add: controller_rows_def)
  have "table_ok ''interrupts'' [''CPU0'', ''CPU2''] [[''7:'', ''10'', ''20'', ''GICv3'', ''timer''], [''IPI0:'', ''3'', ''4'']]"
    by (simp add: table_ok_def wf_irq_row_def column_sum_def cell_def row_cells_def IsCpuLabel_def is_number_def isdigit_def
        digits_value_def digit_value_def)
  moreover have "columns [''CPU0'', ''CPU2''] (column_sum [''CPU0'', ''CPU2'']
      [[''7:'', ''10'', ''20'', ''GICv3'', ''timer''], [''IPI0:'', ''3'', ''4'']]) = [''CPU0'' \<mapsto> 13, ''CPU2'' \<mapsto> 24]"
    by (auto simp: columns_def column_sum_def cell_def row_cells_def digits_value_def digit_value_def fun_eq_iff)
  ultimately show ?thesis
    using interrupt_columns_exact [OF _ padded_tokens, of "\<lambda>path. Inr padded_table" "''interrupts''"]
    by (simp add: rows rows_identity_def table_cells_def row_cells_def digits_value_def digit_value_def)
qed

end
