(* ===== verification/Procfs_System.thy ===== *)
theory Procfs_System
  imports Procfs_Interrupts "HOL-Library.Sublist"
begin

text \<open>
  The system-wide fields of src/impl/procfs: diskstats and net/dev (procfs_io_utils.cpp), the
  task scans, swap and the dispatch on the field (procfs_system_utils.cpp), and ReadField of
  procfs_utils.cpp.
\<close>

section \<open>Disks and networks\<close>

definition kDiskReadOperationsIndex :: nat where "kDiskReadOperationsIndex = 3"
definition kDiskWriteOperationsIndex :: nat where "kDiskWriteOperationsIndex = 7"
definition kDiskReadSectorsIndex :: nat where "kDiskReadSectorsIndex = 5"
definition kDiskWriteSectorsIndex :: nat where "kDiskWriteSectorsIndex = 9"
definition kBytesPerDiskSector :: "64 word" where "kBytesPerDiskSector = 512"
definition kDiskStatsMinTokenCount :: nat where "kDiskStatsMinTokenCount = 14"
definition kNetworkFieldCount :: nat where "kNetworkFieldCount = 16"
definition kNetworkTxBytesIndex :: nat where "kNetworkTxBytesIndex = 8"

text \<open>
  A reading: the value or the error, the source identity, empty unless the reader sets it, and
  whether the label is missing.
\<close>

type_synonym system_reading = "astl_value result \<times> string \<times> bool"

definition plain_reading :: "astl_value result \<Rightarrow> system_reading" where
  "plain_reading r = (r, [], False)"

definition ParseDiskField :: "string list \<Rightarrow> SystemField \<Rightarrow> system_reading" where
  "ParseDiskField tokens field =
    (let index =
       (if sys_kind field = ''read_operations'' then kDiskReadOperationsIndex
        else if sys_kind field = ''write_operations'' then kDiskWriteOperationsIndex
        else if sys_kind field = ''read_bytes'' then kDiskReadSectorsIndex
        else if sys_kind field = ''write_bytes'' then kDiskWriteSectorsIndex
        else 0) in
     if index = 0 \<or> length tokens < kDiskStatsMinTokenCount
        \<or> ParseUint64Token (tokens ! 0) = Inl ASTL_STATUS_BAD_CONFIGURATION
        \<or> ParseUint64Token (tokens ! 1) = Inl ASTL_STATUS_BAD_CONFIGURATION
     then plain_reading (Inl ASTL_STATUS_BAD_CONFIGURATION)
     else let scale = (if suffix ''bytes'' (sys_kind field) then kBytesPerDiskSector else 1) in
       case ParseUint64Token (tokens ! index) of
         Inl e \<Rightarrow> plain_reading (Inl ASTL_STATUS_BAD_CONFIGURATION)
       | Inr v \<Rightarrow>
           if - 1 div scale < v then plain_reading (Inl ASTL_STATUS_BAD_CONFIGURATION)
           else (Inr (VU64 (v * scale)), tokens ! 0 @ '':'' @ tokens ! 1, False))"

fun read_disk_lines :: "SystemField \<Rightarrow> string list \<Rightarrow> system_reading" where
  "read_disk_lines field [] = (Inl ASTL_STATUS_BAD_CONFIGURATION, [], True)"
| "read_disk_lines field (l # ls) =
    (let tokens = SplitWhitespace l in
     if 3 \<le> length tokens \<and> tokens ! 2 = sys_label field then ParseDiskField tokens field
     else read_disk_lines field ls)"

definition ReadDiskField :: "string \<Rightarrow> SystemField \<Rightarrow> system_reading" where
  "ReadDiskField contents field = read_disk_lines field (getline_lines contents)"

fun read_network_lines :: "SystemField \<Rightarrow> string list \<Rightarrow> system_reading" where
  "read_network_lines field [] = (Inl ASTL_STATUS_BAD_CONFIGURATION, [], True)"
| "read_network_lines field (l # ls) =
    (case find_char (CHR '':'') l of
       None \<Rightarrow> read_network_lines field ls
     | Some (front, back) \<Rightarrow>
         if Trim front \<noteq> sys_label field then read_network_lines field ls
         else let tokens = SplitWhitespace back in
           if length tokens \<noteq> kNetworkFieldCount \<or> (sys_kind field \<noteq> ''rx_bytes'' \<and> sys_kind field \<noteq> ''tx_bytes'')
           then plain_reading (Inl ASTL_STATUS_BAD_CONFIGURATION)
           else plain_reading (ParseAstlValue
                 (tokens ! (if sys_kind field = ''rx_bytes'' then 0 else kNetworkTxBytesIndex)) ASTL_VALUE_UINT64))"

definition ReadNetworkField :: "string \<Rightarrow> SystemField \<Rightarrow> system_reading" where
  "ReadNetworkField contents field = read_network_lines field (getline_lines contents)"

section \<open>Task scans\<close>

text \<open>
  What one scan sees: the subdirectories, the status file of a task, and whether the task's
  directory is there, None when that cannot be told.
\<close>

record task_view =
  tv_subdirectories :: "string list result"
  tv_status :: "string \<Rightarrow> string result"
  tv_exists :: "string \<Rightarrow> bool option"

text \<open>std::get<uint64_t> of a value parsed as ASTL_VALUE_UINT64 is the cast.\<close>

definition ReadTaskThreads :: "task_view \<Rightarrow> string \<Rightarrow> 64 word option result" where
  "ReadTaskThreads view entry =
    (case rbind (tv_status view entry) (\<lambda>contents. ReadKeyValueField contents (uint64_field [] ''Threads'')) of
       Inl e \<Rightarrow> if e \<noteq> ASTL_STATUS_OUT_OF_MEMORY \<and> tv_exists view entry = Some False then Inr None else Inl e
     | Inr v \<Rightarrow> Inr (Some (cast_u64 v)))"

definition is_pid :: "string \<Rightarrow> bool" where "is_pid name \<longleftrightarrow> name \<noteq> [] \<and> list_all isdigit name"

fun scan_entries :: "task_view \<Rightarrow> bool \<Rightarrow> string list \<Rightarrow> 64 word \<Rightarrow> 64 word option result" where
  "scan_entries view threads [] count = Inr (Some count)"
| "scan_entries view threads (name # names) count =
    (if \<not> is_pid name then scan_entries view threads names count
     else if \<not> threads then scan_entries view threads names (count + 1)
     else rbind (ReadTaskThreads view name) (\<lambda>r.
       case r of
         None \<Rightarrow> Inr None
       | Some v \<Rightarrow>
           if - 1 - count < v then Inl ASTL_STATUS_BAD_CONFIGURATION
           else scan_entries view threads names (count + v)))"

definition ScanTasks :: "task_view \<Rightarrow> bool \<Rightarrow> 64 word option result" where
  "ScanTasks view threads =
    rbind (tv_subdirectories view) (\<lambda>entries. scan_entries view threads entries 0)"

definition max_attempts :: nat where "max_attempts = 3"

text \<open>The attempts left, the number of the next one.\<close>

fun scan_attempts :: "nat \<Rightarrow> nat \<Rightarrow> (nat \<Rightarrow> task_view) \<Rightarrow> bool \<Rightarrow> astl_value result" where
  "scan_attempts 0 attempt views threads = Inl ASTL_STATUS_FILE_ERROR"
| "scan_attempts (Suc n) attempt views threads =
    rbind (ScanTasks (views attempt) threads) (\<lambda>r.
      case r of Some v \<Rightarrow> Inr (VU64 v) | None \<Rightarrow> scan_attempts n (Suc attempt) views threads)"

definition ReadTaskCount :: "(nat \<Rightarrow> task_view) \<Rightarrow> bool \<Rightarrow> astl_value result" where
  "ReadTaskCount views threads = scan_attempts max_attempts 0 views threads"

section \<open>Swap\<close>

definition kBytesPerMeminfoKilobyte :: "64 word" where "kBytesPerMeminfoKilobyte = 1024"

definition ReadSwapField :: "string \<Rightarrow> SystemField \<Rightarrow> astl_value result" where
  "ReadSwapField contents field =
    (case (ReadKeyValueField contents (uint64_field ''meminfo'' ''SwapTotal''),
           ReadKeyValueField contents (uint64_field ''meminfo'' ''SwapFree'')) of
       (Inr swap_total, Inr swap_free) \<Rightarrow>
         (let all_kb = cast_u64 swap_total; free_kb = cast_u64 swap_free;
              in_use = (if free_kb < all_kb then all_kb - free_kb else 0) in
          if sys_kind field = ''swap_occupancy'' then
            Inr (VF64 (if all_kb = 0 then FZero False
              else fp_mul binary64 (fp_of_int binary64 100) (double_ratio in_use all_kb)))
          else if - 1 div kBytesPerMeminfoKilobyte < in_use then Inl ASTL_STATUS_BAD_CONFIGURATION
          else Inr (VU64 (in_use * kBytesPerMeminfoKilobyte)))
     | _ \<Rightarrow> Inl ASTL_STATUS_BAD_CONFIGURATION)"

definition ReadMeminfoSystemField :: "string \<Rightarrow> SystemField \<Rightarrow> astl_value result" where
  "ReadMeminfoSystemField contents field =
    (if sys_kind field = ''swap_used'' \<or> sys_kind field = ''swap_occupancy'' then ReadSwapField contents field
     else if sys_kind field = ''swap_total'' then
       (case ReadKeyValueField contents (uint64_field ''meminfo'' ''SwapTotal'') of
          Inl e \<Rightarrow> Inl ASTL_STATUS_BAD_CONFIGURATION
        | Inr v \<Rightarrow>
            if - 1 div kBytesPerMeminfoKilobyte < cast_u64 v then Inl ASTL_STATUS_BAD_CONFIGURATION
            else Inr (VU64 (cast_u64 v * kBytesPerMeminfoKilobyte)))
     else Inl ASTL_STATUS_BAD_CONFIGURATION)"

section \<open>The dispatch on the field\<close>

definition ReadInterruptField :: "file_reader \<Rightarrow> SystemField \<Rightarrow> astl_value result" where
  "ReadInterruptField files field =
    rbind (ReadInterruptCounters files (sys_relative_path field)) (\<lambda>(counters, identity, components).
      case counters (sys_label field) of
        None \<Rightarrow> Inl ASTL_STATUS_BAD_CONFIGURATION
      | Some v \<Rightarrow> Inr (VU64 v))"

definition ReadSystemContents :: "string \<Rightarrow> SystemField \<Rightarrow> system_reading" where
  "ReadSystemContents contents field =
    (let path = sys_relative_path field in
     if path = ''meminfo'' then plain_reading (ReadMeminfoSystemField contents field)
     else if path = ''stat'' \<or> path = ''vmstat'' then
       plain_reading (ReadTokenField contents
         \<lparr>tf_relative_path = path, tf_line_prefix = sys_kind field, tf_token_index = 1, tf_raw_value_type = ASTL_VALUE_UINT64\<rparr>)
     else if path = ''net/dev'' then ReadNetworkField contents field
     else if path = ''diskstats'' then ReadDiskField contents field
     else plain_reading (Inl ASTL_STATUS_BAD_CONFIGURATION))"

definition ReadSystemField :: "file_reader \<Rightarrow> (nat \<Rightarrow> task_view) \<Rightarrow> SystemField \<Rightarrow> system_reading" where
  "ReadSystemField files views field =
    (if sys_kind field = ''processes'' \<or> sys_kind field = ''threads''
     then plain_reading (ReadTaskCount views (sys_kind field = ''threads''))
     else if sys_kind field = ''interrupts'' then plain_reading (ReadInterruptField files field)
     else case files (sys_relative_path field) of
         Inl e \<Rightarrow> plain_reading (Inl e)
       | Inr contents \<Rightarrow> ReadSystemContents contents field)"

definition ReadField :: "file_reader \<Rightarrow> (nat \<Rightarrow> task_view) \<Rightarrow> FieldDescriptor \<Rightarrow> astl_value result" where
  "ReadField files views descriptor =
    (case descriptor of
       SystemFieldOf field \<Rightarrow> fst (ReadSystemField files views field)
     | _ \<Rightarrow> rbind (files (descriptor_path descriptor)) (\<lambda>contents.
         case descriptor of
           KeyValueFieldOf field \<Rightarrow> ReadKeyValueField contents field
         | TokenFieldOf field \<Rightarrow> ReadTokenField contents field
         | SplitTokenFieldOf field \<Rightarrow> ReadSplitTokenField contents field
         | TokenSumFieldOf field \<Rightarrow> ReadTokenSumField contents field
         | MemUsedField _ \<Rightarrow> ReadMemUsedField contents
         | MemUsedPercentField _ \<Rightarrow> ReadMemUsedPercentField contents
         | _ \<Rightarrow> Inl ASTL_STATUS_NOT_SUPPORTED))"


section \<open>A task count is never an incomplete sum\<close>

text \<open>The threads of a task as a scan reads them.\<close>

definition task_threads :: "task_view \<Rightarrow> string \<Rightarrow> nat option" where
  "task_threads view pid =
    (case rbind (tv_status view pid) (\<lambda>contents. ReadKeyValueField contents (uint64_field [] ''Threads'')) of
       Inl e \<Rightarrow> None | Inr v \<Rightarrow> Some (unat (cast_u64 v)))"

definition task_weight :: "task_view \<Rightarrow> bool \<Rightarrow> string \<Rightarrow> nat option" where
  "task_weight view threads pid = (if threads then task_threads view pid else Some 1)"

text \<open>The spec: a scan is complete when every task could be read; its count is the exact sum.\<close>

definition complete_scan :: "task_view \<Rightarrow> bool \<Rightarrow> string list \<Rightarrow> bool" where
  "complete_scan view threads names \<longleftrightarrow> (\<forall>pid\<in>set (filter is_pid names). task_weight view threads pid \<noteq> None)"

definition task_sum :: "task_view \<Rightarrow> bool \<Rightarrow> string list \<Rightarrow> nat" where
  "task_sum view threads names = (\<Sum>pid\<leftarrow>filter is_pid names. the (task_weight view threads pid))"

lemma ReadTaskThreads_Some:
  "ReadTaskThreads view pid = Inr (Some v) \<Longrightarrow> task_threads view pid = Some (unat v)"
  by (auto simp: ReadTaskThreads_def task_threads_def split: sum.splits if_splits)

lemma ReadTaskThreads_None:
  "ReadTaskThreads view pid = Inr None \<Longrightarrow> tv_exists view pid = Some False \<and> task_threads view pid = None"
  by (auto simp: ReadTaskThreads_def task_threads_def split: sum.splits if_splits)

lemma scan_entries_sum:
  assumes "scan_entries view threads names count = Inr (Some v)" "threads \<or> unat count + length names < 2 ^ 64"
  shows "complete_scan view threads names \<and> unat v = unat count + task_sum view threads names"
  using assms
proof (induction names arbitrary: count)
  case Nil
  then show ?case by (simp add: complete_scan_def task_sum_def)
next
  case (Cons name names)
  note cs = complete_scan_def task_sum_def
  consider (other) "\<not> is_pid name" | (task) "is_pid name" "\<not> threads" | (thread) "is_pid name" "threads" by blast
  then show ?case
  proof cases
    case other
    have "threads \<or> unat count + length names < 2 ^ 64" using Cons.prems(2) by auto
    then show ?thesis using other Cons.prems(1) Cons.IH [of count] by (simp add: cs)
  next
    case task
    have "unat (count + 1) = unat count + 1" using Cons.prems(2) task unat_add_le [of count 1] by simp
    then show ?thesis using task Cons.IH [of "count + 1"] Cons.prems by (simp add: cs task_weight_def)
  next
    case thread
    then obtain w where w: "ReadTaskThreads view name = Inr (Some w)" "\<not> - 1 - count < w"
        "scan_entries view threads names (count + w) = Inr (Some v)"
      using Cons.prems(1) by (auto split: option.splits if_splits)
    then have "unat (count + w) = unat count + unat w"
      using max_minus_less_iff [of count w] unat_add_le [of count w] by simp
    then show ?thesis
      using thread w(3) ReadTaskThreads_Some [OF w(1)] Cons.IH [OF w(3)] by (simp add: cs task_weight_def)
  qed
qed


lemma scan_entries_gone:
  "scan_entries view threads names count = Inr None \<Longrightarrow>
   threads \<and> (\<exists>pid\<in>set names. is_pid pid \<and> tv_exists view pid = Some False \<and> task_threads view pid = None)"
proof (induction names arbitrary: count)
  case (Cons name names)
  show ?case
  proof (cases "is_pid name \<and> threads \<and> ReadTaskThreads view name = Inr None")
    case True
    then show ?thesis using ReadTaskThreads_None by simp
  next
    case False
    have "\<exists>count'. scan_entries view threads names count' = Inr None"
    proof (cases "is_pid name \<and> threads")
      case True
      then obtain w where "ReadTaskThreads view name = Inr (Some w)" using Cons.prems False by auto
      then show ?thesis using True Cons.prems by (auto split: if_splits)
    next
      case no: False
      then show ?thesis using Cons.prems by (auto split: if_splits)
    qed
    then show ?thesis using Cons.IH by auto
  qed
qed simp

lemma scan_attempts_Inr:
  assumes "scan_attempts n a views threads = Inr r"
  shows "\<exists>k<n. \<exists>v. ScanTasks (views (a + k)) threads = Inr (Some v) \<and> r = VU64 v
    \<and> (\<forall>j<k. ScanTasks (views (a + j)) threads = Inr None)"
  using assms
proof (induction n arbitrary: a)
  case (Suc n)
  then obtain x where x: "ScanTasks (views a) threads = Inr x" by auto
  show ?case
  proof (cases x)
    case (Some v)
    then show ?thesis using Suc.prems x by (intro exI [of _ 0]) auto
  next
    case None
    then have "scan_attempts n (Suc a) views threads = Inr r" using Suc.prems x by simp
    from Suc.IH [OF this] obtain k v where kv: "k < n" "ScanTasks (views (Suc a + k)) threads = Inr (Some v)" "r = VU64 v"
      "\<forall>j<k. ScanTasks (views (Suc a + j)) threads = Inr None" by blast
    have "ScanTasks (views (a + j)) threads = Inr None" if "j < Suc k" for j
      using that kv(4) x None by (cases j) simp_all
    then show ?thesis using kv(1-3) by (intro exI [of _ "Suc k"]) auto
  qed
qed simp

text \<open>
  A task count comes from one complete scan: the exact number of tasks, or the exact sum of
  the threads of all of them.  Each of the at most two earlier scans met a task that had gone
  away; their partial sums never reach the result.
\<close>

theorem task_count_complete:
  assumes "ReadTaskCount views threads = Inr r"
    and "\<forall>k names. tv_subdirectories (views k) = Inr names \<longrightarrow> length names < 2 ^ 64"
  shows "\<exists>k<3. \<exists>names v. tv_subdirectories (views k) = Inr names \<and> r = VU64 v
    \<and> complete_scan (views k) threads names \<and> unat v = task_sum (views k) threads names
    \<and> (\<forall>j<k. threads \<and> (\<exists>gone pid. tv_subdirectories (views j) = Inr gone \<and> pid \<in> set gone \<and> is_pid pid
          \<and> tv_exists (views j) pid = Some False))"
proof -
  obtain k v where k: "k < 3" "ScanTasks (views k) threads = Inr (Some v)" "r = VU64 v"
      "\<forall>j<k. ScanTasks (views j) threads = Inr None"
    using scan_attempts_Inr [OF assms(1) [unfolded ReadTaskCount_def]] by (auto simp: max_attempts_def)
  obtain names where names: "tv_subdirectories (views k) = Inr names" "scan_entries (views k) threads names 0 = Inr (Some v)"
    using k(2) by (auto simp: ScanTasks_def)
  have "complete_scan (views k) threads names \<and> unat v = task_sum (views k) threads names"
    using scan_entries_sum [OF names(2)] assms(2) names(1) by simp
  moreover have "threads \<and> (\<exists>gone pid. tv_subdirectories (views j) = Inr gone \<and> pid \<in> set gone \<and> is_pid pid
      \<and> tv_exists (views j) pid = Some False)" if "j < k" for j
  proof -
    obtain gone where "tv_subdirectories (views j) = Inr gone" "scan_entries (views j) threads gone 0 = Inr None"
      using k(4) \<open>j < k\<close> by (auto simp: ScanTasks_def)
    then show ?thesis using scan_entries_gone by blast
  qed
  ultimately show ?thesis using k names(1) by blast
qed

text \<open>The second of two tasks goes away during the first scan.\<close>

definition example_views :: "nat \<Rightarrow> task_view" where
  "example_views n =
    \<lparr>tv_subdirectories = Inr (if n = 0 then [''1'', ''net'', ''27''] else [''1'', ''net'']),
     tv_status = (\<lambda>pid. if pid = ''1'' then Inr ''Threads: 5'' else Inl ASTL_STATUS_FILE_OPEN_FAILED),
     tv_exists = (\<lambda>pid. Some (pid = ''1''))\<rparr>"

lemma example_status: "ReadKeyValueField ''Threads: 5'' (uint64_field [] ''Threads'') = Inr (VU64 5)"
  by (simp add: ReadKeyValueField_def view_lines_def newline_def ParseKeyValueLine_def Trim_def isspace_def
      uint64_field_def SplitWhitespace.simps Let_def ParseAstlValue_def ParseUnsignedAstlValue_def parse_unsigned_def
      from_chars_def isdigit_def digits_value_def digit_value_def)

lemma example_threads: "ReadTaskCount example_views True = Inr (VU64 5)"
  by (simp add: ReadTaskCount_def max_attempts_def numeral_3_eq_3 ScanTasks_def example_views_def is_pid_def isdigit_def
      ReadTaskThreads_def example_status cast_u64_def)

theorem task_count_complete_witness:
  "ReadTaskCount example_views True = Inr (VU64 5)
   \<and> (\<exists>k<3. \<exists>names v. tv_subdirectories (example_views k) = Inr names \<and> VU64 5 = VU64 v
    \<and> complete_scan (example_views k) True names \<and> unat v = task_sum (example_views k) True names)"
proof -
  have "\<forall>k names. tv_subdirectories (example_views k) = Inr names \<longrightarrow> length names < 2 ^ 64"
    by (auto simp: example_views_def)
  from task_count_complete [OF example_threads this] show ?thesis using example_threads by blast
qed

end
