(* ===== verification/Procfs_Collector.thy ===== *)
theory Procfs_Collector
  imports Procfs_Cpu Procfs_System Sampling_Collector Samples
begin

text \<open>
  The collector of src/impl/procfs: CounterRateState of procfs_utils.hpp, procfs_collector.cpp,
  procfs_collector_prepare.cpp and procfs_collector_cpu.cpp, which satisfies the contract of a
  collector in Lifecycle.  What is outside the collector, the files, the tasks and the clocks, is
  an argument of the model, one world for each access: env n k is the k-th access of the n-th
  execution of operations.
\<close>

section \<open>Counter rates\<close>

record CounterRateState =
  cr_previous :: "(64 word \<times> int) option"
  cr_source_identity :: string

definition new_rate_state :: CounterRateState where
  "new_rate_state = \<lparr>cr_previous = None, cr_source_identity = []\<rparr>"

text \<open>A time point counts nanoseconds; duration<double> divides the count by 10^9.\<close>

definition seconds_between :: "int \<Rightarrow> int \<Rightarrow> fp" where
  "seconds_between t0 t1 =
    fp_div binary64 (fp_of_int binary64 (wrap64 (t1 - t0))) (fp_of_int binary64 1000000000)"

definition CounterRateState_Sample ::
    "64 word \<Rightarrow> int \<Rightarrow> string \<Rightarrow> CounterRateState \<Rightarrow> fp option \<times> CounterRateState" where
  "CounterRateState_Sample value now identity s =
    ((case cr_previous s of
        None \<Rightarrow> None
      | Some (v0, t0) \<Rightarrow>
          if cr_source_identity s \<noteq> identity \<or> now \<le> t0 \<or> value < v0 then None
          else Some (fp_div binary64 (fp_of_int binary64 (uint (value - v0))) (seconds_between t0 now))),
     \<lparr>cr_previous = Some (value, now), cr_source_identity = identity\<rparr>)"

section \<open>State\<close>

record InterruptSnapshot =
  is_identity :: string
  is_components :: "64 word list"

definition HasReset :: "InterruptSnapshot \<Rightarrow> InterruptSnapshot \<Rightarrow> bool" where
  "HasReset snapshot previous \<longleftrightarrow>
    is_identity previous = is_identity snapshot
    \<and> length (is_components previous) = length (is_components snapshot)
    \<and> list_ex (\<lambda>(now, before). now < before) (zip (is_components snapshot) (is_components previous))"

text \<open>The three maps of earlier readings.\<close>

record baselines =
  previous_interrupt_snapshots :: "string \<Rightarrow> InterruptSnapshot option"
  counter_rates :: "16 word \<Rightarrow> CounterRateState option"
  previous_cpu_snapshots :: "16 word \<Rightarrow> CpuSnapshot option"

definition no_baselines :: baselines where
  "no_baselines =
    \<lparr>previous_interrupt_snapshots = Map.empty, counter_rates = Map.empty, previous_cpu_snapshots = Map.empty\<rparr>"

text \<open>
  A collection's operations are of every collector's kind; the dynamic_cast of the collector
  accepts a ProcfsReadOperation.
\<close>

datatype procfs_operation = ProcfsRead "16 word" FieldDescriptor | ForeignOperation "16 word"

fun procfs_operation_id :: "procfs_operation \<Rightarrow> 16 word" where
  "procfs_operation_id (ProcfsRead i d) = i"
| "procfs_operation_id (ForeignOperation i) = i"

definition ProcfsBuildOperations :: "FieldDescriptor \<Rightarrow> nat \<Rightarrow> procfs_operation list result \<times> nat" where
  "ProcfsBuildOperations descriptor next =
    (case GetNextOperationId next of
       (Inl e, next') \<Rightarrow> (Inl e, next')
     | (Inr i, next') \<Rightarrow> (Inr [ProcfsRead i descriptor], next'))"

record procfs_world =
  pw_files :: file_reader
  pw_tasks :: "nat \<Rightarrow> task_view"
  pw_clock :: int
  pw_native :: "64 word"

record PreparedOperations =
  pr_operations :: "(16 word \<times> FieldDescriptor) list"
  pr_cpu_snapshots :: "string \<Rightarrow> CpuSnapshotMap option"
  pr_interrupt_resets :: "string list"
  pr_interrupt_snapshots :: "string \<Rightarrow> InterruptCounterMap option"
  pr_interrupt_times :: "string \<Rightarrow> int option"
  pr_interrupt_identities :: "string \<Rightarrow> string option"

definition nothing_prepared :: PreparedOperations where
  "nothing_prepared =
    \<lparr>pr_operations = [], pr_cpu_snapshots = Map.empty, pr_interrupt_resets = [], pr_interrupt_snapshots = Map.empty,
     pr_interrupt_times = Map.empty, pr_interrupt_identities = Map.empty\<rparr>"

section \<open>Preparation\<close>

text \<open>The table is read in the first world, the clock in the second one.\<close>

definition PrepareInterruptSnapshot :: "procfs_world \<Rightarrow> procfs_world \<Rightarrow> string \<Rightarrow> PreparedOperations \<Rightarrow> baselines
    \<Rightarrow> astl_status \<times> PreparedOperations \<times> baselines" where
  "PrepareInterruptSnapshot w w' path prepared b =
    (case ReadInterruptCounters (pw_files w) path of
       Inl e \<Rightarrow> (e, prepared, b)
     | Inr (counters, identity, components) \<Rightarrow>
         let snapshot = \<lparr>is_identity = identity, is_components = components\<rparr>;
             reset = (case previous_interrupt_snapshots b path of None \<Rightarrow> False | Some p \<Rightarrow> HasReset snapshot p) in
         (ASTL_STATUS_SUCCESS,
          prepared\<lparr>pr_interrupt_times := (pr_interrupt_times prepared)(path \<mapsto> pw_clock w'),
            pr_interrupt_resets := (if reset then path # pr_interrupt_resets prepared else pr_interrupt_resets prepared),
            pr_interrupt_identities := (pr_interrupt_identities prepared)(path \<mapsto> identity),
            pr_interrupt_snapshots := (pr_interrupt_snapshots prepared)(path \<mapsto> counters)\<rparr>,
          b\<lparr>previous_interrupt_snapshots := (previous_interrupt_snapshots b)(path \<mapsto> snapshot)\<rparr>))"

text \<open>
  One operation of PrepareOperations, the interrupt table and then the CPU snapshots it needs;
  it uses the accesses k to k + 2.
\<close>

definition prepare_operation :: "(nat \<Rightarrow> procfs_world) \<Rightarrow> nat \<Rightarrow> 16 word \<Rightarrow> FieldDescriptor \<Rightarrow> PreparedOperations
    \<Rightarrow> baselines \<Rightarrow> PreparedOperations result \<times> baselines" where
  "prepare_operation env k i descriptor prepared b =
    (let p1 = prepared\<lparr>pr_operations := pr_operations prepared @ [(i, descriptor)]\<rparr> in
     case descriptor of
       SystemFieldOf field \<Rightarrow>
         if sys_kind field = ''interrupts'' \<and> pr_interrupt_snapshots p1 (sys_relative_path field) = None
         then (case PrepareInterruptSnapshot (env k) (env (k + 1)) (sys_relative_path field) p1 b of
                 (status, p2, b2) \<Rightarrow> if status = ASTL_STATUS_SUCCESS then (Inr p2, b2) else (Inl status, b2))
         else (Inr p1, b)
     | CpuUtilizationFieldOf field \<Rightarrow>
         if pr_cpu_snapshots p1 (cu_relative_path field) \<noteq> None then (Inr p1, b)
         else (case ReadCpuSnapshots (pw_files (env (k + 2))) (cu_relative_path field) of
                 Inl e \<Rightarrow> (Inl e, b)
               | Inr snapshots \<Rightarrow>
                   (Inr (p1\<lparr>pr_cpu_snapshots := (pr_cpu_snapshots p1)(cu_relative_path field \<mapsto> snapshots)\<rparr>), b))
     | _ \<Rightarrow> (Inr p1, b))"

fun prepare_operations :: "(nat \<Rightarrow> procfs_world) \<Rightarrow> nat \<Rightarrow> procfs_operation list \<Rightarrow> PreparedOperations \<Rightarrow> baselines
    \<Rightarrow> PreparedOperations result \<times> baselines" where
  "prepare_operations env k [] prepared b = (Inr prepared, b)"
| "prepare_operations env k (ForeignOperation i # ops) prepared b = (Inl ASTL_STATUS_BAD_ARGUMENT, b)"
| "prepare_operations env k (ProcfsRead i descriptor # ops) prepared b =
    (case prepare_operation env k i descriptor prepared b of
       (Inl e, b1) \<Rightarrow> (Inl e, b1)
     | (Inr p1, b1) \<Rightarrow> prepare_operations env (k + 3) ops p1 b1)"

definition PrepareOperations :: "(nat \<Rightarrow> procfs_world) \<Rightarrow> procfs_operation list \<Rightarrow> baselines
    \<Rightarrow> PreparedOperations result \<times> baselines" where
  "PrepareOperations env operations b = prepare_operations env 0 operations nothing_prepared b"

section \<open>Samples\<close>

definition FindCpuSnapshot :: "CpuUtilizationField \<Rightarrow> (string \<Rightarrow> CpuSnapshotMap option) \<Rightarrow> CpuSnapshot result" where
  "FindCpuSnapshot field cache =
    (case cache (cu_relative_path field) of
       None \<Rightarrow> Inl ASTL_STATUS_INTERNAL_ERROR
     | Some snapshots \<Rightarrow>
         (case map_of snapshots (cu_line_prefix field) of
            None \<Rightarrow> Inl ASTL_STATUS_BAD_CONFIGURATION
          | Some snapshot \<Rightarrow> Inr snapshot))"

text \<open>The first branch only writes to the log and is left out.\<close>

definition ReadCpuUtilizationSample :: "16 word \<Rightarrow> CpuUtilizationField \<Rightarrow> CpuSnapshot \<Rightarrow> baselines
    \<Rightarrow> astl_value option \<times> baselines" where
  "ReadCpuUtilizationSample i field snapshot b =
    (let b1 = b\<lparr>previous_cpu_snapshots := (previous_cpu_snapshots b)(i \<mapsto> snapshot)\<rparr> in
     case previous_cpu_snapshots b i of
       None \<Rightarrow> (None, b1)
     | Some old \<Rightarrow>
         if cu_iowait field then
           if \<not> cs_has_iowait snapshot \<or> \<not> cs_has_iowait old \<or> cs_total snapshot \<le> cs_total old
              \<or> cs_iowait snapshot < cs_iowait old
              \<or> cs_total snapshot - cs_total old < cs_iowait snapshot - cs_iowait old
           then (None, b1)
           else (Some (VF64 (fp_div binary64
               (fp_mul binary64 (fp_of_int binary64 100) (fp_of_int binary64 (uint (cs_iowait snapshot - cs_iowait old))))
               (fp_of_int binary64 (uint (cs_total snapshot - cs_total old))))), b1)
         else (Some (VF64 (CalculateCpuUtilization old snapshot)), b1))"

definition ReadSystemSample :: "procfs_world \<Rightarrow> SystemField \<Rightarrow> PreparedOperations \<Rightarrow> system_reading" where
  "ReadSystemSample w field prepared =
    (if sys_kind field \<noteq> ''interrupts'' then ReadSystemField (pw_files w) (pw_tasks w) field
     else case the (pr_interrupt_snapshots prepared (sys_relative_path field)) (sys_label field) of
         None \<Rightarrow> plain_reading (Inl ASTL_STATUS_BAD_CONFIGURATION)
       | Some v \<Rightarrow> plain_reading (Inr (VU64 v)))"

definition ReadRateSample :: "procfs_world \<Rightarrow> 16 word \<Rightarrow> SystemField \<Rightarrow> astl_value \<Rightarrow> PreparedOperations \<Rightarrow> string
    \<Rightarrow> baselines \<Rightarrow> astl_value option result \<times> baselines" where
  "ReadRateSample w i field value prepared source_identity b =
    (case value of
       VU64 counter \<Rightarrow>
         (let path = sys_relative_path field;
              table = (sys_kind field = ''interrupts'');
              sample_time = (if table then the (pr_interrupt_times prepared path) else pw_clock w);
              identity = (if table then the (pr_interrupt_identities prepared path) else source_identity);
              rates = (if table \<and> path \<in> set (pr_interrupt_resets prepared)
                       then (counter_rates b)(i := None) else counter_rates b);
              (rate, s) = CounterRateState_Sample counter sample_time identity
                (case rates i of None \<Rightarrow> new_rate_state | Some s \<Rightarrow> s) in
          (Inr (map_option VF64 rate), b\<lparr>counter_rates := rates(i \<mapsto> s)\<rparr>))
     | _ \<Rightarrow> (Inl ASTL_STATUS_BAD_CONFIGURATION, b))"

text \<open>The field is read in the first world, the clock of a rate in the second one.\<close>

definition ReadFieldSample :: "procfs_world \<Rightarrow> procfs_world \<Rightarrow> 16 word \<Rightarrow> FieldDescriptor \<Rightarrow> PreparedOperations
    \<Rightarrow> baselines \<Rightarrow> astl_value option result \<times> baselines" where
  "ReadFieldSample w w' i descriptor prepared b =
    (case descriptor of
       SystemFieldOf field \<Rightarrow>
         (case ReadSystemSample w field prepared of
            (Inl e, source_identity, missing_label) \<Rightarrow>
              if missing_label then (Inr None, b\<lparr>counter_rates := (counter_rates b)(i := None)\<rparr>)
              else if (sys_kind field = ''threads'' \<or> sys_kind field = ''processes'')
                 \<and> e \<in> {ASTL_STATUS_FILE_ERROR, ASTL_STATUS_FILE_OPEN_FAILED, ASTL_STATUS_BAD_CONFIGURATION}
              then (Inr None, b)
              else (Inl e, b)
          | (Inr value, source_identity, missing_label) \<Rightarrow>
              if sys_rate field then ReadRateSample w' i field value prepared source_identity b
              else (Inr (Some value), b))
     | _ \<Rightarrow>
         (case ReadField (pw_files w) (pw_tasks w) descriptor of
            Inl e \<Rightarrow> (Inl e, b)
          | Inr value \<Rightarrow> (Inr (Some value), b)))"

definition ReadOperationSample :: "procfs_world \<Rightarrow> procfs_world \<Rightarrow> 16 word \<Rightarrow> FieldDescriptor \<Rightarrow> PreparedOperations
    \<Rightarrow> baselines \<Rightarrow> astl_value option result \<times> baselines" where
  "ReadOperationSample w w' i descriptor prepared b =
    (case descriptor of
       CpuUtilizationFieldOf field \<Rightarrow>
         (case FindCpuSnapshot field (pr_cpu_snapshots prepared) of
            Inl e \<Rightarrow> (Inl e, b)
          | Inr snapshot \<Rightarrow> (case ReadCpuUtilizationSample i field snapshot b of (r, b1) \<Rightarrow> (Inr r, b1)))
     | _ \<Rightarrow> ReadFieldSample w w' i descriptor prepared b)"

text \<open>The loop over the prepared operations, two accesses each.\<close>

fun read_samples :: "(nat \<Rightarrow> procfs_world) \<Rightarrow> nat \<Rightarrow> 64 word \<Rightarrow> (16 word \<times> FieldDescriptor) list \<Rightarrow> PreparedOperations
    \<Rightarrow> raw_sample list \<Rightarrow> baselines \<Rightarrow> raw_sample list result \<times> baselines" where
  "read_samples env k native_tick [] prepared samples b = (Inr samples, b)"
| "read_samples env k native_tick ((i, descriptor) # ops) prepared samples b =
    (case ReadOperationSample (env k) (env (k + 1)) i descriptor prepared b of
       (Inl e, b1) \<Rightarrow> (Inl e, b1)
     | (Inr None, b1) \<Rightarrow> read_samples env (k + 2) native_tick ops prepared samples b1
     | (Inr (Some v), b1) \<Rightarrow> read_samples env (k + 2) native_tick ops prepared
           (samples @ [\<lparr>rs_operation_id = i, rs_value = v, rs_raw_tick = native_tick\<rparr>]) b1)"

text \<open>
  The readings of one execution: every failure clears the three maps.  The preparation uses the
  accesses before 3 * length operations, the native clock the next one.
\<close>

definition collect_samples :: "(nat \<Rightarrow> procfs_world) \<Rightarrow> procfs_operation list \<Rightarrow> baselines
    \<Rightarrow> raw_sample list result \<times> baselines" where
  "collect_samples env operations b =
    (case PrepareOperations env operations b of
       (Inl e, b1) \<Rightarrow> (Inl e, no_baselines)
     | (Inr prepared, b1) \<Rightarrow>
         let k = 3 * length operations in
         (case read_samples env (k + 1) (pw_native (env k)) (pr_operations prepared) prepared [] b1 of
            (Inl e, b2) \<Rightarrow> (Inl e, no_baselines)
          | (Inr samples, b2) \<Rightarrow> (Inr samples, b2)))"

section \<open>The collector\<close>

record 't procfs_env =
  pe_world :: "nat \<Rightarrow> nat \<Rightarrow> procfs_world"
  pe_accept :: "('t \<times> raw_sample list) list \<Rightarrow> astl_status"

record 't procfs_collector =
  pc_sink :: bool
  pc_state :: CollectionLifecycleState
  pc_configuration :: "('t, procfs_operation) collection_configuration option"
  pc_sampler :: "periodic_sampler option"
  pc_baselines :: baselines
  pc_executions :: nat
  pc_sunk :: "('t \<times> raw_sample list) list"

definition ProcfsCollector :: "'t procfs_collector" where
  "ProcfsCollector =
    \<lparr>pc_sink = False, pc_state = UNCONFIGURED, pc_configuration = None, pc_sampler = None,
     pc_baselines = no_baselines, pc_executions = 0, pc_sunk = []\<rparr>"

definition Procfs_SetRawSampleSink :: "bool \<Rightarrow> 't procfs_collector \<Rightarrow> 't procfs_collector" where
  "Procfs_SetRawSampleSink sink c = c\<lparr>pc_sink := sink\<rparr>"

definition Procfs_ExecuteCollectionOperations ::
    "'t procfs_env \<Rightarrow> procfs_operation list \<Rightarrow> 't procfs_collector \<Rightarrow> astl_status \<times> 't procfs_collector" where
  "Procfs_ExecuteCollectionOperations env operations c =
    (let n = pc_executions c;
         (collected, b) = collect_samples (pe_world env n) operations (pc_baselines c);
         c1 = c\<lparr>pc_executions := Suc n, pc_baselines := b\<rparr> in
     case collected of
       Inl e \<Rightarrow> (e, c1)
     | Inr samples \<Rightarrow>
         if samples \<noteq> [] \<and> pc_sink c
         then let sunk = pc_sunk c @ [(cfg_target (the (pc_configuration c)), samples)] in
           (pe_accept env sunk, c1\<lparr>pc_sunk := sunk\<rparr>)
         else (ASTL_STATUS_SUCCESS, c1))"

definition Procfs_ConfigureCollection :: "'t procfs_env \<Rightarrow> ('t, procfs_operation) collection_configuration
    \<Rightarrow> 't procfs_collector \<Rightarrow> astl_status \<times> 't procfs_collector" where
  "Procfs_ConfigureCollection env cfg c =
    (if pc_state c \<noteq> UNCONFIGURED \<and> pc_state c \<noteq> CONFIGURED \<and> pc_state c \<noteq> STOPPED
     then (ASTL_STATUS_BAD_CONFIGURATION, c)
     else Procfs_ExecuteCollectionOperations env (operationsBeforeStart (cfg_operations cfg))
            (c\<lparr>pc_baselines := no_baselines, pc_configuration := Some cfg, pc_state := CONFIGURED\<rparr>))"

definition Procfs_ClearCollectionState :: "'t procfs_collector \<Rightarrow> astl_status \<times> 't procfs_collector" where
  "Procfs_ClearCollectionState c =
    (if pc_state c = STARTED \<or> pc_state c = PAUSED then (ASTL_STATUS_COLLECTION_ALREADY_RUNNING, c)
     else (ASTL_STATUS_SUCCESS,
       c\<lparr>pc_sampler := None, pc_baselines := no_baselines, pc_configuration := None, pc_state := UNCONFIGURED\<rparr>))"

definition Procfs_StartIntervalSampling :: "'t procfs_collector \<Rightarrow> astl_status \<times> 't procfs_collector" where
  "Procfs_StartIntervalSampling c =
    (if pc_state c \<noteq> CONFIGURED \<and> pc_state c \<noteq> STOPPED \<and> pc_state c \<noteq> PAUSED
     then (ASTL_STATUS_INTERNAL_ERROR, c)
     else case pc_configuration c of
         None \<Rightarrow> (ASTL_STATUS_INTERNAL_ERROR, c)
       | Some cfg \<Rightarrow>
           if pc_sampler c \<noteq> None then (ASTL_STATUS_INTERNAL_ERROR, c)
           else (ASTL_STATUS_SUCCESS,
             c\<lparr>pc_sampler := Some \<lparr>ps_interval = cfg_sampling_interval cfg, ps_paused = False\<rparr>\<rparr>))"

definition Procfs_ExecuteStartModeOperations :: "'t procfs_env \<Rightarrow> ('t, procfs_operation) collection_configuration
    \<Rightarrow> 't procfs_collector \<Rightarrow> astl_status \<times> 't procfs_collector" where
  "Procfs_ExecuteStartModeOperations env cfg c =
    (let (status, c1) = Procfs_ExecuteCollectionOperations env (operationsAtStart (cfg_operations cfg)) c in
     if status \<noteq> ASTL_STATUS_SUCCESS then (status, c1)
     else case cfg_mode cfg of
         MODE_IMMEDIATE \<Rightarrow> (status, c1)
       | MODE_SNAPSHOT \<Rightarrow> Procfs_ExecuteCollectionOperations env (operationsOnSample (cfg_operations cfg)) c1
       | MODE_SAMPLING \<Rightarrow> Procfs_StartIntervalSampling c1
       | MODE_INVALID n \<Rightarrow> (ASTL_STATUS_BAD_CONFIGURATION, c1))"

definition Procfs_ExecuteStopModeOperations :: "'t procfs_env \<Rightarrow> ('t, procfs_operation) collection_configuration
    \<Rightarrow> 't procfs_collector \<Rightarrow> astl_status \<times> 't procfs_collector" where
  "Procfs_ExecuteStopModeOperations env cfg c =
    (let (status, c1) =
       (case cfg_mode cfg of
          MODE_IMMEDIATE \<Rightarrow> (ASTL_STATUS_SUCCESS, c)
        | MODE_SNAPSHOT \<Rightarrow> Procfs_ExecuteCollectionOperations env (operationsOnSample (cfg_operations cfg)) c
        | MODE_SAMPLING \<Rightarrow> (ASTL_STATUS_SUCCESS, c)
        | MODE_INVALID n \<Rightarrow> (ASTL_STATUS_BAD_CONFIGURATION, c)) in
     if status = ASTL_STATUS_SUCCESS
     then Procfs_ExecuteCollectionOperations env (operationsAtStop (cfg_operations cfg)) c1
     else (status, c1))"

definition Procfs_StartCollection :: "'t procfs_env \<Rightarrow> 't procfs_collector \<Rightarrow> astl_status \<times> 't procfs_collector" where
  "Procfs_StartCollection env c =
    (let status = CheckCollectionLifecycleAction (pc_state c) START in
     if status \<noteq> ASTL_STATUS_SUCCESS then (status, c)
     else case pc_configuration c of
         None \<Rightarrow> (ASTL_STATUS_BAD_CONFIGURATION, c)
       | Some cfg \<Rightarrow>
          (let (r, c1) = Procfs_ExecuteStartModeOperations env cfg (c\<lparr>pc_baselines := no_baselines\<rparr>) in
           (r, if r = ASTL_STATUS_SUCCESS then c1\<lparr>pc_state := STARTED\<rparr> else c1)))"

definition Procfs_PauseCollection :: "'t procfs_collector \<Rightarrow> astl_status \<times> 't procfs_collector" where
  "Procfs_PauseCollection c =
    (let status = CheckCollectionLifecycleAction (pc_state c) PAUSE in
     if status \<noteq> ASTL_STATUS_SUCCESS then (status, c)
     else (ASTL_STATUS_SUCCESS,
       c\<lparr>pc_sampler := map_option (\<lambda>p. p\<lparr>ps_paused := True\<rparr>) (pc_sampler c), pc_state := PAUSED\<rparr>))"

definition Procfs_ResumeCollection :: "'t procfs_collector \<Rightarrow> astl_status \<times> 't procfs_collector" where
  "Procfs_ResumeCollection c =
    (let status = CheckCollectionLifecycleAction (pc_state c) RESUME in
     if status \<noteq> ASTL_STATUS_SUCCESS then (status, c)
     else (ASTL_STATUS_SUCCESS,
       c\<lparr>pc_sampler := map_option (\<lambda>p. p\<lparr>ps_paused := False\<rparr>) (pc_sampler c), pc_state := STARTED\<rparr>))"

definition Procfs_StopCollection :: "'t procfs_env \<Rightarrow> 't procfs_collector \<Rightarrow> astl_status \<times> 't procfs_collector" where
  "Procfs_StopCollection env c0 =
    (let c = c0\<lparr>pc_sampler := None\<rparr>;
         status = CheckCollectionLifecycleAction (pc_state c) STOP in
     if status \<noteq> ASTL_STATUS_SUCCESS then (status, c)
     else case pc_configuration c of
         None \<Rightarrow> (ASTL_STATUS_BAD_CONFIGURATION, c)
       | Some cfg \<Rightarrow>
          (let (r, c1) = Procfs_ExecuteStopModeOperations env cfg c in
           (r, if r = ASTL_STATUS_SUCCESS then c1\<lparr>pc_state := STOPPED, pc_baselines := no_baselines\<rparr> else c1)))"

definition Procfs_ReadImmediate :: "'t procfs_env \<Rightarrow> 't procfs_collector \<Rightarrow> astl_status \<times> 't procfs_collector" where
  "Procfs_ReadImmediate env c =
    (if (pc_state c \<noteq> STARTED \<and> pc_state c \<noteq> CONFIGURED \<and> pc_state c \<noteq> PAUSED) \<or> pc_configuration c = None
     then (ASTL_STATUS_BAD_CONFIGURATION, c)
     else Procfs_ExecuteCollectionOperations env
       (operationsOnSample (cfg_operations (the (pc_configuration c)))) c)"

definition Procfs_GetNativeClockSnapshot :: "int \<Rightarrow> 64 word \<Rightarrow> 't procfs_collector \<Rightarrow> clock_correlation_map" where
  "Procfs_GetNativeClockSnapshot raw_now native_now c =
    (case pc_configuration c of
       None \<Rightarrow> Map.empty
     | Some cfg \<Rightarrow>
         map_of (map (\<lambda>x. (procfs_operation_id x,
             \<lparr>raw_monotonic_at_start = raw_now, native_at_start = native_now, ticks = MakeTickRatio 1 1000000\<rparr>))
           (operationsOnSample (cfg_operations cfg))))"

fun procfs_exec :: "'t procfs_env \<Rightarrow> ('t, procfs_operation) collection_configuration lifecycle_command
    \<Rightarrow> 't procfs_collector \<Rightarrow> astl_status \<times> 't procfs_collector" where
  "procfs_exec env (CmdConfigure cfg) c = Procfs_ConfigureCollection env cfg c"
| "procfs_exec env CmdClear c = Procfs_ClearCollectionState c"
| "procfs_exec env CmdStart c = Procfs_StartCollection env c"
| "procfs_exec env CmdPause c = Procfs_PauseCollection c"
| "procfs_exec env CmdResume c = Procfs_ResumeCollection c"
| "procfs_exec env CmdStop c = Procfs_StopCollection env c"
| "procfs_exec env CmdRead c = Procfs_ReadImmediate env c"


section \<open>The collector keeps the contract of a collector\<close>

lemma Procfs_ExecuteCollectionOperations_frame [simp]:
  "pc_state (snd (Procfs_ExecuteCollectionOperations env ops c)) = pc_state c"
  "pc_configuration (snd (Procfs_ExecuteCollectionOperations env ops c)) = pc_configuration c"
  "pc_sampler (snd (Procfs_ExecuteCollectionOperations env ops c)) = pc_sampler c"
  "pc_sink (snd (Procfs_ExecuteCollectionOperations env ops c)) = pc_sink c"
  by (simp_all add: Procfs_ExecuteCollectionOperations_def Let_def split: sum.split prod.split)

lemma Procfs_StartIntervalSampling_frame [simp]:
  "pc_state (snd (Procfs_StartIntervalSampling c)) = pc_state c"
  "pc_configuration (snd (Procfs_StartIntervalSampling c)) = pc_configuration c"
  by (simp_all add: Procfs_StartIntervalSampling_def split: option.split)

lemma Procfs_ExecuteStartModeOperations_frame [simp]:
  "pc_state (snd (Procfs_ExecuteStartModeOperations env cfg c)) = pc_state c"
  "pc_configuration (snd (Procfs_ExecuteStartModeOperations env cfg c)) = pc_configuration c"
  by (simp_all add: Procfs_ExecuteStartModeOperations_def case_prod_beta' Let_def split: collection_mode.split)

lemma Procfs_ExecuteStartModeOperations_sampler:
  "fst (Procfs_ExecuteStartModeOperations env cfg c) \<noteq> ASTL_STATUS_SUCCESS \<Longrightarrow>
    pc_sampler (snd (Procfs_ExecuteStartModeOperations env cfg c)) = pc_sampler c"
  "fst (Procfs_ExecuteStartModeOperations env cfg c) = ASTL_STATUS_SUCCESS \<Longrightarrow> pc_configuration c = Some cfg \<Longrightarrow>
    pc_sampler (snd (Procfs_ExecuteStartModeOperations env cfg c)) =
      (if cfg_mode cfg = MODE_SAMPLING then Some \<lparr>ps_interval = cfg_sampling_interval cfg, ps_paused = False\<rparr>
       else pc_sampler c)"
  by (auto simp: Procfs_ExecuteStartModeOperations_def Procfs_StartIntervalSampling_def case_prod_beta' Let_def
      split: collection_mode.splits if_splits option.splits)

lemma Procfs_ExecuteStopModeOperations_frame [simp]:
  "pc_state (snd (Procfs_ExecuteStopModeOperations env cfg c)) = pc_state c"
  "pc_configuration (snd (Procfs_ExecuteStopModeOperations env cfg c)) = pc_configuration c"
  "pc_sampler (snd (Procfs_ExecuteStopModeOperations env cfg c)) = pc_sampler c"
  by (simp_all add: Procfs_ExecuteStopModeOperations_def case_prod_beta' Let_def split: collection_mode.split)

lemmas procfs_commands = Procfs_ConfigureCollection_def Procfs_ClearCollectionState_def Procfs_StartCollection_def
  Procfs_PauseCollection_def Procfs_ResumeCollection_def Procfs_StopCollection_def Procfs_ReadImmediate_def

interpretation procfs_lc: collector_lifecycle pc_state "procfs_exec env" for env :: "'t procfs_env"
proof unfold_locales
  fix c c' :: "'t procfs_collector" and st g
  show "procfs_exec env CmdStart c = (st, c') \<Longrightarrow> action_law (pc_state c) START st (pc_state c')"
    by (auto simp: procfs_commands action_law_def Let_def case_prod_beta' split: if_splits option.splits)
  show "procfs_exec env CmdPause c = (st, c') \<Longrightarrow> action_law (pc_state c) PAUSE st (pc_state c')"
    by (auto simp: procfs_commands action_law_def Let_def split: if_splits)
  show "procfs_exec env CmdResume c = (st, c') \<Longrightarrow> action_law (pc_state c) RESUME st (pc_state c')"
    by (auto simp: procfs_commands action_law_def Let_def split: if_splits)
  show "procfs_exec env CmdStop c = (st, c') \<Longrightarrow> action_law (pc_state c) STOP st (pc_state c')"
    by (auto simp: procfs_commands action_law_def Let_def case_prod_beta' split: if_splits option.splits)
  show "procfs_exec env (CmdConfigure g) c = (st, c') \<Longrightarrow>
      (if pc_state c \<in> {UNCONFIGURED, CONFIGURED, STOPPED}
       then pc_state c' \<in> {pc_state c, CONFIGURED, UNCONFIGURED} \<and> (st = ASTL_STATUS_SUCCESS \<longrightarrow> pc_state c' = CONFIGURED)
       else st \<noteq> ASTL_STATUS_SUCCESS \<and> pc_state c' = pc_state c)"
    by (auto simp: procfs_commands prod_eq_iff split: if_splits)
  show "procfs_exec env CmdClear c = (st, c') \<Longrightarrow>
      (if pc_state c \<in> {STARTED, PAUSED} then st \<noteq> ASTL_STATUS_SUCCESS \<and> pc_state c' = pc_state c
       else pc_state c' = UNCONFIGURED)"
    by (auto simp: procfs_commands split: if_splits)
  show "procfs_exec env CmdRead c = (st, c') \<Longrightarrow> pc_state c' = pc_state c"
    by (auto simp: procfs_commands prod_eq_iff split: if_splits)
qed

interpretation procfs_sc: strict_collector pc_state "procfs_exec env" for env :: "'t procfs_env"
proof unfold_locales
  fix c c' :: "'t procfs_collector" and st
  show "procfs_exec env CmdStart c = (st, c') \<Longrightarrow> st \<noteq> ASTL_STATUS_SUCCESS \<Longrightarrow> pc_state c' = pc_state c"
    by (auto simp: Procfs_StartCollection_def Let_def case_prod_beta' split: if_splits option.splits)
  show "procfs_exec env CmdStop c = (st, c') \<Longrightarrow> st \<noteq> ASTL_STATUS_SUCCESS \<Longrightarrow> pc_state c' = pc_state c"
    by (auto simp: Procfs_StopCollection_def Let_def case_prod_beta' split: if_splits option.splits)
qed

interpretation procfs_sm: sampling_collector pc_state "procfs_exec env" pc_configuration pc_sampler
  for env :: "'t procfs_env"
proof unfold_locales
  fix c c' :: "'t procfs_collector" and st g and x :: "('t, procfs_operation) collection_configuration lifecycle_command"
  show "x \<in> {CmdStart, CmdPause, CmdResume} \<Longrightarrow> procfs_exec env x c = (st, c') \<Longrightarrow> st \<noteq> ASTL_STATUS_SUCCESS \<Longrightarrow>
      pc_state c' = pc_state c \<and> pc_configuration c' = pc_configuration c \<and> pc_sampler c' = pc_sampler c"
    by (auto simp: procfs_commands Let_def case_prod_beta' Procfs_ExecuteStartModeOperations_sampler
        split: if_splits option.splits)
  show "procfs_exec env CmdStart c = (ASTL_STATUS_SUCCESS, c') \<Longrightarrow>
      pc_configuration c' = pc_configuration c \<and> (\<exists>cfg. pc_configuration c = Some cfg \<and> pc_sampler c' =
        (if cfg_mode cfg = MODE_SAMPLING then Some \<lparr>ps_interval = cfg_sampling_interval cfg, ps_paused = False\<rparr>
         else pc_sampler c))"
    by (auto simp: procfs_commands Let_def case_prod_beta' Procfs_ExecuteStartModeOperations_sampler
        split: if_splits option.splits)
  show "procfs_exec env CmdPause c = (ASTL_STATUS_SUCCESS, c') \<Longrightarrow> pc_configuration c' = pc_configuration c
      \<and> pc_sampler c' = map_option (\<lambda>p. p\<lparr>ps_paused := True\<rparr>) (pc_sampler c)"
    by (auto simp: procfs_commands Let_def split: if_splits)
  show "procfs_exec env CmdResume c = (ASTL_STATUS_SUCCESS, c') \<Longrightarrow> pc_configuration c' = pc_configuration c
      \<and> pc_sampler c' = map_option (\<lambda>p. p\<lparr>ps_paused := False\<rparr>) (pc_sampler c)"
    by (auto simp: procfs_commands Let_def split: if_splits)
  show "procfs_exec env CmdStop c = (st, c') \<Longrightarrow> pc_sampler c' = None \<and> pc_configuration c' = pc_configuration c"
    by (auto simp: procfs_commands Let_def case_prod_beta' split: if_splits option.splits)
  show "procfs_exec env (CmdConfigure g) c = (st, c') \<Longrightarrow> pc_sampler c' = pc_sampler c
      \<and> (pc_configuration c' = pc_configuration c \<and> pc_state c' = pc_state c
         \<or> pc_configuration c' = Some g \<and> pc_state c' = CONFIGURED)"
    by (auto simp: procfs_commands prod_eq_iff split: if_splits)
  show "procfs_exec env CmdClear c = (st, c') \<Longrightarrow>
      pc_state c' = pc_state c \<and> pc_configuration c' = pc_configuration c \<and> pc_sampler c' = pc_sampler c
      \<or> pc_state c' = UNCONFIGURED \<and> pc_configuration c' = None \<and> (pc_sampler c' = pc_sampler c \<or> pc_sampler c' = None)"
    by (auto simp: procfs_commands split: if_splits)
  show "procfs_exec env CmdRead c = (st, c') \<Longrightarrow> pc_configuration c' = pc_configuration c \<and> pc_sampler c' = pc_sampler c"
    by (auto simp: procfs_commands prod_eq_iff split: if_splits)
qed

end
