(* ===== verification/Procfs_Rates.thy ===== *)
theory Procfs_Rates
  imports Procfs_Collector
begin

text \<open>
  What the procfs collector promises of its samples: the life of a collection, rates between two
  readings of one source only, nothing derived across a failed batch or a reset table, and a
  missing device that omits no sample but its own.
\<close>

section \<open>Rates of a counter\<close>

type_synonym counter_reading = "64 word \<times> int \<times> string"

fun sample_all :: "counter_reading list \<Rightarrow> CounterRateState \<Rightarrow> fp option list" where
  "sample_all [] s = []"
| "sample_all ((v, t, identity) # rs) s =
    (let (r, s') = CounterRateState_Sample v t identity s in r # sample_all rs s')"

text \<open>The spec knows two readings only: a rate when both are of one source and both go forward.\<close>

fun rate_between :: "counter_reading \<Rightarrow> counter_reading \<Rightarrow> fp option" where
  "rate_between (v0, t0, i0) (v1, t1, i1) =
    (if i0 = i1 \<and> t0 < t1 \<and> v0 \<le> v1
     then Some (fp_div binary64 (fp_of_int binary64 (uint (v1 - v0))) (seconds_between t0 t1)) else None)"

lemma sample_all_previous:
  "sample_all rs \<lparr>cr_previous = Some (v, t), cr_source_identity = i\<rparr> = map2 rate_between ((v, t, i) # rs) rs"
  by (induction rs arbitrary: v t i) (auto simp: CounterRateState_Sample_def)

lemma seconds_between_bounds:
  assumes "t0 < t1" "t1 - t0 < 2 ^ 63"
  shows "fp_finite (seconds_between t0 t1)" "pow2 (- 30) \<le> fp_val (seconds_between t0 t1)"
proof -
  define n where "n = nat (t1 - t0)"
  have n: "0 < n" "n < 2 ^ 63" "int n = t1 - t0" using assms by (auto simp: n_def nat_less_iff)
  then have "n < 2 ^ 64" by simp
  note d = fp_of_nat64 [OF this]
  have w: "wrap64 (t1 - t0) = int n" using assms n(3) by (simp add: in_int64_def)
  have g: "fp_val (fp_of_int binary64 1000000000) = 1000000000"
    using fp_of_int_exact [of binary64 1000000000] by simp
  let ?d = "rnd binary64 (of_nat n)"
  have d1: "1 \<le> ?d" by (rule d(3) [OF n(1)])
  have "fp_rep binary64 (2 ^ 64)" using fp_rep_pow2 [of 64] by (simp add: pow2_nat)
  moreover have "(of_nat n :: rat) \<le> 2 ^ 64" using \<open>n < 2 ^ 64\<close> of_nat_mono [of n "2 ^ 64", where 'a = rat] by simp
  ultimately have d2: "?d \<le> 2 ^ 64" using rnd_mono [of "of_nat n" "2 ^ 64" binary64] rnd_rep by fastforce
  have ne: "fp_val (fp_of_int binary64 1000000000) \<noteq> 0" using g by simp
  have "seconds_between t0 t1 = fp_div binary64 (fp_of_int binary64 (int n)) (fp_of_int binary64 1000000000)"
    by (simp add: seconds_between_def w)
  also note fp_div_finite [OF d(1) ne, of binary64, unfolded d(2) g]
  finally obtain s where s: "seconds_between t0 t1 = fp_of_rat binary64 s (?d / 1000000000)" by (rule that)
  have lo: "pow2 (- 30) \<le> ?d / 1000000000" using d1 by (simp add: pow2_def power_int_def power_divide field_simps)
  have hi: "?d / 1000000000 \<le> pow2 64" using d2 by (simp add: pow2_nat)
  have "fp_rep binary64 (pow2 (- 30))"
    unfolding fp_rep_def by (intro conjI exI [of _ 1] exI [of _ "- 30"]) (simp_all add: emin_def)
  from fp_of_rat_bounds [OF _ this fp_rep_pow2 [of 64] lo hi, of s]
  show "fp_finite (seconds_between t0 t1)" "pow2 (- 30) \<le> fp_val (seconds_between t0 t1)" unfolding s by simp_all
qed

lemma rate_between_nonneg:
  assumes "rate_between (v0, t0, i0) (v1, t1, i1) = Some x" "t1 - t0 < 2 ^ 63"
  shows "fp_finite x \<and> 0 \<le> fp_val x"
proof -
  have h: "t0 < t1" "x = fp_div binary64 (fp_of_int binary64 (uint (v1 - v0))) (seconds_between t0 t1)"
    using assms(1) by (auto split: if_splits)
  note sec = seconds_between_bounds [OF h(1) assms(2)]
  define n where "n = unat (v1 - v0)"
  have n: "n < 2 ^ 64" using unat_less_pow [of "v1 - v0"] by (simp add: n_def)
  note d = fp_of_nat64 [OF n]
  let ?d = "rnd binary64 (of_nat n)"
  have d0: "0 \<le> ?d" by (rule rnd_nonneg) simp
  have "fp_rep binary64 (2 ^ 64)" using fp_rep_pow2 [of 64] by (simp add: pow2_nat)
  moreover have "(of_nat n :: rat) \<le> 2 ^ 64" using n of_nat_mono [of n "2 ^ 64", where 'a = rat] by simp
  ultimately have d2: "?d \<le> pow2 64" using rnd_mono [of "of_nat n" "2 ^ 64" binary64] rnd_rep by (fastforce simp: pow2_nat)
  have p: "0 < fp_val (seconds_between t0 t1)" using sec(2) pow2_pos [of "- 30"] by linarith
  then have ne: "fp_val (seconds_between t0 t1) \<noteq> 0" by simp
  have "x = fp_div binary64 (fp_of_int binary64 (int n)) (seconds_between t0 t1)"
    by (simp only: h(2) uint_nat n_def)
  also note fp_div_finite [OF d(1) ne, of binary64, unfolded d(2)]
  finally obtain s where s: "x = fp_of_rat binary64 s (?d / fp_val (seconds_between t0 t1))" by (rule that)
  have lo: "0 \<le> ?d / fp_val (seconds_between t0 t1)" using d0 p by simp
  have "?d / fp_val (seconds_between t0 t1) \<le> pow2 64 / pow2 (- 30)" using d0 d2 sec(2) by (intro frac_le) simp_all
  also have "\<dots> = pow2 94" using pow2_diff [of 64 "- 30"] by simp
  finally have hi: "?d / fp_val (seconds_between t0 t1) \<le> pow2 94" .
  have "fp_rep binary64 0" using fp_rep_int [of binary64 0] by simp
  from fp_of_rat_bounds [OF _ this fp_rep_pow2 [of 94] lo hi, of s] show ?thesis unfolding s by simp
qed

text \<open>
  The rates of a counter are those of the specification between consecutive readings: none
  for the first reading, none where the source changes, the clock stands still or the counter
  goes back, and a finite rate that is not negative everywhere else.
\<close>

theorem counter_rates_pairwise:
  assumes "\<forall>(v, t, i)\<in>set rs. 0 \<le> t \<and> t < 2 ^ 63"
  shows "sample_all rs new_rate_state = (if rs = [] then [] else None # map2 rate_between rs (tl rs))
    \<and> (\<forall>x. Some x \<in> set (sample_all rs new_rate_state) \<longrightarrow> fp_finite x \<and> 0 \<le> fp_val x)"
proof (cases rs)
  case Nil
  then show ?thesis by simp
next
  case (Cons r rs')
  obtain v t i where r: "r = (v, t, i)" by (cases r) auto
  have all: "sample_all rs new_rate_state = None # map2 rate_between rs (tl rs)"
    unfolding Cons r by (simp add: CounterRateState_Sample_def new_rate_state_def sample_all_previous)
  have "fp_finite x \<and> 0 \<le> fp_val x" if "Some x \<in> set (map2 rate_between rs (tl rs))" for x
  proof -
    from that obtain p where p: "p \<in> set (zip rs (tl rs))" "Some x = (case p of (a, b) \<Rightarrow> rate_between a b)"
      unfolding set_map by blast
    obtain a b where "p = (a, b)" by (cases p)
    then have ab: "(a, b) \<in> set (zip rs (tl rs))" "rate_between a b = Some x" using p by simp_all
    have "a \<in> set rs" "b \<in> set rs" using ab(1) set_zip_leftD set_zip_rightD Cons by (fastforce)+
    moreover obtain v0 t0 i0 v1 t1 i1 where e: "a = (v0, t0, i0)" "b = (v1, t1, i1)" by (cases a; cases b) auto
    ultimately have "0 \<le> t0" "t1 < 2 ^ 63" using assms by auto
    then have "t1 - t0 < 2 ^ 63" by linarith
    then show ?thesis using rate_between_nonneg ab(2) unfolding e by blast
  qed
  then show ?thesis using all Cons by auto
qed

theorem counter_rates_pairwise_witness:
  "map (\<lambda>r. r = None) (sample_all [(5, 100, ''a''), (8, 200, ''a''), (2, 300, ''a''), (9, 400, ''b'')] new_rate_state)
    = [True, False, True, True]"
proof -
  let ?rs = "[(5, 100, ''a''), (8, 200, ''a''), (2, 300, ''a''), (9, 400, ''b'')] :: counter_reading list"
  have "\<forall>(v, t, i)\<in>set ?rs. 0 \<le> t \<and> t < 2 ^ 63" by simp
  then show ?thesis using counter_rates_pairwise [of ?rs] by simp
qed


section \<open>Nothing is derived without a baseline\<close>

text \<open>The operations whose sample rests on an earlier reading.\<close>

fun needs_baseline :: "FieldDescriptor \<Rightarrow> bool" where
  "needs_baseline (SystemFieldOf field) = sys_rate field"
| "needs_baseline (CpuUtilizationFieldOf field) = True"
| "needs_baseline _ = False"

definition no_baseline :: "baselines \<Rightarrow> 16 word \<Rightarrow> bool" where
  "no_baseline b i \<longleftrightarrow> counter_rates b i = None \<and> previous_cpu_snapshots b i = None"

lemma no_baselines_none [simp]: "no_baseline no_baselines i"
  by (simp add: no_baseline_def no_baselines_def)

lemma CounterRateState_Sample_fresh [simp]: "fst (CounterRateState_Sample v t i new_rate_state) = None"
  by (simp add: CounterRateState_Sample_def new_rate_state_def)

lemma ReadRateSample_fresh:
  "no_baseline b i \<Longrightarrow> fst (ReadRateSample w i field v prepared identity b) \<noteq> Inr (Some x)"
  by (auto simp: ReadRateSample_def no_baseline_def Let_def case_prod_beta' split: astl_value.splits)

lemma ReadRateSample_other:
  "j \<noteq> i \<Longrightarrow> no_baseline (snd (ReadRateSample w i field v prepared identity b)) j = no_baseline b j"
  by (auto simp: ReadRateSample_def no_baseline_def Let_def case_prod_beta' split: astl_value.splits)

lemma ReadOperationSample_fresh:
  "no_baseline b i \<Longrightarrow> needs_baseline d \<Longrightarrow> fst (ReadOperationSample w w' i d prepared b) \<noteq> Inr (Some x)"
  by (cases d) (auto simp: ReadOperationSample_def ReadFieldSample_def ReadCpuUtilizationSample_def no_baseline_def
      case_prod_beta' ReadRateSample_fresh [unfolded no_baseline_def] split: sum.splits)

lemma ReadOperationSample_other:
  "j \<noteq> i \<Longrightarrow> no_baseline (snd (ReadOperationSample w w' i d prepared b)) j = no_baseline b j"
proof (cases d)
  case (CpuUtilizationFieldOf field)
  assume "j \<noteq> i"
  then show ?thesis
    by (auto simp: CpuUtilizationFieldOf ReadOperationSample_def ReadCpuUtilizationSample_def no_baseline_def Let_def
        split: sum.split option.split)
next
  case (SystemFieldOf field)
  assume "j \<noteq> i"
  then show ?thesis
    by (auto simp: SystemFieldOf ReadOperationSample_def ReadFieldSample_def ReadRateSample_other no_baseline_def
        case_prod_beta' ReadRateSample_other [unfolded no_baseline_def] split: sum.split)
qed (simp_all add: ReadOperationSample_def ReadFieldSample_def split: sum.split)

lemma read_samples_fresh:
  assumes "read_samples env k tick ops prepared samples b = (Inr out, b')" "distinct (map fst ops)"
    and "\<forall>(i, d)\<in>set ops. needs_baseline d \<longrightarrow> no_baseline b i"
  shows "\<exists>more. out = samples @ more \<and> (\<forall>s\<in>set more. \<exists>d. (rs_operation_id s, d) \<in> set ops \<and> \<not> needs_baseline d)"
  using assms
proof (induction ops arbitrary: k samples b)
  case (Cons x ops)
  obtain i d where x: "x = (i, d)" by (cases x)
  obtain r b1 where r: "ReadOperationSample (env k) (env (k + 1)) i d prepared b = (r, b1)" by fastforce
  have keep: "\<forall>(j, d)\<in>set ops. needs_baseline d \<longrightarrow> no_baseline b1 j"
  proof safe
    fix j d' assume j: "(j, d') \<in> set ops" "needs_baseline d'"
    then have "j \<noteq> i" using Cons.prems(2) by (force simp: x)
    then have "no_baseline b1 j = no_baseline b j"
      using ReadOperationSample_other [of j i "env k" "env (k + 1)" d prepared b] r by simp
    then show "no_baseline b1 j" using Cons.prems(3) j by auto
  qed
  have dist: "distinct (map fst ops)" using Cons.prems(2) by simp
  show ?case
  proof (cases r)
    case (Inl e)
    then show ?thesis using Cons.prems(1) r by (simp add: x)
  next
    case (Inr v)
    show ?thesis
    proof (cases v)
      case None
      then have "read_samples env (k + 2) tick ops prepared samples b1 = (Inr out, b')"
        using Cons.prems(1) r Inr by (simp add: x)
      from Cons.IH [OF this dist keep] show ?thesis unfolding list.set by blast
    next
      case (Some val)
      then have "\<not> needs_baseline d"
        using ReadOperationSample_fresh [of b i d "env k" "env (k + 1)" prepared val] r Inr Cons.prems(3) by (auto simp: x)
      moreover have "read_samples env (k + 2) tick ops prepared
          (samples @ [\<lparr>rs_operation_id = i, rs_value = val, rs_raw_tick = tick\<rparr>]) b1 = (Inr out, b')"
        using Cons.prems(1) r Inr Some by (simp add: x)
      from Cons.IH [OF this dist keep] obtain more where
        "out = (samples @ [\<lparr>rs_operation_id = i, rs_value = val, rs_raw_tick = tick\<rparr>]) @ more"
        "\<forall>s\<in>set more. \<exists>d. (rs_operation_id s, d) \<in> set ops \<and> \<not> needs_baseline d" by blast
      ultimately show ?thesis
        by (intro exI [of _ "\<lparr>rs_operation_id = i, rs_value = val, rs_raw_tick = tick\<rparr> # more"]) (auto simp: x)
    qed
  qed
qed simp


lemma PrepareInterruptSnapshot_keeps:
  "PrepareInterruptSnapshot w w' path p b = (st, p', b') \<Longrightarrow>
    counter_rates b' = counter_rates b \<and> previous_cpu_snapshots b' = previous_cpu_snapshots b
    \<and> pr_operations p' = pr_operations p"
  by (auto simp: PrepareInterruptSnapshot_def Let_def split: sum.splits)

lemma prepare_operation_keeps:
  "prepare_operation env k i d p b = (r, b') \<Longrightarrow>
    counter_rates b' = counter_rates b \<and> previous_cpu_snapshots b' = previous_cpu_snapshots b
    \<and> (\<forall>p'. r = Inr p' \<longrightarrow> pr_operations p' = pr_operations p @ [(i, d)])"
  by (auto simp: prepare_operation_def Let_def split: FieldDescriptor.splits sum.splits if_splits prod.splits
      dest!: PrepareInterruptSnapshot_keeps)

fun read_of :: "procfs_operation \<Rightarrow> (16 word \<times> FieldDescriptor) option" where
  "read_of (ProcfsRead i d) = Some (i, d)"
| "read_of (ForeignOperation i) = None"

lemma prepare_operations_keeps:
  assumes "prepare_operations env k ops p b = (Inr p', b')"
  shows "no_baseline b' j = no_baseline b j"
    "map read_of ops = map Some (drop (length (pr_operations p)) (pr_operations p'))
      \<and> take (length (pr_operations p)) (pr_operations p') = pr_operations p"
  using assms
proof (induction env k ops p b rule: prepare_operations.induct)
  case (3 env k i d ops p b)
  {
    case 1
    then obtain p1 b1 where r: "prepare_operation env k i d p b = (Inr p1, b1)"
        "prepare_operations env (k + 3) ops p1 b1 = (Inr p', b')"
      by (auto split: sum.splits prod.splits)
    show ?case using "3.IH"(1) [OF r(1) [symmetric] refl r(2)] prepare_operation_keeps [OF r(1)]
      by (simp add: no_baseline_def)
  next
    case 2
    then obtain p1 b1 where r: "prepare_operation env k i d p b = (Inr p1, b1)"
        "prepare_operations env (k + 3) ops p1 b1 = (Inr p', b')"
      by (auto split: sum.splits prod.splits)
    let ?n = "length (pr_operations p)"
    have ops: "pr_operations p1 = pr_operations p @ [(i, d)]" using prepare_operation_keeps [OF r(1)] by simp
    have ih: "map read_of ops = map Some (drop (Suc ?n) (pr_operations p'))"
        "take (Suc ?n) (pr_operations p') = pr_operations p @ [(i, d)]"
      using "3.IH"(2) [OF r(1) [symmetric] refl r(2)] ops by simp_all
    then have n: "?n < length (pr_operations p')"
      by (metis Suc_le_eq length_append_singleton length_take min.absorb_iff1 min.cobounded2 nat_le_linear)
    have "take ?n (take (Suc ?n) (pr_operations p')) = pr_operations p" unfolding ih(2) by simp
    moreover have "pr_operations p' ! ?n = (i, d)"
      using ih(2) n by (metis lessI nth_append_length nth_take)
    ultimately show ?case using ih(1) n by (simp add: min_def flip: Cons_nth_drop_Suc)
  }
qed auto

lemma PrepareOperations_reads:
  assumes "PrepareOperations env ops b = (Inr p, b')"
  shows "no_baseline b' j = no_baseline b j" "map read_of ops = map Some (pr_operations p)"
  using prepare_operations_keeps [OF assms [unfolded PrepareOperations_def]] by (simp_all add: nothing_prepared_def)

lemma PrepareOperations_ids:
  assumes "PrepareOperations env ops b = (Inr p, b')"
  shows "map fst (pr_operations p) = map procfs_operation_id ops"
    "(i, d) \<in> set (pr_operations p) \<longleftrightarrow> ProcfsRead i d \<in> set ops"
proof -
  have r: "map read_of ops = map Some (pr_operations p)" by (rule PrepareOperations_reads [OF assms])
  have one: "read_of x = Some (j, e) \<longleftrightarrow> x = ProcfsRead j e" for x j e by (cases x) auto
  have "map fst xs = map procfs_operation_id ys" if "map read_of ys = map Some xs" for xs ys
    using that by (induction xs arbitrary: ys) (auto simp: one)
  then show "map fst (pr_operations p) = map procfs_operation_id ops" using r by blast
  have "(i, d) \<in> set (pr_operations p) \<longleftrightarrow> Some (i, d) \<in> set (map Some (pr_operations p))" by auto
  also have "\<dots> \<longleftrightarrow> (\<exists>x\<in>set ops. read_of x = Some (i, d))" unfolding r [symmetric] by force
  finally show "(i, d) \<in> set (pr_operations p) \<longleftrightarrow> ProcfsRead i d \<in> set ops" by (auto simp: one)
qed

lemma collect_samples_fresh:
  assumes "collect_samples env ops no_baselines = (Inr samples, b')" "distinct (map procfs_operation_id ops)" "s \<in> set samples"
  shows "\<exists>d. ProcfsRead (rs_operation_id s) d \<in> set ops \<and> \<not> needs_baseline d"
proof -
  obtain p b1 where p: "PrepareOperations env ops no_baselines = (Inr p, b1)"
      and r: "read_samples env (3 * length ops + 1) (pw_native (env (3 * length ops))) (pr_operations p) p [] b1
        = (Inr samples, b')"
    using assms(1) by (auto simp: collect_samples_def Let_def split: sum.splits prod.splits)
  have "distinct (map fst (pr_operations p))" using assms(2) PrepareOperations_ids(1) [OF p] by simp
  moreover have "\<forall>(i, d)\<in>set (pr_operations p). needs_baseline d \<longrightarrow> no_baseline b1 i"
    using PrepareOperations_reads(1) [OF p] by auto
  ultimately show ?thesis
    using read_samples_fresh [OF r] assms(3) PrepareOperations_ids(2) [OF p] by fastforce
qed

lemma collect_samples_failed: "collect_samples env ops b = (Inl e, b') \<Longrightarrow> b' = no_baselines"
  by (auto simp: collect_samples_def Let_def split: sum.splits prod.splits)

text \<open>
  C30: when the reading of a batch fails at any of its operations, the collection of the batch
  returns that error, sinks nothing, not even the samples that were read before the failure, and
  forgets every baseline. The next batch, when the ids of its operations are distinct, then sinks no
  rate and no CPU utilisation, whatever it reads, so that no value bridges the gap.
\<close>

theorem failed_readings_rebaseline:
  assumes "collect_samples (pe_world env (pc_executions c)) ops (pc_baselines c) = (Inl e, b)"
    and "Procfs_ExecuteCollectionOperations env ops c = (st, c1)"
    and "Procfs_ExecuteCollectionOperations env ops2 c1 = (st2, c2)" "distinct (map procfs_operation_id ops2)"
  shows "st = e \<and> pc_sunk c1 = pc_sunk c \<and> pc_baselines c1 = no_baselines \<and> (pc_sunk c2 = pc_sunk c1 \<or>
    (\<exists>t samples. pc_sunk c2 = pc_sunk c1 @ [(t, samples)]
      \<and> (\<forall>s\<in>set samples. \<exists>d. ProcfsRead (rs_operation_id s) d \<in> set ops2 \<and> \<not> needs_baseline d)))"
proof -
  have first: "st = e" "pc_sunk c1 = pc_sunk c" "pc_baselines c1 = b"
    using assms(2) by (auto simp: Procfs_ExecuteCollectionOperations_def assms(1) Let_def)
  have none: "pc_baselines c1 = no_baselines" using collect_samples_failed [OF assms(1)] first(3) by simp
  obtain r2 b2 where r2: "collect_samples (pe_world env (pc_executions c1)) ops2 no_baselines = (r2, b2)" by fastforce
  show ?thesis
  proof (cases r2)
    case (Inl e)
    then show ?thesis using assms(3) first none by (auto simp: Procfs_ExecuteCollectionOperations_def r2 Let_def)
  next
    case (Inr samples)
    have "\<forall>s\<in>set samples. \<exists>d. ProcfsRead (rs_operation_id s) d \<in> set ops2 \<and> \<not> needs_baseline d"
      using collect_samples_fresh [OF r2 [unfolded Inr] assms(4)] by blast
    then show ?thesis
      using assms(3) first none Inr by (auto simp: Procfs_ExecuteCollectionOperations_def r2 Let_def split: if_splits)
  qed
qed


text \<open>A context switch counter with its rate beside the total of the swap space.\<close>

definition ctxt_rate :: SystemField where
  "ctxt_rate = \<lparr>sys_relative_path = ''stat'', sys_label = [], sys_kind = ''ctxt'', sys_rate = True\<rparr>"

definition example_operations :: "procfs_operation list" where
  "example_operations = [ProcfsRead 1 (SystemFieldOf ctxt_rate), ProcfsRead 2 (MemUsedField ''meminfo'')]"

definition example_world :: "nat \<Rightarrow> nat \<Rightarrow> procfs_world" where
  "example_world n k =
    \<lparr>pw_files = (\<lambda>path. if path = ''stat'' then (if n = 0 then Inl ASTL_STATUS_FILE_OPEN_FAILED else Inr ''ctxt 12'')
        else Inr (''MemTotal: 9'' @ [newline] @ ''MemAvailable: 4'')),
     pw_tasks = (\<lambda>n. \<lparr>tv_subdirectories = Inr [], tv_status = (\<lambda>p. Inr []), tv_exists = (\<lambda>p. None)\<rparr>),
     pw_clock = int (10 * n + k), pw_native = 7\<rparr>"

definition example_procfs_env :: "nat procfs_env" where
  "example_procfs_env = \<lparr>pe_world = example_world, pe_accept = (\<lambda>s. ASTL_STATUS_SUCCESS)\<rparr>"

definition example_started :: "nat procfs_collector" where
  "example_started = ProcfsCollector\<lparr>pc_sink := True, pc_state := STARTED, pc_configuration := Some
    \<lparr>cfg_target = 3, cfg_operations = \<lparr>operationsBeforeStart = [], operationsAtStart = [],
        operationsOnSample = example_operations, operationsAtStop = []\<rparr>,
     cfg_mode = MODE_IMMEDIATE, cfg_sampling_interval = 10\<rparr>\<rparr>"

lemma example_ctxt: "ReadTokenField ''ctxt 12'' \<lparr>tf_relative_path = ''stat'', tf_line_prefix = ''ctxt'',
    tf_token_index = 1, tf_raw_value_type = ASTL_VALUE_UINT64\<rparr> = Inr (VU64 12)"
  by (simp add: ReadTokenField_def ReadPrefixedLineTokens_def FindLineByPrefix_def view_lines_def newline_def Trim_def
      isspace_def SplitWhitespace.simps Let_def ParseAstlValue_def ParseUnsignedAstlValue_def parse_unsigned_def
      from_chars_def isdigit_def digits_value_def digit_value_def)

lemma example_meminfo:
  "ReadMemUsedField (''MemTotal: 9'' @ [newline] @ ''MemAvailable: 4'') = Inr (VU64 5)"
  by (simp add: ReadMemUsedField_def ReadMemUsageInKilobytes_def ReadRequiredMeminfoValueInKilobytes_def uint64_field_def
      ReadKeyValueField_def view_lines_def newline_def ParseKeyValueLine_def Trim_def
      isspace_def SplitWhitespace.simps Let_def ParseAstlValue_def ParseUnsignedAstlValue_def parse_unsigned_def
      from_chars_def isdigit_def digits_value_def digit_value_def in_int64_def)

lemma example_execution:
  "snd (Procfs_ExecuteCollectionOperations example_procfs_env example_operations c) = c2 \<Longrightarrow> pc_executions c = 0 \<Longrightarrow>
    fst (Procfs_ExecuteCollectionOperations example_procfs_env example_operations c) = ASTL_STATUS_FILE_OPEN_FAILED
    \<and> pc_sunk c2 = pc_sunk c"
  by (auto simp: Procfs_ExecuteCollectionOperations_def example_procfs_env_def example_operations_def collect_samples_def
      PrepareOperations_def prepare_operation_def ctxt_rate_def nothing_prepared_def Let_def ReadOperationSample_def
      ReadFieldSample_def ReadSystemSample_def ReadSystemField_def example_world_def plain_reading_def)

theorem failed_readings_rebaseline_witness:
  "\<exists>c1 c2. pc_baselines c1 = no_baselines
    \<and> c2 = snd (Procfs_ExecuteCollectionOperations example_procfs_env example_operations c1)
    \<and> pc_sunk c2 = pc_sunk c1 @ [(3, [\<lparr>rs_operation_id = 2, rs_value = VU64 5, rs_raw_tick = 7\<rparr>])]"
proof -
  define c1 where "c1 = snd (Procfs_ExecuteCollectionOperations example_procfs_env example_operations example_started)"
  define c2 where "c2 = snd (Procfs_ExecuteCollectionOperations example_procfs_env example_operations c1)"
  have ex: "pc_executions example_started = 0" by (simp add: example_started_def ProcfsCollector_def)
  have e1: "Procfs_ExecuteCollectionOperations example_procfs_env example_operations example_started
      = (ASTL_STATUS_FILE_OPEN_FAILED, c1)" "pc_sunk c1 = pc_sunk example_started"
    using example_execution [OF c1_def [symmetric] ex] by (simp_all add: c1_def prod_eq_iff)
  have e2: "Procfs_ExecuteCollectionOperations example_procfs_env example_operations c1
      = (fst (Procfs_ExecuteCollectionOperations example_procfs_env example_operations c1), c2)"
    by (simp add: c2_def)
  have dist: "distinct (map procfs_operation_id example_operations)" by (simp add: example_operations_def)
  have failed: "fst (collect_samples (example_world 0) example_operations b) = Inl ASTL_STATUS_FILE_OPEN_FAILED" for b
    by (simp add: example_operations_def collect_samples_def PrepareOperations_def prepare_operation_def ctxt_rate_def
      nothing_prepared_def Let_def ReadOperationSample_def ReadFieldSample_def ReadSystemSample_def ReadSystemField_def
      example_world_def plain_reading_def)
  obtain b where "collect_samples (pe_world example_procfs_env (pc_executions example_started)) example_operations
      (pc_baselines example_started) = (Inl ASTL_STATUS_FILE_OPEN_FAILED, b)"
    using failed [of "pc_baselines example_started"] by (simp add: ex example_procfs_env_def prod_eq_iff)
  then have none: "pc_baselines c1 = no_baselines"
    using failed_readings_rebaseline [OF _ e1(1) e2 dist] by blast
  have c1: "pc_executions c1 = 1" "pc_sink c1" "pc_configuration c1 = pc_configuration example_started"
    by (simp_all add: c1_def Procfs_ExecuteCollectionOperations_def Let_def case_prod_beta' ex example_started_def
        ProcfsCollector_def split: sum.split)
  have "pc_sunk c2 = pc_sunk c1 @ [(3, [\<lparr>rs_operation_id = 2, rs_value = VU64 5, rs_raw_tick = 7\<rparr>])]"
    using example_ctxt example_meminfo
    by (simp add: c2_def Procfs_ExecuteCollectionOperations_def example_procfs_env_def example_operations_def
        collect_samples_def PrepareOperations_def prepare_operation_def ctxt_rate_def nothing_prepared_def Let_def
        ReadOperationSample_def ReadFieldSample_def ReadSystemSample_def ReadSystemField_def ReadSystemContents_def
        example_world_def plain_reading_def ReadRateSample_def ReadField_def none no_baselines_def c1
        CounterRateState_Sample_def new_rate_state_def example_started_def)
  then show ?thesis using none c2_def by blast
qed

section \<open>A reset table\<close>

lemma prepare_operation_reset:
  assumes "prepare_operation env k i d p b = (Inr p', b')"
    and "\<And>k. ReadInterruptCounters (pw_files (env k)) path = Inr (counters, identity, components)"
    and "HasReset \<lparr>is_identity = identity, is_components = components\<rparr> previous"
    and "pr_interrupt_snapshots p path = None \<and> previous_interrupt_snapshots b path = Some previous
      \<or> path \<in> set (pr_interrupt_resets p)"
  shows "pr_interrupt_snapshots p' path = None \<and> previous_interrupt_snapshots b' path = Some previous
      \<or> path \<in> set (pr_interrupt_resets p')"
  using assms
  by (auto simp: prepare_operation_def PrepareInterruptSnapshot_def Let_def
      split: FieldDescriptor.splits if_splits sum.splits option.splits)

lemma prepare_operation_table:
  assumes "prepare_operation env k i (SystemFieldOf field) p b = (Inr p', b')" "sys_kind field = ''interrupts''"
    and "ReadInterruptCounters (pw_files (env k)) (sys_relative_path field) = Inr r"
  shows "pr_interrupt_snapshots p' (sys_relative_path field) \<noteq> None"
  using assms
  by (cases "pr_interrupt_snapshots p (sys_relative_path field)"; cases r)
    (auto simp: prepare_operation_def PrepareInterruptSnapshot_def Let_def)

lemma prepare_operation_snapshots:
  assumes "prepare_operation env k i d p b = (Inr p', b')" "pr_interrupt_snapshots p path \<noteq> None"
  shows "pr_interrupt_snapshots p' path \<noteq> None"
  using assms by (auto simp: prepare_operation_def PrepareInterruptSnapshot_def Let_def
      split: FieldDescriptor.splits if_splits sum.splits)

lemma prepare_operations_reset:
  assumes "prepare_operations env k ops p b = (Inr p', b')"
    and "\<And>k. ReadInterruptCounters (pw_files (env k)) path = Inr (counters, identity, components)"
    and "HasReset \<lparr>is_identity = identity, is_components = components\<rparr> previous"
    and "pr_interrupt_snapshots p path = None \<and> previous_interrupt_snapshots b path = Some previous
      \<or> path \<in> set (pr_interrupt_resets p)"
  shows "(pr_interrupt_snapshots p' path = None \<or> path \<in> set (pr_interrupt_resets p'))
    \<and> (pr_interrupt_snapshots p path \<noteq> None \<longrightarrow> pr_interrupt_snapshots p' path \<noteq> None)
    \<and> (\<forall>i field. ProcfsRead i (SystemFieldOf field) \<in> set ops \<and> sys_kind field = ''interrupts''
        \<and> sys_relative_path field = path \<longrightarrow> pr_interrupt_snapshots p' path \<noteq> None)"
  using assms(1,4)
proof (induction ops arbitrary: k p b)
  case (Cons x ops)
  obtain i d p1 b1 where x: "x = ProcfsRead i d" and r: "prepare_operation env k i d p b = (Inr p1, b1)"
      "prepare_operations env (k + 3) ops p1 b1 = (Inr p', b')"
    using Cons.prems(1) by (cases x) (auto split: sum.splits prod.splits)
  note one = prepare_operation_reset [OF r(1) assms(2,3) Cons.prems(2)]
  have kept: "pr_interrupt_snapshots p path \<noteq> None \<longrightarrow> pr_interrupt_snapshots p1 path \<noteq> None"
    using prepare_operation_snapshots [OF r(1)] by blast
  have here: "pr_interrupt_snapshots p1 path \<noteq> None"
    if "d = SystemFieldOf field" "sys_kind field = ''interrupts''" "sys_relative_path field = path" for field
    using prepare_operation_table [of env k i field p b p1 b1] r(1) that assms(2) by simp
  note ih = Cons.IH [OF r(2) one]
  have "\<forall>j field. ProcfsRead j (SystemFieldOf field) \<in> set (x # ops) \<and> sys_kind field = ''interrupts''
      \<and> sys_relative_path field = path \<longrightarrow> pr_interrupt_snapshots p' path \<noteq> None"
    using ih here unfolding x by fastforce
  then show ?case using ih kept by blast
qed auto

lemma reset_rate_omitted:
  assumes "path \<in> set (pr_interrupt_resets prepared)" "sys_kind field = ''interrupts''" "sys_relative_path field = path"
    and "sys_rate field"
  shows "fst (ReadOperationSample w w' i (SystemFieldOf field) prepared b) \<noteq> Inr (Some v)"
  using assms
  by (auto simp: ReadOperationSample_def ReadFieldSample_def ReadSystemSample_def plain_reading_def ReadRateSample_def
      Let_def case_prod_beta' split: option.splits)

lemma read_samples_omitted:
  assumes "read_samples env k tick ops prepared samples b = (Inr out, b')"
    and "\<And>w w' i d b v. bad d \<Longrightarrow> fst (ReadOperationSample w w' i d prepared b) \<noteq> Inr (Some v)"
  shows "\<exists>more. out = samples @ more \<and> (\<forall>s\<in>set more. \<exists>d. (rs_operation_id s, d) \<in> set ops \<and> \<not> bad d)"
  using assms(1)
proof (induction ops arbitrary: k samples b)
  case (Cons x ops)
  obtain i d where x: "x = (i, d)" by (cases x)
  obtain r b1 where r: "ReadOperationSample (env k) (env (k + 1)) i d prepared b = (r, b1)" by fastforce
  show ?case
  proof (cases r)
    case (Inl e)
    then show ?thesis using Cons.prems r by (simp add: x)
  next
    case (Inr v)
    show ?thesis
    proof (cases v)
      case None
      then have "read_samples env (k + 2) tick ops prepared samples b1 = (Inr out, b')"
        using Cons.prems r Inr by (simp add: x)
      from Cons.IH [OF this] show ?thesis unfolding list.set by blast
    next
      case (Some val)
      let ?s = "\<lparr>rs_operation_id = i, rs_value = val, rs_raw_tick = tick\<rparr>"
      have good: "\<not> bad d" using assms(2) [of d "env k" "env (k + 1)" i b val] r Inr Some by auto
      have "read_samples env (k + 2) tick ops prepared (samples @ [?s]) b1 = (Inr out, b')"
        using Cons.prems r Inr Some by (simp add: x)
      from Cons.IH [OF this] obtain more where
        "out = (samples @ [?s]) @ more" "\<forall>s\<in>set more. \<exists>d. (rs_operation_id s, d) \<in> set ops \<and> \<not> bad d" by blast
      then show ?thesis using good by (intro exI [of _ "?s # more"]) (auto simp: x)
    qed
  qed
qed simp

text \<open>
  When any cell of an interrupt table went back since the last reading, with the same rows and
  CPUs, the batch delivers no rate from this table, even for a CPU whose sum has grown: a reset
  hidden in a sum is never reported as a rate.
\<close>

theorem interrupt_reset_suppresses_rates:
  assumes "collect_samples env ops b = (Inr samples, b')" "distinct (map procfs_operation_id ops)"
    and "\<forall>k. ReadInterruptCounters (pw_files (env k)) path = Inr (counters, identity, components)"
    and "previous_interrupt_snapshots b path = Some previous"
    and "HasReset \<lparr>is_identity = identity, is_components = components\<rparr> previous"
    and "ProcfsRead i (SystemFieldOf field) \<in> set ops" "sys_kind field = ''interrupts''" "sys_rate field"
      "sys_relative_path field = path"
  shows "i \<notin> rs_operation_id ` set samples"
proof -
  obtain p b1 where p: "PrepareOperations env ops b = (Inr p, b1)"
      and r: "read_samples env (3 * length ops + 1) (pw_native (env (3 * length ops))) (pr_operations p) p [] b1
        = (Inr samples, b')"
    using assms(1) by (auto simp: collect_samples_def Let_def split: sum.splits prod.splits)
  have "path \<in> set (pr_interrupt_resets p)"
    using prepare_operations_reset [OF p [unfolded PrepareOperations_def], of path counters identity components previous]
      assms(3-9) by (auto simp: nothing_prepared_def)
  then have bad: "fst (ReadOperationSample w w' j (SystemFieldOf field) p b2) \<noteq> Inr (Some v)" for w w' j b2 v
    using reset_rate_omitted assms(7-9) by blast
  have dist: "distinct (map fst (pr_operations p))" using assms(2) PrepareOperations_ids(1) [OF p] by simp
  have i: "(i, SystemFieldOf field) \<in> set (pr_operations p)" using assms(6) PrepareOperations_ids(2) [OF p] by simp
  have "\<exists>d. (rs_operation_id s, d) \<in> set (pr_operations p) \<and> d \<noteq> SystemFieldOf field" if "s \<in> set samples" for s
    using read_samples_omitted [OF r, of "\<lambda>d. d = SystemFieldOf field"] bad that by auto
  then show ?thesis using eq_key_imp_eq_value [OF dist i] by fastforce
qed


text \<open>The sum of CPU0 has grown from 8 to 53 while one of its cells went back from 7 to 3.\<close>

definition example_table :: string where
  "example_table = unlines [''  CPU0'', '' 9:   3'', ''10:  50'']"

definition table_world :: procfs_world where
  "table_world =
    \<lparr>pw_files = (\<lambda>path. Inr example_table),
     pw_tasks = (\<lambda>n. \<lparr>tv_subdirectories = Inr [], tv_status = (\<lambda>p. Inr []), tv_exists = (\<lambda>p. None)\<rparr>),
     pw_clock = 900, pw_native = 7\<rparr>"

definition cpu0_rate :: SystemField where
  "cpu0_rate = \<lparr>sys_relative_path = ''interrupts'', sys_label = ''CPU0'', sys_kind = ''interrupts'', sys_rate = True\<rparr>"

definition table_previous :: InterruptSnapshot where
  "table_previous = \<lparr>is_identity = unlines [''CPU0'', ''9:'', ''10:''], is_components = [7, 1]\<rparr>"

definition table_baselines :: baselines where
  "table_baselines = no_baselines\<lparr>previous_interrupt_snapshots := [''interrupts'' \<mapsto> table_previous],
     counter_rates := [1 \<mapsto> \<lparr>cr_previous = Some (8, 100), cr_source_identity = unlines [''CPU0'', ''9:'', ''10:'']\<rparr>]\<rparr>"

lemma table_counters:
  "ReadInterruptCounters (pw_files table_world) ''interrupts'' =
    Inr (columns [''CPU0''] (column_sum [''CPU0''] [[''9:'', ''3''], [''10:'', ''50'']]), unlines [''CPU0'', ''9:'', ''10:''], [3, 50])"
proof -
  let ?rows = "[[''9:'', ''3''], [''10:'', ''50'']]"
  have "getline_lines example_table = [''  CPU0'', '' 9:   3'', ''10:  50'']"
    unfolding example_table_def by (rule getline_lines_unlines) (simp add: newline_def)
  then have "list_all2 spells (getline_lines example_table) ([''CPU0''] # ?rows)"
    by (simp add: spells_split) (simp add: SplitWhitespace.simps isspace_def Let_def)
  moreover have "table_ok ''interrupts'' [''CPU0''] ?rows"
    by (simp add: table_ok_def wf_irq_row_def column_sum_def cell_def row_cells_def IsCpuLabel_def is_number_def isdigit_def
        digits_value_def digit_value_def)
  ultimately show ?thesis
    using ReadInterruptCounters_tokens [of "pw_files table_world" "''interrupts''" example_table]
    by (simp add: table_world_def controller_rows_def rows_identity_def table_cells_def row_cells_def digits_value_def digit_value_def)
qed

theorem interrupt_reset_suppresses_rates_witness:
  "\<exists>samples b'. collect_samples (\<lambda>k. table_world) [ProcfsRead 1 (SystemFieldOf cpu0_rate)] table_baselines = (Inr samples, b')
    \<and> 1 \<notin> rs_operation_id ` set samples"
proof -
  let ?ops = "[ProcfsRead 1 (SystemFieldOf cpu0_rate)]"
  have "\<exists>samples b'. collect_samples (\<lambda>k. table_world) ?ops table_baselines = (Inr samples, b')"
    by (simp add: collect_samples_def PrepareOperations_def prepare_operation_def PrepareInterruptSnapshot_def
        table_counters cpu0_rate_def nothing_prepared_def Let_def ReadOperationSample_def ReadFieldSample_def
        ReadSystemSample_def columns_def plain_reading_def ReadRateSample_def case_prod_beta' split: option.split)
  then obtain samples b' where c: "collect_samples (\<lambda>k. table_world) ?ops table_baselines = (Inr samples, b')" by blast
  have "previous_interrupt_snapshots table_baselines ''interrupts'' = Some table_previous"
    by (simp add: table_baselines_def)
  moreover have "HasReset \<lparr>is_identity = unlines [''CPU0'', ''9:'', ''10:''], is_components = [3, 50]\<rparr> table_previous"
    by (simp add: HasReset_def table_previous_def)
  ultimately have "1 \<notin> rs_operation_id ` set samples"
    using interrupt_reset_suppresses_rates [OF c, of "''interrupts''" _ _ _ table_previous 1 cpu0_rate] table_counters
    by (simp add: cpu0_rate_def)
  then show ?thesis using c by blast
qed

section \<open>The life of a collection\<close>

fun procfs_run :: "'t procfs_env \<Rightarrow> ('t, procfs_operation) collection_configuration lifecycle_command list
    \<Rightarrow> 't procfs_collector \<Rightarrow> 't procfs_collector" where
  "procfs_run env [] c = c"
| "procfs_run env (x # xs) c = procfs_run env xs (snd (procfs_exec env x c))"

lemma procfs_run_eq: "procfs_run env xs c = procfs_lc.run env xs c"
  by (induction xs arbitrary: c) simp_all

definition idle_forgets :: "'t procfs_collector \<Rightarrow> bool" where
  "idle_forgets c \<longleftrightarrow> (pc_state c \<in> {UNCONFIGURED, STOPPED} \<longrightarrow> pc_baselines c = no_baselines)"

lemma idle_forgets_exec: "idle_forgets c \<Longrightarrow> idle_forgets (snd (procfs_exec env x c))"
  by (cases x; cases "pc_state c")
    (auto simp: idle_forgets_def procfs_commands Let_def case_prod_beta' lifecycle_table split: option.splits)

lemma idle_forgets_run: "idle_forgets c \<Longrightarrow> idle_forgets (procfs_run env xs c)"
  by (induction xs arbitrary: c) (simp_all add: idle_forgets_exec)

text \<open>
  C25: whatever commands a new procfs collector receives, and whatever its files, tasks, clocks and
  sink do, it moves as a collection may, keeps its configuration and sampler consistent, has no
  periodic sampler before the first start, stays stopped whatever starts, pauses, resumes, stops and
  immediate readings follow, until it is configured anew or cleared, and holds no baseline of an
  earlier run while it is stopped or unconfigured.
\<close>

theorem procfs_collector_lifecycle:
  assumes "c = procfs_run env xs ProcfsCollector"
  shows "sampler_ok (pc_state c) (pc_configuration c) (pc_sampler c)
    \<and> collection_move\<^sup>*\<^sup>* UNCONFIGURED (pc_state c)
    \<and> (CmdStart \<notin> set xs \<longrightarrow> pc_sampler c = None)
    \<and> (pc_state c \<in> {UNCONFIGURED, STOPPED} \<longrightarrow> pc_baselines c = no_baselines)
    \<and> (pc_state c = STOPPED \<longrightarrow> set ys \<subseteq> {CmdStart, CmdPause, CmdResume, CmdStop, CmdRead}
        \<longrightarrow> pc_state (procfs_run env ys c) = STOPPED)"
proof -
  have new: "sampler_ok (pc_state ProcfsCollector) (pc_configuration ProcfsCollector) (pc_sampler ProcfsCollector)"
    "pc_state ProcfsCollector = UNCONFIGURED" "idle_forgets ProcfsCollector"
    by (simp_all add: ProcfsCollector_def sampler_ok_def idle_forgets_def)
  show ?thesis
    using procfs_sm.collector_safe [OF new(1,2), where env = env and xs = xs] idle_forgets_run [OF new(3), of env xs]
      procfs_lc.run_stopped [where env = env and c = c and xs = ys]
    by (simp add: assms idle_forgets_def flip: procfs_run_eq)
qed

theorem procfs_collector_lifecycle_witness:
  "\<exists>c. c = procfs_run example_procfs_env [CmdRead, CmdPause] ProcfsCollector \<and> pc_sampler c = None
    \<and> pc_baselines c = no_baselines"
proof -
  define c where "c = procfs_run example_procfs_env [CmdRead, CmdPause] ProcfsCollector"
  have "pc_state c = UNCONFIGURED"
    by (simp add: c_def procfs_commands ProcfsCollector_def lifecycle_table Let_def)
  then show ?thesis using procfs_collector_lifecycle [OF c_def, of "[]"] c_def by auto
qed

end
