(* ===== verification/Orchestrator_Session.thy ===== *)
theory Orchestrator_Session
  imports Collector_Manager Sample_Batches Metric_Objects
begin

text \<open>
  The sessions of src/impl/orchestrator/orchestrator.cpp: the lifecycle state of every target, and
  what configuring, starting, reading, pausing, resuming and stopping do to the collector manager,
  to the metric manager and to the samples of the orchestrator.  A collector sinks samples while
  one of its commands runs and from its sampler thread; both go through SinkRawSamples, and the
  effect of those calls on the sample stores is an argument of the commands (se_sunk).
\<close>

section \<open>The state\<close>

datatype FinalOutputEmissionState = NOT_EMITTED | EMITTING | EMITTED

datatype OutputType = UNKNOWN | BUFFER | SUMMARY_CSV | PERFETTO | INTERVAL_CSV

record collection_params =
  cp_size :: nat
  cp_flags :: "32 word"
  cp_sampling_interval :: "32 word"
  cp_mode :: collection_mode

definition ASTL_NO_CACHING :: "32 word" where "ASTL_NO_CACHING = 8"

text \<open>The metrics and their samples, and the allocator the operations draw their ids from.\<close>

record ('t, 'm, 'u) session_world = "('t, 'm, 'u) world" +
  sw_next_operation :: nat

text \<open>
  What a sample sink may change: the pending raw samples and the cache files of the targets, the
  recently replayed metric and the metric manager with its metrics; and the targets without a
  cache.  The stable keys that name the cache files are distinct, so that a file is found by its
  target.
\<close>

record ('t, 's, 'm, 'u) stores =
  st_raw_samples :: "'t \<rightharpoonup> raw_sample list"
  st_cache_files :: "'t \<Rightarrow> cache_file"
  st_recent :: "('t, 'm) recent_samples"
  st_metrics :: "('t, 'm, 's) metric_manager"
  st_world :: "('t, 'm, 'u) session_world"
  st_no_cache_targets :: "'t set"

record ('t, 'c, 's, 'm, 'u) session =
  ss_targets :: "'t list"
  ss_states :: "('t \<times> CollectionLifecycleState) list"
  ss_collectors :: "('t, CollectorType, 'c, 's) collector_manager"
  ss_stores :: "('t, 's, 'm, 'u) stores"
  ss_pause_timestamps :: "'t \<rightharpoonup> int"
  ss_resume_timestamps :: "'t \<rightharpoonup> int"
  ss_clean_configure_reset_pending :: bool
  ss_perfetto_emission_state :: FinalOutputEmissionState
  ss_intervalcsv_emission_state :: FinalOutputEmissionState
  ss_final_rebuild_attempted :: bool
  ss_platform_loaded :: bool
  ss_wall_clock :: "wall_clock_correlation option"
  ss_outputs :: "(OutputType \<times> ('t \<times> 'm \<rightharpoonup> processed_sample list) \<times> astl_status) list"

text \<open>
  ss_outputs is what the output manager was given, with its answer.  What surrounds a command: the collectors' commands and clock snapshots, the metrics' interface,
  the configuration built from parameters and operation ids, the creation, the address and the
  name of a lifecycle event metric, what the collectors sink, the serialiser and the file system,
  the clocks, and the output paths, the writers and the replay of the cache before an output.
\<close>

record ('t, 'c, 'cfg, 's, 'm, 'u) session_env =
  se_exec :: "('cfg, 'c) collector_exec"
  se_snapshot :: "'c \<Rightarrow> clock_correlation_map result"
  se_metrics :: "('m, ('t, 'm, 'u) session_world) imetric"
  se_configuration :: "'t \<Rightarrow> collection_params \<Rightarrow> 16 word list \<Rightarrow> 'cfg"
  se_create :: "registered_config \<Rightarrow> 't \<Rightarrow> 'm \<Rightarrow> ('t, 'm, 'u) session_world \<Rightarrow> astl_status \<times> ('t, 'm, 'u) session_world"
  se_new_metric :: 'm
  se_name :: "'t \<Rightarrow> string"
  se_sunk :: "'t \<Rightarrow> ('t, 's, 'm, 'u) stores \<Rightarrow> ('t, 's, 'm, 'u) stores"
  se_serialize :: "'t \<Rightarrow> serializer"
  se_cache_io :: "'t \<Rightarrow> cache_answers"
  se_remove_fails :: "'t \<Rightarrow> bool"
  se_now :: int
  se_wall_clock :: "wall_clock_correlation option"
  se_output_path :: "OutputType \<Rightarrow> string"
  se_write :: "OutputType \<Rightarrow> ('t \<times> 'm \<rightharpoonup> processed_sample list) \<Rightarrow> astl_status"
  se_rebuild :: "('t, 's, 'm, 'u) stores \<Rightarrow> ('t, 's, 'm, 'u) stores"

definition state_of :: "('t, 'c, 's, 'm, 'u) session \<Rightarrow> 't \<Rightarrow> CollectionLifecycleState option" where
  "state_of s t = map_of (ss_states s) t"

definition set_state :: "'t \<Rightarrow> CollectionLifecycleState \<Rightarrow> ('t, 'c, 's, 'm, 'u) session \<Rightarrow> ('t, 'c, 's, 'm, 'u) session" where
  "set_state t x s = s\<lparr>ss_states := AList.update t x (ss_states s)\<rparr>"

definition leave_starting :: "'t \<Rightarrow> CollectionLifecycleState \<Rightarrow> ('t, 'c, 's, 'm, 'u) session
    \<Rightarrow> ('t, 'c, 's, 'm, 'u) session" where
  "leave_starting t x s = (if state_of s t = Some STARTING then set_state t x s else s)"

text \<open>A command of the collector manager, and what its collectors sink meanwhile.\<close>

definition on_collectors :: "('t, 'c, 'cfg, 's, 'm, 'u) session_env \<Rightarrow> 't
    \<Rightarrow> (('t, CollectorType, 'c, 's) collector_manager \<Rightarrow> astl_status \<times> ('t, CollectorType, 'c, 's) collector_manager)
    \<Rightarrow> ('t, 'c, 's, 'm, 'u) session \<Rightarrow> astl_status \<times> ('t, 'c, 's, 'm, 'u) session" where
  "on_collectors env t f s =
    (let (status, m) = f (ss_collectors s) in
     (status, s\<lparr>ss_collectors := m, ss_stores := se_sunk env t (ss_stores s)\<rparr>))"

definition on_stores :: "(('t, 's, 'm, 'u) stores \<Rightarrow> ('t, 's, 'm, 'u) stores) \<Rightarrow> ('t, 'c, 's, 'm, 'u) session
    \<Rightarrow> ('t, 'c, 's, 'm, 'u) session" where
  "on_stores f s = s\<lparr>ss_stores := f (ss_stores s)\<rparr>"

definition on_metrics :: "(('t, 'm, 's) metric_manager \<times> ('t, 'm, 'u) session_world
      \<Rightarrow> ('t, 'm, 's) metric_manager \<times> ('t, 'm, 'u) session_world)
    \<Rightarrow> ('t, 's, 'm, 'u) stores \<Rightarrow> ('t, 's, 'm, 'u) stores" where
  "on_metrics f st = (let (mm, w) = f (st_metrics st, st_world st) in st\<lparr>st_metrics := mm, st_world := w\<rparr>)"

text \<open>_processed_samples\<close>

definition st_processed :: "('t, 's, 'm, 'u) stores \<Rightarrow> 't \<times> 'm \<rightharpoonup> processed_sample list" where
  "st_processed st = processed_samples (wd_store (st_world st))"

definition set_processed :: "('t \<times> 'm \<rightharpoonup> processed_sample list) \<Rightarrow> ('t, 's, 'm, 'u) stores \<Rightarrow> ('t, 's, 'm, 'u) stores" where
  "set_processed p st =
    st\<lparr>st_world := (st_world st)\<lparr>wd_store := (wd_store (st_world st))\<lparr>processed_samples := p\<rparr>\<rparr>\<rparr>"

section \<open>Construction and targets\<close>

definition Orchestrator :: "'t list \<Rightarrow> ('t, CollectorType, 'c, 's) collector_manager \<Rightarrow> ('t, 'm, 's) metric_manager
    \<Rightarrow> ('t, 'm, 'u) session_world \<Rightarrow> 's \<Rightarrow> wall_clock_correlation option \<Rightarrow> ('t, 'c, 's, 'm, 'u) session" where
  "Orchestrator targets collectors metrics w self clock =
    \<lparr>ss_targets = targets, ss_states = map (\<lambda>t. (t, UNCONFIGURED)) targets,
     ss_collectors = snd (RegisterRawSampleSink (Some self) collectors),
     ss_stores = \<lparr>st_raw_samples = Map.empty, st_cache_files = (\<lambda>t. None),
       st_recent = \<lparr>recent_target = None, recent_metric = None, recent_list = []\<rparr>,
       st_metrics = snd (RegisterProcessedSampleSink (Some self) metrics), st_world = w, st_no_cache_targets = {}\<rparr>,
     ss_pause_timestamps = Map.empty, ss_resume_timestamps = Map.empty, ss_clean_configure_reset_pending = False,
     ss_perfetto_emission_state = NOT_EMITTED, ss_intervalcsv_emission_state = NOT_EMITTED,
     ss_final_rebuild_attempted = False, ss_platform_loaded = False, ss_wall_clock = clock, ss_outputs = []\<rparr>"

definition SetTargets :: "'t list \<Rightarrow> ('t, 'c, 's, 'm, 'u) session \<Rightarrow> astl_status \<times> ('t, 'c, 's, 'm, 'u) session" where
  "SetTargets targets s =
    (ASTL_STATUS_SUCCESS, s\<lparr>ss_targets := targets,
       ss_states := map (\<lambda>t. (t, case state_of s t of Some x \<Rightarrow> x | None \<Rightarrow> UNCONFIGURED)) targets,
       ss_stores := (ss_stores s)\<lparr>st_no_cache_targets := {}, st_metrics := RemoveAllMetrics (st_metrics (ss_stores s))\<rparr>\<rparr>)"

section \<open>Clearing what a session left\<close>

definition ResetFinalOutputEmissionState :: "('t, 'c, 's, 'm, 'u) session \<Rightarrow> ('t, 'c, 's, 'm, 'u) session" where
  "ResetFinalOutputEmissionState s =
    s\<lparr>ss_perfetto_emission_state := NOT_EMITTED, ss_intervalcsv_emission_state := NOT_EMITTED,
      ss_final_rebuild_attempted := False\<rparr>"

definition ResetTargetCollectionArtifacts :: "('t, 'c, 'cfg, 's, 'm, 'u) session_env \<Rightarrow> 't option
    \<Rightarrow> ('t, 'c, 's, 'm, 'u) session \<Rightarrow> astl_status \<times> ('t, 'c, 's, 'm, 'u) session" where
  "ResetTargetCollectionArtifacts env target s =
    (case target of
       None \<Rightarrow> (ASTL_STATUS_BAD_ARGUMENT, s)
     | Some t \<Rightarrow>
        (let st = ss_stores s;
             st1 = set_processed (\<lambda>(t', m). if t' = t then None else st_processed st (t', m))
               (st\<lparr>st_recent := InvalidateRecentProcessedMetricSamples (st_recent st),
                   st_raw_samples := (st_raw_samples st)(t := None)\<rparr>);
             s1 = s\<lparr>ss_stores := st1, ss_pause_timestamps := (ss_pause_timestamps s)(t := None),
                    ss_resume_timestamps := (ss_resume_timestamps s)(t := None)\<rparr> in
         if se_remove_fails env t then (ASTL_STATUS_INTERNAL_ERROR, s1)
         else (ASTL_STATUS_SUCCESS, on_stores (\<lambda>st. st\<lparr>st_cache_files := (st_cache_files st)(t := None)\<rparr>) s1)))"

fun reset_targets :: "('t, 'c, 'cfg, 's, 'm, 'u) session_env \<Rightarrow> 't list
    \<Rightarrow> ('t, 'c, 's, 'm, 'u) session \<Rightarrow> astl_status \<times> ('t, 'c, 's, 'm, 'u) session" where
  "reset_targets env [] s = (ASTL_STATUS_SUCCESS, s)"
| "reset_targets env (t # ts) s =
    (let (status, s') = ResetTargetCollectionArtifacts env (Some t) s in
     if status \<noteq> ASTL_STATUS_SUCCESS then (status, s') else reset_targets env ts s')"

definition ResetAllCollectionArtifacts :: "('t, 'c, 'cfg, 's, 'm, 'u) session_env
    \<Rightarrow> ('t, 'c, 's, 'm, 'u) session \<Rightarrow> astl_status \<times> ('t, 'c, 's, 'm, 'u) session" where
  "ResetAllCollectionArtifacts env s =
    (let (status, s1) = reset_targets env (ss_targets s) s in
     if status \<noteq> ASTL_STATUS_SUCCESS then (status, s1)
     else (ASTL_STATUS_SUCCESS,
       (on_stores (\<lambda>st. set_processed Map.empty (st\<lparr>st_raw_samples := Map.empty, st_no_cache_targets := {}\<rparr>)) s1)
         \<lparr>ss_pause_timestamps := Map.empty, ss_resume_timestamps := Map.empty\<rparr>))"

definition MarkAllTargetsUnconfigured :: "('t, 'c, 's, 'm, 'u) session \<Rightarrow> ('t, 'c, 's, 'm, 'u) session" where
  "MarkAllTargetsUnconfigured s = s\<lparr>ss_states := map (\<lambda>(t, x). (t, UNCONFIGURED)) (ss_states s)\<rparr>"

definition ResetCollectionStateForCleanConfigureLocked :: "('t, 'c, 'cfg, 's, 'm, 'u) session_env
    \<Rightarrow> ('t, 'c, 's, 'm, 'u) session \<Rightarrow> astl_status \<times> ('t, 'c, 's, 'm, 'u) session" where
  "ResetCollectionStateForCleanConfigureLocked env s =
    (let (status, m) = ClearConfiguredCollections (se_exec env) (ss_collectors s);
         s1 = s\<lparr>ss_collectors := m\<rparr> in
     if status \<noteq> ASTL_STATUS_SUCCESS then (status, s1)
     else let (status, s2) = ResetAllCollectionArtifacts env (MarkAllTargetsUnconfigured s1) in
       if status \<noteq> ASTL_STATUS_SUCCESS then (status, s2)
       else let s3 = on_stores (on_metrics (ClearCollectionOperationState (se_metrics env))) s2;
                s4 = s3\<lparr>ss_platform_loaded := False, ss_wall_clock := se_wall_clock env\<rparr>;
                s5 = on_stores (\<lambda>st. st\<lparr>st_world := (st_world st)\<lparr>sw_next_operation :=
                       ResetOperationIdAllocator (sw_next_operation (st_world st))\<rparr>\<rparr>) s4 in
         (ASTL_STATUS_SUCCESS, ResetFinalOutputEmissionState s5))"

definition is_running :: "CollectionLifecycleState \<Rightarrow> bool" where
  "is_running x \<longleftrightarrow> x = STARTING \<or> x = STARTED \<or> x = PAUSED"

definition ResetCollectionStateForCleanConfigure :: "('t, 'c, 'cfg, 's, 'm, 'u) session_env
    \<Rightarrow> ('t, 'c, 's, 'm, 'u) session \<Rightarrow> astl_status \<times> ('t, 'c, 's, 'm, 'u) session" where
  "ResetCollectionStateForCleanConfigure env s =
    (if list_ex (\<lambda>(t, x). is_running x) (ss_states s) then (ASTL_STATUS_COLLECTION_ALREADY_RUNNING, s)
     else let (status, s1) = ResetCollectionStateForCleanConfigureLocked env s in
       (status, s1\<lparr>ss_clean_configure_reset_pending := (status = ASTL_STATUS_SUCCESS)\<rparr>))"

definition ResetOperationIdsForCleanConfigure :: "('t, 'c, 'cfg, 's, 'm, 'u) session_env \<Rightarrow> 't
    \<Rightarrow> ('t, 'c, 's, 'm, 'u) session \<Rightarrow> astl_status \<times> ('t, 'c, 's, 'm, 'u) session" where
  "ResetOperationIdsForCleanConfigure env t s =
    (if ss_clean_configure_reset_pending s then (ASTL_STATUS_SUCCESS, s\<lparr>ss_clean_configure_reset_pending := False\<rparr>)
     else if list_ex (\<lambda>(t, x). is_running x) (ss_states s) then (ASTL_STATUS_COLLECTION_ALREADY_RUNNING, s)
     else if list_ex (\<lambda>(t', x). x = CONFIGURED \<and> t' \<noteq> t) (ss_states s) then (ASTL_STATUS_SUCCESS, s)
     else let (status, s1) = ResetCollectionStateForCleanConfigureLocked env s in
       (status, s1\<lparr>ss_clean_configure_reset_pending := False\<rparr>))"

section \<open>Configuring a target\<close>

definition ClearFailedCollectionConfiguration :: "('t, 'c, 'cfg, 's, 'm, 'u) session_env \<Rightarrow> 't
    \<Rightarrow> ('t, 'c, 's, 'm, 'u) session \<Rightarrow> ('t, 'c, 's, 'm, 'u) session" where
  "ClearFailedCollectionConfiguration env t s =
    (let s1 = set_state t UNCONFIGURED s;
         s2 = s1\<lparr>ss_collectors := snd (ClearConfiguredCollectionOnTarget (se_exec env) t (ss_collectors s1))\<rparr>;
         s3 = on_stores (on_metrics (\<lambda>mw. snd (ClearStaleOperationStateForTarget (se_metrics env) (Some t) [] mw))) s2;
         s4 = snd (ResetTargetCollectionArtifacts env (Some t) s3);
         s5 = on_stores (\<lambda>st. st\<lparr>st_no_cache_targets := st_no_cache_targets st - {t}\<rparr>) s4 in
     ResetFinalOutputEmissionState s5)"

text \<open>
  ClearStaleOperationStateForTarget returns a status only for a null target, so the status after
  the two clearing steps is that of the artifacts.
\<close>

definition CompleteCollectionConfiguration :: "('t, 'c, 'cfg, 's, 'm, 'u) session_env \<Rightarrow> 't \<Rightarrow> collection_params \<Rightarrow> 16 word list
    \<Rightarrow> ('t, 'c, 's, 'm, 'u) session \<Rightarrow> astl_status \<times> ('t, 'c, 's, 'm, 'u) session" where
  "CompleteCollectionConfiguration env t params active s =
    (let (stale_status, mw) = ClearStaleOperationStateForTarget (se_metrics env) (Some t) active
           (st_metrics (ss_stores s), st_world (ss_stores s));
         s1 = on_stores (on_metrics (\<lambda>_. mw)) s;
         (status, s2) = (if stale_status = ASTL_STATUS_SUCCESS then ResetTargetCollectionArtifacts env (Some t) s1
                         else (stale_status, s1)) in
     if status \<noteq> ASTL_STATUS_SUCCESS then (status, ClearFailedCollectionConfiguration env t s2)
     else case CollectorManager_GetNativeClockSnapshot (se_snapshot env) t (ss_collectors s2) of
         Inl e \<Rightarrow> (e, ClearFailedCollectionConfiguration env t s2)
       | Inr correlations \<Rightarrow>
          (let s3 = on_stores (\<lambda>st. st\<lparr>st_metrics := SetClockCorrelations correlations (st_metrics st)\<rparr>) s2;
               s4 = ResetFinalOutputEmissionState s3;
               s5 = on_stores (\<lambda>st. st\<lparr>st_no_cache_targets :=
                      (if cp_flags params AND ASTL_NO_CACHING \<noteq> 0 then insert t (st_no_cache_targets st)
                       else st_no_cache_targets st - {t})\<rparr>) s4 in
           (ASTL_STATUS_SUCCESS, set_state t CONFIGURED s5)))"

text \<open>
  The part of ConfigureCounterCollection and ConfigureMetricCollection after the check of the
  handles, with the function that collects their operations.
\<close>

definition configure_operations :: "('t, 'c, 'cfg, 's, 'm, 'u) session_env
    \<Rightarrow> (('t, 'm, 's) metric_manager \<times> ('t, 'm, 'u) session_world \<Rightarrow> (CollectorType option \<times> 16 word list) result
        \<times> ('t, 'm, 's) metric_manager \<times> ('t, 'm, 'u) session_world)
    \<Rightarrow> 't \<Rightarrow> collection_params \<Rightarrow> ('t, 'c, 's, 'm, 'u) session \<Rightarrow> astl_status \<times> ('t, 'c, 's, 'm, 'u) session" where
  "configure_operations env require t params s =
    (let (reset_status, s1) = ResetOperationIdsForCleanConfigure env t s in
     if reset_status \<noteq> ASTL_STATUS_SUCCESS then (reset_status, s1)
     else let (operations, mw) = require (st_metrics (ss_stores s1), st_world (ss_stores s1));
              s2 = on_stores (on_metrics (\<lambda>_. mw)) s1 in
       case operations of
         Inl e \<Rightarrow> (if IsInternalStatus e then e else ASTL_STATUS_INTERNAL_ERROR, s2)
       | Inr (collector, ids) \<Rightarrow>
          (let required = (case collector of None \<Rightarrow> COLLECTOR_UNKNOWN | Some k \<Rightarrow> k);
               (status, s3) = on_collectors env t
                 (ConfigureCollectionOnTarget (se_exec env) t required (se_configuration env t params ids)) s2 in
           if status \<noteq> ASTL_STATUS_SUCCESS then (status, s3)
           else CompleteCollectionConfiguration env t params ids s3))"

definition ConfigureCounterCollection :: "('t, 'c, 'cfg, 's, 'm, 'u) session_env \<Rightarrow> 't \<Rightarrow> collection_params \<Rightarrow> nat list
    \<Rightarrow> ('t, 'c, 's, 'm, 'u) session \<Rightarrow> astl_status \<times> ('t, 'c, 's, 'm, 'u) session" where
  "ConfigureCounterCollection env t params counters s =
    (if t \<notin> set (ss_targets s) then (ASTL_STATUS_INVALID_TARGET_HANDLE, s)
     else case GetAvailableCounters t (st_metrics (ss_stores s)) of
         Inl e \<Rightarrow> (e, s)
       | Inr available \<Rightarrow>
           if \<not> list_all (\<lambda>h. h \<in> set available) counters then (ASTL_STATUS_COUNTER_NOT_SUPPORTED_ON_TARGET, s)
           else configure_operations env (GetCounterRequiredOperations (se_metrics env) counters (Some t)) t params s)"

definition ConfigureMetricCollection :: "('t, 'c, 'cfg, 's, 'm, 'u) session_env \<Rightarrow> 't \<Rightarrow> collection_params \<Rightarrow> nat list
    \<Rightarrow> ('t, 'c, 's, 'm, 'u) session \<Rightarrow> astl_status \<times> ('t, 'c, 's, 'm, 'u) session" where
  "ConfigureMetricCollection env t params metrics s =
    (if t \<notin> set (ss_targets s) then (ASTL_STATUS_INVALID_TARGET_HANDLE, s)
     else case GetAvailableMetrics t (st_metrics (ss_stores s)) of
         Inl e \<Rightarrow> (e, s)
       | Inr available \<Rightarrow>
           if \<not> list_all (\<lambda>h. h \<in> set available) metrics then (ASTL_STATUS_METRIC_NOT_SUPPORTED_ON_TARGET, s)
           else configure_operations env (GetRequiredOperations (se_metrics env) metrics (Some t)) t params s)"

section \<open>The lifecycle event metric\<close>

definition lifecycle_event_config :: "string \<Rightarrow> registered_config" where
  "lifecycle_event_config name =
    \<lparr>gc_config = MetricConfig (''astl_lifecycle_events.'' @ name) ASTL_VALUE_UINT64 Identity ASTL_VALUE_UNKNOWN [],
     gc_collector = ASTL_NATIVE, gc_groups = [],
     gc_event = Some \<lparr>ec_values = [(VU64 0, ''ASTL_LIFECYCLE_PAUSE''), (VU64 1, ''ASTL_LIFECYCLE_RESUME''),
       (VU64 2, ''ASTL_LIFECYCLE_CROP_BEGIN''), (VU64 3, ''ASTL_LIFECYCLE_CROP_END'')], ec_lifecycle = True\<rparr>\<rparr>"

definition RegisterLifecycleEventMetricForTarget :: "('t, 'c, 'cfg, 's, 'm, 'u) session_env \<Rightarrow> 't option
    \<Rightarrow> ('t, 'c, 's, 'm, 'u) session \<Rightarrow> astl_status \<times> ('t, 'c, 's, 'm, 'u) session" where
  "RegisterLifecycleEventMetricForTarget env target s =
    (case target of
       None \<Rightarrow> (ASTL_STATUS_BAD_ARGUMENT, s)
     | Some t \<Rightarrow>
         if GetLifecycleEventMetricOnTarget t (st_metrics (ss_stores s)) \<noteq> None then (ASTL_STATUS_SUCCESS, s)
         else let (status, mw) = RegisterMetric (se_create env) (Some (lifecycle_event_config (se_name env t)))
                [(t, se_new_metric env)] (st_metrics (ss_stores s), st_world (ss_stores s)) in
           (status, on_stores (on_metrics (\<lambda>_. mw)) s))"

definition EnsureLifecycleEventMetricForTarget :: "('t, 'c, 'cfg, 's, 'm, 'u) session_env \<Rightarrow> 't option
    \<Rightarrow> ('t, 'c, 's, 'm, 'u) session \<Rightarrow> ('t, 'c, 's, 'm, 'u) session" where
  "EnsureLifecycleEventMetricForTarget env target s = snd (RegisterLifecycleEventMetricForTarget env target s)"

section \<open>Starting, reading, pausing and resuming\<close>

definition clear_raw_samples :: "'t \<Rightarrow> ('t, 'c, 's, 'm, 'u) session \<Rightarrow> ('t, 'c, 's, 'm, 'u) session" where
  "clear_raw_samples t = on_stores (\<lambda>st. st\<lparr>st_raw_samples := (st_raw_samples st)(t \<mapsto> [])\<rparr>)"

definition StartCollectionImpl :: "('t, 'c, 'cfg, 's, 'm, 'u) session_env \<Rightarrow> 't \<Rightarrow> bool
    \<Rightarrow> ('t, 'c, 's, 'm, 'u) session \<Rightarrow> astl_status \<times> ('t, 'c, 's, 'm, 'u) session" where
  "StartCollectionImpl env t start_paused s =
    (if t \<notin> set (ss_targets s) then (ASTL_STATUS_INVALID_TARGET_HANDLE, s)
     else case state_of s t of
         None \<Rightarrow> (ASTL_STATUS_INVALID_TARGET_HANDLE, s)
       | Some x \<Rightarrow>
          (let status = CheckCollectionLifecycleAction x START in
           if status \<noteq> ASTL_STATUS_SUCCESS then (status, s)
           else
             let s1 = clear_raw_samples t (set_state t STARTING s);
                 (start_status, s2) = on_collectors env t (StartOnTarget (se_exec env) t) s1 in
             if start_status \<noteq> ASTL_STATUS_SUCCESS then (start_status, leave_starting t CONFIGURED s2)
             else if \<not> start_paused then (ASTL_STATUS_SUCCESS, leave_starting t STARTED s2)
             else
               let (pause_status, s3) = on_collectors env t (PauseOnTarget (se_exec env) t) s2 in
               if pause_status = ASTL_STATUS_SUCCESS then
                 let s4 = leave_starting t PAUSED (EnsureLifecycleEventMetricForTarget env (Some t) s3) in
                 (ASTL_STATUS_SUCCESS, s4\<lparr>ss_pause_timestamps := (ss_pause_timestamps s4)(t \<mapsto> se_now env)\<rparr>)
               else
                 let (rollback_status, s4) = on_collectors env t (StopOnTarget (se_exec env) t) s3;
                     s5 = leave_starting t (if rollback_status = ASTL_STATUS_SUCCESS then CONFIGURED else STARTED)
                            (clear_raw_samples t s4) in
                 if rollback_status \<noteq> ASTL_STATUS_SUCCESS then (rollback_status, s5)
                 else (if pause_status = kInternalNotImplemented then ASTL_STATUS_PAUSE_UNSUPPORTED else pause_status, s5)))"

definition StartCollection :: "('t, 'c, 'cfg, 's, 'm, 'u) session_env \<Rightarrow> 't
    \<Rightarrow> ('t, 'c, 's, 'm, 'u) session \<Rightarrow> astl_status \<times> ('t, 'c, 's, 'm, 'u) session" where
  "StartCollection env t s = StartCollectionImpl env t False s"

definition StartCollectionPaused :: "('t, 'c, 'cfg, 's, 'm, 'u) session_env \<Rightarrow> 't
    \<Rightarrow> ('t, 'c, 's, 'm, 'u) session \<Rightarrow> astl_status \<times> ('t, 'c, 's, 'm, 'u) session" where
  "StartCollectionPaused env t s = StartCollectionImpl env t True s"

definition RollbackStartedCollectionToConfigured :: "('t, 'c, 'cfg, 's, 'm, 'u) session_env \<Rightarrow> 't option
    \<Rightarrow> ('t, 'c, 's, 'm, 'u) session \<Rightarrow> astl_status \<times> ('t, 'c, 's, 'm, 'u) session" where
  "RollbackStartedCollectionToConfigured env target s =
    (case target of
       None \<Rightarrow> (ASTL_STATUS_BAD_ARGUMENT, s)
     | Some t \<Rightarrow>
        (let (stop_status, s1) = on_collectors env t (StopOnTarget (se_exec env) t) s in
         if stop_status \<noteq> ASTL_STATUS_SUCCESS then (stop_status, s1)
         else let (reset_status, s2) = ResetTargetCollectionArtifacts env (Some t) s1 in
           if reset_status \<noteq> ASTL_STATUS_SUCCESS then (reset_status, s2)
           else (ASTL_STATUS_SUCCESS, set_state t CONFIGURED (ResetFinalOutputEmissionState s2))))"

definition Orchestrator_ReadImmediate :: "('t, 'c, 'cfg, 's, 'm, 'u) session_env \<Rightarrow> 't
    \<Rightarrow> ('t, 'c, 's, 'm, 'u) session \<Rightarrow> astl_status \<times> ('t, 'c, 's, 'm, 'u) session" where
  "Orchestrator_ReadImmediate env t s =
    (if state_of s t = Some UNCONFIGURED then (ASTL_STATUS_COLLECTION_NOT_CONFIGURED, s)
     else on_collectors env t (ReadImmediateOnTarget (se_exec env) t) s)"

definition Orchestrator_PauseCollection :: "('t, 'c, 'cfg, 's, 'm, 'u) session_env \<Rightarrow> 't
    \<Rightarrow> ('t, 'c, 's, 'm, 'u) session \<Rightarrow> astl_status \<times> ('t, 'c, 's, 'm, 'u) session" where
  "Orchestrator_PauseCollection env t s =
    (if t \<notin> set (ss_targets s) then (ASTL_STATUS_INVALID_TARGET_HANDLE, s)
     else case state_of s t of
         None \<Rightarrow> (ASTL_STATUS_INVALID_TARGET_HANDLE, s)
       | Some x \<Rightarrow>
          (let status = CheckCollectionLifecycleAction x PAUSE in
           if status \<noteq> ASTL_STATUS_SUCCESS then (status, s)
           else let (collector_status, s1) = on_collectors env t (PauseOnTarget (se_exec env) t)
                      (EnsureLifecycleEventMetricForTarget env (Some t) s) in
             if collector_status \<noteq> ASTL_STATUS_SUCCESS
             then (if collector_status = kInternalNotImplemented then ASTL_STATUS_PAUSE_UNSUPPORTED else collector_status, s1)
             else (ASTL_STATUS_SUCCESS,
               (set_state t PAUSED s1)\<lparr>ss_pause_timestamps := (ss_pause_timestamps s1)(t \<mapsto> se_now env)\<rparr>)))"

definition Orchestrator_ResumeCollection :: "('t, 'c, 'cfg, 's, 'm, 'u) session_env \<Rightarrow> 't
    \<Rightarrow> ('t, 'c, 's, 'm, 'u) session \<Rightarrow> astl_status \<times> ('t, 'c, 's, 'm, 'u) session" where
  "Orchestrator_ResumeCollection env t s =
    (if t \<notin> set (ss_targets s) then (ASTL_STATUS_INVALID_TARGET_HANDLE, s)
     else case state_of s t of
         None \<Rightarrow> (ASTL_STATUS_INVALID_TARGET_HANDLE, s)
       | Some x \<Rightarrow>
          (let status = CheckCollectionLifecycleAction x RESUME in
           if status \<noteq> ASTL_STATUS_SUCCESS then (status, s)
           else let (collector_status, s1) = on_collectors env t (ResumeOnTarget (se_exec env) t)
                      (EnsureLifecycleEventMetricForTarget env (Some t) s) in
             if collector_status \<noteq> ASTL_STATUS_SUCCESS
             then (if collector_status = kInternalNotImplemented then ASTL_STATUS_RESUME_UNSUPPORTED else collector_status, s1)
             else (ASTL_STATUS_SUCCESS,
               (set_state t STARTED s1)\<lparr>ss_resume_timestamps := (ss_resume_timestamps s1)(t \<mapsto> se_now env)\<rparr>)))"

section \<open>Stopping and the final outputs\<close>

definition TryBeginFinalOutputEmission :: "FinalOutputEmissionState \<Rightarrow> bool \<times> FinalOutputEmissionState" where
  "TryBeginFinalOutputEmission x = (if x = NOT_EMITTED then (True, EMITTING) else (False, x))"

definition FinishFinalOutputEmission :: "bool \<Rightarrow> FinalOutputEmissionState" where
  "FinishFinalOutputEmission emission_succeeded = (if emission_succeeded then EMITTED else NOT_EMITTED)"

definition EnsureFinalEmissionProcessedSamplesRebuilt :: "('t, 'c, 'cfg, 's, 'm, 'u) session_env
    \<Rightarrow> ('t, 'c, 's, 'm, 'u) session \<Rightarrow> ('t, 'c, 's, 'm, 'u) session" where
  "EnsureFinalEmissionProcessedSamplesRebuilt env s =
    (if ss_final_rebuild_attempted s then s
     else on_stores (se_rebuild env) (s\<lparr>ss_final_rebuild_attempted := True\<rparr>))"

text \<open>OutputManager::OutputProcessedSamples as the orchestrator calls it.\<close>

definition output_processed :: "('t, 'c, 'cfg, 's, 'm, 'u) session_env \<Rightarrow> OutputType
    \<Rightarrow> ('t, 'c, 's, 'm, 'u) session \<Rightarrow> astl_status \<times> ('t, 'c, 's, 'm, 'u) session" where
  "output_processed env type s =
    (let processed = st_processed (ss_stores s); status = se_write env type processed in
     (status, s\<lparr>ss_outputs := ss_outputs s @ [(type, processed, status)]\<rparr>))"

definition EmitPerfettoTraceIfRequested :: "('t, 'c, 'cfg, 's, 'm, 'u) session_env
    \<Rightarrow> ('t, 'c, 's, 'm, 'u) session \<Rightarrow> ('t, 'c, 's, 'm, 'u) session" where
  "EmitPerfettoTraceIfRequested env s =
    (let (begun, x) = TryBeginFinalOutputEmission (ss_perfetto_emission_state s);
         s1 = s\<lparr>ss_perfetto_emission_state := x\<rparr> in
     if \<not> begun then s1
     else if se_output_path env PERFETTO = [] then s1\<lparr>ss_perfetto_emission_state := FinishFinalOutputEmission False\<rparr>
     else let (status, s2) = output_processed env PERFETTO (EnsureFinalEmissionProcessedSamplesRebuilt env s1) in
       s2\<lparr>ss_perfetto_emission_state := FinishFinalOutputEmission (status = ASTL_STATUS_SUCCESS)\<rparr>)"

definition EmitIntervalCsvIfRequested :: "('t, 'c, 'cfg, 's, 'm, 'u) session_env
    \<Rightarrow> ('t, 'c, 's, 'm, 'u) session \<Rightarrow> ('t, 'c, 's, 'm, 'u) session" where
  "EmitIntervalCsvIfRequested env s =
    (let (begun, x) = TryBeginFinalOutputEmission (ss_intervalcsv_emission_state s);
         s1 = s\<lparr>ss_intervalcsv_emission_state := x\<rparr> in
     if \<not> begun then s1
     else if se_output_path env INTERVAL_CSV = []
     then s1\<lparr>ss_intervalcsv_emission_state := FinishFinalOutputEmission False\<rparr>
     else let (status, s2) = output_processed env INTERVAL_CSV (EnsureFinalEmissionProcessedSamplesRebuilt env s1) in
       s2\<lparr>ss_intervalcsv_emission_state := FinishFinalOutputEmission (status = ASTL_STATUS_SUCCESS)\<rparr>)"

definition EmitSummaryCsvIfRequested :: "('t, 'c, 'cfg, 's, 'm, 'u) session_env
    \<Rightarrow> ('t, 'c, 's, 'm, 'u) session \<Rightarrow> ('t, 'c, 's, 'm, 'u) session" where
  "EmitSummaryCsvIfRequested env s =
    (if se_output_path env SUMMARY_CSV = [] then s
     else snd (output_processed env SUMMARY_CSV (EnsureFinalEmissionProcessedSamplesRebuilt env s)))"

definition ValidateStopCollectionTarget :: "'t \<Rightarrow> ('t, 'c, 's, 'm, 'u) session \<Rightarrow> astl_status" where
  "ValidateStopCollectionTarget t s =
    (if t \<notin> set (ss_targets s) then ASTL_STATUS_INVALID_TARGET_HANDLE
     else case state_of s t of
         None \<Rightarrow> ASTL_STATUS_INVALID_TARGET_HANDLE
       | Some x \<Rightarrow> CheckCollectionLifecycleAction x STOP)"

definition FlushPendingRawSamples :: "('t, 'c, 'cfg, 's, 'm, 'u) session_env \<Rightarrow> 't
    \<Rightarrow> ('t, 's, 'm, 'u) stores \<Rightarrow> astl_status \<times> ('t, 's, 'm, 'u) stores" where
  "FlushPendingRawSamples env t st =
    (case st_raw_samples st t of
       None \<Rightarrow> (ASTL_STATUS_SUCCESS, st)
     | Some [] \<Rightarrow> (ASTL_STATUS_SUCCESS, st)
     | Some pending \<Rightarrow>
        (let (status, file) = SerializeBatchWithRollback (se_serialize env t) (se_cache_io env t) pending (st_cache_files st t);
             st1 = st\<lparr>st_cache_files := (st_cache_files st)(t := file)\<rparr> in
         if status \<noteq> ASTL_STATUS_SUCCESS then (status, st1)
         else (ASTL_STATUS_SUCCESS, st1\<lparr>st_raw_samples := (st_raw_samples st)(t \<mapsto> [])\<rparr>)))"

definition Orchestrator_StopCollection :: "('t, 'c, 'cfg, 's, 'm, 'u) session_env \<Rightarrow> 't
    \<Rightarrow> ('t, 'c, 's, 'm, 'u) session \<Rightarrow> astl_status \<times> ('t, 'c, 's, 'm, 'u) session" where
  "Orchestrator_StopCollection env t s =
    (let validation_status = ValidateStopCollectionTarget t s in
     if validation_status \<noteq> ASTL_STATUS_SUCCESS then (validation_status, s)
     else let (status, s1) = on_collectors env t (StopOnTarget (se_exec env) t) s in
       if status \<noteq> ASTL_STATUS_SUCCESS then (status, s1)
       else let (status, st) = FlushPendingRawSamples env t (ss_stores s1);
                s2 = s1\<lparr>ss_stores := st\<rparr> in
         if status \<noteq> ASTL_STATUS_SUCCESS then (status, s2)
         else let s3 = (if IsAnyTargetBeingCollected (ss_collectors s2) then s2
                        else EmitSummaryCsvIfRequested env
                          (EmitIntervalCsvIfRequested env (EmitPerfettoTraceIfRequested env s2))) in
           (ASTL_STATUS_SUCCESS, set_state t STOPPED s3))"

section \<open>The raw sample sink and the queries\<close>

text \<open>
  The batch size and the answer of the target's GetProperties are arguments.  None is a call that
  does not return normally: the loop of AppendCachedRawSamples without an end, or a marker that
  does not hold a uint64_t.
\<close>

definition Orchestrator_SinkRawSamples :: "('m queue \<Rightarrow> 'm queue) \<Rightarrow> nat \<Rightarrow> ('t \<Rightarrow> astl_status)
    \<Rightarrow> ('t, 'c, 'cfg, 's, 'm, 'u) session_env \<Rightarrow> 't option \<Rightarrow> raw_sample list
    \<Rightarrow> ('t, 's, 'm, 'u) stores \<Rightarrow> (astl_status \<times> ('t, 's, 'm, 'u) stores) option" where
  "Orchestrator_SinkRawSamples sorter n properties env target raws st =
    (case target of
       None \<Rightarrow> Some (ASTL_STATUS_BAD_ARGUMENT, st)
     | Some t \<Rightarrow>
         if properties t \<noteq> ASTL_STATUS_SUCCESS then Some (properties t, st)
         else if raws = [] then Some (ASTL_STATUS_SUCCESS, st)
         else if t \<in> st_no_cache_targets st then
           (case ProcessRawSamples sorter (se_metrics env) [(Some t, raws)] (st_metrics st, st_world st) of
              None \<Rightarrow> None
            | Some (status, mw) \<Rightarrow> Some (status, on_metrics (\<lambda>_. mw) st))
         else
           (case AppendCachedRawSamples (se_serialize env t) (se_cache_io env t) n raws
                \<lparr>rc_pending = (case st_raw_samples st t of None \<Rightarrow> [] | Some p \<Rightarrow> p), rc_file = st_cache_files st t\<rparr> of
              None \<Rightarrow> None
            | Some (status, c) \<Rightarrow>
                Some (status, st\<lparr>st_recent := InvalidateRecentProcessedMetricSamples (st_recent st),
                  st_raw_samples := (st_raw_samples st)(t \<mapsto> rc_pending c),
                  st_cache_files := (st_cache_files st)(t := rc_file c)\<rparr>)))"

definition GetTargetCollectionState :: "'t option \<Rightarrow> ('t, 'c, 's, 'm, 'u) session \<Rightarrow> CollectionLifecycleState result" where
  "GetTargetCollectionState target s =
    (case target of
       None \<Rightarrow> Inl ASTL_STATUS_BAD_ARGUMENT
     | Some t \<Rightarrow>
         if t \<notin> set (ss_targets s) then Inl ASTL_STATUS_INVALID_TARGET_HANDLE
         else case state_of s t of None \<Rightarrow> Inl ASTL_STATUS_INVALID_TARGET_HANDLE | Some x \<Rightarrow> Inr x)"

definition pause_timestamps :: "processed_sample list \<Rightarrow> int list" where
  "pause_timestamps samples = map ps_timestamp (filter (\<lambda>p. ps_value p = VU64 0) samples)"

definition GetPauseMarkersSnapshot :: "('t, 'c, 's, 'm, 'u) session \<Rightarrow> ('t \<times> int list) list" where
  "GetPauseMarkersSnapshot s =
    concat (map (\<lambda>(t, x).
      (case GetLifecycleEventMetricOnTarget t (st_metrics (ss_stores s)) of
         None \<Rightarrow> []
       | Some m \<Rightarrow>
          (case st_processed (ss_stores s) (t, m) of
             None \<Rightarrow> []
           | Some samples \<Rightarrow> [(t, pause_timestamps samples)]))) (ss_states s))"

definition HasProcessedMetricSamples :: "'m \<Rightarrow> 't \<Rightarrow> ('t, 'c, 's, 'm, 'u) session \<Rightarrow> bool" where
  "HasProcessedMetricSamples m t s \<longleftrightarrow> st_processed (ss_stores s) (t, m) \<noteq> None"

section \<open>Frames\<close>

text \<open>
  The part of a session that decides about commands: the states, the collectors and the pending
  reset.  The operations on samples, metrics and outputs leave it alone.
\<close>

definition control :: "('t, 'c, 's, 'm, 'u) session
    \<Rightarrow> ('t \<times> CollectionLifecycleState) list \<times> ('t, CollectorType, 'c, 's) collector_manager \<times> bool \<times> 't list" where
  "control s = (ss_states s, ss_collectors s, ss_clean_configure_reset_pending s, ss_targets s)"

lemma control_on_stores [simp]: "control (on_stores f s) = control s"
  by (simp add: control_def on_stores_def)

lemma control_clear_raw [simp]: "control (clear_raw_samples t s) = control s"
  by (simp add: clear_raw_samples_def)

lemma control_simps [simp]:
  "control (ResetFinalOutputEmissionState s) = control s"
  "control (s\<lparr>ss_pause_timestamps := a\<rparr>) = control s"
  "control (s\<lparr>ss_resume_timestamps := b\<rparr>) = control s"
  "control (s\<lparr>ss_stores := st\<rparr>) = control s"
  "control (s\<lparr>ss_platform_loaded := c\<rparr>) = control s"
  "control (s\<lparr>ss_wall_clock := d\<rparr>) = control s"
  "control (s\<lparr>ss_final_rebuild_attempted := e\<rparr>) = control s"
  "control (s\<lparr>ss_perfetto_emission_state := x\<rparr>) = control s"
  "control (s\<lparr>ss_intervalcsv_emission_state := x\<rparr>) = control s"
  "control (s\<lparr>ss_outputs := y\<rparr>) = control s"
  by (simp_all add: control_def ResetFinalOutputEmissionState_def)

lemma control_artifacts [simp]: "control (snd (ResetTargetCollectionArtifacts env target s)) = control s"
  by (simp add: ResetTargetCollectionArtifacts_def Let_def split: option.split)

lemma control_reset_targets [simp]: "control (snd (reset_targets env ts s)) = control s"
proof (induction ts arbitrary: s)
  case (Cons t ts)
  then show ?case
    using control_artifacts [of env "Some t" s]
    by (simp add: case_prod_beta' Let_def del: control_artifacts)
qed simp

lemma control_reset_all [simp]: "control (snd (ResetAllCollectionArtifacts env s)) = control s"
  using control_reset_targets [of env "ss_targets s" s]
  by (simp add: ResetAllCollectionArtifacts_def case_prod_beta' Let_def del: control_reset_targets)

lemma control_event_metric [simp]: "control (EnsureLifecycleEventMetricForTarget env target s) = control s"
  by (simp add: EnsureLifecycleEventMetricForTarget_def RegisterLifecycleEventMetricForTarget_def case_prod_beta' Let_def
    split: option.split)

lemma control_emission [simp]:
  "control (EnsureFinalEmissionProcessedSamplesRebuilt env s) = control s"
  "control (snd (output_processed env type s)) = control s"
  by (simp_all add: EnsureFinalEmissionProcessedSamplesRebuilt_def output_processed_def Let_def)

lemma control_emit [simp]:
  "control (EmitPerfettoTraceIfRequested env s) = control s"
  "control (EmitIntervalCsvIfRequested env s) = control s"
  "control (EmitSummaryCsvIfRequested env s) = control s"
  by (simp_all add: EmitPerfettoTraceIfRequested_def EmitIntervalCsvIfRequested_def EmitSummaryCsvIfRequested_def
    case_prod_beta' Let_def)

lemma controlD:
  assumes "control s' = control s"
  shows "ss_states s' = ss_states s" "ss_collectors s' = ss_collectors s" "state_of s' = state_of s"
    "ss_clean_configure_reset_pending s' = ss_clean_configure_reset_pending s" "ss_targets s' = ss_targets s"
  using assms by (simp_all add: control_def state_of_def [abs_def])

lemma control_set_state:
  "control (set_state t x s) = (AList.update t x (ss_states s), ss_collectors s, ss_clean_configure_reset_pending s, ss_targets s)"
  by (simp add: control_def set_state_def)

lemma control_on_collectors:
  "control (snd (on_collectors env t f s))
    = (ss_states s, snd (f (ss_collectors s)), ss_clean_configure_reset_pending s, ss_targets s)"
  "fst (on_collectors env t f s) = fst (f (ss_collectors s))"
  by (simp_all add: control_def on_collectors_def case_prod_beta' Let_def)

lemmas frame_simps [simp] =
  controlD [OF control_on_stores] controlD [OF control_clear_raw] controlD [OF control_event_metric] controlD [OF control_artifacts]
  controlD [OF control_emit(1)] controlD [OF control_emit(2)] controlD [OF control_emit(3)]
  controlD [OF control_simps(1)] controlD [OF control_simps(2)] controlD [OF control_simps(3)] controlD [OF control_simps(4)]

lemma on_collectors_simps [simp]:
  "state_of (snd (on_collectors env t f s)) = state_of s"
  "ss_states (snd (on_collectors env t f s)) = ss_states s"
  "ss_targets (snd (on_collectors env t f s)) = ss_targets s"
  "ss_collectors (snd (on_collectors env t f s)) = snd (f (ss_collectors s))"
  "ss_clean_configure_reset_pending (snd (on_collectors env t f s)) = ss_clean_configure_reset_pending s"
  "fst (on_collectors env t f s) = fst (f (ss_collectors s))"
  by (simp_all add: on_collectors_def state_of_def [abs_def] case_prod_beta' Let_def)

lemma set_state_simps [simp]:
  "state_of (set_state t x s) = (state_of s)(t \<mapsto> x)"
  "ss_collectors (set_state t x s) = ss_collectors s"
  "ss_clean_configure_reset_pending (set_state t x s) = ss_clean_configure_reset_pending s"
  "ss_targets (set_state t x s) = ss_targets s"
  "distinct (map fst (ss_states s)) \<Longrightarrow> distinct (map fst (ss_states (set_state t x s)))"
  by (simp_all add: set_state_def state_of_def [abs_def] update_conv' distinct_update fun_eq_iff)

lemma leave_starting_simps [simp]:
  "state_of s t = Some STARTING \<Longrightarrow> leave_starting t x s = set_state t x s"
  by (simp add: leave_starting_def)

section \<open>What a configuration leaves behind\<close>

lemma stores_simps [simp]:
  "ss_stores (on_stores f s) = f (ss_stores s)"
  "ss_pause_timestamps (on_stores f s) = ss_pause_timestamps s"
  "ss_resume_timestamps (on_stores f s) = ss_resume_timestamps s"
  "ss_stores (set_state t x s) = ss_stores s"
  "ss_stores (ResetFinalOutputEmissionState s) = ss_stores s"
  "st_metrics (set_processed p st) = st_metrics st"
  "st_processed (set_processed p st) = p"
  "st_raw_samples (set_processed p st) = st_raw_samples st"
  "st_cache_files (set_processed p st) = st_cache_files st"
  "st_recent (set_processed p st) = st_recent st"
  "st_no_cache_targets (set_processed p st) = st_no_cache_targets st"
  "st_metrics (on_metrics g st) = fst (g (st_metrics st, st_world st))"
  by (simp_all add: on_stores_def set_state_def ResetFinalOutputEmissionState_def set_processed_def st_processed_def
    on_metrics_def case_prod_beta' Let_def)

lemma st_processed_simps [simp]:
  "st_processed (st\<lparr>st_metrics := mm\<rparr>) = st_processed st"
  "st_processed (st\<lparr>st_no_cache_targets := ts\<rparr>) = st_processed st"
  "st_processed (st\<lparr>st_cache_files := fs\<rparr>) = st_processed st"
  "st_processed (st\<lparr>st_raw_samples := rs\<rparr>) = st_processed st"
  by (simp_all add: st_processed_def)

text \<open>What a target has of an earlier session: nothing.\<close>

definition no_artifacts :: "'t \<Rightarrow> ('t, 'c, 's, 'm, 'u) session \<Rightarrow> bool" where
  "no_artifacts t s \<longleftrightarrow>
    (let st = ss_stores s in
     st_raw_samples st t = None \<and> st_cache_files st t = None \<and> (\<forall>m. st_processed st (t, m) = None)
     \<and> st_recent st = \<lparr>recent_target = None, recent_metric = None, recent_list = []\<rparr>
     \<and> ss_pause_timestamps s t = None \<and> ss_resume_timestamps s t = None)"

definition not_emitted :: "('t, 'c, 's, 'm, 'u) session \<Rightarrow> bool" where
  "not_emitted s \<longleftrightarrow> ss_perfetto_emission_state s = NOT_EMITTED \<and> ss_intervalcsv_emission_state s = NOT_EMITTED
    \<and> \<not> ss_final_rebuild_attempted s"

lemma artifacts_cleared:
  assumes "ResetTargetCollectionArtifacts env (Some t) s = (ASTL_STATUS_SUCCESS, s')"
  shows "no_artifacts t s'" "st_metrics (ss_stores s') = st_metrics (ss_stores s)"
    "st_no_cache_targets (ss_stores s') = st_no_cache_targets (ss_stores s)"
  using assms
  by (auto simp: ResetTargetCollectionArtifacts_def no_artifacts_def Let_def InvalidateRecentProcessedMetricSamples_def
    split: if_splits)

lemma artifacts_status:
  "fst (ResetTargetCollectionArtifacts env (Some t) s) = (if se_remove_fails env t then ASTL_STATUS_INTERNAL_ERROR else ASTL_STATUS_SUCCESS)"
  by (simp add: ResetTargetCollectionArtifacts_def Let_def)

lemma stale_status: "fst (ClearStaleOperationStateForTarget im (Some t) active mw) = ASTL_STATUS_SUCCESS"
  by (simp add: ClearStaleOperationStateForTarget_def Let_def)

lemma complete_success:
  assumes "CompleteCollectionConfiguration env t params active s = (ASTL_STATUS_SUCCESS, s')"
    and errors: "\<forall>c. se_snapshot env c \<noteq> Inl ASTL_STATUS_SUCCESS"
  shows "state_of s' t = Some CONFIGURED" "no_artifacts t s'" "not_emitted s'"
    "t \<in> st_no_cache_targets (ss_stores s') \<longleftrightarrow> cp_flags params AND ASTL_NO_CACHING \<noteq> 0"
    "\<exists>correlations. CollectorManager_GetNativeClockSnapshot (se_snapshot env) t (ss_collectors s) = Inr correlations
      \<and> st_metrics (ss_stores s') = SetClockCorrelations correlations (fst (snd (ClearStaleOperationStateForTarget (se_metrics env)
          (Some t) active (st_metrics (ss_stores s), st_world (ss_stores s)))))"
proof -
  let ?stale = "ClearStaleOperationStateForTarget (se_metrics env) (Some t) active (st_metrics (ss_stores s), st_world (ss_stores s))"
  obtain mw where c: "?stale = (ASTL_STATUS_SUCCESS, mw)"
    using stale_status [of "se_metrics env" t active] by (metis prod.collapse)
  define s1 where "s1 = on_stores (on_metrics (\<lambda>_. mw)) s"
  obtain status s2 where a: "ResetTargetCollectionArtifacts env (Some t) s1 = (status, s2)" by fastforce
  have col: "ss_collectors s2 = ss_collectors s"
    using controlD(2) [OF control_artifacts, of env "Some t" s1] unfolding a snd_conv by (simp add: s1_def)
  have u: "CompleteCollectionConfiguration env t params active s =
    (if status \<noteq> ASTL_STATUS_SUCCESS then (status, ClearFailedCollectionConfiguration env t s2)
     else case CollectorManager_GetNativeClockSnapshot (se_snapshot env) t (ss_collectors s2) of
         Inl e \<Rightarrow> (e, ClearFailedCollectionConfiguration env t s2)
       | Inr correlations \<Rightarrow>
          (ASTL_STATUS_SUCCESS, set_state t CONFIGURED
            (on_stores (\<lambda>st. st\<lparr>st_no_cache_targets :=
                (if cp_flags params AND ASTL_NO_CACHING \<noteq> 0 then insert t (st_no_cache_targets st) else st_no_cache_targets st - {t})\<rparr>)
              (ResetFinalOutputEmissionState
                (on_stores (\<lambda>st. st\<lparr>st_metrics := SetClockCorrelations correlations (st_metrics st)\<rparr>) s2)))))"
    by (simp add: CompleteCollectionConfiguration_def c a Let_def flip: s1_def cong: if_cong sum.case_cong)
  have clear: "state_of s' t = Some CONFIGURED \<and> no_artifacts t s' \<and> not_emitted s'
      \<and> (t \<in> st_no_cache_targets (ss_stores s') \<longleftrightarrow> cp_flags params AND ASTL_NO_CACHING \<noteq> 0)
      \<and> (\<exists>correlations. CollectorManager_GetNativeClockSnapshot (se_snapshot env) t (ss_collectors s) = Inr correlations
        \<and> st_metrics (ss_stores s') = SetClockCorrelations correlations (fst mw))"
    if "status = ASTL_STATUS_SUCCESS"
      and corr: "CollectorManager_GetNativeClockSnapshot (se_snapshot env) t (ss_collectors s2) = Inr correlations" for correlations
  proof -
    have s2: "no_artifacts t s2" "st_metrics (ss_stores s2) = fst mw"
      using artifacts_cleared [of env t s1 s2] a that(1) by (simp_all add: s1_def)
    let ?st = "\<lambda>st. st\<lparr>st_no_cache_targets :=
      (if cp_flags params AND ASTL_NO_CACHING \<noteq> 0 then insert t (st_no_cache_targets st) else st_no_cache_targets st - {t})\<rparr>"
    have s': "s' = set_state t CONFIGURED (on_stores ?st (ResetFinalOutputEmissionState
        (on_stores (\<lambda>st. st\<lparr>st_metrics := SetClockCorrelations correlations (st_metrics st)\<rparr>) s2)))"
      using assms(1) unfolding u by (simp add: that)
    have "no_artifacts t s'" using s2(1) unfolding s'
      by (auto simp: no_artifacts_def Let_def on_stores_def set_state_def ResetFinalOutputEmissionState_def)
    moreover have "not_emitted s'" unfolding s'
      by (simp add: not_emitted_def set_state_def on_stores_def ResetFinalOutputEmissionState_def)
    moreover have "state_of s' t = Some CONFIGURED" unfolding s' by (simp add: set_state_def state_of_def update_conv')
    moreover have "t \<in> st_no_cache_targets (ss_stores s') \<longleftrightarrow> cp_flags params AND ASTL_NO_CACHING \<noteq> 0"
      "st_metrics (ss_stores s') = SetClockCorrelations correlations (fst mw)" unfolding s' by (simp_all add: s2(2))
    ultimately show ?thesis using corr col by simp
  qed
  have ok: "status = ASTL_STATUS_SUCCESS" using assms(1) u by (auto split: if_splits)
  moreover obtain correlations where "CollectorManager_GetNativeClockSnapshot (se_snapshot env) t (ss_collectors s2) = Inr correlations"
  proof (cases "CollectorManager_GetNativeClockSnapshot (se_snapshot env) t (ss_collectors s2)")
    case (Inl e)
    then have "e = ASTL_STATUS_SUCCESS" using assms(1) u ok by simp
    then show ?thesis
      using Inl errors by (auto simp: CollectorManager_GetNativeClockSnapshot_def split: option.splits list.splits)
  qed (rule that)
  ultimately show "state_of s' t = Some CONFIGURED" "no_artifacts t s'" "not_emitted s'"
    "t \<in> st_no_cache_targets (ss_stores s') \<longleftrightarrow> cp_flags params AND ASTL_NO_CACHING \<noteq> 0"
    "\<exists>correlations. CollectorManager_GetNativeClockSnapshot (se_snapshot env) t (ss_collectors s) = Inr correlations
      \<and> st_metrics (ss_stores s') = SetClockCorrelations correlations (fst (snd ?stale))"
    using clear unfolding c snd_conv by blast+
qed

lemma configure_operations_success:
  assumes c: "configure_operations env require t params s = (ASTL_STATUS_SUCCESS, s')"
    and errors: "\<forall>c. se_snapshot env c \<noteq> Inl ASTL_STATUS_SUCCESS"
  shows "state_of s' t = Some CONFIGURED" "no_artifacts t s'" "not_emitted s'"
    "t \<in> st_no_cache_targets (ss_stores s') \<longleftrightarrow> cp_flags params AND ASTL_NO_CACHING \<noteq> 0"
    "ss_clean_configure_reset_pending s \<or> \<not> list_ex (\<lambda>(t, x). is_running x) (ss_states s)"
proof -
  obtain st s1 where r: "ResetOperationIdsForCleanConfigure env t s = (st, s1)" by fastforce
  obtain ops mw where q: "require (st_metrics (ss_stores s1), st_world (ss_stores s1)) = (ops, mw)" by (metis surj_pair)
  define s2 where "s2 = on_stores (on_metrics (\<lambda>_. mw)) s1"
  have ok: "st = ASTL_STATUS_SUCCESS" using c by (auto simp: configure_operations_def r split: if_splits)
  then obtain collector ids where ops: "ops = Inr (collector, ids)"
    using c q by (cases ops) (auto simp: configure_operations_def r IsInternalStatus_def Let_def split: if_splits)
  let ?f = "ConfigureCollectionOnTarget (se_exec env) t (case collector of None \<Rightarrow> COLLECTOR_UNKNOWN | Some k \<Rightarrow> k)
    (se_configuration env t params ids)"
  obtain st3 s3 where o: "on_collectors env t ?f s2 = (st3, s3)" by fastforce
  have "CompleteCollectionConfiguration env t params ids s3 = (ASTL_STATUS_SUCCESS, s')"
    using c q o by (auto simp: configure_operations_def r ok ops Let_def simp flip: s2_def split: if_splits)
  note complete = complete_success [OF this errors]
  show "state_of s' t = Some CONFIGURED" "no_artifacts t s'" "not_emitted s'"
    "t \<in> st_no_cache_targets (ss_stores s') \<longleftrightarrow> cp_flags params AND ASTL_NO_CACHING \<noteq> 0"
    by (fact complete)+
  show "ss_clean_configure_reset_pending s \<or> \<not> list_ex (\<lambda>(t, x). is_running x) (ss_states s)"
    using r ok by (auto simp: ResetOperationIdsForCleanConfigure_def split: if_splits)
qed

section \<open>How a configuration succeeds\<close>

lemma reset_targets_success:
  "\<forall>t. \<not> se_remove_fails env t \<Longrightarrow>
    fst (reset_targets env ts s) = ASTL_STATUS_SUCCESS \<and> st_metrics (ss_stores (snd (reset_targets env ts s))) = st_metrics (ss_stores s)"
proof (induction ts arbitrary: s)
  case (Cons t ts)
  obtain st s1 where r: "ResetTargetCollectionArtifacts env (Some t) s = (st, s1)" by fastforce
  then have "st = ASTL_STATUS_SUCCESS" using Cons.prems artifacts_status [of env t s] by simp
  then show ?case
    using Cons.IH [OF Cons.prems, of s1] artifacts_cleared(2) [of env t s s1] r by simp
qed simp

text \<open>What a configuration reads of the metric manager.\<close>

definition metric_view_of :: "('t, 'm, 's) metric_manager
    \<Rightarrow> CollectorType list \<times> ('t, 'm) metric_handle list \<times> ('t \<Rightarrow> nat list)" where
  "metric_view_of mm = (mm_capabilities mm, mm_metric_handles mm, mm_target_metrics mm)"

lemma metric_view_simps [simp]:
  "metric_view_of (fst (ClearCollectionOperationState im mw)) = metric_view_of (fst mw)"
  "metric_view_of (fst (reset_target im t mw)) = metric_view_of (fst mw)"
  "metric_view_of (fst (snd (ClearStaleOperationStateForTarget im (Some t) active mw))) = metric_view_of (fst mw)"
  "metric_view_of (SetClockCorrelations correlations mm) = metric_view_of mm"
  by (simp_all add: metric_view_of_def ClearCollectionOperationState_def reset_target_def case_prod_beta'
    ClearStaleOperationStateForTarget_def SetClockCorrelations_def Let_def)

lemma locked_success:
  assumes "ClearConfiguredCollections (se_exec env) (ss_collectors s) = (ASTL_STATUS_SUCCESS, m)"
    and "\<forall>t. \<not> se_remove_fails env t"
  obtains s' where "ResetCollectionStateForCleanConfigureLocked env s = (ASTL_STATUS_SUCCESS, s')"
    "control s' = (map (\<lambda>(t, x). (t, UNCONFIGURED)) (ss_states s), m, ss_clean_configure_reset_pending s, ss_targets s)"
    "metric_view_of (st_metrics (ss_stores s')) = metric_view_of (st_metrics (ss_stores s))"
proof -
  define s1 where "s1 = MarkAllTargetsUnconfigured (s\<lparr>ss_collectors := m\<rparr>)"
  have s1: "control s1 = (map (\<lambda>(t, x). (t, UNCONFIGURED)) (ss_states s), m, ss_clean_configure_reset_pending s, ss_targets s)"
      "ss_stores s1 = ss_stores s"
    by (simp_all add: s1_def MarkAllTargetsUnconfigured_def control_def)
  obtain st s2 where a: "ResetAllCollectionArtifacts env s1 = (st, s2)" by fastforce
  have st: "st = ASTL_STATUS_SUCCESS" "st_metrics (ss_stores s2) = st_metrics (ss_stores s)"
    using a reset_targets_success [OF assms(2), of "ss_targets s1" s1] s1(2)
    by (auto simp: ResetAllCollectionArtifacts_def case_prod_beta' Let_def split: if_splits)
  have c: "control s2 = control s1" using control_reset_all [of env s1] unfolding a by simp
  show thesis
    by (rule that [of "snd (ResetCollectionStateForCleanConfigureLocked env s)"])
      (simp_all add: prod_eq_iff ResetCollectionStateForCleanConfigureLocked_def assms(1) a st c s1 Let_def flip: s1_def)
qed

lemma complete_reaches:
  assumes "\<forall>t. \<not> se_remove_fails env t" "CollectorManager_GetNativeClockSnapshot (se_snapshot env) t (ss_collectors s) = Inr correlations"
  obtains s' where "CompleteCollectionConfiguration env t params ids s = (ASTL_STATUS_SUCCESS, s')"
    "control s' = (AList.update t CONFIGURED (ss_states s), ss_collectors s, ss_clean_configure_reset_pending s, ss_targets s)"
    "metric_view_of (st_metrics (ss_stores s')) = metric_view_of (st_metrics (ss_stores s))"
proof -
  let ?mw0 = "(st_metrics (ss_stores s), st_world (ss_stores s))"
  obtain mw where c: "ClearStaleOperationStateForTarget (se_metrics env) (Some t) ids ?mw0 = (ASTL_STATUS_SUCCESS, mw)"
    using stale_status [of "se_metrics env" t ids] by (metis prod.collapse)
  have mw: "metric_view_of (fst mw) = metric_view_of (st_metrics (ss_stores s))"
    using metric_view_simps(3) [of "se_metrics env" t ids ?mw0] by (simp add: c del: metric_view_simps)
  define s1 where "s1 = on_stores (on_metrics (\<lambda>_. mw)) s"
  obtain st s2 where a: "ResetTargetCollectionArtifacts env (Some t) s1 = (st, s2)" by fastforce
  have st: "st = ASTL_STATUS_SUCCESS" using artifacts_status [of env t s1] assms(1) by (simp add: a)
  have s1: "control s1 = control s" "st_metrics (ss_stores s1) = fst mw" by (simp_all add: s1_def)
  have s2: "control s2 = control s" "st_metrics (ss_stores s2) = fst mw"
    using control_artifacts [of env "Some t" s1] artifacts_cleared(2) [of env t s1 s2] unfolding a st
    by (simp_all add: s1)
  show thesis
    by (rule that [of "snd (CompleteCollectionConfiguration env t params ids s)"])
      (simp_all add: prod_eq_iff CompleteCollectionConfiguration_def c a st Let_def controlD [OF s2(1)] assms(2) control_set_state
        s2(2) mw flip: s1_def cong: if_cong)
qed

lemma configure_reaches:
  fixes s :: "('t, 'c, 's, 'm, 'u) session"
  assumes t: "t \<in> set (ss_targets s)" "set metrics \<subseteq> set (mm_target_metrics (st_metrics (ss_stores s)) t)"
    and idle: "\<not> ss_clean_configure_reset_pending s" "\<not> list_ex (\<lambda>(t, x). is_running x) (ss_states s)"
    and reset: "if list_ex (\<lambda>(t', x). x = CONFIGURED \<and> t' \<noteq> t) (ss_states s) then (states, m) = (ss_states s, ss_collectors s)
      else states = map (\<lambda>(t, x). (t, UNCONFIGURED)) (ss_states s)
        \<and> ClearConfiguredCollections (se_exec env) (ss_collectors s) = (ASTL_STATUS_SUCCESS, m)"
    and require: "\<And>mw :: ('t, 'm, 's) metric_manager \<times> ('t, 'm, 'u) session_world. metric_view_of (fst mw) = metric_view_of (st_metrics (ss_stores s)) \<Longrightarrow>
      \<exists>mw'. GetRequiredOperations (se_metrics env) metrics (Some t) mw = (Inr (Some k, ids), mw')
        \<and> metric_view_of (fst mw') = metric_view_of (fst mw)"
    and collector: "ConfigureCollectionOnTarget (se_exec env) t k (se_configuration env t params ids) m = (ASTL_STATUS_SUCCESS, m')"
    and snapshot: "CollectorManager_GetNativeClockSnapshot (se_snapshot env) t m' = Inr correlations"
    and sunk: "\<And>st. metric_view_of (st_metrics (se_sunk env t st)) = metric_view_of (st_metrics st)"
    and files: "\<forall>t. \<not> se_remove_fails env t"
  obtains s' where "ConfigureMetricCollection env t params metrics s = (ASTL_STATUS_SUCCESS, s')"
    "control s' = (AList.update t CONFIGURED states, m', False, ss_targets s)"
    "metric_view_of (st_metrics (ss_stores s')) = metric_view_of (st_metrics (ss_stores s))"
proof -
  let ?view = "metric_view_of (st_metrics (ss_stores s))"
  obtain s1 where r: "ResetOperationIdsForCleanConfigure env t s = (ASTL_STATUS_SUCCESS, s1)"
    and s1: "control s1 = (states, m, False, ss_targets s)" "metric_view_of (st_metrics (ss_stores s1)) = ?view"
  proof (cases "list_ex (\<lambda>(t', x). x = CONFIGURED \<and> t' \<noteq> t) (ss_states s)")
    case True
    then show thesis
      using that [of s] idle reset by (simp add: ResetOperationIdsForCleanConfigure_def control_def)
  next
    case False
    then have clear: "ClearConfiguredCollections (se_exec env) (ss_collectors s) = (ASTL_STATUS_SUCCESS, m)" using reset by simp
    obtain s1 where "ResetCollectionStateForCleanConfigureLocked env s = (ASTL_STATUS_SUCCESS, s1)"
      "control s1 = (map (\<lambda>(t, x). (t, UNCONFIGURED)) (ss_states s), m, ss_clean_configure_reset_pending s, ss_targets s)"
      "metric_view_of (st_metrics (ss_stores s1)) = ?view" by (rule locked_success [OF clear files])
    then show thesis
      using that [of "s1\<lparr>ss_clean_configure_reset_pending := False\<rparr>"] idle reset False
      by (simp add: ResetOperationIdsForCleanConfigure_def control_def)
  qed
  obtain mw where q: "GetRequiredOperations (se_metrics env) metrics (Some t) (st_metrics (ss_stores s1), st_world (ss_stores s1))
      = (Inr (Some k, ids), mw)" "metric_view_of (fst mw) = ?view"
    using require [of "(st_metrics (ss_stores s1), st_world (ss_stores s1))"] s1(2) by auto
  define s2 where "s2 = on_stores (on_metrics (\<lambda>_. mw)) s1"
  have s2: "ss_collectors s2 = m" "control s2 = control s1" "metric_view_of (st_metrics (ss_stores s2)) = ?view"
    using s1(1) q(2) by (simp_all add: s2_def control_def)
  obtain st s3 where o: "on_collectors env t (ConfigureCollectionOnTarget (se_exec env) t k (se_configuration env t params ids)) s2
      = (st, s3)" by fastforce
  have s3: "st = ASTL_STATUS_SUCCESS" "control s3 = (states, m', False, ss_targets s)"
      "metric_view_of (st_metrics (ss_stores s3)) = ?view"
    using o s2 s1(1) sunk [of "ss_stores s2"] by (auto simp: on_collectors_def collector control_def)
  then have "CollectorManager_GetNativeClockSnapshot (se_snapshot env) t (ss_collectors s3) = Inr correlations"
    using snapshot by (simp add: control_def)
  from complete_reaches [OF files this, where params = params and ids = ids]
  obtain s' where "CompleteCollectionConfiguration env t params ids s3 = (ASTL_STATUS_SUCCESS, s')"
      "control s' = (AList.update t CONFIGURED (ss_states s3), ss_collectors s3, ss_clean_configure_reset_pending s3, ss_targets s3)"
      "metric_view_of (st_metrics (ss_stores s')) = metric_view_of (st_metrics (ss_stores s3))" by metis
  moreover from this have "ConfigureMetricCollection env t params metrics s = (ASTL_STATUS_SUCCESS, s')"
    using t r q o s3(1)
    by (simp add: ConfigureMetricCollection_def GetAvailableMetrics_def list_all_iff subset_iff configure_operations_def Let_def
        flip: s2_def)
  ultimately show thesis using that s3 by (simp add: control_def)
qed

end
