(* ===== verification/Session_Agreement.thy ===== *)
theory Session_Agreement
  imports Orchestrator_Session
begin

text \<open>
  What the commands of Orchestrator_Session keep between the states of the targets and the
  collectors, for any collector that satisfies the contract of Lifecycle.
\<close>

section \<open>The sessions and the collectors agree\<close>

definition files_ok :: "('t, 'c, 'cfg, 's, 'm, 'u) session_env \<Rightarrow> bool" where
  "files_ok env \<longleftrightarrow> (\<forall>t. \<not> se_remove_fails env t)
    \<and> (\<forall>t samples file. \<not> io_status_error (se_cache_io env t samples file))
    \<and> (\<forall>t samples bytes. fst (se_serialize env t samples bytes) = ASTL_STATUS_SUCCESS)"

lemma files_ok_artifacts:
  "files_ok env \<Longrightarrow> fst (ResetTargetCollectionArtifacts env (Some t) s) = ASTL_STATUS_SUCCESS"
  by (simp add: files_ok_def ResetTargetCollectionArtifacts_def Let_def)

lemma files_ok_flush: "files_ok env \<Longrightarrow> fst (FlushPendingRawSamples env t st) = ASTL_STATUS_SUCCESS"
  by (simp add: files_ok_def FlushPendingRawSamples_def SerializeBatchWithRollback_def case_prod_beta' Let_def
    split: option.split list.split)

context strict_collector
begin

text \<open>
  A target with an active collection is STARTED or PAUSED; a pending reset finds every target
  UNCONFIGURED.  With no failing file operation (files) the converse holds as well.
\<close>

definition agree :: "bool \<Rightarrow> ('t \<times> CollectionLifecycleState) list \<times> ('t, CollectorType, 'c, 's) collector_manager \<times> bool \<times> 't list
    \<Rightarrow> bool" where
  "agree files = (\<lambda>(states, m, pending, targets). manager_inv m \<and> distinct (map fst states) \<and> distinct targets
    \<and> (\<forall>t x. map_of states t = Some x \<longrightarrow> x \<noteq> STARTING
        \<and> (files \<longrightarrow> x \<in> {STARTED, PAUSED} \<longrightarrow> t \<in> set (cm_active m)) \<and> (pending \<longrightarrow> x = UNCONFIGURED))
    \<and> (\<forall>t\<in>set (cm_active m). map_of states t \<in> {Some STARTED, Some PAUSED}))"

lemma agree_set:
  assumes "agree files (states, m, pending, targets)" "manager_inv m'"
    and "\<forall>t'. t' \<noteq> t \<longrightarrow> (t' \<in> set (cm_active m') \<longleftrightarrow> t' \<in> set (cm_active m))"
    and "t \<in> set (cm_active m') \<Longrightarrow> x \<in> {STARTED, PAUSED}"
    and "files \<Longrightarrow> x \<in> {STARTED, PAUSED} \<Longrightarrow> t \<in> set (cm_active m')"
    and "x \<noteq> STARTING" "pending' \<Longrightarrow> pending \<and> x = UNCONFIGURED"
  shows "agree files (AList.update t x states, m', pending', targets)"
  using assms by (auto simp: agree_def distinct_update update_conv' split: if_splits)

lemma agree_same:
  assumes "agree files (states, m, pending, targets)" "manager_inv m'" "set (cm_active m') = set (cm_active m)"
  shows "agree files (states, m', pending, targets)"
  using assms by (auto simp: agree_def)

lemma active_on_front [simp]: "cm_active (snd (on_front exec x t m)) = cm_active m"
  by (auto simp: on_front_def set_collectors_def case_prod_beta' Let_def split: option.split list.split)

lemma active_manager [simp]:
  "cm_active (snd (PauseOnTarget exec t m)) = cm_active m"
  "cm_active (snd (ResumeOnTarget exec t m)) = cm_active m"
  "cm_active (snd (ReadImmediateOnTarget exec t m)) = cm_active m"
  "cm_active (snd (ConfigureCollectionOnTarget exec t k cfg m)) = cm_active m"
  "cm_active (snd (ClearConfiguredCollections exec m)) = cm_active m"
  "cm_active (snd (ClearConfiguredCollectionOnTarget exec t m)) = cm_active m"
proof -
  show "cm_active (snd (ConfigureCollectionOnTarget exec t k cfg m)) = cm_active m"
    by (auto simp: ConfigureCollectionOnTarget_def set_collectors_def case_prod_beta' Let_def split: sum.split)
  show "cm_active (snd (ClearConfiguredCollections exec m)) = cm_active m"
    by (simp add: ClearConfiguredCollections_def case_prod_beta' Let_def)
  show "cm_active (snd (ClearConfiguredCollectionOnTarget exec t m)) = cm_active m"
    by (auto simp: ClearConfiguredCollectionOnTarget_def set_collectors_def case_prod_beta' Let_def split: option.split list.split)
qed (simp_all add: PauseOnTarget_def ResumeOnTarget_def ReadImmediateOnTarget_def)

lemma active_start:
  "set (cm_active (snd (StartOnTarget exec t m)))
    = (if fst (StartOnTarget exec t m) = ASTL_STATUS_SUCCESS then insert t (set (cm_active m)) else set (cm_active m))"
  by (simp add: StartOnTarget_def case_prod_beta' Let_def)

lemma active_stop:
  "manager_inv m \<Longrightarrow> set (cm_active (snd (StopOnTarget exec t m)))
    = (if fst (StopOnTarget exec t m) = ASTL_STATUS_SUCCESS then set (cm_active m) - {t} else set (cm_active m))"
  by (simp add: StopOnTarget_def case_prod_beta' Let_def manager_inv_def set_remove1_eq)

lemma stop_success_active:
  assumes "manager_inv m" "fst (StopOnTarget exec t m) = ASTL_STATUS_SUCCESS"
  shows "t \<in> set (cm_active m)"
proof -
  obtain m' where f: "on_front exec CmdStop t m = (ASTL_STATUS_SUCCESS, m')"
    using assms(2) by (cases "on_front exec CmdStop t m") (simp add: StopOnTarget_def)
  from f show ?thesis
  proof (cases rule: on_front_cases)
    case (2 k c cs c')
    have "running c"
      using exec_stop [OF 2(2)] by (cases "lc c") (simp_all add: running_def action_law_def lifecycle_table)
    then show ?thesis using manager_inv_target [OF assms(1) 2(1)] by (simp add: target_ok_def)
  qed simp
qed

lemmas manager_inv_all = manager_inv_start manager_inv_stop manager_inv_configure manager_inv_clear manager_inv_clear_all

lemma manager_inv_front:
  assumes "manager_inv m"
  shows "manager_inv (snd (PauseOnTarget exec t m))" "manager_inv (snd (ResumeOnTarget exec t m))"
    "manager_inv (snd (ReadImmediateOnTarget exec t m))"
  using manager_inv_exec [OF assms, of "MPause t"] manager_inv_exec [OF assms, of "MResume t"]
    manager_inv_exec [OF assms, of "MRead t"] by simp_all

lemma agreeD:
  assumes "agree files (control s)"
  shows "manager_inv (ss_collectors s)"
    and "t \<in> set (cm_active (ss_collectors s)) \<Longrightarrow> state_of s t \<in> {Some STARTED, Some PAUSED}"
    and "files \<Longrightarrow> state_of s t \<in> {Some STARTED, Some PAUSED} \<Longrightarrow> t \<in> set (cm_active (ss_collectors s))"
    and "state_of s t \<noteq> Some STARTING"
    and "ss_clean_configure_reset_pending s \<Longrightarrow> state_of s t = Some x \<Longrightarrow> x = UNCONFIGURED"
    and "(t, x) \<in> set (ss_states s) \<Longrightarrow> state_of s t = Some x"
proof -
  note agree = assms [unfolded agree_def control_def prod.case]
  show "manager_inv (ss_collectors s)" using agree by blast
  show "state_of s t \<noteq> Some STARTING" using agree by (fastforce simp: state_of_def)
  show "t \<in> set (cm_active (ss_collectors s)) \<Longrightarrow> state_of s t \<in> {Some STARTED, Some PAUSED}"
    using agree by (auto simp: state_of_def)
  show "files \<Longrightarrow> state_of s t \<in> {Some STARTED, Some PAUSED} \<Longrightarrow> t \<in> set (cm_active (ss_collectors s))"
    using agree by (fastforce simp: state_of_def)
  show "ss_clean_configure_reset_pending s \<Longrightarrow> state_of s t = Some x \<Longrightarrow> x = UNCONFIGURED"
    using agree by (fastforce simp: state_of_def)
  show "(t, x) \<in> set (ss_states s) \<Longrightarrow> state_of s t = Some x"
    using agree by (simp add: state_of_def)
qed

lemma agree_no_active:
  assumes "agree files (control s)" "\<not> list_ex (\<lambda>(t, x). is_running x) (ss_states s)"
  shows "cm_active (ss_collectors s) = []"
proof (rule ccontr)
  assume "cm_active (ss_collectors s) \<noteq> []"
  then obtain t where t: "t \<in> set (cm_active (ss_collectors s))" by (cases "cm_active (ss_collectors s)") auto
  have "state_of s t \<in> {Some STARTED, Some PAUSED}" by (rule agreeD(2) [OF assms(1) t])
  then obtain x where "(t, x) \<in> set (ss_states s)" "is_running x"
    by (auto simp: state_of_def is_running_def dest: map_of_SomeD)
  then show False using assms(2) by (auto simp: list_ex_iff)
qed

lemma agree_unconfigured:
  assumes "agree files (control s)" "\<forall>(t, x)\<in>set (ss_states s). x = UNCONFIGURED"
  shows "\<not> list_ex (\<lambda>(t, x). is_running x) (ss_states s)"
  using assms(2) by (auto simp: list_ex_iff is_running_def)

lemma map_of_mark: "map_of (map (\<lambda>(t, x). (t, UNCONFIGURED)) states) t = map_option (\<lambda>x. UNCONFIGURED) (map_of states t)"
  by (induction states) auto

lemma agree_marked:
  assumes "agree files (states, m, pending, targets)" "cm_active m = []" "manager_inv m'" "cm_active m' = []"
  shows "agree files (map (\<lambda>(t, x). (t, UNCONFIGURED)) states, m', pending', targets)"
proof -
  have "map fst (map (\<lambda>(t, x). (t, UNCONFIGURED)) states) = map fst states" by (induction states) auto
  then show ?thesis using assms by (auto simp: agree_def map_of_mark simp del: map_map)
qed

lemma clear_all_active: "fst (ClearConfiguredCollections exec m) = ASTL_STATUS_SUCCESS \<Longrightarrow> cm_active m = []"
  by (simp add: ClearConfiguredCollections_def split: if_splits)

lemma agree_locked:
  assumes agree: "agree files (control s)" and env: "se_exec env = exec"
    and r: "ResetCollectionStateForCleanConfigureLocked env s = (status, s')"
  shows "agree files (control s')" "ss_clean_configure_reset_pending s' = ss_clean_configure_reset_pending s"
    "status = ASTL_STATUS_SUCCESS \<Longrightarrow> (\<forall>(t, x)\<in>set (ss_states s'). x = UNCONFIGURED)"
    "cm_active (ss_collectors s') = cm_active (ss_collectors s)"
proof -
  let ?m = "ss_collectors s"
  obtain st m where c: "ClearConfiguredCollections exec ?m = (st, m)" by fastforce
  define s1 where "s1 = s\<lparr>ss_collectors := m\<rparr>"
  obtain st2 s2 where a: "ResetAllCollectionArtifacts env (MarkAllTargetsUnconfigured s1) = (st2, s2)" by fastforce
  have inv: "manager_inv m" "cm_active m = cm_active ?m"
    using manager_inv_clear_all [OF agreeD(1) [OF agree]] active_manager(5) [of ?m] by (simp_all add: c)
  have r': "(if st \<noteq> ASTL_STATUS_SUCCESS then (st, s1) else if st2 \<noteq> ASTL_STATUS_SUCCESS then (st2, s2)
      else (ASTL_STATUS_SUCCESS, ResetFinalOutputEmissionState (on_stores (\<lambda>st. st\<lparr>st_world := (st_world st)\<lparr>sw_next_operation :=
          ResetOperationIdAllocator (sw_next_operation (st_world st))\<rparr>\<rparr>)
        ((on_stores (on_metrics (ClearCollectionOperationState (se_metrics env))) s2)
          \<lparr>ss_platform_loaded := False, ss_wall_clock := se_wall_clock env\<rparr>)))) = (status, s')"
    using r by (simp add: ResetCollectionStateForCleanConfigureLocked_def env c Let_def a flip: s1_def cong: if_cong)
  have c2: "control s2 = (map (\<lambda>(t, x). (t, UNCONFIGURED)) (ss_states s), m, ss_clean_configure_reset_pending s, ss_targets s)"
    using control_reset_all [of env "MarkAllTargetsUnconfigured s1"] unfolding a snd_conv
    by (simp add: control_def MarkAllTargetsUnconfigured_def s1_def)
  have s': "control s' = (if st \<noteq> ASTL_STATUS_SUCCESS
      then (ss_states s, m, ss_clean_configure_reset_pending s, ss_targets s) else control s2)"
    using r' by (auto simp: s1_def control_def [of "s\<lparr>ss_collectors := m\<rparr>"] split: if_splits)
  have active: "cm_active ?m = []" if "st = ASTL_STATUS_SUCCESS"
    using clear_all_active [of ?m] that by (simp add: c)
  note agree' = agree [unfolded control_def]
  show "agree files (control s')"
  proof (cases "st = ASTL_STATUS_SUCCESS")
    case True
    then show ?thesis
      using agree_marked [OF agree' active [OF True] inv(1)] inv(2) active [OF True] by (simp add: s' c2)
  next
    case False
    then show ?thesis using agree_same [OF agree' inv(1)] inv(2) by (simp add: s')
  qed
  show "ss_clean_configure_reset_pending s' = ss_clean_configure_reset_pending s"
    "cm_active (ss_collectors s') = cm_active (ss_collectors s)"
    using s' inv(2) by (auto simp: c2 control_def [of s'] split: if_splits)
  show "\<forall>(t, x)\<in>set (ss_states s'). x = UNCONFIGURED" if "status = ASTL_STATUS_SUCCESS"
    using s' r' that by (auto simp: c2 control_def [of s'] split: if_splits)
qed

lemma agree_reset_ids:
  assumes agree: "agree files (control s)" and env: "se_exec env = exec"
    and r: "ResetOperationIdsForCleanConfigure env t s = (status, s')"
  shows "agree files (control s')"
    "status = ASTL_STATUS_SUCCESS \<Longrightarrow> cm_active (ss_collectors s') = [] \<and> \<not> ss_clean_configure_reset_pending s'"
proof -
  obtain st s1 where l: "ResetCollectionStateForCleanConfigureLocked env s = (st, s1)" by fastforce
  have r': "(if ss_clean_configure_reset_pending s then (ASTL_STATUS_SUCCESS, s\<lparr>ss_clean_configure_reset_pending := False\<rparr>)
     else if list_ex (\<lambda>(t, x). is_running x) (ss_states s) then (ASTL_STATUS_COLLECTION_ALREADY_RUNNING, s)
     else if list_ex (\<lambda>(t', x). x = CONFIGURED \<and> t' \<noteq> t) (ss_states s) then (ASTL_STATUS_SUCCESS, s)
     else (st, s1\<lparr>ss_clean_configure_reset_pending := False\<rparr>)) = (status, s')"
    using r by (simp add: ResetOperationIdsForCleanConfigure_def l cong: if_cong)
  have pend: "agree files (control (s\<lparr>ss_clean_configure_reset_pending := False\<rparr>))"
    if "agree files (control s)" for s :: "('t, 'c, 's, 'm, 'u) session"
    using that by (auto simp: control_def agree_def)
  have none: "\<not> list_ex (\<lambda>(t, x). is_running x) (ss_states s)" if "ss_clean_configure_reset_pending s"
    using agreeD(5,6) [OF agree] that
    by (auto simp: list_ex_iff is_running_def)
  note active = agree_no_active [OF agree]
  show "agree files (control s')"
    using r' pend [OF agree] pend [OF agree_locked(1) [OF agree env l]] agree by (auto split: if_splits)
  show "cm_active (ss_collectors s') = [] \<and> \<not> ss_clean_configure_reset_pending s'" if "status = ASTL_STATUS_SUCCESS"
    using r' that none active agree_locked(4) [OF agree env l] by (auto split: if_splits)
qed

lemma agree_control_set:
  assumes "agree files (control s)" "state_of s' = (state_of s)(t \<mapsto> x)" "distinct (map fst (ss_states s'))"
    and "manager_inv (ss_collectors s')"
    and "\<forall>t'. t' \<noteq> t \<longrightarrow> (t' \<in> set (cm_active (ss_collectors s')) \<longleftrightarrow> t' \<in> set (cm_active (ss_collectors s)))"
    and "t \<in> set (cm_active (ss_collectors s')) \<Longrightarrow> x \<in> {STARTED, PAUSED}"
    and "files \<Longrightarrow> x \<in> {STARTED, PAUSED} \<Longrightarrow> t \<in> set (cm_active (ss_collectors s'))"
    and "x \<noteq> STARTING"
    and "ss_clean_configure_reset_pending s' \<Longrightarrow> ss_clean_configure_reset_pending s \<and> x = UNCONFIGURED"
    and "ss_targets s' = ss_targets s"
  shows "agree files (control s')"
proof -
  have m: "map_of (ss_states s') = (map_of (ss_states s))(t \<mapsto> x)"
    using assms(2) by (simp add: state_of_def [abs_def])
  show ?thesis
    using assms(1) assms(3-10) by (auto simp: agree_def control_def m split: if_splits)
qed

lemma agree_distinct: "agree files (control s) \<Longrightarrow> distinct (map fst (ss_states s))"
  "agree files (control s) \<Longrightarrow> distinct (ss_targets s)"
  by (simp_all add: agree_def control_def)

lemma agree_failed:
  assumes "agree files (control s)" "se_exec env = exec" "t \<notin> set (cm_active (ss_collectors s))"
  shows "agree files (control (ClearFailedCollectionConfiguration env t s))"
proof -
  let ?s1 = "set_state t UNCONFIGURED s"
  let ?s2 = "?s1\<lparr>ss_collectors := snd (ClearConfiguredCollectionOnTarget exec t (ss_collectors ?s1))\<rparr>"
  have c: "control (ClearFailedCollectionConfiguration env t s) = control ?s2"
    by (simp add: ClearFailedCollectionConfiguration_def Let_def assms(2))
  have "agree files (control ?s2)"
    by (rule agree_control_set [OF assms(1), where t = t and x = UNCONFIGURED])
      (use assms(3) manager_inv_clear [OF agreeD(1) [OF assms(1)]] agree_distinct(1) [OF assms(1)] set_state_simps(1) [of t UNCONFIGURED s]
        set_state_simps(5) [of s t UNCONFIGURED] in \<open>simp_all add: state_of_def [abs_def]\<close>)
  then show ?thesis by (simp only: c)
qed

lemma agree_complete:
  assumes "agree files (control s)" "se_exec env = exec" "t \<notin> set (cm_active (ss_collectors s))"
    and pending: "\<not> ss_clean_configure_reset_pending s"
  shows "agree files (control (snd (CompleteCollectionConfiguration env t params active s)))"
proof -
  obtain st mw where c: "ClearStaleOperationStateForTarget (se_metrics env) (Some t) active
      (st_metrics (ss_stores s), st_world (ss_stores s)) = (st, mw)" by (metis surj_pair)
  define s1 where "s1 = on_stores (on_metrics (\<lambda>_. mw)) s"
  obtain status s2 where a: "(if st = ASTL_STATUS_SUCCESS then ResetTargetCollectionArtifacts env (Some t) s1 else (st, s1))
      = (status, s2)" by fastforce
  have s2: "control s2 = control s"
    using a control_artifacts [of env "Some t" s1] control_on_stores [of "on_metrics (\<lambda>_. mw)" s]
    by (auto simp del: control_artifacts simp flip: s1_def split: if_splits)
  have failed: "agree files (control (ClearFailedCollectionConfiguration env t s2))"
    by (rule agree_failed) (use s2 assms controlD [OF s2] in simp_all)
  have ok: "agree files (control s')" if "control s' = control (set_state t CONFIGURED s2)" for s'
    unfolding that
    by (rule agree_control_set [OF assms(1), where t = t and x = CONFIGURED])
      (use assms(3) pending agreeD(1) [OF assms(1)] controlD [OF s2] agree_distinct(1) [OF assms(1)] in simp_all)
  show ?thesis
  proof (cases "status = ASTL_STATUS_SUCCESS")
    case False
    then show ?thesis
      using failed unfolding CompleteCollectionConfiguration_def c prod.case Let_def s1_def [symmetric] a by simp
  next
    case True
    show ?thesis
    proof (cases "CollectorManager_GetNativeClockSnapshot (se_snapshot env) t (ss_collectors s2)")
      case (Inl e)
      then show ?thesis
        using failed unfolding CompleteCollectionConfiguration_def c prod.case Let_def s1_def [symmetric] a
        by (simp add: True)
    next
      case (Inr correlations)
      show ?thesis
        unfolding CompleteCollectionConfiguration_def c prod.case Let_def s1_def [symmetric] a
        by (rule ok) (simp add: True Inr, simp add: control_set_state on_stores_def ResetFinalOutputEmissionState_def)
    qed
  qed
qed

lemma agree_on_collectors:
  assumes "agree files (control s)" "manager_inv (snd (f (ss_collectors s)))"
    and "set (cm_active (snd (f (ss_collectors s)))) = set (cm_active (ss_collectors s))"
  shows "agree files (control (snd (on_collectors env t f s)))"
  using agree_same [OF assms(1) [unfolded control_def] assms(2,3)] by (simp add: control_on_collectors)

lemma agree_configure:
  assumes agree: "agree files (control s)" and env: "se_exec env = exec"
  shows "agree files (control (snd (configure_operations env require t params s)))"
proof -
  obtain st s1 where r: "ResetOperationIdsForCleanConfigure env t s = (st, s1)" by fastforce
  note a1 = agree_reset_ids [OF agree env r]
  show ?thesis
  proof (cases "st = ASTL_STATUS_SUCCESS")
    case False
    then show ?thesis using a1(1) by (simp add: configure_operations_def r)
  next
    case True
    obtain ops mw where q: "require (st_metrics (ss_stores s1), st_world (ss_stores s1)) = (ops, mw)" by (metis surj_pair)
    define s2 where "s2 = on_stores (on_metrics (\<lambda>_. mw)) s1"
    have a2: "agree files (control s2)" "ss_collectors s2 = ss_collectors s1"
        "ss_clean_configure_reset_pending s2 = ss_clean_configure_reset_pending s1"
      using a1(1) controlD [of s2 s1] by (simp_all add: s2_def)
    show ?thesis
    proof (cases ops)
      case (Inl e)
      then show ?thesis using a2(1) by (simp add: configure_operations_def r True q flip: s2_def)
    next
      case (Inr x)
      obtain collector ids where x: "x = (collector, ids)" by fastforce
      let ?f = "ConfigureCollectionOnTarget exec t (case collector of None \<Rightarrow> COLLECTOR_UNKNOWN | Some k \<Rightarrow> k)
        (se_configuration env t params ids)"
      obtain st3 s3 where o: "on_collectors env t ?f s2 = (st3, s3)" by fastforce
      have a3: "agree files (control s3)"
        using agree_on_collectors [OF a2(1), of ?f env t] manager_inv_configure [OF agreeD(1) [OF a2(1)]] by (simp add: o)
      have c3: "cm_active (ss_collectors s3) = cm_active (ss_collectors s2)"
          "ss_clean_configure_reset_pending s3 = ss_clean_configure_reset_pending s2"
        using control_on_collectors(1) [of env t ?f s2] by (simp_all add: o control_def)
      then have "agree files (control (snd (CompleteCollectionConfiguration env t params ids s3)))"
        using a1(2) [OF True] a2(2,3) by (intro agree_complete [OF a3 env]) simp_all
      then show ?thesis
        using a3 o by (simp add: configure_operations_def r True q Inr x env flip: s2_def)
    qed
  qed
qed

lemma agree_start:
  assumes agree: "agree files (control s)" and env: "se_exec env = exec"
  shows "agree files (control (snd (StartCollectionImpl env t paused s)))"
proof (cases "t \<in> set (ss_targets s) \<and> state_of s t = Some CONFIGURED")
  case False
  have "CheckCollectionLifecycleAction x START \<noteq> ASTL_STATUS_SUCCESS" if "x \<noteq> CONFIGURED" for x
    using that by (cases x) (simp_all add: lifecycle_table)
  then show ?thesis
    using False agree by (auto simp: StartCollectionImpl_def split: option.split)
next
  case True
  note inv = agreeD(1) [OF agree] and dist = agree_distinct(1) [OF agree]
  define s1 where "s1 = clear_raw_samples t (set_state t STARTING s)"
  have s1: "state_of s1 = (state_of s)(t \<mapsto> STARTING)" "ss_collectors s1 = ss_collectors s"
      "distinct (map fst (ss_states s1))" "ss_clean_configure_reset_pending s1 = False" "ss_targets s1 = ss_targets s"
    using dist agreeD(5) [OF agree, of t CONFIGURED] True by (auto simp: s1_def)
  have inactive: "t \<notin> set (cm_active (ss_collectors s))" using agreeD(2) [OF agree, of t] True by auto
  obtain st2 s2 where o2: "on_collectors env t (StartOnTarget exec t) s1 = (st2, s2)" by fastforce
  obtain st3 s3 where o3: "on_collectors env t (PauseOnTarget exec t) s2 = (st3, s3)" by fastforce
  obtain st4 s4 where o4: "on_collectors env t (StopOnTarget exec t) s3 = (st4, s4)" by fastforce
  have c2: "state_of s2 = state_of s1" "ss_states s2 = ss_states s1 \<and> ss_targets s2 = ss_targets s" "ss_clean_configure_reset_pending s2 = False"
      "manager_inv (ss_collectors s2)" "set (cm_active (ss_collectors s2))
        = (if st2 = ASTL_STATUS_SUCCESS then insert t (set (cm_active (ss_collectors s))) else set (cm_active (ss_collectors s)))"
    using on_collectors_simps [of env t "StartOnTarget exec t" s1] s1 manager_inv_start [OF inv, of t]
      active_start [of t "ss_collectors s"] by (simp_all add: o2)
  have c3: "state_of s3 = state_of s1" "ss_states s3 = ss_states s1 \<and> ss_targets s3 = ss_targets s" "ss_clean_configure_reset_pending s3 = False"
      "manager_inv (ss_collectors s3)" "cm_active (ss_collectors s3) = cm_active (ss_collectors s2)"
    using on_collectors_simps [of env t "PauseOnTarget exec t" s2] c2 manager_inv_front(1) [OF c2(4), of t] by (simp_all add: o3)
  have c4: "state_of s4 = state_of s1" "ss_states s4 = ss_states s1 \<and> ss_targets s4 = ss_targets s" "ss_clean_configure_reset_pending s4 = False"
      "manager_inv (ss_collectors s4)" "set (cm_active (ss_collectors s4))
        = (if st4 = ASTL_STATUS_SUCCESS then set (cm_active (ss_collectors s3)) - {t} else set (cm_active (ss_collectors s3)))"
    using on_collectors_simps [of env t "StopOnTarget exec t" s3] c3 manager_inv_stop [OF c3(4), of t]
      active_stop [OF c3(4), of t] by (simp_all add: o4)
  have step: "agree files (control s')"
    if "control s' = control (set_state t x r)" "state_of r = state_of s1" "ss_states r = ss_states s1 \<and> ss_targets r = ss_targets s"
      "ss_clean_configure_reset_pending r = False" "manager_inv (ss_collectors r)"
      "x \<in> {STARTED, PAUSED} \<and> set (cm_active (ss_collectors r)) = insert t (set (cm_active (ss_collectors s)))
        \<or> x = CONFIGURED \<and> set (cm_active (ss_collectors r)) = set (cm_active (ss_collectors s))" for s' r x
    unfolding that(1)
    by (rule agree_control_set [OF agree, where t = t and x = x])
      (use that(2-6) s1 inactive in auto)
  show ?thesis
  proof (cases "st2 = ASTL_STATUS_SUCCESS")
    case False
    have "agree files (control (leave_starting t CONFIGURED s2))"
      by (rule step [of _ CONFIGURED s2]) (use c2 s1(1) False in simp_all)
    then show ?thesis
      using True o2 False by (simp add: StartCollectionImpl_def env lifecycle_table flip: s1_def)
  next
    case started: True
    have "agree files (control (leave_starting t STARTED s2))"
      by (rule step [of _ STARTED s2]) (use c2 s1(1) started in simp_all)
    moreover have "agree files (control ((leave_starting t PAUSED (EnsureLifecycleEventMetricForTarget env (Some t) s3))
        \<lparr>ss_pause_timestamps := ts\<rparr>))" for ts
      by (rule step [of _ PAUSED "EnsureLifecycleEventMetricForTarget env (Some t) s3"])
        (use c3 c2 s1(1) started in simp_all)
    moreover have "agree files (control (leave_starting t (if st4 = ASTL_STATUS_SUCCESS then CONFIGURED else STARTED) (clear_raw_samples t s4)))"
      by (rule step [of _ "if st4 = ASTL_STATUS_SUCCESS then CONFIGURED else STARTED" "clear_raw_samples t s4"])
        (use c4 c3 c2 s1(1) started inactive in auto)
    ultimately show ?thesis
      using True o2 started o3 o4
      by (cases "st4 = ASTL_STATUS_SUCCESS")
        (simp_all add: StartCollectionImpl_def env lifecycle_table Let_def flip: s1_def cong: if_cong)
  qed
qed

lemma agree_pause_resume:
  assumes agree: "agree files (control s)" and env: "se_exec env = exec"
  shows "agree files (control (snd (Orchestrator_PauseCollection env t s)))"
    and "agree files (control (snd (Orchestrator_ResumeCollection env t s)))"
proof -
  let ?e = "EnsureLifecycleEventMetricForTarget env (Some t) s"
  have running: "x \<in> {STARTED, PAUSED}"
    if "CheckCollectionLifecycleAction x a = ASTL_STATUS_SUCCESS" "a \<in> {PAUSE, RESUME}" for x a
    using that by (cases x) (auto simp: lifecycle_table)
  note inv = agreeD(1) [OF agree]
  have op: "agree files (control (snd (on_collectors env t f ?e)))"
      "state_of s t = Some y \<Longrightarrow> y \<in> {STARTED, PAUSED} \<Longrightarrow> x \<in> {STARTED, PAUSED} \<Longrightarrow>
        agree files (control (set_state t x (snd (on_collectors env t f ?e))))"
    if "f \<in> {PauseOnTarget exec t, ResumeOnTarget exec t}" for f x y
  proof -
    have m: "manager_inv (snd (f (ss_collectors s)))" "cm_active (snd (f (ss_collectors s))) = cm_active (ss_collectors s)"
      using that manager_inv_front [OF inv, of t] by auto
    show "agree files (control (snd (on_collectors env t f ?e)))"
      by (rule agree_on_collectors) (use agree m in simp_all)
    show "agree files (control (set_state t x (snd (on_collectors env t f ?e))))"
      if "state_of s t = Some y" "y \<in> {STARTED, PAUSED}" "x \<in> {STARTED, PAUSED}"
      using that m agreeD(3) [OF agree, of t]
      by (intro agree_control_set [OF agree, where t = t and x = x])
        (auto simp: agree_distinct(1) [OF agree] dest: agreeD(5) [OF agree, of t])
  qed
  show "agree files (control (snd (Orchestrator_PauseCollection env t s)))"
  proof (cases "state_of s t")
    case (Some y)
    obtain st s1 where o: "on_collectors env t (PauseOnTarget exec t) ?e = (st, s1)" by fastforce
    show ?thesis
      using agree op [of "PauseOnTarget exec t", unfolded o] running [of y PAUSE]
      by (simp add: Orchestrator_PauseCollection_def Some env o Let_def cong: if_cong)
  qed (simp add: Orchestrator_PauseCollection_def agree)
  show "agree files (control (snd (Orchestrator_ResumeCollection env t s)))"
  proof (cases "state_of s t")
    case (Some y)
    obtain st s1 where o: "on_collectors env t (ResumeOnTarget exec t) ?e = (st, s1)" by fastforce
    show ?thesis
      using agree op [of "ResumeOnTarget exec t", unfolded o] running [of y RESUME]
      by (simp add: Orchestrator_ResumeCollection_def Some env o Let_def cong: if_cong)
  qed (simp add: Orchestrator_ResumeCollection_def agree)
qed

lemma agree_read:
  assumes agree: "agree files (control s)" and env: "se_exec env = exec"
  shows "agree files (control (snd (Orchestrator_ReadImmediate env t s)))"
  using agree agree_on_collectors [OF agree, of "ReadImmediateOnTarget exec t" env t]
    manager_inv_front(3) [OF agreeD(1) [OF agree], of t]
  by (simp add: Orchestrator_ReadImmediate_def env)

lemma stopped_session:
  assumes agree: "agree files (control s)"
    and o: "on_collectors env t (StopOnTarget exec t) s = (st, s1)"
  shows "state_of s1 = state_of s" "ss_states s1 = ss_states s" "manager_inv (ss_collectors s1)"
    "ss_clean_configure_reset_pending s1 = ss_clean_configure_reset_pending s"
    "set (cm_active (ss_collectors s1))
      = (if st = ASTL_STATUS_SUCCESS then set (cm_active (ss_collectors s)) - {t} else set (cm_active (ss_collectors s)))"
    "st = ASTL_STATUS_SUCCESS \<Longrightarrow> t \<in> set (cm_active (ss_collectors s)) \<and> \<not> ss_clean_configure_reset_pending s"
    "ss_targets s1 = ss_targets s"
proof -
  note inv = agreeD(1) [OF agree]
  have "t \<in> set (cm_active (ss_collectors s))" if "st = ASTL_STATUS_SUCCESS"
    using stop_success_active [OF inv, of t] on_collectors_simps(6) [of env t "StopOnTarget exec t" s] that
    by (simp add: o)
  moreover have "\<not> ss_clean_configure_reset_pending s" if "t \<in> set (cm_active (ss_collectors s))"
    using agreeD(2) [OF agree that] agreeD(5) [OF agree, of t] by auto
  ultimately show "st = ASTL_STATUS_SUCCESS \<Longrightarrow> t \<in> set (cm_active (ss_collectors s)) \<and> \<not> ss_clean_configure_reset_pending s"
    by blast
qed (use on_collectors_simps [of env t "StopOnTarget exec t" s] manager_inv_stop [OF agreeD(1) [OF agree], of t]
    active_stop [OF agreeD(1) [OF agree], of t] in \<open>simp_all add: o\<close>)

lemma agree_stopped:
  assumes agree: "agree files (control s)"
    and o: "on_collectors env t (StopOnTarget exec t) s = (st, s1)"
  shows "\<not> (files \<and> st = ASTL_STATUS_SUCCESS) \<Longrightarrow> agree files (control s1)"
    and "st = ASTL_STATUS_SUCCESS \<Longrightarrow> x \<in> {CONFIGURED, STOPPED} \<Longrightarrow> state_of r = state_of s1 \<Longrightarrow> ss_states r = ss_states s1
      \<Longrightarrow> ss_collectors r = ss_collectors s1 \<Longrightarrow> ss_targets r = ss_targets s1 \<Longrightarrow> ss_clean_configure_reset_pending r = ss_clean_configure_reset_pending s1
      \<Longrightarrow> agree files (control (set_state t x r))"
proof -
  note s1 = stopped_session [OF agree o]
  have m: "map_of (ss_states s1) t' = map_of (ss_states s) t'" for t' using s1(2) by simp
  show "agree files (control s1)" if "\<not> (files \<and> st = ASTL_STATUS_SUCCESS)"
    using agree s1(2-5,7) that by (auto simp: agree_def control_def split: if_splits)
  show "agree files (control (set_state t x r))"
    if "st = ASTL_STATUS_SUCCESS" "x \<in> {CONFIGURED, STOPPED}" "state_of r = state_of s1" "ss_states r = ss_states s1"
      "ss_collectors r = ss_collectors s1" "ss_targets r = ss_targets s1"
      "ss_clean_configure_reset_pending r = ss_clean_configure_reset_pending s1"
    by (rule agree_control_set [OF agree, where t = t and x = x])
      (use that s1 agree_distinct(1) [OF agree] in auto)
qed

lemma agree_rollback:
  assumes agree: "agree files (control s)" and env: "se_exec env = exec" and files: "files \<Longrightarrow> files_ok env"
  shows "agree files (control (snd (RollbackStartedCollectionToConfigured env target s)))"
proof (cases target)
  case (Some t)
  obtain st s1 where o: "on_collectors env t (StopOnTarget exec t) s = (st, s1)" by fastforce
  obtain st2 s2 where a: "ResetTargetCollectionArtifacts env (Some t) s1 = (st2, s2)" by fastforce
  have s2: "control s2 = control s1" using control_artifacts [of env "Some t" s1] unfolding a by simp
  have ok: "st2 = ASTL_STATUS_SUCCESS" if files
    using files_ok_artifacts [OF files [OF that], of t s1] by (simp add: a)
  show ?thesis
  proof (cases "st = ASTL_STATUS_SUCCESS")
    case False
    then show ?thesis
      using agree_stopped(1) [OF agree o] by (simp add: RollbackStartedCollectionToConfigured_def Some env o)
  next
    case True
    have "agree files (control (set_state t CONFIGURED (ResetFinalOutputEmissionState s2)))"
      by (rule agree_stopped(2) [OF agree o True]) (simp_all add: controlD [OF s2])
    moreover have "agree files (control s2)" if "st2 \<noteq> ASTL_STATUS_SUCCESS"
      using agree_stopped(1) [OF agree o] ok that by (auto simp: s2)
    ultimately show ?thesis
      by (simp add: RollbackStartedCollectionToConfigured_def Some env o True a)
  qed
qed (simp add: RollbackStartedCollectionToConfigured_def agree)

lemma agree_stop:
  assumes agree: "agree files (control s)" and env: "se_exec env = exec" and files: "files \<Longrightarrow> files_ok env"
  shows "agree files (control (snd (Orchestrator_StopCollection env t s)))"
proof (cases "ValidateStopCollectionTarget t s = ASTL_STATUS_SUCCESS")
  case valid: True
  obtain st s1 where o: "on_collectors env t (StopOnTarget exec t) s = (st, s1)" by fastforce
  obtain st2 stores where f: "FlushPendingRawSamples env t (ss_stores s1) = (st2, stores)" by (metis surj_pair)
  let ?s2 = "s1\<lparr>ss_stores := stores\<rparr>"
  let ?s3 = "if IsAnyTargetBeingCollected (ss_collectors s1) then ?s2
    else EmitSummaryCsvIfRequested env (EmitIntervalCsvIfRequested env (EmitPerfettoTraceIfRequested env ?s2))"
  have ok: "st2 = ASTL_STATUS_SUCCESS" if files
    using files_ok_flush [OF files [OF that], of t "ss_stores s1"] by (simp add: f)
  show ?thesis
  proof (cases "st = ASTL_STATUS_SUCCESS")
    case False
    then show ?thesis
      using agree_stopped(1) [OF agree o] by (simp add: Orchestrator_StopCollection_def valid env o Let_def)
  next
    case True
    have "agree files (control (set_state t STOPPED ?s3))"
      by (rule agree_stopped(2) [OF agree o True]) simp_all
    moreover have "agree files (control ?s2)" if "st2 \<noteq> ASTL_STATUS_SUCCESS"
      using agree_stopped(1) [OF agree o] ok that by auto
    ultimately show ?thesis
      by (simp add: Orchestrator_StopCollection_def valid env o True f Let_def cong: if_cong)
  qed
qed (simp add: Orchestrator_StopCollection_def agree)

end

end
