(* ===== verification/Session_Api.thy ===== *)
theory Session_Api
  imports Session_Agreement
begin

text \<open>
  The collection calls of src/astl_telemetry.cpp on the one orchestrator: the checks of the
  parameter structures, the expansion of metric groups, and the calls on one target and on all of
  them.  GetCApiMutex is held over a whole call, so that every call is one step.  A null pointer
  of a parameter is None, an array with its count is a list, and the sizes of the structures are
  arguments.
\<close>

section \<open>Checks of the parameters\<close>

definition GetStructVersionStatus :: "nat \<Rightarrow> nat \<Rightarrow> astl_status" where
  "GetStructVersionStatus given_size expected_size =
    (if given_size < expected_size then ASTL_STATUS_OLD_STRUCT_VERSION
     else if given_size > expected_size then ASTL_STATUS_NEW_STRUCT_VERSION
     else ASTL_STATUS_SUCCESS)"

record api_params =
  ap_size :: nat
  ap_flags :: "32 word"

record 't target_params = api_params +
  tp_target_handle :: "'t option"

record configure_params = api_params +
  kp_collection_params :: "collection_params option"
  kp_handles :: "nat list option"

record 't configure_target_params = configure_params +
  kp_target_handle :: "'t option"

definition ValidateApiParams :: "nat \<Rightarrow> 'a api_params_scheme option \<Rightarrow> astl_status" where
  "ValidateApiParams expected params =
    (case params of
       None \<Rightarrow> ASTL_STATUS_BAD_ARGUMENT
     | Some p \<Rightarrow>
        (let version = GetStructVersionStatus (ap_size p) expected in
         if version \<noteq> ASTL_STATUS_SUCCESS then version
         else if ap_flags p \<noteq> 0 then ASTL_STATUS_INVALID_FLAG_VALUE
         else ASTL_STATUS_SUCCESS))"

definition k_optimization_flags :: "32 word" where "k_optimization_flags = 1 OR 2 OR 4"

definition k_allowed_collection_flags :: "32 word" where
  "k_allowed_collection_flags = k_optimization_flags OR ASTL_NO_CACHING"

definition ValidateCollectionParamsFlags :: "collection_params \<Rightarrow> astl_status" where
  "ValidateCollectionParamsFlags params =
    (if cp_flags params AND NOT k_allowed_collection_flags \<noteq> 0 then ASTL_STATUS_INVALID_FLAG_VALUE
     else let optimization = cp_flags params AND k_optimization_flags in
       if optimization \<noteq> 0 \<and> optimization AND (optimization - 1) \<noteq> 0 then ASTL_STATUS_INVALID_FLAG_VALUE
       else ASTL_STATUS_SUCCESS)"

definition GetTargetFromHandle :: "'t \<Rightarrow> ('t, 'c, 's, 'm, 'u) session \<Rightarrow> 't result" where
  "GetTargetFromHandle t s = (if t \<in> set (ss_targets s) then Inr t else Inl ASTL_STATUS_INVALID_TARGET_HANDLE)"

definition ResolveTargetFromApiParams :: "nat \<Rightarrow> 't target_params option \<Rightarrow> ('t, 'c, 's, 'm, 'u) session \<Rightarrow> 't result" where
  "ResolveTargetFromApiParams expected params s =
    (let status = ValidateApiParams expected params in
     if status \<noteq> ASTL_STATUS_SUCCESS then Inl status
     else case Option.bind params tp_target_handle of
         None \<Rightarrow> Inl ASTL_STATUS_BAD_ARGUMENT
       | Some t \<Rightarrow> GetTargetFromHandle t s)"

text \<open>The checks the calls that configure share, with the size of astl_collection_params_t.\<close>

definition validate_collection_params :: "nat \<Rightarrow> collection_params \<Rightarrow> astl_status" where
  "validate_collection_params expected params =
    (let version = GetStructVersionStatus (cp_size params) expected in
     if version \<noteq> ASTL_STATUS_SUCCESS then version else ValidateCollectionParamsFlags params)"

definition validate_configure :: "nat \<Rightarrow> nat \<Rightarrow> 'a configure_params_scheme option
    \<Rightarrow> (collection_params \<times> nat list) result" where
  "validate_configure expected expected_collection params =
    (let status = ValidateApiParams expected params in
     if status \<noteq> ASTL_STATUS_SUCCESS then Inl status
     else case (Option.bind params kp_collection_params, Option.bind params kp_handles) of
         (Some collection, Some (h # handles)) \<Rightarrow>
           (let status = validate_collection_params expected_collection collection in
            if status \<noteq> ASTL_STATUS_SUCCESS then Inl status else Inr (collection, h # handles))
       | _ \<Rightarrow> Inl ASTL_STATUS_BAD_ARGUMENT)"

definition validate_configure_target :: "nat \<Rightarrow> nat \<Rightarrow> 't configure_target_params option
    \<Rightarrow> ('t \<times> collection_params \<times> nat list) result" where
  "validate_configure_target expected expected_collection params =
    (let status = ValidateApiParams expected params in
     if status \<noteq> ASTL_STATUS_SUCCESS then Inl status
     else case Option.bind params kp_target_handle of
         None \<Rightarrow> Inl ASTL_STATUS_BAD_ARGUMENT
       | Some t \<Rightarrow> rbind (validate_configure expected expected_collection params)
           (\<lambda>(collection, handles). Inr (t, collection, handles)))"

section \<open>Metric groups\<close>

definition GetMetricHandlesInGroupForTarget :: "nat \<Rightarrow> 't option \<Rightarrow> ('t, 'm, 's) metric_manager \<Rightarrow> nat list result" where
  "GetMetricHandlesInGroupForTarget g target mm =
    (case target of
       None \<Rightarrow> Inl ASTL_STATUS_BAD_ARGUMENT
     | Some t \<Rightarrow>
         rbind (GetMetricsInGroup (Some g) mm) (\<lambda>metrics.
           foldr (\<lambda>h rest.
             (case GetMetricOnTarget (Some h) t mm of
                Inr m \<Rightarrow> rbind rest (\<lambda>hs. Inr (h # hs))
              | Inl e \<Rightarrow> if e \<noteq> ASTL_STATUS_METRIC_NOT_SUPPORTED_ON_TARGET then Inl e else rest)) metrics (Inr [])))"

definition ValidateRequestedGroupOnTarget :: "nat \<Rightarrow> 't option \<Rightarrow> nat list \<Rightarrow> nat list \<Rightarrow> bool \<Rightarrow> bool result" where
  "ValidateRequestedGroupOnTarget g target known_groups target_groups fail_if_missing =
    (if g \<notin> set known_groups then Inl ASTL_STATUS_INVALID_METRIC_GROUP_HANDLE
     else if target = None \<or> g \<in> set target_groups then Inr True
     else if fail_if_missing then Inl ASTL_STATUS_METRIC_GROUP_NOT_SUPPORTED_ON_TARGET
     else Inr False)"

definition GetMetricHandlesForGroup :: "'t option \<Rightarrow> nat \<Rightarrow> bool \<Rightarrow> ('t, 'm, 's) metric_manager \<Rightarrow> nat list result" where
  "GetMetricHandlesForGroup target g fail_if_missing mm =
    (case target of
       None \<Rightarrow> GetMetricsInGroup (Some g) mm
     | Some t \<Rightarrow>
         rbind (GetMetricHandlesInGroupForTarget g (Some t) mm) (\<lambda>metrics.
           if metrics = [] \<and> fail_if_missing then Inl ASTL_STATUS_METRIC_GROUP_NOT_SUPPORTED_ON_TARGET
           else Inr metrics))"

fun AppendUniqueMetricHandles :: "nat list \<Rightarrow> nat set \<Rightarrow> nat list \<Rightarrow> nat list \<times> nat set" where
  "AppendUniqueMetricHandles handles seen [] = (handles, seen)"
| "AppendUniqueMetricHandles handles seen (h # hs) =
    (if h \<in> seen then AppendUniqueMetricHandles handles seen hs
     else AppendUniqueMetricHandles (handles @ [h]) (insert h seen) hs)"

definition DeduplicateMetricHandles :: "nat list \<Rightarrow> nat list" where
  "DeduplicateMetricHandles handles = fst (AppendUniqueMetricHandles [] {} handles)"

fun expand_groups :: "'t option \<Rightarrow> bool \<Rightarrow> nat list \<Rightarrow> nat list \<Rightarrow> ('t, 'm, 's) metric_manager \<Rightarrow> nat list
    \<Rightarrow> nat list \<times> nat set \<Rightarrow> nat list result" where
  "expand_groups target fail_if_missing known_groups target_groups mm [] acc = Inr (fst acc)"
| "expand_groups target fail_if_missing known_groups target_groups mm (g # groups) acc =
    (case ValidateRequestedGroupOnTarget g target known_groups target_groups fail_if_missing of
       Inl e \<Rightarrow> Inl e
     | Inr supported \<Rightarrow>
         if \<not> supported then expand_groups target fail_if_missing known_groups target_groups mm groups acc
         else case GetMetricHandlesForGroup target g fail_if_missing mm of
             Inl e \<Rightarrow> Inl e
           | Inr metrics \<Rightarrow> expand_groups target fail_if_missing known_groups target_groups mm groups
               (AppendUniqueMetricHandles (fst acc) (snd acc) metrics))"

definition ExpandMetricGroupHandlesForTarget :: "'t option \<Rightarrow> nat list \<Rightarrow> bool \<Rightarrow> ('t, 'm, 's) metric_manager \<Rightarrow> nat list result" where
  "ExpandMetricGroupHandlesForTarget target requested fail_if_missing mm =
    (let target_groups = (case target of None \<Rightarrow> Inr [] | Some t \<Rightarrow> GetMetricGroupsOnTarget (Some t) mm) in
     rbind target_groups (\<lambda>groups.
       expand_groups target fail_if_missing (GetMetricGroups mm) groups mm requested ([], {})))"

section \<open>Calls on one target\<close>

type_synonym ('t, 'c, 's, 'm, 'u) call = "('t, 'c, 's, 'm, 'u) session \<Rightarrow> astl_status \<times> ('t, 'c, 's, 'm, 'u) session"

definition RunPublicApi :: "('t, 'c, 's, 'm, 'u) call \<Rightarrow> ('t, 'c, 's, 'm, 'u) call" where
  "RunPublicApi func s = (let (status, s') = func s in (NormalizePublicApiStatus status, s'))"

definition on_target :: "nat \<Rightarrow> 't target_params option \<Rightarrow> ('t \<Rightarrow> ('t, 'c, 's, 'm, 'u) call) \<Rightarrow> ('t, 'c, 's, 'm, 'u) call" where
  "on_target expected params op =
    RunPublicApi (\<lambda>s. case ResolveTargetFromApiParams expected params s of Inl e \<Rightarrow> (e, s) | Inr t \<Rightarrow> op t s)"

definition astlReadImmediateOnTarget :: "('t, 'c, 'cfg, 's, 'm, 'u) session_env \<Rightarrow> nat \<Rightarrow> 't target_params option
    \<Rightarrow> ('t, 'c, 's, 'm, 'u) call" where
  "astlReadImmediateOnTarget env expected params = on_target expected params (Orchestrator_ReadImmediate env)"

definition astlStartCollectionOnTarget :: "('t, 'c, 'cfg, 's, 'm, 'u) session_env \<Rightarrow> nat \<Rightarrow> 't target_params option
    \<Rightarrow> ('t, 'c, 's, 'm, 'u) call" where
  "astlStartCollectionOnTarget env expected params = on_target expected params (StartCollection env)"

definition astlStartCollectionOnTargetPaused :: "('t, 'c, 'cfg, 's, 'm, 'u) session_env \<Rightarrow> nat \<Rightarrow> 't target_params option
    \<Rightarrow> ('t, 'c, 's, 'm, 'u) call" where
  "astlStartCollectionOnTargetPaused env expected params = on_target expected params (StartCollectionPaused env)"

definition astlPauseCollectionOnTarget :: "('t, 'c, 'cfg, 's, 'm, 'u) session_env \<Rightarrow> nat \<Rightarrow> 't target_params option
    \<Rightarrow> ('t, 'c, 's, 'm, 'u) call" where
  "astlPauseCollectionOnTarget env expected params = on_target expected params (Orchestrator_PauseCollection env)"

definition astlResumeCollectionOnTarget :: "('t, 'c, 'cfg, 's, 'm, 'u) session_env \<Rightarrow> nat \<Rightarrow> 't target_params option
    \<Rightarrow> ('t, 'c, 's, 'm, 'u) call" where
  "astlResumeCollectionOnTarget env expected params = on_target expected params (Orchestrator_ResumeCollection env)"

definition astlStopCollectionOnTarget :: "('t, 'c, 'cfg, 's, 'm, 'u) session_env \<Rightarrow> nat \<Rightarrow> 't target_params option
    \<Rightarrow> ('t, 'c, 's, 'm, 'u) call" where
  "astlStopCollectionOnTarget env expected params = on_target expected params (Orchestrator_StopCollection env)"

text \<open>More counters than the target has are refused before they are looked up.\<close>

definition astlConfigureCounterCollectionOnTarget :: "('t, 'c, 'cfg, 's, 'm, 'u) session_env \<Rightarrow> nat \<Rightarrow> nat
    \<Rightarrow> 't configure_target_params option \<Rightarrow> ('t, 'c, 's, 'm, 'u) call" where
  "astlConfigureCounterCollectionOnTarget env expected expected_collection params =
    RunPublicApi (\<lambda>s.
      case validate_configure_target expected expected_collection params of
        Inl e \<Rightarrow> (e, s)
      | Inr (handle, collection, counters) \<Rightarrow>
         (case rbind (GetTargetFromHandle handle s) (\<lambda>t. rbind (GetAvailableCounters t (st_metrics (ss_stores s)))
              (\<lambda>available. if length counters > length available then Inl ASTL_STATUS_BAD_ARGUMENT else Inr t)) of
            Inl e \<Rightarrow> (e, s)
          | Inr t \<Rightarrow> ConfigureCounterCollection env t collection counters s))"

definition astlConfigureMetricCollectionOnTarget :: "('t, 'c, 'cfg, 's, 'm, 'u) session_env \<Rightarrow> nat \<Rightarrow> nat
    \<Rightarrow> 't configure_target_params option \<Rightarrow> ('t, 'c, 's, 'm, 'u) call" where
  "astlConfigureMetricCollectionOnTarget env expected expected_collection params =
    RunPublicApi (\<lambda>s.
      case validate_configure_target expected expected_collection params of
        Inl e \<Rightarrow> (e, s)
      | Inr (handle, collection, metrics) \<Rightarrow>
         (case GetTargetFromHandle handle s of
            Inl e \<Rightarrow> (e, s)
          | Inr t \<Rightarrow> ConfigureMetricCollection env t collection (DeduplicateMetricHandles metrics) s))"

definition astlConfigureMetricGroupCollectionOnTarget :: "('t, 'c, 'cfg, 's, 'm, 'u) session_env \<Rightarrow> nat \<Rightarrow> nat
    \<Rightarrow> 't configure_target_params option \<Rightarrow> ('t, 'c, 's, 'm, 'u) call" where
  "astlConfigureMetricGroupCollectionOnTarget env expected expected_collection params =
    RunPublicApi (\<lambda>s.
      case validate_configure_target expected expected_collection params of
        Inl e \<Rightarrow> (e, s)
      | Inr (handle, collection, groups) \<Rightarrow>
         (case rbind (GetTargetFromHandle handle s) (\<lambda>t. rbind (ExpandMetricGroupHandlesForTarget (Some t) groups True
              (st_metrics (ss_stores s))) (\<lambda>metrics. Inr (t, metrics))) of
            Inl e \<Rightarrow> (e, s)
          | Inr (t, metrics) \<Rightarrow> ConfigureMetricCollection env t collection metrics s))"

section \<open>Calls on all targets\<close>

definition GetConfiguredTargets :: "('t, 'c, 's, 'm, 'u) session \<Rightarrow> 't list" where
  "GetConfiguredTargets s = filter (\<lambda>t. state_of s t = Some CONFIGURED) (ss_targets s)"

definition GetReadImmediateTargets :: "('t, 'c, 's, 'm, 'u) session \<Rightarrow> 't list" where
  "GetReadImmediateTargets s =
    filter (\<lambda>t. case state_of s t of
        None \<Rightarrow> False
      | Some x \<Rightarrow> x = CONFIGURED \<or> x = STARTED \<or> x = PAUSED) (ss_targets s)"

text \<open>The targets started so far, taken back from the last to the first; the first failure is reported.\<close>

fun rollback_started :: "('t, 'c, 'cfg, 's, 'm, 'u) session_env \<Rightarrow> 't list \<Rightarrow> astl_status
    \<Rightarrow> ('t, 'c, 's, 'm, 'u) session \<Rightarrow> astl_status \<times> ('t, 'c, 's, 'm, 'u) session" where
  "rollback_started env [] acc s = (acc, s)"
| "rollback_started env (t # ts) acc s =
    (let (status, s') = RollbackStartedCollectionToConfigured env (Some t) s in
     rollback_started env ts (keep_first_error acc status) s')"

fun start_targets :: "('t, 'c, 'cfg, 's, 'm, 'u) session_env \<Rightarrow> bool \<Rightarrow> 't list \<Rightarrow> 't list
    \<Rightarrow> ('t, 'c, 's, 'm, 'u) session \<Rightarrow> astl_status \<times> ('t, 'c, 's, 'm, 'u) session" where
  "start_targets env start_paused [] started s = (ASTL_STATUS_SUCCESS, s)"
| "start_targets env start_paused (t # ts) started s =
    (let (status, s1) = (if start_paused then StartCollectionPaused env t s else StartCollection env t s) in
     if status \<noteq> ASTL_STATUS_SUCCESS then
       let (rollback_status, s2) = rollback_started env (rev started) ASTL_STATUS_SUCCESS s1 in
       (if rollback_status \<noteq> ASTL_STATUS_SUCCESS then rollback_status else status, s2)
     else start_targets env start_paused ts (started @ [t]) s1)"

definition StartConfiguredTargets :: "('t, 'c, 'cfg, 's, 'm, 'u) session_env \<Rightarrow> bool
    \<Rightarrow> ('t, 'c, 's, 'm, 'u) session \<Rightarrow> astl_status \<times> ('t, 'c, 's, 'm, 'u) session" where
  "StartConfiguredTargets env start_paused s =
    (let configured = GetConfiguredTargets s in
     if configured = [] then (ASTL_STATUS_COLLECTION_NOT_CONFIGURED, s)
     else start_targets env start_paused configured [] s)"

text \<open>Every target is visited; the first failure is reported.\<close>

fun apply_to_targets :: "('t \<Rightarrow> ('t, 'c, 's, 'm, 'u) call) \<Rightarrow> 't list \<Rightarrow> astl_status \<Rightarrow> ('t, 'c, 's, 'm, 'u) call" where
  "apply_to_targets op [] acc s = (acc, s)"
| "apply_to_targets op (t # ts) acc s =
    (let (status, s') = op t s in apply_to_targets op ts (keep_first_error acc status) s')"

definition ApplyToAllTargets :: "('t \<Rightarrow> ('t, 'c, 's, 'm, 'u) call) \<Rightarrow> ('t, 'c, 's, 'm, 'u) call" where
  "ApplyToAllTargets op s = apply_to_targets op (ss_targets s) ASTL_STATUS_SUCCESS s"

text \<open>Immediate reads stop at the first failure.\<close>

fun read_targets :: "('t, 'c, 'cfg, 's, 'm, 'u) session_env \<Rightarrow> 't list \<Rightarrow> ('t, 'c, 's, 'm, 'u) call" where
  "read_targets env [] s = (ASTL_STATUS_SUCCESS, s)"
| "read_targets env (t # ts) s =
    (let (status, s') = Orchestrator_ReadImmediate env t s in
     if status \<noteq> ASTL_STATUS_SUCCESS then (status, s') else read_targets env ts s')"

definition on_all :: "nat \<Rightarrow> api_params option \<Rightarrow> ('t, 'c, 's, 'm, 'u) call \<Rightarrow> ('t, 'c, 's, 'm, 'u) call" where
  "on_all expected params op =
    RunPublicApi (\<lambda>s. let status = ValidateApiParams expected params in
      if status \<noteq> ASTL_STATUS_SUCCESS then (status, s) else op s)"

definition astlReadImmediate :: "('t, 'c, 'cfg, 's, 'm, 'u) session_env \<Rightarrow> nat \<Rightarrow> api_params option
    \<Rightarrow> ('t, 'c, 's, 'm, 'u) call" where
  "astlReadImmediate env expected params =
    on_all expected params (\<lambda>s. read_targets env (GetReadImmediateTargets s) s)"

definition astlStartCollection :: "('t, 'c, 'cfg, 's, 'm, 'u) session_env \<Rightarrow> nat \<Rightarrow> api_params option
    \<Rightarrow> ('t, 'c, 's, 'm, 'u) call" where
  "astlStartCollection env expected params = on_all expected params (StartConfiguredTargets env False)"

definition astlStartCollectionPaused :: "('t, 'c, 'cfg, 's, 'm, 'u) session_env \<Rightarrow> nat \<Rightarrow> api_params option
    \<Rightarrow> ('t, 'c, 's, 'm, 'u) call" where
  "astlStartCollectionPaused env expected params = on_all expected params (StartConfiguredTargets env True)"

definition astlPauseCollection :: "('t, 'c, 'cfg, 's, 'm, 'u) session_env \<Rightarrow> nat \<Rightarrow> api_params option
    \<Rightarrow> ('t, 'c, 's, 'm, 'u) call" where
  "astlPauseCollection env expected params = on_all expected params (ApplyToAllTargets (Orchestrator_PauseCollection env))"

definition astlResumeCollection :: "('t, 'c, 'cfg, 's, 'm, 'u) session_env \<Rightarrow> nat \<Rightarrow> api_params option
    \<Rightarrow> ('t, 'c, 's, 'm, 'u) call" where
  "astlResumeCollection env expected params = on_all expected params (ApplyToAllTargets (Orchestrator_ResumeCollection env))"

definition astlStopCollection :: "('t, 'c, 'cfg, 's, 'm, 'u) session_env \<Rightarrow> nat \<Rightarrow> api_params option
    \<Rightarrow> ('t, 'c, 's, 'm, 'u) call" where
  "astlStopCollection env expected params = on_all expected params (ApplyToAllTargets (Orchestrator_StopCollection env))"

definition astlConfigureCounterCollection :: "nat \<Rightarrow> nat \<Rightarrow> configure_params option \<Rightarrow> ('t, 'c, 's, 'm, 'u) call" where
  "astlConfigureCounterCollection expected expected_collection params =
    RunPublicApi (\<lambda>s. case validate_configure expected expected_collection params of
      Inl e \<Rightarrow> (e, s) | Inr p \<Rightarrow> (kInternalNotImplemented, s))"

definition astlConfigureMetricCollection :: "nat \<Rightarrow> nat \<Rightarrow> configure_params option \<Rightarrow> ('t, 'c, 's, 'm, 'u) call" where
  "astlConfigureMetricCollection expected expected_collection params =
    RunPublicApi (\<lambda>s. case validate_configure expected expected_collection params of
      Inl e \<Rightarrow> (e, s) | Inr p \<Rightarrow> (kInternalNotImplemented, s))"

fun expand_on_targets :: "nat list \<Rightarrow> ('t, 'm, 's) metric_manager \<Rightarrow> 't list \<Rightarrow> ('t \<times> nat list) list result" where
  "expand_on_targets groups mm [] = Inr []"
| "expand_on_targets groups mm (t # ts) =
    rbind (ExpandMetricGroupHandlesForTarget (Some t) groups False mm) (\<lambda>metrics.
      rbind (expand_on_targets groups mm ts) (\<lambda>rest.
        Inr (if metrics = [] then rest else (t, metrics) # rest)))"

definition ResolveMetricGroupHandlesOnTargets :: "nat list \<Rightarrow> ('t, 'c, 's, 'm, 'u) session \<Rightarrow> ('t \<times> nat list) list result" where
  "ResolveMetricGroupHandlesOnTargets groups s =
    (if ss_targets s = [] then Inl ASTL_STATUS_NO_TARGET_FOUND
     else rbind (expand_on_targets groups (st_metrics (ss_stores s)) (ss_targets s)) (\<lambda>handles.
       if handles = [] then Inl ASTL_STATUS_METRIC_GROUP_NOT_SUPPORTED_ON_TARGET else Inr handles))"

fun ConfigureResolvedMetricGroupsOnTargets :: "('t, 'c, 'cfg, 's, 'm, 'u) session_env \<Rightarrow> collection_params
    \<Rightarrow> ('t \<times> nat list) list \<Rightarrow> ('t, 'c, 's, 'm, 'u) call" where
  "ConfigureResolvedMetricGroupsOnTargets env params [] s = (ASTL_STATUS_SUCCESS, s)"
| "ConfigureResolvedMetricGroupsOnTargets env params ((t, metrics) # rest) s =
    (let (status, s') = ConfigureMetricCollection env t params metrics s in
     if status \<noteq> ASTL_STATUS_SUCCESS then (status, s')
     else ConfigureResolvedMetricGroupsOnTargets env params rest s')"

definition ConfigureMetricGroupCollectionOnAllTargets :: "('t, 'c, 'cfg, 's, 'm, 'u) session_env \<Rightarrow> collection_params
    \<Rightarrow> nat list \<Rightarrow> ('t, 'c, 's, 'm, 'u) call" where
  "ConfigureMetricGroupCollectionOnAllTargets env params groups s =
    (case ResolveMetricGroupHandlesOnTargets groups s of
       Inl e \<Rightarrow> (e, s)
     | Inr handles \<Rightarrow>
        (let (status, s1) = ResetCollectionStateForCleanConfigure env s in
         if status \<noteq> ASTL_STATUS_SUCCESS then (status, s1)
         else ConfigureResolvedMetricGroupsOnTargets env params handles s1))"

definition astlConfigureMetricGroupCollection :: "('t, 'c, 'cfg, 's, 'm, 'u) session_env \<Rightarrow> nat \<Rightarrow> nat
    \<Rightarrow> configure_params option \<Rightarrow> ('t, 'c, 's, 'm, 'u) call" where
  "astlConfigureMetricGroupCollection env expected expected_collection params =
    RunPublicApi (\<lambda>s.
      case validate_configure expected expected_collection params of
        Inl e \<Rightarrow> (e, s)
      | Inr (collection, groups) \<Rightarrow> ConfigureMetricGroupCollectionOnAllTargets env collection groups s)"

section \<open>The calls as commands\<close>

datatype 't api_call =
  CallConfigureCounters "'t configure_target_params option" | CallConfigureMetrics "'t configure_target_params option"
| CallConfigureGroups "'t configure_target_params option" | CallConfigureAllCounters "configure_params option"
| CallConfigureAllMetrics "configure_params option" | CallConfigureAllGroups "configure_params option"
| CallRead "'t target_params option" | CallReadAll "api_params option"
| CallStart "'t target_params option" | CallStartAll "api_params option"
| CallStartPaused "'t target_params option" | CallStartPausedAll "api_params option"
| CallPause "'t target_params option" | CallPauseAll "api_params option"
| CallResume "'t target_params option" | CallResumeAll "api_params option"
| CallStop "'t target_params option" | CallStopAll "api_params option"

text \<open>The sizes of the structures: by call, and of astl_collection_params_t.\<close>

fun api_exec :: "('t api_call \<Rightarrow> nat) \<Rightarrow> nat \<Rightarrow> ('t, 'c, 'cfg, 's, 'm, 'u) session_env \<Rightarrow> 't api_call
    \<Rightarrow> ('t, 'c, 's, 'm, 'u) call" where
  "api_exec sz n env (CallConfigureCounters p) = astlConfigureCounterCollectionOnTarget env (sz (CallConfigureCounters p)) n p"
| "api_exec sz n env (CallConfigureMetrics p) = astlConfigureMetricCollectionOnTarget env (sz (CallConfigureMetrics p)) n p"
| "api_exec sz n env (CallConfigureGroups p) = astlConfigureMetricGroupCollectionOnTarget env (sz (CallConfigureGroups p)) n p"
| "api_exec sz n env (CallConfigureAllCounters p) = astlConfigureCounterCollection (sz (CallConfigureAllCounters p)) n p"
| "api_exec sz n env (CallConfigureAllMetrics p) = astlConfigureMetricCollection (sz (CallConfigureAllMetrics p)) n p"
| "api_exec sz n env (CallConfigureAllGroups p) = astlConfigureMetricGroupCollection env (sz (CallConfigureAllGroups p)) n p"
| "api_exec sz n env (CallRead p) = astlReadImmediateOnTarget env (sz (CallRead p)) p"
| "api_exec sz n env (CallReadAll p) = astlReadImmediate env (sz (CallReadAll p)) p"
| "api_exec sz n env (CallStart p) = astlStartCollectionOnTarget env (sz (CallStart p)) p"
| "api_exec sz n env (CallStartAll p) = astlStartCollection env (sz (CallStartAll p)) p"
| "api_exec sz n env (CallStartPaused p) = astlStartCollectionOnTargetPaused env (sz (CallStartPaused p)) p"
| "api_exec sz n env (CallStartPausedAll p) = astlStartCollectionPaused env (sz (CallStartPausedAll p)) p"
| "api_exec sz n env (CallPause p) = astlPauseCollectionOnTarget env (sz (CallPause p)) p"
| "api_exec sz n env (CallPauseAll p) = astlPauseCollection env (sz (CallPauseAll p)) p"
| "api_exec sz n env (CallResume p) = astlResumeCollectionOnTarget env (sz (CallResume p)) p"
| "api_exec sz n env (CallResumeAll p) = astlResumeCollection env (sz (CallResumeAll p)) p"
| "api_exec sz n env (CallStop p) = astlStopCollectionOnTarget env (sz (CallStop p)) p"
| "api_exec sz n env (CallStopAll p) = astlStopCollection env (sz (CallStopAll p)) p"

section \<open>The life of a session\<close>

text \<open>
  What happens to a session between two observations: an API call, a reading of a sampler thread,
  or samples that arrive from one.  The collectors' commands are the same throughout; with files,
  no file operation fails.
\<close>

definition env_ok :: "('cfg, 'c) collector_exec \<Rightarrow> bool \<Rightarrow> ('t, 'c, 'cfg, 's, 'm, 'u) session_env \<Rightarrow> bool" where
  "env_ok exec files env \<longleftrightarrow> se_exec env = exec \<and> (files \<longrightarrow> files_ok env)"

inductive session_step :: "('cfg, 'c) collector_exec \<Rightarrow> bool \<Rightarrow> ('t, 'c, 's, 'm, 'u) session \<Rightarrow> ('t, 'c, 's, 'm, 'u) session \<Rightarrow> bool"
  for exec :: "('cfg, 'c) collector_exec" and files :: bool where
  step_call: "env_ok exec files env \<Longrightarrow> session_step exec files s (snd (api_exec sz n env x s))"
| step_sampler: "env_ok exec files env \<Longrightarrow>
    session_step exec files s (snd (on_collectors env t (ReadImmediateOnTarget exec t) s))"
| step_sink: "env_ok exec files env \<Longrightarrow> Orchestrator_SinkRawSamples sorter n properties env target raws (ss_stores s) = Some (status, st) \<Longrightarrow>
    session_step exec files s (s\<lparr>ss_stores := st\<rparr>)"

inductive_cases session_stepE: "session_step exec files s s'"

text \<open>The same without the calls that configure.\<close>

fun configures :: "'t api_call \<Rightarrow> bool" where
  "configures (CallConfigureCounters p) = True"
| "configures (CallConfigureMetrics p) = True"
| "configures (CallConfigureGroups p) = True"
| "configures (CallConfigureAllCounters p) = True"
| "configures (CallConfigureAllMetrics p) = True"
| "configures (CallConfigureAllGroups p) = True"
| "configures x = False"

inductive unconfigured_step :: "('cfg, 'c) collector_exec \<Rightarrow> bool \<Rightarrow> ('t, 'c, 's, 'm, 'u) session \<Rightarrow> ('t, 'c, 's, 'm, 'u) session \<Rightarrow> bool"
  for exec :: "('cfg, 'c) collector_exec" and files :: bool where
  unconfigured_call: "env_ok exec files env \<Longrightarrow> \<not> configures x \<Longrightarrow> unconfigured_step exec files s (snd (api_exec sz n env x s))"
| unconfigured_sampler: "env_ok exec files env \<Longrightarrow>
    unconfigured_step exec files s (snd (on_collectors env t (ReadImmediateOnTarget exec t) s))"
| unconfigured_sink: "env_ok exec files env \<Longrightarrow> Orchestrator_SinkRawSamples sorter n properties env target raws (ss_stores s) = Some (status, st) \<Longrightarrow>
    unconfigured_step exec files s (s\<lparr>ss_stores := st\<rparr>)"

inductive_cases unconfigured_stepE: "unconfigured_step exec files s s'"

section \<open>What every call keeps\<close>

lemma snd_RunPublicApi [simp]: "snd (RunPublicApi func s) = snd (func s)"
  "fst (RunPublicApi func s) = NormalizePublicApiStatus (fst (func s))"
  by (simp_all add: RunPublicApi_def case_prod_beta' Let_def)

text \<open>
  The calls are made of nine operations of the orchestrator: a property of sessions that each of
  these keeps is kept by every call.  Three of them configure; the calls that do not configure are
  made of the other six.
\<close>

definition kept_by_collection :: "(('t, 'c, 's, 'm, 'u) session \<Rightarrow> bool) \<Rightarrow> ('t, 'c, 'cfg, 's, 'm, 'u) session_env \<Rightarrow> bool" where
  "kept_by_collection P env \<longleftrightarrow> (\<forall>s. P s \<longrightarrow>
    (\<forall>t paused. P (snd (StartCollectionImpl env t paused s)))
    \<and> (\<forall>target. P (snd (RollbackStartedCollectionToConfigured env target s)))
    \<and> (\<forall>t. P (snd (Orchestrator_ReadImmediate env t s)))
    \<and> (\<forall>t. P (snd (Orchestrator_PauseCollection env t s)))
    \<and> (\<forall>t. P (snd (Orchestrator_ResumeCollection env t s)))
    \<and> (\<forall>t. P (snd (Orchestrator_StopCollection env t s))))"

definition kept_by_operations :: "(('t, 'c, 's, 'm, 'u) session \<Rightarrow> bool) \<Rightarrow> ('t, 'c, 'cfg, 's, 'm, 'u) session_env \<Rightarrow> bool" where
  "kept_by_operations P env \<longleftrightarrow> kept_by_collection P env \<and> (\<forall>s. P s \<longrightarrow>
    (\<forall>t params metrics. P (snd (ConfigureMetricCollection env t params metrics s)))
    \<and> (\<forall>t params counters. P (snd (ConfigureCounterCollection env t params counters s)))
    \<and> P (snd (ResetCollectionStateForCleanConfigure env s)))"

lemma kept_by_collectionD:
  assumes "kept_by_collection P env" "P s"
  shows "P (snd (StartCollectionImpl env t paused s))"
    "P (snd (RollbackStartedCollectionToConfigured env target s))"
    "P (snd (Orchestrator_ReadImmediate env t s))"
    "P (snd (Orchestrator_PauseCollection env t s))"
    "P (snd (Orchestrator_ResumeCollection env t s))"
    "P (snd (Orchestrator_StopCollection env t s))"
  using assms by (simp_all add: kept_by_collection_def)

lemma kept_by_operationsD:
  assumes "kept_by_operations P env"
  shows "kept_by_collection P env"
    and "P s \<Longrightarrow> P (snd (ConfigureMetricCollection env t params metrics s))"
    and "P s \<Longrightarrow> P (snd (ConfigureCounterCollection env t params counters s))"
    and "P s \<Longrightarrow> P (snd (ResetCollectionStateForCleanConfigure env s))"
  using assms by (simp_all add: kept_by_operations_def)

lemma kept_on_target:
  assumes "P s" "\<And>t. P (snd (op t s))"
  shows "P (snd (on_target expected params op s))"
  using assms by (simp add: on_target_def split: sum.split)

lemma kept_on_all:
  assumes "P s" "P (snd (op s))"
  shows "P (snd (on_all expected params op s))"
  using assms by (simp add: on_all_def Let_def)

lemma kept_apply:
  assumes "\<And>t s. P s \<Longrightarrow> P (snd (op t s))"
  shows "P s \<Longrightarrow> P (snd (apply_to_targets op ts acc s))"
proof (induction ts arbitrary: acc s)
  case (Cons t ts)
  obtain st s' where r: "op t s = (st, s')" by fastforce
  show ?case using Cons.IH [of s'] assms [OF Cons.prems, of t] by (simp add: r)
qed simp

lemma kept_rollback_started:
  assumes "kept_by_collection P env"
  shows "P s \<Longrightarrow> P (snd (rollback_started env ts acc s))"
proof (induction ts arbitrary: acc s)
  case (Cons t ts)
  obtain st s' where r: "RollbackStartedCollectionToConfigured env (Some t) s = (st, s')" by fastforce
  show ?case using Cons.IH [of s'] kept_by_collectionD(2) [OF assms Cons.prems, of "Some t"] by (simp add: r)
qed simp

lemma start_by_impl: "(if paused then StartCollectionPaused env t s else StartCollection env t s) = StartCollectionImpl env t paused s"
  by (cases paused) (simp_all add: StartCollectionPaused_def StartCollection_def)

lemma kept_start_targets:
  assumes "kept_by_collection P env"
  shows "P s \<Longrightarrow> P (snd (start_targets env paused ts started s))"
proof (induction ts arbitrary: started s)
  case (Cons t ts)
  obtain st s' where r: "StartCollectionImpl env t paused s = (st, s')" by fastforce
  have a: "P s'" using kept_by_collectionD(1) [OF assms Cons.prems, of t paused] by (simp add: r)
  obtain st2 s2 where b: "rollback_started env (rev started) ASTL_STATUS_SUCCESS s' = (st2, s2)" by fastforce
  have "P s2" using kept_rollback_started [OF assms a, of "rev started" ASTL_STATUS_SUCCESS] by (simp add: b)
  then show ?case using Cons.IH [OF a] by (simp add: start_by_impl r b cong: if_cong)
qed simp

lemma kept_read_targets:
  assumes "kept_by_collection P env"
  shows "P s \<Longrightarrow> P (snd (read_targets env ts s))"
proof (induction ts arbitrary: s)
  case (Cons t ts)
  obtain st s' where r: "Orchestrator_ReadImmediate env t s = (st, s')" by fastforce
  show ?case using Cons.IH [of s'] kept_by_collectionD(3) [OF assms Cons.prems, of t] by (simp add: r)
qed simp

lemma kept_resolved:
  assumes "kept_by_operations P env"
  shows "P s \<Longrightarrow> P (snd (ConfigureResolvedMetricGroupsOnTargets env params handles s))"
proof (induction handles arbitrary: s)
  case (Cons h handles)
  obtain t metrics where h: "h = (t, metrics)" by fastforce
  obtain st s' where r: "ConfigureMetricCollection env t params metrics s = (st, s')" by fastforce
  show ?case using Cons.IH [of s'] kept_by_operationsD(2) [OF assms Cons.prems, of t params metrics] by (simp add: h r)
qed simp

lemma kept_groups:
  assumes kept: "kept_by_operations P env" and P: "P s"
  shows "P (snd (ConfigureMetricGroupCollectionOnAllTargets env params groups s))"
proof (cases "ResolveMetricGroupHandlesOnTargets groups s")
  case (Inr handles)
  obtain st s1 where r: "ResetCollectionStateForCleanConfigure env s = (st, s1)" by fastforce
  show ?thesis
    using kept_by_operationsD(4) [OF kept P] kept_resolved [OF kept, of s1 params handles]
    by (simp add: ConfigureMetricGroupCollectionOnAllTargets_def Inr r)
qed (simp add: ConfigureMetricGroupCollectionOnAllTargets_def P)

lemmas call_defs =
  astlConfigureCounterCollectionOnTarget_def astlConfigureMetricCollectionOnTarget_def astlConfigureMetricGroupCollectionOnTarget_def
  astlConfigureCounterCollection_def astlConfigureMetricCollection_def astlConfigureMetricGroupCollection_def
  astlReadImmediateOnTarget_def astlReadImmediate_def astlStartCollectionOnTarget_def astlStartCollection_def
  astlStartCollectionOnTargetPaused_def astlStartCollectionPaused_def astlPauseCollectionOnTarget_def astlPauseCollection_def
  astlResumeCollectionOnTarget_def astlResumeCollection_def astlStopCollectionOnTarget_def astlStopCollection_def

lemma kept_by_collecting_api:
  assumes kept: "kept_by_collection P env" and P: "P s" and x: "\<not> configures x"
  shows "P (snd (api_exec sz n env x s))"
proof -
  note op = kept_by_collectionD [OF kept]
  have start: "P (snd (StartConfiguredTargets env paused s))" for paused
    using P kept_start_targets [OF kept P] by (simp add: StartConfiguredTargets_def Let_def)
  have all: "P (snd (ApplyToAllTargets f s))" if "\<And>t s. P s \<Longrightarrow> P (snd (f t s))" for f
    using kept_apply [of P f s] that P by (simp add: ApplyToAllTargets_def)
  have one: "P (snd (StartCollection env t s))" "P (snd (StartCollectionPaused env t s))" for t
    by (simp_all add: StartCollection_def StartCollectionPaused_def op(1) P)
  have target: "P (snd (on_target expected params f s))" if "\<And>t. P (snd (f t s))" for expected params f
    using P that by (rule kept_on_target)
  have on_all: "P (snd (on_all expected params f s))" if "P (snd (f s))" for expected params f
    using P that by (rule kept_on_all)
  note read = kept_read_targets [of P env s, OF kept P]
  show ?thesis
  proof (cases x)
    case (CallPauseAll p)
    then show ?thesis using on_all all op(4) by (simp add: call_defs)
  next
    case (CallResumeAll p)
    then show ?thesis using on_all all op(5) by (simp add: call_defs)
  next
    case (CallStopAll p)
    then show ?thesis using on_all all op(6) by (simp add: call_defs)
  qed (use x in \<open>simp_all add: call_defs P target on_all read start one op [OF P] split: sum.split\<close>)
qed

lemma kept_by_api:
  assumes kept: "kept_by_operations P env" and P: "P s"
  shows "P (snd (api_exec sz n env x s))"
proof (cases "configures x")
  case True
  note op = kept_by_operationsD(2-4) [OF kept P] and groups = kept_groups [of P env s, OF kept P]
  show ?thesis
    by (rule configures.elims(2) [OF True])
      (simp_all add: call_defs P op groups case_prod_beta' split: sum.split)
next
  case False
  then show ?thesis by (rule kept_by_collecting_api [OF kept_by_operationsD(1) [OF kept] P])
qed

context strict_collector
begin

lemma agree_configure_metrics:
  assumes "agree files (control s)" "se_exec env = exec"
  shows "agree files (control (snd (ConfigureMetricCollection env t params metrics s)))"
    "agree files (control (snd (ConfigureCounterCollection env t params counters s)))"
  using assms agree_configure [OF assms] by (simp_all add: ConfigureMetricCollection_def ConfigureCounterCollection_def split: sum.split)

lemma agree_reset_state:
  assumes agree: "agree files (control s)" and env: "se_exec env = exec"
  shows "agree files (control (snd (ResetCollectionStateForCleanConfigure env s)))"
proof -
  obtain st s1 where l: "ResetCollectionStateForCleanConfigureLocked env s = (st, s1)" by fastforce
  note l' = agree_locked [OF agree env l]
  have "agree files (control (s1\<lparr>ss_clean_configure_reset_pending := (st = ASTL_STATUS_SUCCESS)\<rparr>))"
    using l'(1,3) by (fastforce simp: agree_def control_def dest: map_of_SomeD)
  then show ?thesis using agree by (simp add: ResetCollectionStateForCleanConfigure_def l cong: if_cong)
qed

lemma agree_kept:
  assumes "se_exec env = exec" "files \<Longrightarrow> files_ok env"
  shows "kept_by_operations (\<lambda>s. agree files (control s)) env"
  unfolding kept_by_operations_def kept_by_collection_def
  by (intro allI impI conjI; erule agree_configure_metrics agree_reset_state agree_start agree_rollback agree_read
    agree_pause_resume agree_stop; intro assms)

lemma agree_api:
  assumes "agree files (control s)" "env_ok exec files env"
  shows "agree files (control (snd (api_exec sz n env x s)))"
proof -
  have "kept_by_operations (\<lambda>s. agree files (control s)) env"
    by (rule agree_kept) (use assms(2) in \<open>simp_all add: env_ok_def\<close>)
  from kept_by_api [OF this, of s] assms(1) show ?thesis by simp
qed

lemma agree_step:
  assumes "session_step exec files s s'" "agree files (control s)"
  shows "agree files (control s')"
  using assms(1)
proof (rule session_stepE)
  fix env sz n x
  assume "s' = snd (api_exec sz n env x s)" "env_ok exec files env"
  then show ?thesis using agree_api [OF assms(2)] by blast
next
  fix env t
  assume "s' = snd (on_collectors env t (ReadImmediateOnTarget exec t) s)"
  then show ?thesis
    using agree_on_collectors [OF assms(2), of "ReadImmediateOnTarget exec t" env t]
      manager_inv_front(3) [OF agreeD(1) [OF assms(2)], of t] by simp
next
  fix st assume "s' = s\<lparr>ss_stores := st\<rparr>"
  then show ?thesis using assms(2) by simp
qed

lemma agree_run: "(session_step exec files)\<^sup>*\<^sup>* s s' \<Longrightarrow> agree files (control s) \<Longrightarrow> agree files (control s')"
  by (induction rule: rtranclp_induct) (simp_all add: agree_step)

lemma agree_new:
  assumes "distinct targets" "manager_inv collectors" "cm_active collectors = []"
  shows "agree files (control (Orchestrator targets collectors metrics w self clock))"
proof -
  have "manager_inv (snd (RegisterRawSampleSink (Some self) collectors))"
    using assms(2) by (simp add: RegisterRawSampleSink_def manager_inv_def)
  moreover have "map_of (map (\<lambda>t. (t, UNCONFIGURED)) targets) t = Some x \<Longrightarrow> x = UNCONFIGURED" for t x
    by (auto dest!: map_of_SomeD)
  ultimately show ?thesis
    using assms by (auto simp: agree_def control_def Orchestrator_def RegisterRawSampleSink_def comp_def)
qed

end

end
