(* ===== verification/Session_Recovery.thy ===== *)
theory Session_Recovery
  imports Session_Api
begin

text \<open>
  What a session is after a failure, for any collector that satisfies the contract of Lifecycle: a
  target whose pending samples could not be written when its collector stopped, a target whose
  start was taken back, and an aggregate start that failed on one of its targets.
\<close>

section \<open>The first collector of a target\<close>

definition front :: "('t, 'k, 'c, 's) collector_manager \<Rightarrow> 't \<Rightarrow> 'c option" where
  "front m t = (case map_of (cm_collectors m) t of Some ((k, c) # cs) \<Rightarrow> Some c | _ \<Rightarrow> None)"

lemma map_of_set_collectors:
  fixes m :: "('t, 'k, 'c, 's) collector_manager"
  shows "map_of (cm_collectors (set_collectors t cs m)) t' =
    (if t' = t then map_option (\<lambda>_. cs) (map_of (cm_collectors m) t) else map_of (cm_collectors m) t')"
proof -
  have "map_of (map (\<lambda>(u, cs'). (u, if u = t then cs else cs')) xs) t' =
      (if t' = t then map_option (\<lambda>_. cs) (map_of xs t) else map_of xs t')" for xs :: "('t \<times> ('k \<times> 'c) list) list"
    by (induction xs) auto
  then show ?thesis by (simp add: set_collectors_def)
qed

lemma front_on_front:
  "front (snd (on_front exec x t m)) t' =
    (if t' = t then map_option (\<lambda>c. snd (exec x c)) (front m t) else front m t')"
  by (auto simp: on_front_def front_def map_of_set_collectors case_prod_beta' Let_def split: option.splits list.splits)

lemma fst_on_front:
  "fst (on_front exec x t m) = (case front m t of None \<Rightarrow> ASTL_STATUS_INVALID_TARGET_HANDLE | Some c \<Rightarrow> fst (exec x c))"
  by (auto simp: on_front_def front_def case_prod_beta' Let_def split: option.splits list.splits)

lemma front_active [simp]: "front (m\<lparr>cm_active := a\<rparr>) = front m"
  by (simp add: front_def fun_eq_iff)

lemma front_manager:
  "front (snd (StartOnTarget exec t m)) t' = (if t' = t then map_option (\<lambda>c. snd (exec CmdStart c)) (front m t) else front m t')"
  "front (snd (StopOnTarget exec t m)) t' = (if t' = t then map_option (\<lambda>c. snd (exec CmdStop c)) (front m t) else front m t')"
  "front (snd (PauseOnTarget exec t m)) t' = (if t' = t then map_option (\<lambda>c. snd (exec CmdPause c)) (front m t) else front m t')"
  "front (snd (ResumeOnTarget exec t m)) t' = (if t' = t then map_option (\<lambda>c. snd (exec CmdResume c)) (front m t) else front m t')"
  "front (snd (ReadImmediateOnTarget exec t m)) t' = (if t' = t then map_option (\<lambda>c. snd (exec CmdRead c)) (front m t) else front m t')"
  by (simp_all add: StartOnTarget_def StopOnTarget_def PauseOnTarget_def ResumeOnTarget_def ReadImmediateOnTarget_def
    case_prod_beta' Let_def front_on_front)

lemma fst_manager:
  "fst (StartOnTarget exec t m) = fst (on_front exec CmdStart t m)"
  "fst (StopOnTarget exec t m) = fst (on_front exec CmdStop t m)"
  "fst (PauseOnTarget exec t m) = fst (on_front exec CmdPause t m)"
  "fst (ResumeOnTarget exec t m) = fst (on_front exec CmdResume t m)"
  "fst (ReadImmediateOnTarget exec t m) = fst (on_front exec CmdRead t m)"
  by (simp_all add: StartOnTarget_def StopOnTarget_def PauseOnTarget_def ResumeOnTarget_def ReadImmediateOnTarget_def
    case_prod_beta' Let_def)

section \<open>Which states a start and its rollback change\<close>

lemma set_states_simps [simp]:
  "ss_states (on_stores f s) = ss_states s"
  by (simp add: on_stores_def)

lemma start_effect:
  assumes r: "StartCollectionImpl env t paused s = (st, s')" and t: "state_of s t = Some CONFIGURED"
  shows "\<exists>x\<in>{CONFIGURED, STARTED, PAUSED}. state_of s' = (state_of s)(t \<mapsto> x)
    \<and> (st = ASTL_STATUS_SUCCESS \<longrightarrow> x = (if paused then PAUSED else STARTED))"
proof (cases "t \<in> set (ss_targets s)")
  case False
  then have "s' = s" "st \<noteq> ASTL_STATUS_SUCCESS" using r by (auto simp: StartCollectionImpl_def)
  moreover have "state_of s = (state_of s)(t \<mapsto> CONFIGURED)" using t by (simp add: fun_upd_idem)
  ultimately show ?thesis by blast
next
  case True
  define s1 where "s1 = clear_raw_samples t (set_state t STARTING s)"
  have s1: "state_of s1 = (state_of s)(t \<mapsto> STARTING)" by (simp add: s1_def)
  obtain st2 s2 where o2: "on_collectors env t (StartOnTarget (se_exec env) t) s1 = (st2, s2)" by fastforce
  obtain st3 s3 where o3: "on_collectors env t (PauseOnTarget (se_exec env) t) s2 = (st3, s3)" by fastforce
  obtain st4 s4 where o4: "on_collectors env t (StopOnTarget (se_exec env) t) s3 = (st4, s4)" by fastforce
  have same: "state_of s2 = state_of s1" "state_of s3 = state_of s1" "state_of s4 = state_of s1"
    using on_collectors_simps(1) [of env t "StartOnTarget (se_exec env) t" s1]
      on_collectors_simps(1) [of env t "PauseOnTarget (se_exec env) t" s2]
      on_collectors_simps(1) [of env t "StopOnTarget (se_exec env) t" s3] by (simp_all add: o2 o3 o4)
  show ?thesis
    using r o2 o3 o4 True t s1 same
    by (auto simp: StartCollectionImpl_def lifecycle_table Let_def simp flip: s1_def cong: if_cong split: if_splits)
qed

lemma rollback_effect:
  assumes "RollbackStartedCollectionToConfigured env (Some t) s = (st, s')"
  shows "state_of s' = (if st = ASTL_STATUS_SUCCESS then (state_of s)(t \<mapsto> CONFIGURED) else state_of s)"
proof -
  obtain st1 s1 where o: "on_collectors env t (StopOnTarget (se_exec env) t) s = (st1, s1)" by fastforce
  obtain st2 s2 where a: "ResetTargetCollectionArtifacts env (Some t) s1 = (st2, s2)" by fastforce
  have "state_of s1 = state_of s" "state_of s2 = state_of s1"
    using on_collectors_simps(1) [of env t "StopOnTarget (se_exec env) t" s] controlD(3) [OF control_artifacts, of env "Some t" s1]
    by (simp_all add: o a)
  then show ?thesis using assms by (auto simp: RollbackStartedCollectionToConfigured_def o a split: if_splits)
qed

text \<open>What the states may look like while the targets in C, all CONFIGURED in s, are started or taken back.\<close>

definition only_starts :: "'t set \<Rightarrow> ('t, 'c, 's, 'm, 'u) session \<Rightarrow> ('t, 'c, 's, 'm, 'u) session \<Rightarrow> bool" where
  "only_starts C s s' \<longleftrightarrow> (\<forall>t. if t \<in> C then state_of s' t \<in> Some ` {CONFIGURED, STARTED, PAUSED} else state_of s' t = state_of s t)"

lemma only_starts_upd:
  assumes "only_starts C s s'" "t \<in> C" "x \<in> {CONFIGURED, STARTED, PAUSED}" "state_of s1 = (state_of s')(t \<mapsto> x)"
  shows "only_starts C s s1"
  using assms unfolding only_starts_def by (metis fun_upd_apply image_eqI)

lemma only_starts_rollback_started:
  "only_starts C s s' \<Longrightarrow> set ts \<subseteq> C \<Longrightarrow> only_starts C s (snd (rollback_started env ts acc s'))"
proof (induction ts arbitrary: acc s')
  case (Cons t ts)
  obtain st s1 where r: "RollbackStartedCollectionToConfigured env (Some t) s' = (st, s1)" by fastforce
  have "only_starts C s s1"
    using Cons.prems only_starts_upd [of C s s' t CONFIGURED s1] rollback_effect [OF r] by (auto simp: only_starts_def split: if_splits)
  then show ?case using Cons.IH [of s1] Cons.prems(2) by (simp add: r)
qed simp

lemma only_starts_start_targets:
  assumes "start_targets env paused ts started s' = (st, s2)" "only_starts C s s'" "set ts \<subseteq> C" "set started \<subseteq> C" "distinct ts"
    and "\<forall>t\<in>set ts. state_of s' t = Some CONFIGURED"
    and "\<forall>t\<in>D. t \<notin> set ts \<and> state_of s' t = Some (if paused then PAUSED else STARTED)"
  shows "only_starts C s s2
    \<and> (st = ASTL_STATUS_SUCCESS \<longrightarrow> (\<forall>t\<in>D \<union> set ts. state_of s2 t = Some (if paused then PAUSED else STARTED)))"
  using assms
proof (induction ts arbitrary: started s' D)
  case (Cons t ts)
  obtain st1 s1 where r: "StartCollectionImpl env t paused s' = (st1, s1)" by fastforce
  obtain x where x: "x \<in> {CONFIGURED, STARTED, PAUSED}" "state_of s1 = (state_of s')(t \<mapsto> x)"
      "st1 = ASTL_STATUS_SUCCESS \<Longrightarrow> x = (if paused then PAUSED else STARTED)"
    using start_effect [OF r] Cons.prems(6) by auto
  have w: "only_starts C s s1" by (rule only_starts_upd [OF Cons.prems(2) _ x(1,2)]) (use Cons.prems(3) in simp)
  show ?case
  proof (cases "st1 = ASTL_STATUS_SUCCESS")
    case True
    have "only_starts C s s2 \<and> (st = ASTL_STATUS_SUCCESS \<longrightarrow>
        (\<forall>u\<in>insert t D \<union> set ts. state_of s2 u = Some (if paused then PAUSED else STARTED)))"
      by (rule Cons.IH [of "started @ [t]" s1])
        (use Cons.prems True w x r in \<open>auto simp: start_by_impl cong: if_cong\<close>)
    then show ?thesis by simp
  next
    case False
    obtain st3 s3 where b: "rollback_started env (rev started) ASTL_STATUS_SUCCESS s1 = (st3, s3)" by fastforce
    have "only_starts C s s3" using only_starts_rollback_started [OF w, of "rev started" env ASTL_STATUS_SUCCESS] Cons.prems(4) by (simp add: b)
    then show ?thesis using Cons.prems(1) False by (auto simp: start_by_impl r b split: if_splits)
  qed
qed simp

lemma start_all_outcome:
  assumes "StartConfiguredTargets env paused s = (st, s')" "distinct (ss_targets s)"
  shows "st = ASTL_STATUS_SUCCESS \<Longrightarrow> GetConfiguredTargets s \<noteq> []
      \<and> (\<forall>t\<in>set (GetConfiguredTargets s). state_of s' t = Some (if paused then PAUSED else STARTED))"
    and "only_starts (set (GetConfiguredTargets s)) s s'"
proof -
  have configured: "\<forall>t\<in>set (GetConfiguredTargets s). state_of s t = Some CONFIGURED" by (simp add: GetConfiguredTargets_def)
  then have w: "only_starts (set (GetConfiguredTargets s)) s s" by (simp add: only_starts_def)
  have start: "start_targets env paused (GetConfiguredTargets s) [] s = (st, s')" if "GetConfiguredTargets s \<noteq> []"
    using assms(1) that by (simp add: StartConfiguredTargets_def Let_def)
  note outcome = only_starts_start_targets [OF start w order.refl _ _ configured, of "{}"]
  have d: "distinct (GetConfiguredTargets s)" using assms(2) by (simp add: GetConfiguredTargets_def)
  show "GetConfiguredTargets s \<noteq> [] \<and> (\<forall>t\<in>set (GetConfiguredTargets s). state_of s' t = Some (if paused then PAUSED else STARTED))"
    if "st = ASTL_STATUS_SUCCESS"
    using outcome d that assms(1) by (cases "GetConfiguredTargets s = []") (auto simp: StartConfiguredTargets_def)
  show "only_starts (set (GetConfiguredTargets s)) s s'"
    using outcome d w assms(1) by (cases "GetConfiguredTargets s = []") (auto simp: StartConfiguredTargets_def)
qed

section \<open>A target out of step with its collector\<close>

context strict_collector
begin

lemma stopped_refuses:
  assumes "lc c = STOPPED" "x \<in> {CmdStart, CmdPause, CmdResume, CmdStop, CmdRead}"
  shows "lc (snd (exec x c)) = STOPPED" "x \<noteq> CmdRead \<Longrightarrow> fst (exec x c) \<noteq> ASTL_STATUS_SUCCESS"
  using exec_stopped [OF assms] by blast+

text \<open>The target is in one of the states X, and its collector has stopped.\<close>

definition stopped_in :: "CollectionLifecycleState set \<Rightarrow> 't \<Rightarrow> ('t, 'c, 's, 'm, 'u) session \<Rightarrow> bool" where
  "stopped_in X t s \<longleftrightarrow> t \<in> set (ss_targets s) \<and> state_of s t \<in> Some ` X
    \<and> (\<exists>c. front (ss_collectors s) t = Some c \<and> lc c = STOPPED) \<and> \<not> ss_clean_configure_reset_pending s"

lemma stopped_in_cong:
  assumes "stopped_in X t s" "ss_targets s' = ss_targets s" "state_of s' t = state_of s t"
    "front (ss_collectors s') t = front (ss_collectors s) t"
    "ss_clean_configure_reset_pending s' = ss_clean_configure_reset_pending s"
  shows "stopped_in X t s'"
  using assms by (simp add: stopped_in_def)

lemma stopped_in_control:
  assumes "control s' = control s" "stopped_in X t s"
  shows "stopped_in X t s'"
  by (rule stopped_in_cong [OF assms(2)]) (simp_all add: controlD [OF assms(1)])

lemma stopped_in_on_collectors:
  assumes "stopped_in X t s" "\<forall>t'. \<exists>x\<in>{CmdStart, CmdPause, CmdResume, CmdStop, CmdRead}. front (snd (f (ss_collectors s))) t'
      = (if t' = u then map_option (\<lambda>c. snd (exec x c)) (front (ss_collectors s) u) else front (ss_collectors s) t')"
  shows "stopped_in X t (snd (on_collectors env u f s))"
proof -
  obtain c where c: "front (ss_collectors s) t = Some c" "lc c = STOPPED" using assms(1) by (auto simp: stopped_in_def)
  obtain x where x: "x \<in> {CmdStart, CmdPause, CmdResume, CmdStop, CmdRead}" "front (snd (f (ss_collectors s))) t
      = (if t = u then map_option (\<lambda>c. snd (exec x c)) (front (ss_collectors s) u) else front (ss_collectors s) t)"
    using assms(2) by blast
  have "\<exists>c. front (snd (f (ss_collectors s))) t = Some c \<and> lc c = STOPPED"
    using x(2) c stopped_refuses(1) [OF c(2) x(1)] by (auto split: if_splits)
  then show ?thesis using assms(1) by (simp add: stopped_in_def)
qed

lemma stopped_in_commands:
  assumes "stopped_in X t s"
  shows "stopped_in X t (snd (on_collectors env u (StartOnTarget exec u) s))"
    "stopped_in X t (snd (on_collectors env u (StopOnTarget exec u) s))"
    "stopped_in X t (snd (on_collectors env u (PauseOnTarget exec u) s))"
    "stopped_in X t (snd (on_collectors env u (ResumeOnTarget exec u) s))"
    "stopped_in X t (snd (on_collectors env u (ReadImmediateOnTarget exec u) s))"
proof -
  have by_command: "stopped_in X t (snd (on_collectors env u f s))"
    if "x \<in> {CmdStart, CmdPause, CmdResume, CmdStop, CmdRead}"
      "\<And>t'. front (snd (f (ss_collectors s))) t'
        = (if t' = u then map_option (\<lambda>c. snd (exec x c)) (front (ss_collectors s) u) else front (ss_collectors s) t')" for f x
    using stopped_in_on_collectors [OF assms] that by blast
  show "stopped_in X t (snd (on_collectors env u (StartOnTarget exec u) s))" 
    by (rule by_command [of CmdStart]) (simp, rule front_manager(1))
  show "stopped_in X t (snd (on_collectors env u (StopOnTarget exec u) s))" 
    by (rule by_command [of CmdStop]) (simp, rule front_manager(2))
  show "stopped_in X t (snd (on_collectors env u (PauseOnTarget exec u) s))" 
    by (rule by_command [of CmdPause]) (simp, rule front_manager(3))
  show "stopped_in X t (snd (on_collectors env u (ResumeOnTarget exec u) s))" 
    by (rule by_command [of CmdResume]) (simp, rule front_manager(4))
  show "stopped_in X t (snd (on_collectors env u (ReadImmediateOnTarget exec u) s))" 
    by (rule by_command [of CmdRead]) (simp, rule front_manager(5))
qed

lemma stopped_in_status:
  assumes "stopped_in X t s"
  shows "fst (on_collectors env t (StopOnTarget exec t) s) \<noteq> ASTL_STATUS_SUCCESS"
    "fst (on_collectors env t (PauseOnTarget exec t) s) \<noteq> ASTL_STATUS_SUCCESS"
    "fst (on_collectors env t (ResumeOnTarget exec t) s) \<noteq> ASTL_STATUS_SUCCESS"
  using assms stopped_refuses(2) by (auto simp: stopped_in_def fst_manager fst_on_front)

lemma stopped_in_set_other: "stopped_in X t s \<Longrightarrow> u \<noteq> t \<Longrightarrow> stopped_in X t (set_state u x s)"
  by (erule stopped_in_cong) simp_all

lemma stopped_in_event [simp]: "stopped_in X t s \<Longrightarrow> stopped_in X t (EnsureLifecycleEventMetricForTarget env u s)"
  by (rule stopped_in_control [OF control_event_metric])

lemma stopped_in_start_other:
  assumes w: "stopped_in X t s" and env: "se_exec env = exec" and u: "u \<noteq> t"
  shows "stopped_in X t (snd (StartCollectionImpl env u paused s))"
proof (cases "state_of s u")
  case (Some x)
  have set: "stopped_in X t (set_state u x r)" "stopped_in X t (leave_starting u x r)"
    if "stopped_in X t r" for x and r :: "('a, 'c, 'b, 'd, 'e) session"
    using stopped_in_set_other [OF that u] that by (simp_all add: leave_starting_def)
  define s1 where "s1 = clear_raw_samples u (set_state u STARTING s)"
  obtain st2 s2 where o2: "on_collectors env u (StartOnTarget exec u) s1 = (st2, s2)" by fastforce
  obtain st3 s3 where o3: "on_collectors env u (PauseOnTarget exec u) s2 = (st3, s3)" by fastforce
  obtain st4 s4 where o4: "on_collectors env u (StopOnTarget exec u) s3 = (st4, s4)" by fastforce
  have w1: "stopped_in X t s1" unfolding s1_def by (rule stopped_in_control [OF control_clear_raw set(1) [OF w]])
  have w2: "stopped_in X t s2" using stopped_in_commands(1) [OF w1, of env u] by (simp add: o2)
  have w3: "stopped_in X t s3" using stopped_in_commands(3) [OF w2, of env u] by (simp add: o3)
  have w4: "stopped_in X t s4" using stopped_in_commands(2) [OF w3, of env u] by (simp add: o4)
  note w3' = stopped_in_control [OF control_event_metric w3] and w4' = stopped_in_control [OF control_clear_raw w4]
  have paused: "stopped_in X t ((leave_starting u PAUSED (EnsureLifecycleEventMetricForTarget env (Some u) s3))\<lparr>ss_pause_timestamps := ts\<rparr>)" for ts
    by (rule stopped_in_control [OF control_simps(2) set(2) [OF w3']])
  show ?thesis
    using w set(2) [OF w2] paused set(2) [OF w4'] o2 o3 o4
    by (simp add: StartCollectionImpl_def Some env Let_def flip: s1_def cong: if_cong)
qed (simp add: StartCollectionImpl_def w)

lemma stopped_in_pause_resume:
  assumes w: "stopped_in X t s" and env: "se_exec env = exec"
  shows "stopped_in X t (snd (Orchestrator_PauseCollection env u s))" "stopped_in X t (snd (Orchestrator_ResumeCollection env u s))"
    "u = t \<Longrightarrow> fst (Orchestrator_PauseCollection env u s) \<noteq> ASTL_STATUS_SUCCESS"
    "u = t \<Longrightarrow> fst (Orchestrator_ResumeCollection env u s) \<noteq> ASTL_STATUS_SUCCESS"
proof -
  let ?e = "EnsureLifecycleEventMetricForTarget env (Some u) s"
  obtain st s1 where o: "on_collectors env u (PauseOnTarget exec u) ?e = (st, s1)" by fastforce
  obtain st2 s2 where o2: "on_collectors env u (ResumeOnTarget exec u) ?e = (st2, s2)" by fastforce
  have w1: "stopped_in X t s1" "stopped_in X t s2"
    using stopped_in_commands(3,4) [OF stopped_in_event [OF w, of env "Some u"], of env u] by (simp_all add: o o2)
  have refused: "st \<noteq> ASTL_STATUS_SUCCESS" "st2 \<noteq> ASTL_STATUS_SUCCESS" if "u = t"
    using stopped_in_status(2,3) [OF stopped_in_event [OF w, of env "Some u"], of env] o o2 that by (metis fst_conv)+
  note set = stopped_in_control [OF control_simps(2) stopped_in_set_other] stopped_in_control [OF control_simps(3) stopped_in_set_other]
  show "stopped_in X t (snd (Orchestrator_PauseCollection env u s))"
    using w w1 refused(1) set(1) [OF w1(1)] by (auto simp: Orchestrator_PauseCollection_def env o Let_def split: option.split)
  show "stopped_in X t (snd (Orchestrator_ResumeCollection env u s))"
    using w w1 refused(2) set(2) [OF w1(2)] by (auto simp: Orchestrator_ResumeCollection_def env o2 Let_def split: option.split)
  show "u = t \<Longrightarrow> fst (Orchestrator_PauseCollection env u s) \<noteq> ASTL_STATUS_SUCCESS"
    using refused(1) o by (auto simp: Orchestrator_PauseCollection_def env Let_def split: option.split)
  show "u = t \<Longrightarrow> fst (Orchestrator_ResumeCollection env u s) \<noteq> ASTL_STATUS_SUCCESS"
    using refused(2) o2 by (auto simp: Orchestrator_ResumeCollection_def env Let_def split: option.split)
qed

lemma stopped_in_stop:
  assumes w: "stopped_in X t s" and env: "se_exec env = exec"
  shows "stopped_in X t (snd (Orchestrator_StopCollection env u s))"
    "u = t \<Longrightarrow> fst (Orchestrator_StopCollection env u s) \<noteq> ASTL_STATUS_SUCCESS"
proof -
  obtain st s1 where o: "on_collectors env u (StopOnTarget exec u) s = (st, s1)" by fastforce
  obtain st2 stores where f: "FlushPendingRawSamples env u (ss_stores s1) = (st2, stores)" by (metis surj_pair)
  let ?s2 = "s1\<lparr>ss_stores := stores\<rparr>"
  let ?s3 = "if IsAnyTargetBeingCollected (ss_collectors s1) then ?s2
    else EmitSummaryCsvIfRequested env (EmitIntervalCsvIfRequested env (EmitPerfettoTraceIfRequested env ?s2))"
  have w1: "stopped_in X t s1" using stopped_in_commands(2) [OF w, of env u] by (simp add: o)
  have w2: "stopped_in X t ?s2" "stopped_in X t ?s3" by (rule stopped_in_control [OF _ w1], simp)+
  have refused: "st \<noteq> ASTL_STATUS_SUCCESS" if "u = t" using stopped_in_status(1) [OF w, of env] o that by (metis fst_conv)
  have other: "stopped_in X t (set_state u x ?s3)" if "st = ASTL_STATUS_SUCCESS" for x
    using stopped_in_set_other [OF w2(2)] refused that by blast
  show "stopped_in X t (snd (Orchestrator_StopCollection env u s))"
    using w w1 w2 other
    by (cases "st = ASTL_STATUS_SUCCESS") (simp_all add: Orchestrator_StopCollection_def env o f Let_def cong: if_cong split: if_splits)
  show "u = t \<Longrightarrow> fst (Orchestrator_StopCollection env u s) \<noteq> ASTL_STATUS_SUCCESS"
    using refused o by (simp add: Orchestrator_StopCollection_def env Let_def)
qed

lemma stopped_in_rollback:
  assumes w: "stopped_in X t s" and env: "se_exec env = exec"
  shows "stopped_in X t (snd (RollbackStartedCollectionToConfigured env target s))"
proof (cases target)
  case (Some u)
  obtain st s1 where o: "on_collectors env u (StopOnTarget exec u) s = (st, s1)" by fastforce
  obtain st2 s2 where a: "ResetTargetCollectionArtifacts env (Some u) s1 = (st2, s2)" by fastforce
  have w1: "stopped_in X t s1" using stopped_in_commands(2) [OF w, of env u] by (simp add: o)
  have w2: "stopped_in X t s2" using stopped_in_control [OF control_artifacts w1, of env "Some u"] by (simp add: a)
  have "st \<noteq> ASTL_STATUS_SUCCESS" if "u = t" using stopped_in_status(1) [OF w, of env] o that by (metis fst_conv)
  then have "stopped_in X t (set_state u x (ResetFinalOutputEmissionState s2))" if "st = ASTL_STATUS_SUCCESS" for x
    using stopped_in_set_other [OF stopped_in_control [OF control_simps(1) w2]] that by blast
  then show ?thesis
    using w1 w2
    by (cases "st = ASTL_STATUS_SUCCESS") (simp_all add: RollbackStartedCollectionToConfigured_def Some env o a cong: if_cong)
qed (simp add: RollbackStartedCollectionToConfigured_def w)

section \<open>A running target whose collector stopped\<close>

abbreviation wedged :: "'t \<Rightarrow> ('t, 'c, 's, 'm, 'u) session \<Rightarrow> bool" where
  "wedged \<equiv> stopped_in {STARTED, PAUSED}"

lemma wedged_running: "wedged t s \<Longrightarrow> list_ex (\<lambda>(t, x). is_running x) (ss_states s)"
  by (auto simp: stopped_in_def state_of_def list_ex_iff is_running_def dest!: map_of_SomeD)

lemma wedged_reset_ids:
  "wedged t s \<Longrightarrow> ResetOperationIdsForCleanConfigure env u s = (ASTL_STATUS_COLLECTION_ALREADY_RUNNING, s)"
  using wedged_running [of t s] stopped_in_def [of _ t s] by (simp add: ResetOperationIdsForCleanConfigure_def)

lemma wedged_configure:
  assumes "wedged t s"
  shows "snd (ConfigureMetricCollection env u params metrics s) = s"
    "fst (ConfigureMetricCollection env u params metrics s) \<noteq> ASTL_STATUS_SUCCESS"
    "snd (ConfigureCounterCollection env u params counters s) = s"
    "fst (ConfigureCounterCollection env u params counters s) \<noteq> ASTL_STATUS_SUCCESS"
  by (simp_all add: ConfigureMetricCollection_def ConfigureCounterCollection_def GetAvailableMetrics_def GetAvailableCounters_def
    configure_operations_def wedged_reset_ids [OF assms])

lemma wedged_start:
  assumes w: "wedged t s" and env: "se_exec env = exec"
  shows "wedged t (snd (StartCollectionImpl env u paused s))"
    "u = t \<Longrightarrow> fst (StartCollectionImpl env u paused s) \<noteq> ASTL_STATUS_SUCCESS"
proof -
  have refused: "snd (StartCollectionImpl env t paused s) = s \<and> fst (StartCollectionImpl env t paused s) \<noteq> ASTL_STATUS_SUCCESS"
    using w by (auto simp: stopped_in_def StartCollectionImpl_def lifecycle_table)
  then show "u = t \<Longrightarrow> fst (StartCollectionImpl env u paused s) \<noteq> ASTL_STATUS_SUCCESS" by simp
  show "wedged t (snd (StartCollectionImpl env u paused s))"
    using refused w stopped_in_start_other [OF w env] by (cases "u = t") simp_all
qed

lemma wedged_kept:
  assumes env: "se_exec env = exec"
  shows "kept_by_operations (wedged t) env"
proof -
  have "wedged t (snd (ResetCollectionStateForCleanConfigure env s))" "wedged t (snd (Orchestrator_ReadImmediate env u s))"
    if "wedged t s" for s u
    using that wedged_running [OF that] stopped_in_commands(5) [OF that, of env u]
    by (simp_all add: ResetCollectionStateForCleanConfigure_def Orchestrator_ReadImmediate_def env)
  then show ?thesis
    by (simp add: kept_by_operations_def kept_by_collection_def wedged_configure wedged_start stopped_in_pause_resume stopped_in_stop
      stopped_in_rollback env)
qed

lemma wedged_step:
  assumes "session_step exec files s s'" "wedged t s"
  shows "wedged t s'"
  using assms(1)
proof (rule session_stepE)
  fix env sz n x
  assume "s' = snd (api_exec sz n env x s)" "env_ok exec files env"
  then show ?thesis using kept_by_api [OF wedged_kept assms(2)] by (simp add: env_ok_def)
next
  fix env u
  assume "s' = snd (on_collectors env u (ReadImmediateOnTarget exec u) s)"
  then show ?thesis using stopped_in_commands(5) [OF assms(2)] by simp
next
  fix st assume "s' = s\<lparr>ss_stores := st\<rparr>"
  then show ?thesis using stopped_in_control [OF control_simps(4) assms(2)] by simp
qed

lemma wedged_run: "(session_step exec files)\<^sup>*\<^sup>* s s' \<Longrightarrow> wedged t s \<Longrightarrow> wedged t s'"
  by (induction rule: rtranclp_induct) (simp_all add: wedged_step)

section \<open>A configured target whose collector stopped\<close>

lemma front_stopped:
  assumes "StopOnTarget exec t m = (ASTL_STATUS_SUCCESS, m')"
  shows "\<exists>c. front m' t = Some c \<and> lc c = STOPPED"
proof -
  obtain c where c: "front m t = Some c" "fst (exec CmdStop c) = ASTL_STATUS_SUCCESS"
    using assms fst_manager(2) [of exec t m] by (auto simp: fst_on_front split: option.splits)
  have "lc (snd (exec CmdStop c)) = STOPPED"
  proof -
    have "action_law (lc c) STOP (fst (exec CmdStop c)) (lc (snd (exec CmdStop c)))" by (rule exec_stop [of c]) simp
    then show ?thesis using c(2) by (cases "lc c") (simp_all add: action_law_def lifecycle_table)
  qed
  moreover have "front m' t = Some (snd (exec CmdStop c))"
    using front_manager(2) [of exec t m t] by (simp add: assms c(1))
  ultimately show ?thesis by blast
qed

lemma rollback_stopped_in:
  assumes r: "RollbackStartedCollectionToConfigured env (Some t) s = (ASTL_STATUS_SUCCESS, s')"
    and env: "se_exec env = exec" and s: "t \<in> set (ss_targets s)" "\<not> ss_clean_configure_reset_pending s"
  shows "stopped_in {CONFIGURED} t s'"
proof -
  obtain st s1 where o: "on_collectors env t (StopOnTarget exec t) s = (st, s1)" by fastforce
  obtain st2 s2 where a: "ResetTargetCollectionArtifacts env (Some t) s1 = (st2, s2)" by fastforce
  have ok: "st = ASTL_STATUS_SUCCESS" "s' = set_state t CONFIGURED (ResetFinalOutputEmissionState s2)"
    using r by (auto simp: RollbackStartedCollectionToConfigured_def env o a split: if_splits)
  have "control s2 = control s1" using control_artifacts [of env "Some t" s1] by (simp add: a)
  note s2 = controlD [OF this]
  have s1: "ss_collectors s1 = snd (StopOnTarget exec t (ss_collectors s))" "fst (StopOnTarget exec t (ss_collectors s)) = st"
    using on_collectors_simps(4,6) [of env t "StopOnTarget exec t" s] unfolding o by simp_all
  obtain c where "front (ss_collectors s1) t = Some c" "lc c = STOPPED"
    using front_stopped [of t "ss_collectors s" "ss_collectors s1"] s1 ok(1) by (metis prod.collapse)
  then show ?thesis
    using s on_collectors_simps(3,5) [of env t "StopOnTarget exec t" s] by (simp add: ok(2) stopped_in_def s2 o)
qed

lemma stopped_in_start_refused:
  assumes w: "stopped_in {CONFIGURED} t s" and env: "se_exec env = exec"
  shows "fst (StartCollectionImpl env t paused s) = ASTL_STATUS_INVALID_STATE_TRANSITION"
    "stopped_in {CONFIGURED} t (snd (StartCollectionImpl env t paused s))"
proof -
  define s1 where "s1 = clear_raw_samples t (set_state t STARTING s)"
  obtain st2 s2 where o2: "on_collectors env t (StartOnTarget exec t) s1 = (st2, s2)" by fastforce
  have s: "t \<in> set (ss_targets s)" "state_of s t = Some CONFIGURED" using w by (auto simp: stopped_in_def)
  obtain c where c: "front (ss_collectors s) t = Some c" "lc c = STOPPED" using w by (auto simp: stopped_in_def)
  have law: "action_law (lc c) START (fst (exec CmdStart c)) (lc (snd (exec CmdStart c)))"
    by (rule exec_start [of c]) simp
  have st2: "st2 = ASTL_STATUS_INVALID_STATE_TRANSITION"
    using on_collectors_simps(6) [of env t "StartOnTarget exec t" s1] law unfolding o2
    by (simp add: s1_def fst_manager fst_on_front c action_law_def lifecycle_table)
  have "stopped_in {STARTING} t s1" using w by (auto simp: s1_def stopped_in_def)
  then have "stopped_in {STARTING} t s2" using stopped_in_commands(1) [of "{STARTING}" t s1 env t] by (simp add: o2)
  then have "stopped_in {CONFIGURED} t (leave_starting t CONFIGURED s2)" by (auto simp: stopped_in_def)
  then show "fst (StartCollectionImpl env t paused s) = ASTL_STATUS_INVALID_STATE_TRANSITION"
    "stopped_in {CONFIGURED} t (snd (StartCollectionImpl env t paused s))"
    using o2 by (simp_all add: StartCollectionImpl_def s env lifecycle_table st2 flip: s1_def)
qed

text \<open>No call that does not configure brings it back.\<close>

lemma stopped_in_kept:
  assumes env: "se_exec env = exec"
  shows "kept_by_collection (stopped_in {CONFIGURED} t) env"
proof -
  have "stopped_in {CONFIGURED} t (snd (StartCollectionImpl env u paused s))"
      "stopped_in {CONFIGURED} t (snd (Orchestrator_ReadImmediate env u s))"
    if "stopped_in {CONFIGURED} t s" for s u paused
    using stopped_in_start_refused(2) [OF that env, of paused] stopped_in_start_other [OF that env, of u paused]
      stopped_in_commands(5) [OF that, of env u] that
    by (cases "u = t", simp_all add: Orchestrator_ReadImmediate_def env)
  then show ?thesis
    by (simp add: kept_by_collection_def stopped_in_pause_resume stopped_in_stop stopped_in_rollback env)
qed

lemma stopped_in_step:
  assumes "unconfigured_step exec files s s'" "stopped_in {CONFIGURED} t s"
  shows "stopped_in {CONFIGURED} t s'"
  using assms(1)
proof (rule unconfigured_stepE)
  fix env sz n x
  assume "s' = snd (api_exec sz n env x s)" "env_ok exec files env" "\<not> configures x"
  then show ?thesis using kept_by_collecting_api [OF stopped_in_kept assms(2)] by (simp add: env_ok_def)
next
  fix env u
  assume "s' = snd (on_collectors env u (ReadImmediateOnTarget exec u) s)"
  then show ?thesis using stopped_in_commands(5) [OF assms(2)] by simp
next
  fix st assume "s' = s\<lparr>ss_stores := st\<rparr>"
  then show ?thesis using stopped_in_control [OF control_simps(4) assms(2)] by simp
qed

lemma stopped_in_run:
  "(unconfigured_step exec files)\<^sup>*\<^sup>* s s' \<Longrightarrow> stopped_in {CONFIGURED} t s \<Longrightarrow> stopped_in {CONFIGURED} t s'"
  by (induction rule: rtranclp_induct) (simp_all add: stopped_in_step)

lemma stopped_in_start_targets:
  assumes env: "se_exec env = exec"
  shows "stopped_in {CONFIGURED} t s \<Longrightarrow> t \<in> set ts \<Longrightarrow> fst (start_targets env paused ts started s) \<noteq> ASTL_STATUS_SUCCESS"
proof (induction ts arbitrary: started s)
  case (Cons u us)
  obtain st s1 where r: "StartCollectionImpl env u paused s = (st, s1)" by fastforce
  have "st \<noteq> ASTL_STATUS_SUCCESS" if "u = t"
    using stopped_in_start_refused(1) [OF Cons.prems(1) env, of paused] r unfolding that by simp
  moreover have "u \<noteq> t \<Longrightarrow> stopped_in {CONFIGURED} t s1"
    using stopped_in_start_other [OF Cons.prems(1) env, of u paused] by (simp add: r)
  ultimately show ?case
    using Cons.IH [of s1 "started @ [u]"] Cons.prems(2) by (auto simp: start_by_impl r case_prod_beta' Let_def)
qed simp

lemma stopped_in_start_all:
  assumes "stopped_in {CONFIGURED} t s" "se_exec env = exec"
  shows "t \<in> set (GetConfiguredTargets s)" "fst (StartConfiguredTargets env paused s) \<noteq> ASTL_STATUS_SUCCESS"
proof -
  show t: "t \<in> set (GetConfiguredTargets s)" using assms(1) by (simp add: GetConfiguredTargets_def stopped_in_def)
  show "fst (StartConfiguredTargets env paused s) \<noteq> ASTL_STATUS_SUCCESS"
    using stopped_in_start_targets [OF assms(2,1) t] by (simp add: StartConfiguredTargets_def Let_def)
qed

lemma flush_wedges:
  assumes stop: "fst (StopOnTarget exec t (ss_collectors s)) = ASTL_STATUS_SUCCESS"
    and flush: "fst (FlushPendingRawSamples env t (se_sunk env t (ss_stores s))) \<noteq> ASTL_STATUS_SUCCESS"
    and env: "se_exec env = exec" and s: "ValidateStopCollectionTarget t s = ASTL_STATUS_SUCCESS" "\<not> ss_clean_configure_reset_pending s"
  shows "fst (Orchestrator_StopCollection env t s) \<noteq> ASTL_STATUS_SUCCESS" "wedged t (snd (Orchestrator_StopCollection env t s))"
    "state_of (snd (Orchestrator_StopCollection env t s)) = state_of s"
proof -
  obtain st s1 where o: "on_collectors env t (StopOnTarget exec t) s = (st, s1)" by fastforce
  obtain st2 stores where f: "FlushPendingRawSamples env t (ss_stores s1) = (st2, stores)" by (metis surj_pair)
  have s1: "ss_collectors s1 = snd (StopOnTarget exec t (ss_collectors s))" "st = ASTL_STATUS_SUCCESS"
      "state_of s1 = state_of s"
    using on_collectors_simps(1,4,6) [of env t "StopOnTarget exec t" s] stop unfolding o by simp_all
  have s1_stores: "ss_stores s1 = se_sunk env t (ss_stores s)"
    using o by (auto simp: on_collectors_def case_prod_beta' Let_def)
  have st2: "st2 \<noteq> ASTL_STATUS_SUCCESS" using flush f by (simp add: s1_stores)
  have r: "Orchestrator_StopCollection env t s = (st2, s1\<lparr>ss_stores := stores\<rparr>)"
    using s1 st2 by (simp add: Orchestrator_StopCollection_def s(1) env o f)
  have x: "x \<in> {STARTED, PAUSED}" if "CheckCollectionLifecycleAction x STOP = ASTL_STATUS_SUCCESS" for x
    using that by (cases x) (simp_all add: lifecycle_table)
  have valid: "t \<in> set (ss_targets s)" "state_of s t \<in> Some ` {STARTED, PAUSED}"
    using s(1) x by (auto simp: ValidateStopCollectionTarget_def split: if_splits option.splits)
  obtain c where c: "front (ss_collectors s1) t = Some c" "lc c = STOPPED"
    using front_stopped [of t "ss_collectors s" "ss_collectors s1"] s1(1) stop by (metis prod.collapse)
  have "wedged t s1"
    using valid c s(2) on_collectors_simps(3,5) [of env t "StopOnTarget exec t" s] s1(3) unfolding o
    by (simp add: stopped_in_def)
  then show "fst (Orchestrator_StopCollection env t s) \<noteq> ASTL_STATUS_SUCCESS" "wedged t (snd (Orchestrator_StopCollection env t s))"
    "state_of (snd (Orchestrator_StopCollection env t s)) = state_of s"
    using st2 stopped_in_control [OF control_simps(4) \<open>wedged t s1\<close>] controlD(3) [OF control_simps(4), of stores s1] s1(3)
    by (simp_all add: r)
qed

end

end
