(* ===== verification/Session_Properties.thy ===== *)
theory Session_Properties
  imports Session_Recovery
begin

text \<open>
  What the API promises about sessions over NUMA collectors, with a session of two targets as the
  example: the states of the targets and of the collectors, aggregate starts, and what a failure
  leaves behind.
\<close>

section \<open>A session of two targets\<close>

definition example_metric :: "nat \<Rightarrow> (nat, nat) metric_handle" where
  "example_metric t = \<lparr>mh_id = t, mh_config = \<lparr>gc_config = MetricConfig ''m'' ASTL_VALUE_UINT64 Identity ASTL_VALUE_UNKNOWN [],
     gc_collector = NUMA, gc_groups = [], gc_event = None\<rparr>, mh_metrics = [(t, t)]\<rparr>"

definition example_metrics :: "(nat, nat, nat) metric_manager" where
  "example_metrics = (MetricManager [NUMA] Map.empty)
     \<lparr>mm_metric_handles := [example_metric 2, example_metric 3], mm_target_metrics := (\<lambda>t. [t])\<rparr>"

definition example_collectors :: "(nat \<times> (CollectorType \<times> nat numa_collector) list) list" where
  "example_collectors = [(2, [(NUMA, NumaCollector [])]), (3, [(NUMA, NumaCollector [])])]"

definition example_world :: "(nat, nat, unit) session_world" where
  "example_world = \<lparr>wd_objects = Map.empty,
     wd_store = \<lparr>processed_samples = Map.empty, batch_visit = None, consumer_state = ()\<rparr>, sw_next_operation = 1\<rparr>"

definition example_session :: "(nat, nat numa_collector, nat, nat, unit) session" where
  "example_session = Orchestrator [2, 3] (CollectorManager (Numa_SetRawSampleSink True) example_collectors)
     example_metrics example_world 0 None"

definition example_configuration :: "nat set \<Rightarrow> nat \<Rightarrow> (nat, operation) collection_configuration" where
  "example_configuration broken t = \<lparr>cfg_target = t, cfg_operations = \<lparr>operationsBeforeStart = [], operationsAtStart = [],
     operationsOnSample = [], operationsAtStop = []\<rparr>,
     cfg_mode = (if t \<in> broken then MODE_INVALID 7 else MODE_IMMEDIATE), cfg_sampling_interval = 0\<rparr>"

text \<open>
  The targets in broken get a mode the collector cannot start; every command sinks a sample; the
  cache can be written or not.
\<close>

definition example_session_env :: "nat set \<Rightarrow> bool \<Rightarrow>
    (nat, nat numa_collector, (nat, operation) collection_configuration, nat, nat, unit) session_env" where
  "example_session_env broken writable =
    \<lparr>se_exec = numa_exec example_env, se_snapshot = (\<lambda>c. Inr Map.empty),
     se_metrics = \<lparr>im_receive = (\<lambda>m r w. (ASTL_STATUS_SUCCESS, w)), im_pause = (\<lambda>m t w. (ASTL_STATUS_SUCCESS, w)),
       im_reset = (\<lambda>m w. w), im_summarize = (\<lambda>m w. (ASTL_STATUS_SUCCESS, w)), im_operations = (\<lambda>m w. (Inr [1], w))\<rparr>,
     se_configuration = (\<lambda>t p ids. example_configuration broken t),
     se_create = (\<lambda>cfg t m w. (ASTL_STATUS_SUCCESS, w)), se_new_metric = 9, se_name = (\<lambda>t. ''t''),
     se_sunk = (\<lambda>t st. st\<lparr>st_raw_samples := (st_raw_samples st)
       (t \<mapsto> [\<lparr>rs_operation_id = 1, rs_value = VU64 5, rs_raw_tick = 7\<rparr>])\<rparr>),
     se_serialize = (\<lambda>t samples bytes. (if writable then ASTL_STATUS_SUCCESS else ASTL_STATUS_INTERNAL_ERROR, bytes)),
     se_cache_io = (\<lambda>t samples file. \<lparr>io_status_error = False, io_irregular = False, io_resize_fails = False, io_remove_fails = False\<rparr>),
     se_remove_fails = (\<lambda>t. False), se_now = 3, se_wall_clock = None, se_output_path = (\<lambda>ty. ''x''),
     se_write = (\<lambda>ty p. ASTL_STATUS_SUCCESS), se_rebuild = id\<rparr>"

lemma example_env_simps [simp]:
  "se_exec (example_session_env broken writable) = numa_exec example_env"
  "se_snapshot (example_session_env broken writable) = (\<lambda>c. Inr Map.empty)"
  "im_operations (se_metrics (example_session_env broken writable)) = (\<lambda>m w. (Inr [1], w))"
  "se_configuration (example_session_env broken writable) = (\<lambda>t p ids. example_configuration broken t)"
  "\<not> se_remove_fails (example_session_env broken writable) t"
  "metric_view_of (st_metrics (se_sunk (example_session_env broken writable) t st)) = metric_view_of (st_metrics st)"
  "se_serialize (example_session_env broken writable) t samples bytes
    = (if writable then ASTL_STATUS_SUCCESS else ASTL_STATUS_INTERNAL_ERROR, bytes)"
  "\<not> io_status_error (se_cache_io (example_session_env broken writable) t samples file)"
  by (simp_all add: example_session_env_def)

lemma example_env_ok: "env_ok (numa_exec example_env) (writable \<and> files) (example_session_env broken writable)"
  by (simp add: env_ok_def files_ok_def)

definition example_params :: collection_params where
  "example_params = \<lparr>cp_size = 4, cp_flags = 0, cp_sampling_interval = 0, cp_mode = MODE_IMMEDIATE\<rparr>"

definition example_configure :: "nat \<Rightarrow> nat api_call" where
  "example_configure t = CallConfigureMetrics (Some \<lparr>ap_size = 4, ap_flags = 0,
     kp_collection_params = Some example_params,
     kp_handles = Some [t], kp_target_handle = Some t\<rparr>)"

definition example_target :: "nat \<Rightarrow> nat target_params option" where
  "example_target t = Some \<lparr>ap_size = 4, ap_flags = 0, tp_target_handle = Some t\<rparr>"

abbreviation example_exec :: "nat set \<Rightarrow> bool \<Rightarrow> nat api_call \<Rightarrow> (nat, nat numa_collector, nat, nat, unit) call" where
  "example_exec broken writable \<equiv> api_exec (\<lambda>x. 4) 4 (example_session_env broken writable)"

definition example_view :: "CollectorType list \<times> (nat, nat) metric_handle list \<times> (nat \<Rightarrow> nat list)" where
  "example_view = metric_view_of example_metrics"

definition numa_in :: "CollectionLifecycleState \<Rightarrow> (nat, operation) collection_configuration option \<Rightarrow> nat numa_collector" where
  "numa_in x configuration = (NumaCollector [])\<lparr>nc_sink := True, nc_configuration := configuration, nc_state := x\<rparr>"

definition manager_with :: "nat numa_collector \<Rightarrow> nat numa_collector \<Rightarrow> nat list
    \<Rightarrow> (nat, CollectorType, nat numa_collector, nat) collector_manager" where
  "manager_with c1 c2 active = \<lparr>cm_collectors = [(2, [(NUMA, c1)]), (3, [(NUMA, c2)])], cm_active = active, cm_sinks = [0]\<rparr>"

lemma example_initial:
  "control example_session = ([(2, UNCONFIGURED), (3, UNCONFIGURED)],
     manager_with (numa_in UNCONFIGURED None) (numa_in UNCONFIGURED None) [], False, [2, 3])"
  "metric_view_of (st_metrics (ss_stores example_session)) = example_view"
  by (simp_all add: example_session_def Orchestrator_def CollectorManager_def RegisterRawSampleSink_def example_metrics_def
   Numa_SetRawSampleSink_def RegisterProcessedSampleSink_def MetricManager_def control_def manager_with_def example_collectors_def
   numa_in_def NumaCollector_def example_view_def metric_view_of_def)

lemma example_require:
  assumes "metric_view_of (fst mw) = example_view" "t \<in> {2, 3}"
  shows "\<exists>mw'. GetRequiredOperations (se_metrics (example_session_env broken writable)) [t] (Some t) mw = (Inr (Some NUMA, [1]), mw')
    \<and> metric_view_of (fst mw') = example_view"
proof -
  obtain mm w where mw: "mw = (mm, w)" by (metis surj_pair)
  have "mm_metric_handles mm = [example_metric 2, example_metric 3]" "mm_capabilities mm = [NUMA]" "mm_target_metrics mm = (\<lambda>t. [t])"
    using assms(1) by (simp_all add: mw example_view_def metric_view_of_def example_metrics_def MetricManager_def)
  then show ?thesis
    using assms(2)
    by (auto simp: GetRequiredOperations_def mw find_handle_def example_metric_def IsCollectorTypeSupported_def add_routes_def
      example_view_def metric_view_of_def example_metrics_def MetricManager_def)
qed

lemma example_api_configure:
  assumes "t \<in> set (ss_targets s)"
  shows "snd (example_exec broken writable (example_configure t) s) =
    snd (ConfigureMetricCollection (example_session_env broken writable) t
      example_params [t] s)"
  using assms
  by (simp add: example_configure_def example_params_def astlConfigureMetricCollectionOnTarget_def validate_configure_target_def
    validate_configure_def ValidateApiParams_def GetStructVersionStatus_def validate_collection_params_def
    ValidateCollectionParamsFlags_def GetTargetFromHandle_def DeduplicateMetricHandles_def case_prod_beta')

lemma example_configured:
  obtains s where "s = snd (example_exec broken writable (example_configure 2) example_session)"
    "ConfigureMetricCollection (example_session_env broken writable) 2 example_params [2] example_session = (ASTL_STATUS_SUCCESS, s)"
    "control s = ([(2, CONFIGURED), (3, UNCONFIGURED)],
      manager_with (numa_in CONFIGURED (Some (example_configuration broken 2))) (numa_in UNCONFIGURED None) [], False, [2, 3])"
    "metric_view_of (st_metrics (ss_stores s)) = example_view"
proof -
  have c: "ss_targets example_session = [2, 3]" "ss_states example_session = [(2, UNCONFIGURED), (3, UNCONFIGURED)]"
      "ss_collectors example_session = manager_with (numa_in UNCONFIGURED None) (numa_in UNCONFIGURED None) []"
      "ss_clean_configure_reset_pending example_session = False"
    using example_initial(1) by (simp_all add: control_def)
  have m: "mm_target_metrics (st_metrics (ss_stores example_session)) = (\<lambda>t. [t])"
    using example_initial(2) by (simp add: example_view_def metric_view_of_def example_metrics_def)
  have clear: "ClearConfiguredCollections (numa_exec example_env) (manager_with (numa_in UNCONFIGURED None) (numa_in UNCONFIGURED None) [])
      = (ASTL_STATUS_SUCCESS, manager_with (numa_in UNCONFIGURED None) (numa_in UNCONFIGURED None) [])"
    by (simp add: ClearConfiguredCollections_def manager_with_def numa_commands numa_in_def NumaCollector_def clear_previous_def)
  have conf: "ConfigureCollectionOnTarget (numa_exec example_env) 2 NUMA (example_configuration broken 2)
      (manager_with (numa_in UNCONFIGURED None) (numa_in UNCONFIGURED None) [])
      = (ASTL_STATUS_SUCCESS, manager_with (numa_in CONFIGURED (Some (example_configuration broken 2))) (numa_in UNCONFIGURED None) [])"
    by (simp add: ConfigureCollectionOnTarget_def SelectCollectorLocked_def manager_with_def set_collectors_def numa_commands numa_in_def
      NumaCollector_def clear_previous_def example_configuration_def Numa_ExecuteCollectionOperations_def)
  have snap: "CollectorManager_GetNativeClockSnapshot (se_snapshot (example_session_env broken writable)) 2 (manager_with c1 c2 active)
      = Inr Map.empty" for c1 c2 active
    by (simp add: CollectorManager_GetNativeClockSnapshot_def manager_with_def)
  let ?p = example_params
  let ?env = "example_session_env broken writable"
  obtain s where s: "ConfigureMetricCollection ?env 2 ?p [2] example_session = (ASTL_STATUS_SUCCESS, s)"
    "control s = (AList.update 2 CONFIGURED [(2, UNCONFIGURED), (3, UNCONFIGURED)],
        manager_with (numa_in CONFIGURED (Some (example_configuration broken 2))) (numa_in UNCONFIGURED None) [], False, ss_targets example_session)"
    "metric_view_of (st_metrics (ss_stores s)) = metric_view_of (st_metrics (ss_stores example_session))"
  proof (rule configure_reaches [of 2 example_session "[2]" "[(2, UNCONFIGURED), (3, UNCONFIGURED)]"
        "manager_with (numa_in UNCONFIGURED None) (numa_in UNCONFIGURED None) []" ?env NUMA "[1]" ?p _ Map.empty])
    show "CollectorManager_GetNativeClockSnapshot (se_snapshot ?env) 2 (manager_with (numa_in CONFIGURED
        (Some (example_configuration broken 2))) (numa_in UNCONFIGURED None) []) = Inr Map.empty" by (rule snap)
  qed (use example_require [of _ 2 broken writable] in \<open>simp_all add: c m is_running_def clear conf example_initial(2)\<close>)
  show thesis
    by (rule that [of s]) (use s example_api_configure [of 2 example_session broken writable] example_initial(2) c in simp_all)
qed

lemma start_reaches:
  assumes t: "t \<in> set (ss_targets s)" "state_of s t = Some CONFIGURED"
    and start: "StartOnTarget (se_exec env) t (ss_collectors s) = (ASTL_STATUS_SUCCESS, m)"
  obtains s' where "StartCollection env t s = (ASTL_STATUS_SUCCESS, s')"
    "control s' = (AList.update t STARTED (AList.update t STARTING (ss_states s)), m, ss_clean_configure_reset_pending s, ss_targets s)"
proof -
  define s1 where "s1 = clear_raw_samples t (set_state t STARTING s)"
  obtain st s2 where o: "on_collectors env t (StartOnTarget (se_exec env) t) s1 = (st, s2)" by fastforce
  have s1: "ss_collectors s1 = ss_collectors s" "control s1 = control (set_state t STARTING s)" by (simp_all add: s1_def)
  have c: "control s2 = (AList.update t STARTING (ss_states s), m, ss_clean_configure_reset_pending s, ss_targets s)"
      "st = ASTL_STATUS_SUCCESS"
    using control_on_collectors [of env t "StartOnTarget (se_exec env) t" s1] controlD [OF s1(2)] start
    by (simp_all add: o s1(1) set_state_def)
  have "state_of s2 t = Some STARTING" using c(1) by (simp add: control_def state_of_def update_conv')
  then have "StartCollection env t s = (ASTL_STATUS_SUCCESS, set_state t STARTED s2)"
    using t o c(2) by (simp add: StartCollection_def StartCollectionImpl_def lifecycle_table flip: s1_def)
  then show thesis
    by (rule that) (use c(1) in \<open>simp add: control_def set_state_def\<close>)
qed

lemma example_started:
  assumes "2 \<notin> broken"
  obtains s where "(session_step (numa_exec example_env) writable)\<^sup>*\<^sup>* example_session s"
    "control s = ([(2, STARTED), (3, UNCONFIGURED)],
      manager_with (numa_in STARTED (Some (example_configuration broken 2))) (numa_in UNCONFIGURED None) [2], False, [2, 3])"
proof -
  let ?env = "example_session_env broken writable"
  obtain s where s: "s = snd (example_exec broken writable (example_configure 2) example_session)"
    "control s = ([(2, CONFIGURED), (3, UNCONFIGURED)],
      manager_with (numa_in CONFIGURED (Some (example_configuration broken 2))) (numa_in UNCONFIGURED None) [], False, [2, 3])"
    by (rule example_configured [of broken writable])
  have c: "ss_targets s = [2, 3]" "ss_states s = [(2, CONFIGURED), (3, UNCONFIGURED)]" "ss_clean_configure_reset_pending s = False"
      "ss_collectors s = manager_with (numa_in CONFIGURED (Some (example_configuration broken 2))) (numa_in UNCONFIGURED None) []"
    using s(2) by (simp_all add: control_def)
  have start: "StartOnTarget (se_exec ?env) 2 (ss_collectors s)
      = (ASTL_STATUS_SUCCESS, manager_with (numa_in STARTED (Some (example_configuration broken 2))) (numa_in UNCONFIGURED None) [2])"
    using assms
    by (simp add: c(4) StartOnTarget_def on_front_def set_collectors_def manager_with_def numa_in_def NumaCollector_def numa_commands
      example_configuration_def Numa_ExecuteStartModeOperations_def Numa_ExecuteCollectionOperations_def lifecycle_table clear_previous_def)
  obtain s2 where s2: "StartCollection ?env 2 s = (ASTL_STATUS_SUCCESS, s2)"
    "control s2 = (AList.update 2 STARTED (AList.update 2 STARTING (ss_states s)),
      manager_with (numa_in STARTED (Some (example_configuration broken 2))) (numa_in UNCONFIGURED None) [2], False, ss_targets s)"
    using start_reaches [OF _ _ start] c by (auto simp: state_of_def)
  have step: "session_step (numa_exec example_env) writable r (snd (example_exec broken writable x r))" for x r
    by (rule step_call) (use example_env_ok [of writable True] in simp)
  have "snd (example_exec broken writable (CallStart (example_target 2)) s) = s2"
    using s2(1) c(1) by (simp add: astlStartCollectionOnTarget_def on_target_def ResolveTargetFromApiParams_def ValidateApiParams_def
      example_target_def GetStructVersionStatus_def GetTargetFromHandle_def)
  then have "(session_step (numa_exec example_env) writable)\<^sup>*\<^sup>* example_session s2"
    using step [of example_session "example_configure 2"] step [of s "CallStart (example_target 2)"]
    by (metis s(1) r_into_rtranclp rtranclp.rtrancl_into_rtrancl)
  then show thesis by (rule that) (simp add: s2(2) c)
qed

definition example_running :: "(nat, nat numa_collector, nat, nat, unit) session" where
  "example_running = example_session\<lparr>ss_states := [(2, STARTED), (3, UNCONFIGURED)],
     ss_collectors := manager_with (numa_in STARTED (Some (example_configuration {} 2))) (numa_in UNCONFIGURED None) [2]\<rparr>"

lemma example_running_simps:
  "ss_targets example_running = [2, 3]" "\<not> ss_clean_configure_reset_pending example_running"
  "state_of example_running 2 = Some STARTED"
  "StopOnTarget (numa_exec example_env) 2 (ss_collectors example_running)
    = (ASTL_STATUS_SUCCESS, manager_with (numa_in STOPPED (Some (example_configuration {} 2))) (numa_in UNCONFIGURED None) [])"
  by (simp_all add: example_running_def example_session_def Orchestrator_def state_of_def StopOnTarget_def on_front_def
    set_collectors_def manager_with_def numa_in_def NumaCollector_def numa_commands example_configuration_def
    Numa_ExecuteStopModeOperations_def Numa_StopIntervalSampling_def Numa_ExecuteCollectionOperations_def lifecycle_table clear_previous_def)

section \<open>Configuring\<close>

text \<open>
  C9: a target that was configured successfully is CONFIGURED and has nothing of an earlier session:
  no pending or cached raw sample, no processed sample of any metric, no recently replayed metric,
  no pause or resume time; no final output counts as emitted, and samples bypass the cache exactly
  when the parameters ask for it.  It was one of the targets, its metrics were available on it, and
  no target was starting, started or paused, unless a reset of the whole session had just been made.
\<close>

theorem configure_starts_clean:
  assumes "ConfigureMetricCollection env t params metrics s = (ASTL_STATUS_SUCCESS, s')"
    and "\<forall>c. se_snapshot env c \<noteq> Inl ASTL_STATUS_SUCCESS"
  shows "state_of s' t = Some CONFIGURED \<and> t \<in> set (ss_targets s) \<and> set metrics \<subseteq> set (mm_target_metrics (st_metrics (ss_stores s)) t)
    \<and> st_raw_samples (ss_stores s') t = None \<and> st_cache_files (ss_stores s') t = None
    \<and> (\<forall>m. st_processed (ss_stores s') (t, m) = None) \<and> recent_target (st_recent (ss_stores s')) = None
    \<and> ss_pause_timestamps s' t = None \<and> ss_resume_timestamps s' t = None
    \<and> ss_perfetto_emission_state s' = NOT_EMITTED \<and> ss_intervalcsv_emission_state s' = NOT_EMITTED
    \<and> (t \<in> st_no_cache_targets (ss_stores s') \<longleftrightarrow> cp_flags params AND ASTL_NO_CACHING \<noteq> 0)
    \<and> (ss_clean_configure_reset_pending s \<or> (\<forall>(t', x)\<in>set (ss_states s). x \<notin> {STARTING, STARTED, PAUSED}))"
proof -
  have c: "t \<in> set (ss_targets s) \<and> set metrics \<subseteq> set (mm_target_metrics (st_metrics (ss_stores s)) t)
      \<and> configure_operations env (GetRequiredOperations (se_metrics env) metrics (Some t)) t params s = (ASTL_STATUS_SUCCESS, s')"
    using assms(1) by (auto simp: ConfigureMetricCollection_def GetAvailableMetrics_def list_all_iff split: if_splits)
  then show ?thesis
    using configure_operations_success [OF _ assms(2), of "GetRequiredOperations (se_metrics env) metrics (Some t)" t params s s']
    by (auto simp: no_artifacts_def not_emitted_def Let_def is_running_def list_ex_iff)
qed

theorem configure_starts_clean_witness:
  "\<exists>s. ConfigureMetricCollection (example_session_env {} True) 2 example_params [2] example_session = (ASTL_STATUS_SUCCESS, s)
    \<and> state_of s 2 = Some CONFIGURED \<and> st_cache_files (ss_stores s) 2 = None"
proof -
  obtain s where s: "ConfigureMetricCollection (example_session_env {} True) 2 example_params [2] example_session = (ASTL_STATUS_SUCCESS, s)"
    by (rule example_configured [of "{}" True])
  then show ?thesis using configure_starts_clean [OF s] by simp
qed

section \<open>The final outputs\<close>

text \<open>The samples an output is given, rebuilt from the cache unless that was tried before.\<close>

definition final_samples :: "('t, 'c, 'cfg, 's, 'm, 'u) session_env \<Rightarrow> ('t, 'c, 's, 'm, 'u) session
    \<Rightarrow> 't \<times> 'm \<rightharpoonup> processed_sample list" where
  "final_samples env s = st_processed (ss_stores (EnsureFinalEmissionProcessedSamplesRebuilt env s))"

fun emission_state :: "OutputType \<Rightarrow> ('t, 'c, 's, 'm, 'u) session \<Rightarrow> FinalOutputEmissionState" where
  "emission_state PERFETTO s = ss_perfetto_emission_state s"
| "emission_state INTERVAL_CSV s = ss_intervalcsv_emission_state s"
| "emission_state type s = NOT_EMITTED"

fun set_emission_state :: "OutputType \<Rightarrow> FinalOutputEmissionState \<Rightarrow> ('t, 'c, 's, 'm, 'u) session \<Rightarrow> ('t, 'c, 's, 'm, 'u) session" where
  "set_emission_state PERFETTO x s = s\<lparr>ss_perfetto_emission_state := x\<rparr>"
| "set_emission_state INTERVAL_CSV x s = s\<lparr>ss_intervalcsv_emission_state := x\<rparr>"
| "set_emission_state type x s = s"

definition due :: "('t, 'c, 'cfg, 's, 'm, 'u) session_env \<Rightarrow> ('t, 'c, 's, 'm, 'u) session \<Rightarrow> OutputType \<Rightarrow> bool" where
  "due env s ty \<longleftrightarrow> emission_state ty s = NOT_EMITTED \<and> se_output_path env ty \<noteq> []"

definition emit :: "('t, 'c, 'cfg, 's, 'm, 'u) session_env \<Rightarrow> OutputType \<Rightarrow> ('t, 'c, 's, 'm, 'u) session \<Rightarrow> ('t, 'c, 's, 'm, 'u) session" where
  "emit env ty s = (if due env s ty then
     let s1 = EnsureFinalEmissionProcessedSamplesRebuilt env s; status = se_write env ty (final_samples env s) in
     set_emission_state ty (if status = ASTL_STATUS_SUCCESS then EMITTED else NOT_EMITTED)
       (s1\<lparr>ss_outputs := ss_outputs s @ [(ty, final_samples env s, status)]\<rparr>)
   else s)"

lemma emit_unfold:
  "EmitPerfettoTraceIfRequested env s = emit env PERFETTO s"
  "EmitIntervalCsvIfRequested env s = emit env INTERVAL_CSV s"
  "EmitSummaryCsvIfRequested env s = emit env SUMMARY_CSV s"
  by (auto simp: EmitPerfettoTraceIfRequested_def EmitIntervalCsvIfRequested_def EmitSummaryCsvIfRequested_def emit_def due_def
    TryBeginFinalOutputEmission_def FinishFinalOutputEmission_def output_processed_def final_samples_def Let_def
    EnsureFinalEmissionProcessedSamplesRebuilt_def on_stores_def)

lemma emit_frame:
  "final_samples env (emit env ty s) = final_samples env s"
  "emission_state ty' (emit env ty s) = (if ty' = ty \<and> ty \<in> {PERFETTO, INTERVAL_CSV} \<and> due env s ty
    then (if se_write env ty (final_samples env s) = ASTL_STATUS_SUCCESS then EMITTED else NOT_EMITTED) else emission_state ty' s)"
  "ss_outputs (emit env ty s) = ss_outputs s
    @ (if due env s ty then [(ty, final_samples env s, se_write env ty (final_samples env s))] else [])"
  by (cases ty; cases ty'; simp add: emit_def final_samples_def EnsureFinalEmissionProcessedSamplesRebuilt_def Let_def on_stores_def)+

lemma due_emit: "ty' \<noteq> ty \<Longrightarrow> due env (emit env ty s) ty' = due env s ty'"
  by (simp add: due_def emit_frame)

text \<open>
  C10: a stop gives nothing to the output manager unless it succeeds and no target is collected any
  more.  Then it gives the trace, the interval CSV and the summary CSV, in this order, each when it
  has a path and, for the first two, when it was not emitted since the last reset; all of them get
  the same samples, and an output counts as emitted exactly when it was written.
\<close>

theorem stop_emits_final_outputs:
  assumes "Orchestrator_StopCollection env t s = (status, s')"
  shows "\<exists>p. ss_outputs s' = ss_outputs s @ (if status = ASTL_STATUS_SUCCESS \<and> \<not> IsAnyTargetBeingCollected (ss_collectors s')
       then map (\<lambda>ty. (ty, p, se_write env ty p)) (filter (due env s) [PERFETTO, INTERVAL_CSV, SUMMARY_CSV]) else [])
     \<and> (\<forall>ty. emission_state ty s' = (if ty \<in> {PERFETTO, INTERVAL_CSV} \<and> status = ASTL_STATUS_SUCCESS
          \<and> \<not> IsAnyTargetBeingCollected (ss_collectors s') \<and> due env s ty \<and> se_write env ty p = ASTL_STATUS_SUCCESS
       then EMITTED else emission_state ty s))"
proof -
  obtain st s1 where o: "on_collectors env t (StopOnTarget (se_exec env) t) s = (st, s1)" by fastforce
  obtain st2 stores where f: "FlushPendingRawSamples env t (ss_stores s1) = (st2, stores)" by (metis surj_pair)
  let ?s2 = "s1\<lparr>ss_stores := stores\<rparr>"
  let ?e = "emit env SUMMARY_CSV (emit env INTERVAL_CSV (emit env PERFETTO ?s2))"
  have s1: "ss_outputs s1 = ss_outputs s" "emission_state ty s1 = emission_state ty s" for ty
    using o by (cases ty; auto simp: on_collectors_def case_prod_beta' Let_def)+
  have s2: "emission_state ty ?s2 = emission_state ty s" for ty using s1(2) [of ty] by (cases ty) simp_all
  have due: "due env ?s2 ty = due env s ty" for ty by (simp add: due_def s2)
  have e: "ss_outputs ?e = ss_outputs s @ map (\<lambda>ty. (ty, final_samples env ?s2, se_write env ty (final_samples env ?s2)))
      (filter (due env s) [PERFETTO, INTERVAL_CSV, SUMMARY_CSV])"
    by (simp add: emit_frame due_emit due s1)
  have e_state: "emission_state ty ?e = (if ty \<in> {PERFETTO, INTERVAL_CSV} \<and> due env s ty \<and> se_write env ty (final_samples env ?s2) = ASTL_STATUS_SUCCESS
      then EMITTED else emission_state ty s)" for ty
    using due [of ty] by (cases ty) (auto simp: emit_frame due_emit due s2, auto simp: due_def)
  have e_collectors: "ss_collectors ?e = ss_collectors s1" by (simp flip: emit_unfold)
  have set: "ss_outputs (set_state t x r) = ss_outputs r" "emission_state ty (set_state t x r) = emission_state ty r" for x ty r
    by (cases ty; simp add: set_state_def)+
  have r: "(if ValidateStopCollectionTarget t s \<noteq> ASTL_STATUS_SUCCESS then (ValidateStopCollectionTarget t s, s)
      else if st \<noteq> ASTL_STATUS_SUCCESS then (st, s1) else if st2 \<noteq> ASTL_STATUS_SUCCESS then (st2, ?s2)
      else (ASTL_STATUS_SUCCESS, set_state t STOPPED (if IsAnyTargetBeingCollected (ss_collectors s1) then ?s2 else ?e))) = (status, s')"
    using assms o f by (simp add: Orchestrator_StopCollection_def Let_def emit_unfold cong: if_cong)
  consider (failed) "status \<noteq> ASTL_STATUS_SUCCESS" "s' \<in> {s, s1, ?s2}"
    | (busy) "status = ASTL_STATUS_SUCCESS" "s' = set_state t STOPPED ?s2" "IsAnyTargetBeingCollected (ss_collectors s1)"
    | (final) "status = ASTL_STATUS_SUCCESS" "s' = set_state t STOPPED ?e" "\<not> IsAnyTargetBeingCollected (ss_collectors s1)"
    using r by (auto split: if_splits)
  then show ?thesis
  proof cases
    case failed
    then show ?thesis using s1 s2 by auto
  next
    case busy
    then show ?thesis by (simp add: set s1 s2)
  next
    case final
    then show ?thesis by (intro exI [of _ "final_samples env ?s2"]) (simp only: set e e_state e_collectors set_state_simps, simp)
  qed
qed

theorem stop_emits_final_outputs_witness:
  "\<exists>p s'. Orchestrator_StopCollection (example_session_env {} True) 2 example_running = (ASTL_STATUS_SUCCESS, s')
    \<and> ss_outputs s' = map (\<lambda>ty. (ty, p, ASTL_STATUS_SUCCESS)) [PERFETTO, INTERVAL_CSV, SUMMARY_CSV]"
proof -
  let ?env = "example_session_env {} True"
  obtain st s1 where o: "on_collectors ?env 2 (StopOnTarget (numa_exec example_env) 2) example_running = (st, s1)" by fastforce
  have s1: "st = ASTL_STATUS_SUCCESS" "ss_collectors s1 = manager_with (numa_in STOPPED (Some (example_configuration {} 2))) (numa_in UNCONFIGURED None) []"
    using o example_running_simps(4) by (auto simp: on_collectors_def case_prod_beta' Let_def)
  obtain st2 stores where f: "FlushPendingRawSamples ?env 2 (ss_stores s1) = (st2, stores)" by (metis surj_pair)
  have "st2 = ASTL_STATUS_SUCCESS" using files_ok_flush [of ?env 2 "ss_stores s1"] f by (simp add: files_ok_def)
  moreover have "ValidateStopCollectionTarget 2 example_running = ASTL_STATUS_SUCCESS"
    by (simp add: ValidateStopCollectionTarget_def example_running_simps lifecycle_table)
  ultimately obtain s' where r: "Orchestrator_StopCollection ?env 2 example_running = (ASTL_STATUS_SUCCESS, s')"
      "ss_collectors s' = ss_collectors s1"
    using o f s1(1) by (simp add: Orchestrator_StopCollection_def Let_def)
  have idle: "\<not> IsAnyTargetBeingCollected (ss_collectors s')" by (simp add: r(2) s1(2) manager_with_def IsAnyTargetBeingCollected_def)
  have d: "filter (due ?env example_running) [PERFETTO, INTERVAL_CSV, SUMMARY_CSV] = [PERFETTO, INTERVAL_CSV, SUMMARY_CSV]"
      "se_write ?env = (\<lambda>ty p. ASTL_STATUS_SUCCESS)" "ss_outputs example_running = []"
    by (simp_all add: due_def example_session_env_def example_running_def example_session_def Orchestrator_def)
  show ?thesis
    using stop_emits_final_outputs [OF r(1)] r(1) unfolding d by (auto simp: idle)
qed

section \<open>States and collectors agree\<close>

lemma numa_agree:
  assumes "distinct targets" "distinct (map fst collectors)" "\<forall>(t, cs)\<in>set collectors. \<forall>(k, c)\<in>set cs. \<exists>nodes. c = NumaCollector nodes"
    and "(session_step (numa_exec env) files)\<^sup>*\<^sup>*
      (Orchestrator targets (CollectorManager (Numa_SetRawSampleSink True) collectors) metrics w self clock) s"
  shows "numa_sc.agree files (control s)"
proof (rule numa_sc.agree_run [OF assms(4)])
  have "numa_sc.manager_inv (CollectorManager (Numa_SetRawSampleSink True) collectors)"
    by (rule numa_sc.manager_inv_new) (use assms(2,3) in \<open>auto 0 4 simp: running_numa NumaCollector_def Numa_SetRawSampleSink_def\<close>)
  then show "numa_sc.agree files (control (Orchestrator targets (CollectorManager (Numa_SetRawSampleSink True) collectors) metrics w self clock))"
    by (intro numa_sc.agree_new assms(1)) (simp_all add: CollectorManager_def)
qed

text \<open>
  C5: after any API calls, sampler readings and arriving samples, failing ones included, on new
  NUMA collectors: no target is left STARTING, the state of an active target is STARTED or PAUSED,
  and every target whose first collector runs is active.  When no file operation fails, the target
  is STARTED or PAUSED exactly when its first collector runs.
\<close>

theorem sessions_track_collectors:
  assumes "distinct targets" "distinct (map fst collectors)" "\<forall>(t, cs)\<in>set collectors. \<forall>(k, c)\<in>set cs. \<exists>nodes. c = NumaCollector nodes"
    and "(session_step (numa_exec env) files)\<^sup>*\<^sup>*
      (Orchestrator targets (CollectorManager (Numa_SetRawSampleSink True) collectors) metrics w self clock) s"
  shows "state_of s t \<noteq> Some STARTING
    \<and> (t \<in> set (cm_active (ss_collectors s)) \<longleftrightarrow> (\<exists>c. front (ss_collectors s) t = Some c \<and> nc_state c \<in> {STARTED, PAUSED}))
    \<and> (t \<in> set (cm_active (ss_collectors s)) \<longrightarrow> state_of s t \<in> {Some STARTED, Some PAUSED})
    \<and> (files \<longrightarrow> state_of s t \<in> {Some STARTED, Some PAUSED} \<longrightarrow> t \<in> set (cm_active (ss_collectors s)))"
proof -
  note agree = numa_sc.agreeD [OF numa_agree [OF assms]]
  have "t \<in> set (cm_active (ss_collectors s)) \<longleftrightarrow> (\<exists>c. front (ss_collectors s) t = Some c \<and> nc_state c \<in> {STARTED, PAUSED})"
    unfolding numa_sc.manager_tracks_running(1) [OF agree(1)] running_numa
    by (auto simp: front_def split: option.splits list.splits)
  then show ?thesis using agree(2,3,4) [of t] by blast
qed

lemma example_new:
  "example_session = Orchestrator [2, 3] (CollectorManager (Numa_SetRawSampleSink True) example_collectors) example_metrics example_world 0 None"
  "distinct [2 :: nat, 3]" "distinct (map fst example_collectors)"
  "\<forall>(t, cs)\<in>set example_collectors. \<forall>(k, c)\<in>set cs. \<exists>nodes. c = NumaCollector nodes"
  by (auto simp: example_session_def example_collectors_def)

theorem sessions_track_collectors_witness:
  "\<exists>s. (session_step (numa_exec example_env) True)\<^sup>*\<^sup>* example_session s \<and> state_of s 2 = Some STARTED
    \<and> (\<exists>c. front (ss_collectors s) 2 = Some c \<and> nc_state c \<in> {STARTED, PAUSED})"
proof -
  obtain s where s: "(session_step (numa_exec example_env) True)\<^sup>*\<^sup>* example_session s"
    "control s = ([(2, STARTED), (3, UNCONFIGURED)],
      manager_with (numa_in STARTED (Some (example_configuration {} 2))) (numa_in UNCONFIGURED None) [2], False, [2, 3])"
    by (rule example_started [of "{}" True]) simp
  have "state_of s 2 = Some STARTED" using s(2) by (simp add: control_def state_of_def)
  then show ?thesis
    using sessions_track_collectors [OF example_new(2-4) s(1) [unfolded example_new(1)], of 2] s(1) by auto
qed

section \<open>Aggregate starts\<close>

text \<open>
  C8: astlStartCollection and its paused form, in any session reached from new NUMA collectors by
  calls, sampler readings and arriving samples during which no file operation fails.  When the call
  succeeds, there was a configured target and each of them is STARTED (PAUSED).  Whatever its status,
  it changes the state only of targets that were CONFIGURED, and one that is not CONFIGURED again is
  STARTED or PAUSED with a collector that really runs.
\<close>

theorem aggregate_start_outcome:
  assumes "distinct targets" "distinct (map fst collectors)" "\<forall>(t, cs)\<in>set collectors. \<forall>(k, c)\<in>set cs. \<exists>nodes. c = NumaCollector nodes"
    and "(session_step (numa_exec env) True)\<^sup>*\<^sup>*
      (Orchestrator targets (CollectorManager (Numa_SetRawSampleSink True) collectors) metrics w self clock) s"
    and "env_ok (numa_exec env) True se" "StartConfiguredTargets se paused s = (status, s')"
  shows "(status = ASTL_STATUS_SUCCESS \<longrightarrow> GetConfiguredTargets s \<noteq> []
        \<and> (\<forall>t\<in>set (GetConfiguredTargets s). state_of s' t = Some (if paused then PAUSED else STARTED)))
    \<and> (\<forall>t. state_of s' t = state_of s t
        \<or> state_of s t = Some CONFIGURED \<and> state_of s' t \<in> {Some STARTED, Some PAUSED}
          \<and> (\<exists>c. front (ss_collectors s') t = Some c \<and> nc_state c \<in> {STARTED, PAUSED}))"
proof -
  have a: "numa_sc.agree True (control s)" by (rule numa_agree [OF assms(1-4)])
  have keep: "kept_by_operations (\<lambda>s. numa_sc.agree True (control s)) se"
    by (rule numa_sc.agree_kept) (use assms(5) in \<open>simp_all add: env_ok_def\<close>)
  have a': "numa_sc.agree True (control s')"
    using kept_start_targets [OF kept_by_operationsD(1) [OF keep] a, of paused "GetConfiguredTargets s" "[]"] a assms(6)
    by (auto simp: StartConfiguredTargets_def Let_def split: if_splits)
  have active: "t \<in> set (cm_active (ss_collectors s')) \<longleftrightarrow> (\<exists>c. front (ss_collectors s') t = Some c \<and> nc_state c \<in> {STARTED, PAUSED})" for t
    unfolding numa_sc.manager_tracks_running(1) [OF numa_sc.agreeD(1) [OF a']] running_numa
    by (auto simp: front_def split: option.splits list.splits)
  note outcome = start_all_outcome [OF assms(6) numa_sc.agree_distinct(2) [OF a]]
  have "state_of s' t = state_of s t \<or> state_of s t = Some CONFIGURED \<and> state_of s' t \<in> {Some STARTED, Some PAUSED}
      \<and> t \<in> set (cm_active (ss_collectors s'))" for t
    using outcome(2) numa_sc.agreeD(3) [OF a', of t]
    by (cases "t \<in> set (GetConfiguredTargets s)") (auto simp: only_starts_def GetConfiguredTargets_def dest: spec [of _ t])
  then show ?thesis using outcome(1) active by blast
qed

lemma example_both_configured:
  obtains s where "(session_step (numa_exec example_env) writable)\<^sup>*\<^sup>* example_session s"
    "control s = ([(2, CONFIGURED), (3, CONFIGURED)],
      manager_with (numa_in CONFIGURED (Some (example_configuration broken 2))) (numa_in CONFIGURED (Some (example_configuration broken 3)))
        [], False, [2, 3])"
proof -
  let ?env = "example_session_env broken writable" and ?c2 = "numa_in CONFIGURED (Some (example_configuration broken 2))"
  obtain s where s: "s = snd (example_exec broken writable (example_configure 2) example_session)"
    "control s = ([(2, CONFIGURED), (3, UNCONFIGURED)], manager_with ?c2 (numa_in UNCONFIGURED None) [], False, [2, 3])"
    "metric_view_of (st_metrics (ss_stores s)) = example_view"
    by (rule example_configured [of broken writable])
  have c: "ss_targets s = [2, 3]" "ss_states s = [(2, CONFIGURED), (3, UNCONFIGURED)]"
      "ss_collectors s = manager_with ?c2 (numa_in UNCONFIGURED None) []" "ss_clean_configure_reset_pending s = False"
    using s(2) by (simp_all add: control_def)
  have m: "mm_target_metrics (st_metrics (ss_stores s)) = (\<lambda>t. [t])"
    using s(3) by (simp add: example_view_def metric_view_of_def example_metrics_def)
  have conf: "ConfigureCollectionOnTarget (numa_exec example_env) 3 NUMA (example_configuration broken 3)
      (manager_with ?c2 (numa_in UNCONFIGURED None) [])
      = (ASTL_STATUS_SUCCESS, manager_with ?c2 (numa_in CONFIGURED (Some (example_configuration broken 3))) [])"
    by (simp add: ConfigureCollectionOnTarget_def SelectCollectorLocked_def manager_with_def set_collectors_def numa_commands numa_in_def
      NumaCollector_def clear_previous_def example_configuration_def Numa_ExecuteCollectionOperations_def)
  obtain s2 where s2: "ConfigureMetricCollection ?env 3 example_params [3] s = (ASTL_STATUS_SUCCESS, s2)"
    "control s2 = (AList.update 3 CONFIGURED [(2, CONFIGURED), (3, UNCONFIGURED)],
        manager_with ?c2 (numa_in CONFIGURED (Some (example_configuration broken 3))) [], False, ss_targets s)"
  proof (rule configure_reaches [of 3 s "[3]" "[(2, CONFIGURED), (3, UNCONFIGURED)]"
        "manager_with ?c2 (numa_in UNCONFIGURED None) []" ?env NUMA "[1]" example_params _ Map.empty])
    show "CollectorManager_GetNativeClockSnapshot (se_snapshot ?env) 3
        (manager_with ?c2 (numa_in CONFIGURED (Some (example_configuration broken 3))) []) = Inr Map.empty"
      by (simp add: CollectorManager_GetNativeClockSnapshot_def manager_with_def)
  qed (use example_require [of _ 3 broken writable] in \<open>simp_all add: c m is_running_def conf s(3)\<close>)
  have step: "session_step (numa_exec example_env) writable r (snd (example_exec broken writable x r))" for x r
    by (rule step_call) (use example_env_ok [of writable True] in simp)
  have "snd (example_exec broken writable (example_configure 3) s) = s2"
    using example_api_configure [of 3 s broken writable] s2(1) c(1) by simp
  then have "(session_step (numa_exec example_env) writable)\<^sup>*\<^sup>* example_session s2"
    using step [of example_session "example_configure 2"] step [of s "example_configure 3"]
    by (metis s(1) r_into_rtranclp rtranclp.rtrancl_into_rtrancl)
  then show thesis by (rule that) (simp add: s2(2) c)
qed

text \<open>The second target has a mode its collector refuses to start.\<close>

theorem aggregate_start_outcome_witness:
  "\<exists>s s' status. GetConfiguredTargets s = [2, 3] \<and> StartConfiguredTargets (example_session_env {3} True) False s = (status, s')
    \<and> (\<forall>t. state_of s' t = state_of s t
        \<or> state_of s t = Some CONFIGURED \<and> state_of s' t \<in> {Some STARTED, Some PAUSED}
          \<and> (\<exists>c. front (ss_collectors s') t = Some c \<and> nc_state c \<in> {STARTED, PAUSED}))"
proof -
  obtain s where s: "(session_step (numa_exec example_env) True)\<^sup>*\<^sup>* example_session s"
    "control s = ([(2, CONFIGURED), (3, CONFIGURED)],
      manager_with (numa_in CONFIGURED (Some (example_configuration {3} 2))) (numa_in CONFIGURED (Some (example_configuration {3} 3)))
        [], False, [2, 3])"
    by (rule example_both_configured)
  obtain st s' where r: "StartConfiguredTargets (example_session_env {3} True) False s = (st, s')" by fastforce
  have ok: "env_ok (numa_exec example_env) True (example_session_env {3} True)" using example_env_ok [of True True "{3}"] by simp
  have "GetConfiguredTargets s = [2, 3]" using s(2) by (simp add: GetConfiguredTargets_def control_def state_of_def)
  moreover note aggregate_start_outcome [OF example_new(2-4) s(1) [unfolded example_new(1)] ok r]
  ultimately show ?thesis using r by blast
qed

section \<open>A target that was taken back\<close>

text \<open>
  C7: a target on a NUMA collector was taken back from a start, as the rollback of an aggregate start
  does, with no reset pending in the session.  Whatever API calls, sampler readings and arriving
  samples follow, with any files and clocks, so long as no call configures: the target is CONFIGURED
  and its collector STOPPED, starting the target, paused or not, returns
  ASTL_STATUS_INVALID_STATE_TRANSITION, and every start of all configured targets fails.
\<close>

theorem rolled_back_target_cannot_start:
  assumes "RollbackStartedCollectionToConfigured env (Some t) s = (ASTL_STATUS_SUCCESS, s')" "se_exec env = numa_exec e"
    and "t \<in> set (ss_targets s)" "\<not> ss_clean_configure_reset_pending s"
    and "(unconfigured_step (numa_exec e) files)\<^sup>*\<^sup>* s' s''" "se_exec env' = numa_exec e"
  shows "t \<in> set (GetConfiguredTargets s'')
    \<and> (\<exists>c. front (ss_collectors s'') t = Some c \<and> nc_state c = STOPPED)
    \<and> fst (StartCollection env' t s'') = ASTL_STATUS_INVALID_STATE_TRANSITION
    \<and> fst (StartCollectionPaused env' t s'') = ASTL_STATUS_INVALID_STATE_TRANSITION
    \<and> fst (StartConfiguredTargets env' paused s'') \<noteq> ASTL_STATUS_SUCCESS"
proof -
  have "numa_sc.stopped_in {CONFIGURED} t s'" by (rule numa_sc.rollback_stopped_in [OF assms(1-4)])
  then have w: "numa_sc.stopped_in {CONFIGURED} t s''" by (rule numa_sc.stopped_in_run [OF assms(5)])
  show ?thesis
    using w numa_sc.stopped_in_start_all(1) [OF w assms(6)] numa_sc.stopped_in_start_all(2) [OF w assms(6)]
      numa_sc.stopped_in_start_refused(1) [OF w assms(6)]
    by (auto simp: StartCollection_def StartCollectionPaused_def numa_sc.stopped_in_def)
qed

theorem rolled_back_target_cannot_start_witness:
  "\<exists>s'. RollbackStartedCollectionToConfigured (example_session_env {} True) (Some 2) example_running = (ASTL_STATUS_SUCCESS, s')
    \<and> 2 \<in> set (GetConfiguredTargets s')
    \<and> fst (StartCollection (example_session_env {} True) 2 s') = ASTL_STATUS_INVALID_STATE_TRANSITION"
proof -
  let ?env = "example_session_env {} True"
  obtain st s1 where o: "on_collectors ?env 2 (StopOnTarget (numa_exec example_env) 2) example_running = (st, s1)" by fastforce
  have st: "st = ASTL_STATUS_SUCCESS"
    using o example_running_simps(4) by (auto simp: on_collectors_def case_prod_beta' Let_def)
  obtain st2 s2 where a: "ResetTargetCollectionArtifacts ?env (Some 2) s1 = (st2, s2)" by fastforce
  have "st2 = ASTL_STATUS_SUCCESS" using artifacts_status [of ?env 2 s1] a by simp
  then have r: "RollbackStartedCollectionToConfigured ?env (Some 2) example_running
      = (ASTL_STATUS_SUCCESS, set_state 2 CONFIGURED (ResetFinalOutputEmissionState s2))"
    using o a st by (simp add: RollbackStartedCollectionToConfigured_def)
  show ?thesis
    using rolled_back_target_cannot_start [OF r, of example_env True _ ?env, OF _ _ _ rtranclp.rtrancl_refl] r example_running_simps(1,2)
    by auto
qed

section \<open>A stop that could not write its samples\<close>

text \<open>
  C6: a session over NUMA collectors without a pending reset.  When the collector of a target that
  may be stopped has stopped but its pending samples cannot be written to the cache, StopCollection
  returns the error and leaves the target STARTED or PAUSED.  From then on, whatever calls follow: the
  target stays so, its collector stays STOPPED, starting, pausing, resuming and stopping it fails, and
  no target of the session can be configured any more.
\<close>

theorem failed_flush_wedges_session:
  assumes "se_exec env = numa_exec e" "ValidateStopCollectionTarget t s = ASTL_STATUS_SUCCESS" "\<not> ss_clean_configure_reset_pending s"
    and "fst (StopOnTarget (numa_exec e) t (ss_collectors s)) = ASTL_STATUS_SUCCESS"
    and "fst (FlushPendingRawSamples env t (se_sunk env t (ss_stores s))) \<noteq> ASTL_STATUS_SUCCESS"
    and "(session_step (numa_exec e) files)\<^sup>*\<^sup>* (snd (Orchestrator_StopCollection env t s)) s'" "se_exec env' = numa_exec e"
  shows "fst (Orchestrator_StopCollection env t s) \<noteq> ASTL_STATUS_SUCCESS
    \<and> state_of s' t \<in> {Some STARTED, Some PAUSED} \<and> (\<exists>c. front (ss_collectors s') t = Some c \<and> nc_state c = STOPPED)
    \<and> fst (ConfigureMetricCollection env' u params metrics s') \<noteq> ASTL_STATUS_SUCCESS
    \<and> fst (ConfigureCounterCollection env' u params counters s') \<noteq> ASTL_STATUS_SUCCESS
    \<and> fst (ResetCollectionStateForCleanConfigure env' s') \<noteq> ASTL_STATUS_SUCCESS
    \<and> fst (StartCollectionImpl env' t paused s') \<noteq> ASTL_STATUS_SUCCESS
    \<and> fst (Orchestrator_PauseCollection env' t s') \<noteq> ASTL_STATUS_SUCCESS
    \<and> fst (Orchestrator_ResumeCollection env' t s') \<noteq> ASTL_STATUS_SUCCESS
    \<and> fst (Orchestrator_StopCollection env' t s') \<noteq> ASTL_STATUS_SUCCESS"
proof -
  note stop = numa_sc.flush_wedges [OF assms(4,5,1,2,3)]
  have w: "numa_sc.wedged t s'" by (rule numa_sc.wedged_run [OF assms(6) stop(2)])
  note fails = numa_sc.wedged_configure(2,4) [OF w, where env = env'] numa_sc.wedged_start(2) [OF w assms(7) refl]
    numa_sc.stopped_in_pause_resume(3,4) [OF w assms(7) refl] numa_sc.stopped_in_stop(2) [OF w assms(7) refl]
  have "fst (ResetCollectionStateForCleanConfigure env' s') \<noteq> ASTL_STATUS_SUCCESS"
    using numa_sc.wedged_running [OF w] by (simp add: ResetCollectionStateForCleanConfigure_def)
  then show ?thesis using stop(1) fails w by (auto simp: numa_sc.stopped_in_def)
qed

theorem failed_flush_wedges_session_witness:
  "\<exists>s'. s' = snd (Orchestrator_StopCollection (example_session_env {} False) 2 example_running)
    \<and> state_of s' 2 \<in> {Some STARTED, Some PAUSED}
    \<and> fst (ConfigureMetricCollection (example_session_env {} False) 3 example_params [3] s') \<noteq> ASTL_STATUS_SUCCESS"
proof -
  let ?env = "example_session_env {} False"
  have "ValidateStopCollectionTarget 2 example_running = ASTL_STATUS_SUCCESS"
    by (simp add: ValidateStopCollectionTarget_def example_running_simps lifecycle_table)
  moreover have "fst (FlushPendingRawSamples ?env 2 (se_sunk ?env 2 (ss_stores example_running))) \<noteq> ASTL_STATUS_SUCCESS"
    using SerializeBatchWithRollback_status
      [of "se_serialize ?env 2" "se_cache_io ?env 2" "[\<lparr>rs_operation_id = 1, rs_value = VU64 5, rs_raw_tick = 7\<rparr>]"]
    by (auto simp: FlushPendingRawSamples_def example_session_env_def Let_def split: prod.split) (metis fst_conv astl_status.distinct)
  ultimately show ?thesis
    using failed_flush_wedges_session [of ?env example_env 2 example_running True _ ?env, OF _ _ _ _ _ rtranclp.rtrancl_refl]
      example_running_simps by simp
qed

end
