(* ===== verification/Crop_Windows.thy ===== *)
theory Crop_Windows
  imports Sample_Batches Metric_Dispatch
begin

text \<open>
  Cropping in src/impl/orchestrator/orchestrator.cpp: the windows of time a caller wants to keep,
  how they are consolidated, and what they do to processed samples, to raw samples and to the file
  of a target's raw sample cache.  std::sort is an argument that sorts by the comparator, and the
  protobuf reader and writer of the cache are arguments too.
\<close>

section \<open>Windows\<close>

record crop_window =
  cw_size :: nat
  cw_flags :: "32 word"
  cw_start_ts :: "64 word"
  cw_end_ts :: "64 word"

definition WindowEndPrecedesStart :: "64 word \<Rightarrow> 64 word \<Rightarrow> bool" where
  "WindowEndPrecedesStart end_ts start_ts \<longleftrightarrow> end_ts \<noteq> 0 \<and> start_ts \<noteq> 0 \<and> end_ts < start_ts"

definition MaxWindowEnd :: "64 word \<Rightarrow> 64 word \<Rightarrow> 64 word" where
  "MaxWindowEnd lhs rhs = (if lhs = 0 \<or> rhs = 0 then 0 else max lhs rhs)"

definition window_less :: "crop_window \<Rightarrow> crop_window \<Rightarrow> bool" where
  "window_less lhs rhs =
    (if cw_start_ts lhs = cw_start_ts rhs then
       (if cw_end_ts lhs = 0 then False else if cw_end_ts rhs = 0 then True else cw_end_ts lhs < cw_end_ts rhs)
     else if cw_start_ts lhs = 0 then True
     else if cw_start_ts rhs = 0 then False
     else cw_start_ts lhs < cw_start_ts rhs)"

fun merge_windows :: "crop_window \<Rightarrow> crop_window list \<Rightarrow> crop_window list" where
  "merge_windows w [] = [w]"
| "merge_windows w (r # rs) =
    (if \<not> WindowEndPrecedesStart (cw_end_ts w) (cw_start_ts r)
     then merge_windows (w\<lparr>cw_end_ts := MaxWindowEnd (cw_end_ts w) (cw_end_ts r)\<rparr>) rs
     else w # merge_windows r rs)"

definition ConsolidateCropWindows :: "(crop_window list \<Rightarrow> crop_window list) \<Rightarrow> crop_window list \<Rightarrow> crop_window list" where
  "ConsolidateCropWindows sorter windows =
    (if windows = [] then []
     else case sorter windows of [] \<Rightarrow> [] | w # ws \<Rightarrow> merge_windows w ws)"

definition in_window :: "64 word \<Rightarrow> crop_window \<Rightarrow> bool" where
  "in_window ts_ns w \<longleftrightarrow> (cw_start_ts w = 0 \<or> ts_ns \<ge> cw_start_ts w) \<and> (cw_end_ts w = 0 \<or> ts_ns \<le> cw_end_ts w)"

definition IsTimestampWithinWindows :: "64 word \<Rightarrow> crop_window list \<Rightarrow> bool" where
  "IsTimestampWithinWindows ts_ns windows \<longleftrightarrow> list_ex (in_window ts_ns) windows"

section \<open>What a window keeps\<close>

definition FilterProcessedSamples :: "crop_window list \<Rightarrow> processed_sample list \<Rightarrow> processed_sample list" where
  "FilterProcessedSamples windows samples =
    filter (\<lambda>p. IsTimestampWithinWindows (word_of_int (ps_timestamp p)) windows) samples"

text \<open>A sample without a clock correlation is kept; a marker holds nanoseconds already.\<close>

definition keeps_raw :: "clock_correlation_map \<Rightarrow> crop_window list \<Rightarrow> raw_sample \<Rightarrow> bool" where
  "keeps_raw correlations windows s =
    (if IsPauseResumeMarkerOperationId (rs_operation_id s) then IsTimestampWithinWindows (rs_raw_tick s) windows
     else case correlations (rs_operation_id s) of
         None \<Rightarrow> True
       | Some c \<Rightarrow> IsTimestampWithinWindows (word_of_int (NormalizeToCorrelatedRawTimestamp (rs_raw_tick s) c)) windows)"

definition FilterRawSamples :: "clock_correlation_map \<Rightarrow> crop_window list \<Rightarrow> raw_sample list \<Rightarrow> raw_sample list" where
  "FilterRawSamples correlations windows = filter (keeps_raw correlations windows)"

section \<open>The file of the raw sample cache\<close>

text \<open>
  ReadNext of RawSampleBatchReader on the rest of a stream: an error, or a batch, empty at the end,
  and what is left.
\<close>

type_synonym batch_reader = "char list \<Rightarrow> raw_sample list result \<times> char list"

text \<open>
  The temporary file of a crop starts absent; None for it means that it was never opened.  A loop
  over a stream that never ends is None.
\<close>

definition WriteFilteredRawSampleBatch :: "serializer \<Rightarrow> bool \<Rightarrow> raw_sample list \<Rightarrow> cache_file \<Rightarrow> astl_status \<times> cache_file" where
  "WriteFilteredRawSampleBatch serialize create_fails raws temp =
    (if temp = None \<and> create_fails then (ASTL_STATUS_INTERNAL_ERROR, temp)
     else let (status, bytes) = serialize raws (case temp of None \<Rightarrow> [] | Some b \<Rightarrow> b) in (status, Some bytes))"

partial_function (option) WriteFilteredRawSampleBatches :: "batch_reader \<Rightarrow> serializer \<Rightarrow> bool \<Rightarrow> clock_correlation_map
    \<Rightarrow> crop_window list \<Rightarrow> char list \<Rightarrow> cache_file \<Rightarrow> (unit result \<times> cache_file) option" where
  "WriteFilteredRawSampleBatches read serialize create_fails correlations windows stream temp =
    (case read stream of
       (Inl e, _) \<Rightarrow> Some (Inl e, temp)
     | (Inr batch, rest) \<Rightarrow>
        (if batch = [] then Some (Inr (), temp)
         else let raws = FilterRawSamples correlations windows batch in
           if raws = [] then WriteFilteredRawSampleBatches read serialize create_fails correlations windows rest temp
           else let (status, temp') = WriteFilteredRawSampleBatch serialize create_fails raws temp in
             if status \<noteq> ASTL_STATUS_SUCCESS then Some (Inl status, temp')
             else WriteFilteredRawSampleBatches read serialize create_fails correlations windows rest temp'))"

text \<open>What the file system refuses while a cache file is filtered.\<close>

record crop_io =
  ci_open_fails :: bool
  ci_stale_fails :: bool
  ci_create_fails :: bool
  ci_remove_fails :: bool
  ci_rename_fails :: bool

text \<open>
  The cache file is removed before the temporary file gets its name; when the renaming fails, the
  temporary file is removed as well.
\<close>

definition ReplaceRawSampleCacheFile :: "crop_io \<Rightarrow> cache_file \<Rightarrow> cache_file \<Rightarrow> astl_status \<times> cache_file" where
  "ReplaceRawSampleCacheFile io file temp =
    (if ci_remove_fails io then (ASTL_STATUS_INTERNAL_ERROR, file)
     else if ci_rename_fails io then (ASTL_STATUS_INTERNAL_ERROR, None)
     else (ASTL_STATUS_SUCCESS, temp))"

definition FilterRawSampleCacheFile :: "batch_reader \<Rightarrow> serializer \<Rightarrow> crop_io \<Rightarrow> clock_correlation_map \<Rightarrow> crop_window list
    \<Rightarrow> cache_file \<Rightarrow> (astl_status \<times> cache_file) option" where
  "FilterRawSampleCacheFile read serialize io correlations windows file =
    (case file of
       None \<Rightarrow> Some (ASTL_STATUS_SUCCESS, None)
     | Some bytes \<Rightarrow>
         if ci_open_fails io then Some (ASTL_STATUS_INTERNAL_ERROR, file)
         else if ci_stale_fails io then Some (ASTL_STATUS_INTERNAL_ERROR, file)
         else
           (case WriteFilteredRawSampleBatches read serialize (ci_create_fails io) correlations windows bytes None of
              None \<Rightarrow> None
            | Some (Inl e, temp) \<Rightarrow> Some (e, file)
            | Some (Inr _, None) \<Rightarrow>
                Some (if ci_remove_fails io then (ASTL_STATUS_INTERNAL_ERROR, file) else (ASTL_STATUS_SUCCESS, None))
            | Some (Inr _, temp) \<Rightarrow> Some (ReplaceRawSampleCacheFile io file temp)))"

section \<open>Consolidation keeps the same times\<close>

lemma in_window_eq: "in_window ts w \<longleftrightarrow> cw_start_ts w \<le> ts \<and> (cw_end_ts w = 0 \<or> ts \<le> cw_end_ts w)"
  by (auto simp: in_window_def)

lemma in_window_merged:
  assumes "cw_start_ts w \<le> cw_start_ts r" "\<not> WindowEndPrecedesStart (cw_end_ts w) (cw_start_ts r)"
  shows "in_window ts (w\<lparr>cw_end_ts := MaxWindowEnd (cw_end_ts w) (cw_end_ts r)\<rparr>) \<longleftrightarrow> in_window ts w \<or> in_window ts r"
proof -
  have "cw_end_ts w = 0 \<or> cw_start_ts r \<le> cw_end_ts w"
    using assms(2) by (auto simp: WindowEndPrecedesStart_def)
  then show ?thesis
    using assms(1) by (auto simp: in_window_eq MaxWindowEnd_def max_def split: if_splits)
qed

lemma merge_windows_times:
  "sorted_wrt (\<lambda>a b. cw_start_ts a \<le> cw_start_ts b) (w # ws) \<Longrightarrow>
    list_ex (in_window ts) (merge_windows w ws) \<longleftrightarrow> list_ex (in_window ts) (w # ws)"
proof (induction ws arbitrary: w)
  case (Cons r rs)
  show ?case
  proof (cases "WindowEndPrecedesStart (cw_end_ts w) (cw_start_ts r)")
    case True
    then show ?thesis using Cons.IH [of r] Cons.prems by simp
  next
    case False
    then have "list_ex (in_window ts) (merge_windows w (r # rs))
        \<longleftrightarrow> list_ex (in_window ts) (w\<lparr>cw_end_ts := MaxWindowEnd (cw_end_ts w) (cw_end_ts r)\<rparr> # rs)"
      using Cons.IH [of "w\<lparr>cw_end_ts := MaxWindowEnd (cw_end_ts w) (cw_end_ts r)\<rparr>"] Cons.prems by simp
    then show ?thesis using in_window_merged [OF _ False] Cons.prems by auto
  qed
qed simp

definition valid_window :: "crop_window \<Rightarrow> bool" where
  "valid_window w \<longleftrightarrow> cw_start_ts w = 0 \<or> cw_end_ts w = 0 \<or> cw_start_ts w \<le> cw_end_ts w"

definition ends_before :: "crop_window \<Rightarrow> crop_window \<Rightarrow> bool" where
  "ends_before a b \<longleftrightarrow> cw_end_ts a \<noteq> 0 \<and> cw_end_ts a < cw_start_ts b"

lemma merge_windows_head: "\<exists>e ws'. merge_windows w ws = w\<lparr>cw_end_ts := e\<rparr> # ws'"
proof (induction ws arbitrary: w)
  case Nil
  then show ?case by (intro exI [of _ "cw_end_ts w"]) simp
next
  case (Cons r rs)
  show ?case
  proof (cases "WindowEndPrecedesStart (cw_end_ts w) (cw_start_ts r)")
    case True
    then show ?thesis by (intro exI [of _ "cw_end_ts w"]) simp
  next
    case False
    then show ?thesis using Cons.IH [of "w\<lparr>cw_end_ts := MaxWindowEnd (cw_end_ts w) (cw_end_ts r)\<rparr>"] by auto
  qed
qed

lemma merge_windows_separate:
  "list_all valid_window (w # ws) \<Longrightarrow> sorted_wrt ends_before (merge_windows w ws) \<and> list_all valid_window (merge_windows w ws)"
proof (induction ws arbitrary: w)
  case (Cons r rs)
  show ?case
  proof (cases "WindowEndPrecedesStart (cw_end_ts w) (cw_start_ts r)")
    case True
    note IH = Cons.IH [of r]
    obtain e ws' where m: "merge_windows r rs = r\<lparr>cw_end_ts := e\<rparr> # ws'" using merge_windows_head by blast
    have "ends_before w b" if "b \<in> set (merge_windows r rs)" for b
    proof -
      have first: "cw_end_ts w \<noteq> 0" "cw_end_ts w < cw_start_ts r" using True by (auto simp: WindowEndPrecedesStart_def)
      show ?thesis
      proof (cases "b = r\<lparr>cw_end_ts := e\<rparr>")
        case True
        then show ?thesis using first by (simp add: ends_before_def)
      next
        case False
        then have "ends_before (r\<lparr>cw_end_ts := e\<rparr>) b" "valid_window (r\<lparr>cw_end_ts := e\<rparr>)"
          using IH Cons.prems that by (auto simp: m)
        then show ?thesis using first by (auto simp: ends_before_def valid_window_def)
      qed
    qed
    then show ?thesis using True IH Cons.prems by auto
  next
    case False
    have "valid_window (w\<lparr>cw_end_ts := MaxWindowEnd (cw_end_ts w) (cw_end_ts r)\<rparr>)"
      using Cons.prems by (auto simp: valid_window_def MaxWindowEnd_def max_def)
    then show ?thesis using Cons.IH [of "w\<lparr>cw_end_ts := MaxWindowEnd (cw_end_ts w) (cw_end_ts r)\<rparr>"] Cons.prems False by simp
  qed
qed simp

lemma sorted_starts:
  assumes "std_sort window_less sorter"
  shows "sorted_wrt (\<lambda>a b. cw_start_ts a \<le> cw_start_ts b) (sorter ws)" "set (sorter ws) = set ws"
proof -
  have "sorted_wrt (\<lambda>a b. \<not> window_less b a) (sorter ws)" using assms by (simp add: std_sort_def)
  then show "sorted_wrt (\<lambda>a b. cw_start_ts a \<le> cw_start_ts b) (sorter ws)"
    by (rule sorted_wrt_mono_rel [rotated]) (auto simp: window_less_def split: if_splits)
  show "set (sorter ws) = set ws" using assms by (metis std_sort_def mset_eq_setD)
qed

lemma consolidate_windows:
  assumes "std_sort window_less sorter" "windows \<noteq> []"
  obtains w ws where "ConsolidateCropWindows sorter windows = merge_windows w ws" "set (w # ws) = set windows"
    "sorted_wrt (\<lambda>a b. cw_start_ts a \<le> cw_start_ts b) (w # ws)"
proof (cases "sorter windows")
  case Nil
  then show ?thesis using sorted_starts(2) [OF assms(1), of windows] assms(2) by simp
next
  case (Cons w ws)
  show ?thesis using sorted_starts [OF assms(1), of windows] that [of w ws] assms(2) by (simp add: ConsolidateCropWindows_def Cons)
qed

lemma consolidate_times:
  assumes "std_sort window_less sorter"
  shows "IsTimestampWithinWindows ts (ConsolidateCropWindows sorter windows) = IsTimestampWithinWindows ts windows"
proof (cases "windows = []")
  case False
  obtain w ws where c: "ConsolidateCropWindows sorter windows = merge_windows w ws" "set (w # ws) = set windows"
    "sorted_wrt (\<lambda>a b. cw_start_ts a \<le> cw_start_ts b) (w # ws)"
    using consolidate_windows [OF assms False] .
  have "list_ex (in_window ts) (merge_windows w ws) = list_ex (in_window ts) windows"
    using merge_windows_times [OF c(3), of ts] unfolding list_ex_iff c(2) .
  then show ?thesis by (simp add: c(1) IsTimestampWithinWindows_def)
qed (simp add: ConsolidateCropWindows_def)

text \<open>
  C13: consolidation keeps exactly the times that the given windows keep, whatever windows are
  given and in whatever order; and when no window ends before it starts, every window it returns
  lies wholly before the next, so that a time is in at most one of them.
\<close>

theorem crop_windows_consolidated:
  assumes "std_sort window_less sorter"
  shows "IsTimestampWithinWindows ts (ConsolidateCropWindows sorter windows) = IsTimestampWithinWindows ts windows
    \<and> (list_all valid_window windows \<longrightarrow>
        sorted_wrt (\<lambda>a b. cw_end_ts a \<noteq> 0 \<and> cw_end_ts a < cw_start_ts b) (ConsolidateCropWindows sorter windows)
        \<and> list_all valid_window (ConsolidateCropWindows sorter windows))"
proof (cases "windows = []")
  case False
  obtain w ws where c: "ConsolidateCropWindows sorter windows = merge_windows w ws" "set (w # ws) = set windows"
    using consolidate_windows [OF assms False] by metis
  have "list_all valid_window windows \<Longrightarrow> list_all valid_window (w # ws)" using c(2) unfolding list_all_iff by simp
  then show ?thesis
    using merge_windows_separate [of w ws] consolidate_times [OF assms, of ts windows]
    unfolding c(1) ends_before_def [abs_def] by blast
qed (simp add: ConsolidateCropWindows_def)

fun insert_window :: "crop_window \<Rightarrow> crop_window list \<Rightarrow> crop_window list" where
  "insert_window w [] = [w]"
| "insert_window w (x # xs) = (if window_less x w then x # insert_window w xs else w # x # xs)"

definition sort_windows :: "crop_window list \<Rightarrow> crop_window list" where
  "sort_windows ws = foldr insert_window ws []"

lemma window_less_trans: "\<not> window_less b a \<Longrightarrow> \<not> window_less c b \<Longrightarrow> \<not> window_less c a"
  by (auto simp: window_less_def split: if_splits)

lemma set_insert_window: "mset (insert_window w xs) = add_mset w (mset xs)"
  by (induction xs) auto

lemma sorted_insert_window:
  "sorted_wrt (\<lambda>a b. \<not> window_less b a) xs \<Longrightarrow> sorted_wrt (\<lambda>a b. \<not> window_less b a) (insert_window w xs)"
proof (induction xs)
  case (Cons x xs)
  have "\<not> window_less w x" if "window_less x w" using that by (auto simp: window_less_def split: if_splits)
  moreover have "set (insert_window w xs) = insert w (set xs)" using set_insert_window [of w xs] by (metis set_mset_add_mset_insert set_mset_mset)
  ultimately show ?case using Cons window_less_trans [of x w] by auto
qed simp

lemma std_sort_windows: "std_sort window_less sort_windows"
proof -
  have "mset (sort_windows xs) = mset xs \<and> sorted_wrt (\<lambda>a b. \<not> window_less b a) (sort_windows xs)" for xs
    by (induction xs) (simp_all add: sort_windows_def set_insert_window sorted_insert_window)
  then show ?thesis by (simp add: std_sort_def)
qed

theorem crop_windows_consolidated_witness:
  "ConsolidateCropWindows sort_windows
     [\<lparr>cw_size = 32, cw_flags = 0, cw_start_ts = 20, cw_end_ts = 0\<rparr>, \<lparr>cw_size = 32, cw_flags = 0, cw_start_ts = 4, cw_end_ts = 9\<rparr>,
      \<lparr>cw_size = 32, cw_flags = 0, cw_start_ts = 2, cw_end_ts = 5\<rparr>]
     = [\<lparr>cw_size = 32, cw_flags = 0, cw_start_ts = 2, cw_end_ts = 9\<rparr>, \<lparr>cw_size = 32, cw_flags = 0, cw_start_ts = 20, cw_end_ts = 0\<rparr>]
   \<and> IsTimestampWithinWindows 7 (ConsolidateCropWindows sort_windows
       [\<lparr>cw_size = 32, cw_flags = 0, cw_start_ts = 4, cw_end_ts = 9\<rparr>, \<lparr>cw_size = 32, cw_flags = 0, cw_start_ts = 2, cw_end_ts = 5\<rparr>])"
  using crop_windows_consolidated [OF std_sort_windows, of 7
      "[\<lparr>cw_size = 32, cw_flags = 0, cw_start_ts = 4, cw_end_ts = 9\<rparr>, \<lparr>cw_size = 32, cw_flags = 0, cw_start_ts = 2, cw_end_ts = 5\<rparr>]"]
  by (simp add: ConsolidateCropWindows_def sort_windows_def window_less_def WindowEndPrecedesStart_def MaxWindowEnd_def
      IsTimestampWithinWindows_def in_window_def)

section \<open>The cache file keeps exactly what the windows keep\<close>

text \<open>The documented behaviour of the reader: it returns the batches that the serialiser wrote, one by one.\<close>

definition reader_inverts :: "batch_reader \<Rightarrow> (raw_sample list \<Rightarrow> char list) \<Rightarrow> raw_sample list set \<Rightarrow> bool" where
  "reader_inverts read encode batches \<longleftrightarrow> read [] = (Inr [], [])
    \<and> (\<forall>batch\<in>batches. \<forall>rest. read (encode batch @ rest) = (Inr batch, rest))"

definition kept_batches :: "clock_correlation_map \<Rightarrow> crop_window list \<Rightarrow> raw_sample list list \<Rightarrow> raw_sample list list" where
  "kept_batches correlations windows batches = filter (\<lambda>b. b \<noteq> []) (map (FilterRawSamples correlations windows) batches)"

definition grown :: "(raw_sample list \<Rightarrow> char list) \<Rightarrow> cache_file \<Rightarrow> raw_sample list list \<Rightarrow> cache_file" where
  "grown encode temp batches = (if batches = [] then temp else Some (cache_bytes temp @ concat (map encode batches)))"

lemma grown_Cons: "grown encode (Some (cache_bytes temp @ encode b)) bs = grown encode temp (b # bs)"
  by (simp add: grown_def cache_bytes_def)

lemma write_filtered_batches:
  assumes w: "serializer_appends serialize encode"
  shows "reader_inverts read encode (set batches) \<Longrightarrow> [] \<notin> set batches \<Longrightarrow> \<exists>result temp'.
    WriteFilteredRawSampleBatches read serialize create_fails correlations windows (concat (map encode batches)) temp
      = Some (result, temp')
    \<and> (result = Inr () \<longrightarrow> temp' = grown encode temp (kept_batches correlations windows batches))
    \<and> result \<noteq> Inl ASTL_STATUS_SUCCESS
    \<and> (\<not> create_fails \<and> (\<forall>b bytes. fst (serialize b bytes) = ASTL_STATUS_SUCCESS) \<longrightarrow> result = Inr ())"
proof (induction batches arbitrary: temp)
  case Nil
  then show ?case
    by (simp add: WriteFilteredRawSampleBatches.simps reader_inverts_def grown_def kept_batches_def)
next
  case (Cons b bs)
  have rd: "read (encode b @ concat (map encode bs)) = (Inr b, concat (map encode bs))" "b \<noteq> []"
    using Cons.prems by (auto simp: reader_inverts_def)
  have prems: "reader_inverts read encode (set bs)" "[] \<notin> set bs" using Cons.prems by (auto simp: reader_inverts_def)
  let ?raws = "FilterRawSamples correlations windows b"
  let ?go = "WriteFilteredRawSampleBatches read serialize create_fails correlations windows"
  show ?case
  proof (cases "?raws = []")
    case True
    then have "?go (concat (map encode (b # bs))) temp = ?go (concat (map encode bs)) temp"
      by (simp add: WriteFilteredRawSampleBatches.simps [of read serialize create_fails correlations windows "encode b @ _"] rd)
    then show ?thesis using Cons.IH [OF prems, of temp] True by (simp add: kept_batches_def)
  next
    case False
    obtain status temp1 where o: "WriteFilteredRawSampleBatch serialize create_fails ?raws temp = (status, temp1)" by fastforce
    have step: "?go (concat (map encode (b # bs))) temp
        = (if status \<noteq> ASTL_STATUS_SUCCESS then Some (Inl status, temp1) else ?go (concat (map encode bs)) temp1)"
      using False by (simp add: WriteFilteredRawSampleBatches.simps [of read serialize create_fails correlations windows "encode b @ _"] rd o)
    have ok: "\<not> create_fails \<and> (\<forall>b bytes. fst (serialize b bytes) = ASTL_STATUS_SUCCESS) \<longrightarrow> status = ASTL_STATUS_SUCCESS"
      using o by (auto simp: WriteFilteredRawSampleBatch_def case_prod_beta' Let_def)
    show ?thesis
    proof (cases "status = ASTL_STATUS_SUCCESS")
      case True
      obtain tail where "snd (serialize ?raws (cache_bytes temp)) = cache_bytes temp @ tail"
          "fst (serialize ?raws (cache_bytes temp)) = ASTL_STATUS_SUCCESS \<longrightarrow> tail = encode ?raws"
        using w unfolding serializer_appends_def by blast
      then have "temp1 = Some (cache_bytes temp @ encode ?raws)"
        using o True by (auto simp: WriteFilteredRawSampleBatch_def case_prod_beta' Let_def cache_bytes_def split: if_splits)
      moreover have "kept_batches correlations windows (b # bs) = ?raws # kept_batches correlations windows bs"
        using False by (simp add: kept_batches_def)
      ultimately show ?thesis using Cons.IH [OF prems, of temp1] True unfolding step by (simp add: grown_Cons)
    next
      case False
      then show ?thesis using step ok by simp
    qed
  qed
qed

text \<open>
  Filtering the cache file of a target, for any reader that returns what the serialiser wrote.
  It ends.  On success the file holds exactly the samples that the windows keep, batch by batch and
  in order, and is gone when none is kept.  Any failure leaves the file as it was, except that of
  renaming the temporary file, which loses every sample of the target.
\<close>

lemma filter_cache_exact:
  assumes "serializer_appends serialize encode" "reader_inverts read encode (set batches)" "[] \<notin> set batches"
  shows "\<exists>status file'. FilterRawSampleCacheFile read serialize io correlations windows (Some (concat (map encode batches)))
        = Some (status, file')
    \<and> (status = ASTL_STATUS_SUCCESS \<longrightarrow>
        (let kept = filter (\<lambda>b. b \<noteq> []) (map (FilterRawSamples correlations windows) batches) in
         file' = (if kept = [] then None else Some (concat (map encode kept)))))
    \<and> (status \<noteq> ASTL_STATUS_SUCCESS \<longrightarrow> file' = Some (concat (map encode batches)) \<or> ci_rename_fails io \<and> file' = None)
    \<and> (\<not> ci_open_fails io \<and> \<not> ci_stale_fails io \<and> \<not> ci_create_fails io \<and> \<not> ci_remove_fails io \<and> \<not> ci_rename_fails io
        \<and> (\<forall>b bytes. fst (serialize b bytes) = ASTL_STATUS_SUCCESS) \<longrightarrow> status = ASTL_STATUS_SUCCESS)"
proof -
  obtain result temp where w: "WriteFilteredRawSampleBatches read serialize (ci_create_fails io) correlations windows
        (concat (map encode batches)) None = Some (result, temp)"
      "result = Inr () \<Longrightarrow> temp = grown encode None (kept_batches correlations windows batches)"
      "result \<noteq> Inl ASTL_STATUS_SUCCESS"
      "\<not> ci_create_fails io \<Longrightarrow> \<forall>b bytes. fst (serialize b bytes) = ASTL_STATUS_SUCCESS \<Longrightarrow> result = Inr ()"
    using write_filtered_batches [OF assms, of "ci_create_fails io" correlations windows None] by blast
  show ?thesis
  proof (cases result)
    case (Inl e)
    then show ?thesis using w by (auto simp: FilterRawSampleCacheFile_def)
  next
    case (Inr u)
    then show ?thesis
      using w by (auto simp: FilterRawSampleCacheFile_def ReplaceRawSampleCacheFile_def grown_def kept_batches_def [symmetric]
        cache_bytes_def Let_def)
  qed
qed

text \<open>A writer and a reader of pause markers below 256, each batch framed by its length.\<close>

definition example_encode :: "raw_sample list \<Rightarrow> char list" where
  "example_encode batch = char_of (length batch) # map (\<lambda>s. char_of (unat (rs_raw_tick s))) batch"

definition example_read :: batch_reader where
  "example_read stream =
    (case stream of
       [] \<Rightarrow> (Inr [], [])
     | c # rest \<Rightarrow> (Inr (map (\<lambda>x. PauseMarker (int (of_char x))) (take (of_char c) rest)), drop (of_char c) rest))"

lemma example_serializer:
  "serializer_appends (\<lambda>batch bytes. (ASTL_STATUS_SUCCESS, bytes @ example_encode batch)) example_encode"
  by (simp add: serializer_appends_def)

lemma example_reader: "reader_inverts example_read example_encode {[PauseMarker 2], [PauseMarker 5, PauseMarker 12]}"
  by (simp add: reader_inverts_def example_read_def example_encode_def PauseMarker_def of_char_of)

end
