(* ===== verification/Sample_Replay.thy ===== *)
theory Sample_Replay
  imports Orchestrator_Session Crop_Windows
begin

text \<open>
  How the orchestrator turns cached raw samples back into processed ones
  (src/impl/orchestrator/orchestrator.cpp): the replay of a cache stream into the metrics of a
  target or into one of them, the visits of a metric's samples that choose between the recent
  snapshot, the replay and the stored samples, and the rebuild before a final output.  The protobuf
  reader is an argument; None is a call that does not return normally, as in Orchestrator_Session.
\<close>

section \<open>Replaying a stream\<close>

text \<open>std::sort of a processing queue, the reader, the files that cannot be opened, the batch size.\<close>

record ('t, 'm) replay_env =
  re_sorter :: "'m queue \<Rightarrow> 'm queue"
  re_read :: batch_reader
  re_open_fails :: "'t \<Rightarrow> bool"
  re_batch_size :: nat

definition ProcessRawBatch :: "('t, 'm) replay_env \<Rightarrow> ('m, 'w) imetric \<Rightarrow> 't \<Rightarrow> raw_sample list \<Rightarrow> 'm option
    \<Rightarrow> ('t, 'm, 's) metric_manager \<times> 'w \<Rightarrow> (astl_status \<times> ('t, 'm, 's) metric_manager \<times> 'w) option" where
  "ProcessRawBatch re im t samples metric mw =
    (case metric of
       Some m \<Rightarrow> ProcessRawSamplesForMetric (re_sorter re) im [(Some t, samples)] (Some m) mw
     | None \<Rightarrow> ProcessRawSamples (re_sorter re) im [(Some t, samples)] mw)"

partial_function (option) ReplaySerializedRawBatches :: "('t, 'm) replay_env \<Rightarrow> ('m, 'w) imetric \<Rightarrow> 't \<Rightarrow> 'm option
    \<Rightarrow> char list \<Rightarrow> ('t, 'm, 's) metric_manager \<times> 'w \<Rightarrow> (astl_status \<times> ('t, 'm, 's) metric_manager \<times> 'w) option" where
  "ReplaySerializedRawBatches re im t metric stream mw =
    (case re_read re stream of
       (Inl e, _) \<Rightarrow> Some (e, mw)
     | (Inr batch, rest) \<Rightarrow>
         if batch = [] then Some (ASTL_STATUS_SUCCESS, mw)
         else Option.bind (ProcessRawBatch re im t batch metric mw) (\<lambda>(status, mw').
           if status \<noteq> ASTL_STATUS_SUCCESS then Some (status, mw')
           else ReplaySerializedRawBatches re im t metric rest mw'))"

definition visited_metric :: "('t, 's, 'm, 'u) stores \<Rightarrow> 'm option" where
  "visited_metric st = map_option (\<lambda>(t, m, consumer). m) (batch_visit (wd_store (st_world st)))"

definition with_metrics :: "('t, 'm, 's) metric_manager \<times> ('t, 'm, 'u) session_world
    \<Rightarrow> ('t, 's, 'm, 'u) stores \<Rightarrow> ('t, 's, 'm, 'u) stores" where
  "with_metrics mw st = st\<lparr>st_metrics := fst mw, st_world := snd mw\<rparr>"

definition erase_processed :: "'t \<Rightarrow> 'm option \<Rightarrow> ('t, 's, 'm, 'u) stores \<Rightarrow> ('t, 's, 'm, 'u) stores" where
  "erase_processed t metric st =
    set_processed (\<lambda>(t', m). if t' = t \<and> (metric = None \<or> metric = Some m) then None else st_processed st (t', m)) st"

definition ProcessRawSampleCacheStream :: "('t, 'm) replay_env \<Rightarrow> ('m, ('t, 'm, 'u) session_world) imetric \<Rightarrow> 't
    \<Rightarrow> char list \<Rightarrow> raw_sample list \<Rightarrow> ('t, 's, 'm, 'u) stores \<Rightarrow> (astl_status \<times> ('t, 's, 'm, 'u) stores) option" where
  "ProcessRawSampleCacheStream re im t stream trailing st =
    (let metric = visited_metric st;
         mw = (st_metrics st, st_world st);
         (reset_status, mw1) = (case metric of
            Some m \<Rightarrow> ResetMetricOnTarget im (Some t) (Some m) mw
          | None \<Rightarrow> ResetMetricsOnTarget im (Some t) mw);
         st1 = with_metrics mw1 st in
     if reset_status \<noteq> ASTL_STATUS_SUCCESS then Some (reset_status, st1)
     else let st2 = erase_processed t metric st1 in
       Option.bind (ReplaySerializedRawBatches re im t metric stream (st_metrics st2, st_world st2)) (\<lambda>(replay_status, mw3).
         if replay_status \<noteq> ASTL_STATUS_SUCCESS then Some (replay_status, with_metrics mw3 st2)
         else Option.bind (if trailing = [] then Some (ASTL_STATUS_SUCCESS, mw3) else ProcessRawBatch re im t trailing metric mw3)
           (\<lambda>(trailing_status, mw4).
             if trailing_status \<noteq> ASTL_STATUS_SUCCESS then Some (trailing_status, with_metrics mw4 st2)
             else let (status, w) = (case metric of
                    Some m \<Rightarrow> im_summarize im m (snd mw4)
                  | None \<Rightarrow> SummarizeMetrics im (fst mw4) (snd mw4)) in
               Some (status, with_metrics (fst mw4, w) st2))))"

definition pending_samples :: "'t \<Rightarrow> ('t, 's, 'm, 'u) stores \<Rightarrow> raw_sample list" where
  "pending_samples t st = (case st_raw_samples st t of None \<Rightarrow> [] | Some raws \<Rightarrow> raws)"

section \<open>Visiting the samples of a metric\<close>

text \<open>
  The context of a visit: the consumer and its state are in the store while the metrics run, and the
  context is gone afterwards.
\<close>

definition begin_visit :: "'t \<Rightarrow> 'm \<Rightarrow> 'u consumer \<Rightarrow> 'u \<Rightarrow> ('t, 's, 'm, 'u) stores \<Rightarrow> ('t, 's, 'm, 'u) stores" where
  "begin_visit t m consumer c st = st\<lparr>st_world := (st_world st)\<lparr>wd_store :=
     (wd_store (st_world st))\<lparr>batch_visit := Some (t, m, consumer), consumer_state := c\<rparr>\<rparr>\<rparr>"

definition end_visit :: "('t, 's, 'm, 'u) stores \<Rightarrow> ('t, 's, 'm, 'u) stores" where
  "end_visit st = st\<lparr>st_world := (st_world st)\<lparr>wd_store := (wd_store (st_world st))\<lparr>batch_visit := None\<rparr>\<rparr>\<rparr>"

definition VisitRawMetricSampleBatches :: "('t, 'm) replay_env \<Rightarrow> ('m, ('t, 'm, 'u) session_world) imetric \<Rightarrow> 'm \<Rightarrow> 't
    \<Rightarrow> 'u consumer \<Rightarrow> cache_file \<Rightarrow> raw_sample list \<Rightarrow> ('t, 's, 'm, 'u) stores \<Rightarrow> 'u
    \<Rightarrow> (astl_status \<times> 'u \<times> ('t, 's, 'm, 'u) stores) option" where
  "VisitRawMetricSampleBatches re im m t consumer cache trailing st c =
    (let st1 = begin_visit t m consumer c st in
     map_option (\<lambda>(status, st2). (status, consumer_state (wd_store (st_world st2)), end_visit st2))
       (case cache of
          None \<Rightarrow> ProcessRawSampleCacheStream re im t [] trailing st1
        | Some bytes \<Rightarrow>
            if re_open_fails re t then Some (ASTL_STATUS_INTERNAL_ERROR, st1)
            else ProcessRawSampleCacheStream re im t bytes trailing st1))"

text \<open>A collecting visit pairs the caller's state with the bounded snapshot.\<close>

definition VisitRawMetricSampleBatchesAndRemember :: "('t, 'm) replay_env \<Rightarrow> ('m, ('t, 'm, 'c \<times> snapshot) session_world) imetric
    \<Rightarrow> 'm \<Rightarrow> 't \<Rightarrow> 'c consumer \<Rightarrow> cache_file \<Rightarrow> raw_sample list \<Rightarrow> ('t, 's, 'm, 'c \<times> snapshot) stores \<Rightarrow> 'c
    \<Rightarrow> (astl_status \<times> 'c \<times> ('t, 's, 'm, 'c \<times> snapshot) stores) option" where
  "VisitRawMetricSampleBatchesAndRemember re im m t consumer cache trailing st c =
    map_option (\<lambda>(status, (c', snap), st').
        (status, c', if status = ASTL_STATUS_SUCCESS \<and> \<not> snap_overflowed snap
           then st'\<lparr>st_recent := RememberRecentProcessedMetricSamples (Some m) (Some t) (snap_samples snap) (st_recent st')\<rparr>
           else st'))
      (VisitRawMetricSampleBatches re im m t (collecting_consumer consumer) cache trailing st (c, new_snapshot (re_batch_size re)))"

definition keeping_snapshot :: "'c consumer \<Rightarrow> ('c \<times> snapshot) consumer" where
  "keeping_snapshot consumer batch cs = (let (status, c) = consumer batch (fst cs) in (status, c, snd cs))"

definition VisitRawMetricSampleBatchesTwice :: "('t, 'm) replay_env \<Rightarrow> ('m, ('t, 'm, 'c \<times> snapshot) session_world) imetric
    \<Rightarrow> 'm \<Rightarrow> 't \<Rightarrow> 'c consumer \<Rightarrow> 'c consumer \<Rightarrow> cache_file \<Rightarrow> raw_sample list \<Rightarrow> ('t, 's, 'm, 'c \<times> snapshot) stores \<Rightarrow> 'c
    \<Rightarrow> (astl_status \<times> 'c \<times> ('t, 's, 'm, 'c \<times> snapshot) stores) option" where
  "VisitRawMetricSampleBatchesTwice re im m t first_consumer second_consumer cache trailing st c =
    Option.bind (VisitRawMetricSampleBatches re im m t (collecting_consumer first_consumer) cache trailing st
        (c, new_snapshot (re_batch_size re)))
      (\<lambda>(status, (c1, snap), st1).
        if status \<noteq> ASTL_STATUS_SUCCESS then Some (status, c1, st1)
        else if snap_overflowed snap then
          map_option (\<lambda>(status, (c2, _), st2). (status, c2, st2))
            (VisitRawMetricSampleBatches re im m t (keeping_snapshot second_consumer) cache trailing st1 (c1, snap))
        else map_option (\<lambda>(status, c2).
            (status, c2, if status = ASTL_STATUS_SUCCESS
               then st1\<lparr>st_recent := RememberRecentProcessedMetricSamples (Some m) (Some t) (snap_samples snap) (st_recent st1)\<rparr>
               else st1))
          (VisitSampleSpanBatches (re_batch_size re) second_consumer (snap_samples snap) c1))"

definition VisitRecentProcessedMetricSamplesTwice :: "nat \<Rightarrow> 'm option \<Rightarrow> 't option \<Rightarrow> 'd consumer \<Rightarrow> 'd consumer
    \<Rightarrow> ('t, 'm) recent_samples \<Rightarrow> 'd \<Rightarrow> (astl_status \<times> 'd) option option" where
  "VisitRecentProcessedMetricSamplesTwice n m t first_consumer second_consumer r d =
    (case VisitRecentProcessedMetricSamples n m t first_consumer r d of
       Some (Some (status, d1)) \<Rightarrow>
         if status \<noteq> ASTL_STATUS_SUCCESS then Some (Some (status, d1))
         else VisitRecentProcessedMetricSamples n m t second_consumer r d1
     | first_status \<Rightarrow> first_status)"

definition VisitInMemoryProcessedMetricSampleBatchesTwice :: "nat \<Rightarrow> 'm \<Rightarrow> 't \<Rightarrow> 'd consumer \<Rightarrow> 'd consumer
    \<Rightarrow> ('t, 'm, 'c) store \<Rightarrow> 'd \<Rightarrow> (astl_status \<times> 'd) option" where
  "VisitInMemoryProcessedMetricSampleBatchesTwice n m t first_consumer second_consumer s d =
    (case processed_samples s (t, m) of
       None \<Rightarrow> Some (ASTL_STATUS_SUCCESS, d)
     | Some samples \<Rightarrow>
         Option.bind (VisitSampleSpanBatches n first_consumer samples d) (\<lambda>(first_status, d1).
           if first_status \<noteq> ASTL_STATUS_SUCCESS then Some (first_status, d1)
           else VisitSampleSpanBatches n second_consumer samples d1))"

text \<open>What the two visitors share: the recent snapshot, the stored samples, or a replay.\<close>

definition visit_source :: "'m option \<Rightarrow> 't option
    \<Rightarrow> (('t, 'm) recent_samples \<Rightarrow> 'c \<Rightarrow> (astl_status \<times> 'c) option option)
    \<Rightarrow> ('m \<Rightarrow> 't \<Rightarrow> ('t, 'm, 'c \<times> snapshot) store \<Rightarrow> 'c \<Rightarrow> (astl_status \<times> 'c) option)
    \<Rightarrow> ('m \<Rightarrow> 't \<Rightarrow> cache_file \<Rightarrow> raw_sample list \<Rightarrow> ('t, 's, 'm, 'c \<times> snapshot) stores \<Rightarrow> 'c
        \<Rightarrow> (astl_status \<times> 'c \<times> ('t, 's, 'm, 'c \<times> snapshot) stores) option)
    \<Rightarrow> ('t, 's, 'm, 'c \<times> snapshot) stores \<Rightarrow> 'c \<Rightarrow> (astl_status \<times> 'c \<times> ('t, 's, 'm, 'c \<times> snapshot) stores) option" where
  "visit_source metric target recent in_memory raw st c =
    (case (metric, target) of
       (Some m, Some t) \<Rightarrow>
        (case recent (st_recent st) c of
           Some visited \<Rightarrow> map_option (\<lambda>(status, c'). (status, c', st)) visited
         | None \<Rightarrow>
            (let st1 = st\<lparr>st_recent := InvalidateRecentProcessedMetricSamples (st_recent st)\<rparr>;
                 trailing = pending_samples t st1 in
             if st_cache_files st1 t = None \<and> trailing = []
             then map_option (\<lambda>(status, c'). (status, c', st1)) (in_memory m t (wd_store (st_world st1)) c)
             else raw m t (st_cache_files st1 t) trailing st1 c))
     | _ \<Rightarrow> Some (ASTL_STATUS_BAD_ARGUMENT, c, st))"

definition VisitProcessedMetricSampleBatches :: "('t, 'm) replay_env \<Rightarrow> ('m, ('t, 'm, 'c \<times> snapshot) session_world) imetric
    \<Rightarrow> 'm option \<Rightarrow> 't option \<Rightarrow> 'c consumer \<Rightarrow> ('t, 's, 'm, 'c \<times> snapshot) stores \<Rightarrow> 'c
    \<Rightarrow> (astl_status \<times> 'c \<times> ('t, 's, 'm, 'c \<times> snapshot) stores) option" where
  "VisitProcessedMetricSampleBatches re im metric target consumer =
    visit_source metric target
      (VisitRecentProcessedMetricSamples (re_batch_size re) metric target consumer)
      (\<lambda>m t. VisitInMemoryProcessedMetricSampleBatches (re_batch_size re) m t consumer)
      (\<lambda>m t. VisitRawMetricSampleBatchesAndRemember re im m t consumer)"

definition VisitProcessedMetricSampleBatchesTwice :: "('t, 'm) replay_env \<Rightarrow> ('m, ('t, 'm, 'c \<times> snapshot) session_world) imetric
    \<Rightarrow> 'm option \<Rightarrow> 't option \<Rightarrow> 'c consumer \<Rightarrow> 'c consumer \<Rightarrow> ('t, 's, 'm, 'c \<times> snapshot) stores \<Rightarrow> 'c
    \<Rightarrow> (astl_status \<times> 'c \<times> ('t, 's, 'm, 'c \<times> snapshot) stores) option" where
  "VisitProcessedMetricSampleBatchesTwice re im metric target first_consumer second_consumer =
    visit_source metric target
      (VisitRecentProcessedMetricSamplesTwice (re_batch_size re) metric target first_consumer second_consumer)
      (\<lambda>m t. VisitInMemoryProcessedMetricSampleBatchesTwice (re_batch_size re) m t first_consumer second_consumer)
      (\<lambda>m t. VisitRawMetricSampleBatchesTwice re im m t first_consumer second_consumer)"

section \<open>Rebuilding processed samples\<close>

fun RebuildProcessedSamplesForAllTargets :: "('t, 'm) replay_env \<Rightarrow> ('m, ('t, 'm, 'u) session_world) imetric \<Rightarrow> 't list
    \<Rightarrow> ('t, 's, 'm, 'u) stores \<Rightarrow> ('t, 's, 'm, 'u) stores option" where
  "RebuildProcessedSamplesForAllTargets re im [] st = Some st"
| "RebuildProcessedSamplesForAllTargets re im (t # ts) st =
    (case st_cache_files st t of
       None \<Rightarrow> RebuildProcessedSamplesForAllTargets re im ts st
     | Some bytes \<Rightarrow>
         if re_open_fails re t then RebuildProcessedSamplesForAllTargets re im ts st
         else Option.bind (ProcessRawSampleCacheStream re im t bytes (pending_samples t st) st)
           (\<lambda>(status, st'). RebuildProcessedSamplesForAllTargets re im ts st'))"

definition ReplayRawSampleCacheForTarget :: "('t, 'm) replay_env \<Rightarrow> ('m, ('t, 'm, 'u) session_world) imetric \<Rightarrow> 't
    \<Rightarrow> ('t, 's, 'm, 'u) stores \<Rightarrow> (astl_status \<times> ('t, 's, 'm, 'u) stores) option" where
  "ReplayRawSampleCacheForTarget re im t st =
    (case st_cache_files st t of
       None \<Rightarrow> Some (ASTL_STATUS_SUCCESS, st)
     | Some bytes \<Rightarrow>
         if re_open_fails re t then Some (ASTL_STATUS_INTERNAL_ERROR, st)
         else ProcessRawSampleCacheStream re im t bytes [] st)"

definition MaterializeProcessedMetricSamplesForMutation :: "('t, 'm) replay_env \<Rightarrow> ('m, ('t, 'm, 'u) session_world) imetric
    \<Rightarrow> 'm option \<Rightarrow> 't option \<Rightarrow> ('t, 's, 'm, 'u) stores \<Rightarrow> (astl_status \<times> ('t, 's, 'm, 'u) stores) option" where
  "MaterializeProcessedMetricSamplesForMutation re im metric target st =
    (case (metric, target) of
       (Some m, Some t) \<Rightarrow>
         if st_processed st (t, m) \<noteq> None then Some (ASTL_STATUS_SUCCESS, st)
         else ReplayRawSampleCacheForTarget re im t st
     | _ \<Rightarrow> Some (ASTL_STATUS_BAD_ARGUMENT, st))"

end
