(* ===== verification/Replay_Visit.thy ===== *)
theory Replay_Visit
  imports Sample_Replay Metric_Replay
begin

text \<open>
  A visit of a metric's samples (src/impl/orchestrator/orchestrator.cpp) replays the cached raw
  samples through that one metric and hands every processed sample to a consumer; a rebuild replays
  them through all metrics of the target and stores the samples.  Both see the same samples of the
  metric.
\<close>

section \<open>The objects behind the interface, in a session\<close>

definition on_world :: "(('t, 'm, 'u) world \<Rightarrow> 'x \<times> ('t, 'm, 'u) world) \<Rightarrow> ('t, 'm, 'u) session_world
    \<Rightarrow> 'x \<times> ('t, 'm, 'u) session_world" where
  "on_world f w = (let (x, w') = f \<lparr>wd_objects = wd_objects w, wd_store = wd_store w\<rparr> in
     (x, w\<lparr>wd_objects := wd_objects w', wd_store := wd_store w'\<rparr>))"

definition session_metrics :: "environment \<Rightarrow> ('m \<Rightarrow> state_info option \<Rightarrow> 16 word list result)
    \<Rightarrow> ('m, ('t, 'm, 'u) session_world) imetric" where
  "session_metrics env build =
    \<lparr>im_receive = (\<lambda>m raw. on_world (im_receive (heap_metrics env build) m raw)),
     im_pause = (\<lambda>m time. on_world (im_pause (heap_metrics env build) m time)),
     im_reset = (\<lambda>m w. snd (on_world (\<lambda>w. ((), im_reset (heap_metrics env build) m w)) w)),
     im_summarize = (\<lambda>m. on_world (im_summarize (heap_metrics env build) m)),
     im_operations = (\<lambda>m. on_world (im_operations (heap_metrics env build) m))\<rparr>"

lemma session_calls:
  "im_receive (session_metrics env build) m raw w = (case wd_objects w m of
     None \<Rightarrow> (ASTL_STATUS_INTERNAL_ERROR, w)
   | Some (t, obj) \<Rightarrow> (let r = object_receive env (Some (store_sink t m)) raw (obj, wd_store w) in
       (fst r, w\<lparr>wd_objects := (wd_objects w)(m \<mapsto> (t, fst (snd r))), wd_store := snd (snd r)\<rparr>)))"
  "im_pause (session_metrics env build) m time w = (case wd_objects w m of
     None \<Rightarrow> (ASTL_STATUS_INTERNAL_ERROR, w)
   | Some (t, obj) \<Rightarrow> (fst (object_pause time obj), w\<lparr>wd_objects := (wd_objects w)(m \<mapsto> (t, snd (object_pause time obj)))\<rparr>))"
  "im_reset (session_metrics env build) m w = (case wd_objects w m of
     None \<Rightarrow> w | Some (t, obj) \<Rightarrow> w\<lparr>wd_objects := (wd_objects w)(m \<mapsto> (t, object_reset obj))\<rparr>)"
  "im_summarize (session_metrics env build) m w = (case wd_objects w m of
     None \<Rightarrow> (ASTL_STATUS_INTERNAL_ERROR, w)
   | Some (t, obj) \<Rightarrow> (fst (object_summarize obj), w\<lparr>wd_objects := (wd_objects w)(m \<mapsto> (t, snd (object_summarize obj)))\<rparr>))"
  by (simp_all add: session_metrics_def on_world_def heap_metrics_def call_object_eq case_prod_beta' Let_def split: option.split)

section \<open>What a visit or a rebuild has seen of the metric\<close>

definition visit_ok :: "'t \<Rightarrow> 'm \<Rightarrow> (processed_sample \<Rightarrow> 'u \<Rightarrow> 'u) \<Rightarrow> ('t, 'm, 'u) store \<Rightarrow> bool" where
  "visit_ok t0 m0 step s \<longleftrightarrow> (case batch_visit s of None \<Rightarrow> True
     | Some (t, m, consumer) \<Rightarrow> t = t0 \<and> m = m0 \<and> (\<forall>p c. consumer [p] c = (ASTL_STATUS_SUCCESS, step p c)))"

definition observed :: "'t \<Rightarrow> 'm \<Rightarrow> (processed_sample \<Rightarrow> 'u \<Rightarrow> 'u) \<Rightarrow> 'u \<Rightarrow> ('t, 'm, 'u) store \<Rightarrow> 'u" where
  "observed t0 m0 step c0 s =
    (if batch_visit s = None then fold step (stored_samples s t0 m0) c0 else consumer_state s)"

lemma store_sink_visit:
  assumes "visit_ok t0 m0 step s"
  shows "fst (store_sink t m p s) = ASTL_STATUS_SUCCESS" "visit_ok t0 m0 step (snd (store_sink t m p s))"
    "observed t0 m0 step c0 (snd (store_sink t m p s))
      = (if t = t0 \<and> m = m0 then step p (observed t0 m0 step c0 s) else observed t0 m0 step c0 s)"
  using assms
  by (auto simp: visit_ok_def observed_def store_sink_def Orchestrator_SinkProcessedSamples_def append_samples_def stored_samples_def
    split: option.splits)

interpretation seen: sink_relation "store_sink t m" "store_sink t m"
    "\<lambda>s r. visit_ok t0 m0 step s \<and> visit_ok t0 m0 step r \<and> (m = m0 \<longrightarrow> observed t0 m0 step c0 s = observed t0 m0 step c0 r)"
  for t t0 :: 't and m m0 :: 'm and step :: "processed_sample \<Rightarrow> 'u \<Rightarrow> 'u" and c0 :: 'u
  by unfold_locales (auto simp: store_sink_visit)

interpretation unseen: sink_relation "store_sink t m" "\<lambda>p r. (ASTL_STATUS_SUCCESS, r)"
    "\<lambda>s (r::unit). visit_ok t0 m0 step s \<and> (m \<noteq> m0 \<longrightarrow> observed t0 m0 step c0 s = c)"
  for t t0 :: 't and m m0 :: 'm and step :: "processed_sample \<Rightarrow> 'u \<Rightarrow> 'u" and c0 c :: 'u
  by unfold_locales (auto simp: store_sink_visit)

definition visit_view :: "'t \<Rightarrow> 'm \<Rightarrow> (processed_sample \<Rightarrow> 'u \<Rightarrow> 'u) \<Rightarrow> 'u \<Rightarrow> 'm \<Rightarrow> ('t, 'm, 'u) session_world
    \<Rightarrow> ('t \<times> metric_object) option \<times> 'u option" where
  "visit_view t0 m0 step c0 m w = (wd_objects w m, if m = m0 then Some (observed t0 m0 step c0 (wd_store w)) else None)"

abbreviation world_ok :: "'t \<Rightarrow> 'm \<Rightarrow> (processed_sample \<Rightarrow> 'u \<Rightarrow> 'u) \<Rightarrow> ('t, 'm, 'u) session_world \<Rightarrow> bool" where
  "world_ok t0 m0 step w \<equiv> visit_ok t0 m0 step (wd_store w)"

lemma object_seen:
  assumes "visit_ok t0 m0 step s" "visit_ok t0 m0 step r" "m = m0 \<longrightarrow> observed t0 m0 step c0 s = observed t0 m0 step c0 r"
  shows "fst (object_receive env (Some (store_sink t m)) raw (obj, s)) = fst (object_receive env (Some (store_sink t m)) raw (obj, r))"
    "fst (snd (object_receive env (Some (store_sink t m)) raw (obj, s))) = fst (snd (object_receive env (Some (store_sink t m)) raw (obj, r)))"
    "m = m0 \<Longrightarrow> observed t0 m0 step c0 (snd (snd (object_receive env (Some (store_sink t m)) raw (obj, s))))
      = observed t0 m0 step c0 (snd (snd (object_receive env (Some (store_sink t m)) raw (obj, r))))"
  using seen.object_related [of t0 m0 step s r m c0 env t raw obj, unfolded seen.related_def] assms by auto

lemma object_unseen:
  assumes "visit_ok t0 m0 step s"
  shows "visit_ok t0 m0 step (snd (snd (object_receive env (Some (store_sink t m)) raw (obj, s))))"
    "m \<noteq> m0 \<Longrightarrow> observed t0 m0 step c0 (snd (snd (object_receive env (Some (store_sink t m)) raw (obj, s)))) = observed t0 m0 step c0 s"
  using unseen.object_related [of t0 m0 step s m c0 "observed t0 m0 step c0 s" env t raw obj, unfolded unseen.related_def] assms
  by auto

interpretation visiting: metric_objects "session_metrics env build :: ('m::linorder, ('t, 'm, 'u) session_world) imetric"
    "visit_view t0 m0 step c0" "world_ok t0 m0 step"
  for env :: environment and build :: "'m::linorder \<Rightarrow> state_info option \<Rightarrow> 16 word list result"
    and t0 :: 't and m0 :: 'm and step :: "processed_sample \<Rightarrow> 'u \<Rightarrow> 'u" and c0 :: 'u
proof unfold_locales
  fix w v :: "('t, 'm, 'u) session_world" and m m' :: 'm and s :: normalized_sample and t :: int
  let ?im = "session_metrics env build :: ('m, ('t, 'm, 'u) session_world) imetric"
  assume ok: "world_ok t0 m0 step w"
  show "world_ok t0 m0 step (snd (im_receive ?im m s w))"
    "world_ok t0 m0 step (snd (im_pause ?im m t w))" "world_ok t0 m0 step (im_reset ?im m w)"
    using ok by (auto simp: session_calls Let_def object_unseen(1) split: option.split)
  {
    assume n: "m' \<noteq> m"
    show "visit_view t0 m0 step c0 m' (snd (im_receive ?im m s w)) = visit_view t0 m0 step c0 m' w"
      "visit_view t0 m0 step c0 m' (snd (im_pause ?im m t w)) = visit_view t0 m0 step c0 m' w"
      "visit_view t0 m0 step c0 m' (im_reset ?im m w) = visit_view t0 m0 step c0 m' w"
      using ok n by (auto simp: session_calls Let_def visit_view_def object_unseen(2) split: option.split)
  }
  assume ok': "world_ok t0 m0 step v" and same: "visit_view t0 m0 step c0 m w = visit_view t0 m0 step c0 m v"
  then have same': "wd_objects w m = wd_objects v m"
      "m = m0 \<longrightarrow> observed t0 m0 step c0 (wd_store w) = observed t0 m0 step c0 (wd_store v)"
    by (auto simp: visit_view_def)
  note seen = object_seen [OF ok ok' same'(2)]
  show "same_for (visit_view t0 m0 step c0) m (im_receive ?im m s w) (im_receive ?im m s v)"
    using same' seen by (auto simp: session_calls Let_def same_for_def visit_view_def split: option.split)
  show "same_for (visit_view t0 m0 step c0) m (im_pause ?im m t w) (im_pause ?im m t v)"
    using same' by (auto simp: session_calls Let_def same_for_def visit_view_def split: option.split)
qed

section \<open>Resets and summaries\<close>

definition cleared :: "residency_metric \<Rightarrow> residency_metric" where
  "cleared m = m\<lparr>rs_op_config := \<lambda>_. None, rs_first_op := None, rs_previous := \<lambda>_. None, rs_time_totals := \<lambda>_. None,
     rs_pct_sums := \<lambda>_. None, rs_counts := \<lambda>_. None, rs_min := \<lambda>_. None, rs_max := \<lambda>_. None, rs_average := \<lambda>_. None,
     rs_total_seconds := \<lambda>_. None, rs_processed := []\<rparr>"

lemma cleared_track: "cleared (track_state name m) = cleared m"
  by (simp add: cleared_def track_state_def)

lemma cleared_fold: "cleared (foldl (\<lambda>m s. track_state (si_name s) m) m states) = cleared m"
  by (induction states arbitrary: m) (simp_all add: cleared_track)

lemma InitializeResidencyState_cleared:
  "InitializeResidencyState cfg m = InitializeResidencyState cfg (cleared m)" "cleared (InitializeResidencyState cfg m) = cleared m"
proof -
  have c: "cleared (cleared m) = cleared m" by (simp add: cleared_def)
  have eq: "InitializeResidencyState cfg m = (let m1 = foldl (\<lambda>m s. track_state (si_name s) m) (cleared m) (rc_states cfg) in
      case rc_inferred cfg of None \<Rightarrow> m1 | Some name \<Rightarrow> if name \<noteq> [] then track_state name m1 else m1)" for m
    by (simp add: InitializeResidencyState_def cleared_def)
  show "InitializeResidencyState cfg m = InitializeResidencyState cfg (cleared m)" unfolding eq c ..
  show "cleared (InitializeResidencyState cfg m) = cleared m"
    unfolding eq by (simp add: Let_def cleared_track cleared_fold c split: option.split)
qed

lemma residency_reset_idem: "Residency_Reset cfg (Residency_Reset cfg m) = Residency_Reset cfg m"
  unfolding Residency_Reset_def using InitializeResidencyState_cleared by metis

lemma object_reset_idem [simp]: "object_reset (object_reset obj) = object_reset obj"
  by (cases obj) (simp_all add: Sampled_Reset_def Sampled_InitializeSamples_def Delta_Reset_def Delta_InitializeSamples_def
    Rate_Reset_def FiniteSet_Reset_def Event_Reset_def Event_Initialize_def residency_reset_idem
    Composite_Reset_def split: sum.split)

lemma object_summarize_success [simp]: "fst (object_summarize obj) = ASTL_STATUS_SUCCESS"
  by (cases obj) (auto simp: Sampled_Summarize_def Delta_Summarize_def Rate_Summarize_def FiniteSet_Summarize_def
    Residency_Summarize_def split: sum.split prod.split)

lemma reset_fold:
  "wd_store (snd (fold (reset_on (session_metrics env build) t) hs lw)) = wd_store (snd lw)
    \<and> wd_objects (snd (fold (reset_on (session_metrics env build) t) hs lw)) m
      = (if registered_on t m hs then map_option (map_prod id object_reset) (wd_objects (snd lw) m) else wd_objects (snd lw) m)
    \<and> fst (fold (reset_on (session_metrics env build) t) hs lw) m = (if registered_on t m hs then None else fst lw m)"
proof (induction hs arbitrary: lw)
  case (Cons h hs)
  let ?lw = "reset_on (session_metrics env build) t h lw"
  have "wd_store (snd ?lw) = wd_store (snd lw)"
    "wd_objects (snd ?lw) m = (if map_of (mh_metrics h) t = Some m
      then map_option (map_prod id object_reset) (wd_objects (snd lw) m) else wd_objects (snd lw) m)"
    "fst ?lw m = (if map_of (mh_metrics h) t = Some m then None else fst lw m)"
    by (auto simp: reset_on_def session_calls split: option.split)
  then show ?case
    using Cons.IH [of ?lw] by (auto simp: registered_on_def option.map_comp comp_def map_prod_def case_prod_beta' split: option.split)
qed (simp add: registered_on_def)

lemma summarize_store:
  "fst (im_summarize (session_metrics env build) m w) = (if wd_objects w m = None then ASTL_STATUS_INTERNAL_ERROR else ASTL_STATUS_SUCCESS)"
  "wd_store (snd (im_summarize (session_metrics env build) m w)) = wd_store w"
  "m' \<noteq> m \<Longrightarrow> wd_objects (snd (im_summarize (session_metrics env build) m w)) m' = wd_objects w m'"
  by (auto simp: session_calls split: option.split)

lemma summarize_all_store: "wd_store (snd (summarize_all (session_metrics env build) ms w)) = wd_store w"
proof (induction ms arbitrary: w)
  case (Cons m ms)
  obtain st w1 where o: "im_summarize (session_metrics env build) m w = (st, w1)" by fastforce
  then have "wd_store w1 = wd_store w" using summarize_store(2) [of env build m w] by simp
  then show ?case using Cons.IH [of w1] by (simp add: o)
qed simp

section \<open>Streams of batches\<close>

lemma target_inputs_latest [simp]: "target_inputs (mm\<lparr>mm_latest := l\<rparr>) m raw = target_inputs mm m raw"
  by (induction raw) (auto split: option.split)

text \<open>The samples of a batch have well-typed markers, and no two of the metric's inputs the same timestamp.\<close>

definition timed_batch :: "('t, 'm, 's) metric_manager \<Rightarrow> 't \<Rightarrow> 'm \<Rightarrow> raw_sample list \<Rightarrow> bool" where
  "timed_batch mm t m batch \<longleftrightarrow> (\<forall>sample\<in>set batch. well_typed_marker sample)
    \<and> distinct (map ns_timestamp (target_inputs mm m [(Some t, batch)]))"

lemma timed_batch_latest [simp]: "timed_batch (mm\<lparr>mm_latest := l\<rparr>) t m batch = timed_batch mm t m batch"
  unfolding timed_batch_def target_inputs_latest ..

context metric_objects
begin

definition follows :: "'m \<Rightarrow> ('w \<Rightarrow> bool) \<Rightarrow> ('t, 'm, 's) metric_manager \<Rightarrow> ('m \<rightharpoonup> int) \<Rightarrow> 'w \<Rightarrow> ('m \<rightharpoonup> int) \<Rightarrow> 'w
    \<Rightarrow> ('t, 'm, 's) metric_manager \<Rightarrow> 'w \<Rightarrow> bool" where
  "follows m Q mm l v l' v1 mm1 w1 \<longleftrightarrow> mm1 = mm\<lparr>mm_latest := mm_latest mm1\<rparr> \<and> ok w1 \<and> ok v1 \<and> view m v1 = view m w1
    \<and> l' m = mm_latest mm1 m \<and> Q v1 \<and> (\<forall>m'. m' \<noteq> m \<longrightarrow> view m' v1 = view m' v \<and> l' m' = l m')"

lemma replay_batch:
  assumes routes: "mm_routes mm t = Some r" "distinct (map fst r)" "m \<in> snd ` set r"
    and batch: "timed_batch mm t m samples" and sorter: "std_sort queue_less (re_sorter re)"
    and live: "ProcessRawBatch re im t samples None (mm, w) = Some (ASTL_STATUS_SUCCESS, mm1, w1)"
    and ok: "ok w" "ok v" "view m w = view m v" and l: "l m = mm_latest mm m"
    and kept: "Q v" "\<And>v s. Q v \<Longrightarrow> Q (snd (DispatchNormalizedSample im m s v))"
  shows "\<exists>l' v1. ProcessRawBatch re im t samples (Some m) (mm\<lparr>mm_latest := l\<rparr>, v) = Some (ASTL_STATUS_SUCCESS, mm\<lparr>mm_latest := l'\<rparr>, v1)
    \<and> follows m Q mm l v l' v1 mm1 w1"
proof -
  have "\<forall>sample\<in>set samples. well_typed_marker sample" "distinct (map ns_timestamp (target_inputs mm m [(Some t, samples)]))"
    using batch by (simp_all add: timed_batch_def)
  from replay_equals_live [of mm t r m samples "re_sorter re" "re_sorter re" w mm1 w1 v l Q, OF routes this sorter sorter _ ok l kept]
  show ?thesis using live by (simp add: ProcessRawBatch_def follows_def)
qed

lemma replay_batches:
  fixes re :: "('t, 'm) replay_env" and mm mm1 :: "('t, 'm, 's) metric_manager"
  assumes sorter: "std_sort queue_less (re_sorter re)" and routes: "distinct (map fst r)" "m \<in> snd ` set r"
    and kept: "\<And>v s. Q v \<Longrightarrow> Q (snd (DispatchNormalizedSample im m s v))"
  shows "mm_routes mm t = Some r \<Longrightarrow> \<forall>b\<in>set batches. timed_batch mm t m b \<Longrightarrow> reader_inverts (re_read re) encode (set batches)
    \<Longrightarrow> [] \<notin> set batches
    \<Longrightarrow> ReplaySerializedRawBatches re im t None (concat (map encode batches)) (mm, w) = Some (ASTL_STATUS_SUCCESS, mm1, w1)
    \<Longrightarrow> ok w \<Longrightarrow> ok v \<Longrightarrow> view m w = view m v \<Longrightarrow> l m = mm_latest mm m \<Longrightarrow> Q v
    \<Longrightarrow> \<exists>l' v1. ReplaySerializedRawBatches re im t (Some m) (concat (map encode batches)) (mm\<lparr>mm_latest := l\<rparr>, v)
        = Some (ASTL_STATUS_SUCCESS, mm\<lparr>mm_latest := l'\<rparr>, v1)
      \<and> follows m Q mm l v l' v1 mm1 w1"
proof (induction batches arbitrary: mm w v l)
  case Nil
  have rd: "re_read re [] = (Inr [], [])" using Nil.prems(3) by (simp add: reader_inverts_def)
  have "ReplaySerializedRawBatches re im t (Some m) [] (mm\<lparr>mm_latest := l\<rparr>, v) = Some (ASTL_STATUS_SUCCESS, mm\<lparr>mm_latest := l\<rparr>, v)"
      "mm1 = mm \<and> w1 = w"
    using Nil.prems(5) rd by (simp_all add: ReplaySerializedRawBatches.simps)
  then show ?case
    using Nil.prems(6-10) by (intro exI [of _ l] exI [of _ v]) (simp add: follows_def)
next
  case (Cons b bs)
  have rd: "re_read re (encode b @ concat (map encode bs)) = (Inr b, concat (map encode bs))" "b \<noteq> []"
    using Cons.prems(3,4) by (auto simp: reader_inverts_def)
  have step: "ReplaySerializedRawBatches re im t metric (concat (map encode (b # bs))) mw =
      Option.bind (ProcessRawBatch re im t b metric mw) (\<lambda>(status, mw').
           if status \<noteq> ASTL_STATUS_SUCCESS then Some (status, mw')
           else ReplaySerializedRawBatches re im t metric (concat (map encode bs)) mw')"
    for metric and mw :: "('t, 'm, 's) metric_manager \<times> 'w"
    using rd by (simp add: ReplaySerializedRawBatches.simps [of re im t metric "encode b @ _"])
  obtain status mm2 w2 where p: "ProcessRawBatch re im t b None (mm, w) = Some (status, mm2, w2)"
    using Cons.prems(5) unfolding step by (cases "ProcessRawBatch re im t b None (mm, w)") auto
  have live: "ProcessRawBatch re im t b None (mm, w) = Some (ASTL_STATUS_SUCCESS, mm2, w2)"
      "ReplaySerializedRawBatches re im t None (concat (map encode bs)) (mm2, w2) = Some (ASTL_STATUS_SUCCESS, mm1, w1)"
    using Cons.prems(5) unfolding step p by (auto split: if_splits simp: p)
  have "timed_batch mm t m b" using Cons.prems(2) by simp
  from replay_batch [of mm t r m b re w mm2 w2 v l Q, OF Cons.prems(1) routes this sorter live(1) Cons.prems(6-10) kept]
  obtain l2 v2 where f: "ProcessRawBatch re im t b (Some m) (mm\<lparr>mm_latest := l\<rparr>, v) = Some (ASTL_STATUS_SUCCESS, mm\<lparr>mm_latest := l2\<rparr>, v2)"
      "follows m Q mm l v l2 v2 mm2 w2" by blast
  define latest where "latest = mm_latest mm2"
  have mm2: "mm2 = mm\<lparr>mm_latest := latest\<rparr>" using f(2) by (simp add: follows_def latest_def)
  have "\<exists>l' v1. ReplaySerializedRawBatches re im t (Some m) (concat (map encode bs)) (mm2\<lparr>mm_latest := l2\<rparr>, v2)
        = Some (ASTL_STATUS_SUCCESS, mm2\<lparr>mm_latest := l'\<rparr>, v1)
      \<and> follows m Q mm2 l2 v2 l' v1 mm1 w1"
  proof (rule Cons.IH [OF _ _ _ _ live(2)])
    show "mm_routes mm2 t = Some r" using Cons.prems(1) by (simp add: mm2)
    show "\<forall>b\<in>set bs. timed_batch mm2 t m b" using Cons.prems(2) by (simp add: mm2)
    show "reader_inverts (re_read re) encode (set bs)" "[] \<notin> set bs" using Cons.prems(3,4) by (auto simp: reader_inverts_def)
    show "ok w2" "ok v2" "view m w2 = view m v2" "l2 m = mm_latest mm2 m" "Q v2" using f(2) by (simp_all add: follows_def)
  qed
  then obtain l' v1 where g: "ReplaySerializedRawBatches re im t (Some m) (concat (map encode bs)) (mm\<lparr>mm_latest := l2\<rparr>, v2)
        = Some (ASTL_STATUS_SUCCESS, mm\<lparr>mm_latest := l'\<rparr>, v1)" "follows m Q mm2 l2 v2 l' v1 mm1 w1"
    by (auto simp: mm2)
  have "mm1 = mm2\<lparr>mm_latest := mm_latest mm1\<rparr>" using g(2) unfolding follows_def by (rule conjunct1)
  also have "mm2\<lparr>mm_latest := mm_latest mm1\<rparr> = mm\<lparr>mm_latest := mm_latest mm1\<rparr>" by (simp add: mm2)
  finally have "follows m Q mm l v l' v1 mm1 w1" unfolding follows_def using f(2) [unfolded follows_def] g(2) [unfolded follows_def] by metis
  then show ?case using f(1) g(1) unfolding step by auto
qed

end

section \<open>A visit and a rebuild\<close>

lemma rebuild_stream:
  assumes "batch_visit (wd_store (st_world st)) = None"
    and "ProcessRawSampleCacheStream re im t stream trailing st = Some (ASTL_STATUS_SUCCESS, st1)"
  obtains st2 mw3 mm4 w4 where "st2 = erase_processed t None (with_metrics (reset_target im t (st_metrics st, st_world st)) st)"
    "ReplaySerializedRawBatches re im t None stream (st_metrics st2, st_world st2) = Some (ASTL_STATUS_SUCCESS, mw3)"
    "(if trailing = [] then Some (ASTL_STATUS_SUCCESS, mw3) else ProcessRawBatch re im t trailing None mw3) = Some (ASTL_STATUS_SUCCESS, mm4, w4)"
    "st1 = with_metrics (mm4, snd (SummarizeMetrics im mm4 w4)) st2"
proof -
  define st2 where "st2 = erase_processed t None (with_metrics (reset_target im t (st_metrics st, st_world st)) st)"
  have v: "visited_metric st = None" using assms(1) by (simp add: visited_metric_def)
  note run = assms(2) [unfolded ProcessRawSampleCacheStream_def v ResetMetricsOnTarget_def option.case Let_def prod.case st2_def [symmetric]]
  obtain status3 mw3 where r: "ReplaySerializedRawBatches re im t None stream (st_metrics st2, st_world st2) = Some (status3, mw3)"
    using run by (cases "ReplaySerializedRawBatches re im t None stream (st_metrics st2, st_world st2)") auto
  have s3: "status3 = ASTL_STATUS_SUCCESS" using run r by (auto split: if_splits)
  let ?tr = "if trailing = [] then Some (ASTL_STATUS_SUCCESS, mw3) else ProcessRawBatch re im t trailing None mw3"
  obtain status4 mm4 w4 where tr: "?tr = Some (status4, mm4, w4)"
  proof (cases ?tr)
    case None
    have False using run unfolding r s3 Option.bind.bind_lunit prod.case None by simp
    then show thesis ..
  next
    case (Some x)
    then show thesis using that [of "fst x" "fst (snd x)" "snd (snd x)"] by simp
  qed
  note run4 = run [unfolded r s3 Option.bind.bind_lunit prod.case tr]
  have s4: "status4 = ASTL_STATUS_SUCCESS" using run4 by (auto split: if_splits)
  have "st1 = with_metrics (mm4, snd (SummarizeMetrics im mm4 w4)) st2" using run4 by (auto simp: s4 split: prod.splits)
  then show thesis using that [OF st2_def] r tr s3 s4 by simp
qed

lemma visit_stream:
  assumes "batch_visit (wd_store (st_world st)) = Some (t', m, consumer)"
    and "ResetMetricOnTarget im (Some t) (Some m) (st_metrics st, st_world st) = (ASTL_STATUS_SUCCESS, mw1)"
    and "st2 = erase_processed t (Some m) (with_metrics mw1 st)"
    and "ReplaySerializedRawBatches re im t (Some m) stream (st_metrics st2, st_world st2) = Some (ASTL_STATUS_SUCCESS, mw3)"
    and "(if trailing = [] then Some (ASTL_STATUS_SUCCESS, mw3) else ProcessRawBatch re im t trailing (Some m) mw3)
      = Some (ASTL_STATUS_SUCCESS, mm4, w4)"
    and "im_summarize im m w4 = (ASTL_STATUS_SUCCESS, w5)"
  shows "ProcessRawSampleCacheStream re im t stream trailing st = Some (ASTL_STATUS_SUCCESS, with_metrics (mm4, w5) st2)"
proof -
  have v: "visited_metric st = Some m" using assms(1) by (simp add: visited_metric_def)
  show ?thesis
    unfolding ProcessRawSampleCacheStream_def v option.case assms(2) Let_def prod.case assms(3) [symmetric] assms(4)
      Option.bind.bind_lunit assms(5)
    by (simp add: assms(6))
qed

interpretation only_consumer: sink_relation "store_sink t m" "\<lambda>p r. (ASTL_STATUS_SUCCESS, r)"
    "\<lambda>s (r::unit). batch_visit s = Some (t, m, consumer) \<and> (\<forall>p c. fst (consumer [p] c) = ASTL_STATUS_SUCCESS) \<and> processed_samples s = P"
  for t :: 't and m :: 'm and consumer :: "'u consumer" and P :: "'t \<times> 'm \<rightharpoonup> processed_sample list"
  by unfold_locales (auto simp: store_sink_def Orchestrator_SinkProcessedSamples_def case_prod_beta' Let_def)

text \<open>During a visit of m on t nothing is stored.\<close>

definition visit_frame :: "'t \<Rightarrow> 'm \<Rightarrow> 'u consumer \<Rightarrow> ('t \<times> 'm \<rightharpoonup> processed_sample list) \<Rightarrow> ('t, 'm, 'u) session_world \<Rightarrow> bool" where
  "visit_frame t m consumer P w \<longleftrightarrow> batch_visit (wd_store w) = Some (t, m, consumer) \<and> processed_samples (wd_store w) = P
    \<and> (\<exists>obj. wd_objects w m = Some (t, obj))"

lemma visit_frame_kept:
  assumes "\<forall>p c. fst (consumer [p] c) = ASTL_STATUS_SUCCESS" "visit_frame t m consumer P w"
  shows "visit_frame t m consumer P (snd (DispatchNormalizedSample (session_metrics env build) m s w))"
proof -
  obtain obj where obj: "wd_objects w m = Some (t, obj)" using assms(2) by (auto simp: visit_frame_def)
  have rel: "batch_visit (wd_store w) = Some (t, m, consumer) \<and> (\<forall>p c. fst (consumer [p] c) = ASTL_STATUS_SUCCESS)
      \<and> processed_samples (wd_store w) = P"
    using assms by (simp add: visit_frame_def)
  have "batch_visit (snd (snd (object_receive env (Some (store_sink t m)) s (obj, wd_store w)))) = Some (t, m, consumer)
      \<and> processed_samples (snd (snd (object_receive env (Some (store_sink t m)) s (obj, wd_store w)))) = P"
    using only_consumer.object_related [OF rel] unfolding only_consumer.related_def by blast
  then show ?thesis
    using assms(2) by (auto simp: DispatchNormalizedSample_def session_calls obj visit_frame_def Let_def)
qed

text \<open>What every call of a metric keeps, processing keeps.\<close>

lemma dispatch_all_kept:
  assumes "\<And>m s w. R w \<Longrightarrow> R (snd (DispatchNormalizedSample im m s w))"
  shows "R w \<Longrightarrow> R (snd (snd (dispatch_all im queue latest w)))"
proof (induction queue arbitrary: latest w)
  case (Cons x queue)
  obtain m sample where x: "x = (m, sample)" by fastforce
  obtain st w1 where d: "DispatchNormalizedSample im m sample w = (st, w1)" by fastforce
  have "R w1" using assms [OF Cons.prems, of m sample] d by simp
  then show ?case
    using Cons.IH [of w latest] Cons.IH [of w1 "RememberMetricTimestamp latest m (ns_timestamp sample)"] Cons.prems d by (simp add: x)
qed simp

lemma process_batch_kept:
  assumes "\<And>m s w. R w \<Longrightarrow> R (snd (DispatchNormalizedSample im m s w))" "R (snd mw)"
    and "ProcessRawBatch re im t samples None mw = Some (status, mw')"
  shows "R (snd mw')"
proof -
  have "R (snd (snd (DispatchProcessingQueue (re_sorter re) im queue latest (snd mw))))" for queue latest
    unfolding DispatchProcessingQueue_def by (rule dispatch_all_kept) (use assms(1,2) in simp_all)
  then show ?thesis
    using assms(3) by (auto simp: ProcessRawBatch_def ProcessRawSamples_def case_prod_beta' Let_def split: option.splits)
qed

lemma replay_stream_kept:
  assumes "\<And>m s w. R w \<Longrightarrow> R (snd (DispatchNormalizedSample im m s w))"
  shows "reader_inverts (re_read re) encode (set batches) \<Longrightarrow> [] \<notin> set batches \<Longrightarrow> R (snd mw)
    \<Longrightarrow> ReplaySerializedRawBatches re im t None (concat (map encode batches)) mw = Some (status, mw') \<Longrightarrow> R (snd mw')"
proof (induction batches arbitrary: mw)
  case Nil
  then show ?case by (simp add: ReplaySerializedRawBatches.simps reader_inverts_def)
next
  case (Cons b bs)
  have rd: "re_read re (encode b @ concat (map encode bs)) = (Inr b, concat (map encode bs))" "b \<noteq> []"
    using Cons.prems(1,2) by (auto simp: reader_inverts_def)
  have step: "ReplaySerializedRawBatches re im t None (concat (map encode (b # bs))) mw =
      Option.bind (ProcessRawBatch re im t b None mw) (\<lambda>(status, mw').
           if status \<noteq> ASTL_STATUS_SUCCESS then Some (status, mw')
           else ReplaySerializedRawBatches re im t None (concat (map encode bs)) mw')"
    using rd by (simp add: ReplaySerializedRawBatches.simps [of re im t None "encode b @ _"])
  obtain st mw1 where p: "ProcessRawBatch re im t b None mw = Some (st, mw1)"
    using Cons.prems(4) unfolding step by (cases "ProcessRawBatch re im t b None mw") auto
  have "R (snd mw1)" by (rule process_batch_kept [OF assms Cons.prems(3) p])
  moreover have "reader_inverts (re_read re) encode (set bs)" "[] \<notin> set bs" using Cons.prems(1,2) by (auto simp: reader_inverts_def)
  ultimately show ?case
    using Cons.IH [of mw1] Cons.prems(4) unfolding step p by (auto split: if_splits)
qed

lemma no_visit_kept:
  assumes "batch_visit (wd_store w) = None"
  shows "batch_visit (wd_store (snd (DispatchNormalizedSample (session_metrics env build) m s w))) = None"
  using assms object_alone(1) [OF assms]
  by (auto simp: DispatchNormalizedSample_def session_calls Let_def split: option.split)

text \<open>
  C4: the cached batches of a target, and a rest of pending samples, are replayed twice from the same
  stores, no visit being under way: by a rebuild of the target, which runs them through all its
  metrics and stores their samples, and by a visit of one metric that the target routes to and that
  is registered on it, which runs them through that metric alone and hands its samples to a consumer.
  The batches' markers are well typed, within each batch no two inputs of the metric have the same
  timestamp, the reader returns the batches that were written, and the consumer accepts every sample.
  When the rebuild succeeds, so does the visit: the consumer is given exactly the samples that the
  rebuild stored for the metric, in their order, and the visit stores nothing, drops only what was
  stored for the metric before, and changes no other metric.
\<close>

theorem visit_equals_rebuild:
  fixes st st1 :: "('t, 's, 'm::linorder, 'u) stores" and re :: "('t, 'm) replay_env"
  assumes "mm_routes (st_metrics st) t = Some r" "distinct (map fst r)" "m \<in> snd ` set r"
    and "registered_on t m (mm_counter_handles (st_metrics st) @ mm_metric_handles (st_metrics st))"
    and "wd_objects (st_world st) m = Some (t, obj)" "batch_visit (wd_store (st_world st)) = None"
    and "std_sort queue_less (re_sorter re)" "reader_inverts (re_read re) encode (set batches)" "[] \<notin> set batches"
    and "\<forall>b\<in>insert trailing (set batches). timed_batch (st_metrics st) t m b" "\<not> re_open_fails re t"
    and "\<forall>p c. consumer [p] c = (ASTL_STATUS_SUCCESS, step p c)"
    and "ProcessRawSampleCacheStream re (session_metrics env build) t (concat (map encode batches)) trailing st
      = Some (ASTL_STATUS_SUCCESS, st1)"
  shows "\<exists>st2. VisitRawMetricSampleBatches re (session_metrics env build) m t consumer (Some (concat (map encode batches))) trailing st c
      = Some (ASTL_STATUS_SUCCESS, fold step (stored_samples (wd_store (st_world st1)) t m) c, st2)
    \<and> st_processed st2 = (st_processed st)((t, m) := None)
    \<and> (\<forall>m'. m' \<noteq> m \<longrightarrow> wd_objects (st_world st2) m' = wd_objects (st_world st) m'
        \<and> mm_latest (st_metrics st2) m' = mm_latest (st_metrics st) m')"
proof -
  let ?im = "session_metrics env build :: ('m, ('t, 'm, 'u) session_world) imetric"
  let ?stream = "concat (map encode batches)" and ?mm = "st_metrics st"
  obtain st2 mw3 mm4 w4 where rb: "st2 = erase_processed t None (with_metrics (reset_target ?im t (?mm, st_world st)) st)"
    "ReplaySerializedRawBatches re ?im t None ?stream (st_metrics st2, st_world st2) = Some (ASTL_STATUS_SUCCESS, mw3)"
    "(if trailing = [] then Some (ASTL_STATUS_SUCCESS, mw3) else ProcessRawBatch re ?im t trailing None mw3) = Some (ASTL_STATUS_SUCCESS, mm4, w4)"
    "st1 = with_metrics (mm4, snd (SummarizeMetrics ?im mm4 w4)) st2"
    by (rule rebuild_stream [OF assms(6,13)])
  define lw where "lw = fold (reset_on ?im t) (mm_counter_handles ?mm @ mm_metric_handles ?mm) (mm_latest ?mm, st_world st)"
  have lw: "wd_store (snd lw) = wd_store (st_world st)" "wd_objects (snd lw) m = Some (t, object_reset obj)" "fst lw m = None"
    using reset_fold [of env build t "mm_counter_handles ?mm @ mm_metric_handles ?mm" "(mm_latest ?mm, st_world st)" m] assms(4,5)
    by (simp_all add: lw_def)
  have reset: "reset_target ?im t (?mm, st_world st) = (?mm\<lparr>mm_latest := fst lw\<rparr>, snd lw)"
    by (simp add: reset_target_def lw_def case_prod_beta' Let_def)
  have st2: "st_metrics st2 = ?mm\<lparr>mm_latest := fst lw\<rparr>" "wd_objects (st_world st2) m = Some (t, object_reset obj)"
      "batch_visit (wd_store (st_world st2)) = None" "stored_samples (wd_store (st_world st2)) t m = []"
    using lw assms(6)
    by (simp_all add: rb(1) reset erase_processed_def with_metrics_def set_processed_def st_processed_def stored_samples_def)
  let ?P = "(st_processed st)((t, m) := None)" and ?l = "(mm_latest ?mm)(m := None)"
  define stb where "stb = begin_visit t m consumer c st"
  define mw1 where "mw1 = (?mm\<lparr>mm_latest := ?l\<rparr>, im_reset ?im m (st_world stb))"
  define st3 where "st3 = erase_processed t (Some m) (with_metrics mw1 stb)"
  have stb: "batch_visit (wd_store (st_world stb)) = Some (t, m, consumer)" "st_metrics stb = ?mm"
    by (simp_all add: stb_def begin_visit_def)
  have vreset: "ResetMetricOnTarget ?im (Some t) (Some m) (st_metrics stb, st_world stb) = (ASTL_STATUS_SUCCESS, mw1)"
    using assms(4) by (auto simp: ResetMetricOnTarget_def mw1_def stb(2) registered_on_def)
  have st3: "st_metrics st3 = (st_metrics st2)\<lparr>mm_latest := ?l\<rparr>"
      "wd_objects (st_world st3) = (wd_objects (st_world st))(m \<mapsto> (t, object_reset obj))"
      "batch_visit (wd_store (st_world st3)) = Some (t, m, consumer)" "consumer_state (wd_store (st_world st3)) = c"
      "processed_samples (wd_store (st_world st3)) = ?P"
    using assms(5)
    by (simp_all add: st2(1) st3_def mw1_def stb_def begin_visit_def erase_processed_def with_metrics_def set_processed_def
      st_processed_def session_calls fun_eq_iff)
  let ?Q = "visit_frame t m consumer ?P" and ?view = "visit_view t m step c"
  have accept: "\<forall>p c. fst (consumer [p] c) = ASTL_STATUS_SUCCESS" using assms(12) by simp
  have kept: "?Q v \<Longrightarrow> ?Q (snd (DispatchNormalizedSample ?im m s v))" for v s by (rule visit_frame_kept [OF accept])
  have start: "world_ok t m step (st_world st2)" "world_ok t m step (st_world st3)" "?view m (st_world st2) = ?view m (st_world st3)"
      "?l m = mm_latest (st_metrics st2) m" "?Q (st_world st3)"
    using assms(12) lw(3) by (simp_all add: visit_ok_def visit_view_def observed_def visit_frame_def st2 st3)
  have batches: "\<forall>b\<in>set batches. timed_batch (st_metrics st2) t m b" "timed_batch ?mm t m trailing" "mm_routes (st_metrics st2) t = Some r"
    using assms(1,10) by (simp_all add: st2(1))
  obtain mm3 w3 where mw3: "mw3 = (mm3, w3)" by fastforce
  obtain l4 v4 where replay: "ReplaySerializedRawBatches re ?im t (Some m) ?stream (st_metrics st3, st_world st3)
        = Some (ASTL_STATUS_SUCCESS, (st_metrics st2)\<lparr>mm_latest := l4\<rparr>, v4)"
      "visiting.follows t m step c m ?Q (st_metrics st2) ?l (st_world st3) l4 v4 mm3 w3"
    using visiting.replay_batches [where l = ?l and Q = ?Q and m = m and v = "st_world st3",
        OF assms(7,2,3) kept batches(3,1) assms(8,9) rb(2) [unfolded mw3] start]
    unfolding st3(1) by blast
  note fo = replay(2) [unfolded visiting.follows_def]
  define latest where "latest = mm_latest mm3"
  have mm3: "mm3 = (st_metrics st2)\<lparr>mm_latest := latest\<rparr>" using fo by (simp add: latest_def)
  have none4: "batch_visit (wd_store w4) = None"
  proof -
    have "batch_visit (wd_store w3) = None"
      using replay_stream_kept [where R = "\<lambda>w. batch_visit (wd_store w) = None", OF no_visit_kept assms(8,9) _ rb(2)] st2(3) mw3
      by simp
    then show ?thesis
      using process_batch_kept [where R = "\<lambda>w. batch_visit (wd_store w) = None" and mw = mw3, OF no_visit_kept] rb(3) mw3
      by (auto split: if_splits)
  qed
  obtain l5 v5 where tail: "(if trailing = [] then Some (ASTL_STATUS_SUCCESS, (st_metrics st2)\<lparr>mm_latest := l4\<rparr>, v4)
        else ProcessRawBatch re ?im t trailing (Some m) ((st_metrics st2)\<lparr>mm_latest := l4\<rparr>, v4))
      = Some (ASTL_STATUS_SUCCESS, (st_metrics st2)\<lparr>mm_latest := l5\<rparr>, v5)"
      "?view m v5 = ?view m w4" "?Q v5" "\<forall>m'. m' \<noteq> m \<longrightarrow> ?view m' v5 = ?view m' v4 \<and> l5 m' = l4 m'"
  proof (cases "trailing = []")
    case True
    then have "mm4 = mm3 \<and> w4 = w3" using rb(3) mw3 by simp
    then show thesis using that [of l4 v4] True fo by simp
  next
    case False
    then have live: "ProcessRawBatch re ?im t trailing None (mm3, w3) = Some (ASTL_STATUS_SUCCESS, mm4, w4)" using rb(3) mw3 by simp
    have "\<exists>l' v1. ProcessRawBatch re ?im t trailing (Some m) (mm3\<lparr>mm_latest := l4\<rparr>, v4) = Some (ASTL_STATUS_SUCCESS, mm3\<lparr>mm_latest := l'\<rparr>, v1)
        \<and> visiting.follows t m step c m ?Q mm3 l4 v4 l' v1 mm4 w4"
      by (rule visiting.replay_batch [OF _ assms(2,3) _ assms(7) live])
        (use fo batches(2) assms(1) in \<open>simp_all add: mm3 st2(1) visit_frame_kept [OF accept]\<close>)
    then show thesis using that False unfolding visiting.follows_def by (auto simp: mm3)
  qed
  obtain obj5 where v5: "wd_objects v5 m = Some (t, obj5)" "batch_visit (wd_store v5) = Some (t, m, consumer)" "processed_samples (wd_store v5) = ?P"
    using tail(3) by (auto simp: visit_frame_def)
  obtain w5 where sum: "im_summarize ?im m v5 = (ASTL_STATUS_SUCCESS, w5)" "wd_store w5 = wd_store v5" "\<And>m'. m' \<noteq> m \<Longrightarrow> wd_objects w5 m' = wd_objects v5 m'"
    using summarize_store [where env = env and build = build and m = m and w = v5] v5(1) by (metis option.distinct(1) prod.collapse)
  note visited = visit_stream [OF stb(1) vreset st3_def replay(1) tail(1) sum(1)]
  have seen: "consumer_state (wd_store v5) = fold step (stored_samples (wd_store (st_world st1)) t m) c"
    using tail(2) v5(2) none4
    by (simp add: visit_view_def observed_def rb(4) with_metrics_def SummarizeMetrics_def summarize_all_store)
  have others: "wd_objects w5 m' = wd_objects (st_world st) m' \<and> l5 m' = mm_latest ?mm m'" if "m' \<noteq> m" for m'
    using sum(3) [OF that] tail(4) fo that by (simp add: visit_view_def st3(2))
  show ?thesis
    using visited seen others v5(3) assms(11)
    by (auto simp: VisitRawMetricSampleBatches_def end_visit_def with_metrics_def st_processed_def sum(2) Let_def simp flip: stb_def)
qed

section \<open>An example\<close>

definition visit_samples :: "raw_sample list" where
  "visit_samples = [small_samples ! 0, small_samples ! 2]"

definition visit_manager :: "(nat, nat, nat) metric_manager" where
  "visit_manager = small_manager\<lparr>mm_metric_handles := [\<lparr>mh_id = 1, mh_config = \<lparr>gc_config = u32_config, gc_collector = NUMA,
     gc_groups = [], gc_event = None\<rparr>, mh_metrics = [(0, 5)]\<rparr>]\<rparr>"

definition visit_stores :: "(nat, nat, nat, processed_sample list) stores" where
  "visit_stores = \<lparr>st_raw_samples = Map.empty, st_cache_files = (\<lambda>t. Some ''x''),
     st_recent = \<lparr>recent_target = None, recent_metric = None, recent_list = []\<rparr>, st_metrics = visit_manager,
     st_world = \<lparr>wd_objects = [5 \<mapsto> (0, DeltaObject u32_config (DeltaMetric u32_config))],
       wd_store = \<lparr>processed_samples = Map.empty, batch_visit = None, consumer_state = []\<rparr>, sw_next_operation = 1\<rparr>,
     st_no_cache_targets = {}\<rparr>"

definition visit_env :: "(nat, nat) replay_env" where
  "visit_env = \<lparr>re_sorter = sort_queue, re_read = (\<lambda>stream. if stream = [] then (Inr [], []) else (Inr visit_samples, tl stream)),
     re_open_fails = (\<lambda>t. False), re_batch_size = 2\<rparr>"

lemma visit_env_simps [simp]:
  "re_sorter visit_env = sort_queue" "\<not> re_open_fails visit_env t"
  "re_read visit_env stream = (if stream = [] then (Inr [], []) else (Inr visit_samples, tl stream))"
  by (simp_all add: visit_env_def)

definition visit_queue :: "nat queue" where
  "visit_queue = [(5, \<lparr>ns_operation_id = 9, ns_value = VU32 9, ns_timestamp = 120\<rparr>),
     (5, \<lparr>ns_operation_id = 9, ns_value = VU32 5, ns_timestamp = 110\<rparr>)]"

lemma visit_enqueued:
  "enqueue_targets (mm_routes small_manager) (mm_lifecycle small_manager) (mm_correlations small_manager) [(Some 0, visit_samples)] []
    = Some (ASTL_STATUS_SUCCESS, visit_queue)"
  by (simp add: EnqueueTargetSamples_def small_manager_def MetricManager_def small_samples_def visit_samples_def visit_queue_def
    EnqueueNormalizedSample_def small_normalized)

lemma visit_sorted: "sort_queue visit_queue = [visit_queue ! 1, visit_queue ! 0]"
  by (simp add: sort_queue_def visit_queue_def queue_less_def)

lemma visit_inputs: "timed_batch visit_manager 0 5 visit_samples"
  by (simp add: timed_batch_def visit_manager_def small_manager_def MetricManager_def small_samples_def visit_samples_def inputs_def
    routable_def normalized_def small_normalized well_typed_marker_def)

lemma u32_reset: "Delta_Reset u32_config (DeltaMetric u32_config) = DeltaMetric u32_config"
  by (simp add: DeltaMetric_def Delta_Reset_def Delta_InitializeSamples_def split: sum.split)

lemma visit_processed:
  fixes w :: "(nat, nat, 'u) session_world"
  assumes "wd_objects w 5 = Some (0, DeltaObject u32_config (DeltaMetric u32_config))" "l 5 = None"
  shows "\<exists>latest w1 obj. ProcessRawSamples sort_queue (session_metrics small_environment small_build) [(Some 0, visit_samples)]
      (visit_manager\<lparr>mm_latest := l\<rparr>, w) = Some (ASTL_STATUS_SUCCESS, visit_manager\<lparr>mm_latest := latest\<rparr>, w1)
    \<and> wd_objects w1 5 = Some (0, obj)"
proof -
  let ?im = "session_metrics small_environment small_build :: (nat, (nat, nat, 'u) session_world) imetric"
  have n: "fst (Delta_ReceiveRawSample identity_tinyexpr u32_config (Some (store_sink 0 5)) (snd (visit_queue ! 0))
      ((DeltaMetric u32_config)\<lparr>dm_previous := Some (snd (visit_queue ! 1))\<rparr>, wd_store w)) = ASTL_STATUS_SUCCESS"
    using small_delta_next [of "Some (store_sink 0 5)" 9 120 110 "wd_store w"] by (simp add: visit_queue_def)
  have "fst (dispatch_all ?im (sort_queue visit_queue) l w) = ASTL_STATUS_SUCCESS
      \<and> (\<exists>obj. wd_objects (snd (snd (dispatch_all ?im (sort_queue visit_queue) l w))) 5 = Some (0, obj))"
    unfolding visit_sorted
    using n assms
    by (simp add: visit_queue_def IsTimestampRegression_def RememberMetricTimestamp_def DispatchNormalizedSample_def
        session_calls on_object_def small_environment_def small_delta case_prod_beta' Let_def)
  moreover have "mm_routes (visit_manager\<lparr>mm_latest := l\<rparr>) = mm_routes small_manager"
      "mm_lifecycle (visit_manager\<lparr>mm_latest := l\<rparr>) = mm_lifecycle small_manager"
      "mm_correlations (visit_manager\<lparr>mm_latest := l\<rparr>) = mm_correlations small_manager"
    by (simp_all add: visit_manager_def)
  ultimately show ?thesis
    by (simp only: ProcessRawSamples_def fst_conv snd_conv visit_enqueued option.case prod.case DispatchProcessingQueue_def)
      (auto split: prod.split)
qed

lemma visit_rebuilt:
  "\<exists>st1. ProcessRawSampleCacheStream visit_env (session_metrics small_environment small_build) 0 ''x'' [] visit_stores
    = Some (ASTL_STATUS_SUCCESS, st1)"
proof -
  let ?im = "session_metrics small_environment small_build :: (nat, (nat, nat, processed_sample list) session_world) imetric"
  define mw1 where "mw1 = reset_target ?im 0 (st_metrics visit_stores, st_world visit_stores)"
  define st2 where "st2 = erase_processed 0 None (with_metrics mw1 visit_stores)"
  have mw1: "fst mw1 = visit_manager\<lparr>mm_latest := Map.empty(5 := None)\<rparr>"
      "wd_objects (snd mw1) 5 = Some (0, DeltaObject u32_config (DeltaMetric u32_config))"
    by (simp_all add: mw1_def reset_target_def visit_stores_def visit_manager_def small_manager_def MetricManager_def reset_on_def
      session_calls u32_reset)
  have w: "wd_objects (st_world st2) 5 = Some (0, DeltaObject u32_config (DeltaMetric u32_config))"
      "st_metrics st2 = visit_manager\<lparr>mm_latest := Map.empty(5 := None)\<rparr>"
    using mw1 by (simp_all add: st2_def erase_processed_def with_metrics_def set_processed_def)
  obtain latest w1 obj where run: "ProcessRawSamples sort_queue ?im [(Some 0, visit_samples)]
        (visit_manager\<lparr>mm_latest := Map.empty(5 := None)\<rparr>, st_world st2)
        = Some (ASTL_STATUS_SUCCESS, visit_manager\<lparr>mm_latest := latest\<rparr>, w1)"
      "wd_objects w1 5 = Some (0, obj)"
    using visit_processed [OF w(1), of "Map.empty(5 := None)"] by auto
  have "visit_samples \<noteq> []" by (simp add: visit_samples_def)
  then have replay: "ReplaySerializedRawBatches visit_env ?im 0 None ''x'' (st_metrics st2, st_world st2)
      = Some (ASTL_STATUS_SUCCESS, visit_manager\<lparr>mm_latest := latest\<rparr>, w1)"
    using run(1) by (simp add: ReplaySerializedRawBatches.simps [of visit_env] ProcessRawBatch_def w(2) Let_def)
  have "fst (SummarizeMetrics ?im (visit_manager\<lparr>mm_latest := latest\<rparr>) w1) = ASTL_STATUS_SUCCESS"
    using run(2) by (simp add: SummarizeMetrics_def visit_manager_def session_calls)
  moreover have "visited_metric visit_stores = None" by (simp add: visited_metric_def visit_stores_def)
  ultimately show ?thesis
    using replay by (auto simp: ProcessRawSampleCacheStream_def ResetMetricsOnTarget_def Let_def case_prod_beta' simp flip: mw1_def st2_def)
qed

theorem visit_equals_rebuild_witness:
  "\<exists>st1 st2. ProcessRawSampleCacheStream visit_env (session_metrics small_environment small_build) 0 ''x'' [] visit_stores
      = Some (ASTL_STATUS_SUCCESS, st1)
    \<and> VisitRawMetricSampleBatches visit_env (session_metrics small_environment small_build) 5 0 (\<lambda>batch c. (ASTL_STATUS_SUCCESS, c @ batch))
        (Some ''x'') [] visit_stores []
      = Some (ASTL_STATUS_SUCCESS, stored_samples (wd_store (st_world st1)) 0 5, st2)"
proof -
  obtain st1 where st1: "ProcessRawSampleCacheStream visit_env (session_metrics small_environment small_build) 0
      (concat (map (\<lambda>b. ''x'') [visit_samples])) [] visit_stores = Some (ASTL_STATUS_SUCCESS, st1)"
    using visit_rebuilt by auto
  have collect: "fold (\<lambda>p c. c @ [p]) ps c = c @ ps" for ps c :: "processed_sample list"
    by (induction ps arbitrary: c) simp_all
  have batches: "\<forall>b\<in>insert [] (set [visit_samples]). timed_batch (st_metrics visit_stores) 0 5 b"
    using visit_inputs by (simp add: visit_stores_def timed_batch_def visit_manager_def small_manager_def MetricManager_def)
  have routes: "mm_routes (st_metrics visit_stores) 0 = Some [(9, 5), (7, 3)]"
      "registered_on 0 5 (mm_counter_handles (st_metrics visit_stores) @ mm_metric_handles (st_metrics visit_stores))"
      "wd_objects (st_world visit_stores) 5 = Some (0, DeltaObject u32_config (DeltaMetric u32_config))"
      "batch_visit (wd_store (st_world visit_stores)) = None" "std_sort queue_less (re_sorter visit_env)"
      "reader_inverts (re_read visit_env) (\<lambda>b. ''x'') (set [visit_samples])" "[] \<notin> set [visit_samples]" "\<not> re_open_fails visit_env 0"
    by (simp_all add: visit_stores_def visit_manager_def small_manager_def MetricManager_def registered_on_def std_sort_queue
      reader_inverts_def visit_samples_def)
  show ?thesis
    using visit_equals_rebuild [OF routes(1) _ _ routes(2-7) batches routes(8) _ st1, of "\<lambda>batch c. (ASTL_STATUS_SUCCESS, c @ batch)"
        "\<lambda>p c. c @ [p]" "[]"] st1
    by (auto simp: collect)
qed

end
