(* ===== verification/Sample_Cropping.thy ===== *)
theory Sample_Cropping
  imports Sample_Replay Session_Api
begin

text \<open>
  The crop of the samples of a target (CropSamplesOnTarget in
  src/impl/orchestrator/orchestrator.cpp) and the two calls of src/astl_telemetry.cpp that offer it:
  the samples outside the given windows are removed from the processed samples, from the pending
  raw samples and from the raw sample cache, and the bounds of the windows become lifecycle events.
\<close>

section \<open>Cropping one target\<close>

fun materialize_all :: "('t, 'm) replay_env \<Rightarrow> ('m, ('t, 'm, 'u) session_world) imetric \<Rightarrow> 't
    \<Rightarrow> (('t, 'm, 's) metric_manager \<Rightarrow> 'm result) list \<Rightarrow> ('t, 's, 'm, 'u) stores \<Rightarrow> ('t, 's, 'm, 'u) stores option" where
  "materialize_all re im t [] st = Some st"
| "materialize_all re im t (get # gets) st =
    (case get (st_metrics st) of
       Inl e \<Rightarrow> materialize_all re im t gets st
     | Inr m \<Rightarrow> Option.bind (MaterializeProcessedMetricSamplesForMutation re im (Some m) (Some t) st)
         (\<lambda>(status, st'). materialize_all re im t gets st'))"

definition materialize_handles :: "('t, 'm) replay_env \<Rightarrow> ('m, ('t, 'm, 'u) session_world) imetric \<Rightarrow> 't
    \<Rightarrow> (nat \<Rightarrow> ('t, 'm, 's) metric_manager \<Rightarrow> 'm result) \<Rightarrow> nat list result
    \<Rightarrow> ('t, 's, 'm, 'u) stores \<Rightarrow> ('t, 's, 'm, 'u) stores option" where
  "materialize_handles re im t get handles st =
    (case handles of Inl e \<Rightarrow> Some st | Inr hs \<Rightarrow> materialize_all re im t (map get hs) st)"

definition EnsureProcessedSamplesLoadedForTarget :: "('t, 'm) replay_env \<Rightarrow> ('m, ('t, 'm, 'u) session_world) imetric \<Rightarrow> 't
    \<Rightarrow> ('t, 's, 'm, 'u) stores \<Rightarrow> ('t, 's, 'm, 'u) stores option" where
  "EnsureProcessedSamplesLoadedForTarget re im t st =
    Option.bind (materialize_handles re im t (\<lambda>h. GetMetricOnTarget (Some h) t) (GetAvailableMetrics t (st_metrics st)) st)
      (\<lambda>st'. materialize_handles re im t (\<lambda>h. GetCounterOnTarget h t) (GetAvailableCounters t (st_metrics st')) st')"

definition FilterProcessedSamplesOnTarget :: "'t \<Rightarrow> crop_window list \<Rightarrow> ('t, 's, 'm, 'u) stores \<Rightarrow> ('t, 's, 'm, 'u) stores" where
  "FilterProcessedSamplesOnTarget t windows st =
    set_processed (\<lambda>(t', m).
      if t' = t then map_option (FilterProcessedSamples windows) (st_processed st (t', m)) else st_processed st (t', m)) st"

definition FilterRawSamplesOnTarget :: "'t \<Rightarrow> clock_correlation_map \<Rightarrow> crop_window list
    \<Rightarrow> ('t, 's, 'm, 'u) stores \<Rightarrow> ('t, 's, 'm, 'u) stores" where
  "FilterRawSamplesOnTarget t correlations windows st =
    (case st_raw_samples st t of
       None \<Rightarrow> st
     | Some raws \<Rightarrow> if raws = [] then st
         else st\<lparr>st_raw_samples := (st_raw_samples st)(t \<mapsto> FilterRawSamples correlations windows raws)\<rparr>)"

definition inject_event :: "('m, ('t, 'm, 'u) session_world) imetric \<Rightarrow> 't \<Rightarrow> 64 word \<Rightarrow> 64 word
    \<Rightarrow> ('t, 's, 'm, 'u) stores \<Rightarrow> ('t, 's, 'm, 'u) stores" where
  "inject_event im t event ts st =
    (if ts = 0 then st
     else on_metrics (\<lambda>(mm, w). (mm, snd (InjectLifecycleEvent im (Some t) event (sint ts) mm w))) st)"

definition CROP_BEGIN :: "64 word" where "CROP_BEGIN = 2"

definition CROP_END :: "64 word" where "CROP_END = 3"

fun inject_windows :: "('m, ('t, 'm, 'u) session_world) imetric \<Rightarrow> 't \<Rightarrow> crop_window list
    \<Rightarrow> ('t, 's, 'm, 'u) stores \<Rightarrow> ('t, 's, 'm, 'u) stores" where
  "inject_windows im t [] st = st"
| "inject_windows im t (w # ws) st =
    inject_windows im t ws (inject_event im t CROP_END (cw_end_ts w) (inject_event im t CROP_BEGIN (cw_start_ts w) st))"

text \<open>std::sort of the windows and what the file system refuses, besides what a replay needs.\<close>

record ('t, 'm) crop_env = "('t, 'm) replay_env" +
  ce_sort_windows :: "crop_window list \<Rightarrow> crop_window list"
  ce_io :: "'t \<Rightarrow> crop_io"

definition CropSamplesOnTarget :: "('t, 'm) crop_env \<Rightarrow> ('t, 'c, 'cfg, 's, 'm, 'u) session_env \<Rightarrow> 't option \<Rightarrow> crop_window list
    \<Rightarrow> ('t, 'c, 's, 'm, 'u) session \<Rightarrow> (astl_status \<times> ('t, 'c, 's, 'm, 'u) session) option" where
  "CropSamplesOnTarget ce env target given s =
    (case target of
       None \<Rightarrow> Some (ASTL_STATUS_BAD_ARGUMENT, s)
     | Some t \<Rightarrow>
        (let windows = ConsolidateCropWindows (ce_sort_windows ce) given in
         case GetTargetCollectionState target s of
           Inl e \<Rightarrow> Some (e, s)
         | Inr x \<Rightarrow>
            if x = STARTED \<or> x = PAUSED then Some (ASTL_STATUS_COLLECTION_NOT_STOPPED, s)
            else Option.bind (EnsureProcessedSamplesLoadedForTarget (replay_env.truncate ce) (se_metrics env) t (ss_stores s)) (\<lambda>loaded.
              let st1 = FilterProcessedSamplesOnTarget t windows loaded;
                  correlations = GetClockCorrelations (st_metrics st1);
                  st2 = FilterRawSamplesOnTarget t correlations windows st1 in
              Option.bind (FilterRawSampleCacheFile (re_read ce) (se_serialize env t) (ce_io ce t) correlations windows (st_cache_files st2 t))
                (\<lambda>(status, file).
                  let s1 = s\<lparr>ss_stores := st2\<lparr>st_cache_files := (st_cache_files st2)(t := file)\<rparr>\<rparr> in
                  if status \<noteq> ASTL_STATUS_SUCCESS then Some (status, s1)
                  else let s2 = on_stores (inject_windows (se_metrics env) t windows) (EnsureLifecycleEventMetricForTarget env target s1) in
                    Some (ASTL_STATUS_SUCCESS,
                      on_stores (\<lambda>st. st\<lparr>st_recent := InvalidateRecentProcessedMetricSamples (st_recent st)\<rparr>) s2)))))"

section \<open>The calls\<close>

record crop_params = api_params +
  rp_windows :: "crop_window list option"

record 't crop_target_params = crop_params +
  rp_target_handle :: "'t option"

fun check_windows :: "crop_window list \<Rightarrow> astl_status" where
  "check_windows [] = ASTL_STATUS_SUCCESS"
| "check_windows (w # ws) =
    (if cw_flags w \<noteq> 0 then ASTL_STATUS_INVALID_FLAG_VALUE
     else if cw_start_ts w \<noteq> 0 \<and> cw_end_ts w \<noteq> 0 \<and> cw_start_ts w > cw_end_ts w then ASTL_STATUS_BAD_ARGUMENT
     else check_windows ws)"

definition ValidateCropWindows :: "nat \<Rightarrow> crop_window list option \<Rightarrow> astl_status" where
  "ValidateCropWindows expected windows =
    (case windows of
       None \<Rightarrow> ASTL_STATUS_BAD_ARGUMENT
     | Some [] \<Rightarrow> ASTL_STATUS_BAD_ARGUMENT
     | Some (w # ws) \<Rightarrow>
        (let status = GetStructVersionStatus (cw_size w) expected in
         if status \<noteq> ASTL_STATUS_SUCCESS then status else check_windows (w # ws)))"

definition ParseCropSamplesRequest :: "nat \<Rightarrow> 'a crop_params_scheme \<Rightarrow> crop_window list result" where
  "ParseCropSamplesRequest expected params =
    (let status = ValidateCropWindows expected (rp_windows params) in
     if status \<noteq> ASTL_STATUS_SUCCESS then Inl status
     else Inr (case rp_windows params of None \<Rightarrow> [] | Some ws \<Rightarrow> ws))"

definition ParseCropSamplesOnTargetRequest :: "nat \<Rightarrow> 't crop_target_params \<Rightarrow> ('t, 'c, 's, 'm, 'u) session
    \<Rightarrow> ('t \<times> crop_window list) result" where
  "ParseCropSamplesOnTargetRequest expected params s =
    (case rp_target_handle params of
       None \<Rightarrow> Inl ASTL_STATUS_BAD_ARGUMENT
     | Some handle \<Rightarrow>
        (let status = ValidateCropWindows expected (rp_windows params) in
         if status \<noteq> ASTL_STATUS_SUCCESS then Inl status
         else rbind (GetTargetFromHandle handle s) (\<lambda>t.
           Inr (t, case rp_windows params of None \<Rightarrow> [] | Some ws \<Rightarrow> ws))))"

definition ValidateAllCropTargetsStopped :: "('t, 'c, 's, 'm, 'u) session \<Rightarrow> astl_status" where
  "ValidateAllCropTargetsStopped s =
    (if list_ex (\<lambda>(t, x). x = STARTED \<or> x = PAUSED) (ss_states s) then ASTL_STATUS_COLLECTION_NOT_STOPPED
     else ASTL_STATUS_SUCCESS)"

fun crop_targets :: "('t, 'm) crop_env \<Rightarrow> ('t, 'c, 'cfg, 's, 'm, 'u) session_env \<Rightarrow> crop_window list \<Rightarrow> 't list \<Rightarrow> astl_status
    \<Rightarrow> ('t, 'c, 's, 'm, 'u) session \<Rightarrow> (astl_status \<times> ('t, 'c, 's, 'm, 'u) session) option" where
  "crop_targets ce env windows [] acc s = Some (acc, s)"
| "crop_targets ce env windows (t # ts) acc s =
    Option.bind (CropSamplesOnTarget ce env (Some t) windows s) (\<lambda>(status, s').
      crop_targets ce env windows ts (keep_first_error acc status) s')"

definition CropSamplesOnAllTargets :: "('t, 'm) crop_env \<Rightarrow> ('t, 'c, 'cfg, 's, 'm, 'u) session_env \<Rightarrow> crop_window list
    \<Rightarrow> ('t, 'c, 's, 'm, 'u) session \<Rightarrow> (astl_status \<times> ('t, 'c, 's, 'm, 'u) session) option" where
  "CropSamplesOnAllTargets ce env windows s = crop_targets ce env windows (ss_targets s) ASTL_STATUS_SUCCESS s"

definition normalized_call :: "(astl_status \<times> 'a) option \<Rightarrow> (astl_status \<times> 'a) option" where
  "normalized_call = map_option (\<lambda>(status, s). (NormalizePublicApiStatus status, s))"

definition astlCropSamplesOnTarget :: "('t, 'm) crop_env \<Rightarrow> ('t, 'c, 'cfg, 's, 'm, 'u) session_env \<Rightarrow> nat \<Rightarrow> nat
    \<Rightarrow> 't crop_target_params option \<Rightarrow> ('t, 'c, 's, 'm, 'u) session
    \<Rightarrow> (astl_status \<times> ('t, 'c, 's, 'm, 'u) session) option" where
  "astlCropSamplesOnTarget ce env expected expected_window params s = normalized_call
    (case params of
       None \<Rightarrow> Some (ASTL_STATUS_BAD_ARGUMENT, s)
     | Some p \<Rightarrow>
        (let status = ValidateApiParams expected params in
         if status \<noteq> ASTL_STATUS_SUCCESS then Some (status, s)
         else case ParseCropSamplesOnTargetRequest expected_window p s of
             Inl e \<Rightarrow> Some (e, s)
           | Inr (t, windows) \<Rightarrow> CropSamplesOnTarget ce env (Some t) windows s))"

definition astlCropSamples :: "('t, 'm) crop_env \<Rightarrow> ('t, 'c, 'cfg, 's, 'm, 'u) session_env \<Rightarrow> nat \<Rightarrow> nat
    \<Rightarrow> crop_params option \<Rightarrow> ('t, 'c, 's, 'm, 'u) session
    \<Rightarrow> (astl_status \<times> ('t, 'c, 's, 'm, 'u) session) option" where
  "astlCropSamples ce env expected expected_window params s = normalized_call
    (case params of
       None \<Rightarrow> Some (ASTL_STATUS_BAD_ARGUMENT, s)
     | Some p \<Rightarrow>
        (let status = ValidateApiParams expected params in
         if status \<noteq> ASTL_STATUS_SUCCESS then Some (status, s)
         else case ParseCropSamplesRequest expected_window p of
             Inl e \<Rightarrow> Some (e, s)
           | Inr windows \<Rightarrow>
              (let status = ValidateAllCropTargetsStopped s in
               if status \<noteq> ASTL_STATUS_SUCCESS then Some (status, s) else CropSamplesOnAllTargets ce env windows s)))"

section \<open>What a crop keeps\<close>

text \<open>Two stores with the same samples and clocks, whatever the metrics did.\<close>

definition same_raw :: "('t, 's, 'm, 'u) stores \<Rightarrow> ('t, 's, 'm, 'u) stores \<Rightarrow> bool" where
  "same_raw st st' \<longleftrightarrow> st_raw_samples st' = st_raw_samples st \<and> st_cache_files st' = st_cache_files st
    \<and> mm_correlations (st_metrics st') = mm_correlations (st_metrics st)"

lemma same_raw_refl [simp]: "same_raw st st"
  by (simp add: same_raw_def)

lemma same_raw_trans: "same_raw st st' \<Longrightarrow> same_raw st' st'' \<Longrightarrow> same_raw st st''"
  by (simp add: same_raw_def)

lemma same_raw_processed [simp]: "same_raw st (set_processed p st') = same_raw st st'"
  "same_raw st (erase_processed t m st') = same_raw st st'"
  by (simp_all add: same_raw_def set_processed_def erase_processed_def)

lemma process_batch_total:
  assumes "std_sort queue_less (re_sorter re)" "\<forall>sample\<in>set samples. well_typed_marker sample"
  shows "\<exists>status latest w. ProcessRawBatch re im t samples metric mw = Some (status, (fst mw)\<lparr>mm_latest := latest\<rparr>, w)"
proof (cases metric)
  case None
  have wt: "\<forall>(t, samples)\<in>set [(Some t, samples)]. \<forall>sample\<in>set samples. well_typed_marker sample" using assms(2) by simp
  show ?thesis
    using process_raw_samples_calls [OF assms(1) wt, of im "fst mw" "snd mw"] None by (fastforce simp: ProcessRawBatch_def)
next
  case (Some m)
  let ?in = "BuildTargetedReplayInput (replay_routes_for (fst mw) (Some t)) (mm_lifecycle (fst mw)) (mm_metric_handles (fst mw)) (Some t) m samples"
  have "\<exists>status queue. enqueue_replay (fst mw) m [(Some t, samples)] [] = Some (status, queue)"
  proof (cases ?in)
    case (Inr input)
    obtain routes event samples' where i: "input = (routes, event, samples')" by (metis surj_pair)
    have "set samples' \<subseteq> set samples"
      using Inr by (auto simp: i BuildTargetedReplayInput_def Let_def split: option.splits if_splits)
    then have "\<forall>sample\<in>set samples'. well_typed_marker sample" using assms(2) by blast
    from enqueue_samples_routed [OF this, of event routes "mm_correlations (fst mw)" "[]"]
    show ?thesis using Inr by (auto simp: i EnqueueTargetSamples_def)
  qed simp
  then obtain status queue where e: "enqueue_replay (fst mw) m [(Some t, samples)] [] = Some (status, queue)" by blast
  obtain status' latest w where d: "DispatchProcessingQueue (re_sorter re) im queue (mm_latest (fst mw)) (snd mw) = (status', latest, w)"
    by (metis surj_pair)
  show ?thesis
  proof (cases "status = ASTL_STATUS_SUCCESS")
    case True
    then show ?thesis
      by (intro exI [of _ status'] exI [of _ latest] exI [of _ w])
        (simp add: ProcessRawBatch_def ProcessRawSamplesForMetric_def Some e d del: enqueue_replay.simps)
  next
    case False
    then show ?thesis
      by (intro exI [of _ status] exI [of _ "mm_latest (fst mw)"] exI [of _ "snd mw"])
        (simp add: ProcessRawBatch_def ProcessRawSamplesForMetric_def Some e del: enqueue_replay.simps)
  qed
qed

lemma replay_batches_total:
  assumes "std_sort queue_less (re_sorter re)"
  shows "reader_inverts (re_read re) encode (set batches) \<Longrightarrow> [] \<notin> set batches
    \<Longrightarrow> \<forall>b\<in>set batches. \<forall>sample\<in>set b. well_typed_marker sample
    \<Longrightarrow> \<exists>status latest w. ReplaySerializedRawBatches re im t metric (concat (map encode batches)) mw
          = Some (status, (fst mw)\<lparr>mm_latest := latest\<rparr>, w)"
proof (induction batches arbitrary: mw)
  case Nil
  then show ?case
    by (intro exI [of _ ASTL_STATUS_SUCCESS] exI [of _ "mm_latest (fst mw)"] exI [of _ "snd mw"])
      (simp add: ReplaySerializedRawBatches.simps [of re im t metric "[]"] reader_inverts_def)
next
  case (Cons b bs)
  have rd: "re_read re (encode b @ concat (map encode bs)) = (Inr b, concat (map encode bs))" "b \<noteq> []"
    using Cons.prems by (auto simp: reader_inverts_def)
  obtain status latest w where p: "ProcessRawBatch re im t b metric mw = Some (status, (fst mw)\<lparr>mm_latest := latest\<rparr>, w)"
    using process_batch_total [OF assms] Cons.prems(3) by (metis list.set_intros(1))
  have "reader_inverts (re_read re) encode (set bs)" "[] \<notin> set bs" "\<forall>b\<in>set bs. \<forall>sample\<in>set b. well_typed_marker sample"
    using Cons.prems by (auto simp: reader_inverts_def)
  from Cons.IH [OF this, of "((fst mw)\<lparr>mm_latest := latest\<rparr>, w)"] show ?case
    by (auto simp: ReplaySerializedRawBatches.simps [of re im t metric "encode b @ _"] rd p)
qed

lemma reset_correlations [simp]:
  "mm_correlations (fst (snd (ResetMetricsOnTarget im target mw))) = mm_correlations (fst mw)"
  "mm_correlations (fst (snd (ResetMetricOnTarget im target metric mw))) = mm_correlations (fst mw)"
  by (simp_all add: ResetMetricsOnTarget_def ResetMetricOnTarget_def reset_target_def case_prod_beta' Let_def split: option.split)

lemma same_raw_with_metrics [simp]:
  "same_raw st (with_metrics mw st') \<longleftrightarrow> st_raw_samples st' = st_raw_samples st \<and> st_cache_files st' = st_cache_files st
    \<and> mm_correlations (fst mw) = mm_correlations (st_metrics st)"
  by (simp add: same_raw_def with_metrics_def)

lemma cache_stream_total:
  assumes sorter: "std_sort queue_less (re_sorter re)"
    and reader: "reader_inverts (re_read re) encode (set batches)" "[] \<notin> set batches"
    and typed: "\<forall>b\<in>set batches. \<forall>sample\<in>set b. well_typed_marker sample" "\<forall>sample\<in>set trailing. well_typed_marker sample"
  shows "\<exists>status st'. ProcessRawSampleCacheStream re im t (concat (map encode batches)) trailing st = Some (status, st') \<and> same_raw st st'"
proof -
  let ?metric = "visited_metric st" and ?mw = "(st_metrics st, st_world st)"
  obtain reset_status mw1 where r: "(case ?metric of Some m \<Rightarrow> ResetMetricOnTarget im (Some t) (Some m) ?mw
      | None \<Rightarrow> ResetMetricsOnTarget im (Some t) ?mw) = (reset_status, mw1)" by (meson surj_pair)
  then have c1: "mm_correlations (fst mw1) = mm_correlations (st_metrics st)"
    using reset_correlations(1) [of im "Some t" ?mw] reset_correlations(2) [of im "Some t" ?metric ?mw] by (cases ?metric) auto
  define st2 where "st2 = erase_processed t ?metric (with_metrics mw1 st)"
  have c2: "same_raw st st2" using c1 by (simp add: st2_def)
  obtain status latest w where p: "ReplaySerializedRawBatches re im t ?metric (concat (map encode batches)) (st_metrics st2, st_world st2)
      = Some (status, (st_metrics st2)\<lparr>mm_latest := latest\<rparr>, w)"
    using replay_batches_total [OF sorter reader typed(1), of im t ?metric "(st_metrics st2, st_world st2)"] by auto
  obtain status' latest' w' where q: "(if trailing = [] then Some (ASTL_STATUS_SUCCESS, (st_metrics st2)\<lparr>mm_latest := latest\<rparr>, w)
      else ProcessRawBatch re im t trailing ?metric ((st_metrics st2)\<lparr>mm_latest := latest\<rparr>, w))
      = Some (status', (st_metrics st2)\<lparr>mm_latest := latest'\<rparr>, w')"
    using process_batch_total [OF sorter typed(2), of im t ?metric "((st_metrics st2)\<lparr>mm_latest := latest\<rparr>, w)"]
    by (cases "trailing = []") auto
  have "same_raw st (with_metrics (mm, w) st2) \<longleftrightarrow> mm_correlations mm = mm_correlations (st_metrics st)" for mm w
    using c2 by (simp add: same_raw_def with_metrics_def)
  then show ?thesis
    using c1 c2 unfolding ProcessRawSampleCacheStream_def Let_def r prod.case st2_def [symmetric] p q Option.bind.bind_lunit
    by (auto simp: q same_raw_def with_metrics_def case_prod_beta')
qed

text \<open>What is required of the environment and of the raw samples of a target for a crop to return.\<close>

definition croppable :: "('t, 'm::linorder) replay_env \<Rightarrow> (raw_sample list \<Rightarrow> char list) \<Rightarrow> raw_sample list list \<Rightarrow> bool" where
  "croppable re encode batches \<longleftrightarrow> std_sort queue_less (re_sorter re) \<and> reader_inverts (re_read re) encode (set batches)
    \<and> [] \<notin> set batches \<and> (\<forall>b\<in>set batches. \<forall>sample\<in>set b. well_typed_marker sample)"

lemma materialize_total:
  assumes "croppable re encode batches" "st_cache_files st t = Some (concat (map encode batches))"
  shows "\<exists>status st'. MaterializeProcessedMetricSamplesForMutation re im (Some m) (Some t) st = Some (status, st') \<and> same_raw st st'"
  using cache_stream_total [of re encode batches "[]" im t st] assms
  by (auto simp: croppable_def MaterializeProcessedMetricSamplesForMutation_def ReplayRawSampleCacheForTarget_def)

lemma materialize_all_total:
  assumes "croppable re encode batches"
  shows "st_cache_files st t = Some (concat (map encode batches)) \<Longrightarrow> \<exists>st'. materialize_all re im t gets st = Some st' \<and> same_raw st st'"
proof (induction gets arbitrary: st)
  case (Cons get gets)
  show ?case
  proof (cases "get (st_metrics st)")
    case (Inl e)
    then show ?thesis using Cons by simp
  next
    case (Inr m)
    obtain status st1 where m: "MaterializeProcessedMetricSamplesForMutation re im (Some m) (Some t) st = Some (status, st1)" "same_raw st st1"
      using materialize_total [OF assms Cons.prems] by blast
    have "st_cache_files st1 t = Some (concat (map encode batches))" using m(2) Cons.prems by (simp add: same_raw_def)
    from Cons.IH [OF this] show ?thesis using m by (auto simp: Inr intro: same_raw_trans)
  qed
qed simp

lemma materialize_handles_total:
  assumes "croppable re encode batches" "st_cache_files st t = Some (concat (map encode batches))"
  shows "\<exists>st'. materialize_handles re im t get handles st = Some st' \<and> same_raw st st'"
  using materialize_all_total [OF assms] by (cases handles) (auto simp: materialize_handles_def)

lemma ensure_loaded_total:
  assumes "croppable re encode batches" "st_cache_files st t = Some (concat (map encode batches))"
  shows "\<exists>st'. EnsureProcessedSamplesLoadedForTarget re im t st = Some st' \<and> same_raw st st'"
proof -
  obtain st1 where m: "materialize_handles re im t (\<lambda>h. GetMetricOnTarget (Some h) t) (GetAvailableMetrics t (st_metrics st)) st = Some st1"
      "same_raw st st1"
    using materialize_handles_total [OF assms] by blast
  have "st_cache_files st1 t = Some (concat (map encode batches))" using m(2) assms(2) by (simp add: same_raw_def)
  from materialize_handles_total [OF assms(1) this] obtain st2 where
    "materialize_handles re im t (\<lambda>h. GetCounterOnTarget h t) (GetAvailableCounters t (st_metrics st1)) st1 = Some st2" "same_raw st1 st2"
    by blast
  with m show ?thesis by (auto simp: EnsureProcessedSamplesLoadedForTarget_def intro: same_raw_trans)
qed

lemma filter_consolidated:
  "std_sort window_less sorter \<Longrightarrow>
    FilterRawSamples correlations (ConsolidateCropWindows sorter windows) = FilterRawSamples correlations windows"
  by (intro ext) (simp add: FilterRawSamples_def keeps_raw_def [abs_def] consolidate_times cong: option.case_cong)

definition same_files :: "('t, 's, 'm, 'u) stores \<Rightarrow> ('t, 's, 'm, 'u) stores \<Rightarrow> bool" where
  "same_files st st' \<longleftrightarrow> st_raw_samples st' = st_raw_samples st \<and> st_cache_files st' = st_cache_files st"

lemma same_files_inject: "same_files st (inject_windows im t ws st)"
proof (induction ws arbitrary: st)
  case (Cons w ws)
  have "same_files st (inject_event im t CROP_END (cw_end_ts w) (inject_event im t CROP_BEGIN (cw_start_ts w) st))"
    by (simp add: inject_event_def on_metrics_def same_files_def case_prod_beta' Let_def)
  then show ?case
    using Cons.IH [of "inject_event im t CROP_END (cw_end_ts w) (inject_event im t CROP_BEGIN (cw_start_ts w) st)"]
    by (simp add: same_files_def)
qed (simp add: same_files_def)

lemma same_files_lifecycle: "same_files (ss_stores s) (ss_stores (EnsureLifecycleEventMetricForTarget env target s))"
  by (simp add: EnsureLifecycleEventMetricForTarget_def RegisterLifecycleEventMetricForTarget_def same_files_def
    on_stores_def on_metrics_def case_prod_beta' Let_def split: option.split)

lemma pending_filtered:
  "pending_samples t (FilterRawSamplesOnTarget t correlations windows st) = FilterRawSamples correlations windows (pending_samples t st)"
  by (simp add: FilterRawSamplesOnTarget_def pending_samples_def FilterRawSamples_def split: option.split)

lemma filtered_frame [simp]:
  "st_cache_files (FilterRawSamplesOnTarget t correlations windows st) = st_cache_files st"
  "u \<noteq> t \<Longrightarrow> st_raw_samples (FilterRawSamplesOnTarget t correlations windows st) u = st_raw_samples st u"
  "st_raw_samples (FilterProcessedSamplesOnTarget t windows st) = st_raw_samples st"
  "st_cache_files (FilterProcessedSamplesOnTarget t windows st) = st_cache_files st"
  "st_metrics (FilterProcessedSamplesOnTarget t windows st) = st_metrics st"
  by (simp_all add: FilterRawSamplesOnTarget_def FilterProcessedSamplesOnTarget_def set_processed_def split: option.split)

text \<open>The last step of a crop: the lifecycle events and the recent snapshot.\<close>

definition finish_crop :: "('t, 'c, 'cfg, 's, 'm, 'u) session_env \<Rightarrow> 't \<Rightarrow> crop_window list
    \<Rightarrow> ('t, 'c, 's, 'm, 'u) session \<Rightarrow> ('t, 'c, 's, 'm, 'u) session" where
  "finish_crop env t windows s =
    on_stores (\<lambda>st. st\<lparr>st_recent := InvalidateRecentProcessedMetricSamples (st_recent st)\<rparr>)
      (on_stores (inject_windows (se_metrics env) t windows) (EnsureLifecycleEventMetricForTarget env (Some t) s))"

lemma finish_crop_frame:
  "same_files (ss_stores s) (ss_stores (finish_crop env t windows s))" "control (finish_crop env t windows s) = control s"
proof -
  show "same_files (ss_stores s) (ss_stores (finish_crop env t windows s))"
    using same_files_lifecycle [of s env "Some t"]
      same_files_inject [of "ss_stores (EnsureLifecycleEventMetricForTarget env (Some t) s)" "se_metrics env" t windows]
    by (simp add: finish_crop_def same_files_def on_stores_def)
  show "control (finish_crop env t windows s) = control s" by (simp add: finish_crop_def)
qed

lemma finish_crop_stores: "finish_crop env t windows s = s\<lparr>ss_stores := ss_stores (finish_crop env t windows s)\<rparr>"
  by (simp add: finish_crop_def on_stores_def EnsureLifecycleEventMetricForTarget_def RegisterLifecycleEventMetricForTarget_def
    case_prod_beta' Let_def split: option.split)

lemma crop_runs:
  assumes crop: "croppable (replay_env.truncate ce) encode batches" "st_cache_files (ss_stores s) t = Some (concat (map encode batches))"
    and sort: "std_sort window_less (ce_sort_windows ce)"
    and target: "t \<in> set (ss_targets s)" "state_of s t = Some x" "x \<noteq> STARTED" "x \<noteq> PAUSED"
  obtains st2 where
    "CropSamplesOnTarget ce env (Some t) windows s
      = Option.bind (FilterRawSampleCacheFile (re_read ce) (se_serialize env t) (ce_io ce t) (mm_correlations (st_metrics (ss_stores s)))
            (ConsolidateCropWindows (ce_sort_windows ce) windows) (Some (concat (map encode batches))))
          (\<lambda>(status, file). let s1 = s\<lparr>ss_stores := st2\<lparr>st_cache_files := (st_cache_files (ss_stores s))(t := file)\<rparr>\<rparr> in
            Some (status, if status \<noteq> ASTL_STATUS_SUCCESS then s1
              else finish_crop env t (ConsolidateCropWindows (ce_sort_windows ce) windows) s1))"
    "pending_samples t st2 = FilterRawSamples (mm_correlations (st_metrics (ss_stores s))) windows (pending_samples t (ss_stores s))"
    "\<And>u. u \<noteq> t \<Longrightarrow> st_raw_samples st2 u = st_raw_samples (ss_stores s) u"
proof -
  obtain loaded where l: "EnsureProcessedSamplesLoadedForTarget (replay_env.truncate ce) (se_metrics env) t (ss_stores s) = Some loaded"
      "same_raw (ss_stores s) loaded"
    using ensure_loaded_total [OF crop] by blast
  let ?windows = "ConsolidateCropWindows (ce_sort_windows ce) windows" and ?cor = "mm_correlations (st_metrics (ss_stores s))"
  define st2 where "st2 = FilterRawSamplesOnTarget t ?cor ?windows (FilterProcessedSamplesOnTarget t ?windows loaded)"
  have "GetTargetCollectionState (Some t) s = Inr x" using target by (simp add: GetTargetCollectionState_def)
  then have "CropSamplesOnTarget ce env (Some t) windows s
      = Option.bind (FilterRawSampleCacheFile (re_read ce) (se_serialize env t) (ce_io ce t) ?cor ?windows (Some (concat (map encode batches))))
          (\<lambda>(status, file). let s1 = s\<lparr>ss_stores := st2\<lparr>st_cache_files := (st_cache_files (ss_stores s))(t := file)\<rparr>\<rparr> in
            Some (status, if status \<noteq> ASTL_STATUS_SUCCESS then s1 else finish_crop env t ?windows s1))"
    using l crop(2) target(3,4)
    by (auto simp: CropSamplesOnTarget_def same_raw_def st2_def GetClockCorrelations_def finish_crop_def Let_def intro!: Option.bind_cong)
  moreover have "pending_samples t st2 = FilterRawSamples ?cor windows (pending_samples t (ss_stores s))"
    using l(2) unfolding st2_def pending_filtered filter_consolidated [OF sort] by (simp add: pending_samples_def same_raw_def)
  moreover have "st_raw_samples st2 u = st_raw_samples (ss_stores s) u" if "u \<noteq> t" for u
    using that l(2) by (simp add: st2_def same_raw_def)
  ultimately show ?thesis by (rule that)
qed

end
