(* ===== verification/Crop_Properties.thy ===== *)
theory Crop_Properties
  imports Session_Properties Sample_Cropping
begin

text \<open>What cropping a target promises, from the consolidated windows down to the bytes of its cache file.\<close>

section \<open>The samples of a cropped target\<close>

text \<open>
  C12: a crop of a target whose cache file holds some batches of raw samples returns.  While the
  collection runs it is refused and changes nothing.  Otherwise the pending raw samples are exactly
  those the given windows keep, in order, whatever the outcome; on success the cache file holds
  exactly the kept samples of every batch, in order, and is gone when there are none; a failure
  leaves the file as it was, except that of renaming, which loses it.  Of the session only the stores
  change, and in them the raw samples and the files of no other target.
\<close>

theorem crop_target_exact:
  fixes s :: "('t, 'c, 's, 'm::linorder, 'u) session"
  assumes "croppable (replay_env.truncate ce) encode batches" "serializer_appends (se_serialize env t) encode"
    and "std_sort window_less (ce_sort_windows ce)"
    and "t \<in> set (ss_targets s)" "state_of s t = Some x" "st_cache_files (ss_stores s) t = Some (concat (map encode batches))"
  shows "\<exists>status s'. CropSamplesOnTarget ce env (Some t) windows s = Some (status, s')
    \<and> (if x = STARTED \<or> x = PAUSED then status = ASTL_STATUS_COLLECTION_NOT_STOPPED \<and> s' = s
       else let keep = filter (keeps_raw (mm_correlations (st_metrics (ss_stores s))) windows);
                kept = filter (\<lambda>b. b \<noteq> []) (map keep batches) in
         pending_samples t (ss_stores s') = keep (pending_samples t (ss_stores s))
         \<and> (if status = ASTL_STATUS_SUCCESS
            then st_cache_files (ss_stores s') t = (if kept = [] then None else Some (concat (map encode kept)))
            else st_cache_files (ss_stores s') t = st_cache_files (ss_stores s) t
              \<or> ci_rename_fails (ce_io ce t) \<and> st_cache_files (ss_stores s') t = None))
    \<and> s' = s\<lparr>ss_stores := ss_stores s'\<rparr>
    \<and> (\<forall>u. u \<noteq> t \<longrightarrow> st_raw_samples (ss_stores s') u = st_raw_samples (ss_stores s) u
        \<and> st_cache_files (ss_stores s') u = st_cache_files (ss_stores s) u)"
proof (cases "x = STARTED \<or> x = PAUSED")
  case True
  then show ?thesis using assms(4,5) by (simp add: CropSamplesOnTarget_def GetTargetCollectionState_def Let_def)
next
  case False
  let ?st = "ss_stores s" and ?windows = "ConsolidateCropWindows (ce_sort_windows ce) windows"
  let ?cor = "mm_correlations (st_metrics ?st)"
  obtain st2 where run: "CropSamplesOnTarget ce env (Some t) windows s
      = Option.bind (FilterRawSampleCacheFile (re_read ce) (se_serialize env t) (ce_io ce t) ?cor ?windows (Some (concat (map encode batches))))
          (\<lambda>(status, bytes). let s1 = s\<lparr>ss_stores := st2\<lparr>st_cache_files := (st_cache_files ?st)(t := bytes)\<rparr>\<rparr> in
            Some (status, if status \<noteq> ASTL_STATUS_SUCCESS then s1 else finish_crop env t ?windows s1))"
      "pending_samples t st2 = FilterRawSamples ?cor windows (pending_samples t ?st)"
      "\<And>u. u \<noteq> t \<Longrightarrow> st_raw_samples st2 u = st_raw_samples ?st u"
    using crop_runs [OF assms(1,6,3,4,5), of env windows] False by auto
  have "reader_inverts (re_read ce) encode (set batches)" "[] \<notin> set batches"
    using assms(1) by (simp_all add: croppable_def replay_env.truncate_def)
  from filter_cache_exact [OF assms(2) this, of "ce_io ce t" ?cor ?windows] obtain status bytes where
    f: "FilterRawSampleCacheFile (re_read ce) (se_serialize env t) (ce_io ce t) ?cor ?windows (Some (concat (map encode batches)))
        = Some (status, bytes)"
      "status = ASTL_STATUS_SUCCESS \<Longrightarrow> (let kept = filter (\<lambda>b. b \<noteq> []) (map (FilterRawSamples ?cor windows) batches) in
         bytes = (if kept = [] then None else Some (concat (map encode kept))))"
      "status \<noteq> ASTL_STATUS_SUCCESS \<Longrightarrow> bytes = st_cache_files ?st t \<or> ci_rename_fails (ce_io ce t) \<and> bytes = None"
    unfolding filter_consolidated [OF assms(3)] assms(6) by blast
  define s1 where "s1 = s\<lparr>ss_stores := st2\<lparr>st_cache_files := (st_cache_files ?st)(t := bytes)\<rparr>\<rparr>"
  define s' where "s' = (if status \<noteq> ASTL_STATUS_SUCCESS then s1 else finish_crop env t ?windows s1)"
  have r: "CropSamplesOnTarget ce env (Some t) windows s = Some (status, s')"
    by (simp add: run(1) f(1) s'_def s1_def)
  have same: "same_files (ss_stores s1) (ss_stores s')"
    using finish_crop_frame(1) [of s1 env t ?windows] by (simp add: s'_def same_files_def)
  have frame: "s' = s\<lparr>ss_stores := ss_stores s'\<rparr>"
    using finish_crop_stores [of env t ?windows s1] by (auto simp: s'_def s1_def)
  show ?thesis
  proof (intro exI [of _ status] exI [of _ s'] conjI r frame)
    show "\<forall>u. u \<noteq> t \<longrightarrow> st_raw_samples (ss_stores s') u = st_raw_samples ?st u \<and> st_cache_files (ss_stores s') u = st_cache_files ?st u"
      using same run(3) by (simp add: same_files_def s1_def)
    show "if x = STARTED \<or> x = PAUSED then status = ASTL_STATUS_COLLECTION_NOT_STOPPED \<and> s' = s
       else let keep = filter (keeps_raw ?cor windows);
                kept = filter (\<lambda>b. b \<noteq> []) (map keep batches) in
         pending_samples t (ss_stores s') = keep (pending_samples t ?st)
         \<and> (if status = ASTL_STATUS_SUCCESS
            then st_cache_files (ss_stores s') t = (if kept = [] then None else Some (concat (map encode kept)))
            else st_cache_files (ss_stores s') t = st_cache_files ?st t
              \<or> ci_rename_fails (ce_io ce t) \<and> st_cache_files (ss_stores s') t = None)"
      using same run(2) f(2,3) False
      by (simp add: same_files_def s1_def pending_samples_def FilterRawSamples_def [abs_def] Let_def)
  qed
qed

section \<open>A stopped target with two batches\<close>

definition crop_example_env :: "(nat, nat) crop_env" where
  "crop_example_env = \<lparr>re_sorter = sort_queue, re_read = example_read, re_open_fails = (\<lambda>t. False), re_batch_size = 4,
     ce_sort_windows = sort_windows, ce_io = (\<lambda>t. \<lparr>ci_open_fails = False, ci_stale_fails = False, ci_create_fails = False,
       ci_remove_fails = False, ci_rename_fails = False\<rparr>)\<rparr>"

definition crop_example_session :: "(nat, nat numa_collector, nat, nat, unit) session" where
  "crop_example_session = example_session
     \<lparr>ss_states := [(2, STOPPED), (3, UNCONFIGURED)],
      ss_stores := (ss_stores example_session)
        \<lparr>st_cache_files := (\<lambda>t. None)(2 := Some (concat (map example_encode [[PauseMarker 2], [PauseMarker 5, PauseMarker 12]]))),
         st_raw_samples := [2 \<mapsto> [PauseMarker 15, PauseMarker 6]]\<rparr>\<rparr>"

theorem crop_target_exact_witness:
  "\<exists>status s'. CropSamplesOnTarget crop_example_env
      ((example_session_env {} True)\<lparr>se_serialize := \<lambda>t batch bytes. (ASTL_STATUS_SUCCESS, bytes @ example_encode batch)\<rparr>) (Some 2)
      [\<lparr>cw_size = 32, cw_flags = 0, cw_start_ts = 4, cw_end_ts = 9\<rparr>] crop_example_session = Some (status, s')
    \<and> pending_samples 2 (ss_stores s') = [PauseMarker 6]
    \<and> (status = ASTL_STATUS_SUCCESS \<longrightarrow> st_cache_files (ss_stores s') 2 = Some (example_encode [PauseMarker 5]))"
proof -
  let ?env = "(example_session_env {} True)\<lparr>se_serialize := \<lambda>t batch bytes. (ASTL_STATUS_SUCCESS, bytes @ example_encode batch)\<rparr>"
  let ?batches = "[[PauseMarker 2], [PauseMarker 5, PauseMarker 12]]"
  have c: "croppable (replay_env.truncate crop_example_env) example_encode ?batches"
    using example_reader
    by (simp add: croppable_def crop_example_env_def replay_env.truncate_def std_sort_queue well_typed_marker_def PauseMarker_def)
  have a: "serializer_appends (se_serialize ?env 2) example_encode" using example_serializer by simp
  have w: "std_sort window_less (ce_sort_windows crop_example_env)" by (simp add: crop_example_env_def std_sort_windows)
  have t: "2 \<in> set (ss_targets crop_example_session)" "state_of crop_example_session 2 = Some STOPPED"
      "st_cache_files (ss_stores crop_example_session) 2 = Some (concat (map example_encode ?batches))"
      "pending_samples 2 (ss_stores crop_example_session) = [PauseMarker 15, PauseMarker 6]"
    by (simp_all add: crop_example_session_def example_session_def Orchestrator_def state_of_def pending_samples_def)
  from crop_target_exact [OF c a w t(1-3), of "[\<lparr>cw_size = 32, cw_flags = 0, cw_start_ts = 4, cw_end_ts = 9\<rparr>]"]
  show ?thesis
    by (auto simp: t(4) keeps_raw_def IsPauseResumeMarkerOperationId_def PauseMarker_def IsTimestampWithinWindows_def in_window_def Let_def)
qed

end
