(* ===== verification/Scmi_Text.thy ===== *)
theory Scmi_Text
  imports Text_Utils
begin

text \<open>
  The text of the SCMI value files, as src/impl/scmi/scmi_sysfs_collector.cpp and
  scmi_data_event.hpp read it: a decimal time stamp and a hexadecimal value, apart or together.
\<close>

section \<open>Hexadecimal numbers\<close>

definition hex_digit :: "char \<Rightarrow> nat option" where
  "hex_digit c =
    (let n = of_char c :: nat in
     if 48 \<le> n \<and> n \<le> 57 then Some (n - 48)
     else if 65 \<le> n \<and> n \<le> 70 then Some (n - 55)
     else if 97 \<le> n \<and> n \<le> 102 then Some (n - 87)
     else None)"

definition hex_value :: "string \<Rightarrow> nat" where
  "hex_value ds = foldl (\<lambda>n c. 16 * n + the (hex_digit c)) 0 ds"

text \<open>std::from_chars with base 16, on a w-bit unsigned integer.\<close>

definition from_chars_hex :: "nat \<Rightarrow> string \<Rightarrow> (nat \<times> string) option" where
  "from_chars_hex w s =
    (let ds = takeWhile (\<lambda>c. hex_digit c \<noteq> None) s in
     if ds = [] then None
     else if hex_value ds < 2 ^ w then Some (hex_value ds, dropWhile (\<lambda>c. hex_digit c \<noteq> None) s)
     else None)"

definition ScmiDataEventValue_FromString :: "string \<Rightarrow> 64 word result" where
  "ScmiDataEventValue_FromString text =
    (case from_chars_hex 64 text of None \<Rightarrow> Inl ASTL_STATUS_BAD_ARGUMENT | Some (v, rest) \<Rightarrow> Inr (of_nat v))"

section \<open>Value files\<close>

definition ParseScmiTimeStamp :: "string \<Rightarrow> (64 word \<times> string) result" where
  "ParseScmiTimeStamp text =
    (case from_chars 64 text of None \<Rightarrow> Inl ASTL_STATUS_BAD_ARGUMENT | Some (n, rest) \<Rightarrow> Inr (of_nat n, rest))"

definition colon :: char where "colon = CHR 0x3A"

definition should_skip :: "char \<Rightarrow> bool" where
  "should_skip c \<longleftrightarrow> isspace c \<or> c = colon"

definition ParseDataEventValueWithTimestamp :: "string \<Rightarrow> (64 word \<times> 64 word) result" where
  "ParseDataEventValueWithTimestamp data_read =
    rbind (ParseScmiTimeStamp data_read) (\<lambda>(timestamp, remaining).
      let remaining = dropWhile should_skip remaining in
      if remaining = [] then Inl ASTL_STATUS_BAD_ARGUMENT
      else rbind (ScmiDataEventValue_FromString remaining) (\<lambda>v. Inr (timestamp, v)))"

text \<open>
  find_last_not_of the delimiters, then find_last_of before it: the last piece of the text that
  has no delimiter.  The delimiters are the characters that should_skip accepts.
\<close>

definition last_piece :: "string \<Rightarrow> string" where
  "last_piece s = rev (takeWhile (\<lambda>c. \<not> should_skip c) (dropWhile should_skip (rev s)))"

definition ParseDataEventValue :: "string \<Rightarrow> 64 word result" where
  "ParseDataEventValue data_read =
    (if list_all should_skip data_read then Inl ASTL_STATUS_BAD_ARGUMENT
     else ScmiDataEventValue_FromString (last_piece data_read))"

section \<open>Reading what the driver writes\<close>

definition hex_char :: "nat \<Rightarrow> char" where
  "hex_char d = char_of (if d < 10 then 48 + d else 55 + d)"

fun show_hex :: "nat \<Rightarrow> string" where
  "show_hex n = (if n < 16 then [hex_char n] else show_hex (n div 16) @ [hex_char (n mod 16)])"

declare show_hex.simps [simp del]

lemma hex_digit_hex_char [simp]: "d < 16 \<Longrightarrow> hex_digit (hex_char d) = Some d"
  by (simp add: hex_digit_def hex_char_def of_char_of Let_def)

lemma show_hex_not_Nil [simp]: "show_hex n \<noteq> []"
  by (subst show_hex.simps) simp

lemma show_hex_digits: "list_all (\<lambda>c. hex_digit c \<noteq> None) (show_hex n)"
proof (induction n rule: show_hex.induct)
  case (1 n)
  then show ?case by (subst show_hex.simps) simp
qed

lemma hex_value_append: "hex_value (ds @ [c]) = 16 * hex_value ds + the (hex_digit c)"
  by (simp add: hex_value_def)

lemma hex_value_show_hex [simp]: "hex_value (show_hex n) = n"
proof (induction n rule: show_hex.induct)
  case (1 n)
  then show ?case
    by (subst show_hex.simps) (auto simp: hex_value_append hex_value_def [of "[_]"])
qed

lemma hex_digit_not_skipped: "hex_digit c \<noteq> None \<Longrightarrow> \<not> should_skip c"
  by (auto simp: hex_digit_def should_skip_def colon_def isspace_def Let_def split: if_splits)

lemma show_hex_not_skipped: "c \<in> set (show_hex n) \<Longrightarrow> \<not> should_skip c"
  using show_hex_digits [of n] hex_digit_not_skipped [of c] unfolding list_all_iff by blast

lemma takeWhile_hex:
  assumes "rest = [] \<or> hex_digit (hd rest) = None"
  shows "takeWhile (\<lambda>c. hex_digit c \<noteq> None) (show_hex n @ rest) = show_hex n"
    "dropWhile (\<lambda>c. hex_digit c \<noteq> None) (show_hex n @ rest) = rest"
proof -
  have all: "\<And>c. c \<in> set (show_hex n) \<Longrightarrow> hex_digit c \<noteq> None" using show_hex_digits [of n] unfolding list_all_iff by blast
  show "takeWhile (\<lambda>c. hex_digit c \<noteq> None) (show_hex n @ rest) = show_hex n"
    using takeWhile_append2 [of "show_hex n" "\<lambda>c. hex_digit c \<noteq> None" rest] all assms by (cases rest) auto
  show "dropWhile (\<lambda>c. hex_digit c \<noteq> None) (show_hex n @ rest) = rest"
    using dropWhile_append2 [of "show_hex n" "\<lambda>c. hex_digit c \<noteq> None" rest] all assms by (cases rest) auto
qed

lemma skipped_not_hex: "should_skip c \<Longrightarrow> hex_digit c = None"
  using hex_digit_not_skipped by blast

lemma FromString_show_hex:
  assumes "v < 2 ^ 64" "list_all should_skip trail"
  shows "ScmiDataEventValue_FromString (show_hex v @ trail) = Inr (of_nat v)"
proof -
  have "trail = [] \<or> hex_digit (hd trail) = None" using assms(2) skipped_not_hex by (cases trail) auto
  from takeWhile_hex [OF this, of v] show ?thesis
    using assms(1) by (simp add: ScmiDataEventValue_FromString_def from_chars_hex_def)
qed

lemma digit_not_skipped: "isdigit c \<Longrightarrow> \<not> should_skip c"
  by (rule hex_digit_not_skipped) (simp add: hex_digit_def isdigit_def Let_def)

lemma last_piece_of:
  assumes "list_all (\<lambda>c. \<not> should_skip c) piece" "piece \<noteq> []" "list_all should_skip trail"
    and "pre = [] \<or> should_skip (last pre)"
  shows "last_piece (pre @ piece @ trail) = piece"
proof -
  have 1: "dropWhile should_skip (rev (pre @ piece @ trail)) = rev (pre @ piece)"
  proof -
    have "dropWhile should_skip (rev trail @ (rev piece @ rev pre)) = dropWhile should_skip (rev piece @ rev pre)"
      using assms(3) by (intro dropWhile_append2) (auto simp: list_all_iff)
    moreover obtain c cs where "rev piece = c # cs" "\<not> should_skip c"
      using assms(1,2) by (cases piece rule: rev_cases) (auto simp: list_all_iff)
    ultimately show ?thesis by simp
  qed
  have "takeWhile (\<lambda>c. \<not> should_skip c) (rev piece @ rev pre) = rev piece @ takeWhile (\<lambda>c. \<not> should_skip c) (rev pre)"
    using assms(1) by (intro takeWhile_append2) (auto simp: list_all_iff)
  moreover have "takeWhile (\<lambda>c. \<not> should_skip c) (rev pre) = []"
    using assms(4) by (cases pre rule: rev_cases) auto
  ultimately show ?thesis unfolding last_piece_def 1 by simp
qed

text \<open>
  Both parsers read the same value from the text "<time stamp><separator><value>", for any
  time stamp and value of 64 bits, any separator of white space and colons and any white space
  behind it; the parser for hardware clocks reads the time stamp too.  Falling back to the
  software clock never changes the value of a well formed reading.
\<close>

theorem scmi_value_text_inverts:
  assumes "t < 2 ^ 64" "v < 2 ^ 64" "sep \<noteq> []" "list_all should_skip sep" "list_all should_skip trail"
  shows "ParseDataEventValueWithTimestamp (show_nat t @ sep @ show_hex v @ trail) = Inr (of_nat t, of_nat v)
    \<and> ParseDataEventValue (show_nat t @ sep @ show_hex v @ trail) = Inr (of_nat v)
    \<and> ParseDataEventValue (show_hex v @ trail) = Inr (of_nat v)"
proof (intro conjI)
  have digits: "\<And>c. c \<in> set (show_nat t) \<Longrightarrow> isdigit c" using show_nat_digits [of t] unfolding list_all_iff by blast
  have sep: "\<not> isdigit (hd sep)" "should_skip (last sep)"
    using assms(3,4) digit_not_skipped [of "hd sep"] by (auto simp: list_all_iff)
  have "from_chars 64 (show_nat t @ sep @ show_hex v @ trail) = Some (t, sep @ show_hex v @ trail)"
    using takeWhile_append2 [of "show_nat t" isdigit] dropWhile_append2 [of "show_nat t" isdigit] digits sep(1) assms(1,3)
    by (cases sep) (auto simp: from_chars_def digits_value_show_nat)
  moreover have "dropWhile should_skip (sep @ show_hex v @ trail) = show_hex v @ trail"
  proof -
    have "\<not> should_skip (hd (show_hex v))" by (rule show_hex_not_skipped [of _ v]) simp
    then show ?thesis
      using dropWhile_append2 [of sep should_skip "show_hex v @ trail"] assms(4) by (cases "show_hex v") (auto simp: list_all_iff)
  qed
  moreover have "\<exists>x\<in>set sep \<union> (set (show_hex v) \<union> set trail). \<not> should_skip x"
    by (rule bexI [of _ "hd (show_hex v)"]) (simp_all add: show_hex_not_skipped [of _ v])
  ultimately show "ParseDataEventValueWithTimestamp (show_nat t @ sep @ show_hex v @ trail) = Inr (of_nat t, of_nat v)"
    using FromString_show_hex [OF assms(2,5)]
    by (simp add: ParseDataEventValueWithTimestamp_def ParseScmiTimeStamp_def)
  have piece: "list_all (\<lambda>c. \<not> should_skip c) (show_hex v)" using show_hex_not_skipped by (simp add: list_all_iff)
  have some: "\<not> list_all should_skip (pre @ show_hex v @ trail)" for pre
    using show_hex_not_skipped [of "hd (show_hex v)" v] by (auto simp: list_all_iff)
  have v: "ScmiDataEventValue_FromString (show_hex v) = Inr (of_nat v)" using FromString_show_hex [OF assms(2), of "[]"] by simp
  have p: "last_piece ((show_nat t @ sep) @ show_hex v @ trail) = show_hex v" "last_piece ([] @ show_hex v @ trail) = show_hex v"
    using last_piece_of [OF piece _ assms(5), of "show_nat t @ sep"] last_piece_of [OF piece _ assms(5), of "[]"] sep(2) assms(3)
    by simp_all
  show "ParseDataEventValue (show_nat t @ sep @ show_hex v @ trail) = Inr (of_nat v)"
    using p(1) some [of "show_nat t @ sep"] v by (simp add: ParseDataEventValue_def)
  show "ParseDataEventValue (show_hex v @ trail) = Inr (of_nat v)"
    using p(2) some [of "[]"] v by (simp add: ParseDataEventValue_def)
qed

theorem scmi_value_text_inverts_witness:
  "ParseDataEventValueWithTimestamp (show_nat 90 @ '': '' @ show_hex 171 @ [newline]) = Inr (90, 171)"
  using scmi_value_text_inverts [of 90 171 "'': ''" "[newline]"]
  by (simp add: should_skip_def colon_def isspace_def newline_def)

end
