(* ===== verification/Scmi_Collector.thy ===== *)
theory Scmi_Collector
  imports Scmi_Text Lifecycle Samples
begin

text \<open>
  The SCMI sysfs collector (src/impl/scmi/scmi_sysfs_collector.hpp): the data events it enables and
  restores, the lock that keeps other processes off the telemetry files, the choice between the
  hardware clock of a data event and CLOCK_MONOTONIC_RAW, and the lifecycle of a collection.  The
  control files and the lock of the process are part of the state; the value files, the clock, the
  permissions and the answers of the file system and of the sink are parameters.  A file is named
  by its data event and its role, as GetDataEventDirPath names it.
\<close>

section \<open>Files and operations\<close>

datatype scmi_file =
  TlmEnableFile | EnableFile "32 word" | TstampEnableFile "32 word" | TstampRateFile "32 word"

definition kScmiEnableValue :: string where "kScmiEnableValue = ''1''"

definition kScmiDisableValue :: string where "kScmiDisableValue = ''0''"

definition kDefaultScmiTimestampRate :: "32 word" where "kDefaultScmiTimestampRate = 1000000"

record scmi_read_operation =
  sr_id :: "16 word"
  sr_event :: "32 word"
  sr_rate :: "32 word"

text \<open>The dynamic_cast of the collector accepts a ScmiReadOperation.\<close>

datatype scmi_operation = ScmiRead scmi_read_operation | OtherScmiOperation "16 word"

record scmi_data_event =
  de_id :: "32 word"
  de_originally_enabled :: bool
  de_timestamp_enabled :: "bool option"
  de_timestamp_rate :: "32 word option"

definition scmi_operations :: "scmi_operation collection_operations \<Rightarrow> scmi_operation list" where
  "scmi_operations ops = operationsBeforeStart ops @ operationsAtStart ops @ operationsOnSample ops @ operationsAtStop ops"

definition GetUniqueDataEventIds :: "scmi_operation collection_operations \<Rightarrow> 32 word list" where
  "GetUniqueDataEventIds ops =
    remdups (concat (map (\<lambda>x. case x of ScmiRead r \<Rightarrow> [sr_event r] | OtherScmiOperation i \<Rightarrow> []) (scmi_operations ops)))"

definition find_event :: "32 word \<Rightarrow> scmi_data_event list \<Rightarrow> scmi_data_event option" where
  "find_event i events = find (\<lambda>e. de_id e = i) events"

fun update_rate :: "scmi_data_event list \<Rightarrow> scmi_operation \<Rightarrow> scmi_operation" where
  "update_rate events (ScmiRead r) =
    (case find_event (sr_event r) events of
       None \<Rightarrow> ScmiRead r
     | Some e \<Rightarrow> ScmiRead (r\<lparr>sr_rate := case de_timestamp_rate e of None \<Rightarrow> kDefaultScmiTimestampRate | Some rate \<Rightarrow> rate\<rparr>))"
| "update_rate events (OtherScmiOperation i) = OtherScmiOperation i"

definition UpdateReadOperationTimestampRates :: "scmi_data_event list \<Rightarrow> scmi_operation collection_operations
    \<Rightarrow> scmi_operation collection_operations" where
  "UpdateReadOperationTimestampRates events ops =
    \<lparr>operationsBeforeStart = map (update_rate events) (operationsBeforeStart ops),
     operationsAtStart = map (update_rate events) (operationsAtStart ops),
     operationsOnSample = map (update_rate events) (operationsOnSample ops),
     operationsAtStop = map (update_rate events) (operationsAtStop ops)\<rparr>"

section \<open>The state\<close>

text \<open>
  What all collectors of a process share: the control files, the process lock with its count of
  references, and how many value files have been read.
\<close>

record scmi_world =
  sw_files :: "scmi_file \<rightharpoonup> string"
  sw_locked :: bool
  sw_refcount :: nat
  sw_reads :: nat

text \<open>
  IsValid and HasWritePermission of the control files, how reading a file with some content fails, what
  Write returns, whether the driver takes a written
  value (FileInterface::Write does not look at the stream after it has written, so its success does
  not say so), the order of the unordered set of
  data events, the value files and the clock at the n-th reading, the temporary directory and the
  lock file of the process, the environment variable and the sink.
\<close>

datatype scmi_read_failure = CannotOpen | ReadThrows | NoMemory

record 't scmi_env =
  xe_valid :: "scmi_file \<Rightarrow> bool"
  xe_read_fails :: "scmi_file \<Rightarrow> string \<Rightarrow> scmi_read_failure option"
  xe_writable :: "scmi_file \<Rightarrow> bool option"
  xe_write :: "scmi_file \<Rightarrow> string \<Rightarrow> astl_status"
  xe_takes :: "scmi_file \<Rightarrow> string \<Rightarrow> bool"
  xe_order :: "32 word list \<Rightarrow> 32 word list"
  xe_value :: "nat \<Rightarrow> 32 word \<Rightarrow> string result"
  xe_now :: "nat \<Rightarrow> int"
  xe_temp_dir_fails :: bool
  xe_lock :: astl_status
  xe_software_clock :: bool
  xe_accept :: "('t \<times> raw_sample list) list \<Rightarrow> astl_status"

record 't scmi_collector =
  sc_sink :: bool
  sc_state :: CollectionLifecycleState
  sc_configuration :: "('t, scmi_operation) collection_configuration option"
  sc_data_events :: "scmi_data_event list"
  sc_sampler :: "periodic_sampler option"
  sc_previous :: "32 word \<rightharpoonup> 64 word"
  sc_holds_lock :: bool
  sc_software_clock :: bool
  sc_sunk :: "('t \<times> raw_sample list) list"

type_synonym 't scmi = "'t scmi_collector \<times> scmi_world"

definition ScmiSysfsCollector :: "'t scmi_collector" where
  "ScmiSysfsCollector =
    \<lparr>sc_sink = False, sc_state = UNCONFIGURED, sc_configuration = None, sc_data_events = [], sc_sampler = None,
     sc_previous = Map.empty, sc_holds_lock = False, sc_software_clock = False, sc_sunk = []\<rparr>"

definition Scmi_SetRawSampleSink :: "bool \<Rightarrow> 't scmi_collector \<Rightarrow> 't scmi_collector" where
  "Scmi_SetRawSampleSink sink c = c\<lparr>sc_sink := sink\<rparr>"

section \<open>The process lock\<close>

definition AcquireProcessLock :: "'t scmi_env \<Rightarrow> 't scmi \<Rightarrow> astl_status \<times> 't scmi" where
  "AcquireProcessLock env x =
    (let (c, w) = x in
     if sc_holds_lock c then (ASTL_STATUS_SUCCESS, c, w)
     else if sw_locked w
     then (ASTL_STATUS_SUCCESS, c\<lparr>sc_holds_lock := True\<rparr>, w\<lparr>sw_refcount := Suc (sw_refcount w)\<rparr>)
     else if xe_temp_dir_fails env then (ASTL_STATUS_INTERNAL_ERROR, c, w)
     else if xe_lock env \<noteq> ASTL_STATUS_SUCCESS then (xe_lock env, c, w\<lparr>sw_refcount := 0\<rparr>)
     else (ASTL_STATUS_SUCCESS, c\<lparr>sc_holds_lock := True\<rparr>, w\<lparr>sw_locked := True, sw_refcount := 1\<rparr>))"

definition ReleaseProcessLock :: "'t scmi \<Rightarrow> 't scmi" where
  "ReleaseProcessLock x =
    (let (c, w) = x in
     if \<not> sc_holds_lock c then (c, w)
     else let n = sw_refcount w - 1 in
       (c\<lparr>sc_holds_lock := False\<rparr>, w\<lparr>sw_refcount := n, sw_locked := (n \<noteq> 0 \<and> sw_locked w)\<rparr>))"

text \<open>FileInterface::Read of a control file, which may fail on a file that is there.\<close>

fun read_status :: "scmi_read_failure \<Rightarrow> astl_status" where
  "read_status CannotOpen = ASTL_STATUS_FILE_OPEN_FAILED"
| "read_status ReadThrows = ASTL_STATUS_FILE_ERROR"
| "read_status NoMemory = ASTL_STATUS_OUT_OF_MEMORY"

definition Scmi_ReadFile :: "'t scmi_env \<Rightarrow> scmi_file \<Rightarrow> 't scmi \<Rightarrow> string result" where
  "Scmi_ReadFile env f x =
    (case sw_files (snd x) f of
       None \<Rightarrow> Inl ASTL_STATUS_FILE_OPEN_FAILED
     | Some text \<Rightarrow> (case xe_read_fails env f text of Some failure \<Rightarrow> Inl (read_status failure) | None \<Rightarrow> Inr text))"

lemma Scmi_ReadFile_error: "Scmi_ReadFile env f x = Inl e \<Longrightarrow> e \<noteq> ASTL_STATUS_SUCCESS"
  by (auto simp: Scmi_ReadFile_def split: option.splits elim: read_status.elims)

text \<open>An exception of the file system while the permissions are read is ASTL_STATUS_FILE_ERROR.\<close>

definition ScmiWrite :: "'t scmi_env \<Rightarrow> scmi_file \<Rightarrow> string \<Rightarrow> 't scmi \<Rightarrow> astl_status \<times> 't scmi" where
  "ScmiWrite env f v x =
    (case Scmi_ReadFile env f x of
       Inl e \<Rightarrow> (e, x)
     | Inr current \<Rightarrow>
         if current = v then (ASTL_STATUS_SUCCESS, x)
         else case xe_writable env f of
             None \<Rightarrow> (ASTL_STATUS_FILE_ERROR, x)
           | Some writable \<Rightarrow>
               if \<not> writable then (ASTL_STATUS_SUCCESS, x)
               else let (status, c, w) = AcquireProcessLock env x in
                 if status \<noteq> ASTL_STATUS_SUCCESS then (status, c, w)
                 else (xe_write env f v, c,
                   if xe_write env f v = ASTL_STATUS_SUCCESS \<and> xe_takes env f v then w\<lparr>sw_files := (sw_files w)(f \<mapsto> v)\<rparr> else w))"

section \<open>Enabling and restoring data events\<close>

text \<open>The timestamp of an event is disabled before the event; the first failure ends the restoration.\<close>

definition restore_event :: "'t scmi_env \<Rightarrow> scmi_data_event \<Rightarrow> 't scmi \<Rightarrow> astl_status \<times> 't scmi" where
  "restore_event env e x =
    (let (status, x1) = (if de_timestamp_enabled e = Some False
           then ScmiWrite env (TstampEnableFile (de_id e)) kScmiDisableValue x else (ASTL_STATUS_SUCCESS, x)) in
     if status \<noteq> ASTL_STATUS_SUCCESS then (status, x1)
     else if \<not> de_originally_enabled e then ScmiWrite env (EnableFile (de_id e)) kScmiDisableValue x1
     else (ASTL_STATUS_SUCCESS, x1))"

fun RestoreDataEventEnabledState :: "'t scmi_env \<Rightarrow> scmi_data_event list \<Rightarrow> 't scmi \<Rightarrow> astl_status \<times> 't scmi" where
  "RestoreDataEventEnabledState env [] x = (ASTL_STATUS_SUCCESS, x)"
| "RestoreDataEventEnabledState env (e # es) x =
    (let (status, x1) = restore_event env e x in
     if status \<noteq> ASTL_STATUS_SUCCESS then (status, x1) else RestoreDataEventEnabledState env es x1)"

definition EnableDataEvent :: "'t scmi_env \<Rightarrow> 32 word \<Rightarrow> 't scmi \<Rightarrow> bool result \<times> 't scmi" where
  "EnableDataEvent env i x =
    (case Scmi_ReadFile env (EnableFile i) x of
       Inl e \<Rightarrow> (Inl e, x)
     | Inr text \<Rightarrow>
         if text = kScmiEnableValue then (Inr True, x)
         else let (status, x1) = ScmiWrite env (EnableFile i) kScmiEnableValue x in
           (if status \<noteq> ASTL_STATUS_SUCCESS then Inl status else Inr False, x1))"

definition EnableTimestamp :: "'t scmi_env \<Rightarrow> 32 word \<Rightarrow> 't scmi \<Rightarrow> bool option result \<times> 't scmi" where
  "EnableTimestamp env i x =
    (if \<not> xe_valid env (TstampEnableFile i) then (Inr None, x)
     else case Scmi_ReadFile env (TstampEnableFile i) x of
         Inl e \<Rightarrow> (Inl e, x)
       | Inr text \<Rightarrow>
           if text = kScmiEnableValue then (Inr (Some True), x)
           else let (status, x1) = ScmiWrite env (TstampEnableFile i) kScmiEnableValue x in
             (if status \<noteq> ASTL_STATUS_SUCCESS then Inl status else Inr (Some False), x1))"

definition ReadTimestampRate :: "'t scmi_env \<Rightarrow> 32 word \<Rightarrow> 't scmi \<Rightarrow> 32 word option result" where
  "ReadTimestampRate env i x =
    (if \<not> xe_valid env (TstampRateFile i) then Inr None
     else rbind (Scmi_ReadFile env (TstampRateFile i) x) (\<lambda>text.
       case from_chars 32 text of
         None \<Rightarrow> Inl ASTL_STATUS_FILE_ERROR
       | Some (n, rest) \<Rightarrow> if n = 0 then Inl ASTL_STATUS_BAD_CONFIGURATION else Inr (Some (of_nat n))))"

definition FallBackToSoftwareClockTimestamps :: "'t scmi_collector \<Rightarrow> 't scmi_collector" where
  "FallBackToSoftwareClockTimestamps c = c\<lparr>sc_software_clock := True, sc_previous := Map.empty\<rparr>"

text \<open>
  One turn of the loop of EnableDataEvents: the event to go on with, or the error with the event
  whose timestamp could not be enabled.
\<close>

definition enable_one :: "'t scmi_env \<Rightarrow> 32 word \<Rightarrow> 't scmi \<Rightarrow> (scmi_data_event, astl_status \<times> scmi_data_event list) sum \<times> 't scmi" where
  "enable_one env i x =
    (case EnableDataEvent env i x of
       (Inl e, x1) \<Rightarrow> (Inr (e, []), x1)
     | (Inr originally_enabled, x1) \<Rightarrow>
        (let event = \<lparr>de_id = i, de_originally_enabled = originally_enabled, de_timestamp_enabled = None, de_timestamp_rate = None\<rparr> in
         if sc_software_clock (fst x1) then (Inl event, x1)
         else case EnableTimestamp env i x1 of
             (Inl e, x2) \<Rightarrow> (Inr (e, [event]), x2)
           | (Inr timestamp_enabled, x2) \<Rightarrow>
              (let event = event\<lparr>de_timestamp_enabled := timestamp_enabled\<rparr> in
               case ReadTimestampRate env i x2 of
                 Inr (Some rate) \<Rightarrow>
                   if rate = 0 then (Inl event, FallBackToSoftwareClockTimestamps (fst x2), snd x2)
                   else (Inl (event\<lparr>de_timestamp_rate := Some rate\<rparr>), x2)
               | _ \<Rightarrow> (Inl event, FallBackToSoftwareClockTimestamps (fst x2), snd x2))))"

fun EnableDataEvents :: "'t scmi_env \<Rightarrow> 32 word list \<Rightarrow> scmi_data_event list \<Rightarrow> 't scmi
    \<Rightarrow> scmi_data_event list result \<times> 't scmi" where
  "EnableDataEvents env [] enabled x = (Inr enabled, x)"
| "EnableDataEvents env (i # ids) enabled x =
    (case enable_one env i x of
       (Inl event, x1) \<Rightarrow> EnableDataEvents env ids (enabled @ [event]) x1
     | (Inr (e, half), x1) \<Rightarrow> (Inl e, snd (RestoreDataEventEnabledState env (enabled @ half) x1)))"

definition RollbackConfigurationState :: "'t scmi_env \<Rightarrow> 't scmi \<Rightarrow> 't scmi" where
  "RollbackConfigurationState env x =
    (let (c, w) = (if sc_data_events (fst x) \<noteq> []
           then let (c, w) = snd (RestoreDataEventEnabledState env (sc_data_events (fst x)) x) in (c\<lparr>sc_data_events := []\<rparr>, w)
           else x) in
     ReleaseProcessLock (c\<lparr>sc_previous := Map.empty, sc_configuration := None, sc_state := UNCONFIGURED\<rparr>, w))"

section \<open>Reading data events\<close>

definition Scmi_Sink :: "'t scmi_env \<Rightarrow> raw_sample \<Rightarrow> 't scmi_collector \<Rightarrow> astl_status \<times> 't scmi_collector" where
  "Scmi_Sink env sample c =
    (if \<not> sc_sink c then (ASTL_STATUS_SUCCESS, c)
     else let sunk = sc_sunk c @ [(cfg_target (the (sc_configuration c)), [sample])] in
       (xe_accept env sunk, c\<lparr>sc_sunk := sunk\<rparr>))"

text \<open>What the text of a value file means: the collector, the time stamp and the value.\<close>

definition interpret_reading :: "int \<Rightarrow> string \<Rightarrow> 't scmi_collector \<Rightarrow> 't scmi_collector \<times> 64 word \<times> 64 word result" where
  "interpret_reading now text c =
    (if sc_software_clock c then (c, word_of_int now, ParseDataEventValue text)
     else case ParseDataEventValueWithTimestamp text of
         Inr (timestamp, v) \<Rightarrow> (c, timestamp, Inr v)
       | Inl e \<Rightarrow> (FallBackToSoftwareClockTimestamps c, word_of_int now, ParseDataEventValue text))"

definition ExecuteScmiReadOperation :: "'t scmi_env \<Rightarrow> scmi_read_operation \<Rightarrow> 't scmi \<Rightarrow> astl_status \<times> 't scmi" where
  "ExecuteScmiReadOperation env r x =
    (let (c, w) = x; n = sw_reads w; w1 = w\<lparr>sw_reads := Suc n\<rparr> in
     case xe_value env n (sr_event r) of
       Inl e \<Rightarrow> (e, c, w1)
     | Inr text \<Rightarrow>
        (let (c1, timestamp, parsed) = interpret_reading (xe_now env n) text c in
         case parsed of
           Inl e \<Rightarrow> (e, c1, w1)
         | Inr v \<Rightarrow>
             if sc_previous c1 (sr_event r) = Some timestamp then (ASTL_STATUS_SUCCESS, c1, w1)
             else let (status, c2) = Scmi_Sink env \<lparr>rs_operation_id = sr_id r, rs_value = VU64 v, rs_raw_tick = timestamp\<rparr>
                    (c1\<lparr>sc_previous := (sc_previous c1)(sr_event r \<mapsto> timestamp)\<rparr>) in
               (status, c2, w1)))"

fun Scmi_ExecuteCollectionOperations :: "'t scmi_env \<Rightarrow> scmi_operation list \<Rightarrow> 't scmi \<Rightarrow> astl_status \<times> 't scmi" where
  "Scmi_ExecuteCollectionOperations env [] x = (ASTL_STATUS_SUCCESS, x)"
| "Scmi_ExecuteCollectionOperations env (OtherScmiOperation i # ops) x = (ASTL_STATUS_BAD_ARGUMENT, x)"
| "Scmi_ExecuteCollectionOperations env (ScmiRead r # ops) x =
    (let (status, x1) = ExecuteScmiReadOperation env r x in
     if status \<noteq> ASTL_STATUS_SUCCESS then (status, x1) else Scmi_ExecuteCollectionOperations env ops x1)"

section \<open>The commands\<close>

definition Scmi_ConfigureCollection :: "'t scmi_env \<Rightarrow> ('t, scmi_operation) collection_configuration \<Rightarrow> 't scmi
    \<Rightarrow> astl_status \<times> 't scmi" where
  "Scmi_ConfigureCollection env cfg x =
    (let state = sc_state (fst x) in
     if state \<noteq> UNCONFIGURED \<and> state \<noteq> CONFIGURED \<and> state \<noteq> STOPPED then (ASTL_STATUS_BAD_CONFIGURATION, x)
     else
       let (c0, w0) = (if state = CONFIGURED then RollbackConfigurationState env x else x);
           (status, x1) = ScmiWrite env TlmEnableFile kScmiEnableValue (c0\<lparr>sc_software_clock := xe_software_clock env\<rparr>, w0) in
       if status \<noteq> ASTL_STATUS_SUCCESS then (status, RollbackConfigurationState env x1)
       else
         let (c1, w1) = x1; c2 = c1\<lparr>sc_configuration := Some cfg, sc_state := CONFIGURED\<rparr> in
         case EnableDataEvents env (xe_order env (GetUniqueDataEventIds (cfg_operations cfg))) [] (c2, w1) of
           (Inl e, x3) \<Rightarrow> (e, RollbackConfigurationState env x3)
         | (Inr events, c3, w3) \<Rightarrow>
            (let ops = UpdateReadOperationTimestampRates events (cfg_operations cfg);
                 c4 = c3\<lparr>sc_data_events := events, sc_configuration := Some (cfg\<lparr>cfg_operations := ops\<rparr>)\<rparr>;
                 (status, x5) = Scmi_ExecuteCollectionOperations env (operationsBeforeStart ops) (c4, w3) in
             if status \<noteq> ASTL_STATUS_SUCCESS then (status, RollbackConfigurationState env x5)
             else (ASTL_STATUS_SUCCESS, x5)))"

definition Scmi_StopIntervalSampling :: "'t scmi \<Rightarrow> 't scmi" where
  "Scmi_StopIntervalSampling x = ((fst x)\<lparr>sc_sampler := None\<rparr>, snd x)"

definition Scmi_ClearCollectionState :: "'t scmi_env \<Rightarrow> 't scmi \<Rightarrow> astl_status \<times> 't scmi" where
  "Scmi_ClearCollectionState env x =
    (if sc_state (fst x) = STARTED \<or> sc_state (fst x) = PAUSED then (ASTL_STATUS_COLLECTION_ALREADY_RUNNING, x)
     else (ASTL_STATUS_SUCCESS, RollbackConfigurationState env (Scmi_StopIntervalSampling x)))"

definition Scmi_StartIntervalSampling :: "'t scmi \<Rightarrow> astl_status \<times> 't scmi" where
  "Scmi_StartIntervalSampling x =
    (let (c, w) = x in
     if sc_state c \<noteq> CONFIGURED \<and> sc_state c \<noteq> STOPPED \<and> sc_state c \<noteq> PAUSED then (ASTL_STATUS_INTERNAL_ERROR, x)
     else case sc_configuration c of
         None \<Rightarrow> (ASTL_STATUS_INTERNAL_ERROR, x)
       | Some cfg \<Rightarrow>
           if sc_sampler c \<noteq> None then (ASTL_STATUS_INTERNAL_ERROR, x)
           else (ASTL_STATUS_SUCCESS, c\<lparr>sc_sampler := Some \<lparr>ps_interval = cfg_sampling_interval cfg, ps_paused = False\<rparr>\<rparr>, w))"

definition Scmi_StartCollection :: "'t scmi_env \<Rightarrow> 't scmi \<Rightarrow> astl_status \<times> 't scmi" where
  "Scmi_StartCollection env x =
    (let status = CheckCollectionLifecycleAction (sc_state (fst x)) START in
     if status \<noteq> ASTL_STATUS_SUCCESS then (status, x)
     else case sc_configuration (fst x) of
         None \<Rightarrow> (ASTL_STATUS_BAD_CONFIGURATION, x)
       | Some cfg \<Rightarrow>
          (let (status, c, w) = ExecuteStartMode cfg (Scmi_ExecuteCollectionOperations env) Scmi_StartIntervalSampling
                 ((fst x)\<lparr>sc_previous := Map.empty\<rparr>, snd x) in
           (status, if status = ASTL_STATUS_SUCCESS then c\<lparr>sc_state := STARTED\<rparr> else c, w)))"

definition EmitPauseResumeSample :: "'t scmi_env \<Rightarrow> raw_sample \<Rightarrow> 't scmi_collector \<Rightarrow> astl_status \<times> 't scmi_collector" where
  "EmitPauseResumeSample env marker c =
    (if sc_configuration c = None then (ASTL_STATUS_SUCCESS, c) else Scmi_Sink env marker c)"

definition Scmi_PauseCollection :: "'t scmi_env \<Rightarrow> 't scmi \<Rightarrow> astl_status \<times> 't scmi" where
  "Scmi_PauseCollection env x =
    (let (c, w) = x;
         (status, state, sampler, c') = PauseCollectionLifecycle (sc_state c) (sc_sampler c)
           (EmitPauseResumeSample env (PauseMarker (xe_now env (sw_reads w)))) c in
     (status, c'\<lparr>sc_state := state, sc_sampler := sampler\<rparr>, w))"

definition Scmi_ResumeCollection :: "'t scmi_env \<Rightarrow> 't scmi \<Rightarrow> astl_status \<times> 't scmi" where
  "Scmi_ResumeCollection env x =
    (let (c, w) = x;
         (status, state, sampler, c') = ResumeCollectionLifecycle (sc_state c) (sc_sampler c)
           (EmitPauseResumeSample env (ResumeMarker (xe_now env (sw_reads w)))) c in
     (status, c'\<lparr>sc_state := state, sc_sampler := sampler\<rparr>, w))"

text \<open>The status is that of the restoration; the state is STOPPED whatever it is.\<close>

definition Scmi_StopCollection :: "'t scmi_env \<Rightarrow> 't scmi \<Rightarrow> astl_status \<times> 't scmi" where
  "Scmi_StopCollection env x0 =
    (let x = Scmi_StopIntervalSampling x0;
         status = CheckCollectionLifecycleAction (sc_state (fst x)) STOP in
     if status \<noteq> ASTL_STATUS_SUCCESS then (status, x)
     else case sc_configuration (fst x) of
         None \<Rightarrow> (ASTL_STATUS_BAD_CONFIGURATION, x)
       | Some cfg \<Rightarrow>
          (let (status, x1) = ExecuteStopMode cfg (Scmi_ExecuteCollectionOperations env) x in
           if status \<noteq> ASTL_STATUS_SUCCESS then (status, x1)
           else let (result, c, w) = RestoreDataEventEnabledState env (sc_data_events (fst x1)) x1 in
             (result, ReleaseProcessLock (c\<lparr>sc_data_events := [], sc_previous := Map.empty, sc_state := STOPPED\<rparr>, w))))"

definition Scmi_ReadImmediate :: "'t scmi_env \<Rightarrow> 't scmi \<Rightarrow> astl_status \<times> 't scmi" where
  "Scmi_ReadImmediate env x =
    (let state = sc_state (fst x) in
     if state \<noteq> STARTED \<and> state \<noteq> CONFIGURED \<and> state \<noteq> PAUSED then (ASTL_STATUS_BAD_CONFIGURATION, x)
     else case sc_configuration (fst x) of
         None \<Rightarrow> (ASTL_STATUS_BAD_CONFIGURATION, x)
       | Some cfg \<Rightarrow> Scmi_ExecuteCollectionOperations env (operationsOnSample (cfg_operations cfg)) x)"

definition Scmi_Destroy :: "'t scmi_env \<Rightarrow> 't scmi \<Rightarrow> 't scmi" where
  "Scmi_Destroy env x =
    RollbackConfigurationState env
      (if sc_state (fst x) = STARTED \<or> sc_state (fst x) = PAUSED then snd (Scmi_StopCollection env x) else x)"

section \<open>The clock snapshot\<close>

definition MakeSoftwareClockCorrelation :: "int \<Rightarrow> clock_correlation" where
  "MakeSoftwareClockCorrelation now =
    \<lparr>raw_monotonic_at_start = now, native_at_start = word_of_int now, ticks = \<lparr>tick_num = 1, tick_den = 1\<rparr>\<rparr>"

text \<open>Each correlation takes one reading of the clock; a later operation with the same id replaces it.\<close>

fun MakeSoftwareClockCorrelations :: "'t scmi_env \<Rightarrow> scmi_operation list \<Rightarrow> clock_correlation_map \<Rightarrow> scmi_world
    \<Rightarrow> clock_correlation_map \<times> scmi_world" where
  "MakeSoftwareClockCorrelations env [] result w = (result, w)"
| "MakeSoftwareClockCorrelations env (OtherScmiOperation i # ops) result w = MakeSoftwareClockCorrelations env ops result w"
| "MakeSoftwareClockCorrelations env (ScmiRead r # ops) result w =
    MakeSoftwareClockCorrelations env ops (result(sr_id r \<mapsto> MakeSoftwareClockCorrelation (xe_now env (sw_reads w))))
      (w\<lparr>sw_reads := Suc (sw_reads w)\<rparr>)"

definition MakeHardwareClockCorrelation :: "'t scmi_env \<Rightarrow> scmi_data_event list \<Rightarrow> scmi_read_operation \<Rightarrow> scmi_world
    \<Rightarrow> clock_correlation option \<times> scmi_world" where
  "MakeHardwareClockCorrelation env events r w =
    (case find_event (sr_event r) events of
       None \<Rightarrow> (None, w)
     | Some e \<Rightarrow>
         if de_timestamp_rate e = None \<or> de_timestamp_rate e = Some 0 \<or> sr_rate r = 0 then (None, w)
         else let n = sw_reads w; w1 = w\<lparr>sw_reads := Suc n\<rparr> in
           case xe_value env n (sr_event r) of
             Inl e \<Rightarrow> (None, w1)
           | Inr text \<Rightarrow>
              (case ParseScmiTimeStamp text of
                 Inl e \<Rightarrow> (None, w1)
               | Inr (timestamp, rest) \<Rightarrow>
                   (Some \<lparr>raw_monotonic_at_start = xe_now env n, native_at_start = timestamp,
                      ticks = \<lparr>tick_num = 1000000, tick_den = uint (sr_rate r)\<rparr>\<rparr>, w1)))"

fun hardware_correlations :: "'t scmi_env \<Rightarrow> scmi_data_event list \<Rightarrow> scmi_operation list \<Rightarrow> clock_correlation_map \<Rightarrow> scmi_world
    \<Rightarrow> clock_correlation_map option \<times> scmi_world" where
  "hardware_correlations env events [] result w = (Some result, w)"
| "hardware_correlations env events (OtherScmiOperation i # ops) result w = hardware_correlations env events ops result w"
| "hardware_correlations env events (ScmiRead r # ops) result w =
    (case MakeHardwareClockCorrelation env events r w of
       (None, w1) \<Rightarrow> (None, w1)
     | (Some correlation, w1) \<Rightarrow> hardware_correlations env events ops (result(sr_id r \<mapsto> correlation)) w1)"

definition Scmi_GetNativeClockSnapshot :: "'t scmi_env \<Rightarrow> 't scmi \<Rightarrow> clock_correlation_map \<times> 't scmi" where
  "Scmi_GetNativeClockSnapshot env x =
    (let (c, w) = x in
     case sc_configuration c of
       None \<Rightarrow> (Map.empty, x)
     | Some cfg \<Rightarrow>
        (let ops = operationsOnSample (cfg_operations cfg) in
         if sc_software_clock c then let (m, w1) = MakeSoftwareClockCorrelations env ops Map.empty w in (m, c, w1)
         else case hardware_correlations env (sc_data_events c) ops Map.empty w of
             (Some m, w1) \<Rightarrow> (m, c, w1)
           | (None, w1) \<Rightarrow>
              (let (m, w2) = MakeSoftwareClockCorrelations env ops Map.empty w1 in
               (m, FallBackToSoftwareClockTimestamps c, w2))))"

text \<open>The commands of a collector manager; the sampler's own calls are CmdRead.\<close>

fun scmi_exec :: "'t scmi_env \<Rightarrow> ('t, scmi_operation) collection_configuration lifecycle_command \<Rightarrow> 't scmi
    \<Rightarrow> astl_status \<times> 't scmi" where
  "scmi_exec env (CmdConfigure cfg) x = Scmi_ConfigureCollection env cfg x"
| "scmi_exec env CmdClear x = Scmi_ClearCollectionState env x"
| "scmi_exec env CmdStart x = Scmi_StartCollection env x"
| "scmi_exec env CmdPause x = Scmi_PauseCollection env x"
| "scmi_exec env CmdResume x = Scmi_ResumeCollection env x"
| "scmi_exec env CmdStop x = Scmi_StopCollection env x"
| "scmi_exec env CmdRead x = Scmi_ReadImmediate env x"

end
