(* ===== verification/Scmi_Lifecycle.thy ===== *)
theory Scmi_Lifecycle
  imports Scmi_Collector
begin

text \<open>
  The SCMI sysfs collector keeps the lifecycle contract: what each command leaves alone, the ways it
  can end, and the interpretation of collector_lifecycle.  The strict contract it does not keep, as
  Scmi_Restore shows.
\<close>

section \<open>Frames\<close>

lemma acquire_frame [simp]:
  "sc_state (fst (snd (AcquireProcessLock env x))) = sc_state (fst x)"
  "sc_configuration (fst (snd (AcquireProcessLock env x))) = sc_configuration (fst x)"
  "sc_sampler (fst (snd (AcquireProcessLock env x))) = sc_sampler (fst x)"
  "sc_data_events (fst (snd (AcquireProcessLock env x))) = sc_data_events (fst x)"
  "sc_software_clock (fst (snd (AcquireProcessLock env x))) = sc_software_clock (fst x)"
  "sw_files (snd (snd (AcquireProcessLock env x))) = sw_files (snd x)"
  by (simp_all add: AcquireProcessLock_def Let_def case_prod_beta')

lemma release_frame [simp]:
  "sc_state (fst (ReleaseProcessLock x)) = sc_state (fst x)"
  "sc_configuration (fst (ReleaseProcessLock x)) = sc_configuration (fst x)"
  "sc_sampler (fst (ReleaseProcessLock x)) = sc_sampler (fst x)"
  "sc_data_events (fst (ReleaseProcessLock x)) = sc_data_events (fst x)"
  "sw_files (snd (ReleaseProcessLock x)) = sw_files (snd x)"
  "\<not> sc_holds_lock (fst (ReleaseProcessLock x))"
  by (simp_all add: ReleaseProcessLock_def Let_def case_prod_beta')

lemma write_frame [simp]:
  "sc_state (fst (snd (ScmiWrite env f v x))) = sc_state (fst x)"
  "sc_configuration (fst (snd (ScmiWrite env f v x))) = sc_configuration (fst x)"
  "sc_sampler (fst (snd (ScmiWrite env f v x))) = sc_sampler (fst x)"
  "sc_data_events (fst (snd (ScmiWrite env f v x))) = sc_data_events (fst x)"
  "sc_software_clock (fst (snd (ScmiWrite env f v x))) = sc_software_clock (fst x)"
  by (simp_all add: ScmiWrite_def case_prod_beta' Let_def split: sum.split option.split)

lemma restore_event_frame [simp]:
  "sc_state (fst (snd (restore_event env e x))) = sc_state (fst x)"
  "sc_configuration (fst (snd (restore_event env e x))) = sc_configuration (fst x)"
  "sc_sampler (fst (snd (restore_event env e x))) = sc_sampler (fst x)"
  "sc_data_events (fst (snd (restore_event env e x))) = sc_data_events (fst x)"
  "sc_software_clock (fst (snd (restore_event env e x))) = sc_software_clock (fst x)"
  by (simp_all add: restore_event_def case_prod_beta' Let_def)

lemma restore_frame [simp]:
  "sc_state (fst (snd (RestoreDataEventEnabledState env es x))) = sc_state (fst x)"
  "sc_configuration (fst (snd (RestoreDataEventEnabledState env es x))) = sc_configuration (fst x)"
  "sc_sampler (fst (snd (RestoreDataEventEnabledState env es x))) = sc_sampler (fst x)"
  "sc_data_events (fst (snd (RestoreDataEventEnabledState env es x))) = sc_data_events (fst x)"
  "sc_software_clock (fst (snd (RestoreDataEventEnabledState env es x))) = sc_software_clock (fst x)"
proof -
  have "sc_state (fst (snd (RestoreDataEventEnabledState env es x))) = sc_state (fst x)
    \<and> sc_configuration (fst (snd (RestoreDataEventEnabledState env es x))) = sc_configuration (fst x)
    \<and> sc_sampler (fst (snd (RestoreDataEventEnabledState env es x))) = sc_sampler (fst x)
    \<and> sc_data_events (fst (snd (RestoreDataEventEnabledState env es x))) = sc_data_events (fst x)
    \<and> sc_software_clock (fst (snd (RestoreDataEventEnabledState env es x))) = sc_software_clock (fst x)"
    by (induction es arbitrary: x) (simp_all add: case_prod_beta' Let_def)
  then show "sc_state (fst (snd (RestoreDataEventEnabledState env es x))) = sc_state (fst x)"
    "sc_configuration (fst (snd (RestoreDataEventEnabledState env es x))) = sc_configuration (fst x)"
    "sc_sampler (fst (snd (RestoreDataEventEnabledState env es x))) = sc_sampler (fst x)"
    "sc_data_events (fst (snd (RestoreDataEventEnabledState env es x))) = sc_data_events (fst x)"
    "sc_software_clock (fst (snd (RestoreDataEventEnabledState env es x))) = sc_software_clock (fst x)"
    by blast+
qed

lemma rollback_frame [simp]:
  "sc_state (fst (RollbackConfigurationState env x)) = UNCONFIGURED"
  "sc_configuration (fst (RollbackConfigurationState env x)) = None"
  "sc_sampler (fst (RollbackConfigurationState env x)) = sc_sampler (fst x)"
  "sc_data_events (fst (RollbackConfigurationState env x)) = []"
  "\<not> sc_holds_lock (fst (RollbackConfigurationState env x))"
  by (simp_all add: RollbackConfigurationState_def case_prod_beta' Let_def)

lemma sink_frame [simp]:
  "sc_state (snd (Scmi_Sink env sample c)) = sc_state c"
  "sc_configuration (snd (Scmi_Sink env sample c)) = sc_configuration c"
  "sc_sampler (snd (Scmi_Sink env sample c)) = sc_sampler c"
  "sc_data_events (snd (Scmi_Sink env sample c)) = sc_data_events c"
  "sc_holds_lock (snd (Scmi_Sink env sample c)) = sc_holds_lock c"
  by (simp_all add: Scmi_Sink_def Let_def)

lemma interpret_frame [simp]:
  "sc_state (fst (interpret_reading now text c)) = sc_state c"
  "sc_configuration (fst (interpret_reading now text c)) = sc_configuration c"
  "sc_sampler (fst (interpret_reading now text c)) = sc_sampler c"
  "sc_data_events (fst (interpret_reading now text c)) = sc_data_events c"
  "sc_holds_lock (fst (interpret_reading now text c)) = sc_holds_lock c"
  by (simp_all add: interpret_reading_def FallBackToSoftwareClockTimestamps_def split: sum.split)

lemma read_frame [simp]:
  "sc_state (fst (snd (ExecuteScmiReadOperation env r x))) = sc_state (fst x)"
  "sc_configuration (fst (snd (ExecuteScmiReadOperation env r x))) = sc_configuration (fst x)"
  "sc_sampler (fst (snd (ExecuteScmiReadOperation env r x))) = sc_sampler (fst x)"
  "sc_data_events (fst (snd (ExecuteScmiReadOperation env r x))) = sc_data_events (fst x)"
  "sc_holds_lock (fst (snd (ExecuteScmiReadOperation env r x))) = sc_holds_lock (fst x)"
  "snd (snd (ExecuteScmiReadOperation env r x)) = (snd x)\<lparr>sw_reads := Suc (sw_reads (snd x))\<rparr>"
  by (simp_all add: ExecuteScmiReadOperation_def case_prod_beta' Let_def split: sum.split)

lemma execute_frame [simp]:
  "sc_state (fst (snd (Scmi_ExecuteCollectionOperations env ops x))) = sc_state (fst x)"
  "sc_configuration (fst (snd (Scmi_ExecuteCollectionOperations env ops x))) = sc_configuration (fst x)"
  "sc_sampler (fst (snd (Scmi_ExecuteCollectionOperations env ops x))) = sc_sampler (fst x)"
  "sc_data_events (fst (snd (Scmi_ExecuteCollectionOperations env ops x))) = sc_data_events (fst x)"
  "sc_holds_lock (fst (snd (Scmi_ExecuteCollectionOperations env ops x))) = sc_holds_lock (fst x)"
  "sw_files (snd (snd (Scmi_ExecuteCollectionOperations env ops x))) = sw_files (snd x)"
  "sw_locked (snd (snd (Scmi_ExecuteCollectionOperations env ops x))) = sw_locked (snd x)"
  "sw_refcount (snd (snd (Scmi_ExecuteCollectionOperations env ops x))) = sw_refcount (snd x)"
proof -
  let ?y = "snd (Scmi_ExecuteCollectionOperations env ops x)"
  have "sc_state (fst ?y) = sc_state (fst x) \<and> sc_configuration (fst ?y) = sc_configuration (fst x)
    \<and> sc_sampler (fst ?y) = sc_sampler (fst x) \<and> sc_data_events (fst ?y) = sc_data_events (fst x)
    \<and> sc_holds_lock (fst ?y) = sc_holds_lock (fst x) \<and> sw_files (snd ?y) = sw_files (snd x)
    \<and> sw_locked (snd ?y) = sw_locked (snd x) \<and> sw_refcount (snd ?y) = sw_refcount (snd x)"
  proof (induction ops arbitrary: x)
    case (Cons op ops)
    then show ?case by (cases op) (simp_all add: case_prod_beta' Let_def)
  qed simp
  then show "sc_state (fst ?y) = sc_state (fst x)" "sc_configuration (fst ?y) = sc_configuration (fst x)"
    "sc_sampler (fst ?y) = sc_sampler (fst x)" "sc_data_events (fst ?y) = sc_data_events (fst x)"
    "sc_holds_lock (fst ?y) = sc_holds_lock (fst x)" "sw_files (snd ?y) = sw_files (snd x)"
    "sw_locked (snd ?y) = sw_locked (snd x)" "sw_refcount (snd ?y) = sw_refcount (snd x)"
    by blast+
qed

lemma enable_frame [simp]:
  "sc_state (fst (snd (EnableDataEvent env i x))) = sc_state (fst x)"
  "sc_configuration (fst (snd (EnableDataEvent env i x))) = sc_configuration (fst x)"
  "sc_sampler (fst (snd (EnableDataEvent env i x))) = sc_sampler (fst x)"
  "sc_data_events (fst (snd (EnableDataEvent env i x))) = sc_data_events (fst x)"
  "sc_state (fst (snd (EnableTimestamp env i x))) = sc_state (fst x)"
  "sc_configuration (fst (snd (EnableTimestamp env i x))) = sc_configuration (fst x)"
  "sc_sampler (fst (snd (EnableTimestamp env i x))) = sc_sampler (fst x)"
  "sc_data_events (fst (snd (EnableTimestamp env i x))) = sc_data_events (fst x)"
  by (simp_all add: EnableDataEvent_def EnableTimestamp_def case_prod_beta' Let_def split: sum.split)

lemma fall_back_frame [simp]:
  "sc_state (FallBackToSoftwareClockTimestamps c) = sc_state c"
  "sc_configuration (FallBackToSoftwareClockTimestamps c) = sc_configuration c"
  "sc_sampler (FallBackToSoftwareClockTimestamps c) = sc_sampler c"
  "sc_data_events (FallBackToSoftwareClockTimestamps c) = sc_data_events c"
  "sc_holds_lock (FallBackToSoftwareClockTimestamps c) = sc_holds_lock c"
  by (simp_all add: FallBackToSoftwareClockTimestamps_def)

lemma enable_one_frame [simp]:
  "sc_state (fst (snd (enable_one env i x))) = sc_state (fst x)"
  "sc_configuration (fst (snd (enable_one env i x))) = sc_configuration (fst x)"
  "sc_sampler (fst (snd (enable_one env i x))) = sc_sampler (fst x)"
  "sc_data_events (fst (snd (enable_one env i x))) = sc_data_events (fst x)"
proof -
  obtain r x1 where e: "EnableDataEvent env i x = (r, x1)" by (meson surj_pair)
  obtain r' x2 where t: "EnableTimestamp env i x1 = (r', x2)" by (meson surj_pair)
  have 1: "sc_state (fst x1) = sc_state (fst x)" "sc_configuration (fst x1) = sc_configuration (fst x)"
      "sc_sampler (fst x1) = sc_sampler (fst x)" "sc_data_events (fst x1) = sc_data_events (fst x)"
    using enable_frame(1-4) [of env i x] by (simp_all add: e del: enable_frame)
  have 2: "sc_state (fst x2) = sc_state (fst x1)" "sc_configuration (fst x2) = sc_configuration (fst x1)"
      "sc_sampler (fst x2) = sc_sampler (fst x1)" "sc_data_events (fst x2) = sc_data_events (fst x1)"
    using enable_frame(5-8) [of env i x1] by (simp_all add: t del: enable_frame)
  show "sc_state (fst (snd (enable_one env i x))) = sc_state (fst x)"
    "sc_configuration (fst (snd (enable_one env i x))) = sc_configuration (fst x)"
    "sc_sampler (fst (snd (enable_one env i x))) = sc_sampler (fst x)"
    "sc_data_events (fst (snd (enable_one env i x))) = sc_data_events (fst x)"
    using 1 2 by (simp_all add: enable_one_def e t Let_def split: sum.split option.split)
qed

lemma enable_all_frame [simp]:
  "sc_state (fst (snd (EnableDataEvents env ids enabled x))) = sc_state (fst x)"
  "sc_configuration (fst (snd (EnableDataEvents env ids enabled x))) = sc_configuration (fst x)"
  "sc_sampler (fst (snd (EnableDataEvents env ids enabled x))) = sc_sampler (fst x)"
  "sc_data_events (fst (snd (EnableDataEvents env ids enabled x))) = sc_data_events (fst x)"
proof -
  let ?y = "snd (EnableDataEvents env ids enabled x)"
  have "sc_state (fst ?y) = sc_state (fst x) \<and> sc_configuration (fst ?y) = sc_configuration (fst x)
    \<and> sc_sampler (fst ?y) = sc_sampler (fst x) \<and> sc_data_events (fst ?y) = sc_data_events (fst x)"
  proof (induction ids arbitrary: enabled x)
    case (Cons i ids)
    obtain r x1 where o: "enable_one env i x = (r, x1)" by (meson surj_pair)
    show ?case
      using Cons.IH [of _ x1] enable_one_frame [of env i x]
      by (cases r) (auto simp: o simp del: enable_one_frame)
  qed simp
  then show "sc_state (fst ?y) = sc_state (fst x)" "sc_configuration (fst ?y) = sc_configuration (fst x)"
    "sc_sampler (fst ?y) = sc_sampler (fst x)" "sc_data_events (fst ?y) = sc_data_events (fst x)"
    by blast+
qed

section \<open>The lifecycle\<close>

text \<open>What executing operations and starting or stopping a mode leave alone.\<close>

definition settled :: "'t scmi \<Rightarrow> CollectionLifecycleState \<times> ('t, scmi_operation) collection_configuration option
    \<times> scmi_data_event list \<times> bool \<times> (scmi_file \<rightharpoonup> string) \<times> bool \<times> nat" where
  "settled x = (sc_state (fst x), sc_configuration (fst x), sc_data_events (fst x), sc_holds_lock (fst x),
     sw_files (snd x), sw_locked (snd x), sw_refcount (snd x))"

lemma settled_execute:
  assumes "Scmi_ExecuteCollectionOperations env ops x = (status, y)"
  shows "settled y = settled x" "sc_sampler (fst y) = sc_sampler (fst x)"
  using execute_frame [of env ops x] by (simp_all add: assms settled_def del: execute_frame)

lemma settled_sampling:
  assumes "Scmi_StartIntervalSampling x = (status, y)"
  shows "settled y = settled x" "status \<noteq> ASTL_STATUS_SUCCESS \<Longrightarrow> sc_sampler (fst y) = sc_sampler (fst x)"
    "status = ASTL_STATUS_SUCCESS \<Longrightarrow> sc_configuration (fst x) = Some cfg \<Longrightarrow>
      sc_sampler (fst y) = Some \<lparr>ps_interval = cfg_sampling_interval cfg, ps_paused = False\<rparr>"
  using assms by (auto simp: Scmi_StartIntervalSampling_def settled_def case_prod_beta' split: if_splits option.splits)

lemma start_mode_frame:
  assumes "ExecuteStartMode cfg (Scmi_ExecuteCollectionOperations env) Scmi_StartIntervalSampling x = (status, y)"
  shows "settled y = settled x"
    and "status \<noteq> ASTL_STATUS_SUCCESS \<Longrightarrow> sc_sampler (fst y) = sc_sampler (fst x)"
    and "status = ASTL_STATUS_SUCCESS \<Longrightarrow> sc_configuration (fst x) = Some cfg \<Longrightarrow> sc_sampler (fst y) =
      (if cfg_mode cfg = MODE_SAMPLING then Some \<lparr>ps_interval = cfg_sampling_interval cfg, ps_paused = False\<rparr> else sc_sampler (fst x))"
proof -
  obtain status1 x1 where e: "Scmi_ExecuteCollectionOperations env (operationsAtStart (cfg_operations cfg)) x = (status1, x1)" by (meson surj_pair)
  note e1 = settled_execute [OF e]
  have conf: "sc_configuration (fst x1) = sc_configuration (fst x)" using e1(1) by (simp add: settled_def)
  have "settled y = settled x \<and> (status \<noteq> ASTL_STATUS_SUCCESS \<longrightarrow> sc_sampler (fst y) = sc_sampler (fst x))
    \<and> (status = ASTL_STATUS_SUCCESS \<longrightarrow> sc_configuration (fst x) = Some cfg \<longrightarrow> sc_sampler (fst y) =
      (if cfg_mode cfg = MODE_SAMPLING then Some \<lparr>ps_interval = cfg_sampling_interval cfg, ps_paused = False\<rparr> else sc_sampler (fst x)))"
  proof (cases "status1 = ASTL_STATUS_SUCCESS")
    case True
    show ?thesis
    proof (cases "cfg_mode cfg")
      case MODE_SAMPLING
      then have "Scmi_StartIntervalSampling x1 = (status, y)" using assms True by (simp add: ExecuteStartMode_def e)
      from settled_sampling [OF this] show ?thesis using e1 conf MODE_SAMPLING by auto
    next
      case MODE_SNAPSHOT
      then have "Scmi_ExecuteCollectionOperations env (operationsOnSample (cfg_operations cfg)) x1 = (status, y)"
        using assms True by (simp add: ExecuteStartMode_def e)
      from settled_execute [OF this] show ?thesis using e1 MODE_SNAPSHOT by simp
    qed (use assms True e1 in \<open>auto simp: ExecuteStartMode_def e\<close>)
  next
    case False
    then show ?thesis using assms e1 by (simp add: ExecuteStartMode_def e)
  qed
  then show "settled y = settled x"
    "status \<noteq> ASTL_STATUS_SUCCESS \<Longrightarrow> sc_sampler (fst y) = sc_sampler (fst x)"
    "status = ASTL_STATUS_SUCCESS \<Longrightarrow> sc_configuration (fst x) = Some cfg \<Longrightarrow> sc_sampler (fst y) =
      (if cfg_mode cfg = MODE_SAMPLING then Some \<lparr>ps_interval = cfg_sampling_interval cfg, ps_paused = False\<rparr> else sc_sampler (fst x))"
    by blast+
qed

lemma stop_mode_frame:
  assumes "ExecuteStopMode cfg (Scmi_ExecuteCollectionOperations env) x = (status, y)"
  shows "settled y = settled x" "sc_sampler (fst y) = sc_sampler (fst x)"
proof -
  obtain status1 x1 where e: "Scmi_ExecuteCollectionOperations env (operationsOnSample (cfg_operations cfg)) x = (status1, x1)" by (meson surj_pair)
  obtain status2 x2 where e2: "Scmi_ExecuteCollectionOperations env (operationsAtStop (cfg_operations cfg)) x1 = (status2, x2)" by (meson surj_pair)
  obtain status3 x3 where e3: "Scmi_ExecuteCollectionOperations env (operationsAtStop (cfg_operations cfg)) x = (status3, x3)" by (meson surj_pair)
  show "settled y = settled x" "sc_sampler (fst y) = sc_sampler (fst x)"
    using assms settled_execute [OF e] settled_execute [OF e2] settled_execute [OF e3]
    by (cases "cfg_mode cfg"; simp add: ExecuteStopMode_def e e2 e3 split: if_splits)+
qed

lemma enable_one_error:
  assumes "enable_one env i x = (Inr (e, half), x1)"
  shows "e \<noteq> ASTL_STATUS_SUCCESS"
proof -
  obtain r y where d: "EnableDataEvent env i x = (r, y)" by (meson surj_pair)
  obtain r' y' where t: "EnableTimestamp env i y = (r', y')" by (meson surj_pair)
  have "r \<noteq> Inl ASTL_STATUS_SUCCESS"
    using d by (auto simp: EnableDataEvent_def case_prod_beta' Let_def dest: Scmi_ReadFile_error split: sum.splits option.splits if_splits)
  moreover have "r' \<noteq> Inl ASTL_STATUS_SUCCESS"
    using t by (auto simp: EnableTimestamp_def case_prod_beta' Let_def dest: Scmi_ReadFile_error split: sum.splits option.splits if_splits)
  ultimately show ?thesis
    using assms by (auto simp: enable_one_def d t Let_def split: sum.splits if_splits option.splits)
qed

lemma enable_all_error: "fst (EnableDataEvents env ids enabled x) \<noteq> Inl ASTL_STATUS_SUCCESS"
proof (induction ids arbitrary: enabled x)
  case (Cons i ids)
  obtain r x1 where o: "enable_one env i x = (r, x1)" by (meson surj_pair)
  show ?case
  proof (cases r)
    case (Inr err)
    obtain e half where err: "err = (e, half)" by (meson surj_pair)
    show ?thesis using enable_one_error [of env i x e half x1] o Inr err by simp
  qed (use Cons.IH o in simp)
qed simp

text \<open>The parts of a configuration that is not refused at once.\<close>

lemma configure_cases:
  assumes "Scmi_ConfigureCollection env cfg x = (status, y)"
  obtains (refused) "sc_state (fst x) \<notin> {UNCONFIGURED, CONFIGURED, STOPPED}" "status = ASTL_STATUS_BAD_CONFIGURATION" "y = x"
  | (failed) x' where "sc_state (fst x) \<in> {UNCONFIGURED, CONFIGURED, STOPPED}" "status \<noteq> ASTL_STATUS_SUCCESS" "y = RollbackConfigurationState env x'"
      "sc_sampler (fst y) = sc_sampler (fst x)"
  | (configured) events ops where "sc_state (fst x) \<in> {UNCONFIGURED, CONFIGURED, STOPPED}" "status = ASTL_STATUS_SUCCESS"
      "sc_state (fst y) = CONFIGURED" "sc_configuration (fst y) = Some (cfg\<lparr>cfg_operations := ops\<rparr>)"
      "ops = UpdateReadOperationTimestampRates events (cfg_operations cfg)" "sc_data_events (fst y) = events"
      "sc_sampler (fst y) = sc_sampler (fst x)"
proof -
  define x0 where "x0 = (if sc_state (fst x) = CONFIGURED then RollbackConfigurationState env x else x)"
  have s0: "sc_sampler (fst x0) = sc_sampler (fst x)" by (simp add: x0_def)
  obtain st1 c1 w1 where w: "ScmiWrite env TlmEnableFile kScmiEnableValue ((fst x0)\<lparr>sc_software_clock := xe_software_clock env\<rparr>, snd x0) = (st1, c1, w1)"
    by (metis prod_cases3)
  have s1: "sc_sampler (fst (c1, w1)) = sc_sampler (fst x)"
    using write_frame(3) [of env TlmEnableFile kScmiEnableValue "((fst x0)\<lparr>sc_software_clock := xe_software_clock env\<rparr>, snd x0)"]
    by (simp add: w s0 del: write_frame)
  obtain r c3 w3 where e: "EnableDataEvents env (xe_order env (GetUniqueDataEventIds (cfg_operations cfg))) []
      (c1\<lparr>sc_configuration := Some cfg, sc_state := CONFIGURED\<rparr>, w1) = (r, c3, w3)" by (metis prod_cases3)
  have s3: "sc_sampler c3 = sc_sampler (fst x)" "sc_state c3 = CONFIGURED"
    using enable_all_frame [of env "xe_order env (GetUniqueDataEventIds (cfg_operations cfg))" "[]"
      "(c1\<lparr>sc_configuration := Some cfg, sc_state := CONFIGURED\<rparr>, w1)"] s1 by (simp_all add: e del: enable_all_frame)
  define rest where "rest = (\<lambda>events. let ops = UpdateReadOperationTimestampRates events (cfg_operations cfg) in
    Scmi_ExecuteCollectionOperations env (operationsBeforeStart ops)
      (c3\<lparr>sc_data_events := events, sc_configuration := Some (cfg\<lparr>cfg_operations := ops\<rparr>)\<rparr>, w3))"
  obtain st5 x5 where r5: "rest (case r of Inl e \<Rightarrow> [] | Inr events \<Rightarrow> events) = (st5, x5)" by (meson surj_pair)
  have run: "Scmi_ConfigureCollection env cfg x =
    (if sc_state (fst x) \<notin> {UNCONFIGURED, CONFIGURED, STOPPED} then (ASTL_STATUS_BAD_CONFIGURATION, x)
     else if st1 \<noteq> ASTL_STATUS_SUCCESS then (st1, RollbackConfigurationState env (c1, w1))
     else case r of
         Inl e \<Rightarrow> (e, RollbackConfigurationState env (c3, w3))
       | Inr events \<Rightarrow> if st5 \<noteq> ASTL_STATUS_SUCCESS then (st5, RollbackConfigurationState env x5) else (ASTL_STATUS_SUCCESS, x5))"
  proof (cases "sc_state (fst x) \<in> {UNCONFIGURED, CONFIGURED, STOPPED}")
    case True
    have x0': "(if sc_state (fst x) = CONFIGURED then RollbackConfigurationState env x else x) = (fst x0, snd x0)"
      by (simp add: x0_def)
    have guard: "(sc_state (fst x) \<noteq> UNCONFIGURED \<and> sc_state (fst x) \<noteq> CONFIGURED \<and> sc_state (fst x) \<noteq> STOPPED) = False"
      using True by simp
    have inside: "(sc_state (fst x) \<notin> {UNCONFIGURED, CONFIGURED, STOPPED}) = False" using True by blast
    show ?thesis
      using r5 unfolding Scmi_ConfigureCollection_def Let_def guard inside if_False x0' prod.case w
      by (cases "st1 = ASTL_STATUS_SUCCESS"; cases r) (simp_all add: e rest_def Let_def)
  next
    case False
    then show ?thesis by (auto simp: Scmi_ConfigureCollection_def)
  qed
  show ?thesis
  proof (cases "sc_state (fst x) \<in> {UNCONFIGURED, CONFIGURED, STOPPED}")
    case False
    then show ?thesis using refused assms run by simp
  next
    case True
    have inside: "(sc_state (fst x) \<notin> {UNCONFIGURED, CONFIGURED, STOPPED}) = False" using True by blast
    note run' = assms [unfolded run inside if_False]
    note configured' = configured [OF True] and failed' = failed [OF True]
    show ?thesis
    proof (cases "st1 = ASTL_STATUS_SUCCESS \<and> (\<exists>events. r = Inr events)")
      case early: False
      have "r \<noteq> Inl ASTL_STATUS_SUCCESS"
        using enable_all_error [of env "xe_order env (GetUniqueDataEventIds (cfg_operations cfg))" "[]"
          "(c1\<lparr>sc_configuration := Some cfg, sc_state := CONFIGURED\<rparr>, w1)"] by (simp add: e)
      then show ?thesis
        using failed' [of "(c1, w1)"] failed' [of "(c3, w3)"] early run' s1 s3
        by (cases r) (auto split: if_splits)
    next
      case entered: True
      then obtain events where ev: "r = Inr events" by blast
      let ?ops = "UpdateReadOperationTimestampRates events (cfg_operations cfg)"
      have "Scmi_ExecuteCollectionOperations env (operationsBeforeStart ?ops)
          (c3\<lparr>sc_data_events := events, sc_configuration := Some (cfg\<lparr>cfg_operations := ?ops\<rparr>)\<rparr>, w3) = (st5, x5)"
        using r5 ev by (simp add: rest_def Let_def)
      note f = settled_execute [OF this]
      show ?thesis
        using configured' [of ?ops events] failed' [of x5] f s3 entered run' ev
        by (cases "st5 = ASTL_STATUS_SUCCESS") (simp_all add: settled_def)
    qed
  qed
qed

lemma stop_cases:
  assumes "Scmi_StopCollection env x = (status, y)"
  obtains (refused) "status \<noteq> ASTL_STATUS_SUCCESS" "settled y = settled x" "sc_sampler (fst y) = None"
      "CheckCollectionLifecycleAction (sc_state (fst x)) STOP \<noteq> ASTL_STATUS_SUCCESS \<Longrightarrow> status = CheckCollectionLifecycleAction (sc_state (fst x)) STOP"
  | (stopped) x1 c w where "CheckCollectionLifecycleAction (sc_state (fst x)) STOP = ASTL_STATUS_SUCCESS" "settled x1 = settled x"
      "RestoreDataEventEnabledState env (sc_data_events (fst x)) x1 = (status, c, w)" "sc_sampler (fst x1) = None"
      "y = ReleaseProcessLock (c\<lparr>sc_data_events := [], sc_previous := Map.empty, sc_state := STOPPED\<rparr>, w)"
proof -
  let ?x = "Scmi_StopIntervalSampling x"
  have s: "settled ?x = settled x" "sc_sampler (fst ?x) = None" by (simp_all add: Scmi_StopIntervalSampling_def settled_def)
  then have s': "sc_state (fst ?x) = sc_state (fst x)" "sc_configuration (fst ?x) = sc_configuration (fst x)" by (simp_all add: settled_def)
  show ?thesis
  proof (cases "CheckCollectionLifecycleAction (sc_state (fst x)) STOP = ASTL_STATUS_SUCCESS \<and> sc_configuration (fst x) \<noteq> None")
    case False
    then show ?thesis using refused assms s by (auto simp: Scmi_StopCollection_def Let_def s' split: if_splits)
  next
    case True
    then obtain cfg where cfg: "sc_configuration (fst x) = Some cfg" by blast
    obtain st1 x1 where m: "ExecuteStopMode cfg (Scmi_ExecuteCollectionOperations env) ?x = (st1, x1)" by (meson surj_pair)
    note f = stop_mode_frame [OF m]
    obtain r c w where r: "RestoreDataEventEnabledState env (sc_data_events (fst x1)) x1 = (r, c, w)" by (metis prod_cases3)
    have ev: "sc_data_events (fst x1) = sc_data_events (fst x)" using f(1) s(1) by (simp add: settled_def)
    show ?thesis
    proof (cases "st1 = ASTL_STATUS_SUCCESS")
      case ok: True
      have "status = r \<and> y = ReleaseProcessLock (c\<lparr>sc_data_events := [], sc_previous := Map.empty, sc_state := STOPPED\<rparr>, w)"
        using assms True ok unfolding Scmi_StopCollection_def Let_def s' cfg by (simp add: m r)
      then show ?thesis using stopped [of x1 c w] True f s r ev by simp
    next
      case bad: False
      have "status = st1 \<and> y = x1" using assms True bad unfolding Scmi_StopCollection_def Let_def s' cfg by (simp add: m)
      then show ?thesis using refused True f s bad by simp
    qed
  qed
qed

lemma start_cases:
  assumes "Scmi_StartCollection env x = (status, y)"
  obtains (refused) "status \<noteq> ASTL_STATUS_SUCCESS" "settled y = settled x" "sc_sampler (fst y) = sc_sampler (fst x)"
      "CheckCollectionLifecycleAction (sc_state (fst x)) START \<noteq> ASTL_STATUS_SUCCESS \<Longrightarrow> status = CheckCollectionLifecycleAction (sc_state (fst x)) START"
  | (started) z cfg where "CheckCollectionLifecycleAction (sc_state (fst x)) START = ASTL_STATUS_SUCCESS" "status = ASTL_STATUS_SUCCESS"
      "settled z = settled x" "y = ((fst z)\<lparr>sc_state := STARTED\<rparr>, snd z)" "sc_configuration (fst x) = Some cfg" "sc_sampler (fst z) =
        (if cfg_mode cfg = MODE_SAMPLING then Some \<lparr>ps_interval = cfg_sampling_interval cfg, ps_paused = False\<rparr> else sc_sampler (fst x))"
proof (cases "CheckCollectionLifecycleAction (sc_state (fst x)) START = ASTL_STATUS_SUCCESS \<and> sc_configuration (fst x) \<noteq> None")
  case False
  then show ?thesis using refused assms by (auto simp: Scmi_StartCollection_def Let_def split: if_splits)
next
  case True
  then obtain cfg where cfg: "sc_configuration (fst x) = Some cfg" by blast
  obtain st1 c w where m: "ExecuteStartMode cfg (Scmi_ExecuteCollectionOperations env) Scmi_StartIntervalSampling
      ((fst x)\<lparr>sc_previous := Map.empty\<rparr>, snd x) = (st1, c, w)" by (metis prod_cases3)
  note f = start_mode_frame [OF m]
  have y: "(status, y) = (st1, if st1 = ASTL_STATUS_SUCCESS then c\<lparr>sc_state := STARTED\<rparr> else c, w)"
    using assms True unfolding Scmi_StartCollection_def Let_def cfg by (auto simp: m)
  show ?thesis
    using refused started [of "(c, w)" cfg] f y True cfg
    by (cases "st1 = ASTL_STATUS_SUCCESS") (simp_all add: settled_def)
qed

lemma read_settled: "settled (snd (Scmi_ReadImmediate env x)) = settled x" "sc_sampler (fst (snd (Scmi_ReadImmediate env x))) = sc_sampler (fst x)"
proof -
  have "settled (snd (Scmi_ExecuteCollectionOperations env ops x)) = settled x" for ops by (simp add: settled_def)
  then show "settled (snd (Scmi_ReadImmediate env x)) = settled x"
    "sc_sampler (fst (snd (Scmi_ReadImmediate env x))) = sc_sampler (fst x)"
    by (simp_all add: Scmi_ReadImmediate_def Let_def split: option.split)
qed

interpretation scmi_lc: collector_lifecycle "\<lambda>x :: 't scmi. sc_state (fst x)" "scmi_exec env" for env :: "'t scmi_env"
proof unfold_locales
  fix x y :: "'t scmi" and st g
  show "scmi_exec env CmdStart x = (st, y) \<Longrightarrow> action_law (sc_state (fst x)) START st (sc_state (fst y))"
    by (auto simp: action_law_def settled_def elim!: start_cases)
  show "scmi_exec env CmdPause x = (st, y) \<Longrightarrow> action_law (sc_state (fst x)) PAUSE st (sc_state (fst y))"
    by (auto simp: Scmi_PauseCollection_def PauseCollectionLifecycle_def action_law_def case_prod_beta' Let_def split: if_splits)
  show "scmi_exec env CmdResume x = (st, y) \<Longrightarrow> action_law (sc_state (fst x)) RESUME st (sc_state (fst y))"
    by (auto simp: Scmi_ResumeCollection_def ResumeCollectionLifecycle_def action_law_def case_prod_beta' Let_def split: if_splits)
  show "scmi_exec env CmdStop x = (st, y) \<Longrightarrow> action_law (sc_state (fst x)) STOP st (sc_state (fst y))"
    by (auto simp: action_law_def settled_def elim!: stop_cases)
  show "scmi_exec env (CmdConfigure g) x = (st, y) \<Longrightarrow>
      (if sc_state (fst x) \<in> {UNCONFIGURED, CONFIGURED, STOPPED}
       then sc_state (fst y) \<in> {sc_state (fst x), CONFIGURED, UNCONFIGURED} \<and> (st = ASTL_STATUS_SUCCESS \<longrightarrow> sc_state (fst y) = CONFIGURED)
       else st \<noteq> ASTL_STATUS_SUCCESS \<and> sc_state (fst y) = sc_state (fst x))"
    by (auto elim!: configure_cases)
  show "scmi_exec env CmdClear x = (st, y) \<Longrightarrow>
      (if sc_state (fst x) \<in> {STARTED, PAUSED} then st \<noteq> ASTL_STATUS_SUCCESS \<and> sc_state (fst y) = sc_state (fst x)
       else sc_state (fst y) = UNCONFIGURED)"
    by (auto simp: Scmi_ClearCollectionState_def split: if_splits)
  show "scmi_exec env CmdRead x = (st, y) \<Longrightarrow> sc_state (fst y) = sc_state (fst x)"
    using read_settled(1) [of env x] by (auto simp: settled_def)
qed

end
