(* ===== verification/Scmi_Lock.thy ===== *)
theory Scmi_Lock
  imports Scmi_Lifecycle
begin

text \<open>
  The lock that keeps other processes off the SCMI telemetry files is shared by all SCMI collectors
  of a process and counted: it is held exactly while a collector uses it.
\<close>

section \<open>One collector among others\<close>

text \<open>n of the other collectors hold a reference.\<close>

definition lock_ok :: "nat \<Rightarrow> 't scmi \<Rightarrow> bool" where
  "lock_ok n x \<longleftrightarrow> sw_refcount (snd x) = n + of_bool (sc_holds_lock (fst x))
    \<and> (sw_locked (snd x) \<longleftrightarrow> sw_refcount (snd x) \<noteq> 0)"

lemma lock_acquire: "lock_ok n x \<Longrightarrow> lock_ok n (snd (AcquireProcessLock env x))"
  by (auto simp: lock_ok_def AcquireProcessLock_def case_prod_beta' Let_def)

lemma lock_release: "lock_ok n x \<Longrightarrow> lock_ok n (ReleaseProcessLock x)"
  by (auto simp: lock_ok_def ReleaseProcessLock_def case_prod_beta' Let_def split: if_splits)

lemma lock_same:
  "sc_holds_lock (fst y) = sc_holds_lock (fst x) \<Longrightarrow> sw_locked (snd y) = sw_locked (snd x)
    \<Longrightarrow> sw_refcount (snd y) = sw_refcount (snd x) \<Longrightarrow> lock_ok n y = lock_ok n x"
  by (simp add: lock_ok_def)

lemma lock_write:
  assumes "lock_ok n x"
  shows "lock_ok n (snd (ScmiWrite env f v x))"
proof -
  obtain st c w where a: "AcquireProcessLock env x = (st, c, w)" by (metis prod_cases3)
  have "lock_ok n (c, w)" using lock_acquire [OF assms, of env] by (simp add: a)
  then show ?thesis using assms by (auto simp: ScmiWrite_def a Let_def lock_ok_def split: sum.split option.split)
qed

lemma lock_restore_event: "lock_ok n x \<Longrightarrow> lock_ok n (snd (restore_event env e x))"
  by (simp add: restore_event_def case_prod_beta' Let_def lock_write)

lemma lock_restore: "lock_ok n x \<Longrightarrow> lock_ok n (snd (RestoreDataEventEnabledState env es x))"
  by (induction es arbitrary: x) (simp_all add: case_prod_beta' Let_def lock_restore_event)

lemma lock_enable_event: "lock_ok n x \<Longrightarrow> lock_ok n (snd (EnableDataEvent env i x))"
  by (simp add: EnableDataEvent_def case_prod_beta' Let_def lock_write split: sum.split)

lemma lock_enable_timestamp: "lock_ok n x \<Longrightarrow> lock_ok n (snd (EnableTimestamp env i x))"
  by (simp add: EnableTimestamp_def case_prod_beta' Let_def lock_write split: sum.split)

lemma lock_fall_back [simp]: "lock_ok n (FallBackToSoftwareClockTimestamps c, w) = lock_ok n (c, w)"
  by (rule lock_same) simp_all

lemma lock_enable_one:
  assumes "lock_ok n x"
  shows "lock_ok n (snd (enable_one env i x))"
proof -
  obtain r c w where d: "EnableDataEvent env i x = (r, c, w)" by (metis prod_cases3)
  obtain r' c' w' where t: "EnableTimestamp env i (c, w) = (r', c', w')" by (metis prod_cases3)
  have "lock_ok n (c, w)" using lock_enable_event [OF assms, of env i] by (simp add: d)
  moreover have "lock_ok n (c', w')" using lock_enable_timestamp [OF calculation, of env i] by (simp add: t)
  ultimately show ?thesis by (simp add: enable_one_def d t Let_def split: sum.split option.split)
qed

lemma lock_enable_all: "lock_ok n x \<Longrightarrow> lock_ok n (snd (EnableDataEvents env ids enabled x))"
proof (induction ids arbitrary: enabled x)
  case (Cons i ids)
  obtain r x1 where o: "enable_one env i x = (r, x1)" by (meson surj_pair)
  have ok: "lock_ok n x1" using lock_enable_one [OF Cons.prems, of env i] by (simp add: o)
  show ?case using Cons.IH [OF ok] lock_restore [OF ok, of env] by (cases r) (auto simp: o)
qed simp

lemma lock_rollback:
  assumes "lock_ok n x"
  shows "lock_ok n (RollbackConfigurationState env x)"
proof -
  obtain st c w where r: "RestoreDataEventEnabledState env (sc_data_events (fst x)) x = (st, c, w)" by (metis prod_cases3)
  have "lock_ok n (c, w)" using lock_restore [OF assms, of env "sc_data_events (fst x)"] by (simp add: r)
  then have 1: "lock_ok n (c\<lparr>sc_data_events := [], sc_previous := Map.empty, sc_configuration := None, sc_state := UNCONFIGURED\<rparr>, w)"
    by (simp add: lock_ok_def)
  have 2: "lock_ok n ((fst x)\<lparr>sc_previous := Map.empty, sc_configuration := None, sc_state := UNCONFIGURED\<rparr>, snd x)"
    using assms by (simp add: lock_ok_def)
  show ?thesis using lock_release [OF 1] lock_release [OF 2] by (simp add: RollbackConfigurationState_def r case_prod_beta')
qed

lemma settled_lock: "settled y = settled x \<Longrightarrow> lock_ok n y = lock_ok n x"
  by (rule lock_same) (simp_all add: settled_def)

lemma lock_configure:
  assumes "lock_ok n x"
  shows "lock_ok n (snd (Scmi_ConfigureCollection env cfg x))"
proof -
  define x0 where "x0 = (if sc_state (fst x) = CONFIGURED then RollbackConfigurationState env x else x)"
  have 0: "lock_ok n x0" using assms lock_rollback [OF assms, of env] by (simp add: x0_def)
  obtain st1 c1 w1 where w: "ScmiWrite env TlmEnableFile kScmiEnableValue ((fst x0)\<lparr>sc_software_clock := xe_software_clock env\<rparr>, snd x0) = (st1, c1, w1)"
    by (metis prod_cases3)
  have "lock_ok n ((fst x0)\<lparr>sc_software_clock := xe_software_clock env\<rparr>, snd x0)" using 0 by (simp add: lock_ok_def)
  from lock_write [OF this, of env TlmEnableFile kScmiEnableValue] have 1: "lock_ok n (c1, w1)" by (simp add: w)
  obtain r c3 w3 where e: "EnableDataEvents env (xe_order env (GetUniqueDataEventIds (cfg_operations cfg))) []
      (c1\<lparr>sc_configuration := Some cfg, sc_state := CONFIGURED\<rparr>, w1) = (r, c3, w3)" by (metis prod_cases3)
  have "lock_ok n (c1\<lparr>sc_configuration := Some cfg, sc_state := CONFIGURED\<rparr>, w1)" using 1 by (simp add: lock_ok_def)
  from lock_enable_all [OF this, of env "xe_order env (GetUniqueDataEventIds (cfg_operations cfg))" "[]"]
  have 3: "lock_ok n (c3, w3)" by (simp add: e)
  have 5: "lock_ok n x5" if "Scmi_ExecuteCollectionOperations env ops
      (c3\<lparr>sc_data_events := events, sc_configuration := Some cfg'\<rparr>, w3) = (st5, x5)" for ops events cfg' st5 x5
    using settled_lock [OF settled_execute(1) [OF that], of n] 3 by (simp add: lock_ok_def)
  have x0': "(if sc_state (fst x) = CONFIGURED then RollbackConfigurationState env x else x) = (fst x0, snd x0)"
    by (simp add: x0_def)
  show ?thesis
    using assms 1 3 5 unfolding Scmi_ConfigureCollection_def Let_def x0' prod.case w e
    by (cases r) (auto simp: lock_rollback split: prod.split)
qed

lemma lock_exec:
  assumes "lock_ok n x"
  shows "lock_ok n (snd (scmi_exec env cmd x))"
proof (cases cmd)
  case (CmdConfigure cfg)
  then show ?thesis using lock_configure [OF assms] by simp
next
  case CmdClear
  have "lock_ok n (Scmi_StopIntervalSampling x)" using assms by (simp add: lock_ok_def Scmi_StopIntervalSampling_def)
  from lock_rollback [OF this, of env] show ?thesis using CmdClear assms by (simp add: Scmi_ClearCollectionState_def)
next
  case CmdStart
  obtain st y where s: "Scmi_StartCollection env x = (st, y)" by (meson surj_pair)
  from s have "lock_ok n y"
    by (cases rule: start_cases) (use assms in \<open>auto simp: settled_def lock_ok_def\<close>)
  then show ?thesis using CmdStart s by simp
next
  case CmdPause
  have "sc_holds_lock (snd (EmitPauseResumeSample env m c)) = sc_holds_lock c" for m c by (simp add: EmitPauseResumeSample_def)
  then show ?thesis
    using CmdPause assms by (simp add: Scmi_PauseCollection_def PauseCollectionLifecycle_def case_prod_beta' Let_def lock_ok_def)
next
  case CmdResume
  have "sc_holds_lock (snd (EmitPauseResumeSample env m c)) = sc_holds_lock c" for m c by (simp add: EmitPauseResumeSample_def)
  then show ?thesis
    using CmdResume assms by (simp add: Scmi_ResumeCollection_def ResumeCollectionLifecycle_def case_prod_beta' Let_def lock_ok_def)
next
  case CmdStop
  obtain st y where s: "Scmi_StopCollection env x = (st, y)" by (meson surj_pair)
  from s have "lock_ok n y"
  proof (cases rule: stop_cases)
    case refused
    then show ?thesis using assms settled_lock by blast
  next
    case (stopped x1 c w)
    then have "lock_ok n x1" using assms settled_lock by blast
    from lock_restore [OF this, of env "sc_data_events (fst x)"] have "lock_ok n (c, w)" by (simp add: stopped)
    then have "lock_ok n (c\<lparr>sc_data_events := [], sc_previous := Map.empty, sc_state := STOPPED\<rparr>, w)" by (simp add: lock_ok_def)
    then show ?thesis using lock_release by (simp add: stopped)
  qed
  then show ?thesis using CmdStop s by simp
next
  case CmdRead
  then show ?thesis using settled_lock [OF read_settled(1) [of env x]] assms by simp
qed

text \<open>Only a collector that is configured or runs holds a reference, and no other has data events to restore.\<close>

definition holds_ok :: "'t scmi_collector \<Rightarrow> bool" where
  "holds_ok c \<longleftrightarrow> (sc_state c \<in> {CONFIGURED, STARTED, PAUSED} \<or> \<not> sc_holds_lock c \<and> sc_data_events c = []) \<and> sc_state c \<noteq> STARTING"

lemma settled_holds: "settled y = settled x \<Longrightarrow> holds_ok (fst y) = holds_ok (fst x)"
  by (simp add: settled_def holds_ok_def)

lemma holds_exec:
  assumes "holds_ok (fst x)"
  shows "holds_ok (fst (snd (scmi_exec env cmd x)))"
proof (cases cmd)
  case (CmdConfigure cfg)
  obtain st y where s: "Scmi_ConfigureCollection env cfg x = (st, y)" by (meson surj_pair)
  from s have "holds_ok (fst y)"
    by (cases rule: configure_cases) (use assms in \<open>auto simp: holds_ok_def\<close>)
  then show ?thesis using CmdConfigure s by simp
next
  case CmdClear
  then show ?thesis using assms by (simp add: Scmi_ClearCollectionState_def holds_ok_def)
next
  case CmdStart
  obtain st y where s: "Scmi_StartCollection env x = (st, y)" by (meson surj_pair)
  from s have "holds_ok (fst y)"
    by (cases rule: start_cases) (use assms in \<open>auto simp: settled_def holds_ok_def\<close>)
  then show ?thesis using CmdStart s by simp
next
  case CmdPause
  have e: "sc_holds_lock (snd (EmitPauseResumeSample env m c)) = sc_holds_lock c"
      "sc_data_events (snd (EmitPauseResumeSample env m c)) = sc_data_events c" for m c by (simp_all add: EmitPauseResumeSample_def)
  show ?thesis
    using CmdPause assms
    by (cases "sc_state (fst x)") (simp_all add: Scmi_PauseCollection_def PauseCollectionLifecycle_def case_prod_beta' Let_def
      holds_ok_def e lifecycle_table)
next
  case CmdResume
  have e: "sc_holds_lock (snd (EmitPauseResumeSample env m c)) = sc_holds_lock c"
      "sc_data_events (snd (EmitPauseResumeSample env m c)) = sc_data_events c" for m c by (simp_all add: EmitPauseResumeSample_def)
  show ?thesis
    using CmdResume assms
    by (cases "sc_state (fst x)") (simp_all add: Scmi_ResumeCollection_def ResumeCollectionLifecycle_def case_prod_beta' Let_def
      holds_ok_def e lifecycle_table)
next
  case CmdStop
  obtain st y where s: "Scmi_StopCollection env x = (st, y)" by (meson surj_pair)
  from s have "holds_ok (fst y)"
  proof (cases rule: stop_cases)
    case refused
    then show ?thesis using assms settled_holds [of y x] by simp
  next
    case (stopped x1 c w)
    then show ?thesis by (simp add: holds_ok_def)
  qed
  then show ?thesis using CmdStop s by simp
next
  case CmdRead
  then show ?thesis using settled_holds [OF read_settled(1) [of env x]] assms by simp
qed

section \<open>All collectors of a process\<close>

inductive process_step :: "'t scmi_collector list \<times> scmi_world \<Rightarrow> 't scmi_collector list \<times> scmi_world \<Rightarrow> bool" where
  step_command: "i < length cs \<Longrightarrow> scmi_exec env cmd (cs ! i, w) = (status, c, w') \<Longrightarrow>
    process_step (cs, w) (cs[i := c], w')"
| step_new: "process_step (cs, w) (ScmiSysfsCollector # cs, w)"
| step_destroy: "i < length cs \<Longrightarrow> Scmi_Destroy env (cs ! i, w) = (c, w') \<Longrightarrow>
    process_step (cs, w) (take i cs @ drop (Suc i) cs, w')"

definition process_ok :: "'t scmi_collector list \<times> scmi_world \<Rightarrow> bool" where
  "process_ok s \<longleftrightarrow> sw_refcount (snd s) = length (filter sc_holds_lock (fst s))
    \<and> (sw_locked (snd s) \<longleftrightarrow> sw_refcount (snd s) \<noteq> 0) \<and> list_all holds_ok (fst s)"

lemma process_lock_ok:
  "process_ok (cs1 @ c # cs2, w) \<longleftrightarrow> lock_ok (length (filter sc_holds_lock (cs1 @ cs2))) (c, w) \<and> list_all holds_ok (cs1 @ c # cs2)"
  by (auto simp: process_ok_def lock_ok_def)

lemma process_step_ok:
  assumes "process_step s s'" "process_ok s"
  shows "process_ok s'"
  using assms
proof (cases rule: process_step.cases)
  case (step_command i cs env cmd w status c w')
  have cs: "cs = take i cs @ cs ! i # drop (Suc i) cs" using step_command by (simp add: id_take_nth_drop)
  have upd: "cs[i := c] = take i cs @ c # drop (Suc i) cs" using step_command by (simp add: upd_conv_take_nth_drop)
  have "process_ok (take i cs @ cs ! i # drop (Suc i) cs, w)" using assms(2) step_command(1) cs by simp
  then have "lock_ok (length (filter sc_holds_lock (take i cs @ drop (Suc i) cs))) (c, w')" "holds_ok c"
      "list_all holds_ok (take i cs)" "list_all holds_ok (drop (Suc i) cs)"
    using lock_exec [of _ "(cs ! i, w)" env cmd] holds_exec [of "(cs ! i, w)" env cmd] step_command(4)
    by (auto simp: process_lock_ok)
  then show ?thesis by (simp add: step_command(2) upd process_lock_ok)
next
  case (step_new cs w)
  then show ?thesis using assms(2) by (simp add: process_ok_def ScmiSysfsCollector_def holds_ok_def)
next
  case (step_destroy i cs env w c w')
  have cs: "cs = take i cs @ cs ! i # drop (Suc i) cs" using step_destroy by (simp add: id_take_nth_drop)
  have ok: "process_ok (take i cs @ cs ! i # drop (Suc i) cs, w)" using assms(2) step_destroy(1) cs by simp
  let ?n = "length (filter sc_holds_lock (take i cs @ drop (Suc i) cs))"
  have "lock_ok ?n (cs ! i, w)" using ok by (simp add: process_lock_ok)
  then have "lock_ok ?n (if sc_state (cs ! i) = STARTED \<or> sc_state (cs ! i) = PAUSED
      then snd (Scmi_StopCollection env (cs ! i, w)) else (cs ! i, w))"
    using lock_exec [of ?n "(cs ! i, w)" env CmdStop] by simp
  from lock_rollback [OF this, of env] have "lock_ok ?n (Scmi_Destroy env (cs ! i, w))" by (simp add: Scmi_Destroy_def)
  moreover have "\<not> sc_holds_lock c" using step_destroy(4) by (metis Scmi_Destroy_def fst_conv rollback_frame(5))
  ultimately show ?thesis
    using ok by (simp add: step_destroy process_ok_def lock_ok_def)
qed

lemma process_run_ok: "process_step\<^sup>*\<^sup>* s s' \<Longrightarrow> process_ok s \<Longrightarrow> process_ok s'"
  by (induction rule: rtranclp_induct) (simp_all add: process_step_ok)

text \<open>
  C26: however many SCMI collectors a process creates, commands and destroys, in whatever order and
  whatever the files, the lock file and the sink do, the count of references is the number of the
  collectors that hold one, the lock is held exactly while some collector holds a reference, and
  only a configured or running collector does: a stopped, cleared or failed collection never keeps
  other processes out.
\<close>

theorem scmi_process_lock_counted:
  fixes cs :: "'t scmi_collector list"
  assumes "process_step\<^sup>*\<^sup>* ([], \<lparr>sw_files = files, sw_locked = False, sw_refcount = 0, sw_reads = 0\<rparr>) (cs, w)"
  shows "sw_refcount w = length (filter sc_holds_lock cs) \<and> (sw_locked w \<longleftrightarrow> (\<exists>c\<in>set cs. sc_holds_lock c))
    \<and> (\<forall>c\<in>set cs. sc_holds_lock c \<longrightarrow> sc_state c \<in> {CONFIGURED, STARTED, PAUSED})"
proof -
  have "process_ok (cs, w)" using process_run_ok [OF assms] by (simp add: process_ok_def)
  then show ?thesis
    by (auto simp: process_ok_def holds_ok_def list_all_iff filter_empty_conv)
qed

section \<open>One data event\<close>

definition scmi_example_env :: "nat scmi_env" where
  "scmi_example_env = \<lparr>xe_valid = (\<lambda>f. True), xe_read_fails = (\<lambda>f v. None), xe_writable = (\<lambda>f. Some True), xe_write = (\<lambda>f v. ASTL_STATUS_SUCCESS), xe_takes = (\<lambda>f v. True),
     xe_order = id, xe_value = (\<lambda>n i. Inr ''5 ff''), xe_now = (\<lambda>n. 7), xe_temp_dir_fails = False, xe_lock = ASTL_STATUS_SUCCESS,
     xe_software_clock = False, xe_accept = (\<lambda>s. ASTL_STATUS_SUCCESS)\<rparr>"

definition scmi_example_config :: "(nat, scmi_operation) collection_configuration" where
  "scmi_example_config = \<lparr>cfg_target = 0, cfg_operations = \<lparr>operationsBeforeStart = [], operationsAtStart = [],
     operationsOnSample = [ScmiRead \<lparr>sr_id = 2, sr_event = 3, sr_rate = 0\<rparr>], operationsAtStop = []\<rparr>,
     cfg_mode = MODE_IMMEDIATE, cfg_sampling_interval = 0\<rparr>"

definition scmi_example_files :: "scmi_file \<rightharpoonup> string" where
  "scmi_example_files = [TlmEnableFile \<mapsto> ''0'', EnableFile 3 \<mapsto> ''0'', TstampEnableFile 3 \<mapsto> ''0'', TstampRateFile 3 \<mapsto> ''9'']"

definition scmi_example_world :: scmi_world where
  "scmi_example_world = \<lparr>sw_files = scmi_example_files, sw_locked = False, sw_refcount = 0, sw_reads = 0\<rparr>"

definition scmi_example_configured :: "nat scmi" where
  "scmi_example_configured =
    (\<lparr>sc_sink = False, sc_state = CONFIGURED,
      sc_configuration = Some (scmi_example_config\<lparr>cfg_operations := \<lparr>operationsBeforeStart = [], operationsAtStart = [],
        operationsOnSample = [ScmiRead \<lparr>sr_id = 2, sr_event = 3, sr_rate = 9\<rparr>], operationsAtStop = []\<rparr>\<rparr>),
      sc_data_events = [\<lparr>de_id = 3, de_originally_enabled = False, de_timestamp_enabled = Some False, de_timestamp_rate = Some 9\<rparr>],
      sc_sampler = None, sc_previous = Map.empty, sc_holds_lock = True, sc_software_clock = False, sc_sunk = []\<rparr>,
     \<lparr>sw_files = scmi_example_files(TlmEnableFile \<mapsto> ''1'', EnableFile 3 \<mapsto> ''1'', TstampEnableFile 3 \<mapsto> ''1''),
      sw_locked = True, sw_refcount = 1, sw_reads = 0\<rparr>)"

lemma scmi_example_rate: "from_chars 32 ''9'' = Some (9, [])"
  by (simp add: from_chars_def isdigit_def digits_value_def digit_value_def)

lemma scmi_example_write:
  assumes "sw_files w f = Some ''0''" "sc_holds_lock c"
  shows "ScmiWrite scmi_example_env f ''1'' (c, w) = (ASTL_STATUS_SUCCESS, c, w\<lparr>sw_files := (sw_files w)(f \<mapsto> ''1'')\<rparr>)"
  using assms by (simp add: ScmiWrite_def Scmi_ReadFile_def scmi_example_env_def AcquireProcessLock_def)

lemma scmi_example_first_write:
  "ScmiWrite scmi_example_env TlmEnableFile ''1'' (ScmiSysfsCollector, scmi_example_world)
    = (ASTL_STATUS_SUCCESS, ScmiSysfsCollector\<lparr>sc_holds_lock := True\<rparr>,
       \<lparr>sw_files = scmi_example_files(TlmEnableFile \<mapsto> ''1''), sw_locked = True, sw_refcount = 1, sw_reads = 0\<rparr>)"
  by (simp add: ScmiWrite_def Scmi_ReadFile_def scmi_example_env_def AcquireProcessLock_def scmi_example_world_def
    scmi_example_files_def ScmiSysfsCollector_def)

lemma scmi_example_enable:
  assumes "sw_files w (EnableFile 3) = Some ''0''" "sw_files w (TstampEnableFile 3) = Some ''0''"
    "sw_files w (TstampRateFile 3) = Some ''9''" "sc_holds_lock c" "\<not> sc_software_clock c"
  shows "enable_one scmi_example_env 3 (c, w) =
    (Inl \<lparr>de_id = 3, de_originally_enabled = False, de_timestamp_enabled = Some False, de_timestamp_rate = Some 9\<rparr>,
     c, w\<lparr>sw_files := (sw_files w)(EnableFile 3 \<mapsto> ''1'', TstampEnableFile 3 \<mapsto> ''1'')\<rparr>)"
proof -
  have valid: "xe_valid scmi_example_env f" "xe_read_fails scmi_example_env f v = None" for f v by (simp_all add: scmi_example_env_def)
  show ?thesis
    using assms by (simp add: enable_one_def EnableDataEvent_def EnableTimestamp_def ReadTimestampRate_def Scmi_ReadFile_def
      kScmiEnableValue_def scmi_example_write valid scmi_example_rate)
qed

lemma scmi_example_run:
  "Scmi_ConfigureCollection scmi_example_env scmi_example_config (ScmiSysfsCollector, scmi_example_world)
    = (ASTL_STATUS_SUCCESS, scmi_example_configured)"
proof -
  have ids: "xe_order scmi_example_env (GetUniqueDataEventIds (cfg_operations scmi_example_config)) = [3]"
    by (simp add: scmi_example_env_def scmi_example_config_def GetUniqueDataEventIds_def scmi_operations_def)
  have clock: "\<not> xe_software_clock scmi_example_env" by (simp add: scmi_example_env_def)
  have new: "sc_state ScmiSysfsCollector = UNCONFIGURED"
      "ScmiSysfsCollector\<lparr>sc_software_clock := False\<rparr> = (ScmiSysfsCollector :: nat scmi_collector)"
    by (simp_all add: ScmiSysfsCollector_def)
  have files: "scmi_example_files (EnableFile 3) = Some ''0''" "scmi_example_files (TstampEnableFile 3) = Some ''0''"
      "scmi_example_files (TstampRateFile 3) = Some ''9''"
    by (simp_all add: scmi_example_files_def)
  have clock': "\<not> sc_software_clock (ScmiSysfsCollector :: nat scmi_collector)" by (simp add: ScmiSysfsCollector_def)
  have ops: "UpdateReadOperationTimestampRates
      [\<lparr>de_id = 3, de_originally_enabled = False, de_timestamp_enabled = Some False, de_timestamp_rate = Some 9\<rparr>]
      (cfg_operations scmi_example_config) = \<lparr>operationsBeforeStart = [], operationsAtStart = [],
        operationsOnSample = [ScmiRead \<lparr>sr_id = 2, sr_event = 3, sr_rate = 9\<rparr>], operationsAtStop = []\<rparr>"
    by (simp add: UpdateReadOperationTimestampRates_def scmi_example_config_def find_event_def)
  show ?thesis
    by (simp add: Scmi_ConfigureCollection_def ids clock new kScmiEnableValue_def scmi_example_first_write
      scmi_example_enable files clock' ops) (simp add: scmi_example_configured_def ScmiSysfsCollector_def)
qed

theorem scmi_process_lock_counted_witness:
  "\<exists>cs w. process_step\<^sup>*\<^sup>* ([], scmi_example_world) (cs :: nat scmi_collector list, w)
    \<and> sw_locked w \<and> sw_refcount w = length (filter sc_holds_lock cs)"
proof (intro exI conjI)
  let ?c = "fst scmi_example_configured" and ?w = "snd scmi_example_configured"
  have new: "process_step ([], scmi_example_world) ([ScmiSysfsCollector :: nat scmi_collector], scmi_example_world)"
    by (rule step_new)
  have configured: "process_step ([ScmiSysfsCollector], scmi_example_world) ([?c], ?w)"
    using step_command [of 0 "[ScmiSysfsCollector]" scmi_example_env "CmdConfigure scmi_example_config" scmi_example_world
      ASTL_STATUS_SUCCESS ?c ?w] by (simp add: scmi_example_run)
  show run: "process_step\<^sup>*\<^sup>* ([], scmi_example_world) ([?c], ?w)"
    by (rule rtranclp.rtrancl_into_rtrancl [of process_step, OF r_into_rtranclp [of process_step, OF new] configured])
  show "sw_locked ?w" by (simp add: scmi_example_configured_def)
  show "sw_refcount ?w = length (filter sc_holds_lock [?c])"
    using scmi_process_lock_counted [OF run [unfolded scmi_example_world_def]] by blast
qed

end
