(* ===== verification/Scmi_Restore.thy ===== *)
theory Scmi_Restore
  imports Scmi_Lock
begin

text \<open>
  What an SCMI collector leaves behind in the control files.  While the file system accepts the
  writes, every event it enabled is disabled again by the time the collector is idle; when one
  restoration fails, the collector forgets the events after it and can be neither stopped nor
  started again.
\<close>

section \<open>Files as they were\<close>

text \<open>
  A control file is like it was: untouched, or disabled when it was there and not enabled.
\<close>

definition file_like :: "string option \<Rightarrow> string option \<Rightarrow> bool" where
  "file_like before now \<longleftrightarrow> now = before \<or> before \<noteq> None \<and> before \<noteq> Some kScmiEnableValue \<and> now = Some kScmiDisableValue"

text \<open>The files that the restoration of the given events disables.\<close>

fun disables :: "scmi_data_event list \<Rightarrow> scmi_file \<Rightarrow> bool" where
  "disables es TlmEnableFile = False"
| "disables es (EnableFile i) = (\<exists>e\<in>set es. de_id e = i \<and> \<not> de_originally_enabled e)"
| "disables es (TstampEnableFile i) = (\<exists>e\<in>set es. de_id e = i \<and> de_timestamp_enabled e = Some False)"
| "disables es (TstampRateFile i) = False"

lemma disables_none [simp]: "disables [] = (\<lambda>f. False)"
proof
  show "disables [] f = False" for f by (cases f) simp_all
qed

lemma disables_append: "disables (xs @ ys) f = (disables xs f \<or> disables ys f)"
  by (cases f) auto

lemma disables_one:
  "disables [e] f \<longleftrightarrow> f = EnableFile (de_id e) \<and> \<not> de_originally_enabled e
    \<or> f = TstampEnableFile (de_id e) \<and> de_timestamp_enabled e = Some False"
  by (cases f) auto

text \<open>
  The file f, which the pending restoration disables when p holds: a file that cannot be written is
  untouched, one that is pending was there and not enabled, one that is not is like it was.
\<close>

definition file_ok :: "(scmi_file \<Rightarrow> bool) \<Rightarrow> (scmi_file \<rightharpoonup> string) \<Rightarrow> bool \<Rightarrow> (scmi_file \<rightharpoonup> string) \<Rightarrow> scmi_file \<Rightarrow> bool" where
  "file_ok W before p now f \<longleftrightarrow> (\<not> W f \<longrightarrow> now f = before f)
    \<and> (if p then before f \<noteq> None \<and> before f \<noteq> Some kScmiEnableValue
        \<and> (now f = Some kScmiEnableValue \<or> file_like (before f) (now f)) else file_like (before f) (now f))"

definition files_ok :: "(scmi_file \<Rightarrow> bool) \<Rightarrow> (scmi_file \<rightharpoonup> string) \<Rightarrow> (scmi_file \<Rightarrow> bool) \<Rightarrow> 't scmi \<Rightarrow> bool" where
  "files_ok W before P x \<longleftrightarrow> (\<forall>f. f \<noteq> TlmEnableFile \<longrightarrow> file_ok W before (P f) (sw_files (snd x)) f)"

lemma files_ok_same:
  "sw_files (snd y) = sw_files (snd x) \<Longrightarrow> files_ok W before P y = files_ok W before P x"
  by (simp add: files_ok_def)

text \<open>A file system that lets every file be read that is there, takes writes and locks, and whose permissions are W.\<close>

definition accepting :: "(scmi_file \<Rightarrow> bool) \<Rightarrow> 't scmi_env \<Rightarrow> bool" where
  "accepting W env \<longleftrightarrow> (\<forall>f v. xe_read_fails env f v = None) \<and> (\<forall>f. xe_writable env f = Some (W f)) \<and> (\<forall>f v. xe_write env f v = ASTL_STATUS_SUCCESS \<and> xe_takes env f v)
    \<and> \<not> xe_temp_dir_fails env \<and> xe_lock env = ASTL_STATUS_SUCCESS"

lemma accepting_read: "accepting W env \<Longrightarrow> Scmi_ReadFile env f x
    = (case sw_files (snd x) f of None \<Rightarrow> Inl ASTL_STATUS_FILE_OPEN_FAILED | Some text \<Rightarrow> Inr text)"
  by (simp add: Scmi_ReadFile_def accepting_def split: option.split)

lemma accepting_acquire: "accepting W env \<Longrightarrow> fst (AcquireProcessLock env x) = ASTL_STATUS_SUCCESS"
  by (simp add: AcquireProcessLock_def accepting_def case_prod_beta' Let_def)

lemma accepting_write:
  assumes "accepting W env"
  shows "fst (ScmiWrite env f v x) = (if sw_files (snd x) f = None then ASTL_STATUS_FILE_OPEN_FAILED else ASTL_STATUS_SUCCESS)"
    "sw_files (snd (snd (ScmiWrite env f v x))) = (if sw_files (snd x) f = None \<or> \<not> W f then sw_files (snd x)
       else (sw_files (snd x))(f \<mapsto> v))"
proof -
  obtain st c w where a: "AcquireProcessLock env x = (st, c, w)" by (metis prod_cases3)
  have st: "st = ASTL_STATUS_SUCCESS" using accepting_acquire [OF assms, of x] by (simp add: a)
  have w: "sw_files w = sw_files (snd x)" using acquire_frame(6) [of env x] by (simp add: a del: acquire_frame)
  have env: "\<And>v. xe_read_fails env f v = None" "xe_writable env f = Some (W f)" "xe_write env f v = ASTL_STATUS_SUCCESS" "xe_takes env f v" using assms by (simp_all add: accepting_def)
  show "fst (ScmiWrite env f v x) = (if sw_files (snd x) f = None then ASTL_STATUS_FILE_OPEN_FAILED else ASTL_STATUS_SUCCESS)"
    by (cases "sw_files (snd x) f") (simp_all add: ScmiWrite_def Scmi_ReadFile_def a st env)
  show "sw_files (snd (snd (ScmiWrite env f v x))) = (if sw_files (snd x) f = None \<or> \<not> W f then sw_files (snd x)
       else (sw_files (snd x))(f \<mapsto> v))"
    by (cases "sw_files (snd x) f") (auto simp: ScmiWrite_def Scmi_ReadFile_def a st env w)
qed

section \<open>Disabling and enabling\<close>

lemma files_disable:
  assumes "accepting W env" "files_ok W before P x" "P f" "f \<noteq> TlmEnableFile" "\<forall>g. g \<noteq> f \<longrightarrow> Q g = P g"
    "ScmiWrite env f kScmiDisableValue x = (st, y)"
  shows "st = ASTL_STATUS_SUCCESS" "files_ok W before Q y"
proof -
  have ok: "file_ok W before True (sw_files (snd x)) f" using assms(2-4) by (auto simp: files_ok_def)
  then have there: "sw_files (snd x) f \<noteq> None" by (auto simp: file_ok_def file_like_def)
  show "st = ASTL_STATUS_SUCCESS" using accepting_write(1) [OF assms(1), of f kScmiDisableValue x] there assms(6) by simp
  have y: "sw_files (snd y) = (if \<not> W f then sw_files (snd x) else (sw_files (snd x))(f \<mapsto> kScmiDisableValue))"
    using accepting_write(2) [OF assms(1), of f kScmiDisableValue x] there assms(6) by simp
  have "file_ok W before (Q f) (sw_files (snd y)) f"
    using ok by (auto simp: y file_ok_def file_like_def)
  moreover have "file_ok W before (Q g) (sw_files (snd y)) g" if "g \<noteq> f" "g \<noteq> TlmEnableFile" for g
    using assms(2,5) that by (auto simp: files_ok_def y file_ok_def)
  ultimately show "files_ok W before Q y" by (metis files_ok_def)
qed

lemma files_enable:
  assumes "accepting W env" "files_ok W before P x" "f \<noteq> TlmEnableFile"
    "sw_files (snd x) f \<noteq> Some kScmiEnableValue" "\<forall>g. g \<noteq> f \<longrightarrow> Q g = P g"
    "ScmiWrite env f kScmiEnableValue x = (st, y)"
  shows "st = ASTL_STATUS_SUCCESS \<Longrightarrow> Q f \<Longrightarrow> files_ok W before Q y" "st \<noteq> ASTL_STATUS_SUCCESS \<Longrightarrow> files_ok W before P y"
proof -
  have ok: "file_ok W before (P f) (sw_files (snd x)) f" using assms(2,3) by (auto simp: files_ok_def)
  have st: "st = (if sw_files (snd x) f = None then ASTL_STATUS_FILE_OPEN_FAILED else ASTL_STATUS_SUCCESS)"
    using accepting_write(1) [OF assms(1), of f kScmiEnableValue x] assms(6) by simp
  have y: "sw_files (snd y) = (if sw_files (snd x) f = None \<or> \<not> W f then sw_files (snd x)
      else (sw_files (snd x))(f \<mapsto> kScmiEnableValue))"
    using accepting_write(2) [OF assms(1), of f kScmiEnableValue x] assms(6) by simp
  show "files_ok W before Q y" if "st = ASTL_STATUS_SUCCESS" "Q f"
  proof -
    have "sw_files (snd x) f \<noteq> None" using that st by (auto split: if_splits)
    then have "file_ok W before (Q f) (sw_files (snd y)) f"
      using ok assms(4) that by (cases "before f") (auto simp: y file_ok_def file_like_def split: if_splits)
    moreover have "file_ok W before (Q g) (sw_files (snd y)) g" if "g \<noteq> f" "g \<noteq> TlmEnableFile" for g
      using assms(2,5) that by (auto simp: files_ok_def y file_ok_def)
    ultimately show ?thesis by (metis files_ok_def)
  qed
  show "files_ok W before P y" if "st \<noteq> ASTL_STATUS_SUCCESS"
    using assms(2) st that by (simp add: y files_ok_def split: if_splits)
qed

lemma restore_event_files:
  assumes "accepting W env" "files_ok W before (disables (e # es)) x" "restore_event env e x = (st, y)"
  shows "st = ASTL_STATUS_SUCCESS \<and> files_ok W before (disables es) y"
proof -
  define Q where "Q = (\<lambda>f. if f = TstampEnableFile (de_id e) then disables es f else disables (e # es) f)"
  obtain st1 x1 where w: "(if de_timestamp_enabled e = Some False
      then ScmiWrite env (TstampEnableFile (de_id e)) kScmiDisableValue x else (ASTL_STATUS_SUCCESS, x)) = (st1, x1)" by (meson surj_pair)
  have 1: "st1 = ASTL_STATUS_SUCCESS \<and> files_ok W before Q x1"
  proof (cases "de_timestamp_enabled e = Some False")
    case True
    then show ?thesis
      using files_disable [OF assms(1,2), of "TstampEnableFile (de_id e)" Q st1 x1] w by (simp add: Q_def)
  next
    case False
    then have "Q = disables (e # es)" by (auto simp: Q_def fun_eq_iff)
    then show ?thesis using False w assms(2) by simp
  qed
  have same: "disables es f = Q f" if "f \<noteq> EnableFile (de_id e) \<or> de_originally_enabled e" for f
    using that by (cases f) (auto simp: Q_def)
  show ?thesis
  proof (cases "de_originally_enabled e")
    case True
    then have "disables es = Q" using same by blast
    then show ?thesis using 1 True assms(3) by (simp add: restore_event_def w)
  next
    case False
    then have "Q (EnableFile (de_id e))" by (auto simp: Q_def)
    then show ?thesis
      using files_disable [OF assms(1), of before Q x1 "EnableFile (de_id e)" "disables es" st y] 1 False assms(3) same
      by (simp add: restore_event_def w)
  qed
qed

lemma restore_files:
  assumes "accepting W env" "files_ok W before (disables es) x" "RestoreDataEventEnabledState env es x = (st, y)"
  shows "st = ASTL_STATUS_SUCCESS \<and> files_ok W before (\<lambda>f. False) y"
  using assms(2,3)
proof (induction es arbitrary: x)
  case (Cons e es)
  obtain st1 x1 where r: "restore_event env e x = (st1, x1)" by (meson surj_pair)
  from restore_event_files [OF assms(1) Cons.prems(1) r] Cons.IH [of x1] Cons.prems(2) show ?case by (simp add: r)
qed simp

text \<open>Enabling an event and its timestamp; what failed is not pending.\<close>

lemma enable_event_files:
  assumes "accepting W env" "files_ok W before P x" "EnableDataEvent env i x = (r, y)"
    "\<forall>g. g \<noteq> EnableFile i \<longrightarrow> Q g = P g" "r = Inr False \<Longrightarrow> Q (EnableFile i)" "r = Inr True \<Longrightarrow> Q (EnableFile i) = P (EnableFile i)"
  shows "files_ok W before (if isl r then P else Q) y"
proof (cases "sw_files (snd x) (EnableFile i)")
  case None
  then show ?thesis using assms(2,3) by (auto simp: EnableDataEvent_def accepting_read [OF assms(1)])
next
  case (Some old)
  show ?thesis
  proof (cases "old = kScmiEnableValue")
    case True
    then have "r = Inr True" "y = x" using assms(3) Some by (auto simp: EnableDataEvent_def accepting_read [OF assms(1)])
    moreover have "Q = P" using assms(4,6) \<open>r = Inr True\<close> by (intro ext) metis
    ultimately show ?thesis using assms(2) by simp
  next
    case False
    obtain st z where w: "ScmiWrite env (EnableFile i) kScmiEnableValue x = (st, z)" by (meson surj_pair)
    have r: "r = (if st \<noteq> ASTL_STATUS_SUCCESS then Inl st else Inr False)" "y = z"
      using assms(3) Some False by (auto simp: EnableDataEvent_def accepting_read [OF assms(1)] w)
    show ?thesis
      using files_enable [OF assms(1,2) _ _ assms(4) w] Some False r assms(5) by auto
  qed
qed

lemma enable_timestamp_files:
  assumes "accepting W env" "files_ok W before P x" "EnableTimestamp env i x = (r, y)"
    "\<forall>g. g \<noteq> TstampEnableFile i \<longrightarrow> Q g = P g" "r = Inr (Some False) \<Longrightarrow> Q (TstampEnableFile i)"
    "\<not> isl r \<Longrightarrow> r \<noteq> Inr (Some False) \<Longrightarrow> Q (TstampEnableFile i) = P (TstampEnableFile i)"
  shows "files_ok W before (if isl r then P else Q) y"
proof (cases "xe_valid env (TstampEnableFile i)")
  case False
  then have "r = Inr None" "y = x" using assms(3) by (auto simp: EnableTimestamp_def)
  moreover have "Q = P" using assms(4,6) \<open>r = Inr None\<close> by (intro ext) (metis option.distinct(1) sum.disc(2) sum.inject(2))
  ultimately show ?thesis using assms(2) by simp
next
  case True
  show ?thesis
  proof (cases "sw_files (snd x) (TstampEnableFile i)")
    case None
    then show ?thesis using assms(2,3) True by (auto simp: EnableTimestamp_def accepting_read [OF assms(1)])
  next
    case (Some old)
    show ?thesis
    proof (cases "old = kScmiEnableValue")
      case on: True
      then have "r = Inr (Some True)" "y = x" using assms(3) Some True by (auto simp: EnableTimestamp_def accepting_read [OF assms(1)])
      moreover have "Q = P" using assms(4,6) \<open>r = Inr (Some True)\<close> by (intro ext) (metis option.inject sum.disc(2) sum.inject(2))
      ultimately show ?thesis using assms(2) by simp
    next
      case off: False
      obtain st z where w: "ScmiWrite env (TstampEnableFile i) kScmiEnableValue x = (st, z)" by (meson surj_pair)
      have r: "r = (if st \<noteq> ASTL_STATUS_SUCCESS then Inl st else Inr (Some False))" "y = z"
        using assms(3) Some True off by (auto simp: EnableTimestamp_def accepting_read [OF assms(1)] w)
      show ?thesis
        using files_enable [OF assms(1,2) _ _ assms(4) w] Some off r assms(5) by auto
    qed
  qed
qed

text \<open>One event of EnableDataEvents, and the loop: what it fails to enable it has restored.\<close>

lemma enable_one_files:
  assumes "accepting W env" "files_ok W before (disables enabled) x" "enable_one env i x = (r, y)"
  shows "files_ok W before (disables (enabled @ (case r of Inl event \<Rightarrow> [event] | Inr (e, half) \<Rightarrow> half))) y"
proof -
  obtain r1 x1 where d: "EnableDataEvent env i x = (r1, x1)" by (meson surj_pair)
  obtain r2 x2 where t: "EnableTimestamp env i x1 = (r2, x2)" by (meson surj_pair)
  let ?event = "\<lambda>ts rate. \<lparr>de_id = i, de_originally_enabled = projr r1, de_timestamp_enabled = ts, de_timestamp_rate = rate\<rparr>"
  have 1: "files_ok W before (if isl r1 then disables enabled else disables (enabled @ [?event None None])) x1"
    by (rule enable_event_files [OF assms(1,2) d]) (auto simp: disables_append disables_one)
  have rate: "disables (enabled @ [?event ts rate]) = disables (enabled @ [?event ts None])" for ts rate
    by (simp add: fun_eq_iff disables_append disables_one)
  show ?thesis
  proof (cases r1)
    case (Inl e)
    then show ?thesis using 1 assms(3) by (auto simp: enable_one_def d)
  next
    case on: (Inr originally)
    have event: "\<lparr>de_id = i, de_originally_enabled = originally, de_timestamp_enabled = None, de_timestamp_rate = None\<rparr> = ?event None None"
      by (simp add: on)
    have files1: "files_ok W before (disables (enabled @ [?event None None])) x1" using 1 on by simp
    show ?thesis
    proof (cases "sc_software_clock (fst x1)")
      case True
      then have "r = Inl (?event None None)" "y = x1" using assms(3) on by (auto simp: enable_one_def d Let_def)
      then show ?thesis using files1 by simp
    next
      case False
      have 2: "files_ok W before (if isl r2 then disables (enabled @ [?event None None]) else disables (enabled @ [?event (projr r2) None])) x2"
        by (rule enable_timestamp_files [OF assms(1) files1 t]; cases r2) (auto simp: disables_append disables_one)
      have y: "sw_files (snd y) = sw_files (snd x2)"
        using assms(3) False on by (auto simp: enable_one_def d t Let_def split: sum.splits option.splits if_splits)
      show ?thesis
      proof (cases r2)
        case (Inl e)
        then have "r = Inr (e, [?event None None])" using assms(3) False on by (auto simp: enable_one_def d t Let_def)
        then show ?thesis using 2 Inl y files_ok_same [of y x2] by simp
      next
        case (Inr ts)
        then obtain hz where r: "r = Inl (?event ts hz)"
          using assms(3) False on by (auto simp: enable_one_def d t Let_def split: sum.splits option.splits if_splits)
        have "files_ok W before (disables (enabled @ [?event ts hz])) y"
          using 2 Inr y files_ok_same [of y x2] unfolding rate [of ts hz] by simp
        then show ?thesis by (simp add: r)
      qed
    qed
  qed
qed

lemma enable_all_files:
  assumes "accepting W env" "files_ok W before (disables enabled) x" "EnableDataEvents env ids enabled x = (r, y)"
  shows "files_ok W before (case r of Inl e \<Rightarrow> (\<lambda>f. False) | Inr events \<Rightarrow> disables events) y"
  using assms(2,3)
proof (induction ids arbitrary: enabled x)
  case (Cons i ids)
  obtain r1 x1 where o: "enable_one env i x = (r1, x1)" by (meson surj_pair)
  note one = enable_one_files [OF assms(1) Cons.prems(1) o]
  show ?case
  proof (cases r1)
    case (Inl event)
    then show ?thesis using Cons.IH [of "enabled @ [event]" x1] one Cons.prems(2) by (simp add: o)
  next
    case (Inr err)
    obtain e half where err: "err = (e, half)" by (meson surj_pair)
    obtain st z where z: "RestoreDataEventEnabledState env (enabled @ half) x1 = (st, z)" by (meson surj_pair)
    have "r = Inl e" "y = z" using Cons.prems(2) by (simp_all add: o Inr err z)
    then show ?thesis using restore_files [OF assms(1) _ z] one by (simp add: Inr err)
  qed
qed auto

section \<open>The commands\<close>

definition files_kept :: "(scmi_file \<Rightarrow> bool) \<Rightarrow> (scmi_file \<rightharpoonup> string) \<Rightarrow> 't scmi \<Rightarrow> bool" where
  "files_kept W before x \<longleftrightarrow> files_ok W before (disables (sc_data_events (fst x))) x"

lemma kept_settled: "settled y = settled x \<Longrightarrow> files_kept W before y = files_kept W before x"
  by (simp add: files_kept_def settled_def files_ok_def)

lemma kept_rollback:
  assumes "accepting W env" "files_kept W before x"
  shows "files_kept W before (RollbackConfigurationState env x)"
proof -
  obtain st c w where r: "RestoreDataEventEnabledState env (sc_data_events (fst x)) x = (st, c, w)" by (metis prod_cases3)
  have "files_ok W before (\<lambda>f. False) (c, w)"
    using restore_files [OF assms(1) _ r] assms(2) by (simp add: files_kept_def)
  moreover have "sw_files (snd (RollbackConfigurationState env x)) = sw_files (if sc_data_events (fst x) = [] then snd x else w)"
    by (simp add: RollbackConfigurationState_def r case_prod_beta')
  ultimately show ?thesis
    using assms(2) by (cases "sc_data_events (fst x) = []") (simp_all add: files_kept_def files_ok_def)
qed

lemma kept_write_enable:
  assumes "accepting W env" "files_ok W before P x" "ScmiWrite env TlmEnableFile v x = (st, y)"
  shows "files_ok W before P y"
  using accepting_write(2) [OF assms(1), of TlmEnableFile v x] assms(2,3) by (auto simp: files_ok_def file_ok_def split: if_splits)

lemma kept_configure:
  assumes "accepting W env" "files_kept W before x" "holds_ok (fst x)"
  shows "files_kept W before (snd (Scmi_ConfigureCollection env cfg x))"
proof (cases "sc_state (fst x) \<in> {UNCONFIGURED, CONFIGURED, STOPPED}")
  case False
  then show ?thesis using assms by (auto simp: Scmi_ConfigureCollection_def)
next
  case idle: True
  define x0 where "x0 = (if sc_state (fst x) = CONFIGURED then RollbackConfigurationState env x else x)"
  have 0: "files_kept W before x0" "sc_data_events (fst x0) = []"
    using assms kept_rollback [OF assms(1,2)] idle by (auto simp: x0_def holds_ok_def)
  obtain st1 c1 w1 where w: "ScmiWrite env TlmEnableFile kScmiEnableValue ((fst x0)\<lparr>sc_software_clock := xe_software_clock env\<rparr>, snd x0) = (st1, c1, w1)"
    by (metis prod_cases3)
  have "files_ok W before (\<lambda>f. False) ((fst x0)\<lparr>sc_software_clock := xe_software_clock env\<rparr>, snd x0)"
    using 0 by (simp add: files_kept_def files_ok_def)
  from kept_write_enable [OF assms(1) this w] have 1: "files_ok W before (\<lambda>f. False) (c1, w1)" .
  have ev1: "sc_data_events c1 = []"
    using write_frame(4) [of env TlmEnableFile kScmiEnableValue "((fst x0)\<lparr>sc_software_clock := xe_software_clock env\<rparr>, snd x0)"]
    by (simp add: w 0 del: write_frame)
  let ?c2 = "c1\<lparr>sc_configuration := Some cfg, sc_state := CONFIGURED\<rparr>"
  obtain r c3 w3 where e: "EnableDataEvents env (xe_order env (GetUniqueDataEventIds (cfg_operations cfg))) [] (?c2, w1) = (r, c3, w3)"
    by (metis prod_cases3)
  have "files_ok W before (disables []) (?c2, w1)" using 1 by (simp add: files_ok_def)
  from enable_all_files [OF assms(1) this e]
  have 3: "files_ok W before (case r of Inl e \<Rightarrow> (\<lambda>f. False) | Inr events \<Rightarrow> disables events) (c3, w3)" .
  have ev3: "sc_data_events c3 = []"
    using enable_all_frame(4) [of env "xe_order env (GetUniqueDataEventIds (cfg_operations cfg))" "[]" "(?c2, w1)"] ev1
    by (simp add: e del: enable_all_frame)
  have x0': "(if sc_state (fst x) = CONFIGURED then RollbackConfigurationState env x else x) = (fst x0, snd x0)"
    by (simp add: x0_def)
  have guard: "(sc_state (fst x) \<noteq> UNCONFIGURED \<and> sc_state (fst x) \<noteq> CONFIGURED \<and> sc_state (fst x) \<noteq> STOPPED) = False"
    using idle by simp
  have early: "files_kept W before (RollbackConfigurationState env (c1, w1))"
    by (rule kept_rollback [OF assms(1)]) (simp add: files_kept_def ev1 1)
  show ?thesis
  proof (cases r)
    case (Inl err)
    have "files_kept W before (RollbackConfigurationState env (c3, w3))"
      by (rule kept_rollback [OF assms(1)]) (use 3 Inl in \<open>simp add: files_kept_def ev3\<close>)
    then show ?thesis
      using early unfolding Scmi_ConfigureCollection_def Let_def guard if_False x0' prod.case w
      by (cases "st1 = ASTL_STATUS_SUCCESS") (simp_all add: e Inl)
  next
    case (Inr events)
    let ?ops = "UpdateReadOperationTimestampRates events (cfg_operations cfg)"
    let ?x4 = "(c3\<lparr>sc_data_events := events, sc_configuration := Some (cfg\<lparr>cfg_operations := ?ops\<rparr>)\<rparr>, w3)"
    obtain st5 x5 where run: "Scmi_ExecuteCollectionOperations env (operationsBeforeStart ?ops) ?x4 = (st5, x5)" by (meson surj_pair)
    have "files_kept W before ?x4" using 3 Inr by (simp add: files_kept_def files_ok_def)
    then have 5: "files_kept W before x5" using kept_settled [OF settled_execute(1) [OF run]] by blast
    then show ?thesis
      using early kept_rollback [OF assms(1) 5] unfolding Scmi_ConfigureCollection_def Let_def guard if_False x0' prod.case w
      by (cases "st1 = ASTL_STATUS_SUCCESS"; cases "st5 = ASTL_STATUS_SUCCESS") (simp_all add: e Inr run)
  qed
qed

lemma kept_stop:
  assumes "accepting W env" "files_kept W before x" "Scmi_StopCollection env x = (st, y)"
  shows "files_kept W before y"
  using assms(3)
proof (cases rule: stop_cases)
  case refused
  then show ?thesis using assms(2) kept_settled by blast
next
  case (stopped x1 c w)
  have "files_kept W before x1" "sc_data_events (fst x1) = sc_data_events (fst x)"
    using stopped(2) kept_settled [OF stopped(2)] assms(2) by (simp_all add: settled_def)
  then have "files_ok W before (\<lambda>f. False) (c, w)"
    using restore_files [OF assms(1) _ stopped(3)] by (simp add: files_kept_def)
  then show ?thesis by (simp add: stopped(5) files_kept_def files_ok_def)
qed

lemma kept_exec:
  assumes "accepting W env" "files_kept W before x" "holds_ok (fst x)"
  shows "files_kept W before (snd (scmi_exec env cmd x))"
proof (cases cmd)
  case (CmdConfigure cfg)
  then show ?thesis using kept_configure [OF assms] by simp
next
  case CmdClear
  have "files_kept W before (Scmi_StopIntervalSampling x)"
    using assms(2) by (simp add: files_kept_def files_ok_def Scmi_StopIntervalSampling_def)
  from kept_rollback [OF assms(1) this] show ?thesis using CmdClear assms(2) by (simp add: Scmi_ClearCollectionState_def)
next
  case CmdStart
  obtain st y where s: "Scmi_StartCollection env x = (st, y)" by (meson surj_pair)
  from s have "files_kept W before y"
    by (cases rule: start_cases) (use assms(2) in \<open>auto simp: settled_def files_kept_def files_ok_def\<close>)
  then show ?thesis using CmdStart s by simp
next
  case CmdPause
  have "sc_data_events (snd (EmitPauseResumeSample env m c)) = sc_data_events c" for m c by (simp add: EmitPauseResumeSample_def)
  then show ?thesis
    using CmdPause assms(2) by (simp add: Scmi_PauseCollection_def PauseCollectionLifecycle_def case_prod_beta' Let_def
      files_kept_def files_ok_def)
next
  case CmdResume
  have "sc_data_events (snd (EmitPauseResumeSample env m c)) = sc_data_events c" for m c by (simp add: EmitPauseResumeSample_def)
  then show ?thesis
    using CmdResume assms(2) by (simp add: Scmi_ResumeCollection_def ResumeCollectionLifecycle_def case_prod_beta' Let_def
      files_kept_def files_ok_def)
next
  case CmdStop
  obtain st y where s: "Scmi_StopCollection env x = (st, y)" by (meson surj_pair)
  then show ?thesis using kept_stop [OF assms(1,2) s] CmdStop by simp
next
  case CmdRead
  then show ?thesis using kept_settled [OF read_settled(1) [of env x]] assms(2) by simp
qed

text \<open>A collector that receives commands while its environment changes.\<close>

fun scmi_runs :: "('t scmi_env \<times> ('t, scmi_operation) collection_configuration lifecycle_command) list \<Rightarrow> 't scmi \<Rightarrow> 't scmi" where
  "scmi_runs [] x = x"
| "scmi_runs ((env, cmd) # cmds) x = scmi_runs cmds (snd (scmi_exec env cmd x))"

lemma kept_runs:
  assumes "\<forall>(env, cmd)\<in>set cmds. accepting W env" "files_kept W before x" "holds_ok (fst x)"
  shows "files_kept W before (scmi_runs cmds x) \<and> holds_ok (fst (scmi_runs cmds x))"
  using assms
proof (induction cmds arbitrary: x)
  case (Cons ec cmds)
  obtain env cmd where ec: "ec = (env, cmd)" by (meson surj_pair)
  have ok: "accepting W env" "\<forall>(env, cmd)\<in>set cmds. accepting W env" using Cons.prems(1) by (simp_all add: ec)
  show ?case
    using Cons.IH [OF ok(2) kept_exec [OF ok(1) Cons.prems(2,3)] holds_exec [OF Cons.prems(3)]] by (simp add: ec)
qed simp

lemma kept_destroy:
  assumes "accepting W env" "files_kept W before x"
  shows "files_kept W before (Scmi_Destroy env x)"
proof -
  obtain st y where s: "Scmi_StopCollection env x = (st, y)" by (meson surj_pair)
  show ?thesis
    using kept_rollback [OF assms(1) kept_stop [OF assms s]] kept_rollback [OF assms] by (simp add: Scmi_Destroy_def s)
qed

text \<open>What is left of a file that is not pending.\<close>

definition put_back :: "(scmi_file \<Rightarrow> bool) \<Rightarrow> (scmi_file \<rightharpoonup> string) \<Rightarrow> (scmi_file \<rightharpoonup> string) \<Rightarrow> scmi_file \<Rightarrow> bool" where
  "put_back W before now f \<longleftrightarrow> now f = before f
    \<or> W f \<and> before f \<noteq> None \<and> before f \<noteq> Some kScmiEnableValue \<and> now f = Some kScmiDisableValue"

lemma file_ok_idle: "file_ok W before False now f = put_back W before now f"
  by (auto simp: file_ok_def put_back_def file_like_def)

text \<open>
  C16: whatever a collector that is used alone is told, and whatever it reads while it runs, as long
  as every control file that is there can be read, the file system takes its writes and its locks,
  and the write permissions of the files stay the same: whenever it is neither configured nor running,
  and after it is destroyed, every control file but the one that enables the telemetry as a whole is
  as it was before the first command, or disabled when it could be written, was there and was not
  enabled.
\<close>

theorem scmi_restores_files:
  assumes "\<forall>(env, cmd)\<in>set cmds. accepting W env" "accepting W env'" "f \<noteq> TlmEnableFile"
  shows "(sc_state (fst (scmi_runs cmds (ScmiSysfsCollector, w))) \<notin> {CONFIGURED, STARTED, PAUSED} \<longrightarrow>
      put_back W (sw_files w) (sw_files (snd (scmi_runs cmds (ScmiSysfsCollector, w)))) f)
    \<and> put_back W (sw_files w) (sw_files (snd (Scmi_Destroy env' (scmi_runs cmds (ScmiSysfsCollector, w))))) f"
proof -
  let ?x = "scmi_runs cmds (ScmiSysfsCollector, w)"
  have "files_kept W (sw_files w) (ScmiSysfsCollector, w)"
    by (simp add: files_kept_def files_ok_def file_ok_def file_like_def ScmiSysfsCollector_def)
  moreover have "holds_ok (fst (ScmiSysfsCollector, w))" by (simp add: holds_ok_def ScmiSysfsCollector_def)
  ultimately have run: "files_kept W (sw_files w) ?x" "holds_ok (fst ?x)" using kept_runs [OF assms(1)] by blast+
  have "files_kept W (sw_files w) (Scmi_Destroy env' ?x)" by (rule kept_destroy [OF assms(2) run(1)])
  moreover have "sc_data_events (fst (Scmi_Destroy env' ?x)) = []" by (simp add: Scmi_Destroy_def)
  ultimately show ?thesis using run assms(3) by (auto simp: files_kept_def files_ok_def holds_ok_def file_ok_idle)
qed

theorem scmi_restores_files_witness:
  "let x = scmi_runs [(scmi_example_env, CmdConfigure scmi_example_config), (scmi_example_env, CmdClear)]
       (ScmiSysfsCollector, scmi_example_world)
   in sc_state (fst x) = UNCONFIGURED \<and> put_back (\<lambda>f. True) scmi_example_files (sw_files (snd x)) (EnableFile 3)"
proof -
  let ?cmds = "[(scmi_example_env, CmdConfigure scmi_example_config), (scmi_example_env, CmdClear)]"
  let ?x = "scmi_runs ?cmds (ScmiSysfsCollector, scmi_example_world)"
  have env: "accepting (\<lambda>f. True) scmi_example_env" by (simp add: accepting_def scmi_example_env_def)
  have all: "\<forall>(env, cmd)\<in>set ?cmds. accepting (\<lambda>f. True) env" by (simp add: env)
  have state: "sc_state (fst ?x) = UNCONFIGURED"
    by (simp add: scmi_example_run Scmi_ClearCollectionState_def) (simp add: scmi_example_configured_def)
  have "put_back (\<lambda>f. True) (sw_files scmi_example_world) (sw_files (snd ?x)) (EnableFile 3)"
    using scmi_restores_files [OF all env, of "EnableFile 3" scmi_example_world] state by simp
  then show ?thesis using state by (simp add: Let_def scmi_example_world_def)
qed

section \<open>A restoration that fails\<close>

text \<open>A collector that has nothing to restore and is not configured touches no file.\<close>

definition quiet :: "'t scmi \<Rightarrow> bool" where
  "quiet x \<longleftrightarrow> sc_data_events (fst x) = [] \<and> sc_state (fst x) \<in> {STOPPED, UNCONFIGURED}"

lemma quiet_exec:
  assumes "quiet x" "\<forall>cfg. cmd \<noteq> CmdConfigure cfg"
  shows "quiet (snd (scmi_exec env cmd x)) \<and> sw_files (snd (snd (scmi_exec env cmd x))) = sw_files (snd x)"
proof (cases cmd)
  case (CmdConfigure cfg)
  then show ?thesis using assms(2) by blast
next
  case CmdClear
  then show ?thesis
    using assms(1) by (auto simp: Scmi_ClearCollectionState_def quiet_def Scmi_StopIntervalSampling_def
      RollbackConfigurationState_def)
next
  case CmdStart
  obtain st y where s: "Scmi_StartCollection env x = (st, y)" by (meson surj_pair)
  from s have "quiet y \<and> sw_files (snd y) = sw_files (snd x)"
    by (cases rule: start_cases) (use assms(1) in \<open>auto simp: settled_def quiet_def lifecycle_table\<close>)
  then show ?thesis using CmdStart s by simp
next
  case CmdPause
  then show ?thesis
    using assms(1) by (auto simp: Scmi_PauseCollection_def PauseCollectionLifecycle_def case_prod_beta' Let_def quiet_def lifecycle_table)
next
  case CmdResume
  then show ?thesis
    using assms(1) by (auto simp: Scmi_ResumeCollection_def ResumeCollectionLifecycle_def case_prod_beta' Let_def quiet_def lifecycle_table)
next
  case CmdStop
  obtain st y where s: "Scmi_StopCollection env x = (st, y)" by (meson surj_pair)
  from s have "quiet y \<and> sw_files (snd y) = sw_files (snd x)"
    by (cases rule: stop_cases) (use assms(1) in \<open>auto simp: settled_def quiet_def lifecycle_table\<close>)
  then show ?thesis using CmdStop s by simp
next
  case CmdRead
  then show ?thesis using read_settled(1) [of env x] assms(1) by (simp add: settled_def quiet_def)
qed

lemma quiet_runs:
  assumes "quiet x" "\<forall>(env, cmd)\<in>set cmds. \<forall>cfg. cmd \<noteq> CmdConfigure cfg"
  shows "quiet (scmi_runs cmds x) \<and> sw_files (snd (scmi_runs cmds x)) = sw_files (snd x)"
  using assms
proof (induction cmds arbitrary: x)
  case (Cons ec cmds)
  obtain env cmd where ec: "ec = (env, cmd)" by (meson surj_pair)
  have q: "quiet (snd (scmi_exec env cmd x))" "sw_files (snd (snd (scmi_exec env cmd x))) = sw_files (snd x)"
    "\<forall>(env, cmd)\<in>set cmds. \<forall>cfg. cmd \<noteq> CmdConfigure cfg"
    using quiet_exec [OF Cons.prems(1), of cmd env] Cons.prems(2) by (simp_all add: ec)
  show ?case using Cons.IH [OF q(1,3)] q(2) by (simp add: ec)
qed simp

lemma write_other: "g \<noteq> f \<Longrightarrow> sw_files (snd (snd (ScmiWrite env f v x))) g = sw_files (snd x) g"
proof -
  assume g: "g \<noteq> f"
  obtain st c w where a: "AcquireProcessLock env x = (st, c, w)" by (metis prod_cases3)
  have "sw_files w = sw_files (snd x)" using acquire_frame(6) [of env x] by (simp add: a del: acquire_frame)
  then show ?thesis using g by (simp add: ScmiWrite_def a Let_def split: sum.split option.split)
qed

lemma restore_event_other:
  "i \<noteq> de_id e \<Longrightarrow> sw_files (snd (snd (restore_event env e x))) (EnableFile i) = sw_files (snd x) (EnableFile i)"
  by (simp add: restore_event_def case_prod_beta' Let_def write_other)

lemma quiet_refuses:
  assumes "quiet x" "cmd \<in> {CmdStart, CmdPause, CmdResume, CmdStop}"
  shows "fst (scmi_exec env cmd x) \<noteq> ASTL_STATUS_SUCCESS"
proof -
  have q: "sc_state (fst x) \<in> {STOPPED, UNCONFIGURED}" using assms(1) by (simp add: quiet_def)
  obtain st y where r: "scmi_exec env cmd x = (st, y)" by (meson surj_pair)
  have "\<exists>action s. action_law (sc_state (fst x)) action st s"
    using assms(2) r scmi_lc.exec_start [of env x st y] scmi_lc.exec_pause [of env x st y] scmi_lc.exec_resume [of env x st y]
      scmi_lc.exec_stop [of env x st y] by blast
  then obtain action s where "action_law (sc_state (fst x)) action st s" by blast
  then have "st \<noteq> ASTL_STATUS_SUCCESS" using q by (cases action) (auto simp: action_law_def lifecycle_table)
  then show ?thesis by (simp add: r)
qed

text \<open>
  C17: a running collection is stopped, the operations of its stop mode succeed, and the first event
  it enabled cannot be restored (its files are gone, or cannot be read or written).  Then the stop
  reports that error although the collection is stopped, and the collector lets go of the lock and of
  its list of events.  Whatever commands follow short of a new configuration, in whatever environments:
  the collector is STOPPED or UNCONFIGURED, the events after the first stay as the collection left
  them, and a start, a stop, a pause and a resume are refused, so that a caller that takes the error for
  a collection that still runs can never stop it.
\<close>

theorem scmi_failed_restore_wedges:
  fixes x :: "'t scmi"
  assumes "sc_state (fst x) \<in> {STARTED, PAUSED}" "sc_configuration (fst x) = Some cfg"
    "ExecuteStopMode cfg (Scmi_ExecuteCollectionOperations env) (Scmi_StopIntervalSampling x) = (ASTL_STATUS_SUCCESS, x1)"
    "sc_data_events (fst x) = e # es" "restore_event env e x1 = (err, x2)" "err \<noteq> ASTL_STATUS_SUCCESS"
    "Scmi_StopCollection env x = (status, y)"
  shows "status = err \<and> sc_state (fst y) = STOPPED \<and> \<not> sc_holds_lock (fst y)
    \<and> (\<forall>cmds. (\<forall>(env', cmd)\<in>set cmds. \<forall>cfg'. cmd \<noteq> CmdConfigure cfg') \<longrightarrow>
        sc_state (fst (scmi_runs cmds y)) \<in> {STOPPED, UNCONFIGURED}
      \<and> (\<forall>env' cmd. cmd \<in> {CmdStart, CmdPause, CmdResume, CmdStop} \<longrightarrow>
          fst (scmi_exec env' cmd (scmi_runs cmds y)) \<noteq> ASTL_STATUS_SUCCESS)
      \<and> (\<forall>later\<in>set es. de_id later \<noteq> de_id e \<longrightarrow>
          sw_files (snd (scmi_runs cmds y)) (EnableFile (de_id later)) = sw_files (snd x) (EnableFile (de_id later))))"
proof -
  let ?x = "Scmi_StopIntervalSampling x"
  obtain c2 w2 where x2: "x2 = (c2, w2)" by (meson surj_pair)
  have s: "sc_state (fst ?x) = sc_state (fst x)" "sc_configuration (fst ?x) = Some cfg" "sc_data_events (fst ?x) = e # es"
    "sw_files (snd ?x) = sw_files (snd x)"
    using assms(2,4) by (simp_all add: Scmi_StopIntervalSampling_def)
  have check: "CheckCollectionLifecycleAction (sc_state (fst x)) STOP = ASTL_STATUS_SUCCESS"
    using assms(1) by (auto simp: lifecycle_table)
  note f = stop_mode_frame(1) [OF assms(3)]
  have f1: "sc_data_events (fst x1) = e # es" "sw_files (snd x1) = sw_files (snd x)" using f s by (simp_all add: settled_def)
  have restore: "RestoreDataEventEnabledState env (e # es) x1 = (err, c2, w2)" using assms(5,6) by (simp add: x2)
  have y: "status = err" "y = ReleaseProcessLock (c2\<lparr>sc_data_events := [], sc_previous := Map.empty, sc_state := STOPPED\<rparr>, w2)"
    using assms(7) by (simp_all add: Scmi_StopCollection_def Let_def s(1,2) check assms(3) f1(1) restore del: RestoreDataEventEnabledState.simps)
  have state: "sc_state (fst y) = STOPPED" "\<not> sc_holds_lock (fst y)" "quiet y" by (simp_all add: y(2) quiet_def)
  have files: "sw_files (snd y) (EnableFile i) = sw_files (snd x) (EnableFile i)" if "i \<noteq> de_id e" for i
    using restore_event_other [OF that, of env x1] by (simp add: assms(5) x2 y(2) f1(2))
  have later: "quiet (scmi_runs cmds y)" "sw_files (snd (scmi_runs cmds y)) = sw_files (snd y)"
    if "\<forall>(env', cmd)\<in>set cmds. \<forall>cfg'. cmd \<noteq> CmdConfigure cfg'" for cmds
    using quiet_runs [OF state(3) that] by blast+
  show ?thesis
  proof (intro conjI allI impI y(1) state(1,2))
    fix cmds :: "('t scmi_env \<times> ('t, scmi_operation) collection_configuration lifecycle_command) list"
    assume "\<forall>(env', cmd)\<in>set cmds. \<forall>cfg'. cmd \<noteq> CmdConfigure cfg'"
    note l = later [OF this]
    show "sc_state (fst (scmi_runs cmds y)) \<in> {STOPPED, UNCONFIGURED}" using l(1) by (simp add: quiet_def)
    show "fst (scmi_exec env' cmd (scmi_runs cmds y)) \<noteq> ASTL_STATUS_SUCCESS" if "cmd \<in> {CmdStart, CmdPause, CmdResume, CmdStop}" for env' cmd
      using quiet_refuses [OF l(1) that] .
    show "\<forall>later\<in>set es. de_id later \<noteq> de_id e \<longrightarrow>
        sw_files (snd (scmi_runs cmds y)) (EnableFile (de_id later)) = sw_files (snd x) (EnableFile (de_id later))"
      using l(2) files by simp
  qed
qed

definition scmi_example_unplugged :: "nat scmi" where
  "scmi_example_unplugged =
    (ScmiSysfsCollector\<lparr>sc_state := STARTED, sc_configuration := Some scmi_example_config, sc_holds_lock := True,
       sc_data_events := [\<lparr>de_id = 3, de_originally_enabled = False, de_timestamp_enabled = None, de_timestamp_rate = None\<rparr>,
         \<lparr>de_id = 4, de_originally_enabled = False, de_timestamp_enabled = None, de_timestamp_rate = None\<rparr>]\<rparr>,
     \<lparr>sw_files = [EnableFile 4 \<mapsto> ''1''], sw_locked = True, sw_refcount = 1, sw_reads = 0\<rparr>)"

theorem scmi_failed_restore_wedges_witness:
  "let (status, y) = Scmi_StopCollection scmi_example_env scmi_example_unplugged
   in status = ASTL_STATUS_FILE_OPEN_FAILED \<and> sc_state (fst y) = STOPPED \<and> sw_files (snd y) (EnableFile 4) = Some ''1''"
proof -
  let ?x = "scmi_example_unplugged"
  obtain status y where stop: "Scmi_StopCollection scmi_example_env ?x = (status, y)" by (meson surj_pair)
  have start: "sc_state (fst ?x) \<in> {STARTED, PAUSED}" "sc_configuration (fst ?x) = Some scmi_example_config"
    "sc_data_events (fst ?x) = [\<lparr>de_id = 3, de_originally_enabled = False, de_timestamp_enabled = None, de_timestamp_rate = None\<rparr>,
         \<lparr>de_id = 4, de_originally_enabled = False, de_timestamp_enabled = None, de_timestamp_rate = None\<rparr>]"
    "sw_files (snd ?x) (EnableFile 4) = Some ''1''"
    by (simp_all add: scmi_example_unplugged_def)
  have mode: "ExecuteStopMode scmi_example_config (Scmi_ExecuteCollectionOperations scmi_example_env) (Scmi_StopIntervalSampling ?x)
      = (ASTL_STATUS_SUCCESS, Scmi_StopIntervalSampling ?x)"
    by (simp add: ExecuteStopMode_def scmi_example_config_def)
  have fails: "restore_event scmi_example_env
      \<lparr>de_id = 3, de_originally_enabled = False, de_timestamp_enabled = None, de_timestamp_rate = None\<rparr> (Scmi_StopIntervalSampling ?x)
      = (ASTL_STATUS_FILE_OPEN_FAILED, Scmi_StopIntervalSampling ?x)"
    by (simp add: restore_event_def ScmiWrite_def Scmi_ReadFile_def Scmi_StopIntervalSampling_def scmi_example_unplugged_def)
  note wedged = scmi_failed_restore_wedges [OF start(1,2) mode start(3) fails _ stop]
  have "\<forall>cmds. (\<forall>(env', cmd)\<in>set cmds. \<forall>cfg'. cmd \<noteq> CmdConfigure cfg') \<longrightarrow>
      sw_files (snd (scmi_runs cmds y)) (EnableFile 4) = Some ''1''"
    using wedged start(4) by auto
  from spec [OF this, of "[]"] have "sw_files (snd y) (EnableFile 4) = Some ''1''" by simp
  then show ?thesis using wedged by (simp add: stop)
qed

end
