(* ===== verification/Scmi_Clock.thy ===== *)
theory Scmi_Clock
  imports Scmi_Restore
begin

text \<open>
  The clock of an SCMI collection: a snapshot correlates every operation on sample with one and the
  same kind of clock, but a reading that fails to carry a time stamp changes the clock of the
  samples after the snapshot has been handed over.
\<close>

definition read_ids :: "scmi_operation list \<Rightarrow> 16 word set" where
  "read_ids ops = {sr_id r | r. ScmiRead r \<in> set ops}"

lemma read_ids_simps [simp]:
  "read_ids [] = {}"
  "read_ids (OtherScmiOperation i # ops) = read_ids ops"
  "read_ids (ScmiRead r # ops) = insert (sr_id r) (read_ids ops)"
  by (auto simp: read_ids_def)

definition software_clock :: "clock_correlation \<Rightarrow> bool" where
  "software_clock k \<longleftrightarrow> ticks k = \<lparr>tick_num = 1, tick_den = 1\<rparr> \<and> native_at_start k = word_of_int (raw_monotonic_at_start k)"

text \<open>
  A correlation taken from the software clock at some reading, and one taken from the time stamp
  that a reading of the operation's data event gave, with the clock of the machine at that reading.
\<close>

definition software_reading :: "'t scmi_env \<Rightarrow> clock_correlation \<Rightarrow> bool" where
  "software_reading env k \<longleftrightarrow> software_clock k \<and> (\<exists>n. raw_monotonic_at_start k = xe_now env n)"

definition hardware_reading :: "'t scmi_env \<Rightarrow> scmi_read_operation \<Rightarrow> clock_correlation \<Rightarrow> bool" where
  "hardware_reading env r k \<longleftrightarrow> sr_rate r \<noteq> 0 \<and> ticks k = \<lparr>tick_num = 1000000, tick_den = uint (sr_rate r)\<rparr>
    \<and> (\<exists>n text rest. xe_value env n (sr_event r) = Inr text \<and> ParseScmiTimeStamp text = Inr (native_at_start k, rest)
      \<and> raw_monotonic_at_start k = xe_now env n)"

definition hardware_clock :: "'t scmi_env \<Rightarrow> scmi_operation list \<Rightarrow> 16 word \<Rightarrow> clock_correlation \<Rightarrow> bool" where
  "hardware_clock env ops i k \<longleftrightarrow> (\<exists>r. ScmiRead r \<in> set ops \<and> sr_id r = i \<and> hardware_reading env r k)"

lemma software_correlations:
  assumes "MakeSoftwareClockCorrelations env ops m0 w = (m, w')"
  shows "dom m = dom m0 \<union> read_ids ops" "\<forall>i k. m i = Some k \<longrightarrow> m0 i = Some k \<or> software_reading env k"
  using assms
proof (induction ops arbitrary: m0 w)
  case (Cons op ops)
  {
    case 1
    then show ?case using Cons.IH(1) by (cases op) auto
  next
    case 2
    show ?case
    proof (cases op)
      case (ScmiRead r)
      have "software_reading env (MakeSoftwareClockCorrelation (xe_now env (sw_reads w)))"
        by (auto simp: software_reading_def software_clock_def MakeSoftwareClockCorrelation_def)
      then show ?thesis using Cons.IH(2) 2 ScmiRead by (fastforce split: if_splits)
    next
      case (OtherScmiOperation i)
      then show ?thesis using Cons.IH(2) 2 by simp
    qed
  }
qed simp_all

lemma hardware_correlation:
  assumes "MakeHardwareClockCorrelation env events r w = (Some k, w')"
  shows "hardware_reading env r k"
  using assms by (fastforce simp: hardware_reading_def MakeHardwareClockCorrelation_def Let_def split: option.splits if_splits sum.splits)

lemma hardware_clock_Cons: "hardware_clock env ops i k \<Longrightarrow> hardware_clock env (op # ops) i k"
  by (auto simp: hardware_clock_def)

lemma hardware_all:
  assumes "hardware_correlations env events ops m0 w = (Some m, w')"
  shows "dom m = dom m0 \<union> read_ids ops" "\<forall>i k. m i = Some k \<longrightarrow> m0 i = Some k \<or> hardware_clock env ops i k"
  using assms
proof (induction ops arbitrary: m0 w)
  case (Cons op ops)
  {
    case 1
    then show ?case using Cons.IH(1) by (cases op) (auto split: prod.splits option.splits)
  next
    case 2
    show ?case
    proof (cases op)
      case (ScmiRead r)
      obtain k w1 where h: "MakeHardwareClockCorrelation env events r w = (Some k, w1)"
        and run: "hardware_correlations env events ops (m0(sr_id r \<mapsto> k)) w1 = (Some m, w')"
        using 2 ScmiRead by (auto split: prod.splits option.splits)
      have "hardware_clock env (op # ops) (sr_id r) k"
        using hardware_correlation [OF h] ScmiRead by (auto simp: hardware_clock_def)
      then show ?thesis
        using Cons.IH(2) [OF run] hardware_clock_Cons [of env ops] by (metis fun_upd_apply option.inject)
    next
      case (OtherScmiOperation i)
      then show ?thesis using Cons.IH(2) 2 hardware_clock_Cons [of env ops] by fastforce
    qed
  }
qed simp_all

lemma snapshot_on_hardware:
  assumes "sc_configuration c = Some cfg" "Scmi_GetNativeClockSnapshot env (c, w) = (m, c', w')" "\<not> sc_software_clock c'"
  shows "dom m = read_ids (operationsOnSample (cfg_operations cfg))"
    "m i = Some k \<Longrightarrow> hardware_clock env (operationsOnSample (cfg_operations cfg)) i k"
proof -
  let ?ops = "operationsOnSample (cfg_operations cfg)"
  obtain m1 w1 where h: "hardware_correlations env (sc_data_events c) ?ops Map.empty w = (m1, w1)" by (meson surj_pair)
  have m1: "m1 = Some m"
    using assms h by (cases m1) (auto simp: Scmi_GetNativeClockSnapshot_def Let_def FallBackToSoftwareClockTimestamps_def
      case_prod_beta' split: if_splits)
  show "dom m = read_ids ?ops" "m i = Some k \<Longrightarrow> hardware_clock env ?ops i k"
    using hardware_all [OF h [unfolded m1]] by auto
qed

lemma snapshot_on_software:
  assumes "sc_configuration c = Some cfg" "Scmi_GetNativeClockSnapshot env (c, w) = (m, c', w')" "sc_software_clock c'"
  shows "dom m = read_ids (operationsOnSample (cfg_operations cfg))" "m i = Some k \<Longrightarrow> software_reading env k"
proof -
  let ?ops = "operationsOnSample (cfg_operations cfg)"
  obtain m1 w1 where h: "hardware_correlations env (sc_data_events c) ?ops Map.empty w = (m1, w1)" by (meson surj_pair)
  let ?w = "if sc_software_clock c then w else w1"
  obtain m2 w2 where s: "MakeSoftwareClockCorrelations env ?ops Map.empty ?w = (m2, w2)" by (meson surj_pair)
  have m2: "m2 = m"
    using assms h s by (cases m1) (auto simp: Scmi_GetNativeClockSnapshot_def Let_def split: if_splits)
  show "dom m = read_ids ?ops" "m i = Some k \<Longrightarrow> software_reading env k"
    using software_correlations [OF s [unfolded m2]] by auto
qed

lemma snapshot_clock:
  assumes "sc_configuration c = Some cfg" "Scmi_GetNativeClockSnapshot env (c, w) = (m, c', w')"
  shows "sc_software_clock c' \<longleftrightarrow> sc_software_clock c
      \<or> fst (hardware_correlations env (sc_data_events c) (operationsOnSample (cfg_operations cfg)) Map.empty w) = None"
    "sc_sunk c' = sc_sunk c"
  using assms by (auto simp: Scmi_GetNativeClockSnapshot_def Let_def FallBackToSoftwareClockTimestamps_def
      case_prod_beta' split: if_splits option.splits)

lemma hardware_failed:
  assumes "hardware_correlations env events ops m0 w = (None, w')"
  shows "\<exists>r w1. ScmiRead r \<in> set ops \<and> fst (MakeHardwareClockCorrelation env events r w1) = None"
  using assms
proof (induction ops arbitrary: m0 w)
  case (Cons op ops)
  show ?case
  proof (cases op)
    case (ScmiRead r)
    show ?thesis
      using Cons.IH Cons.prems ScmiRead
      by (cases "MakeHardwareClockCorrelation env events r w") (auto split: option.splits, (metis fst_conv)+)
  qed (use Cons in auto)
qed simp

text \<open>
  C27: the clock snapshot of a configured collector correlates exactly the operations it reads on
  sample, and all of them with one and the same kind of clock, the one the collector is left on.
  When it is left on the hardware clock, every operation has a positive rate and a time stamp that
  was read from the value file of its data event, paired with the time of the machine at that
  reading; when it is left on the software clock, every operation is correlated with a reading of
  CLOCK_MONOTONIC_RAW at a ratio of one. A collector on the software clock stays there, and one on
  the hardware clock moves to it only when the correlation of one of its operations on sample
  cannot be taken.
\<close>

theorem scmi_snapshot_uniform:
  assumes "sc_configuration c = Some cfg" "Scmi_GetNativeClockSnapshot env (c, w) = (m, c', w')"
  shows "dom m = read_ids (operationsOnSample (cfg_operations cfg))
    \<and> (\<forall>i k. m i = Some k \<longrightarrow> (if sc_software_clock c' then software_reading env k
        else hardware_clock env (operationsOnSample (cfg_operations cfg)) i k))
    \<and> (sc_software_clock c \<longrightarrow> sc_software_clock c')
    \<and> (\<not> sc_software_clock c \<and> sc_software_clock c' \<longrightarrow>
        (\<exists>r w1. ScmiRead r \<in> set (operationsOnSample (cfg_operations cfg))
          \<and> fst (MakeHardwareClockCorrelation env (sc_data_events c) r w1) = None))"
proof -
  have "\<not> sc_software_clock c \<and> sc_software_clock c' \<longrightarrow> (\<exists>r w1. ScmiRead r \<in> set (operationsOnSample (cfg_operations cfg))
      \<and> fst (MakeHardwareClockCorrelation env (sc_data_events c) r w1) = None)"
    using snapshot_clock(1) [OF assms] hardware_failed by (metis surjective_pairing)
  then show ?thesis
    using snapshot_clock(1) [OF assms] snapshot_on_hardware [OF assms] snapshot_on_software [OF assms] by (cases "sc_software_clock c'") auto
qed

definition scmi_example_snapshot :: clock_correlation_map where
  "scmi_example_snapshot = [2 \<mapsto> \<lparr>raw_monotonic_at_start = 7, native_at_start = 5, ticks = \<lparr>tick_num = 1000000, tick_den = 9\<rparr>\<rparr>]"

lemma scmi_example_five: "from_chars 64 ''5 ff'' = Some (5, '' ff'')"
  by (simp add: from_chars_def isdigit_def digits_value_def digit_value_def)

lemma scmi_example_snapshot_run:
  "fst (Scmi_GetNativeClockSnapshot scmi_example_env scmi_example_configured) = scmi_example_snapshot"
  "fst (snd (Scmi_GetNativeClockSnapshot scmi_example_env scmi_example_configured)) = fst scmi_example_configured"
proof -
  have ops: "sc_configuration (fst scmi_example_configured) = Some cfg \<Longrightarrow>
      operationsOnSample (cfg_operations cfg) = [ScmiRead \<lparr>sr_id = 2, sr_event = 3, sr_rate = 9\<rparr>]" for cfg
    by (auto simp: scmi_example_configured_def)
  obtain cfg where cfg: "sc_configuration (fst scmi_example_configured) = Some cfg" by (simp add: scmi_example_configured_def)
  have clock: "\<not> sc_software_clock (fst scmi_example_configured)" by (simp add: scmi_example_configured_def)
  have event: "find_event 3 (sc_data_events (fst scmi_example_configured)) =
      Some \<lparr>de_id = 3, de_originally_enabled = False, de_timestamp_enabled = Some False, de_timestamp_rate = Some 9\<rparr>"
    by (simp add: scmi_example_configured_def find_event_def)
  have env: "xe_value scmi_example_env n i = Inr ''5 ff''" "xe_now scmi_example_env n = 7" for n i
    by (simp_all add: scmi_example_env_def)
  show "fst (Scmi_GetNativeClockSnapshot scmi_example_env scmi_example_configured) = scmi_example_snapshot"
    "fst (snd (Scmi_GetNativeClockSnapshot scmi_example_env scmi_example_configured)) = fst scmi_example_configured"
    by (simp_all add: Scmi_GetNativeClockSnapshot_def case_prod_beta' cfg ops [OF cfg] clock MakeHardwareClockCorrelation_def event
      env Let_def ParseScmiTimeStamp_def scmi_example_five scmi_example_snapshot_def)
qed

theorem scmi_snapshot_uniform_witness:
  "dom scmi_example_snapshot = {2} \<and> \<not> sc_software_clock (fst scmi_example_configured)"
proof -
  obtain cfg where cfg: "sc_configuration (fst scmi_example_configured) = Some cfg"
    "operationsOnSample (cfg_operations cfg) = [ScmiRead \<lparr>sr_id = 2, sr_event = 3, sr_rate = 9\<rparr>]"
    by (simp add: scmi_example_configured_def)
  obtain m c' w' where run: "Scmi_GetNativeClockSnapshot scmi_example_env (fst scmi_example_configured, snd scmi_example_configured) = (m, c', w')"
    by (metis prod_cases3)
  have "m = scmi_example_snapshot" "c' = fst scmi_example_configured"
    using scmi_example_snapshot_run by (simp_all add: run [simplified])
  then show ?thesis
    using scmi_snapshot_uniform [OF cfg(1) run] cfg(2) by (simp add: scmi_example_configured_def)
qed

section \<open>A reading without its time stamp\<close>

text \<open>
  A collector on the software clock stays there, and what it sinks is stamped with a reading of
  CLOCK_MONOTONIC_RAW, until it is configured anew.
\<close>

definition stamped_raw :: "'t scmi_env \<Rightarrow> ('t \<times> raw_sample list) list \<Rightarrow> bool" where
  "stamped_raw env sunk \<longleftrightarrow> (\<forall>(t, batch)\<in>set sunk. \<forall>s\<in>set batch. \<exists>n. rs_raw_tick s = word_of_int (xe_now env n))"

definition on_raw :: "'t scmi_env \<Rightarrow> 't scmi_collector \<Rightarrow> 't scmi_collector \<Rightarrow> bool" where
  "on_raw env c c' \<longleftrightarrow> (sc_software_clock c \<longrightarrow>
    sc_software_clock c' \<and> (\<exists>later. sc_sunk c' = sc_sunk c @ later \<and> stamped_raw env later))"

lemma on_raw_same: "sc_software_clock c' = sc_software_clock c \<Longrightarrow> sc_sunk c' = sc_sunk c \<Longrightarrow> on_raw env c c'"
  by (simp add: on_raw_def stamped_raw_def)

lemma on_raw_trans: "on_raw env a b \<Longrightarrow> on_raw env b c \<Longrightarrow> on_raw env a c"
  by (fastforce simp: on_raw_def stamped_raw_def)

lemma on_raw_sink: "rs_raw_tick sample = word_of_int (xe_now env n) \<Longrightarrow> on_raw env c (snd (Scmi_Sink env sample c))"
  by (auto simp: on_raw_def stamped_raw_def Scmi_Sink_def Let_def)

lemma sunk_frame:
  "sc_software_clock (fst (snd (AcquireProcessLock env x))) = sc_software_clock (fst x)"
  "sc_sunk (fst (snd (AcquireProcessLock env x))) = sc_sunk (fst x)"
  "sc_software_clock (fst (ReleaseProcessLock x)) = sc_software_clock (fst x)"
  "sc_sunk (fst (ReleaseProcessLock x)) = sc_sunk (fst x)"
  by (simp_all add: AcquireProcessLock_def ReleaseProcessLock_def Let_def case_prod_beta')

lemma sunk_write: "sc_sunk (fst (snd (ScmiWrite env f v x))) = sc_sunk (fst x)"
  by (simp add: ScmiWrite_def case_prod_beta' Let_def sunk_frame split: sum.split option.split)

lemma sunk_restore: "sc_sunk (fst (snd (RestoreDataEventEnabledState env es x))) = sc_sunk (fst x)"
  by (induction es arbitrary: x) (simp_all add: restore_event_def sunk_write case_prod_beta' Let_def)

lemma on_raw_rollback: "on_raw env (fst x) (fst (RollbackConfigurationState env x))"
  by (rule on_raw_same) (simp_all add: RollbackConfigurationState_def case_prod_beta' Let_def sunk_frame sunk_restore)

lemma on_raw_read: "on_raw env (fst x) (fst (snd (ExecuteScmiReadOperation env r x)))"
proof -
  obtain c w where x: "x = (c, w)" by (meson surj_pair)
  note sink = on_raw_sink [of "\<lparr>rs_operation_id = sr_id r, rs_value = VU64 v, rs_raw_tick = word_of_int (xe_now env n)\<rparr>" env n
      "c\<lparr>sc_previous := p\<rparr>" for v n p]
  show ?thesis
    using sink
    by (auto simp: x ExecuteScmiReadOperation_def interpret_reading_def on_raw_def stamped_raw_def case_prod_beta' Let_def split: sum.split)
qed

lemma on_raw_execute: "on_raw env (fst x) (fst (snd (Scmi_ExecuteCollectionOperations env ops x)))"
proof (induction ops arbitrary: x)
  case (Cons op ops)
  show ?case
  proof (cases op)
    case (ScmiRead r)
    obtain st y where r: "ExecuteScmiReadOperation env r x = (st, y)" by (meson surj_pair)
    have "on_raw env (fst x) (fst y)" using on_raw_read [of env x r] by (simp add: r)
    then show ?thesis using Cons.IH [of y] on_raw_trans by (auto simp: ScmiRead r)
  qed (simp add: on_raw_same)
qed (simp add: on_raw_same)

lemma on_raw_sampling: "on_raw env (fst x) (fst (snd (Scmi_StartIntervalSampling x)))"
  by (rule on_raw_same) (auto simp: Scmi_StartIntervalSampling_def case_prod_beta' split: option.split)

lemma on_raw_modes:
  "on_raw env (fst x) (fst (snd (ExecuteStartMode cfg (Scmi_ExecuteCollectionOperations env) Scmi_StartIntervalSampling x)))"
  "on_raw env (fst x) (fst (snd (ExecuteStopMode cfg (Scmi_ExecuteCollectionOperations env) x)))"
proof -
  obtain st1 x1 where e: "Scmi_ExecuteCollectionOperations env (operationsAtStart (cfg_operations cfg)) x = (st1, x1)" by (meson surj_pair)
  have 1: "on_raw env (fst x) (fst x1)" using on_raw_execute [of env x "operationsAtStart (cfg_operations cfg)"] by (simp add: e)
  have 2: "on_raw env (fst x) (fst (snd (Scmi_ExecuteCollectionOperations env ops x1)))" "on_raw env (fst x) (fst (snd (Scmi_StartIntervalSampling x1)))" for ops
    using on_raw_trans [OF 1 on_raw_execute] on_raw_trans [OF 1 on_raw_sampling] by blast+
  show "on_raw env (fst x) (fst (snd (ExecuteStartMode cfg (Scmi_ExecuteCollectionOperations env) Scmi_StartIntervalSampling x)))"
    using 1 2 by (cases "cfg_mode cfg") (simp_all add: ExecuteStartMode_def e)
  obtain st2 x2 where e2: "Scmi_ExecuteCollectionOperations env (operationsOnSample (cfg_operations cfg)) x = (st2, x2)" by (meson surj_pair)
  have 3: "on_raw env (fst x) (fst x2)" using on_raw_execute [of env x "operationsOnSample (cfg_operations cfg)"] by (simp add: e2)
  have 4: "on_raw env (fst x) (fst (snd (Scmi_ExecuteCollectionOperations env ops x2)))" for ops
    using on_raw_trans [OF 3 on_raw_execute] by blast
  show "on_raw env (fst x) (fst (snd (ExecuteStopMode cfg (Scmi_ExecuteCollectionOperations env) x)))"
    using 3 4 on_raw_execute [of env x] by (cases "cfg_mode cfg") (simp_all add: ExecuteStopMode_def e2 on_raw_same)
qed

lemma on_raw_emit: "on_raw env c (snd (EmitPauseResumeSample env (PauseMarker (xe_now env n)) c))"
  "on_raw env c (snd (EmitPauseResumeSample env (ResumeMarker (xe_now env n)) c))"
  using on_raw_sink [of "PauseMarker (xe_now env n)" env n c] on_raw_sink [of "ResumeMarker (xe_now env n)" env n c]
  by (simp_all add: EmitPauseResumeSample_def PauseMarker_def ResumeMarker_def on_raw_same)

lemma on_raw_update: "on_raw env c (c'\<lparr>sc_state := s, sc_sampler := p\<rparr>) = on_raw env c c'" "on_raw env c (c'\<lparr>sc_state := s\<rparr>) = on_raw env c c'"
  "on_raw env (c\<lparr>sc_previous := q\<rparr>) c' = on_raw env c c'" "on_raw env (c\<lparr>sc_sampler := p\<rparr>) c' = on_raw env c c'"
  by (simp_all add: on_raw_def)

lemma sampling_stopped:
  "sc_state (fst (Scmi_StopIntervalSampling x)) = sc_state (fst x)"
  "sc_configuration (fst (Scmi_StopIntervalSampling x)) = sc_configuration (fst x)"
  "sc_software_clock (fst (Scmi_StopIntervalSampling x)) = sc_software_clock (fst x)"
  "sc_sunk (fst (Scmi_StopIntervalSampling x)) = sc_sunk (fst x)"
  by (simp_all add: Scmi_StopIntervalSampling_def)

lemma on_raw_exec:
  assumes "\<forall>cfg. cmd \<noteq> CmdConfigure cfg"
  shows "on_raw env (fst x) (fst (snd (scmi_exec env cmd x)))"
proof (cases cmd)
  case (CmdConfigure cfg)
  then show ?thesis using assms by blast
next
  case CmdClear
  then show ?thesis
    using on_raw_rollback [of env "Scmi_StopIntervalSampling x"]
    by (simp add: Scmi_ClearCollectionState_def on_raw_same) (simp add: Scmi_StopIntervalSampling_def on_raw_update)
next
  case CmdStart
  obtain c w where x: "x = (c, w)" by (meson surj_pair)
  show ?thesis
  proof (cases "sc_configuration c")
    case (Some cfg)
    show ?thesis
      using on_raw_modes(1) [of env "(c\<lparr>sc_previous := Map.empty\<rparr>, w)" cfg]
      by (simp add: CmdStart x Scmi_StartCollection_def Some on_raw_same case_prod_beta' Let_def on_raw_update)
  qed (simp add: CmdStart x Scmi_StartCollection_def on_raw_same Let_def)
next
  case CmdPause
  then show ?thesis
    by (cases x) (simp add: Scmi_PauseCollection_def PauseCollectionLifecycle_def case_prod_beta' Let_def on_raw_update on_raw_same on_raw_emit)
next
  case CmdResume
  then show ?thesis
    by (cases x) (simp add: Scmi_ResumeCollection_def ResumeCollectionLifecycle_def case_prod_beta' Let_def on_raw_update on_raw_same on_raw_emit)
next
  case CmdStop
  show ?thesis
  proof (cases "sc_configuration (fst x)")
    case (Some cfg)
    obtain st1 x1 where m: "ExecuteStopMode cfg (Scmi_ExecuteCollectionOperations env) (Scmi_StopIntervalSampling x) = (st1, x1)" by (meson surj_pair)
    have 1: "on_raw env (fst x) (fst x1)"
      using on_raw_modes(2) [of env "Scmi_StopIntervalSampling x" cfg] by (simp add: m) (simp add: Scmi_StopIntervalSampling_def on_raw_update)
    obtain st2 c w where r: "RestoreDataEventEnabledState env (sc_data_events (fst x1)) x1 = (st2, c, w)" by (metis prod_cases3)
    have "on_raw env (fst x1) (fst (ReleaseProcessLock (c\<lparr>sc_data_events := [], sc_previous := Map.empty, sc_state := STOPPED\<rparr>, w)))"
      using restore_frame(5) [of env "sc_data_events (fst x1)" x1] sunk_restore [of env "sc_data_events (fst x1)" x1]
      by (intro on_raw_same) (simp_all add: r sunk_frame del: restore_frame)
    then show ?thesis
      using 1 on_raw_trans
      by (auto simp: CmdStop Scmi_StopCollection_def Let_def sampling_stopped Some m r on_raw_same simp del: release_frame)
  qed (simp add: CmdStop Scmi_StopCollection_def Scmi_StopIntervalSampling_def on_raw_same Let_def)
next
  case CmdRead
  then show ?thesis using on_raw_execute [of env x] by (simp add: Scmi_ReadImmediate_def Let_def on_raw_same split: option.split)
qed

definition stamped_by :: "'t scmi_env set \<Rightarrow> ('t \<times> raw_sample list) list \<Rightarrow> bool" where
  "stamped_by envs sunk \<longleftrightarrow> (\<forall>(t, batch)\<in>set sunk. \<forall>s\<in>set batch. \<exists>env\<in>envs. \<exists>n. rs_raw_tick s = word_of_int (xe_now env n))"

lemma on_raw_runs:
  assumes "\<forall>(env, cmd)\<in>set cmds. \<forall>cfg. cmd \<noteq> CmdConfigure cfg" "sc_software_clock (fst x)"
  shows "sc_software_clock (fst (scmi_runs cmds x))
    \<and> (\<exists>later. sc_sunk (fst (scmi_runs cmds x)) = sc_sunk (fst x) @ later \<and> stamped_by (fst ` set cmds) later)"
  using assms
proof (induction cmds arbitrary: x)
  case Nil
  then show ?case by (simp add: stamped_by_def)
next
  case (Cons ec cmds)
  obtain env cmd where ec: "ec = (env, cmd)" by (meson surj_pair)
  let ?y = "snd (scmi_exec env cmd x)"
  have "on_raw env (fst x) (fst ?y)" using on_raw_exec [of cmd env x] Cons.prems(1) by (simp add: ec)
  then obtain now where now: "sc_software_clock (fst ?y)" "sc_sunk (fst ?y) = sc_sunk (fst x) @ now" "stamped_raw env now"
    using Cons.prems(2) by (auto simp: on_raw_def)
  obtain later where "sc_software_clock (fst (scmi_runs cmds ?y))" "sc_sunk (fst (scmi_runs cmds ?y)) = sc_sunk (fst ?y) @ later"
      "stamped_by (fst ` set cmds) later"
    using Cons.IH [OF _ now(1)] Cons.prems(1) by auto
  moreover have "stamped_by (fst ` set (ec # cmds)) (now @ later)"
    using calculation(3) now(3) by (fastforce simp: stamped_by_def stamped_raw_def ec)
  ultimately show ?case using now(2) by (simp add: ec)
qed

text \<open>
  C28: a clock snapshot was taken for the metrics, and any commands but a new configuration have
  followed. When the collector, with a sink, is then still on the hardware clock and a value file it
  reads on sample turns up with a value but no time stamp, the sample is accepted and stamped with
  CLOCK_MONOTONIC_RAW, and the collector is on the software clock from then on: whatever commands it
  executes, its readings included, until it is configured anew, every sample it sinks of any event
  is stamped with CLOCK_MONOTONIC_RAW, although the snapshot said that the samples of the operation
  count the ticks of its data event.
\<close>

theorem scmi_fallback_mixes_clocks:
  assumes "sc_configuration c0 = Some cfg" "Scmi_GetNativeClockSnapshot env0 (c0, w0) = (m, c1, w1)"
    "scmi_runs earlier (c1, w1) = (c, w)" "\<forall>(env', cmd)\<in>set earlier. \<forall>cfg'. cmd \<noteq> CmdConfigure cfg'" "\<not> sc_software_clock c"
    "ScmiRead r \<in> set (operationsOnSample (cfg_operations cfg))"
    "xe_value env (sw_reads w) (sr_event r) = Inr raw" "ParseDataEventValueWithTimestamp raw = Inl e"
    "ParseDataEventValue raw = Inr v" "sc_sink c"
    "ExecuteScmiReadOperation env r (c, w) = (status, c', w')"
    "\<forall>(env', cmd)\<in>set cmds. \<forall>cfg'. cmd \<noteq> CmdConfigure cfg'"
  shows "(\<exists>k. m (sr_id r) = Some k \<and> hardware_clock env0 (operationsOnSample (cfg_operations cfg)) (sr_id r) k)
    \<and> snd (last (sc_sunk c')) = [\<lparr>rs_operation_id = sr_id r, rs_value = VU64 v, rs_raw_tick = word_of_int (xe_now env (sw_reads w))\<rparr>]
    \<and> sc_software_clock c'
    \<and> sc_software_clock (fst (scmi_runs cmds (c', w')))
    \<and> (\<exists>later. sc_sunk (fst (scmi_runs cmds (c', w'))) = sc_sunk c' @ later \<and> stamped_by (fst ` set cmds) later)"
proof -
  have hw: "\<not> sc_software_clock c1" using on_raw_runs [OF assms(4), of "(c1, w1)"] assms(3,5) by auto
  have "sr_id r \<in> dom m"
    using snapshot_on_hardware(1) [OF assms(1,2) hw] assms(6) by (auto simp: read_ids_def)
  then have 1: "\<exists>k. m (sr_id r) = Some k \<and> hardware_clock env0 (operationsOnSample (cfg_operations cfg)) (sr_id r) k"
    using snapshot_on_hardware(2) [OF assms(1,2) hw, of "sr_id r"] by (metis domD)
  have "c' = snd (Scmi_Sink env \<lparr>rs_operation_id = sr_id r, rs_value = VU64 v, rs_raw_tick = word_of_int (xe_now env (sw_reads w))\<rparr>
      ((FallBackToSoftwareClockTimestamps c)\<lparr>sc_previous := [sr_event r \<mapsto> word_of_int (xe_now env (sw_reads w))]\<rparr>))"
    using assms(5,7-11) by (simp add: ExecuteScmiReadOperation_def Let_def interpret_reading_def FallBackToSoftwareClockTimestamps_def
      case_prod_beta')
  then have 2: "snd (last (sc_sunk c')) = [\<lparr>rs_operation_id = sr_id r, rs_value = VU64 v, rs_raw_tick = word_of_int (xe_now env (sw_reads w))\<rparr>]"
      "sc_software_clock c'"
    using assms(10) by (simp_all add: Scmi_Sink_def FallBackToSoftwareClockTimestamps_def Let_def)
  show ?thesis using 1 2 on_raw_runs [OF assms(12), of "(c', w')"] by simp
qed

text \<open>The value file of the example without its time stamp: the text is a value alone.\<close>

definition scmi_example_stampless :: "nat scmi_env" where
  "scmi_example_stampless = scmi_example_env\<lparr>xe_value := (\<lambda>n i. Inr ''ff'')\<rparr>"

theorem scmi_fallback_mixes_clocks_witness:
  "let c = (fst scmi_example_configured)\<lparr>sc_sink := True\<rparr>;
       (m, c1, w1) = Scmi_GetNativeClockSnapshot scmi_example_env (c, snd scmi_example_configured);
       (status, c2, w2) = ExecuteScmiReadOperation scmi_example_stampless \<lparr>sr_id = 2, sr_event = 3, sr_rate = 9\<rparr> (c1, w1)
   in \<not> sc_software_clock c1 \<and> sc_software_clock c2
     \<and> sc_software_clock (fst (scmi_runs [(scmi_example_env, CmdRead), (scmi_example_env, CmdStop)] (c2, w2)))
     \<and> snd (last (sc_sunk c2)) = [\<lparr>rs_operation_id = 2, rs_value = VU64 0xff, rs_raw_tick = 7\<rparr>]"
proof -
  let ?c = "(fst scmi_example_configured)\<lparr>sc_sink := True\<rparr>"
  let ?r = "\<lparr>sr_id = 2, sr_event = 3, sr_rate = 9\<rparr>"
  obtain cfg where cfg: "sc_configuration ?c = Some cfg" "operationsOnSample (cfg_operations cfg) = [ScmiRead ?r]"
    by (simp add: scmi_example_configured_def)
  obtain m c1 w1 where run: "Scmi_GetNativeClockSnapshot scmi_example_env (?c, snd scmi_example_configured) = (m, c1, w1)"
    by (metis prod_cases3)
  have event: "find_event 3 (sc_data_events (fst scmi_example_configured)) =
      Some \<lparr>de_id = 3, de_originally_enabled = False, de_timestamp_enabled = Some False, de_timestamp_rate = Some 9\<rparr>"
    by (simp add: scmi_example_configured_def find_event_def)
  have clock: "\<not> sc_software_clock (fst scmi_example_configured)" by (simp add: scmi_example_configured_def)
  have env: "xe_value scmi_example_env n i = Inr ''5 ff''" "xe_now scmi_example_env n = 7" for n i
    by (simp_all add: scmi_example_env_def)
  have c1: "c1 = ?c"
    using run by (simp add: Scmi_GetNativeClockSnapshot_def case_prod_beta' cfg [simplified] clock MakeHardwareClockCorrelation_def event
      env Let_def ParseScmiTimeStamp_def scmi_example_five)
  have stampless: "xe_value scmi_example_stampless (sw_reads w1) (sr_event ?r) = Inr ''ff''" "xe_now scmi_example_stampless n = 7" for n
    by (simp_all add: scmi_example_stampless_def scmi_example_env_def)
  have none: "ParseDataEventValueWithTimestamp ''ff'' = Inl ASTL_STATUS_BAD_ARGUMENT"
    by (simp add: ParseDataEventValueWithTimestamp_def ParseScmiTimeStamp_def from_chars_def isdigit_def)
  have v: "ParseDataEventValue ''ff'' = Inr 0xff"
    by (simp add: ParseDataEventValue_def last_piece_def should_skip_def isspace_def colon_def ScmiDataEventValue_FromString_def
      from_chars_hex_def hex_digit_def hex_value_def Let_def)
  obtain status c2 w2 where read: "ExecuteScmiReadOperation scmi_example_stampless ?r (c1, w1) = (status, c2, w2)" by (metis prod_cases3)
  have "\<not> sc_software_clock c1" "sc_sink c1" using c1 clock by simp_all
  from scmi_fallback_mixes_clocks [OF cfg(1) run _ _ this(1) _ stampless(1) none v this(2) read,
      of "[]" "[(scmi_example_env, CmdRead), (scmi_example_env, CmdStop)]"]
  show ?thesis
    using cfg(2) stampless(2) \<open>\<not> sc_software_clock c1\<close> by (simp add: run read del: scmi_runs.simps(2))
qed

end
