(* ===== verification/Read_Cache.thy ===== *)
theory Read_Cache
  imports Prelude "HOL-Library.AList"
begin

text \<open>
  The cache of open files behind FileInterface::Read (src/utils/astl_read_file_handle_cache):
  streams by path, a list of the paths with the most recently used first, a capacity that is worked
  out once from the limit of file descriptors, and evictions, of the least recently used stream when
  the cache is full or the process has no descriptor left.  A stream is named by a handle; what
  opening a path and reading a handle give is a parameter.
\<close>

section \<open>The state\<close>

datatype open_error = TooManyOpenFiles | OtherOpenError

text \<open>
  What the whole contents of a stream are: a text, a text cut short by the bad bit, or an exception
  of the stream buffer.
\<close>

datatype stream_text = StreamText string | StreamBad string | StreamThrows

text \<open>
  is_regular_file or is_symlink of a path; opening it while the cache holds n streams; good after
  clear and seekg; the text; the soft limit of descriptors and the entries of /proc/self/fd.
\<close>

record ('p, 'h) read_env =
  re_cacheable :: "'p \<Rightarrow> bool"
  re_open :: "'p \<Rightarrow> nat \<Rightarrow> open_error + 'h"
  re_good :: "'h \<Rightarrow> bool"
  re_text :: "'h \<Rightarrow> stream_text"
  re_limit :: "nat option"
  re_handles :: "nat option"

record ('p, 'h) read_cache =
  rh_capacity :: "nat option"
  rh_usage :: "'p list"
  rh_streams :: "('p \<times> 'h) list"

definition IsTooManyOpenFilesError :: "open_error \<Rightarrow> bool" where
  "IsTooManyOpenFilesError e \<longleftrightarrow> e = TooManyOpenFiles"

definition kDefaultMaxCachedReadHandles :: nat where "kDefaultMaxCachedReadHandles = 64"

definition num_reserved_file_handles :: nat where "num_reserved_file_handles = 32"

definition ReadFileHandleCache :: "nat option \<Rightarrow> ('p, 'h) read_cache" where
  "ReadFileHandleCache capacity = \<lparr>rh_capacity = capacity, rh_usage = [], rh_streams = []\<rparr>"

definition ComputeLinuxReadCacheCapacity :: "('p, 'h) read_env \<Rightarrow> nat" where
  "ComputeLinuxReadCacheCapacity env =
    (case (re_limit env, re_handles env) of
       (Some limit, Some count) \<Rightarrow>
         if limit \<le> count + num_reserved_file_handles then 0
         else min kDefaultMaxCachedReadHandles (limit - count - num_reserved_file_handles)
     | _ \<Rightarrow> kDefaultMaxCachedReadHandles)"

definition GetReadCacheCapacity :: "('p, 'h) read_env \<Rightarrow> ('p, 'h) read_cache \<Rightarrow> nat \<times> ('p, 'h) read_cache" where
  "GetReadCacheCapacity env c =
    (case rh_capacity c of
       Some n \<Rightarrow> (n, c)
     | None \<Rightarrow> (ComputeLinuxReadCacheCapacity env, c\<lparr>rh_capacity := Some (ComputeLinuxReadCacheCapacity env)\<rparr>))"

section \<open>Using and evicting streams\<close>

text \<open>The usage iterator of a stream is the position of its path.\<close>

definition Touch :: "'p \<Rightarrow> ('p, 'h) read_cache \<Rightarrow> ('p, 'h) read_cache" where
  "Touch p c = c\<lparr>rh_usage := p # remove1 p (rh_usage c)\<rparr>"

definition Evict :: "'p \<Rightarrow> ('p, 'h) read_cache \<Rightarrow> ('p, 'h) read_cache" where
  "Evict p c = c\<lparr>rh_usage := remove1 p (rh_usage c), rh_streams := AList.delete p (rh_streams c)\<rparr>"

definition Invalidate :: "'p \<Rightarrow> ('p, 'h) read_cache \<Rightarrow> ('p, 'h) read_cache" where
  "Invalidate p c = (if map_of (rh_streams c) p = None then c else Evict p c)"

definition EvictLeastRecentlyUsed :: "('p, 'h) read_cache \<Rightarrow> ('p, 'h) read_cache" where
  "EvictLeastRecentlyUsed c =
    (if rh_usage c = [] then c
     else if map_of (rh_streams c) (last (rh_usage c)) = None then c\<lparr>rh_usage := butlast (rh_usage c)\<rparr>
     else Evict (last (rh_usage c)) c)"

partial_function (option) TrimToCapacity :: "nat \<Rightarrow> ('p, 'h) read_cache \<Rightarrow> ('p, 'h) read_cache option" where
  "TrimToCapacity capacity c =
    (if length (rh_streams c) \<le> capacity then Some c else TrimToCapacity capacity (EvictLeastRecentlyUsed c))"

text \<open>The boolean says whether the stream is newly opened.\<close>

definition OpenStream :: "('p, 'h) read_env \<Rightarrow> 'p \<Rightarrow> ('p, 'h) read_cache \<Rightarrow> (open_error + bool) \<times> ('p, 'h) read_cache" where
  "OpenStream env p c =
    (if map_of (rh_streams c) p \<noteq> None then (Inr False, Touch p c)
     else case re_open env p (length (rh_streams c)) of
         Inl e \<Rightarrow> (Inl e, c)
       | Inr h \<Rightarrow> (Inr True, c\<lparr>rh_usage := p # rh_usage c, rh_streams := (p, h) # rh_streams c\<rparr>))"

partial_function (option) open_or_evict :: "('p, 'h) read_env \<Rightarrow> 'p \<Rightarrow> ('p, 'h) read_cache
    \<Rightarrow> ((open_error + bool) \<times> ('p, 'h) read_cache) option" where
  "open_or_evict env p c =
    (case OpenStream env p c of
       (Inr newly_opened, c') \<Rightarrow> Some (Inr newly_opened, c')
     | (Inl e, c') \<Rightarrow>
         if rh_streams c' \<noteq> [] \<and> IsTooManyOpenFilesError e then open_or_evict env p (EvictLeastRecentlyUsed c')
         else Some (Inl e, c'))"

definition GetOrOpen :: "('p, 'h) read_env \<Rightarrow> 'p \<Rightarrow> nat \<Rightarrow> ('p, 'h) read_cache
    \<Rightarrow> ((open_error + bool) \<times> ('p, 'h) read_cache) option" where
  "GetOrOpen env p capacity c =
    (if map_of (rh_streams c) p \<noteq> None then Some (Inr False, Touch p c)
     else Option.bind (TrimToCapacity (if 0 < capacity then capacity - 1 else 0) c) (open_or_evict env p))"

section \<open>Reading\<close>

text \<open>An answer is a status and the output string; an exception leaves the function with None.\<close>

definition take_text :: "string \<Rightarrow> stream_text \<Rightarrow> (astl_status \<times> string) option" where
  "take_text output t =
    (case t of StreamText s \<Rightarrow> Some (ASTL_STATUS_SUCCESS, s) | StreamBad s \<Rightarrow> Some (ASTL_STATUS_FILE_ERROR, s) | StreamThrows \<Rightarrow> None)"

definition ReadWithoutCaching :: "('p, 'h) read_env \<Rightarrow> 'p \<Rightarrow> nat \<Rightarrow> string \<Rightarrow> (astl_status \<times> string) option" where
  "ReadWithoutCaching env p n output =
    (case re_open env p n of
       Inl e \<Rightarrow> Some (ASTL_STATUS_FILE_OPEN_FAILED, output)
     | Inr h \<Rightarrow> take_text output (re_text env h))"

definition read_stream :: "('p, 'h) read_env \<Rightarrow> 'p \<Rightarrow> string \<Rightarrow> ('p, 'h) read_cache
    \<Rightarrow> (astl_status \<times> string) option \<times> ('p, 'h) read_cache" where
  "read_stream env p output c =
    (let t = re_text env (the (map_of (rh_streams c) p)) in
     (take_text output t, case t of StreamBad s \<Rightarrow> Evict p c | _ \<Rightarrow> c))"

definition CachedRead :: "('p, 'h) read_env \<Rightarrow> 'p \<Rightarrow> string \<Rightarrow> ('p, 'h) read_cache
    \<Rightarrow> ((astl_status \<times> string) option \<times> ('p, 'h) read_cache) option" where
  "CachedRead env p output c0 =
    (let (capacity, c1) = GetReadCacheCapacity env c0 in
     Option.bind (TrimToCapacity capacity c1) (\<lambda>c.
       if \<not> re_cacheable env p \<or> capacity = 0
       then let c' = Invalidate p c in Some (ReadWithoutCaching env p (length (rh_streams c')) output, c')
       else Option.bind (GetOrOpen env p capacity c) (\<lambda>(access, c').
         case access of
           Inl e \<Rightarrow> Some (Some (ASTL_STATUS_FILE_OPEN_FAILED, output), c')
         | Inr newly_opened \<Rightarrow>
             if \<not> newly_opened \<and> \<not> re_good env (the (map_of (rh_streams c') p))
             then Option.bind (GetOrOpen env p capacity (Evict p c')) (\<lambda>(access, c'').
               case access of
                 Inl e \<Rightarrow> Some (Some (ASTL_STATUS_FILE_OPEN_FAILED, output), c'')
               | Inr newly_opened \<Rightarrow> Some (read_stream env p output c''))
             else Some (read_stream env p output c'))))"

text \<open>FileInterface::Read turns an exception into a status; Write invalidates the path first.\<close>

definition FileInterface_Read :: "('p, 'h) read_env \<Rightarrow> 'p \<Rightarrow> string \<Rightarrow> ('p, 'h) read_cache
    \<Rightarrow> ((astl_status \<times> string) \<times> ('p, 'h) read_cache) option" where
  "FileInterface_Read env p output c =
    map_option (\<lambda>(answer, c'). (case answer of Some a \<Rightarrow> a | None \<Rightarrow> (ASTL_STATUS_FILE_ERROR, output), c'))
      (CachedRead env p output c)"

definition FileInterface_Write :: "('p \<Rightarrow> bool) \<Rightarrow> 'p \<Rightarrow> ('p, 'h) read_cache \<Rightarrow> astl_status \<times> ('p, 'h) read_cache" where
  "FileInterface_Write opens p c =
    (if opens p then ASTL_STATUS_SUCCESS else ASTL_STATUS_FILE_OPEN_FAILED, Invalidate p c)"

section \<open>The invariant\<close>

definition cache_ok :: "('p, 'h) read_cache \<Rightarrow> bool" where
  "cache_ok c \<longleftrightarrow> distinct (rh_usage c) \<and> distinct (map fst (rh_streams c)) \<and> set (rh_usage c) = fst ` set (rh_streams c)"

lemma cache_ok_new [simp]: "cache_ok (ReadFileHandleCache capacity)"
  by (simp add: cache_ok_def ReadFileHandleCache_def)

lemma cache_ok_length: "cache_ok c \<Longrightarrow> length (rh_streams c) = length (rh_usage c)"
  by (metis cache_ok_def distinct_card length_map set_map)

lemma cache_ok_cached: "cache_ok c \<Longrightarrow> map_of (rh_streams c) p \<noteq> None \<longleftrightarrow> p \<in> set (rh_usage c)"
  by (simp add: cache_ok_def map_of_eq_None_iff)

lemma cache_ok_capacity [simp]: "cache_ok (c\<lparr>rh_capacity := n\<rparr>) = cache_ok c"
  by (simp add: cache_ok_def)

text \<open>The n most recently used streams, and all but one.\<close>

definition keep :: "nat \<Rightarrow> ('p, 'h) read_cache \<Rightarrow> ('p, 'h) read_cache" where
  "keep n c = c\<lparr>rh_usage := take n (rh_usage c),
     rh_streams := filter (\<lambda>e. fst e \<in> set (take n (rh_usage c))) (rh_streams c)\<rparr>"

lemma keep_frame [simp]: "rh_capacity (keep n c) = rh_capacity c" "rh_usage (keep n c) = take n (rh_usage c)"
  by (simp_all add: keep_def)

lemma map_of_filter_keys: "P p \<Longrightarrow> map_of (filter (\<lambda>e. P (fst e)) xs) p = map_of xs p"
  by (induction xs) auto

lemma keep_lookup: "p \<in> set (take n (rh_usage c)) \<Longrightarrow> map_of (rh_streams (keep n c)) p = map_of (rh_streams c) p"
  using map_of_filter_keys [of "\<lambda>q. q \<in> set (take n (rh_usage c))" p "rh_streams c"] by (simp add: keep_def)

lemma keep_all: "cache_ok c \<Longrightarrow> length (rh_usage c) \<le> n \<Longrightarrow> keep n c = c"
proof -
  assume ok: "cache_ok c" and n: "length (rh_usage c) \<le> n"
  have "filter (\<lambda>e. fst e \<in> set (take n (rh_usage c))) (rh_streams c) = rh_streams c"
    using ok n by (intro filter_True) (auto simp: cache_ok_def)
  then show "keep n c = c" using n by (simp add: keep_def)
qed

lemma keep_ok: "cache_ok c \<Longrightarrow> cache_ok (keep n c)"
proof -
  assume ok: "cache_ok c"
  have "set (take n (rh_usage c)) \<subseteq> fst ` set (rh_streams c)" using ok by (metis cache_ok_def set_take_subset)
  then have "set (take n (rh_usage c)) = fst ` {e \<in> set (rh_streams c). fst e \<in> set (take n (rh_usage c))}" by auto
  then show ?thesis using ok by (simp add: cache_ok_def keep_def distinct_map_filter)
qed

lemma keep_keep: "m \<le> n \<Longrightarrow> keep m (keep n c) = keep m c"
proof -
  assume m: "m \<le> n"
  then have t: "take m (take n (rh_usage c)) = take m (rh_usage c)" by (simp add: min_absorb1)
  have "set (take m (rh_usage c)) \<subseteq> set (take n (rh_usage c))" using m by (rule set_take_subset_set_take)
  then have "filter (\<lambda>e. fst e \<in> set (take m (rh_usage c))) (filter (\<lambda>e. fst e \<in> set (take n (rh_usage c))) (rh_streams c))
      = filter (\<lambda>e. fst e \<in> set (take m (rh_usage c))) (rh_streams c)"
    by (auto simp: filter_filter intro!: filter_cong)
  then show ?thesis using m by (simp add: keep_def min_absorb1 del: filter_filter)
qed

lemma evict_last:
  assumes "cache_ok c" "rh_usage c \<noteq> []"
  shows "EvictLeastRecentlyUsed c = keep (length (rh_usage c) - 1) c"
proof -
  let ?p = "last (rh_usage c)"
  have u: "rh_usage c = butlast (rh_usage c) @ [?p]" using assms(2) by simp
  have fresh: "?p \<notin> set (butlast (rh_usage c))" using assms(1) u by (metis cache_ok_def distinct_append not_distinct_conv_prefix)
  have "remove1 ?p (rh_usage c) = butlast (rh_usage c)" using fresh by (subst (2) u) (simp add: remove1_append)
  moreover have "AList.delete ?p (rh_streams c) = filter (\<lambda>e. fst e \<in> set (butlast (rh_usage c))) (rh_streams c)"
  proof -
    have "fst e \<noteq> ?p \<longleftrightarrow> fst e \<in> set (butlast (rh_usage c))" if "e \<in> set (rh_streams c)" for e
    proof -
      have "fst e \<in> set (butlast (rh_usage c) @ [?p])" using that assms(1) u by (metis cache_ok_def image_eqI)
      then show ?thesis using fresh by auto
    qed
    then have "filter (\<lambda>e. fst e \<noteq> ?p) (rh_streams c) = filter (\<lambda>e. fst e \<in> set (butlast (rh_usage c))) (rh_streams c)"
      by (intro filter_cong) simp_all
    moreover have "AList.delete ?p (rh_streams c) = filter (\<lambda>e. fst e \<noteq> ?p) (rh_streams c)"
      by (auto simp: AList.delete_eq split_def intro!: filter_cong)
    ultimately show ?thesis by simp
  qed
  moreover have "map_of (rh_streams c) ?p \<noteq> None"
    using assms cache_ok_cached [OF assms(1), of ?p] last_in_set [of "rh_usage c"] by blast
  ultimately show ?thesis
    using assms(2) by (auto simp: EvictLeastRecentlyUsed_def Evict_def keep_def butlast_conv_take)
qed

theorem trim_keeps_recent:
  assumes "cache_ok c"
  shows "TrimToCapacity n c = Some (keep n c)"
  using assms
proof (induction "length (rh_usage c) - n" arbitrary: c)
  case 0
  then show ?case by (subst TrimToCapacity.simps) (simp add: cache_ok_length keep_all)
next
  case (Suc k)
  let ?c = "keep (length (rh_usage c) - 1) c"
  have u: "rh_usage c \<noteq> []" "\<not> length (rh_usage c) \<le> n" using Suc.hyps(2) by auto
  have "TrimToCapacity n ?c = Some (keep n ?c)"
    using Suc.hyps(1) [of ?c] Suc.hyps(2) Suc.prems by (simp add: keep_ok)
  then show ?case
    using u Suc.prems by (subst TrimToCapacity.simps) (simp add: cache_ok_length evict_last keep_keep)
qed

section \<open>Opening\<close>

definition opened :: "'p \<Rightarrow> 'h \<Rightarrow> ('p, 'h) read_cache \<Rightarrow> ('p, 'h) read_cache" where
  "opened p h c = c\<lparr>rh_usage := p # rh_usage c, rh_streams := (p, h) # rh_streams c\<rparr>"

lemma opened_ok: "cache_ok c \<Longrightarrow> p \<notin> set (rh_usage c) \<Longrightarrow> cache_ok (opened p h c)"
  by (auto simp: cache_ok_def opened_def)

lemma touch_ok: "cache_ok c \<Longrightarrow> p \<in> set (rh_usage c) \<Longrightarrow> cache_ok (Touch p c)"
  by (auto simp: cache_ok_def Touch_def)

lemma evict_ok: "cache_ok c \<Longrightarrow> cache_ok (Evict p c)"
proof -
  assume ok: "cache_ok c"
  have "fst ` set (AList.delete p (rh_streams c)) = fst ` set (rh_streams c) - {p}"
    by (metis AList.delete_keys list.set_map set_removeAll)
  then show ?thesis using ok by (simp add: cache_ok_def Evict_def AList.delete_keys distinct_removeAll)
qed

lemma open_uncached:
  "cache_ok c \<Longrightarrow> p \<notin> set (rh_usage c) \<Longrightarrow> OpenStream env p c =
    (case re_open env p (length (rh_usage c)) of Inl e \<Rightarrow> (Inl e, c) | Inr h \<Rightarrow> (Inr True, opened p h c))"
  using cache_ok_cached [of c p] by (auto simp: OpenStream_def opened_def cache_ok_length split: sum.split)

text \<open>With n streams kept the opening succeeds, or fails for good.\<close>

definition opens_with :: "('p, 'h) read_env \<Rightarrow> 'p \<Rightarrow> nat \<Rightarrow> nat \<Rightarrow> bool" where
  "opens_with env p limit n \<longleftrightarrow> n \<le> limit \<and> (\<forall>m. n < m \<and> m \<le> limit \<longrightarrow> re_open env p m = Inl TooManyOpenFiles)
    \<and> (n = 0 \<or> re_open env p n \<noteq> Inl TooManyOpenFiles)"

lemma open_or_evict_returns:
  assumes "cache_ok c" "p \<notin> set (rh_usage c)"
  shows "\<exists>n. opens_with env p (length (rh_usage c)) n \<and> open_or_evict env p c = Some (OpenStream env p (keep n c))"
  using assms
proof (induction "length (rh_usage c)" arbitrary: c)
  case 0
  have "rh_streams c = []" using 0 cache_ok_length [of c] by simp
  moreover obtain r c' where o: "OpenStream env p c = (r, c')" by (meson surj_pair)
  ultimately have "open_or_evict env p c = Some (OpenStream env p c)"
    using open_uncached [OF 0(2,3), of env] 0(1)
    by (subst open_or_evict.simps) (auto split: sum.splits)
  then show ?case using 0 by (auto simp: opens_with_def keep_all)
next
  case (Suc k)
  have u: "rh_usage c \<noteq> []" using Suc.hyps(2) by auto
  show ?case
  proof (cases "re_open env p (length (rh_usage c)) = Inl TooManyOpenFiles")
    case False
    then have "open_or_evict env p c = Some (OpenStream env p c)"
      using open_uncached [OF Suc.prems, of env]
      by (subst open_or_evict.simps) (auto simp: IsTooManyOpenFilesError_def split: sum.splits)
    then show ?thesis
      using False Suc.prems by (intro exI [of _ "length (rh_usage c)"]) (auto simp: opens_with_def keep_all)
  next
    case True
    let ?c = "keep k c"
    have k: "length (rh_usage c) - Suc 0 = k" using Suc.hyps(2) by simp
    have nonempty: "rh_streams c \<noteq> []" using u Suc.prems cache_ok_length [of c] by auto
    have step: "open_or_evict env p c = open_or_evict env p ?c"
      using open_uncached [OF Suc.prems, of env] True nonempty evict_last [OF Suc.prems(1) u]
      by (subst open_or_evict.simps) (simp add: IsTooManyOpenFilesError_def k)
    have len: "length (rh_usage ?c) = k" using Suc.hyps(2) by simp
    have notin: "p \<notin> set (rh_usage ?c)" using Suc.prems(2) by (auto dest: in_set_takeD)
    from Suc.hyps(1) [OF len [symmetric] keep_ok [OF Suc.prems(1)] notin] obtain n where
      n: "opens_with env p k n" "open_or_evict env p ?c = Some (OpenStream env p (keep n ?c))"
      unfolding len by blast
    have "opens_with env p (length (rh_usage c)) n"
      using n(1) True Suc.hyps(2) unfolding opens_with_def by (metis Suc_leI le_SucI le_antisym not_less_eq_eq)
    then show ?thesis using n step by (auto simp: opens_with_def keep_keep)
  qed
qed

text \<open>The three ways GetOrOpen ends; it always does.\<close>

lemma get_or_open_cases:
  assumes "cache_ok c" "0 < capacity"
  obtains (cached) "p \<in> set (rh_usage c)" "GetOrOpen env p capacity c = Some (Inr False, Touch p c)"
  | (opened) n h where "p \<notin> set (rh_usage c)" "opens_with env p (min (capacity - 1) (length (rh_usage c))) n"
      "re_open env p n = Inr h" "GetOrOpen env p capacity c = Some (Inr True, opened p h (keep n c))"
  | (failed) n e where "p \<notin> set (rh_usage c)" "opens_with env p (min (capacity - 1) (length (rh_usage c))) n"
      "re_open env p n = Inl e" "GetOrOpen env p capacity c = Some (Inl e, keep n c)"
proof (cases "p \<in> set (rh_usage c)")
  case True
  then show ?thesis using that(1) cache_ok_cached [OF assms(1), of p] by (simp add: GetOrOpen_def)
next
  case False
  let ?c = "keep (capacity - 1) c"
  have notin: "p \<notin> set (rh_usage ?c)" using False by (auto dest: in_set_takeD)
  have ok: "cache_ok ?c" using assms(1) by (rule keep_ok)
  have len: "length (rh_usage ?c) = min (capacity - 1) (length (rh_usage c))" by (simp add: min.commute)
  obtain n where n: "opens_with env p (min (capacity - 1) (length (rh_usage c))) n"
      "open_or_evict env p ?c = Some (OpenStream env p (keep n ?c))"
    using open_or_evict_returns [OF ok notin, of env] unfolding len by blast
  have bound: "n \<le> capacity - 1" "n \<le> length (rh_usage c)" using n(1) by (auto simp: opens_with_def)
  have k: "keep n ?c = keep n c" using bound by (simp add: keep_keep)
  have "p \<notin> set (rh_usage (keep n c))" using False by (auto dest: in_set_takeD)
  note o = open_uncached [OF keep_ok [OF assms(1)] this, of env]
  have l: "length (rh_usage (keep n c)) = n" using bound by simp
  have run: "GetOrOpen env p capacity c = Some (OpenStream env p (keep n c))"
    using cache_ok_cached [OF assms(1), of p] False assms n(2) k by (simp add: GetOrOpen_def trim_keeps_recent)
  show ?thesis
    using that(2,3) [OF False n(1)] run o l by (cases "re_open env p n") simp_all
qed

section \<open>Bounds\<close>

text \<open>A well-formed cache whose capacity is known and not exceeded.\<close>

definition fits :: "nat \<Rightarrow> ('p, 'h) read_cache \<Rightarrow> bool" where
  "fits capacity c \<longleftrightarrow> cache_ok c \<and> rh_capacity c = Some capacity \<and> length (rh_usage c) \<le> capacity"

lemma fits_evict: "fits capacity c \<Longrightarrow> fits capacity (Evict p c)"
  using evict_ok [of c p] by (auto simp: fits_def Evict_def length_remove1)

lemma fits_invalidate: "fits capacity c \<Longrightarrow> fits capacity (Invalidate p c)"
  by (simp add: Invalidate_def fits_evict)

lemma get_or_open_fits:
  assumes "fits capacity c" "0 < capacity"
  shows "\<exists>r c'. GetOrOpen env p capacity c = Some (r, c') \<and> fits capacity c' \<and> (\<not> isl r \<longrightarrow> p \<in> set (rh_usage c'))"
proof -
  have ok: "cache_ok c" and len: "length (rh_usage c) \<le> capacity" and cap: "rh_capacity c = Some capacity"
    using assms(1) by (simp_all add: fits_def)
  show ?thesis
    using ok assms(2)
  proof (cases rule: get_or_open_cases [where env = env and p = p])
    case cached
    then have "fits capacity (Touch p c)"
      using touch_ok [OF ok cached(1)] len cap length_pos_if_in_set [OF cached(1)]
      by (simp add: fits_def) (simp add: Touch_def length_remove1)
    then show ?thesis using cached by (auto simp: Touch_def)
  next
    case (opened n h)
    have "p \<notin> set (rh_usage (keep n c))" using opened(1) by (auto dest: in_set_takeD)
    from opened_ok [OF keep_ok [OF ok] this, of h] have "fits capacity (opened p h (keep n c))"
      using opened(2) len cap assms(2) by (auto simp: fits_def opens_with_def opened_def)
    then show ?thesis using opened by (auto simp: opened_def)
  next
    case (failed n e)
    have "fits capacity (keep n c)" using keep_ok [OF ok] len cap by (simp add: fits_def)
    then show ?thesis using failed by auto
  qed
qed

lemma capacity_known:
  "GetReadCacheCapacity env c = (capacity, c1) \<Longrightarrow> cache_ok c \<Longrightarrow>
    cache_ok c1 \<and> rh_capacity c1 = Some capacity \<and> rh_usage c1 = rh_usage c \<and> rh_streams c1 = rh_streams c"
  by (auto simp: GetReadCacheCapacity_def split: option.splits)

lemma read_stream_fits: "fits capacity c \<Longrightarrow> fits capacity (snd (read_stream env p output c))"
  by (simp add: read_stream_def Let_def fits_evict split: stream_text.split)

lemma cached_read_fits:
  assumes "cache_ok c" "GetReadCacheCapacity env c = (capacity, c1)"
  shows "\<exists>a c'. CachedRead env p output c = Some (a, c') \<and> fits capacity c'"
proof -
  let ?c = "keep capacity c1"
  have c: "fits capacity ?c" and ok: "cache_ok c1"
    using capacity_known [OF assms(2,1)] keep_ok [of c1 capacity] by (auto simp: fits_def)
  show ?thesis
  proof (cases "\<not> re_cacheable env p \<or> capacity = 0")
    case True
    then show ?thesis
      using fits_invalidate [OF c, of p] ok by (simp add: CachedRead_def assms(2) trim_keeps_recent Let_def)
  next
    case False
    then have pos: "0 < capacity" by simp
    obtain r c2 where g: "GetOrOpen env p capacity ?c = Some (r, c2)" "fits capacity c2"
      using get_or_open_fits [OF c pos, of env p] by blast
    obtain r' c3 where g': "GetOrOpen env p capacity (Evict p c2) = Some (r', c3)" "fits capacity c3"
      using get_or_open_fits [OF fits_evict [OF g(2)] pos, of env p p] by blast
    have rs: "fits capacity (snd (read_stream env p output c2))" "fits capacity (snd (read_stream env p output c3))"
      by (rule read_stream_fits [OF g(2)], rule read_stream_fits [OF g'(2)])
    show ?thesis
      using False ok g g' rs
      by (cases "read_stream env p output c2"; cases "read_stream env p output c3"; cases r; cases r')
        (simp_all add: CachedRead_def assms(2) trim_keeps_recent)
  qed
qed

section \<open>The cache does not show\<close>

text \<open>
  A world in which every path denotes one file while it is read: opening it gives the handle of the
  file, or fails for a reason other than a lack of descriptors, and streams can be rewound.
\<close>

definition denotes :: "('p \<Rightarrow> open_error + 'h) \<Rightarrow> ('p, 'h) read_env \<Rightarrow> bool" where
  "denotes d env \<longleftrightarrow> (\<forall>p n. re_open env p n = d p) \<and> (\<forall>p. d p \<noteq> Inl TooManyOpenFiles) \<and> (\<forall>h. re_good env h)"

definition current :: "('p \<Rightarrow> open_error + 'h) \<Rightarrow> ('p, 'h) read_cache \<Rightarrow> bool" where
  "current d c \<longleftrightarrow> (\<forall>(p, h)\<in>set (rh_streams c). d p = Inr h)"

lemma current_subset: "set (rh_streams c') \<subseteq> set (rh_streams c) \<Longrightarrow> current d c \<Longrightarrow> current d c'"
  by (auto simp: current_def)

lemma current_keep: "current d c \<Longrightarrow> current d (keep n c)"
  by (rule current_subset) (auto simp: keep_def)

lemma current_evict: "current d c \<Longrightarrow> current d (Evict p c)"
  by (rule current_subset) (auto simp: Evict_def AList.delete_eq)

lemma current_lookup: "current d c \<Longrightarrow> cache_ok c \<Longrightarrow> p \<in> set (rh_usage c) \<Longrightarrow> d p = Inr (the (map_of (rh_streams c) p))"
  using cache_ok_cached [of c p] by (fastforce simp: current_def dest: map_of_SomeD)

lemma opens_once: "denotes d env \<Longrightarrow> opens_with env p limit n \<longleftrightarrow> n = limit"
  by (auto simp: opens_with_def denotes_def)

lemma get_or_open_current:
  assumes "cache_ok c" "0 < capacity" "denotes d env" "current d c" "length (rh_usage c) \<le> capacity"
  shows "\<exists>c'. current d c' \<and> cache_ok c' \<and> (case d p of
      Inl e \<Rightarrow> GetOrOpen env p capacity c = Some (Inl e, c')
    | Inr h \<Rightarrow> (\<exists>newly_opened. GetOrOpen env p capacity c = Some (Inr newly_opened, c')) \<and> map_of (rh_streams c') p = Some h
        \<and> rh_usage c' = take capacity (p # remove1 p (rh_usage c)))"
  using assms(1,2)
proof (cases rule: get_or_open_cases [where env = env and p = p])
  case cached
  have "current d (Touch p c)" using assms(4) by (auto simp: current_def Touch_def)
  moreover have "length (p # remove1 p (rh_usage c)) \<le> capacity"
    using assms(5) length_pos_if_in_set [OF cached(1)] cached(1) by (simp add: length_remove1)
  then have "take capacity (p # remove1 p (rh_usage c)) = p # remove1 p (rh_usage c)" by (rule take_all)
  ultimately show ?thesis
    using cached current_lookup [OF assms(4,1) cached(1)] touch_ok [OF assms(1) cached(1)] cache_ok_cached [OF assms(1), of p] assms(5)
    by (intro exI [of _ "Touch p c"]) (auto simp: Touch_def)
next
  case (opened n h)
  have n: "n = min (capacity - 1) (length (rh_usage c))" using opened(2) by (simp add: opens_once [OF assms(3)])
  have "p \<notin> set (rh_usage (keep n c))" using opened(1) by (auto dest: in_set_takeD)
  note ok = opened_ok [OF keep_ok [OF assms(1)] this, of h]
  have d: "d p = Inr h" using opened(3) assms(3) by (simp add: denotes_def)
  have "take n (rh_usage c) = take (capacity - 1) (rh_usage c)" by (simp add: n min_def)
  moreover have "take capacity (p # rh_usage c) = p # take (capacity - 1) (rh_usage c)" using assms(2) by (cases capacity) simp_all
  moreover have "current d (opened p h (keep n c))" using current_keep [OF assms(4), of n] d by (auto simp: current_def opened_def)
  ultimately show ?thesis
    using opened(1,4) ok d by (intro exI [of _ "opened p h (keep n c)"]) (auto simp: opened_def remove1_idem)
next
  case (failed n e)
  then have "d p = Inl e" using assms(3) by (simp add: denotes_def)
  then show ?thesis using failed current_keep [OF assms(4), of n] keep_ok [OF assms(1), of n] by auto
qed

text \<open>A read in such a world: what it answers, and the order of use it leaves.\<close>

lemma cached_read_current:
  assumes "cache_ok c" "denotes d env" "current d c" "GetReadCacheCapacity env c = (capacity, c1)"
  shows "\<exists>c'. CachedRead env p output c = Some (ReadWithoutCaching env p 0 output, c') \<and> fits capacity c' \<and> current d c'
    \<and> (re_cacheable env p \<and> 0 < capacity \<and> (\<exists>h s. d p = Inr h \<and> re_text env h = StreamText s) \<longrightarrow>
        rh_usage c' = take capacity (p # remove1 p (take capacity (rh_usage c))))"
proof -
  let ?c = "keep capacity c1"
  note c1 = capacity_known [OF assms(4,1)]
  have cur1: "current d c1" using assms(3) c1 by (simp add: current_def)
  have ok: "cache_ok ?c" and cur: "current d ?c" and use: "rh_usage ?c = take capacity (rh_usage c)"
    using c1 cur1 by (simp_all add: keep_ok current_keep)
  have re: "re_open env p n = d p" for n using assms(2) by (simp add: denotes_def)
  have good: "re_good env h" for h using assms(2) by (simp add: denotes_def)
  obtain a c' where run: "CachedRead env p output c = Some (a, c')" and c': "fits capacity c'"
    using cached_read_fits [OF assms(1,4)] by blast
  have start: "CachedRead env p output c = (if \<not> re_cacheable env p \<or> capacity = 0
      then Some (ReadWithoutCaching env p (length (rh_streams (Invalidate p ?c))) output, Invalidate p ?c)
      else Option.bind (GetOrOpen env p capacity ?c) (\<lambda>(access, c'). case access of
          Inl e \<Rightarrow> Some (Some (ASTL_STATUS_FILE_OPEN_FAILED, output), c')
        | Inr newly_opened \<Rightarrow> Some (read_stream env p output c')))"
    using c1 by (simp add: CachedRead_def assms(4) trim_keeps_recent good Let_def cong: sum.case_cong)
  show ?thesis
  proof (cases "\<not> re_cacheable env p \<or> capacity = 0")
    case True
    have "current d (Invalidate p ?c)" using cur current_evict [OF cur] by (simp add: Invalidate_def)
    moreover have "a = ReadWithoutCaching env p 0 output" "c' = Invalidate p ?c"
      using run True by (simp_all add: start ReadWithoutCaching_def re)
    ultimately show ?thesis using run c' True by auto
  next
    case False
    then have pos: "0 < capacity" by simp
    obtain c2 where c2: "current d c2" "cache_ok c2" "case d p of
        Inl e \<Rightarrow> GetOrOpen env p capacity ?c = Some (Inl e, c2)
      | Inr h \<Rightarrow> (\<exists>newly_opened. GetOrOpen env p capacity ?c = Some (Inr newly_opened, c2)) \<and> map_of (rh_streams c2) p = Some h
        \<and> rh_usage c2 = take capacity (p # remove1 p (rh_usage ?c))"
      using get_or_open_current [OF ok pos assms(2) cur, of p] by auto
    show ?thesis
    proof (cases "d p")
      case (Inl e)
      then have "a = Some (ASTL_STATUS_FILE_OPEN_FAILED, output)" "c' = c2" using run False c2(3) by (simp_all add: start)
      then show ?thesis using run c' c2(1) Inl by (auto simp: ReadWithoutCaching_def re)
    next
      case (Inr h)
      then have read: "read_stream env p output c2 = (a, c')" using run False c2(3) by (auto simp: start)
      then have "a = ReadWithoutCaching env p 0 output" using c2(3) Inr by (auto simp: read_stream_def ReadWithoutCaching_def re Let_def)
      moreover have "current d c'"
        using read c2(1) current_evict [OF c2(1), of p] by (auto simp: read_stream_def Let_def split: stream_text.splits)
      moreover have "c' = c2" if "re_text env h = StreamText s" for s
        using read c2(3) Inr that by (auto simp: read_stream_def Let_def)
      ultimately show ?thesis using run c' c2(3) Inr use by auto
    qed
  qed
qed

text \<open>A run of reads and writes through one FileInterface.\<close>

datatype ('p, 'h) file_call = CallRead "('p, 'h) read_env" 'p | CallWrite "'p \<Rightarrow> bool" 'p

fun file_run :: "('p, 'h) file_call list \<Rightarrow> ('p, 'h) read_cache \<Rightarrow> ((astl_status \<times> string) list \<times> ('p, 'h) read_cache) option" where
  "file_run [] c = Some ([], c)"
| "file_run (CallRead env p # calls) c =
    Option.bind (FileInterface_Read env p [] c) (\<lambda>(answer, c').
      map_option (\<lambda>(answers, c''). (answer # answers, c'')) (file_run calls c'))"
| "file_run (CallWrite opens p # calls) c = file_run calls (snd (FileInterface_Write opens p c))"

text \<open>What a fresh stream would answer.\<close>

fun uncached_answers :: "('p, 'h) file_call list \<Rightarrow> (astl_status \<times> string) list" where
  "uncached_answers [] = []"
| "uncached_answers (CallRead env p # calls) =
    (case ReadWithoutCaching env p 0 [] of Some a \<Rightarrow> a | None \<Rightarrow> (ASTL_STATUS_FILE_ERROR, [])) # uncached_answers calls"
| "uncached_answers (CallWrite opens p # calls) = uncached_answers calls"

lemma write_current: "cache_ok c \<Longrightarrow> current d c \<Longrightarrow>
    cache_ok (snd (FileInterface_Write opens p c)) \<and> current d (snd (FileInterface_Write opens p c))"
  by (simp add: FileInterface_Write_def Invalidate_def evict_ok current_evict)

lemma file_run_current:
  assumes "cache_ok c" "current d c" "\<forall>env p. CallRead env p \<in> set calls \<longrightarrow> denotes d env"
  shows "\<exists>c'. file_run calls c = Some (uncached_answers calls, c') \<and> cache_ok c'"
  using assms
proof (induction calls arbitrary: c)
  case (Cons call calls)
  show ?case
  proof (cases call)
    case (CallRead env p)
    obtain capacity c1 where cap: "GetReadCacheCapacity env c = (capacity, c1)" by (meson surj_pair)
    have den: "denotes d env" using Cons.prems(3) CallRead by simp
    obtain c' where c': "CachedRead env p [] c = Some (ReadWithoutCaching env p 0 [], c')" "cache_ok c'" "current d c'"
      using cached_read_current [OF Cons.prems(1) den Cons.prems(2) cap, of p "[]"] by (auto simp: fits_def)
    obtain c'' where "file_run calls c' = Some (uncached_answers calls, c'')" "cache_ok c''"
      using Cons.IH [OF c'(2,3)] Cons.prems(3) by auto
    then show ?thesis using c'(1) CallRead by (simp add: FileInterface_Read_def)
  next
    case (CallWrite opens p)
    show ?thesis
      using Cons.IH [OF conjunct1 [OF write_current [OF Cons.prems(1,2)]] conjunct2 [OF write_current [OF Cons.prems(1,2)]]]
        Cons.prems(3) CallWrite by auto
  qed
qed simp

text \<open>
  C21: as long as every path keeps denoting one file, whose contents may change, and a failure to
  open is not a lack of descriptors, the cache does not show: any run of reads and writes through a
  FileInterface returns, whatever its capacity and whatever is evicted, and each read answers what a
  stream opened for it alone would answer at that moment.
\<close>

theorem read_cache_transparent:
  fixes calls :: "('p, 'h) file_call list"
  assumes "\<forall>env p. CallRead env p \<in> set calls \<longrightarrow> denotes d env"
  shows "\<exists>c. file_run calls (ReadFileHandleCache capacity) = Some (uncached_answers calls, c)"
proof -
  have "current d (ReadFileHandleCache capacity :: ('p, 'h) read_cache)" by (simp add: current_def ReadFileHandleCache_def)
  from file_run_current [OF cache_ok_new this assms] show ?thesis by blast
qed

definition read_example_env :: "string \<Rightarrow> (nat, nat) read_env" where
  "read_example_env s = \<lparr>re_cacheable = (\<lambda>p. True), re_open = (\<lambda>p n. Inr p), re_good = (\<lambda>h. True),
     re_text = (\<lambda>h. StreamText s), re_limit = None, re_handles = None\<rparr>"

theorem read_cache_transparent_witness:
  "\<exists>c. file_run [CallRead (read_example_env ''a'') 1, CallRead (read_example_env ''b'') 1] (ReadFileHandleCache (Some 2))
    = Some ([(ASTL_STATUS_SUCCESS, ''a''), (ASTL_STATUS_SUCCESS, ''b'')], c)"
proof -
  let ?calls = "[CallRead (read_example_env ''a'') 1, CallRead (read_example_env ''b'') 1]"
  have "\<forall>env p. CallRead env p \<in> set ?calls \<longrightarrow> denotes Inr env" by (simp add: denotes_def read_example_env_def)
  from read_cache_transparent [OF this, of "Some 2"] show ?thesis
    by (simp add: ReadWithoutCaching_def read_example_env_def take_text_def)
qed

section \<open>What is kept\<close>

lemma take_touch:
  assumes "0 < n" "distinct xs"
  shows "take n (p # remove1 p (take n (take n xs))) = take n (p # removeAll p xs)"
proof (cases "p \<in> set (take n xs)")
  case False
  then have "remove1 p (take n xs) = take n xs" by (rule remove1_idem)
  moreover have "take (n - 1) (removeAll p xs) = take (n - 1) xs"
  proof -
    have "xs = take n xs @ drop n xs" by simp
    then have "removeAll p xs = take n xs @ removeAll p (drop n xs)" using False by (metis removeAll_append removeAll_id)
    then show ?thesis by (cases "n \<le> length xs") (simp_all add: min_def)
  qed
  ultimately show ?thesis using assms(1) by (cases n) (simp_all add: min_def)
next
  case True
  have "distinct (take n xs)" using assms(2) by simp
  then have r: "remove1 p (take n xs) = removeAll p (take n xs)" by (rule distinct_remove1_removeAll)
  have p: "p \<notin> set (drop n xs)" using assms(2) True by (metis append_take_drop_id disjoint_iff distinct_append)
  have "removeAll p xs = removeAll p (take n xs) @ drop n xs" using p by (metis append_take_drop_id removeAll_append removeAll_id)
  moreover have "length (removeAll p (take n xs)) = min n (length xs) - 1"
    using r True by (metis length_remove1 length_take min.commute)
  ultimately show ?thesis using r assms True
    by (cases n) (auto simp: min_def split: if_splits)
qed

lemma rev_remdups_snoc: "rev (remdups (xs @ [p])) = p # removeAll p (rev (remdups xs))"
  by (induction xs) (auto simp: removeAll_id)

definition reads_of :: "(('p, 'h) read_env \<times> 'p) list \<Rightarrow> ('p, 'h) file_call list" where
  "reads_of rs = map (\<lambda>(env, p). CallRead env p) rs"

lemma lru_run:
  assumes "fits n c" "current d c" "0 < n" "rh_usage c = take n (rev (remdups ps))"
    "\<forall>(env, p)\<in>set rs. denotes d env \<and> re_cacheable env p \<and> (\<exists>h s. d p = Inr h \<and> re_text env h = StreamText s)"
  shows "\<exists>answers c'. file_run (reads_of rs) c = Some (answers, c') \<and> fits n c' \<and> rh_usage c' = take n (rev (remdups (ps @ map snd rs)))"
  using assms
proof (induction rs arbitrary: c ps)
  case (Cons r rs)
  obtain env p where r: "r = (env, p)" by (meson surj_pair)
  have cap: "GetReadCacheCapacity env c = (n, c)" using Cons.prems(1) by (simp add: GetReadCacheCapacity_def fits_def)
  have ok: "cache_ok c" using Cons.prems(1) by (simp add: fits_def)
  have den: "denotes d env" "re_cacheable env p" "\<exists>h s. d p = Inr h \<and> re_text env h = StreamText s" using Cons.prems(5) by (auto simp: r)
  obtain c' where c': "CachedRead env p [] c = Some (ReadWithoutCaching env p 0 [], c')" "fits n c'" "current d c'"
      "rh_usage c' = take n (p # remove1 p (take n (rh_usage c)))"
    using cached_read_current [OF ok den(1) Cons.prems(2) cap, of p "[]"] den Cons.prems(3) by blast
  have "rh_usage c' = take n (rev (remdups (ps @ [p])))"
    using c'(4) take_touch [OF Cons.prems(3), of "rev (remdups ps)" p] by (simp add: Cons.prems(4) rev_remdups_snoc)
  from Cons.IH [OF c'(2,3) Cons.prems(3) this] Cons.prems(5)
  obtain answers c'' where "file_run (reads_of rs) c' = Some (answers, c'')" "fits n c''"
      "rh_usage c'' = take n (rev (remdups ((ps @ [p]) @ map snd rs)))" by auto
  then show ?case using c'(1) by (simp add: reads_of_def r FileInterface_Read_def)
qed (simp add: reads_of_def)

text \<open>
  C22: a cache of n streams, n positive, that starts empty reads any sequence of cacheable paths,
  where a path opens as the same stream whenever it is opened, opening one never runs out of
  descriptors, a stream it holds can always be rewound, and every read gets a text. Then it keeps the
  streams of the n paths read last: every read returns, and the cache ends with the first n of the
  paths read, without repetition, in the reverse order of their last use.
\<close>

theorem read_cache_lru:
  assumes "0 < n"
    "\<forall>(env, p)\<in>set rs. denotes d env \<and> re_cacheable env p \<and> (\<exists>h s. d p = Inr h \<and> re_text env h = StreamText s)"
  shows "\<exists>answers c. file_run (reads_of rs) (ReadFileHandleCache (Some n)) = Some (answers, c)
    \<and> rh_usage c = take n (rev (remdups (map snd rs))) \<and> set (map fst (rh_streams c)) = set (rh_usage c)
    \<and> length (rh_streams c) = length (rh_usage c)"
proof -
  let ?c = "ReadFileHandleCache (Some n) :: ('a, 'b) read_cache"
  have "fits n ?c" by (simp add: fits_def) (simp add: ReadFileHandleCache_def)
  moreover have "current d ?c" "rh_usage ?c = take n (rev (remdups []))" by (simp_all add: current_def ReadFileHandleCache_def)
  ultimately obtain answers c where "file_run (reads_of rs) ?c = Some (answers, c)" "fits n c"
      "rh_usage c = take n (rev (remdups (map snd rs)))"
    using lru_run [OF _ _ assms(1) _ assms(2), of ?c "[]"] by auto
  then show ?thesis using cache_ok_length [of c] by (auto simp: fits_def cache_ok_def)
qed

theorem read_cache_lru_witness:
  "\<exists>answers c. file_run (reads_of (map (Pair (read_example_env ''a'')) [1, 2, 3, 2])) (ReadFileHandleCache (Some 2)) = Some (answers, c)
    \<and> rh_usage c = [2, 3]"
proof -
  let ?rs = "map (Pair (read_example_env ''a'')) [1, 2, 3, 2]"
  have "\<forall>(env, p)\<in>set ?rs. denotes Inr env \<and> re_cacheable env p \<and> (\<exists>h s. Inr p = (Inr h :: open_error + nat) \<and> re_text env h = StreamText s)"
    by (simp add: denotes_def read_example_env_def)
  then obtain answers c where "file_run (reads_of ?rs) (ReadFileHandleCache (Some 2)) = Some (answers, c)"
      "rh_usage c = take 2 (rev (remdups (map snd ?rs)))"
    using read_cache_lru [of 2 ?rs Inr] by auto
  then show ?thesis by (auto simp: numeral_2_eq_2)
qed

section \<open>Whatever the environment does\<close>

lemma file_run_bounded:
  assumes "fits n c"
  shows "\<exists>answers c'. file_run calls c = Some (answers, c') \<and> fits n c'"
  using assms
proof (induction calls arbitrary: c)
  case (Cons call calls)
  show ?case
  proof (cases call)
    case (CallRead env p)
    have cap: "GetReadCacheCapacity env c = (n, c)" and ok: "cache_ok c"
      using Cons.prems by (simp_all add: GetReadCacheCapacity_def fits_def)
    obtain a c' where c': "CachedRead env p [] c = Some (a, c')" "fits n c'"
      using cached_read_fits [OF ok cap, of p "[]"] by blast
    show ?thesis using Cons.IH [OF c'(2)] c'(1) CallRead by (auto simp: FileInterface_Read_def)
  next
    case (CallWrite opens p)
    have "fits n (snd (FileInterface_Write opens p c))" using fits_invalidate [OF Cons.prems] by (simp add: FileInterface_Write_def)
    then show ?thesis using Cons.IH CallWrite by simp
  qed
qed simp

text \<open>
  C23: whatever opening, rewinding and reading do, and however often they change, the loops that
  evict streams end and every read and write returns; the cache never holds more streams than its
  capacity, and its list of uses names exactly the streams it holds, each once.
\<close>

theorem read_cache_bounded:
  "\<exists>answers c. file_run calls (ReadFileHandleCache (Some n)) = Some (answers, c)
    \<and> length (rh_streams c) \<le> n \<and> distinct (rh_usage c) \<and> set (rh_usage c) = fst ` set (rh_streams c)"
proof -
  let ?c = "ReadFileHandleCache (Some n) :: ('a, 'b) read_cache"
  have "fits n ?c" by (simp add: fits_def) (simp add: ReadFileHandleCache_def)
  from file_run_bounded [OF this] obtain answers c where run: "file_run calls ?c = Some (answers, c)" "fits n c" by blast
  then have "cache_ok c" "length (rh_usage c) \<le> n" by (simp_all add: fits_def)
  then show ?thesis using run(1) cache_ok_length [of c] by (auto simp: cache_ok_def)
qed

text \<open>
  A stream that throws when it is read is never evicted for it: while its path still looks like a
  regular file the path answers ASTL_STATUS_FILE_ERROR, also after it has come to denote a file that
  a fresh stream could read, for instance the process directory of a process identifier used again.
\<close>

theorem dead_stream_sticks:
  assumes "fits n c" "0 < n" "map_of (rh_streams c) p = Some h" "re_cacheable env p" "re_good env h" "re_text env h = StreamThrows"
  shows "FileInterface_Read env p output c = Some ((ASTL_STATUS_FILE_ERROR, output), Touch p c)
    \<and> map_of (rh_streams (Touch p c)) p = Some h"
proof -
  have cap: "GetReadCacheCapacity env c = (n, c)" and ok: "cache_ok c" using assms(1) by (simp_all add: GetReadCacheCapacity_def fits_def)
  have "keep n c = c" using assms(1) ok by (simp add: fits_def keep_all)
  then have trim: "TrimToCapacity n c = Some c" using trim_keeps_recent [OF ok] by simp
  have "GetOrOpen env p n c = Some (Inr False, Touch p c)" "map_of (rh_streams (Touch p c)) p = Some h"
    using assms(3) by (simp_all add: GetOrOpen_def Touch_def)
  then show ?thesis
    using assms by (simp add: FileInterface_Read_def CachedRead_def cap trim read_stream_def take_text_def)
qed

end
