(* ===== verification/Scmi_Correlation.thy ===== *)
theory Scmi_Correlation
  imports Clocks
begin

text \<open>
  The correlation of an SCMI event counter with CLOCK_MONOTONIC_RAW (src/impl/scmi/
  scmi_clock_correlation): how far apart the readings are taken, the exact comparison of two
  offsets, and the running minimum over the readings.  Times at CLOCK_MONOTONIC_RAW are integers of
  64 bits, ticks are words.
\<close>

section \<open>The spacing of the readings\<close>

record scmi_tlm_update_interval =
  ui_secs :: "32 word"
  ui_exp :: int

definition kNanosecondsPerMillisecond :: int where "kNanosecondsPerMillisecond = 1000000"
definition kDecimalBase :: int where "kDecimalBase = 10"
definition kHalfIntervalMultiplier :: int where "kHalfIntervalMultiplier = 5"
definition kHalfIntervalNanosecondExponent :: int where "kHalfIntervalNanosecondExponent = 8"
definition kMaxNanosecondExponent :: int where "kMaxNanosecondExponent = 18"
definition kMinNanosecondExponent :: int where "kMinNanosecondExponent = - 11"

text \<open>The two loops; the number is never negative, so the division of the code is div.\<close>

fun scale_up :: "nat \<Rightarrow> int \<Rightarrow> int result" where
  "scale_up 0 nanoseconds = Inr nanoseconds"
| "scale_up (Suc digits) nanoseconds =
    (if nanoseconds > (2 ^ 63 - 1) div kDecimalBase then Inl ASTL_STATUS_BAD_CONFIGURATION
     else scale_up digits (nanoseconds * kDecimalBase))"

fun scale_down :: "nat \<Rightarrow> int \<Rightarrow> int" where
  "scale_down 0 nanoseconds = nanoseconds"
| "scale_down (Suc digits) nanoseconds =
    scale_down digits (nanoseconds div kDecimalBase + (if nanoseconds mod kDecimalBase \<noteq> 0 then 1 else 0))"

definition ClockCorrelationReadSpacing :: "scmi_tlm_update_interval \<Rightarrow> int result" where
  "ClockCorrelationReadSpacing interval =
    (if ui_secs interval = 0 then Inl ASTL_STATUS_BAD_CONFIGURATION
     else
       let nanoseconds = uint (ui_secs interval) * kHalfIntervalMultiplier;
           exponent = ui_exp interval + kHalfIntervalNanosecondExponent in
       if exponent > kMaxNanosecondExponent then Inl ASTL_STATUS_BAD_CONFIGURATION
       else if exponent < kMinNanosecondExponent then Inr 1
       else rbind (scale_up (nat exponent) nanoseconds) (\<lambda>n. Inr (scale_down (nat (- exponent)) n)))"

lemmas spacing_constants = kDecimalBase_def kHalfIntervalMultiplier_def kHalfIntervalNanosecondExponent_def
  kMaxNanosecondExponent_def kMinNanosecondExponent_def kNanosecondsPerMillisecond_def

lemma scale_up_exact:
  "0 < n \<Longrightarrow> n \<le> 2 ^ 63 - 1 \<Longrightarrow> scale_up k n = (if n * 10 ^ k \<le> 2 ^ 63 - 1 then Inr (n * 10 ^ k) else Inl ASTL_STATUS_BAD_CONFIGURATION)"
proof (induction k arbitrary: n)
  case (Suc k)
  show ?case
  proof (cases "n > (2 ^ 63 - 1) div 10")
    case True
    then have "n * 10 > 2 ^ 63 - 1" by simp
    moreover have "(n * 10) * 1 \<le> (n * 10) * 10 ^ k" using Suc.prems by (intro mult_left_mono) simp_all
    ultimately have "\<not> n * 10 ^ Suc k \<le> 2 ^ 63 - 1" by (simp only: power_Suc mult.assoc mult_1_right)
    then show ?thesis using True by (simp add: kDecimalBase_def del: power_Suc)
  next
    case False
    then show ?thesis using Suc.IH [of "n * 10"] Suc.prems by (simp add: kDecimalBase_def mult.assoc)
  qed
qed simp

lemma scale_down_exact: "0 \<le> n \<Longrightarrow> scale_down k n = (n + (10 ^ k - 1)) div 10 ^ k"
proof (induction k arbitrary: n)
  case (Suc k)
  have "n div 10 + (if n mod 10 \<noteq> 0 then 1 else 0) = (n + 9) div 10"
  proof (cases "n mod 10 = 0")
    case True
    then obtain q where "n = 10 * q" by blast
    then show ?thesis by simp
  next
    case False
    have eq: "10 * (n div 10) + n mod 10 = n" by (rule mult_div_mod_eq)
    have "0 \<le> n mod 10" by simp
    then have bounds: "0 < n mod 10" "n mod 10 < 10" using False by simp_all
    have "n + 9 = 10 * (n div 10 + 1) + (n mod 10 - 1)" using eq by simp
    then have "(n + 9) div 10 = n div 10 + 1" by (rule int_div_pos_eq) (use bounds in simp_all)
    then show ?thesis using False by simp
  qed
  then have "scale_down (Suc k) n = scale_down k ((n + 9) div 10)" by (simp add: kDecimalBase_def)
  also have "\<dots> = ((n + 9) div 10 + (10 ^ k - 1)) div 10 ^ k" using Suc by simp
  also have "(n + 9) div 10 + (10 ^ k - 1) = (n + 9 + 10 * (10 ^ k - 1)) div 10" by simp
  also have "\<dots> div 10 ^ k = (n + 9 + 10 * (10 ^ k - 1)) div (10 * 10 ^ k)" by (simp add: zdiv_zmult2_eq)
  finally show ?case by (simp add: algebra_simps)
qed simp

text \<open>Rounding up in integers and in the rationals.\<close>

lemma div_pos_pos_trivial_one: "0 < (s :: int) \<Longrightarrow> s \<le> d \<Longrightarrow> (s + (d - 1)) div d = 1"
proof -
  assume "0 < s" "s \<le> d"
  then have "(s + (d - 1)) div d = ((s - 1) + d) div d" "0 < d" by (simp_all add: algebra_simps)
  moreover have "((s - 1) + d) div d = (s - 1) div d + 1" using \<open>0 < d\<close> by (simp add: div_add_self2)
  ultimately show ?thesis using \<open>0 < s\<close> \<open>s \<le> d\<close> by (simp add: div_pos_pos_trivial)
qed

lemma ceiling_div: "0 < d \<Longrightarrow> \<lceil>rat_of_int n / rat_of_int d\<rceil> = (n + (d - 1)) div d"
proof -
  assume d: "0 < d"
  have eq: "d * ((n + (d - 1)) div d) + (n + (d - 1)) mod d = n + (d - 1)" by (rule mult_div_mod_eq)
  have bounds: "0 \<le> (n + (d - 1)) mod d" "(n + (d - 1)) mod d < d" using d by simp_all
  have "n \<le> ((n + (d - 1)) div d) * d" using eq bounds unfolding mult.commute [of d] by linarith
  moreover have "((n + (d - 1)) div d - 1) * d < n"
    using eq bounds unfolding mult.commute [of d] left_diff_distrib by linarith
  ultimately have "rat_of_int n \<le> rat_of_int ((n + (d - 1)) div d * d)" "rat_of_int (((n + (d - 1)) div d - 1) * d) < rat_of_int n"
    by (simp_all only: of_int_le_iff of_int_less_iff)
  then show ?thesis using d by (intro ceiling_unique) (simp_all add: field_simps)
qed

text \<open>
  The spacing of the readings is half the update interval of the firmware, secs times ten to
  the power of exp seconds, rounded up to whole nanoseconds, whenever that is a 64-bit number, and
  an error in every other case: no power of ten overflows, and an interval of no seconds is refused.
\<close>

theorem read_spacing_exact:
  "ClockCorrelationReadSpacing interval =
    (let half = \<lceil>rat_of_int (uint (ui_secs interval)) * 10 powi ui_exp interval * 10 ^ 9 / 2\<rceil> in
     if ui_secs interval = 0 \<or> 2 ^ 63 \<le> half then Inl ASTL_STATUS_BAD_CONFIGURATION else Inr half)"
proof (cases "ui_secs interval = 0")
  case True
  then show ?thesis by (simp add: ClockCorrelationReadSpacing_def)
next
  case False
  define s where "s = 5 * uint (ui_secs interval)"
  define e where "e = ui_exp interval + 8"
  define half where "half = \<lceil>rat_of_int (uint (ui_secs interval)) * 10 powi ui_exp interval * 10 ^ 9 / 2\<rceil>"
  have "uint (ui_secs interval) \<noteq> 0" using False by (simp add: uint_0_iff)
  then have s: "0 < s" "s < 5 * 2 ^ 32"
    using uint_lt2p [of "ui_secs interval"] by (simp_all add: s_def order_less_le)
  have "rat_of_int (uint (ui_secs interval)) * 10 powi ui_exp interval * 10 ^ 9 / 2 = rat_of_int s * 10 powi e"
    by (simp add: s_def e_def power_int_add)
  then have half: "half = \<lceil>rat_of_int s * 10 powi e\<rceil>" by (simp add: half_def)
  have code: "ClockCorrelationReadSpacing interval = (if e > 18 then Inl ASTL_STATUS_BAD_CONFIGURATION
      else if e < - 11 then Inr 1 else rbind (scale_up (nat e) s) (\<lambda>n. Inr (scale_down (nat (- e)) n)))"
    using False by (simp add: ClockCorrelationReadSpacing_def Let_def spacing_constants s_def e_def mult.commute)
  have "ClockCorrelationReadSpacing interval = (if 2 ^ 63 \<le> half then Inl ASTL_STATUS_BAD_CONFIGURATION else Inr half)"
  proof (cases "0 \<le> e")
    case True
    then have "rat_of_int s * 10 powi e = rat_of_int (s * 10 ^ nat e)" by (simp add: power_int_def)
    then have h: "half = s * 10 ^ nat e" by (simp only: half ceiling_of_int)
    have big: "2 ^ 63 \<le> half" if "e > 18"
    proof -
      have "(10 :: int) ^ 19 \<le> 10 ^ nat e" using that by (intro power_increasing) simp_all
      then have "1 * 10 ^ 19 \<le> s * 10 ^ nat e" using s by (intro mult_mono) simp_all
      then show ?thesis by (simp add: h)
    qed
    have "scale_up (nat e) s = (if half \<le> 2 ^ 63 - 1 then Inr half else Inl ASTL_STATUS_BAD_CONFIGURATION)"
      using scale_up_exact [OF s(1), of "nat e"] s(2) by (simp add: h)
    then show ?thesis using True big by (auto simp: code)
  next
    case False
    then have p: "rat_of_int s * 10 powi e = rat_of_int s / rat_of_int (10 ^ nat (- e))"
      by (simp add: power_int_def field_simps)
    have h: "half = (s + (10 ^ nat (- e) - 1)) div 10 ^ nat (- e)" unfolding half p by (rule ceiling_div) simp
    show ?thesis
    proof (cases "e < - 11")
      case True
      have "(10 :: int) ^ 12 \<le> 10 ^ nat (- e)" using True by (intro power_increasing) simp_all
      then have "s \<le> 10 ^ nat (- e)" using s(2) by simp
      then have "half = 1" unfolding h using s(1) by (intro div_pos_pos_trivial_one)
      then show ?thesis using True False by (simp add: code)
    next
      case near: False
      have "0 \<le> (s - 1) * (10 ^ nat (- e) - 1)" using s(1) by (intro mult_nonneg_nonneg) simp_all
      then have "s + (10 ^ nat (- e) - 1) \<le> s * 10 ^ nat (- e)" by (simp add: algebra_simps)
      then have "half \<le> s" using zdiv_mono1 [of "s + (10 ^ nat (- e) - 1)" "s * 10 ^ nat (- e)" "10 ^ nat (- e)"] by (simp add: h)
      then have "half < 2 ^ 63" using s(2) by simp
      then show ?thesis using near False s(1) by (simp add: code scale_down_exact h)
    qed
  qed
  then show ?thesis using False by (simp add: half_def)
qed

section \<open>Comparing offsets\<close>

text \<open>The offset of a pair of clock values, in units that need no division.\<close>

definition offset :: "32 word \<Rightarrow> 64 word \<times> int \<Rightarrow> int" where
  "offset rate pair = snd pair * uint rate - 1000000 * uint (fst pair)"

definition HasSmallerOffset :: "64 word \<Rightarrow> int \<Rightarrow> clock_correlation \<Rightarrow> 32 word \<Rightarrow> bool" where
  "HasSmallerOffset native raw_ns best rate =
    (let best_raw_ns = raw_monotonic_at_start best in
     if raw_ns < best_raw_ns then True
     else
       let raw_delta = (word_of_int raw_ns :: 64 word) - word_of_int best_raw_ns;
           native_delta = native - native_at_start best;
           raw_milliseconds = raw_delta div 1000000;
           native_milliseconds = native_delta div ucast rate in
       if raw_milliseconds \<noteq> native_milliseconds then raw_milliseconds < native_milliseconds
       else (raw_delta mod 1000000) * ucast rate < (native_delta mod ucast rate) * 1000000)"

lemma compare_quotients:
  fixes a b M R :: int
  assumes "0 < M" "0 < R"
  shows "a * R < b * M \<longleftrightarrow> (if a div M \<noteq> b div R then a div M < b div R else (a mod M) * R < (b mod R) * M)"
proof -
  have a: "M * (a div M) + a mod M = a" and b: "R * (b div R) + b mod R = b" by (simp_all only: mult_div_mod_eq)
  have am: "0 \<le> a mod M" "a mod M < M" and bm: "0 \<le> b mod R" "b mod R < R" using assms by simp_all
  have split: "(M * q + r) * R = M * R * q + r * R" "(R * q + r) * M = M * R * q + r * M" for q r :: int
    by (simp_all add: algebra_simps)
  have ea: "a * R = M * R * (a div M) + (a mod M) * R" using split(1) [of "a div M" "a mod M"] by (simp only: a)
  have eb: "b * M = M * R * (b div R) + (b mod R) * M" using split(2) [of "b div R" "b mod R"] by (simp only: b)
  have ra: "0 \<le> (a mod M) * R" "(a mod M) * R < M * R" using am assms by simp_all
  have rb: "0 \<le> (b mod R) * M" "(b mod R) * M < M * R" using bm assms by (simp_all add: mult.commute)
  have apart: "M * R * x + M * R \<le> M * R * y" if "x < y" for x y :: int
  proof -
    have "M * R * (x + 1) \<le> M * R * y" using that assms by (intro mult_left_mono) simp_all
    then show ?thesis by (simp add: algebra_simps)
  qed
  show ?thesis
  proof (cases "a div M" "b div R" rule: linorder_cases)
    case less
    then show ?thesis using apart [OF less] ra rb by (simp add: ea eb)
  next
    case equal
    then show ?thesis by (simp add: ea eb)
  next
    case greater
    then show ?thesis using apart [OF greater] ra rb by (simp add: ea eb)
  qed
qed

lemma uint_sub_le: "(y :: 64 word) \<le> x \<Longrightarrow> uint (x - y) = uint x - uint y"
  by (simp add: uint_sub_lem word_le_def)

lemma smaller_offset_exact:
  assumes "rate \<noteq> 0" "native_at_start best \<le> native"
    "- (2 ^ 63) \<le> raw_ns" "raw_ns < 2 ^ 63" "- (2 ^ 63) \<le> raw_monotonic_at_start best" "raw_monotonic_at_start best < 2 ^ 63"
  shows "HasSmallerOffset native raw_ns best rate \<longleftrightarrow>
    offset rate (native, raw_ns) < offset rate (native_at_start best, raw_monotonic_at_start best)"
proof -
  let ?R = "uint rate" and ?b = "uint native - uint (native_at_start best)"
  let ?a = "raw_ns - raw_monotonic_at_start best"
  have "?R \<noteq> 0" using assms(1) by (simp add: uint_0_iff)
  then have R: "0 < ?R" "?R < 2 ^ 32" using uint_lt2p [of rate] by (simp_all add: order_less_le)
  have b: "uint (native - native_at_start best) = ?b" using assms(2) by (rule uint_sub_le)
  have b0: "0 \<le> ?b" using assms(2) by (simp add: word_le_def)
  have spec: "offset rate (native, raw_ns) < offset rate (native_at_start best, raw_monotonic_at_start best) \<longleftrightarrow> ?a * ?R < ?b * 1000000"
    by (simp add: offset_def algebra_simps)
  show ?thesis
  proof (cases "raw_ns < raw_monotonic_at_start best")
    case True
    then have "?a * ?R < 0" using R by (simp add: mult_neg_pos)
    moreover have "0 \<le> ?b * 1000000" using b0 by (intro mult_nonneg_nonneg) simp_all
    ultimately have "?a * ?R < ?b * 1000000" by (rule less_le_trans)
    then show ?thesis using True spec by (simp add: HasSmallerOffset_def)
  next
    case False
    have a: "uint ((word_of_int raw_ns :: 64 word) - word_of_int (raw_monotonic_at_start best)) = ?a"
    proof -
      have "0 \<le> ?a" "?a < 2 ^ 64" using False assms by simp_all
      then show ?thesis by (intro word_of_int_inverse) simp_all
    qed
    have rate64: "uint (ucast rate :: 64 word) = ?R" by (simp add: uint_up_ucast is_up)
    have small: "uint ((x mod 1000000) * (ucast rate :: 64 word)) = (uint x mod 1000000) * ?R" for x :: "64 word"
    proof -
      have "(uint x mod 1000000) * ?R \<le> 1000000 * 2 ^ 32" using R by (intro mult_mono) (simp_all add: order_less_imp_le)
      then have "uint (x mod 1000000) * uint (ucast rate :: 64 word) < 2 ^ LENGTH(64)" by (simp add: uint_mod rate64)
      from iffD1 [OF uint_mult_lem this] show ?thesis by (simp add: uint_mod rate64)
    qed
    have small': "uint ((x mod (ucast rate :: 64 word)) * 1000000) = (uint x mod ?R) * 1000000" for x :: "64 word"
    proof -
      have "uint x mod ?R \<le> 2 ^ 32" using R(2) pos_mod_bound [OF R(1), of "uint x"] by linarith
      then have "(uint x mod ?R) * 1000000 \<le> 2 ^ 32 * 1000000" by simp
      then have "uint (x mod (ucast rate :: 64 word)) * uint (1000000 :: 64 word) < 2 ^ LENGTH(64)" by (simp add: uint_mod rate64)
      from iffD1 [OF uint_mult_lem this] show ?thesis by (simp add: uint_mod rate64)
    qed
    have "HasSmallerOffset native raw_ns best rate \<longleftrightarrow>
        (if ?a div 1000000 \<noteq> ?b div ?R then ?a div 1000000 < ?b div ?R else (?a mod 1000000) * ?R < (?b mod ?R) * 1000000)"
      using False by (simp add: HasSmallerOffset_def Let_def word_less_def small small' a b uint_div rate64 word_uint_eq_iff)
    also have "\<dots> \<longleftrightarrow> ?a * ?R < ?b * 1000000" by (rule compare_quotients [symmetric]) (simp_all only: R(1) zero_less_numeral)
    finally show ?thesis by (simp only: spec)
  qed
qed

section \<open>The running minimum\<close>

record correlation_minimum =
  cm_rate :: "32 word"
  cm_best :: "clock_correlation option"
  cm_last_native :: "64 word"
  cm_count :: nat

definition ClockCorrelationMinimum :: "32 word \<Rightarrow> correlation_minimum" where
  "ClockCorrelationMinimum rate = \<lparr>cm_rate = rate, cm_best = None, cm_last_native = 0, cm_count = 0\<rparr>"

definition reduced_correlation :: "32 word \<Rightarrow> 64 word \<times> int \<Rightarrow> clock_correlation" where
  "reduced_correlation rate pair =
    (let divisor = gcd kNanosecondsPerMillisecond (uint rate) in
     \<lparr>raw_monotonic_at_start = snd pair, native_at_start = fst pair,
      ticks = \<lparr>tick_num = kNanosecondsPerMillisecond div divisor, tick_den = uint rate div divisor\<rparr>\<rparr>)"

definition ConsiderSample :: "64 word \<Rightarrow> int \<Rightarrow> correlation_minimum \<Rightarrow> astl_status \<times> correlation_minimum" where
  "ConsiderSample native raw m =
    (if cm_rate m = 0 \<or> native = 0 \<or> (cm_best m \<noteq> None \<and> native < cm_last_native m) then (ASTL_STATUS_BAD_CONFIGURATION, m)
     else
       let best = (case cm_best m of
             None \<Rightarrow> Some (reduced_correlation (cm_rate m) (native, raw))
           | Some b \<Rightarrow> if HasSmallerOffset native raw b (cm_rate m) then Some (reduced_correlation (cm_rate m) (native, raw)) else Some b);
           count = (if native \<noteq> cm_last_native m then Suc (cm_count m) else cm_count m) in
       (ASTL_STATUS_SUCCESS, m\<lparr>cm_best := best, cm_count := count, cm_last_native := native\<rparr>))"

definition Minimum_Correlation :: "correlation_minimum \<Rightarrow> clock_correlation result" where
  "Minimum_Correlation m = (case cm_best m of None \<Rightarrow> Inl ASTL_STATUS_BAD_CONFIGURATION | Some b \<Rightarrow> Inr b)"

text \<open>All pairs of a collection, the first refusal ending it.\<close>

fun consider_all :: "(64 word \<times> int) list \<Rightarrow> correlation_minimum \<Rightarrow> astl_status \<times> correlation_minimum" where
  "consider_all [] m = (ASTL_STATUS_SUCCESS, m)"
| "consider_all ((native, raw) # pairs) m =
    (let (status, m') = ConsiderSample native raw m in
     if status \<noteq> ASTL_STATUS_SUCCESS then (status, m') else consider_all pairs m')"

text \<open>The pairs of a counter that runs: not zero, never backwards, at times of 64 bits.\<close>

definition running_pairs :: "(64 word \<times> int) list \<Rightarrow> bool" where
  "running_pairs pairs \<longleftrightarrow> sorted_wrt (\<le>) (map fst pairs) \<and> (\<forall>(native, raw)\<in>set pairs. native \<noteq> 0 \<and> - (2 ^ 63) \<le> raw \<and> raw < 2 ^ 63)"

lemma arg_min_list_snoc:
  "xs \<noteq> [] \<Longrightarrow> arg_min_list f (xs @ [x]) = (if f x < f (arg_min_list f xs) then x else arg_min_list f xs)"
  by (induction f xs rule: arg_min_list.induct) (auto simp: Let_def)

lemma consider_all_append:
  "consider_all (xs @ ys) m = (let (status, m') = consider_all xs m in
     if status \<noteq> ASTL_STATUS_SUCCESS then (status, m') else consider_all ys m')"
proof (induction xs arbitrary: m)
  case (Cons p xs)
  then show ?case by (cases p) (simp add: case_prod_beta' Let_def)
qed simp

lemma remdups_last_same: "xs \<noteq> [] \<Longrightarrow> last xs = x \<Longrightarrow> length (remdups (xs @ [x])) = length (remdups xs)"
  by (metis append_Nil2 last_in_set length_remdups_card_conv insert_absorb list.simps(15) set_append Un_insert_right empty_set sup_bot_right)

lemma sorted_last_max: "sorted_wrt (\<le>) xs \<Longrightarrow> x \<in> set xs \<Longrightarrow> x \<le> last (xs :: 64 word list)"
  by (induction xs) auto

lemma consider_all_minimum:
  assumes "rate \<noteq> 0" "running_pairs pairs"
  shows "consider_all pairs (ClockCorrelationMinimum rate) = (ASTL_STATUS_SUCCESS,
    \<lparr>cm_rate = rate, cm_best = (if pairs = [] then None else Some (reduced_correlation rate (arg_min_list (offset rate) pairs))),
     cm_last_native = (if pairs = [] then 0 else fst (last pairs)), cm_count = length (remdups (map fst pairs))\<rparr>)"
  using assms(2)
proof (induction pairs rule: rev_induct)
  case Nil
  then show ?case by (simp add: ClockCorrelationMinimum_def)
next
  case (snoc p pairs)
  obtain native raw where p: "p = (native, raw)" by (meson surj_pair)
  have run: "running_pairs pairs" and native: "native \<noteq> 0" and raw: "- (2 ^ 63) \<le> raw" "raw < 2 ^ 63"
    and up: "\<forall>q\<in>set pairs. fst q \<le> native"
    using snoc.prems by (auto simp: running_pairs_def p sorted_wrt_append)
  note IH = snoc.IH [OF run]
  show ?case
  proof (cases "pairs = []")
    case True
    then show ?thesis
      using native assms(1) by (simp add: p ClockCorrelationMinimum_def ConsiderSample_def Let_def)
  next
    case False
    let ?best = "arg_min_list (offset rate) pairs"
    have best: "?best \<in> set pairs" using False by (rule arg_min_list_in)
    have "fst ?best \<le> native" "- (2 ^ 63) \<le> snd ?best" "snd ?best < 2 ^ 63"
      using best up run by (auto simp: running_pairs_def)
    then have smaller: "HasSmallerOffset native raw (reduced_correlation rate ?best) rate \<longleftrightarrow> offset rate p < offset rate ?best"
      using smaller_offset_exact [OF assms(1), of "reduced_correlation rate ?best" native raw] raw
      by (simp add: reduced_correlation_def Let_def p)
    have last: "fst (last pairs) \<le> native" using up False by simp
    have count: "length (remdups (map fst pairs @ [native])) =
        (if native \<noteq> fst (last pairs) then Suc (length (remdups (map fst pairs))) else length (remdups (map fst pairs)))"
    proof (cases "native = fst (last pairs)")
      case True
      then show ?thesis using remdups_last_same [of "map fst pairs" native] False by (simp add: last_map)
    next
      case other: False
      have "native \<notin> set (map fst pairs)"
      proof
        assume "native \<in> set (map fst pairs)"
        then obtain q where q: "q \<in> set pairs" "fst q = native" by auto
        have "fst q \<le> last (map fst pairs)"
          using run q(1) by (intro sorted_last_max) (auto simp: running_pairs_def)
        then have "fst q \<le> fst (last pairs)" using False by (simp add: last_map)
        then show False using last other q by simp
      qed
      then show ?thesis using other by (simp add: length_remdups_card_conv)
    qed
    show ?thesis
      using False native last smaller count assms(1)
      by (simp add: consider_all_append IH ConsiderSample_def Let_def arg_min_list_snoc p not_less)
  qed
qed

lemma reduced_ratio:
  "tick_num (ticks (reduced_correlation rate pair)) * uint rate = tick_den (ticks (reduced_correlation rate pair)) * 1000000"
  by (simp add: reduced_correlation_def Let_def kNanosecondsPerMillisecond_def div_mult_swap dvd_div_mult mult.commute)

text \<open>Pairs that are all accepted are those of a counter that runs.\<close>

lemma accepted_running:
  assumes "\<forall>(native, raw)\<in>set pairs. - (2 ^ 63) \<le> raw \<and> raw < 2 ^ 63" "rate \<noteq> 0"
    "consider_all pairs (ClockCorrelationMinimum rate) = (ASTL_STATUS_SUCCESS, m)"
  shows "running_pairs pairs"
  using assms(1,3)
proof (induction pairs arbitrary: m rule: rev_induct)
  case Nil
  then show ?case by (simp add: running_pairs_def)
next
  case (snoc p pairs)
  obtain native raw where p: "p = (native, raw)" by (meson surj_pair)
  obtain m1 where m1: "consider_all pairs (ClockCorrelationMinimum rate) = (ASTL_STATUS_SUCCESS, m1)"
      "ConsiderSample native raw m1 = (ASTL_STATUS_SUCCESS, m)"
    using snoc.prems(2) by (auto simp: consider_all_append p Let_def split: prod.splits if_splits)
  have run: "running_pairs pairs" using snoc.IH [OF _ m1(1)] snoc.prems(1) by simp
  have "native \<noteq> 0" "pairs \<noteq> [] \<longrightarrow> fst (last pairs) \<le> native"
    using m1(2) consider_all_minimum [OF assms(2) run] m1(1)
    by (auto simp: ConsiderSample_def split: if_splits)
  moreover have "\<forall>q\<in>set pairs. fst q \<le> fst (last pairs)"
    using run sorted_last_max [of "map fst pairs"] by (cases "pairs = []") (auto simp: running_pairs_def last_map)
  ultimately have "\<forall>q\<in>set pairs. fst q \<le> native" by (cases "pairs = []") (auto intro: order_trans)
  then show ?case
    using run \<open>native \<noteq> 0\<close> snoc.prems(1) by (auto simp: running_pairs_def p sorted_wrt_append)
qed

text \<open>
  C20: over the readings of a counter that runs, none is refused, and the correlation kept is that
  of the reading whose offset of raw time and native time is the smallest, compared exactly and
  without overflow for any rate and any 64-bit clock values, the first one among equals; its ratio
  is the period of the counter in nanoseconds, in lowest terms; the count is the number of different
  time stamps seen.
\<close>

theorem correlation_minimum_exact:
  assumes "rate \<noteq> 0" "running_pairs pairs" "pairs \<noteq> []"
  shows "let (status, m) = consider_all pairs (ClockCorrelationMinimum rate) in
    status = ASTL_STATUS_SUCCESS \<and> cm_count m = card (fst ` set pairs)
    \<and> (\<exists>before native raw after k. pairs = before @ (native, raw) # after \<and> Minimum_Correlation m = Inr k
        \<and> native_at_start k = native \<and> raw_monotonic_at_start k = raw
        \<and> tick_num (ticks k) * uint rate = tick_den (ticks k) * 1000000 \<and> coprime (tick_num (ticks k)) (tick_den (ticks k))
        \<and> (\<forall>pair\<in>set before. offset rate (native, raw) < offset rate pair)
        \<and> (\<forall>pair\<in>set after. offset rate (native, raw) \<le> offset rate pair))"
proof -
  let ?p = "arg_min_list (offset rate) pairs"
  let ?k = "reduced_correlation rate ?p"
  have min: "\<exists>before after. xs = before @ arg_min_list f xs # after \<and> (\<forall>y\<in>set before. f (arg_min_list f xs) < f y)
      \<and> (\<forall>y\<in>set after. f (arg_min_list f xs) \<le> f y)" if "xs \<noteq> []" for f :: "64 word \<times> int \<Rightarrow> int" and xs
    using that
  proof (induction xs rule: rev_induct)
    case (snoc x xs)
    show ?case
    proof (cases "xs = []")
      case True
      then show ?thesis by (intro exI [of _ "[]"]) simp
    next
      case False
      obtain before after where IH: "xs = before @ arg_min_list f xs # after" "\<forall>y\<in>set before. f (arg_min_list f xs) < f y"
          "\<forall>y\<in>set after. f (arg_min_list f xs) \<le> f y" using snoc.IH [OF False] by blast
      have all: "\<forall>y\<in>set xs. f (arg_min_list f xs) \<le> f y" using f_arg_min_list_f [OF False, of f] by simp
      show ?thesis
      proof (cases "f x < f (arg_min_list f xs)")
        case True
        then have "\<forall>y\<in>set xs. f x < f y" using all by fastforce
        then show ?thesis using True False by (intro exI [of _ xs] exI [of _ "[]"]) (simp add: arg_min_list_snoc)
      next
        case geq: False
        then show ?thesis
          using IH False by (intro exI [of _ before] exI [of _ "after @ [x]"]) (auto simp: arg_min_list_snoc)
      qed
    qed
  qed simp
  obtain before after where split: "pairs = before @ ?p # after" "\<forall>pair\<in>set before. offset rate ?p < offset rate pair"
      "\<forall>pair\<in>set after. offset rate ?p \<le> offset rate pair" using min [OF assms(3), of "offset rate"] by blast
  have ratio: "tick_num (ticks ?k) * uint rate = tick_den (ticks ?k) * 1000000" by (rule reduced_ratio)
  have low: "coprime (tick_num (ticks ?k)) (tick_den (ticks ?k))"
    using div_gcd_coprime [of 1000000 "uint rate"] by (simp add: reduced_correlation_def Let_def kNanosecondsPerMillisecond_def)
  have "Minimum_Correlation (snd (consider_all pairs (ClockCorrelationMinimum rate))) = Inr ?k"
    using consider_all_minimum [OF assms(1,2)] assms(3) by (simp add: Minimum_Correlation_def)
  moreover have "native_at_start ?k = fst ?p" "raw_monotonic_at_start ?k = snd ?p" by (simp_all add: reduced_correlation_def Let_def)
  ultimately have "\<exists>before native raw after k. pairs = before @ (native, raw) # after
        \<and> Minimum_Correlation (snd (consider_all pairs (ClockCorrelationMinimum rate))) = Inr k
        \<and> native_at_start k = native \<and> raw_monotonic_at_start k = raw
        \<and> tick_num (ticks k) * uint rate = tick_den (ticks k) * 1000000 \<and> coprime (tick_num (ticks k)) (tick_den (ticks k))
        \<and> (\<forall>pair\<in>set before. offset rate (native, raw) < offset rate pair)
        \<and> (\<forall>pair\<in>set after. offset rate (native, raw) \<le> offset rate pair)"
    using split ratio low
    by (intro exI [of _ before] exI [of _ "fst ?p"] exI [of _ "snd ?p"] exI [of _ after] exI [of _ ?k]) simp
  moreover have "length (remdups (map fst pairs)) = card (fst ` set pairs)" by (simp add: length_remdups_card_conv)
  ultimately show ?thesis using consider_all_minimum [OF assms(1,2)] by simp
qed

theorem correlation_minimum_exact_witness:
  "let (status, m) = consider_all [(10, 5), (20, 7), (30, 9), (30, 9)] (ClockCorrelationMinimum 1000000)
   in status = ASTL_STATUS_SUCCESS \<and> cm_count m = 3 \<and> (\<exists>k. Minimum_Correlation m = Inr k \<and> native_at_start k = 30)"
proof -
  let ?pairs = "[(10, 5), (20, 7), (30, 9), (30, 9)] :: (64 word \<times> int) list"
  obtain status m where run: "consider_all ?pairs (ClockCorrelationMinimum 1000000) = (status, m)" by (meson surj_pair)
  have ok: "running_pairs ?pairs" by (simp add: running_pairs_def)
  have exact: "status = ASTL_STATUS_SUCCESS \<and> cm_count m = card (fst ` set ?pairs)
    \<and> (\<exists>before native raw after k. ?pairs = before @ (native, raw) # after \<and> Minimum_Correlation m = Inr k
        \<and> native_at_start k = native \<and> raw_monotonic_at_start k = raw
        \<and> tick_num (ticks k) * uint (1000000 :: 32 word) = tick_den (ticks k) * 1000000 \<and> coprime (tick_num (ticks k)) (tick_den (ticks k))
        \<and> (\<forall>pair\<in>set before. offset 1000000 (native, raw) < offset 1000000 pair)
        \<and> (\<forall>pair\<in>set after. offset 1000000 (native, raw) \<le> offset 1000000 pair))"
    using correlation_minimum_exact [OF _ ok, of 1000000] unfolding run Let_def prod.case by simp
  then have facts: "status = ASTL_STATUS_SUCCESS" "cm_count m = 3" by simp_all
  obtain before native raw after k where k: "?pairs = before @ (native, raw) # after" "Minimum_Correlation m = Inr k"
      "native_at_start k = native"
      "\<forall>pair\<in>set before. offset 1000000 (native, raw) < offset 1000000 pair"
      "\<forall>pair\<in>set after. offset 1000000 (native, raw) \<le> offset 1000000 pair"
    using exact by blast
  have "(30, 9) \<in> set (before @ (native, raw) # after)" "(native, raw) \<in> set ?pairs"
    unfolding k(1) [symmetric] by simp (simp add: k(1))
  then have "native = 30" using k(4,5) by (auto simp: offset_def)
  then show ?thesis using facts k(2,3) unfolding run by simp
qed

end
