(* ===== verification/Scmi_Ioctl.thy ===== *)
theory Scmi_Ioctl
  imports Scmi_Collector Scmi_Correlation
begin

text \<open>
  The SCMI collector over the ioctl interface of a telemetry device (src/impl/scmi/
  scmi_ioctl_collector and its parts for the configuration, the data events, the sampling, the
  single read and the clock).  The device is the enable byte of the telemetry and the enable words
  of each data event; what the other ioctls answer, the clock and the sink are parameters, and an
  ioctl that sets a configuration and succeeds has stored it.
\<close>

section \<open>The device and the collector\<close>

record ioctl_device =
  id_telemetry :: "8 word"
  id_events :: "32 word \<Rightarrow> 32 word \<times> 32 word"
  id_reads :: nat

record scmi_tlm_de_info =
  di_ts_rate :: "32 word"
  di_grouped :: bool
  di_grp_id :: "32 word"

record scmi_tlm_de_sample =
  ds_id :: "32 word"
  ds_tstamp :: "64 word"
  ds_val :: "64 word"

text \<open>
  Probe and the queries after it; GetConfig and SetConfig of the telemetry, GetDataEventConfig and
  SetDataEventConfig of an event; the active interval of the device (False) or of a group; the n-th
  reading of an event, and of all events into a buffer; the clock at the n-th reading.
\<close>

record 't ioctl_env =
  ie_probe :: astl_status
  ie_version :: "unit result"
  ie_event_count :: "32 word result"
  ie_single_read :: "bool result"
  ie_get_config :: astl_status
  ie_set_config :: astl_status
  ie_get_event :: "32 word \<Rightarrow> astl_status"
  ie_set_event :: "32 word \<Rightarrow> astl_status"
  ie_info :: "32 word \<Rightarrow> astl_status \<times> scmi_tlm_de_info"
  ie_interval :: "bool \<times> 32 word \<Rightarrow> astl_status \<times> scmi_tlm_update_interval"
  ie_read :: "nat \<Rightarrow> 32 word \<Rightarrow> astl_status \<times> scmi_tlm_de_sample"
  ie_read_all :: "nat \<Rightarrow> 32 word \<Rightarrow> astl_status \<times> scmi_tlm_de_sample list"
  ie_now :: "nat \<Rightarrow> int"
  ie_order :: "32 word list \<Rightarrow> 32 word list"
  ie_software_clock :: bool
  ie_accept :: "('t \<times> raw_sample list) list \<Rightarrow> astl_status"

record 't ioctl_collector =
  ic_sink :: bool
  ic_state :: CollectionLifecycleState
  ic_configuration :: "('t, scmi_operation) collection_configuration option"
  ic_data_events :: "scmi_data_event list"
  ic_sampler :: "periodic_sampler option"
  ic_previous :: "32 word \<rightharpoonup> 64 word"
  ic_software_clock :: bool
  ic_sunk :: "('t \<times> raw_sample list) list"

type_synonym 't ioctl = "'t ioctl_collector \<times> ioctl_device"

definition ScmiIoctlCollector :: "'t ioctl_collector" where
  "ScmiIoctlCollector =
    \<lparr>ic_sink = False, ic_state = UNCONFIGURED, ic_configuration = None, ic_data_events = [], ic_sampler = None,
     ic_previous = Map.empty, ic_software_clock = False, ic_sunk = []\<rparr>"

definition Ioctl_SetRawSampleSink :: "bool \<Rightarrow> 't ioctl_collector \<Rightarrow> 't ioctl_collector" where
  "Ioctl_SetRawSampleSink sink c = c\<lparr>ic_sink := sink\<rparr>"

text \<open>A call that answers a status and fills its argument.\<close>

definition checked :: "astl_status \<times> 'a \<Rightarrow> 'a result" where
  "checked answer = (if fst answer \<noteq> ASTL_STATUS_SUCCESS then Inl (fst answer) else Inr (snd answer))"

definition GetDataEventConfig :: "'t ioctl_env \<Rightarrow> 32 word \<Rightarrow> ioctl_device \<Rightarrow> (32 word \<times> 32 word) result" where
  "GetDataEventConfig env i d = (if ie_get_event env i \<noteq> ASTL_STATUS_SUCCESS then Inl (ie_get_event env i) else Inr (id_events d i))"

definition SetDataEventConfig :: "'t ioctl_env \<Rightarrow> 32 word \<Rightarrow> 32 word \<times> 32 word \<Rightarrow> ioctl_device \<Rightarrow> astl_status \<times> ioctl_device" where
  "SetDataEventConfig env i config d =
    (ie_set_event env i, if ie_set_event env i = ASTL_STATUS_SUCCESS then d\<lparr>id_events := (id_events d)(i := config)\<rparr> else d)"

section \<open>Enabling and restoring\<close>

definition EnableTelemetry :: "'t ioctl_env \<Rightarrow> ioctl_device \<Rightarrow> astl_status \<times> ioctl_device" where
  "EnableTelemetry env d =
    (if ie_get_config env \<noteq> ASTL_STATUS_SUCCESS then (ie_get_config env, d)
     else if id_telemetry d \<noteq> 0 then (ASTL_STATUS_SUCCESS, d)
     else (ie_set_config env, if ie_set_config env = ASTL_STATUS_SUCCESS then d\<lparr>id_telemetry := 1\<rparr> else d))"

text \<open>The state an event is put back to: a timestamp that the collector did not touch keeps its word.\<close>

definition restored_config :: "scmi_data_event \<Rightarrow> 32 word \<times> 32 word \<Rightarrow> 32 word \<times> 32 word" where
  "restored_config e config =
    (if de_originally_enabled e then 1 else 0,
     case de_timestamp_enabled e of None \<Rightarrow> snd config | Some on \<Rightarrow> if on then 1 else 0)"

fun Ioctl_RestoreDataEventEnabledState :: "'t ioctl_env \<Rightarrow> scmi_data_event list \<Rightarrow> ioctl_device \<Rightarrow> astl_status \<times> ioctl_device" where
  "Ioctl_RestoreDataEventEnabledState env [] d = (ASTL_STATUS_SUCCESS, d)"
| "Ioctl_RestoreDataEventEnabledState env (e # es) d =
    (case GetDataEventConfig env (de_id e) d of
       Inl err \<Rightarrow> (err, d)
     | Inr config \<Rightarrow>
        (let (status, d1) = SetDataEventConfig env (de_id e) (restored_config e config) d in
         if status \<noteq> ASTL_STATUS_SUCCESS then (status, d1) else Ioctl_RestoreDataEventEnabledState env es d1))"

text \<open>What the collector remembers of an event, and the words it sets.\<close>

definition original_event :: "bool \<Rightarrow> 32 word \<Rightarrow> 32 word \<times> 32 word \<Rightarrow> scmi_tlm_de_info \<Rightarrow> scmi_data_event" where
  "original_event software i config info =
    \<lparr>de_id = i, de_originally_enabled = (fst config \<noteq> 0),
     de_timestamp_enabled = (if software then None else Some (snd config \<noteq> 0)),
     de_timestamp_rate = (if software then None else Some (if di_ts_rate info \<noteq> 0 then di_ts_rate info else kDefaultScmiTimestampRate))\<rparr>"

definition enabled_config :: "bool \<Rightarrow> 32 word \<times> 32 word \<Rightarrow> 32 word \<times> 32 word" where
  "enabled_config software config = (1, if software then snd config else 1)"

fun Ioctl_EnableDataEvents :: "'t ioctl_env \<Rightarrow> bool \<Rightarrow> 32 word list \<Rightarrow> scmi_data_event list \<Rightarrow> ioctl_device
    \<Rightarrow> scmi_data_event list result \<times> ioctl_device" where
  "Ioctl_EnableDataEvents env software [] enabled d = (Inr enabled, d)"
| "Ioctl_EnableDataEvents env software (i # ids) enabled d =
    (case GetDataEventConfig env i d of
       Inl e \<Rightarrow> (Inl e, snd (Ioctl_RestoreDataEventEnabledState env enabled d))
     | Inr config \<Rightarrow>
        (case checked (ie_info env i) of
           Inl e \<Rightarrow> (Inl e, snd (Ioctl_RestoreDataEventEnabledState env enabled d))
         | Inr info \<Rightarrow>
            (let (status, d1) = SetDataEventConfig env i (enabled_config software config) d in
             if status \<noteq> ASTL_STATUS_SUCCESS then (Inl status, snd (Ioctl_RestoreDataEventEnabledState env enabled d1))
             else Ioctl_EnableDataEvents env software ids (enabled @ [original_event software i config info]) d1)))"

definition Ioctl_RollbackConfigurationState :: "'t ioctl_env \<Rightarrow> 't ioctl \<Rightarrow> 't ioctl" where
  "Ioctl_RollbackConfigurationState env x =
    (let (c, d) = x in
     (c\<lparr>ic_data_events := [], ic_previous := Map.empty, ic_configuration := None, ic_state := UNCONFIGURED\<rparr>,
      if ic_data_events c \<noteq> [] then snd (Ioctl_RestoreDataEventEnabledState env (ic_data_events c) d) else d))"

section \<open>Sampling\<close>

definition EmitScmiSample :: "'t ioctl_env \<Rightarrow> int \<Rightarrow> scmi_read_operation \<Rightarrow> scmi_tlm_de_sample \<Rightarrow> 't ioctl_collector
    \<Rightarrow> astl_status \<times> 't ioctl_collector" where
  "EmitScmiSample env now r sample c =
    (let timestamp = (if ic_software_clock c then word_of_int now else ds_tstamp sample) in
     if ic_previous c (sr_event r) = Some timestamp then (ASTL_STATUS_SUCCESS, c)
     else
       let c1 = c\<lparr>ic_previous := (ic_previous c)(sr_event r \<mapsto> timestamp)\<rparr> in
       if \<not> ic_sink c then (ASTL_STATUS_SUCCESS, c1)
       else
         let sunk = ic_sunk c @ [(cfg_target (the (ic_configuration c)),
               [\<lparr>rs_operation_id = sr_id r, rs_value = VU64 (ds_val sample), rs_raw_tick = timestamp\<rparr>])] in
         (ie_accept env sunk, c1\<lparr>ic_sunk := sunk\<rparr>))"

definition Ioctl_ExecuteScmiReadOperation :: "'t ioctl_env \<Rightarrow> scmi_read_operation \<Rightarrow> 't ioctl \<Rightarrow> astl_status \<times> 't ioctl" where
  "Ioctl_ExecuteScmiReadOperation env r x =
    (let (c, d) = x; n = id_reads d; d1 = d\<lparr>id_reads := Suc n\<rparr> in
     case checked (ie_read env n (sr_event r)) of
       Inl e \<Rightarrow> (e, c, d1)
     | Inr sample \<Rightarrow> (let (status, c1) = EmitScmiSample env (ie_now env n) r sample c in (status, c1, d1)))"

fun Ioctl_ExecuteCollectionOperations :: "'t ioctl_env \<Rightarrow> scmi_operation list \<Rightarrow> 't ioctl \<Rightarrow> astl_status \<times> 't ioctl" where
  "Ioctl_ExecuteCollectionOperations env [] x = (ASTL_STATUS_SUCCESS, x)"
| "Ioctl_ExecuteCollectionOperations env (OtherScmiOperation i # ops) x = (ASTL_STATUS_BAD_ARGUMENT, x)"
| "Ioctl_ExecuteCollectionOperations env (ScmiRead r # ops) x =
    (let (status, x1) = Ioctl_ExecuteScmiReadOperation env r x in
     if status \<noteq> ASTL_STATUS_SUCCESS then (status, x1) else Ioctl_ExecuteCollectionOperations env ops x1)"

text \<open>insert_or_assign in the order of the samples: the last sample of an event counts.\<close>

definition samples_by_id :: "scmi_tlm_de_sample list \<Rightarrow> 32 word \<rightharpoonup> scmi_tlm_de_sample" where
  "samples_by_id samples = map_of (rev (map (\<lambda>s. (ds_id s, s)) samples))"

fun EmitSingleReadSamples :: "'t ioctl_env \<Rightarrow> scmi_operation list \<Rightarrow> (32 word \<rightharpoonup> scmi_tlm_de_sample) \<Rightarrow> 't ioctl
    \<Rightarrow> astl_status \<times> 't ioctl" where
  "EmitSingleReadSamples env [] samples x = (ASTL_STATUS_SUCCESS, x)"
| "EmitSingleReadSamples env (OtherScmiOperation i # ops) samples x = (ASTL_STATUS_BAD_ARGUMENT, x)"
| "EmitSingleReadSamples env (ScmiRead r # ops) samples x =
    (case samples (sr_event r) of
       None \<Rightarrow> (ASTL_STATUS_NO_DATA_COLLECTED, x)
     | Some sample \<Rightarrow>
        (let (c, d) = x; (status, c1) = EmitScmiSample env (ie_now env (id_reads d)) r sample c;
             x1 = (c1, d\<lparr>id_reads := Suc (id_reads d)\<rparr>) in
         if status \<noteq> ASTL_STATUS_SUCCESS then (status, x1) else EmitSingleReadSamples env ops samples x1))"

definition ExecuteSingleReadOperations :: "'t ioctl_env \<Rightarrow> scmi_operation list \<Rightarrow> 't ioctl \<Rightarrow> astl_status \<times> 't ioctl" where
  "ExecuteSingleReadOperations env ops x =
    (case rbind (ie_event_count env) (\<lambda>n. checked (ie_read_all env (id_reads (snd x)) n)) of
       Inl e \<Rightarrow> (e, x)
     | Inr samples \<Rightarrow> EmitSingleReadSamples env ops (samples_by_id samples) x)"

definition SampleCollectionOperations :: "'t ioctl_env \<Rightarrow> scmi_operation list \<Rightarrow> 't ioctl \<Rightarrow> astl_status \<times> 't ioctl" where
  "SampleCollectionOperations env ops x =
    (if ops = [] then (ASTL_STATUS_SUCCESS, x)
     else case ie_single_read env of
         Inl e \<Rightarrow> (e, x)
       | Inr single \<Rightarrow> if single then ExecuteSingleReadOperations env ops x else Ioctl_ExecuteCollectionOperations env ops x)"

section \<open>The commands\<close>

definition ProbeCapabilities :: "'t ioctl_env \<Rightarrow> astl_status" where
  "ProbeCapabilities env =
    (if ie_probe env \<noteq> ASTL_STATUS_SUCCESS then ie_probe env
     else case rbind (ie_version env) (\<lambda>v. rbind (ie_event_count env) (\<lambda>n. ie_single_read env)) of
         Inl e \<Rightarrow> e
       | Inr single \<Rightarrow> ASTL_STATUS_SUCCESS)"

definition PrepareConfiguration :: "'t ioctl_env \<Rightarrow> ('t, scmi_operation) collection_configuration \<Rightarrow> 't ioctl \<Rightarrow> astl_status \<times> 't ioctl" where
  "PrepareConfiguration env cfg x =
    (let (c, d) = x; (status, d1) = EnableTelemetry env d in
     if status \<noteq> ASTL_STATUS_SUCCESS then (status, c, d1)
     else
       let c1 = c\<lparr>ic_configuration := Some cfg, ic_state := CONFIGURED\<rparr> in
       case Ioctl_EnableDataEvents env (ic_software_clock c1) (ie_order env (GetUniqueDataEventIds (cfg_operations cfg))) [] d1 of
         (Inl e, d2) \<Rightarrow> (e, c1, d2)
       | (Inr events, d2) \<Rightarrow>
          (let ops = UpdateReadOperationTimestampRates events (cfg_operations cfg) in
           Ioctl_ExecuteCollectionOperations env (operationsBeforeStart ops)
             (c1\<lparr>ic_data_events := events, ic_configuration := Some (cfg\<lparr>cfg_operations := ops\<rparr>)\<rparr>, d2)))"

definition Ioctl_ConfigureCollection :: "'t ioctl_env \<Rightarrow> ('t, scmi_operation) collection_configuration \<Rightarrow> 't ioctl
    \<Rightarrow> astl_status \<times> 't ioctl" where
  "Ioctl_ConfigureCollection env cfg x =
    (if ic_state (fst x) \<notin> {UNCONFIGURED, CONFIGURED, STOPPED} then (ASTL_STATUS_BAD_CONFIGURATION, x)
     else
       let (c, d) = (if ic_state (fst x) = CONFIGURED then Ioctl_RollbackConfigurationState env x else x);
           x1 = (c\<lparr>ic_software_clock := ie_software_clock env\<rparr>, d);
           (status, x2) = (if ProbeCapabilities env = ASTL_STATUS_SUCCESS then PrepareConfiguration env cfg x1
             else (ProbeCapabilities env, x1)) in
       (status, if status \<noteq> ASTL_STATUS_SUCCESS then Ioctl_RollbackConfigurationState env x2 else x2))"

definition Ioctl_StopIntervalSampling :: "'t ioctl \<Rightarrow> 't ioctl" where
  "Ioctl_StopIntervalSampling x = ((fst x)\<lparr>ic_sampler := None\<rparr>, snd x)"

definition Ioctl_ClearCollectionState :: "'t ioctl_env \<Rightarrow> 't ioctl \<Rightarrow> astl_status \<times> 't ioctl" where
  "Ioctl_ClearCollectionState env x =
    (if ic_state (fst x) = STARTED \<or> ic_state (fst x) = PAUSED then (ASTL_STATUS_COLLECTION_ALREADY_RUNNING, x)
     else (ASTL_STATUS_SUCCESS, Ioctl_RollbackConfigurationState env (Ioctl_StopIntervalSampling x)))"

definition Ioctl_StartIntervalSampling :: "'t ioctl \<Rightarrow> astl_status \<times> 't ioctl" where
  "Ioctl_StartIntervalSampling x =
    (let (c, d) = x in
     if ic_state c \<noteq> CONFIGURED \<and> ic_state c \<noteq> STOPPED \<and> ic_state c \<noteq> PAUSED then (ASTL_STATUS_INTERNAL_ERROR, x)
     else case ic_configuration c of
         None \<Rightarrow> (ASTL_STATUS_INTERNAL_ERROR, x)
       | Some cfg \<Rightarrow>
           if ic_sampler c \<noteq> None then (ASTL_STATUS_INTERNAL_ERROR, x)
           else (ASTL_STATUS_SUCCESS, c\<lparr>ic_sampler := Some \<lparr>ps_interval = cfg_sampling_interval cfg, ps_paused = False\<rparr>\<rparr>, d))"

text \<open>The modes at the start and at the stop; a snapshot may be a single read.\<close>

definition ioctl_start_mode :: "'t ioctl_env \<Rightarrow> ('t, scmi_operation) collection_configuration \<Rightarrow> 't ioctl \<Rightarrow> astl_status \<times> 't ioctl" where
  "ioctl_start_mode env cfg x =
    (let (status, x1) = Ioctl_ExecuteCollectionOperations env (operationsAtStart (cfg_operations cfg)) x in
     if status \<noteq> ASTL_STATUS_SUCCESS then (status, x1)
     else case cfg_mode cfg of
         MODE_IMMEDIATE \<Rightarrow> (ASTL_STATUS_SUCCESS, x1)
       | MODE_SNAPSHOT \<Rightarrow> SampleCollectionOperations env (operationsOnSample (cfg_operations cfg)) x1
       | MODE_SAMPLING \<Rightarrow> Ioctl_StartIntervalSampling x1
       | _ \<Rightarrow> (ASTL_STATUS_BAD_CONFIGURATION, x1))"

definition ioctl_stop_mode :: "'t ioctl_env \<Rightarrow> ('t, scmi_operation) collection_configuration \<Rightarrow> 't ioctl \<Rightarrow> astl_status \<times> 't ioctl" where
  "ioctl_stop_mode env cfg x =
    (let (status, x1) = (case cfg_mode cfg of
           MODE_IMMEDIATE \<Rightarrow> (ASTL_STATUS_SUCCESS, x)
         | MODE_SNAPSHOT \<Rightarrow> SampleCollectionOperations env (operationsOnSample (cfg_operations cfg)) x
         | MODE_SAMPLING \<Rightarrow> (ASTL_STATUS_SUCCESS, x)
         | _ \<Rightarrow> (ASTL_STATUS_BAD_CONFIGURATION, x)) in
     if status \<noteq> ASTL_STATUS_SUCCESS then (status, x1)
     else Ioctl_ExecuteCollectionOperations env (operationsAtStop (cfg_operations cfg)) x1)"

definition Ioctl_StartCollection :: "'t ioctl_env \<Rightarrow> 't ioctl \<Rightarrow> astl_status \<times> 't ioctl" where
  "Ioctl_StartCollection env x =
    (let status = CheckCollectionLifecycleAction (ic_state (fst x)) START in
     if status \<noteq> ASTL_STATUS_SUCCESS then (status, x)
     else case ic_configuration (fst x) of
         None \<Rightarrow> (ASTL_STATUS_BAD_CONFIGURATION, x)
       | Some cfg \<Rightarrow>
          (let (status, c, d) = ioctl_start_mode env cfg ((fst x)\<lparr>ic_previous := Map.empty\<rparr>, snd x) in
           (status, if status = ASTL_STATUS_SUCCESS then c\<lparr>ic_state := STARTED\<rparr> else c, d)))"

definition Ioctl_EmitPauseResumeSample :: "'t ioctl_env \<Rightarrow> raw_sample \<Rightarrow> 't ioctl_collector \<Rightarrow> astl_status \<times> 't ioctl_collector" where
  "Ioctl_EmitPauseResumeSample env marker c =
    (case ic_configuration c of
       None \<Rightarrow> (ASTL_STATUS_SUCCESS, c)
     | Some cfg \<Rightarrow>
         if \<not> ic_sink c then (ASTL_STATUS_SUCCESS, c)
         else let sunk = ic_sunk c @ [(cfg_target cfg, [marker])] in (ie_accept env sunk, c\<lparr>ic_sunk := sunk\<rparr>))"

definition Ioctl_PauseCollection :: "'t ioctl_env \<Rightarrow> 't ioctl \<Rightarrow> astl_status \<times> 't ioctl" where
  "Ioctl_PauseCollection env x =
    (let (c, d) = x;
         (status, state, sampler, c') = PauseCollectionLifecycle (ic_state c) (ic_sampler c)
           (Ioctl_EmitPauseResumeSample env (PauseMarker (ie_now env (id_reads d)))) c in
     (status, c'\<lparr>ic_state := state, ic_sampler := sampler\<rparr>, d))"

definition Ioctl_ResumeCollection :: "'t ioctl_env \<Rightarrow> 't ioctl \<Rightarrow> astl_status \<times> 't ioctl" where
  "Ioctl_ResumeCollection env x =
    (let (c, d) = x;
         (status, state, sampler, c') = ResumeCollectionLifecycle (ic_state c) (ic_sampler c)
           (Ioctl_EmitPauseResumeSample env (ResumeMarker (ie_now env (id_reads d)))) c in
     (status, c'\<lparr>ic_state := state, ic_sampler := sampler\<rparr>, d))"

definition Ioctl_StopCollection :: "'t ioctl_env \<Rightarrow> 't ioctl \<Rightarrow> astl_status \<times> 't ioctl" where
  "Ioctl_StopCollection env x0 =
    (let x = Ioctl_StopIntervalSampling x0;
         status = CheckCollectionLifecycleAction (ic_state (fst x)) STOP in
     if status \<noteq> ASTL_STATUS_SUCCESS then (status, x)
     else case ic_configuration (fst x) of
         None \<Rightarrow> (ASTL_STATUS_BAD_CONFIGURATION, x)
       | Some cfg \<Rightarrow>
          (let (status, c, d) = ioctl_stop_mode env cfg x in
           if status \<noteq> ASTL_STATUS_SUCCESS then (status, c, d)
           else let (result, d1) = Ioctl_RestoreDataEventEnabledState env (ic_data_events c) d in
             (result, c\<lparr>ic_data_events := [], ic_previous := Map.empty, ic_state := STOPPED\<rparr>, d1)))"

definition Ioctl_ReadImmediate :: "'t ioctl_env \<Rightarrow> 't ioctl \<Rightarrow> astl_status \<times> 't ioctl" where
  "Ioctl_ReadImmediate env x =
    (let state = ic_state (fst x) in
     if state \<noteq> STARTED \<and> state \<noteq> CONFIGURED \<and> state \<noteq> PAUSED then (ASTL_STATUS_BAD_CONFIGURATION, x)
     else case ic_configuration (fst x) of
         None \<Rightarrow> (ASTL_STATUS_BAD_CONFIGURATION, x)
       | Some cfg \<Rightarrow> SampleCollectionOperations env (operationsOnSample (cfg_operations cfg)) x)"

definition Ioctl_Destroy :: "'t ioctl_env \<Rightarrow> 't ioctl \<Rightarrow> 't ioctl" where
  "Ioctl_Destroy env x =
    Ioctl_RollbackConfigurationState env
      (if ic_state (fst x) = STARTED \<or> ic_state (fst x) = PAUSED then snd (Ioctl_StopCollection env x) else x)"

fun ioctl_exec :: "'t ioctl_env \<Rightarrow> ('t, scmi_operation) collection_configuration lifecycle_command \<Rightarrow> 't ioctl
    \<Rightarrow> astl_status \<times> 't ioctl" where
  "ioctl_exec env (CmdConfigure cfg) x = Ioctl_ConfigureCollection env cfg x"
| "ioctl_exec env CmdClear x = Ioctl_ClearCollectionState env x"
| "ioctl_exec env CmdStart x = Ioctl_StartCollection env x"
| "ioctl_exec env CmdPause x = Ioctl_PauseCollection env x"
| "ioctl_exec env CmdResume x = Ioctl_ResumeCollection env x"
| "ioctl_exec env CmdStop x = Ioctl_StopCollection env x"
| "ioctl_exec env CmdRead x = Ioctl_ReadImmediate env x"

end
