(* ===== verification/Scmi_Ioctl_Laws.thy ===== *)
theory Scmi_Ioctl_Laws
  imports Scmi_Ioctl
begin

text \<open>
  The ioctl collector keeps the lifecycle contract, and it puts every data event back: what each
  step leaves alone, the interpretation of collector_lifecycle, and the state of the device when
  the collector is idle.
\<close>

section \<open>Frames\<close>

text \<open>What reading and sampling leave alone, but for the sampler.\<close>

definition ioctl_settled :: "'t ioctl \<Rightarrow> CollectionLifecycleState \<times> ('t, scmi_operation) collection_configuration option
    \<times> scmi_data_event list \<times> bool \<times> (32 word \<Rightarrow> 32 word \<times> 32 word) \<times> 8 word" where
  "ioctl_settled x = (ic_state (fst x), ic_configuration (fst x), ic_data_events (fst x), ic_software_clock (fst x),
     id_events (snd x), id_telemetry (snd x))"

lemma ioctl_emit_frame:
  "ic_state (snd (EmitScmiSample env now r sample c)) = ic_state c"
  "ic_configuration (snd (EmitScmiSample env now r sample c)) = ic_configuration c"
  "ic_data_events (snd (EmitScmiSample env now r sample c)) = ic_data_events c"
  "ic_software_clock (snd (EmitScmiSample env now r sample c)) = ic_software_clock c"
  "ic_sampler (snd (EmitScmiSample env now r sample c)) = ic_sampler c"
  by (simp_all add: EmitScmiSample_def Let_def)

lemma ioctl_read_settled:
  "ioctl_settled (snd (Ioctl_ExecuteScmiReadOperation env r x)) = ioctl_settled x"
  "ic_sampler (fst (snd (Ioctl_ExecuteScmiReadOperation env r x))) = ic_sampler (fst x)"
  by (simp_all add: Ioctl_ExecuteScmiReadOperation_def ioctl_settled_def case_prod_beta' Let_def ioctl_emit_frame split: sum.split)

lemma ioctl_execute_settled:
  "ioctl_settled (snd (Ioctl_ExecuteCollectionOperations env ops x)) = ioctl_settled x
    \<and> ic_sampler (fst (snd (Ioctl_ExecuteCollectionOperations env ops x))) = ic_sampler (fst x)"
proof (induction ops arbitrary: x)
  case (Cons op ops)
  then show ?case by (cases op) (simp_all add: case_prod_beta' Let_def ioctl_read_settled)
qed simp

lemma single_read_settled:
  "ioctl_settled (snd (EmitSingleReadSamples env ops samples x)) = ioctl_settled x
    \<and> ic_sampler (fst (snd (EmitSingleReadSamples env ops samples x))) = ic_sampler (fst x)"
proof (induction ops arbitrary: x)
  case (Cons op ops)
  show ?case
  proof (cases op)
    case (ScmiRead r)
    show ?thesis
    proof (cases "samples (sr_event r)")
      case (Some sample)
      obtain status c1 where e: "EmitScmiSample env (ie_now env (id_reads (snd x))) r sample (fst x) = (status, c1)" by (meson surj_pair)
      let ?x1 = "(c1, (snd x)\<lparr>id_reads := Suc (id_reads (snd x))\<rparr>)"
      have "ioctl_settled ?x1 = ioctl_settled x" "ic_sampler c1 = ic_sampler (fst x)"
        using ioctl_emit_frame [of env "ie_now env (id_reads (snd x))" r sample "fst x"] by (simp_all add: e ioctl_settled_def)
      then show ?thesis using Cons.IH [of ?x1] by (simp add: ScmiRead Some case_prod_beta' Let_def e)
    qed (simp add: ScmiRead)
  qed simp
qed simp

lemma ioctl_sample_settled:
  "ioctl_settled (snd (SampleCollectionOperations env ops x)) = ioctl_settled x
    \<and> ic_sampler (fst (snd (SampleCollectionOperations env ops x))) = ic_sampler (fst x)"
  by (simp add: SampleCollectionOperations_def ExecuteSingleReadOperations_def ioctl_execute_settled single_read_settled split: sum.split)

lemma ioctl_start_mode_settled:
  assumes "ioctl_start_mode env cfg x = (status, y)"
  shows "ioctl_settled y = ioctl_settled x"
    "status \<noteq> ASTL_STATUS_SUCCESS \<Longrightarrow> ic_sampler (fst y) = ic_sampler (fst x)"
proof -
  obtain st1 x1 where e: "Ioctl_ExecuteCollectionOperations env (operationsAtStart (cfg_operations cfg)) x = (st1, x1)" by (meson surj_pair)
  have 1: "ioctl_settled x1 = ioctl_settled x" "ic_sampler (fst x1) = ic_sampler (fst x)"
    using ioctl_execute_settled [of env "operationsAtStart (cfg_operations cfg)" x] by (simp_all add: e)
  have 2: "ioctl_settled (snd (Ioctl_StartIntervalSampling x1)) = ioctl_settled x1"
    "fst (Ioctl_StartIntervalSampling x1) \<noteq> ASTL_STATUS_SUCCESS \<Longrightarrow> ic_sampler (fst (snd (Ioctl_StartIntervalSampling x1))) = ic_sampler (fst x1)"
    by (auto simp: Ioctl_StartIntervalSampling_def ioctl_settled_def case_prod_beta' split: option.split)
  note 3 = ioctl_sample_settled [of env "operationsOnSample (cfg_operations cfg)" x1]
  show "ioctl_settled y = ioctl_settled x" "status \<noteq> ASTL_STATUS_SUCCESS \<Longrightarrow> ic_sampler (fst y) = ic_sampler (fst x)"
    using assms 1 2 3 by (cases "cfg_mode cfg"; auto simp: ioctl_start_mode_def e split: if_splits)+
qed

lemma ioctl_stop_mode_settled:
  assumes "ioctl_stop_mode env cfg x = (status, y)"
  shows "ioctl_settled y = ioctl_settled x" "ic_sampler (fst y) = ic_sampler (fst x)"
proof -
  obtain st1 x1 where s: "SampleCollectionOperations env (operationsOnSample (cfg_operations cfg)) x = (st1, x1)" by (meson surj_pair)
  have 1: "ioctl_settled x1 = ioctl_settled x" "ic_sampler (fst x1) = ic_sampler (fst x)"
    using ioctl_sample_settled [of env "operationsOnSample (cfg_operations cfg)" x] by (simp_all add: s)
  note 2 = ioctl_execute_settled [of env "operationsAtStop (cfg_operations cfg)" x]
    ioctl_execute_settled [of env "operationsAtStop (cfg_operations cfg)" x1]
  show "ioctl_settled y = ioctl_settled x" "ic_sampler (fst y) = ic_sampler (fst x)"
    using assms 1 2 by (cases "cfg_mode cfg"; auto simp: ioctl_stop_mode_def s split: if_splits)+
qed

lemma ioctl_rollback_frame [simp]:
  "ic_state (fst (Ioctl_RollbackConfigurationState env x)) = UNCONFIGURED"
  "ic_configuration (fst (Ioctl_RollbackConfigurationState env x)) = None"
  "ic_data_events (fst (Ioctl_RollbackConfigurationState env x)) = []"
  "ic_sampler (fst (Ioctl_RollbackConfigurationState env x)) = ic_sampler (fst x)"
  by (simp_all add: Ioctl_RollbackConfigurationState_def case_prod_beta')

section \<open>The lifecycle\<close>

lemma ioctl_stop_cases:
  assumes "Ioctl_StopCollection env x = (status, y)"
  obtains (refused) "status \<noteq> ASTL_STATUS_SUCCESS" "ioctl_settled y = ioctl_settled x"
      "CheckCollectionLifecycleAction (ic_state (fst x)) STOP \<noteq> ASTL_STATUS_SUCCESS \<Longrightarrow> status = CheckCollectionLifecycleAction (ic_state (fst x)) STOP"
  | (stopped) c d d1 where "CheckCollectionLifecycleAction (ic_state (fst x)) STOP = ASTL_STATUS_SUCCESS"
      "ioctl_settled (c, d) = ioctl_settled x" "Ioctl_RestoreDataEventEnabledState env (ic_data_events (fst x)) d = (status, d1)"
      "y = (c\<lparr>ic_data_events := [], ic_previous := Map.empty, ic_state := STOPPED\<rparr>, d1)"
proof -
  let ?x = "Ioctl_StopIntervalSampling x"
  have s: "ioctl_settled ?x = ioctl_settled x" by (simp add: Ioctl_StopIntervalSampling_def ioctl_settled_def)
  then have s': "ic_state (fst ?x) = ic_state (fst x)" "ic_configuration (fst ?x) = ic_configuration (fst x)" by (simp_all add: ioctl_settled_def)
  show ?thesis
  proof (cases "CheckCollectionLifecycleAction (ic_state (fst x)) STOP = ASTL_STATUS_SUCCESS \<and> ic_configuration (fst x) \<noteq> None")
    case False
    then show ?thesis using refused assms s by (auto simp: Ioctl_StopCollection_def Let_def s' split: if_splits)
  next
    case True
    then obtain cfg where cfg: "ic_configuration (fst x) = Some cfg" by blast
    obtain st1 c d where m: "ioctl_stop_mode env cfg ?x = (st1, c, d)" by (metis prod_cases3)
    have f: "ioctl_settled (c, d) = ioctl_settled x" using ioctl_stop_mode_settled(1) [OF m] s by simp
    obtain r d1 where r: "Ioctl_RestoreDataEventEnabledState env (ic_data_events c) d = (r, d1)" by (meson surj_pair)
    have ev: "ic_data_events c = ic_data_events (fst x)" using f by (simp add: ioctl_settled_def)
    show ?thesis
    proof (cases "st1 = ASTL_STATUS_SUCCESS")
      case ok: True
      have "status = r \<and> y = (c\<lparr>ic_data_events := [], ic_previous := Map.empty, ic_state := STOPPED\<rparr>, d1)"
        using assms True ok unfolding Ioctl_StopCollection_def Let_def s' cfg by (simp add: m r)
      then show ?thesis using stopped [of c d d1] True f r ev by simp
    next
      case bad: False
      have "status = st1 \<and> y = (c, d)" using assms True bad unfolding Ioctl_StopCollection_def Let_def s' cfg by (simp add: m)
      then show ?thesis using refused True f bad by simp
    qed
  qed
qed

lemma ioctl_start_cases:
  assumes "Ioctl_StartCollection env x = (status, y)"
  obtains (refused) "status \<noteq> ASTL_STATUS_SUCCESS" "ioctl_settled y = ioctl_settled x"
      "CheckCollectionLifecycleAction (ic_state (fst x)) START \<noteq> ASTL_STATUS_SUCCESS \<Longrightarrow> status = CheckCollectionLifecycleAction (ic_state (fst x)) START"
  | (started) z where "CheckCollectionLifecycleAction (ic_state (fst x)) START = ASTL_STATUS_SUCCESS" "status = ASTL_STATUS_SUCCESS"
      "ioctl_settled z = ioctl_settled x" "y = ((fst z)\<lparr>ic_state := STARTED\<rparr>, snd z)"
proof (cases "CheckCollectionLifecycleAction (ic_state (fst x)) START = ASTL_STATUS_SUCCESS \<and> ic_configuration (fst x) \<noteq> None")
  case False
  then show ?thesis using refused assms by (auto simp: Ioctl_StartCollection_def Let_def split: if_splits)
next
  case True
  then obtain cfg where cfg: "ic_configuration (fst x) = Some cfg" by blast
  obtain st1 c d where m: "ioctl_start_mode env cfg ((fst x)\<lparr>ic_previous := Map.empty\<rparr>, snd x) = (st1, c, d)" by (metis prod_cases3)
  have f: "ioctl_settled (c, d) = ioctl_settled x" using ioctl_start_mode_settled(1) [OF m] by (simp add: ioctl_settled_def)
  have y: "(status, y) = (st1, if st1 = ASTL_STATUS_SUCCESS then c\<lparr>ic_state := STARTED\<rparr> else c, d)"
    using assms True unfolding Ioctl_StartCollection_def Let_def cfg by (auto simp: m)
  show ?thesis
    using refused started [of "(c, d)"] f y True by (cases "st1 = ASTL_STATUS_SUCCESS") simp_all
qed

lemma ioctl_read_immediate: "ioctl_settled (snd (Ioctl_ReadImmediate env x)) = ioctl_settled x"
  using ioctl_sample_settled [of env _ x] by (simp add: Ioctl_ReadImmediate_def Let_def split: option.split)

lemma ioctl_marker_frame:
  "ic_configuration (snd (Ioctl_EmitPauseResumeSample env m c)) = ic_configuration c"
  "ic_data_events (snd (Ioctl_EmitPauseResumeSample env m c)) = ic_data_events c"
  by (simp_all add: Ioctl_EmitPauseResumeSample_def Let_def split: option.split)

lemma ioctl_enable_error: "fst (Ioctl_EnableDataEvents env software ids enabled d) \<noteq> Inl ASTL_STATUS_SUCCESS"
proof (induction ids arbitrary: enabled d)
  case (Cons i ids)
  then show ?case
    by (auto simp: GetDataEventConfig_def checked_def SetDataEventConfig_def case_prod_beta' Let_def split: sum.splits if_splits)
qed simp

text \<open>The state a successful preparation reaches.\<close>

lemma prepare_success:
  assumes "PrepareConfiguration env cfg x = (ASTL_STATUS_SUCCESS, y)"
  shows "ic_state (fst y) = CONFIGURED"
proof -
  obtain c d where x: "x = (c, d)" by (meson surj_pair)
  obtain st d1 where t: "EnableTelemetry env d = (st, d1)" by (meson surj_pair)
  obtain r d2 where e: "Ioctl_EnableDataEvents env (ic_software_clock c) (ie_order env (GetUniqueDataEventIds (cfg_operations cfg))) [] d1 = (r, d2)"
    by (meson surj_pair)
  have st: "st = ASTL_STATUS_SUCCESS" using assms by (auto simp: PrepareConfiguration_def x t split: if_splits)
  show ?thesis
  proof (cases r)
    case (Inl err)
    then have "err \<noteq> ASTL_STATUS_SUCCESS" using ioctl_enable_error [of env "ic_software_clock c" _ "[]" d1] e by (metis fst_conv)
    then show ?thesis using assms by (simp add: PrepareConfiguration_def x t st Let_def e Inl)
  next
    case (Inr events)
    let ?ops = "UpdateReadOperationTimestampRates events (cfg_operations cfg)"
    let ?x = "((c\<lparr>ic_configuration := Some cfg, ic_state := CONFIGURED\<rparr>)\<lparr>ic_data_events := events,
      ic_configuration := Some (cfg\<lparr>cfg_operations := ?ops\<rparr>)\<rparr>, d2)"
    have "Ioctl_ExecuteCollectionOperations env (operationsBeforeStart ?ops) ?x = (ASTL_STATUS_SUCCESS, y)"
      using assms by (simp add: PrepareConfiguration_def x t st Let_def e Inr)
    then have "ioctl_settled y = ioctl_settled ?x"
      using ioctl_execute_settled [of env "operationsBeforeStart ?ops" ?x] by simp
    then show ?thesis by (simp add: ioctl_settled_def)
  qed
qed

lemma ioctl_configure_cases:
  assumes "Ioctl_ConfigureCollection env cfg x = (status, y)"
  obtains (refused) "ic_state (fst x) \<notin> {UNCONFIGURED, CONFIGURED, STOPPED}" "status = ASTL_STATUS_BAD_CONFIGURATION" "y = x"
  | (failed) z where "ic_state (fst x) \<in> {UNCONFIGURED, CONFIGURED, STOPPED}" "status \<noteq> ASTL_STATUS_SUCCESS"
      "y = Ioctl_RollbackConfigurationState env z"
  | (configured) z where "ic_state (fst x) \<in> {UNCONFIGURED, CONFIGURED, STOPPED}" "status = ASTL_STATUS_SUCCESS"
      "PrepareConfiguration env cfg z = (ASTL_STATUS_SUCCESS, y)"
proof (cases "ic_state (fst x) \<in> {UNCONFIGURED, CONFIGURED, STOPPED}")
  case False
  then show ?thesis using refused assms by (simp add: Ioctl_ConfigureCollection_def)
next
  case True
  obtain c d where x0: "(if ic_state (fst x) = CONFIGURED then Ioctl_RollbackConfigurationState env x else x) = (c, d)" by (meson surj_pair)
  let ?x1 = "(c\<lparr>ic_software_clock := ie_software_clock env\<rparr>, d)"
  obtain st x2 where p: "(if ProbeCapabilities env = ASTL_STATUS_SUCCESS then PrepareConfiguration env cfg ?x1
      else (ProbeCapabilities env, ?x1)) = (st, x2)" by (meson surj_pair)
  have y: "(status, y) = (st, if st \<noteq> ASTL_STATUS_SUCCESS then Ioctl_RollbackConfigurationState env x2 else x2)"
  proof -
    have inside: "(ic_state (fst x) \<notin> {UNCONFIGURED, CONFIGURED, STOPPED}) = False" using True by blast
    show ?thesis using assms unfolding Ioctl_ConfigureCollection_def inside if_False x0 prod.case Let_def p by (auto split: if_splits)
  qed
  show ?thesis
    using failed [OF True, of x2] configured [OF True, of ?x1] y p by (cases "st = ASTL_STATUS_SUCCESS") (simp_all split: if_splits)
qed

interpretation ioctl_lc: collector_lifecycle "\<lambda>x :: 't ioctl. ic_state (fst x)" "ioctl_exec env" for env :: "'t ioctl_env"
proof unfold_locales
  fix x y :: "'t ioctl" and st g
  show "ioctl_exec env CmdStart x = (st, y) \<Longrightarrow> action_law (ic_state (fst x)) START st (ic_state (fst y))"
    by (auto simp: action_law_def ioctl_settled_def elim!: ioctl_start_cases)
  show "ioctl_exec env CmdPause x = (st, y) \<Longrightarrow> action_law (ic_state (fst x)) PAUSE st (ic_state (fst y))"
    by (auto simp: Ioctl_PauseCollection_def PauseCollectionLifecycle_def action_law_def case_prod_beta' Let_def split: if_splits)
  show "ioctl_exec env CmdResume x = (st, y) \<Longrightarrow> action_law (ic_state (fst x)) RESUME st (ic_state (fst y))"
    by (auto simp: Ioctl_ResumeCollection_def ResumeCollectionLifecycle_def action_law_def case_prod_beta' Let_def split: if_splits)
  show "ioctl_exec env CmdStop x = (st, y) \<Longrightarrow> action_law (ic_state (fst x)) STOP st (ic_state (fst y))"
    by (auto simp: action_law_def ioctl_settled_def elim!: ioctl_stop_cases)
  show "ioctl_exec env (CmdConfigure g) x = (st, y) \<Longrightarrow>
      (if ic_state (fst x) \<in> {UNCONFIGURED, CONFIGURED, STOPPED}
       then ic_state (fst y) \<in> {ic_state (fst x), CONFIGURED, UNCONFIGURED} \<and> (st = ASTL_STATUS_SUCCESS \<longrightarrow> ic_state (fst y) = CONFIGURED)
       else st \<noteq> ASTL_STATUS_SUCCESS \<and> ic_state (fst y) = ic_state (fst x))"
    unfolding ioctl_exec.simps by (erule ioctl_configure_cases) (auto dest: prepare_success simp del: split_paired_All)
  show "ioctl_exec env CmdClear x = (st, y) \<Longrightarrow>
      (if ic_state (fst x) \<in> {STARTED, PAUSED} then st \<noteq> ASTL_STATUS_SUCCESS \<and> ic_state (fst y) = ic_state (fst x)
       else ic_state (fst y) = UNCONFIGURED)"
    by (auto simp: Ioctl_ClearCollectionState_def split: if_splits)
  show "ioctl_exec env CmdRead x = (st, y) \<Longrightarrow> ic_state (fst y) = ic_state (fst x)"
    using ioctl_read_immediate [of env x] by (auto simp: ioctl_settled_def)
qed

section \<open>The device is put back\<close>

text \<open>A device that accepts every configuration.\<close>

definition settable :: "'t ioctl_env \<Rightarrow> bool" where
  "settable env \<longleftrightarrow> (\<forall>i. ie_get_event env i = ASTL_STATUS_SUCCESS \<and> ie_set_event env i = ASTL_STATUS_SUCCESS)"

text \<open>The words of an event as flags.\<close>

definition as_flags :: "32 word \<times> 32 word \<Rightarrow> bool \<times> bool" where
  "as_flags config = (fst config \<noteq> 0, snd config \<noteq> 0)"

text \<open>
  What is left of an event: nothing has changed, or its words have become 0 or 1 by the same flags.
  Once it is pending, its restoration would do that.
\<close>

definition event_like :: "32 word \<times> 32 word \<Rightarrow> 32 word \<times> 32 word \<Rightarrow> bool" where
  "event_like before now \<longleftrightarrow> as_flags now = as_flags before"

lemma restore_like:
  assumes "de_originally_enabled e = (fst before \<noteq> 0)" "case de_timestamp_enabled e of None \<Rightarrow> (snd now \<noteq> 0) = (snd before \<noteq> 0) | Some on \<Rightarrow> on = (snd before \<noteq> 0)"
  shows "event_like before (restored_config e now)"
  using assms by (cases "de_timestamp_enabled e") (auto simp: event_like_def restored_config_def as_flags_def)

text \<open>The events that are pending, the first record of an identifier being the oldest.\<close>

definition remembers :: "scmi_data_event \<Rightarrow> 32 word \<times> 32 word \<Rightarrow> 32 word \<times> 32 word \<Rightarrow> bool" where
  "remembers e before now \<longleftrightarrow> de_originally_enabled e = (fst before \<noteq> 0)
    \<and> (case de_timestamp_enabled e of None \<Rightarrow> (snd now \<noteq> 0) = (snd before \<noteq> 0) | Some on \<Rightarrow> on = (snd before \<noteq> 0))"

definition events_ok :: "(32 word \<Rightarrow> 32 word \<times> 32 word) \<Rightarrow> scmi_data_event list \<Rightarrow> ioctl_device \<Rightarrow> bool" where
  "events_ok before es d \<longleftrightarrow> distinct (map de_id es) \<and> (\<forall>i. case find_event i es of
      None \<Rightarrow> event_like (before i) (id_events d i)
    | Some e \<Rightarrow> remembers e (before i) (id_events d i))"

lemma find_event_Cons: "find_event i (e # es) = (if de_id e = i then Some e else find_event i es)"
  by (simp add: find_event_def)

lemma find_event_append: "find_event i (es @ es') = (case find_event i es of None \<Rightarrow> find_event i es' | Some e \<Rightarrow> Some e)"
  by (induction es) (simp_all add: find_event_def)

lemma find_event_snoc: "de_id e \<noteq> j \<Longrightarrow> find_event j (es @ [e]) = find_event j es"
  by (induction es) (simp_all add: find_event_def)

lemma find_event_None: "find_event i es = None \<longleftrightarrow> i \<notin> set (map de_id es)"
  by (auto simp: find_event_def find_None_iff)

lemma restore_all_events:
  assumes "settable env" "events_ok before es d"
  shows "fst (Ioctl_RestoreDataEventEnabledState env es d) = ASTL_STATUS_SUCCESS
    \<and> events_ok before [] (snd (Ioctl_RestoreDataEventEnabledState env es d))"
  using assms(2)
proof (induction es arbitrary: d)
  case (Cons e es)
  let ?d = "d\<lparr>id_events := (id_events d)(de_id e := restored_config e (id_events d (de_id e)))\<rparr>"
  have new: "de_id e \<notin> set (map de_id es)" "distinct (map de_id es)" using Cons.prems by (simp_all add: events_ok_def)
  have all: "case find_event i (e # es) of None \<Rightarrow> event_like (before i) (id_events d i) | Some e \<Rightarrow> remembers e (before i) (id_events d i)" for i
    using Cons.prems by (simp add: events_ok_def)
  have "case find_event i es of None \<Rightarrow> event_like (before i) (id_events ?d i) | Some e \<Rightarrow> remembers e (before i) (id_events ?d i)" for i
  proof (cases "i = de_id e")
    case True
    have "find_event i es = None" using new(1) True by (simp add: find_event_None)
    moreover have "event_like (before i) (restored_config e (id_events d i))"
    proof -
      have "remembers e (before i) (id_events d i)" using all [of i] True by (simp add: find_event_Cons)
      then show ?thesis using restore_like [of e "before i" "id_events d i"] unfolding remembers_def by blast
    qed
    ultimately show ?thesis using True by simp
  next
    case False
    then show ?thesis using all [of i] by (cases "find_event i es") (simp_all add: find_event_Cons)
  qed
  then have "events_ok before es ?d" using new(2) by (simp add: events_ok_def)
  from Cons.IH [OF this] assms(1) show ?case
    by (simp add: settable_def GetDataEventConfig_def SetDataEventConfig_def case_prod_beta')
qed simp

lemma enable_all_events:
  assumes "settable env" "events_ok before enabled d" "distinct (map de_id enabled @ ids)"
    "Ioctl_EnableDataEvents env software ids enabled d = (r, d1)"
  shows "events_ok before (case r of Inl e \<Rightarrow> [] | Inr events \<Rightarrow> events) d1"
  using assms(2-4)
proof (induction ids arbitrary: enabled d)
  case (Cons i ids)
  have ok: "ie_get_event env i = ASTL_STATUS_SUCCESS" "ie_set_event env i = ASTL_STATUS_SUCCESS" using assms(1) by (simp_all add: settable_def)
  show ?case
  proof (cases "checked (ie_info env i)")
    case (Inl e)
    then have "r = Inl e" "d1 = snd (Ioctl_RestoreDataEventEnabledState env enabled d)"
      using Cons.prems(3) by (simp_all add: GetDataEventConfig_def ok)
    then show ?thesis using restore_all_events [OF assms(1) Cons.prems(1)] by simp
  next
    case (Inr info)
    let ?e = "original_event software i (id_events d i) info"
    let ?d = "d\<lparr>id_events := (id_events d)(i := enabled_config software (id_events d i))\<rparr>"
    have new: "i \<notin> set (map de_id enabled)" using Cons.prems(2) by auto
    then have old: "event_like (before i) (id_events d i)"
    proof -
      have "find_event i enabled = None" using new by (simp add: find_event_None)
      then show ?thesis using Cons.prems(1) unfolding events_ok_def by (metis option.simps(4))
    qed
    have "case find_event j (enabled @ [?e]) of None \<Rightarrow> event_like (before j) (id_events ?d j)
        | Some e \<Rightarrow> remembers e (before j) (id_events ?d j)" for j
    proof (cases "j = i")
      case True
      have "find_event i enabled = None" using new by (simp add: find_event_None)
      then show ?thesis
        using True old by (auto simp: find_event_append find_event_Cons original_event_def remembers_def enabled_config_def
          event_like_def as_flags_def)
    next
      case False
      have "case find_event j enabled of None \<Rightarrow> event_like (before j) (id_events d j) | Some e \<Rightarrow> remembers e (before j) (id_events d j)"
        using Cons.prems(1) by (simp add: events_ok_def)
      moreover have "find_event j (enabled @ [?e]) = find_event j enabled"
        using False by (intro find_event_snoc) (simp add: original_event_def)
      ultimately show ?thesis using False by (cases "find_event j enabled") simp_all
    qed
    then have "events_ok before (enabled @ [?e]) ?d" using Cons.prems(1) new by (simp add: events_ok_def original_event_def)
    from Cons.IH [OF this] Cons.prems(2,3) show ?thesis
      by (simp add: GetDataEventConfig_def SetDataEventConfig_def ok Inr Let_def original_event_def)
  qed
qed auto

definition ioctl_kept :: "(32 word \<Rightarrow> 32 word \<times> 32 word) \<Rightarrow> 't ioctl \<Rightarrow> bool" where
  "ioctl_kept before x \<longleftrightarrow> events_ok before (ic_data_events (fst x)) (snd x)
    \<and> (ic_state (fst x) \<in> {CONFIGURED, STARTED, PAUSED} \<or> ic_data_events (fst x) = [])"

text \<open>The iteration over an unordered set meets each element once.\<close>

definition well_ordered :: "'t ioctl_env \<Rightarrow> bool" where
  "well_ordered env \<longleftrightarrow> (\<forall>ids. distinct ids \<longrightarrow> distinct (ie_order env ids))"

lemma events_ok_device: "id_events d' = id_events d \<Longrightarrow> events_ok before es d' = events_ok before es d"
  unfolding events_ok_def by (simp only:)

lemma ioctl_kept_settled: "ioctl_settled y = ioctl_settled x \<Longrightarrow> ioctl_kept before y = ioctl_kept before x"
  using events_ok_device [of "snd y" "snd x" before] by (simp add: ioctl_settled_def ioctl_kept_def)

lemma settled_events: "ioctl_settled y = ioctl_settled x \<Longrightarrow>
    events_ok before (ic_data_events (fst y)) (snd y) = events_ok before (ic_data_events (fst x)) (snd x)"
  using events_ok_device [of "snd y" "snd x" before] by (simp add: ioctl_settled_def)

lemma rollback_kept:
  assumes "settable env" "events_ok before (ic_data_events (fst x)) (snd x)"
  shows "ioctl_kept before (Ioctl_RollbackConfigurationState env x)"
  using restore_all_events [OF assms] assms(2)
  by (cases "ic_data_events (fst x) = []") (simp_all add: ioctl_kept_def Ioctl_RollbackConfigurationState_def case_prod_beta')

lemma telemetry_events: "id_events (snd (EnableTelemetry env d)) = id_events d"
  by (simp add: EnableTelemetry_def)

lemma prepare_kept:
  assumes "settable env" "well_ordered env" "ic_data_events c = []" "events_ok before [] d"
    "PrepareConfiguration env cfg (c, d) = (st, y)"
  shows "events_ok before (ic_data_events (fst y)) (snd y)"
proof -
  obtain st1 d1 where t: "EnableTelemetry env d = (st1, d1)" by (meson surj_pair)
  have "id_events d1 = id_events d" using telemetry_events [of env d] by (simp add: t)
  then have ok: "events_ok before [] d1" using assms(4) events_ok_device by blast
  let ?ids = "ie_order env (GetUniqueDataEventIds (cfg_operations cfg))"
  obtain r d2 where e: "Ioctl_EnableDataEvents env (ic_software_clock c) ?ids [] d1 = (r, d2)" by (meson surj_pair)
  have "distinct ?ids" using assms(2) by (simp add: well_ordered_def GetUniqueDataEventIds_def)
  then have 2: "events_ok before (case r of Inl e \<Rightarrow> [] | Inr events \<Rightarrow> events) d2"
    using enable_all_events [OF assms(1) ok _ e] by simp
  show ?thesis
  proof (cases "st1 = ASTL_STATUS_SUCCESS")
    case False
    then show ?thesis using assms(3,5) ok by (auto simp: PrepareConfiguration_def t)
  next
    case True
    show ?thesis
    proof (cases r)
      case (Inl err)
      then show ?thesis using assms(3,5) 2 True by (auto simp: PrepareConfiguration_def t e Let_def)
    next
      case (Inr events)
      let ?ops = "UpdateReadOperationTimestampRates events (cfg_operations cfg)"
      let ?x = "((c\<lparr>ic_configuration := Some cfg, ic_state := CONFIGURED\<rparr>)\<lparr>ic_data_events := events,
        ic_configuration := Some (cfg\<lparr>cfg_operations := ?ops\<rparr>)\<rparr>, d2)"
      have "Ioctl_ExecuteCollectionOperations env (operationsBeforeStart ?ops) ?x = (st, y)"
        using assms(5) True by (simp add: PrepareConfiguration_def t Let_def e Inr)
      then have "ioctl_settled y = ioctl_settled ?x"
        using ioctl_execute_settled [of env "operationsBeforeStart ?ops" ?x] by simp
      then show ?thesis using 2 Inr settled_events [of y ?x before] by simp
    qed
  qed
qed

lemma configure_kept:
  assumes "settable env" "well_ordered env" "ioctl_kept before x"
  shows "ioctl_kept before (snd (Ioctl_ConfigureCollection env cfg x))"
proof (cases "ic_state (fst x) \<in> {UNCONFIGURED, CONFIGURED, STOPPED}")
  case False
  then show ?thesis using assms(3) by (simp add: Ioctl_ConfigureCollection_def)
next
  case True
  have inside: "(ic_state (fst x) \<notin> {UNCONFIGURED, CONFIGURED, STOPPED}) = False" using True by blast
  obtain c d where x0: "(if ic_state (fst x) = CONFIGURED then Ioctl_RollbackConfigurationState env x else x) = (c, d)" by (meson surj_pair)
  have "ioctl_kept before (Ioctl_RollbackConfigurationState env x)"
    using rollback_kept [OF assms(1), of before x] assms(3) by (simp add: ioctl_kept_def)
  then have kept: "ioctl_kept before (c, d)" using assms(3) x0 by (cases "ic_state (fst x) = CONFIGURED") simp_all
  have "ic_data_events (fst (c, d)) = []"
    using assms(3) True ioctl_rollback_frame(3) [of env x] unfolding x0 [symmetric] by (auto simp: ioctl_kept_def)
  then have idle: "ic_data_events c = []" "events_ok before [] d" using kept by (simp_all add: ioctl_kept_def)
  let ?x1 = "(c\<lparr>ic_software_clock := ie_software_clock env\<rparr>, d)"
  obtain st x2 where p: "(if ProbeCapabilities env = ASTL_STATUS_SUCCESS then PrepareConfiguration env cfg ?x1
      else (ProbeCapabilities env, ?x1)) = (st, x2)" by (meson surj_pair)
  have ok: "events_ok before (ic_data_events (fst x2)) (snd x2)"
    using p idle prepare_kept [OF assms(1,2), of "c\<lparr>ic_software_clock := ie_software_clock env\<rparr>" before d cfg st x2]
    by (auto split: if_splits)
  have run: "snd (Ioctl_ConfigureCollection env cfg x) = (if st \<noteq> ASTL_STATUS_SUCCESS then Ioctl_RollbackConfigurationState env x2 else x2)"
    unfolding Ioctl_ConfigureCollection_def inside if_False x0 prod.case Let_def p by simp
  show ?thesis
  proof (cases "st = ASTL_STATUS_SUCCESS")
    case True
    then have "ic_state (fst x2) = CONFIGURED" using p prepare_success [of env cfg ?x1 x2] by (auto split: if_splits)
    then show ?thesis using ok run True by (simp add: ioctl_kept_def)
  next
    case False
    then show ?thesis using rollback_kept [OF assms(1) ok] run by simp
  qed
qed

lemma stop_kept:
  assumes "settable env" "ioctl_kept before x" "Ioctl_StopCollection env x = (st, y)"
  shows "ioctl_kept before y"
  using assms(3)
proof (cases rule: ioctl_stop_cases)
  case refused
  then show ?thesis using assms(2) ioctl_kept_settled by blast
next
  case (stopped c d d1)
  have "events_ok before (ic_data_events (fst x)) d"
    using assms(2) settled_events [OF stopped(2), of before] stopped(2) by (simp add: ioctl_kept_def ioctl_settled_def)
  from restore_all_events [OF assms(1) this] show ?thesis by (simp add: stopped ioctl_kept_def)
qed

lemma exec_kept:
  assumes "settable env" "well_ordered env" "ioctl_kept before x"
  shows "ioctl_kept before (snd (ioctl_exec env cmd x))"
proof (cases cmd)
  case (CmdConfigure cfg)
  then show ?thesis using configure_kept [OF assms] by simp
next
  case CmdClear
  have "events_ok before (ic_data_events (fst (Ioctl_StopIntervalSampling x))) (snd (Ioctl_StopIntervalSampling x))"
    using assms(3) by (simp add: ioctl_kept_def Ioctl_StopIntervalSampling_def)
  from rollback_kept [OF assms(1) this] show ?thesis using CmdClear assms(3) by (simp add: Ioctl_ClearCollectionState_def)
next
  case CmdStart
  obtain st y where s: "Ioctl_StartCollection env x = (st, y)" by (meson surj_pair)
  from s have "ioctl_kept before y"
  proof (cases rule: ioctl_start_cases)
    case refused
    then show ?thesis using assms(3) ioctl_kept_settled by blast
  next
    case (started z)
    then have "events_ok before (ic_data_events (fst z)) (snd z)"
      using assms(3) settled_events [of z x before] by (simp add: ioctl_kept_def)
    then show ?thesis by (simp add: started(4) ioctl_kept_def)
  qed
  then show ?thesis using CmdStart s by simp
next
  case CmdPause
  then show ?thesis
    using assms(3) by (cases "ic_state (fst x)") (auto simp: Ioctl_PauseCollection_def PauseCollectionLifecycle_def
      case_prod_beta' Let_def ioctl_kept_def ioctl_marker_frame lifecycle_table)
next
  case CmdResume
  then show ?thesis
    using assms(3) by (cases "ic_state (fst x)") (auto simp: Ioctl_ResumeCollection_def ResumeCollectionLifecycle_def
      case_prod_beta' Let_def ioctl_kept_def ioctl_marker_frame lifecycle_table)
next
  case CmdStop
  obtain st y where s: "Ioctl_StopCollection env x = (st, y)" by (meson surj_pair)
  then show ?thesis using stop_kept [OF assms(1,3) s] CmdStop by simp
next
  case CmdRead
  then show ?thesis using ioctl_kept_settled [OF ioctl_read_immediate [of env x]] assms(3) by simp
qed

fun ioctl_runs :: "('t ioctl_env \<times> ('t, scmi_operation) collection_configuration lifecycle_command) list \<Rightarrow> 't ioctl \<Rightarrow> 't ioctl" where
  "ioctl_runs [] x = x"
| "ioctl_runs ((env, cmd) # cmds) x = ioctl_runs cmds (snd (ioctl_exec env cmd x))"

lemma runs_kept:
  assumes "\<forall>(env, cmd)\<in>set cmds. settable env \<and> well_ordered env" "ioctl_kept before x"
  shows "ioctl_kept before (ioctl_runs cmds x)"
  using assms
proof (induction cmds arbitrary: x)
  case (Cons ec cmds)
  obtain env cmd where ec: "ec = (env, cmd)" by (meson surj_pair)
  have ok: "settable env" "well_ordered env" "\<forall>(env, cmd)\<in>set cmds. settable env \<and> well_ordered env"
    using Cons.prems(1) by (simp_all add: ec)
  show ?case using Cons.IH [OF ok(3) exec_kept [OF ok(1,2) Cons.prems(2)]] by (simp add: ec)
qed simp

text \<open>
  C18: an ioctl collector is told any sequence of commands and then destroyed, while every query of
  the configuration of a data event and every setting of one succeeds, and the order in which the
  ids of the configured events are taken repeats none of them. Then, whatever the probe, the
  telemetry configuration, the information and the update intervals of the events, the readings and
  the sink answer: whenever the collector is neither configured nor running, and after it is
  destroyed, every data event of the device is enabled and stamped exactly when it was before the
  first command.
\<close>

theorem ioctl_restores_events:
  assumes "\<forall>(env, cmd)\<in>set cmds. settable env \<and> well_ordered env" "settable env'"
  shows "(ic_state (fst (ioctl_runs cmds (ScmiIoctlCollector, d))) \<notin> {CONFIGURED, STARTED, PAUSED} \<longrightarrow>
      (\<forall>i. as_flags (id_events (snd (ioctl_runs cmds (ScmiIoctlCollector, d))) i) = as_flags (id_events d i)))
    \<and> (\<forall>i. as_flags (id_events (snd (Ioctl_Destroy env' (ioctl_runs cmds (ScmiIoctlCollector, d)))) i) = as_flags (id_events d i))"
proof -
  let ?x = "ioctl_runs cmds (ScmiIoctlCollector, d)"
  have none: "events_ok before [] d' \<longleftrightarrow> (\<forall>i. as_flags (id_events d' i) = as_flags (before i))" for before d'
    by (simp add: events_ok_def event_like_def find_event_def)
  have "ioctl_kept (id_events d) (ScmiIoctlCollector, d)" by (simp add: ioctl_kept_def ScmiIoctlCollector_def none)
  then have run: "ioctl_kept (id_events d) ?x" by (rule runs_kept [OF assms(1)])
  obtain st y where s: "Ioctl_StopCollection env' ?x = (st, y)" by (meson surj_pair)
  have "ioctl_kept (id_events d) y" by (rule stop_kept [OF assms(2) run s])
  then have "ioctl_kept (id_events d) (Ioctl_Destroy env' ?x)"
    using rollback_kept [OF assms(2), of "id_events d" y] rollback_kept [OF assms(2), of "id_events d" ?x] run
    by (simp add: Ioctl_Destroy_def s ioctl_kept_def)
  moreover have "ic_data_events (fst (Ioctl_Destroy env' ?x)) = []" by (simp add: Ioctl_Destroy_def)
  ultimately have "\<forall>i. as_flags (id_events (snd (Ioctl_Destroy env' ?x)) i) = as_flags (id_events d i)"
    by (simp add: ioctl_kept_def none)
  moreover have "\<forall>i. as_flags (id_events (snd ?x) i) = as_flags (id_events d i)"
    if "ic_state (fst ?x) \<notin> {CONFIGURED, STARTED, PAUSED}"
  proof -
    have "ic_data_events (fst ?x) = []" using run that by (auto simp: ioctl_kept_def)
    then show ?thesis using run by (simp add: ioctl_kept_def none)
  qed
  ultimately show ?thesis by blast
qed

definition ioctl_example_env :: "nat ioctl_env" where
  "ioctl_example_env = \<lparr>ie_probe = ASTL_STATUS_SUCCESS, ie_version = Inr (), ie_event_count = Inr 1, ie_single_read = Inr False,
     ie_get_config = ASTL_STATUS_SUCCESS, ie_set_config = ASTL_STATUS_SUCCESS, ie_get_event = (\<lambda>i. ASTL_STATUS_SUCCESS),
     ie_set_event = (\<lambda>i. ASTL_STATUS_SUCCESS),
     ie_info = (\<lambda>i. (ASTL_STATUS_SUCCESS, \<lparr>di_ts_rate = 0, di_grouped = False, di_grp_id = 0\<rparr>)),
     ie_interval = (\<lambda>k. (ASTL_STATUS_SUCCESS, \<lparr>ui_secs = 1, ui_exp = 0\<rparr>)),
     ie_read = (\<lambda>n i. (ASTL_STATUS_SUCCESS, \<lparr>ds_id = i, ds_tstamp = 5, ds_val = 7\<rparr>)),
     ie_read_all = (\<lambda>n i. (ASTL_STATUS_SUCCESS, [])), ie_now = (\<lambda>n. 9), ie_order = id, ie_software_clock = False,
     ie_accept = (\<lambda>s. ASTL_STATUS_SUCCESS)\<rparr>"

definition ioctl_example_config :: "(nat, scmi_operation) collection_configuration" where
  "ioctl_example_config = \<lparr>cfg_target = 0, cfg_operations = \<lparr>operationsBeforeStart = [], operationsAtStart = [],
     operationsOnSample = [ScmiRead \<lparr>sr_id = 2, sr_event = 3, sr_rate = 0\<rparr>], operationsAtStop = []\<rparr>,
     cfg_mode = MODE_IMMEDIATE, cfg_sampling_interval = 0\<rparr>"

definition ioctl_example_device :: ioctl_device where
  "ioctl_example_device = \<lparr>id_telemetry = 0, id_events = (\<lambda>i. (0, 0)), id_reads = 0\<rparr>"

text \<open>Configuring enables event 3, clearing disables it again.\<close>

theorem ioctl_restores_events_witness:
  "let on = ioctl_runs [(ioctl_example_env, CmdConfigure ioctl_example_config)] (ScmiIoctlCollector, ioctl_example_device);
       off = ioctl_runs [(ioctl_example_env, CmdConfigure ioctl_example_config), (ioctl_example_env, CmdClear)]
         (ScmiIoctlCollector, ioctl_example_device)
   in ic_state (fst on) = CONFIGURED \<and> as_flags (id_events (snd on) 3) = (True, True)
     \<and> ic_state (fst off) = UNCONFIGURED \<and> as_flags (id_events (snd off) 3) = (False, False)"
proof -
  let ?on = "[(ioctl_example_env, CmdConfigure ioctl_example_config)]"
  let ?off = "[(ioctl_example_env, CmdConfigure ioctl_example_config), (ioctl_example_env, CmdClear)]"
  let ?x = "(ScmiIoctlCollector, ioctl_example_device)"
  have env: "settable ioctl_example_env" "well_ordered ioctl_example_env"
    by (simp_all add: settable_def well_ordered_def ioctl_example_env_def)
  have ids: "ie_order ioctl_example_env (GetUniqueDataEventIds (cfg_operations ioctl_example_config)) = [3]"
    by (simp add: ioctl_example_env_def ioctl_example_config_def GetUniqueDataEventIds_def scmi_operations_def)
  have probe: "ProbeCapabilities ioctl_example_env = ASTL_STATUS_SUCCESS" by (simp add: ProbeCapabilities_def ioctl_example_env_def)
  have telemetry: "EnableTelemetry ioctl_example_env ioctl_example_device = (ASTL_STATUS_SUCCESS, ioctl_example_device\<lparr>id_telemetry := 1\<rparr>)"
    by (simp add: EnableTelemetry_def ioctl_example_env_def ioctl_example_device_def)
  have start: "operationsBeforeStart (UpdateReadOperationTimestampRates es (cfg_operations ioctl_example_config)) = []" for es
    by (simp add: UpdateReadOperationTimestampRates_def ioctl_example_config_def)
  have enable: "Ioctl_EnableDataEvents ioctl_example_env False [3] [] (ioctl_example_device\<lparr>id_telemetry := 1\<rparr>) =
    (Inr [original_event False 3 (0, 0) \<lparr>di_ts_rate = 0, di_grouped = False, di_grp_id = 0\<rparr>],
     ioctl_example_device\<lparr>id_telemetry := 1, id_events := (\<lambda>i. (0, 0))(3 := (1, 1))\<rparr>)"
    by (simp add: GetDataEventConfig_def SetDataEventConfig_def ioctl_example_env_def checked_def enabled_config_def ioctl_example_device_def)
  have clock: "\<not> ie_software_clock ioctl_example_env" by (simp add: ioctl_example_env_def)
  obtain st y where run: "Ioctl_ConfigureCollection ioctl_example_env ioctl_example_config ?x = (st, y)" by (meson surj_pair)
  have new: "ic_state ScmiIoctlCollector = UNCONFIGURED" by (simp add: ScmiIoctlCollector_def)
  have y: "ic_state (fst y) = CONFIGURED" "id_events (snd y) 3 = (1, 1)"
    using run by (auto simp: Ioctl_ConfigureCollection_def new probe PrepareConfiguration_def telemetry Let_def ids clock enable start
      simp del: Ioctl_EnableDataEvents.simps)
  have off: "ic_state (fst (ioctl_runs ?off ?x)) = UNCONFIGURED" using y(1) by (simp add: run Ioctl_ClearCollectionState_def)
  have "\<forall>(env, cmd)\<in>set ?off. settable env \<and> well_ordered env" using env by simp
  from ioctl_restores_events [OF this env(1), of ioctl_example_device] off
  have "as_flags (id_events (snd (ioctl_runs ?off ?x)) 3) = as_flags (id_events ioctl_example_device 3)" by simp
  then have "as_flags (id_events (snd (ioctl_runs ?off ?x)) 3) = (False, False)" by (simp only:) (simp add: as_flags_def ioctl_example_device_def)
  moreover have "ioctl_runs ?on ?x = y" by (simp add: run)
  ultimately show ?thesis using off y by (simp add: Let_def as_flags_def [of "(1, 1)"])
qed

end
