(* ===== verification/Scmi_Ioctl_Clock.thy ===== *)
theory Scmi_Ioctl_Clock
  imports Scmi_Ioctl_Laws Scmi_Clock
begin

text \<open>
  The clock snapshot of the ioctl collector (src/impl/scmi/scmi_ioctl_collector_clock.cpp): for each
  data event a number of readings spread over the update intervals of the firmware, from which the
  correlation of the smallest offset is kept.  The sleeps between the readings do not change the
  state; their length is part of it, since working it out can fail.
\<close>

section \<open>Preparing the readings\<close>

record correlation_read =
  cr_operation :: scmi_read_operation
  cr_operations :: "16 word list"
  cr_minimum :: correlation_minimum
  cr_spacing :: int
  cr_failures :: nat
  cr_last_error :: astl_status

definition kClockCorrelationReadAttempts :: nat where "kClockCorrelationReadAttempts = 20"

definition ReadSpacing :: "'t ioctl_env \<Rightarrow> scmi_read_operation \<Rightarrow> (bool \<times> 32 word \<rightharpoonup> int)
    \<Rightarrow> (int \<times> (bool \<times> 32 word \<rightharpoonup> int)) result" where
  "ReadSpacing env r intervals =
    rbind (checked (ie_info env (sr_event r))) (\<lambda>info.
      let rate = (if di_ts_rate info \<noteq> 0 then di_ts_rate info else kDefaultScmiTimestampRate) in
      if sr_rate r = 0 \<or> rate \<noteq> sr_rate r then Inl ASTL_STATUS_BAD_CONFIGURATION
      else
        let key = (di_grouped info, if di_grouped info then di_grp_id info else 0) in
        case intervals key of
          Some spacing \<Rightarrow> Inr (spacing, intervals)
        | None \<Rightarrow>
            rbind (checked (ie_interval env key)) (\<lambda>interval.
              rbind (ClockCorrelationReadSpacing interval) (\<lambda>spacing. Inr (spacing, intervals(key \<mapsto> spacing)))))"

definition new_read :: "scmi_read_operation \<Rightarrow> int \<Rightarrow> correlation_read" where
  "new_read r spacing =
    \<lparr>cr_operation = r, cr_operations = [sr_id r], cr_minimum = ClockCorrelationMinimum (sr_rate r), cr_spacing = spacing,
     cr_failures = 0, cr_last_error = ASTL_STATUS_BAD_CONFIGURATION\<rparr>"

text \<open>The reads so far, the index of the read of each event, and the spacings that are known.\<close>

fun PrepareCorrelationReads :: "'t ioctl_env \<Rightarrow> scmi_operation list \<Rightarrow> correlation_read list \<Rightarrow> (32 word \<rightharpoonup> nat)
    \<Rightarrow> (bool \<times> 32 word \<rightharpoonup> int) \<Rightarrow> correlation_read list result" where
  "PrepareCorrelationReads env [] reads by_event intervals = Inr reads"
| "PrepareCorrelationReads env (OtherScmiOperation i # ops) reads by_event intervals =
    PrepareCorrelationReads env ops reads by_event intervals"
| "PrepareCorrelationReads env (ScmiRead r # ops) reads by_event intervals =
    (case by_event (sr_event r) of
       Some k \<Rightarrow>
         if sr_rate (cr_operation (reads ! k)) \<noteq> sr_rate r then Inl ASTL_STATUS_BAD_CONFIGURATION
         else PrepareCorrelationReads env ops
           (reads[k := (reads ! k)\<lparr>cr_operations := cr_operations (reads ! k) @ [sr_id r]\<rparr>]) by_event intervals
     | None \<Rightarrow>
         rbind (ReadSpacing env r intervals) (\<lambda>(spacing, intervals').
           PrepareCorrelationReads env ops (reads @ [new_read r spacing]) (by_event(sr_event r \<mapsto> length reads)) intervals'))"

section \<open>Capturing\<close>

definition CaptureCorrelationRead :: "'t ioctl_env \<Rightarrow> correlation_read \<Rightarrow> nat \<Rightarrow> (astl_status \<times> correlation_read)" where
  "CaptureCorrelationRead env read n =
    (let (status, sample) = ie_read env n (sr_event (cr_operation read)) in
     if status \<noteq> ASTL_STATUS_SUCCESS \<or> ds_tstamp sample = 0
     then (ASTL_STATUS_SUCCESS, read\<lparr>cr_failures := Suc (cr_failures read),
       cr_last_error := (if status = ASTL_STATUS_SUCCESS then ASTL_STATUS_BAD_CONFIGURATION else status)\<rparr>)
     else let (sample_status, m) = ConsiderSample (ds_tstamp sample) (ie_now env n) (cr_minimum read) in
       (sample_status, read\<lparr>cr_minimum := m\<rparr>))"

text \<open>One pass over the reads; the first refusal ends the snapshot.\<close>

fun capture_pass :: "'t ioctl_env \<Rightarrow> correlation_read list \<Rightarrow> nat \<Rightarrow> correlation_read list result \<times> nat" where
  "capture_pass env [] n = (Inr [], n)"
| "capture_pass env (read # reads) n =
    (case CaptureCorrelationRead env read n of (status, read') \<Rightarrow>
       if status \<noteq> ASTL_STATUS_SUCCESS then (Inl status, Suc n)
       else case capture_pass env reads (Suc n) of
           (Inl e, n') \<Rightarrow> (Inl e, n')
         | (Inr reads', n') \<Rightarrow> (Inr (read' # reads'), n'))"

fun capture_passes :: "'t ioctl_env \<Rightarrow> nat \<Rightarrow> correlation_read list \<Rightarrow> nat \<Rightarrow> correlation_read list result \<times> nat" where
  "capture_passes env 0 reads n = (Inr reads, n)"
| "capture_passes env (Suc k) reads n =
    (case capture_pass env reads n of
       (Inl e, n') \<Rightarrow> (Inl e, n')
     | (Inr reads', n') \<Rightarrow> capture_passes env k reads' n')"

text \<open>emplace keeps the correlation that an operation has already.\<close>

definition emplace_correlation :: "16 word \<Rightarrow> clock_correlation \<Rightarrow> clock_correlation_map \<Rightarrow> clock_correlation_map" where
  "emplace_correlation i k m = (if m i = None then m(i \<mapsto> k) else m)"

fun MakeMinimumCorrelations :: "correlation_read list \<Rightarrow> clock_correlation_map \<Rightarrow> clock_correlation_map result" where
  "MakeMinimumCorrelations [] m = Inr m"
| "MakeMinimumCorrelations (read # reads) m =
    (if cm_count (cr_minimum read) = 0 then Inl (cr_last_error read)
     else rbind (Minimum_Correlation (cr_minimum read)) (\<lambda>k.
       MakeMinimumCorrelations reads (fold (\<lambda>i. emplace_correlation i k) (cr_operations read) m)))"

fun software_snapshot :: "'t ioctl_env \<Rightarrow> scmi_operation list \<Rightarrow> clock_correlation_map \<Rightarrow> nat \<Rightarrow> clock_correlation_map \<times> nat" where
  "software_snapshot env [] m n = (m, n)"
| "software_snapshot env (OtherScmiOperation i # ops) m n = software_snapshot env ops m n"
| "software_snapshot env (ScmiRead r # ops) m n =
    software_snapshot env ops (emplace_correlation (sr_id r) (MakeSoftwareClockCorrelation (ie_now env n)) m) (Suc n)"

definition Ioctl_GetNativeClockSnapshot :: "'t ioctl_env \<Rightarrow> 't ioctl \<Rightarrow> clock_correlation_map result \<times> 't ioctl" where
  "Ioctl_GetNativeClockSnapshot env x =
    (let (c, d) = x in
     case ic_configuration c of
       None \<Rightarrow> (Inr Map.empty, x)
     | Some cfg \<Rightarrow>
        (let ops = operationsOnSample (cfg_operations cfg) in
         if ic_software_clock c
         then let (m, n) = software_snapshot env ops Map.empty (id_reads d) in (Inr m, c, d\<lparr>id_reads := n\<rparr>)
         else case PrepareCorrelationReads env ops [] Map.empty Map.empty of
             Inl e \<Rightarrow> (Inl e, x)
           | Inr reads \<Rightarrow>
              (case capture_passes env kClockCorrelationReadAttempts reads (id_reads d) of
                 (Inl e, n) \<Rightarrow> (Inl e, c, d\<lparr>id_reads := n\<rparr>)
               | (Inr reads', n) \<Rightarrow> (MakeMinimumCorrelations reads' Map.empty, c, d\<lparr>id_reads := n\<rparr>))))"

section \<open>What the passes see\<close>

text \<open>The readings of an event that count: those with a time stamp, from a number on, so many apart.\<close>

definition event_pairs :: "'t ioctl_env \<Rightarrow> nat \<Rightarrow> nat \<Rightarrow> nat \<Rightarrow> 32 word \<Rightarrow> (64 word \<times> int) list" where
  "event_pairs env passes n step e =
    map (\<lambda>p. (ds_tstamp (snd (ie_read env (n + p * step) e)), ie_now env (n + p * step)))
      (filter (\<lambda>p. fst (ie_read env (n + p * step) e) = ASTL_STATUS_SUCCESS \<and> ds_tstamp (snd (ie_read env (n + p * step) e)) \<noteq> 0)
        [0..<passes])"

lemma event_pairs_0 [simp]: "event_pairs env 0 n step e = []"
  by (simp add: event_pairs_def)

lemma upt_0_1: "[0..<Suc 0] = [0]"
  by simp

lemma event_pairs_Suc:
  "event_pairs env (Suc k) n step e = event_pairs env 1 n step e @ event_pairs env k (n + step) step e"
proof -
  have "[0..<Suc k] = 0 # map Suc [0..<k]" by (simp add: upt_conv_Cons map_Suc_upt del: upt_Suc)
  then show ?thesis
    by (simp only: event_pairs_def One_nat_def upt_0_1) (simp add: filter_map o_def algebra_simps)
qed

lemma event_pairs_step: "event_pairs env 1 n step e = event_pairs env 1 n step' e"
  by (simp add: event_pairs_def)

text \<open>A read after some pairs have been considered.\<close>

definition advanced :: "(64 word \<times> int) list \<Rightarrow> correlation_read \<Rightarrow> correlation_read \<Rightarrow> bool" where
  "advanced pairs before after \<longleftrightarrow> cr_operation after = cr_operation before \<and> cr_operations after = cr_operations before
    \<and> consider_all pairs (cr_minimum before) = (ASTL_STATUS_SUCCESS, cr_minimum after)"

lemma advanced_trans: "advanced xs a b \<Longrightarrow> advanced ys b c \<Longrightarrow> advanced (xs @ ys) a c"
  by (simp add: advanced_def consider_all_append)

lemma capture_advances:
  "CaptureCorrelationRead env read n = (ASTL_STATUS_SUCCESS, read') \<Longrightarrow>
    advanced (event_pairs env 1 n step (sr_event (cr_operation read))) read read'"
  by (auto simp: CaptureCorrelationRead_def advanced_def event_pairs_def case_prod_beta' Let_def split: if_splits)

lemma pass_advances:
  "capture_pass env reads n = (Inr reads', n') \<Longrightarrow> n' = n + length reads \<and> length reads' = length reads
    \<and> (\<forall>j<length reads. advanced (event_pairs env 1 (n + j) step (sr_event (cr_operation (reads ! j)))) (reads ! j) (reads' ! j))"
proof (induction reads arbitrary: n reads' n')
  case (Cons read reads)
  obtain read' where capture: "CaptureCorrelationRead env read n = (ASTL_STATUS_SUCCESS, read')"
    using Cons.prems by (auto split: prod.splits if_splits)
  obtain rest where rest: "capture_pass env reads (Suc n) = (Inr rest, n')" "reads' = read' # rest"
    using Cons.prems capture by (auto split: prod.splits sum.splits)
  note IH = Cons.IH [OF rest(1)]
  show ?case
    using IH capture_advances [OF capture, of step] by (auto simp: rest(2) less_Suc_eq_0_disj)
qed simp

lemma passes_advance:
  "capture_passes env k reads n = (Inr reads', n') \<Longrightarrow> n' = n + k * length reads \<and> length reads' = length reads
    \<and> (\<forall>j<length reads. advanced (event_pairs env k (n + j) (length reads) (sr_event (cr_operation (reads ! j)))) (reads ! j) (reads' ! j))"
proof (induction k arbitrary: reads n)
  case 0
  then show ?case by (simp add: advanced_def)
next
  case (Suc k)
  obtain mid m where mid: "capture_pass env reads n = (Inr mid, m)" "capture_passes env k mid m = (Inr reads', n')"
    using Suc.prems by (auto split: prod.splits sum.splits)
  note one = pass_advances [OF mid(1), of "length reads"] and IH = Suc.IH [OF mid(2)]
  have "advanced (event_pairs env (Suc k) (n + j) (length reads) (sr_event (cr_operation (reads ! j)))) (reads ! j) (reads' ! j)"
    if j: "j < length reads" for j
  proof -
    have a: "advanced (event_pairs env 1 (n + j) (length reads) (sr_event (cr_operation (reads ! j)))) (reads ! j) (mid ! j)"
      using one j by blast
    have "advanced (event_pairs env k (m + j) (length mid) (sr_event (cr_operation (mid ! j)))) (mid ! j) (reads' ! j)"
      using IH one j by simp
    then have "advanced (event_pairs env k (n + j + length reads) (length reads) (sr_event (cr_operation (reads ! j)))) (mid ! j) (reads' ! j)"
      using one a by (simp add: advanced_def algebra_simps)
    from advanced_trans [OF a this] show ?thesis by (simp only: event_pairs_Suc [of env k])
  qed
  then show ?case using one IH by simp
qed

section \<open>What is prepared\<close>

text \<open>
  After some operations: the index knows each event read, each read is that of its operations, at
  one rate that is not zero, and every operation is in a read.
\<close>

definition prepared :: "scmi_operation list \<Rightarrow> correlation_read list \<Rightarrow> (32 word \<rightharpoonup> nat) \<Rightarrow> bool" where
  "prepared ops reads by_event \<longleftrightarrow>
    (\<forall>e k. by_event e = Some k \<longleftrightarrow> k < length reads \<and> sr_event (cr_operation (reads ! k)) = e)
    \<and> (\<forall>read\<in>set reads. sr_rate (cr_operation read) \<noteq> 0 \<and> cr_minimum read = ClockCorrelationMinimum (sr_rate (cr_operation read))
        \<and> (\<forall>i\<in>set (cr_operations read). \<exists>r. ScmiRead r \<in> set ops \<and> sr_id r = i
            \<and> sr_event r = sr_event (cr_operation read) \<and> sr_rate r = sr_rate (cr_operation read)))
    \<and> (\<Union>read\<in>set reads. set (cr_operations read)) = read_ids ops
    \<and> (\<lambda>read. sr_event (cr_operation read)) ` set reads = {sr_event r | r. ScmiRead r \<in> set ops}"

lemma read_ids_append [simp]: "read_ids (xs @ ys) = read_ids xs \<union> read_ids ys"
  by (auto simp: read_ids_def)

lemma ReadSpacing_rate: "ReadSpacing env r intervals = Inr (spacing, intervals') \<Longrightarrow> sr_rate r \<noteq> 0"
  by (auto simp: ReadSpacing_def rbind_eq_Inr_iff Let_def split: if_splits)

lemma prepared_other: "prepared ops reads by_event \<Longrightarrow> prepared (ops @ [OtherScmiOperation i]) reads by_event"
  by (simp add: prepared_def)

lemma prepared_new:
  assumes "prepared ops reads by_event" "by_event (sr_event r) = None" "sr_rate r \<noteq> 0"
  shows "prepared (ops @ [ScmiRead r]) (reads @ [new_read r spacing]) (by_event(sr_event r \<mapsto> length reads))"
  unfolding prepared_def
proof (intro conjI)
  have idx: "by_event e = Some k \<longleftrightarrow> k < length reads \<and> sr_event (cr_operation (reads ! k)) = e" for e k
    using assms(1) by (simp add: prepared_def)
  have fresh: "sr_event (cr_operation (reads ! k)) \<noteq> sr_event r" if "k < length reads" for k
    using idx [of "sr_event r" k] that assms(2) by auto
  show "\<forall>e k. (by_event(sr_event r \<mapsto> length reads)) e = Some k \<longleftrightarrow>
      k < length (reads @ [new_read r spacing]) \<and> sr_event (cr_operation ((reads @ [new_read r spacing]) ! k)) = e"
    using idx fresh by (auto simp: nth_append less_Suc_eq new_read_def)
  show "(\<Union>read\<in>set (reads @ [new_read r spacing]). set (cr_operations read)) = read_ids (ops @ [ScmiRead r])"
    using assms(1) by (simp add: prepared_def new_read_def)
  show "(\<lambda>read. sr_event (cr_operation read)) ` set (reads @ [new_read r spacing]) = {sr_event ra |ra. ScmiRead ra \<in> set (ops @ [ScmiRead r])}"
    using assms(1) by (auto simp: prepared_def new_read_def)
  show "\<forall>read\<in>set (reads @ [new_read r spacing]). sr_rate (cr_operation read) \<noteq> 0
      \<and> cr_minimum read = ClockCorrelationMinimum (sr_rate (cr_operation read))
      \<and> (\<forall>i\<in>set (cr_operations read). \<exists>ra. ScmiRead ra \<in> set (ops @ [ScmiRead r]) \<and> sr_id ra = i
          \<and> sr_event ra = sr_event (cr_operation read) \<and> sr_rate ra = sr_rate (cr_operation read))"
    using assms(1,3) by (fastforce simp: prepared_def new_read_def)
qed

lemma prepared_known:
  assumes "prepared ops reads by_event" "by_event (sr_event r) = Some k" "sr_rate (cr_operation (reads ! k)) = sr_rate r"
  shows "prepared (ops @ [ScmiRead r]) (reads[k := (reads ! k)\<lparr>cr_operations := cr_operations (reads ! k) @ [sr_id r]\<rparr>]) by_event"
proof -
  let ?read = "(reads ! k)\<lparr>cr_operations := cr_operations (reads ! k) @ [sr_id r]\<rparr>"
  let ?reads = "reads[k := ?read]"
  have k: "k < length reads" "sr_event (cr_operation (reads ! k)) = sr_event r" using assms by (simp_all add: prepared_def)
  have split: "reads = take k reads @ reads ! k # drop (Suc k) reads" using k(1) by (rule id_take_nth_drop)
  have upd: "?reads = take k reads @ ?read # drop (Suc k) reads" using k(1) by (rule upd_conv_take_nth_drop)
  have sets: "set ?reads = insert ?read (set (take k reads) \<union> set (drop (Suc k) reads))"
    "set reads = insert (reads ! k) (set (take k reads) \<union> set (drop (Suc k) reads))"
    by (subst upd, simp) (subst split, simp)
  show ?thesis
    unfolding prepared_def
  proof (intro conjI)
    show "\<forall>e j. by_event e = Some j \<longleftrightarrow> j < length ?reads \<and> sr_event (cr_operation (?reads ! j)) = e"
    proof -
      have "sr_event (cr_operation (?reads ! j)) = sr_event (cr_operation (reads ! j))" for j
        using k(1) by (cases "j = k") simp_all
      then show ?thesis using assms(1) by (simp add: prepared_def)
    qed
    have ids: "(\<Union>read\<in>set reads. set (cr_operations read)) = read_ids ops" using assms(1) by (simp add: prepared_def)
    show "(\<Union>read\<in>set ?reads. set (cr_operations read)) = read_ids (ops @ [ScmiRead r])"
      using ids unfolding sets by auto
    have events: "(\<lambda>read. sr_event (cr_operation read)) ` set reads = {sr_event r | r. ScmiRead r \<in> set ops}"
      using assms(1) by (simp add: prepared_def)
    have "(\<lambda>read. sr_event (cr_operation read)) ` set ?reads = (\<lambda>read. sr_event (cr_operation read)) ` set reads"
      unfolding sets by simp
    also have "\<dots> = {sr_event ra |ra. ScmiRead ra \<in> set (ops @ [ScmiRead r])}"
      using events k by (auto simp: sets(2))
    finally show "(\<lambda>read. sr_event (cr_operation read)) ` set ?reads = {sr_event ra |ra. ScmiRead ra \<in> set (ops @ [ScmiRead r])}" .
    show "\<forall>read\<in>set ?reads. sr_rate (cr_operation read) \<noteq> 0
        \<and> cr_minimum read = ClockCorrelationMinimum (sr_rate (cr_operation read))
        \<and> (\<forall>i\<in>set (cr_operations read). \<exists>ra. ScmiRead ra \<in> set (ops @ [ScmiRead r]) \<and> sr_id ra = i
            \<and> sr_event ra = sr_event (cr_operation read) \<and> sr_rate ra = sr_rate (cr_operation read))"
    proof
      fix read
      assume "read \<in> set ?reads"
      then consider "read = ?read" | "read \<in> set reads" unfolding sets by blast
      then show "sr_rate (cr_operation read) \<noteq> 0 \<and> cr_minimum read = ClockCorrelationMinimum (sr_rate (cr_operation read))
          \<and> (\<forall>i\<in>set (cr_operations read). \<exists>ra. ScmiRead ra \<in> set (ops @ [ScmiRead r]) \<and> sr_id ra = i
            \<and> sr_event ra = sr_event (cr_operation read) \<and> sr_rate ra = sr_rate (cr_operation read))"
      proof cases
        case 1
        have "reads ! k \<in> set reads" using k(1) by simp
        then show ?thesis using assms(1,3) k(2) unfolding 1 prepared_def by fastforce
      next
        case 2
        then show ?thesis using assms(1) unfolding prepared_def by fastforce
      qed
    qed
  qed
qed

lemma Prepare_prepared:
  "prepared done reads by_event \<Longrightarrow> PrepareCorrelationReads env ops reads by_event intervals = Inr reads' \<Longrightarrow>
    \<exists>by_event'. prepared (done @ ops) reads' by_event'"
proof (induction env ops reads by_event intervals arbitrary: "done" rule: PrepareCorrelationReads.induct)
  case (1 env reads by_event intervals)
  then show ?case by auto
next
  case (2 env i ops reads by_event intervals)
  then show ?case using prepared_other [of "done" reads by_event i] by fastforce
next
  case (3 env r ops reads by_event intervals)
  show ?case
  proof (cases "by_event (sr_event r)")
    case None
    obtain spacing intervals' where spacing: "ReadSpacing env r intervals = Inr (spacing, intervals')"
        "PrepareCorrelationReads env ops (reads @ [new_read r spacing]) (by_event(sr_event r \<mapsto> length reads)) intervals' = Inr reads'"
      using 3(4) None by (auto simp: rbind_eq_Inr_iff)
    from 3(1) [OF None prepared_new [OF 3(3) None ReadSpacing_rate [OF spacing(1)]] spacing(2)] show ?thesis by simp
  next
    case (Some k)
    then have rate: "\<not> sr_rate (cr_operation (reads ! k)) \<noteq> sr_rate r" using 3(4) by (auto split: if_splits)
    from 3(2) [OF Some rate prepared_known [OF 3(3) Some]] 3(4) rate Some show ?thesis by auto
  qed
qed

section \<open>The snapshot\<close>

lemma fold_emplace_dom: "dom (fold (\<lambda>i. emplace_correlation i k) is m) = dom m \<union> set is"
  by (induction "is" arbitrary: m) (auto simp: emplace_correlation_def split: if_splits)

lemma fold_emplace_value:
  "fold (\<lambda>i. emplace_correlation i k) is m i = Some k' \<Longrightarrow> m i = Some k' \<or> (i \<in> set is \<and> k' = k)"
proof (induction "is" arbitrary: m)
  case (Cons j "is")
  then have "emplace_correlation j k m i = Some k' \<or> (i \<in> set is \<and> k' = k)" by simp
  then show ?case by (auto simp: emplace_correlation_def split: if_splits)
qed simp

lemma MakeMinimumCorrelations_result:
  assumes "MakeMinimumCorrelations reads m0 = Inr m"
  shows "dom m = dom m0 \<union> (\<Union>read\<in>set reads. set (cr_operations read))"
    "m i = Some k \<Longrightarrow> m0 i = Some k
      \<or> (\<exists>read\<in>set reads. i \<in> set (cr_operations read) \<and> Minimum_Correlation (cr_minimum read) = Inr k)"
  using assms
proof (induction reads arbitrary: m0)
  case (Cons read reads)
  {
    case 1
    then show ?case using Cons.IH(1) by (fastforce simp: rbind_eq_Inr_iff fold_emplace_dom split: if_splits)
  next
    case 2
    obtain k1 where k1: "Minimum_Correlation (cr_minimum read) = Inr k1"
        "MakeMinimumCorrelations reads (fold (\<lambda>i. emplace_correlation i k1) (cr_operations read) m0) = Inr m"
      using 2(2) by (auto simp: rbind_eq_Inr_iff split: if_splits)
    show ?case using Cons.IH(2) [OF 2(1) k1(2)] fold_emplace_value [of k1 "cr_operations read" m0 i k] k1(1) by auto
  }
qed simp_all

lemma software_snapshot_result:
  assumes "software_snapshot env ops m0 n = (m, n')"
  shows "dom m = dom m0 \<union> read_ids ops" "\<forall>i k. m i = Some k \<longrightarrow> m0 i = Some k \<or> software_clock k"
  using assms
proof (induction ops arbitrary: m0 n)
  case (Cons op ops)
  {
    case 1
    then show ?case using Cons.IH(1) by (cases op) (auto simp: emplace_correlation_def)
  next
    case 2
    have "software_clock (MakeSoftwareClockCorrelation (ie_now env n))"
      by (simp add: software_clock_def MakeSoftwareClockCorrelation_def)
    then show ?case using Cons.IH(2) 2 by (cases op) (fastforce simp: emplace_correlation_def split: if_splits)+
  }
qed simp_all

text \<open>A correlation is the reading of the smallest offset among those of an event.\<close>

definition smallest_reading :: "32 word \<Rightarrow> (64 word \<times> int) list \<Rightarrow> clock_correlation \<Rightarrow> bool" where
  "smallest_reading rate pairs k \<longleftrightarrow> rate \<noteq> 0 \<and> running_pairs pairs
    \<and> (native_at_start k, raw_monotonic_at_start k) \<in> set pairs
    \<and> (\<forall>pair\<in>set pairs. offset rate (native_at_start k, raw_monotonic_at_start k) \<le> offset rate pair)
    \<and> tick_num (ticks k) * uint rate = tick_den (ticks k) * 1000000"

lemma smallest_reading_minimum:
  assumes "rate \<noteq> 0" "consider_all pairs (ClockCorrelationMinimum rate) = (ASTL_STATUS_SUCCESS, m)"
    "\<forall>(native, raw)\<in>set pairs. - (2 ^ 63) \<le> raw \<and> raw < 2 ^ 63" "Minimum_Correlation m = Inr k"
  shows "smallest_reading rate pairs k"
proof -
  have run: "running_pairs pairs" by (rule accepted_running [OF assms(3,1,2)])
  have m: "cm_best m = (if pairs = [] then None else Some (reduced_correlation rate (arg_min_list (offset rate) pairs)))"
    using consider_all_minimum [OF assms(1) run] assms(2) by simp
  then have ne: "pairs \<noteq> []" and k: "k = reduced_correlation rate (arg_min_list (offset rate) pairs)"
    using assms(4) by (auto simp: Minimum_Correlation_def split: if_splits)
  have pair: "(native_at_start k, raw_monotonic_at_start k) = arg_min_list (offset rate) pairs"
    by (simp add: k reduced_correlation_def Let_def)
  have least: "\<forall>pair\<in>set pairs. offset rate (arg_min_list (offset rate) pairs) \<le> offset rate pair"
    using f_arg_min_list_f [OF ne, of "offset rate"] by simp
  have ratio: "tick_num (ticks k) * uint rate = tick_den (ticks k) * 1000000" unfolding k by (rule reduced_ratio)
  show ?thesis
    unfolding smallest_reading_def pair using assms(1) run arg_min_list_in [OF ne, of "offset rate"] least ratio by blast
qed

definition read_events :: "scmi_operation list \<Rightarrow> 32 word set" where
  "read_events ops = {sr_event r | r. ScmiRead r \<in> set ops}"

lemma prepared_count: "prepared ops reads by_event \<Longrightarrow> length reads = card (read_events ops)"
proof -
  assume p: "prepared ops reads by_event"
  have "by_event (sr_event (cr_operation (reads ! k))) = Some k" if "k < length reads" for k
    using p that by (simp add: prepared_def)
  then have "distinct (map (\<lambda>read. sr_event (cr_operation read)) reads)"
    by (auto simp: distinct_conv_nth) (metis option.inject)
  moreover have "set (map (\<lambda>read. sr_event (cr_operation read)) reads) = read_events ops"
    using p by (simp add: prepared_def read_events_def)
  ultimately show ?thesis by (metis distinct_card length_map)
qed

lemma hardware_snapshot_result:
  assumes "PrepareCorrelationReads env ops [] Map.empty Map.empty = Inr reads"
    "capture_passes env kClockCorrelationReadAttempts reads n = (Inr reads', n')"
    "MakeMinimumCorrelations reads' Map.empty = Inr m" "\<forall>n. - (2 ^ 63) \<le> ie_now env n \<and> ie_now env n < 2 ^ 63"
  shows "dom m = read_ids ops" "n' = n + 20 * card (read_events ops)"
    "m i = Some k \<Longrightarrow> \<exists>r j. ScmiRead r \<in> set ops \<and> sr_id r = i \<and> j < card (read_events ops)
      \<and> smallest_reading (sr_rate r) (event_pairs env 20 (n + j) (card (read_events ops)) (sr_event r)) k"
proof -
  obtain by_event where prep: "prepared ops reads by_event"
    using Prepare_prepared [of "[]" "[]" Map.empty, OF _ assms(1)] by (auto simp: prepared_def)
  note len = prepared_count [OF prep]
  note adv = passes_advance [OF assms(2), unfolded kClockCorrelationReadAttempts_def]
  then have same: "map cr_operations reads' = map cr_operations reads" by (auto simp: advanced_def intro: nth_equalityI)
  have "(\<Union>read\<in>set reads'. set (cr_operations read)) = (\<Union>is\<in>set (map cr_operations reads'). set is)" by simp
  also have "\<dots> = (\<Union>read\<in>set reads. set (cr_operations read))" unfolding same by simp
  also have "\<dots> = read_ids ops" using prep by (simp add: prepared_def)
  finally show "dom m = read_ids ops" using MakeMinimumCorrelations_result(1) [OF assms(3)] by simp
  show "n' = n + 20 * card (read_events ops)" using adv len by simp
  assume "m i = Some k"
  then obtain read' where read': "read' \<in> set reads'" "i \<in> set (cr_operations read')" "Minimum_Correlation (cr_minimum read') = Inr k"
    using MakeMinimumCorrelations_result(2) [OF assms(3), of i k] by auto
  then obtain j where j: "j < length reads" "read' = reads' ! j" using adv by (metis in_set_conv_nth)
  let ?read = "reads ! j" and ?pairs = "event_pairs env 20 (n + j) (length reads) (sr_event (cr_operation (reads ! j)))"
  have step: "advanced ?pairs ?read read'" using adv j by simp
  have "?read \<in> set reads" using j by simp
  then have rate: "sr_rate (cr_operation ?read) \<noteq> 0" and init: "cr_minimum ?read = ClockCorrelationMinimum (sr_rate (cr_operation ?read))"
    and ops: "\<forall>i\<in>set (cr_operations ?read). \<exists>r. ScmiRead r \<in> set ops \<and> sr_id r = i
        \<and> sr_event r = sr_event (cr_operation ?read) \<and> sr_rate r = sr_rate (cr_operation ?read)"
    using prep by (simp_all add: prepared_def)
  have "i \<in> set (cr_operations ?read)" using step read'(2) by (simp add: advanced_def)
  then obtain r where r: "ScmiRead r \<in> set ops" "sr_id r = i" "sr_event r = sr_event (cr_operation ?read)"
      "sr_rate r = sr_rate (cr_operation ?read)" using ops by blast
  have "smallest_reading (sr_rate (cr_operation ?read)) ?pairs k"
    by (rule smallest_reading_minimum [OF rate _ _ read'(3)])
      (use step init assms(4) in \<open>auto simp: advanced_def event_pairs_def\<close>)
  then show "\<exists>r j. ScmiRead r \<in> set ops \<and> sr_id r = i \<and> j < card (read_events ops)
      \<and> smallest_reading (sr_rate r) (event_pairs env 20 (n + j) (card (read_events ops)) (sr_event r)) k"
    using r j len by (intro exI [of _ r] exI [of _ j]) simp
qed

text \<open>
  C19: a clock snapshot that succeeds changes neither the collector nor the events and correlates
  exactly the operations that are read on sample.  On the software clock each of them is at a ratio
  of one; on the counters of the device twenty readings of every event are taken in turn, all those
  that carry a time stamp never go backwards, and each operation has, at the period of its counter,
  the reading of its event whose offset of raw and native time is the smallest.
\<close>

theorem ioctl_snapshot_smallest_offset:
  assumes "ic_configuration c = Some cfg" "\<forall>n. - (2 ^ 63) \<le> ie_now env n \<and> ie_now env n < 2 ^ 63"
    "Ioctl_GetNativeClockSnapshot env (c, d) = (Inr m, c', d')"
  shows "let ops = operationsOnSample (cfg_operations cfg); events = card (read_events ops) in
    c' = c \<and> id_events d' = id_events d \<and> id_telemetry d' = id_telemetry d \<and> dom m = read_ids ops
    \<and> (if ic_software_clock c then \<forall>k\<in>ran m. software_clock k
       else id_reads d' = id_reads d + 20 * events
        \<and> (\<forall>i k. m i = Some k \<longrightarrow> (\<exists>r j. ScmiRead r \<in> set ops \<and> sr_id r = i \<and> j < events
            \<and> smallest_reading (sr_rate r) (event_pairs env 20 (id_reads d + j) events (sr_event r)) k)))"
proof -
  let ?ops = "operationsOnSample (cfg_operations cfg)"
  show ?thesis
  proof (cases "ic_software_clock c")
    case True
    obtain n where "software_snapshot env ?ops Map.empty (id_reads d) = (m, n)" "c' = c" "d' = d\<lparr>id_reads := n\<rparr>"
      using assms True by (auto simp: Ioctl_GetNativeClockSnapshot_def split: prod.splits)
    then show ?thesis using True software_snapshot_result [of env ?ops Map.empty "id_reads d" m n] by (auto simp: ran_def)
  next
    case False
    obtain reads reads' n where run: "PrepareCorrelationReads env ?ops [] Map.empty Map.empty = Inr reads"
        "capture_passes env kClockCorrelationReadAttempts reads (id_reads d) = (Inr reads', n)"
        "MakeMinimumCorrelations reads' Map.empty = Inr m" "c' = c" "d' = d\<lparr>id_reads := n\<rparr>"
      using assms False by (auto simp: Ioctl_GetNativeClockSnapshot_def split: prod.splits sum.splits)
    from hardware_snapshot_result [OF run(1-3) assms(2)] show ?thesis
      unfolding Let_def using False run(4,5) by (auto simp del: split_paired_Ex)
  qed
qed

text \<open>
  A device whose event 3 ticks once a nanosecond and answers its first two readings only: 10 at time 5
  and 20 at time 9.  The second has the smaller offset.
\<close>

definition ioctl_clock_env :: "nat ioctl_env" where
  "ioctl_clock_env = ioctl_example_env\<lparr>ie_info := (\<lambda>i. (ASTL_STATUS_SUCCESS, \<lparr>di_ts_rate = 1000000, di_grouped = False, di_grp_id = 0\<rparr>)),
     ie_read := (\<lambda>n i. if n = 0 then (ASTL_STATUS_SUCCESS, \<lparr>ds_id = i, ds_tstamp = 10, ds_val = 7\<rparr>)
       else if n = 1 then (ASTL_STATUS_SUCCESS, \<lparr>ds_id = i, ds_tstamp = 20, ds_val = 7\<rparr>)
       else (ASTL_STATUS_FILE_ERROR, \<lparr>ds_id = i, ds_tstamp = 0, ds_val = 0\<rparr>)),
     ie_now := (\<lambda>n. if n = 0 then 5 else 9)\<rparr>"

definition ioctl_clock_read :: scmi_read_operation where
  "ioctl_clock_read = \<lparr>sr_id = 2, sr_event = 3, sr_rate = 1000000\<rparr>"

definition ioctl_clock_config :: "(nat, scmi_operation) collection_configuration" where
  "ioctl_clock_config = ioctl_example_config\<lparr>cfg_operations := (cfg_operations ioctl_example_config)
     \<lparr>operationsOnSample := [ScmiRead ioctl_clock_read]\<rparr>\<rparr>"

definition ioctl_clock_collector :: "nat ioctl_collector" where
  "ioctl_clock_collector = ScmiIoctlCollector\<lparr>ic_configuration := Some ioctl_clock_config, ic_state := CONFIGURED\<rparr>"

definition ioctl_clock_first :: correlation_read where
  "ioctl_clock_first = (new_read ioctl_clock_read 500000000)\<lparr>cr_minimum := \<lparr>cm_rate = 1000000,
     cm_best = Some \<lparr>raw_monotonic_at_start = 5, native_at_start = 10, ticks = \<lparr>tick_num = 1, tick_den = 1\<rparr>\<rparr>,
     cm_last_native = 10, cm_count = 1\<rparr>\<rparr>"

definition ioctl_clock_minimum :: "nat \<Rightarrow> correlation_read" where
  "ioctl_clock_minimum failures = (new_read ioctl_clock_read 500000000)\<lparr>cr_minimum := \<lparr>cm_rate = 1000000,
     cm_best = Some \<lparr>raw_monotonic_at_start = 9, native_at_start = 20, ticks = \<lparr>tick_num = 1, tick_den = 1\<rparr>\<rparr>,
     cm_last_native = 20, cm_count = 2\<rparr>, cr_failures := failures,
     cr_last_error := (if failures = 0 then ASTL_STATUS_BAD_CONFIGURATION else ASTL_STATUS_FILE_ERROR)\<rparr>"

lemma ioctl_clock_captures:
  "CaptureCorrelationRead ioctl_clock_env (new_read ioctl_clock_read 500000000) 0 = (ASTL_STATUS_SUCCESS, ioctl_clock_first)"
  "CaptureCorrelationRead ioctl_clock_env ioctl_clock_first (Suc 0) = (ASTL_STATUS_SUCCESS, ioctl_clock_minimum 0)"
proof -
  have read: "sr_event (cr_operation (new_read ioctl_clock_read 500000000)) = 3" "cr_operation ioctl_clock_first = ioctl_clock_read"
    by (simp_all add: new_read_def ioctl_clock_read_def ioctl_clock_first_def)
  have env: "ie_read ioctl_clock_env 0 i = (ASTL_STATUS_SUCCESS, \<lparr>ds_id = i, ds_tstamp = 10, ds_val = 7\<rparr>)"
    "ie_read ioctl_clock_env (Suc 0) i = (ASTL_STATUS_SUCCESS, \<lparr>ds_id = i, ds_tstamp = 20, ds_val = 7\<rparr>)"
    "ie_now ioctl_clock_env 0 = 5" "ie_now ioctl_clock_env (Suc 0) = 9" for i by (simp_all add: ioctl_clock_env_def)
  have one: "reduced_correlation 1000000 pair = \<lparr>raw_monotonic_at_start = snd pair, native_at_start = fst pair, ticks = \<lparr>tick_num = 1, tick_den = 1\<rparr>\<rparr>" for pair
    by (simp add: reduced_correlation_def kNanosecondsPerMillisecond_def)
  have sample: "ConsiderSample 10 5 (ClockCorrelationMinimum 1000000) = (ASTL_STATUS_SUCCESS, cr_minimum ioctl_clock_first)"
    by (simp add: ConsiderSample_def ClockCorrelationMinimum_def one ioctl_clock_first_def)
  show "CaptureCorrelationRead ioctl_clock_env (new_read ioctl_clock_read 500000000) 0 = (ASTL_STATUS_SUCCESS, ioctl_clock_first)"
    using sample by (simp add: CaptureCorrelationRead_def env) (simp add: new_read_def ioctl_clock_read_def ioctl_clock_first_def)
  have smaller: "HasSmallerOffset 20 9 \<lparr>raw_monotonic_at_start = 5, native_at_start = 10, ticks = \<lparr>tick_num = 1, tick_den = 1\<rparr>\<rparr> 1000000"
    by (simp add: smaller_offset_exact) (simp add: offset_def)
  have "ConsiderSample 20 9 (cr_minimum ioctl_clock_first) = (ASTL_STATUS_SUCCESS, cr_minimum (ioctl_clock_minimum 0))"
    using smaller by (simp add: ConsiderSample_def one ioctl_clock_first_def ioctl_clock_minimum_def)
  then show "CaptureCorrelationRead ioctl_clock_env ioctl_clock_first (Suc 0) = (ASTL_STATUS_SUCCESS, ioctl_clock_minimum 0)"
    by (simp add: CaptureCorrelationRead_def env) (simp add: ioctl_clock_first_def ioctl_clock_minimum_def new_read_def)
qed

lemma ioctl_clock_first_passes:
  "capture_passes ioctl_clock_env (Suc (Suc k)) [new_read ioctl_clock_read 500000000] 0 =
    capture_passes ioctl_clock_env k [ioctl_clock_minimum 0] (Suc (Suc 0))"
  by (simp add: ioctl_clock_captures)

lemma ioctl_clock_late_passes:
  "capture_passes ioctl_clock_env k [ioctl_clock_minimum f] (Suc (Suc n)) = (Inr [ioctl_clock_minimum (f + k)], Suc (Suc n) + k)"
proof (induction k arbitrary: f n)
  case (Suc k)
  have "CaptureCorrelationRead ioctl_clock_env (ioctl_clock_minimum f) (Suc (Suc n)) = (ASTL_STATUS_SUCCESS, ioctl_clock_minimum (Suc f))"
    by (simp add: CaptureCorrelationRead_def ioctl_clock_env_def ioctl_clock_minimum_def)
  then show ?case using Suc.IH [of "Suc f" "Suc n"] by simp
qed simp

theorem ioctl_snapshot_smallest_offset_witness:
  "\<exists>m c' d' k. Ioctl_GetNativeClockSnapshot ioctl_clock_env (ioctl_clock_collector, ioctl_example_device) = (Inr m, c', d')
    \<and> dom m = {2} \<and> m 2 = Some k \<and> native_at_start k = 20 \<and> raw_monotonic_at_start k = 9 \<and> id_reads d' = 20"
proof -
  let ?ops = "operationsOnSample (cfg_operations ioctl_clock_config)"
  let ?k = "\<lparr>raw_monotonic_at_start = 9, native_at_start = 20, ticks = \<lparr>tick_num = 1, tick_den = 1\<rparr>\<rparr>"
  have ops: "?ops = [ScmiRead ioctl_clock_read]" by (simp add: ioctl_clock_config_def)
  have cfg: "ic_configuration ioctl_clock_collector = Some ioctl_clock_config" "\<not> ic_software_clock ioctl_clock_collector"
    by (simp_all add: ioctl_clock_collector_def ScmiIoctlCollector_def)
  have half: "ClockCorrelationReadSpacing \<lparr>ui_secs = 1, ui_exp = 0\<rparr> = Inr 500000000"
    by (simp add: ClockCorrelationReadSpacing_def spacing_constants scale_up_exact)
  have spacing: "ReadSpacing ioctl_clock_env ioctl_clock_read Map.empty = Inr (500000000, [(False, 0) \<mapsto> 500000000])"
    by (simp add: ReadSpacing_def checked_def ioctl_clock_env_def ioctl_example_env_def ioctl_clock_read_def Let_def half)
  have prepare: "PrepareCorrelationReads ioctl_clock_env ?ops [] Map.empty Map.empty = Inr [new_read ioctl_clock_read 500000000]"
    by (simp add: ops spacing)
  have twenty: "kClockCorrelationReadAttempts = Suc (Suc 18)" by (simp add: kClockCorrelationReadAttempts_def)
  have reads: "id_reads ioctl_example_device = 0" by (simp add: ioctl_example_device_def)
  have capture: "capture_passes ioctl_clock_env kClockCorrelationReadAttempts [new_read ioctl_clock_read 500000000] 0 =
      (Inr [ioctl_clock_minimum 18], 20)"
    using ioctl_clock_late_passes [of 18 0 0] by (simp only: twenty ioctl_clock_first_passes) simp
  have make: "MakeMinimumCorrelations [ioctl_clock_minimum 18] Map.empty = Inr [2 \<mapsto> ?k]"
    by (simp add: ioctl_clock_minimum_def Minimum_Correlation_def emplace_correlation_def new_read_def ioctl_clock_read_def)
  have run: "Ioctl_GetNativeClockSnapshot ioctl_clock_env (ioctl_clock_collector, ioctl_example_device) =
      (Inr [2 \<mapsto> ?k], ioctl_clock_collector, ioctl_example_device\<lparr>id_reads := 20\<rparr>)"
    by (simp add: Ioctl_GetNativeClockSnapshot_def cfg prepare reads capture make
      del: PrepareCorrelationReads.simps capture_passes.simps MakeMinimumCorrelations.simps)
  have "\<forall>n. - (2 ^ 63) \<le> ie_now ioctl_clock_env n \<and> ie_now ioctl_clock_env n < 2 ^ 63" by (simp add: ioctl_clock_env_def)
  from ioctl_snapshot_smallest_offset [OF cfg(1) this run] have "dom [2 \<mapsto> ?k] = read_ids ?ops" by (simp only: Let_def)
  then show ?thesis using run by (simp add: ops ioctl_clock_read_def)
qed

end
