(* ===== verification/Libsensors.thy ===== *)
theory Libsensors
  imports Sampling_Collector Samples
begin

text \<open>
  The libsensors collector (src/impl/libsensors/libsensors_collector.cpp with its operations).  The
  library that reads the sensors, the clocks and the sink are parameters, indexed by the number of
  values read so far; a chip is named by its address, zero being the null pointer.
\<close>

section \<open>Operations\<close>

record sensors_read_operation =
  so_id :: "16 word"
  so_chip :: nat
  so_subfeature :: int

text \<open>The dynamic_cast of the collector accepts a LibsensorsReadOperation.\<close>

datatype sensors_operation = SensorsRead sensors_read_operation | OtherSensorsOperation "16 word"

fun sensors_operation_id :: "sensors_operation \<Rightarrow> 16 word" where
  "sensors_operation_id (SensorsRead read) = so_id read"
| "sensors_operation_id (OtherSensorsOperation i) = i"

text \<open>The constructor throws for a null chip (None), before that it takes an operation id, which may fail.\<close>

definition LibsensorsBuildOperations :: "nat \<Rightarrow> int \<Rightarrow> nat \<Rightarrow> sensors_operation list result option \<times> nat" where
  "LibsensorsBuildOperations chip subfeature next =
    (case GetNextOperationId next of
       (Inl e, next') \<Rightarrow> (Some (Inl e), next')
     | (Inr i, next') \<Rightarrow>
         (if chip = 0 then None
          else Some (Inr [SensorsRead \<lparr>so_id = i, so_chip = chip, so_subfeature = subfeature\<rparr>]), next'))"

section \<open>The collector\<close>

text \<open>
  sensors_get_value at the n-th call: its result code and the value; the microseconds of
  steady_clock after it; CLOCK_MONOTONIC_RAW; the answer of the sink, given what it has received.
\<close>

record 't sensors_env =
  se_value :: "nat \<Rightarrow> nat \<Rightarrow> int \<Rightarrow> int \<times> fp"
  se_tick :: "nat \<Rightarrow> 64 word"
  se_now :: "nat \<Rightarrow> int"
  se_accept :: "('t \<times> raw_sample list) list \<Rightarrow> astl_status"

record 't sensors_collector =
  ls_sink :: bool
  ls_state :: CollectionLifecycleState
  ls_configuration :: "('t, sensors_operation) collection_configuration option"
  ls_sampler :: "periodic_sampler option"
  ls_reads :: nat
  ls_sunk :: "('t \<times> raw_sample list) list"

definition LibsensorsCollector :: "'t sensors_collector" where
  "LibsensorsCollector = \<lparr>ls_sink = False, ls_state = UNCONFIGURED, ls_configuration = None, ls_sampler = None, ls_reads = 0, ls_sunk = []\<rparr>"

definition Sensors_SetRawSampleSink :: "bool \<Rightarrow> 't sensors_collector \<Rightarrow> 't sensors_collector" where
  "Sensors_SetRawSampleSink sink c = c\<lparr>ls_sink := sink\<rparr>"

text \<open>The loop of one reading: the samples collected, or the error that drops them.\<close>

fun sensors_samples :: "'t sensors_env \<Rightarrow> sensors_operation list \<Rightarrow> nat \<Rightarrow> raw_sample list \<Rightarrow> raw_sample list result \<times> nat" where
  "sensors_samples env [] n samples = (Inr samples, n)"
| "sensors_samples env (OtherSensorsOperation i # ops) n samples = (Inl ASTL_STATUS_BAD_ARGUMENT, n)"
| "sensors_samples env (SensorsRead read # ops) n samples =
    (let (code, v) = se_value env n (so_chip read) (so_subfeature read) in
     if code \<noteq> 0 then (Inl ASTL_STATUS_INTERNAL_ERROR, Suc n)
     else sensors_samples env ops (Suc n)
       (samples @ [\<lparr>rs_operation_id = so_id read, rs_value = VF64 v, rs_raw_tick = se_tick env n\<rparr>]))"

definition Sensors_Sink :: "'t sensors_env \<Rightarrow> raw_sample list \<Rightarrow> 't sensors_collector \<Rightarrow> astl_status \<times> 't sensors_collector" where
  "Sensors_Sink env samples c =
    (let sunk = ls_sunk c @ [(cfg_target (the (ls_configuration c)), samples)] in (se_accept env sunk, c\<lparr>ls_sunk := sunk\<rparr>))"

definition Sensors_ExecuteCollectionOperations :: "'t sensors_env \<Rightarrow> sensors_operation list \<Rightarrow> 't sensors_collector
    \<Rightarrow> astl_status \<times> 't sensors_collector" where
  "Sensors_ExecuteCollectionOperations env ops c =
    (case sensors_samples env ops (ls_reads c) [] of
       (Inl e, n) \<Rightarrow> (e, c\<lparr>ls_reads := n\<rparr>)
     | (Inr samples, n) \<Rightarrow>
         if samples \<noteq> [] \<and> ls_sink c then Sensors_Sink env samples (c\<lparr>ls_reads := n\<rparr>)
         else (ASTL_STATUS_SUCCESS, c\<lparr>ls_reads := n\<rparr>))"

definition Sensors_ConfigureCollection :: "'t sensors_env \<Rightarrow> ('t, sensors_operation) collection_configuration
    \<Rightarrow> 't sensors_collector \<Rightarrow> astl_status \<times> 't sensors_collector" where
  "Sensors_ConfigureCollection env cfg c =
    (if ls_state c \<noteq> UNCONFIGURED \<and> ls_state c \<noteq> CONFIGURED \<and> ls_state c \<noteq> STOPPED then (ASTL_STATUS_BAD_CONFIGURATION, c)
     else Sensors_ExecuteCollectionOperations env (operationsBeforeStart (cfg_operations cfg))
       (c\<lparr>ls_configuration := Some cfg, ls_state := CONFIGURED\<rparr>))"

definition Sensors_StopIntervalSampling :: "'t sensors_collector \<Rightarrow> 't sensors_collector" where
  "Sensors_StopIntervalSampling c = c\<lparr>ls_sampler := None\<rparr>"

definition Sensors_ClearCollectionState :: "'t sensors_collector \<Rightarrow> astl_status \<times> 't sensors_collector" where
  "Sensors_ClearCollectionState c =
    (if ls_state c = STARTED \<or> ls_state c = PAUSED then (ASTL_STATUS_COLLECTION_ALREADY_RUNNING, c)
     else (ASTL_STATUS_SUCCESS, (Sensors_StopIntervalSampling c)\<lparr>ls_configuration := None, ls_state := UNCONFIGURED\<rparr>))"

definition CheckStartIntervalSampling :: "'t sensors_collector \<Rightarrow> astl_status" where
  "CheckStartIntervalSampling c =
    (if ls_state c \<notin> {CONFIGURED, STOPPED, PAUSED} then ASTL_STATUS_INTERNAL_ERROR
     else if ls_configuration c = None then ASTL_STATUS_INTERNAL_ERROR
     else ASTL_STATUS_SUCCESS)"

definition Sensors_StartIntervalSampling :: "'t sensors_collector \<Rightarrow> astl_status \<times> 't sensors_collector" where
  "Sensors_StartIntervalSampling c =
    (if CheckStartIntervalSampling c \<noteq> ASTL_STATUS_SUCCESS then (CheckStartIntervalSampling c, c)
     else if ls_sampler c \<noteq> None then (ASTL_STATUS_INTERNAL_ERROR, c)
     else (ASTL_STATUS_SUCCESS,
       c\<lparr>ls_sampler := Some \<lparr>ps_interval = cfg_sampling_interval (the (ls_configuration c)), ps_paused = False\<rparr>\<rparr>))"

definition Sensors_StartCollection :: "'t sensors_env \<Rightarrow> 't sensors_collector \<Rightarrow> astl_status \<times> 't sensors_collector" where
  "Sensors_StartCollection env c =
    (let status = CheckCollectionLifecycleAction (ls_state c) START in
     if status \<noteq> ASTL_STATUS_SUCCESS then (status, c)
     else case ls_configuration c of
         None \<Rightarrow> (ASTL_STATUS_BAD_CONFIGURATION, c)
       | Some cfg \<Rightarrow>
          (let (result, c1) = ExecuteStartMode cfg (Sensors_ExecuteCollectionOperations env) Sensors_StartIntervalSampling c in
           (result, if result = ASTL_STATUS_SUCCESS then c1\<lparr>ls_state := STARTED\<rparr> else c1)))"

definition Sensors_EmitPauseResumeSample :: "'t sensors_env \<Rightarrow> raw_sample \<Rightarrow> 't sensors_collector
    \<Rightarrow> astl_status \<times> 't sensors_collector" where
  "Sensors_EmitPauseResumeSample env marker c =
    (if ls_configuration c = None \<or> \<not> ls_sink c then (ASTL_STATUS_SUCCESS, c) else Sensors_Sink env [marker] c)"

definition Sensors_PauseCollection :: "'t sensors_env \<Rightarrow> 't sensors_collector \<Rightarrow> astl_status \<times> 't sensors_collector" where
  "Sensors_PauseCollection env c =
    (let (status, state, sampler, c') = PauseCollectionLifecycle (ls_state c) (ls_sampler c)
           (Sensors_EmitPauseResumeSample env (PauseMarker (se_now env (ls_reads c)))) c in
     (status, c'\<lparr>ls_state := state, ls_sampler := sampler\<rparr>))"

definition Sensors_ResumeCollection :: "'t sensors_env \<Rightarrow> 't sensors_collector \<Rightarrow> astl_status \<times> 't sensors_collector" where
  "Sensors_ResumeCollection env c =
    (let (status, state, sampler, c') = ResumeCollectionLifecycle (ls_state c) (ls_sampler c)
           (Sensors_EmitPauseResumeSample env (ResumeMarker (se_now env (ls_reads c)))) c in
     (status, c'\<lparr>ls_state := state, ls_sampler := sampler\<rparr>))"

definition Sensors_StopCollection :: "'t sensors_env \<Rightarrow> 't sensors_collector \<Rightarrow> astl_status \<times> 't sensors_collector" where
  "Sensors_StopCollection env c0 =
    (let c = Sensors_StopIntervalSampling c0;
         status = CheckCollectionLifecycleAction (ls_state c) STOP in
     if status \<noteq> ASTL_STATUS_SUCCESS then (status, c)
     else case ls_configuration c of
         None \<Rightarrow> (ASTL_STATUS_BAD_CONFIGURATION, c)
       | Some cfg \<Rightarrow>
          (let (result, c1) = ExecuteStopMode cfg (Sensors_ExecuteCollectionOperations env) c in
           (result, if result = ASTL_STATUS_SUCCESS then c1\<lparr>ls_state := STOPPED\<rparr> else c1)))"

definition Sensors_ReadImmediate :: "'t sensors_env \<Rightarrow> 't sensors_collector \<Rightarrow> astl_status \<times> 't sensors_collector" where
  "Sensors_ReadImmediate env c =
    (if ls_state c \<notin> {STARTED, CONFIGURED, PAUSED} then (ASTL_STATUS_BAD_CONFIGURATION, c)
     else case ls_configuration c of
         None \<Rightarrow> (ASTL_STATUS_BAD_CONFIGURATION, c)
       | Some cfg \<Rightarrow> Sensors_ExecuteCollectionOperations env (operationsOnSample (cfg_operations cfg)) c)"

definition Sensors_GetNativeClockSnapshot :: "int \<Rightarrow> 64 word \<Rightarrow> 't sensors_collector \<Rightarrow> clock_correlation_map" where
  "Sensors_GetNativeClockSnapshot now tick c =
    (case ls_configuration c of
       None \<Rightarrow> Map.empty
     | Some cfg \<Rightarrow>
         fold (\<lambda>op m. m(sensors_operation_id op \<mapsto> \<lparr>raw_monotonic_at_start = now, native_at_start = tick, ticks = MakeTickRatio 1 1000000\<rparr>))
           (operationsOnSample (cfg_operations cfg)) Map.empty)"

fun sensors_exec :: "'t sensors_env \<Rightarrow> ('t, sensors_operation) collection_configuration lifecycle_command
    \<Rightarrow> 't sensors_collector \<Rightarrow> astl_status \<times> 't sensors_collector" where
  "sensors_exec env (CmdConfigure cfg) c = Sensors_ConfigureCollection env cfg c"
| "sensors_exec env CmdClear c = Sensors_ClearCollectionState c"
| "sensors_exec env CmdStart c = Sensors_StartCollection env c"
| "sensors_exec env CmdPause c = Sensors_PauseCollection env c"
| "sensors_exec env CmdResume c = Sensors_ResumeCollection env c"
| "sensors_exec env CmdStop c = Sensors_StopCollection env c"
| "sensors_exec env CmdRead c = Sensors_ReadImmediate env c"

section \<open>What a reading changes\<close>

text \<open>Readings and markers add at most one batch to what is sunk and count the values read.\<close>

definition sensors_settled :: "'t sensors_collector \<Rightarrow> CollectionLifecycleState \<times> ('t, sensors_operation) collection_configuration option
    \<times> periodic_sampler option \<times> bool" where
  "sensors_settled c = (ls_state c, ls_configuration c, ls_sampler c, ls_sink c)"

lemma sensors_execute_settled [simp]:
  "sensors_settled (snd (Sensors_ExecuteCollectionOperations env ops c)) = sensors_settled c"
  by (simp add: Sensors_ExecuteCollectionOperations_def Sensors_Sink_def sensors_settled_def Let_def split: prod.split sum.split)

lemma sensors_emit_settled [simp]:
  "sensors_settled (snd (Sensors_EmitPauseResumeSample env marker c)) = sensors_settled c"
  by (simp add: Sensors_EmitPauseResumeSample_def Sensors_Sink_def sensors_settled_def Let_def)

lemma sensors_stop_mode_settled [simp]:
  "sensors_settled (snd (ExecuteStopMode cfg (Sensors_ExecuteCollectionOperations env) c)) = sensors_settled c"
  by (simp add: ExecuteStopMode_def case_prod_beta' Let_def split: collection_mode.split)

lemma sensors_settled_iff: "sensors_settled c' = sensors_settled c \<longleftrightarrow>
    ls_state c' = ls_state c \<and> ls_configuration c' = ls_configuration c \<and> ls_sampler c' = ls_sampler c \<and> ls_sink c' = ls_sink c"
  by (simp add: sensors_settled_def)

lemmas sensors_frames [simp] = sensors_execute_settled [unfolded sensors_settled_iff]
  sensors_emit_settled [unfolded sensors_settled_iff] sensors_stop_mode_settled [unfolded sensors_settled_iff]

lemma sensors_sampling_frame [simp]:
  "ls_state (snd (Sensors_StartIntervalSampling c)) = ls_state c"
  "ls_configuration (snd (Sensors_StartIntervalSampling c)) = ls_configuration c"
  "ls_sunk (snd (Sensors_StartIntervalSampling c)) = ls_sunk c" "ls_reads (snd (Sensors_StartIntervalSampling c)) = ls_reads c"
  by (simp_all add: Sensors_StartIntervalSampling_def)

lemma sensors_start_mode_frame [simp]:
  "ls_state (snd (ExecuteStartMode cfg (Sensors_ExecuteCollectionOperations env) Sensors_StartIntervalSampling c)) = ls_state c"
  "ls_configuration (snd (ExecuteStartMode cfg (Sensors_ExecuteCollectionOperations env) Sensors_StartIntervalSampling c)) = ls_configuration c"
  by (simp_all add: ExecuteStartMode_def case_prod_beta' Let_def split: collection_mode.split)

lemma sensors_sampling_sampler:
  "ls_configuration c = Some cfg \<Longrightarrow> Sensors_StartIntervalSampling c = (st, c') \<Longrightarrow>
    ls_sampler c' = (if st = ASTL_STATUS_SUCCESS then Some \<lparr>ps_interval = cfg_sampling_interval cfg, ps_paused = False\<rparr> else ls_sampler c)"
  by (auto simp: Sensors_StartIntervalSampling_def CheckStartIntervalSampling_def split: if_splits)

lemma sensors_execute_frame:
  assumes "Sensors_ExecuteCollectionOperations env ops c = (st, c')"
  shows "ls_sampler c' = ls_sampler c" "ls_configuration c' = ls_configuration c" "ls_state c' = ls_state c"
  using sensors_frames(1) [of env ops c] by (simp_all add: assms)

lemma sensors_start_mode_sampler:
  assumes "ls_configuration c = Some cfg" "ExecuteStartMode cfg (Sensors_ExecuteCollectionOperations env) Sensors_StartIntervalSampling c = (st, c')"
  shows "ls_sampler c' = (if st = ASTL_STATUS_SUCCESS \<and> cfg_mode cfg = MODE_SAMPLING
    then Some \<lparr>ps_interval = cfg_sampling_interval cfg, ps_paused = False\<rparr> else ls_sampler c)"
proof -
  obtain st1 c1 where e: "Sensors_ExecuteCollectionOperations env (operationsAtStart (cfg_operations cfg)) c = (st1, c1)" by (meson surj_pair)
  note f = sensors_execute_frame [OF e]
  have cfg1: "ls_configuration c1 = Some cfg" using f assms(1) by simp
  show ?thesis
    using assms(2) f sensors_sampling_sampler [OF cfg1] sensors_execute_frame(1) [of env "operationsOnSample (cfg_operations cfg)" c1]
    by (cases "cfg_mode cfg") (auto simp: ExecuteStartMode_def e split: if_splits)
qed

lemmas sensors_commands = Sensors_ConfigureCollection_def Sensors_ClearCollectionState_def Sensors_StartCollection_def
  Sensors_PauseCollection_def Sensors_ResumeCollection_def Sensors_StopCollection_def Sensors_StopIntervalSampling_def
  Sensors_ReadImmediate_def PauseCollectionLifecycle_def ResumeCollectionLifecycle_def

section \<open>The contract of a collector\<close>

interpretation sensors_lc: collector_lifecycle ls_state "sensors_exec env" for env :: "'t sensors_env"
proof unfold_locales
  fix c c' :: "'t sensors_collector" and st g
  show "sensors_exec env CmdStart c = (st, c') \<Longrightarrow> action_law (ls_state c) START st (ls_state c')"
    by (auto simp: sensors_commands action_law_def Let_def case_prod_beta' split: if_splits option.splits)
  show "sensors_exec env CmdPause c = (st, c') \<Longrightarrow> action_law (ls_state c) PAUSE st (ls_state c')"
    by (auto simp: sensors_commands action_law_def Let_def case_prod_beta' split: if_splits)
  show "sensors_exec env CmdResume c = (st, c') \<Longrightarrow> action_law (ls_state c) RESUME st (ls_state c')"
    by (auto simp: sensors_commands action_law_def Let_def case_prod_beta' split: if_splits)
  show "sensors_exec env CmdStop c = (st, c') \<Longrightarrow> action_law (ls_state c) STOP st (ls_state c')"
    by (auto simp: sensors_commands action_law_def Let_def case_prod_beta' split: if_splits option.splits)
  show "sensors_exec env (CmdConfigure g) c = (st, c') \<Longrightarrow>
      (if ls_state c \<in> {UNCONFIGURED, CONFIGURED, STOPPED}
       then ls_state c' \<in> {ls_state c, CONFIGURED, UNCONFIGURED} \<and> (st = ASTL_STATUS_SUCCESS \<longrightarrow> ls_state c' = CONFIGURED)
       else st \<noteq> ASTL_STATUS_SUCCESS \<and> ls_state c' = ls_state c)"
    by (auto simp: sensors_commands Let_def prod_eq_iff split: if_splits)
  show "sensors_exec env CmdClear c = (st, c') \<Longrightarrow>
      (if ls_state c \<in> {STARTED, PAUSED} then st \<noteq> ASTL_STATUS_SUCCESS \<and> ls_state c' = ls_state c
       else ls_state c' = UNCONFIGURED)"
    by (auto simp: sensors_commands split: if_splits)
  show "sensors_exec env CmdRead c = (st, c') \<Longrightarrow> ls_state c' = ls_state c"
    by (auto simp: sensors_commands prod_eq_iff split: if_splits option.splits)
qed

interpretation sensors_sc: strict_collector ls_state "sensors_exec env" for env :: "'t sensors_env"
proof unfold_locales
  fix c c' :: "'t sensors_collector" and st
  show "sensors_exec env CmdStart c = (st, c') \<Longrightarrow> st \<noteq> ASTL_STATUS_SUCCESS \<Longrightarrow> ls_state c' = ls_state c"
    by (auto simp: sensors_commands Let_def case_prod_beta' split: if_splits option.splits)
  show "sensors_exec env CmdStop c = (st, c') \<Longrightarrow> st \<noteq> ASTL_STATUS_SUCCESS \<Longrightarrow> ls_state c' = ls_state c"
    by (auto simp: sensors_commands Let_def case_prod_beta' split: if_splits option.splits)
qed

section \<open>What is sunk\<close>

text \<open>The samples of one reading that begins with the n-th value.\<close>

fun sensors_reading :: "'t sensors_env \<Rightarrow> nat \<Rightarrow> sensors_read_operation list \<Rightarrow> raw_sample list" where
  "sensors_reading env n [] = []"
| "sensors_reading env n (read # reads) =
    \<lparr>rs_operation_id = so_id read, rs_value = VF64 (snd (se_value env n (so_chip read) (so_subfeature read))), rs_raw_tick = se_tick env n\<rparr>
      # sensors_reading env (Suc n) reads"

fun sensors_answers :: "'t sensors_env \<Rightarrow> nat \<Rightarrow> sensors_read_operation list \<Rightarrow> bool" where
  "sensors_answers env n [] \<longleftrightarrow> True"
| "sensors_answers env n (read # reads) \<longleftrightarrow>
    fst (se_value env n (so_chip read) (so_subfeature read)) = 0 \<and> sensors_answers env (Suc n) reads"

text \<open>
  What a collector may have sunk after so many values have been read, when it has been given some
  configurations: markers, and readings of a whole sequence of operations, each of values of its own.
\<close>

inductive sensors_log :: "'t sensors_env \<Rightarrow> ('t, sensors_operation) collection_configuration set
    \<Rightarrow> ('t \<times> raw_sample list) list \<Rightarrow> nat \<Rightarrow> bool"
  for env :: "'t sensors_env" and cfgs :: "('t, sensors_operation) collection_configuration set" where
  log_empty: "sensors_log env cfgs [] 0"
| log_skip: "sensors_log env cfgs sunk n \<Longrightarrow> n \<le> n' \<Longrightarrow> sensors_log env cfgs sunk n'"
| log_marker: "sensors_log env cfgs sunk n \<Longrightarrow> cfg \<in> cfgs \<Longrightarrow> marker \<in> {PauseMarker (se_now env n), ResumeMarker (se_now env n)} \<Longrightarrow>
    sensors_log env cfgs (sunk @ [(cfg_target cfg, [marker])]) n"
| log_reading: "sensors_log env cfgs sunk n \<Longrightarrow> cfg \<in> cfgs \<Longrightarrow> reads \<noteq> [] \<Longrightarrow>
    map SensorsRead reads \<in> {operationsBeforeStart (cfg_operations cfg), operationsAtStart (cfg_operations cfg),
      operationsOnSample (cfg_operations cfg), operationsAtStop (cfg_operations cfg)} \<Longrightarrow> sensors_answers env n reads \<Longrightarrow>
    sensors_log env cfgs (sunk @ [(cfg_target cfg, sensors_reading env n reads)]) (n + length reads)"

lemma sensors_samples_result:
  assumes "sensors_samples env ops n samples = (r, n')"
  shows "n \<le> n'" "r = Inr samples' \<Longrightarrow> \<exists>reads. ops = map SensorsRead reads \<and> sensors_answers env n reads
    \<and> samples' = samples @ sensors_reading env n reads \<and> n' = n + length reads"
  using assms
proof (induction ops arbitrary: n samples)
  case (Cons op ops)
  {
    case 1
    then show ?case using Cons.IH(1) by (cases op) (fastforce simp: Let_def dest: Suc_leD split: prod.splits if_splits)+
  next
    case 2
    then obtain read where op: "op = SensorsRead read" by (cases op) simp_all
    obtain code v where v: "se_value env n (so_chip read) (so_subfeature read) = (code, v)" by (meson surj_pair)
    have code: "code = 0" using 2 by (auto simp: op v split: if_splits)
    have run: "sensors_samples env ops (Suc n) (samples @ [\<lparr>rs_operation_id = so_id read, rs_value = VF64 v, rs_raw_tick = se_tick env n\<rparr>]) = (r, n')"
      using 2 by (simp add: op v code)
    obtain reads where "ops = map SensorsRead reads" "sensors_answers env (Suc n) reads"
        "samples' = samples @ \<lparr>rs_operation_id = so_id read, rs_value = VF64 v, rs_raw_tick = se_tick env n\<rparr> # sensors_reading env (Suc n) reads"
        "n' = Suc n + length reads" using Cons.IH(2) [OF 2(1) run] by auto
    then show ?case by (intro exI [of _ "read # reads"]) (simp add: op v code)
  }
qed simp_all

text \<open>What holds between commands, when the configurations given are cfgs.\<close>

definition sensors_inv :: "'t sensors_env \<Rightarrow> ('t, sensors_operation) collection_configuration set \<Rightarrow> 't sensors_collector \<Rightarrow> bool" where
  "sensors_inv env cfgs c \<longleftrightarrow> set_option (ls_configuration c) \<subseteq> cfgs \<and> sensors_log env cfgs (ls_sunk c) (ls_reads c)"

lemma sensors_inv_execute:
  assumes "sensors_inv env cfgs c" "ls_configuration c = Some cfg"
    "ops \<in> {operationsBeforeStart (cfg_operations cfg), operationsAtStart (cfg_operations cfg),
      operationsOnSample (cfg_operations cfg), operationsAtStop (cfg_operations cfg)}"
  shows "sensors_inv env cfgs (snd (Sensors_ExecuteCollectionOperations env ops c))"
proof -
  obtain r n where run: "sensors_samples env ops (ls_reads c) [] = (r, n)" by (meson surj_pair)
  note result = sensors_samples_result [OF run]
  have skip: "sensors_log env cfgs (ls_sunk c) n"
    using assms(1) result(1) by (auto simp: sensors_inv_def intro: log_skip)
  show ?thesis
  proof (cases r)
    case (Inl e)
    then show ?thesis using assms(1) skip by (simp add: Sensors_ExecuteCollectionOperations_def run sensors_inv_def)
  next
    case (Inr samples)
    show ?thesis
    proof (cases "samples \<noteq> [] \<and> ls_sink c")
      case True
      obtain reads where reads: "ops = map SensorsRead reads" "sensors_answers env (ls_reads c) reads"
          "samples = sensors_reading env (ls_reads c) reads" "n = ls_reads c + length reads" using result(2) [OF Inr] by auto
      have "reads \<noteq> []" using True reads(3) by auto
      then have "sensors_log env cfgs (ls_sunk c @ [(cfg_target cfg, samples)]) n"
        unfolding reads(3,4) using assms reads(1,2) by (intro log_reading) (auto simp: sensors_inv_def)
      then show ?thesis
        using assms True by (simp add: Sensors_ExecuteCollectionOperations_def run Inr sensors_inv_def Sensors_Sink_def Let_def)
    next
      case False
      then have "snd (Sensors_ExecuteCollectionOperations env ops c) = c\<lparr>ls_reads := n\<rparr>"
        by (simp only: Sensors_ExecuteCollectionOperations_def run Inr prod.case sum.case if_False snd_conv)
      then show ?thesis using assms(1) skip by (simp add: sensors_inv_def)
    qed
  qed
qed

lemma sensors_inv_emit:
  assumes "sensors_inv env cfgs c" "marker \<in> {PauseMarker (se_now env (ls_reads c)), ResumeMarker (se_now env (ls_reads c))}"
  shows "sensors_inv env cfgs (snd (Sensors_EmitPauseResumeSample env marker c))"
  using assms by (auto simp: Sensors_EmitPauseResumeSample_def Sensors_Sink_def sensors_inv_def Let_def intro: log_marker)

lemma sensors_inv_update [simp]:
  "sensors_inv env cfgs (c\<lparr>ls_state := s\<rparr>) = sensors_inv env cfgs c" "sensors_inv env cfgs (c\<lparr>ls_sampler := p\<rparr>) = sensors_inv env cfgs c"
  "sensors_inv env cfgs (c\<lparr>ls_state := s, ls_sampler := p\<rparr>) = sensors_inv env cfgs c"
  by (simp_all add: sensors_inv_def)

lemma sensors_inv_sampling: "sensors_inv env cfgs c \<Longrightarrow> sensors_inv env cfgs (snd (Sensors_StartIntervalSampling c))"
  by (simp add: sensors_inv_def)

lemma sensors_inv_start_mode:
  assumes "sensors_inv env cfgs c" "ls_configuration c = Some cfg"
  shows "sensors_inv env cfgs (snd (ExecuteStartMode cfg (Sensors_ExecuteCollectionOperations env) Sensors_StartIntervalSampling c))"
proof -
  obtain st c1 where e: "Sensors_ExecuteCollectionOperations env (operationsAtStart (cfg_operations cfg)) c = (st, c1)" by (meson surj_pair)
  have 1: "sensors_inv env cfgs c1" using sensors_inv_execute [OF assms, of "operationsAtStart (cfg_operations cfg)"] by (simp add: e)
  have "ls_configuration c1 = Some cfg" using sensors_execute_frame(2) [OF e] assms(2) by simp
  from sensors_inv_execute [OF 1 this, of "operationsOnSample (cfg_operations cfg)"] sensors_inv_sampling [OF 1] show ?thesis
    using 1 by (cases "cfg_mode cfg") (simp_all add: ExecuteStartMode_def e)
qed

lemma sensors_inv_stop_mode:
  assumes "sensors_inv env cfgs c" "ls_configuration c = Some cfg"
  shows "sensors_inv env cfgs (snd (ExecuteStopMode cfg (Sensors_ExecuteCollectionOperations env) c))"
proof -
  obtain st c1 where e: "Sensors_ExecuteCollectionOperations env (operationsOnSample (cfg_operations cfg)) c = (st, c1)" by (meson surj_pair)
  have 1: "sensors_inv env cfgs c1" using sensors_inv_execute [OF assms, of "operationsOnSample (cfg_operations cfg)"] by (simp add: e)
  have "ls_configuration c1 = Some cfg" using sensors_execute_frame(2) [OF e] assms(2) by simp
  from sensors_inv_execute [OF 1 this, of "operationsAtStop (cfg_operations cfg)"] show ?thesis
    using 1 assms(1) sensors_inv_execute [OF assms, of "operationsAtStop (cfg_operations cfg)"]
    by (cases "cfg_mode cfg") (simp_all add: ExecuteStopMode_def e)
qed

lemma sensors_inv_exec:
  assumes "sensors_inv env cfgs c" "\<forall>cfg. x = CmdConfigure cfg \<longrightarrow> cfg \<in> cfgs"
  shows "sensors_inv env cfgs (snd (sensors_exec env x c))"
proof (cases x)
  case (CmdConfigure cfg)
  then have "sensors_inv env cfgs (c\<lparr>ls_configuration := Some cfg, ls_state := CONFIGURED\<rparr>)"
    using assms by (simp add: sensors_inv_def)
  from sensors_inv_execute [OF this] show ?thesis using CmdConfigure assms(1) by (simp add: Sensors_ConfigureCollection_def)
next
  case CmdClear
  then show ?thesis using assms(1) by (simp add: sensors_commands sensors_inv_def)
next
  case CmdStart
  then show ?thesis
    using assms(1) sensors_inv_start_mode [OF assms(1)]
    by (auto simp: Sensors_StartCollection_def case_prod_beta' Let_def split: option.split)
next
  case CmdPause
  then show ?thesis
    using assms(1) sensors_inv_emit [OF assms(1)]
    by (auto simp: Sensors_PauseCollection_def PauseCollectionLifecycle_def case_prod_beta' Let_def)
next
  case CmdResume
  then show ?thesis
    using assms(1) sensors_inv_emit [OF assms(1)]
    by (auto simp: Sensors_ResumeCollection_def ResumeCollectionLifecycle_def case_prod_beta' Let_def)
next
  case CmdStop
  have "sensors_inv env cfgs (Sensors_StopIntervalSampling c)" using assms(1) by (simp add: Sensors_StopIntervalSampling_def)
  from sensors_inv_stop_mode [OF this] this show ?thesis
    using CmdStop by (auto simp: Sensors_StopCollection_def case_prod_beta' Let_def split: option.split)
next
  case CmdRead
  then show ?thesis
    using assms(1) sensors_inv_execute [OF assms(1)] by (auto simp: Sensors_ReadImmediate_def split: option.split)
qed

section \<open>The sampler\<close>

abbreviation sensors_consistent :: "'t sensors_collector \<Rightarrow> bool" where
  "sensors_consistent c \<equiv> sampler_ok (ls_state c) (ls_configuration c) (ls_sampler c)"

lemma sensors_consistent_start:
  assumes "sensors_consistent c" shows "sensors_consistent (snd (Sensors_StartCollection env c))"
proof (cases "CheckCollectionLifecycleAction (ls_state c) START = ASTL_STATUS_SUCCESS")
  case True
  then have configured: "ls_state c = CONFIGURED" by (cases "ls_state c") (simp_all add: lifecycle_table)
  show ?thesis
  proof (cases "ls_configuration c")
    case None
    then show ?thesis using assms True by (simp add: Sensors_StartCollection_def)
  next
    case (Some cfg)
    obtain st c1 where e: "ExecuteStartMode cfg (Sensors_ExecuteCollectionOperations env) Sensors_StartIntervalSampling c = (st, c1)"
      by (meson surj_pair)
    have f: "ls_state c1 = CONFIGURED" "ls_configuration c1 = Some cfg"
      using sensors_start_mode_frame [of cfg env c] configured Some by (simp_all add: e)
    have none: "ls_sampler c = None" using sampler_ok_not_running [OF assms] configured by simp
    show ?thesis
      using sensors_start_mode_sampler [OF Some e] f none True Some
      by (auto simp: Sensors_StartCollection_def e sampler_ok_def)
  qed
next
  case False
  then show ?thesis using assms by (simp add: Sensors_StartCollection_def)
qed

lemma sensors_consistent_exec:
  assumes "sensors_consistent c" shows "sensors_consistent (snd (sensors_exec env x c))"
proof (cases x)
  case (CmdConfigure cfg)
  show ?thesis
  proof (cases "ls_state c \<in> {UNCONFIGURED, CONFIGURED, STOPPED}")
    case True
    then have "ls_sampler c = None" using sampler_ok_not_running [OF assms] by auto
    then have "sensors_consistent (c\<lparr>ls_configuration := Some cfg, ls_state := CONFIGURED\<rparr>)" by (simp add: sampler_ok_def)
    then show ?thesis
      using CmdConfigure True by (auto simp: Sensors_ConfigureCollection_def)
  next
    case False
    then show ?thesis using CmdConfigure assms by (simp add: Sensors_ConfigureCollection_def)
  qed
next
  case CmdClear
  then show ?thesis using assms by (auto simp: Sensors_ClearCollectionState_def Sensors_StopIntervalSampling_def sampler_ok_def [of UNCONFIGURED])
next
  case CmdStart
  then show ?thesis using sensors_consistent_start [OF assms] by simp
next
  case CmdPause
  then show ?thesis
    using assms by (cases "ls_state c") (auto simp: sensors_commands sampler_ok_def case_prod_beta' Let_def lifecycle_table split: option.splits)
next
  case CmdResume
  then show ?thesis
    using assms by (cases "ls_state c") (auto simp: sensors_commands sampler_ok_def case_prod_beta' Let_def lifecycle_table split: option.splits)
next
  case CmdStop
  then show ?thesis
    using assms by (auto simp: sensors_commands sampler_ok_def case_prod_beta' Let_def split: option.splits)
next
  case CmdRead
  then show ?thesis
    using assms by (auto simp: Sensors_ReadImmediate_def split: option.split)
qed

fun sensors_run :: "'t sensors_env \<Rightarrow> ('t, sensors_operation) collection_configuration lifecycle_command list
    \<Rightarrow> 't sensors_collector \<Rightarrow> 't sensors_collector" where
  "sensors_run env [] c = c"
| "sensors_run env (x # xs) c = sensors_run env xs (snd (sensors_exec env x c))"

lemma sensors_run_eq: "sensors_run env xs c = sensors_lc.run env xs c"
  by (induction xs arbitrary: c) simp_all

lemma sensors_run_inv:
  "sensors_inv env cfgs c \<Longrightarrow> {cfg. CmdConfigure cfg \<in> set xs} \<subseteq> cfgs \<Longrightarrow> sensors_inv env cfgs (sensors_run env xs c)"
proof (induction xs arbitrary: c)
  case (Cons x xs)
  have "sensors_inv env cfgs (snd (sensors_exec env x c))" by (rule sensors_inv_exec [OF Cons.prems(1)]) (use Cons.prems(2) in auto)
  then show ?case using Cons by auto
qed simp

lemma sensors_run_consistent: "sensors_consistent c \<Longrightarrow> sensors_consistent (sensors_run env xs c)"
  by (induction xs arbitrary: c) (simp_all add: sensors_consistent_exec)

lemma sensors_samples_complete:
  "sensors_answers env n reads \<Longrightarrow>
    sensors_samples env (map SensorsRead reads) n samples = (Inr (samples @ sensors_reading env n reads), n + length reads)"
  by (induction reads arbitrary: n samples) (simp_all add: case_prod_beta' Let_def)

lemma sensors_reading_empty [simp]: "sensors_reading env n reads = [] \<longleftrightarrow> reads = []"
  by (cases reads) simp_all

lemma sensors_read_delivers:
  assumes "ls_state c \<in> {STARTED, CONFIGURED, PAUSED}" "ls_configuration c = Some cfg" "ls_sink c"
    "operationsOnSample (cfg_operations cfg) = map SensorsRead reads" "reads \<noteq> []" "sensors_answers env (ls_reads c) reads"
  shows "ls_sunk (snd (Sensors_ReadImmediate env c)) = ls_sunk c @ [(cfg_target cfg, sensors_reading env (ls_reads c) reads)]"
  using assms by (auto simp: Sensors_ReadImmediate_def Sensors_ExecuteCollectionOperations_def sensors_samples_complete Sensors_Sink_def Let_def)

text \<open>
  C24: whatever commands a new libsensors collector receives, and whatever the sensors, the clocks and
  the sink answer: it hands over only markers and whole readings of a sequence of operations of a
  configuration it was given, each value of its own operation, from calls that all succeeded and that
  no two readings share, in the order of the calls; a reading that fails hands over nothing, and a read
  whose calls all succeed hands over its reading.  The collector moves as a collection may, and keeps a
  sampler only for a running collection in sampling mode, at its interval, paused exactly while the
  collection is.
\<close>

theorem sensors_readings_whole:
  fixes xs :: "('t, sensors_operation) collection_configuration lifecycle_command list"
  shows "let c = sensors_run env xs (Sensors_SetRawSampleSink sink LibsensorsCollector) in
    sensors_log env {cfg. CmdConfigure cfg \<in> set xs} (ls_sunk c) (ls_reads c)
    \<and> collection_move\<^sup>*\<^sup>* UNCONFIGURED (ls_state c) \<and> sampler_ok (ls_state c) (ls_configuration c) (ls_sampler c)
    \<and> (ls_state c \<in> {STARTED, CONFIGURED, PAUSED} \<and> ls_configuration c = Some cfg \<and> ls_sink c
        \<and> operationsOnSample (cfg_operations cfg) = map SensorsRead reads \<and> reads \<noteq> [] \<and> sensors_answers env (ls_reads c) reads
      \<longrightarrow> ls_sunk (snd (sensors_exec env CmdRead c)) = ls_sunk c @ [(cfg_target cfg, sensors_reading env (ls_reads c) reads)])"
proof -
  let ?new = "Sensors_SetRawSampleSink sink LibsensorsCollector :: 't sensors_collector"
  have "sensors_inv env {cfg. CmdConfigure cfg \<in> set xs} ?new"
    by (simp add: sensors_inv_def Sensors_SetRawSampleSink_def LibsensorsCollector_def log_empty)
  then have "sensors_inv env {cfg. CmdConfigure cfg \<in> set xs} (sensors_run env xs ?new)" by (rule sensors_run_inv) simp
  moreover have "sensors_consistent ?new" by (simp add: sampler_ok_def Sensors_SetRawSampleSink_def LibsensorsCollector_def)
  then have "sensors_consistent (sensors_run env xs ?new)" by (rule sensors_run_consistent)
  moreover have "ls_state ?new = UNCONFIGURED" by (simp add: Sensors_SetRawSampleSink_def LibsensorsCollector_def)
  then have "collection_move\<^sup>*\<^sup>* UNCONFIGURED (ls_state (sensors_run env xs ?new))"
    using sensors_lc.run_reachable [of ?new env xs] by (simp add: sensors_run_eq)
  ultimately show ?thesis using sensors_read_delivers [of "sensors_run env xs ?new" cfg reads env]
    by (simp add: Let_def sensors_inv_def)
qed

definition sensors_example_env :: "nat sensors_env" where
  "sensors_example_env = \<lparr>se_value = (\<lambda>n chip sub. (0, fp_of_int binary64 sub)), se_tick = of_nat, se_now = int,
     se_accept = (\<lambda>s. ASTL_STATUS_SUCCESS)\<rparr>"

definition sensors_example_config :: "(nat, sensors_operation) collection_configuration" where
  "sensors_example_config = \<lparr>cfg_target = 4, cfg_operations = \<lparr>operationsBeforeStart = [], operationsAtStart = [],
     operationsOnSample = [SensorsRead \<lparr>so_id = 1, so_chip = 8, so_subfeature = 3\<rparr>], operationsAtStop = []\<rparr>,
     cfg_mode = MODE_IMMEDIATE, cfg_sampling_interval = 0\<rparr>"

theorem sensors_readings_whole_witness:
  "let c = sensors_run sensors_example_env [CmdConfigure sensors_example_config] (Sensors_SetRawSampleSink True LibsensorsCollector)
   in ls_state c = CONFIGURED \<and> map (map rs_operation_id \<circ> snd) (ls_sunk (snd (sensors_exec sensors_example_env CmdRead c))) = [[1]]"
proof -
  let ?c = "sensors_run sensors_example_env [CmdConfigure sensors_example_config] (Sensors_SetRawSampleSink True LibsensorsCollector)"
  have c: "?c = \<lparr>ls_sink = True, ls_state = CONFIGURED, ls_configuration = Some sensors_example_config, ls_sampler = None,
      ls_reads = 0, ls_sunk = []\<rparr>"
    by (simp add: Sensors_SetRawSampleSink_def LibsensorsCollector_def Sensors_ConfigureCollection_def sensors_example_config_def
      Sensors_ExecuteCollectionOperations_def)
  have "operationsOnSample (cfg_operations sensors_example_config) = map SensorsRead [\<lparr>so_id = 1, so_chip = 8, so_subfeature = 3\<rparr>]"
    by (simp add: sensors_example_config_def)
  with sensors_readings_whole [of sensors_example_env "[CmdConfigure sensors_example_config]" True sensors_example_config
      "[\<lparr>so_id = 1, so_chip = 8, so_subfeature = 3\<rparr>]"]
  have "ls_sunk (snd (sensors_exec sensors_example_env CmdRead ?c)) =
      [(cfg_target sensors_example_config, sensors_reading sensors_example_env 0 [\<lparr>so_id = 1, so_chip = 8, so_subfeature = 3\<rparr>])]"
    unfolding Let_def c by (simp add: sensors_example_env_def)
  then show ?thesis unfolding Let_def c by simp
qed

end
