(* ===== verification/Spec2Isabelle.thy ===== *)
theory Spec2Isabelle
  imports Astl_Value Lifecycle Text_Utils Clocks Formula Ordered_Map Samples Sample_Batches Metrics
    Residency Residency_Rounds Summarizer Numa Numa_Readings Collector_Manager Composite_Metric Metric_Dispatch Metric_Manager
    Metric_Tables Metric_Objects Metric_Replay Sampling_Collector Procfs_Readers Procfs_Cpu Procfs_Interrupts
    Procfs_System Procfs_Collector Procfs_Rates Orchestrator_Session Session_Agreement Session_Api Session_Recovery
    Session_Properties Crop_Windows Sample_Replay Replay_Visit Sample_Cropping Crop_Properties Scmi_Text Scmi_Collector
    Scmi_Lifecycle Scmi_Lock Scmi_Restore Scmi_Clock Read_Cache Scmi_Correlation Scmi_Ioctl Scmi_Ioctl_Laws
    Scmi_Ioctl_Clock Libsensors
begin

text \<open>
  A verification development of ASTL, the Arm SoC Telemetry Library (C++, src/src and src/utils).

  The program.  A client configures a collection through the C API.  Collectors (NUMA, procfs,
  SCMI, libsensors, Windows PDH) execute operations, at the start, periodically, and at the stop
  of the collection, and hand raw samples with native clock ticks to the orchestrator.  The
  metric manager normalises the ticks to CLOCK_MONOTONIC_RAW and gives each sample to the metrics
  of its operation id.  A metric turns raw samples into processed samples (formula, delta, rate,
  residency), keeps statistics, and sinks the processed samples into the orchestrator's store,
  from which summarizers and writers read them in batches.

  The theories, in the order of the data flow.

  Prelude (include/astl/astl_errors.h, utils/astl_internal_status.hpp): the status codes, the
  result type (Inl is the error of std::expected) and generic lemmas.  Ieee_Float: IEEE-754
  binary32, binary64 and binary128 data with rounding to nearest even, as the C++ floating types
  have it; its lemmas are monotonicity and exactness of rounding.  Astl_Value
  (src/impl/common/astl_value): the variant and its checked arithmetic.  Lifecycle
  (common/collection_lifecycle, src/impl/collector): the status table against a state machine,
  and the contract of a collector as the locale collector_lifecycle.  Text_Utils (common/
  text_parse_utils, key_value_text_utils, text_file_utils, procfs/procfs_utils): the text
  parsers, with round trips.  Clocks (common/clock_correlation, wall_clock_correlation, utils/
  astl_wall_clock, operation/operation): clock conversion at int64 and operation ids.  Formula
  (src/impl/metric/formula_builder, scaling_formula, expression_formula): formulas and their
  composition.  Ordered_Map: std::map over the comparison of AstlValue, as a locale.  Samples and
  Sample_Batches (common/i_raw_sample_sink, i_processed_sample_sink, src/impl/orchestrator): the
  sample records, the sinks (locale processed_sink), the store, its batched visits (locales
  batch_consumer and exact_batch_consumer), and the cache of raw samples with the failures of its
  file operations, the rollback included.  Metrics and Residency (src/impl/metric): the metrics;
  Residency_Rounds: what whole rounds of a residency metric deliver.  Summarizer (src/impl/output/summarizer): the accumulators and histograms, each an
  interpretation of batch_consumer.  Numa (src/impl/numa): the numastat reader and the NUMA
  collector, an interpretation of collector_lifecycle and strict_collector; Numa_Readings: what it
  measures.  Collector_Manager (src/impl/collector/collector_manager): the collectors of all
  targets, proved over strict_collector and applied to NUMA collectors.  Metric_Dispatch and Metric_Manager
  (src/impl/metric/metric_manager): routing, sorting and dispatch of raw samples, registration,
  routes, resets, targeted replay, over the interface of a metric (locale metric_objects);
  Metric_Tables: the invariant of the manager's tables over a step relation of its calls.
  Composite_Metric (src/impl/procfs/procfs_composite_metric): the metric over several procfs
  fields.  Metric_Objects (metric/counter, CreateMetricFromConfig): the heap of all metric classes,
  an interpretation of metric_objects through the locale sink_relation; Metric_Replay: what live
  processing means for one metric, from raw ticks to stored samples, and that a targeted replay into
  a sink does the same as live processing.
  Sampling_Collector (src/impl/numa, src/impl/procfs): what the collectors with one configuration
  and one sampler share, as a locale over the lifecycle contract.  Procfs_Readers, Procfs_Cpu,
  Procfs_Interrupts and Procfs_System (src/impl/procfs): the readers of /proc, with exact
  specifications of the CPU lines and the interrupt tables over the tokens of any text, and the
  completeness of task counts; Procfs_Collector:
  the collector with its baselines; Procfs_Rates: its life, and when it derives a rate at all.

  The sessions.  Orchestrator_Session (src/impl/orchestrator/orchestrator): the state of every target
  and what configuring, starting, rolling back, reading, pausing, resuming and stopping do to
  collectors, metrics, samples and final outputs; Session_Agreement: that this state agrees with the
  collectors'; Session_Api (src/astl_telemetry): the C calls over one target and over all;
  Session_Recovery and Session_Properties: failed starts, failed flushes, and what a client may do
  after them.  Crop_Windows, Sample_Replay, Sample_Cropping and Crop_Properties: the windows of
  astlCropSamples, the rewriting of the cache file, the replay of cached raw samples; Replay_Visit:
  that a visit of a metric's samples, which replays under a batch visit, hands its consumer what
  rebuilding the metric would store.

  SCMI (src/impl/scmi).  Scmi_Text and Scmi_Collector: the value files and the sysfs collector with
  the process lock that all collectors of a process share; Scmi_Lifecycle: its interpretation of
  collector_lifecycle; Scmi_Restore: that the files it changes are restored; Scmi_Lock: that the lock
  counts its holders; Scmi_Clock: which clock its snapshot speaks of.  Scmi_Correlation: the spacing
  of correlation readings and the smallest offset among them.  Scmi_Ioctl: the collector over the
  ioctl interface; Scmi_Ioctl_Laws: its interpretation of collector_lifecycle and what it restores;
  Scmi_Ioctl_Clock: its clock snapshot.

  Libsensors (src/impl/libsensors): the collector over the sensors library, its interpretations of
  collector_lifecycle and strict_collector, and the log of what it may sink as an inductive relation.

  Files.  Read_Cache (utils/astl_read_file_handle_cache): the streams kept open between readings,
  refined against reading without a cache and against the list of the paths last read.

  How state and errors appear.  A class is a record of its members; a method returns its result
  with the updated record.  std::expected and status codes are values of the sum type result or
  of astl_status.  Integers that can wrap are words, or int with the wrap of int64 written out
  (wrap64).  Sinks, files, clocks, the environment and the expression evaluator tinyexpr are
  arguments of the definitions that use them.  Calls that take a mutex are atomic steps; the
  interleavings of threads are sequences of such steps.

  Bounds.  The loops that need not be structural are partial functions into option, and a property
  shows that each returns: VisitSampleSpanBatches (visit_batches_total, because
  ResolveSampleBatchSize never yields zero), AppendCachedRawSamples (raw_cache_lossless), and the
  evictions TrimToCapacity and open_or_evict (read_cache_bounded).  Every other loop is
  structural or has a termination proof, so no fuel is used.  The summarizers' guards on
  std::size_t keep their 2^64 - 1 bound.

  Not modelled.  The Windows PDH collector calls the performance API of Windows for every reading,
  and the library of libsensors is a parameter.  The wrapper of the ioctl system calls, the topology, the specification and the metric
  declarations of SCMI, the discovery of procfs counters, the metric builders and the loading of
  configurations rest on a JSON parser and on the machine they run on.  Saving and loading rest on
  classes generated from protobuf declarations.  The output writers format text into files, and the
  logger, the fuzzers and the tests state nothing of the library.  Of the C API the calls that
  enumerate targets, counters and metrics into buffers of the caller are left out.
\<close>

end
